(* ===== verification/Prelude.thy ===== *)
theory Prelude
  imports Main "HOL-Library.Sublist"
begin

text \<open>
  Shared vocabulary of the development: the JavaScript string operations the code uses, the
  error-or-value results, and the state-and-error programs that stand for \<open>async\<close> code.

  A JavaScript string is modelled as a \<open>string\<close> (a list of code units below 256); the
  operations below are those of the language's standard library, restricted to that range
  (\<open>trim\<close> and \<open>\s\<close> know the no-break space, \<open>toLowerCase\<close> the Latin-1 letters).
\<close>

named_theorems io_simps \<open>unfolding the io combinators\<close>
named_theorems result_iff \<open>inversion of results\<close>

section \<open>Strings\<close>

definition startsWith :: "string \<Rightarrow> string \<Rightarrow> bool" where
  "startsWith s p \<longleftrightarrow> take (length p) s = p"

definition endsWith :: "string \<Rightarrow> string \<Rightarrow> bool" where
  "endsWith s p \<longleftrightarrow> length p \<le> length s \<and> drop (length s - length p) s = p"

fun str_includes :: "string \<Rightarrow> string \<Rightarrow> bool" where
  "str_includes [] p = (p = [])"
| "str_includes (c # s) p = (startsWith (c # s) p \<or> str_includes s p)"

lemma startsWith_append [simp]: "startsWith (p @ s) p"
  by (simp add: startsWith_def)

lemma startsWith_iff: "startsWith s p \<longleftrightarrow> (\<exists>r. s = p @ r)"
  by (metis append_eq_conv_conj append_take_drop_id startsWith_def)

lemma startsWith_Nil [simp]: "startsWith s []"
  by (simp add: startsWith_def)

lemma startsWith_Cons [simp]:
  "startsWith (c # s) (d # p) \<longleftrightarrow> c = d \<and> startsWith s p"
  "\<not> startsWith [] (d # p)"
  by (auto simp: startsWith_def)

text \<open>\<open>s.split(c)\<close> for a one-character separator: never empty.\<close>

fun split_on :: "char \<Rightarrow> string \<Rightarrow> string list" where
  "split_on c [] = [[]]"
| "split_on c (x # xs) =
     (if x = c then [] # split_on c xs
      else (case split_on c xs of [] \<Rightarrow> [[x]] | w # ws \<Rightarrow> (x # w) # ws))"

text \<open>\<open>xs.join(sep)\<close>.\<close>

fun join :: "string \<Rightarrow> string list \<Rightarrow> string" where
  "join sep [] = []"
| "join sep [x] = x"
| "join sep (x # y # xs) = x @ sep @ join sep (y # xs)"

lemma split_on_not_Nil [simp]: "split_on c s \<noteq> []"
  by (induction s) (auto split: list.splits)

lemma split_on_no_sep: "c \<notin> set s \<Longrightarrow> split_on c s = [s]"
  by (induction s) auto

lemma split_on_append:
  "c \<notin> set s \<Longrightarrow> split_on c (s @ c # t) = s # split_on c t"
  by (induction s) (auto split: list.splits)

lemma split_on_parts: "w \<in> set (split_on c s) \<Longrightarrow> c \<notin> set w"
proof (induction s arbitrary: w)
  case Nil
  then show ?case by simp
next
  case (Cons x xs)
  obtain v vs where vs: "split_on c xs = v # vs"
    by (meson neq_Nil_conv split_on_not_Nil)
  with Cons show ?case by (auto split: if_splits)
qed

lemma join_split_on: "join [c] (split_on c s) = s"
proof (induction s)
  case Nil
  show ?case by simp
next
  case (Cons x xs)
  obtain v vs where vs: "split_on c xs = v # vs"
    by (meson neq_Nil_conv split_on_not_Nil)
  with Cons show ?case by (cases vs) auto
qed

lemma split_on_join:
  "ws \<noteq> [] \<Longrightarrow> \<forall>w \<in> set ws. c \<notin> set w \<Longrightarrow> split_on c (join [c] ws) = ws"
  by (induction "[c]" ws rule: join.induct) (auto simp: split_on_no_sep split_on_append)

subsection \<open>White space\<close>

text \<open>The white-space and line-terminator code units below 256 (ECMA-262, 12.2 and 12.3).\<close>

definition js_ws :: "char \<Rightarrow> bool" where
  "js_ws c \<longleftrightarrow> c \<in> {CHR 0x09, CHR 0x0A, CHR 0x0B, CHR 0x0C, CHR 0x0D, CHR 0x20, CHR 0xA0}"

definition trimStart :: "string \<Rightarrow> string" where
  "trimStart s = dropWhile js_ws s"

definition trimEnd :: "string \<Rightarrow> string" where
  "trimEnd s = rev (dropWhile js_ws (rev s))"

definition trim :: "string \<Rightarrow> string" where
  "trim s = trimEnd (trimStart s)"

lemma dropWhile_id: "xs = [] \<or> \<not> P (hd xs) \<Longrightarrow> dropWhile P xs = xs"
  by (cases xs) auto

lemma trimEnd_id: "s = [] \<or> \<not> js_ws (last s) \<Longrightarrow> trimEnd s = s"
  by (auto simp: trimEnd_def dropWhile_id hd_rev)

lemma trim_id: "s = [] \<or> (\<not> js_ws (hd s) \<and> \<not> js_ws (last s)) \<Longrightarrow> trim s = s"
  by (auto simp: trim_def trimStart_def dropWhile_id trimEnd_id)

lemma trimEnd_no_ws_last: "trimEnd s \<noteq> [] \<Longrightarrow> \<not> js_ws (last (trimEnd s))"
  unfolding trimEnd_def by (metis hd_dropWhile last_rev rev_is_Nil_conv)

lemma trimEnd_prefix: "\<exists>r. s = trimEnd s @ r \<and> (\<forall>c \<in> set r. js_ws c)"
proof -
  have "rev s = takeWhile js_ws (rev s) @ dropWhile js_ws (rev s)" by simp
  then have "s = rev (dropWhile js_ws (rev s)) @ rev (takeWhile js_ws (rev s))"
    by (metis rev_append rev_rev_ident)
  then show ?thesis
    unfolding trimEnd_def by (metis set_rev set_takeWhileD)
qed

lemma set_trim: "set (trim s) \<subseteq> set s"
  unfolding trim_def trimEnd_def trimStart_def
  by (metis (no_types, lifting) set_dropWhileD set_rev subsetI)

lemma trim_all_ws: "(trim s = []) \<longleftrightarrow> (\<forall>c \<in> set s. js_ws c)"
proof
  assume "trim s = []"
  then have "\<forall>c \<in> set (dropWhile js_ws s). js_ws c"
    by (simp add: trim_def trimEnd_def trimStart_def dropWhile_eq_Nil_conv)
  then have "dropWhile js_ws s = []"
    by (metis hd_dropWhile list.set_sel(1))
  then show "\<forall>c \<in> set s. js_ws c" by (simp add: dropWhile_eq_Nil_conv)
next
  assume "\<forall>c \<in> set s. js_ws c"
  then show "trim s = []"
    by (auto simp: trim_def trimEnd_def trimStart_def dest: set_dropWhileD)
qed

lemma trim_ends:
  assumes "trim s \<noteq> []"
  shows "\<not> js_ws (hd (trim s))" "\<not> js_ws (last (trim s))"
proof -
  let ?t = "trimStart s"
  obtain r where r: "?t = trimEnd ?t @ r" using trimEnd_prefix by blast
  have "trimEnd ?t \<noteq> []" using assms by (simp add: trim_def)
  then have "hd ?t = hd (trim s)" by (subst r) (simp add: trim_def)
  moreover have "?t \<noteq> []" using r \<open>trimEnd ?t \<noteq> []\<close> by force
  then have "\<not> js_ws (hd ?t)" unfolding trimStart_def by (rule hd_dropWhile)
  ultimately show "\<not> js_ws (hd (trim s))" by simp
  show "\<not> js_ws (last (trim s))"
    using assms unfolding trim_def by (rule trimEnd_no_ws_last)
qed

lemma trim_Nil [simp]: "trim [] = []"
  by (simp add: trim_def trimStart_def trimEnd_def)

lemma trim_trim [simp]: "trim (trim s) = trim s"
  by (cases "trim s = []") (auto intro!: trim_id trim_ends)

text \<open>\<open>s.split(/\s+/)\<close>: the maximal runs without white space, with the empty pieces at the ends.\<close>

fun split_ws_aux :: "bool \<Rightarrow> string \<Rightarrow> string list" where
  "split_ws_aux prev [] = [[]]"
| "split_ws_aux prev (x # xs) =
     (if js_ws x then (if prev then split_ws_aux True xs else [] # split_ws_aux True xs)
      else (case split_ws_aux False xs of [] \<Rightarrow> [[x]] | w # ws \<Rightarrow> (x # w) # ws))"

definition split_ws :: "string \<Rightarrow> string list" where
  "split_ws s = split_ws_aux False s"

lemma split_ws_aux_not_Nil [simp]: "split_ws_aux b s \<noteq> []"
  by (induction b s rule: split_ws_aux.induct) (auto split: list.splits)

lemma split_ws_aux_parts:
  "w \<in> set (split_ws_aux b s) \<Longrightarrow> set w \<subseteq> set s \<and> (\<forall>c \<in> set w. \<not> js_ws c)"
proof (induction b s arbitrary: w rule: split_ws_aux.induct)
  case (1 prev)
  then show ?case by simp
next
  case (2 prev x xs)
  obtain v vs where vs: "split_ws_aux False xs = v # vs"
    by (meson neq_Nil_conv split_ws_aux_not_Nil)
  show ?case
  proof (cases "js_ws x")
    case True
    with 2 show ?thesis by (auto split: if_splits)
  next
    case False
    with "2.prems" vs consider "w = x # v" | "w \<in> set vs" by auto
    then show ?thesis using False "2.IH"(3)[OF False] vs by cases auto
  qed
qed

subsection \<open>Case, digits, numbers\<close>

text \<open>\<open>toLowerCase\<close> on code units below 256.\<close>

definition char_lower :: "char \<Rightarrow> char" where
  "char_lower c = (let n = of_char c :: nat in
     if (65 \<le> n \<and> n \<le> 90) \<or> (192 \<le> n \<and> n \<le> 222 \<and> n \<noteq> 215) then char_of (n + 32) else c)"

definition toLowerCase :: "string \<Rightarrow> string" where
  "toLowerCase s = map char_lower s"

definition is_digit :: "char \<Rightarrow> bool" where
  "is_digit c \<longleftrightarrow> (let n = of_char c :: nat in 48 \<le> n \<and> n \<le> 57)"

definition is_lower_alpha :: "char \<Rightarrow> bool" where
  "is_lower_alpha c \<longleftrightarrow> (let n = of_char c :: nat in 97 \<le> n \<and> n \<le> 122)"

definition is_upper_alpha :: "char \<Rightarrow> bool" where
  "is_upper_alpha c \<longleftrightarrow> (let n = of_char c :: nat in 65 \<le> n \<and> n \<le> 90)"

definition is_alnum :: "char \<Rightarrow> bool" where
  "is_alnum c \<longleftrightarrow> is_digit c \<or> is_lower_alpha c \<or> is_upper_alpha c"

definition is_lower_alnum :: "char \<Rightarrow> bool" where
  "is_lower_alnum c \<longleftrightarrow> is_digit c \<or> is_lower_alpha c"

lemmas char_class_defs =
  is_digit_def is_lower_alpha_def is_upper_alpha_def is_alnum_def is_lower_alnum_def Let_def

definition digit_char :: "nat \<Rightarrow> char" where
  "digit_char d = char_of (48 + d)"

fun show_nat :: "nat \<Rightarrow> string" where
  "show_nat n = (if n < 10 then [digit_char n] else show_nat (n div 10) @ [digit_char (n mod 10)])"

declare show_nat.simps [simp del]

definition show_int :: "int \<Rightarrow> string" where
  "show_int i = (if i < 0 then CHR ''-'' # show_nat (nat (- i)) else show_nat (nat i))"

definition digit_val :: "char \<Rightarrow> nat" where
  "digit_val c = of_char c - 48"

definition read_nat :: "string \<Rightarrow> nat" where
  "read_nat s = foldl (\<lambda>n c. 10 * n + digit_val c) 0 s"

lemma of_char_digit_char [simp]: "d < 10 \<Longrightarrow> of_char (digit_char d) = (48 + d :: nat)"
  by (simp add: digit_char_def of_char_of)

lemma digit_val_char [simp]: "d < 10 \<Longrightarrow> digit_val (digit_char d) = d"
  by (simp add: digit_val_def)

lemma is_digit_char [simp]: "d < 10 \<Longrightarrow> is_digit (digit_char d)"
  by (simp add: is_digit_def)

lemma read_nat_snoc: "read_nat (s @ [c]) = 10 * read_nat s + digit_val c"
  by (simp add: read_nat_def)

lemma show_nat_digits: "\<forall>c \<in> set (show_nat n). is_digit c"
proof (induction n rule: show_nat.induct)
  case (1 n)
  then show ?case by (cases "n < 10") (auto simp: show_nat.simps [of n])
qed

lemma show_nat_not_Nil [simp]: "show_nat n \<noteq> []"
  by (subst show_nat.simps) simp

lemma read_show_nat [simp]: "read_nat (show_nat n) = n"
proof (induction n rule: show_nat.induct)
  case (1 n)
  show ?case
  proof (cases "n < 10")
    case True
    then show ?thesis by (simp add: show_nat.simps [of n] read_nat_def)
  next
    case False
    with 1 have "read_nat (show_nat (n div 10)) = n div 10" by simp
    with False show ?thesis by (simp add: show_nat.simps [of n] read_nat_snoc)
  qed
qed

lemma show_nat_inject [simp]: "show_nat m = show_nat n \<longleftrightarrow> m = n"
  by (metis read_show_nat)

lemma is_digit_not_ws: "is_digit c \<Longrightarrow> \<not> js_ws c"
  by (auto simp: is_digit_def js_ws_def Let_def)

text \<open>\<open>s.slice(a)\<close> and \<open>s.slice(a, b)\<close> for indices that are not negative.\<close>

definition slice_from :: "string \<Rightarrow> nat \<Rightarrow> string" where
  "slice_from s a = drop a s"

definition slice :: "string \<Rightarrow> nat \<Rightarrow> nat \<Rightarrow> string" where
  "slice s a b = take (b - a) (drop a s)"

text \<open>\<open>a ?? b\<close> on nullable values and \<open>a || b\<close> on strings.\<close>

definition nullish_or :: "'a option \<Rightarrow> 'a option \<Rightarrow> 'a option" where
  "nullish_or a b = (case a of None \<Rightarrow> b | Some x \<Rightarrow> Some x)"

lemma nullish_or_simps [simp]:
  "nullish_or None b = b" "nullish_or (Some x) b = Some x" "nullish_or a None = a"
  by (auto simp: nullish_or_def split: option.splits)

definition string_or :: "string \<Rightarrow> string \<Rightarrow> string" where
  "string_or a b = (if a = [] then b else a)"

text \<open>\<open>xs.find(p)\<close> and \<open>xs.findIndex(p)\<close>.\<close>

fun find_index :: "('a \<Rightarrow> bool) \<Rightarrow> 'a list \<Rightarrow> nat option" where
  "find_index p [] = None"
| "find_index p (x # xs) = (if p x then Some 0 else map_option Suc (find_index p xs))"

lemma find_index_Some:
  "find_index p xs = Some i \<Longrightarrow> i < length xs \<and> p (xs ! i) \<and> (\<forall>j < i. \<not> p (xs ! j))"
proof (induction xs arbitrary: i)
  case Nil
  then show ?case by simp
next
  case (Cons x xs)
  show ?case
  proof (cases "p x")
    case True
    with Cons.prems show ?thesis by simp
  next
    case False
    with Cons.prems obtain j where "i = Suc j" "find_index p xs = Some j" by auto
    with False Cons.IH [of j] show ?thesis by (auto simp: less_Suc_eq_0_disj)
  qed
qed

lemma find_index_None: "find_index p xs = None \<longleftrightarrow> (\<forall>x \<in> set xs. \<not> p x)"
  by (induction xs) auto

lemma find_index_takeWhile:
  "find_index p xs = Some i \<Longrightarrow> take i xs = takeWhile (\<lambda>x. \<not> p x) (xs @ ys)"
proof (induction xs arbitrary: i)
  case (Cons x xs)
  then show ?case by (cases "p x") auto
qed simp

text \<open>Updating, in place, the element \<open>xs.find(p)\<close> returns.\<close>

fun map_first :: "('a \<Rightarrow> bool) \<Rightarrow> ('a \<Rightarrow> 'a) \<Rightarrow> 'a list \<Rightarrow> 'a list" where
  "map_first p f [] = []"
| "map_first p f (x # xs) = (if p x then f x # xs else x # map_first p f xs)"

lemma length_map_first [simp]: "length (map_first p f xs) = length xs"
  by (induction xs) auto

lemma map_first_id: "\<forall>x \<in> set xs. \<not> p x \<Longrightarrow> map_first p f xs = xs"
  by (induction xs) auto

lemma find_map_first: "(\<And>x. p x \<Longrightarrow> p (f x)) \<Longrightarrow> find p (map_first p f xs) = map_option f (find p xs)"
  by (induction xs) auto

lemma filter_map_first_kill:
  "(\<And>x. p x \<Longrightarrow> \<not> p (f x)) \<Longrightarrow> filter p (map_first p f xs) = tl (filter p xs)"
  by (induction xs) auto

lemma filter_map_first_keep:
  "(\<And>x. p x \<Longrightarrow> p (f x)) \<Longrightarrow> length (filter p (map_first p f xs)) = length (filter p xs)"
  by (induction xs) auto

lemma filter_not_map_first:
  "(\<And>x. p x \<Longrightarrow> p (f x)) \<Longrightarrow> filter (\<lambda>x. \<not> p x) (map_first p f xs) = filter (\<lambda>x. \<not> p x) xs"
  by (induction xs) auto

lemma map_first_append:
  "\<forall>x \<in> set xs. \<not> p x \<Longrightarrow> map_first p f (xs @ ys) = xs @ map_first p f ys"
  by (induction xs) auto

lemma find_SomeD: "find p xs = Some x \<Longrightarrow> x \<in> set xs \<and> p x"
  by (induction xs) (auto split: if_splits)

lemma find_append:
  "\<forall>x \<in> set xs. \<not> p x \<Longrightarrow> find p (xs @ ys) = find p ys"
  by (induction xs) auto

text \<open>Filtering and mapping an indexed list, as a \<open>for\<close> loop over the indices does.\<close>

definition indexed :: "'a list \<Rightarrow> (nat \<times> 'a) list" where
  "indexed xs = zip [0..<length xs] xs"

lemma length_indexed [simp]: "length (indexed xs) = length xs"
  by (simp add: indexed_def)

lemma nth_indexed [simp]: "i < length xs \<Longrightarrow> indexed xs ! i = (i, xs ! i)"
  by (simp add: indexed_def)

lemma set_indexed: "(i, x) \<in> set (indexed xs) \<longleftrightarrow> i < length xs \<and> xs ! i = x"
  by (force simp: indexed_def set_zip)

text \<open>\<open>o[k] = v\<close> and \<open>Map.set\<close>: a new key goes last, a known one keeps its place.\<close>

fun set_key :: "'k \<Rightarrow> 'v \<Rightarrow> ('k \<times> 'v) list \<Rightarrow> ('k \<times> 'v) list" where
  "set_key k v [] = [(k, v)]"
| "set_key k v (e # kvs) = (if fst e = k then (k, v) # kvs else e # set_key k v kvs)"

lemma map_of_set_key [simp]: "map_of (set_key k v kvs) = (map_of kvs)(k \<mapsto> v)"
  by (induction kvs) auto

lemma set_set_key: "e \<in> set (set_key k v kvs) \<Longrightarrow> e = (k, v) \<or> e \<in> set kvs"
  by (induction kvs) (auto split: if_splits)

lemma keys_set_key: "map fst (set_key k v kvs) =
  (if k \<in> set (map fst kvs) then map fst kvs else map fst kvs @ [k])"
  by (induction kvs) auto

lemma distinct_set_key: "distinct (map fst kvs) \<Longrightarrow> distinct (map fst (set_key k v kvs))"
  unfolding keys_set_key by simp

section \<open>Results\<close>

text \<open>A computation that may throw: \<open>Inl\<close> the message of the thrown \<open>Error\<close>.\<close>

type_synonym 'a result = "string + 'a"

definition rbind :: "'a result \<Rightarrow> ('a \<Rightarrow> 'b result) \<Rightarrow> 'b result" where
  "rbind m f = (case m of Inl e \<Rightarrow> Inl e | Inr x \<Rightarrow> f x)"

lemma rbind_simps [simp]: "rbind (Inl e) f = Inl e" "rbind (Inr x) f = f x"
  by (simp_all add: rbind_def)

lemma rbind_Inr_iff [result_iff]: "rbind m f = Inr y \<longleftrightarrow> (\<exists>x. m = Inr x \<and> f x = Inr y)"
  by (cases m) auto

definition guard :: "bool \<Rightarrow> string \<Rightarrow> unit result" where
  "guard ok msg = (if ok then Inr () else Inl msg)"

lemma guard_Inr_iff [result_iff]: "guard ok msg = Inr u \<longleftrightarrow> ok"
  by (simp add: guard_def)

text \<open>\<open>xs.map(f)\<close> for an \<open>f\<close> that may throw: the first throw wins.\<close>

fun map_result :: "('a \<Rightarrow> 'b result) \<Rightarrow> 'a list \<Rightarrow> 'b list result" where
  "map_result f [] = Inr []"
| "map_result f (x # xs) = rbind (f x) (\<lambda>y. rbind (map_result f xs) (\<lambda>ys. Inr (y # ys)))"

lemma map_result_map:
  "\<forall>x \<in> set xs. f (g x) = Inr x \<Longrightarrow> map_result f (map g xs) = Inr xs"
  by (induction xs) auto

lemma map_result_Inr_iff: "map_result f xs = Inr ys \<longleftrightarrow> list_all2 (\<lambda>x y. f x = Inr y) xs ys"
  by (induction xs arbitrary: ys) (auto simp: result_iff list_all2_Cons1)

section \<open>Programs over a world\<close>

text \<open>
  An \<open>async\<close> function is a program over the state of the host it acts on (the git repository,
  the file system, the user interface): it returns or throws, and leaves a new state.
\<close>

type_synonym ('w, 'a) io = "'w \<Rightarrow> 'a result \<times> 'w"

definition io_return :: "'a \<Rightarrow> ('w, 'a) io" where
  "io_return x = (\<lambda>w. (Inr x, w))"

definition io_throw :: "string \<Rightarrow> ('w, 'a) io" where
  "io_throw e = (\<lambda>w. (Inl e, w))"

definition io_lift :: "'a result \<Rightarrow> ('w, 'a) io" where
  "io_lift r = (\<lambda>w. (r, w))"

definition io_bind :: "('w, 'a) io \<Rightarrow> ('a \<Rightarrow> ('w, 'b) io) \<Rightarrow> ('w, 'b) io" where
  "io_bind m f = (\<lambda>w. case m w of (Inl e, w') \<Rightarrow> (Inl e, w') | (Inr x, w') \<Rightarrow> f x w')"

text \<open>\<open>try { m } catch (e) { h e }\<close>.\<close>

definition io_catch :: "('w, 'a) io \<Rightarrow> (string \<Rightarrow> ('w, 'a) io) \<Rightarrow> ('w, 'a) io" where
  "io_catch m h = (\<lambda>w. case m w of (Inl e, w') \<Rightarrow> h e w' | (Inr x, w') \<Rightarrow> (Inr x, w'))"

text \<open>\<open>try { m } finally { c }\<close>: the clean-up runs either way, and its own throw wins.\<close>

definition io_finally :: "('w, 'a) io \<Rightarrow> ('w, unit) io \<Rightarrow> ('w, 'a) io" where
  "io_finally m c = (\<lambda>w. case m w of (r, w') \<Rightarrow>
     (case c w' of (Inl e, w'') \<Rightarrow> (Inl e, w'') | (Inr _, w'') \<Rightarrow> (r, w'')))"

text \<open>\<open>m.catch(() => {})\<close>.\<close>

definition io_ignore :: "('w, unit) io \<Rightarrow> ('w, unit) io" where
  "io_ignore m = io_catch m (\<lambda>_. io_return ())"

text \<open>A loop over a list: \<open>for (const x of xs) acc = await f(acc, x)\<close>.\<close>

fun io_foldl :: "('b \<Rightarrow> 'a \<Rightarrow> ('w, 'b) io) \<Rightarrow> 'b \<Rightarrow> 'a list \<Rightarrow> ('w, 'b) io" where
  "io_foldl f acc [] = io_return acc"
| "io_foldl f acc (x # xs) = io_bind (f acc x) (\<lambda>acc'. io_foldl f acc' xs)"

lemma io_simps_basic [io_simps]:
  "io_return x w = (Inr x, w)"
  "io_throw e w = (Inl e, w)"
  "io_lift r w = (r, w)"
  by (simp_all add: io_return_def io_throw_def io_lift_def)

lemma io_bind_apply [io_simps]:
  "io_bind m f w = (case m w of (Inl e, w') \<Rightarrow> (Inl e, w') | (Inr x, w') \<Rightarrow> f x w')"
  by (simp add: io_bind_def)

lemma io_catch_apply [io_simps]:
  "io_catch m h w = (case m w of (Inl e, w') \<Rightarrow> h e w' | (Inr x, w') \<Rightarrow> (Inr x, w'))"
  by (simp add: io_catch_def)

text \<open>
  \<open>hoare P m Q E\<close>: from a world in \<open>P\<close> the program either returns a value and a world in
  \<open>Q\<close> or throws in a world in \<open>E\<close>. The rules below carry the safety proofs of the programs
  that act on a repository.
\<close>

definition hoare ::
  "('w \<Rightarrow> bool) \<Rightarrow> ('w, 'a) io \<Rightarrow> ('a \<Rightarrow> 'w \<Rightarrow> bool) \<Rightarrow> ('w \<Rightarrow> bool) \<Rightarrow> bool" where
  "hoare P m Q E \<longleftrightarrow> (\<forall>w. P w \<longrightarrow>
     (case m w of (Inl e, w') \<Rightarrow> E w' | (Inr x, w') \<Rightarrow> Q x w'))"

lemma hoareI:
  assumes "\<And>w e w'. P w \<Longrightarrow> m w = (Inl e, w') \<Longrightarrow> E w'"
    and "\<And>w x w'. P w \<Longrightarrow> m w = (Inr x, w') \<Longrightarrow> Q x w'"
  shows "hoare P m Q E"
  unfolding hoare_def
proof (intro allI impI)
  fix w assume "P w"
  then show "case m w of (Inl e, w') \<Rightarrow> E w' | (Inr x, w') \<Rightarrow> Q x w'"
    using assms by (cases "m w"; cases "fst (m w)") auto
qed

lemma hoare_returns: "hoare P m Q E \<Longrightarrow> P w \<Longrightarrow> m w = (Inr x, w') \<Longrightarrow> Q x w'"
  unfolding hoare_def by force

lemma hoare_throws: "hoare P m Q E \<Longrightarrow> P w \<Longrightarrow> m w = (Inl e, w') \<Longrightarrow> E w'"
  unfolding hoare_def by force

lemma hoare_world: "hoare I m (\<lambda>_. I) I \<Longrightarrow> I w \<Longrightarrow> I (snd (m w))"
  by (cases "m w"; cases "fst (m w)") (auto dest: hoare_returns hoare_throws)

lemma hoare_weaken:
  assumes "hoare P m Q E" "\<And>w. P' w \<Longrightarrow> P w" "\<And>x w. Q x w \<Longrightarrow> Q' x w" "\<And>w. E w \<Longrightarrow> E' w"
  shows "hoare P' m Q' E'"
  using assms by (intro hoareI) (blast dest: hoare_returns hoare_throws)+

lemma hoare_return: "(\<And>w. P w \<Longrightarrow> Q x w) \<Longrightarrow> hoare P (io_return x) Q E"
  by (simp add: hoare_def io_simps)

lemma hoare_throw: "(\<And>w. P w \<Longrightarrow> E w) \<Longrightarrow> hoare P (io_throw e) Q E"
  by (simp add: hoare_def io_simps)

lemma hoare_lift:
  "(\<And>w x. P w \<Longrightarrow> r = Inr x \<Longrightarrow> Q x w) \<Longrightarrow> (\<And>w. P w \<Longrightarrow> E w) \<Longrightarrow> hoare P (io_lift r) Q E"
  by (cases r) (simp_all add: hoare_def io_simps)

lemma hoare_bind:
  assumes "hoare P m R E" and "\<And>x. hoare (R x) (f x) Q E"
  shows "hoare P (io_bind m f) Q E"
proof (rule hoareI)
  fix w e w' assume P: "P w" and run: "io_bind m f w = (Inl e, w')"
  obtain r v where m: "m w = (r, v)" by fastforce
  show "E w'"
  proof (cases r)
    case (Inl e')
    with m run have "w' = v" by (simp add: io_simps)
    with assms(1) P m Inl show ?thesis by (blast dest: hoare_throws)
  next
    case (Inr x)
    with m run have "f x v = (Inl e, w')" by (simp add: io_simps)
    moreover have "R x v" using assms(1) P m Inr by (blast dest: hoare_returns)
    ultimately show ?thesis using assms(2) by (blast dest: hoare_throws)
  qed
next
  fix w y w' assume P: "P w" and run: "io_bind m f w = (Inr y, w')"
  obtain r v where m: "m w = (r, v)" by fastforce
  with run obtain x where r: "r = Inr x" and f: "f x v = (Inr y, w')"
    by (cases r) (auto simp: io_simps)
  have "R x v" using assms(1) P m r by (blast dest: hoare_returns)
  with assms(2) f show "Q y w'" by (blast dest: hoare_returns)
qed

lemma hoare_catch:
  assumes "hoare P m Q R" and "\<And>e. hoare R (h e) Q E"
  shows "hoare P (io_catch m h) Q E"
proof (rule hoareI)
  fix w e w' assume P: "P w" and run: "io_catch m h w = (Inl e, w')"
  obtain r v where m: "m w = (r, v)" by fastforce
  with run obtain e' where r: "r = Inl e'" and h: "h e' v = (Inl e, w')"
    by (cases r) (auto simp: io_simps)
  have "R v" using assms(1) P m r by (blast dest: hoare_throws)
  with assms(2) h show "E w'" by (blast dest: hoare_throws)
next
  fix w y w' assume P: "P w" and run: "io_catch m h w = (Inr y, w')"
  obtain r v where m: "m w = (r, v)" by fastforce
  show "Q y w'"
  proof (cases r)
    case (Inl e')
    with m run have "h e' v = (Inr y, w')" by (simp add: io_simps)
    moreover have "R v" using assms(1) P m Inl by (blast dest: hoare_throws)
    ultimately show ?thesis using assms(2) by (blast dest: hoare_returns)
  next
    case (Inr x)
    with m run have "v = w'" "x = y" by (simp_all add: io_simps)
    with assms(1) P m Inr show ?thesis by (blast dest: hoare_returns)
  qed
qed

lemma hoare_finally:
  assumes "hoare P m (\<lambda>_. R) R" and "\<And>x. hoare R c (\<lambda>_. E) E"
  shows "hoare P (io_finally m c) (\<lambda>_. E) E"
proof (rule hoareI)
  fix w e w' assume P: "P w" and run: "io_finally m c w = (Inl e, w')"
  obtain r v where m: "m w = (r, v)" by fastforce
  then have R: "R v" using assms(1) P by (cases r) (auto dest: hoare_returns hoare_throws)
  obtain r' u where "c v = (r', u)" by fastforce
  moreover from this R have "E u" using assms(2) by (cases r') (auto dest: hoare_returns hoare_throws)
  ultimately show "E w'" using run m by (auto simp: io_finally_def split: sum.splits)
next
  fix w x w' assume P: "P w" and run: "io_finally m c w = (Inr x, w')"
  obtain r v where m: "m w = (r, v)" by fastforce
  then have R: "R v" using assms(1) P by (cases r) (auto dest: hoare_returns hoare_throws)
  obtain r' u where "c v = (r', u)" by fastforce
  moreover from this R have "E u" using assms(2) by (cases r') (auto dest: hoare_returns hoare_throws)
  ultimately show "E w'" using run m by (auto simp: io_finally_def split: sum.splits)
qed

lemma hoare_ignore: "hoare P m (\<lambda>_. Q) Q \<Longrightarrow> hoare P (io_ignore m) (\<lambda>_. Q) E"
  unfolding io_ignore_def by (rule hoare_catch) (auto intro: hoare_return)

lemma hoare_foldl:
  assumes "\<And>acc x. x \<in> set xs \<Longrightarrow> hoare (I acc) (f acc x) I E"
  shows "hoare (I acc) (io_foldl f acc xs) I E"
  using assms
proof (induction xs arbitrary: acc)
  case Nil
  then show ?case by (auto intro: hoare_return)
next
  case (Cons x xs)
  then show ?case by (auto intro!: hoare_bind)
qed

text \<open>Evaluate and keep the error, as \<open>try\<close> with a \<open>catch\<close> that goes on does.\<close>

definition io_try :: "('w, 'a) io \<Rightarrow> ('w, 'a result) io" where
  "io_try m = (\<lambda>w. case m w of (r, w') \<Rightarrow> (Inr r, w'))"

lemma hoare_try: "hoare P m Q E \<Longrightarrow> hoare P (io_try m) (\<lambda>r. case r of Inl _ \<Rightarrow> E | Inr x \<Rightarrow> Q x) E'"
  by (rule hoareI) (auto simp: io_try_def hoare_def split: sum.splits prod.splits)

lemma hoare_if:
  "(b \<Longrightarrow> hoare P m Q E) \<Longrightarrow> (\<not> b \<Longrightarrow> hoare P m' Q E) \<Longrightarrow> hoare P (if b then m else m') Q E"
  by simp

lemma hoare_pre_pure: "(b \<Longrightarrow> hoare P m Q E) \<Longrightarrow> hoare (\<lambda>w. b \<and> P w) m Q E"
  by (auto simp: hoare_def)

lemmas hoare_basic = hoare_return hoare_throw hoare_lift hoare_bind hoare_catch


section \<open>Display text\<close>

text \<open>
  \<open>s.replace(/\s+/g, " ")\<close>; the flag says that the last character was white space.
\<close>

fun squash_ws :: "bool \<Rightarrow> string \<Rightarrow> string" where
  "squash_ws b [] = []"
| "squash_ws b (c # s) = (if js_ws c then (if b then squash_ws True s else CHR '' '' # squash_ws True s) else c # squash_ws False s)"

definition collapse_ws :: "string \<Rightarrow> string" where
  "collapse_ws s = trim (squash_ws False s)"

text \<open>
  The ellipsis that ends shortened labels is U+2026, one code unit outside the modelled range; it is
  written as the otherwise unused code unit 0x85.
\<close>

definition ellipsis :: char where "ellipsis = CHR 0x85"

text \<open>\<open>s.length <= limit ? s : s.slice(0, limit - 1).trimEnd() + ellipsis\<close>.\<close>

definition shorten :: "nat \<Rightarrow> string \<Rightarrow> string" where
  "shorten limit s = (if length s \<le> limit then s else trimEnd (take (limit - 1) s) @ [ellipsis])"

lemma length_trimEnd: "length (trimEnd s) \<le> length s"
  using length_dropWhile_le [of js_ws "rev s"] by (simp add: trimEnd_def)

lemma length_shorten: "0 < limit \<Longrightarrow> length (shorten limit s) \<le> limit"
  using length_trimEnd [of "take (limit - 1) s"] by (auto simp: shorten_def)

lemma squash_ws_chars: "c \<in> set (squash_ws b s) \<Longrightarrow> c = CHR '' '' \<or> (c \<in> set s \<and> \<not> js_ws c)"
  by (induction b s rule: squash_ws.induct) (auto split: if_splits)

lemma collapse_ws_chars: "c \<in> set (collapse_ws s) \<Longrightarrow> c = CHR '' '' \<or> (c \<in> set s \<and> \<not> js_ws c)"
  using set_trim [of "squash_ws False s"] squash_ws_chars [of c False s] by (auto simp: collapse_ws_def)

lemma set_trimEnd: "set (trimEnd s) \<subseteq> set s"
  using set_dropWhileD [of _ js_ws "rev s"] by (auto simp: trimEnd_def)

lemma shorten_chars: "c \<in> set (shorten limit s) \<Longrightarrow> c = ellipsis \<or> c \<in> set s"
  using set_trimEnd [of "take (limit - 1) s"] set_take_subset [of "limit - 1" s] by (auto simp: shorten_def split: if_splits)

end
