(* ===== verification/Json.thy ===== *)
theory Json
  imports Prelude
begin

text \<open>
  JSON values as \<open>JSON.parse\<close> returns them and \<open>JSON.stringify\<close> takes them. The code builds and
  inspects values; the text form belongs to the language's library, so a function that returns
  \<open>JSON.stringify(v)\<close> is modelled as returning \<open>v\<close>. A number is an integer or, with its
  printed form, any other number: the code asks \<open>Number.isInteger\<close> and never computes with
  the rest. An object is the list of its own properties, each key once.
\<close>

datatype jsnum = IntNum int | OtherNum string

datatype json =
    JNull
  | JBool bool
  | JNum jsnum
  | JStr string
  | JArr "json list"
  | JObj "(string \<times> json) list"

text \<open>\<open>v.k\<close> on an object, \<open>None\<close> for \<open>undefined\<close>.\<close>

fun field :: "json \<Rightarrow> string \<Rightarrow> json option" where
  "field (JObj kvs) k = map_of kvs k"
| "field _ k = None"

fun isRecord :: "json \<Rightarrow> bool" where
  "isRecord (JObj _) = True"
| "isRecord _ = False"

fun is_string :: "json option \<Rightarrow> bool" where
  "is_string (Some (JStr _)) = True"
| "is_string _ = False"

fun is_boolean :: "json option \<Rightarrow> bool" where
  "is_boolean (Some (JBool _)) = True"
| "is_boolean _ = False"

fun is_integer :: "json option \<Rightarrow> bool" where
  "is_integer (Some (JNum (IntNum _))) = True"
| "is_integer _ = False"

text \<open>\<open>typeof v === "string" || v === null\<close>.\<close>

fun is_nullable_string :: "json option \<Rightarrow> bool" where
  "is_nullable_string (Some (JStr _)) = True"
| "is_nullable_string (Some JNull) = True"
| "is_nullable_string _ = False"

fun str_of :: "json option \<Rightarrow> string" where
  "str_of (Some (JStr s)) = s"
| "str_of _ = []"

fun bool_of :: "json option \<Rightarrow> bool" where
  "bool_of (Some (JBool b)) = b"
| "bool_of _ = False"

fun int_of :: "json option \<Rightarrow> int" where
  "int_of (Some (JNum (IntNum i))) = i"
| "int_of _ = 0"

fun nullable_str_of :: "json option \<Rightarrow> string option" where
  "nullable_str_of (Some (JStr s)) = Some s"
| "nullable_str_of _ = None"

text \<open>A nullable value as JSON.\<close>

definition nullable :: "('a \<Rightarrow> json) \<Rightarrow> 'a option \<Rightarrow> json" where
  "nullable enc x = (case x of None \<Rightarrow> JNull | Some v \<Rightarrow> enc v)"

lemma nullable_simps [simp]: "nullable enc None = JNull" "nullable enc (Some v) = enc v"
  by (simp_all add: nullable_def)

lemma nullable_str_inv [simp]: "nullable_str_of (Some (nullable JStr x)) = x"
  by (cases x) simp_all

lemma is_nullable_string_nullable [simp]: "is_nullable_string (Some (nullable JStr x))"
  by (cases x) simp_all

definition read_nullable :: "(json \<Rightarrow> 'a result) \<Rightarrow> json \<Rightarrow> 'a option result" where
  "read_nullable dec j = (if j = JNull then Inr None else rbind (dec j) (\<lambda>x. Inr (Some x)))"

text \<open>
  What a persisted type promises: its reader accepts what its writer wrote and gives the value
  back. Readers of nullable fields and of arrays inherit it.
\<close>

locale json_codec =
  fixes enc :: "'a \<Rightarrow> json" and dec :: "json \<Rightarrow> 'a result" and ok :: "'a \<Rightarrow> bool"
  assumes dec_enc: "ok x \<Longrightarrow> dec (enc x) = Inr x"
    and enc_not_null: "enc x \<noteq> JNull"
begin

lemma enc_inject: "ok x \<Longrightarrow> ok y \<Longrightarrow> enc x = enc y \<longleftrightarrow> x = y"
  by (metis dec_enc sum.inject(2))

lemma dec_nullable: "pred_option ok x \<Longrightarrow> read_nullable dec (nullable enc x) = Inr x"
  by (cases x) (simp_all add: read_nullable_def dec_enc enc_not_null)

lemma dec_list: "\<forall>x \<in> set xs. ok x \<Longrightarrow> map_result dec (map enc xs) = Inr xs"
  by (rule map_result_map) (simp add: dec_enc)

end

end
