(* ===== verification/SessionState.thy ===== *)
theory SessionState
  imports Json
begin

text \<open>
  The per-session state document of \<open>pi/core/session/state\<close>: its schema (\<open>model.ts\<close>), the file
  it is kept in (\<open>persistence.ts\<close>), what a forked session inherits (\<open>fork.ts\<close>) and the live
  cell with its title listeners (\<open>current.ts\<close>). The state directory is a map from file names
  to JSON values (\<open>None\<close>: missing or not JSON); the clock is an argument.
\<close>

section \<open>Schema\<close>

datatype agent_mode = Analysis | Planning | Work | Copilot

definition SESSION_STATE_AGENT_MODES :: "agent_mode list" where
  "SESSION_STATE_AGENT_MODES = [Analysis, Planning, Work, Copilot]"

fun agent_mode_name :: "agent_mode \<Rightarrow> string" where
  "agent_mode_name Analysis = ''analysis''"
| "agent_mode_name Planning = ''planning''"
| "agent_mode_name Work = ''work''"
| "agent_mode_name Copilot = ''copilot''"

definition SESSION_STATE_VERSION :: int where
  "SESSION_STATE_VERSION = 1"

record session_worktree =
  wt_kind :: string
  wt_label :: string
  wt_path :: string
  wt_branch :: "string option"
  wt_created :: bool

record active_worktree =
  aw_version :: int
  aw_repoName :: string
  aw_repoRoot :: string
  aw_remoteUrl :: "string option"
  aw_worktree :: session_worktree
  aw_updatedAt :: string

record session_identity =
  id_sessionId :: string
  id_sessionFile :: "string option"

record session_state =
  ss_version :: int
  ss_sessionId :: string
  ss_sessionFile :: "string option"
  ss_updatedAt :: string
  ss_activeWorktree :: "active_worktree option"
  ss_agentMode :: "agent_mode option"
  ss_title :: "string option"

section \<open>Persistence\<close>

definition file_char :: "char \<Rightarrow> bool" where
  "file_char c \<longleftrightarrow> is_alnum c \<or> c = CHR ''_'' \<or> c = CHR ''-''"

definition sessionStateFileName :: "string \<Rightarrow> string" where
  "sessionStateFileName sid = map (\<lambda>c. if file_char c then c else CHR ''_'') sid @ ''.json''"

definition createDefaultSessionState :: "session_identity \<Rightarrow> string \<Rightarrow> session_state" where
  "createDefaultSessionState i now =
     \<lparr>ss_version = SESSION_STATE_VERSION, ss_sessionId = id_sessionId i,
      ss_sessionFile = id_sessionFile i, ss_updatedAt = now, ss_activeWorktree = None,
      ss_agentMode = None, ss_title = None\<rparr>"

definition isSessionStateWorktree :: "json \<Rightarrow> bool" where
  "isSessionStateWorktree v \<longleftrightarrow>
     isRecord v \<and> is_string (field v ''kind'') \<and> is_string (field v ''label'')
     \<and> is_string (field v ''path'') \<and> is_nullable_string (field v ''branch'')
     \<and> is_boolean (field v ''created'')"

definition mode_of_name :: "string \<Rightarrow> agent_mode option" where
  "mode_of_name s = find (\<lambda>m. agent_mode_name m = s) SESSION_STATE_AGENT_MODES"

definition isAgentMode :: "json option \<Rightarrow> bool" where
  "isAgentMode v \<longleftrightarrow> is_string v \<and> mode_of_name (str_of v) \<noteq> None"

definition isSessionStateActiveWorktree :: "json \<Rightarrow> bool" where
  "isSessionStateActiveWorktree v \<longleftrightarrow>
     isRecord v \<and> field v ''version'' = Some (JNum (IntNum 1))
     \<and> is_string (field v ''repoName'') \<and> is_string (field v ''repoRoot'')
     \<and> is_nullable_string (field v ''remoteUrl'')
     \<and> (case field v ''worktree'' of None \<Rightarrow> False | Some w \<Rightarrow> isSessionStateWorktree w)
     \<and> is_string (field v ''updatedAt'')"

definition isSessionState :: "json \<Rightarrow> bool" where
  "isSessionState v \<longleftrightarrow>
     isRecord v \<and> field v ''version'' = Some (JNum (IntNum SESSION_STATE_VERSION))
     \<and> is_string (field v ''sessionId'') \<and> is_nullable_string (field v ''sessionFile'')
     \<and> is_string (field v ''updatedAt'')
     \<and> (case field v ''activeWorktree'' of None \<Rightarrow> False
        | Some w \<Rightarrow> w = JNull \<or> isSessionStateActiveWorktree w)
     \<and> is_nullable_string (field v ''agentMode'')
     \<and> is_nullable_string (field v ''title'')"

text \<open>Reading a value under its guard: the TypeScript narrowing.\<close>

definition as_worktree :: "json \<Rightarrow> session_worktree" where
  "as_worktree v = \<lparr>wt_kind = str_of (field v ''kind''), wt_label = str_of (field v ''label''),
     wt_path = str_of (field v ''path''), wt_branch = nullable_str_of (field v ''branch''),
     wt_created = bool_of (field v ''created'')\<rparr>"

definition as_active_worktree :: "json \<Rightarrow> active_worktree" where
  "as_active_worktree v = \<lparr>aw_version = int_of (field v ''version''),
     aw_repoName = str_of (field v ''repoName''), aw_repoRoot = str_of (field v ''repoRoot''),
     aw_remoteUrl = nullable_str_of (field v ''remoteUrl''),
     aw_worktree = as_worktree (the (field v ''worktree'')),
     aw_updatedAt = str_of (field v ''updatedAt'')\<rparr>"

text \<open>What \<open>JSON.stringify\<close> is given for each type.\<close>

definition worktree_json :: "session_worktree \<Rightarrow> json" where
  "worktree_json w = JObj [(''kind'', JStr (wt_kind w)), (''label'', JStr (wt_label w)),
     (''path'', JStr (wt_path w)), (''branch'', nullable JStr (wt_branch w)),
     (''created'', JBool (wt_created w))]"

definition active_worktree_json :: "active_worktree \<Rightarrow> json" where
  "active_worktree_json a = JObj [(''version'', JNum (IntNum (aw_version a))),
     (''repoName'', JStr (aw_repoName a)), (''repoRoot'', JStr (aw_repoRoot a)),
     (''remoteUrl'', nullable JStr (aw_remoteUrl a)),
     (''worktree'', worktree_json (aw_worktree a)), (''updatedAt'', JStr (aw_updatedAt a))]"

definition session_state_json :: "session_state \<Rightarrow> json" where
  "session_state_json s = JObj [(''version'', JNum (IntNum (ss_version s))),
     (''sessionId'', JStr (ss_sessionId s)), (''sessionFile'', nullable JStr (ss_sessionFile s)),
     (''updatedAt'', JStr (ss_updatedAt s)),
     (''activeWorktree'', nullable active_worktree_json (ss_activeWorktree s)),
     (''agentMode'', nullable (\<lambda>m. JStr (agent_mode_name m)) (ss_agentMode s)),
     (''title'', nullable JStr (ss_title s))]"

type_synonym state_dir = "string \<Rightarrow> json option"

definition loadSessionState ::
  "session_identity \<Rightarrow> string \<Rightarrow> state_dir \<Rightarrow> session_state" where
  "loadSessionState i now dir =
     (let defaults = createDefaultSessionState i now in
      case dir (sessionStateFileName (id_sessionId i)) of
        None \<Rightarrow> defaults
      | Some v \<Rightarrow>
          if \<not> isSessionState v then defaults
          else if str_of (field v ''sessionId'') \<noteq> id_sessionId i then defaults
          else if nullable_str_of (field v ''sessionFile'') \<noteq> id_sessionFile i then defaults
          else \<lparr>ss_version = SESSION_STATE_VERSION,
                ss_sessionId = str_of (field v ''sessionId''),
                ss_sessionFile = nullable_str_of (field v ''sessionFile''),
                ss_updatedAt = str_of (field v ''updatedAt''),
                ss_activeWorktree =
                  (if field v ''activeWorktree'' = Some JNull then None
                   else map_option as_active_worktree (field v ''activeWorktree'')),
                ss_agentMode =
                  (if isAgentMode (field v ''agentMode'')
                   then mode_of_name (str_of (field v ''agentMode'')) else None),
                ss_title = nullable_str_of (field v ''title'')\<rparr>)"

text \<open>
  Saving (\<open>writeJsonFileAtomic\<close> of \<open>files.ts\<close>): the document is written beside the file and moved over it. Each of
  the calls may throw; \<open>refused\<close> is the error of the one that does, and the file is then as it was.
\<close>

definition stored_state :: "session_state \<Rightarrow> string \<Rightarrow> state_dir \<Rightarrow> session_state \<times> state_dir" where
  "stored_state s now dir =
     (let nxt = s\<lparr>ss_version := SESSION_STATE_VERSION, ss_updatedAt := now\<rparr>
      in (nxt, dir(sessionStateFileName (ss_sessionId nxt) \<mapsto> session_state_json nxt)))"

definition saveSessionState ::
  "string option \<Rightarrow> session_state \<Rightarrow> string \<Rightarrow> state_dir \<Rightarrow> (session_state \<times> state_dir) result" where
  "saveSessionState refused s now dir = (case refused of Some e \<Rightarrow> Inl e | None \<Rightarrow> Inr (stored_state s now dir))"

lemma saveSessionState_Inr [simp]:
  "saveSessionState refused s now dir = Inr x \<longleftrightarrow> refused = None \<and> x = stored_state s now dir"
  by (auto simp: saveSessionState_def split: option.splits)

section \<open>Fork inheritance\<close>

text \<open>
  \<open>readFirstJsonlLine\<close> reads the transcript in chunks of 4096 bytes, up to 64 KiB, and stops at
  the first newline. The file is its remaining content; \<open>chunks\<close> is the text read so far.
\<close>

definition chunk_size :: nat where "chunk_size = 4096"
definition maxHeaderBytes :: nat where "maxHeaderBytes = 65536"

function read_header_loop :: "nat \<Rightarrow> string \<Rightarrow> string option \<Rightarrow> string option" where
  "read_header_loop totalBytes rest chunks =
     (if totalBytes < maxHeaderBytes then
        (let chunk = take (min chunk_size (maxHeaderBytes - totalBytes)) rest in
         if chunk = [] then chunks
         else (case find_index (\<lambda>c. c = CHR 0x0A) chunk of
             Some nl \<Rightarrow> Some (concat (case chunks of None \<Rightarrow> [] | Some t \<Rightarrow> [t]) @ take nl chunk)
           | None \<Rightarrow> read_header_loop (totalBytes + length chunk) (drop (length chunk) rest)
               (Some (concat (case chunks of None \<Rightarrow> [] | Some t \<Rightarrow> [t]) @ chunk))))
      else chunks)"
  by pat_completeness auto
termination
  by (relation "measure (\<lambda>(totalBytes, rest, chunks). length rest)") (auto simp: Let_def)

declare read_header_loop.simps [simp del]

definition readFirstJsonlLine :: "string option \<Rightarrow> string option" where
  "readFirstJsonlLine file =
     (case file of None \<Rightarrow> None | Some content \<Rightarrow> read_header_loop 0 content None)"

text \<open>\<open>parse\<close> is \<open>JSON.parse\<close>: \<open>None\<close> where it throws.\<close>

definition readSessionIdFromTranscriptHeader ::
  "(string \<Rightarrow> json option) \<Rightarrow> string option \<Rightarrow> string option" where
  "readSessionIdFromTranscriptHeader parse file =
     (case readFirstJsonlLine file of
        None \<Rightarrow> None
      | Some line \<Rightarrow>
          if line = [] then None
          else (case parse line of
              None \<Rightarrow> None
            | Some v \<Rightarrow>
                if \<not> isRecord v then None
                else if field v ''type'' \<noteq> Some (JStr ''session'') then None
                else (if is_string (field v ''id'') then Some (str_of (field v ''id'')) else None)))"

definition getParentSessionFileFromHeader :: "string option \<Rightarrow> string option" where
  "getParentSessionFileFromHeader parentSession =
     (case parentSession of None \<Rightarrow> None | Some p \<Rightarrow> if p = [] then None else Some p)"

definition resolveParentSessionFile :: "string option \<Rightarrow> string option \<Rightarrow> string option" where
  "resolveParentSessionFile previousSessionFile headerParent =
     (case previousSessionFile of
        Some p \<Rightarrow> if p \<noteq> [] then Some p else getParentSessionFileFromHeader headerParent
      | None \<Rightarrow> getParentSessionFileFromHeader headerParent)"

record inherited_fields =
  in_activeWorktree :: "active_worktree option"
  in_agentMode :: "agent_mode option"
  in_title :: "string option"

definition loadForkInheritedFields ::
  "(string \<Rightarrow> json option) \<Rightarrow> (string \<Rightarrow> string option) \<Rightarrow> string \<Rightarrow> string \<Rightarrow> state_dir
   \<Rightarrow> inherited_fields option" where
  "loadForkInheritedFields parse transcripts parentFile now dir =
     (case readSessionIdFromTranscriptHeader parse (transcripts parentFile) of
        None \<Rightarrow> None
      | Some pid \<Rightarrow>
          if pid = [] then None
          else (let p = loadSessionState \<lparr>id_sessionId = pid, id_sessionFile = Some parentFile\<rparr> now dir
            in Some \<lparr>in_activeWorktree = ss_activeWorktree p, in_agentMode = ss_agentMode p,
                     in_title = ss_title p\<rparr>))"

section \<open>The live cell\<close>

text \<open>
  \<open>sr_notified\<close> records, in order, the titles the listeners were called with (each listener
  once per change); a throwing listener does not stop the others.
\<close>

record session_runtime =
  sr_current :: "session_state option"
  sr_dir :: state_dir
  sr_listeners :: "nat list"
  sr_notified :: "(nat \<times> string option) list"

record session_patch =
  sp_activeWorktree :: "active_worktree option option"
  sp_agentMode :: "agent_mode option option"
  sp_title :: "string option option"

definition no_patch :: session_patch where
  "no_patch = \<lparr>sp_activeWorktree = None, sp_agentMode = None, sp_title = None\<rparr>"

definition apply_patch :: "session_state \<Rightarrow> session_patch \<Rightarrow> session_state" where
  "apply_patch s p = s
     \<lparr>ss_activeWorktree := (case sp_activeWorktree p of None \<Rightarrow> ss_activeWorktree s | Some x \<Rightarrow> x),
      ss_agentMode := (case sp_agentMode p of None \<Rightarrow> ss_agentMode s | Some x \<Rightarrow> x),
      ss_title := (case sp_title p of None \<Rightarrow> ss_title s | Some x \<Rightarrow> x)\<rparr>"

definition initializeCurrentSessionState ::
  "session_identity \<Rightarrow> string \<Rightarrow> session_runtime \<Rightarrow> session_runtime" where
  "initializeCurrentSessionState i now r =
     r\<lparr>sr_current := Some (loadSessionState i now (sr_dir r))\<rparr>"

record session_start_event =
  ev_reason :: string
  ev_previousSessionFile :: "string option"
  ev_headerParent :: "string option"

definition initializeCurrentSessionStateForEvent ::
  "(string \<Rightarrow> json option) \<Rightarrow> (string \<Rightarrow> string option) \<Rightarrow> session_start_event
   \<Rightarrow> session_identity \<Rightarrow> string option \<Rightarrow> string \<Rightarrow> session_runtime \<Rightarrow> session_runtime result" where
  "initializeCurrentSessionStateForEvent parse transcripts ev i refused now r =
     (if ev_reason ev \<noteq> ''fork'' then Inr (initializeCurrentSessionState i now r)
      else
        let child = createDefaultSessionState i now;
            parentFile = resolveParentSessionFile (ev_previousSessionFile ev) (ev_headerParent ev);
            inherited = (case parentFile of None \<Rightarrow> None
              | Some f \<Rightarrow> loadForkInheritedFields parse transcripts f now (sr_dir r));
            merged = (case inherited of None \<Rightarrow> child
              | Some f \<Rightarrow> child\<lparr>ss_activeWorktree := in_activeWorktree f,
                  ss_agentMode := in_agentMode f, ss_title := in_title f\<rparr>)
        in rbind (saveSessionState refused merged now (sr_dir r))
             (\<lambda>(saved, dir). Inr (r\<lparr>sr_current := Some saved, sr_dir := dir\<rparr>)))"

definition ensureCurrentSessionStateForEvent ::
  "(string \<Rightarrow> json option) \<Rightarrow> (string \<Rightarrow> string option) \<Rightarrow> session_start_event
   \<Rightarrow> session_identity \<Rightarrow> string option \<Rightarrow> string \<Rightarrow> session_runtime \<Rightarrow> session_runtime result" where
  "ensureCurrentSessionStateForEvent parse transcripts ev i refused now r =
     (case sr_current r of
        Some c \<Rightarrow>
          if ss_sessionId c = id_sessionId i \<and> ss_sessionFile c = id_sessionFile i then Inr r
          else initializeCurrentSessionStateForEvent parse transcripts ev i refused now r
      | None \<Rightarrow> initializeCurrentSessionStateForEvent parse transcripts ev i refused now r)"

definition notifyTitleChange :: "session_state \<Rightarrow> session_runtime \<Rightarrow> session_runtime" where
  "notifyTitleChange s r =
     r\<lparr>sr_notified := sr_notified r @ map (\<lambda>l. (l, ss_title s)) (sr_listeners r)\<rparr>"

definition onCurrentSessionTitleChange :: "nat \<Rightarrow> session_runtime \<Rightarrow> session_runtime" where
  "onCurrentSessionTitleChange l r =
     (if l \<in> set (sr_listeners r) then r else r\<lparr>sr_listeners := sr_listeners r @ [l]\<rparr>)"

definition updateCurrentSessionState ::
  "string option \<Rightarrow> session_patch \<Rightarrow> string \<Rightarrow> session_runtime \<Rightarrow> session_runtime result" where
  "updateCurrentSessionState refused p now r =
     (case sr_current r of
        None \<Rightarrow> Inl ''Basecamp session state is not initialized.''
      | Some existing \<Rightarrow>
          rbind (saveSessionState refused (apply_patch existing p) now (sr_dir r)) (\<lambda>(saved, dir).
          let r' = r\<lparr>sr_current := Some saved, sr_dir := dir\<rparr>
          in Inr (if ss_title saved \<noteq> ss_title existing then notifyTitleChange saved r' else r')))"

definition updateCurrentSessionStateIfInitialized ::
  "string option \<Rightarrow> session_patch \<Rightarrow> string \<Rightarrow> session_runtime \<Rightarrow> session_runtime result" where
  "updateCurrentSessionStateIfInitialized refused p now r =
     (if sr_current r = None then Inr r else updateCurrentSessionState refused p now r)"

lemma update_refused: "updateCurrentSessionStateIfInitialized refused p now r = Inl e \<Longrightarrow> refused = Some e"
  by (auto simp: updateCurrentSessionStateIfInitialized_def updateCurrentSessionState_def saveSessionState_def rbind_def Let_def
      split: if_splits option.splits sum.splits prod.splits)

definition resetCurrentSessionState :: "session_runtime \<Rightarrow> session_runtime" where
  "resetCurrentSessionState r = r\<lparr>sr_current := None\<rparr>"

section \<open>Round trips of the schema\<close>

lemma mode_of_name_inv [simp]: "mode_of_name (agent_mode_name m) = Some m"
  by (cases m) (simp_all add: mode_of_name_def SESSION_STATE_AGENT_MODES_def)

definition read_worktree :: "json \<Rightarrow> session_worktree result" where
  "read_worktree v = (if isSessionStateWorktree v then Inr (as_worktree v) else Inl ''worktree'')"

definition read_active_worktree :: "json \<Rightarrow> active_worktree result" where
  "read_active_worktree v =
     (if isSessionStateActiveWorktree v then Inr (as_active_worktree v) else Inl ''activeWorktree'')"

interpretation worktree_codec: json_codec worktree_json read_worktree "\<lambda>_. True"
  by unfold_locales
    (simp_all add: worktree_json_def read_worktree_def isSessionStateWorktree_def as_worktree_def)

lemma worktree_json_guard [simp]:
  "isSessionStateWorktree (worktree_json w)" "as_worktree (worktree_json w) = w"
  using worktree_codec.dec_enc [of w] by (auto simp: read_worktree_def split: if_splits)

interpretation active_codec:
  json_codec active_worktree_json read_active_worktree "\<lambda>a. aw_version a = 1"
  by unfold_locales
    (simp_all add: active_worktree_json_def read_active_worktree_def
      isSessionStateActiveWorktree_def as_active_worktree_def)

lemma active_worktree_json_guard:
  "aw_version a = 1 \<Longrightarrow> isSessionStateActiveWorktree (active_worktree_json a)
     \<and> as_active_worktree (active_worktree_json a) = a"
  using active_codec.dec_enc [of a] by (auto simp: read_active_worktree_def split: if_splits)

text \<open>A document whose nested worktree record has the schema's version.\<close>

definition ss_wf :: "session_state \<Rightarrow> bool" where
  "ss_wf s \<longleftrightarrow> pred_option (\<lambda>a. aw_version a = 1) (ss_activeWorktree s)"

lemma session_state_json_fields:
  "isRecord (session_state_json s)"
  "field (session_state_json s) ''version'' = Some (JNum (IntNum (ss_version s)))"
  "field (session_state_json s) ''sessionId'' = Some (JStr (ss_sessionId s))"
  "field (session_state_json s) ''sessionFile'' = Some (nullable JStr (ss_sessionFile s))"
  "field (session_state_json s) ''updatedAt'' = Some (JStr (ss_updatedAt s))"
  "field (session_state_json s) ''activeWorktree''
     = Some (nullable active_worktree_json (ss_activeWorktree s))"
  "field (session_state_json s) ''agentMode''
     = Some (nullable (\<lambda>m. JStr (agent_mode_name m)) (ss_agentMode s))"
  "field (session_state_json s) ''title'' = Some (nullable JStr (ss_title s))"
  by (simp_all add: session_state_json_def)

lemma mode_json [simp]:
  "is_nullable_string (Some (nullable (\<lambda>m. JStr (agent_mode_name m)) x))"
  "(if isAgentMode (Some (nullable (\<lambda>m. JStr (agent_mode_name m)) x))
    then mode_of_name (str_of (Some (nullable (\<lambda>m. JStr (agent_mode_name m)) x))) else None) = x"
  by (cases x; simp add: isAgentMode_def)+

lemma isSessionState_json:
  "ss_wf s \<Longrightarrow> ss_version s = SESSION_STATE_VERSION \<Longrightarrow> isSessionState (session_state_json s)"
  by (cases "ss_activeWorktree s")
    (auto simp: isSessionState_def session_state_json_fields ss_wf_def active_worktree_json_guard)

lemma activeWorktree_json_inv:
  "pred_option (\<lambda>a. aw_version a = 1) x \<Longrightarrow>
   (if Some (nullable active_worktree_json x) = Some JNull then None
    else map_option as_active_worktree (Some (nullable active_worktree_json x))) = x"
  by (cases x) (auto simp: active_worktree_json_guard active_codec.enc_not_null)

lemma session_state_roundtrip_aux:
  assumes "ss_wf s"
  shows "loadSessionState \<lparr>id_sessionId = ss_sessionId s, id_sessionFile = ss_sessionFile s\<rparr> later
           (snd (stored_state s now dir))
         = s\<lparr>ss_version := SESSION_STATE_VERSION, ss_updatedAt := now\<rparr>"
proof -
  let ?s = "s\<lparr>ss_version := SESSION_STATE_VERSION, ss_updatedAt := now\<rparr>"
  have "ss_wf ?s" using assms by (simp add: ss_wf_def)
  then have "isSessionState (session_state_json ?s)" by (simp add: isSessionState_json)
  moreover have "pred_option (\<lambda>a. aw_version a = 1) (ss_activeWorktree s)"
    using assms by (simp add: ss_wf_def)
  ultimately show ?thesis
    by (cases "ss_activeWorktree s"; cases "ss_agentMode s")
      (simp_all add: loadSessionState_def stored_state_def session_state_json_fields Let_def
        isAgentMode_def active_worktree_json_guard active_codec.enc_not_null)
qed

text \<open>
  C26. Whenever the save of a session's state document is accepted, loading it back for the same session, at
  any later time, returns exactly what the save returned: the document, stamped with the time of the save.
\<close>

theorem session_state_roundtrip:
  assumes "ss_wf s" "saveSessionState refused s now dir = Inr (saved, dir')"
  shows "loadSessionState \<lparr>id_sessionId = ss_sessionId s, id_sessionFile = ss_sessionFile s\<rparr> later dir' = saved
    \<and> saved = s\<lparr>ss_version := SESSION_STATE_VERSION, ss_updatedAt := now\<rparr>"
proof -
  have "(saved, dir') = stored_state s now dir" using assms(2) by simp
  then have "dir' = snd (stored_state s now dir)" "saved = s\<lparr>ss_version := SESSION_STATE_VERSION, ss_updatedAt := now\<rparr>"
    by (simp_all add: stored_state_def Let_def)
  then show ?thesis using session_state_roundtrip_aux [OF assms(1), of later now dir] by simp
qed

theorem session_state_roundtrip_witness:
  "loadSessionState \<lparr>id_sessionId = ''s1'', id_sessionFile = None\<rparr> ''t2''
     (snd (stored_state (createDefaultSessionState \<lparr>id_sessionId = ''s1'', id_sessionFile = None\<rparr> ''t0'') ''t1'' (\<lambda>_. None)))
   = fst (stored_state (createDefaultSessionState \<lparr>id_sessionId = ''s1'', id_sessionFile = None\<rparr> ''t0'') ''t1'' (\<lambda>_. None))"
proof -
  let ?s = "createDefaultSessionState \<lparr>id_sessionId = ''s1'', id_sessionFile = None\<rparr> ''t0''"
  have saved: "saveSessionState None ?s ''t1'' (\<lambda>_. None) =
      Inr (fst (stored_state ?s ''t1'' (\<lambda>_. None)), snd (stored_state ?s ''t1'' (\<lambda>_. None)))" by simp
  have "ss_wf ?s" by (simp add: createDefaultSessionState_def ss_wf_def)
  from session_state_roundtrip [OF this saved, of "''t2''"] show ?thesis by (simp add: createDefaultSessionState_def)
qed

lemma load_identity:
  "ss_sessionId (loadSessionState i now dir) = id_sessionId i"
  "ss_sessionFile (loadSessionState i now dir) = id_sessionFile i"
  "ss_version (loadSessionState i now dir) = SESSION_STATE_VERSION"
  by (auto simp: loadSessionState_def createDefaultSessionState_def Let_def split: option.splits)

lemma load_other_session:
  assumes "dir (sessionStateFileName (id_sessionId i)) = Some v"
    and "str_of (field v ''sessionId'') \<noteq> id_sessionId i"
  shows "loadSessionState i now dir = createDefaultSessionState i now"
  using assms by (simp add: loadSessionState_def Let_def)

text \<open>
  C27. Session ids that the file-name sanitizer maps to the same file never leak state into each
  other: after another session has saved under that file, loading gives the defaults of the
  session that asks, not the other session's worktree, mode or title.
\<close>

theorem session_state_never_foreign:
  assumes "sessionStateFileName (ss_sessionId other) = sessionStateFileName (id_sessionId i)"
    and "ss_sessionId other \<noteq> id_sessionId i" "saveSessionState refused other now dir = Inr (saved, dir')"
  shows "loadSessionState i later dir' = createDefaultSessionState i later"
  using assms
  by (intro load_other_session) (auto simp: stored_state_def session_state_json_fields Let_def)

definition foreign_example :: session_state where
  "foreign_example = (createDefaultSessionState \<lparr>id_sessionId = ''a.b'', id_sessionFile = None\<rparr> ''t0'')\<lparr>ss_title := Some ''other''\<rparr>"

theorem session_state_never_foreign_witness:
  "saveSessionState None foreign_example ''t1'' (\<lambda>_. None)
     = Inr (fst (stored_state foreign_example ''t1'' (\<lambda>_. None)), snd (stored_state foreign_example ''t1'' (\<lambda>_. None)))
   \<and> loadSessionState \<lparr>id_sessionId = ''a_b'', id_sessionFile = None\<rparr> ''t2'' (snd (stored_state foreign_example ''t1'' (\<lambda>_. None)))
     = createDefaultSessionState \<lparr>id_sessionId = ''a_b'', id_sessionFile = None\<rparr> ''t2''"
proof
  show saved: "saveSessionState None foreign_example ''t1'' (\<lambda>_. None)
     = Inr (fst (stored_state foreign_example ''t1'' (\<lambda>_. None)), snd (stored_state foreign_example ''t1'' (\<lambda>_. None)))" by simp
  show "loadSessionState \<lparr>id_sessionId = ''a_b'', id_sessionFile = None\<rparr> ''t2'' (snd (stored_state foreign_example ''t1'' (\<lambda>_. None)))
     = createDefaultSessionState \<lparr>id_sessionId = ''a_b'', id_sessionFile = None\<rparr> ''t2''"
    by (rule session_state_never_foreign [OF _ _ saved])
      (simp_all add: foreign_example_def createDefaultSessionState_def sessionStateFileName_def file_char_def char_class_defs)
qed

section \<open>Reading the transcript header\<close>

lemma take_chunk:
  assumes "n \<le> M"
  shows "take M xs = take n xs @ take (M - length (take n xs)) (drop (length (take n xs)) xs)"
proof (cases "length xs \<le> n")
  case True
  with assms show ?thesis by simp
next
  case False
  then have "length (take n xs) = n" by simp
  then show ?thesis using assms by (metis le_add_diff_inverse take_add)
qed

lemma read_header_loop_takeWhile:
  assumes "totalBytes < maxHeaderBytes"
  shows "read_header_loop totalBytes rest chunks =
     (if rest = [] then chunks
      else Some (concat (case chunks of None \<Rightarrow> [] | Some t \<Rightarrow> [t])
             @ takeWhile (\<lambda>c. c \<noteq> CHR 0x0A) (take (maxHeaderBytes - totalBytes) rest)))"
  using assms
proof (induction totalBytes rest chunks rule: read_header_loop.induct)
  case (1 totalBytes rest chunks)
  define chunk where "chunk = take (min chunk_size (maxHeaderBytes - totalBytes)) rest"
  define more where "more = take (maxHeaderBytes - totalBytes - length chunk) (drop (length chunk) rest)"
  have split: "take (maxHeaderBytes - totalBytes) rest = chunk @ more"
    unfolding chunk_def more_def by (rule take_chunk) simp
  show ?case
  proof (cases "rest = []")
    case True
    then show ?thesis by (subst read_header_loop.simps) (simp add: Let_def)
  next
    case False
    then have ne: "chunk \<noteq> []" using "1.prems" by (simp add: chunk_def chunk_size_def)
    show ?thesis
    proof (cases "find_index (\<lambda>c. c = CHR 0x0A) chunk")
      case (Some nl)
      with ne False "1.prems" find_index_takeWhile [OF Some, of more] split show ?thesis
        by (simp add: read_header_loop.simps [of totalBytes rest chunks] Let_def flip: chunk_def)
    next
      case None
      then have all: "\<forall>c \<in> set chunk. c \<noteq> CHR 0x0A" by (simp add: find_index_None)
      let ?t = "concat (case chunks of None \<Rightarrow> [] | Some t \<Rightarrow> [t])"
      have "read_header_loop totalBytes rest chunks
            = read_header_loop (totalBytes + length chunk) (drop (length chunk) rest) (Some (?t @ chunk))"
        using ne None "1.prems"
        by (simp add: read_header_loop.simps [of totalBytes rest chunks] Let_def flip: chunk_def)
      also have "\<dots> = Some (?t @ chunk @ takeWhile (\<lambda>c. c \<noteq> CHR 0x0A) more)"
      proof (cases "totalBytes + length chunk < maxHeaderBytes")
        case True
        then show ?thesis
          using "1.IH" [OF "1.prems" chunk_def ne None True] by (simp add: more_def)
      next
        case False
        then have "more = []" by (simp add: more_def)
        with False show ?thesis by (simp add: read_header_loop.simps)
      qed
      finally show ?thesis using False all split by (simp add: takeWhile_append2)
    qed
  qed
qed

text \<open>
  Reading a transcript's header in 4 KiB chunks is equivalent to taking its first line, cut
  at 64 KiB; an empty transcript has no header.
\<close>

theorem readFirstJsonlLine_is_first_line:
  "readFirstJsonlLine (Some content) =
     (if content = [] then None
      else Some (takeWhile (\<lambda>c. c \<noteq> CHR 0x0A) (take maxHeaderBytes content)))"
  by (simp add: readFirstJsonlLine_def read_header_loop_takeWhile maxHeaderBytes_def)

section \<open>Forks\<close>

lemma saved_fields:
  "fst (stored_state s now dir) = s\<lparr>ss_version := SESSION_STATE_VERSION, ss_updatedAt := now\<rparr>"
  by (simp add: stored_state_def Let_def)

text \<open>
  A forked session starts with its own identity and with exactly the worktree, the mode and
  the title its parent's saved state has; the state it starts with is the one on disk.
\<close>

theorem fork_inherits_parent_state:
  assumes "ev_reason ev = ''fork''"
    and "resolveParentSessionFile (ev_previousSessionFile ev) (ev_headerParent ev) = Some f"
    and "readSessionIdFromTranscriptHeader parse (transcripts f) = Some (ss_sessionId p)"
    and "ss_sessionId p \<noteq> []" and "ss_sessionFile p = Some f" and "ss_wf p"
    and "sr_dir r = snd (stored_state p t0 dir)"
    and "initializeCurrentSessionStateForEvent parse transcripts ev i refused now r = Inr r'"
  shows "\<exists>c. sr_current r' = Some c \<and> ss_sessionId c = id_sessionId i \<and> ss_sessionFile c = id_sessionFile i
     \<and> ss_activeWorktree c = ss_activeWorktree p \<and> ss_agentMode c = ss_agentMode p
     \<and> ss_title c = ss_title p
     \<and> loadSessionState i later (sr_dir r') = c"
proof -
  let ?q = "p\<lparr>ss_version := SESSION_STATE_VERSION, ss_updatedAt := t0\<rparr>"
  let ?child = "(createDefaultSessionState i now)\<lparr>ss_activeWorktree := ss_activeWorktree p,
      ss_agentMode := ss_agentMode p, ss_title := ss_title p\<rparr>"
  have parent: "loadSessionState \<lparr>id_sessionId = ss_sessionId p, id_sessionFile = Some f\<rparr> now (sr_dir r) = ?q"
    using session_state_roundtrip_aux [OF assms(6)] assms(5,7) by metis
  have child_wf: "ss_wf ?child" using assms(6) by (simp add: ss_wf_def)
  have run: "r' = r\<lparr>sr_current := Some (fst (stored_state ?child now (sr_dir r))),
        sr_dir := snd (stored_state ?child now (sr_dir r))\<rparr>"
    using assms(1-4,8) parent
    by (cases refused)
      (auto simp: initializeCurrentSessionStateForEvent_def loadForkInheritedFields_def saveSessionState_def rbind_def Let_def
        split: prod.splits)
  have "loadSessionState i later (snd (stored_state ?child now (sr_dir r)))
        = fst (stored_state ?child now (sr_dir r))"
    using session_state_roundtrip_aux [OF child_wf, of later now "sr_dir r"]
    by (cases i) (simp add: saved_fields createDefaultSessionState_def)
  then show ?thesis
    by (simp add: run saved_fields createDefaultSessionState_def)
qed

text \<open>A parent session with a title, saved, and a child forked from its transcript.\<close>

definition fork_example_parent :: session_state where
  "fork_example_parent =
     (createDefaultSessionState \<lparr>id_sessionId = ''p1'', id_sessionFile = Some ''p1.jsonl''\<rparr> ''t0'')
       \<lparr>ss_title := Some ''Fix the parser'', ss_agentMode := Some Planning\<rparr>"

definition fork_example_runtime :: session_runtime where
  "fork_example_runtime = \<lparr>sr_current = None,
     sr_dir = snd (stored_state fork_example_parent ''t1'' (\<lambda>_. None)),
     sr_listeners = [], sr_notified = []\<rparr>"

definition fork_example_run :: "session_runtime result" where
  "fork_example_run = initializeCurrentSessionStateForEvent
       (\<lambda>_. Some (JObj [(''type'', JStr ''session''), (''id'', JStr ''p1'')])) (\<lambda>_. Some ''header'')
       \<lparr>ev_reason = ''fork'', ev_previousSessionFile = Some ''p1.jsonl'', ev_headerParent = None\<rparr>
       \<lparr>id_sessionId = ''c1'', id_sessionFile = None\<rparr> None ''t2'' fork_example_runtime"

theorem fork_inherits_parent_state_witness:
  "\<exists>r' c. fork_example_run = Inr r' \<and> sr_current r' = Some c \<and> ss_sessionId c = ''c1'' \<and> ss_title c = Some ''Fix the parser''"
proof -
  let ?parse = "\<lambda>_::string. Some (JObj [(''type'', JStr ''session''), (''id'', JStr ''p1'')])"
  have p: "ss_sessionId fork_example_parent = ''p1''" "ss_wf fork_example_parent"
    "ss_sessionFile fork_example_parent = Some ''p1.jsonl''"
    "ss_title fork_example_parent = Some ''Fix the parser''"
    by (simp_all add: fork_example_parent_def createDefaultSessionState_def ss_wf_def)
  have h: "readSessionIdFromTranscriptHeader ?parse (Some ''header'')
           = Some (ss_sessionId fork_example_parent)"
    by (simp add: readSessionIdFromTranscriptHeader_def readFirstJsonlLine_def
        read_header_loop_takeWhile maxHeaderBytes_def p)
  obtain r' where run: "fork_example_run = Inr r'"
    by (auto simp: fork_example_run_def initializeCurrentSessionStateForEvent_def saveSessionState_def rbind_def Let_def
        stored_state_def)
  show ?thesis
    using fork_inherits_parent_state [OF _ _ _ _ _ _ _ run [unfolded fork_example_run_def], of "''p1.jsonl''" fork_example_parent "''t1''" "\<lambda>_. None"]
      h p run by (auto simp: resolveParentSessionFile_def fork_example_runtime_def)
qed

end
