(* ===== verification/AgentMode.thy ===== *)
theory AgentMode
  imports SessionState
begin

text \<open>
  The live agent mode (\<open>pi/core/agent-mode\<close>): a process-wide mode with change listeners, kept
  in step with the session's state document. Copilot is entered at launch only and is locked.
  \<open>am_seen\<close> records the calls the listeners received, in order.
\<close>

definition isCopilotMode :: "agent_mode \<Rightarrow> bool" where
  "isCopilotMode m \<longleftrightarrow> m = Copilot"

definition PLAN_TOOL_NAME :: string where "PLAN_TOOL_NAME = ''plan''"

definition COPILOT_FLAG :: string where "COPILOT_FLAG = ''--copilot''"

definition isCopilotLaunch :: "string list \<Rightarrow> bool" where
  "isCopilotLaunch argv \<longleftrightarrow>
     list_ex (\<lambda>arg. arg = COPILOT_FLAG \<or> startsWith arg (COPILOT_FLAG @ ''='')) (drop 2 argv)"

definition CYCLEABLE_AGENT_MODES :: "agent_mode list" where
  "CYCLEABLE_AGENT_MODES = filter (\<lambda>m. m \<noteq> Copilot) SESSION_STATE_AGENT_MODES"

definition DEFAULT_AGENT_MODE :: agent_mode where "DEFAULT_AGENT_MODE = Work"

record agent_mode_runtime =
  am_mode :: agent_mode
  am_listeners :: "nat list"
  am_seen :: "(nat \<times> agent_mode) list"
  am_session :: session_runtime

definition updateLiveAgentMode :: "agent_mode \<Rightarrow> agent_mode_runtime \<Rightarrow> agent_mode_runtime" where
  "updateLiveAgentMode m r =
     (if am_mode r = m then r
      else r\<lparr>am_mode := m, am_seen := am_seen r @ map (\<lambda>l. (l, m)) (am_listeners r)\<rparr>)"

text \<open>The session's document is saved first; the error of a refused write is thrown, with the live mode as it was.\<close>

definition setAgentMode ::
  "string option \<Rightarrow> agent_mode \<Rightarrow> string \<Rightarrow> agent_mode_runtime \<Rightarrow> unit result \<times> agent_mode_runtime" where
  "setAgentMode refused m now r =
     (case updateCurrentSessionStateIfInitialized refused (no_patch\<lparr>sp_agentMode := Some (Some m)\<rparr>) now (am_session r) of
        Inl e \<Rightarrow> (Inl e, r)
      | Inr session \<Rightarrow> (Inr (), updateLiveAgentMode m (r\<lparr>am_session := session\<rparr>)))"

definition restoreAgentModeFromSessionState :: "agent_mode_runtime \<Rightarrow> agent_mode_runtime result" where
  "restoreAgentModeFromSessionState r =
     (case sr_current (am_session r) of
        None \<Rightarrow> Inl ''Basecamp session state is not initialized.''
      | Some s \<Rightarrow> Inr (updateLiveAgentMode
          (case ss_agentMode s of None \<Rightarrow> DEFAULT_AGENT_MODE | Some m \<Rightarrow> m) r))"

text \<open>The successor of a mode in the cycle; \<open>indexOf\<close> is \<open>-1\<close> for a mode outside it.\<close>

definition next_mode :: "agent_mode \<Rightarrow> agent_mode" where
  "next_mode m =
     (let index = (case find_index (\<lambda>x. x = m) CYCLEABLE_AGENT_MODES of
                     None \<Rightarrow> - 1 | Some i \<Rightarrow> int i)
      in CYCLEABLE_AGENT_MODES ! nat ((index + 1) mod int (length CYCLEABLE_AGENT_MODES)))"

definition cycleAgentMode :: "string option \<Rightarrow> string \<Rightarrow> agent_mode_runtime \<Rightarrow> unit result \<times> agent_mode_runtime" where
  "cycleAgentMode refused now r =
     (if isCopilotMode (am_mode r) then (Inr (), r) else setAgentMode refused (next_mode (am_mode r)) now r)"

definition resetAgentMode :: "string option \<Rightarrow> string \<Rightarrow> agent_mode_runtime \<Rightarrow> unit result \<times> agent_mode_runtime" where
  "resetAgentMode refused now r = setAgentMode refused DEFAULT_AGENT_MODE now r"

definition onAgentModeChange :: "nat \<Rightarrow> agent_mode_runtime \<Rightarrow> agent_mode_runtime" where
  "onAgentModeChange l r =
     (if l \<in> set (am_listeners r) then r else r\<lparr>am_listeners := am_listeners r @ [l]\<rparr>)"

text \<open>The shift+tab handler and the notification it shows.\<close>

datatype mode_notice = ModeLocked | ModeIs agent_mode

definition modeShortcut :: "string option \<Rightarrow> string \<Rightarrow> agent_mode_runtime \<Rightarrow> mode_notice result \<times> agent_mode_runtime" where
  "modeShortcut refused now r =
     (case cycleAgentMode refused now r of
        (Inl e, r') \<Rightarrow> (Inl e, r')
      | (Inr _, r') \<Rightarrow> (let before = am_mode r; mode = am_mode r'
          in (Inr (if mode = before \<and> mode = Copilot then ModeLocked else ModeIs mode), r')))"

lemma am_mode_updateLive [simp]: "am_mode (updateLiveAgentMode m r) = m"
  by (simp add: updateLiveAgentMode_def)

lemma am_session_updateLive [simp]: "am_session (updateLiveAgentMode m r) = am_session r"
  by (simp add: updateLiveAgentMode_def)

text \<open>A change of the mode either throws what the write was refused with and changes nothing, or is made.\<close>

lemma set_mode_cases:
  "(\<exists>e. refused = Some e \<and> setAgentMode refused m now r = (Inl e, r))
   \<or> (\<exists>session. setAgentMode refused m now r = (Inr (), updateLiveAgentMode m (r\<lparr>am_session := session\<rparr>)))"
  using update_refused by (auto simp: setAgentMode_def split: sum.split)

lemma am_mode_set [simp]: "am_mode (snd (setAgentMode None m now r)) = m"
  using set_mode_cases [of None m now r] by auto

lemma next_mode_table:
  "next_mode Analysis = Planning" "next_mode Planning = Work" "next_mode Work = Analysis"
  by (simp_all add: next_mode_def CYCLEABLE_AGENT_MODES_def SESSION_STATE_AGENT_MODES_def Let_def)

lemma cycle_mode:
  "am_mode (snd (cycleAgentMode None now r)) = (if am_mode r = Copilot then Copilot else next_mode (am_mode r))"
  by (simp add: cycleAgentMode_def isCopilotMode_def)

lemma set_mode_saved:
  assumes "sr_current (am_session r) = Some s"
  shows "\<exists>s'. sr_current (am_session (snd (setAgentMode None m now r))) = Some s' \<and> ss_agentMode s' = Some m"
  using assms
  by (auto simp: setAgentMode_def updateCurrentSessionStateIfInitialized_def saveSessionState_def stored_state_def rbind_def
      updateCurrentSessionState_def saved_fields apply_patch_def no_patch_def notifyTitleChange_def
      Let_def)

definition pressed :: "string \<Rightarrow> agent_mode_runtime \<Rightarrow> agent_mode_runtime" where
  "pressed now r = snd (cycleAgentMode None now r)"

lemma pressed_mode:
  "am_mode (pressed now r) = (if am_mode r = Copilot then Copilot else next_mode (am_mode r))"
  by (simp add: pressed_def cycle_mode)

lemma cycle_locked: "am_mode r = Copilot \<Longrightarrow> (pressed now ^^ n) r = r"
  by (induction n) (simp_all add: pressed_def cycleAgentMode_def isCopilotMode_def)

text \<open>
  Cycling the mode never enters copilot and never leaves it, however often the key is
  pressed; from the other modes the presses go round analysis, planning and work with period
  three.
\<close>

theorem cycle_never_crosses_copilot:
  "(am_mode ((pressed now ^^ n) r) = Copilot \<longleftrightarrow> am_mode r = Copilot)
   \<and> am_mode ((pressed now ^^ 3) r) = am_mode r"
proof
  show "am_mode ((pressed now ^^ n) r) = Copilot \<longleftrightarrow> am_mode r = Copilot"
  proof (induction n)
    case (Suc n)
    then show ?case
      by (cases "am_mode ((pressed now ^^ n) r)") (auto simp: pressed_mode next_mode_table)
  qed simp
  show "am_mode ((pressed now ^^ 3) r) = am_mode r"
    by (cases "am_mode r") (simp_all add: numeral_3_eq_3 pressed_mode next_mode_table)
qed

end
