(* ===== verification/Tasks.thy ===== *)
theory Tasks
  imports AgentMode
begin

text \<open>
  The task domain: its data (\<open>pi/tasks/schemas/task.ts\<close>), the runtime it keeps and persists
  (\<open>lifecycle/index.ts\<close>, \<open>store.ts\<close>), goal cycles (\<open>goal-cycle.ts\<close>), the texts built from
  the state (\<open>text.ts\<close>), the six task tools (\<open>tools/task-tools.ts\<close>) and the guards on tool
  calls (\<open>tools/guards.ts\<close>).

  The runtime is a record passed through the operations. In the code the live task list and
  the active cycle's task list are one array; here they are two fields which every operation
  leaves equal (the code's \<open>persistState\<close> ends each of them), as the invariant states.
\<close>

section \<open>Schemas\<close>

datatype task_status = Pending | Active | Completed | Deleted

fun status_name :: "task_status \<Rightarrow> string" where
  "status_name Pending = ''pending''"
| "status_name Active = ''active''"
| "status_name Completed = ''completed''"
| "status_name Deleted = ''deleted''"

record review_state =
  rs_approved :: "bool option"
  rs_feedback :: "string option"

record task =
  t_label :: string
  t_description :: string
  t_criteria :: string
  t_status :: task_status
  t_review :: "review_state option"

record tasks_state =
  ts_goal :: "string option"
  ts_tasks :: "task list"

record plan_ref =
  pr_context :: string
  pr_design :: string
  pr_success :: string
  pr_boundaries :: string

record goal_cycle =
  gc_goal :: string
  gc_tasks :: "task list"
  gc_planRef :: "plan_ref option"
  gc_agentMode :: "agent_mode option"
  gc_active :: bool
  gc_archivedAt :: "string option"

text \<open>
  \<open>rt_ui\<close>: the session context, and whether it has a UI; \<open>rt_widget\<close>: whether the task widget
  is shown; \<open>rt_file\<close>: the session's task file, once a session has started.
\<close>

record tasks_runtime =
  rt_state :: tasks_state
  rt_cycles :: "goal_cycle list"
  rt_guardBlockCount :: nat
  rt_ui :: "bool option"
  rt_widget :: bool
  rt_hasFile :: bool
  rt_file :: "json option"
  rt_kept :: "goal_cycle list"
  rt_refused :: bool

text \<open>JavaScript truthiness of \<open>string | null\<close>.\<close>

definition truthy :: "string option \<Rightarrow> bool" where
  "truthy s \<longleftrightarrow> s \<noteq> None \<and> s \<noteq> Some []"

section \<open>Persistence\<close>

definition review_json :: "review_state \<Rightarrow> json" where
  "review_json r = JObj [(''approved'', nullable JBool (rs_approved r)),
     (''feedback'', nullable JStr (rs_feedback r))]"

definition task_json :: "task \<Rightarrow> json" where
  "task_json t = JObj [(''label'', JStr (t_label t)), (''description'', JStr (t_description t)),
     (''criteria'', JStr (t_criteria t)), (''status'', JStr (status_name (t_status t))),
     (''review'', nullable review_json (t_review t))]"

definition plan_ref_json :: "plan_ref \<Rightarrow> json" where
  "plan_ref_json p = JObj [(''context'', JStr (pr_context p)), (''design'', JStr (pr_design p)),
     (''success'', JStr (pr_success p)), (''boundaries'', JStr (pr_boundaries p))]"

definition cycle_json :: "goal_cycle \<Rightarrow> json" where
  "cycle_json c = JObj [(''goal'', JStr (gc_goal c)), (''tasks'', JArr (map task_json (gc_tasks c))),
     (''planRef'', nullable plan_ref_json (gc_planRef c)),
     (''agentMode'', nullable (\<lambda>m. JStr (agent_mode_name m)) (gc_agentMode c)),
     (''active'', JBool (gc_active c)), (''archivedAt'', nullable JStr (gc_archivedAt c))]"

definition TASKS_SCHEMA_VERSION :: int where "TASKS_SCHEMA_VERSION = 1"

definition saveCycles :: "goal_cycle list \<Rightarrow> json" where
  "saveCycles cycles = JObj [(''version'', JNum (IntNum TASKS_SCHEMA_VERSION)),
     (''cycles'', JArr (map cycle_json cycles))]"

text \<open>Dropping the legacy \<open>notes\<close> key of every persisted task.\<close>

fun strip_notes :: "json \<Rightarrow> json" where
  "strip_notes (JObj kvs) = JObj (filter (\<lambda>(k, v). k \<noteq> ''notes'') kvs)"
| "strip_notes v = v"

fun strip_cycle :: "json \<Rightarrow> json" where
  "strip_cycle (JObj kvs) = JObj (map (\<lambda>(k, v). (k,
     if k = ''tasks'' then (case v of JArr ts \<Rightarrow> JArr (map strip_notes ts) | _ \<Rightarrow> v) else v)) kvs)"
| "strip_cycle v = v"

definition stripLegacyNotes :: "json list \<Rightarrow> json list" where
  "stripLegacyNotes cycles = map strip_cycle cycles"

text \<open>\<open>None\<close>: the file is missing or is not JSON.\<close>

fun loadCycles :: "json option \<Rightarrow> json list" where
  "loadCycles (Some (JArr cs)) = stripLegacyNotes cs"
| "loadCycles (Some (JObj kvs)) =
     (case map_of kvs ''cycles'' of Some (JArr cs) \<Rightarrow> stripLegacyNotes cs | _ \<Rightarrow> [])"
| "loadCycles _ = []"

text \<open>
  The cast of the parsed file to \<open>GoalCycle[]\<close>, for values of that type. On other values the
  TypeScript cast promises nothing and the model gives no reading (\<open>Inl\<close>).
\<close>

definition read_review :: "json \<Rightarrow> review_state result" where
  "read_review v = Inr \<lparr>rs_approved = (case field v ''approved'' of Some (JBool b) \<Rightarrow> Some b | _ \<Rightarrow> None),
     rs_feedback = nullable_str_of (field v ''feedback'')\<rparr>"

definition status_of_name :: "string \<Rightarrow> task_status option" where
  "status_of_name s = find (\<lambda>m. status_name m = s) [Pending, Active, Completed, Deleted]"

definition read_task :: "json \<Rightarrow> task result" where
  "read_task v = (case status_of_name (str_of (field v ''status'')) of
       None \<Rightarrow> Inl ''not a task''
     | Some st \<Rightarrow>
        (case field v ''review'' of None \<Rightarrow> Inl ''not a task''
         | Some rv \<Rightarrow> rbind (read_nullable read_review rv) (\<lambda>r.
           Inr \<lparr>t_label = str_of (field v ''label''), t_description = str_of (field v ''description''),
             t_criteria = str_of (field v ''criteria''), t_status = st, t_review = r\<rparr>)))"

definition read_plan_ref :: "json \<Rightarrow> plan_ref result" where
  "read_plan_ref v = Inr \<lparr>pr_context = str_of (field v ''context''), pr_design = str_of (field v ''design''),
     pr_success = str_of (field v ''success''), pr_boundaries = str_of (field v ''boundaries'')\<rparr>"

definition read_cycle :: "json \<Rightarrow> goal_cycle result" where
  "read_cycle v = (case (field v ''tasks'', field v ''planRef'') of
       (Some (JArr ts), Some p) \<Rightarrow>
         rbind (map_result read_task ts) (\<lambda>tasks. rbind (read_nullable read_plan_ref p) (\<lambda>pr.
           Inr \<lparr>gc_goal = str_of (field v ''goal''), gc_tasks = tasks, gc_planRef = pr,
             gc_agentMode = mode_of_name (str_of (field v ''agentMode'')),
             gc_active = bool_of (field v ''active''),
             gc_archivedAt = nullable_str_of (field v ''archivedAt'')\<rparr>))
     | _ \<Rightarrow> Inl ''not a goal cycle'')"

section \<open>The runtime\<close>

definition active_cycle :: "tasks_runtime \<Rightarrow> goal_cycle option" where
  "active_cycle r = find gc_active (rt_cycles r)"

definition updateWidget :: "tasks_runtime \<Rightarrow> tasks_runtime" where
  "updateWidget r =
     (if rt_ui r \<noteq> Some True then r
      else r\<lparr>rt_widget := truthy (ts_goal (rt_state r)) \<or> ts_tasks (rt_state r) \<noteq> []\<rparr>)"

text \<open>
  The tasks are synced to the active cycle in memory, then the file is written beside and moved over the old
  one; \<open>refused\<close> is the error a call of the write throws, and the file is then as it was. \<open>rt_kept\<close>, the
  cycles written last, and \<open>rt_refused\<close>, whether the last write was refused, are ghosts.
\<close>

definition persistState :: "string option \<Rightarrow> tasks_runtime \<Rightarrow> unit result \<times> tasks_runtime" where
  "persistState refused r =
     (let r' = r\<lparr>rt_cycles := map_first gc_active
                  (\<lambda>c. c\<lparr>gc_tasks := ts_tasks (rt_state r)\<rparr>) (rt_cycles r)\<rparr>
      in if \<not> rt_hasFile r' then (Inr (), r')
         else (case refused of
             Some e \<Rightarrow> (Inl e, r'\<lparr>rt_refused := True\<rparr>)
           | None \<Rightarrow> (Inr (), r'\<lparr>rt_file := Some (saveCycles (rt_cycles r')), rt_kept := rt_cycles r', rt_refused := False\<rparr>)))"

definition archiveActiveCycle :: "string \<Rightarrow> tasks_runtime \<Rightarrow> tasks_runtime" where
  "archiveActiveCycle now r =
     r\<lparr>rt_cycles := map_first gc_active
          (\<lambda>c. c\<lparr>gc_tasks := ts_tasks (rt_state r), gc_active := False, gc_archivedAt := Some now\<rparr>)
          (rt_cycles r)\<rparr>"

record new_cycle =
  nc_goal :: string
  nc_tasks :: "task list"
  nc_planRef :: "plan_ref option"
  nc_agentMode :: "agent_mode option"

definition startGoalCycle ::
  "string option \<Rightarrow> string \<Rightarrow> new_cycle \<Rightarrow> tasks_runtime \<Rightarrow> unit result \<times> tasks_runtime" where
  "startGoalCycle refused now c r =
     (let r1 = archiveActiveCycle now r;
          r2 = r1\<lparr>rt_cycles := rt_cycles r1 @
                 [\<lparr>gc_goal = nc_goal c, gc_tasks = nc_tasks c, gc_planRef = nc_planRef c,
                   gc_agentMode = nc_agentMode c, gc_active = True, gc_archivedAt = None\<rparr>],
               rt_state := \<lparr>ts_goal = Some (nc_goal c), ts_tasks = nc_tasks c\<rparr>,
               rt_guardBlockCount := 0\<rparr>
      in persistState refused (updateWidget r2))"

definition getActivePlanRef :: "tasks_runtime \<Rightarrow> plan_ref option" where
  "getActivePlanRef r = Option.bind (active_cycle r) gc_planRef"

definition init_runtime :: tasks_runtime where
  "init_runtime = \<lparr>rt_state = \<lparr>ts_goal = None, ts_tasks = []\<rparr>, rt_cycles = [],
     rt_guardBlockCount = 0, rt_ui = None, rt_widget = False, rt_hasFile = False, rt_file = None,
     rt_kept = [], rt_refused = False\<rparr>"

text \<open>
  The \<open>session_start\<close> handler: the second component is the agent mode it sets, if any.
  \<open>savedMode\<close> is the mode in the session's state document.
\<close>

definition tasks_session_start ::
  "bool \<Rightarrow> agent_mode option \<Rightarrow> json option \<Rightarrow> tasks_runtime
   \<Rightarrow> (tasks_runtime \<times> agent_mode option) result" where
  "tasks_session_start hasUI savedMode file r =
     rbind (map_result read_cycle (loadCycles file)) (\<lambda>cycles.
       let r1 = r\<lparr>rt_ui := Some hasUI, rt_state := \<lparr>ts_goal = None, ts_tasks = []\<rparr>,
                  rt_hasFile := True, rt_file := file, rt_cycles := cycles, rt_kept := cycles, rt_refused := False\<rparr>;
           active = find gc_active cycles;
           r2 = (case active of None \<Rightarrow> r1
                 | Some c \<Rightarrow> r1\<lparr>rt_state := \<lparr>ts_goal = Some (gc_goal c), ts_tasks = gc_tasks c\<rparr>\<rparr>);
           mode = (case active of None \<Rightarrow> None
                 | Some c \<Rightarrow> if savedMode = None then gc_agentMode c else None)
       in Inr (updateWidget r2, mode))"

definition tasks_session_shutdown :: "tasks_runtime \<Rightarrow> tasks_runtime" where
  "tasks_session_shutdown r = r\<lparr>rt_ui := None\<rparr>"

end
