(* ===== verification/TaskTools.thy ===== *)
theory TaskTools
  imports Tasks
begin

text \<open>
  What the agent and the user see of the task state: the texts (\<open>lifecycle/text.ts\<close>), the
  widget's window (\<open>lifecycle/widget.ts\<close>), the six task tools (\<open>tools/task-tools.ts\<close>) and
  the guards on other tool calls (\<open>tools/guards.ts\<close>), with their invariant. A tool's result is
  the thrown error or the JSON value it returns, and the runtime after it.
\<close>

section \<open>Texts\<close>

datatype task_error =
    NoTasksExist
  | InvalidTaskIndex jsnum nat
  | TaskIs nat task_status
  | TaskAlreadyDeleted nat
  | NoGoal
  | SaveRefused string

definition requireTasks :: "tasks_state \<Rightarrow> jsnum \<Rightarrow> task_error + nat" where
  "requireTasks s index =
     (if ts_tasks s = [] then Inl NoTasksExist
      else (case index of
          IntNum i \<Rightarrow> if i < 0 \<or> i \<ge> int (length (ts_tasks s))
                      then Inl (InvalidTaskIndex index (length (ts_tasks s) - 1)) else Inr (nat i)
        | OtherNum _ \<Rightarrow> Inl (InvalidTaskIndex index (length (ts_tasks s) - 1))))"

record progress =
  p_completed :: nat
  p_deleted :: nat
  p_total :: nat

definition count_status :: "task_status \<Rightarrow> task list \<Rightarrow> nat" where
  "count_status st ts = length (filter (\<lambda>t. t_status t = st) ts)"

definition buildProgress :: "tasks_state \<Rightarrow> progress" where
  "buildProgress s =
     (let deleted = count_status Deleted (ts_tasks s);
          live = length (ts_tasks s) - deleted;
          completed = count_status Completed (ts_tasks s)
      in \<lparr>p_completed = completed, p_deleted = deleted, p_total = live\<rparr>)"

definition progress_json :: "progress \<Rightarrow> json" where
  "progress_json p = JObj [(''completed'', JNum (IntNum (int (p_completed p)))),
     (''deleted'', JNum (IntNum (int (p_deleted p)))), (''total'', JNum (IntNum (int (p_total p))))]"

definition buildStateSnapshot :: "tasks_state \<Rightarrow> json" where
  "buildStateSnapshot s = JObj [(''goal'', nullable JStr (ts_goal s)),
     (''progress'', progress_json (buildProgress s)),
     (''tasks'', JObj (map (\<lambda>(i, t). (show_nat i,
          JObj [(''label'', JStr (t_label t)), (''status'', JStr (status_name (t_status t)))]))
        (filter (\<lambda>(i, t). t_status t \<noteq> Deleted) (indexed (ts_tasks s)))))]"

definition buildTaskContext :: "task \<Rightarrow> nat \<Rightarrow> tasks_state \<Rightarrow> json" where
  "buildTaskContext t i s = JObj [(''index'', JNum (IntNum (int i))), (''label'', JStr (t_label t)),
     (''status'', JStr (status_name (t_status t))), (''description'', JStr (t_description t)),
     (''criteria'', JStr (t_criteria t)), (''progress'', progress_json (buildProgress s))]"

text \<open>The lines of the complete_task text: two sentences, an empty line and the snapshot.\<close>

definition buildCompleteTaskResultText ::
  "tasks_state \<Rightarrow> nat \<Rightarrow> task \<Rightarrow> string \<times> string \<times> string \<times> json" where
  "buildCompleteTaskResultText s i t =
     (let p = buildProgress s
      in (''Task '' @ show_nat i @ '' completed: '' @ t_label t @ ''.'',
          ''Progress: '' @ show_nat (p_completed p) @ ''/'' @ show_nat (p_total p) @ '' tasks completed.'',
          [], buildStateSnapshot s))"

text \<open>A line of the progress reminder: plain text, or a task with its marker and index.\<close>

datatype steer_line = SteerText string | SteerTask nat task_status string | SteerInstructions

definition buildSteerContent :: "tasks_state \<Rightarrow> plan_ref option \<Rightarrow> steer_line list option" where
  "buildSteerContent s planRef =
     (if \<not> truthy (ts_goal s) then None
      else Some (
        [SteerText ''Current progress:'', SteerText (''Goal: '' @ the (ts_goal s))]
        @ (case planRef of None \<Rightarrow> []
           | Some p \<Rightarrow> [SteerText [], SteerText (''Design: '' @ pr_design p),
               SteerText (''Boundaries: '' @ pr_boundaries p)])
        @ (if ts_tasks s \<noteq> [] then
             (let live = filter (\<lambda>t. t_status t \<noteq> Deleted) (ts_tasks s);
                  completedCount = count_status Completed live
              in [SteerText [], SteerText (''Completed: '' @ show_nat completedCount @ ''/''
                    @ show_nat (length live)), SteerText []]
                 @ map (\<lambda>(i, t). SteerTask i (t_status t) (t_label t))
                     (filter (\<lambda>(i, t). t_status t \<noteq> Deleted) (indexed (ts_tasks s))))
           else [])
        @ [SteerText [], SteerInstructions]))"

section \<open>The widget's window\<close>

definition WINDOW_SIZE :: nat where "WINDOW_SIZE = 3"

text \<open>The loop from \<open>windowStart\<close>: at most three tasks that are not completed.\<close>

fun window_from :: "task list \<Rightarrow> nat \<Rightarrow> task list" where
  "window_from [] n = []"
| "window_from (t # ts) n =
     (if n \<ge> WINDOW_SIZE then []
      else if t_status t \<noteq> Completed then t # window_from ts (Suc n) else window_from ts n)"

definition window_start :: "task list \<Rightarrow> nat" where
  "window_start ts =
     (case find_index (\<lambda>t. t_status t = Active) ts of
        Some i \<Rightarrow> i
      | None \<Rightarrow> (case find_index (\<lambda>t. t_status t = Pending) ts of
          Some i \<Rightarrow> i | None \<Rightarrow> length ts))"

datatype widget_line =
    WidgetCounts nat nat
  | WidgetTask task_status string
  | WidgetDescription string
  | WidgetToDo nat

text \<open>\<open>wrap\<close> is the terminal library's line wrapping of a description.\<close>

definition renderTaskProgressBody :: "(string \<Rightarrow> string list) \<Rightarrow> task list \<Rightarrow> widget_line list" where
  "renderTaskProgressBody wrap ts =
     (if ts = [] then []
      else
        let completedCount = count_status Completed ts;
            deletedCount = count_status Deleted ts;
            windowTasks = window_from (drop (window_start ts) ts) 0;
            pendingInWindow = count_status Pending windowTasks;
            remainingCount = count_status Pending ts - pendingInWindow
        in (if completedCount > 0 \<or> deletedCount > 0 then [WidgetCounts completedCount deletedCount] else [])
           @ concat (map (\<lambda>t. WidgetTask (t_status t) (t_label t) #
                (if t_status t = Active then map WidgetDescription (wrap (t_description t)) else []))
              windowTasks)
           @ (if remainingCount > 0 then [WidgetToDo remainingCount] else []))"

section \<open>The tools\<close>

type_synonym tool_result = "(task_error + json) \<times> tasks_runtime"

text \<open>What a tool answers once the state is persisted: the error of a refused write, which is not caught, or its value.\<close>

definition answer_saved :: "unit result \<times> tasks_runtime \<Rightarrow> (tasks_runtime \<Rightarrow> 'a) \<Rightarrow> (task_error + 'a) \<times> tasks_runtime" where
  "answer_saved saved f = (case saved of (Inl e, r) \<Rightarrow> (Inl (SaveRefused e), r) | (Inr _, r) \<Rightarrow> (Inr (f r), r))"

definition update_goal :: "string option \<Rightarrow> string \<Rightarrow> agent_mode \<Rightarrow> string \<Rightarrow> tasks_runtime \<Rightarrow> tool_result" where
  "update_goal refused now mode goal r =
     answer_saved (startGoalCycle refused now \<lparr>nc_goal = goal, nc_tasks = [], nc_planRef = None,
                 nc_agentMode = Some mode\<rparr> r)
       (\<lambda>r'. buildStateSnapshot (rt_state r'))"

record task_input =
  ti_label :: string
  ti_description :: string
  ti_criteria :: string

definition new_task :: "task_input \<Rightarrow> task" where
  "new_task i = \<lparr>t_label = ti_label i, t_description = ti_description i, t_criteria = ti_criteria i,
     t_status = Pending, t_review = None\<rparr>"

definition set_tasks :: "task list \<Rightarrow> tasks_runtime \<Rightarrow> tasks_runtime" where
  "set_tasks ts r = r\<lparr>rt_state := (rt_state r)\<lparr>ts_tasks := ts\<rparr>\<rparr>"

definition create_tasks :: "string option \<Rightarrow> task_input list \<Rightarrow> tasks_runtime \<Rightarrow> tool_result" where
  "create_tasks refused inputs r =
     (if \<not> truthy (ts_goal (rt_state r)) then (Inl NoGoal, r)
      else
        let r1 = (set_tasks (map new_task inputs) r)\<lparr>rt_guardBlockCount := 0\<rparr>
        in answer_saved (persistState refused (updateWidget r1)) (\<lambda>r'. buildStateSnapshot (rt_state r')))"

definition set_status :: "nat \<Rightarrow> task_status \<Rightarrow> task list \<Rightarrow> task list" where
  "set_status i st ts = ts[i := (ts ! i)\<lparr>t_status := st\<rparr>]"

definition clear_active :: "task list \<Rightarrow> task list" where
  "clear_active ts = map (\<lambda>t. if t_status t = Active then t\<lparr>t_status := Pending\<rparr> else t) ts"

definition start_task :: "string option \<Rightarrow> jsnum \<Rightarrow> tasks_runtime \<Rightarrow> tool_result" where
  "start_task refused index r =
     (case requireTasks (rt_state r) index of
        Inl e \<Rightarrow> (Inl e, r)
      | Inr i \<Rightarrow>
          let st = t_status (ts_tasks (rt_state r) ! i) in
          if st = Completed \<or> st = Deleted then (Inl (TaskIs i st), r)
          else
            let r1 = set_tasks (set_status i Active (clear_active (ts_tasks (rt_state r)))) r
            in answer_saved (persistState refused (updateWidget r1))
                 (\<lambda>r'. buildTaskContext (ts_tasks (rt_state r') ! i) i (rt_state r')))"

definition complete_task :: "string option \<Rightarrow> jsnum \<Rightarrow> tasks_runtime
    \<Rightarrow> (task_error + (string \<times> string \<times> string \<times> json)) \<times> tasks_runtime" where
  "complete_task refused index r =
     (case requireTasks (rt_state r) index of
        Inl e \<Rightarrow> (Inl e, r)
      | Inr i \<Rightarrow>
          let st = t_status (ts_tasks (rt_state r) ! i) in
          if st = Completed \<or> st = Deleted then (Inl (TaskIs i st), r)
          else
            let r1 = set_tasks (set_status i Completed (ts_tasks (rt_state r))) r
            in answer_saved (persistState refused (updateWidget r1))
                 (\<lambda>r'. buildCompleteTaskResultText (rt_state r') i (ts_tasks (rt_state r') ! i)))"

definition get_task :: "jsnum \<Rightarrow> tasks_runtime \<Rightarrow> tool_result" where
  "get_task index r =
     (case requireTasks (rt_state r) index of
        Inl e \<Rightarrow> (Inl e, r)
      | Inr i \<Rightarrow> (Inr (buildTaskContext (ts_tasks (rt_state r) ! i) i (rt_state r)), r))"

definition delete_task :: "string option \<Rightarrow> jsnum \<Rightarrow> tasks_runtime \<Rightarrow> tool_result" where
  "delete_task refused index r =
     (case requireTasks (rt_state r) index of
        Inl e \<Rightarrow> (Inl e, r)
      | Inr i \<Rightarrow>
          if t_status (ts_tasks (rt_state r) ! i) = Deleted then (Inl (TaskAlreadyDeleted i), r)
          else
            let r1 = set_tasks (set_status i Deleted (ts_tasks (rt_state r))) r
            in answer_saved (persistState refused (updateWidget r1)) (\<lambda>r'. buildStateSnapshot (rt_state r')))"

section \<open>Guards\<close>

definition TASK_TOOLS :: "string list" where
  "TASK_TOOLS = [''update_goal'', ''create_tasks'', ''start_task'', ''complete_task'', ''get_task'',
     ''delete_task'', ''escalate'', ''plan'', ''skill'', ''read'']"

definition GATED_WITHOUT_TASKS :: "string list" where
  "GATED_WITHOUT_TASKS = [''edit'', ''write'']"

datatype guard_verdict = Pass | Block string | Steer string

definition set_goal_reason :: string where
  "set_goal_reason = ''Set a goal with update_goal before proceeding.''"

definition break_work_reason :: string where
  "break_work_reason = ''Break work into tasks with create_tasks before editing files.''"

definition has_open_tasks :: "tasks_state \<Rightarrow> bool" where
  "has_open_tasks s \<longleftrightarrow> list_ex (\<lambda>t. t_status t = Pending \<or> t_status t = Active) (ts_tasks s)"

definition task_guard_reason :: "string \<Rightarrow> tasks_state \<Rightarrow> string option" where
  "task_guard_reason toolName s =
     (if \<not> truthy (ts_goal s) then Some set_goal_reason
      else if toolName \<in> set GATED_WITHOUT_TASKS then
        (if has_open_tasks s then None else Some break_work_reason)
      else None)"

definition task_guard :: "string \<Rightarrow> tasks_runtime \<Rightarrow> guard_verdict \<times> tasks_runtime" where
  "task_guard toolName r =
     (if toolName \<in> set TASK_TOOLS then (Pass, r)
      else (case task_guard_reason toolName (rt_state r) of
          None \<Rightarrow> (Pass, r)
        | Some reason \<Rightarrow>
            (if rt_guardBlockCount r = 0 then Block reason else Steer reason,
             r\<lparr>rt_guardBlockCount := Suc (rt_guardBlockCount r)\<rparr>)))"

text \<open>The reason starts \<open>plan() is disabled in copilot sessions\<close>.\<close>

definition plan_copilot_guard :: "agent_mode \<Rightarrow> string \<Rightarrow> guard_verdict" where
  "plan_copilot_guard mode toolName =
     (if toolName \<noteq> PLAN_TOOL_NAME then Pass
      else if \<not> isCopilotMode mode then Pass
      else Block ''plan() is disabled in copilot sessions'')"

definition plan_skill_guard :: "bool \<Rightarrow> bool \<Rightarrow> string list \<Rightarrow> string \<Rightarrow> guard_verdict" where
  "plan_skill_guard hasUI isSubagent invokedSkills toolName =
     (if toolName \<noteq> ''plan'' then Pass
      else if \<not> hasUI then Pass
      else if isSubagent then Pass
      else if ''planning'' \<in> set invokedSkills then Pass
      else Block ''The plan tool requires the planning skill in interactive main sessions.'')"

end
