(* ===== verification/TaskInvariant.thy ===== *)
theory TaskInvariant
  imports TaskTools
begin

text \<open>
  Correctness of the task domain: the persisted file decodes to the cycles in memory, at most
  one cycle is active and it is the last, it agrees with the live state, and at most one task is
  active. The sessions reachable from a fresh one, over every tool call, guard call, plan
  approval and restart, keep this.
\<close>

section \<open>The task file\<close>

lemma status_of_name_inv [simp]: "status_of_name (status_name st) = Some st"
  by (cases st) (simp_all add: status_of_name_def)

interpretation review_codec: json_codec review_json read_review "\<lambda>_. True"
proof
  fix r :: review_state
  show "read_review (review_json r) = Inr r"
    by (cases r; cases "rs_approved r") (simp_all add: read_review_def review_json_def)
  show "review_json r \<noteq> JNull" by (simp add: review_json_def)
qed

interpretation plan_ref_codec: json_codec plan_ref_json read_plan_ref "\<lambda>_. True"
  by unfold_locales (simp_all add: plan_ref_json_def read_plan_ref_def)

interpretation task_codec: json_codec task_json read_task "\<lambda>_. True"
proof
  fix t :: task
  have "read_nullable read_review (nullable review_json (t_review t)) = Inr (t_review t)"
    by (rule review_codec.dec_nullable) (simp add: pred_option_def)
  then show "read_task (task_json t) = Inr t"
    by (simp add: read_task_def task_json_def)
  show "task_json t \<noteq> JNull" by (simp add: task_json_def)
qed

lemma mode_of_nullable_json:
  "mode_of_name (str_of (Some (nullable (\<lambda>m. JStr (agent_mode_name m)) x))) = x"
proof (cases x)
  case None
  then show ?thesis by (simp add: mode_of_name_def SESSION_STATE_AGENT_MODES_def)
qed simp

interpretation cycle_codec: json_codec cycle_json read_cycle "\<lambda>_. True"
proof
  fix c :: goal_cycle
  have "read_nullable read_plan_ref (nullable plan_ref_json (gc_planRef c)) = Inr (gc_planRef c)"
    by (rule plan_ref_codec.dec_nullable) (simp add: pred_option_def)
  then show "read_cycle (cycle_json c) = Inr c"
    by (simp add: read_cycle_def cycle_json_def task_codec.dec_list mode_of_nullable_json)
  show "cycle_json c \<noteq> JNull" by (simp add: cycle_json_def)
qed

lemma strip_cycle_json [simp]: "strip_cycle (cycle_json c) = cycle_json c"
  by (simp add: cycle_json_def task_json_def)

lemma load_saveCycles [simp]: "loadCycles (Some (saveCycles cs)) = map cycle_json cs"
  by (simp add: saveCycles_def stripLegacyNotes_def)

lemma read_saved: "map_result read_cycle (loadCycles (Some (saveCycles cs))) = Inr cs"
  using cycle_codec.dec_list [of cs] by simp

section \<open>The invariant\<close>

definition last_only_active :: "goal_cycle list \<Rightarrow> bool" where
  "last_only_active cs \<longleftrightarrow> (\<forall>c \<in> set (butlast cs). \<not> gc_active c)"

definition state_matches :: "tasks_runtime \<Rightarrow> bool" where
  "state_matches r \<longleftrightarrow> (case active_cycle r of
       None \<Rightarrow> rt_state r = \<lparr>ts_goal = None, ts_tasks = []\<rparr>
     | Some c \<Rightarrow> rt_state r = \<lparr>ts_goal = Some (gc_goal c), ts_tasks = gc_tasks c\<rparr>)"

text \<open>
  The file decodes to the cycles written last, and those are the cycles in memory unless the last write was
  refused; \<open>may\<close> says whether a write may be refused at all.
\<close>

definition file_matches :: "bool \<Rightarrow> tasks_runtime \<Rightarrow> bool" where
  "file_matches may r \<longleftrightarrow>
     rt_hasFile r \<and> map_result read_cycle (loadCycles (rt_file r)) = Inr (rt_kept r)
     \<and> (may \<and> rt_refused r \<or> rt_kept r = rt_cycles r)"

text \<open>What was written can be restarted from.\<close>

definition kept_ok :: "tasks_runtime \<Rightarrow> bool" where
  "kept_ok r \<longleftrightarrow> last_only_active (rt_kept r)
     \<and> pred_option (\<lambda>c. count_status Active (gc_tasks c) \<le> 1) (find gc_active (rt_kept r))"

definition tasks_inv :: "bool \<Rightarrow> tasks_runtime \<Rightarrow> bool" where
  "tasks_inv may r \<longleftrightarrow> last_only_active (rt_cycles r) \<and> state_matches r \<and> file_matches may r \<and> kept_ok r
     \<and> count_status Active (ts_tasks (rt_state r)) \<le> 1"

definition archived :: "tasks_runtime \<Rightarrow> goal_cycle list" where
  "archived r = filter (\<lambda>c. \<not> gc_active c) (rt_cycles r)"

text \<open>The list of cycles splits into the archived ones and the active one, if there is one.\<close>

lemma cycles_split:
  assumes "last_only_active cs"
  shows "(\<exists>xs c. cs = xs @ [c] \<and> gc_active c \<and> (\<forall>x \<in> set xs. \<not> gc_active x))
     \<or> (\<forall>x \<in> set cs. \<not> gc_active x)"
  using assms by (cases cs rule: rev_cases) (auto simp: last_only_active_def)

lemma updateWidget_frame [simp]:
  "rt_state (updateWidget r) = rt_state r" "rt_cycles (updateWidget r) = rt_cycles r"
  "rt_hasFile (updateWidget r) = rt_hasFile r" "rt_file (updateWidget r) = rt_file r"
  "rt_kept (updateWidget r) = rt_kept r" "rt_refused (updateWidget r) = rt_refused r"
  "rt_guardBlockCount (updateWidget r) = rt_guardBlockCount r" "rt_ui (updateWidget r) = rt_ui r"
  by (simp_all add: updateWidget_def)

lemma persistState_frame [simp]:
  "rt_state (snd (persistState refused r)) = rt_state r" "rt_hasFile (snd (persistState refused r)) = rt_hasFile r"
  "rt_guardBlockCount (snd (persistState refused r)) = rt_guardBlockCount r" "rt_ui (snd (persistState refused r)) = rt_ui r"
  "rt_widget (snd (persistState refused r)) = rt_widget r"
  by (simp_all add: persistState_def Let_def split: option.split)

lemma persistState_cycles:
  "rt_cycles (snd (persistState refused r))
   = map_first gc_active (\<lambda>c. c\<lparr>gc_tasks := ts_tasks (rt_state r)\<rparr>) (rt_cycles r)"
  by (simp add: persistState_def Let_def split: option.split)

lemma answer_saved_frame [simp]: "snd (answer_saved saved f) = snd saved"
  by (simp add: answer_saved_def split: prod.split sum.split)

lemma answer_accepted:
  "answer_saved (persistState None r) f = (Inr (f (snd (persistState None r))), snd (persistState None r))"
  by (simp add: answer_saved_def persistState_def Let_def)

lemma file_matches_persist:
  assumes "rt_hasFile r" "map_result read_cycle (loadCycles (rt_file r)) = Inr (rt_kept r)" "may \<or> refused = None"
  shows "file_matches may (snd (persistState refused r))"
  using assms read_saved by (auto simp: persistState_def file_matches_def Let_def split: option.split)

lemma kept_persist:
  "rt_kept (snd (persistState refused r)) = rt_kept r
   \<or> rt_kept (snd (persistState refused r)) = rt_cycles (snd (persistState refused r))"
  by (simp add: persistState_def Let_def split: option.split)

lemma kept_ok_persist:
  assumes "kept_ok r" "last_only_active (rt_cycles (snd (persistState refused r)))"
    and "state_matches (snd (persistState refused r))" "count_status Active (ts_tasks (rt_state r)) \<le> 1"
  shows "kept_ok (snd (persistState refused r))"
  using kept_persist [of refused r] assms
  by (auto simp: kept_ok_def state_matches_def active_cycle_def pred_option_def split: option.splits)

lemma set_tasks_frame [simp]:
  "ts_tasks (rt_state (set_tasks ts r)) = ts" "ts_goal (rt_state (set_tasks ts r)) = ts_goal (rt_state r)"
  "rt_cycles (set_tasks ts r) = rt_cycles r" "rt_hasFile (set_tasks ts r) = rt_hasFile r"
  "rt_file (set_tasks ts r) = rt_file r" "rt_kept (set_tasks ts r) = rt_kept r"
  by (simp_all add: set_tasks_def)

text \<open>Every mutation of the task list ends the same way; the invariant is restored there.\<close>

lemma commit_tasks_inv:
  assumes inv: "tasks_inv may r" and goal: "active_cycle r \<noteq> None" and saved: "may \<or> refused = None"
    and one: "count_status Active (ts_tasks (rt_state r')) \<le> 1"
    and r': "rt_cycles r' = rt_cycles r" "rt_hasFile r'" "rt_file r' = rt_file r" "rt_kept r' = rt_kept r"
      "ts_goal (rt_state r') = ts_goal (rt_state r)"
  shows "tasks_inv may (snd (persistState refused (updateWidget r')))"
    and "archived (snd (persistState refused (updateWidget r'))) = archived r"
proof -
  from inv goal obtain xs c where cs: "rt_cycles r = xs @ [c]" "gc_active c" "\<forall>x \<in> set xs. \<not> gc_active x"
    using cycles_split [of "rt_cycles r"]
    by (auto simp: tasks_inv_def active_cycle_def find_None_iff)
  let ?p = "snd (persistState refused (updateWidget r'))"
  have cyc: "rt_cycles ?p = xs @ [c\<lparr>gc_tasks := ts_tasks (rt_state r')\<rparr>]"
    using cs r' by (simp add: persistState_cycles map_first_append)
  have "active_cycle r = Some c" using cs by (simp add: active_cycle_def find_append)
  with inv have "ts_goal (rt_state r) = Some (gc_goal c)" by (simp add: tasks_inv_def state_matches_def)
  moreover have "active_cycle ?p = Some (c\<lparr>gc_tasks := ts_tasks (rt_state r')\<rparr>)"
    using cs cyc by (simp add: active_cycle_def find_append)
  ultimately have st: "state_matches ?p" using r' by (simp add: state_matches_def)
  have last: "last_only_active (rt_cycles ?p)" using cyc cs by (simp add: last_only_active_def)
  have "file_matches may ?p" using r' inv saved
    by (intro file_matches_persist) (simp_all add: tasks_inv_def file_matches_def)
  moreover have "kept_ok ?p" using inv st last one r'
    by (intro kept_ok_persist) (simp_all add: tasks_inv_def kept_ok_def)
  ultimately show "tasks_inv may ?p" using st last one by (simp add: tasks_inv_def)
  show "archived ?p = archived r" using cyc cs by (simp add: archived_def)
qed

lemma startGoalCycle_cycles:
  "rt_cycles (snd (startGoalCycle refused now n r)) = rt_cycles (archiveActiveCycle now r) @
     [\<lparr>gc_goal = nc_goal n, gc_tasks = nc_tasks n, gc_planRef = nc_planRef n,
       gc_agentMode = nc_agentMode n, gc_active = True, gc_archivedAt = None\<rparr>]"
  if "last_only_active (rt_cycles r)"
proof -
  have "\<forall>c \<in> set (rt_cycles (archiveActiveCycle now r)). \<not> gc_active c"
    using cycles_split [OF that] by (auto simp: archiveActiveCycle_def map_first_append map_first_id)
  then show ?thesis by (simp add: startGoalCycle_def Let_def persistState_cycles map_first_append)
qed

lemma startGoalCycle_state [simp]:
  "rt_state (snd (startGoalCycle refused now n r)) = \<lparr>ts_goal = Some (nc_goal n), ts_tasks = nc_tasks n\<rparr>"
  "rt_guardBlockCount (snd (startGoalCycle refused now n r)) = 0"
  "rt_hasFile (snd (startGoalCycle refused now n r)) = rt_hasFile r"
  by (simp_all add: startGoalCycle_def Let_def archiveActiveCycle_def)

lemma startGoalCycle_inv:
  assumes inv: "tasks_inv may r" and one: "count_status Active (nc_tasks n) \<le> 1" and saved: "may \<or> refused = None"
  shows "tasks_inv may (snd (startGoalCycle refused now n r))"
    and "archived (snd (startGoalCycle refused now n r)) = archived r @
      (case active_cycle r of None \<Rightarrow> []
       | Some c \<Rightarrow> [c\<lparr>gc_tasks := ts_tasks (rt_state r), gc_active := False, gc_archivedAt := Some now\<rparr>])"
proof -
  let ?s = "snd (startGoalCycle refused now n r)"
  from inv have last: "last_only_active (rt_cycles r)" and kept: "kept_ok r"
    and on_file: "rt_hasFile r" "map_result read_cycle (loadCycles (rt_file r)) = Inr (rt_kept r)"
    by (simp_all add: tasks_inv_def file_matches_def)
  note cyc = startGoalCycle_cycles [OF last, of refused now n]
  have arch: "\<forall>c \<in> set (rt_cycles (archiveActiveCycle now r)). \<not> gc_active c"
    using cycles_split [OF last] by (auto simp: archiveActiveCycle_def map_first_append map_first_id)
  have st: "state_matches ?s" using cyc arch by (simp add: state_matches_def active_cycle_def find_append)
  have newest: "last_only_active (rt_cycles ?s)" using cyc arch by (simp add: last_only_active_def)
  have "file_matches may ?s"
    unfolding startGoalCycle_def Let_def
    by (rule file_matches_persist [OF _ _ saved]) (simp_all add: archiveActiveCycle_def on_file)
  moreover have "kept_ok ?s"
    using st newest one kept unfolding startGoalCycle_def Let_def
    by (intro kept_ok_persist) (simp_all add: archiveActiveCycle_def kept_ok_def)
  ultimately show "tasks_inv may ?s" using st newest one by (simp add: tasks_inv_def)
  show "archived ?s = archived r @
      (case active_cycle r of None \<Rightarrow> []
       | Some c \<Rightarrow> [c\<lparr>gc_tasks := ts_tasks (rt_state r), gc_active := False, gc_archivedAt := Some now\<rparr>])"
    using cycles_split [OF last] cyc
    by (auto simp: archived_def active_cycle_def archiveActiveCycle_def map_first_append map_first_id
        find_append filter_id_conv find_None_iff split: option.splits dest: find_SomeD)
qed

section \<open>The tools keep it\<close>

lemma count_status_Nil [simp]: "count_status st [] = 0"
  by (simp add: count_status_def)

lemma count_new_tasks: "st \<noteq> Pending \<Longrightarrow> count_status st (map new_task is) = 0"
  by (simp add: count_status_def new_task_def filter_empty_conv)

lemma count_clear_active [simp]: "count_status Active (clear_active ts) = 0"
  by (auto simp: count_status_def clear_active_def filter_empty_conv)

lemma length_clear_active [simp]: "length (clear_active ts) = length ts"
  by (simp add: clear_active_def)

lemma count_set_status:
  assumes "i < length ts"
  shows "count_status st (set_status i st' ts) + (if t_status (ts ! i) = st then 1 else 0)
         = count_status st ts + (if st' = st then 1 else 0)"
proof -
  have ts: "ts = take i ts @ ts ! i # drop (Suc i) ts" using assms by (rule id_take_nth_drop)
  have set: "set_status i st' ts = take i ts @ (ts ! i)\<lparr>t_status := st'\<rparr> # drop (Suc i) ts"
    using assms by (simp add: set_status_def upd_conv_take_nth_drop)
  have count: "\<And>x. count_status st (take i ts @ x # drop (Suc i) ts) =
      count_status st (take i ts) + count_status st (drop (Suc i) ts) + (if t_status x = st then 1 else 0)"
    by (simp add: count_status_def)
  show ?thesis using count [of "ts ! i"] count [of "(ts ! i)\<lparr>t_status := st'\<rparr>"] ts set by simp
qed

lemma requireTasks_Inr:
  "requireTasks s index = Inr i \<longleftrightarrow> index = IntNum (int i) \<and> i < length (ts_tasks s)"
  by (auto simp: requireTasks_def split: jsnum.splits if_splits)

lemma tasks_need_cycle: "tasks_inv may r \<Longrightarrow> ts_tasks (rt_state r) \<noteq> [] \<Longrightarrow> active_cycle r \<noteq> None"
  by (auto simp: tasks_inv_def state_matches_def split: option.splits)

lemma goal_needs_cycle: "tasks_inv may r \<Longrightarrow> truthy (ts_goal (rt_state r)) \<Longrightarrow> active_cycle r \<noteq> None"
  by (auto simp: tasks_inv_def state_matches_def truthy_def split: option.splits)

text \<open>
  The calls that reach the task domain in a session: the six tools, the guard on any other tool,
  the goal cycle an approved plan starts (its tasks are new, hence pending), and the session's
  end and restart from its own file.
\<close>

datatype task_call =
    UpdateGoal string agent_mode string
  | CreateTasks "task_input list"
  | StartTask jsnum
  | CompleteTask jsnum
  | GetTask jsnum
  | DeleteTask jsnum
  | OtherTool string
  | PlanApproved string new_cycle
  | Shutdown

fun task_call_effect :: "string option \<Rightarrow> task_call \<Rightarrow> tasks_runtime \<Rightarrow> tasks_runtime" where
  "task_call_effect refused (UpdateGoal now mode goal) r = snd (update_goal refused now mode goal r)"
| "task_call_effect refused (CreateTasks is) r = snd (create_tasks refused is r)"
| "task_call_effect refused (StartTask i) r = snd (start_task refused i r)"
| "task_call_effect refused (CompleteTask i) r = snd (complete_task refused i r)"
| "task_call_effect refused (GetTask i) r = snd (get_task i r)"
| "task_call_effect refused (DeleteTask i) r = snd (delete_task refused i r)"
| "task_call_effect refused (OtherTool t) r = snd (task_guard t r)"
| "task_call_effect refused (PlanApproved now n) r = snd (startGoalCycle refused now n r)"
| "task_call_effect refused Shutdown r = tasks_session_shutdown r"

fun task_call_ok :: "task_call \<Rightarrow> bool" where
  "task_call_ok (PlanApproved now n) = list_all (\<lambda>t. t_status t = Pending) (nc_tasks n)"
| "task_call_ok _ = True"

text \<open>\<open>may\<close>: some write of the task file may be refused.\<close>

inductive task_reachable :: "bool \<Rightarrow> tasks_runtime \<Rightarrow> bool" for may where
  fresh_session: "tasks_session_start hasUI m None init_runtime = Inr (r, m') \<Longrightarrow> task_reachable may r"
| call: "task_reachable may r \<Longrightarrow> task_call_ok c \<Longrightarrow> may \<or> refused = None \<Longrightarrow> task_reachable may (task_call_effect refused c r)"
| restart: "task_reachable may r \<Longrightarrow> tasks_session_start hasUI m (rt_file r) init_runtime = Inr (r', m')
    \<Longrightarrow> task_reachable may r'"

lemma all_pending_no_active: "list_all (\<lambda>t. t_status t = Pending) ts \<Longrightarrow> count_status Active ts = 0"
  by (auto simp: count_status_def list_all_iff filter_empty_conv)

lemma tasks_inv_frame:
  "tasks_inv may r \<Longrightarrow> tasks_inv may (r\<lparr>rt_guardBlockCount := n\<rparr>)" "tasks_inv may r \<Longrightarrow> tasks_inv may (r\<lparr>rt_ui := u\<rparr>)"
  by (simp_all add: tasks_inv_def state_matches_def file_matches_def kept_ok_def active_cycle_def
      split: option.splits)

lemma archived_frame [simp]:
  "archived (r\<lparr>rt_guardBlockCount := n\<rparr>) = archived r" "archived (r\<lparr>rt_ui := u\<rparr>) = archived r"
  by (simp_all add: archived_def)

lemma status_change_inv:
  assumes inv: "tasks_inv may r" and i: "i < length (ts_tasks (rt_state r))" and saved: "may \<or> refused = None"
    and one: "count_status Active (set_status i st ts) \<le> 1"
  shows "tasks_inv may (snd (persistState refused (updateWidget (set_tasks (set_status i st ts) r))))"
    and "archived (snd (persistState refused (updateWidget (set_tasks (set_status i st ts) r)))) = archived r"
proof -
  have "ts_tasks (rt_state r) \<noteq> []" using i by auto
  then have "active_cycle r \<noteq> None" by (rule tasks_need_cycle [OF inv])
  moreover have "rt_hasFile r" using inv by (simp add: tasks_inv_def file_matches_def)
  ultimately show "tasks_inv may (snd (persistState refused (updateWidget (set_tasks (set_status i st ts) r))))"
    and "archived (snd (persistState refused (updateWidget (set_tasks (set_status i st ts) r)))) = archived r"
    using commit_tasks_inv [OF inv _ saved, of "set_tasks (set_status i st ts) r"] one by simp_all
qed

text \<open>A tool that names a task either fails and changes nothing or commits one status change.\<close>

lemma start_task_effect:
  "snd (start_task refused index r) = r \<or> (\<exists>i < length (ts_tasks (rt_state r)).
     snd (start_task refused index r) = snd (persistState refused (updateWidget
       (set_tasks (set_status i Active (clear_active (ts_tasks (rt_state r)))) r))))"
  by (auto simp: start_task_def Let_def requireTasks_Inr split: sum.splits)

lemma complete_task_effect:
  "snd (complete_task refused index r) = r \<or> (\<exists>i < length (ts_tasks (rt_state r)).
     snd (complete_task refused index r) = snd (persistState refused (updateWidget
       (set_tasks (set_status i Completed (ts_tasks (rt_state r))) r))))"
  by (auto simp: complete_task_def Let_def requireTasks_Inr split: sum.splits)

lemma delete_task_effect:
  "snd (delete_task refused index r) = r \<or> (\<exists>i < length (ts_tasks (rt_state r)).
     snd (delete_task refused index r) = snd (persistState refused (updateWidget
       (set_tasks (set_status i Deleted (ts_tasks (rt_state r))) r))))"
  by (auto simp: delete_task_def Let_def requireTasks_Inr split: sum.splits)

lemma set_status_one_active:
  assumes "i < length ts"
  shows "count_status Active (set_status i Active (clear_active ts)) \<le> 1"
    and "st \<noteq> Active \<Longrightarrow> count_status Active (set_status i st ts) \<le> count_status Active ts"
  using count_set_status [of i "clear_active ts" Active Active] count_set_status [of i ts Active st] assms
  by (auto split: if_splits)

text \<open>One call keeps the invariant and only ever appends to the archive.\<close>

lemma task_call_step:
  assumes "tasks_inv may r" "task_call_ok c" and saved: "may \<or> refused = None"
  shows "tasks_inv may (task_call_effect refused c r) \<and> (\<exists>new. archived (task_call_effect refused c r) = archived r @ new)"
proof (cases c)
  case (UpdateGoal now mode goal)
  then show ?thesis using startGoalCycle_inv [OF assms(1) _ saved] by (simp add: update_goal_def)
next
  case (PlanApproved now n)
  then show ?thesis using startGoalCycle_inv [OF assms(1) _ saved, of n] assms(2)
    by (simp add: all_pending_no_active)
next
  case (CreateTasks inputs)
  have hf: "rt_hasFile r" using assms(1) by (simp add: tasks_inv_def file_matches_def)
  show ?thesis
  proof (cases "truthy (ts_goal (rt_state r))")
    case True
    let ?r1 = "(set_tasks (map new_task inputs) r)\<lparr>rt_guardBlockCount := 0\<rparr>"
    have "active_cycle r \<noteq> None" using True by (rule goal_needs_cycle [OF assms(1)])
    then show ?thesis
      using commit_tasks_inv [OF assms(1) _ saved, of ?r1] CreateTasks True hf
      by (simp add: create_tasks_def Let_def count_new_tasks)
  qed (use CreateTasks assms in \<open>simp add: create_tasks_def\<close>)
next
  case (StartTask index)
  show ?thesis
    using start_task_effect [of refused index r] assms(1) StartTask
      status_change_inv [OF assms(1) _ saved] set_status_one_active(1)
    by (metis append_Nil2 task_call_effect.simps(3))
next
  case (CompleteTask index)
  have "count_status Active (ts_tasks (rt_state r)) \<le> 1" using assms(1) by (simp add: tasks_inv_def)
  then show ?thesis
    using complete_task_effect [of refused index r] assms(1) CompleteTask status_change_inv [OF assms(1) _ saved]
      set_status_one_active(2) [of _ "ts_tasks (rt_state r)" Completed]
    by (metis append_Nil2 le_trans task_call_effect.simps(4) task_status.distinct(7))
next
  case (DeleteTask index)
  have "count_status Active (ts_tasks (rt_state r)) \<le> 1" using assms(1) by (simp add: tasks_inv_def)
  then show ?thesis
    using delete_task_effect [of refused index r] assms(1) DeleteTask status_change_inv [OF assms(1) _ saved]
      set_status_one_active(2) [of _ "ts_tasks (rt_state r)" Deleted]
    by (metis append_Nil2 le_trans task_call_effect.simps(6) task_status.distinct(9))
next
  case (GetTask index)
  then show ?thesis using assms(1) by (simp add: get_task_def split: sum.splits)
next
  case (OtherTool t)
  then show ?thesis using assms(1)
    by (simp add: task_guard_def tasks_inv_frame split: option.splits)
next
  case Shutdown
  then show ?thesis using assms(1) by (simp add: tasks_session_shutdown_def tasks_inv_frame)
qed

section \<open>Sessions\<close>

lemma session_start_inv:
  assumes start: "tasks_session_start hasUI m file init_runtime = Inr (r, m')"
    and decoded: "map_result read_cycle (loadCycles file) = Inr cs" "last_only_active cs"
    and one: "\<And>c. find gc_active cs = Some c \<Longrightarrow> count_status Active (gc_tasks c) \<le> 1"
  shows "tasks_inv may r" "rt_cycles r = cs"
    "rt_state r = (case find gc_active cs of None \<Rightarrow> \<lparr>ts_goal = None, ts_tasks = []\<rparr>
       | Some c \<Rightarrow> \<lparr>ts_goal = Some (gc_goal c), ts_tasks = gc_tasks c\<rparr>)"
  using start decoded one
  by (auto simp: tasks_session_start_def Let_def tasks_inv_def state_matches_def file_matches_def kept_ok_def
      active_cycle_def split: option.splits)

text \<open>A restart from the file comes back with what was written last.\<close>

lemma restart_inv:
  assumes inv: "tasks_inv may r"
  shows "\<exists>r' m'. tasks_session_start hasUI m (rt_file r) init_runtime = Inr (r', m')"
    and "tasks_session_start hasUI m (rt_file r) init_runtime = Inr (r', m') \<Longrightarrow>
      tasks_inv may r' \<and> rt_cycles r' = rt_kept r \<and> (rt_kept r = rt_cycles r \<longrightarrow> rt_state r' = rt_state r)"
proof -
  have decoded: "map_result read_cycle (loadCycles (rt_file r)) = Inr (rt_kept r)"
    "last_only_active (rt_kept r)"
    using inv by (simp_all add: tasks_inv_def file_matches_def kept_ok_def)
  have one: "count_status Active (gc_tasks c) \<le> 1" if "find gc_active (rt_kept r) = Some c" for c
    using inv that by (simp add: tasks_inv_def kept_ok_def)
  from decoded(1) show "\<exists>r' m'. tasks_session_start hasUI m (rt_file r) init_runtime = Inr (r', m')"
    by (simp add: tasks_session_start_def Let_def)
  assume start: "tasks_session_start hasUI m (rt_file r) init_runtime = Inr (r', m')"
  note s = session_start_inv [OF start decoded one]
  have "rt_state r' = rt_state r" if "rt_kept r = rt_cycles r"
    using s(3) inv that by (auto simp: tasks_inv_def state_matches_def active_cycle_def split: option.splits)
  with s show "tasks_inv may r' \<and> rt_cycles r' = rt_kept r \<and> (rt_kept r = rt_cycles r \<longrightarrow> rt_state r' = rt_state r)" by blast
qed

lemma task_reachable_inv: "task_reachable may r \<Longrightarrow> tasks_inv may r"
proof (induction rule: task_reachable.induct)
  case (fresh_session hasUI m r m')
  show ?case by (rule session_start_inv(1) [OF fresh_session, where cs = "[]"]) (simp_all add: last_only_active_def)
next
  case (call r c refused)
  then show ?case using task_call_step by blast
next
  case (restart r hasUI m r' m')
  then show ?case using restart_inv(2) by blast
qed

text \<open>A fresh session in which a goal is set, two tasks are created and the second is started.\<close>

definition example_tasks :: "task_input list" where
  "example_tasks = [\<lparr>ti_label = ''a'', ti_description = ''da'', ti_criteria = ''ca''\<rparr>,
     \<lparr>ti_label = ''b'', ti_description = ''db'', ti_criteria = ''cb''\<rparr>]"

definition example_session :: tasks_runtime where
  "example_session = task_call_effect None (StartTask (IntNum 1))
     (task_call_effect None (CreateTasks example_tasks)
       (task_call_effect None (UpdateGoal ''t1'' Work ''ship it'')
         (init_runtime\<lparr>rt_ui := Some True, rt_hasFile := True\<rparr>)))"

lemma example_session_reachable: "task_reachable may example_session"
  unfolding example_session_def
  by (intro task_reachable.call task_reachable.fresh_session [of True None _ None])
    (simp_all add: tasks_session_start_def init_runtime_def updateWidget_def truthy_def)

lemmas example_session_eval =
  example_session_def example_tasks_def start_task_def create_tasks_def update_goal_def
  startGoalCycle_def archiveActiveCycle_def persistState_def updateWidget_def init_runtime_def
  requireTasks_def truthy_def answer_saved_def set_tasks_def set_status_def clear_active_def new_task_def Let_def

lemma example_session_state:
  "map t_status (ts_tasks (rt_state example_session)) = [Pending, Active]"
  "ts_goal (rt_state example_session) = Some ''ship it''"
  by (simp_all add: example_session_eval)

text \<open>The same session after a completed second task whose write was refused.\<close>

definition refused_session :: tasks_runtime where
  "refused_session = task_call_effect (Some ''ENOSPC'') (CompleteTask (IntNum 1)) example_session"

lemma refused_session_reachable: "task_reachable True refused_session"
  unfolding refused_session_def by (rule task_reachable.call [OF example_session_reachable]) simp_all

lemma refused_session_state:
  "map t_status (ts_tasks (rt_state refused_session)) = [Pending, Completed]" "rt_refused refused_session"
  "rt_kept refused_session = rt_cycles example_session" "rt_file refused_session = rt_file example_session"
  by (simp_all add: refused_session_def complete_task_def example_session_eval)





text \<open>
  The archive is append-only: no call rewrites, reorders or drops an archived goal cycle; a
  call adds at most new archived cycles at the end.
\<close>

theorem task_archive_append_only:
  assumes "task_reachable may r" "task_call_ok c" "may \<or> refused = None"
  shows "\<exists>new. archived (task_call_effect refused c r) = archived r @ new"
  using task_call_step [OF task_reachable_inv [OF assms(1)] assms(2,3)] by blast

theorem task_archive_append_only_witness:
  "\<exists>new. archived (task_call_effect None (UpdateGoal ''t9'' Work ''next'') example_session)
     = archived example_session @ new"
  by (rule task_archive_append_only [OF example_session_reachable [of False]]) simp_all

section \<open>What the tools do\<close>

text \<open>
  Starting a task succeeds exactly for an index in range whose task is pending or active;
  then that task is active, any other active task is pending again, and every other task is
  unchanged. When it fails nothing changes.
\<close>

theorem start_task_spec:
  "(case start_task None (IntNum k) r of
      (Inl e, r') \<Rightarrow> r' = r \<and>
        (k < 0 \<or> k \<ge> int (length (ts_tasks (rt_state r)))
         \<or> t_status (ts_tasks (rt_state r) ! nat k) \<in> {Completed, Deleted})
    | (Inr v, r') \<Rightarrow> 0 \<le> k \<and> nat k < length (ts_tasks (rt_state r))
        \<and> t_status (ts_tasks (rt_state r) ! nat k) \<in> {Pending, Active}
        \<and> ts_tasks (rt_state r') = map (\<lambda>(j, t).
             if j = nat k then t\<lparr>t_status := Active\<rparr>
             else if t_status t = Active then t\<lparr>t_status := Pending\<rparr> else t)
           (indexed (ts_tasks (rt_state r))))"
proof (cases "requireTasks (rt_state r) (IntNum k)")
  case (Inl e)
  then show ?thesis
    by (auto simp: start_task_def requireTasks_def split: if_splits)
next
  case (Inr i)
  then have k: "k = int i" and i: "i < length (ts_tasks (rt_state r))"
    by (simp_all add: requireTasks_Inr)
  have ts: "set_status i Active (clear_active (ts_tasks (rt_state r))) = map (\<lambda>(j, t).
             if j = i then t\<lparr>t_status := Active\<rparr>
             else if t_status t = Active then t\<lparr>t_status := Pending\<rparr> else t)
           (indexed (ts_tasks (rt_state r)))"
    using i by (auto simp: set_status_def clear_active_def nth_list_update intro: nth_equalityI)
  show ?thesis
  proof (cases "t_status (ts_tasks (rt_state r) ! i)")
    case Completed
    with Inr k show ?thesis by (simp add: start_task_def Let_def)
  next
    case Deleted
    with Inr k show ?thesis by (simp add: start_task_def Let_def)
  qed (use Inr k i ts in \<open>simp_all add: start_task_def answer_accepted Let_def\<close>)
qed

text \<open>
  Deleting keeps every index stable: the list keeps its length, only the named task changes
  and only its status, and a second deletion is refused.
\<close>

theorem delete_task_spec:
  assumes "i < length (ts_tasks (rt_state r))" and "t_status (ts_tasks (rt_state r) ! i) \<noteq> Deleted"
  shows "ts_tasks (rt_state (snd (delete_task None (IntNum (int i)) r)))
         = (ts_tasks (rt_state r))[i := (ts_tasks (rt_state r) ! i)\<lparr>t_status := Deleted\<rparr>]
     \<and> fst (delete_task None (IntNum (int i)) (snd (delete_task None (IntNum (int i)) r))) = Inl (TaskAlreadyDeleted i)"
proof -
  have req: "requireTasks (rt_state r) (IntNum (int i)) = Inr i" using assms by (simp add: requireTasks_Inr)
  let ?r' = "snd (delete_task None (IntNum (int i)) r)"
  have ts: "ts_tasks (rt_state ?r')
         = (ts_tasks (rt_state r))[i := (ts_tasks (rt_state r) ! i)\<lparr>t_status := Deleted\<rparr>]"
    using req assms by (simp add: delete_task_def Let_def set_status_def)
  then have "requireTasks (rt_state ?r') (IntNum (int i)) = Inr i" using assms by (simp add: requireTasks_Inr)
  then have "fst (delete_task None (IntNum (int i)) ?r') = Inl (TaskAlreadyDeleted i)"
    using ts assms by (simp add: delete_task_def [of None "IntNum (int i)" ?r'])
  with ts show ?thesis by blast
qed

theorem delete_task_spec_witness:
  "ts_tasks (rt_state (snd (delete_task None (IntNum (int 1)) example_session)))
     = (ts_tasks (rt_state example_session))[1 := (ts_tasks (rt_state example_session) ! 1)\<lparr>t_status := Deleted\<rparr>]
   \<and> fst (delete_task None (IntNum (int 1)) (snd (delete_task None (IntNum (int 1)) example_session)))
     = Inl (TaskAlreadyDeleted 1)"
proof -
  have "map t_status (ts_tasks (rt_state example_session)) = [Pending, Active]"
    by (rule example_session_state)
  then have "1 < length (ts_tasks (rt_state example_session))"
    "t_status (ts_tasks (rt_state example_session) ! 1) \<noteq> Deleted" by auto
  then show ?thesis by (rule delete_task_spec)
qed

lemma count_status_split:
  "length ts = count_status Pending ts + count_status Active ts + count_status Completed ts + count_status Deleted ts"
proof (induction ts)
  case (Cons t ts)
  then show ?case by (cases "t_status t") (simp_all add: count_status_def)
qed (simp add: count_status_def)

text \<open>
  The progress the tools report accounts for every task: live and deleted tasks add up to
  the list, the live ones are the pending, the active and the completed, and no more tasks are
  completed than live.
\<close>

theorem progress_accounts_for_every_task:
  "p_total (buildProgress s) + p_deleted (buildProgress s) = length (ts_tasks s)
   \<and> p_total (buildProgress s) = count_status Pending (ts_tasks s) + count_status Active (ts_tasks s)
        + p_completed (buildProgress s)
   \<and> p_completed (buildProgress s) \<le> p_total (buildProgress s)"
  using count_status_split [of "ts_tasks s"] by (simp add: buildProgress_def Let_def)

section \<open>What the guard does\<close>

fun guard_run :: "string list \<Rightarrow> tasks_runtime \<Rightarrow> guard_verdict list" where
  "guard_run [] r = []"
| "guard_run (t # ts) r = fst (task_guard t r) # guard_run ts (snd (task_guard t r))"

definition violates :: "tasks_state \<Rightarrow> string \<Rightarrow> bool" where
  "violates s t \<longleftrightarrow> t \<notin> set TASK_TOOLS \<and> task_guard_reason t s \<noteq> None"

lemma guard_run_steers:
  "0 < rt_guardBlockCount r \<Longrightarrow> \<forall>t \<in> set ts. violates (rt_state r) t \<Longrightarrow>
   guard_run ts r = map (\<lambda>t. Steer (the (task_guard_reason t (rt_state r)))) ts"
proof (induction ts arbitrary: r)
  case (Cons t ts)
  let ?r' = "r\<lparr>rt_guardBlockCount := Suc (rt_guardBlockCount r)\<rparr>"
  from Cons.prems have step: "task_guard t r = (Steer (the (task_guard_reason t (rt_state r))), ?r')"
    by (auto simp: task_guard_def violates_def)
  have "guard_run ts ?r' = map (\<lambda>t. Steer (the (task_guard_reason t (rt_state r)))) ts"
    using Cons.IH [of ?r'] Cons.prems by simp
  with step show ?case by simp
qed simp

text \<open>
  Of the calls that break the task policy after a new goal or a new task list, the first is
  blocked and every later one is only steered, each with the reason for that call.
\<close>

theorem guard_blocks_first_then_steers:
  assumes "rt_guardBlockCount r = 0" and "\<forall>x \<in> set (t # ts). violates (rt_state r) x"
  shows "guard_run (t # ts) r = Block (the (task_guard_reason t (rt_state r)))
           # map (\<lambda>x. Steer (the (task_guard_reason x (rt_state r)))) ts"
proof -
  let ?r' = "r\<lparr>rt_guardBlockCount := Suc (rt_guardBlockCount r)\<rparr>"
  have "task_guard t r = (Block (the (task_guard_reason t (rt_state r))), ?r')"
    using assms by (auto simp: task_guard_def violates_def)
  moreover have "guard_run ts ?r' = map (\<lambda>x. Steer (the (task_guard_reason x (rt_state r)))) ts"
    using guard_run_steers [of ?r' ts] assms(2) by simp
  ultimately show ?thesis by simp
qed

theorem guard_blocks_first_then_steers_witness:
  "guard_run [''bash'', ''edit''] init_runtime = [Block set_goal_reason, Steer set_goal_reason]"
  using guard_blocks_first_then_steers [of init_runtime "''bash''" "[''edit'']"]
  by (simp add: violates_def init_runtime_def task_guard_reason_def truthy_def TASK_TOOLS_def)

text \<open>
  An edit or a write passes the guard unremarked only with a goal set and a pending or
  active task.
\<close>

theorem edits_need_goal_and_open_task:
  "fst (task_guard ''edit'' r) = Pass \<longleftrightarrow>
     truthy (ts_goal (rt_state r)) \<and> has_open_tasks (rt_state r)"
  by (simp add: task_guard_def task_guard_reason_def TASK_TOOLS_def GATED_WITHOUT_TASKS_def)

section \<open>What the widget shows\<close>

lemma window_from_length: "length (window_from ts n) \<le> WINDOW_SIZE - n"
  by (induction ts n rule: window_from.induct) (auto simp: WINDOW_SIZE_def)

lemma window_from_subset: "t \<in> set (window_from ts n) \<Longrightarrow> t \<in> set ts \<and> t_status t \<noteq> Completed"
  by (induction ts n rule: window_from.induct) (auto split: if_splits)

lemma window_starts_with_active:
  assumes "find_index (\<lambda>t. t_status t = Active) ts = Some i"
  shows "\<exists>rest. window_from (drop (window_start ts) ts) 0 = ts ! i # rest"
proof -
  have i: "i < length ts" "t_status (ts ! i) = Active" using find_index_Some [OF assms] by simp_all
  then have "drop i ts = ts ! i # drop (Suc i) ts" by (simp add: Cons_nth_drop_Suc)
  with i assms show ?thesis by (simp add: window_start_def WINDOW_SIZE_def)
qed

text \<open>
  The widget's window holds at most three tasks and never a completed one, and starts with
  the active task when there is one.
\<close>

theorem widget_window:
  "length (window_from (drop (window_start ts) ts) 0) \<le> 3
   \<and> list_all (\<lambda>t. t_status t \<noteq> Completed) (window_from (drop (window_start ts) ts) 0)
   \<and> (case find_index (\<lambda>t. t_status t = Active) ts of None \<Rightarrow> True
      | Some i \<Rightarrow> hd (window_from (drop (window_start ts) ts) 0) = ts ! i)"
  using window_from_length [of "drop (window_start ts) ts" 0] window_from_subset
    window_starts_with_active [of ts]
  by (fastforce simp: WINDOW_SIZE_def list_all_iff split: option.split)

end
