(* ===== verification/FastPath.thy ===== *)
theory FastPath
  imports Prelude
begin

text \<open>
  The bash reviewer's fast path (\<open>pi/bash-reviewer/fast-path.ts\<close>): the only code that lets a
  command run without a verdict. The lemmas say what its answer is worth: an accepted command
  has no character a shell gives a meaning to, the words inspected are all of its text, and
  they are a read-only executable or a read-only git subcommand with known options.
\<close>

section \<open>The recogniser\<close>

definition safe_char :: "char \<Rightarrow> bool" where
  "safe_char c \<longleftrightarrow> is_alnum c \<or> c \<in> set '' -_./,:@+'' \<or> c = CHR 0x09"

text \<open>\<open>/^[A-Za-z0-9 \t\-_./,:@+]+$/\<close>.\<close>

definition SAFE_CHARACTERS :: "string \<Rightarrow> bool" where
  "SAFE_CHARACTERS s \<longleftrightarrow> s \<noteq> [] \<and> list_all safe_char s"

definition SAFE_GIT_OPTIONS :: "string list" where
  "SAFE_GIT_OPTIONS =
     [''--'', ''--abbrev-ref'', ''--all'', ''--cached'', ''--decorate'', ''--graph'',
      ''--name-only'', ''--name-status'', ''--numstat'', ''--oneline'', ''--porcelain'',
      ''--short'', ''--staged'', ''--stat'', ''--summary'']"

text \<open>\<open>/^-\d+$/\<close>.\<close>

definition COUNT_OPTION :: "string \<Rightarrow> bool" where
  "COUNT_OPTION w =
     (case w of c # ds \<Rightarrow> c = CHR ''-'' \<and> ds \<noteq> [] \<and> list_all is_digit ds | [] \<Rightarrow> False)"

definition READ_ONLY_EXECUTABLES :: "string list" where
  "READ_ONLY_EXECUTABLES =
     [''cat'', ''file'', ''head'', ''ls'', ''pwd'', ''stat'', ''tail'', ''wc'', ''which'']"

definition READ_ONLY_GIT_SUBCOMMANDS :: "string list" where
  "READ_ONLY_GIT_SUBCOMMANDS =
     [''annotate'', ''blame'', ''cat-file'', ''check-attr'', ''check-ignore'', ''check-mailmap'',
      ''check-ref-format'', ''cherry'', ''count-objects'', ''describe'', ''diff'', ''diff-files'',
      ''diff-index'', ''diff-pairs'', ''diff-tree'', ''for-each-ref'', ''get-tar-commit-id'',
      ''grep'', ''last-modified'', ''log'', ''ls-files'', ''ls-remote'', ''ls-tree'',
      ''merge-base'', ''merge-tree'', ''name-rev'', ''patch-id'', ''range-diff'', ''rev-list'',
      ''rev-parse'', ''shortlog'', ''show'', ''show-branch'', ''show-index'', ''show-ref'',
      ''status'', ''var'', ''verify-commit'', ''verify-tag'', ''version'', ''whatchanged'']"

definition safe_git_word :: "string \<Rightarrow> bool" where
  "safe_git_word w \<longleftrightarrow> \<not> startsWith w ''-'' \<or> w \<in> set SAFE_GIT_OPTIONS \<or> COUNT_OPTION w"

definition isTriviallySafe :: "string \<Rightarrow> bool" where
  "isTriviallySafe command =
     (if \<not> SAFE_CHARACTERS command then False
      else (case split_ws (trim command) of
              [] \<Rightarrow> False
            | executable # rest \<Rightarrow>
                if executable = ''git'' then
                  (case rest of
                     [] \<Rightarrow> False
                   | subcommand # args \<Rightarrow>
                       if subcommand \<notin> set READ_ONLY_GIT_SUBCOMMANDS then False
                       else list_all safe_git_word args)
                else executable \<in> set READ_ONLY_EXECUTABLES))"

section \<open>What acceptance means\<close>

text \<open>The characters a POSIX shell treats specially, the newline included.\<close>

definition shell_special :: "char \<Rightarrow> bool" where
  "shell_special c \<longleftrightarrow>
     c \<in> set ''|&;<>()$`*?[]#~=%!{}^'' \<or> c \<in> {CHR 0x5C, CHR 0x22, CHR 0x27, CHR 0x0A, CHR 0x0D}"

definition read_only_command :: "string list \<Rightarrow> bool" where
  "read_only_command ws =
     (case ws of
        [] \<Rightarrow> False
      | w # rest \<Rightarrow>
          if w = ''git'' then
            rest \<noteq> [] \<and> hd rest \<in> set READ_ONLY_GIT_SUBCOMMANDS
            \<and> list_all (\<lambda>a. hd (a @ ''x'') = CHR ''-'' \<longrightarrow> a \<in> set SAFE_GIT_OPTIONS \<or> COUNT_OPTION a)
                (tl rest)
          else w \<in> set READ_ONLY_EXECUTABLES)"

text \<open>The blank-separated words of a command: its text cut at every blank, without empty pieces.\<close>

definition shell_words :: "string \<Rightarrow> string list" where
  "shell_words s = filter (\<lambda>w. w \<noteq> [])
     (split_on (CHR '' '') (map (\<lambda>c. if c = CHR 0x09 then CHR '' '' else c) s))"

lemma safe_not_special: "safe_char c \<Longrightarrow> \<not> shell_special c"
  by (auto simp: safe_char_def shell_special_def char_class_defs)

lemma safe_ws: "safe_char c \<Longrightarrow> js_ws c \<longleftrightarrow> c = CHR '' '' \<or> c = CHR 0x09"
  by (auto simp: safe_char_def js_ws_def char_class_defs)

text \<open>\<open>trim().split(/\s+/)\<close> on blanks only is the shell's word splitting.\<close>

definition ws_pieces :: "string \<Rightarrow> string list" where
  "ws_pieces s = split_on (CHR '' '') (map (\<lambda>c. if js_ws c then CHR '' '' else c) s)"

lemma ws_pieces_simps [simp]:
  "ws_pieces [] = [[]]"
  "js_ws x \<Longrightarrow> ws_pieces (x # xs) = [] # ws_pieces xs"
  "\<not> js_ws x \<Longrightarrow> ws_pieces (x # xs) =
     (case ws_pieces xs of [] \<Rightarrow> [[x]] | w # ws \<Rightarrow> (x # w) # ws)"
  by (auto simp: ws_pieces_def js_ws_def)

lemma ws_pieces_not_Nil [simp]: "ws_pieces s \<noteq> []"
  by (simp add: ws_pieces_def)

lemma split_ws_aux_True:
  "js_ws x \<Longrightarrow> split_ws_aux True (x # xs) = split_ws_aux True xs"
  by simp

lemma filter_split_ws_aux:
  "filter (\<lambda>w. w \<noteq> []) (split_ws_aux b s) = filter (\<lambda>w. w \<noteq> []) (ws_pieces s)
   \<and> (\<not> (\<exists>x xs. s = x # xs \<and> js_ws x) \<longrightarrow> hd (split_ws_aux b s) = hd (ws_pieces s)
        \<and> filter (\<lambda>w. w \<noteq> []) (tl (split_ws_aux b s)) = filter (\<lambda>w. w \<noteq> []) (tl (ws_pieces s)))"
proof (induction b s rule: split_ws_aux.induct)
  case (1 prev)
  then show ?case by simp
next
  case (2 prev x xs)
  show ?case
  proof (cases "js_ws x")
    case True
    with 2 show ?thesis by auto
  next
    case False
    obtain v vs where v: "split_ws_aux False xs = v # vs" by (meson neq_Nil_conv split_ws_aux_not_Nil)
    obtain u us where u: "ws_pieces xs = u # us" by (meson neq_Nil_conv ws_pieces_not_Nil)
    have "v = u \<and> filter (\<lambda>w. w \<noteq> []) vs = filter (\<lambda>w. w \<noteq> []) us"
    proof (cases "\<exists>y ys. xs = y # ys \<and> js_ws y")
      case True
      then have "v = []" "u = []" using u v by auto
      with "2.IH"(3) [OF False] u v show ?thesis by simp
    next
      case F: False
      with "2.IH"(3) [OF False] u v show ?thesis by simp
    qed
    with False u v show ?thesis by simp
  qed
qed

lemma split_ws_words:
  assumes "s \<noteq> []" "\<not> js_ws (hd s)" "\<not> js_ws (last s)"
  shows "list_all (\<lambda>w. w \<noteq> []) (split_ws s)"
proof -
  have "\<And>b. s \<noteq> [] \<longrightarrow> \<not> js_ws (last s) \<longrightarrow> list_all (\<lambda>w. w \<noteq> []) (tl (split_ws_aux b s)) \<and>
     (b \<or> \<not> js_ws (hd s) \<longrightarrow> hd (split_ws_aux b s) \<noteq> [])"
  proof -
    fix b
    show "s \<noteq> [] \<longrightarrow> \<not> js_ws (last s) \<longrightarrow> list_all (\<lambda>w. w \<noteq> []) (tl (split_ws_aux b s)) \<and>
      (b \<or> \<not> js_ws (hd s) \<longrightarrow> hd (split_ws_aux b s) \<noteq> [])"
    proof (induction b s rule: split_ws_aux.induct)
      case (1 prev)
      then show ?case by simp
    next
      case (2 prev x xs)
      obtain v vs where v: "split_ws_aux False xs = v # vs"
        by (meson neq_Nil_conv split_ws_aux_not_Nil)
      obtain u us where u: "split_ws_aux True xs = u # us"
        by (meson neq_Nil_conv split_ws_aux_not_Nil)
      show ?case
        by (cases "js_ws x"; cases "xs = []") (use 2 u v in \<open>auto split: if_splits\<close>)
    qed
  qed
  from this [of False] assms show ?thesis
    unfolding split_ws_def by (cases "split_ws_aux False s") auto
qed

lemma filter_split_on_replicate:
  "\<forall>c \<in> set r. js_ws c \<Longrightarrow> filter (\<lambda>w. w \<noteq> []) (ws_pieces (r @ s)) = filter (\<lambda>w. w \<noteq> []) (ws_pieces s)"
  by (induction r) auto

lemma ws_pieces_only_ws:
  "\<forall>c \<in> set r. js_ws c \<Longrightarrow> ws_pieces r = replicate (Suc (length r)) []"
  by (induction r) auto

lemma ws_pieces_append_ws:
  "\<forall>c \<in> set r. js_ws c \<Longrightarrow> ws_pieces (s @ r) = ws_pieces s @ replicate (length r) []"
proof (induction s)
  case Nil
  then show ?case by (simp add: ws_pieces_only_ws)
next
  case (Cons x s)
  obtain v vs where v: "ws_pieces s = v # vs" by (meson neq_Nil_conv ws_pieces_not_Nil)
  with Cons show ?case by (cases "js_ws x") auto
qed

lemma filter_ws_pieces_trim:
  "filter (\<lambda>w. w \<noteq> []) (ws_pieces (trim s)) = filter (\<lambda>w. w \<noteq> []) (ws_pieces s)"
proof -
  let ?t = "trimStart s"
  have s: "s = takeWhile js_ws s @ ?t" by (simp add: trimStart_def)
  obtain r where r: "?t = trimEnd ?t @ r" "\<forall>c \<in> set r. js_ws c" using trimEnd_prefix by blast
  have "filter (\<lambda>w. w \<noteq> []) (ws_pieces ?t) = filter (\<lambda>w. w \<noteq> []) (ws_pieces (trimEnd ?t))"
    by (subst r(1)) (simp add: ws_pieces_append_ws [OF r(2)] filter_empty_conv)
  moreover have "filter (\<lambda>w. w \<noteq> []) (ws_pieces s) = filter (\<lambda>w. w \<noteq> []) (ws_pieces ?t)"
    by (subst s) (rule filter_split_on_replicate, auto dest: set_takeWhileD)
  ultimately show ?thesis by (simp add: trim_def)
qed

text \<open>On every text that is not blank, \<open>trim().split(/\s+/)\<close> gives exactly the words.\<close>

lemma split_ws_trim:
  assumes "trim s \<noteq> []"
  shows "split_ws (trim s) = filter (\<lambda>w. w \<noteq> []) (ws_pieces s)"
proof -
  have "filter (\<lambda>w. w \<noteq> []) (split_ws (trim s)) = filter (\<lambda>w. w \<noteq> []) (ws_pieces (trim s))"
    using filter_split_ws_aux unfolding split_ws_def by blast
  moreover have "list_all (\<lambda>w. w \<noteq> []) (split_ws (trim s))"
    using assms trim_ends [OF assms] by (rule split_ws_words)
  then have "filter (\<lambda>w. w \<noteq> []) (split_ws (trim s)) = split_ws (trim s)"
    by (simp add: filter_id_conv list_all_iff)
  ultimately show ?thesis by (simp add: filter_ws_pieces_trim)
qed

lemma safe_words: "list_all safe_char s \<Longrightarrow> shell_words s = filter (\<lambda>w. w \<noteq> []) (ws_pieces s)"
  unfolding shell_words_def ws_pieces_def
  by (rule arg_cong [of _ _ "\<lambda>t. filter _ (split_on _ t)"]) (auto simp: list_all_iff safe_ws)

lemma read_only_iff:
  "(case ws of [] \<Rightarrow> False
    | executable # rest \<Rightarrow>
       if executable = ''git'' then
         (case rest of [] \<Rightarrow> False
          | subcommand # args \<Rightarrow>
              if subcommand \<notin> set READ_ONLY_GIT_SUBCOMMANDS then False else list_all safe_git_word args)
       else executable \<in> set READ_ONLY_EXECUTABLES) = read_only_command ws"
proof -
  have "safe_git_word a \<longleftrightarrow>
      (hd (a @ ''x'') = CHR ''-'' \<longrightarrow> a \<in> set SAFE_GIT_OPTIONS \<or> COUNT_OPTION a)" for a
    by (cases a) (auto simp: safe_git_word_def)
  then have w: "safe_git_word = (\<lambda>a. hd (a @ ''x'') = CHR ''-'' \<longrightarrow>
      a \<in> set SAFE_GIT_OPTIONS \<or> COUNT_OPTION a)"
    by blast
  show ?thesis
    by (auto simp: read_only_command_def w split: list.splits)
qed

lemma trivially_safe_iff:
  "isTriviallySafe s \<longleftrightarrow> list_all safe_char s \<and> read_only_command (shell_words s)"
proof (cases "list_all safe_char s \<and> trim s \<noteq> []")
  case True
  then have "s \<noteq> []" by (auto simp: trim_def trimStart_def trimEnd_def)
  with True show ?thesis
    by (simp add: isTriviallySafe_def SAFE_CHARACTERS_def read_only_iff split_ws_trim safe_words)
next
  case False
  show ?thesis
  proof (cases "list_all safe_char s")
    case True
    with False have t: "trim s = []" by simp
    then have "\<forall>c \<in> set s. js_ws c" by (simp add: trim_all_ws)
    then have "shell_words s = []" using True by (simp add: safe_words ws_pieces_only_ws)
    then have "\<not> read_only_command (shell_words s)" by (simp add: read_only_command_def)
    moreover have "\<not> isTriviallySafe s"
      by (simp add: isTriviallySafe_def t split_ws_def READ_ONLY_EXECUTABLES_def)
    ultimately show ?thesis by simp
  next
    case False
    then show ?thesis by (simp add: isTriviallySafe_def SAFE_CHARACTERS_def)
  qed
qed

section \<open>Property\<close>

text \<open>
  C3. The fast path accepts a command only when no character of it is special to a shell and the
  blank-separated words of the whole text are a read-only executable, or git with a read-only
  subcommand whose every dash-led argument is a known option or a count.
\<close>

theorem fast_path_sound:
  assumes "isTriviallySafe command"
  shows "list_all (\<lambda>c. \<not> shell_special c) command \<and> read_only_command (shell_words command)"
  using assms by (auto simp: trivially_safe_iff list_all_iff safe_not_special)

theorem fast_path_sound_witness:
  "list_all (\<lambda>c. \<not> shell_special c) ''git log --oneline -5  src/a.ts''
   \<and> read_only_command (shell_words ''git log --oneline -5  src/a.ts'')"
  by (rule fast_path_sound) code_simp

end
