(* ===== verification/Host.thy ===== *)
theory Host
  imports Json
begin

text \<open>
  The host the extension runs on (\<open>pi/core/host\<close>): the process environment, commands and
  their results, shell quoting, JSON files. The calls a component makes on the outside world
  are recorded in a trace beside the host's own state, so that a property can speak of every
  call made whatever the host answers.
\<close>

section \<open>Traced calls\<close>

text \<open>
  \<open>tw_host\<close> is the state of the outside world, which only the components' parameters know;
  \<open>tw_log\<close> lists the calls with their results, in order. It is part of the model only.
\<close>

record ('w, 'e) tworld =
  tw_host :: 'w
  tw_log :: "'e list"

definition traced :: "('w, 'a) io \<Rightarrow> ('a result \<Rightarrow> 'e) \<Rightarrow> (('w, 'e) tworld, 'a) io" where
  "traced m ev = (\<lambda>t. case m (tw_host t) of
     (r, w) \<Rightarrow> (r, t\<lparr>tw_host := w, tw_log := tw_log t @ [ev r]\<rparr>))"

text \<open>A call whose result the code reads but which no property mentions.\<close>

definition untraced :: "('w, 'a) io \<Rightarrow> (('w, 'e) tworld, 'a) io" where
  "untraced m = (\<lambda>t. case m (tw_host t) of (r, w) \<Rightarrow> (r, t\<lparr>tw_host := w\<rparr>))"

lemma traced_run [io_simps]:
  "traced m ev t = (fst (m (tw_host t)),
     t\<lparr>tw_host := snd (m (tw_host t)), tw_log := tw_log t @ [ev (fst (m (tw_host t)))]\<rparr>)"
  by (simp add: traced_def split: prod.splits)

lemma untraced_run [io_simps]:
  "untraced m t = (fst (m (tw_host t)), t\<lparr>tw_host := snd (m (tw_host t))\<rparr>)"
  by (simp add: untraced_def split: prod.splits)

text \<open>Rules for assertions over the trace alone.\<close>

definition on_log :: "('e list \<Rightarrow> bool) \<Rightarrow> ('w, 'e) tworld \<Rightarrow> bool" where
  "on_log P t \<longleftrightarrow> P (tw_log t)"

lemma on_log_simps [simp]: "on_log P t = P (tw_log t)"
  by (simp add: on_log_def)

lemma hoare_traced:
  assumes "\<And>l x. P l \<Longrightarrow> Q x (l @ [ev (Inr x)])" "\<And>l e. P l \<Longrightarrow> E (l @ [ev (Inl e)])"
  shows "hoare (on_log P) (traced m ev) (\<lambda>x. on_log (Q x)) (on_log E)"
  by (rule hoareI) (auto simp: io_simps assms)

lemma hoare_untraced:
  assumes "\<And>l x. P l \<Longrightarrow> Q x l" "\<And>l. P l \<Longrightarrow> E l"
  shows "hoare (on_log P) (untraced m) (\<lambda>x. on_log (Q x)) (on_log E)"
  by (rule hoareI) (auto simp: io_simps assms)

text \<open>Every event of the trace was justified by the trace before it.\<close>

definition justified :: "('e list \<Rightarrow> 'e \<Rightarrow> bool) \<Rightarrow> 'e list \<Rightarrow> bool" where
  "justified ok l \<longleftrightarrow> (\<forall>i < length l. ok (take i l) (l ! i))"

lemma justified_Nil [simp]: "justified ok []"
  by (simp add: justified_def)

lemma justified_snoc [simp]: "justified ok (l @ [e]) \<longleftrightarrow> justified ok l \<and> ok l e"
  by (auto simp: justified_def nth_append less_Suc_eq)

lemma justifiedD: "justified ok (a @ e # b) \<Longrightarrow> ok a e"
  unfolding justified_def by (auto dest: spec [of _ "length a"])

text \<open>An assertion that no later event can undo.\<close>

definition lasting :: "('e list \<Rightarrow> bool) \<Rightarrow> bool" where
  "lasting K \<longleftrightarrow> (\<forall>l e. K l \<longrightarrow> K (l @ [e]))"

lemma lastingD: "lasting K \<Longrightarrow> K l \<Longrightarrow> K (l @ [e])"
  by (simp add: lasting_def)

text \<open>\<open>appends P m\<close>: whatever happens, the program only adds events of the kind \<open>P\<close> to the trace.\<close>

definition appends :: "('e \<Rightarrow> bool) \<Rightarrow> (('w, 'e) tworld, 'a) io \<Rightarrow> bool" where
  "appends P m \<longleftrightarrow> (\<forall>t. \<exists>s. tw_log (snd (m t)) = tw_log t @ s \<and> list_all P s)"

named_theorems appends_intros \<open>programs and the events they add\<close>

lemma appends_basic [appends_intros]:
  "appends P (io_return x)" "appends P (io_throw e)" "appends P (untraced m)"
  "(\<And>r. P (ev r)) \<Longrightarrow> appends P (traced m ev)"
  by (auto simp: appends_def io_simps)

lemma appends_bind [appends_intros]:
  assumes "appends P m" "\<And>x. appends P (f x)"
  shows "appends P (io_bind m f)"
  unfolding appends_def
proof
  fix t
  obtain r u where run: "m t = (r, u)" by fastforce
  with assms(1) obtain s where s: "tw_log u = tw_log t @ s" "list_all P s"
    unfolding appends_def by (metis snd_conv)
  show "\<exists>s. tw_log (snd (io_bind m f t)) = tw_log t @ s \<and> list_all P s"
  proof (cases r)
    case (Inr x)
    with assms(2) obtain s' where "tw_log (snd (f x u)) = tw_log u @ s'" "list_all P s'"
      unfolding appends_def by meson
    with s run Inr show ?thesis by (auto simp: io_simps)
  qed (use s run in \<open>auto simp: io_simps\<close>)
qed

lemma appends_catch [appends_intros]:
  assumes "appends P m" "\<And>e. appends P (h e)"
  shows "appends P (io_catch m h)"
  unfolding appends_def
proof
  fix t
  obtain r u where run: "m t = (r, u)" by fastforce
  with assms(1) obtain s where s: "tw_log u = tw_log t @ s" "list_all P s"
    unfolding appends_def by (metis snd_conv)
  show "\<exists>s. tw_log (snd (io_catch m h t)) = tw_log t @ s \<and> list_all P s"
  proof (cases r)
    case (Inl e)
    with assms(2) obtain s' where "tw_log (snd (h e u)) = tw_log u @ s'" "list_all P s'"
      unfolding appends_def by meson
    with s run Inl show ?thesis by (auto simp: io_simps)
  qed (use s run in \<open>auto simp: io_simps\<close>)
qed

lemma appends_ignore [appends_intros]: "appends P m \<Longrightarrow> appends P (io_ignore m)"
  unfolding io_ignore_def by (intro appends_intros)

lemma appends_cases [appends_intros]:
  "(b \<Longrightarrow> appends P m) \<Longrightarrow> (\<not> b \<Longrightarrow> appends P n) \<Longrightarrow> appends P (if b then m else n)"
  "(x = None \<Longrightarrow> appends P m) \<Longrightarrow> (\<And>y. x = Some y \<Longrightarrow> appends P (f y)) \<Longrightarrow>
     appends P (case x of None \<Rightarrow> m | Some y \<Rightarrow> f y)"
  by (auto split: option.split)

section \<open>Commands\<close>

record exec_result =
  ex_code :: int
  ex_stdout :: string
  ex_stderr :: string

text \<open>
  \<open>exec(pi, command, args, options)\<close>: a command with its arguments runs in the directory asked
  for, else in the one the workspace provides, else in that of the process. A command given to
  the host without a directory (\<open>None\<close>) runs in that of the process.
\<close>

record exec_call =
  xc_command :: string
  xc_args :: "string list"
  xc_cwd :: "string option"

definition exec_default_cwd :: "string option \<Rightarrow> string \<Rightarrow> string" where
  "exec_default_cwd provided process_cwd = (case provided of None \<Rightarrow> process_cwd | Some d \<Rightarrow> d)"

definition exec_request ::
  "string option \<Rightarrow> string \<Rightarrow> string \<Rightarrow> string list \<Rightarrow> string option \<Rightarrow> exec_call" where
  "exec_request provided process_cwd command args cwd =
     \<lparr>xc_command = command, xc_args = args,
      xc_cwd = Some (case cwd of Some d \<Rightarrow> d | None \<Rightarrow> exec_default_cwd provided process_cwd)\<rparr>"

section \<open>Environment\<close>

type_synonym env = "string \<Rightarrow> string option"

text \<open>An empty variable reads as unset; a variable is cleared by setting it empty.\<close>

definition getBasecampEnv :: "env \<Rightarrow> string \<Rightarrow> string option" where
  "getBasecampEnv e name = (if e name = Some [] then None else e name)"

definition setBasecampEnv :: "string \<Rightarrow> string \<Rightarrow> env \<Rightarrow> env" where
  "setBasecampEnv name v e = e(name \<mapsto> v)"

lemma get_set_env:
  "getBasecampEnv (setBasecampEnv n v e) m =
     (if m = n then (if v = [] then None else Some v) else getBasecampEnv e m)"
  by (simp add: getBasecampEnv_def setBasecampEnv_def)

text \<open>
  \<open>Number(s)\<close> on an integer literal with an optional sign and on blank text; the other spellings
  (fractions, exponents, hexadecimal, \<open>NaN\<close>) are read by \<open>other\<close>, \<open>None\<close> being \<open>NaN\<close>.
\<close>

definition js_number :: "(string \<Rightarrow> int option) \<Rightarrow> string \<Rightarrow> int option" where
  "js_number other s =
     (let t = trim s in
      if t = [] then Some 0
      else if list_all is_digit t then Some (int (read_nat t))
      else if hd t = CHR ''-'' \<and> tl t \<noteq> [] \<and> list_all is_digit (tl t) then Some (- int (read_nat (tl t)))
      else if hd t = CHR ''+'' \<and> tl t \<noteq> [] \<and> list_all is_digit (tl t) then Some (int (read_nat (tl t)))
      else other t)"

definition getAgentDepth :: "(string \<Rightarrow> int option) \<Rightarrow> env \<Rightarrow> int option" where
  "getAgentDepth other e =
     js_number other (case e ''BASECAMP_AGENT_DEPTH'' of None \<Rightarrow> ''0'' | Some v \<Rightarrow> v)"

definition isSubagent :: "(string \<Rightarrow> int option) \<Rightarrow> env \<Rightarrow> bool" where
  "isSubagent other e = (case getAgentDepth other e of None \<Rightarrow> False | Some d \<Rightarrow> d > 0)"

lemma js_number_show_nat: "js_number other (show_nat n) = Some (int n)"
proof -
  have d: "list_all is_digit (show_nat n)" using show_nat_digits by (simp add: list_all_iff)
  then have "trim (show_nat n) = show_nat n"
    by (intro trim_id) (auto simp: list_all_iff is_digit_not_ws)
  with d show ?thesis by (simp add: js_number_def Let_def)
qed

lemma isSubagent_depth:
  "isSubagent other (e(''BASECAMP_AGENT_DEPTH'' \<mapsto> show_nat n)) \<longleftrightarrow> n > 0"
  by (simp add: isSubagent_def getAgentDepth_def js_number_show_nat)

section \<open>Shell quoting\<close>

fun replace_quote :: "string \<Rightarrow> string" where
  "replace_quote [] = []"
| "replace_quote (c # s) =
     (if c = CHR 0x27 then [CHR 0x27, CHR 0x5C, CHR 0x27, CHR 0x27] @ replace_quote s
      else c # replace_quote s)"

definition shellQuote :: "string \<Rightarrow> string" where
  "shellQuote arg = [CHR 0x27] @ replace_quote arg @ [CHR 0x27]"

text \<open>
  How a POSIX shell reads one word (IEEE 1003.1, 2.2): a backslash outside quotes keeps the next
  character, single quotes keep everything up to the next one, and any other special character
  outside quotes makes the text more than a word. \<open>None\<close> is not one complete word.
\<close>

definition sh_plain :: "char \<Rightarrow> bool" where
  "sh_plain c \<longleftrightarrow> is_alnum c \<or> c \<in> set ''-_./,:@+''"

fun sh_word :: "bool \<Rightarrow> string \<Rightarrow> string option" where
  "sh_word quoted [] = (if quoted then None else Some [])"
| "sh_word True (c # s) =
     (if c = CHR 0x27 then sh_word False s else map_option ((#) c) (sh_word True s))"
| "sh_word False (c # s) =
     (if c = CHR 0x27 then sh_word True s
      else if c = CHR 0x5C then
        (case s of [] \<Rightarrow> None
         | d # s' \<Rightarrow> if d = CHR 0x0A then None else map_option ((#) d) (sh_word False s'))
      else if sh_plain c then map_option ((#) c) (sh_word False s)
      else None)"

lemma sh_word_quoted: "sh_word True (replace_quote s @ [CHR 0x27]) = Some s"
  by (induction s) auto

text \<open>
  A quoted argument reads back as exactly the argument: a POSIX shell takes the text as one
  word of literal characters, for every argument.
\<close>

theorem shellQuote_is_one_literal_word: "sh_word False (shellQuote arg) = Some arg"
  by (simp add: shellQuote_def sh_word_quoted)

end
