(* ===== verification/Models.thy ===== *)
theory Models
  imports Host
begin

text \<open>
  Model aliases and model lookup (\<open>pi/core/model\<close>): the alias section of the configuration, the
  provider registry, and the resolution of a reference to a model of the host's registry. An
  object's keys are its own keys; the inherited ones (\<open>constructor\<close>) are left out.
\<close>

section \<open>Aliases\<close>

type_synonym aliases = "(string \<times> string) list"

definition normalize_entry :: "aliases \<Rightarrow> string \<times> json \<Rightarrow> aliases" where
  "normalize_entry normalized entry =
     (let trimmedAlias = trim (fst entry) in
      case snd entry of
        JStr model \<Rightarrow>
          if length trimmedAlias = 0 \<or> length (trim model) = 0 then normalized
          else set_key trimmedAlias (trim model) normalized
      | _ \<Rightarrow> normalized)"

definition normalizeAliases :: "json \<Rightarrow> aliases option" where
  "normalizeAliases value =
     (case value of JObj entries \<Rightarrow> Some (foldl normalize_entry [] entries) | _ \<Rightarrow> None)"

text \<open>What reading the file gives: no such file, another error, or text, parsed or not JSON.\<close>

datatype config_file = Missing | Unreadable string | Contents "json option"

definition loadModelAliasConfig :: "config_file \<Rightarrow> aliases result" where
  "loadModelAliasConfig f =
     (case f of
        Missing \<Rightarrow> Inr []
      | Unreadable e \<Rightarrow> Inl (''Failed to read basecamp config: '' @ e)
      | Contents None \<Rightarrow> Inl ''basecamp config is not valid JSON.''
      | Contents (Some parsed) \<Rightarrow>
          if \<not> isRecord parsed then Inl ''basecamp config must be a JSON object.''
          else (case field parsed ''model_aliases'' of
                  None \<Rightarrow> Inr []
                | Some section \<Rightarrow>
                    (case normalizeAliases section of
                       None \<Rightarrow> Inl ''model_aliases must be an object mapping aliases to models.''
                     | Some a \<Rightarrow> Inr a)))"

definition readModelAliasConfig :: "config_file \<Rightarrow> aliases" where
  "readModelAliasConfig f = (case loadModelAliasConfig f of Inr a \<Rightarrow> a | Inl _ \<Rightarrow> [])"

definition good_aliases :: "aliases \<Rightarrow> bool" where
  "good_aliases a \<longleftrightarrow> distinct (map fst a) \<and>
     list_all (\<lambda>(k, v). k \<noteq> [] \<and> v \<noteq> [] \<and> trim k = k \<and> trim v = v) a"

lemma good_normalize_entry: "good_aliases a \<Longrightarrow> good_aliases (normalize_entry a e)"
  by (auto simp: normalize_entry_def good_aliases_def Let_def distinct_set_key list_all_iff
      dest!: set_set_key split: json.splits)

text \<open>The entry a lookup finds: the last usable one whose trimmed name is asked for.\<close>

definition usable_alias :: "string \<Rightarrow> string \<times> json \<Rightarrow> bool" where
  "usable_alias k e \<longleftrightarrow> trim (fst e) = k \<and> k \<noteq> [] \<and> (case snd e of JStr m \<Rightarrow> trim m \<noteq> [] | _ \<Rightarrow> False)"

lemma normalize_entry_lookup:
  "map_of (normalize_entry a e) k =
     (if usable_alias k e then Some (trim (str_of (Some (snd e)))) else map_of a k)"
  by (auto simp: normalize_entry_def usable_alias_def Let_def split: json.splits)

lemma foldl_normalize_lookup:
  "map_of (foldl normalize_entry a es) k =
     (case find (usable_alias k) (rev es) of
        None \<Rightarrow> map_of a k | Some e \<Rightarrow> Some (trim (str_of (Some (snd e)))))"
proof (induction es rule: rev_induct)
  case (snoc e es)
  then show ?case by (simp add: normalize_entry_lookup)
qed simp

lemma foldl_normalize_good: "good_aliases a \<Longrightarrow> good_aliases (foldl normalize_entry a es)"
  by (induction es arbitrary: a) (auto intro: good_normalize_entry)

text \<open>
  Reading the alias section keeps every usable entry and drops only the malformed ones: the
  result has each name once, names and models trimmed and not empty, and looking a name up
  finds the model of the last usable entry whose trimmed name it is.
\<close>

theorem aliases_lenient_last_wins:
  "case normalizeAliases (JObj entries) of
     None \<Rightarrow> False
   | Some a \<Rightarrow> good_aliases a \<and>
       map_of a k = map_option (\<lambda>e. trim (str_of (Some (snd e)))) (find (usable_alias k) (rev entries))"
  using foldl_normalize_good [of "[]" entries]
  by (simp add: normalizeAliases_def foldl_normalize_lookup good_aliases_def split: option.splits)

section \<open>Alias providers\<close>

record alias_provider =
  ap_id :: string
  ap_resolve :: "string \<Rightarrow> string option"
  ap_list :: aliases

type_synonym providers = "(string \<times> alias_provider) list"

definition registerModelAliasProvider :: "alias_provider \<Rightarrow> providers \<Rightarrow> providers" where
  "registerModelAliasProvider p ps = set_key (ap_id p) p ps"

fun first_truthy :: "string option list \<Rightarrow> string option" where
  "first_truthy [] = None"
| "first_truthy (m # ms) = (if m = None \<or> m = Some [] then first_truthy ms else m)"

definition resolveModelAlias :: "providers \<Rightarrow> string \<Rightarrow> string option" where
  "resolveModelAlias ps alias = first_truthy (map (\<lambda>p. ap_resolve (snd p) alias) (rev ps))"

record model_alias =
  ma_alias :: string
  ma_model :: string
  ma_providerId :: string

definition listModelAliases :: "providers \<Rightarrow> model_alias list" where
  "listModelAliases ps =
     concat (map (\<lambda>p. map (\<lambda>(a, m). \<lparr>ma_alias = a, ma_model = m, ma_providerId = ap_id (snd p)\<rparr>)
       (ap_list (snd p))) ps)"

definition PROVIDER_ID :: string where "PROVIDER_ID = ''native-config''"

definition createNativeConfigModelAliasProvider :: "config_file \<Rightarrow> alias_provider" where
  "createNativeConfigModelAliasProvider f =
     \<lparr>ap_id = PROVIDER_ID, ap_resolve = map_of (readModelAliasConfig f),
      ap_list = readModelAliasConfig f\<rparr>"

lemma first_truthy_nonempty: "first_truthy ms = Some m \<Longrightarrow> m \<noteq> [] \<and> Some m \<in> set ms"
  by (induction ms) (auto split: if_splits)

section \<open>Models\<close>

datatype thinking_level = TOff | TMinimal | TLow | TMedium | THigh | TXhigh

text \<open>
  A model as the host's registry holds it. \<open>mo_supported\<close> is what the host's
  \<open>getSupportedThinkingLevels\<close> answers for it, \<open>mo_minimal\<close> tells whether its thinking-level map
  gives \<open>minimal\<close> a string.
\<close>

record model =
  mo_provider :: string
  mo_id :: string
  mo_api :: string
  mo_reasoning :: bool
  mo_supported :: "thinking_level list"
  mo_minimal :: bool

record registry =
  re_all :: "model list"
  re_find :: "string \<Rightarrow> string \<Rightarrow> model option"

definition parseProviderModelRef :: "string \<Rightarrow> (string \<times> string) option" where
  "parseProviderModelRef reference =
     (case find_index (\<lambda>c. c = CHR ''/'') reference of
        None \<Rightarrow> None
      | Some separator \<Rightarrow>
          if separator > 0 \<and> separator < length reference - 1
          then Some (slice reference 0 separator, slice_from reference (separator + 1))
          else None)"

definition findModelByExactId :: "registry \<Rightarrow> string \<Rightarrow> model option" where
  "findModelByExactId r i =
     (let matches = filter (\<lambda>m. mo_id m = i) (re_all r)
      in if length matches = 1 then Some (hd matches) else None)"

definition resolveModelFromString ::
  "registry \<Rightarrow> model option \<Rightarrow> string option \<Rightarrow> model option" where
  "resolveModelFromString r current modelName =
     (case modelName of
        None \<Rightarrow> current
      | Some name \<Rightarrow>
          if name = [] then current
          else (case (case parseProviderModelRef name of
                        None \<Rightarrow> None | Some (provider, modelId) \<Rightarrow> re_find r provider modelId) of
                  Some m \<Rightarrow> Some m
                | None \<Rightarrow> nullish_or (findModelByExactId r name) current))"

definition resolveModelReference :: "registry \<Rightarrow> string \<Rightarrow> model option" where
  "resolveModelReference r modelReference =
     (case parseProviderModelRef modelReference of
        Some (provider, modelId) \<Rightarrow> re_find r provider modelId
      | None \<Rightarrow> findModelByExactId r modelReference)"

record model_auth =
  au_apiKey :: "string option"
  au_headers :: "(string \<times> string option) list option"

record auth_answer = model_auth +
  au_ok :: bool

definition truthy :: "string option \<Rightarrow> bool" where
  "truthy s \<longleftrightarrow> (case s of None \<Rightarrow> False | Some v \<Rightarrow> v \<noteq> [])"

definition usable_auth :: "auth_answer \<Rightarrow> bool" where
  "usable_auth auth \<longleftrightarrow> \<not> (\<not> au_ok auth \<or> (\<not> truthy (au_apiKey auth) \<and>
     \<not> (case au_headers auth of None \<Rightarrow> False | Some h \<Rightarrow> length h > 0)))"

definition resolveAliasedModel ::
  "providers \<Rightarrow> registry \<Rightarrow> (model \<Rightarrow> ('w, auth_answer) io) \<Rightarrow> string
    \<Rightarrow> ('w, (model \<times> model_auth) option) io" where
  "resolveAliasedModel ps r getAuth alias =
     (case resolveModelAlias ps alias of
        None \<Rightarrow> io_return None
      | Some reference \<Rightarrow>
          (case resolveModelReference r reference of
             None \<Rightarrow> io_return None
           | Some m \<Rightarrow>
               io_catch
                 (io_bind (getAuth m) (\<lambda>auth.
                    if \<not> usable_auth auth then io_return None
                    else io_return (Some (m, \<lparr>au_apiKey = au_apiKey auth, au_headers = au_headers auth\<rparr>))))
                 (\<lambda>_. io_return None)))"

definition PORTABLE_THINKING_LEVELS :: "thinking_level list" where
  "PORTABLE_THINKING_LEVELS = [TLow, TMedium, THigh, TXhigh]"

definition resolvePortableReasoningEffort :: "model \<Rightarrow> thinking_level option" where
  "resolvePortableReasoningEffort m =
     (if \<not> mo_reasoning m then None
      else if TMinimal \<in> set (mo_supported m) \<and> mo_minimal m then Some TMinimal
      else find (\<lambda>level. level \<in> set (mo_supported m)) PORTABLE_THINKING_LEVELS)"

definition resolveForcedToolChoice :: "model \<Rightarrow> string \<Rightarrow> json" where
  "resolveForcedToolChoice m toolName =
     (if mo_api m = ''anthropic-messages'' then JObj [(''type'', JStr ''tool''), (''name'', JStr toolName)]
      else if mo_api m = ''openai-responses''
        then JObj [(''type'', JStr ''function''), (''name'', JStr toolName)]
      else if mo_api m = ''openai-codex-responses'' then JStr ''required''
      else JObj [(''type'', JStr ''function''), (''function'', JObj [(''name'', JStr toolName)])])"

section \<open>Resolution\<close>

lemma findModelByExactId_unique:
  "findModelByExactId r i = Some m \<longleftrightarrow> filter (\<lambda>x. mo_id x = i) (re_all r) = [m]"
  by (auto simp: findModelByExactId_def Let_def length_Suc_conv)

lemma resolveAliasedModel_run:
  "resolveAliasedModel ps r getAuth alias w = (res, w') \<Longrightarrow>
   (res = Inr None \<or> (\<exists>reference m auth. resolveModelAlias ps alias = Some reference \<and>
      resolveModelReference r reference = Some m \<and> getAuth m w = (Inr auth, w') \<and> usable_auth auth \<and>
      res = Inr (Some (m, \<lparr>au_apiKey = au_apiKey auth, au_headers = au_headers auth\<rparr>))))"
  by (auto simp: resolveAliasedModel_def io_simps split: option.splits sum.splits prod.splits if_splits)

text \<open>An answer of the registry carries credentials: a key, or at least one header.\<close>

definition has_credentials :: "model_auth \<Rightarrow> bool" where
  "has_credentials a = (case au_headers a of Some (_ # _) \<Rightarrow> True | _ \<Rightarrow> truthy (au_apiKey a))"

lemma usable_auth_iff:
  "usable_auth auth \<longleftrightarrow>
     au_ok auth \<and> has_credentials \<lparr>au_apiKey = au_apiKey auth, au_headers = au_headers auth\<rparr>"
  by (auto simp: usable_auth_def has_credentials_def split: option.splits list.splits)

text \<open>
  Resolving an alias never throws and never falls back to another model: it gives nothing, or
  the model the configured reference names (an exact provider pair, or the only model with
  that id) with the credentials the registry returned for it, a key or headers among them.
\<close>

theorem resolveAliasedModel_exact:
  "case resolveAliasedModel ps r getAuth alias w of
     (Inl e, _) \<Rightarrow> False
   | (Inr None, _) \<Rightarrow> True
   | (Inr (Some (m, a)), w') \<Rightarrow>
       (case resolveModelAlias ps alias of
          None \<Rightarrow> False
        | Some reference \<Rightarrow>
            (case parseProviderModelRef reference of
               Some (provider, modelId) \<Rightarrow> re_find r provider modelId = Some m
             | None \<Rightarrow> filter (\<lambda>x. mo_id x = reference) (re_all r) = [m])) \<and>
       (\<exists>auth. getAuth m w = (Inr auth, w') \<and> au_ok auth \<and> au_apiKey a = au_apiKey auth \<and>
          au_headers a = au_headers auth \<and>
          has_credentials a)"
proof -
  obtain res w' where run: "resolveAliasedModel ps r getAuth alias w = (res, w')" by fastforce
  from resolveAliasedModel_run [OF run] show ?thesis
    unfolding run
    by (auto simp: usable_auth_iff resolveModelReference_def findModelByExactId_unique
        split: option.splits prod.splits)
qed

end
