(* ===== verification/BashReview.thy ===== *)
theory BashReview
  imports FastPath Models
begin

text \<open>
  The bash reviewer (\<open>pi/bash-reviewer\<close>): the gate's decision and its parsing (\<open>llm.ts\<close>), the
  review of one command with its fail-safe (\<open>review.ts\<close>), the pause (\<open>state.ts\<close>) and the hook and
  command that wire them (\<open>index.ts\<close>). The model, the user interface and the audit log are the
  host's: each call on them goes through the trace, may throw, and may answer anything.
\<close>

section \<open>Gate decisions\<close>

datatype gate_verdict = Approve | RouteToUser | Deny
datatype gate_risk = RiskNone | RiskLocal | RiskDestructive
datatype gate_category =
  GitMutation | GhPublish | IrreversibleRemote | DestructiveLocal | BqQuery | WideSearch | OtherCategory

record gate_decision =
  gd_decision :: gate_verdict
  gd_risk :: gate_risk
  gd_category :: gate_category
  gd_reason :: string

definition Decision :: "json \<Rightarrow> gate_verdict option" where
  "Decision v = map_of [(JStr ''approve'', Approve), (JStr ''route_to_user'', RouteToUser),
     (JStr ''deny'', Deny)] v"

definition Risk :: "json \<Rightarrow> gate_risk option" where
  "Risk v = map_of [(JStr ''none'', RiskNone), (JStr ''local'', RiskLocal),
     (JStr ''destructive'', RiskDestructive)] v"

definition Category :: "json \<Rightarrow> gate_category option" where
  "Category v = map_of [(JStr ''git-mutation'', GitMutation), (JStr ''gh-publish'', GhPublish),
     (JStr ''irreversible-remote'', IrreversibleRemote), (JStr ''destructive-local'', DestructiveLocal),
     (JStr ''bq-query'', BqQuery), (JStr ''wide-search'', WideSearch), (JStr ''other'', OtherCategory)] v"

text \<open>\<open>Value.Check(GateDecision, args)\<close>: the four properties, of their types, and no other.\<close>

definition GateDecision :: "json \<Rightarrow> gate_decision option" where
  "GateDecision args =
     (case args of
        JObj kvs \<Rightarrow>
          if list_all (\<lambda>kv. fst kv \<in> {''decision'', ''risk'', ''category'', ''reason''}) kvs
          then (case (map_of kvs ''decision'', map_of kvs ''risk'', map_of kvs ''category'', map_of kvs ''reason'') of
                  (Some d, Some r, Some c, Some (JStr reason)) \<Rightarrow>
                    (case (Decision d, Risk r, Category c) of
                       (Some d', Some r', Some c') \<Rightarrow>
                         Some \<lparr>gd_decision = d', gd_risk = r', gd_category = c', gd_reason = reason\<rparr>
                     | _ \<Rightarrow> None)
                | _ \<Rightarrow> None)
          else None
      | _ \<Rightarrow> None)"

text \<open>An assistant message: its parts, how it stopped, and the provider's error text.\<close>

datatype content_part = ToolCall string json | OtherContent string

record assistant_message =
  as_content :: "content_part list"
  as_stopReason :: string
  as_errorMessage :: "string option"

definition is_toolCall :: "content_part \<Rightarrow> bool" where
  "is_toolCall c = (case c of ToolCall _ _ \<Rightarrow> True | OtherContent _ \<Rightarrow> False)"

definition parseGateResponse :: "assistant_message \<Rightarrow> gate_decision option" where
  "parseGateResponse msg =
     (case filter is_toolCall (as_content msg) of
        [ToolCall name args] \<Rightarrow> if name \<noteq> ''gate_decision'' then None else GateDecision args
      | _ \<Rightarrow> None)"

record gate_context =
  gx_payload :: json

definition buildGateContext :: "string list \<Rightarrow> string \<Rightarrow> string \<Rightarrow> gate_context" where
  "buildGateContext recentHumanMessages command cwd =
     \<lparr>gx_payload = JObj [(''recent_human_messages'', JArr (map JStr recentHumanMessages)),
        (''command'', JStr command), (''cwd'', JStr cwd)]\<rparr>"

record gate_options =
  go_auth :: model_auth
  go_toolChoice :: json
  go_reasoningEffort :: "thinking_level option"

definition runGate ::
  "(model \<Rightarrow> gate_context \<Rightarrow> gate_options \<Rightarrow> ('w, assistant_message) io)
    \<Rightarrow> model \<Rightarrow> model_auth \<Rightarrow> gate_context \<Rightarrow> ('w, gate_decision option) io" where
  "runGate complete m auth context =
     io_bind
       (complete m context
          \<lparr>go_auth = auth, go_toolChoice = resolveForcedToolChoice m ''gate_decision'',
           go_reasoningEffort = resolvePortableReasoningEffort m\<rparr>)
       (\<lambda>msg. if as_stopReason msg = ''error''
              then io_throw (case as_errorMessage msg of None \<Rightarrow> ''reviewer provider returned an error''
                             | Some e \<Rightarrow> e)
              else io_return (parseGateResponse msg))"

section \<open>Review of a command\<close>

datatype audit_phase = GatePhase | FailsafePhase
datatype audit_action = AuditApprove | AuditDeny

record audit_entry =
  ae_phase :: audit_phase
  ae_action :: audit_action
  ae_command :: string
  ae_category :: "gate_category option"
  ae_reason :: "string option"
  ae_risk :: "gate_risk option"
  ae_note :: "string option"

text \<open>What the user is asked: after a failure (why, the command), or on the gate's routing.\<close>

datatype confirm_request = AskUnavailable string string | AskApprove string

text \<open>What the user is told.\<close>

datatype review_notice = NotifyApproved gate_risk string | NotifyBlocked string

record ('w, 'm) review_deps =
  rd_resolveModel :: "('w, ('m \<times> model_auth) option) io"
  rd_recentMessages :: "('w, string list) io"
  rd_cwd :: string
  rd_runGate :: "'m \<Rightarrow> model_auth \<Rightarrow> gate_context \<Rightarrow> ('w, gate_decision option) io"
  rd_confirm :: "confirm_request \<Rightarrow> ('w, bool) io"
  rd_hasUI :: bool
  rd_isSubagent :: bool
  rd_paused :: bool
  rd_audit :: "audit_entry \<Rightarrow> ('w, unit) io"
  rd_notify :: "review_notice \<Rightarrow> ('w, unit) io"

datatype review_event =
    EvGate "gate_decision option result"
  | EvConfirm confirm_request "bool result"
  | EvAudit audit_entry
  | EvNotify review_notice

type_synonym ('w, 'a) review_io = "(('w, review_event) tworld, 'a) io"

text \<open>\<open>None\<close> lets the command run, \<open>Some reason\<close> blocks it.\<close>

type_synonym review_outcome = "string option"

definition truncateCommand :: "string \<Rightarrow> string" where
  "truncateCommand command =
     (if length command \<le> 500 then command else slice command 0 497 @ ''...'')"

definition risk_name :: "gate_risk \<Rightarrow> string" where
  "risk_name r = (case r of RiskNone \<Rightarrow> ''none'' | RiskLocal \<Rightarrow> ''local'' | RiskDestructive \<Rightarrow> ''destructive'')"

definition confirmationBody :: "string \<Rightarrow> gate_decision \<Rightarrow> string" where
  "confirmationBody command d =
     ''Command:'' @ [CHR 0x0A] @ command @ [CHR 0x0A, CHR 0x0A] @ ''Risk: '' @ risk_name (gd_risk d)
     @ [CHR 0x0A] @ ''Reason: '' @ gd_reason d"

definition SUBAGENT_APPROVE_CATEGORIES :: "gate_category list" where
  "SUBAGENT_APPROVE_CATEGORIES = [GitMutation]"

definition review_audit :: "('w, 'm) review_deps \<Rightarrow> audit_entry \<Rightarrow> ('w, unit) review_io" where
  "review_audit deps entry =
     io_catch (traced (rd_audit deps entry) (\<lambda>_. EvAudit entry)) (\<lambda>_. io_return ())"

definition review_notify :: "('w, 'm) review_deps \<Rightarrow> review_notice \<Rightarrow> ('w, unit) review_io" where
  "review_notify deps n =
     io_catch (traced (rd_notify deps n) (\<lambda>_. EvNotify n)) (\<lambda>_. io_return ())"

definition review_confirm :: "('w, 'm) review_deps \<Rightarrow> confirm_request \<Rightarrow> ('w, bool) review_io" where
  "review_confirm deps q = traced (rd_confirm deps q) (EvConfirm q)"

definition action_of :: "bool \<Rightarrow> audit_action" where
  "action_of ok = (if ok then AuditApprove else AuditDeny)"

definition failsafe_entry :: "string \<Rightarrow> bool \<Rightarrow> string \<Rightarrow> string \<Rightarrow> audit_entry" where
  "failsafe_entry command ok why note =
     \<lparr>ae_phase = FailsafePhase, ae_action = action_of ok, ae_command = truncateCommand command,
      ae_category = None, ae_reason = Some why, ae_risk = None, ae_note = Some note\<rparr>"

definition gate_entry :: "string \<Rightarrow> bool \<Rightarrow> gate_decision \<Rightarrow> string option \<Rightarrow> audit_entry" where
  "gate_entry command ok d note =
     \<lparr>ae_phase = GatePhase, ae_action = action_of ok, ae_command = truncateCommand command,
      ae_category = Some (gd_category d), ae_reason = Some (gd_reason d),
      ae_risk = Some (gd_risk d), ae_note = note\<rparr>"

definition failSafe ::
  "('w, 'm) review_deps \<Rightarrow> string \<Rightarrow> string \<Rightarrow> ('w, review_outcome) review_io" where
  "failSafe deps command why =
     (if rd_hasUI deps then
        io_bind (io_catch (review_confirm deps (AskUnavailable why command)) (\<lambda>_. io_return False)) (\<lambda>ok.
        io_bind (review_audit deps (failsafe_entry command ok why ''escalated'')) (\<lambda>_.
        io_return (if ok then None
                   else Some (''Command blocked: reviewer unavailable ('' @ why @ '') and user declined.''))))
      else
        io_bind (review_audit deps (failsafe_entry command False why ''no-ui'')) (\<lambda>_.
        io_return (Some (''Reviewer unavailable ('' @ why @
          ''); blocked because there is no interactive UI to confirm. Run it yourself if intended.''))))"

definition effective_verdict :: "gate_decision \<Rightarrow> gate_verdict" where
  "effective_verdict d =
     (if gd_decision d = Approve \<and> gd_risk d = RiskDestructive then RouteToUser else gd_decision d)"

definition apply_decision ::
  "('w, 'm) review_deps \<Rightarrow> string \<Rightarrow> gate_decision \<Rightarrow> ('w, review_outcome) review_io" where
  "apply_decision deps command d =
     (case effective_verdict d of
        Approve \<Rightarrow>
          io_bind (review_audit deps (gate_entry command True d None)) (\<lambda>_.
          io_bind (review_notify deps (NotifyApproved (gd_risk d) (gd_reason d))) (\<lambda>_.
          io_return None))
      | Deny \<Rightarrow>
          io_bind (review_audit deps (gate_entry command False d None)) (\<lambda>_.
          io_bind (review_notify deps (NotifyBlocked (gd_reason d))) (\<lambda>_.
          io_return (Some (gd_reason d))))
      | RouteToUser \<Rightarrow>
          if rd_hasUI deps then
            io_bind (review_confirm deps (AskApprove (confirmationBody command d))) (\<lambda>ok.
            io_bind (review_audit deps (gate_entry command ok d (Some ''route_to_user''))) (\<lambda>_.
            io_return (if ok then None else Some ''User declined the command.'')))
          else if rd_isSubagent deps then
            (let permit = gd_category d \<in> set SUBAGENT_APPROVE_CATEGORIES in
             io_bind (review_audit deps (gate_entry command permit d (Some ''subagent-collapse''))) (\<lambda>_.
             io_return (if permit then None
               else Some (''Requires human review ('' @ gd_reason d @
                 ''); auto-denied for an autonomous agent. Report this command back to the parent session instead of retrying.''))))
          else
            io_bind (review_audit deps (gate_entry command False d (Some ''no-ui''))) (\<lambda>_.
            io_return (Some (''Requires user review ('' @ gd_reason d @
              ''); not available without an interactive UI.''))))"

definition reviewBashCommand ::
  "string \<Rightarrow> ('w, 'm) review_deps \<Rightarrow> ('w, review_outcome) review_io" where
  "reviewBashCommand command deps =
     (if isTriviallySafe command then io_return None
      else if rd_paused deps then io_return None
      else io_catch
        (io_bind (untraced (rd_resolveModel deps)) (\<lambda>resolved.
         case resolved of
           None \<Rightarrow> failSafe deps command ''reviewer model unavailable''
         | Some (m, auth) \<Rightarrow>
             io_bind (untraced (rd_recentMessages deps)) (\<lambda>recent.
             io_bind (traced (rd_runGate deps m auth (buildGateContext recent command (rd_cwd deps))) EvGate)
               (\<lambda>decision. case decision of
                  None \<Rightarrow> failSafe deps command ''reviewer returned no decision''
                | Some d \<Rightarrow> apply_decision deps command d))))
        (\<lambda>reason. failSafe deps command reason))"

section \<open>Pause, hook and command\<close>

definition PAUSED :: string where "PAUSED = ''BASECAMP_BASH_REVIEWER_PAUSED''"

definition isReviewerPaused :: "env \<Rightarrow> bool" where
  "isReviewerPaused e \<longleftrightarrow> getBasecampEnv e PAUSED = Some ''1''"

text \<open>The listeners are named by numbers; the calls they receive are the second component.\<close>

record pause_state =
  ps_env :: env
  ps_listeners :: "nat list"
  ps_calls :: "(nat \<times> bool) list"
  ps_current :: "nat option"

definition setReviewerPaused :: "bool \<Rightarrow> pause_state \<Rightarrow> bool \<times> pause_state" where
  "setReviewerPaused nxt s =
     (let current = isReviewerPaused (ps_env s) in
      if current = nxt then (current, s)
      else (nxt, s\<lparr>ps_env := setBasecampEnv PAUSED (if nxt then ''1'' else []) (ps_env s),
                   ps_calls := ps_calls s @ map (\<lambda>l. (l, nxt)) (ps_listeners s)\<rparr>))"

definition unsubscribe_pause :: "nat \<Rightarrow> pause_state \<Rightarrow> pause_state" where
  "unsubscribe_pause l s =
     s\<lparr>ps_listeners := removeAll l (ps_listeners s),
       ps_current := (if ps_current s = Some l then None else ps_current s)\<rparr>"

definition onReviewerPauseChange :: "nat \<Rightarrow> pause_state \<Rightarrow> pause_state" where
  "onReviewerPauseChange l s =
     (let s1 = (case ps_current s of None \<Rightarrow> s | Some old \<Rightarrow> unsubscribe_pause old s)
      in s1\<lparr>ps_listeners := (if l \<in> set (ps_listeners s1) then ps_listeners s1 else ps_listeners s1 @ [l]),
            ps_current := Some l\<rparr>)"

definition isReviewerDisabled :: "string option \<Rightarrow> string option \<Rightarrow> bool \<Rightarrow> bool" where
  "isReviewerDisabled envReviewer envSandbox sandboxedFlag \<longleftrightarrow>
     envReviewer = Some ''off'' \<and> envSandbox = Some ''1'' \<and> sandboxedFlag"

record tool_call_event =
  tc_toolName :: string
  tc_command :: "string option"

text \<open>
  The hook: \<open>deps\<close> are the dependencies its context gives, the pause and the depth are read per call.
\<close>

definition bash_tool_call ::
  "(string \<Rightarrow> int option) \<Rightarrow> env \<Rightarrow> bool \<Rightarrow> ('w, 'm) review_deps
    \<Rightarrow> tool_call_event \<Rightarrow> ('w, review_outcome) review_io" where
  "bash_tool_call other e sandboxedFlag deps event =
     (if tc_toolName event \<noteq> ''bash'' then io_return None
      else (let command = (case tc_command event of None \<Rightarrow> [] | Some c \<Rightarrow> c) in
        if command = [] then io_return None
        else if isReviewerDisabled (getBasecampEnv e ''BASECAMP_BASH_REVIEWER'')
                  (getBasecampEnv e ''BASECAMP_EXTERNAL_SANDBOX'') sandboxedFlag then io_return None
        else reviewBashCommand command
               (deps\<lparr>rd_paused := isReviewerPaused e, rd_isSubagent := isSubagent other e\<rparr>)))"

definition bashGuardCompletions :: "string \<Rightarrow> string list option" where
  "bashGuardCompletions argumentPrefix =
     (let filtered = filter (\<lambda>v. startsWith v (toLowerCase argumentPrefix)) [''on'', ''off'']
      in if length filtered > 0 then Some filtered else None)"

definition bashGuardCommand :: "string option \<Rightarrow> pause_state \<Rightarrow> bool \<times> pause_state" where
  "bashGuardCommand args s =
     (let arg = (case args of None \<Rightarrow> [] | Some a \<Rightarrow> toLowerCase (trim a));
          nxt = (if arg = ''on'' then False else if arg = ''off'' then True
                 else \<not> isReviewerPaused (ps_env s))
      in setReviewerPaused nxt s)"

section \<open>What a review does\<close>

fun audits :: "review_event list \<Rightarrow> audit_entry list" where
  "audits [] = []"
| "audits (EvAudit e # l) = e # audits l"
| "audits (_ # l) = audits l"

lemma audits_append [simp]: "audits (l @ l') = audits l @ audits l'"
  by (induction l rule: audits.induct) auto

text \<open>The reasons a command that is reviewed may run, read off the trace.\<close>

definition user_granted :: "review_event list \<Rightarrow> bool" where
  "user_granted l \<longleftrightarrow> (\<exists>q. EvConfirm q (Inr True) \<in> set l)"

definition gate_granted :: "('w, 'm) review_deps \<Rightarrow> review_event list \<Rightarrow> bool" where
  "gate_granted deps l \<longleftrightarrow>
     (\<exists>d. EvGate (Inr (Some d)) \<in> set l \<and>
        (gd_decision d = Approve \<and> gd_risk d \<noteq> RiskDestructive
         \<or> gd_decision d \<noteq> Deny \<and> gd_category d = GitMutation \<and> \<not> rd_hasUI deps \<and> rd_isSubagent deps))"

definition granted :: "('w, 'm) review_deps \<Rightarrow> review_event list \<Rightarrow> bool" where
  "granted deps l \<longleftrightarrow> rd_hasUI deps \<and> user_granted l \<or> gate_granted deps l"

text \<open>A review settles a command: one audit entry, which agrees with the outcome, and grounds.\<close>

definition settles ::
  "('w, 'm) review_deps \<Rightarrow> string \<Rightarrow> review_event list \<Rightarrow> review_outcome \<Rightarrow> review_event list \<Rightarrow> bool" where
  "settles deps command l out l' \<longleftrightarrow>
     (\<exists>s e. l' = l @ s \<and> audits s = [e] \<and> ae_command e = truncateCommand command
        \<and> ae_action e = action_of (out = None) \<and> (out = None \<longrightarrow> granted deps l'))"

lemmas review_call_defs =
  review_audit_def review_notify_def review_confirm_def gate_entry_def failsafe_entry_def

lemma failSafe_settles:
  "\<exists>out t'. failSafe deps command why t = (Inr out, t') \<and> settles deps command (tw_log t) out (tw_log t')"
  by (auto simp: failSafe_def review_call_defs io_simps settles_def granted_def user_granted_def
      action_of_def split: sum.splits prod.splits)

lemma apply_decision_settles:
  assumes "EvGate (Inr (Some d)) \<in> set (tw_log t)"
  shows "(\<exists>out t'. apply_decision deps command d t = (Inr out, t')
            \<and> settles deps command (tw_log t) out (tw_log t'))
       \<or> (\<exists>e t' s. apply_decision deps command d t = (Inl e, t') \<and> tw_log t' = tw_log t @ s \<and> audits s = [])"
proof (cases "effective_verdict d")
  case Approve
  then have "gd_decision d = Approve \<and> gd_risk d \<noteq> RiskDestructive"
    by (auto simp: effective_verdict_def split: if_splits)
  with assms Approve show ?thesis
    by (auto simp: apply_decision_def review_call_defs io_simps settles_def granted_def gate_granted_def
        action_of_def split: sum.splits prod.splits)
next
  case Deny
  then show ?thesis
    by (auto simp: apply_decision_def review_call_defs io_simps settles_def action_of_def
        split: sum.splits prod.splits)
next
  case RouteToUser
  then have d: "gd_decision d \<noteq> Deny" by (auto simp: effective_verdict_def split: if_splits)
  show ?thesis
  proof (cases "rd_hasUI deps")
    case True
    with RouteToUser show ?thesis
      by (cases "fst (rd_confirm deps (AskApprove (confirmationBody command d)) (tw_host t))")
        (auto simp: apply_decision_def review_call_defs io_simps settles_def granted_def user_granted_def
          action_of_def split: sum.splits prod.splits)
  next
    case False
    with RouteToUser assms d show ?thesis
      by (auto simp: apply_decision_def review_call_defs io_simps settles_def granted_def gate_granted_def
          action_of_def SUBAGENT_APPROVE_CATEGORIES_def Let_def split: sum.splits prod.splits)
  qed
qed

lemma settles_extend:
  "settles deps command l1 out l2 \<Longrightarrow> l1 = l @ s \<Longrightarrow> audits s = [] \<Longrightarrow> settles deps command l out l2"
  unfolding settles_def by force

text \<open>The whole review: it returns, and off the fast path and the pause it settles the command.\<close>

lemma review_settles:
  assumes "\<not> isTriviallySafe command" "\<not> rd_paused deps"
  shows "\<exists>out t'. reviewBashCommand command deps t = (Inr out, t')
     \<and> settles deps command (tw_log t) out (tw_log t')"
proof -
  define body where "body =
    io_bind (untraced (rd_resolveModel deps)) (\<lambda>resolved.
         case resolved of
           None \<Rightarrow> failSafe deps command ''reviewer model unavailable''
         | Some (m, auth) \<Rightarrow>
             io_bind (untraced (rd_recentMessages deps)) (\<lambda>recent.
             io_bind (traced (rd_runGate deps m auth (buildGateContext recent command (rd_cwd deps))) EvGate)
               (\<lambda>decision. case decision of
                  None \<Rightarrow> failSafe deps command ''reviewer returned no decision''
                | Some d \<Rightarrow> apply_decision deps command d)))"
  have body: "(\<exists>out t'. body t = (Inr out, t') \<and> settles deps command (tw_log t) out (tw_log t'))
     \<or> (\<exists>e t' s. body t = (Inl e, t') \<and> tw_log t' = tw_log t @ s \<and> audits s = [])"
  proof -
    obtain r1 w1 where r1: "rd_resolveModel deps (tw_host t) = (r1, w1)" by fastforce
    let ?t1 = "t\<lparr>tw_host := w1\<rparr>"
    consider e where "r1 = Inl e" | "r1 = Inr None" | m auth where "r1 = Inr (Some (m, auth))"
      by (metis obj_sumE option.exhaust prod.exhaust)
    then show ?thesis
    proof cases
      case 1
      then show ?thesis using r1 by (simp add: body_def io_simps)
    next
      case 2
      then show ?thesis using r1 failSafe_settles [of deps command _ ?t1]
        by (simp add: body_def io_simps)
    next
      case 3
      obtain r2 w2 where r2: "rd_recentMessages deps w1 = (r2, w2)" by fastforce
      show ?thesis
      proof (cases r2)
        case (Inl e)
        then show ?thesis using r1 r2 3 by (simp add: body_def io_simps)
      next
        case (Inr recent)
        obtain r3 w3 where r3:
          "rd_runGate deps m auth (buildGateContext recent command (rd_cwd deps)) w2 = (r3, w3)"
          by fastforce
        let ?t3 = "t\<lparr>tw_host := w3, tw_log := tw_log t @ [EvGate r3]\<rparr>"
        consider e where "r3 = Inl e" | "r3 = Inr None" | d where "r3 = Inr (Some d)"
          by (metis obj_sumE option.exhaust)
        then show ?thesis
        proof cases
          case 1
          then show ?thesis using r1 r2 r3 3 Inr by (simp add: body_def io_simps)
        next
          case n: 2
          have "body t = failSafe deps command ''reviewer returned no decision'' ?t3"
            using r1 r2 r3 3 Inr n by (simp add: body_def io_simps)
          then show ?thesis
            using failSafe_settles [of deps command "''reviewer returned no decision''" ?t3]
              settles_extend [of deps command "tw_log ?t3" _ _ "tw_log t" "[EvGate r3]"] by auto
        next
          case d: 3
          have "body t = apply_decision deps command d ?t3"
            using r1 r2 r3 3 Inr d by (simp add: body_def io_simps)
          then show ?thesis
            using apply_decision_settles [of d ?t3 deps command] d
              settles_extend [of deps command "tw_log ?t3" _ _ "tw_log t" "[EvGate r3]"] by fastforce
        qed
      qed
    qed
  qed
  have "reviewBashCommand command deps t = io_catch body (\<lambda>reason. failSafe deps command reason) t"
    using assms by (simp add: reviewBashCommand_def body_def)
  then show ?thesis
    using body failSafe_settles [of deps command] settles_extend [of deps command _ _ _ "tw_log t"]
    by (auto simp: io_simps) metis
qed

lemma failSafe_no_ui:
  "\<not> rd_hasUI deps \<Longrightarrow> \<exists>reason t'. failSafe deps command why t = (Inr (Some reason), t')"
  by (auto simp: failSafe_def review_call_defs io_simps split: sum.splits)

lemma review_skips:
  "isTriviallySafe command \<or> rd_paused deps \<Longrightarrow> reviewBashCommand command deps t = (Inr None, t)"
  by (auto simp: reviewBashCommand_def io_simps)

section \<open>Properties\<close>

text \<open>
  C1. The hook lets a non-empty bash command run only on grounds, whatever the model, the user
  interface and the audit log answer or throw: the launch flag and both sandbox variables turn
  the reviewer off, the command is trivially safe, the reviewer is paused, the user confirmed the
  command, the gate approved it with a risk that is not destructive, or, for a subagent without a
  user interface, the gate did not deny it and classified it as a local git change.
\<close>

theorem hook_permits_only_on_grounds:
  "case bash_tool_call other e sandboxedFlag deps \<lparr>tc_toolName = ''bash'', tc_command = Some (c # cs)\<rparr>
          \<lparr>tw_host = w, tw_log = []\<rparr> of
     (Inl err, t') \<Rightarrow> False
   | (Inr (Some reason), t') \<Rightarrow> True
   | (Inr None, t') \<Rightarrow>
       sandboxedFlag \<and> e ''BASECAMP_BASH_REVIEWER'' = Some ''off'' \<and> e ''BASECAMP_EXTERNAL_SANDBOX'' = Some ''1''
       \<or> isTriviallySafe (c # cs)
       \<or> e PAUSED = Some ''1''
       \<or> rd_hasUI deps \<and> user_granted (tw_log t')
       \<or> gate_granted (deps\<lparr>rd_isSubagent := isSubagent other e\<rparr>) (tw_log t')"
proof -
  let ?deps = "deps\<lparr>rd_paused := isReviewerPaused e, rd_isSubagent := isSubagent other e\<rparr>"
  let ?t = "\<lparr>tw_host = w, tw_log = []\<rparr>"
  have p: "isReviewerPaused e \<longleftrightarrow> e PAUSED = Some ''1''"
    by (auto simp: isReviewerPaused_def getBasecampEnv_def)
  have g: "gate_granted ?deps l = gate_granted (deps\<lparr>rd_isSubagent := isSubagent other e\<rparr>) l" for l
    by (simp add: gate_granted_def)
  consider "isReviewerDisabled (getBasecampEnv e ''BASECAMP_BASH_REVIEWER'')
      (getBasecampEnv e ''BASECAMP_EXTERNAL_SANDBOX'') sandboxedFlag"
    | "isTriviallySafe (c # cs) \<or> rd_paused ?deps"
    | out t' where "\<not> isReviewerDisabled (getBasecampEnv e ''BASECAMP_BASH_REVIEWER'')
      (getBasecampEnv e ''BASECAMP_EXTERNAL_SANDBOX'') sandboxedFlag"
      "reviewBashCommand (c # cs) ?deps ?t = (Inr out, t')" "settles ?deps (c # cs) [] out (tw_log t')"
    using review_settles [of "c # cs" ?deps ?t] by force
  then show ?thesis
  proof cases
    case 1
    then show ?thesis
      by (simp add: bash_tool_call_def io_simps)
        (auto simp: isReviewerDisabled_def getBasecampEnv_def split: if_splits)
  next
    case 2
    then have "reviewBashCommand (c # cs) ?deps ?t = (Inr None, ?t)" by (rule review_skips)
    with 2 show ?thesis
      by (auto simp: bash_tool_call_def io_simps p isReviewerDisabled_def getBasecampEnv_def split: if_splits)
  next
    case 3
    then have "bash_tool_call other e sandboxedFlag deps \<lparr>tc_toolName = ''bash'', tc_command = Some (c # cs)\<rparr> ?t
        = (Inr out, t')"
      by (simp add: bash_tool_call_def)
    with 3 show ?thesis by (cases out) (auto simp: settles_def granted_def g)
  qed
qed

text \<open>
  Off the fast path and the pause, every review writes exactly one audit entry, with the
  truncated command, and its action agrees with the outcome: approve when the command runs, deny
  when it is blocked. On the fast path and under the pause nothing is asked, told or recorded.
\<close>

theorem review_audits_once:
  "case reviewBashCommand command deps \<lparr>tw_host = w, tw_log = []\<rparr> of
     (Inl e, t') \<Rightarrow> False
   | (Inr out, t') \<Rightarrow>
       if isTriviallySafe command \<or> rd_paused deps then tw_log t' = [] \<and> tw_host t' = w
       else map (\<lambda>e. (ae_command e, ae_action e)) (audits (tw_log t')) =
            [(truncateCommand command, if out = None then AuditApprove else AuditDeny)]"
proof (cases "isTriviallySafe command \<or> rd_paused deps")
  case True
  then show ?thesis by (auto simp: review_skips)
next
  case False
  then obtain out t' where
    "reviewBashCommand command deps \<lparr>tw_host = w, tw_log = []\<rparr> = (Inr out, t')"
    "settles deps command [] out (tw_log t')"
    using review_settles [of command deps "\<lparr>tw_host = w, tw_log = []\<rparr>"] by auto
  with False show ?thesis by (auto simp: settles_def action_of_def)
qed

text \<open>
  C2. With no user interface a gate that cannot answer blocks the command: an unresolved model, a
  gate that throws and a gate without a decision all end in a refusal.
\<close>

theorem review_fails_closed:
  assumes "\<not> isTriviallySafe command" "\<not> rd_paused deps" "\<not> rd_hasUI deps"
    and gate: "\<And>m auth ctx v. case fst (rd_runGate deps m auth ctx v) of
                 Inl e \<Rightarrow> True | Inr decision \<Rightarrow> decision = None"
  shows "case reviewBashCommand command deps \<lparr>tw_host = w, tw_log = []\<rparr> of
     (Inl e, t') \<Rightarrow> False | (Inr out, t') \<Rightarrow> out \<noteq> None"
proof -
  let ?t = "\<lparr>tw_host = w, tw_log = []\<rparr>"
  obtain out t' where run: "reviewBashCommand command deps ?t = (Inr out, t')"
    using review_settles [of command deps ?t] assms by blast
  have fs: "fst (failSafe deps command why v) \<noteq> Inr None" for why v
    using failSafe_no_ui [of deps command why v] assms by auto
  have fs': "failSafe deps command why v \<noteq> (Inr None, u)" for why v u
    using fs [of why v] by (metis fst_conv)
  have "out \<noteq> None"
  proof
    assume "out = None"
    with run have r: "fst (reviewBashCommand command deps ?t) = Inr None" by simp
    show False
    proof (cases "fst (rd_resolveModel deps w)")
      case (Inl e)
      with r assms fs fs' show ?thesis by (simp add: reviewBashCommand_def io_simps)
    next
      case (Inr resolved)
      show ?thesis
      proof (cases resolved)
        case None
        with Inr r assms fs fs' show ?thesis
          by (auto simp: reviewBashCommand_def io_simps split: sum.splits prod.splits)
      next
        case (Some ma)
        have g: "fst (rd_runGate deps m auth ctx v) \<noteq> Inr (Some d)" for m auth ctx v d
          using gate [of m auth ctx v] by (cases "fst (rd_runGate deps m auth ctx v)") auto
        from r Some Inr assms(1-3) fs fs' g show ?thesis
          by (auto simp: reviewBashCommand_def io_simps split_beta split: sum.splits prod.splits option.splits)
      qed
    qed
  qed
  with run show ?thesis by simp
qed

definition closed_deps :: "(unit, unit) review_deps" where
  "closed_deps = \<lparr>rd_resolveModel = io_return (Some ((), \<lparr>au_apiKey = None, au_headers = None\<rparr>)),
     rd_recentMessages = io_return [], rd_cwd = ''/repo'', rd_runGate = (\<lambda>_ _ _. io_throw ''overloaded''),
     rd_confirm = (\<lambda>_. io_return True), rd_hasUI = False, rd_isSubagent = False, rd_paused = False,
     rd_audit = (\<lambda>_. io_return ()), rd_notify = (\<lambda>_. io_return ())\<rparr>"

theorem review_fails_closed_witness:
  "case reviewBashCommand ''rm -rf build'' closed_deps \<lparr>tw_host = (), tw_log = []\<rparr> of
     (Inl e, t') \<Rightarrow> False | (Inr out, t') \<Rightarrow> out \<noteq> None"
proof (rule review_fails_closed)
  show "\<not> isTriviallySafe ''rm -rf build''" by code_simp
qed (simp_all add: closed_deps_def io_simps)

end
