(* ===== verification/NodePath.thy ===== *)
theory NodePath
  imports Host
begin

text \<open>
  The POSIX operations of the \<open>path\<close> module the code uses, on the segments between slashes, and
  the containment tests of \<open>pi/core/host/paths.ts\<close>. A path is resolved against the directory the
  process runs in, an absolute path. The lemmas give every resolved path its normal list of
  segments and turn containment into a prefix of segments.
\<close>

section \<open>Resolving\<close>

abbreviation slash :: char where "slash \<equiv> CHR ''/''"

definition isAbsolute :: "string \<Rightarrow> bool" where
  "isAbsolute p \<longleftrightarrow> startsWith p ''/''"

text \<open>\<open>normalizeString\<close> on an absolute path: \<open>acc\<close> holds the segments so far, last first.\<close>

fun norm_abs :: "string list \<Rightarrow> string list \<Rightarrow> string list" where
  "norm_abs acc [] = rev acc"
| "norm_abs acc (s # ss) =
     (if s = [] \<or> s = ''.'' then norm_abs acc ss
      else if s = ''..'' then norm_abs (tl acc) ss
      else norm_abs (s # acc) ss)"

text \<open>On a relative path a \<open>..\<close> with nothing to drop stays.\<close>

fun norm_rel :: "string list \<Rightarrow> string list \<Rightarrow> string list" where
  "norm_rel acc [] = rev acc"
| "norm_rel acc (s # ss) =
     (if s = [] \<or> s = ''.'' then norm_rel acc ss
      else if s = ''..'' then
        (if acc = [] \<or> hd acc = ''..'' then norm_rel (s # acc) ss else norm_rel (tl acc) ss)
      else norm_rel (s # acc) ss)"

definition resolve_text :: "string \<Rightarrow> string list \<Rightarrow> string" where
  "resolve_text cwd ps =
     foldl (\<lambda>acc p. if p = [] then acc else if isAbsolute p then p else acc @ ''/'' @ p) cwd ps"

definition resolve_segs :: "string \<Rightarrow> string list \<Rightarrow> string list" where
  "resolve_segs cwd ps = norm_abs [] (split_on slash (resolve_text cwd ps))"

definition abs_path :: "string list \<Rightarrow> string" where
  "abs_path segs = ''/'' @ join ''/'' segs"

definition path_resolve :: "string \<Rightarrow> string list \<Rightarrow> string" where
  "path_resolve cwd ps = abs_path (resolve_segs cwd ps)"

definition normalize :: "string \<Rightarrow> string" where
  "normalize p =
     (if p = [] then ''.''
      else (let trailing = (last p = slash);
                body = (if isAbsolute p then join ''/'' (norm_abs [] (split_on slash p))
                        else join ''/'' (norm_rel [] (split_on slash p)))
            in if body = [] then (if isAbsolute p then ''/'' else if trailing then ''./'' else ''.'')
               else (if isAbsolute p then ''/'' else []) @ body @ (if trailing then ''/'' else [])))"

definition path_join :: "string list \<Rightarrow> string" where
  "path_join ps = (let parts = filter (\<lambda>p. p \<noteq> []) ps
                   in if parts = [] then ''.'' else normalize (join ''/'' parts))"

fun drop_common :: "string list \<Rightarrow> string list \<Rightarrow> string list \<times> string list" where
  "drop_common (x # xs) (y # ys) = (if x = y then drop_common xs ys else (x # xs, y # ys))"
| "drop_common xs ys = (xs, ys)"

text \<open>\<open>path.relative(from, to)\<close>, on the segments of the two resolved paths.\<close>

definition relative_segs :: "string list \<Rightarrow> string list \<Rightarrow> string list" where
  "relative_segs from to = (case drop_common from to of (up, down) \<Rightarrow> map (\<lambda>_. ''..'') up @ down)"

definition path_relative :: "string \<Rightarrow> string \<Rightarrow> string \<Rightarrow> string" where
  "path_relative cwd from to = join ''/'' (relative_segs (resolve_segs cwd [from]) (resolve_segs cwd [to]))"

text \<open>The last segment, the directory and the extension of a resolved path.\<close>

definition basename :: "string \<Rightarrow> string" where
  "basename p = (let segs = filter (\<lambda>s. s \<noteq> []) (split_on slash p) in if segs = [] then [] else last segs)"

definition dirname :: "string \<Rightarrow> string" where
  "dirname p =
     (let segs = filter (\<lambda>s. s \<noteq> []) (split_on slash p)
      in if segs = [] then (if isAbsolute p then ''/'' else ''.'')
         else if butlast segs = [] then (if isAbsolute p then ''/'' else ''.'')
         else (if isAbsolute p then ''/'' else []) @ join ''/'' (butlast segs))"

definition extname :: "string \<Rightarrow> string" where
  "extname p =
     (let base = basename p;
          ext = rev (takeWhile (\<lambda>c. c \<noteq> CHR ''.'') (rev base));
          k = length base - length ext
      in if k \<le> 1 \<or> base = ''..'' then [] else CHR ''.'' # ext)"

section \<open>Normal segments\<close>

definition normal_seg :: "string \<Rightarrow> bool" where
  "normal_seg s \<longleftrightarrow> s \<noteq> [] \<and> s \<noteq> ''.'' \<and> s \<noteq> ''..'' \<and> slash \<notin> set s"

definition normal_segs :: "string list \<Rightarrow> bool" where
  "normal_segs ss \<longleftrightarrow> list_all normal_seg ss"

lemma norm_abs_normal:
  "list_all normal_seg acc \<Longrightarrow> \<forall>s \<in> set ss. slash \<notin> set s \<Longrightarrow> normal_segs (norm_abs acc ss)"
proof (induction acc ss rule: norm_abs.induct)
  case (1 acc)
  then show ?case by (simp add: normal_segs_def)
next
  case (2 acc s ss)
  have "list_all normal_seg (tl acc)"
    using "2.prems"(1) by (cases acc) auto
  with 2 show ?case by (auto simp: normal_seg_def [of s])
qed

lemma resolve_segs_normal [simp]: "normal_segs (resolve_segs cwd ps)"
  unfolding resolve_segs_def by (rule norm_abs_normal) (auto dest: split_on_parts)

lemma norm_abs_id: "normal_segs ss \<Longrightarrow> norm_abs acc ss = rev acc @ ss"
  by (induction acc ss rule: norm_abs.induct) (auto simp: normal_segs_def normal_seg_def)

lemma split_abs_path:
  "normal_segs ss \<Longrightarrow> split_on slash (abs_path ss) = [] # (if ss = [] then [[]] else ss)"
  unfolding abs_path_def normal_segs_def list_all_iff normal_seg_def
  by (cases "ss = []") (simp_all add: split_on_join)

lemma isAbsolute_abs_path [simp]: "isAbsolute (abs_path ss)"
  by (simp add: isAbsolute_def abs_path_def)

lemma abs_path_not_Nil [simp]: "abs_path ss \<noteq> []"
  by (simp add: abs_path_def)

text \<open>Resolving an absolute normal path changes nothing, whatever the directory.\<close>

lemma resolve_segs_abs_path [simp]:
  "normal_segs ss \<Longrightarrow> resolve_segs cwd [abs_path ss] = ss"
  by (simp add: resolve_segs_def resolve_text_def split_abs_path norm_abs_id)

lemma resolve_resolve [simp]: "path_resolve cwd [path_resolve cwd' ps] = path_resolve cwd' ps"
  by (simp add: path_resolve_def)

lemma abs_path_inject:
  "normal_segs xs \<Longrightarrow> normal_segs ys \<Longrightarrow> abs_path xs = abs_path ys \<longleftrightarrow> xs = ys"
  by (metis resolve_segs_abs_path)

lemma path_resolve_eq_iff:
  "path_resolve c ps = path_resolve c' ps' \<longleftrightarrow> resolve_segs c ps = resolve_segs c' ps'"
  by (simp add: path_resolve_def abs_path_inject)

text \<open>Appending segments to a resolved directory.\<close>

lemma norm_abs_append: "norm_abs acc (xs @ ys) = norm_abs (rev (norm_abs acc xs)) ys"
  by (induction acc xs rule: norm_abs.induct) auto

lemma split_on_concat:
  "split_on c (s @ c # t) = split_on c s @ split_on c t"
proof (induction s)
  case (Cons x s)
  obtain v vs where "split_on c s = v # vs" by (meson neq_Nil_conv split_on_not_Nil)
  with Cons show ?case by auto
qed simp

lemma resolve_segs_relative:
  "p \<noteq> [] \<Longrightarrow> \<not> isAbsolute p \<Longrightarrow>
   resolve_segs cwd [d, p] = norm_abs (rev (resolve_segs cwd [d])) (split_on slash p)"
  by (simp add: resolve_segs_def resolve_text_def split_on_concat norm_abs_append)

lemma isAbsolute_join: "normal_segs ss \<Longrightarrow> \<not> isAbsolute (join ''/'' ss)"
  by (cases ss rule: remdups_adj.cases)
    (auto simp: normal_segs_def normal_seg_def isAbsolute_def startsWith_iff neq_Nil_conv)

lemma join_Nil_iff: "normal_segs ss \<Longrightarrow> join ''/'' ss = [] \<longleftrightarrow> ss = []"
  by (cases ss rule: remdups_adj.cases) (auto simp: normal_segs_def normal_seg_def)

lemma split_join_normal:
  "normal_segs ss \<Longrightarrow> ss \<noteq> [] \<Longrightarrow> split_on slash (join ''/'' ss) = ss"
  by (rule split_on_join) (auto simp: normal_segs_def normal_seg_def list_all_iff)

lemma resolve_segs_join:
  assumes "normal_segs ss"
  shows "resolve_segs cwd [d, join ''/'' ss] = resolve_segs cwd [d] @ ss"
proof (cases "ss = []")
  case True
  then show ?thesis by (simp add: resolve_segs_def resolve_text_def)
next
  case False
  with assms have "join ''/'' ss \<noteq> []" by (simp add: join_Nil_iff)
  with assms False show ?thesis
    by (simp add: resolve_segs_relative isAbsolute_join split_join_normal norm_abs_id)
qed

lemma normal_segs_append [simp]: "normal_segs (xs @ ys) \<longleftrightarrow> normal_segs xs \<and> normal_segs ys"
  by (simp add: normal_segs_def)

text \<open>\<open>path.join\<close> of an absolute normal path and normal segments.\<close>

lemma normalize_abs_path [simp]:
  assumes "normal_segs ss"
  shows "normalize (abs_path ss) = abs_path ss"
proof (cases "ss = []")
  case True
  then show ?thesis by (simp add: normalize_def abs_path_def isAbsolute_def)
next
  case False
  have last: "last (join ''/'' ss) \<noteq> slash" if "normal_segs ss" "ss \<noteq> []" for ss
    using that
  proof (induction ss rule: remdups_adj.induct)
    case (2 x)
    then show ?case by (auto simp: normal_segs_def normal_seg_def dest: last_in_set)
  next
    case (3 x y xs)
    then show ?case by (auto simp: normal_segs_def join_Nil_iff normal_seg_def split: if_splits)
  qed simp
  have j: "join ''/'' ss \<noteq> []" using False assms by (simp add: join_Nil_iff)
  have "last (abs_path ss) \<noteq> slash" using last [OF assms False] j by (simp add: abs_path_def)
  then show ?thesis
    using assms False j by (simp add: normalize_def Let_def split_abs_path norm_abs_id) (simp add: abs_path_def)
qed

lemma normalize_abs_segs:
  "isAbsolute p \<Longrightarrow> last p \<noteq> slash \<Longrightarrow> normalize p = path_resolve cwd [p]"
proof -
  assume a: "isAbsolute p" "last p \<noteq> slash"
  then have "p \<noteq> []" by (auto simp: isAbsolute_def)
  with a show ?thesis
    by (simp add: normalize_def path_resolve_def resolve_segs_def resolve_text_def abs_path_def Let_def)
qed

lemma join_append: "xs \<noteq> [] \<Longrightarrow> ys \<noteq> [] \<Longrightarrow> join s (xs @ ys) = join s xs @ s @ join s ys"
proof (induction s xs rule: join.induct)
  case (2 sep x)
  then show ?case by (cases ys) auto
qed auto

lemma resolve_segs_abs_join:
  assumes "normal_segs a" "normal_segs b"
  shows "resolve_segs cwd [abs_path a @ ''/'' @ join ''/'' b] = a @ b"
proof -
  have "resolve_segs cwd [abs_path a @ ''/'' @ join ''/'' b] =
      norm_abs (rev (resolve_segs cwd [abs_path a])) (split_on slash (join ''/'' b))"
    by (simp add: resolve_segs_def resolve_text_def split_on_concat norm_abs_append isAbsolute_def abs_path_def)
  then show ?thesis using assms by (cases "b = []") (simp_all add: split_join_normal norm_abs_id)
qed

lemma last_join_normal: "normal_segs ss \<Longrightarrow> ss \<noteq> [] \<Longrightarrow> last (join ''/'' ss) \<noteq> slash"
proof (induction ss rule: remdups_adj.induct)
  case (2 x)
  then show ?case by (auto simp: normal_segs_def normal_seg_def dest: last_in_set)
next
  case (3 x y xs)
  then show ?case by (auto simp: normal_segs_def join_Nil_iff normal_seg_def split: if_splits)
qed simp

text \<open>\<open>path.join\<close> of an absolute normal directory and further normal parts.\<close>

lemma path_join_abs:
  assumes "normal_segs a" "\<forall>b \<in> set bs. normal_segs b \<and> b \<noteq> []"
  shows "path_join (abs_path a # map (join ''/'') bs) = abs_path (a @ concat bs)"
proof (cases "bs = []")
  case True
  with assms show ?thesis by (simp add: path_join_def)
next
  case False
  have "concat bs \<noteq> []" using assms False by (cases bs) auto
  moreover have n: "normal_segs (concat bs)" using assms(2) by (induction bs) (auto simp: normal_segs_def)
  moreover have "join ''/'' (map (join ''/'') bs) = join ''/'' (concat bs)"
    using False assms(2)
  proof (induction bs rule: remdups_adj.induct)
    case (3 x y xs)
    then show ?case using join_append [of x "concat (y # xs)" "''/''"] by auto
  qed auto
  moreover have "filter (\<lambda>p. p \<noteq> []) (abs_path a # map (join ''/'') bs) = abs_path a # map (join ''/'') bs"
    using assms(2) by (auto simp: filter_id_conv join_Nil_iff)
  moreover have "join ''/'' (abs_path a # map (join ''/'') bs) = abs_path a @ ''/'' @ join ''/'' (map (join ''/'') bs)"
    using False by (cases bs) auto
  ultimately have j: "path_join (abs_path a # map (join ''/'') bs) = normalize (abs_path a @ ''/'' @ join ''/'' (concat bs))"
    by (simp add: path_join_def Let_def)
  have "isAbsolute (abs_path a @ ''/'' @ join ''/'' (concat bs))" by (simp add: isAbsolute_def abs_path_def)
  moreover have "last (abs_path a @ ''/'' @ join ''/'' (concat bs)) \<noteq> slash"
    using last_join_normal [OF n \<open>concat bs \<noteq> []\<close>] n \<open>concat bs \<noteq> []\<close> by (simp add: join_Nil_iff)
  ultimately have "path_join (abs_path a # map (join ''/'') bs) =
      path_resolve ''/'' [abs_path a @ ''/'' @ join ''/'' (concat bs)]"
    using j normalize_abs_segs by simp
  then show ?thesis using assms(1) n by (simp add: path_resolve_def resolve_segs_abs_join del: append.simps)
qed

section \<open>Containment\<close>

definition within_of :: "string list \<Rightarrow> string list \<Rightarrow> bool" where
  "within_of parent child \<longleftrightarrow>
     prefix parent child \<and> (child = parent \<or> \<not> startsWith (child ! length parent) ''..'')"

definition isWithin :: "string \<Rightarrow> string \<Rightarrow> string \<Rightarrow> bool" where
  "isWithin cwd child parent =
     (let relative = path_relative cwd parent child
      in relative = [] \<or> (relative \<noteq> [] \<and> \<not> startsWith relative ''..'' \<and> \<not> isAbsolute relative))"

definition isStrictlyWithin :: "string \<Rightarrow> string \<Rightarrow> string \<Rightarrow> bool" where
  "isStrictlyWithin cwd child parent =
     (let relative = path_relative cwd parent child
      in relative \<noteq> [] \<and> \<not> startsWith relative ''..'' \<and> \<not> isAbsolute relative)"

lemma drop_common_spec:
  "drop_common xs ys = (u, d) \<Longrightarrow> \<exists>c. xs = c @ u \<and> ys = c @ d \<and> (u = [] \<or> d = [] \<or> hd u \<noteq> hd d)"
proof (induction xs ys rule: drop_common.induct)
  case (1 x xs y ys)
  show ?case
  proof (cases "x = y")
    case True
    with 1 obtain c where "xs = c @ u" "ys = c @ d" "u = [] \<or> d = [] \<or> hd u \<noteq> hd d" by auto
    with True show ?thesis by (intro exI [of _ "x # c"]) auto
  next
    case False
    with 1 show ?thesis by (intro exI [of _ "[]"]) auto
  qed
qed auto

lemma drop_common_prefix [simp]: "drop_common xs (xs @ ys) = ([], ys)"
  by (induction xs) (cases ys, auto)

lemma drop_common_up: "fst (drop_common xs ys) = [] \<longleftrightarrow> prefix xs ys"
  by (induction xs ys rule: drop_common.induct) auto

lemma startsWith_append_iff:
  "startsWith (s @ t) p \<longleftrightarrow> startsWith s p \<or> (\<exists>q. p = s @ q \<and> q \<noteq> [] \<and> startsWith t q)"
  by (auto simp: startsWith_iff append_eq_append_conv2)

lemma startsWith_dots_join:
  assumes "normal_segs (s # ss)"
  shows "startsWith (join ''/'' (s # ss)) ''..'' \<longleftrightarrow> startsWith s ''..''"
proof (cases ss)
  case Nil
  then show ?thesis by simp
next
  case (Cons t ts)
  have "s \<noteq> []" using assms by (simp add: normal_segs_def normal_seg_def)
  with Cons show ?thesis
    by (cases s rule: remdups_adj.cases) (auto simp: startsWith_def)
qed

text \<open>The relative path goes up exactly when the child lies elsewhere.\<close>

lemma relative_up:
  assumes "normal_segs a" "normal_segs b"
  shows "join ''/'' (relative_segs a b) = [] \<longleftrightarrow> a = b"
    and "\<not> prefix a b \<Longrightarrow> startsWith (join ''/'' (relative_segs a b)) ''..''"
    and "prefix a b \<Longrightarrow> relative_segs a b = drop (length a) b"
proof -
  obtain u d where ud: "drop_common a b = (u, d)" by fastforce
  obtain c where c: "a = c @ u" "b = c @ d" using drop_common_spec [OF ud] by blast
  have nd: "normal_segs d" using assms c by simp
  have r: "relative_segs a b = map (\<lambda>_. ''..'') u @ d" by (simp add: relative_segs_def ud)
  show up: "prefix a b \<Longrightarrow> relative_segs a b = drop (length a) b"
    by (auto simp: relative_segs_def prefix_def)
  have dots: "startsWith (join ''/'' (map (\<lambda>_. ''..'') u @ d)) ''..''" if "u \<noteq> []"
    using that by (cases "map (\<lambda>_. ''..'') (tl u) @ d"; cases u) (auto simp: startsWith_def)
  show "\<not> prefix a b \<Longrightarrow> startsWith (join ''/'' (relative_segs a b)) ''..''"
    using drop_common_up [of a b] ud r dots by auto
  show "join ''/'' (relative_segs a b) = [] \<longleftrightarrow> a = b"
  proof (cases "u = []")
    case True
    then show ?thesis using r c nd by (simp add: join_Nil_iff)
  next
    case False
    then have "startsWith (join ''/'' (relative_segs a b)) ''..''" using r dots by simp
    moreover have "a \<noteq> b" using False c drop_common_spec [OF ud]
      by (metis append_self_conv drop_common_prefix fst_conv ud)
    ultimately show ?thesis by force
  qed
qed

lemma isStrictlyWithin_segs:
  "isStrictlyWithin cwd child parent \<longleftrightarrow>
     within_of (resolve_segs cwd [parent]) (resolve_segs cwd [child]) \<and>
     resolve_segs cwd [child] \<noteq> resolve_segs cwd [parent]"
proof -
  let ?a = "resolve_segs cwd [parent]" and ?b = "resolve_segs cwd [child]"
  have r: "path_relative cwd parent child = join ''/'' (relative_segs ?a ?b)"
    by (simp add: path_relative_def)
  show ?thesis
  proof (cases "prefix ?a ?b")
    case False
    then show ?thesis
      using relative_up [of ?a ?b] by (auto simp: isStrictlyWithin_def r within_of_def)
  next
    case True
    then obtain d where d: "?b = ?a @ d" by (auto simp: prefix_def)
    have n: "normal_segs d" using resolve_segs_normal [of cwd "[child]"] d by simp
    have rel: "relative_segs ?a ?b = d" using relative_up(3) [of ?a ?b] d n by simp
    show ?thesis
    proof (cases d)
      case Nil
      then show ?thesis using rel d by (simp add: isStrictlyWithin_def r)
    next
      case (Cons s ss)
      have "startsWith (join ''/'' d) ''..'' \<longleftrightarrow> startsWith s ''..''"
        using startsWith_dots_join n Cons by simp
      then show ?thesis
        using rel d n Cons
        by (simp add: isStrictlyWithin_def r within_of_def Let_def isAbsolute_join join_Nil_iff nth_append)
    qed
  qed
qed

lemma isWithin_segs:
  "isWithin cwd child parent \<longleftrightarrow> within_of (resolve_segs cwd [parent]) (resolve_segs cwd [child])"
proof -
  have "isWithin cwd child parent \<longleftrightarrow>
      isStrictlyWithin cwd child parent \<or> path_relative cwd parent child = []"
    by (auto simp: isWithin_def isStrictlyWithin_def Let_def)
  also have "path_relative cwd parent child = [] \<longleftrightarrow>
      resolve_segs cwd [parent] = resolve_segs cwd [child]"
    unfolding path_relative_def by (rule relative_up(1)) simp_all
  finally show ?thesis
    by (auto simp: isStrictlyWithin_segs within_of_def)
qed

text \<open>
  Containment is containment of path segments: a path is within a directory exactly when the
  directory's resolved segments are a prefix of its own, so a sibling whose name only begins
  with the directory's name is outside. A child whose first further segment begins with two
  dots is also reported outside, though it lies inside.
\<close>

theorem isWithin_is_segment_prefix:
  "isWithin cwd child parent =
     (prefix (resolve_segs cwd [parent]) (resolve_segs cwd [child]) \<and>
      \<not> startsWith (concat (take 1 (drop (length (resolve_segs cwd [parent])) (resolve_segs cwd [child])))) ''..'')"
proof -
  let ?a = "resolve_segs cwd [parent]" and ?b = "resolve_segs cwd [child]"
  have "within_of ?a ?b \<longleftrightarrow> prefix ?a ?b \<and> \<not> startsWith (concat (take 1 (drop (length ?a) ?b))) ''..''"
  proof (cases "prefix ?a ?b")
    case True
    then obtain zs where "?b = ?a @ zs" by (auto simp: prefix_def)
    then show ?thesis by (cases zs) (auto simp: within_of_def nth_append)
  qed (simp add: within_of_def)
  then show ?thesis by (simp add: isWithin_segs)
qed

end
