(* ===== verification/FileLength.thy ===== *)
theory FileLength
  imports NodePath
begin

text \<open>
  The file-length reminder of the Pi extension (\<open>pi/engineering/file-length.ts\<close>) and its copy for
  the other agent (\<open>omp/engineering/file-length.ts\<close>): the line caps, the count, and the event
  handlers over the set of paths already reminded. The copies are translated separately and
  proved to agree.
\<close>

section \<open>Caps and counts\<close>

definition SOURCE_SUFFIXES :: "string list" where
  "SOURCE_SUFFIXES =
     [''.bash'', ''.c'', ''.cc'', ''.cjs'', ''.cpp'', ''.cs'', ''.css'', ''.cxx'', ''.go'', ''.h'',
      ''.hh'', ''.hpp'', ''.htm'', ''.html'', ''.java'', ''.jl'', ''.js'', ''.jsx'', ''.kt'',
      ''.kts'', ''.lua'', ''.mjs'', ''.php'', ''.py'', ''.pyi'', ''.rb'', ''.rs'', ''.scala'',
      ''.sh'', ''.sql'', ''.swift'', ''.ts'', ''.tsx'', ''.zsh'']"

definition DEFAULT_SOURCE_LINE_LIMIT :: nat where "DEFAULT_SOURCE_LINE_LIMIT = 500"

definition SOURCE_LINE_LIMITS :: "(string \<times> nat) list" where
  "SOURCE_LINE_LIMITS =
     [(''.htm'', 350), (''.html'', 350), (''.ts'', 350), (''.tsx'', 350), (''.bash'', 400),
      (''.sh'', 400), (''.zsh'', 400), (''.sql'', 800)]"

definition lineLimit :: "string \<Rightarrow> (nat \<times> string) option" where
  "lineLimit filePath =
     (let sfx = toLowerCase (extname filePath) in
      if sfx \<notin> set SOURCE_SUFFIXES then None
      else Some (case map_of SOURCE_LINE_LIMITS sfx of
                   None \<Rightarrow> DEFAULT_SOURCE_LINE_LIMIT | Some limit \<Rightarrow> limit, sfx))"

abbreviation newline :: char where "newline \<equiv> CHR 0x0A"

definition lineCount :: "string \<Rightarrow> nat" where
  "lineCount content =
     (if content = [] then 0
      else length (split_on newline content) - (if endsWith content [newline] then 1 else 0))"

text \<open>\<open>JSON.stringify\<close> of a string.\<close>

definition hex_digit :: "nat \<Rightarrow> char" where
  "hex_digit n = (if n < 10 then char_of (48 + n) else char_of (87 + n))"

definition json_escape :: "char \<Rightarrow> string" where
  "json_escape c =
     (if c = CHR 0x22 then [CHR 0x5C, CHR 0x22]
      else if c = CHR 0x5C then [CHR 0x5C, CHR 0x5C]
      else if c = CHR 0x08 then [CHR 0x5C, CHR ''b'']
      else if c = CHR 0x0C then [CHR 0x5C, CHR ''f'']
      else if c = CHR 0x0A then [CHR 0x5C, CHR ''n'']
      else if c = CHR 0x0D then [CHR 0x5C, CHR ''r'']
      else if c = CHR 0x09 then [CHR 0x5C, CHR ''t'']
      else if (of_char c :: nat) < 32
        then [CHR 0x5C] @ ''u00'' @ [hex_digit (of_char c div 16), hex_digit (of_char c mod 16)]
      else [c])"

definition json_quote :: "string \<Rightarrow> string" where
  "json_quote s = [CHR 0x22] @ concat (map json_escape s) @ [CHR 0x22]"

definition reminderContent :: "string \<Rightarrow> nat \<Rightarrow> nat \<Rightarrow> string \<Rightarrow> string" where
  "reminderContent filePath lines limit sfx =
     ''<system-reminder>'' @ [newline] @
     ''File-length reminder: '' @ json_quote filePath @ '' is now '' @ show_nat lines @
     '' lines, over the '' @ show_nat limit @ ''-line cap for '' @ sfx @ '' source files. '' @
     ''The edit succeeded; this is advisory. Split the file along genuine responsibility seams into focused modules. '' @
     ''Do not compress formatting or create continuation files merely to satisfy the cap, and follow any tighter project-specific limit.'' @
     [newline] @ ''</system-reminder>''"

section \<open>Handlers\<close>

record tool_result =
  tr_isError :: bool
  tr_toolName :: string
  tr_path :: "json option"

text \<open>
  What the handlers use of the host when an event arrives: the directory, the text of a file, and
  whether sending the message succeeds. Each of them may throw.
\<close>

record file_host =
  fh_process_cwd :: string
  fh_getCwd :: "string result"
  fh_readText :: "string \<Rightarrow> string result"
  fh_sends :: bool

record reminder_state =
  rs_reminded :: "string list"
  rs_messages :: "(string \<times> string) list"

definition fresh_reminders :: reminder_state where
  "fresh_reminders = \<lparr>rs_reminded = [], rs_messages = []\<rparr>"

definition reset_reminders :: "reminder_state \<Rightarrow> reminder_state" where
  "reset_reminders st = st\<lparr>rs_reminded := []\<rparr>"

definition resolved_event_path :: "file_host \<Rightarrow> string \<Rightarrow> string result" where
  "resolved_event_path h rawPath =
     (if isAbsolute rawPath then Inr (path_resolve (fh_process_cwd h) [rawPath])
      else rbind (fh_getCwd h) (\<lambda>cwd. Inr (path_resolve (fh_process_cwd h) [cwd, rawPath])))"

definition on_tool_result :: "file_host \<Rightarrow> tool_result \<Rightarrow> reminder_state \<Rightarrow> reminder_state" where
  "on_tool_result h event st =
     (if tr_isError event then st
      else if tr_toolName event \<noteq> ''edit'' \<and> tr_toolName event \<noteq> ''write'' then st
      else (case tr_path event of
        Some (JStr rawPath) \<Rightarrow>
          if rawPath = [] then st
          else (case resolved_event_path h rawPath of
            Inl _ \<Rightarrow> st
          | Inr resolvedPath \<Rightarrow>
              (case lineLimit resolvedPath of
                None \<Rightarrow> st
              | Some (limit, sfx) \<Rightarrow>
                  (case fh_readText h resolvedPath of
                    Inl _ \<Rightarrow> st
                  | Inr content \<Rightarrow>
                      (let lines = lineCount content in
                       if lines \<le> limit
                         then st\<lparr>rs_reminded := removeAll resolvedPath (rs_reminded st)\<rparr>
                       else if resolvedPath \<in> set (rs_reminded st) then st
                       else if \<not> fh_sends h then st
                       else st\<lparr>rs_messages := rs_messages st @
                                 [(resolvedPath, reminderContent resolvedPath lines limit sfx)],
                               rs_reminded := rs_reminded st @ [resolvedPath]\<rparr>))))
      | _ \<Rightarrow> st))"

datatype pi_event = PiSessionStart | PiAgentSettled | PiToolResult file_host tool_result

definition pi_step :: "pi_event \<Rightarrow> reminder_state \<Rightarrow> reminder_state" where
  "pi_step ev st =
     (case ev of
        PiSessionStart \<Rightarrow> reset_reminders st
      | PiAgentSettled \<Rightarrow> reset_reminders st
      | PiToolResult h event \<Rightarrow> on_tool_result h event st)"

section \<open>One reminder per stretch\<close>

text \<open>The path an event finds over its cap, and the path it finds within it.\<close>

definition measured :: "file_host \<Rightarrow> tool_result \<Rightarrow> (string \<times> bool) option" where
  "measured h event =
     (if tr_isError event \<or> tr_toolName event \<notin> {''edit'', ''write''} then None
      else (case tr_path event of
        Some (JStr rawPath) \<Rightarrow>
          if rawPath = [] then None
          else (case resolved_event_path h rawPath of
             Inr p \<Rightarrow> (case (lineLimit p, fh_readText h p) of
                         (Some (limit, _), Inr content) \<Rightarrow>
                           Some (p, lineCount content > limit)
                       | _ \<Rightarrow> None)
           | Inl _ \<Rightarrow> None)
      | _ \<Rightarrow> None))"

lemma on_tool_result_measured:
  "rs_reminded (on_tool_result h event st) =
     (case measured h event of
        None \<Rightarrow> rs_reminded st
      | Some (p, over) \<Rightarrow>
          if \<not> over then removeAll p (rs_reminded st)
          else if p \<in> set (rs_reminded st) \<or> \<not> fh_sends h then rs_reminded st
          else rs_reminded st @ [p])"
  "map fst (rs_messages (on_tool_result h event st)) =
     map fst (rs_messages st) @
       (case measured h event of
          Some (p, over) \<Rightarrow> if \<not> over \<or> p \<in> set (rs_reminded st) \<or> \<not> fh_sends h then [] else [p]
        | None \<Rightarrow> [])"
  by (auto simp: on_tool_result_def measured_def Let_def split: option.splits json.splits sum.splits)

text \<open>An event that opens a new stretch for a path: a reset, or an edit that leaves it within its cap.\<close>

definition renews :: "string \<Rightarrow> pi_event \<Rightarrow> bool" where
  "renews p ev = (case ev of PiToolResult h event \<Rightarrow> measured h event = Some (p, False) | _ \<Rightarrow> True)"

text \<open>The messages a run sends about one path within a stretch.\<close>

definition sent_about :: "string \<Rightarrow> reminder_state \<Rightarrow> nat" where
  "sent_about p st = length (filter (\<lambda>q. q = p) (map fst (rs_messages st)))"

lemma step_quiet:
  assumes "\<not> renews p ev" "p \<in> set (rs_reminded st)"
  shows "p \<in> set (rs_reminded (pi_step ev st)) \<and> sent_about p (pi_step ev st) = sent_about p st"
  using assms
  by (cases ev) (auto simp: pi_step_def renews_def sent_about_def on_tool_result_measured
      split: option.splits if_splits bool.splits)

lemma run_quiet:
  "list_all (\<lambda>ev. \<not> renews p ev) evs \<Longrightarrow> p \<in> set (rs_reminded st) \<Longrightarrow>
   sent_about p (fold pi_step evs st) = sent_about p st"
  by (induction evs arbitrary: st) (simp_all add: step_quiet)

lemma step_sends:
  "sent_about p (pi_step ev st) = sent_about p st
   \<or> sent_about p (pi_step ev st) = Suc (sent_about p st) \<and> p \<in> set (rs_reminded (pi_step ev st))"
  by (cases ev) (auto simp: pi_step_def reset_reminders_def sent_about_def on_tool_result_measured
      split: option.splits if_splits bool.splits)

lemma run_at_most_once:
  "list_all (\<lambda>ev. \<not> renews p ev) evs \<Longrightarrow> sent_about p (fold pi_step evs st) \<le> Suc (sent_about p st)"
proof (induction evs arbitrary: st)
  case (Cons ev evs)
  from step_sends [of p ev st] show ?case
  proof
    assume "sent_about p (pi_step ev st) = sent_about p st"
    with Cons.IH [of "pi_step ev st"] Cons.prems show ?case by simp
  next
    assume "sent_about p (pi_step ev st) = Suc (sent_about p st) \<and> p \<in> set (rs_reminded (pi_step ev st))"
    with run_quiet [of p evs "pi_step ev st"] Cons.prems show ?case by simp
  qed
qed simp

text \<open>
  A file is reminded of at most once per stretch: over any run of events without a session
  start, a settled agent or an edit that leaves the file within its cap, at most one message
  is sent about it, whatever else happens and from whatever state the run starts.
\<close>

theorem one_reminder_per_stretch:
  assumes "list_all (\<lambda>ev. \<not> renews p ev) evs"
  shows "sent_about p (fold pi_step evs st) \<le> Suc (sent_about p st)"
  using assms by (rule run_at_most_once)

definition sample_host :: file_host where
  "sample_host = \<lparr>fh_process_cwd = ''/w'', fh_getCwd = Inr ''/w'',
     fh_readText = (\<lambda>_. Inr (replicate 351 newline)), fh_sends = True\<rparr>"

definition sample_edit :: tool_result where
  "sample_edit = \<lparr>tr_isError = False, tr_toolName = ''edit'', tr_path = Some (JStr ''src/a.ts'')\<rparr>"

lemma split_on_replicate: "length (split_on c (replicate n c)) = Suc n"
  by (induction n) auto

lemma sample_measured: "measured sample_host sample_edit = Some (''/w/src/a.ts'', True)"
proof -
  have p: "resolved_event_path sample_host ''src/a.ts'' = Inr ''/w/src/a.ts''" by code_simp
  have l: "lineLimit ''/w/src/a.ts'' = Some (350, ''.ts'')" by code_simp
  have c: "lineCount (replicate 351 newline) = 351"
    by (simp add: lineCount_def split_on_replicate endsWith_def)
  show ?thesis
    unfolding measured_def using p l c by (simp add: sample_edit_def sample_host_def)
qed

theorem one_reminder_per_stretch_witness:
  "sent_about ''/w/src/a.ts''
     (fold pi_step [PiToolResult sample_host sample_edit, PiToolResult sample_host sample_edit] fresh_reminders)
   \<le> Suc (sent_about ''/w/src/a.ts'' fresh_reminders)"
  by (rule one_reminder_per_stretch) (simp add: renews_def sample_measured)

text \<open>
  The count is the number of lines an editor shows: the newline characters, plus one when the
  text does not end with one, and none for an empty file.
\<close>

lemma lineCount_counts_lines:
  "lineCount content =
     count_list content newline + (if content = [] \<or> last content = newline then 0 else 1)"
proof -
  have s: "length (split_on newline s) = Suc (count_list s newline)" for s
    by (induction s) (auto split: list.splits)
  have e: "endsWith s [newline] \<longleftrightarrow> s \<noteq> [] \<and> last s = newline" for s :: string
    by (cases s rule: rev_cases) (auto simp: endsWith_def)
  show ?thesis by (auto simp: lineCount_def s e)
qed

end
