(* ===== verification/OmpFileLength.thy ===== *)
theory OmpFileLength
  imports FileLength
begin

text \<open>
  The second copy of the file-length reminder (\<open>omp/engineering/file-length.ts\<close>), translated on
  its own, and its agreement with the first. The handlers differ in where the directory comes
  from and in which end-of-turn event resets.
\<close>

definition omp_SOURCE_SUFFIXES :: "string list" where
  "omp_SOURCE_SUFFIXES =
     [''.bash'', ''.c'', ''.cc'', ''.cjs'', ''.cpp'', ''.cs'', ''.css'', ''.cxx'', ''.go'', ''.h'',
      ''.hh'', ''.hpp'', ''.htm'', ''.html'', ''.java'', ''.jl'', ''.js'', ''.jsx'', ''.kt'',
      ''.kts'', ''.lua'', ''.mjs'', ''.php'', ''.py'', ''.pyi'', ''.rb'', ''.rs'', ''.scala'',
      ''.sh'', ''.sql'', ''.swift'', ''.ts'', ''.tsx'', ''.zsh'']"

definition omp_SOURCE_LINE_LIMITS :: "(string \<times> nat) list" where
  "omp_SOURCE_LINE_LIMITS =
     [(''.htm'', 350), (''.html'', 350), (''.ts'', 350), (''.tsx'', 350), (''.bash'', 400),
      (''.sh'', 400), (''.zsh'', 400), (''.sql'', 800)]"

definition omp_lineLimit :: "string \<Rightarrow> (nat \<times> string) option" where
  "omp_lineLimit filePath =
     (let sfx = toLowerCase (extname filePath) in
      if sfx \<notin> set omp_SOURCE_SUFFIXES then None
      else Some (case map_of omp_SOURCE_LINE_LIMITS sfx of None \<Rightarrow> 500 | Some limit \<Rightarrow> limit, sfx))"

definition omp_lineCount :: "string \<Rightarrow> nat" where
  "omp_lineCount content =
     (if content = [] then 0
      else length (split_on newline content) - (if endsWith content [newline] then 1 else 0))"

definition omp_reminderContent :: "string \<Rightarrow> nat \<Rightarrow> nat \<Rightarrow> string \<Rightarrow> string" where
  "omp_reminderContent filePath lines limit sfx =
     ''<system-reminder>'' @ [newline] @
     ''File-length reminder: '' @ json_quote filePath @ '' is now '' @ show_nat lines @
     '' lines, over the '' @ show_nat limit @ ''-line cap for '' @ sfx @ '' source files. '' @
     ''The edit succeeded; this is advisory. Split the file along genuine responsibility seams into focused modules. '' @
     ''Do not compress formatting or create continuation files merely to satisfy the cap, and follow any tighter project-specific limit.'' @
     [newline] @ ''</system-reminder>''"

text \<open>\<open>ctx_cwd\<close> is the directory the event's context carries.\<close>

definition omp_on_tool_result ::
  "string \<Rightarrow> string \<Rightarrow> (string \<Rightarrow> string result) \<Rightarrow> bool \<Rightarrow> tool_result \<Rightarrow> reminder_state \<Rightarrow> reminder_state" where
  "omp_on_tool_result process_cwd ctx_cwd readText sends event st =
     (if tr_isError event then st
      else if tr_toolName event \<noteq> ''edit'' \<and> tr_toolName event \<noteq> ''write'' then st
      else (case tr_path event of
        Some (JStr rawPath) \<Rightarrow>
          if rawPath = [] then st
          else (let resolvedPath = (if isAbsolute rawPath then path_resolve process_cwd [rawPath]
                                    else path_resolve process_cwd [ctx_cwd, rawPath]) in
            (case omp_lineLimit resolvedPath of
               None \<Rightarrow> st
             | Some (limit, sfx) \<Rightarrow>
                 (case readText resolvedPath of
                    Inl _ \<Rightarrow> st
                  | Inr content \<Rightarrow>
                      (let lines = omp_lineCount content in
                       if lines \<le> limit
                         then st\<lparr>rs_reminded := removeAll resolvedPath (rs_reminded st)\<rparr>
                       else if resolvedPath \<in> set (rs_reminded st) then st
                       else if \<not> sends then st
                       else st\<lparr>rs_messages := rs_messages st @
                                 [(resolvedPath, omp_reminderContent resolvedPath lines limit sfx)],
                               rs_reminded := rs_reminded st @ [resolvedPath]\<rparr>))))
      | _ \<Rightarrow> st))"

datatype omp_event =
    OmpSessionStart
  | OmpAgentEnd "bool option"
  | OmpToolResult file_host tool_result string

definition omp_step :: "omp_event \<Rightarrow> reminder_state \<Rightarrow> reminder_state" where
  "omp_step ev st =
     (case ev of
        OmpSessionStart \<Rightarrow> reset_reminders st
      | OmpAgentEnd willContinue \<Rightarrow> if willContinue \<noteq> Some True then reset_reminders st else st
      | OmpToolResult h event ctx_cwd \<Rightarrow>
          omp_on_tool_result (fh_process_cwd h) ctx_cwd (fh_readText h) (fh_sends h) event st)"

text \<open>The event of the first copy an event stands for; an agent that goes on is no event there.\<close>

definition as_pi_event :: "omp_event \<Rightarrow> pi_event list" where
  "as_pi_event ev =
     (case ev of
        OmpSessionStart \<Rightarrow> [PiSessionStart]
      | OmpAgentEnd willContinue \<Rightarrow> if willContinue = Some True then [] else [PiAgentSettled]
      | OmpToolResult h event ctx_cwd \<Rightarrow> [PiToolResult (h\<lparr>fh_getCwd := Inr ctx_cwd\<rparr>) event])"

lemma omp_lineLimit_eq: "omp_lineLimit = lineLimit"
  unfolding omp_lineLimit_def lineLimit_def omp_SOURCE_SUFFIXES_def SOURCE_SUFFIXES_def
    omp_SOURCE_LINE_LIMITS_def SOURCE_LINE_LIMITS_def DEFAULT_SOURCE_LINE_LIMIT_def by (rule refl)

lemma omp_helpers_eq: "omp_lineCount = lineCount" "omp_reminderContent = reminderContent"
  by (intro ext; simp add: omp_lineCount_def lineCount_def)
    (intro ext; simp add: omp_reminderContent_def reminderContent_def)

lemma omp_step_eq: "omp_step ev st = fold pi_step (as_pi_event ev) st"
proof (cases ev)
  case (OmpToolResult h event ctx_cwd)
  then show ?thesis
    unfolding omp_step_def as_pi_event_def pi_step_def omp_on_tool_result_def on_tool_result_def
      resolved_event_path_def omp_lineLimit_eq omp_helpers_eq
    by (auto simp: Let_def split: option.splits json.splits sum.splits)
qed (auto simp: omp_step_def as_pi_event_def pi_step_def)

text \<open>
  The two copies of the reminder agree: on every run of events they send the same messages and
  remember the same paths, an agent that will continue counting as no event.
\<close>

theorem omp_reminders_agree:
  "fold omp_step evs st = fold pi_step (concat (map as_pi_event evs)) st"
  by (induction evs arbitrary: st) (simp_all add: omp_step_eq)

end
