(* ===== verification/Platform.thy ===== *)
theory Platform
  imports NodePath
begin

text \<open>
  The outside world the git components act on: commands through \<open>pi.exec\<close> and the file system,
  each call recorded in the trace. What a call answers is the platform's; it may throw.
\<close>

datatype lstat = Absent | Symlink | NotSymlink

record 'w platform =
  pf_exec :: "exec_call \<Rightarrow> ('w, exec_result) io"
  pf_lstat :: "string \<Rightarrow> ('w, lstat) io"
  pf_exists :: "string \<Rightarrow> ('w, bool) io"
  pf_isDirectory :: "string \<Rightarrow> ('w, bool) io"
  pf_mkdir :: "string \<Rightarrow> ('w, unit) io"
  pf_rm :: "string \<Rightarrow> ('w, unit) io"
  pf_rmdir :: "string \<Rightarrow> ('w, unit) io"
  pf_cwd :: string
  pf_home :: string
  pf_env :: env

datatype host_event =
    EvExec exec_call "exec_result result"
  | EvMkdir string
  | EvRm string
  | EvRmdir string

type_synonym ('w, 'a) host_io = "(('w, host_event) tworld, 'a) io"

definition pexec :: "'w platform \<Rightarrow> exec_call \<Rightarrow> ('w, exec_result) host_io" where
  "pexec pf c = traced (pf_exec pf c) (EvExec c)"

definition plstat :: "'w platform \<Rightarrow> string \<Rightarrow> ('w, lstat) host_io" where
  "plstat pf p = untraced (pf_lstat pf p)"

definition pexists :: "'w platform \<Rightarrow> string \<Rightarrow> ('w, bool) host_io" where
  "pexists pf p = untraced (pf_exists pf p)"

definition pisDirectory :: "'w platform \<Rightarrow> string \<Rightarrow> ('w, bool) host_io" where
  "pisDirectory pf p = untraced (pf_isDirectory pf p)"

definition pmkdir :: "'w platform \<Rightarrow> string \<Rightarrow> ('w, unit) host_io" where
  "pmkdir pf p = traced (pf_mkdir pf p) (\<lambda>_. EvMkdir p)"

definition prm :: "'w platform \<Rightarrow> string \<Rightarrow> ('w, unit) host_io" where
  "prm pf p = traced (pf_rm pf p) (\<lambda>_. EvRm p)"

definition prmdir :: "'w platform \<Rightarrow> string \<Rightarrow> ('w, unit) host_io" where
  "prmdir pf p = traced (pf_rmdir pf p) (\<lambda>_. EvRmdir p)"

text \<open>\<open>git\<close> with arguments, from the process's directory.\<close>

definition git_call :: "string list \<Rightarrow> exec_call" where
  "git_call args = \<lparr>xc_command = ''git'', xc_args = args, xc_cwd = None\<rparr>"

lemma git_call_inject [simp]: "git_call a = git_call b \<longleftrightarrow> a = b"
  by (simp add: git_call_def)

definition resolve :: "'w platform \<Rightarrow> string \<Rightarrow> string" where
  "resolve pf p = path_resolve (pf_cwd pf) [p]"

definition worktreesRoot :: "'w platform \<Rightarrow> string" where
  "worktreesRoot pf =
     (case getBasecampEnv (pf_env pf) ''BASECAMP_WORKTREES_ROOT'' of
        Some r \<Rightarrow> r | None \<Rightarrow> path_join [pf_home pf, ''.worktrees''])"

lemma resolve_resolve_pf [simp]: "resolve pf (resolve pf p) = resolve pf p"
  by (simp add: resolve_def)

section \<open>Stable assertions on the trace\<close>

text \<open>
  \<open>stable I m\<close>: the program leaves the trace in \<open>I\<close> if it finds it there, whether it returns or
  throws. \<open>keeps I c\<close>: a command may be added to a trace in \<open>I\<close> whatever it answers.
\<close>

named_theorems stable_intros \<open>programs that keep an assertion on the trace\<close>

definition stable :: "(host_event list \<Rightarrow> bool) \<Rightarrow> ('w, 'a) host_io \<Rightarrow> bool" where
  "stable I m \<longleftrightarrow> hoare (on_log I) m (\<lambda>_. on_log I) (on_log I)"

definition keeps :: "(host_event list \<Rightarrow> bool) \<Rightarrow> exec_call \<Rightarrow> bool" where
  "keeps I c \<longleftrightarrow> (\<forall>l r. I l \<longrightarrow> I (l @ [EvExec c r]))"

definition keeps_writes :: "(host_event list \<Rightarrow> bool) \<Rightarrow> bool" where
  "keeps_writes I \<longleftrightarrow> (\<forall>l p. I l \<longrightarrow> I (l @ [EvMkdir p]) \<and> I (l @ [EvRm p]) \<and> I (l @ [EvRmdir p]))"

lemma stable_basic [stable_intros]:
  "stable I (io_return x)" "stable I (io_throw e)"
  "stable I m \<Longrightarrow> (\<And>x. stable I (f x)) \<Longrightarrow> stable I (io_bind m f)"
  "stable I n \<Longrightarrow> (\<And>e. stable I (h e)) \<Longrightarrow> stable I (io_catch n h)"
  "stable I k \<Longrightarrow> stable I c \<Longrightarrow> stable I (io_finally k c)"
  "stable I c \<Longrightarrow> stable I (io_ignore c)"
  unfolding stable_def
  by (auto intro!: hoare_basic hoare_finally hoare_ignore intro: hoare_weaken)

lemma stable_foldl [stable_intros]:
  "(\<And>acc x. x \<in> set xs \<Longrightarrow> stable I (f acc x)) \<Longrightarrow> stable I (io_foldl f acc xs)"
  unfolding stable_def by (rule hoare_foldl)

lemma stable_if [stable_intros]:
  "(b \<Longrightarrow> stable I m) \<Longrightarrow> (\<not> b \<Longrightarrow> stable I m') \<Longrightarrow> stable I (if b then m else m')"
  by simp

lemma stable_option [stable_intros]:
  "(x = None \<Longrightarrow> stable I m) \<Longrightarrow> (\<And>y. x = Some y \<Longrightarrow> stable I (f y)) \<Longrightarrow>
   stable I (case x of None \<Rightarrow> m | Some y \<Rightarrow> f y)"
  by (cases x) auto

lemma stable_list [stable_intros]:
  "stable I m \<Longrightarrow> (\<And>y ys. stable I (f y ys)) \<Longrightarrow> stable I (case x of [] \<Rightarrow> m | y # ys \<Rightarrow> f y ys)"
  by (cases x) auto

lemma stable_prod [stable_intros]: "(\<And>a b. stable I (f a b)) \<Longrightarrow> stable I (case x of (a, b) \<Rightarrow> f a b)"
  by (cases x) auto

lemma stable_let [stable_intros]: "stable I (f x) \<Longrightarrow> stable I (let y = x in f y)"
  by simp

lemma stable_pexec [stable_intros]: "keeps I c \<Longrightarrow> stable I (pexec pf c)"
  unfolding stable_def pexec_def by (rule hoare_traced) (auto simp: keeps_def)

lemma stable_reads [stable_intros]:
  "stable I (plstat pf p)" "stable I (pexists pf p)" "stable I (pisDirectory pf p)"
  unfolding stable_def plstat_def pexists_def pisDirectory_def by (rule hoare_untraced; simp)+

lemma stable_writes [stable_intros]:
  assumes "keeps_writes I"
  shows "stable I (pmkdir pf p)" "stable I (prm pf p)" "stable I (prmdir pf p)"
  using assms unfolding stable_def pmkdir_def prm_def prmdir_def keeps_writes_def
  by (auto intro!: hoare_traced)

lemma stable_untraced [stable_intros]: "stable I (untraced m)"
  unfolding stable_def by (rule hoare_untraced; simp)

lemma stable_lift [stable_intros]: "stable I (io_lift r)"
  by (simp add: stable_def hoare_def io_simps split: sum.splits)

lemma stable_conv: "hoare (on_log I) m (\<lambda>_. on_log I) (on_log I) = stable I m"
  by (simp add: stable_def)

lemma stable_run: "stable I m \<Longrightarrow> I (tw_log t) \<Longrightarrow> I (tw_log (snd (m t)))"
  unfolding stable_def using hoare_world [of "on_log I" m t] by simp

lemma stable_runs: "stable I m \<Longrightarrow> I (tw_log t) \<Longrightarrow> m t = (r, t') \<Longrightarrow> I (tw_log t')"
  using stable_run [of I m t] by simp

section \<open>Guarded commands\<close>

text \<open>
  \<open>guarded D ok l\<close>: every command of the dangerous kind \<open>D\<close> in the trace was run when the trace
  before it gave the grounds \<open>ok\<close>.
\<close>

fun guarded_from ::
  "(exec_call \<Rightarrow> bool) \<Rightarrow> (host_event list \<Rightarrow> exec_call \<Rightarrow> bool) \<Rightarrow> host_event list \<Rightarrow> host_event list \<Rightarrow> bool" where
  "guarded_from D ok l [] = True"
| "guarded_from D ok l (EvExec c r # s) = ((D c \<longrightarrow> ok l c) \<and> guarded_from D ok (l @ [EvExec c r]) s)"
| "guarded_from D ok l (e # s) = guarded_from D ok (l @ [e]) s"

definition guarded :: "(exec_call \<Rightarrow> bool) \<Rightarrow> (host_event list \<Rightarrow> exec_call \<Rightarrow> bool) \<Rightarrow> host_event list \<Rightarrow> bool" where
  "guarded D ok l = guarded_from D ok [] l"

lemma guarded_from_append [simp]:
  "guarded_from D ok l (s @ s') \<longleftrightarrow> guarded_from D ok l s \<and> guarded_from D ok (l @ s) s'"
  by (induction D ok l s rule: guarded_from.induct) auto

lemma guarded_append: "guarded D ok (l @ s) \<longleftrightarrow> guarded D ok l \<and> guarded_from D ok l s"
  by (simp add: guarded_def)

lemma guarded_Nil [simp]: "guarded D ok []"
  by (simp add: guarded_def)

lemma guarded_snoc [simp]:
  "guarded D ok (l @ [EvExec c r]) \<longleftrightarrow> guarded D ok l \<and> (D c \<longrightarrow> ok l c)"
  "guarded D ok (l @ [EvMkdir p]) \<longleftrightarrow> guarded D ok l"
  "guarded D ok (l @ [EvRm p]) \<longleftrightarrow> guarded D ok l"
  "guarded D ok (l @ [EvRmdir p]) \<longleftrightarrow> guarded D ok l"
  by (simp_all add: guarded_def)

lemma guarded_keeps [intro]: "\<not> D c \<Longrightarrow> keeps (guarded D ok) c"
  by (simp add: keeps_def)

lemma guarded_keeps_writes [simp]: "keeps_writes (guarded D ok)"
  by (simp add: keeps_writes_def)

text \<open>The git subcommand of a call of the form \<open>git -C dir verb ...\<close>, two words of it.\<close>

definition git_verb :: "exec_call \<Rightarrow> string list" where
  "git_verb c = (if xc_command c = ''git'' then take 2 (drop 2 (xc_args c)) else [])"

lemma git_verb_call [simp]: "git_verb (git_call (f # d # args)) = take 2 args"
  by (simp add: git_verb_def git_call_def)

end
