(* ===== verification/Repo.thy ===== *)
theory Repo
  imports Platform
begin

text \<open>
  Queries on a git repository (\<open>pi/core/git/repo.ts\<close>, \<open>pr-status.ts\<close>): the output of a command,
  the default branch, branch tips and ancestry, cleanliness, snapshot commits, the identity of a
  repository, and its pull request. Parsing a URL is the host's.
\<close>

section \<open>Commands\<close>

definition gitOutput :: "'w platform \<Rightarrow> string \<Rightarrow> string list \<Rightarrow> ('w, string) host_io" where
  "gitOutput pf repoRoot args =
     io_bind (pexec pf (git_call ([''-C'', repoRoot] @ args))) (\<lambda>result.
       if ex_code result \<noteq> 0
       then io_throw (string_or (trim (ex_stderr result)) (''git '' @ join '' '' args @ '' failed''))
       else io_return (trim (ex_stdout result)))"

definition tryGitOutput :: "'w platform \<Rightarrow> string \<Rightarrow> string list \<Rightarrow> ('w, string option) host_io" where
  "tryGitOutput pf repoRoot args =
     io_catch (io_bind (gitOutput pf repoRoot args) (\<lambda>s. io_return (Some s))) (\<lambda>_. io_return None)"

definition truthy_str :: "string option \<Rightarrow> bool" where
  "truthy_str s = (case s of None \<Rightarrow> False | Some v \<Rightarrow> v \<noteq> [])"

definition detectDefaultBranch :: "'w platform \<Rightarrow> string \<Rightarrow> ('w, string) host_io" where
  "detectDefaultBranch pf repoRoot =
     io_bind (tryGitOutput pf repoRoot [''symbolic-ref'', ''--quiet'', ''--short'', ''refs/remotes/origin/HEAD''])
       (\<lambda>originHead.
        if (case originHead of None \<Rightarrow> False | Some h \<Rightarrow> startsWith h ''origin/'')
        then io_return (slice_from (the originHead) (length ''origin/''))
        else
          io_bind (tryGitOutput pf repoRoot [''rev-parse'', ''--verify'', ''main'']) (\<lambda>main.
            if truthy_str main then io_return ''main''
            else io_bind (tryGitOutput pf repoRoot [''rev-parse'', ''--verify'', ''master'']) (\<lambda>master.
              if truthy_str master then io_return ''master''
              else io_throw ''Could not determine default branch (expected origin/HEAD, main, or master)'')))"

definition resolveReviewBase :: "'w platform \<Rightarrow> string \<Rightarrow> ('w, string) host_io" where
  "resolveReviewBase pf repoRoot =
     io_bind (detectDefaultBranch pf repoRoot) (\<lambda>defaultBranch.
       let remote = ''origin/'' @ defaultBranch in
       io_bind (tryGitOutput pf repoRoot [''rev-parse'', ''--verify'', remote]) (\<lambda>found.
         gitOutput pf repoRoot
           [''merge-base'', if truthy_str found then remote else defaultBranch, ''HEAD'']))"

definition branchExists :: "'w platform \<Rightarrow> string \<Rightarrow> string \<Rightarrow> ('w, bool) host_io" where
  "branchExists pf repoRoot branch =
     io_bind (tryGitOutput pf repoRoot [''rev-parse'', ''--verify'', ''refs/heads/'' @ branch])
       (\<lambda>out. io_return (out \<noteq> None))"

definition branchTip :: "'w platform \<Rightarrow> string \<Rightarrow> string \<Rightarrow> ('w, string option) host_io" where
  "branchTip pf repoRoot branch =
     tryGitOutput pf repoRoot [''rev-parse'', ''--verify'', ''--quiet'', ''refs/heads/'' @ branch]"

definition isMergedInto :: "'w platform \<Rightarrow> string \<Rightarrow> string \<Rightarrow> string \<Rightarrow> ('w, bool) host_io" where
  "isMergedInto pf repoRoot branch candidate =
     io_bind (pexec pf (git_call [''-C'', repoRoot, ''merge-base'', ''--is-ancestor'', branch, candidate]))
       (\<lambda>result. io_return (ex_code result = 0))"

text \<open>\<open>isWorktreeClean\<close> of \<open>repo.ts\<close>, which throws when git fails; the lease's own variant does not.\<close>

definition repo_isWorktreeClean :: "'w platform \<Rightarrow> string \<Rightarrow> ('w, bool) host_io" where
  "repo_isWorktreeClean pf worktreeDir =
     io_bind (gitOutput pf worktreeDir [''status'', ''--porcelain'']) (\<lambda>out. io_return (out = []))"

text \<open>\<open>indexFile\<close> is the temporary path minted for the throw-away index.\<close>

definition snapshot_call :: "string \<Rightarrow> string \<Rightarrow> string list \<Rightarrow> exec_call" where
  "snapshot_call indexFile worktreeDir args =
     \<lparr>xc_command = ''env'', xc_args = [''GIT_INDEX_FILE='' @ indexFile, ''git'', ''-C'', worktreeDir] @ args,
      xc_cwd = None\<rparr>"

definition snapshot_run :: "'w platform \<Rightarrow> string \<Rightarrow> string \<Rightarrow> string list \<Rightarrow> ('w, string) host_io" where
  "snapshot_run pf indexFile worktreeDir args =
     io_bind (pexec pf (snapshot_call indexFile worktreeDir args)) (\<lambda>result.
       if ex_code result \<noteq> 0
       then io_throw (''Snapshot commit failed (git '' @ hd args @ ''): '' @ trim (ex_stderr result))
       else io_return (trim (ex_stdout result)))"

definition createSnapshotCommit :: "'w platform \<Rightarrow> string \<Rightarrow> string \<Rightarrow> ('w, string) host_io" where
  "createSnapshotCommit pf indexFile worktreeDir =
     (let run = snapshot_run pf indexFile worktreeDir in
      io_finally
        (io_bind (run [''read-tree'', ''HEAD'']) (\<lambda>_.
         io_bind (run [''add'', ''-A'']) (\<lambda>_.
         io_bind (run [''write-tree'']) (\<lambda>tree.
         run [''commit-tree'', tree, ''-p'', ''HEAD'', ''-m'', ''basecamp dispatch snapshot'']))))
        (prm pf indexFile))"

section \<open>Identity\<close>

text \<open>
  \<open>/^[^/]+@[^/:]+:(.+)$/\<close>: the path of \<open>user@host:path\<close>. The engine tries the last \<open>@\<close> first.
\<close>

definition scp_at :: "string \<Rightarrow> nat \<Rightarrow> string option" where
  "scp_at s i =
     (let host = takeWhile (\<lambda>c. c \<noteq> CHR ''/'' \<and> c \<noteq> CHR '':'') (drop (i + 1) s);
          rest = drop (i + 1 + length host) s
      in if 0 < i \<and> i < length s \<and> s ! i = CHR ''@'' \<and> CHR ''/'' \<notin> set (take i s) \<and> host \<noteq> []
            \<and> rest \<noteq> [] \<and> hd rest = CHR '':'' \<and> tl rest \<noteq> []
            \<and> list_all (\<lambda>c. c \<noteq> CHR 0x0A \<and> c \<noteq> CHR 0x0D) (tl rest)
         then Some (tl rest) else None)"

definition scp_path :: "string \<Rightarrow> string option" where
  "scp_path s = (case find (\<lambda>i. scp_at s i \<noteq> None) (rev [0..<length s]) of
     None \<Rightarrow> None | Some i \<Rightarrow> scp_at s i)"

definition strip_git :: "string \<Rightarrow> string" where
  "strip_git s = (if endsWith s ''.git'' then take (length s - 4) s else s)"

definition identity_of_path :: "string \<Rightarrow> string \<Rightarrow> string" where
  "identity_of_path pathPart fallbackBasename =
     (let normalizedPath =
            strip_git (rev (dropWhile (\<lambda>c. c = slash) (rev (dropWhile (\<lambda>c. c = slash) pathPart))));
          segments = filter (\<lambda>s. s \<noteq> []) (split_on slash normalizedPath)
      in if length segments \<ge> 2 then
           (let owner = segments ! (length segments - 2); repo = segments ! (length segments - 1)
            in if owner \<noteq> ''.'' \<and> owner \<noteq> ''..'' \<and> repo \<noteq> ''.'' \<and> repo \<noteq> ''..''
               then owner @ ''/'' @ repo else fallbackBasename)
         else fallbackBasename)"

text \<open>\<open>parse_url\<close> gives the host and path of a URL, or \<open>None\<close> where \<open>new URL\<close> throws.\<close>

definition remote_path :: "(string \<Rightarrow> (string \<times> string) option) \<Rightarrow> string \<Rightarrow> string option" where
  "remote_path parse_url remote =
     (case scp_path remote of
        Some p \<Rightarrow> Some p
      | None \<Rightarrow> (case parse_url remote of
                   None \<Rightarrow> None
                 | Some (hostname, pathname) \<Rightarrow> if hostname = [] then None else Some pathname))"

definition deriveRepoIdentity ::
  "(string \<Rightarrow> (string \<times> string) option) \<Rightarrow> string option \<Rightarrow> string \<Rightarrow> string" where
  "deriveRepoIdentity parse_url remoteUrl fallbackBasename =
     (let trimmedRemoteUrl = (case remoteUrl of None \<Rightarrow> [] | Some u \<Rightarrow> trim u) in
      if trimmedRemoteUrl = [] then fallbackBasename
      else (let pathPart = remote_path parse_url trimmedRemoteUrl
            in if \<not> truthy_str pathPart then fallbackBasename
               else identity_of_path (the pathPart) fallbackBasename))"

record git_info =
  gi_repoName :: string
  gi_isRepo :: bool
  gi_remoteUrl :: "string option"
  gi_toplevel :: "string option"
  gi_mainRoot :: "string option"
  gi_isLinkedWorktree :: bool

definition not_a_repo :: "string \<Rightarrow> git_info" where
  "not_a_repo cwd = \<lparr>gi_repoName = basename cwd, gi_isRepo = False, gi_remoteUrl = None,
     gi_toplevel = None, gi_mainRoot = None, gi_isLinkedWorktree = False\<rparr>"

definition git_in :: "string \<Rightarrow> string list \<Rightarrow> exec_call" where
  "git_in cwd args = \<lparr>xc_command = ''git'', xc_args = args, xc_cwd = Some cwd\<rparr>"

definition nonblank_lines :: "string \<Rightarrow> string list" where
  "nonblank_lines s = filter (\<lambda>l. l \<noteq> []) (map trim (split_on (CHR 0x0A) s))"

text \<open>The main root and whether the directory is a linked worktree; a failure reads as neither.\<close>

definition resolve_git_dirs :: "'w platform \<Rightarrow> string \<Rightarrow> string \<Rightarrow> ('w, string \<times> bool) host_io" where
  "resolve_git_dirs pf cwd toplevel =
     io_catch
       (io_bind (pexec pf (git_in cwd [''rev-parse'', ''--git-dir'', ''--git-common-dir''])) (\<lambda>gitDirs.
          case nonblank_lines (ex_stdout gitDirs) of
            gitDirLine # commonDirLine # _ \<Rightarrow>
              if ex_code gitDirs = 0 then
                (let gitDir = path_resolve (pf_cwd pf) [cwd, gitDirLine];
                     commonDir = path_resolve (pf_cwd pf) [cwd, commonDirLine]
                 in io_return (if gitDir \<noteq> commonDir then dirname commonDir else toplevel, gitDir \<noteq> commonDir))
              else io_return (toplevel, False)
          | _ \<Rightarrow> io_return (toplevel, False)))
       (\<lambda>_. io_return (toplevel, False))"

definition resolve_remote :: "'w platform \<Rightarrow> string \<Rightarrow> ('w, string option) host_io" where
  "resolve_remote pf toplevel =
     io_catch
       (io_bind (pexec pf (git_call [''-C'', toplevel, ''remote'', ''get-url'', ''origin''])) (\<lambda>remote.
          io_return (if ex_code remote = 0 \<and> trim (ex_stdout remote) \<noteq> []
                     then Some (trim (ex_stdout remote)) else None)))
       (\<lambda>_. io_return None)"

definition resolveGitInfo ::
  "(string \<Rightarrow> (string \<times> string) option) \<Rightarrow> 'w platform \<Rightarrow> string \<Rightarrow> ('w, git_info) host_io" where
  "resolveGitInfo parse_url pf dir =
     (let cwd = resolve pf dir in
      io_catch
        (io_bind (pexec pf (git_in cwd [''rev-parse'', ''--show-toplevel''])) (\<lambda>result.
           if ex_code result \<noteq> 0 \<or> trim (ex_stdout result) = [] then io_return (not_a_repo cwd)
           else (let toplevel = resolve pf (trim (ex_stdout result)) in
             io_bind (resolve_git_dirs pf cwd toplevel) (\<lambda>(mainRoot, isLinkedWorktree).
             io_bind (resolve_remote pf toplevel) (\<lambda>remoteUrl.
               io_return \<lparr>gi_repoName = deriveRepoIdentity parse_url remoteUrl (basename toplevel),
                 gi_isRepo = True, gi_remoteUrl = remoteUrl, gi_toplevel = Some toplevel,
                 gi_mainRoot = Some mainRoot, gi_isLinkedWorktree = isLinkedWorktree\<rparr>)))))
        (\<lambda>_. io_return (not_a_repo cwd)))"

section \<open>Pull requests\<close>

datatype pr_state = PrOpen | PrMerged | PrClosed

definition PR_STATES :: "(string \<times> pr_state) list" where
  "PR_STATES = [(''OPEN'', PrOpen), (''MERGED'', PrMerged), (''CLOSED'', PrClosed)]"

record pr_status =
  prs_number :: int
  prs_url :: string
  prs_state :: pr_state
  prs_isDraft :: bool

record parsed_url =
  pu_protocol :: string
  pu_hostname :: string
  pu_username :: string
  pu_password :: string
  pu_href :: string

definition parsePullRequestUrl :: "(string \<Rightarrow> parsed_url option) \<Rightarrow> json option \<Rightarrow> string option" where
  "parsePullRequestUrl new_url v =
     (case v of
        Some (JStr s) \<Rightarrow>
          (case new_url s of
             None \<Rightarrow> None
           | Some url \<Rightarrow>
               if (pu_protocol url \<noteq> ''https:'' \<and> pu_protocol url \<noteq> ''http:'') \<or> pu_hostname url = [] then None
               else if pu_username url \<noteq> [] \<or> pu_password url \<noteq> [] then None
               else Some (pu_href url))
      | _ \<Rightarrow> None)"

definition parsePullRequestStatus ::
  "(string \<Rightarrow> parsed_url option) \<Rightarrow> (string \<Rightarrow> json option) \<Rightarrow> string \<Rightarrow> pr_status option" where
  "parsePullRequestStatus new_url parse_json out =
     (case parse_json out of
        None \<Rightarrow> None
      | Some v \<Rightarrow>
          if \<not> isRecord v then None
          else if \<not> is_integer (field v ''number'') \<or> int_of (field v ''number'') \<le> 0 then None
          else if \<not> is_string (field v ''state'') then None
          else (case map_of PR_STATES (str_of (field v ''state'')) of
            None \<Rightarrow> None
          | Some state \<Rightarrow>
              if \<not> is_boolean (field v ''isDraft'') then None
              else (case parsePullRequestUrl new_url (field v ''url'') of
                None \<Rightarrow> None
              | Some url \<Rightarrow>
                  if url = [] then None
                  else Some \<lparr>prs_number = int_of (field v ''number''), prs_url = url,
                             prs_state = state, prs_isDraft = bool_of (field v ''isDraft'')\<rparr>)))"

definition lookupPullRequestStatus ::
  "(string \<Rightarrow> parsed_url option) \<Rightarrow> (string \<Rightarrow> json option) \<Rightarrow> 'w platform \<Rightarrow> string
    \<Rightarrow> ('w, pr_status option) host_io" where
  "lookupPullRequestStatus new_url parse_json pf cwd =
     io_catch
       (io_bind (pexec pf \<lparr>xc_command = ''gh'', xc_args = [''pr'', ''view'', ''--json'', ''number,url,state,isDraft''],
                           xc_cwd = Some cwd\<rparr>) (\<lambda>result.
          if ex_code result \<noteq> 0 then io_return None
          else io_return (parsePullRequestStatus new_url parse_json (trim (ex_stdout result)))))
       (\<lambda>_. io_return None)"

section \<open>Assertions the queries keep\<close>

text \<open>\<open>keeps_git I vs\<close>: any git command whose first words are not among \<open>vs\<close> keeps \<open>I\<close>.\<close>

definition keeps_git :: "string list list \<Rightarrow> (host_event list \<Rightarrow> bool) \<Rightarrow> bool" where
  "keeps_git vs I \<longleftrightarrow> (\<forall>c. git_verb c \<notin> set vs \<longrightarrow> keeps I c)"

text \<open>The commands that change worktrees, locks and branches.\<close>

definition changing_verbs :: "string list list" where
  "changing_verbs = [[''worktree'', ''add''], [''worktree'', ''remove''], [''worktree'', ''lock''],
     [''worktree'', ''unlock''], [''worktree'', ''move''], [''branch'', ''-D'']]"

definition mild :: "(host_event list \<Rightarrow> bool) \<Rightarrow> bool" where
  "mild I \<longleftrightarrow> keeps_git changing_verbs I \<and> keeps_writes I"

lemma mild_git [stable_intros]:
  "mild I \<Longrightarrow> take 2 args \<notin> set changing_verbs \<Longrightarrow> keeps I (git_call (f # d # args))"
  by (simp add: mild_def keeps_git_def)

lemma mild_other:
  "mild I \<Longrightarrow> xc_command c \<noteq> ''git'' \<Longrightarrow> keeps I c"
  by (auto simp: mild_def keeps_git_def git_verb_def changing_verbs_def)

lemma mild_snapshot [stable_intros]: "mild I \<Longrightarrow> keeps I (snapshot_call x d args)"
  by (rule mild_other) (simp_all add: snapshot_call_def)

lemma mild_guarded: "(\<And>c. D c \<Longrightarrow> git_verb c \<in> set changing_verbs) \<Longrightarrow> mild (guarded D ok)"
  by (auto simp: mild_def keeps_git_def)

lemma mild_writes [stable_intros]: "mild I \<Longrightarrow> keeps_writes I"
  by (simp add: mild_def)

lemmas verb_simps = changing_verbs_def

lemma stable_gitOutput [stable_intros]:
  "keeps I (git_call (''-C'' # repoRoot # args)) \<Longrightarrow> stable I (gitOutput pf repoRoot args)"
  unfolding gitOutput_def by (auto intro!: stable_intros)

lemma stable_tryGitOutput [stable_intros]:
  "keeps I (git_call (''-C'' # repoRoot # args)) \<Longrightarrow> stable I (tryGitOutput pf repoRoot args)"
  unfolding tryGitOutput_def by (auto intro!: stable_intros)

lemma stable_queries [stable_intros]:
  assumes "mild I"
  shows "stable I (detectDefaultBranch pf root)" "stable I (branchExists pf root b)"
    "stable I (branchTip pf root b)" "stable I (isMergedInto pf root b c)"
    "stable I (repo_isWorktreeClean pf d)" "stable I (createSnapshotCommit pf x d)"
  using assms
  unfolding detectDefaultBranch_def branchExists_def branchTip_def isMergedInto_def
    repo_isWorktreeClean_def createSnapshotCommit_def snapshot_run_def
  by (auto intro!: stable_intros simp: verb_simps)

section \<open>Property\<close>

lemma segments_normal:
  "s \<in> set (filter (\<lambda>s. s \<noteq> []) (split_on slash p)) \<Longrightarrow> s \<noteq> ''.'' \<Longrightarrow> s \<noteq> ''..'' \<Longrightarrow> normal_seg s"
  by (auto simp: normal_seg_def dest: split_on_parts)

lemma identity_of_path_cases:
  "identity_of_path p fb = fb \<or>
   (\<exists>owner repo. normal_seg owner \<and> normal_seg repo \<and> identity_of_path p fb = owner @ ''/'' @ repo)"
proof -
  have "normal_seg (ss ! (length ss - k))"
    if "length ss \<ge> 2" "k \<in> {1, 2}" "ss ! (length ss - k) \<noteq> ''.''" "ss ! (length ss - k) \<noteq> ''..''"
      "ss = filter (\<lambda>s. s \<noteq> []) (split_on slash p)" for ss p k
  proof -
    have "ss ! (length ss - k) \<in> set ss" using that(1,2) by (intro nth_mem) auto
    then show ?thesis using that(3-5) segments_normal [of _ p] by blast
  qed
  then show ?thesis unfolding identity_of_path_def Let_def by simp blast
qed

lemma deriveRepoIdentity_cases:
  "deriveRepoIdentity parse_url remoteUrl fb = fb \<or>
   (\<exists>owner repo. normal_seg owner \<and> normal_seg repo \<and>
      deriveRepoIdentity parse_url remoteUrl fb = owner @ ''/'' @ repo)"
  using identity_of_path_cases unfolding deriveRepoIdentity_def Let_def by simp

text \<open>
  C40. A repository's identity cannot escape the worktrees root: whatever the remote's URL, it is the
  fallback name or an owner and a repository of one path segment each, neither a dot nor two, so
  that resolving it under any directory adds exactly those two segments.
\<close>

theorem repo_identity_confined:
  "deriveRepoIdentity parse_url remoteUrl fb = fb \<or>
   (\<exists>owner repo. normal_seg owner \<and> normal_seg repo \<and>
      deriveRepoIdentity parse_url remoteUrl fb = owner @ ''/'' @ repo \<and>
      resolve_segs cwd [root, deriveRepoIdentity parse_url remoteUrl fb] =
        resolve_segs cwd [root] @ [owner, repo])"
proof -
  have "resolve_segs cwd [root, owner @ ''/'' @ repo] = resolve_segs cwd [root] @ [owner, repo]"
    if "normal_seg owner" "normal_seg repo" for owner repo
    using resolve_segs_join [of "[owner, repo]" cwd root] that by (simp add: normal_segs_def)
  then show ?thesis using deriveRepoIdentity_cases [of parse_url remoteUrl fb] by auto
qed

end
