(* ===== verification/Worktrees.thy ===== *)
theory Worktrees
  imports Repo
begin

text \<open>
  Worktrees of a repository (\<open>pi/core/git/worktrees/crud.ts\<close>): reading git's listing, labels and
  their paths, the validations, attaching a worktree, creating or reusing one, and finding a
  free label.
\<close>

section \<open>The listing\<close>

record worktree_record =
  wr_path :: string
  wr_branch :: "string option"
  wr_locked :: bool
  wr_lockReason :: "string option"

record worktree_result =
  wo_worktreeDir :: string
  wo_label :: string
  wo_branch :: string
  wo_created :: bool

record worktree_summary =
  wm_label :: string
  wm_path :: string
  wm_branch :: string

definition strip_heads :: "string \<Rightarrow> string" where
  "strip_heads ref =
     (if startsWith ref ''refs/heads/'' then slice_from ref (length ''refs/heads/'') else ref)"

text \<open>One line of the listing: the finished records and the current one.\<close>

definition list_line ::
  "worktree_record list \<times> worktree_record option \<Rightarrow> string \<Rightarrow> worktree_record list \<times> worktree_record option" where
  "list_line st line =
     (case st of (records, current) \<Rightarrow>
        if trim line = [] then
          (records @ (case current of Some c \<Rightarrow> [c] | None \<Rightarrow> []), None)
        else if startsWith line ''worktree '' then
          (records @ (case current of Some c \<Rightarrow> [c] | None \<Rightarrow> []),
           Some \<lparr>wr_path = slice_from line (length ''worktree ''), wr_branch = None,
                 wr_locked = False, wr_lockReason = None\<rparr>)
        else (case current of
          None \<Rightarrow> (records, None)
        | Some c \<Rightarrow>
            if startsWith line ''branch '' then
              (records, Some (c\<lparr>wr_branch := Some (strip_heads (slice_from line (length ''branch '')))\<rparr>))
            else if line = ''locked'' \<or> startsWith line ''locked '' then
              (records, Some (c\<lparr>wr_locked := True,
                wr_lockReason := (if line = ''locked'' then None else Some (slice_from line (length ''locked '')))\<rparr>))
            else (records, Some c)))"

definition parseWorktreeList :: "string \<Rightarrow> worktree_record list" where
  "parseWorktreeList out =
     fst (foldl list_line ([], None) (split_on (CHR 0x0A) (out @ [CHR 0x0A])))"

definition gitWorktreeRecords :: "'w platform \<Rightarrow> string \<Rightarrow> ('w, worktree_record list) host_io" where
  "gitWorktreeRecords pf repoRoot =
     io_bind (gitOutput pf repoRoot [''worktree'', ''list'', ''--porcelain''])
       (\<lambda>out. io_return (parseWorktreeList out))"

definition branchName :: "worktree_record \<Rightarrow> string" where
  "branchName record = (case wr_branch record of None \<Rightarrow> ''detached'' | Some b \<Rightarrow> b)"

definition findWorktreeRecord ::
  "'w platform \<Rightarrow> worktree_record list \<Rightarrow> string \<Rightarrow> worktree_record option" where
  "findWorktreeRecord pf records worktreeDir =
     (let resolved = resolve pf worktreeDir in find (\<lambda>r. resolve pf (wr_path r) = resolved) records)"

section \<open>Labels\<close>

definition label_char :: "char \<Rightarrow> bool" where
  "label_char c \<longleftrightarrow> is_alnum c \<or> c \<in> set ''._-''"

text \<open>\<open>/^[A-Za-z0-9][A-Za-z0-9._-]*$/\<close>.\<close>

definition WORKTREE_LABEL_RE :: "string \<Rightarrow> bool" where
  "WORKTREE_LABEL_RE s = (case s of [] \<Rightarrow> False | c # cs \<Rightarrow> is_alnum c \<and> list_all label_char cs)"

text \<open>\<open>/^(?:wt(?:-[a-z0-9]{2})?|copilot|agent-[a-z0-9]+)$/\<close>.\<close>

definition NESTED_WORKTREE_NAMESPACE_RE :: "string \<Rightarrow> bool" where
  "NESTED_WORKTREE_NAMESPACE_RE s \<longleftrightarrow>
     s = ''wt'' \<or> s = ''copilot''
     \<or> startsWith s ''wt-'' \<and> length (drop 3 s) = 2 \<and> list_all is_lower_alnum (drop 3 s)
     \<or> startsWith s ''agent-'' \<and> drop 6 s \<noteq> [] \<and> list_all is_lower_alnum (drop 6 s)"

text \<open>The namespace expression, a slash, and the direct label's expression.\<close>

definition NESTED_WORKTREE_LABEL_RE :: "string \<Rightarrow> bool" where
  "NESTED_WORKTREE_LABEL_RE s =
     (case find_index (\<lambda>c. c = CHR ''/'') s of
        None \<Rightarrow> False
      | Some i \<Rightarrow> NESTED_WORKTREE_NAMESPACE_RE (take i s) \<and> WORKTREE_LABEL_RE (drop (i + 1) s))"

definition ensureWorktreeLabel :: "string \<Rightarrow> unit result" where
  "ensureWorktreeLabel label =
     guard (WORKTREE_LABEL_RE label \<or> NESTED_WORKTREE_LABEL_RE label)
       (''Invalid worktree label '' @ [CHR 0x22] @ label @ [CHR 0x22] @
        ''. Use a direct label, wt/name, wt-xx/name, or copilot/name with safe characters.'')"

definition isNestedWorktreeNamespace :: "string \<Rightarrow> bool" where
  "isNestedWorktreeNamespace v = NESTED_WORKTREE_NAMESPACE_RE v"

definition labelFromRelativeWorktreePath :: "string \<Rightarrow> string option" where
  "labelFromRelativeWorktreePath relative =
     (case split_on slash relative of
        [p] \<Rightarrow> if p = [] then None else Some p
      | [p, q] \<Rightarrow> if isNestedWorktreeNamespace p then Some (p @ ''/'' @ q) else None
      | _ \<Rightarrow> None)"

definition validateWorktreePath :: "'w platform \<Rightarrow> string \<Rightarrow> string \<Rightarrow> string \<Rightarrow> unit result" where
  "validateWorktreePath pf repoName label worktreeDir =
     (let expected = path_join [worktreesRoot pf, repoName, label]
      in guard (resolve pf worktreeDir = resolve pf expected) (''Worktree path must be '' @ expected))"

definition labelFromWorktreePath :: "'w platform \<Rightarrow> string \<Rightarrow> string \<Rightarrow> string result" where
  "labelFromWorktreePath pf repoName worktreeDir =
     (let resolvedDir = resolve pf worktreeDir;
          root = path_join [worktreesRoot pf, repoName];
          relative = path_relative (pf_cwd pf) root resolvedDir;
          err = ''Worktree must be a valid workspace worktree path under '' @ root
      in if relative = [] \<or> startsWith relative ''..'' \<or> isAbsolute relative then Inl err
         else (case labelFromRelativeWorktreePath relative of
           None \<Rightarrow> Inl err
         | Some label \<Rightarrow>
             rbind (ensureWorktreeLabel label) (\<lambda>_.
             rbind (validateWorktreePath pf repoName label resolvedDir) (\<lambda>_. Inr label))))"

text \<open>The components checked for symbolic links: the root, then each directory below it.\<close>

fun component_paths :: "string \<Rightarrow> string list \<Rightarrow> string list" where
  "component_paths current [] = [current]"
| "component_paths current (part # parts) = current # component_paths (path_join [current, part]) parts"

fun check_components :: "'w platform \<Rightarrow> string list \<Rightarrow> ('w, unit) host_io" where
  "check_components pf [] = io_return ()"
| "check_components pf (p # ps) =
     io_bind (plstat pf p) (\<lambda>st.
       case st of
         Absent \<Rightarrow> io_return ()
       | Symlink \<Rightarrow> io_throw (''Worktree path must not contain symlinks: '' @ p)
       | NotSymlink \<Rightarrow> check_components pf ps)"

definition validateNoSymlinkedWorktreePath :: "'w platform \<Rightarrow> string \<Rightarrow> ('w, unit) host_io" where
  "validateNoSymlinkedWorktreePath pf worktreeDir =
     (let resolvedRoot = resolve pf (worktreesRoot pf);
          resolvedDir = resolve pf worktreeDir;
          relative = path_relative (pf_cwd pf) resolvedRoot resolvedDir
      in if startsWith relative ''..'' \<or> isAbsolute relative
         then io_throw (''Worktree path must be under '' @ resolvedRoot)
         else check_components pf
                (component_paths resolvedRoot (filter (\<lambda>p. p \<noteq> []) (split_on slash relative))))"

section \<open>Operations\<close>

definition validateProtectedCheckout :: "'w platform \<Rightarrow> string \<Rightarrow> ('w, string) host_io" where
  "validateProtectedCheckout pf repoRoot =
     io_bind (detectDefaultBranch pf repoRoot) (\<lambda>defaultBranch.
     io_bind (gitOutput pf repoRoot [''branch'', ''--show-current'']) (\<lambda>branch.
       if branch \<noteq> defaultBranch
       then io_throw (''Protected checkout must be on '' @ defaultBranch @ ''; currently on '' @
              string_or branch ''detached HEAD'')
       else io_return defaultBranch))"

definition summary_of :: "'w platform \<Rightarrow> string \<Rightarrow> worktree_record \<Rightarrow> ('w, worktree_summary option) host_io" where
  "summary_of pf repoName record =
     io_catch
       (io_bind (io_lift (labelFromWorktreePath pf repoName (wr_path record))) (\<lambda>label.
        io_bind (validateNoSymlinkedWorktreePath pf (wr_path record)) (\<lambda>_.
        io_return (Some \<lparr>wm_label = label, wm_path = resolve pf (wr_path record),
                         wm_branch = branchName record\<rparr>))))
       (\<lambda>_. io_return None)"

text \<open>\<open>labelLe\<close> is the host's \<open>localeCompare\<close>, as a total preorder; the sort is stable.\<close>

fun insert_by :: "('a \<Rightarrow> 'a \<Rightarrow> bool) \<Rightarrow> 'a \<Rightarrow> 'a list \<Rightarrow> 'a list" where
  "insert_by le x [] = [x]"
| "insert_by le x (y # ys) = (if le x y then x # y # ys else y # insert_by le x ys)"

definition sort_by :: "('a \<Rightarrow> 'a \<Rightarrow> bool) \<Rightarrow> 'a list \<Rightarrow> 'a list" where
  "sort_by le xs = foldr (insert_by le) xs []"

definition listWorktrees ::
  "(string \<Rightarrow> string \<Rightarrow> bool) \<Rightarrow> 'w platform \<Rightarrow> string \<Rightarrow> string \<Rightarrow> ('w, worktree_summary list) host_io" where
  "listWorktrees labelLe pf repoRoot repoName =
     io_bind (gitWorktreeRecords pf repoRoot) (\<lambda>records.
     io_bind (io_foldl (\<lambda>acc record. io_bind (summary_of pf repoName record) (\<lambda>s. io_return (acc @ [s]))) [] records)
       (\<lambda>summaries. io_return
          (sort_by (\<lambda>a b. labelLe (wm_label a) (wm_label b)) (map the (filter (\<lambda>s. s \<noteq> None) summaries)))))"

definition attachWorktreeDir ::
  "'w platform \<Rightarrow> string \<Rightarrow> string \<Rightarrow> string \<Rightarrow> ('w, worktree_result) host_io" where
  "attachWorktreeDir pf repoRoot repoName worktreeDir =
     io_bind (validateProtectedCheckout pf repoRoot) (\<lambda>_.
     let resolvedDir = resolve pf worktreeDir in
     io_bind (io_lift (labelFromWorktreePath pf repoName resolvedDir)) (\<lambda>label.
     io_bind (validateNoSymlinkedWorktreePath pf resolvedDir) (\<lambda>_.
     io_bind (pexists pf resolvedDir) (\<lambda>there.
     io_bind (if there then pisDirectory pf resolvedDir else io_return False) (\<lambda>isDir.
       if \<not> isDir then io_throw (''Worktree directory not found: '' @ resolvedDir)
       else io_bind (gitWorktreeRecords pf repoRoot) (\<lambda>records.
         case findWorktreeRecord pf records resolvedDir of
           None \<Rightarrow> io_throw (''Git does not know about worktree: '' @ resolvedDir)
         | Some record \<Rightarrow> io_return \<lparr>wo_worktreeDir = resolvedDir, wo_label = label,
                             wo_branch = branchName record, wo_created = False\<rparr>))))))"

definition WORKTREE_BRANCH_PREFIX :: string where "WORKTREE_BRANCH_PREFIX = ''wt/''"

definition getOrCreateWorktree ::
  "'w platform \<Rightarrow> string \<Rightarrow> string \<Rightarrow> string \<Rightarrow> string option \<Rightarrow> string option
    \<Rightarrow> ('w, worktree_result) host_io" where
  "getOrCreateWorktree pf repoRoot repoName label branchOverride lockReason =
     io_bind (io_lift (ensureWorktreeLabel label)) (\<lambda>_.
     io_bind (validateProtectedCheckout pf repoRoot) (\<lambda>defaultBranch.
     let worktreeDir = path_join [worktreesRoot pf, repoName, label] in
     io_bind (validateNoSymlinkedWorktreePath pf worktreeDir) (\<lambda>_.
     let requestedBranch = (case branchOverride of None \<Rightarrow> [] | Some b \<Rightarrow> trim b) in
     io_bind (gitWorktreeRecords pf repoRoot) (\<lambda>records.
     case findWorktreeRecord pf records worktreeDir of
       Some existing \<Rightarrow> io_return \<lparr>wo_worktreeDir = worktreeDir, wo_label = label,
                          wo_branch = branchName existing, wo_created = False\<rparr>
     | None \<Rightarrow>
         io_bind (pexists pf worktreeDir) (\<lambda>there.
         if there then io_throw (''Worktree path exists but is not registered with git: '' @ worktreeDir)
         else if requestedBranch = [] \<and> slash \<in> set label
         then io_throw (''Worktree '' @ label @ '' no longer exists and no branch was given to rebuild it from. Choose another worktree, or create one.'')
         else (let branch = string_or requestedBranch (WORKTREE_BRANCH_PREFIX @ label) in
           io_bind (pmkdir pf (dirname worktreeDir)) (\<lambda>_.
           let lockArgs = (if truthy_str lockReason then [''--lock'', ''--reason'', the lockReason] else []) in
           io_bind (branchExists pf repoRoot branch) (\<lambda>known.
           let args = (if known
             then [''-C'', repoRoot, ''worktree'', ''add''] @ lockArgs @ [worktreeDir, branch]
             else [''-C'', repoRoot, ''worktree'', ''add''] @ lockArgs @ [''-b'', branch, worktreeDir, defaultBranch]) in
           io_bind (pexec pf (git_call args)) (\<lambda>result.
             if ex_code result \<noteq> 0 then io_throw (''Failed to create worktree: '' @ ex_stderr result)
             else io_return \<lparr>wo_worktreeDir = worktreeDir, wo_label = label,
                             wo_branch = branch, wo_created = True\<rparr>)))))))))"

definition MAX_WORKTREE_LABEL_ATTEMPTS :: nat where "MAX_WORKTREE_LABEL_ATTEMPTS = 100"

definition attempt_label :: "string \<Rightarrow> nat \<Rightarrow> string" where
  "attempt_label baseLabel attempt =
     (if attempt = 1 then baseLabel else baseLabel @ ''-'' @ show_nat attempt)"

fun try_labels ::
  "'w platform \<Rightarrow> string \<Rightarrow> string \<Rightarrow> string \<Rightarrow> worktree_record list \<Rightarrow> nat list \<Rightarrow> ('w, string) host_io" where
  "try_labels pf repoName baseLabel branch records [] =
     io_throw (''Could not find an available worktree label for '' @ [CHR 0x22] @ baseLabel @ [CHR 0x22] @
       '' after '' @ show_nat MAX_WORKTREE_LABEL_ATTEMPTS @ '' attempts'')"
| "try_labels pf repoName baseLabel branch records (attempt # attempts) =
     (let label = attempt_label baseLabel attempt;
          worktreeDir = path_join [worktreesRoot pf, repoName, label]
      in case findWorktreeRecord pf records worktreeDir of
           Some existing \<Rightarrow>
             if branchName existing = branch then io_return label
             else try_labels pf repoName baseLabel branch records attempts
         | None \<Rightarrow>
             io_bind (pexists pf worktreeDir) (\<lambda>there.
               if \<not> there then io_return label
               else try_labels pf repoName baseLabel branch records attempts))"

definition resolveAvailableWorktreeLabel ::
  "'w platform \<Rightarrow> string \<Rightarrow> string \<Rightarrow> string \<Rightarrow> string \<Rightarrow> ('w, string) host_io" where
  "resolveAvailableWorktreeLabel pf repoRoot repoName baseLabel branch =
     io_bind (gitWorktreeRecords pf repoRoot) (\<lambda>records.
       try_labels pf repoName baseLabel branch records [1..<Suc MAX_WORKTREE_LABEL_ATTEMPTS])"

section \<open>Assertions the operations keep\<close>

lemma stable_check_components [stable_intros]: "stable I (check_components pf ps)"
  by (induction pf ps rule: check_components.induct) (auto intro!: stable_intros split: lstat.split)

lemma stable_validateNoSymlinked [stable_intros]: "stable I (validateNoSymlinkedWorktreePath pf d)"
  unfolding validateNoSymlinkedWorktreePath_def by (intro stable_intros)

lemma stable_records [stable_intros]: "mild I \<Longrightarrow> stable I (gitWorktreeRecords pf root)"
  unfolding gitWorktreeRecords_def by (auto intro!: stable_intros simp: verb_simps)

section \<open>Labels and paths\<close>

text \<open>A platform whose worktrees root is an absolute normal path, and a repository name under it.\<close>

definition rooted :: "'w platform \<Rightarrow> string list \<Rightarrow> bool" where
  "rooted pf rs \<longleftrightarrow> normal_segs rs \<and> worktreesRoot pf = abs_path rs"

definition repo_named :: "string \<Rightarrow> string list \<Rightarrow> bool" where
  "repo_named repoName ns \<longleftrightarrow> normal_segs ns \<and> ns \<noteq> [] \<and> repoName = join ''/'' ns"

definition valid_label :: "string \<Rightarrow> bool" where
  "valid_label label \<longleftrightarrow> WORKTREE_LABEL_RE label \<or> NESTED_WORKTREE_LABEL_RE label"

lemma ensure_Inr [simp]: "ensureWorktreeLabel label = Inr u \<longleftrightarrow> valid_label label"
  by (simp add: ensureWorktreeLabel_def valid_label_def result_iff)

lemma marks_not_alnum [simp]: "\<not> is_alnum slash" "\<not> is_alnum (CHR ''.'')" "\<not> is_lower_alnum slash"
  by (simp_all add: char_class_defs)

lemma alnum_not_slash: "is_alnum c \<Longrightarrow> c \<noteq> slash \<and> c \<noteq> CHR ''.''"
  by auto

lemma label_char_not_slash: "label_char c \<Longrightarrow> c \<noteq> slash"
  by (auto simp: label_char_def alnum_not_slash)

lemma direct_label_normal: "WORKTREE_LABEL_RE s \<Longrightarrow> normal_seg s \<and> \<not> startsWith s ''..''"
  by (cases s) (auto simp: WORKTREE_LABEL_RE_def normal_seg_def list_all_iff
      dest: alnum_not_slash label_char_not_slash)

lemma namespace_normal: "NESTED_WORKTREE_NAMESPACE_RE s \<Longrightarrow> normal_seg s \<and> \<not> startsWith s ''..''"
proof -
  assume a: "NESTED_WORKTREE_NAMESPACE_RE s"
  have low: "slash \<notin> set r" if "list_all is_lower_alnum r" for r
    using that by (auto simp: list_all_iff)
  have "slash \<notin> set s"
    using a low unfolding NESTED_WORKTREE_NAMESPACE_RE_def startsWith_iff
    by (elim disjE conjE exE) auto
  moreover have "s \<noteq> []" "hd s \<noteq> CHR ''.''"
    using a by (auto simp: NESTED_WORKTREE_NAMESPACE_RE_def startsWith_iff)
  ultimately show ?thesis by (cases s) (auto simp: normal_seg_def)
qed

text \<open>The segments of a valid label: one direct label, or a namespace and a direct label.\<close>

lemma valid_label_segs:
  assumes "valid_label label"
  obtains "split_on slash label = [label]" "normal_seg label" "\<not> startsWith label ''..''" "slash \<notin> set label"
  | p q where "split_on slash label = [p, q]" "label = p @ ''/'' @ q" "NESTED_WORKTREE_NAMESPACE_RE p"
      "normal_segs [p, q]" "\<not> startsWith p ''..''"
proof (cases "WORKTREE_LABEL_RE label")
  case True
  then have "normal_seg label" "\<not> startsWith label ''..''" by (simp_all add: direct_label_normal)
  with that(1) show ?thesis by (simp add: split_on_no_sep normal_seg_def)
next
  case False
  with assms obtain i where i: "find_index (\<lambda>c. c = slash) label = Some i"
    "NESTED_WORKTREE_NAMESPACE_RE (take i label)" "WORKTREE_LABEL_RE (drop (i + 1) label)"
    by (auto simp: valid_label_def NESTED_WORKTREE_LABEL_RE_def split: option.splits)
  let ?p = "take i label" and ?q = "drop (i + 1) label"
  have n: "normal_seg ?p" "\<not> startsWith ?p ''..''" "normal_seg ?q"
    using i namespace_normal direct_label_normal by blast+
  have l: "label = ?p @ ''/'' @ ?q"
    using find_index_Some [OF i(1)] id_take_nth_drop [of i label] by simp
  have "slash \<notin> set ?p" "slash \<notin> set ?q" using n by (auto simp: normal_seg_def)
  then have "split_on slash (?p @ slash # ?q) = [?p, ?q]"
    by (simp add: split_on_append split_on_no_sep)
  moreover have "?p @ slash # ?q = label" using l by simp
  ultimately have "split_on slash label = [?p, ?q]" by metis
  then show ?thesis using that(2) [of ?p ?q] l i(2) n by (simp add: normal_segs_def)
qed

lemma valid_label_all:
  assumes "valid_label label"
  shows "normal_segs (split_on slash label) \<and> \<not> startsWith label ''..'' \<and>
    labelFromRelativeWorktreePath label = Some label"
  using assms
proof (cases rule: valid_label_segs)
  case 1
  then show ?thesis by (auto simp: normal_segs_def normal_seg_def labelFromRelativeWorktreePath_def)
next
  case (2 p q)
  have "\<not> startsWith label ''..''"
    using 2(2,4,5) startsWith_dots_join [of p "[q]"] by simp
  with 2 show ?thesis
    by (simp add: labelFromRelativeWorktreePath_def isNestedWorktreeNamespace_def)
qed

lemma valid_label_join:
  assumes "valid_label label"
  shows "normal_segs (split_on slash label)" "\<not> startsWith label ''..''"
    "labelFromRelativeWorktreePath label = Some label"
  using valid_label_all [OF assms] by blast+

lemma join_split_slash [simp]: "join ''/'' (split_on slash s) = s"
  by (rule join_split_on)

lemma worktree_dir:
  assumes "rooted pf rs" "repo_named repoName ns" "valid_label label"
  shows "path_join [worktreesRoot pf, repoName, label] = abs_path (rs @ ns @ split_on slash label)"
  using path_join_abs [of rs "[ns, split_on slash label]"] assms
  by (simp add: rooted_def repo_named_def valid_label_join)

lemma repo_root:
  assumes "rooted pf rs" "repo_named repoName ns"
  shows "path_join [worktreesRoot pf, repoName] = abs_path (rs @ ns)"
  using path_join_abs [of rs "[ns]"] assms by (simp add: rooted_def repo_named_def)

lemma resolve_abs_path [simp]: "normal_segs ss \<Longrightarrow> resolve pf (abs_path ss) = abs_path ss"
  by (simp add: resolve_def path_resolve_def)

lemma labelFromWorktreePath_Inr:
  "labelFromWorktreePath pf repoName d = Inr label \<Longrightarrow>
   valid_label label \<and> resolve pf d = resolve pf (path_join [worktreesRoot pf, repoName, label])"
  by (auto simp: labelFromWorktreePath_def validateWorktreePath_def Let_def result_iff
      split: if_splits option.splits)

lemma label_of_dir:
  assumes "rooted pf rs" "repo_named repoName ns" "valid_label label"
    "resolve pf d = abs_path (rs @ ns @ split_on slash label)"
  shows "labelFromWorktreePath pf repoName d = Inr label"
proof -
  let ?ls = "split_on slash label"
  have n: "normal_segs rs" "normal_segs ns" "normal_segs ?ls"
    using assms valid_label_join by (auto simp: rooted_def repo_named_def)
  have seg: "resolve_segs (pf_cwd pf) [abs_path (rs @ ns @ ?ls)] = rs @ ns @ ?ls"
    "resolve_segs (pf_cwd pf) [abs_path (rs @ ns)] = rs @ ns"
    using n by simp_all
  have rel: "path_relative (pf_cwd pf) (abs_path (rs @ ns)) (abs_path (rs @ ns @ ?ls)) = label"
    using drop_common_prefix [of "rs @ ns" ?ls] assms(3)
    by (simp add: path_relative_def seg relative_segs_def valid_label_join)
  have "\<not> isAbsolute label"
    using isAbsolute_join [OF n(3)] assms(3) by (simp add: valid_label_join)
  moreover have "label \<noteq> []" using assms(3) by (auto simp: valid_label_def WORKTREE_LABEL_RE_def NESTED_WORKTREE_LABEL_RE_def)
  ultimately show ?thesis
    using assms n rel
    by (simp add: labelFromWorktreePath_def Let_def repo_root valid_label_join
        ensureWorktreeLabel_def guard_def valid_label_def [symmetric] validateWorktreePath_def worktree_dir)
qed

text \<open>
  Labels and worktree directories correspond one to one: a directory has the label exactly when
  the label is a valid direct or namespaced one and the directory is the label's place under
  the repository's worktrees, and no other directory has any label.
\<close>

theorem label_iff_directory:
  assumes "rooted pf rs" "repo_named repoName ns"
  shows "labelFromWorktreePath pf repoName d = Inr label \<longleftrightarrow>
    valid_label label \<and> resolve_segs (pf_cwd pf) [d] = rs @ ns @ split_on slash label"
proof
  assume "labelFromWorktreePath pf repoName d = Inr label"
  then have v: "valid_label label" and r: "resolve pf d = resolve pf (path_join [worktreesRoot pf, repoName, label])"
    using labelFromWorktreePath_Inr by auto
  have n: "normal_segs (rs @ ns @ split_on slash label)"
    using assms valid_label_join [OF v] by (auto simp: rooted_def repo_named_def)
  then have "resolve pf d = abs_path (rs @ ns @ split_on slash label)"
    using r worktree_dir [OF assms v] by simp
  then show "valid_label label \<and> resolve_segs (pf_cwd pf) [d] = rs @ ns @ split_on slash label"
    using v n by (simp add: resolve_def path_resolve_def abs_path_inject)
next
  assume "valid_label label \<and> resolve_segs (pf_cwd pf) [d] = rs @ ns @ split_on slash label"
  then show "labelFromWorktreePath pf repoName d = Inr label"
    using label_of_dir [OF assms] by (simp add: resolve_def path_resolve_def)
qed

definition sample_platform :: "unit platform" where
  "sample_platform = \<lparr>pf_exec = (\<lambda>_. io_throw ''no git''), pf_lstat = (\<lambda>_. io_return NotSymlink),
     pf_exists = (\<lambda>_. io_return True), pf_isDirectory = (\<lambda>_. io_return True),
     pf_mkdir = (\<lambda>_. io_return ()), pf_rm = (\<lambda>_. io_return ()), pf_rmdir = (\<lambda>_. io_return ()),
     pf_cwd = ''/repo'', pf_home = ''/home/u'',
     pf_env = [''BASECAMP_WORKTREES_ROOT'' \<mapsto> ''/wt/root'']\<rparr>"

lemma sample_rooted:
  "rooted sample_platform [''wt'', ''root'']" "repo_named ''acme/app'' [''acme'', ''app'']"
  by (simp_all add: rooted_def sample_platform_def worktreesRoot_def getBasecampEnv_def abs_path_def
      repo_named_def normal_segs_def normal_seg_def)

theorem label_iff_directory_witness:
  "labelFromWorktreePath sample_platform ''acme/app'' ''/wt/root/acme/app/wt/fix-1'' = Inr ''wt/fix-1'' \<longleftrightarrow>
   valid_label ''wt/fix-1'' \<and>
   resolve_segs (pf_cwd sample_platform) [''/wt/root/acme/app/wt/fix-1''] =
     [''wt'', ''root''] @ [''acme'', ''app''] @ split_on slash ''wt/fix-1''"
  by (rule label_iff_directory [OF sample_rooted])

section \<open>Reading the listing back\<close>

text \<open>
  The listing git prints for a worktree (git-worktree(1), porcelain format): its path, further
  lines, its branch and its lock, closed by a blank line.
\<close>

definition record_lines :: "worktree_record \<Rightarrow> string list \<Rightarrow> string list" where
  "record_lines r extra =
     [''worktree '' @ wr_path r] @ extra
     @ (case wr_branch r of None \<Rightarrow> [] | Some b \<Rightarrow> [''branch refs/heads/'' @ b])
     @ (if wr_locked r then [case wr_lockReason r of None \<Rightarrow> ''locked'' | Some why \<Rightarrow> ''locked '' @ why] else [])"

definition ignored_line :: "string \<Rightarrow> bool" where
  "ignored_line l \<longleftrightarrow> trim l \<noteq> [] \<and> CHR 0x0A \<notin> set l \<and> \<not> startsWith l ''worktree ''
     \<and> \<not> startsWith l ''branch '' \<and> l \<noteq> ''locked'' \<and> \<not> startsWith l ''locked ''"

definition printable :: "worktree_record \<times> string list \<Rightarrow> bool" where
  "printable x = (case x of (r, extra) \<Rightarrow>
     CHR 0x0A \<notin> set (wr_path r) \<and> CHR 0x0A \<notin> set (case wr_branch r of None \<Rightarrow> [] | Some b \<Rightarrow> b)
     \<and> CHR 0x0A \<notin> set (case wr_lockReason r of None \<Rightarrow> [] | Some why \<Rightarrow> why)
     \<and> (wr_locked r \<or> wr_lockReason r = None) \<and> list_all ignored_line extra)"

definition print_listing :: "(worktree_record \<times> string list) list \<Rightarrow> string" where
  "print_listing xs = join [CHR 0x0A] (concat (map (\<lambda>(r, extra). record_lines r extra @ [[]]) xs))"

lemma trim_head: "\<not> js_ws c \<Longrightarrow> trim (c # s) \<noteq> []"
  by (simp add: trim_all_ws)

lemma ignored_lines:
  "list_all ignored_line extra \<Longrightarrow> foldl list_line (done, Some c) extra = (done, Some c)"
  by (induction extra) (auto simp: list_line_def ignored_line_def)

lemma letters_not_ws [simp]: "\<not> js_ws (CHR ''w'')" "\<not> js_ws (CHR ''b'')" "\<not> js_ws (CHR ''l'')"
  by (simp_all add: js_ws_def)

lemma list_line_worktree:
  "list_line (done, cur) (''worktree '' @ p) =
     (done @ (case cur of Some c \<Rightarrow> [c] | None \<Rightarrow> []),
      Some \<lparr>wr_path = p, wr_branch = None, wr_locked = False, wr_lockReason = None\<rparr>)"
  by (simp add: list_line_def trim_head slice_from_def)

lemma list_line_branch:
  "list_line (done, Some c) (''branch refs/heads/'' @ b) = (done, Some (c\<lparr>wr_branch := Some b\<rparr>))"
  by (simp add: list_line_def trim_head slice_from_def strip_heads_def)

lemma list_line_locked:
  "list_line (done, Some c) ''locked'' = (done, Some (c\<lparr>wr_locked := True, wr_lockReason := None\<rparr>))"
  "list_line (done, Some c) (''locked '' @ why) =
     (done, Some (c\<lparr>wr_locked := True, wr_lockReason := Some why\<rparr>))"
  by (simp_all add: list_line_def trim_head slice_from_def)

lemma list_line_blank: "list_line (done, Some c) [] = (done @ [c], None)"
  by (simp add: list_line_def)

lemma fold_record:
  assumes "printable (r, extra)"
  shows "foldl list_line (done, None) (record_lines r extra @ [[]]) = (done @ [r], None)"
  using assms
  by (cases r) (auto simp: record_lines_def printable_def ignored_lines list_line_blank
      list_line_worktree [simplified] list_line_branch [simplified] list_line_locked [simplified]
      split: option.splits)

lemma fold_records:
  "list_all printable xs \<Longrightarrow>
   foldl list_line (done, None) (concat (map (\<lambda>(r, extra). record_lines r extra @ [[]]) xs)) =
     (done @ map fst xs, None)"
proof (induction xs arbitrary: "done")
  case (Cons x xs)
  obtain r extra where x: "x = (r, extra)" by fastforce
  with Cons.prems have "foldl list_line (done, None) (record_lines r extra @ [[]]) = (done @ [r], None)"
    by (intro fold_record) simp
  with Cons show ?case by (simp add: x)
qed simp

lemma record_lines_no_newline:
  "printable (r, extra) \<Longrightarrow> \<forall>l \<in> set (record_lines r extra). CHR 0x0A \<notin> set l"
  by (auto simp: record_lines_def printable_def ignored_line_def list_all_iff split: option.splits)

lemma split_lines:
  "\<forall>l \<in> set ls. c \<notin> set l \<Longrightarrow> split_on c (join [c] ls @ [c]) = (if ls = [] then [[]] else ls) @ [[]]"
  using split_on_concat [of c "join [c] ls" "[]"] split_on_join [of ls c] by (cases "ls = []") simp_all

text \<open>
  Reading git's porcelain listing gives back the worktrees it lists, in order: path, branch
  without \<open>refs/heads/\<close>, and lock with its reason, the other lines being skipped.
\<close>

theorem worktree_listing_roundtrip:
  assumes "list_all printable xs"
  shows "parseWorktreeList (print_listing xs) = map fst xs"
proof -
  let ?ls = "concat (map (\<lambda>(r, extra). record_lines r extra @ [[]]) xs)"
  have "\<forall>l \<in> set ?ls. CHR 0x0A \<notin> set l"
    using assms record_lines_no_newline by (fastforce simp: list_all_iff)
  then have "split_on (CHR 0x0A) (join [CHR 0x0A] ?ls @ [CHR 0x0A]) = (if ?ls = [] then [[]] else ?ls) @ [[]]"
    by (rule split_lines)
  moreover have "?ls = [] \<longleftrightarrow> xs = []" by (cases xs) auto
  moreover have "list_line (done, None) [] = (done, None)" for "done" by (simp add: list_line_def)
  ultimately show ?thesis
    using fold_records [OF assms, of "[]"]
    by (cases "xs = []") (simp_all add: parseWorktreeList_def print_listing_def)
qed

definition sample_record :: worktree_record where
  "sample_record = \<lparr>wr_path = ''/wt/root/acme/app/wt/fix-1'', wr_branch = Some ''tb/fix-1'',
     wr_locked = True, wr_lockReason = Some ''basecamp session s1 now''\<rparr>"

theorem worktree_listing_roundtrip_witness:
  "parseWorktreeList (print_listing [(sample_record, [''HEAD 0a1b''])]) = map fst [(sample_record, [''HEAD 0a1b''])]"
  by (rule worktree_listing_roundtrip)
    (simp add: printable_def sample_record_def ignored_line_def trim_all_ws js_ws_def)

end
