(* ===== verification/WorktreeTarget.thy ===== *)
theory WorktreeTarget
  imports Worktrees
begin

text \<open>
  Names for worktrees still to be made (\<open>pi/core/git/worktrees/target.ts\<close>): the user's prefix, the
  slug of a text, and the label and branch of a session's worktree or of a copilot's. The lemmas
  show that what is minted is a valid label and a bounded branch.
\<close>

record worktree_target =
  wt_worktreeLabel :: string
  wt_branchName :: string

definition SUGGESTED_WORKTREE_LABEL_MAX_LENGTH :: nat where
  "SUGGESTED_WORKTREE_LABEL_MAX_LENGTH = 32"

definition FALLBACK_USER_WORKTREE_PREFIX :: string where "FALLBACK_USER_WORKTREE_PREFIX = ''un''"

definition FALLBACK_WORKTREE_SLUG :: string where "FALLBACK_WORKTREE_SLUG = ''worktree''"

text \<open>\<open>process.env.USER || osUsername() || "unknown"\<close>; \<open>osUsername\<close> answers \<open>""\<close> where it throws.\<close>

definition currentUserId :: "env \<Rightarrow> string result \<Rightarrow> string" where
  "currentUserId e username =
     string_or (case e ''USER'' of None \<Rightarrow> [] | Some u \<Rightarrow> u)
       (string_or (case username of Inl _ \<Rightarrow> [] | Inr u \<Rightarrow> u) ''unknown'')"

text \<open>\<open>s.replace(/[^a-z0-9]+/g, sep)\<close>: \<open>inside\<close> tells that the current run was replaced already.\<close>

fun replace_runs :: "string \<Rightarrow> bool \<Rightarrow> string \<Rightarrow> string" where
  "replace_runs sep inside [] = []"
| "replace_runs sep inside (c # s) =
     (if is_lower_alnum c then c # replace_runs sep False s
      else if inside then replace_runs sep True s
      else sep @ replace_runs sep True s)"

definition strip_trailing_dashes :: "string \<Rightarrow> string" where
  "strip_trailing_dashes s = rev (dropWhile (\<lambda>c. c = CHR ''-'') (rev s))"

definition strip_dashes :: "string \<Rightarrow> string" where
  "strip_dashes s = strip_trailing_dashes (dropWhile (\<lambda>c. c = CHR ''-'') s)"

definition userWorktreePrefix :: "string option \<Rightarrow> string" where
  "userWorktreePrefix userId =
     (let prefix = take 2 (replace_runs [] False (toLowerCase (case userId of None \<Rightarrow> [] | Some u \<Rightarrow> u)))
      in if length prefix = 2 then prefix else FALLBACK_USER_WORKTREE_PREFIX)"

definition normalizeWorktreeSlug :: "string \<Rightarrow> string" where
  "normalizeWorktreeSlug value =
     string_or (strip_dashes (replace_runs ''-'' False (toLowerCase value))) FALLBACK_WORKTREE_SLUG"

definition normalizeSessionTag :: "string option \<Rightarrow> string" where
  "normalizeSessionTag value =
     replace_runs [] False (toLowerCase (case value of None \<Rightarrow> [] | Some v \<Rightarrow> v))"

definition executionWorktreeTarget :: "string \<Rightarrow> string option \<Rightarrow> string \<Rightarrow> worktree_target" where
  "executionWorktreeTarget slug sessionTag userId =
     (let branchPrefix = userWorktreePrefix (Some userId) @ ''/'';
          normalizedSlug = normalizeWorktreeSlug slug;
          tag = normalizeSessionTag sessionTag;
          tagSegment = (if tag \<noteq> [] then tag @ ''-'' else []);
          baseSlug = (if tagSegment \<noteq> [] \<and> startsWith normalizedSlug tagSegment
                      then slice_from normalizedSlug (length tagSegment) else normalizedSlug);
          maxSlugLength = max 1 (SUGGESTED_WORKTREE_LABEL_MAX_LENGTH - length branchPrefix - length tagSegment);
          cappedSlug = string_or (strip_trailing_dashes (slice baseSlug 0 maxSlugLength)) FALLBACK_WORKTREE_SLUG
      in \<lparr>wt_worktreeLabel = ''wt/'' @ cappedSlug, wt_branchName = branchPrefix @ tagSegment @ cappedSlug\<rparr>)"

definition copilotWorktreeTarget :: "string \<Rightarrow> string \<Rightarrow> string \<Rightarrow> worktree_target" where
  "copilotWorktreeTarget workName generatedName userId =
     (let branchPrefix = userWorktreePrefix (Some userId) @ ''/'';
          slug = normalizeWorktreeSlug workName;
          maxSlugLength = max 1 (SUGGESTED_WORKTREE_LABEL_MAX_LENGTH - length branchPrefix);
          cappedWorkSlug = string_or (strip_trailing_dashes (slice slug 0 maxSlugLength)) FALLBACK_WORKTREE_SLUG
      in \<lparr>wt_worktreeLabel = ''copilot/'' @ generatedName, wt_branchName = branchPrefix @ cappedWorkSlug\<rparr>)"

section \<open>Slugs\<close>

text \<open>A clean slug: lower-case letters and digits with single dashes between them.\<close>

fun dash_ok :: "bool \<Rightarrow> string \<Rightarrow> bool" where
  "dash_ok after_dash [] = True"
| "dash_ok after_dash (c # s) =
     (if c = CHR ''-'' then \<not> after_dash \<and> dash_ok True s
      else is_lower_alnum c \<and> dash_ok False s)"

definition slug_ok :: "string \<Rightarrow> bool" where
  "slug_ok s \<longleftrightarrow> s \<noteq> [] \<and> dash_ok True s \<and> last s \<noteq> CHR ''-''"

lemma dash_not_alnum [simp]: "\<not> is_lower_alnum (CHR ''-'')"
  by (simp add: char_class_defs)

lemma replace_runs_dash: "dash_ok inside (replace_runs ''-'' inside s)"
  by (induction "''-''" inside s rule: replace_runs.induct) auto

lemma replace_runs_Nil: "list_all is_lower_alnum (replace_runs [] inside s)"
  by (induction "[] :: string" inside s rule: replace_runs.induct) auto

lemma dash_ok_weaken: "dash_ok b s \<Longrightarrow> dash_ok False s"
  by (cases s) (auto split: if_splits)

lemma dash_ok_dropWhile: "dash_ok b s \<Longrightarrow> dash_ok True (dropWhile (\<lambda>c. c = CHR ''-'') s)"
  by (induction b s rule: dash_ok.induct) auto

lemma dash_ok_append: "dash_ok b (s @ t) \<Longrightarrow> dash_ok b s \<and> dash_ok False t"
  by (induction b s rule: dash_ok.induct) (auto split: if_splits intro: dash_ok_weaken)

lemma strip_trailing_split: "\<exists>r. s = strip_trailing_dashes s @ r"
proof -
  have "rev s = takeWhile (\<lambda>c. c = CHR ''-'') (rev s) @ dropWhile (\<lambda>c. c = CHR ''-'') (rev s)" by simp
  then have "s = rev (dropWhile (\<lambda>c. c = CHR ''-'') (rev s)) @ rev (takeWhile (\<lambda>c. c = CHR ''-'') (rev s))"
    by (metis rev_append rev_rev_ident)
  then show ?thesis unfolding strip_trailing_dashes_def by blast
qed

lemma strip_trailing_last: "strip_trailing_dashes s \<noteq> [] \<Longrightarrow> last (strip_trailing_dashes s) \<noteq> CHR ''-''"
  unfolding strip_trailing_dashes_def last_rev rev_is_Nil_conv
  using hd_dropWhile [of "\<lambda>c. c = CHR ''-''" "rev s"] by blast

lemma strip_trailing_ok:
  "dash_ok b s \<Longrightarrow> dash_ok b (strip_trailing_dashes s)"
proof -
  obtain r where "s = strip_trailing_dashes s @ r" using strip_trailing_split by blast
  then show "dash_ok b s \<Longrightarrow> dash_ok b (strip_trailing_dashes s)" using dash_ok_append by metis
qed

lemma slug_fallback: "slug_ok FALLBACK_WORKTREE_SLUG"
  by (simp add: slug_ok_def FALLBACK_WORKTREE_SLUG_def char_class_defs)

lemma strip_or_fallback:
  "dash_ok True s \<Longrightarrow> slug_ok (string_or (strip_trailing_dashes s) FALLBACK_WORKTREE_SLUG)"
  using strip_trailing_ok [of True s] strip_trailing_last [of s] slug_fallback
  by (auto simp: string_or_def slug_ok_def)

lemma slug_ok_normalize: "slug_ok (normalizeWorktreeSlug value)"
  unfolding normalizeWorktreeSlug_def strip_dashes_def
  by (rule strip_or_fallback) (rule dash_ok_dropWhile [OF replace_runs_dash])

lemma slug_label: "slug_ok s \<Longrightarrow> WORKTREE_LABEL_RE s"
proof -
  assume a: "slug_ok s"
  have chars: "dash_ok b t \<Longrightarrow> list_all label_char t" for b t
    by (induction b t rule: dash_ok.induct) (auto simp: label_char_def is_alnum_def is_lower_alnum_def split: if_splits)
  from a chars show ?thesis
    by (cases s) (auto simp: slug_ok_def WORKTREE_LABEL_RE_def is_alnum_def is_lower_alnum_def split: if_splits)
qed

text \<open>A slug cut after a dash-ended prefix is still a slug or empty.\<close>

lemma dash_ok_after_dash:
  "dash_ok b (p @ ''-'' @ t) \<Longrightarrow> dash_ok True t"
  by (induction b p rule: dash_ok.induct) (auto split: if_splits)

lemma dash_ok_take: "dash_ok b s \<Longrightarrow> dash_ok b (take n s)"
  using dash_ok_append by (metis append_take_drop_id)

lemma wt_label_valid: "slug_ok s \<Longrightarrow> valid_label (''wt/'' @ s)"
  by (simp add: valid_label_def NESTED_WORKTREE_LABEL_RE_def NESTED_WORKTREE_NAMESPACE_RE_def slug_label)

lemma length_userWorktreePrefix [simp]: "length (userWorktreePrefix u) = 2"
  by (simp add: userWorktreePrefix_def Let_def FALLBACK_USER_WORKTREE_PREFIX_def)

lemma length_strip_trailing: "length (strip_trailing_dashes s) \<le> length s"
  using length_dropWhile_le [of _ "rev s"] by (simp add: strip_trailing_dashes_def)

text \<open>
  What a session's target mints is usable whatever the texts: its label is a valid namespaced
  label of one clean slug, its branch is the two-character prefix, the tag if there is one and
  that slug, and the branch has at most 32 characters, or three and the tag's and one more, or
  that with the fallback slug.
\<close>

theorem execution_target_valid:
  "let t = executionWorktreeTarget slug sessionTag userId; tag = normalizeSessionTag sessionTag in
   valid_label (wt_worktreeLabel t) \<and>
   (\<exists>s. slug_ok s \<and> wt_worktreeLabel t = ''wt/'' @ s \<and>
      wt_branchName t = userWorktreePrefix (Some userId) @ ''/'' @ (if tag = [] then [] else tag @ ''-'') @ s \<and>
      (length (wt_branchName t) \<le> max 32 (5 + length tag) \<or> s = FALLBACK_WORKTREE_SLUG))"
proof -
  let ?tag = "normalizeSessionTag sessionTag"
  let ?seg = "if ?tag \<noteq> [] then ?tag @ ''-'' else []"
  let ?n = "normalizeWorktreeSlug slug"
  let ?base = "if ?seg \<noteq> [] \<and> startsWith ?n ?seg then slice_from ?n (length ?seg) else ?n"
  let ?max = "max 1 (SUGGESTED_WORKTREE_LABEL_MAX_LENGTH - length (userWorktreePrefix (Some userId) @ ''/'') - length ?seg)"
  let ?strip = "strip_trailing_dashes (slice ?base 0 ?max)"
  let ?s = "string_or ?strip FALLBACK_WORKTREE_SLUG"
  have n: "dash_ok True ?n" using slug_ok_normalize by (simp add: slug_ok_def)
  have "dash_ok True ?base"
  proof (cases "?tag \<noteq> [] \<and> startsWith ?n ?seg")
    case True
    then obtain t where t: "?n = ?tag @ ''-'' @ t" by (auto simp: startsWith_iff)
    with n dash_ok_after_dash have "dash_ok True t" by metis
    moreover have "?base = t" using True t by (simp add: slice_from_def startsWith_iff)
    ultimately show ?thesis by simp
  next
    case False
    with n show ?thesis by (auto split: if_splits)
  qed
  then have s: "slug_ok ?s"
    by (intro strip_or_fallback) (simp add: slice_def dash_ok_take)
  have "length ?strip \<le> ?max"
    using length_strip_trailing [of "slice ?base 0 ?max"] by (simp add: slice_def)
  then have len: "length (userWorktreePrefix (Some userId) @ ''/'' @ ?seg @ ?s) \<le> max 32 (5 + length ?tag)
      \<or> ?s = FALLBACK_WORKTREE_SLUG"
    by (auto simp: string_or_def SUGGESTED_WORKTREE_LABEL_MAX_LENGTH_def)
  have target: "executionWorktreeTarget slug sessionTag userId =
      \<lparr>wt_worktreeLabel = ''wt/'' @ ?s, wt_branchName = userWorktreePrefix (Some userId) @ ''/'' @ ?seg @ ?s\<rparr>"
    unfolding executionWorktreeTarget_def Let_def by simp
  show ?thesis
    unfolding target Let_def using s len wt_label_valid [OF s] by auto
qed

end
