(* ===== verification/JsDate.thy ===== *)
theory JsDate
  imports Prelude
begin

text \<open>
  The \<open>Date\<close> operations the code uses (ECMA-262, 21.4): \<open>toISOString\<close> of a time in epoch
  milliseconds from 1970 on, and \<open>Date.parse\<close>. The parser reads the format \<open>toISOString\<close> writes;
  every other text is left to \<open>legacy\<close>, a parameter, whose \<open>None\<close> is \<open>NaN\<close>. A time written by
  \<open>toISOString\<close> in the years 1970 to 9999 is read back exactly.
\<close>

section \<open>Years and months\<close>

definition is_leap :: "nat \<Rightarrow> bool" where
  "is_leap y \<longleftrightarrow> y mod 4 = 0 \<and> (y mod 100 \<noteq> 0 \<or> y mod 400 = 0)"

definition days_in_year :: "nat \<Rightarrow> nat" where
  "days_in_year y = (if is_leap y then 366 else 365)"

definition month_lengths :: "nat \<Rightarrow> nat list" where
  "month_lengths y =
     [31, if is_leap y then 29 else 28, 31, 30, 31, 30, 31, 31, 30, 31, 30, 31]"

lemma days_in_year_pos [simp]: "days_in_year y > 0"
  by (simp add: days_in_year_def)

lemma sum_month_lengths: "sum_list (month_lengths y) = days_in_year y"
  by (simp add: month_lengths_def days_in_year_def)

lemma length_month_lengths [simp]: "length (month_lengths y) = 12"
  by (simp add: month_lengths_def)

text \<open>The year a day number falls in, from the first day of year \<open>y\<close>, and the day within it.\<close>

function split_year :: "nat \<Rightarrow> nat \<Rightarrow> nat \<times> nat" where
  "split_year y d = (if d < days_in_year y then (y, d) else split_year (Suc y) (d - days_in_year y))"
  by auto
termination
  by (relation "measure snd") (auto simp: days_in_year_def)

declare split_year.simps [simp del]

fun split_months :: "nat list \<Rightarrow> nat \<Rightarrow> nat \<times> nat" where
  "split_months [] d = (0, d)"
| "split_months (m # ms) d =
     (if d < m then (0, d) else (case split_months ms (d - m) of (k, r) \<Rightarrow> (Suc k, r)))"

definition year_days :: "nat \<Rightarrow> nat \<Rightarrow> nat" where
  "year_days y y' = sum_list (map days_in_year [y..<y'])"

lemma split_year_spec:
  "split_year y d = (y', r) \<Longrightarrow> y \<le> y' \<and> r < days_in_year y' \<and> d = year_days y y' + r"
proof (induction y d rule: split_year.induct)
  case (1 y d)
  show ?case
  proof (cases "d < days_in_year y")
    case True
    with 1 show ?thesis by (auto simp: split_year.simps [of y d] year_days_def)
  next
    case False
    then have s: "split_year (Suc y) (d - days_in_year y) = (y', r)"
      using "1.prems" by (simp add: split_year.simps [of y d])
    from "1.IH" [OF False s] have
      "Suc y \<le> y'" "r < days_in_year y'" "d - days_in_year y = year_days (Suc y) y' + r" by auto
    moreover have "year_days y y' = days_in_year y + year_days (Suc y) y'"
      using \<open>Suc y \<le> y'\<close> by (simp add: year_days_def upt_conv_Cons)
    ultimately show ?thesis using False by simp
  qed
qed

lemma split_months_spec:
  "split_months ms d = (k, r) \<Longrightarrow> d < sum_list ms \<Longrightarrow>
   k < length ms \<and> r < ms ! k \<and> d = sum_list (take k ms) + r"
proof (induction ms d arbitrary: k rule: split_months.induct)
  case (2 m ms d)
  show ?case
  proof (cases "d < m")
    case False
    obtain k' r' where s: "split_months ms (d - m) = (k', r')" by fastforce
    with False 2 have "k = Suc k'" "r' = r" by auto
    with False 2 s have "k' < length ms" "r < ms ! k'" "d - m = sum_list (take k' ms) + r" by auto
    with False \<open>k = Suc k'\<close> show ?thesis by simp
  qed (use 2 in auto)
qed simp

section \<open>Writing\<close>

definition pad :: "nat \<Rightarrow> nat \<Rightarrow> string" where
  "pad w n = replicate (w - length (show_nat n)) (CHR ''0'') @ show_nat n"

text \<open>Years past 9999 are written with a sign and six digits.\<close>

definition iso_year :: "nat \<Rightarrow> string" where
  "iso_year y = (if y \<le> 9999 then pad 4 y else CHR ''+'' # pad 6 y)"

definition toISOString :: "nat \<Rightarrow> string" where
  "toISOString t =
     (let days = t div 86400000; ms = t mod 86400000;
          (y, yd) = split_year 1970 days;
          (mo, md) = split_months (month_lengths y) yd
      in iso_year y @ ''-'' @ pad 2 (mo + 1) @ ''-'' @ pad 2 (md + 1) @ ''T''
         @ pad 2 (ms div 3600000) @ '':'' @ pad 2 (ms div 60000 mod 60) @ '':''
         @ pad 2 (ms div 1000 mod 60) @ ''.'' @ pad 3 (ms mod 1000) @ ''Z'')"

section \<open>Reading\<close>

text \<open>The time the fields at the fixed places of \<open>YYYY-MM-DDTHH:mm:ss.sssZ\<close> stand for.\<close>

definition iso_time :: "string \<Rightarrow> nat" where
  "iso_time s =
     (let y = read_nat (slice s 0 4); mo = read_nat (slice s 5 7); da = read_nat (slice s 8 10);
          h = read_nat (slice s 11 13); mi = read_nat (slice s 14 16);
          se = read_nat (slice s 17 19); ms = read_nat (slice s 20 23)
      in (year_days 1970 y + sum_list (take (mo - 1) (month_lengths y)) + (da - 1)) * 86400000
         + h * 3600000 + mi * 60000 + se * 1000 + ms)"

definition dateParse :: "(string \<Rightarrow> int option) \<Rightarrow> string \<Rightarrow> int option" where
  "dateParse legacy s = (if toISOString (iso_time s) = s then Some (int (iso_time s)) else legacy s)"

lemma read_nat_zeros: "read_nat (replicate k (CHR ''0'') @ s) = read_nat s"
proof (induction k)
  case (Suc k)
  then show ?case by (simp add: read_nat_def digit_val_def)
qed simp

lemma read_pad [simp]: "read_nat (pad w n) = n"
  by (simp add: pad_def read_nat_zeros)

lemma length_show_nat: "n < 10 ^ Suc w \<Longrightarrow> length (show_nat n) \<le> Suc w"
proof (induction w arbitrary: n)
  case 0
  then show ?case by (simp add: show_nat.simps [of n])
next
  case (Suc w)
  have "n div 10 < 10 ^ Suc w" using Suc.prems by (simp add: div_less_iff_less_mult)
  from Suc.IH [OF this] show ?case by (subst show_nat.simps) simp
qed

lemma length_pad:
  assumes "n < 10 ^ w" "0 < w"
  shows "length (pad w n) = w"
proof -
  have "length (show_nat n) \<le> w" using length_show_nat [of n "w - 1"] assms by simp
  then show ?thesis by (simp add: pad_def)
qed

lemma pad_digits: "\<forall>c \<in> set (pad w n). is_digit c"
  using show_nat_digits [of n] by (auto simp: pad_def is_digit_def)

lemma slice_append:
  "slice (s @ t) a b = (if b \<le> length s then slice s a b
     else if length s \<le> a then slice t (a - length s) (b - length s)
     else drop a s @ take (b - length s) t)"
  by (auto simp: slice_def)

definition iso_text ::
  "nat \<Rightarrow> nat \<Rightarrow> nat \<Rightarrow> nat \<Rightarrow> nat \<Rightarrow> nat \<Rightarrow> nat \<Rightarrow> string" where
  "iso_text y mo da h mi se ms = pad 4 y @ ''-'' @ pad 2 mo @ ''-'' @ pad 2 da @ ''T''
         @ pad 2 h @ '':'' @ pad 2 mi @ '':'' @ pad 2 se @ ''.'' @ pad 3 ms @ ''Z''"

lemma iso_text_fields:
  assumes "y < 10000" "mo < 100" "da < 100" "h < 100" "mi < 100" "se < 100" "ms < 1000"
  shows "iso_time (iso_text y mo da h mi se ms) =
     (year_days 1970 y + sum_list (take (mo - 1) (month_lengths y)) + (da - 1)) * 86400000
         + h * 3600000 + mi * 60000 + se * 1000 + ms"
proof -
  have l: "length (pad 4 y) = 4" "length (pad 2 mo) = 2" "length (pad 2 da) = 2"
    "length (pad 2 h) = 2" "length (pad 2 mi) = 2" "length (pad 2 se) = 2" "length (pad 3 ms) = 3"
    using assms by (simp_all add: length_pad)
  have whole: "slice s 0 (length s) = s" for s by (simp add: slice_def)
  let ?s = "iso_text y mo da h mi se ms"
  have "slice ?s 0 4 = pad 4 y" "slice ?s 5 7 = pad 2 mo" "slice ?s 8 10 = pad 2 da"
    "slice ?s 11 13 = pad 2 h" "slice ?s 14 16 = pad 2 mi" "slice ?s 17 19 = pad 2 se"
    "slice ?s 20 23 = pad 3 ms"
    using l by (simp_all add: iso_text_def slice_def)
  then show ?thesis by (simp add: iso_time_def Let_def)
qed

definition year_of :: "nat \<Rightarrow> nat" where
  "year_of t = fst (split_year 1970 (t div 86400000))"

lemma clock_sum:
  "r = a * 1000 + m \<Longrightarrow> a = b * 60 + x \<Longrightarrow> b = c * 60 + y \<Longrightarrow>
   r = c * 3600000 + y * 60000 + x * 1000 + (m :: nat)"
  by simp

lemma clock_fields:
  "r = r div 3600000 * 3600000 + r div 60000 mod 60 * 60000 + r div 1000 mod 60 * 1000 + r mod (1000 :: nat)"
proof -
  have d: "r div 60000 = r div 1000 div 60" "r div 3600000 = r div 1000 div 60 div 60"
    by (simp_all only: div_mult2_eq [symmetric]) simp_all
  show ?thesis
    unfolding d by (rule clock_sum [of _ "r div 1000" _ "r div 1000 div 60"])
      (simp_all only: div_mult_mod_eq)
qed

lemma toISOString_fields:
  assumes "year_of t \<le> 9999"
  obtains y mo da h mi se ms where
    "toISOString t = iso_text y mo da h mi se ms"
    "y < 10000" "mo < 100" "da < 100" "h < 100" "mi < 100" "se < 100" "ms < 1000"
    "t = (year_days 1970 y + sum_list (take (mo - 1) (month_lengths y)) + (da - 1)) * 86400000
         + h * 3600000 + mi * 60000 + se * 1000 + ms"
proof -
  let ?days = "t div 86400000" and ?r = "t mod 86400000"
  obtain y yd where y: "split_year 1970 ?days = (y, yd)" by fastforce
  then have ys: "yd < days_in_year y" "?days = year_days 1970 y + yd" using split_year_spec by auto
  have y9: "y \<le> 9999" using assms y by (simp add: year_of_def)
  obtain mo md where m: "split_months (month_lengths y) yd = (mo, md)" by fastforce
  then have ms: "mo < 12" "md < month_lengths y ! mo" "yd = sum_list (take mo (month_lengths y)) + md"
    using split_months_spec [OF m] ys(1)
    by (auto simp: sum_month_lengths length_month_lengths)
  have "\<forall>l \<in> set (month_lengths y). l \<le> 31" by (simp add: month_lengths_def)
  moreover have "month_lengths y ! mo \<in> set (month_lengths y)"
    using ms(1) by (intro nth_mem) simp
  ultimately have "md < 31" using ms(2) by fastforce
  have written: "toISOString t = iso_text y (mo + 1) (md + 1) (?r div 3600000) (?r div 60000 mod 60)
      (?r div 1000 mod 60) (?r mod 1000)"
    using y9 by (simp add: toISOString_def y m iso_text_def iso_year_def Let_def)
  have h: "?r div 3600000 < 100"
    using mod_less_divisor [of 86400000 t] by (simp add: div_less_iff_less_mult)
  have time: "t = (year_days 1970 y + sum_list (take (mo + 1 - 1) (month_lengths y)) + (md + 1 - 1)) * 86400000
      + ?r div 3600000 * 3600000 + ?r div 60000 mod 60 * 60000 + ?r div 1000 mod 60 * 1000 + ?r mod 1000"
  proof -
    have "?r = ?r div 3600000 * 3600000 + ?r div 60000 mod 60 * 60000 + ?r div 1000 mod 60 * 1000 + ?r mod 1000"
      by (rule clock_fields)
    moreover have "t = ?days * 86400000 + ?r" by simp
    moreover have "?days = year_days 1970 y + sum_list (take (mo + 1 - 1) (month_lengths y)) + (md + 1 - 1)"
      using ys(2) ms(3) by simp
    ultimately show ?thesis by (simp only: add.assoc)
  qed
  show ?thesis
  proof (rule that [OF written _ _ _ _ _ _ _ time])
    show "?r div 3600000 < 100" by (rule h)
    have "n mod 60 < 100" for n :: nat
      using mod_less_divisor [of 60 n] by linarith
    then show "?r div 60000 mod 60 < 100" "?r div 1000 mod 60 < 100" by blast+
    show "?r mod 1000 < 1000" by (rule mod_less_divisor) simp
  qed (use y9 ms(1) \<open>md < 31\<close> in simp_all)
qed

text \<open>A time in the four-digit years reads back as itself, and its text is one word.\<close>

lemma dateParse_toISOString:
  assumes "year_of t \<le> 9999"
  shows "dateParse legacy (toISOString t) = Some (int t)"
proof -
  obtain y mo da h mi se ms where f: "toISOString t = iso_text y mo da h mi se ms"
    "y < 10000" "mo < 100" "da < 100" "h < 100" "mi < 100" "se < 100" "ms < 1000"
    "t = (year_days 1970 y + sum_list (take (mo - 1) (month_lengths y)) + (da - 1)) * 86400000
         + h * 3600000 + mi * 60000 + se * 1000 + ms"
    using toISOString_fields [OF assms] .
  have "iso_time (toISOString t) = t"
    unfolding f(1) iso_text_fields [OF f(2-8)] by (rule f(9) [symmetric])
  then show ?thesis by (simp add: dateParse_def)
qed

lemma set_pad_not_ws: "c \<in> set (pad w n) \<Longrightarrow> \<not> js_ws c"
  using pad_digits is_digit_not_ws by blast

lemma pad_no_ws [simp]: "list_all (\<lambda>c. \<not> js_ws c) (pad w n)"
  by (simp add: list_all_iff set_pad_not_ws)

lemma marks_no_ws [simp]:
  "\<not> js_ws (CHR ''-'')" "\<not> js_ws (CHR ''T'')" "\<not> js_ws (CHR '':'')" "\<not> js_ws (CHR ''.'')"
  "\<not> js_ws (CHR ''Z'')" "\<not> js_ws (CHR ''+'')"
  by (simp_all add: js_ws_def)

lemma toISOString_all_no_ws: "list_all (\<lambda>c. \<not> js_ws c) (toISOString t)"
proof -
  obtain y yd where y: "split_year 1970 (t div 86400000) = (y, yd)" by fastforce
  obtain mo md where m: "split_months (month_lengths y) yd = (mo, md)" by fastforce
  have "list_all (\<lambda>c. \<not> js_ws c) (iso_year y)" by (simp add: iso_year_def)
  then show ?thesis by (simp add: toISOString_def y m Let_def)
qed

lemma toISOString_no_ws: "c \<in> set (toISOString t) \<Longrightarrow> \<not> js_ws c"
  using toISOString_all_no_ws by (simp add: list_all_iff)

lemma toISOString_trim [simp]: "trim (toISOString t) = toISOString t"
proof (rule trim_id, cases "toISOString t = []")
  case False
  then show "toISOString t = [] \<or> \<not> js_ws (hd (toISOString t)) \<and> \<not> js_ws (last (toISOString t))"
    using toISOString_no_ws [of "hd (toISOString t)" t] toISOString_no_ws [of "last (toISOString t)" t] by simp
qed simp

lemma toISOString_not_Nil [simp]: "toISOString t \<noteq> []"
  by (simp add: toISOString_def Let_def split: prod.splits)

end
