(* ===== verification/Lease.thy ===== *)
theory Lease
  imports Worktrees JsDate
begin

text \<open>
  Worktree lifecycle and session leases (\<open>pi/core/git/worktrees/lifecycle.ts\<close>, \<open>lease.ts\<close>): the
  lock, unlock, remove and delete commands, an agent's own worktree, the lock reasons that carry
  a session's lease or a staging, their classification, and the teardown of a session worktree.
  Times are epoch milliseconds.
\<close>

section \<open>Lifecycle\<close>

definition lockWorktree ::
  "'w platform \<Rightarrow> string \<Rightarrow> string \<Rightarrow> string option \<Rightarrow> ('w, unit) host_io" where
  "lockWorktree pf repoRoot worktreeDir reason =
     io_bind (pexec pf (git_call ([''-C'', repoRoot, ''worktree'', ''lock''] @
         (if truthy_str reason then [''--reason'', the reason] else []) @ [worktreeDir]))) (\<lambda>result.
       if ex_code result \<noteq> 0 \<and> \<not> str_includes (toLowerCase (ex_stderr result)) ''already locked''
       then io_throw (''Failed to lock worktree: '' @ ex_stderr result) else io_return ())"

definition unlockWorktree :: "'w platform \<Rightarrow> string \<Rightarrow> string \<Rightarrow> ('w, unit) host_io" where
  "unlockWorktree pf repoRoot worktreeDir =
     io_bind (pexec pf (git_call [''-C'', repoRoot, ''worktree'', ''unlock'', worktreeDir])) (\<lambda>result.
       if ex_code result \<noteq> 0 \<and> \<not> str_includes (toLowerCase (ex_stderr result)) ''not locked''
       then io_throw (''Failed to unlock worktree: '' @ ex_stderr result) else io_return ())"

record remove_opts =
  ro_force :: bool
  ro_unlock :: "bool option"

definition removeWorktree ::
  "'w platform \<Rightarrow> string \<Rightarrow> string \<Rightarrow> remove_opts \<Rightarrow> ('w, unit) host_io" where
  "removeWorktree pf repoRoot worktreeDir opts =
     io_bind (if ro_unlock opts \<noteq> Some False
              then io_ignore (unlockWorktree pf repoRoot worktreeDir) else io_return ()) (\<lambda>_.
     io_bind (pexec pf (git_call ([''-C'', repoRoot, ''worktree'', ''remove''] @
         (if ro_force opts then [''--force''] else []) @ [worktreeDir]))) (\<lambda>result.
       if ex_code result \<noteq> 0 then io_throw (''Failed to remove worktree: '' @ ex_stderr result)
       else io_return ()))"

definition deleteBranch :: "'w platform \<Rightarrow> string \<Rightarrow> string \<Rightarrow> ('w, unit) host_io" where
  "deleteBranch pf repoRoot branch =
     io_bind (pexec pf (git_call [''-C'', repoRoot, ''branch'', ''-D'', branch])) (\<lambda>result.
       if ex_code result \<noteq> 0 \<and> \<not> str_includes (toLowerCase (ex_stderr result)) ''not found''
          \<and> \<not> str_includes (toLowerCase (ex_stderr result)) ''no branch''
       then io_throw (''Failed to delete branch: '' @ ex_stderr result) else io_return ())"

datatype agent_checkout =
    NewBranch string string
  | ExistingBranch string
  | Detached string

record agent_worktree_result =
  aw_worktreeDir :: string
  aw_label :: string
  aw_branch :: "string option"

definition checkoutArgs :: "agent_checkout \<Rightarrow> string \<Rightarrow> string list" where
  "checkoutArgs checkout worktreeDir =
     (case checkout of
        NewBranch branch baseRef \<Rightarrow> [''-b'', branch, worktreeDir, baseRef]
      | ExistingBranch branch \<Rightarrow> [worktreeDir, branch]
      | Detached baseRef \<Rightarrow> [''--detach'', worktreeDir, baseRef])"

definition checkout_branch :: "agent_checkout \<Rightarrow> string option" where
  "checkout_branch checkout =
     (case checkout of NewBranch b _ \<Rightarrow> Some b | ExistingBranch b \<Rightarrow> Some b | Detached _ \<Rightarrow> None)"

definition AGENT_LOCK_REASON_PREFIX :: string where "AGENT_LOCK_REASON_PREFIX = ''basecamp agent run''"

definition agent_lock_reason :: "nat \<Rightarrow> string" where
  "agent_lock_reason now = AGENT_LOCK_REASON_PREFIX @ '' '' @ toISOString now"

text \<open>The clean-up after a failed creation, only of what git registered meanwhile.\<close>

definition cleanup_partial ::
  "'w platform \<Rightarrow> string \<Rightarrow> string \<Rightarrow> agent_checkout \<Rightarrow> ('w, unit) host_io" where
  "cleanup_partial pf repoRoot worktreeDir checkout =
     io_ignore
       (io_bind (gitWorktreeRecords pf repoRoot) (\<lambda>records.
          case findWorktreeRecord pf records worktreeDir of
            None \<Rightarrow> io_return ()
          | Some _ \<Rightarrow>
              io_bind (io_ignore (removeWorktree pf repoRoot worktreeDir \<lparr>ro_force = True, ro_unlock = None\<rparr>)) (\<lambda>_.
              case checkout of
                NewBranch branch _ \<Rightarrow> io_ignore (deleteBranch pf repoRoot branch)
              | _ \<Rightarrow> io_return ())))"

definition createAgentWorktree ::
  "'w platform \<Rightarrow> string \<Rightarrow> string \<Rightarrow> string \<Rightarrow> agent_checkout \<Rightarrow> string
    \<Rightarrow> ('w, agent_worktree_result) host_io" where
  "createAgentWorktree pf repoRoot repoName label checkout lockReason =
     io_bind (io_lift (ensureWorktreeLabel label)) (\<lambda>_.
     let worktreeDir = path_join [worktreesRoot pf, repoName, label] in
     io_bind (validateNoSymlinkedWorktreePath pf worktreeDir) (\<lambda>_.
     io_bind (gitWorktreeRecords pf repoRoot) (\<lambda>records.
       if findWorktreeRecord pf records worktreeDir \<noteq> None
       then io_throw (''Agent worktree already registered: '' @ worktreeDir)
       else io_bind (pexists pf worktreeDir) (\<lambda>there.
         if there then io_throw (''Worktree path exists but is not registered with git: '' @ worktreeDir)
         else io_bind (pmkdir pf (dirname worktreeDir)) (\<lambda>_.
         io_bind (pexec pf (git_call ([''-C'', repoRoot, ''worktree'', ''add'', ''--lock'', ''--reason'', lockReason]
             @ checkoutArgs checkout worktreeDir))) (\<lambda>result.
           if ex_code result \<noteq> 0 then
             io_bind (cleanup_partial pf repoRoot worktreeDir checkout) (\<lambda>_.
             io_throw (''Failed to create and lock agent worktree: '' @ ex_stderr result))
           else io_return \<lparr>aw_worktreeDir = worktreeDir, aw_label = label,
                           aw_branch = checkout_branch checkout\<rparr>))))))"

section \<open>Lock reasons\<close>

definition SESSION_LOCK_REASON_PREFIX :: string where
  "SESSION_LOCK_REASON_PREFIX = ''basecamp session ''"

definition SESSION_COLD_TTL_MS :: int where "SESSION_COLD_TTL_MS = 24 * 60 * 60 * 1000"

definition STAGED_LOCK_REASON_PREFIX :: string where
  "STAGED_LOCK_REASON_PREFIX = ''basecamp staged ''"

definition SESSION_STAGED_TTL_MS :: int where "SESSION_STAGED_TTL_MS = 60 * 60 * 1000"

record session_lease =
  sl_sessionId :: string
  sl_timestamp :: int

definition sessionLeaseReason :: "string \<Rightarrow> nat \<Rightarrow> string" where
  "sessionLeaseReason sessionId now = SESSION_LOCK_REASON_PREFIX @ sessionId @ '' '' @ toISOString now"

text \<open>\<open>legacy\<close> reads the dates that are not in the written format.\<close>

definition parseSessionLease ::
  "(string \<Rightarrow> int option) \<Rightarrow> string option \<Rightarrow> session_lease option" where
  "parseSessionLease legacy lockReason =
     (case lockReason of
        None \<Rightarrow> None
      | Some reason \<Rightarrow>
          if \<not> startsWith reason SESSION_LOCK_REASON_PREFIX then None
          else (let rest = trim (slice_from reason (length SESSION_LOCK_REASON_PREFIX)) in
            case find_index (\<lambda>c. c = CHR '' '') rest of
              None \<Rightarrow> None
            | Some separator \<Rightarrow>
                if separator = 0 then None
                else (let sessionId = slice rest 0 separator in
                  case dateParse legacy (trim (slice_from rest (separator + 1))) of
                    None \<Rightarrow> None
                  | Some timestamp \<Rightarrow>
                      if sessionId = [] then None
                      else Some \<lparr>sl_sessionId = sessionId, sl_timestamp = timestamp\<rparr>)))"

definition stagedLockReason :: "nat \<Rightarrow> string" where
  "stagedLockReason now = STAGED_LOCK_REASON_PREFIX @ toISOString now"

definition parseStagedLock :: "(string \<Rightarrow> int option) \<Rightarrow> string option \<Rightarrow> int option" where
  "parseStagedLock legacy lockReason =
     (case lockReason of
        None \<Rightarrow> None
      | Some reason \<Rightarrow>
          if \<not> startsWith reason STAGED_LOCK_REASON_PREFIX then None
          else dateParse legacy (trim (slice_from reason (length STAGED_LOCK_REASON_PREFIX))))"

definition leaseOwnedBy :: "(string \<Rightarrow> int option) \<Rightarrow> string option \<Rightarrow> string \<Rightarrow> bool" where
  "leaseOwnedBy legacy lockReason sessionId =
     (case parseSessionLease legacy lockReason of
        None \<Rightarrow> False | Some lease \<Rightarrow> sl_sessionId lease = sessionId)"

datatype coldness = Live | Cold | Foreign

definition classifySessionWorktree ::
  "(string \<Rightarrow> int option) \<Rightarrow> worktree_record \<Rightarrow> int \<Rightarrow> coldness" where
  "classifySessionWorktree legacy record now =
     (if \<not> wr_locked record then Cold
      else (case parseSessionLease legacy (wr_lockReason record) of
        Some lease \<Rightarrow> if now - sl_timestamp lease \<ge> SESSION_COLD_TTL_MS then Cold else Live
      | None \<Rightarrow>
          (case parseStagedLock legacy (wr_lockReason record) of
             Some staged \<Rightarrow> if now - staged \<ge> SESSION_STAGED_TTL_MS then Cold else Live
           | None \<Rightarrow> Foreign)))"

section \<open>Leases\<close>

definition lock_reason_of :: "worktree_record option \<Rightarrow> string option" where
  "lock_reason_of r = (case r of None \<Rightarrow> None | Some record \<Rightarrow> wr_lockReason record)"

definition acquireSessionLease ::
  "(string \<Rightarrow> int option) \<Rightarrow> 'w platform \<Rightarrow> string \<Rightarrow> string \<Rightarrow> string \<Rightarrow> nat \<Rightarrow> ('w, unit) host_io" where
  "acquireSessionLease legacy pf repoRoot worktreeDir sessionId now =
     io_bind (gitWorktreeRecords pf repoRoot) (\<lambda>records.
     let record = findWorktreeRecord pf records worktreeDir in
     if (case record of None \<Rightarrow> False | Some r \<Rightarrow> wr_locked r)
        \<and> parseSessionLease legacy (lock_reason_of record) = None
        \<and> parseStagedLock legacy (lock_reason_of record) = None
     then io_return ()
     else (let reason = sessionLeaseReason sessionId now in
       io_bind (io_ignore (unlockWorktree pf repoRoot worktreeDir)) (\<lambda>_.
       io_bind (lockWorktree pf repoRoot worktreeDir (Some reason)) (\<lambda>_.
       io_bind (gitWorktreeRecords pf repoRoot) (\<lambda>records'.
         if lock_reason_of (findWorktreeRecord pf records' worktreeDir) \<noteq> Some reason
         then io_throw (''Failed to acquire the session lease on '' @ worktreeDir)
         else io_return ())))))"

definition stageWorktreeLock ::
  "(string \<Rightarrow> int option) \<Rightarrow> 'w platform \<Rightarrow> string \<Rightarrow> string \<Rightarrow> nat \<Rightarrow> ('w, unit) host_io" where
  "stageWorktreeLock legacy pf repoRoot worktreeDir now =
     io_bind (gitWorktreeRecords pf repoRoot) (\<lambda>records.
     let record = findWorktreeRecord pf records worktreeDir in
     if (case record of None \<Rightarrow> False
         | Some r \<Rightarrow> wr_locked r \<and> classifySessionWorktree legacy r (int now) \<noteq> Cold)
     then io_return ()
     else (let reason = stagedLockReason now in
       io_bind (io_ignore (unlockWorktree pf repoRoot worktreeDir)) (\<lambda>_.
       io_bind (lockWorktree pf repoRoot worktreeDir (Some reason)) (\<lambda>_.
       io_bind (gitWorktreeRecords pf repoRoot) (\<lambda>records'.
         if lock_reason_of (findWorktreeRecord pf records' worktreeDir) \<noteq> Some reason
         then io_throw (''Failed to take the staged lock on '' @ worktreeDir)
         else io_return ())))))"

definition isWorktreeClean :: "'w platform \<Rightarrow> string \<Rightarrow> ('w, bool) host_io" where
  "isWorktreeClean pf worktreeDir =
     io_bind (pexec pf (git_call [''-C'', worktreeDir, ''status'', ''--porcelain''])) (\<lambda>result.
       io_return (ex_code result = 0 \<and> trim (ex_stdout result) = []))"

datatype reap_outcome = Reaped | KeptDirty | ReapError | NotOwned

definition reapSessionWorktree :: "'w platform \<Rightarrow> string \<Rightarrow> string \<Rightarrow> ('w, reap_outcome) host_io" where
  "reapSessionWorktree pf repoRoot worktreeDir =
     io_bind (io_catch (io_bind (isWorktreeClean pf worktreeDir) (\<lambda>clean. io_return (Some clean)))
                (\<lambda>_. io_return None)) (\<lambda>clean.
       case clean of
         None \<Rightarrow> io_return ReapError
       | Some False \<Rightarrow> io_return KeptDirty
       | Some True \<Rightarrow>
           io_catch
             (io_bind (removeWorktree pf repoRoot worktreeDir \<lparr>ro_force = True, ro_unlock = Some True\<rparr>)
                (\<lambda>_. io_return Reaped))
             (\<lambda>_. io_return ReapError))"

definition reapOwnedSessionWorktree ::
  "(string \<Rightarrow> int option) \<Rightarrow> 'w platform \<Rightarrow> string \<Rightarrow> string \<Rightarrow> string \<Rightarrow> ('w, reap_outcome) host_io" where
  "reapOwnedSessionWorktree legacy pf repoRoot worktreeDir sessionId =
     io_bind (gitWorktreeRecords pf repoRoot) (\<lambda>records.
       case findWorktreeRecord pf records worktreeDir of
         None \<Rightarrow> io_return NotOwned
       | Some record \<Rightarrow>
           if \<not> leaseOwnedBy legacy (wr_lockReason record) sessionId then io_return NotOwned
           else reapSessionWorktree pf repoRoot worktreeDir)"

section \<open>Written reasons are read back\<close>

text \<open>
  What a kind of lock promises: its reader gives back the owner and the time its writer wrote,
  for owners that can be written in one word and times in the four-digit years.
\<close>

locale lock_kind =
  fixes "write" :: "'k \<Rightarrow> nat \<Rightarrow> string" and read :: "string option \<Rightarrow> ('k \<times> int) option"
    and writable :: "'k \<Rightarrow> bool" and ttl :: int
  assumes read_write: "writable k \<Longrightarrow> year_of now \<le> 9999 \<Longrightarrow> read (Some (write k now)) = Some (k, int now)"
begin

definition expired :: "string option \<Rightarrow> int \<Rightarrow> bool option" where
  "expired reason t = map_option (\<lambda>(k, stamp). t - stamp \<ge> ttl) (read reason)"

lemma write_inject:
  "writable k \<Longrightarrow> writable k' \<Longrightarrow> year_of n \<le> 9999 \<Longrightarrow> year_of n' \<le> 9999 \<Longrightarrow>
   write k n = write k' n' \<Longrightarrow> k = k' \<and> n = n'"
  by (metis Pair_inject of_nat_eq_iff option.inject read_write)

lemma expires_after_ttl:
  "writable k \<Longrightarrow> year_of now \<le> 9999 \<Longrightarrow>
   expired (Some (write k now)) t = Some (t \<ge> int now + ttl)"
  by (auto simp: expired_def read_write)

end

definition session_word :: "string \<Rightarrow> bool" where
  "session_word sid \<longleftrightarrow> sid \<noteq> [] \<and> CHR '' '' \<notin> set sid \<and> \<not> js_ws (hd sid)"

lemma find_index_append: "c \<notin> set s \<Longrightarrow> find_index (\<lambda>x. x = c) (s @ c # r) = Some (length s)"
  by (induction s) auto

lemma parse_written_lease:
  assumes "session_word sid" "year_of now \<le> 9999"
  shows "parseSessionLease legacy (Some (sessionLeaseReason sid now)) =
    Some \<lparr>sl_sessionId = sid, sl_timestamp = int now\<rparr>"
proof -
  let ?rest = "sid @ '' '' @ toISOString now"
  have "\<not> js_ws (last (toISOString now))" by (rule toISOString_no_ws [of _ now]) simp
  then have "trim ?rest = ?rest"
    using assms(1) by (intro trim_id) (simp add: session_word_def)
  moreover have "slice_from (sessionLeaseReason sid now) (length SESSION_LOCK_REASON_PREFIX) = ?rest"
    by (simp add: sessionLeaseReason_def slice_from_def)
  moreover have "find_index (\<lambda>c. c = CHR '' '') ?rest = Some (length sid)"
    using assms(1) find_index_append [of "CHR '' ''" sid "toISOString now"] by (simp add: session_word_def)
  ultimately show ?thesis
    using assms by (simp add: parseSessionLease_def sessionLeaseReason_def session_word_def slice_def
        slice_from_def dateParse_toISOString)
qed

lemma parse_written_staged:
  "year_of now \<le> 9999 \<Longrightarrow> parseStagedLock legacy (Some (stagedLockReason now)) = Some (int now)"
  by (simp add: parseStagedLock_def stagedLockReason_def slice_from_def dateParse_toISOString)

interpretation session_lock: lock_kind sessionLeaseReason
  "\<lambda>r. map_option (\<lambda>l. (sl_sessionId l, sl_timestamp l)) (parseSessionLease legacy r)"
  session_word SESSION_COLD_TTL_MS for legacy
  by unfold_locales (simp add: parse_written_lease)

interpretation staged_lock: lock_kind "\<lambda>_ :: unit. stagedLockReason"
  "\<lambda>r. map_option (\<lambda>t. ((), t)) (parseStagedLock legacy r)" "\<lambda>_. True" SESSION_STAGED_TTL_MS for legacy
  by unfold_locales (simp add: parse_written_staged)

lemma other_prefixes [simp]:
  "parseSessionLease legacy (Some (stagedLockReason now)) = None"
  "parseSessionLease legacy (Some (agent_lock_reason now)) = None"
  "parseStagedLock legacy (Some (agent_lock_reason now)) = None"
  by (simp_all add: parseSessionLease_def parseStagedLock_def stagedLockReason_def agent_lock_reason_def
      AGENT_LOCK_REASON_PREFIX_def SESSION_LOCK_REASON_PREFIX_def STAGED_LOCK_REASON_PREFIX_def)

definition locked_with :: "string \<Rightarrow> worktree_record" where
  "locked_with reason = \<lparr>wr_path = [], wr_branch = None, wr_locked = True, wr_lockReason = Some reason\<rparr>"

text \<open>
  The locks the program writes are read as it means them: a session's lease is owned by that
  session alone and is live until a day has passed, then cold; a staging is live for an hour;
  the lock of an agent's worktree is foreign at any time.
\<close>

theorem written_locks_classify:
  assumes "session_word sid" "year_of now \<le> 9999"
  shows "leaseOwnedBy legacy (Some (sessionLeaseReason sid now)) sid' = (sid' = sid) \<and>
    classifySessionWorktree legacy (locked_with (sessionLeaseReason sid now)) t =
      (if t \<ge> int now + 86400000 then Cold else Live) \<and>
    classifySessionWorktree legacy (locked_with (stagedLockReason now)) t =
      (if t \<ge> int now + 3600000 then Cold else Live) \<and>
    classifySessionWorktree legacy (locked_with (agent_lock_reason now)) t = Foreign"
proof -
  have "leaseOwnedBy legacy (Some (sessionLeaseReason sid now)) sid' = (sid' = sid)"
    using assms by (auto simp: leaseOwnedBy_def parse_written_lease)
  then show ?thesis
    using assms
    by (auto simp: classifySessionWorktree_def locked_with_def parse_written_lease parse_written_staged
        SESSION_COLD_TTL_MS_def SESSION_STAGED_TTL_MS_def)
qed

lemma sample_year: "year_of 1760000000000 \<le> 9999"
  by (simp add: year_of_def split_year.simps days_in_year_def is_leap_def)

theorem written_locks_classify_witness:
  "leaseOwnedBy (\<lambda>_. None) (Some (sessionLeaseReason ''s1'' 1760000000000)) ''s2'' = (''s2'' = ''s1'') \<and>
    classifySessionWorktree (\<lambda>_. None) (locked_with (sessionLeaseReason ''s1'' 1760000000000)) 1760000001000 =
      (if 1760000001000 \<ge> int 1760000000000 + 86400000 then Cold else Live) \<and>
    classifySessionWorktree (\<lambda>_. None) (locked_with (stagedLockReason 1760000000000)) 1760000001000 =
      (if 1760000001000 \<ge> int 1760000000000 + 3600000 then Cold else Live) \<and>
    classifySessionWorktree (\<lambda>_. None) (locked_with (agent_lock_reason 1760000000000)) 1760000001000 = Foreign"
  by (rule written_locks_classify [OF _ sample_year]) (simp add: session_word_def js_ws_def)

section \<open>Teardown\<close>

definition status_call :: "string \<Rightarrow> exec_call" where
  "status_call d = git_call [''-C'', d, ''status'', ''--porcelain'']"

definition unlock_call :: "string \<Rightarrow> string \<Rightarrow> exec_call" where
  "unlock_call root d = git_call [''-C'', root, ''worktree'', ''unlock'', d]"

definition list_call :: "string \<Rightarrow> exec_call" where
  "list_call root = git_call [''-C'', root, ''worktree'', ''list'', ''--porcelain'']"

text \<open>The commands that destroy: removing or moving a worktree and deleting a branch.\<close>

definition destructive :: "exec_call \<Rightarrow> bool" where
  "destructive c \<longleftrightarrow> git_verb c \<in> set [[''worktree'', ''remove''], [''worktree'', ''move''], [''branch'', ''-D'']]"

definition is_remove :: "exec_call \<Rightarrow> bool" where
  "is_remove c \<longleftrightarrow> git_verb c = [''worktree'', ''remove'']"

definition clean_answer :: "exec_result result \<Rightarrow> bool" where
  "clean_answer r = (case r of Inl _ \<Rightarrow> False | Inr x \<Rightarrow> ex_code x = 0 \<and> trim (ex_stdout x) = [])"

text \<open>
  Grounds for a removal: the two commands before it are a status of that very directory that
  found it clean, and the unlock of it.
\<close>

definition just_clean :: "string \<Rightarrow> host_event list \<Rightarrow> exec_call \<Rightarrow> bool" where
  "just_clean root l c \<longleftrightarrow> is_remove c \<and> length l \<ge> 2 \<and>
     (case (l ! (length l - 2), l ! (length l - 1)) of
        (EvExec s r, EvExec u _) \<Rightarrow>
          s = status_call (last (xc_args c)) \<and> clean_answer r \<and> u = unlock_call root (last (xc_args c))
      | _ \<Rightarrow> False)"

lemma reap_log:
  "\<exists>out s. fst (reapSessionWorktree pf root d t) = Inr out \<and>
     tw_log (snd (reapSessionWorktree pf root d t)) = tw_log t @ s \<and>
     ((\<exists>r. s = [EvExec (status_call d) r] \<and> out \<noteq> Reaped)
      \<or> (\<exists>r r' r''. clean_answer r \<and>
           s = [EvExec (status_call d) r, EvExec (unlock_call root d) r',
                EvExec (git_call [''-C'', root, ''worktree'', ''remove'', ''--force'', d]) r'']))"
proof -
  obtain r w where r: "pf_exec pf (status_call d) (tw_host t) = (r, w)" by fastforce
  show ?thesis
  proof (cases "clean_answer r")
    case False
    with r show ?thesis
      by (cases r) (auto simp: reapSessionWorktree_def isWorktreeClean_def pexec_def io_simps
          status_call_def clean_answer_def)
  next
    case True
    then obtain x where x: "r = Inr x" "ex_code x = 0" "trim (ex_stdout x) = []"
      by (auto simp: clean_answer_def split: sum.splits)
    with r show ?thesis
      by (auto simp: reapSessionWorktree_def isWorktreeClean_def removeWorktree_def unlockWorktree_def
          io_ignore_def pexec_def io_simps status_call_def unlock_call_def clean_answer_def
          split: sum.splits)
  qed
qed

lemma verbs [simp]:
  "\<not> destructive (status_call d)" "\<not> destructive (unlock_call root d)" "\<not> destructive (list_call root)"
  "destructive (git_call [''-C'', root, ''worktree'', ''remove'', ''--force'', d])"
  "is_remove (git_call [''-C'', root, ''worktree'', ''remove'', ''--force'', d])"
  by (simp_all add: destructive_def is_remove_def status_call_def unlock_call_def list_call_def)

text \<open>A teardown removes only what it has just found clean, on any further grounds for the directory.\<close>

lemma reap_guarded:
  assumes "guarded destructive (\<lambda>l c. just_clean root l c \<and> ok l c) (tw_log t)"
    and "\<And>s. ok (tw_log t @ s) (git_call [''-C'', root, ''worktree'', ''remove'', ''--force'', d])"
  shows "guarded destructive (\<lambda>l c. just_clean root l c \<and> ok l c)
    (tw_log (snd (reapSessionWorktree pf root d t)))"
proof -
  have last: "last (xc_args (git_call [''-C'', root, ''worktree'', ''remove'', ''--force'', d])) = d"
    by (simp add: git_call_def)
  from reap_log [of pf root d t] show ?thesis
    using assms by (auto simp: guarded_append just_clean_def last nth_append)
qed

lemma gitWorktreeRecords_run:
  "\<exists>r. tw_log (snd (gitWorktreeRecords pf root t)) = tw_log t @ [EvExec (list_call root) r] \<and>
     (case fst (gitWorktreeRecords pf root t) of
        Inl e \<Rightarrow> True
      | Inr records \<Rightarrow> \<exists>x. r = Inr x \<and> ex_code x = 0 \<and> records = parseWorktreeList (trim (ex_stdout x)))"
  by (auto simp: gitWorktreeRecords_def gitOutput_def pexec_def io_simps list_call_def split: sum.splits)

text \<open>The worktrees a trace begins with listing.\<close>

definition listed :: "string \<Rightarrow> host_event list \<Rightarrow> worktree_record list" where
  "listed root l =
     (case l of
        EvExec c (Inr x) # _ \<Rightarrow>
          if c = list_call root \<and> ex_code x = 0 then parseWorktreeList (trim (ex_stdout x)) else []
      | _ \<Rightarrow> [])"

text \<open>
  Tearing down a session's worktree destroys nothing else: it runs no destructive command but
  the removal of a directory the listing shows with a lease of this session, right after git
  reported that directory clean; no branch is deleted.
\<close>

theorem reapOwned_removes_only_own_clean:
  "guarded destructive
     (\<lambda>l c. just_clean root l c \<and>
        list_ex (\<lambda>r. leaseOwnedBy legacy (wr_lockReason r) sessionId \<and>
                     resolve pf (wr_path r) = resolve pf (last (xc_args c))) (listed root l))
     (tw_log (snd (reapOwnedSessionWorktree legacy pf root d sessionId \<lparr>tw_host = w, tw_log = []\<rparr>)))"
  (is "guarded destructive ?ok _")
proof -
  let ?t = "\<lparr>tw_host = w, tw_log = []\<rparr>"
  obtain r where log: "tw_log (snd (gitWorktreeRecords pf root ?t)) = [EvExec (list_call root) r]"
    and res: "case fst (gitWorktreeRecords pf root ?t) of Inl e \<Rightarrow> True
      | Inr records \<Rightarrow> \<exists>x. r = Inr x \<and> ex_code x = 0 \<and> records = parseWorktreeList (trim (ex_stdout x))"
    using gitWorktreeRecords_run [of pf root ?t] by auto
  obtain res1 t1 where run: "gitWorktreeRecords pf root ?t = (res1, t1)" by fastforce
  have g1: "guarded destructive ok (tw_log t1)" for ok
    using log run guarded_append [of destructive ok "[]"] by simp
  show ?thesis
  proof (cases res1)
    case (Inl e)
    then show ?thesis using run g1 by (simp add: reapOwnedSessionWorktree_def io_simps)
  next
    case (Inr records)
    then obtain x where x: "r = Inr x" "ex_code x = 0" "records = parseWorktreeList (trim (ex_stdout x))"
      using res run by auto
    then have listed: "listed root (tw_log t1 @ s) = records" for s
      using log run by (simp add: listed_def)
    show ?thesis
    proof (cases "findWorktreeRecord pf records d")
      case None
      then show ?thesis using run Inr g1 by (simp add: reapOwnedSessionWorktree_def io_simps)
    next
      case (Some rec)
      then have rec: "rec \<in> set records" "resolve pf (wr_path rec) = resolve pf d"
        using find_SomeD by (fastforce simp: findWorktreeRecord_def)+
      show ?thesis
      proof (cases "leaseOwnedBy legacy (wr_lockReason rec) sessionId")
        case False
        then show ?thesis using run Inr Some g1 by (simp add: reapOwnedSessionWorktree_def io_simps)
      next
        case True
        have "guarded destructive ?ok (tw_log (snd (reapSessionWorktree pf root d t1)))"
          using rec True by (intro reap_guarded g1) (auto simp: listed git_call_def list_ex_iff)
        then show ?thesis using run Inr Some True by (simp add: reapOwnedSessionWorktree_def io_simps)
      qed
    qed
  qed
qed

section \<open>Taking a lease\<close>

definition relocking :: "exec_call \<Rightarrow> bool" where
  "relocking c \<longleftrightarrow> destructive c \<or> git_verb c \<in> set [[''worktree'', ''unlock''], [''worktree'', ''lock'']]"

definition foreign_lock :: "(string \<Rightarrow> int option) \<Rightarrow> worktree_record option \<Rightarrow> bool" where
  "foreign_lock legacy record =
     (case record of None \<Rightarrow> False | Some r \<Rightarrow> classifySessionWorktree legacy r 0 = Foreign)"

lemma foreign_lock_iff:
  "foreign_lock legacy record \<longleftrightarrow>
     (case record of None \<Rightarrow> False | Some r \<Rightarrow> wr_locked r)
     \<and> parseSessionLease legacy (lock_reason_of record) = None
     \<and> parseStagedLock legacy (lock_reason_of record) = None"
  by (auto simp: foreign_lock_def classifySessionWorktree_def lock_reason_of_def split: option.splits)

lemma lock_not_destructive [simp]:
  "\<not> destructive (git_call (''-C'' # root # ''worktree'' # ''lock'' # args))"
  by (simp add: destructive_def)

lemma relock_verbs [simp]:
  "\<not> relocking (list_call root)" "\<not> relocking (status_call d)" "relocking (unlock_call root d)"
  "relocking (git_call (''-C'' # root # ''worktree'' # ''lock'' # args))"
  by (simp_all add: relocking_def destructive_def list_call_def status_call_def unlock_call_def)

lemma unlock_run:
  "\<exists>r w. io_ignore (unlockWorktree pf root d) t =
     (Inr (), t\<lparr>tw_host := w, tw_log := tw_log t @ [EvExec (unlock_call root d) r]\<rparr>)"
  by (auto simp: unlockWorktree_def io_ignore_def pexec_def io_simps unlock_call_def split: sum.splits)

lemma lock_run:
  "reason \<noteq> [] \<Longrightarrow> \<exists>res r w. lockWorktree pf root d (Some reason) t =
     (res, t\<lparr>tw_host := w, tw_log := tw_log t @
        [EvExec (git_call [''-C'', root, ''worktree'', ''lock'', ''--reason'', reason, d]) r]\<rparr>)"
  by (auto simp: lockWorktree_def truthy_str_def pexec_def io_simps split: sum.splits)

text \<open>What a listing at the end of the trace shows of a directory's lock.\<close>

definition confirmed :: "'w platform \<Rightarrow> string \<Rightarrow> string \<Rightarrow> string \<Rightarrow> host_event list \<Rightarrow> bool" where
  "confirmed pf root d reason l \<longleftrightarrow>
     l \<noteq> [] \<and> lock_reason_of (findWorktreeRecord pf (listed root [last l]) d) = Some reason"

text \<open>The listing a trace starts with, if it starts with a successful one, satisfies a condition.\<close>

definition first_shows :: "'w platform \<Rightarrow> string \<Rightarrow> string \<Rightarrow> (worktree_record option \<Rightarrow> bool) \<Rightarrow> host_event list \<Rightarrow> bool" where
  "first_shows pf root d ok l \<longleftrightarrow>
     (\<exists>x l'. l = EvExec (list_call root) (Inr x) # l' \<and> ex_code x = 0
        \<and> ok (findWorktreeRecord pf (parseWorktreeList (trim (ex_stdout x))) d))"

abbreviation lock_call :: "string \<Rightarrow> string \<Rightarrow> string \<Rightarrow> exec_call" where
  "lock_call root d reason \<equiv> git_call [''-C'', root, ''worktree'', ''lock'', ''--reason'', reason, d]"

text \<open>Unlock, lock, list again: the common end of leasing and staging.\<close>

definition relock ::
  "'w platform \<Rightarrow> string \<Rightarrow> string \<Rightarrow> string \<Rightarrow> string \<Rightarrow> ('w, unit) host_io" where
  "relock pf repoRoot worktreeDir reason failure =
     io_bind (io_ignore (unlockWorktree pf repoRoot worktreeDir)) (\<lambda>_.
     io_bind (lockWorktree pf repoRoot worktreeDir (Some reason)) (\<lambda>_.
     io_bind (gitWorktreeRecords pf repoRoot) (\<lambda>records'.
       if lock_reason_of (findWorktreeRecord pf records' worktreeDir) \<noteq> Some reason
       then io_throw (failure @ worktreeDir) else io_return ())))"

lemma relock_guarded:
  assumes "reason \<noteq> []" "guarded relocking ok (tw_log t)" "\<And>s c. c \<in> {unlock_call root d, lock_call root d reason} \<Longrightarrow> ok (tw_log t @ s) c"
  shows "guarded relocking ok (tw_log (snd (relock pf root d reason failure t))) \<and>
    (case fst (relock pf root d reason failure t) of
       Inl e \<Rightarrow> True | Inr u \<Rightarrow> confirmed pf root d reason (tw_log (snd (relock pf root d reason failure t))))"
proof -
  let ?lock = "lock_call root d reason"
  obtain r1 w1 where u: "io_ignore (unlockWorktree pf root d) t =
      (Inr (), t\<lparr>tw_host := w1, tw_log := tw_log t @ [EvExec (unlock_call root d) r1]\<rparr>)" (is "_ = (_, ?t1)")
    using unlock_run [of pf root d t] by auto
  obtain res2 r2 w2 where l: "lockWorktree pf root d (Some reason) ?t1 =
      (res2, ?t1\<lparr>tw_host := w2, tw_log := tw_log ?t1 @ [EvExec ?lock r2]\<rparr>)" (is "_ = (_, ?t2)")
    using lock_run [OF assms(1), of pf root d ?t1] by auto
  have "ok (tw_log t) (unlock_call root d)" "ok (tw_log t @ [EvExec (unlock_call root d) r1]) ?lock"
    using assms(3) [of _ "[]"] assms(3) [of _ "[EvExec (unlock_call root d) r1]"] by simp_all
  then have g2: "guarded relocking ok (tw_log ?t2)"
    using assms by (simp add: guarded_append)
  show ?thesis
  proof (cases res2)
    case (Inl e)
    have "relock pf root d reason failure t = (Inl e, ?t2)"
      using u l Inl by (simp add: relock_def io_simps)
    with g2 show ?thesis by simp
  next
    case (Inr x)
    obtain res3 t3 where g: "gitWorktreeRecords pf root ?t2 = (res3, t3)" by fastforce
    obtain r3 where r3: "tw_log t3 = tw_log ?t2 @ [EvExec (list_call root) r3]"
      "case res3 of Inl e \<Rightarrow> True
       | Inr records \<Rightarrow> \<exists>x. r3 = Inr x \<and> ex_code x = 0 \<and> records = parseWorktreeList (trim (ex_stdout x))"
      using gitWorktreeRecords_run [of pf root ?t2] g by auto
    have g3: "guarded relocking ok (tw_log t3)" using g2 r3(1) by (simp add: guarded_append)
    have end3: "snd (relock pf root d reason failure t) = t3"
      using u l Inr g by (auto simp: relock_def io_simps split: sum.splits)
    have "confirmed pf root d reason (tw_log t3)" if "fst (relock pf root d reason failure t) = Inr y" for y
      using that u l Inr g r3
      by (auto simp: relock_def io_simps confirmed_def listed_def split: sum.splits if_splits)
    then show ?thesis using g3 end3 by (auto split: sum.splits)
  qed
qed

lemma acquire_relock:
  "acquireSessionLease legacy pf root d sid now =
     io_bind (gitWorktreeRecords pf root) (\<lambda>records.
       if foreign_lock legacy (findWorktreeRecord pf records d) then io_return ()
       else relock pf root d (sessionLeaseReason sid now) ''Failed to acquire the session lease on '')"
  unfolding acquireSessionLease_def relock_def foreign_lock_iff Let_def by (rule refl)

lemma stage_relock:
  "stageWorktreeLock legacy pf root d now =
     io_bind (gitWorktreeRecords pf root) (\<lambda>records.
       if (case findWorktreeRecord pf records d of None \<Rightarrow> False
           | Some r \<Rightarrow> wr_locked r \<and> classifySessionWorktree legacy r (int now) \<noteq> Cold)
       then io_return ()
       else relock pf root d (stagedLockReason now) ''Failed to take the staged lock on '')"
  unfolding stageWorktreeLock_def relock_def Let_def by (rule refl)

text \<open>One listing, then a relock where the listing allows it.\<close>

lemma list_then_relock:
  fixes refuse :: "worktree_record option \<Rightarrow> bool"
  assumes "reason \<noteq> []"
    and m: "m = io_bind (gitWorktreeRecords pf root) (\<lambda>records.
       if refuse (findWorktreeRecord pf records d) then io_return () else relock pf root d reason failure)"
    and run: "m \<lparr>tw_host = w, tw_log = []\<rparr> = (res, t')"
  shows "guarded relocking (\<lambda>l c. c \<in> {unlock_call root d, lock_call root d reason} \<and> first_shows pf root d (\<lambda>r. \<not> refuse r) l) (tw_log t')
    \<and> (case res of Inl e \<Rightarrow> True
       | Inr u \<Rightarrow> first_shows pf root d refuse (tw_log t') \<or> confirmed pf root d reason (tw_log t'))"
    (is "guarded relocking ?ok _ \<and> _")
proof -
  let ?t = "\<lparr>tw_host = w, tw_log = []\<rparr>"
  obtain res1 t1 where g: "gitWorktreeRecords pf root ?t = (res1, t1)" by fastforce
  obtain r where r: "tw_log t1 = [EvExec (list_call root) r]"
    "case res1 of Inl e \<Rightarrow> True
     | Inr records \<Rightarrow> \<exists>x. r = Inr x \<and> ex_code x = 0 \<and> records = parseWorktreeList (trim (ex_stdout x))"
    using gitWorktreeRecords_run [of pf root ?t] g by auto
  have g1: "guarded relocking ok (tw_log t1)" for ok
    using r(1) guarded_append [of relocking ok "[]"] by simp
  show ?thesis
  proof (cases res1)
    case (Inl e)
    then have "res = Inl e" "t' = t1" using run g by (simp_all add: m io_simps)
    then show ?thesis using g1 by simp
  next
    case (Inr records)
    then obtain x where x: "r = Inr x" "ex_code x = 0" "records = parseWorktreeList (trim (ex_stdout x))"
      using r(2) by auto
    then have first: "first_shows pf root d ok (tw_log t1 @ s)" if "ok (findWorktreeRecord pf records d)" for s ok
      using r(1) that by (simp add: first_shows_def)
    show ?thesis
    proof (cases "refuse (findWorktreeRecord pf records d)")
      case True
      then have "res = Inr ()" "t' = t1" using run g Inr by (simp_all add: m io_simps)
      then show ?thesis using g1 first [of refuse "[]", OF True] by simp
    next
      case False
      then have "relock pf root d reason failure t1 = (res, t')"
        using run g Inr by (simp add: m io_simps)
      then show ?thesis
        using relock_guarded [OF assms(1) g1 [of ?ok], of root d pf failure] first [of "\<lambda>r. \<not> refuse r", OF False]
        by (auto split: sum.splits)
    qed
  qed
qed

text \<open>
  C17. Taking a lease runs no command that destroys or touches a lock but the unlocking of this worktree and its
  locking with the new lease, and these only after a successful listing, the first command, shows that its lock is
  not foreign; and it reports success only when that listing shows the lock foreign, and it is left alone, or when a
  final listing shows the very reason it wrote.
\<close>

theorem acquire_spares_foreign_and_confirms:
  "case acquireSessionLease legacy pf root d sid now \<lparr>tw_host = w, tw_log = []\<rparr> of (res, t') \<Rightarrow>
     guarded relocking (\<lambda>l c. c \<in> {unlock_call root d, lock_call root d (sessionLeaseReason sid now)}
       \<and> first_shows pf root d (\<lambda>r. \<not> foreign_lock legacy r) l) (tw_log t') \<and>
     (case res of Inl e \<Rightarrow> True
      | Inr u \<Rightarrow> first_shows pf root d (foreign_lock legacy) (tw_log t')
               \<or> confirmed pf root d (sessionLeaseReason sid now) (tw_log t'))"
proof -
  have "sessionLeaseReason sid now \<noteq> []" by (simp add: sessionLeaseReason_def SESSION_LOCK_REASON_PREFIX_def)
  note run = list_then_relock [OF this acquire_relock]
  show ?thesis by (clarify, elim run)
qed

text \<open>
  Staging touches this worktree's lock only after a first listing shows it unlocked or cold, and nothing else,
  and reports success only when that listing shows a lock that is not cold, and it is left alone, or
  when a final listing shows the very reason it wrote.
\<close>

definition live_lock :: "(string \<Rightarrow> int option) \<Rightarrow> nat \<Rightarrow> worktree_record option \<Rightarrow> bool" where
  "live_lock legacy now record = (case record of None \<Rightarrow> False
     | Some r \<Rightarrow> wr_locked r \<and> classifySessionWorktree legacy r (int now) \<noteq> Cold)"

theorem staging_spares_live_locks:
  "case stageWorktreeLock legacy pf root d now \<lparr>tw_host = w, tw_log = []\<rparr> of (res, t') \<Rightarrow>
     guarded relocking (\<lambda>l c. c \<in> {unlock_call root d, lock_call root d (stagedLockReason now)}
       \<and> first_shows pf root d (\<lambda>r. \<not> live_lock legacy now r) l) (tw_log t') \<and>
     (case res of Inl e \<Rightarrow> True
      | Inr u \<Rightarrow> first_shows pf root d (live_lock legacy now) (tw_log t')
               \<or> confirmed pf root d (stagedLockReason now) (tw_log t'))"
proof -
  have "stagedLockReason now \<noteq> []" by (simp add: stagedLockReason_def STAGED_LOCK_REASON_PREFIX_def)
  note run = list_then_relock [OF this stage_relock [folded live_lock_def]]
  show ?thesis by (clarify, elim run)
qed

end
