(* ===== verification/Sweep.thy ===== *)
theory Sweep
  imports Lease
begin

text \<open>
  The session-start sweep (\<open>pi/core/git/worktrees/session-sweep.ts\<close>): which of the listed
  worktrees it looks at, and the reclaiming of the cold and clean ones. The lemmas follow the
  loop over the listing with an assertion on the trace.
\<close>

text \<open>\<open>/^agent-[a-z0-9]+\//\<close> and \<open>/^agent-[a-z0-9]+$/\<close>.\<close>

definition LEGACY_AGENT_BRANCH_RE :: "string \<Rightarrow> bool" where
  "LEGACY_AGENT_BRANCH_RE s \<longleftrightarrow> startsWith s ''agent-'' \<and>
     (let token = takeWhile is_lower_alnum (drop 6 s)
      in token \<noteq> [] \<and> startsWith (drop (6 + length token) s) ''/'')"

definition AGENT_LABEL_DIR_RE :: "string \<Rightarrow> bool" where
  "AGENT_LABEL_DIR_RE s \<longleftrightarrow>
     startsWith s ''agent-'' \<and> drop 6 s \<noteq> [] \<and> list_all is_lower_alnum (drop 6 s)"

definition AGENT_BRANCH_NAMESPACE :: string where "AGENT_BRANCH_NAMESPACE = ''agent/''"

record sweep_result =
  sw_reclaimed :: "string list"
  sw_surfaced :: "string list"
  sw_kept :: nat

definition isAgentBranch :: "string option \<Rightarrow> bool" where
  "isAgentBranch branch =
     (case branch of None \<Rightarrow> False
      | Some b \<Rightarrow> startsWith b AGENT_BRANCH_NAMESPACE \<or> LEGACY_AGENT_BRANCH_RE b)"

definition isSessionWorktree :: "'w platform \<Rightarrow> string \<Rightarrow> string \<Rightarrow> bool" where
  "isSessionWorktree pf recordPath identityRoot =
     (let relative = path_relative (pf_cwd pf) identityRoot (resolve pf recordPath)
      in if relative = [] \<or> startsWith relative ''..'' \<or> isAbsolute relative then False
         else (let segments = split_on slash relative
               in if length segments < 1 \<or> length segments > 2 then False
                  else \<not> AGENT_LABEL_DIR_RE (hd segments)))"

text \<open>One turn of the loop over the listing.\<close>

definition sweep_record ::
  "(string \<Rightarrow> int option) \<Rightarrow> 'w platform \<Rightarrow> string \<Rightarrow> string \<Rightarrow> int \<Rightarrow> sweep_result \<Rightarrow> worktree_record
    \<Rightarrow> ('w, sweep_result) host_io" where
  "sweep_record legacy pf repoRoot identityRoot now result record =
     (if isAgentBranch (wr_branch record) \<or> \<not> isSessionWorktree pf (wr_path record) identityRoot
      then io_return result
      else if classifySessionWorktree legacy record now \<noteq> Cold
      then io_return (result\<lparr>sw_kept := sw_kept result + 1\<rparr>)
      else io_bind (reapSessionWorktree pf repoRoot (wr_path record)) (\<lambda>outcome.
        io_return
          (if outcome = Reaped then result\<lparr>sw_reclaimed := sw_reclaimed result @ [wr_path record]\<rparr>
           else if outcome = KeptDirty then result\<lparr>sw_surfaced := sw_surfaced result @ [wr_path record]\<rparr>
           else result\<lparr>sw_kept := sw_kept result + 1\<rparr>)))"

definition sweepSessionWorktrees ::
  "(string \<Rightarrow> int option) \<Rightarrow> 'w platform \<Rightarrow> string \<Rightarrow> string \<Rightarrow> int \<Rightarrow> ('w, sweep_result) host_io" where
  "sweepSessionWorktrees legacy pf repoRoot identity now =
     (let identityRoot = path_join [worktreesRoot pf, identity];
          result = \<lparr>sw_reclaimed = [], sw_surfaced = [], sw_kept = 0\<rparr>
      in io_bind
           (io_catch (io_bind (gitWorktreeRecords pf repoRoot) (\<lambda>records. io_return (Some records)))
              (\<lambda>_. io_return None))
           (\<lambda>records. case records of
              None \<Rightarrow> io_return result
            | Some rs \<Rightarrow> io_foldl (sweep_record legacy pf repoRoot identityRoot now) result rs))"

section \<open>Safety\<close>

text \<open>A worktree the sweep may remove: a cold session worktree that is no agent's.\<close>

definition sweepable :: "(string \<Rightarrow> int option) \<Rightarrow> 'w platform \<Rightarrow> string \<Rightarrow> int \<Rightarrow> worktree_record \<Rightarrow> bool" where
  "sweepable legacy pf identity now record \<longleftrightarrow>
     classifySessionWorktree legacy record now = Cold \<and> \<not> isAgentBranch (wr_branch record)
     \<and> isSessionWorktree pf (wr_path record) (path_join [worktreesRoot pf, identity])"

definition sweep_grounds ::
  "(string \<Rightarrow> int option) \<Rightarrow> 'w platform \<Rightarrow> string \<Rightarrow> string \<Rightarrow> int \<Rightarrow> host_event list \<Rightarrow> exec_call \<Rightarrow> bool" where
  "sweep_grounds legacy pf root identity now l c \<longleftrightarrow> just_clean root l c \<and>
     list_ex (\<lambda>r. sweepable legacy pf identity now r \<and> wr_path r = last (xc_args c)) (listed root l)"

definition sweep_inv ::
  "(string \<Rightarrow> int option) \<Rightarrow> 'w platform \<Rightarrow> string \<Rightarrow> string \<Rightarrow> int \<Rightarrow> worktree_record list \<Rightarrow> host_event list \<Rightarrow> bool" where
  "sweep_inv legacy pf root identity now records l \<longleftrightarrow>
     guarded destructive (sweep_grounds legacy pf root identity now) l \<and> l \<noteq> [] \<and> listed root l = records"

lemma listed_append: "l \<noteq> [] \<Longrightarrow> listed root (l @ s) = listed root l"
  by (cases l) (auto simp: listed_def split: host_event.splits sum.splits)

lemma reap_keeps_inv:
  assumes "sweep_inv legacy pf root identity now records (tw_log t)"
    and "rec \<in> set records" "sweepable legacy pf identity now rec"
  shows "sweep_inv legacy pf root identity now records
    (tw_log (snd (reapSessionWorktree pf root (wr_path rec) t)))"
proof -
  let ?ok = "\<lambda>l c. list_ex (\<lambda>r. sweepable legacy pf identity now r \<and> wr_path r = last (xc_args c)) (listed root l)"
  have grounds: "sweep_grounds legacy pf root identity now = (\<lambda>l c. just_clean root l c \<and> ?ok l c)"
    by (intro ext) (simp add: sweep_grounds_def)
  have l: "tw_log t \<noteq> []" "listed root (tw_log t) = records"
    using assms(1) by (auto simp: sweep_inv_def)
  have "guarded destructive (\<lambda>l c. just_clean root l c \<and> ?ok l c)
      (tw_log (snd (reapSessionWorktree pf root (wr_path rec) t)))"
    by (rule reap_guarded)
      (use assms l in \<open>auto simp: sweep_inv_def grounds listed_append git_call_def list_ex_iff\<close>)
  moreover obtain s where "tw_log (snd (reapSessionWorktree pf root (wr_path rec) t)) = tw_log t @ s"
    using reap_log [of pf root "wr_path rec" t] by blast
  ultimately show ?thesis using l by (simp add: sweep_inv_def grounds listed_append)
qed

lemma sweep_record_inv:
  assumes "rec \<in> set records"
  shows "hoare (on_log (sweep_inv legacy pf root identity now records))
    (sweep_record legacy pf root (path_join [worktreesRoot pf, identity]) now result rec)
    (\<lambda>_. on_log (sweep_inv legacy pf root identity now records))
    (on_log (sweep_inv legacy pf root identity now records))"
proof (cases "sweepable legacy pf identity now rec")
  case False
  then show ?thesis
    by (auto simp: sweep_record_def sweepable_def intro!: hoare_return)
next
  case True
  have "hoare (on_log (sweep_inv legacy pf root identity now records))
      (reapSessionWorktree pf root (wr_path rec))
      (\<lambda>_. on_log (sweep_inv legacy pf root identity now records))
      (on_log (sweep_inv legacy pf root identity now records))"
    using reap_keeps_inv [OF _ assms True] by (intro hoareI) (metis on_log_simps snd_conv)+
  then show ?thesis
    using True by (auto simp: sweep_record_def sweepable_def intro!: hoare_bind hoare_return)
qed

lemma sweep_safe:
  "guarded destructive
     (\<lambda>l c. just_clean root l c \<and>
        list_ex (\<lambda>r. sweepable legacy pf identity now r \<and> wr_path r = last (xc_args c)) (listed root l))
     (tw_log (snd (sweepSessionWorktrees legacy pf root identity now \<lparr>tw_host = w, tw_log = []\<rparr>)))"
  (is "guarded destructive ?ok _")
proof -
  let ?t = "\<lparr>tw_host = w, tw_log = []\<rparr>"
  have ok: "?ok = sweep_grounds legacy pf root identity now"
    by (intro ext) (simp add: sweep_grounds_def)
  obtain res1 t1 where g: "gitWorktreeRecords pf root ?t = (res1, t1)" by fastforce
  obtain r where r: "tw_log t1 = [EvExec (list_call root) r]"
    "case res1 of Inl e \<Rightarrow> True
     | Inr records \<Rightarrow> \<exists>x. r = Inr x \<and> ex_code x = 0 \<and> records = parseWorktreeList (trim (ex_stdout x))"
    using gitWorktreeRecords_run [of pf root ?t] g by auto
  have g1: "guarded destructive f (tw_log t1)" for f
    using r(1) guarded_append [of destructive f "[]"] by simp
  show ?thesis
  proof (cases res1)
    case (Inl e)
    then show ?thesis using g g1 by (simp add: sweepSessionWorktrees_def Let_def io_simps)
  next
    case (Inr records)
    have "sweep_inv legacy pf root identity now records (tw_log t1)"
      using Inr r g1 by (auto simp: sweep_inv_def listed_def)
    moreover have "hoare (on_log (sweep_inv legacy pf root identity now records))
        (io_foldl (sweep_record legacy pf root (path_join [worktreesRoot pf, identity]) now) result records)
        (\<lambda>_. on_log (sweep_inv legacy pf root identity now records))
        (on_log (sweep_inv legacy pf root identity now records))" for result
      by (rule hoare_foldl) (rule sweep_record_inv)
    ultimately have "sweep_inv legacy pf root identity now records (tw_log (snd
        (io_foldl (sweep_record legacy pf root (path_join [worktreesRoot pf, identity]) now) result records t1)))"
      for result
      using hoare_world [of "on_log (sweep_inv legacy pf root identity now records)"] by (metis on_log_simps)
    then show ?thesis
      using g Inr unfolding ok by (simp add: sweepSessionWorktrees_def Let_def io_simps sweep_inv_def)
  qed
qed

text \<open>
  C16. The sweep destroys nothing but cold, clean session worktrees: for every repository and whatever
  git answers, its only destructive commands are removals of a directory the listing shows as a
  session worktree of this repository, not an agent's, with no lock or an expired one, each right
  after git reported that directory clean; no branch is ever deleted.
\<close>

theorem sweep_removes_only_cold_clean:
  "guarded destructive
     (\<lambda>l c. just_clean root l c \<and>
        list_ex (\<lambda>r. sweepable legacy pf identity now r \<and> wr_path r = last (xc_args c)) (listed root l))
     (tw_log (snd (sweepSessionWorktrees legacy pf root identity now \<lparr>tw_host = w, tw_log = []\<rparr>)))"
  by (rule sweep_safe)

end
