(* ===== verification/Migrate.thy ===== *)
theory Migrate
  imports Lease
begin

text \<open>
  Moving worktrees from the legacy layout (\<open>pi/core/git/worktrees/migrate.ts\<close>): the plan over
  git's listing, when a refused move is tried again by force, and the run that carries the plan
  out one move at a time.
\<close>

record planned_move =
  mv_src :: string
  mv_dest :: string
  mv_label :: string

record migration_result =
  mg_moved :: "string list"
  mg_skipped :: "(string \<times> string) list"

text \<open>One record of the listing after the first: a move, or nothing.\<close>

definition plan_record ::
  "'w platform \<Rightarrow> string \<Rightarrow> string \<Rightarrow> string \<Rightarrow> string \<Rightarrow> worktree_record \<Rightarrow> planned_move list" where
  "plan_record pf bareName legacyRoot newRoot cwd record =
     (let p = resolve pf (wr_path record) in
      if \<not> isStrictlyWithin (pf_cwd pf) p legacyRoot then []
      else if isWithin (pf_cwd pf) p newRoot then []
      else if p = cwd \<or> isWithin (pf_cwd pf) cwd p then []
      else (case labelFromWorktreePath pf bareName p of
              Inl _ \<Rightarrow> []
            | Inr label \<Rightarrow> [\<lparr>mv_src = p, mv_dest = path_join [newRoot, label], mv_label = label\<rparr>]))"

definition planLegacyWorktreeMigration ::
  "'w platform \<Rightarrow> worktree_record list \<Rightarrow> string \<Rightarrow> string \<Rightarrow> planned_move list" where
  "planLegacyWorktreeMigration pf records identity cwd =
     (if slash \<notin> set identity then []
      else (case records of
              [] \<Rightarrow> []
            | mainRecord # rest \<Rightarrow>
                (let bareName = basename (resolve pf (wr_path mainRecord));
                     legacyRoot = path_join [worktreesRoot pf, bareName];
                     newRoot = path_join [worktreesRoot pf, identity]
                 in if legacyRoot = newRoot then []
                    else concat (map (plan_record pf bareName legacyRoot newRoot (resolve pf cwd)) rest))))"

definition shouldRetryMoveWithForce :: "string \<Rightarrow> bool" where
  "shouldRetryMoveWithForce stderr =
     (let normalized = toLowerCase stderr in
      if str_includes normalized ''locked'' then False
      else str_includes normalized ''use --force'' \<or> str_includes normalized ''modified or untracked''
           \<or> str_includes normalized ''contains modified'')"

definition shortReason :: "string \<Rightarrow> string" where
  "shortReason message = string_or (hd (split_on (CHR 0x0A) (trim message))) ''unknown error''"

definition move_call :: "string \<Rightarrow> bool \<Rightarrow> planned_move \<Rightarrow> exec_call" where
  "move_call repoRoot force m =
     git_call ([''-C'', repoRoot, ''worktree'', ''move''] @ (if force then [''--force''] else [])
       @ [mv_src m, mv_dest m])"

definition skip :: "planned_move \<Rightarrow> string \<Rightarrow> migration_result \<Rightarrow> migration_result" where
  "skip m reason result = result\<lparr>mg_skipped := mg_skipped result @ [(mv_label m, reason)]\<rparr>"

text \<open>The validation of a destination, whose failure is the reason of a skip.\<close>

definition check_destination :: "'w platform \<Rightarrow> string \<Rightarrow> planned_move \<Rightarrow> ('w, string option) host_io" where
  "check_destination pf identity m =
     io_catch
       (io_bind (io_lift (validateWorktreePath pf identity (mv_label m) (mv_dest m))) (\<lambda>_.
        io_bind (validateNoSymlinkedWorktreePath pf (mv_dest m)) (\<lambda>_. io_return None)))
       (\<lambda>e. io_return (Some (shortReason e)))"

definition run_move ::
  "'w platform \<Rightarrow> string \<Rightarrow> planned_move \<Rightarrow> migration_result \<Rightarrow> ('w, migration_result) host_io" where
  "run_move pf repoRoot m result =
     io_bind (pmkdir pf (dirname (mv_dest m))) (\<lambda>_.
     io_bind (pexec pf (move_call repoRoot False m)) (\<lambda>first.
     io_bind (if ex_code first \<noteq> 0 \<and> shouldRetryMoveWithForce (ex_stderr first)
              then pexec pf (move_call repoRoot True m) else io_return first) (\<lambda>moveResult.
       io_return (if ex_code moveResult \<noteq> 0 then skip m (shortReason (ex_stderr moveResult)) result
                  else result\<lparr>mg_moved := mg_moved result @ [mv_label m]\<rparr>))))"

definition migrate_one ::
  "'w platform \<Rightarrow> string \<Rightarrow> string \<Rightarrow> migration_result \<Rightarrow> planned_move \<Rightarrow> ('w, migration_result) host_io" where
  "migrate_one pf repoRoot identity result m =
     io_catch
       (io_bind (pexists pf (mv_dest m)) (\<lambda>there.
          if there then io_return (skip m ''destination exists'' result)
          else io_bind (check_destination pf identity m) (\<lambda>bad.
            case bad of
              Some reason \<Rightarrow> io_return (skip m reason result)
            | None \<Rightarrow> run_move pf repoRoot m result)))
       (\<lambda>e. io_return (skip m (shortReason e) result))"

definition migrateLegacyWorktrees ::
  "'w platform \<Rightarrow> string \<Rightarrow> string \<Rightarrow> string \<Rightarrow> ('w, migration_result) host_io" where
  "migrateLegacyWorktrees pf repoRoot identity cwd =
     (let result = \<lparr>mg_moved = [], mg_skipped = []\<rparr> in
      if slash \<notin> set identity then io_return result
      else io_bind (tryGitOutput pf repoRoot [''worktree'', ''list'', ''--porcelain'']) (\<lambda>out.
        case out of
          None \<Rightarrow> io_return result
        | Some text \<Rightarrow>
            (let records = parseWorktreeList text in
             case records of
               [] \<Rightarrow> io_return result
             | mainRecord # _ \<Rightarrow>
                 (let bareName = basename (resolve pf (wr_path mainRecord));
                      legacyRoot = path_join [worktreesRoot pf, bareName]
                  in io_bind (pexists pf legacyRoot) (\<lambda>there.
                       if \<not> there then io_return result
                       else io_bind (io_foldl (migrate_one pf repoRoot identity) result
                                      (planLegacyWorktreeMigration pf records identity cwd)) (\<lambda>result'.
                            io_bind (io_ignore (prmdir pf legacyRoot)) (\<lambda>_. io_return result')))))))"

section \<open>Safety\<close>

lemma plan_record_spec:
  "m \<in> set (plan_record pf bareName legacyRoot newRoot (resolve pf cwd) record) \<Longrightarrow>
   mv_src m = resolve pf (wr_path record) \<and> isStrictlyWithin (pf_cwd pf) (mv_src m) legacyRoot
   \<and> \<not> isWithin (pf_cwd pf) (mv_src m) newRoot \<and> \<not> isWithin (pf_cwd pf) (resolve pf cwd) (mv_src m)
   \<and> valid_label (mv_label m) \<and> mv_dest m = path_join [newRoot, mv_label m]"
  by (auto simp: plan_record_def Let_def dest: labelFromWorktreePath_Inr labelFromWorktreePath_Inr [OF sym]
      split: if_splits sum.splits)

text \<open>
  Grounds for a move: it is one of the plan over the listing the trace begins with, and a move by
  force repeats, at once, one that git refused for reasons other than a lock.
\<close>

definition move_grounds ::
  "'w platform \<Rightarrow> string \<Rightarrow> string \<Rightarrow> string \<Rightarrow> host_event list \<Rightarrow> exec_call \<Rightarrow> bool" where
  "move_grounds pf root identity cwd l c \<longleftrightarrow>
     list_ex (\<lambda>m. c = move_call root False m
         \<or> c = move_call root True m \<and> l \<noteq> [] \<and>
           (case last l of
              EvExec c' (Inr r) \<Rightarrow> c' = move_call root False m \<and> ex_code r \<noteq> 0 \<and> shouldRetryMoveWithForce (ex_stderr r)
            | _ \<Rightarrow> False))
       (planLegacyWorktreeMigration pf (listed root l) identity cwd)"

definition migrate_inv ::
  "'w platform \<Rightarrow> string \<Rightarrow> string \<Rightarrow> string \<Rightarrow> worktree_record list \<Rightarrow> host_event list \<Rightarrow> bool" where
  "migrate_inv pf root identity cwd records l \<longleftrightarrow>
     guarded destructive (move_grounds pf root identity cwd) l \<and> l \<noteq> [] \<and> listed root l = records"

lemma listed_snoc: "l \<noteq> [] \<Longrightarrow> listed root (l @ s) = listed root l"
  by (cases l) (auto simp: listed_def split: host_event.splits sum.splits)

lemma migrate_keeps:
  assumes "\<And>l. migrate_inv pf root identity cwd records l \<Longrightarrow> destructive c \<Longrightarrow> move_grounds pf root identity cwd l c"
  shows "keeps (migrate_inv pf root identity cwd records) c"
  using assms by (auto simp: keeps_def migrate_inv_def listed_snoc)

lemma migrate_writes [simp]: "keeps_writes (migrate_inv pf root identity cwd records)"
  by (auto simp: keeps_writes_def migrate_inv_def listed_snoc)

lemma run_move_safe:
  assumes "m \<in> set (planLegacyWorktreeMigration pf records identity cwd)"
  shows "stable (migrate_inv pf root identity cwd records) (run_move pf root m result)"
proof -
  let ?I = "migrate_inv pf root identity cwd records"
  have first: "hoare (on_log ?I) (pexec pf (move_call root False m))
      (\<lambda>r. on_log (\<lambda>l. ?I l \<and> last l = EvExec (move_call root False m) (Inr r))) (on_log ?I)"
    unfolding pexec_def
    by (rule hoare_traced)
      (use assms in \<open>auto simp: migrate_inv_def listed_snoc move_grounds_def list_ex_iff\<close>)
  have second: "hoare (on_log (\<lambda>l. ?I l \<and> last l = EvExec (move_call root False m) (Inr r)))
      (if ex_code r \<noteq> 0 \<and> shouldRetryMoveWithForce (ex_stderr r)
       then pexec pf (move_call root True m) else io_return r)
      (\<lambda>_. on_log ?I) (on_log ?I)" for r
  proof (cases "ex_code r \<noteq> 0 \<and> shouldRetryMoveWithForce (ex_stderr r)")
    case True
    then show ?thesis
      unfolding pexec_def
      by simp (intro hoare_traced; use assms True in
          \<open>auto simp: migrate_inv_def listed_snoc move_grounds_def list_ex_iff\<close>)
  qed (auto intro: hoare_return)
  show ?thesis
    unfolding run_move_def stable_def
    by (rule hoare_bind, rule stable_writes(1) [unfolded stable_def], simp)
      (rule hoare_bind [OF first], rule hoare_bind [OF second], auto intro: hoare_return)
qed

lemma migrate_one_safe:
  assumes "m \<in> set (planLegacyWorktreeMigration pf records identity cwd)"
  shows "stable (migrate_inv pf root identity cwd records) (migrate_one pf root identity result m)"
  unfolding migrate_one_def check_destination_def
  by (rule run_move_safe [OF assms] stable_intros)+

lemma migrate_safe:
  "guarded destructive (move_grounds pf root identity cwd)
     (tw_log (snd (migrateLegacyWorktrees pf root identity cwd \<lparr>tw_host = w, tw_log = []\<rparr>)))"
proof -
  let ?t = "\<lparr>tw_host = w, tw_log = []\<rparr>" and ?ok = "move_grounds pf root identity cwd"
  show ?thesis
  proof (cases "slash \<in> set identity")
    case False
    then show ?thesis by (simp add: migrateLegacyWorktrees_def io_simps)
  next
    case True
    obtain r w1 where r: "pf_exec pf (list_call root) w = (r, w1)" by fastforce
    let ?t1 = "\<lparr>tw_host = w1, tw_log = [EvExec (list_call root) r]\<rparr>"
    define out where "out = (case r of Inl e \<Rightarrow> None
        | Inr x \<Rightarrow> if ex_code x = 0 then Some (trim (ex_stdout x)) else None)"
    have run: "tryGitOutput pf root [''worktree'', ''list'', ''--porcelain''] ?t = (Inr out, ?t1)"
      using r by (cases r) (auto simp: out_def tryGitOutput_def gitOutput_def pexec_def io_simps list_call_def)
    have g1: "guarded destructive ?ok [EvExec (list_call root) r]"
      using guarded_append [of destructive ?ok "[]"] by simp
    show ?thesis
    proof (cases out)
      case None
      with run g1 True show ?thesis by (simp add: migrateLegacyWorktrees_def Let_def io_simps)
    next
      case (Some txt0)
      then obtain x where x: "r = Inr x" "ex_code x = 0" "txt0 = trim (ex_stdout x)"
        by (auto simp: out_def split: sum.splits if_splits)
      let ?I = "migrate_inv pf root identity cwd (parseWorktreeList txt0)"
      have I: "?I (tw_log ?t1)" using g1 x by (simp add: migrate_inv_def listed_def)
      show ?thesis
      proof (cases "parseWorktreeList txt0")
        case Nil
        with run g1 True Some show ?thesis by (simp add: migrateLegacyWorktrees_def Let_def io_simps)
      next
        case (Cons mainRecord rest)
        let ?legacy = "path_join [worktreesRoot pf, basename (resolve pf (wr_path mainRecord))]"
        let ?result = "\<lparr>mg_moved = [], mg_skipped = []\<rparr>"
        let ?tail = "io_bind (pexists pf ?legacy) (\<lambda>there.
             if \<not> there then io_return ?result
             else io_bind (io_foldl (migrate_one pf root identity) ?result
                            (planLegacyWorktreeMigration pf (parseWorktreeList txt0) identity cwd)) (\<lambda>result'.
                  io_bind (io_ignore (prmdir pf ?legacy)) (\<lambda>_. io_return result')))"
        have "stable ?I ?tail"
          by (intro stable_basic stable_if stable_foldl stable_reads stable_writes migrate_one_safe migrate_writes)
        then have "?I (tw_log (snd (?tail ?t1)))" using I by (rule stable_run)
        moreover have "migrateLegacyWorktrees pf root identity cwd ?t = ?tail ?t1"
          using run True Some Cons by (simp add: migrateLegacyWorktrees_def Let_def io_simps)
        ultimately show ?thesis by (simp add: migrate_inv_def)
      qed
    qed
  qed
qed

text \<open>
  C18. The migration's only destructive commands are the moves of its plan over the listing it read:
  each from a worktree strictly inside the legacy directory, not already in the new one and not
  holding the launch directory, to the place of its valid label in the new one; force is used
  only to repeat at once a move that git refused for a reason other than a lock.
\<close>

theorem migration_only_planned_moves:
  "guarded destructive (move_grounds pf root identity cwd)
     (tw_log (snd (migrateLegacyWorktrees pf root identity cwd \<lparr>tw_host = w, tw_log = []\<rparr>))) \<and>
   list_all (\<lambda>m. isStrictlyWithin (pf_cwd pf) (mv_src m)
               (path_join [worktreesRoot pf, basename (resolve pf (wr_path (hd records)))])
             \<and> \<not> isWithin (pf_cwd pf) (mv_src m) (path_join [worktreesRoot pf, identity])
             \<and> \<not> isWithin (pf_cwd pf) (resolve pf cwd) (mv_src m)
             \<and> valid_label (mv_label m)
             \<and> mv_dest m = path_join [path_join [worktreesRoot pf, identity], mv_label m])
     (planLegacyWorktreeMigration pf records identity cwd)"
proof
  show "list_all (\<lambda>m. isStrictlyWithin (pf_cwd pf) (mv_src m)
               (path_join [worktreesRoot pf, basename (resolve pf (wr_path (hd records)))])
             \<and> \<not> isWithin (pf_cwd pf) (mv_src m) (path_join [worktreesRoot pf, identity])
             \<and> \<not> isWithin (pf_cwd pf) (resolve pf cwd) (mv_src m)
             \<and> valid_label (mv_label m)
             \<and> mv_dest m = path_join [path_join [worktreesRoot pf, identity], mv_label m])
     (planLegacyWorktreeMigration pf records identity cwd)"
    by (auto simp: planLegacyWorktreeMigration_def Let_def list_all_iff dest!: plan_record_spec split: list.splits)
qed (rule migrate_safe)

end
