(* ===== verification/Workspace.thy ===== *)
theory Workspace
  imports SessionState NodePath
begin

text \<open>
  The workspace of a session (\<open>pi/core/project/workspace/state.ts\<close>, \<open>affinity.ts\<close>,
  \<open>unsafe-edit.ts\<close>, \<open>setup.ts\<close>, \<open>dirty-reminder.ts\<close>, and the effective directory of
  \<open>runtime.ts\<close>): its state, the write scope, when a saved worktree belongs to it, the unsafe-edit
  flag, and the reminder about uncommitted changes. A worktree of the workspace is the
  \<open>session_worktree\<close> a session's state document stores.
\<close>

section \<open>State\<close>

record repo_context =
  rp_isRepo :: bool
  rp_name :: string
  rp_root :: string
  rp_remoteUrl :: "string option"

record workspace_state =
  ws_launchCwd :: string
  ws_effectiveCwd :: string
  ws_scratchDir :: string
  ws_repo :: "repo_context option"
  ws_protectedRoot :: "string option"
  ws_activeWorktree :: "session_worktree option"
  ws_unsafeEdit :: bool

record unsafe_edit_constraints =
  ue_readOnly :: bool
  ue_hasUI :: bool
  ue_isSubagent :: bool
  ue_sandboxed :: bool

datatype unsafe_edit_result =
  UeDisabled | UeEnabled | UeIgnoredReadOnly | UeIgnoredSubagent | UeIgnoredNonInteractive

text \<open>The registry of allowed roots: a map in order of insertion.\<close>

type_synonym roots_providers = "(string \<times> string list) list"

definition registerWorkspaceAllowedRootsProvider ::
  "string \<Rightarrow> string list \<Rightarrow> roots_providers \<Rightarrow> roots_providers" where
  "registerWorkspaceAllowedRootsProvider i roots ps = set_key i roots ps"

definition listWorkspaceAllowedRoots :: "roots_providers \<Rightarrow> string list" where
  "listWorkspaceAllowedRoots ps = concat (map snd ps)"

definition nonempty_list :: "string option \<Rightarrow> string list" where
  "nonempty_list s = (case s of None \<Rightarrow> [] | Some x \<Rightarrow> if x = [] then [] else [x])"

definition allowedWriteDirsFrom :: "workspace_state option \<Rightarrow> string list \<Rightarrow> string list" where
  "allowedWriteDirsFrom state allowedRoots =
     allowedRoots
     @ (case state of None \<Rightarrow> []
        | Some s \<Rightarrow> (case ws_activeWorktree s of None \<Rightarrow> [] | Some w \<Rightarrow> [wt_path w]))
     @ (case state of None \<Rightarrow> [] | Some s \<Rightarrow> nonempty_list (Some (ws_scratchDir s)))"

definition computeEffectiveCwd :: "string \<Rightarrow> workspace_state \<Rightarrow> string" where
  "computeEffectiveCwd cwd s =
     (case (ws_activeWorktree s, ws_protectedRoot s) of
        (Some w, Some root) \<Rightarrow>
          if wt_path w = [] \<or> root = [] then ws_launchCwd s
          else if isWithin cwd (ws_launchCwd s) root
          then path_resolve cwd [wt_path w, path_relative cwd root (ws_launchCwd s)]
          else wt_path w
      | _ \<Rightarrow> ws_launchCwd s)"

section \<open>Affinity\<close>

definition buildActiveWorktreeState ::
  "string \<Rightarrow> workspace_state \<Rightarrow> session_worktree \<Rightarrow> active_worktree option" where
  "buildActiveWorktreeState now s w =
     map_option (\<lambda>repo. \<lparr>aw_version = 1, aw_repoName = rp_name repo, aw_repoRoot = rp_root repo,
       aw_remoteUrl = rp_remoteUrl repo, aw_worktree = w, aw_updatedAt = now\<rparr>) (ws_repo s)"

definition workspaceMatchesActiveWorktreeState ::
  "string \<Rightarrow> workspace_state \<Rightarrow> active_worktree \<Rightarrow> bool" where
  "workspaceMatchesActiveWorktreeState cwd s a =
     (case ws_repo s of
        None \<Rightarrow> False
      | Some repo \<Rightarrow>
          if rp_name repo \<noteq> aw_repoName a then False
          else if path_resolve cwd [rp_root repo] \<noteq> path_resolve cwd [aw_repoRoot a] then False
          else if nonempty_list (rp_remoteUrl repo) \<noteq> [] \<and> nonempty_list (aw_remoteUrl a) \<noteq> []
                  \<and> rp_remoteUrl repo \<noteq> aw_remoteUrl a then False
          else True)"

section \<open>Unsafe edits\<close>

definition applyUnsafeEditFlag ::
  "workspace_state \<Rightarrow> bool \<Rightarrow> unsafe_edit_constraints \<Rightarrow> workspace_state \<times> unsafe_edit_result" where
  "applyUnsafeEditFlag s unsafeEditFlag c =
     (let s = s\<lparr>ws_unsafeEdit := False\<rparr> in
      if \<not> unsafeEditFlag then (s, UeDisabled)
      else if ue_readOnly c then (s, UeIgnoredReadOnly)
      else if \<not> ue_sandboxed c \<and> ue_isSubagent c then (s, UeIgnoredSubagent)
      else if \<not> ue_sandboxed c \<and> \<not> ue_hasUI c then (s, UeIgnoredNonInteractive)
      else (s\<lparr>ws_unsafeEdit := True\<rparr>, UeEnabled))"

lemma applyUnsafeEditFlag_grants:
  "ws_unsafeEdit (fst (applyUnsafeEditFlag s flag c)) \<longleftrightarrow>
     flag \<and> \<not> ue_readOnly c \<and> (ue_sandboxed c \<or> ue_hasUI c \<and> \<not> ue_isSubagent c)"
  by (auto simp: applyUnsafeEditFlag_def Let_def)

section \<open>Setup hooks\<close>

record setup_result =
  sr_ran :: bool
  sr_exitCode :: int
  sr_timedOut :: bool
  sr_stderrTail :: string

definition shouldRunWorktreeSetup :: "bool \<Rightarrow> string option \<Rightarrow> bool" where
  "shouldRunWorktreeSetup created command \<longleftrightarrow> created \<and> command \<noteq> None"

definition tail :: "string \<Rightarrow> string" where
  "tail value = (if length value > 2000 then drop (length value - 2000) value else value)"

section \<open>The reminder about uncommitted changes\<close>

record reminder_flags =
  rf_queued :: bool
  rf_turnActive :: bool

datatype dirty_message = DirtyWorktreeReminder | AgentDirtyWorktreeReminder

text \<open>
  What \<open>git status\<close> answers when asked: the call throws, or gives its code, whether it was killed,
  and its output. Sending the message succeeds or throws.
\<close>

record status_answer =
  st_code :: int
  st_killed :: bool
  st_stdout :: string

record dirty_host =
  dh_readOnly :: bool
  dh_subagent :: bool
  dh_worktree :: "session_worktree option"
  dh_status :: "status_answer result"
  dh_sends :: bool

datatype dirty_event =
    DirtyMessageStart bool
  | DirtyAgentEnd dirty_host
  | DirtyAgentSettled

definition dirty_agent_end :: "dirty_host \<Rightarrow> reminder_flags \<Rightarrow> reminder_flags \<times> dirty_message list" where
  "dirty_agent_end h f =
     (if rf_queued f \<or> rf_turnActive f then (f, [])
      else if dh_readOnly h then (f, [])
      else (case dh_worktree h of
        None \<Rightarrow> (f, [])
      | Some w \<Rightarrow>
          if wt_path w = [] then (f, [])
          else if dh_subagent h \<and> nonempty_list (wt_branch w) = [] then (f, [])
          else (case dh_status h of
            Inl _ \<Rightarrow> (f\<lparr>rf_queued := False\<rparr>, [])
          | Inr status \<Rightarrow>
              if st_code status \<noteq> 0 \<or> st_killed status \<or> trim (st_stdout status) = [] then (f, [])
              else if \<not> dh_sends h then (f\<lparr>rf_queued := False\<rparr>, [])
              else (f\<lparr>rf_queued := True\<rparr>,
                    [if dh_subagent h then AgentDirtyWorktreeReminder else DirtyWorktreeReminder]))))"

text \<open>\<open>DirtyMessageStart b\<close>: a message starts, \<open>b\<close> telling whether it is this reminder.\<close>

definition dirty_step :: "dirty_event \<Rightarrow> reminder_flags \<Rightarrow> reminder_flags \<times> dirty_message list" where
  "dirty_step ev f =
     (case ev of
        DirtyMessageStart mine \<Rightarrow>
          if \<not> mine then (f, []) else (f\<lparr>rf_queued := False, rf_turnActive := True\<rparr>, [])
      | DirtyAgentEnd h \<Rightarrow> dirty_agent_end h f
      | DirtyAgentSettled \<Rightarrow> (f\<lparr>rf_queued := False, rf_turnActive := False\<rparr>, []))"

fun dirty_run :: "dirty_event list \<Rightarrow> reminder_flags \<Rightarrow> reminder_flags \<times> dirty_message list" where
  "dirty_run [] f = (f, [])"
| "dirty_run (ev # evs) f =
     (let (f1, m1) = dirty_step ev f; (f2, m2) = dirty_run evs f1 in (f2, m1 @ m2))"

lemma dirty_blocked_run:
  "list_all (\<lambda>ev. ev \<noteq> DirtyAgentSettled) evs \<Longrightarrow> rf_queued f \<or> rf_turnActive f \<Longrightarrow> snd (dirty_run evs f) = []"
proof (induction evs arbitrary: f)
  case (Cons ev evs)
  obtain f1 m1 where s: "dirty_step ev f = (f1, m1)" by fastforce
  then have "m1 = [] \<and> (rf_queued f1 \<or> rf_turnActive f1)"
    using Cons.prems by (cases ev) (auto simp: dirty_step_def dirty_agent_end_def split: if_splits)
  with Cons s show ?case by (simp add: Let_def split: prod.splits)
qed simp

lemma dirty_step_sends:
  "dirty_step ev f = (f1, m1) \<Longrightarrow> m1 = [] \<or> length m1 = 1 \<and> rf_queued f1"
  by (cases ev) (auto simp: dirty_step_def dirty_agent_end_def split: if_splits option.splits sum.splits)

text \<open>At most one reminder between two settled agents, whatever happens in between.\<close>

lemma dirty_at_most_one:
  "list_all (\<lambda>ev. ev \<noteq> DirtyAgentSettled) evs \<Longrightarrow> length (snd (dirty_run evs f)) \<le> 1"
proof (induction evs arbitrary: f)
  case (Cons ev evs)
  obtain f1 m1 where s: "dirty_step ev f = (f1, m1)" by fastforce
  obtain f2 m2 where r: "dirty_run evs f1 = (f2, m2)" by fastforce
  from dirty_step_sends [OF s] show ?case
  proof
    assume "m1 = []"
    with Cons.IH [of f1] Cons.prems s r show ?thesis by simp
  next
    assume "length m1 = 1 \<and> rf_queued f1"
    with dirty_blocked_run [of evs f1] Cons.prems s r show ?thesis by simp
  qed
qed simp

end
