(* ===== verification/WorkspaceGuards.thy ===== *)
theory WorkspaceGuards
  imports Workspace
begin

text \<open>
  The tool-call guards of the workspace (\<open>pi/core/project/workspace/guards.ts\<close>): a shell command
  is moved into the effective directory, a path of a file tool is blocked, retargeted or passed.
  The guard may change the input of the call it looks at, so its result is the refusal, if any,
  and the input the tool then sees.
\<close>

record tool_input =
  in_path :: "string option"
  in_command :: "string option"

definition STRUCTURED_PATH_TOOLS :: "string list" where
  "STRUCTURED_PATH_TOOLS = [''read'', ''edit'', ''write'', ''grep'', ''find'', ''ls'']"

definition STRUCTURED_MUTATION_TOOLS :: "string list" where
  "STRUCTURED_MUTATION_TOOLS = [''edit'', ''write'']"

definition OPTIONAL_PATH_TOOLS :: "string list" where
  "OPTIONAL_PATH_TOOLS = [''grep'', ''find'', ''ls'']"

definition expandPath :: "string \<Rightarrow> string \<Rightarrow> string" where
  "expandPath home filePath =
     (let normalized = (if startsWith filePath ''@'' then slice_from filePath 1 else filePath)
      in if normalized = ''~'' then home
         else if startsWith normalized ''~/'' then home @ slice_from normalized 1
         else normalized)"

definition isAllowedPath :: "string \<Rightarrow> string list \<Rightarrow> string \<Rightarrow> bool" where
  "isAllowedPath cwd allowedRoots resolved = list_ex (\<lambda>root. isWithin cwd resolved root) allowedRoots"

definition dquote :: "string \<Rightarrow> string" where
  "dquote s = [CHR 0x22] @ s @ [CHR 0x22]"

definition guard_command :: "string \<Rightarrow> tool_input \<Rightarrow> tool_input" where
  "guard_command effectiveCwd input =
     (let quoted = shellQuote effectiveCwd in
      case in_command input of
        None \<Rightarrow> input
      | Some cmd \<Rightarrow>
          (let alreadyCd = startsWith cmd (''cd '' @ effectiveCwd) \<or> startsWith cmd (''cd '' @ quoted)
           in if cmd \<noteq> [] \<and> \<not> alreadyCd
              then input\<lparr>in_command := Some (''cd '' @ quoted @ '' && '' @ cmd)\<rparr> else input))"

text \<open>The effective directory for a shell command the user types, if the guard overrides it.\<close>

definition user_bash_cwd :: "workspace_state option \<Rightarrow> string option" where
  "user_bash_cwd state =
     (case state of None \<Rightarrow> None
      | Some s \<Rightarrow> if ws_activeWorktree s = None then None else Some (ws_effectiveCwd s))"

definition guard_resolved :: "string \<Rightarrow> string \<Rightarrow> string \<Rightarrow> string" where
  "guard_resolved cwd effectiveCwd expanded =
     (if isAbsolute expanded then path_resolve cwd [expanded] else path_resolve cwd [effectiveCwd, expanded])"

text \<open>
  The guard. \<open>cwd\<close> is the directory of the process and \<open>home\<close> the user's home; the result is the
  reason of a block, if any, and the input as the tool then sees it.
\<close>

definition workspace_guard ::
  "string \<Rightarrow> string \<Rightarrow> string list \<Rightarrow> workspace_state option \<Rightarrow> string \<Rightarrow> tool_input
    \<Rightarrow> string option \<times> tool_input" where
  "workspace_guard cwd home allowedRoots state toolName input =
     (case state of
        None \<Rightarrow> (None, input)
      | Some s \<Rightarrow>
          (let protectedCheckout = ws_protectedRoot s;
               worktreeDir = nonempty_list (map_option wt_path (ws_activeWorktree s));
               effectiveCwd = ws_effectiveCwd s
           in if toolName = ''bash'' then
                (None, if worktreeDir = [] then input else guard_command effectiveCwd input)
              else if toolName \<notin> set STRUCTURED_PATH_TOOLS then (None, input)
              else if worktreeDir \<noteq> [] \<and> toolName \<in> set OPTIONAL_PATH_TOOLS \<and> nonempty_list (in_path input) = []
                then (None, input\<lparr>in_path := Some effectiveCwd\<rparr>)
              else if nonempty_list (in_path input) = [] then (None, input)
              else (let p = the (in_path input);
                        expanded = expandPath home p;
                        abs = isAbsolute expanded;
                        resolved = guard_resolved cwd effectiveCwd expanded;
                        isStructuredMutation = (toolName \<in> set STRUCTURED_MUTATION_TOOLS);
                        isProtectedPath = (case nonempty_list protectedCheckout of
                                             [] \<Rightarrow> False | root # _ \<Rightarrow> isWithin cwd resolved root);
                        toCheckout = ''Path '' @ dquote p @ '' resolves to the protected checkout ('' @
                          concat (nonempty_list protectedCheckout) @ ''). '';
                        useWorktree = toCheckout @ ''Use the active worktree instead: '' @ concat worktreeDir
                    in if worktreeDir = [] \<and> isStructuredMutation \<and> isProtectedPath then
                         (if ws_unsafeEdit s then (None, input)
                          else (Some (toCheckout @ ''Activate an execution worktree before editing project files.''), input))
                       else if worktreeDir \<noteq> [] \<and> isStructuredMutation \<and> isProtectedPath then
                         (if ws_unsafeEdit s \<and> abs then (None, input) else (Some useWorktree, input))
                       else if worktreeDir = [] then (None, input)
                       else if isProtectedPath then (Some useWorktree, input)
                       else if isAllowedPath cwd allowedRoots resolved then (None, input)
                       else (let withinWorktree = isWithin cwd resolved (hd worktreeDir);
                                 allowedDirs = allowedWriteDirsFrom state allowedRoots
                             in if isStructuredMutation \<and> \<not> list_ex (\<lambda>d. isWithin cwd resolved d) allowedDirs
                                then (Some (''Path '' @ dquote p @ '' is outside your writable scope. '' @
                                        ''Writes are confined to: '' @ join '', '' allowedDirs @ ''.''), input)
                                else if \<not> abs \<and> \<not> withinWorktree
                                then (Some (''Relative path '' @ dquote p @ '' escapes the active worktree ('' @
                                        concat worktreeDir @ '').''), input)
                                else if \<not> abs then (None, input\<lparr>in_path := Some resolved\<rparr>)
                                else (None, input)))))"

section \<open>Confinement\<close>

text \<open>Where a path leads from the effective directory.\<close>

abbreviation target_of :: "string \<Rightarrow> string \<Rightarrow> workspace_state \<Rightarrow> string \<Rightarrow> string" where
  "target_of cwd home s p \<equiv> guard_resolved cwd (ws_effectiveCwd s) (expandPath home p)"

definition in_checkout :: "string \<Rightarrow> workspace_state \<Rightarrow> string \<Rightarrow> bool" where
  "in_checkout cwd s p = list_ex (\<lambda>root. isWithin cwd p root) (nonempty_list (ws_protectedRoot s))"

lemma nonempty_list_cases: "nonempty_list x = [] \<or> (\<exists>y. x = Some y \<and> y \<noteq> [] \<and> nonempty_list x = [y])"
  by (cases x) (auto simp: nonempty_list_def)

lemma in_checkout_case:
  "(case nonempty_list (ws_protectedRoot s) of [] \<Rightarrow> False | root # _ \<Rightarrow> isWithin cwd p root) = in_checkout cwd s p"
  using nonempty_list_cases [of "ws_protectedRoot s"] by (auto simp: in_checkout_def)

lemma expandPath_absolute: "isAbsolute p \<Longrightarrow> expandPath home p = p"
  by (cases p) (auto simp: expandPath_def isAbsolute_def Let_def)

lemma guard_resolved_absolute: "isAbsolute (guard_resolved cwd eff e)"
  by (simp add: guard_resolved_def path_resolve_def)

lemma guard_resolved_idem [simp]:
  "guard_resolved cwd eff (expandPath home (guard_resolved cwd eff e)) = guard_resolved cwd eff e"
proof -
  have "guard_resolved cwd eff (guard_resolved cwd eff e) = guard_resolved cwd eff e"
    using guard_resolved_absolute [of cwd eff e] by (auto simp: guard_resolved_def)
  then show ?thesis by (simp add: expandPath_absolute guard_resolved_absolute)
qed

lemma mutation_is_path_tool:
  "t \<in> set STRUCTURED_MUTATION_TOOLS \<Longrightarrow>
   t \<noteq> ''bash'' \<and> t \<in> set STRUCTURED_PATH_TOOLS \<and> t \<notin> set OPTIONAL_PATH_TOOLS"
  by (auto simp: STRUCTURED_MUTATION_TOOLS_def STRUCTURED_PATH_TOOLS_def OPTIONAL_PATH_TOOLS_def)

text \<open>The active worktree's directory, if there is one.\<close>

definition active_dir :: "workspace_state \<Rightarrow> string list" where
  "active_dir s = nonempty_list (map_option wt_path (ws_activeWorktree s))"

text \<open>
  Where a file tool goes with the path it is given: it expands the path as the guard does and resolves a relative one
  from its own directory, which need not be the effective directory of the workspace.
\<close>

definition tool_target :: "string \<Rightarrow> string \<Rightarrow> string \<Rightarrow> string \<Rightarrow> string" where
  "tool_target cwd toolCwd home p =
     (if isAbsolute (expandPath home p) then path_resolve cwd [expandPath home p]
      else path_resolve cwd [toolCwd, expandPath home p])"

text \<open>
  The calls whose path the guard leaves to the tool to resolve: a relative one when no worktree is active, or
  one under an allowed root.
\<close>

definition left_relative :: "string \<Rightarrow> string \<Rightarrow> string list \<Rightarrow> workspace_state \<Rightarrow> string \<Rightarrow> bool" where
  "left_relative cwd home roots s p \<longleftrightarrow> \<not> isAbsolute (expandPath home p)
     \<and> (active_dir s = [] \<or> isAllowedPath cwd roots (target_of cwd home s p))"

lemma tool_target_effective: "tool_target cwd (ws_effectiveCwd s) home p = target_of cwd home s p"
  by (simp add: tool_target_def guard_resolved_def)

lemma tool_target_absolute: "isAbsolute (expandPath home p) \<Longrightarrow> tool_target cwd toolCwd home p = target_of cwd home s p"
  by (simp add: tool_target_def guard_resolved_def)

lemma tool_target_resolved: "tool_target cwd toolCwd home (guard_resolved cwd eff e) = guard_resolved cwd eff e"
  using guard_resolved_idem [of cwd eff home e] guard_resolved_absolute [of cwd eff e]
  by (simp add: tool_target_def expandPath_absolute guard_resolved_def split: if_splits)

lemma guard_target:
  assumes "tool \<in> set STRUCTURED_MUTATION_TOOLS" "in_path input = Some p" "p \<noteq> []"
    and "workspace_guard cwd home roots (Some s) tool input = (None, input')"
    and "\<not> left_relative cwd home roots s p \<or> toolCwd = ws_effectiveCwd s"
  shows "map_option (tool_target cwd toolCwd home) (in_path input') = Some (target_of cwd home s p)"
proof -
  have p: "nonempty_list (in_path input) = [p]" using assms by (simp add: nonempty_list_def)
  have passed: "in_path input' = Some p \<or> in_path input' = Some (target_of cwd home s p)"
    and unchanged: "in_path input' \<noteq> Some (target_of cwd home s p) \<Longrightarrow>
       isAbsolute (expandPath home p) \<or> active_dir s = [] \<or> isAllowedPath cwd roots (target_of cwd home s p)"
    using assms(4) mutation_is_path_tool [OF assms(1)] assms(1,2) p
    unfolding workspace_guard_def Let_def in_checkout_case active_dir_def
    by (auto split: if_splits)
  show ?thesis
  proof (cases "in_path input' = Some (target_of cwd home s p)")
    case True
    then show ?thesis by (simp add: tool_target_resolved)
  next
    case False
    then have "in_path input' = Some p" using passed by blast
    moreover have "isAbsolute (expandPath home p) \<or> toolCwd = ws_effectiveCwd s"
      using unchanged [OF False] assms(5) by (auto simp: left_relative_def)
    ultimately show ?thesis using tool_target_effective tool_target_absolute by auto
  qed
qed


definition sample_workspace :: workspace_state where
  "sample_workspace = \<lparr>ws_launchCwd = ''/repo'', ws_effectiveCwd = ''/wt/fix'', ws_scratchDir = ''/scratch/app'',
     ws_repo = None, ws_protectedRoot = Some ''/repo'',
     ws_activeWorktree = Some \<lparr>wt_kind = ''git-worktree'', wt_label = ''fix'', wt_path = ''/wt/fix'',
       wt_branch = Some ''u/fix'', wt_created = True\<rparr>, ws_unsafeEdit = False\<rparr>"

lemma sample_guard:
  "workspace_guard ''/repo'' ''/home/u'' [] (Some sample_workspace) ''edit''
     \<lparr>in_path = Some ''src/a.ts'', in_command = None\<rparr> =
   (None, \<lparr>in_path = Some ''/wt/fix/src/a.ts'', in_command = None\<rparr>)"
  by code_simp

lemma sample_outside:
  "\<not> in_checkout ''/repo'' sample_workspace (target_of ''/repo'' ''/home/u'' sample_workspace ''src/a.ts'')"
  "active_dir sample_workspace \<noteq> []"
  by code_simp+

text \<open>The tool works in the protected checkout; the relative path it was called with is led into the worktree.\<close>

lemma sample_target:
  "\<not> left_relative ''/repo'' ''/home/u'' [] sample_workspace ''src/a.ts''"
  "tool_target ''/repo'' ''/repo'' ''/home/u'' ''/wt/fix/src/a.ts'' = ''/wt/fix/src/a.ts''"
  "\<not> in_checkout ''/repo'' sample_workspace ''/wt/fix/src/a.ts''"
  by code_simp+


text \<open>
  A relative path under an allowed root is passed as it came: a tool that works in the checkout writes there, although
  the guard looked at the place it names from the worktree.
\<close>

lemma allowed_relative_path_escapes:
  "workspace_guard ''/repo'' ''/home/u'' [''/wt/fix/notes''] (Some sample_workspace) ''write''
     \<lparr>in_path = Some ''notes/a.md'', in_command = None\<rparr> = (None, \<lparr>in_path = Some ''notes/a.md'', in_command = None\<rparr>)"
  "in_checkout ''/repo'' sample_workspace (tool_target ''/repo'' ''/repo'' ''/home/u'' ''notes/a.md'')"
  by code_simp+

text \<open>A command that begins by changing to a sibling directory whose name extends the worktree's is
  taken for one that is already in the worktree, and is left as it is.\<close>

lemma sibling_cd_is_not_moved:
  "workspace_guard ''/repo'' ''/home/u'' [] (Some sample_workspace) ''bash''
     \<lparr>in_path = None, in_command = Some ''cd /wt/fix-old && rm a''\<rparr> =
   (None, \<lparr>in_path = None, in_command = Some ''cd /wt/fix-old && rm a''\<rparr>)"
  by code_simp

end
