(* ===== verification/HostConfig.thy ===== *)
theory HostConfig
  imports NodePath
begin

text \<open>
  What the extension reads from the shared configuration file (\<open>pi/core/host/config.ts\<close>): the
  setup command of a repository's worktrees and the directory of the notes graph. \<open>parsed\<close> is
  the JSON value of the file, \<open>None\<close> when it is missing or not JSON.
\<close>

definition readRootConfig :: "json option \<Rightarrow> json option" where
  "readRootConfig parsed =
     (case parsed of None \<Rightarrow> None | Some v \<Rightarrow> if isRecord v then Some v else None)"

definition record_field :: "json \<Rightarrow> string \<Rightarrow> json option" where
  "record_field v k = (case field v k of None \<Rightarrow> None | Some f \<Rightarrow> if isRecord f then Some f else None)"

definition nonblank_string :: "json option \<Rightarrow> string option" where
  "nonblank_string v =
     (case v of Some (JStr s) \<Rightarrow> (if trim s = [] then None else Some (trim s)) | _ \<Rightarrow> None)"

definition readWorktreeSetupCommand :: "json option \<Rightarrow> string \<Rightarrow> string option" where
  "readWorktreeSetupCommand parsed repoName =
     (case readRootConfig parsed of
        None \<Rightarrow> None
      | Some root \<Rightarrow>
          (case record_field root ''environments'' of
             None \<Rightarrow> None
           | Some environments \<Rightarrow>
               (case record_field environments repoName of
                  None \<Rightarrow> None
                | Some environment \<Rightarrow> nonblank_string (field environment ''setup''))))"

definition resolveConfiguredPath :: "string \<Rightarrow> string \<Rightarrow> string \<Rightarrow> string" where
  "resolveConfiguredPath cwd value homeDir =
     (if value = ''~'' then homeDir
      else if startsWith value ''~/'' then path_resolve cwd [homeDir, slice_from value 2]
      else path_resolve cwd [homeDir, value])"

text \<open>\<open>is_dir\<close> is the file system's answer; \<open>None\<close> when asking for it throws.\<close>

definition readLogseqGraphDir ::
  "string \<Rightarrow> (string \<Rightarrow> bool option) \<Rightarrow> json option \<Rightarrow> string \<Rightarrow> string option" where
  "readLogseqGraphDir cwd is_dir parsed homeDir =
     (let effectiveHomeDir = path_resolve cwd [homeDir] in
      case readRootConfig parsed of
        None \<Rightarrow> None
      | Some root \<Rightarrow>
          (case record_field root ''logseq'' of
             None \<Rightarrow> None
           | Some logseq \<Rightarrow>
               (case nonblank_string (field logseq ''graph_dir'') of
                  None \<Rightarrow> None
                | Some trimmed \<Rightarrow>
                    (let resolved = resolveConfiguredPath cwd trimmed effectiveHomeDir
                     in if is_dir resolved = Some True then Some resolved else None))))"

lemma readWorktreeSetupCommand_nonblank:
  "readWorktreeSetupCommand parsed repo = Some c \<Longrightarrow> c \<noteq> [] \<and> trim c = c"
  by (auto simp: readWorktreeSetupCommand_def nonblank_string_def split: option.splits json.splits if_splits)

end
