(* ===== verification/AgentWorkspace.thy ===== *)
theory AgentWorkspace
  imports Lease Workspace HostConfig Sweep
begin

text \<open>
  The workspaces of dispatched agents (\<open>pi/core/swarm/agents/agent-workspace.ts\<close>): which commit
  and branch a run starts from, its worktree, the setup hook, and the discarding of a workspace
  whose dispatch failed.
\<close>

section \<open>Requests and provisions\<close>

datatype agent_request =
    Deliverable string bool string string
  | Report string string
  | Ask string string string

definition request_runToken :: "agent_request \<Rightarrow> string" where
  "request_runToken r = (case r of Deliverable _ _ t _ \<Rightarrow> t | Report t _ \<Rightarrow> t | Ask _ t _ \<Rightarrow> t)"

definition request_agentName :: "agent_request \<Rightarrow> string" where
  "request_agentName r = (case r of Deliverable _ _ _ n \<Rightarrow> n | Report _ n \<Rightarrow> n | Ask _ _ n \<Rightarrow> n)"

datatype provision_kind = KDeliverable | KReport | KAsk

record agent_provision =
  ap_kind :: provision_kind
  ap_worktreeDir :: string
  ap_label :: string
  ap_branch :: "string option"
  ap_baseOid :: string
  ap_branchCreated :: bool
  ap_repoRoot :: string
  ap_setupWarning :: "string option"

definition agentBranchName :: "string \<Rightarrow> string" where
  "agentBranchName agentHandle = AGENT_BRANCH_NAMESPACE @ agentHandle"

text \<open>\<open>name.replace(/[^A-Za-z0-9._-]+/g, "-").replace(/^[^A-Za-z0-9]+/, "") || "agent"\<close>.\<close>

fun dash_runs :: "bool \<Rightarrow> string \<Rightarrow> string" where
  "dash_runs inside [] = []"
| "dash_runs inside (c # s) =
     (if label_char c then c # dash_runs False s
      else if inside then dash_runs True s else CHR ''-'' # dash_runs True s)"

definition workspaceLabelName :: "string \<Rightarrow> string" where
  "workspaceLabelName name = string_or (dropWhile (\<lambda>c. \<not> is_alnum c) (dash_runs False name)) ''agent''"

definition friendlyGitError :: "string \<Rightarrow> string" where
  "friendlyGitError message =
     (if str_includes (toLowerCase message) ''used by'' \<or> str_includes (toLowerCase message) ''checked out''
      then ''The agent'' @ [CHR 0x27] @ ''s branch is still checked out in a previous run'' @ [CHR 0x27] @
           ''s workspace (likely still tearing down). Retry shortly.''
      else if str_includes message ''unknown revision''
           \<or> str_includes message (''ambiguous argument '' @ [CHR 0x27] @ ''HEAD'' @ [CHR 0x27])
           \<or> str_includes message ''Needed a single revision''
           \<or> str_includes message ''Not a valid object name'' \<or> str_includes message ''not a valid object name''
      then ''This repository has no commits yet; make an initial commit before dispatching agents.''
      else message)"

section \<open>Where a run starts\<close>

text \<open>\<open>indexFile\<close> is the temporary path a snapshot uses.\<close>

definition detachedBaseOid :: "'w platform \<Rightarrow> string \<Rightarrow> string \<Rightarrow> ('w, string) host_io" where
  "detachedBaseOid pf indexFile parentWorktree =
     io_bind (repo_isWorktreeClean pf parentWorktree) (\<lambda>clean.
       if clean then gitOutput pf parentWorktree [''rev-parse'', ''HEAD'']
       else createSnapshotCommit pf indexFile parentWorktree)"

definition add_candidate :: "string list \<Rightarrow> string \<Rightarrow> string list" where
  "add_candidate candidates b = (if b \<in> set candidates then candidates else candidates @ [b])"

definition integrationBranches :: "'w platform \<Rightarrow> string \<Rightarrow> string \<Rightarrow> ('w, string list) host_io" where
  "integrationBranches pf repoRoot parentWorktree =
     io_bind (tryGitOutput pf parentWorktree [''branch'', ''--show-current'']) (\<lambda>parentBranch.
     let candidates = (if truthy_str parentBranch then [the parentBranch] else []) in
     io_catch
       (io_bind (detectDefaultBranch pf repoRoot) (\<lambda>b. io_return (add_candidate candidates b)))
       (\<lambda>_. io_return candidates))"

definition isOnBranch :: "'w platform \<Rightarrow> string \<Rightarrow> ('w, bool) host_io" where
  "isOnBranch pf worktreeDir =
     io_catch
       (io_bind (gitOutput pf worktreeDir [''symbolic-ref'', ''--quiet'', ''HEAD'']) (\<lambda>_. io_return True))
       (\<lambda>_. io_return False)"

text \<open>The texts of the two refusals, whose dashes are not Latin-1, are kept as tags.\<close>

definition DETACHED_PARENT :: string where
  "DETACHED_PARENT = ''Parent worktree is on a detached HEAD.''"

definition DIRTY_PARENT :: string where
  "DIRTY_PARENT = ''Parent worktree has uncommitted changes.''"

definition requireCleanBase :: "'w platform \<Rightarrow> string \<Rightarrow> ('w, string) host_io" where
  "requireCleanBase pf parentWorktree =
     io_bind (isOnBranch pf parentWorktree) (\<lambda>onBranch.
       if \<not> onBranch then io_throw DETACHED_PARENT
       else io_bind (repo_isWorktreeClean pf parentWorktree) (\<lambda>clean.
         if \<not> clean then io_throw DIRTY_PARENT
         else gitOutput pf parentWorktree [''rev-parse'', ''HEAD'']))"

record deliverable_checkout =
  dc_branch :: string
  dc_baseOid :: string
  dc_branchCreated :: bool

text \<open>The loop over the candidates: the first the branch is merged into deletes it and starts afresh.\<close>

fun continue_or_restart ::
  "'w platform \<Rightarrow> string \<Rightarrow> string \<Rightarrow> string \<Rightarrow> string \<Rightarrow> string list \<Rightarrow> ('w, deliverable_checkout) host_io" where
  "continue_or_restart pf repoRoot parentWorktree branch tip [] =
     io_return \<lparr>dc_branch = branch, dc_baseOid = tip, dc_branchCreated = False\<rparr>"
| "continue_or_restart pf repoRoot parentWorktree branch tip (candidate # candidates) =
     io_bind (isMergedInto pf repoRoot branch candidate) (\<lambda>merged.
       if merged then
         io_bind (deleteBranch pf repoRoot branch) (\<lambda>_.
         io_bind (requireCleanBase pf parentWorktree) (\<lambda>base.
         io_return \<lparr>dc_branch = branch, dc_baseOid = base, dc_branchCreated = True\<rparr>))
       else continue_or_restart pf repoRoot parentWorktree branch tip candidates)"

definition resolveDeliverableCheckout ::
  "'w platform \<Rightarrow> string \<Rightarrow> bool \<Rightarrow> string \<Rightarrow> string \<Rightarrow> ('w, deliverable_checkout) host_io" where
  "resolveDeliverableCheckout pf agentHandle isRetask repoRoot parentWorktree =
     (let branch = agentBranchName agentHandle in
      io_bind (branchTip pf repoRoot branch) (\<lambda>tip.
        if truthy_str tip \<and> \<not> isRetask
        then io_throw (''Branch '' @ branch @ '' already exists but this is not a retask of that agent. '' @
               ''Delete the stale branch (or merge it) and retry.'')
        else if truthy_str tip then
          io_bind (integrationBranches pf repoRoot parentWorktree) (\<lambda>candidates.
            continue_or_restart pf repoRoot parentWorktree branch (the tip) candidates)
        else io_bind (requireCleanBase pf parentWorktree) (\<lambda>base.
          io_return \<lparr>dc_branch = branch, dc_baseOid = base, dc_branchCreated = True\<rparr>)))"

section \<open>Provisioning\<close>

text \<open>The answer of the setup command: its code, whether it was killed, and its error output.\<close>

definition runSetupHook ::
  "(string \<Rightarrow> string option) \<Rightarrow> (exec_call \<Rightarrow> ('w, exec_result \<times> bool) io) \<Rightarrow> string \<Rightarrow> string
    \<Rightarrow> agent_provision \<Rightarrow> ('w, agent_provision) host_io" where
  "runSetupHook setupCommand run_env repoName repoRoot provision =
     (case setupCommand repoName of
        None \<Rightarrow> io_return provision
      | Some command \<Rightarrow>
          io_bind (untraced (run_env \<lparr>xc_command = ''env'',
              xc_args = [''BASECAMP_REPO_ROOT='' @ repoRoot, ''bash'', ''-lc'', command],
              xc_cwd = Some (ap_worktreeDir provision)\<rparr>)) (\<lambda>(result, killed).
            if ex_code result \<noteq> 0 \<or> killed then
              (let reason = (if killed then ''timed out'' else ''exited '' @ show_int (ex_code result))
               in io_return (provision\<lparr>ap_setupWarning := Some (''Workspace setup hook '' @ reason @ '': '' @
                    string_or (tail (ex_stderr result)) ''(no stderr)'')\<rparr>))
            else io_return provision))"

record provision_env =
  pv_setup :: "string \<Rightarrow> string option"
  pv_indexFile :: string
  pv_now :: nat

definition provision_deliverable ::
  "'w platform \<Rightarrow> provision_env \<Rightarrow> (exec_call \<Rightarrow> ('w, exec_result \<times> bool) io) \<Rightarrow> string \<Rightarrow> bool
    \<Rightarrow> string \<Rightarrow> string \<Rightarrow> string \<Rightarrow> string \<Rightarrow> ('w, agent_provision) host_io" where
  "provision_deliverable pf env run_env agentHandle isRetask repoRoot repoName parentWorktree label =
     io_bind (resolveDeliverableCheckout pf agentHandle isRetask repoRoot parentWorktree) (\<lambda>checkout.
     io_bind (createAgentWorktree pf repoRoot repoName label
                (if dc_branchCreated checkout then NewBranch (dc_branch checkout) (dc_baseOid checkout)
                 else ExistingBranch (dc_branch checkout)) (agent_lock_reason (pv_now env))) (\<lambda>worktree.
     runSetupHook (pv_setup env) run_env repoName repoRoot
       \<lparr>ap_kind = KDeliverable, ap_worktreeDir = aw_worktreeDir worktree, ap_label = label,
        ap_branch = Some (dc_branch checkout), ap_baseOid = dc_baseOid checkout,
        ap_branchCreated = dc_branchCreated checkout, ap_repoRoot = repoRoot, ap_setupWarning = None\<rparr>))"

definition provision_detached ::
  "'w platform \<Rightarrow> provision_env \<Rightarrow> (exec_call \<Rightarrow> ('w, exec_result \<times> bool) io) \<Rightarrow> string option
    \<Rightarrow> string \<Rightarrow> string \<Rightarrow> string \<Rightarrow> string \<Rightarrow> ('w, agent_provision) host_io" where
  "provision_detached pf env run_env askTarget repoRoot repoName parentWorktree label =
     io_bind (case askTarget of None \<Rightarrow> io_return None
              | Some h \<Rightarrow> branchTip pf repoRoot (agentBranchName h)) (\<lambda>tip.
     io_bind (case tip of Some t \<Rightarrow> io_return t
              | None \<Rightarrow> detachedBaseOid pf (pv_indexFile env) parentWorktree) (\<lambda>baseOid.
     io_bind (createAgentWorktree pf repoRoot repoName label (Detached baseOid) (agent_lock_reason (pv_now env)))
       (\<lambda>worktree.
        let provision = \<lparr>ap_kind = (if askTarget = None then KReport else KAsk),
              ap_worktreeDir = aw_worktreeDir worktree, ap_label = label, ap_branch = None,
              ap_baseOid = baseOid, ap_branchCreated = False, ap_repoRoot = repoRoot, ap_setupWarning = None\<rparr>
        in if askTarget = None then runSetupHook (pv_setup env) run_env repoName repoRoot provision
           else io_return provision)))"

definition provisionAgentWorkspace ::
  "'w platform \<Rightarrow> provision_env \<Rightarrow> (exec_call \<Rightarrow> ('w, exec_result \<times> bool) io) \<Rightarrow> agent_request
    \<Rightarrow> workspace_state option \<Rightarrow> ('w, agent_provision option) host_io" where
  "provisionAgentWorkspace pf env run_env request workspace =
     (case workspace of
        None \<Rightarrow> io_return None
      | Some w \<Rightarrow>
          (case ws_repo w of
             None \<Rightarrow> io_return None
           | Some repo \<Rightarrow>
               if rp_root repo = [] \<or> rp_name repo = [] then io_return None
               else (let repoRoot = (case ws_protectedRoot w of Some r \<Rightarrow> r | None \<Rightarrow> rp_root repo);
                         parentWorktree = (case ws_activeWorktree w of Some a \<Rightarrow> wt_path a | None \<Rightarrow> repoRoot);
                         label = ''agent-'' @ request_runToken request @ ''/'' @
                                 workspaceLabelName (request_agentName request)
                     in io_catch
                          (io_bind
                            (case request of
                               Deliverable handle isRetask _ _ \<Rightarrow>
                                 provision_deliverable pf env run_env handle isRetask repoRoot (rp_name repo)
                                   parentWorktree label
                             | Report _ _ \<Rightarrow>
                                 provision_detached pf env run_env None repoRoot (rp_name repo) parentWorktree label
                             | Ask target _ _ \<Rightarrow>
                                 provision_detached pf env run_env (Some target) repoRoot (rp_name repo)
                                   parentWorktree label)
                            (\<lambda>p. io_return (Some p)))
                          (\<lambda>e. io_throw (friendlyGitError e)))))"

definition discardAgentWorkspace ::
  "'w platform \<Rightarrow> agent_provision option \<Rightarrow> ('w, unit) host_io" where
  "discardAgentWorkspace pf provision =
     (case provision of
        None \<Rightarrow> io_return ()
      | Some p \<Rightarrow>
          io_ignore
            (io_bind (removeWorktree pf (ap_repoRoot p) (ap_worktreeDir p) \<lparr>ro_force = True, ro_unlock = None\<rparr>)
              (\<lambda>_. if truthy_str (ap_branch p) \<and> ap_branchCreated p
                   then deleteBranch pf (ap_repoRoot p) (the (ap_branch p)) else io_return ())))"

section \<open>Safety\<close>

definition own_branches :: "agent_request \<Rightarrow> string list" where
  "own_branches r = (case r of Deliverable handle _ _ _ \<Rightarrow> [agentBranchName handle] | _ \<Rightarrow> [])"

text \<open>Git ran this command before, and what it printed satisfies a condition.\<close>

definition said :: "exec_call \<Rightarrow> (string \<Rightarrow> bool) \<Rightarrow> host_event list \<Rightarrow> bool" where
  "said c ok l = list_ex (\<lambda>e. case e of
       EvExec c' (Inr r) \<Rightarrow> c' = c \<and> ex_code r = 0 \<and> ok (trim (ex_stdout r))
     | _ \<Rightarrow> False) l"

text \<open>
  Git named the branch as one that work is integrated into: the parent worktree was on it, or it is the
  repository's default branch - the target of \<open>origin/HEAD\<close>, or an existing \<open>main\<close> or \<open>master\<close>.
\<close>

definition integration_branch :: "string \<Rightarrow> string \<Rightarrow> host_event list \<Rightarrow> string \<Rightarrow> bool" where
  "integration_branch root parent l b \<longleftrightarrow>
     b \<noteq> [] \<and> said (git_call [''-C'', parent, ''branch'', ''--show-current'']) (\<lambda>out. out = b) l
     \<or> said (git_call [''-C'', root, ''symbolic-ref'', ''--quiet'', ''--short'', ''refs/remotes/origin/HEAD''])
         (\<lambda>out. out = ''origin/'' @ b) l
     \<or> b \<in> {''main'', ''master''} \<and> said (git_call [''-C'', root, ''rev-parse'', ''--verify'', b]) (\<lambda>out. out \<noteq> []) l"

text \<open>The last command of the trace found the branch merged into such a branch.\<close>

definition just_merged :: "string \<Rightarrow> string \<Rightarrow> string \<Rightarrow> host_event list \<Rightarrow> bool" where
  "just_merged root parent b l \<longleftrightarrow> l \<noteq> [] \<and>
     (case last l of
        EvExec m (Inr r) \<Rightarrow> ex_code r = 0
          \<and> (\<exists>target. m = git_call [''-C'', root, ''merge-base'', ''--is-ancestor'', b, target]
               \<and> integration_branch root parent (butlast l) target)
      | _ \<Rightarrow> False)"

text \<open>The creation of a worktree with this argument failed earlier in the trace.\<close>

definition failed_add :: "string \<Rightarrow> host_event list \<Rightarrow> bool" where
  "failed_add x l = list_ex (\<lambda>e. case e of
       EvExec a (Inr r) \<Rightarrow> ex_code r \<noteq> 0 \<and> git_verb a = [''worktree'', ''add''] \<and> x \<in> set (xc_args a)
     | _ \<Rightarrow> False) l"

definition provision_grounds :: "string \<Rightarrow> string \<Rightarrow> string list \<Rightarrow> host_event list \<Rightarrow> exec_call \<Rightarrow> bool" where
  "provision_grounds root parent own l c \<longleftrightarrow>
     (let x = last (xc_args c) in
      c = git_call [''-C'', root, ''branch'', ''-D'', x] \<and> x \<in> set own \<and> (just_merged root parent x l \<or> failed_add x l)
      \<or> is_remove c \<and> failed_add x l)"

abbreviation provision_safe :: "string \<Rightarrow> string \<Rightarrow> string list \<Rightarrow> host_event list \<Rightarrow> bool" where
  "provision_safe root parent own \<equiv> guarded destructive (provision_grounds root parent own)"

lemma failed_add_append [simp]: "failed_add x l \<Longrightarrow> failed_add x (l @ s)"
  by (simp add: failed_add_def)

lemma mild_destructive [simp]: "mild (guarded destructive ok)"
  by (rule mild_guarded) (auto simp: destructive_def changing_verbs_def)

lemma not_destructive_verbs [simp]:
  "\<not> destructive (git_call (f # d # ''worktree'' # ''add'' # args))"
  "\<not> destructive (git_call (f # d # ''worktree'' # ''unlock'' # args))"
  "\<not> destructive (git_call (f # d # ''worktree'' # ''list'' # args))"
  by (simp_all add: destructive_def)

text \<open>After a failed creation, the clean-up of its directory and branch is justified.\<close>

definition failed_safe :: "string \<Rightarrow> string \<Rightarrow> string list \<Rightarrow> string \<Rightarrow> agent_checkout \<Rightarrow> host_event list \<Rightarrow> bool" where
  "failed_safe root parent own dir checkout l \<longleftrightarrow> provision_safe root parent own l \<and> failed_add dir l
     \<and> (case checkout of NewBranch b _ \<Rightarrow> b \<in> set own \<and> failed_add b l | _ \<Rightarrow> True)"

lemma keeps_failed:
  assumes "\<And>l. failed_safe root parent own dir checkout l \<Longrightarrow> destructive c \<Longrightarrow> provision_grounds root parent own l c"
  shows "keeps (failed_safe root parent own dir checkout) c"
  using assms by (auto simp: keeps_def failed_safe_def split: agent_checkout.splits)

lemma mild_failed [simp]: "mild (failed_safe root parent own dir checkout)"
proof -
  have "keeps (failed_safe root parent own dir checkout) c" if "git_verb c \<notin> set changing_verbs" for c
    using that by (intro keeps_failed) (auto simp: destructive_def changing_verbs_def)
  moreover have "keeps_writes (failed_safe root parent own dir checkout)"
    by (auto simp: keeps_writes_def failed_safe_def split: agent_checkout.splits)
  ultimately show ?thesis by (simp add: mild_def keeps_git_def)
qed

lemma cleanup_failed_safe:
  "stable (failed_safe root parent own dir checkout) (cleanup_partial pf root dir checkout)"
proof -
  have u: "keeps (failed_safe root parent own dir checkout) (git_call [''-C'', root, ''worktree'', ''unlock'', dir])"
    by (rule keeps_failed) simp
  have r: "keeps (failed_safe root parent own dir checkout) (git_call [''-C'', root, ''worktree'', ''remove'', ''--force'', dir])"
    by (rule keeps_failed) (simp add: provision_grounds_def failed_safe_def is_remove_def git_call_def git_verb_def)
  have d: "keeps (failed_safe root parent own dir checkout) (git_call [''-C'', root, ''branch'', ''-D'', b])"
    if "checkout = NewBranch b base" for b base
    using that by (intro keeps_failed) (simp add: provision_grounds_def failed_safe_def git_call_def git_verb_def)
  have "stable (failed_safe root parent own dir checkout) (unlockWorktree pf root dir)"
    unfolding unlockWorktree_def by (rule u stable_intros)+
  then have "stable (failed_safe root parent own dir checkout) (removeWorktree pf root dir \<lparr>ro_force = True, ro_unlock = None\<rparr>)"
    using r unfolding removeWorktree_def by (auto intro!: stable_intros)
  moreover have "stable (failed_safe root parent own dir checkout) (deleteBranch pf root b)"
    if "checkout = NewBranch b base" for b base
    unfolding deleteBranch_def by (rule d [OF that] stable_intros)+
  ultimately show ?thesis
    unfolding cleanup_partial_def
    by (cases checkout) (auto intro!: stable_intros)
qed

lemma create_safe:
  assumes "case checkout of NewBranch b _ \<Rightarrow> b \<in> set own | _ \<Rightarrow> True"
  shows "stable (provision_safe root parent own) (createAgentWorktree pf root repo label checkout reason)"
proof -
  let ?dir = "path_join [worktreesRoot pf, repo, label]"
  let ?call = "git_call ([''-C'', root, ''worktree'', ''add'', ''--lock'', ''--reason'', reason] @ checkoutArgs checkout ?dir)"
  have add: "hoare (on_log (provision_safe root parent own)) (pexec pf ?call)
      (\<lambda>result. on_log (\<lambda>l. provision_safe root parent own l \<and> (ex_code result \<noteq> 0 \<longrightarrow> failed_safe root parent own ?dir checkout l)))
      (on_log (provision_safe root parent own))"
    unfolding pexec_def
    by (rule hoare_traced)
      (use assms in \<open>auto simp: failed_safe_def failed_add_def checkoutArgs_def git_call_def git_verb_def
          destructive_def split: agent_checkout.splits\<close>)
  have rest: "hoare (on_log (\<lambda>l. provision_safe root parent own l \<and> (ex_code result \<noteq> 0 \<longrightarrow> failed_safe root parent own ?dir checkout l)))
      (if ex_code result \<noteq> 0
       then io_bind (cleanup_partial pf root ?dir checkout) (\<lambda>_. io_throw (msg @ ex_stderr result))
       else io_return y)
      (\<lambda>_. on_log (provision_safe root parent own)) (on_log (provision_safe root parent own))" for result msg and y :: "agent_worktree_result"
  proof (cases "ex_code result \<noteq> 0")
    case True
    have "stable (failed_safe root parent own ?dir checkout)
        (io_bind (cleanup_partial pf root ?dir checkout) (\<lambda>_. io_throw (msg @ ex_stderr result)))"
      by (intro stable_intros cleanup_failed_safe)
    then have "hoare (on_log (failed_safe root parent own ?dir checkout))
        (io_bind (cleanup_partial pf root ?dir checkout) (\<lambda>_. io_throw (msg @ ex_stderr result)))
        (\<lambda>_ :: agent_worktree_result. on_log (failed_safe root parent own ?dir checkout)) (on_log (failed_safe root parent own ?dir checkout))"
      by (simp add: stable_def)
    then show ?thesis using True by (auto elim!: hoare_weaken simp: failed_safe_def)
  qed (auto intro: hoare_return)
  have main: "stable (provision_safe root parent own)
      (io_bind (pexec pf ?call) (\<lambda>result.
         if ex_code result \<noteq> 0
         then io_bind (cleanup_partial pf root ?dir checkout) (\<lambda>_. io_throw (msg @ ex_stderr result))
         else io_return y))" for msg and y :: agent_worktree_result
    unfolding stable_def by (rule hoare_bind [OF add rest])
  show ?thesis
    unfolding createAgentWorktree_def Let_def
    by (rule main stable_intros | simp)+
qed

lemma said_append [simp]: "said c ok l \<Longrightarrow> said c ok (l @ s)"
  by (simp add: said_def)

lemma integration_append: "integration_branch root parent l b \<Longrightarrow> integration_branch root parent (l @ s) b"
  unfolding integration_branch_def by (elim disjE conjE) simp_all

lemma merged_run:
  "hoare (on_log (\<lambda>l. provision_safe root parent own l \<and> list_all (integration_branch root parent l) (candidate # candidates)))
     (isMergedInto pf root b candidate)
     (\<lambda>merged. on_log (\<lambda>l. provision_safe root parent own l \<and> (merged \<longrightarrow> just_merged root parent b l)
        \<and> list_all (integration_branch root parent l) candidates))
     (on_log (provision_safe root parent own))"
proof -
  let ?call = "git_call [''-C'', root, ''merge-base'', ''--is-ancestor'', b, candidate]"
  let ?all = "\<lambda>l. list_all (integration_branch root parent l)"
  have "\<not> destructive ?call" by (simp add: destructive_def)
  moreover have "?all (l @ s) cs" if "?all l cs" for l s cs
    using that by (auto simp: list_all_iff integration_append)
  ultimately have "hoare (on_log (\<lambda>l. provision_safe root parent own l \<and> ?all l (candidate # candidates))) (pexec pf ?call)
      (\<lambda>result. on_log (\<lambda>l. provision_safe root parent own l \<and> (ex_code result = 0 \<longrightarrow> just_merged root parent b l) \<and> ?all l candidates))
      (on_log (provision_safe root parent own))"
    unfolding pexec_def
    by (intro hoare_traced) (auto simp: just_merged_def)
  then show ?thesis
    unfolding isMergedInto_def by (rule hoare_bind) (auto intro!: hoare_return)
qed

lemma delete_merged:
  assumes "b \<in> set own"
  shows "hoare (on_log (\<lambda>l. provision_safe root parent own l \<and> just_merged root parent b l)) (deleteBranch pf root b)
     (\<lambda>_. on_log (provision_safe root parent own)) (on_log (provision_safe root parent own))"
proof -
  have "hoare (on_log (\<lambda>l. provision_safe root parent own l \<and> just_merged root parent b l)) (pexec pf (git_call [''-C'', root, ''branch'', ''-D'', b]))
     (\<lambda>_. on_log (provision_safe root parent own)) (on_log (provision_safe root parent own))"
    unfolding pexec_def
    by (rule hoare_traced) (use assms in \<open>auto simp: provision_grounds_def git_call_def\<close>)
  then show ?thesis
    unfolding deleteBranch_def
    by (rule hoare_bind) (auto intro!: hoare_return hoare_throw)
qed

lemma base_stable [stable_intros]:
  "mild I \<Longrightarrow> stable I (requireCleanBase pf d)"
  "mild I \<Longrightarrow> stable I (detachedBaseOid pf x d)"
  "mild I \<Longrightarrow> stable I (integrationBranches pf root d)"
  "stable I (runSetupHook cmds run repo root p)"
  unfolding requireCleanBase_def isOnBranch_def detachedBaseOid_def integrationBranches_def runSetupHook_def Let_def
  by (auto intro!: stable_intros simp: verb_simps)

text \<open>What the list of candidates is made from.\<close>

lemma output_said:
  assumes "keeps I (git_call ([''-C'', d] @ args))"
  shows "hoare (on_log I) (tryGitOutput pf d args)
    (\<lambda>r. on_log (\<lambda>l. I l \<and> (case r of None \<Rightarrow> True | Some out \<Rightarrow> said (git_call ([''-C'', d] @ args)) (\<lambda>o'. o' = out) l)))
    (on_log I)"
proof -
  let ?call = "git_call ([''-C'', d] @ args)"
  have "hoare (on_log I) (pexec pf ?call)
      (\<lambda>r. on_log (\<lambda>l. I l \<and> (ex_code r = 0 \<longrightarrow> said ?call (\<lambda>o'. o' = trim (ex_stdout r)) l))) (on_log I)"
    unfolding pexec_def by (rule hoare_traced) (use assms in \<open>auto simp: keeps_def said_def\<close>)
  then have "hoare (on_log I) (gitOutput pf d args) (\<lambda>out. on_log (\<lambda>l. I l \<and> said ?call (\<lambda>o'. o' = out) l)) (on_log I)"
    unfolding gitOutput_def by (rule hoare_bind) (auto intro!: hoare_return hoare_throw)
  then show ?thesis
    unfolding tryGitOutput_def
    by (intro hoare_catch [where R = "on_log I"] hoare_bind) (auto intro!: hoare_return)
qed

abbreviation known_targets :: "string \<Rightarrow> string \<Rightarrow> string list \<Rightarrow> host_event list \<Rightarrow> bool" where
  "known_targets root parent cs l \<equiv> list_all (integration_branch root parent l) cs"

lemma known_append: "known_targets root parent cs l \<Longrightarrow> known_targets root parent cs (l @ s)"
  by (auto simp: list_all_iff integration_append)

lemma mild_known: "mild I \<Longrightarrow> mild (\<lambda>l. I l \<and> known_targets root parent cs l)"
  by (auto simp: mild_def keeps_git_def keeps_def keeps_writes_def intro: known_append)

lemma said_weaken: "said c ok l \<Longrightarrow> (\<And>out. ok out \<Longrightarrow> ok' out) \<Longrightarrow> said c ok' l"
  unfolding said_def by (induction l) (auto split: host_event.splits sum.splits)

lemma integration_local:
  assumes "b = ''main'' \<or> b = ''master''" "out \<noteq> []"
    and "said (git_call [''-C'', root, ''rev-parse'', ''--verify'', b]) (\<lambda>o'. o' = out) l"
  shows "integration_branch root parent l b"
proof -
  have "said (git_call [''-C'', root, ''rev-parse'', ''--verify'', b]) (\<lambda>o'. o' \<noteq> []) l"
    by (rule said_weaken [OF assms(3)]) (simp add: assms(2))
  with assms(1) show ?thesis by (simp add: integration_branch_def)
qed

lemma default_branch_said:
  assumes "mild I"
  shows "hoare (on_log (\<lambda>l. I l \<and> known_targets root parent cs l)) (detectDefaultBranch pf root)
    (\<lambda>b. on_log (\<lambda>l. I l \<and> known_targets root parent (b # cs) l)) (on_log (\<lambda>l. I l \<and> known_targets root parent cs l))"
proof -
  let ?J = "\<lambda>l. I l \<and> known_targets root parent cs l"
  let ?Q = "\<lambda>b. on_log (\<lambda>l. I l \<and> known_targets root parent (b # cs) l)"
  have mild: "mild ?J" by (rule mild_known [OF assms])
  have ask: "hoare (on_log ?J) (tryGitOutput pf root args)
      (\<lambda>r. on_log (\<lambda>l. ?J l \<and> (case r of None \<Rightarrow> True | Some out \<Rightarrow> said (git_call ([''-C'', root] @ args)) (\<lambda>o'. o' = out) l)))
      (on_log ?J)" if "take 2 args \<notin> set changing_verbs" for args
    by (rule output_said) (use mild_git [OF mild that] in simp)
  have found: "hoare (on_log (\<lambda>l. ?J l \<and> (case r of None \<Rightarrow> True
        | Some out \<Rightarrow> said (git_call ([''-C'', root] @ [''rev-parse'', ''--verify'', b])) (\<lambda>o'. o' = out) l)))
      (if truthy_str r then io_return b else k) ?Q (on_log ?J)"
    if "b \<in> {''main'', ''master''}" "hoare (on_log ?J) k ?Q (on_log ?J)" for r b k
  proof (rule hoare_if)
    assume "truthy_str r"
    then obtain out where "r = Some out" "out \<noteq> []" by (auto simp: truthy_str_def split: option.splits)
    with that(1) show "hoare (on_log (\<lambda>l. ?J l \<and> (case r of None \<Rightarrow> True
        | Some out \<Rightarrow> said (git_call ([''-C'', root] @ [''rev-parse'', ''--verify'', b])) (\<lambda>o'. o' = out) l))) (io_return b) ?Q (on_log ?J)"
      by (intro hoare_return) (simp add: integration_local)
  next
    show "hoare (on_log (\<lambda>l. ?J l \<and> (case r of None \<Rightarrow> True
        | Some out \<Rightarrow> said (git_call ([''-C'', root] @ [''rev-parse'', ''--verify'', b])) (\<lambda>o'. o' = out) l))) k ?Q (on_log ?J)"
      by (rule hoare_weaken [OF that(2)]) auto
  qed
  have local: "hoare (on_log ?J) (io_bind (tryGitOutput pf root [''rev-parse'', ''--verify'', ''main'']) (\<lambda>main.
      if truthy_str main then io_return ''main''
      else io_bind (tryGitOutput pf root [''rev-parse'', ''--verify'', ''master'']) (\<lambda>master.
        if truthy_str master then io_return ''master''
        else io_throw ''Could not determine default branch (expected origin/HEAD, main, or master)''))) ?Q (on_log ?J)"
    by (rule hoare_bind [OF ask found], simp add: verb_simps, simp, rule hoare_bind [OF ask found], simp add: verb_simps, simp,
        rule hoare_throw) simp
  have head: "hoare (on_log (\<lambda>l. ?J l \<and> (case originHead of None \<Rightarrow> True | Some out \<Rightarrow>
        said (git_call ([''-C'', root] @ [''symbolic-ref'', ''--quiet'', ''--short'', ''refs/remotes/origin/HEAD''])) (\<lambda>o'. o' = out) l)))
      (if case originHead of None \<Rightarrow> False | Some h \<Rightarrow> startsWith h ''origin/''
       then io_return (slice_from (the originHead) (length ''origin/'')) else k) ?Q (on_log ?J)"
    if k: "hoare (on_log ?J) k ?Q (on_log ?J)" for originHead k
  proof (rule hoare_if)
    assume "case originHead of None \<Rightarrow> False | Some h \<Rightarrow> startsWith h ''origin/''"
    then obtain b where "originHead = Some (''origin/'' @ b)" by (auto simp: startsWith_iff split: option.splits)
    then show "hoare (on_log (\<lambda>l. ?J l \<and> (case originHead of None \<Rightarrow> True | Some out \<Rightarrow>
        said (git_call ([''-C'', root] @ [''symbolic-ref'', ''--quiet'', ''--short'', ''refs/remotes/origin/HEAD''])) (\<lambda>o'. o' = out) l)))
      (io_return (slice_from (the originHead) (length ''origin/''))) ?Q (on_log ?J)"
      by (intro hoare_return) (simp add: integration_branch_def slice_from_def)
  next
    show "hoare (on_log (\<lambda>l. ?J l \<and> (case originHead of None \<Rightarrow> True | Some out \<Rightarrow>
        said (git_call ([''-C'', root] @ [''symbolic-ref'', ''--quiet'', ''--short'', ''refs/remotes/origin/HEAD''])) (\<lambda>o'. o' = out) l)))
      k ?Q (on_log ?J)"
      by (rule hoare_weaken [OF k]) auto
  qed
  show ?thesis
    unfolding detectDefaultBranch_def by (rule hoare_bind [OF ask head [OF local]]) (simp add: verb_simps)
qed

lemma continue_safe:
  assumes "b \<in> set own"
  shows "hoare (on_log (\<lambda>l. provision_safe root parent own l \<and> list_all (integration_branch root parent l) candidates))
    (continue_or_restart pf root parent b tip candidates)
    (\<lambda>_. on_log (provision_safe root parent own)) (on_log (provision_safe root parent own))"
proof (induction candidates)
  case Nil
  show ?case by (auto intro: hoare_return)
next
  case (Cons candidate candidates)
  have afresh: "stable (provision_safe root parent own)
      (io_bind (requireCleanBase pf parent) (\<lambda>base.
         io_return \<lparr>dc_branch = b, dc_baseOid = base, dc_branchCreated = True\<rparr>))"
    by (rule stable_intros | simp)+
  have restart: "hoare (on_log (\<lambda>l. provision_safe root parent own l \<and> just_merged root parent b l))
      (io_bind (deleteBranch pf root b) (\<lambda>_. io_bind (requireCleanBase pf parent) (\<lambda>base.
         io_return \<lparr>dc_branch = b, dc_baseOid = base, dc_branchCreated = True\<rparr>)))
      (\<lambda>_. on_log (provision_safe root parent own)) (on_log (provision_safe root parent own))"
    by (rule hoare_bind [OF delete_merged [OF assms]]) (use afresh in \<open>simp add: stable_def\<close>)
  have "hoare (on_log (\<lambda>l. provision_safe root parent own l \<and> (merged \<longrightarrow> just_merged root parent b l)
        \<and> list_all (integration_branch root parent l) candidates))
      (if merged
       then io_bind (deleteBranch pf root b) (\<lambda>_. io_bind (requireCleanBase pf parent) (\<lambda>base.
              io_return \<lparr>dc_branch = b, dc_baseOid = base, dc_branchCreated = True\<rparr>))
       else continue_or_restart pf root parent b tip candidates)
      (\<lambda>_. on_log (provision_safe root parent own)) (on_log (provision_safe root parent own))" for merged
    using restart Cons.IH by (cases merged) (auto elim!: hoare_weaken)
  then show ?case
    unfolding continue_or_restart.simps by (rule hoare_bind [OF merged_run])
qed

lemma candidates_said:
  assumes "mild I"
  shows "hoare (on_log I) (integrationBranches pf root parent)
    (\<lambda>cs. on_log (\<lambda>l. I l \<and> known_targets root parent cs l)) (on_log I)"
proof -
  let ?J = "\<lambda>cs l. I l \<and> known_targets root parent cs l"
  have current: "hoare (on_log I) (tryGitOutput pf parent [''branch'', ''--show-current''])
      (\<lambda>r. on_log (?J (if truthy_str r then [the r] else []))) (on_log I)"
    by (rule hoare_weaken [OF output_said [where I = I]])
      (use assms in \<open>auto simp: integration_branch_def truthy_str_def verb_simps intro: mild_git [of _ _ "''-C''", simplified] split: option.splits\<close>)
  have added: "hoare (on_log (?J cs)) (io_catch (io_bind (detectDefaultBranch pf root) (\<lambda>b. io_return (add_candidate cs b))) (\<lambda>_. io_return cs))
      (\<lambda>cs'. on_log (?J cs')) (on_log I)" for cs
    by (rule hoare_catch, rule hoare_bind [OF default_branch_said [OF assms]])
      (auto intro!: hoare_return simp: add_candidate_def list_all_append)
  show ?thesis
    unfolding integrationBranches_def Let_def by (rule hoare_bind [OF current added])
qed

lemma resolve_safe:
  assumes "agentBranchName handle \<in> set own"
  shows "stable (provision_safe root parent own) (resolveDeliverableCheckout pf handle retask root parent)"
proof -
  let ?I = "provision_safe root parent own"
  have old: "stable ?I (io_bind (integrationBranches pf root parent) (continue_or_restart pf root parent (agentBranchName handle) tip))" for tip
    unfolding stable_def by (rule hoare_bind [OF candidates_said continue_safe [OF assms]]) simp
  have fresh: "stable ?I (io_bind (requireCleanBase pf parent) (\<lambda>base.
      io_return \<lparr>dc_branch = b, dc_baseOid = base, dc_branchCreated = True\<rparr>))" for b
    by (rule stable_intros | simp)+
  have tip: "stable ?I (branchTip pf root b)" for b
    unfolding branchTip_def by (rule stable_intros | simp add: verb_simps)+
  show ?thesis
    unfolding resolveDeliverableCheckout_def Let_def
    by (rule stable_basic(3) [OF tip]) (simp add: old fresh stable_basic(2))
qed

lemma resolved_branch:
  "resolveDeliverableCheckout pf handle retask root parent t = (Inr c, t') \<Longrightarrow> dc_branch c = agentBranchName handle"
proof -
  have "continue_or_restart pf root parent b tip candidates t = (Inr c, t') \<Longrightarrow> dc_branch c = b" for b tip candidates t
    by (induction candidates arbitrary: t)
      (auto simp: io_simps split: sum.splits prod.splits if_splits)
  then show "resolveDeliverableCheckout pf handle retask root parent t = (Inr c, t') \<Longrightarrow> ?thesis"
    by (auto simp: resolveDeliverableCheckout_def Let_def io_simps split: sum.splits prod.splits if_splits)
qed

lemma stable_bind_result:
  assumes "stable I m" "\<And>x t t'. m t = (Inr x, t') \<Longrightarrow> Q x" "\<And>x. Q x \<Longrightarrow> stable I (f x)"
  shows "stable I (io_bind m f)"
  unfolding stable_def
proof (rule hoare_bind)
  show "hoare (on_log I) m (\<lambda>x. \<lambda>t. Q x \<and> on_log I t) (on_log I)"
    using assms(1,2) unfolding stable_def by (intro hoareI) (blast dest: hoare_returns hoare_throws)+
  show "hoare (\<lambda>t. Q x \<and> on_log I t) (f x) (\<lambda>_. on_log I) (on_log I)" for x
    by (rule hoare_pre_pure) (use assms(3) in \<open>unfold stable_def\<close>)
qed

lemma provision_deliverable_safe:
  assumes "own = [agentBranchName handle]"
  shows "stable (provision_safe root parent own) (provision_deliverable pf env run_env handle retask root repo parent label)"
  unfolding provision_deliverable_def
proof (rule stable_bind_result [where Q = "\<lambda>c. dc_branch c = agentBranchName handle"])
  show "stable (provision_safe root parent own) (resolveDeliverableCheckout pf handle retask root parent)"
    by (rule resolve_safe) (simp add: assms)
  fix c :: deliverable_checkout
  assume "dc_branch c = agentBranchName handle"
  then show "stable (provision_safe root parent own)
      (io_bind (createAgentWorktree pf root repo label
         (if dc_branchCreated c then NewBranch (dc_branch c) (dc_baseOid c) else ExistingBranch (dc_branch c))
         (agent_lock_reason (pv_now env)))
       (\<lambda>worktree. runSetupHook (pv_setup env) run_env repo root
          \<lparr>ap_kind = KDeliverable, ap_worktreeDir = aw_worktreeDir worktree, ap_label = label,
           ap_branch = Some (dc_branch c), ap_baseOid = dc_baseOid c,
           ap_branchCreated = dc_branchCreated c, ap_repoRoot = root, ap_setupWarning = None\<rparr>))"
    by (intro stable_basic(3) create_safe base_stable(4)) (simp add: assms)
qed (use resolved_branch in blast)

lemma provision_detached_safe:
  "stable (provision_safe root parent own) (provision_detached pf env run_env target root repo parent label)"
  unfolding provision_detached_def Let_def
  by (rule create_safe stable_intros | simp)+

text \<open>
  C11. Provisioning an agent's workspace destroys nothing but what is its own or already integrated:
  a branch is deleted only when it is the run's own branch, in the session's repository, and only right after git reported it
  merged into the branch the parent worktree is on or the repository's default branch, as git had named them before,
  or after creating the worktree on it failed; a worktree is removed only after its own creation failed. Report and ask
  runs delete no branch at all, and a session without a repository runs nothing.
\<close>

theorem provisioning_destroys_only_its_own:
  "let l = tw_log (snd (provisionAgentWorkspace pf env run_env request workspace \<lparr>tw_host = w, tw_log = []\<rparr>)) in
   (case Option.bind workspace ws_repo of
      None \<Rightarrow> l = []
    | Some repo \<Rightarrow>
        (let root = (case ws_protectedRoot (the workspace) of Some r \<Rightarrow> r | None \<Rightarrow> rp_root repo);
             parent = (case ws_activeWorktree (the workspace) of Some a \<Rightarrow> wt_path a | None \<Rightarrow> root)
         in provision_safe root parent (own_branches request) l))"
proof (cases "Option.bind workspace ws_repo")
  case None
  then show ?thesis
    by (auto simp: provisionAgentWorkspace_def io_simps Let_def split: option.splits)
next
  case (Some repo)
  then obtain ws where ws: "workspace = Some ws" "ws_repo ws = Some repo" by (auto simp: bind_eq_Some_conv)
  let ?root = "case ws_protectedRoot ws of Some r \<Rightarrow> r | None \<Rightarrow> rp_root repo"
  let ?parent = "case ws_activeWorktree ws of Some a \<Rightarrow> wt_path a | None \<Rightarrow> ?root"
  have "stable (provision_safe ?root ?parent (own_branches request)) (provisionAgentWorkspace pf env run_env request workspace)"
    unfolding provisionAgentWorkspace_def Let_def ws option.case
    by (cases request)
      (rule provision_deliverable_safe provision_detached_safe stable_intros | simp add: own_branches_def)+
  then have "provision_safe ?root ?parent (own_branches request)
      (tw_log (snd (provisionAgentWorkspace pf env run_env request workspace \<lparr>tw_host = w, tw_log = []\<rparr>)))"
    by (rule stable_run) simp
  then show ?thesis unfolding Some by (simp add: ws(1) Let_def)
qed

end
