(* ===== verification/DiffSidecar.thy ===== *)
theory DiffSidecar
  imports Json Host NodePath
begin

text \<open>
  The annotation sidecar of a diff review (\<open>pi/diff/sidecar.ts\<close>, \<open>sidecar-merge.ts\<close> and the tools
  \<open>annotate-tool.ts\<close>, \<open>remove-tool.ts\<close>): the agent annotates a changeset over several calls, the
  calls accumulate in one file per worktree, and a review consumes the file. The digest
  \<open>sha256(s).digest("hex")\<close> is the parameter \<open>hash\<close>. Reading and writing the file is atomic in the
  source (synchronous, written aside and renamed), so the file is a value: \<open>None\<close> when it is
  missing or not JSON.
\<close>

section \<open>Documents\<close>

record annotation =
  an_id :: "string option"
  an_range :: "int \<times> int"
  an_summary :: string
  an_rationale :: "string option"

record annotated_file =
  af_path :: string
  af_summary :: "string option"
  af_annotations :: "annotation list"

record sidecar =
  sc_base :: string
  sc_summary :: string
  sc_files :: "annotated_file list"

record recorded_annotation =
  ra_id :: string
  ra_path :: string
  ra_range :: "int \<times> int"
  ra_summary :: string

definition SIDECAR_VERSION :: int where "SIDECAR_VERSION = 1"

text \<open>A property that is left out when its value is \<open>undefined\<close>.\<close>

definition opt_field :: "string \<Rightarrow> string option \<Rightarrow> (string \<times> json) list" where
  "opt_field k x = (case x of None \<Rightarrow> [] | Some s \<Rightarrow> [(k, JStr s)])"

definition annotation_json :: "annotation \<Rightarrow> json" where
  "annotation_json a = JObj (
     [(''newRange'', JArr [JNum (IntNum (fst (an_range a))), JNum (IntNum (snd (an_range a)))]),
      (''summary'', JStr (an_summary a))]
     @ opt_field ''rationale'' (an_rationale a) @ opt_field ''id'' (an_id a))"

definition file_json :: "annotated_file \<Rightarrow> json" where
  "file_json f = JObj (
     [(''path'', JStr (af_path f)), (''annotations'', JArr (map annotation_json (af_annotations f)))]
     @ opt_field ''summary'' (af_summary f))"

definition sidecar_json :: "sidecar \<Rightarrow> json" where
  "sidecar_json s = JObj
     [(''version'', JNum (IntNum SIDECAR_VERSION)), (''basecampBase'', JStr (sc_base s)),
      (''summary'', JStr (sc_summary s)), (''files'', JArr (map file_json (sc_files s)))]"

text \<open>\<open>Value.Check\<close> of the three schemas, each closed to additional properties.\<close>

definition only_keys :: "string list \<Rightarrow> json \<Rightarrow> bool" where
  "only_keys ks j = (case j of JObj kvs \<Rightarrow> list_all (\<lambda>kv. fst kv \<in> set ks) kvs | _ \<Rightarrow> False)"

fun filled :: "json option \<Rightarrow> bool" where
  "filled (Some (JStr s)) = (s \<noteq> [])"
| "filled _ = False"

definition optional_string :: "json option \<Rightarrow> bool" where
  "optional_string v \<longleftrightarrow> v = None \<or> is_string v"

fun int_pair :: "json option \<Rightarrow> (int \<times> int) option" where
  "int_pair (Some (JArr [JNum (IntNum a), JNum (IntNum b)])) = Some (a, b)"
| "int_pair _ = None"

definition opt_str :: "json option \<Rightarrow> string option" where
  "opt_str v = map_option (\<lambda>j. str_of (Some j)) v"

definition read_annotation :: "json \<Rightarrow> annotation result" where
  "read_annotation j =
     (case int_pair (field j ''newRange'') of
        None \<Rightarrow> Inl ''annotation''
      | Some r \<Rightarrow>
          if only_keys [''id'', ''newRange'', ''summary'', ''rationale''] j
             \<and> (field j ''id'' = None \<or> filled (field j ''id'')) \<and> filled (field j ''summary'')
             \<and> optional_string (field j ''rationale'')
          then Inr \<lparr>an_id = opt_str (field j ''id''), an_range = r, an_summary = str_of (field j ''summary''),
                 an_rationale = opt_str (field j ''rationale'')\<rparr>
          else Inl ''annotation'')"

definition read_file :: "json \<Rightarrow> annotated_file result" where
  "read_file j =
     (case field j ''annotations'' of
        Some (JArr xs) \<Rightarrow>
          (if only_keys [''path'', ''summary'', ''annotations''] j \<and> filled (field j ''path'')
              \<and> optional_string (field j ''summary'')
           then rbind (map_result read_annotation xs) (\<lambda>anns.
             Inr \<lparr>af_path = str_of (field j ''path''), af_summary = opt_str (field j ''summary''),
                  af_annotations = anns\<rparr>)
           else Inl ''file'')
      | _ \<Rightarrow> Inl ''file'')"

definition read_sidecar_json :: "json \<Rightarrow> sidecar result" where
  "read_sidecar_json j =
     (case field j ''files'' of
        Some (JArr fs) \<Rightarrow>
          (if only_keys [''version'', ''basecampBase'', ''summary'', ''files''] j
              \<and> field j ''version'' = Some (JNum (IntNum SIDECAR_VERSION))
              \<and> filled (field j ''basecampBase'') \<and> filled (field j ''summary'')
           then rbind (map_result read_file fs) (\<lambda>files.
             Inr \<lparr>sc_base = str_of (field j ''basecampBase''), sc_summary = str_of (field j ''summary''),
                  sc_files = files\<rparr>)
           else Inl ''sidecar'')
      | _ \<Rightarrow> Inl ''sidecar'')"

section \<open>Identity and merging\<close>

abbreviation newline :: string where "newline \<equiv> [CHR 0x0A]"

definition annotationId :: "(string \<Rightarrow> string) \<Rightarrow> string \<Rightarrow> int \<times> int \<Rightarrow> string \<Rightarrow> string option \<Rightarrow> string" where
  "annotationId hash filePath newRange summary rationale =
     take 12 (hash (filePath @ newline @ show_int (fst newRange) @ newline @ show_int (snd newRange) @ newline
       @ summary @ newline @ (case rationale of None \<Rightarrow> [] | Some r \<Rightarrow> r)))"

definition sameAnchor :: "annotation \<Rightarrow> annotation \<Rightarrow> bool" where
  "sameAnchor a b \<longleftrightarrow> fst (an_range a) = fst (an_range b) \<and> snd (an_range a) = snd (an_range b)
     \<and> an_summary a = an_summary b"

definition stamp :: "(string \<Rightarrow> string) \<Rightarrow> string \<Rightarrow> annotation \<Rightarrow> annotation" where
  "stamp hash p a = a\<lparr>an_id := Some (annotationId hash p (an_range a) (an_summary a) (an_rationale a))\<rparr>"

text \<open>Replace the annotation of the same anchor in place, or append.\<close>

definition supersede :: "annotation \<Rightarrow> annotation list \<Rightarrow> annotation list" where
  "supersede a held =
     (case find_index (\<lambda>h. sameAnchor h a) held of Some i \<Rightarrow> held[i := a] | None \<Rightarrow> held @ [a])"

definition fold_annotations :: "(string \<Rightarrow> string) \<Rightarrow> string \<Rightarrow> annotation list \<Rightarrow> annotated_file \<Rightarrow> annotated_file" where
  "fold_annotations hash p anns entry =
     foldl (\<lambda>e a. e\<lparr>af_annotations := supersede (stamp hash p a) (af_annotations e)\<rparr>) entry anns"

definition fold_file :: "(string \<Rightarrow> string) \<Rightarrow> annotated_file \<Rightarrow> annotated_file \<Rightarrow> annotated_file" where
  "fold_file hash f entry =
     (let entry = fold_annotations hash (af_path f) (af_annotations f) entry
      in if af_summary f \<noteq> None then entry\<lparr>af_summary := af_summary f\<rparr> else entry)"

text \<open>The entry of a path is updated in place; a new path's entry goes last.\<close>

fun update_entry :: "string \<Rightarrow> (annotated_file \<Rightarrow> annotated_file) \<Rightarrow> annotated_file list \<Rightarrow> annotated_file list" where
  "update_entry p g [] = [g \<lparr>af_path = p, af_summary = None, af_annotations = []\<rparr>]"
| "update_entry p g (e # es) = (if af_path e = p then g e # es else e # update_entry p g es)"

definition stampFiles :: "(string \<Rightarrow> string) \<Rightarrow> annotated_file list \<Rightarrow> annotated_file list" where
  "stampFiles hash files = foldl (\<lambda>es f. update_entry (af_path f) (fold_file hash f) es) [] files"

definition recorded_of :: "string \<Rightarrow> annotation \<Rightarrow> recorded_annotation" where
  "recorded_of p a = \<lparr>ra_id = (case an_id a of None \<Rightarrow> [] | Some i \<Rightarrow> i), ra_path = p,
     ra_range = an_range a, ra_summary = an_summary a\<rparr>"

text \<open>
  One incoming annotation into the entry of its path. \<open>present\<close> is the set of the ids the entry
  holds; the last component collects what the call contributed.
\<close>

definition merge_annotation ::
  "string \<Rightarrow> annotation list \<times> string list \<times> recorded_annotation list \<Rightarrow> annotation \<Rightarrow>
   annotation list \<times> string list \<times> recorded_annotation list" where
  "merge_annotation p st a =
     (case st of (held, present, recorded) \<Rightarrow>
       (let i = (case an_id a of None \<Rightarrow> [] | Some i \<Rightarrow> i) in
        if i \<in> set present then st
        else (case find_index (\<lambda>h. sameAnchor h a) held of
            Some k \<Rightarrow>
              (let old = (case an_id (held ! k) of None \<Rightarrow> [] | Some j \<Rightarrow> j)
               in (held[k := a], i # removeAll old present, recorded @ [recorded_of p a]))
          | None \<Rightarrow> (held @ [a], i # present, recorded @ [recorded_of p a]))))"

definition present_ids :: "(string \<Rightarrow> string) \<Rightarrow> annotated_file \<Rightarrow> string list" where
  "present_ids hash e = map (\<lambda>a. case an_id a of
       None \<Rightarrow> annotationId hash (af_path e) (an_range a) (an_summary a) (an_rationale a)
     | Some i \<Rightarrow> i) (af_annotations e)"

definition merge_into ::
  "(string \<Rightarrow> string) \<Rightarrow> annotated_file \<Rightarrow> annotated_file \<Rightarrow> annotated_file \<times> recorded_annotation list" where
  "merge_into hash f e =
     (case foldl (merge_annotation (af_path f)) (af_annotations e, present_ids hash e, []) (af_annotations f) of
        (held, _, recorded) \<Rightarrow>
          (e\<lparr>af_annotations := held,
             af_summary := (if af_summary f \<noteq> None then af_summary f else af_summary e)\<rparr>, recorded))"

fun merge_file ::
  "(string \<Rightarrow> string) \<Rightarrow> annotated_file list \<Rightarrow> annotated_file \<Rightarrow> annotated_file list \<times> recorded_annotation list" where
  "merge_file hash [] f = ([f], map (recorded_of (af_path f)) (af_annotations f))"
| "merge_file hash (e # es) f =
     (if af_path e = af_path f then (case merge_into hash f e of (e', r) \<Rightarrow> (e' # es, r))
      else (case merge_file hash es f of (es', r) \<Rightarrow> (e # es', r)))"

definition merge_files ::
  "(string \<Rightarrow> string) \<Rightarrow> annotated_file list \<times> recorded_annotation list \<Rightarrow> annotated_file list \<Rightarrow>
   annotated_file list \<times> recorded_annotation list" where
  "merge_files hash st incoming = foldl (\<lambda>(files, recorded) f.
     (case merge_file hash files f of (files', r) \<Rightarrow> (files', recorded @ r))) st incoming"

definition mergeSidecar ::
  "(string \<Rightarrow> string) \<Rightarrow> sidecar \<Rightarrow> annotated_file list \<Rightarrow> string \<Rightarrow> sidecar \<times> recorded_annotation list" where
  "mergeSidecar hash existing incoming summary =
     (case merge_files hash (sc_files existing, []) incoming of
        (files, recorded) \<Rightarrow> (existing\<lparr>sc_summary := summary, sc_files := files\<rparr>, recorded))"

section \<open>The stored file\<close>

definition scratchRoot :: "env \<Rightarrow> string \<Rightarrow> string" where
  "scratchRoot e tmpdir = string_or (case e ''BASECAMP_SCRATCH_DIR'' of None \<Rightarrow> [] | Some d \<Rightarrow> d) tmpdir"

definition sidecarPath :: "(string \<Rightarrow> string) \<Rightarrow> string \<Rightarrow> string \<Rightarrow> string" where
  "sidecarPath hash root worktreeDir =
     path_join [path_join [root, ''diff''], ''annotate-'' @ take 16 (hash worktreeDir) @ ''.json'']"

definition readSidecar :: "json option \<Rightarrow> sidecar option" where
  "readSidecar f =
     (case f of None \<Rightarrow> None
      | Some j \<Rightarrow> (case read_sidecar_json j of Inl _ \<Rightarrow> None | Inr s \<Rightarrow> Some s))"

record write_result =
  wr_files :: nat
  wr_annotations :: nat
  wr_recorded :: "recorded_annotation list"

definition writeSidecar ::
  "(string \<Rightarrow> string) \<Rightarrow> json option \<Rightarrow> string \<Rightarrow> string \<Rightarrow> annotated_file list \<Rightarrow> json option \<times> write_result" where
  "writeSidecar hash file base summary files =
     (let incoming = stampFiles hash files;
          fresh = (\<lparr>sc_base = base, sc_summary = summary, sc_files = incoming\<rparr>,
            concat (map (\<lambda>f. map (recorded_of (af_path f)) (af_annotations f)) incoming));
          (s, recorded) = (case readSidecar file of
             None \<Rightarrow> fresh
           | Some existing \<Rightarrow>
               if sc_base existing = base then mergeSidecar hash existing incoming summary else fresh)
      in (Some (sidecar_json s),
          \<lparr>wr_files = length (sc_files s),
           wr_annotations = sum_list (map (\<lambda>f. length (af_annotations f)) (sc_files s)),
           wr_recorded = recorded\<rparr>))"

definition clearSidecar :: "json option \<Rightarrow> json option" where
  "clearSidecar file = None"

definition matching :: "string \<Rightarrow> sidecar \<Rightarrow> annotation list" where
  "matching key s = filter (\<lambda>a. an_id a = Some key) (concat (map af_annotations (sc_files s)))"

definition without :: "string \<Rightarrow> annotated_file list \<Rightarrow> annotated_file list" where
  "without key files =
     filter (\<lambda>f. af_annotations f \<noteq> [])
       (map (\<lambda>f. f\<lparr>af_annotations := filter (\<lambda>a. an_id a \<noteq> Some key) (af_annotations f)\<rparr>) files)"

text \<open>\<open>Inl\<close> the reason of a refusal.\<close>

definition removeAnnotation :: "json option \<Rightarrow> string \<Rightarrow> unit result \<times> json option" where
  "removeAnnotation file key =
     (case readSidecar file of
        None \<Rightarrow> (Inl ''no annotations recorded for this worktree'', file)
      | Some s \<Rightarrow>
          if matching key s = [] then (Inl (''annotation '' @ key @ '' not found (already reviewed?)''), file)
          else if length (matching key s) > 1 then (Inl (''annotation key '' @ key @ '' is ambiguous''), file)
          else (let files = without key (sc_files s)
                in (Inr (), if files = [] then None else Some (sidecar_json (s\<lparr>sc_files := files\<rparr>)))))"

definition readSidecarBase :: "json option \<Rightarrow> string option" where
  "readSidecarBase file = map_option sc_base (readSidecar file)"

section \<open>The tools\<close>

text \<open>The parameters of \<open>annotate_changeset\<close>; the host checks them against their schema.\<close>

record annotation_param =
  ap_startLine :: int
  ap_endLine :: int
  ap_summary :: string
  ap_rationale :: "string option"

record file_param =
  fp_path :: string
  fp_summary :: "string option"
  fp_annotations :: "annotation_param list"

record annotate_params =
  np_summary :: string
  np_files :: "file_param list"

definition params_checked :: "annotate_params \<Rightarrow> bool" where
  "params_checked p \<longleftrightarrow> np_summary p \<noteq> [] \<and> list_all (\<lambda>f. fp_path f \<noteq> [] \<and>
     list_all (\<lambda>a. ap_startLine a \<ge> 1 \<and> ap_endLine a \<ge> 1 \<and> ap_summary a \<noteq> []) (fp_annotations f)) (np_files p)"

definition invertedRanges :: "annotate_params \<Rightarrow> string list" where
  "invertedRanges p = concat (map (\<lambda>f.
     map (\<lambda>a. fp_path f @ '' '' @ show_int (ap_startLine a) @ ''-'' @ show_int (ap_endLine a))
       (filter (\<lambda>a. ap_endLine a < ap_startLine a) (fp_annotations f))) (np_files p))"

definition toAnnotatedFiles :: "annotate_params \<Rightarrow> annotated_file list" where
  "toAnnotatedFiles p = map (\<lambda>f. \<lparr>af_path = fp_path f, af_summary = fp_summary f,
     af_annotations = map (\<lambda>a. \<lparr>an_id = None, an_range = (ap_startLine a, ap_endLine a),
        an_summary = ap_summary a, an_rationale = ap_rationale a\<rparr>) (fp_annotations f)\<rparr>) (np_files p)"

text \<open>The tool's call; \<open>base\<close> is the answer of \<open>resolveReviewBase\<close>.\<close>

definition annotate_changeset ::
  "(string \<Rightarrow> string) \<Rightarrow> string result \<Rightarrow> annotate_params \<Rightarrow> json option \<Rightarrow> write_result result \<times> json option" where
  "annotate_changeset hash base params file =
     (if invertedRanges params \<noteq> []
      then (Inl (''endLine must not precede startLine: '' @ join '', '' (invertedRanges params)), file)
      else (case base of
          Inl err \<Rightarrow> (Inl (''Cannot anchor annotations: '' @ err), file)
        | Inr b \<Rightarrow>
            (case writeSidecar hash file b (np_summary params) (toAnnotatedFiles params) of
               (file', result) \<Rightarrow> (Inr result, file'))))"

definition remove_annotation :: "string \<Rightarrow> json option \<Rightarrow> unit result \<times> json option" where
  "remove_annotation key file = removeAnnotation file key"

section \<open>Round trip of the file\<close>

lemma opt_str_simps [simp]: "opt_str None = None" "opt_str (Some (JStr s)) = Some s"
  by (simp_all add: opt_str_def)

definition annotation_ok :: "annotation \<Rightarrow> bool" where
  "annotation_ok a \<longleftrightarrow> an_id a \<noteq> Some [] \<and> an_summary a \<noteq> []"

definition file_ok :: "annotated_file \<Rightarrow> bool" where
  "file_ok f \<longleftrightarrow> af_path f \<noteq> [] \<and> list_all annotation_ok (af_annotations f)"

definition sidecar_ok :: "sidecar \<Rightarrow> bool" where
  "sidecar_ok s \<longleftrightarrow> sc_base s \<noteq> [] \<and> sc_summary s \<noteq> [] \<and> list_all file_ok (sc_files s)"

interpretation annotation_codec: json_codec annotation_json read_annotation annotation_ok
  by unfold_locales
    (auto simp: annotation_json_def read_annotation_def annotation_ok_def only_keys_def opt_field_def
      optional_string_def split: option.splits)

interpretation file_codec: json_codec file_json read_file file_ok
proof
  fix f :: annotated_file
  show "file_json f \<noteq> JNull" by (simp add: file_json_def)
  assume "file_ok f"
  then have "map_result read_annotation (map annotation_json (af_annotations f)) = Inr (af_annotations f)"
    by (intro annotation_codec.dec_list) (simp add: file_ok_def list_all_iff)
  with \<open>file_ok f\<close> show "read_file (file_json f) = Inr f"
    by (auto simp: file_json_def read_file_def file_ok_def only_keys_def opt_field_def
        optional_string_def split: option.splits)
qed

interpretation sidecar_codec: json_codec sidecar_json read_sidecar_json sidecar_ok
proof
  fix s :: sidecar
  show "sidecar_json s \<noteq> JNull" by (simp add: sidecar_json_def)
  assume "sidecar_ok s"
  then have "map_result read_file (map file_json (sc_files s)) = Inr (sc_files s)"
    by (intro file_codec.dec_list) (simp add: sidecar_ok_def list_all_iff)
  with \<open>sidecar_ok s\<close> show "read_sidecar_json (sidecar_json s) = Inr s"
    by (auto simp: sidecar_json_def read_sidecar_json_def sidecar_ok_def only_keys_def)
qed

lemma readSidecar_json [simp]: "sidecar_ok s \<Longrightarrow> readSidecar (Some (sidecar_json s)) = Some s"
  by (simp add: readSidecar_def sidecar_codec.dec_enc)

section \<open>The sidecar as a map\<close>

text \<open>
  What a review shows: under each path, range and headline one rationale (an absent one counts
  as empty).
\<close>

type_synonym anchor = "string \<times> (int \<times> int) \<times> string"

definition anchor_key :: "string \<Rightarrow> annotation \<Rightarrow> anchor" where
  "anchor_key p a = (p, an_range a, an_summary a)"

definition text_of :: "annotation \<Rightarrow> string" where
  "text_of a = (case an_rationale a of None \<Rightarrow> [] | Some r \<Rightarrow> r)"

definition ents :: "string \<Rightarrow> annotation list \<Rightarrow> (anchor \<times> string) list" where
  "ents p xs = map (\<lambda>a. (anchor_key p a, text_of a)) xs"

definition all_ents :: "annotated_file list \<Rightarrow> (anchor \<times> string) list" where
  "all_ents fs = concat (map (\<lambda>f. ents (af_path f) (af_annotations f)) fs)"

definition anchor_id :: "(string \<Rightarrow> string) \<Rightarrow> anchor \<times> string \<Rightarrow> string" where
  "anchor_id hash e = (case e of ((p, r, s), n) \<Rightarrow> annotationId hash p r s (Some n))"

lemma anchor_id_of: "anchor_id hash (anchor_key p a, text_of a) = annotationId hash p (an_range a) (an_summary a) (an_rationale a)"
  by (simp add: anchor_id_def anchor_key_def text_of_def annotationId_def split: option.splits)

definition stamped :: "(string \<Rightarrow> string) \<Rightarrow> string \<Rightarrow> annotation \<Rightarrow> bool" where
  "stamped hash p a \<longleftrightarrow> an_id a = Some (anchor_id hash (anchor_key p a, text_of a))"

lemma stamp_simps [simp]:
  "stamped hash p (stamp hash p a)" "anchor_key q (stamp hash p a) = anchor_key q a"
  "text_of (stamp hash p a) = text_of a" "an_summary (stamp hash p a) = an_summary a"
  "an_range (stamp hash p a) = an_range a"
  by (simp_all add: stamped_def stamp_def anchor_id_of anchor_key_def text_of_def)
    (simp add: anchor_id_def annotationId_def split: option.splits)

lemma sameAnchor_key: "sameAnchor a b \<longleftrightarrow> anchor_key p a = anchor_key p b"
  by (auto simp: sameAnchor_def anchor_key_def prod_eq_iff)

lemma replace_or_add_ents:
  "ents p (case find_index (\<lambda>h. sameAnchor h a) held of Some i \<Rightarrow> held[i := a] | None \<Rightarrow> held @ [a])
     = set_key (anchor_key p a) (text_of a) (ents p held)"
proof (induction held)
  case (Cons h held)
  then show ?case
    by (auto simp: ents_def sameAnchor_key [of _ _ p] split: option.splits)
qed (simp add: ents_def)

lemma supersede_ents: "ents p (supersede a held) = set_key (anchor_key p a) (text_of a) (ents p held)"
  by (simp add: supersede_def replace_or_add_ents)

lemma set_supersede: "x \<in> set (supersede a held) \<Longrightarrow> x = a \<or> x \<in> set held"
  by (auto simp: supersede_def split: option.splits dest: set_update_subset_insert [THEN subsetD])

text \<open>An entry: its annotations are stamped and no two have the same anchor.\<close>

definition entry_wf :: "(string \<Rightarrow> string) \<Rightarrow> annotated_file \<Rightarrow> bool" where
  "entry_wf hash f \<longleftrightarrow> distinct (map fst (ents (af_path f) (af_annotations f)))
     \<and> list_all (stamped hash (af_path f)) (af_annotations f)"

definition files_wf :: "(string \<Rightarrow> string) \<Rightarrow> annotated_file list \<Rightarrow> bool" where
  "files_wf hash fs \<longleftrightarrow> distinct (map af_path fs) \<and> list_all (entry_wf hash) fs"

definition entry_view :: "annotated_file \<Rightarrow> anchor \<rightharpoonup> string" where
  "entry_view f = map_of (ents (af_path f) (af_annotations f))"

lemma entry_view_simps [simp]:
  "entry_view (e\<lparr>af_annotations := xs\<rparr>) = map_of (ents (af_path e) xs)"
  "entry_view (e\<lparr>af_summary := s\<rparr>) = entry_view e"
  "entry_view \<lparr>af_path = p, af_summary = s, af_annotations = xs\<rparr> = map_of (ents p xs)"
  by (simp_all add: entry_view_def)

definition view :: "annotated_file list \<Rightarrow> anchor \<rightharpoonup> string" where
  "view fs = map_of (all_ents fs)"

lemma view_simps [simp]: "view [] = Map.empty" "view (f # fs) = view fs ++ entry_view f"
  by (simp_all add: view_def all_ents_def entry_view_def)

lemma ents_path: "k \<in> dom (map_of (ents p xs)) \<Longrightarrow> fst k = p"
  by (auto simp: ents_def anchor_key_def dest!: map_of_SomeD)

section \<open>Stamping refines updates of the map\<close>

lemma entry_wf_summary [simp]: "entry_wf hash (e\<lparr>af_summary := s\<rparr>) = entry_wf hash e"
  by (simp add: entry_wf_def)

lemma supersede_step:
  assumes "entry_wf hash e" "af_path e = p"
  shows "entry_wf hash (e\<lparr>af_annotations := supersede (stamp hash p a) (af_annotations e)\<rparr>)"
  using assms
  by (auto simp: entry_wf_def supersede_ents distinct_set_key list_all_iff dest!: set_supersede)

lemma map_add_snoc: "E ++ map_of (xs @ [(k, v)]) = E(k \<mapsto> v) ++ map_of xs"
  by (rule ext) (auto simp: map_add_def split: option.splits)

lemma fold_annotations_spec:
  assumes "entry_wf hash e" "af_path e = p"
  shows "entry_wf hash (fold_annotations hash p anns e)" "af_path (fold_annotations hash p anns e) = p"
    and "entry_view (fold_annotations hash p anns e) = entry_view e ++ map_of (rev (ents p anns))"
proof -
  have "entry_wf hash (fold_annotations hash p anns e) \<and> af_path (fold_annotations hash p anns e) = p
    \<and> entry_view (fold_annotations hash p anns e) = entry_view e ++ map_of (rev (ents p anns))"
    using assms
  proof (induction anns arbitrary: e)
    case Nil
    then show ?case by (simp add: fold_annotations_def ents_def)
  next
    case (Cons a anns)
    let ?e = "e\<lparr>af_annotations := supersede (stamp hash p a) (af_annotations e)\<rparr>"
    have step: "fold_annotations hash p (a # anns) e = fold_annotations hash p anns ?e"
      by (simp add: fold_annotations_def)
    have e: "entry_view ?e = (entry_view e)(anchor_key p a \<mapsto> text_of a)"
      using Cons.prems by (simp only: entry_view_simps supersede_ents map_of_set_key) (simp add: entry_view_def)
    have "entry_view e ++ map_of (rev (ents p (a # anns))) = entry_view ?e ++ map_of (rev (ents p anns))"
      unfolding e by (simp add: ents_def map_add_snoc del: map_of_append)
    then show ?case
      using Cons.IH [OF supersede_step [OF Cons.prems], of a] Cons.prems(2)
      by (simp only: step) simp
  qed
  then show "entry_wf hash (fold_annotations hash p anns e)" "af_path (fold_annotations hash p anns e) = p"
    "entry_view (fold_annotations hash p anns e) = entry_view e ++ map_of (rev (ents p anns))"
    by blast+
qed

lemma fold_file_spec:
  assumes "entry_wf hash e" "af_path e = af_path f"
  shows "entry_wf hash (fold_file hash f e)" "af_path (fold_file hash f e) = af_path f"
    and "entry_view (fold_file hash f e) = entry_view e ++ map_of (rev (ents (af_path f) (af_annotations f)))"
  using fold_annotations_spec [OF assms, of "af_annotations f"] assms(2)
  by (simp_all add: fold_file_def Let_def)

lemma path_view_commute:
  assumes "\<forall>k \<in> dom M. fst k = p" "\<forall>k \<in> dom E. fst k \<noteq> p"
  shows "(V ++ M) ++ E = (V ++ E) ++ M"
proof -
  have "dom M \<inter> dom E = {}" using assms by blast
  then show ?thesis by (metis map_add_assoc map_add_comm)
qed

lemma set_update_entry:
  "e \<in> set (update_entry p g es) \<Longrightarrow>
   e \<in> set es \<or> e = g \<lparr>af_path = p, af_summary = None, af_annotations = []\<rparr> \<or> (\<exists>e0 \<in> set es. af_path e0 = p \<and> e = g e0)"
  by (induction es) (auto split: if_splits)

lemma paths_update_entry:
  "(\<And>e. af_path e = p \<Longrightarrow> af_path (g e) = p) \<Longrightarrow>
   map af_path (update_entry p g es) = (if p \<in> af_path ` set es then map af_path es else map af_path es @ [p])"
  by (induction es) auto

lemma fresh_entry_wf: "entry_wf hash \<lparr>af_path = p, af_summary = s, af_annotations = []\<rparr>"
  by (simp add: entry_wf_def ents_def)

lemma update_entry_view:
  assumes "\<And>e. entry_wf hash e \<Longrightarrow> af_path e = p \<Longrightarrow> entry_view (g e) = entry_view e ++ M"
    and "\<forall>k \<in> dom M. fst k = p" and "list_all (entry_wf hash) es"
  shows "view (update_entry p g es) = view es ++ M"
  using assms(3)
proof (induction es)
  case Nil
  show ?case using assms(1) [OF fresh_entry_wf] by (simp add: ents_def)
next
  case (Cons e es)
  show ?case
  proof (cases "af_path e = p")
    case True
    with Cons.prems assms(1) show ?thesis by simp
  next
    case False
    then have "\<forall>k \<in> dom (entry_view e). fst k \<noteq> p" by (auto simp: entry_view_def dest!: ents_path [OF domI])
    with False Cons assms(2) path_view_commute [of M p "entry_view e" "view es"] show ?thesis by simp
  qed
qed

definition notes_of :: "annotated_file list \<Rightarrow> anchor \<rightharpoonup> string" where
  "notes_of files = map_of (rev (all_ents files))"

lemma notes_of_snoc:
  "notes_of (files @ [f]) = notes_of files ++ map_of (rev (ents (af_path f) (af_annotations f)))"
  by (simp add: notes_of_def all_ents_def)

lemma dom_rev_ents: "\<forall>k \<in> dom (map_of (rev (ents p xs))). fst k = p"
  by (auto simp: ents_def anchor_key_def dest!: map_of_SomeD)

lemma update_entry_wf:
  assumes "\<And>e. entry_wf hash e \<Longrightarrow> af_path e = p \<Longrightarrow> entry_wf hash (g e) \<and> af_path (g e) = p"
    and "files_wf hash es"
  shows "files_wf hash (update_entry p g es)"
proof -
  have fresh: "entry_wf hash (g \<lparr>af_path = p, af_summary = None, af_annotations = []\<rparr>)"
    using assms(1) [OF fresh_entry_wf] by simp
  have paths: "map af_path (update_entry p g es) =
      (if p \<in> af_path ` set es then map af_path es else map af_path es @ [p])"
    using assms(2)
  proof (induction es)
    case Nil
    then show ?case using assms(1) [OF fresh_entry_wf] by simp
  next
    case (Cons e es)
    then show ?case using assms(1) by (auto simp: files_wf_def)
  qed
  have "list_all (entry_wf hash) (update_entry p g es)"
    using assms(2) fresh assms(1) by (auto simp: files_wf_def list_all_iff dest!: set_update_entry)
  with paths assms(2) show ?thesis by (auto simp: files_wf_def)
qed

lemma stampFiles_spec:
  "files_wf hash (stampFiles hash files) \<and> view (stampFiles hash files) = notes_of files"
proof (induction files rule: rev_induct)
  case Nil
  show ?case by (simp add: stampFiles_def files_wf_def notes_of_def all_ents_def)
next
  case (snoc f files)
  let ?es = "stampFiles hash files"
  have step: "stampFiles hash (files @ [f]) = update_entry (af_path f) (fold_file hash f) ?es"
    by (simp add: stampFiles_def)
  have "view (update_entry (af_path f) (fold_file hash f) ?es)
      = view ?es ++ map_of (rev (ents (af_path f) (af_annotations f)))"
    by (rule update_entry_view [where hash = hash])
      (use snoc fold_file_spec dom_rev_ents in \<open>auto simp: files_wf_def\<close>)
  moreover have "files_wf hash (update_entry (af_path f) (fold_file hash f) ?es)"
    by (rule update_entry_wf) (use snoc fold_file_spec in auto)
  ultimately show ?case using snoc by (simp add: step notes_of_snoc)
qed

section \<open>Merging refines updates of the map\<close>

text \<open>No two different annotations of \<open>E\<close> have the same key.\<close>

definition clash_free :: "(string \<Rightarrow> string) \<Rightarrow> (anchor \<times> string) set \<Rightarrow> bool" where
  "clash_free hash E \<longleftrightarrow> inj_on (anchor_id hash) E"

lemma clash_free_subset: "clash_free hash E \<Longrightarrow> E' \<subseteq> E \<Longrightarrow> clash_free hash E'"
  unfolding clash_free_def by (rule inj_on_subset)

definition merge_inv ::
  "(string \<Rightarrow> string) \<Rightarrow> string \<Rightarrow> annotation list \<times> string list \<times> recorded_annotation list \<Rightarrow> bool" where
  "merge_inv hash p st \<longleftrightarrow> (case st of (held, present, _) \<Rightarrow>
     distinct (map fst (ents p held)) \<and> list_all (stamped hash p) held
     \<and> set present = anchor_id hash ` set (ents p held))"

lemma set_set_key_distinct:
  "distinct (map fst kvs) \<Longrightarrow>
   set (set_key k v kvs) = insert (k, v) {e \<in> set kvs. fst e \<noteq> k}"
  by (induction kvs) (auto simp: image_iff)

lemma merge_annotation_step:
  assumes inv: "merge_inv hash p st" and a: "stamped hash p a"
    and cf: "clash_free hash (insert (anchor_key p a, text_of a) (set (ents p (fst st))))"
  shows "merge_inv hash p (merge_annotation p st a)
    \<and> map_of (ents p (fst (merge_annotation p st a))) = (map_of (ents p (fst st)))(anchor_key p a \<mapsto> text_of a)
    \<and> set (ents p (fst (merge_annotation p st a))) \<subseteq> insert (anchor_key p a, text_of a) (set (ents p (fst st)))"
proof -
  obtain held present recorded where st: "st = (held, present, recorded)" by (cases st) auto
  let ?k = "anchor_key p a" and ?v = "text_of a" and ?E = "ents p held"
  define i where "i = anchor_id hash (?k, ?v)"
  have id: "an_id a = Some i" using a by (simp add: stamped_def i_def)
  have dist: "distinct (map fst ?E)" and stamped: "list_all (stamped hash p) held"
    and present: "set present = anchor_id hash ` set ?E"
    using inv by (auto simp: st merge_inv_def)
  have inj: "inj_on (anchor_id hash) (insert (?k, ?v) (set ?E))"
    using cf by (simp add: st clash_free_def)
  show ?thesis
  proof (cases "i \<in> set present")
    case True
    then have "(?k, ?v) \<in> set ?E"
      using present inj by (auto simp: i_def inj_on_def)
    then have "map_of ?E ?k = Some ?v" using dist by simp
    with True inv id show ?thesis
      by (auto simp: st merge_annotation_def Let_def)
  next
    case new: False
    define held' where
      "held' = (case find_index (\<lambda>h. sameAnchor h a) held of Some i \<Rightarrow> held[i := a] | None \<Rightarrow> held @ [a])"
    have ents': "ents p held' = set_key ?k ?v ?E" unfolding held'_def by (rule replace_or_add_ents)
    have stamped': "list_all (stamped hash p) held'"
      using stamped a
      by (auto simp: held'_def list_all_iff split: option.splits dest: set_update_subset_insert [THEN subsetD])
    obtain present' recorded' where run: "merge_annotation p st a = (held', present', recorded')"
      and p': "set present' = anchor_id hash ` set (set_key ?k ?v ?E)"
    proof (cases "find_index (\<lambda>h. sameAnchor h a) held")
      case None
      then have "?k \<notin> fst ` set ?E"
        by (auto simp: find_index_None ents_def sameAnchor_key [of _ _ p])
      then have "{e \<in> set ?E. fst e \<noteq> ?k} = set ?E" by force
      then have "set (set_key ?k ?v ?E) = insert (?k, ?v) (set ?E)"
        using set_set_key_distinct [OF dist, of ?k ?v] by simp
      then have "set (i # present) = anchor_id hash ` set (set_key ?k ?v ?E)"
        by (simp add: present i_def)
      moreover have "merge_annotation p st a = (held', i # present, recorded @ [recorded_of p a])"
        using None new id by (simp add: st merge_annotation_def Let_def held'_def)
      ultimately show ?thesis by (rule that [rotated])
    next
      case (Some n)
      let ?h = "held ! n"
      from find_index_Some [OF Some] have n: "n < length held" and same: "anchor_key p ?h = ?k"
        by (auto simp: sameAnchor_key [of _ _ p])
      let ?old = "anchor_id hash (?k, text_of ?h)"
      have old: "an_id ?h = Some ?old"
        using stamped n same by (auto simp: list_all_iff stamped_def)
      have mem: "(?k, text_of ?h) \<in> set ?E" 
        unfolding ents_def same [symmetric] using n by (auto intro!: image_eqI)
      have keep: "{e \<in> set ?E. fst e \<noteq> ?k} = set ?E - {(?k, text_of ?h)}"
        using mem dist by (auto simp: eq_key_imp_eq_value)
      have "anchor_id hash ` (set ?E - {(?k, text_of ?h)}) = set present - {?old}"
        using inj_on_image_set_diff [of "anchor_id hash" "insert (?k, ?v) (set ?E)" "set ?E" "{(?k, text_of ?h)}"]
          inj mem present by auto
      then have "anchor_id hash ` set (set_key ?k ?v ?E) = insert i (set present - {?old})"
        using set_set_key_distinct [OF dist, of ?k ?v] keep by (simp add: i_def)
      then have "set (i # removeAll ?old present) = anchor_id hash ` set (set_key ?k ?v ?E)" by simp
      moreover have "merge_annotation p st a = (held', i # removeAll ?old present, recorded @ [recorded_of p a])"
        using Some new id old by (simp add: st merge_annotation_def Let_def held'_def)
      ultimately show ?thesis by (rule that [rotated])
    qed
    have "merge_inv hash p (merge_annotation p st a)"
      using stamped' p' dist by (simp add: run merge_inv_def ents' distinct_set_key)
    moreover have "set (set_key ?k ?v ?E) \<subseteq> insert (?k, ?v) (set ?E)"
      using set_set_key [of _ ?k ?v ?E] by blast
    ultimately show ?thesis unfolding run by (simp add: st ents')
  qed
qed

lemma merge_fold:
  assumes "merge_inv hash p st" "list_all (stamped hash p) anns"
    and "clash_free hash (set (ents p (fst st)) \<union> set (ents p anns))"
  shows "merge_inv hash p (foldl (merge_annotation p) st anns)
    \<and> map_of (ents p (fst (foldl (merge_annotation p) st anns))) = map_of (ents p (fst st)) ++ map_of (rev (ents p anns))
    \<and> set (ents p (fst (foldl (merge_annotation p) st anns))) \<subseteq> set (ents p (fst st)) \<union> set (ents p anns)"
  using assms
proof (induction anns arbitrary: st)
  case Nil
  then show ?case by (simp add: ents_def)
next
  case (Cons a anns)
  let ?st = "merge_annotation p st a" and ?e = "(anchor_key p a, text_of a)"
  have ents: "ents p (a # anns) = ?e # ents p anns" by (simp add: ents_def)
  have "clash_free hash (insert ?e (set (ents p (fst st))))"
    using Cons.prems(3) by (rule clash_free_subset) (auto simp: ents)
  from merge_annotation_step [OF Cons.prems(1) _ this] Cons.prems(2)
  have step: "merge_inv hash p ?st" "map_of (ents p (fst ?st)) = (map_of (ents p (fst st)))(anchor_key p a \<mapsto> text_of a)"
    "set (ents p (fst ?st)) \<subseteq> insert ?e (set (ents p (fst st)))" by simp_all
  have "clash_free hash (set (ents p (fst ?st)) \<union> set (ents p anns))"
    using Cons.prems(3) by (rule clash_free_subset) (use step(3) in \<open>auto simp: ents\<close>)
  from Cons.IH [OF step(1) _ this] Cons.prems(2)
  have IH: "merge_inv hash p (foldl (merge_annotation p) ?st anns)"
    "map_of (ents p (fst (foldl (merge_annotation p) ?st anns))) = map_of (ents p (fst ?st)) ++ map_of (rev (ents p anns))"
    "set (ents p (fst (foldl (merge_annotation p) ?st anns))) \<subseteq> set (ents p (fst ?st)) \<union> set (ents p anns)"
    by simp_all
  have "map_of (ents p (fst st)) ++ map_of (rev (ents p (a # anns))) = map_of (ents p (fst ?st)) ++ map_of (rev (ents p anns))"
    unfolding step(2) ents by (simp add: map_add_snoc del: map_of_append)
  with IH step(3) show ?case by (auto simp: ents)
qed

lemma present_ids_stamped:
  "list_all (stamped hash (af_path e)) (af_annotations e) \<Longrightarrow>
   set (present_ids hash e) = anchor_id hash ` set (ents (af_path e) (af_annotations e))"
  by (force simp: present_ids_def ents_def list_all_iff stamped_def image_iff)

abbreviation entry_ents :: "annotated_file \<Rightarrow> (anchor \<times> string) set" where
  "entry_ents f \<equiv> set (ents (af_path f) (af_annotations f))"

lemma merge_into_spec:
  assumes "entry_wf hash e" "entry_wf hash f" "af_path e = af_path f" "clash_free hash (entry_ents e \<union> entry_ents f)"
  shows "entry_wf hash (fst (merge_into hash f e))" "af_path (fst (merge_into hash f e)) = af_path f"
    "entry_view (fst (merge_into hash f e)) = entry_view e ++ entry_view f"
    "entry_ents (fst (merge_into hash f e)) \<subseteq> entry_ents e \<union> entry_ents f"
proof -
  let ?p = "af_path f" and ?st = "(af_annotations e, present_ids hash e, [] :: recorded_annotation list)"
  have "merge_inv hash ?p ?st"
    using assms(1,3) present_ids_stamped [of hash e] by (simp add: merge_inv_def entry_wf_def)
  moreover have "list_all (stamped hash ?p) (af_annotations f)" using assms(2) by (simp add: entry_wf_def)
  ultimately have run: "merge_inv hash ?p (foldl (merge_annotation ?p) ?st (af_annotations f))"
    "map_of (ents ?p (fst (foldl (merge_annotation ?p) ?st (af_annotations f))))
       = map_of (ents ?p (af_annotations e)) ++ map_of (rev (ents ?p (af_annotations f)))"
    "set (ents ?p (fst (foldl (merge_annotation ?p) ?st (af_annotations f)))) \<subseteq> entry_ents e \<union> entry_ents f"
    using merge_fold [of hash ?p ?st "af_annotations f"] assms(3,4) by simp_all
  obtain held present recorded where
    st: "foldl (merge_annotation ?p) ?st (af_annotations f) = (held, present, recorded)" by (metis prod_cases3)
  have rev: "map_of (rev (ents ?p (af_annotations f))) = entry_view f"
    using assms(2) unfolding entry_view_def entry_wf_def
    by (subst map_of_inject_set) (simp_all add: rev_map [symmetric])
  show "entry_wf hash (fst (merge_into hash f e))" "af_path (fst (merge_into hash f e)) = af_path f"
    "entry_view (fst (merge_into hash f e)) = entry_view e ++ entry_view f"
    "entry_ents (fst (merge_into hash f e)) \<subseteq> entry_ents e \<union> entry_ents f"
    using run assms(3) rev by (simp_all add: st merge_into_def merge_inv_def entry_wf_def entry_view_def)
qed

lemma merge_file_paths:
  "map af_path (fst (merge_file hash es f)) =
   (if af_path f \<in> af_path ` set es then map af_path es else map af_path es @ [af_path f])"
  by (induction es) (auto simp: merge_into_def split: prod.splits)

lemma all_ents_Cons: "set (all_ents (e # es)) = entry_ents e \<union> set (all_ents es)"
  by (simp add: all_ents_def)

lemma merge_file_spec:
  assumes "list_all (entry_wf hash) es" "entry_wf hash f" "clash_free hash (set (all_ents es) \<union> entry_ents f)"
  shows "list_all (entry_wf hash) (fst (merge_file hash es f))
    \<and> view (fst (merge_file hash es f)) = view es ++ entry_view f
    \<and> set (all_ents (fst (merge_file hash es f))) \<subseteq> set (all_ents es) \<union> entry_ents f"
  using assms
proof (induction es)
  case Nil
  then show ?case by (simp add: all_ents_def)
next
  case (Cons e es)
  show ?case
  proof (cases "af_path e = af_path f")
    case True
    have "clash_free hash (entry_ents e \<union> entry_ents f)"
      using Cons.prems(3) by (rule clash_free_subset) (auto simp: all_ents_Cons)
    note spec = merge_into_spec [OF _ Cons.prems(2) True this]
    obtain e' r where e': "merge_into hash f e = (e', r)" by fastforce
    have "entry_wf hash e" using Cons.prems(1) by simp
    from spec [OF this] True Cons.prems(1) show ?thesis
      by (auto simp: e' all_ents_Cons)
  next
    case False
    have "clash_free hash (set (all_ents es) \<union> entry_ents f)"
      using Cons.prems(3) by (rule clash_free_subset) (auto simp: all_ents_Cons)
    with Cons have IH: "list_all (entry_wf hash) (fst (merge_file hash es f))"
      "view (fst (merge_file hash es f)) = view es ++ entry_view f"
      "set (all_ents (fst (merge_file hash es f))) \<subseteq> set (all_ents es) \<union> entry_ents f" by simp_all
    obtain es' r where es': "merge_file hash es f = (es', r)" by fastforce
    have "(view es ++ entry_view f) ++ entry_view e = (view es ++ entry_view e) ++ entry_view f"
      by (rule path_view_commute [where p = "af_path f"])
        (use False in \<open>auto simp: entry_view_def dest!: ents_path [OF domI]\<close>)
    with IH False Cons.prems(1) show ?thesis by (auto simp: es' all_ents_Cons)
  qed
qed

lemma view_path: "k \<in> dom (view fs) \<Longrightarrow> fst k \<in> af_path ` set fs"
  by (induction fs) (auto simp: entry_view_def dest!: ents_path [OF domI])

lemma merge_files_spec:
  assumes "files_wf hash es" "files_wf hash fs" "clash_free hash (set (all_ents es) \<union> set (all_ents fs))"
  shows "files_wf hash (fst (merge_files hash (es, rec0) fs))
    \<and> view (fst (merge_files hash (es, rec0) fs)) = view es ++ view fs
    \<and> set (all_ents (fst (merge_files hash (es, rec0) fs)))
        \<subseteq> set (all_ents es) \<union> set (all_ents fs)"
  using assms
proof (induction fs arbitrary: es rec0)
  case Nil
  then show ?case by (simp add: all_ents_def merge_files_def)
next
  case (Cons f fs)
  obtain es' r where es': "merge_file hash es f = (es', r)" by fastforce
  have f: "entry_wf hash f" and fs: "files_wf hash fs" and es: "list_all (entry_wf hash) es"
    using Cons.prems by (simp_all add: files_wf_def)
  have "clash_free hash (set (all_ents es) \<union> entry_ents f)"
    using Cons.prems(3) by (rule clash_free_subset) (auto simp: all_ents_Cons)
  from merge_file_spec [OF es f this]
  have one: "list_all (entry_wf hash) es'" "view es' = view es ++ entry_view f"
    "set (all_ents es') \<subseteq> set (all_ents es) \<union> entry_ents f" by (simp_all add: es')
  have wf': "files_wf hash es'"
    using merge_file_paths [of hash es f] one(1) Cons.prems(1) by (auto simp: es' files_wf_def)
  have "clash_free hash (set (all_ents es') \<union> set (all_ents fs))"
    using Cons.prems(3) by (rule clash_free_subset) (use one(3) in \<open>auto simp: all_ents_Cons\<close>)
  note IH = Cons.IH [OF wf' fs this, of "rec0 @ r"]
  have "view fs ++ entry_view f = entry_view f ++ view fs"
  proof (rule map_add_comm)
    have "af_path f \<notin> af_path ` set fs" using Cons.prems(2) by (simp add: files_wf_def)
    moreover have "fst k = af_path f" if "k \<in> dom (entry_view f)" for k
      using that ents_path by (simp add: entry_view_def)
    ultimately show "dom (view fs) \<inter> dom (entry_view f) = {}" using view_path by fastforce
  qed
  moreover have "merge_files hash (es, rec0) (f # fs) = merge_files hash (es', rec0 @ r) fs"
    by (simp add: merge_files_def es')
  ultimately show ?case using IH one by (auto simp: all_ents_Cons map_add_assoc)
qed

lemma mergeSidecar_spec:
  assumes "files_wf hash (sc_files s)" "clash_free hash (set (all_ents (sc_files s)) \<union> set (all_ents (stampFiles hash fs)))"
  shows "files_wf hash (sc_files (fst (mergeSidecar hash s (stampFiles hash fs) summary)))"
    "view (sc_files (fst (mergeSidecar hash s (stampFiles hash fs) summary))) = view (sc_files s) ++ notes_of fs"
    "set (all_ents (sc_files (fst (mergeSidecar hash s (stampFiles hash fs) summary))))
       \<subseteq> set (all_ents (sc_files s)) \<union> set (all_ents (stampFiles hash fs))"
    "sc_base (fst (mergeSidecar hash s (stampFiles hash fs) summary)) = sc_base s"
    "sc_summary (fst (mergeSidecar hash s (stampFiles hash fs) summary)) = summary"
  using merge_files_spec [OF assms(1) stampFiles_spec [THEN conjunct1] assms(2), of "[]"]
    stampFiles_spec [of hash fs]
  by (simp_all add: mergeSidecar_def case_prod_beta)

section \<open>A history of reviews\<close>

lemma fold_annotations_path [simp]: "af_path (fold_annotations hash p anns e) = af_path e"
  by (induction anns arbitrary: e) (simp_all add: fold_annotations_def)

lemma stampFiles_paths: "af_path ` set (stampFiles hash fs) = af_path ` set fs"
proof (induction fs rule: rev_induct)
  case (snoc f fs)
  have "stampFiles hash (fs @ [f]) = update_entry (af_path f) (fold_file hash f) (stampFiles hash fs)"
    by (simp add: stampFiles_def)
  moreover have "af_path ` set (update_entry (af_path f) (fold_file hash f) es) = insert (af_path f) (af_path ` set es)" for es
    using paths_update_entry [of "af_path f" "fold_file hash f" es]
    by (simp add: fold_file_def Let_def insert_absorb flip: set_map)
  ultimately show ?case using snoc by simp
qed (simp add: stampFiles_def)

lemma merge_files_paths: "af_path ` set (fst (merge_files hash (es, r) fs)) = af_path ` set es \<union> af_path ` set fs"
proof (induction fs arbitrary: es r)
  case (Cons f fs)
  have "af_path ` set (fst (merge_file hash es f)) = insert (af_path f) (af_path ` set es)"
    using merge_file_paths [of hash es f] by (simp add: insert_absorb flip: set_map)
  with Cons show ?case by (auto simp: merge_files_def case_prod_beta)
qed (simp add: merge_files_def)

lemma files_wf_distinct: "files_wf hash es \<Longrightarrow> distinct (map fst (all_ents es))"
proof (induction es)
  case (Cons e es)
  have "fst ` set (all_ents es) \<inter> fst ` entry_ents e = {}"
    using Cons.prems by (force simp: files_wf_def all_ents_def ents_def anchor_key_def)
  with Cons show ?case by (auto simp: files_wf_def entry_wf_def all_ents_def)
qed (simp add: all_ents_def)

lemma stampFiles_ents: "set (all_ents (stampFiles hash fs)) \<subseteq> set (all_ents fs)"
proof
  fix e assume e: "e \<in> set (all_ents (stampFiles hash fs))"
  have "distinct (map fst (all_ents (stampFiles hash fs)))"
    using files_wf_distinct stampFiles_spec by blast
  with e have "view (stampFiles hash fs) (fst e) = Some (snd e)"
    by (simp add: view_def map_of_is_SomeI)
  then have "map_of (rev (all_ents fs)) (fst e) = Some (snd e)"
    using stampFiles_spec by (metis notes_of_def)
  from map_of_SomeD [OF this] show "e \<in> set (all_ents fs)" by simp
qed

text \<open>What a review of the stored file shows, with the base it is anchored to.\<close>

definition shown :: "json option \<Rightarrow> (string \<times> (anchor \<rightharpoonup> string)) option" where
  "shown file = map_option (\<lambda>s. (sc_base s, view (sc_files s))) (readSidecar file)"

datatype review_op = Annotate "string result" annotate_params | Remove string | Consume

definition apply_op :: "(string \<Rightarrow> string) \<Rightarrow> review_op \<Rightarrow> json option \<Rightarrow> json option" where
  "apply_op hash op file =
     (case op of
        Annotate base params \<Rightarrow> snd (annotate_changeset hash base params file)
      | Remove key \<Rightarrow> snd (remove_annotation key file)
      | Consume \<Rightarrow> clearSidecar file)"

definition run_ops :: "(string \<Rightarrow> string) \<Rightarrow> review_op list \<Rightarrow> json option" where
  "run_ops hash ops = fold (apply_op hash) ops None"

text \<open>The contract: notes accumulate within one base, and a key withdraws the note it names.\<close>

definition drop_id :: "(string \<Rightarrow> string) \<Rightarrow> string \<Rightarrow> (anchor \<rightharpoonup> string) \<Rightarrow> anchor \<rightharpoonup> string" where
  "drop_id hash key m = (\<lambda>k. case m k of None \<Rightarrow> None
     | Some v \<Rightarrow> if anchor_id hash (k, v) = key then None else Some v)"

definition spec_op ::
  "(string \<Rightarrow> string) \<Rightarrow> review_op \<Rightarrow> (string \<times> (anchor \<rightharpoonup> string)) option \<Rightarrow> (string \<times> (anchor \<rightharpoonup> string)) option" where
  "spec_op hash op st =
     (case op of
        Annotate base params \<Rightarrow>
          (case base of Inl _ \<Rightarrow> st
           | Inr b \<Rightarrow>
               if invertedRanges params \<noteq> [] then st
               else Some (b, (case st of None \<Rightarrow> Map.empty | Some (b', m) \<Rightarrow> if b' = b then m else Map.empty)
                             ++ notes_of (toAnnotatedFiles params)))
      | Remove key \<Rightarrow>
          (case st of None \<Rightarrow> None
           | Some (b, m) \<Rightarrow>
               if drop_id hash key m = m then st
               else if drop_id hash key m = Map.empty then None else Some (b, drop_id hash key m))
      | Consume \<Rightarrow> None)"

definition op_ents :: "review_op \<Rightarrow> (anchor \<times> string) set" where
  "op_ents op = (case op of Annotate _ params \<Rightarrow> set (all_ents (toAnnotatedFiles params)) | _ \<Rightarrow> {})"

definition op_checked :: "review_op \<Rightarrow> bool" where
  "op_checked op \<longleftrightarrow> (case op of Annotate base params \<Rightarrow> params_checked params \<and> base \<noteq> Inr [] | _ \<Rightarrow> True)"

text \<open>The digest is never empty: SHA-256 in hexadecimal has 64 digits.\<close>

definition hex_digest :: "(string \<Rightarrow> string) \<Rightarrow> bool" where
  "hex_digest hash \<longleftrightarrow> (\<forall>s. length (hash s) = 64)"

definition stored_wf :: "(string \<Rightarrow> string) \<Rightarrow> (anchor \<times> string) set \<Rightarrow> json option \<Rightarrow> bool" where
  "stored_wf hash E file \<longleftrightarrow> file = None \<or> (\<exists>s. file = Some (sidecar_json s) \<and> sidecar_ok s
     \<and> files_wf hash (sc_files s) \<and> set (all_ents (sc_files s)) \<subseteq> E)"

lemma file_ok_of_ents:
  assumes "hex_digest hash" "entry_wf hash f" "af_path f \<noteq> []" "\<forall>e \<in> entry_ents f. snd (snd (fst e)) \<noteq> []"
  shows "file_ok f"
proof -
  have "anchor_id hash e \<noteq> []" for e
    using assms(1) by (auto simp: hex_digest_def anchor_id_def annotationId_def split: prod.splits)
      (metis length_0_conv rel_simps(28) zero_neq_numeral)
  then show ?thesis
    using assms(2-4)
    by (auto simp: file_ok_def annotation_ok_def list_all_iff entry_wf_def stamped_def ents_def anchor_key_def)
qed

lemma files_ok_of_ents:
  assumes "hex_digest hash" "files_wf hash fs" "\<forall>p \<in> af_path ` set fs. p \<noteq> []"
    "\<forall>e \<in> set (all_ents fs). snd (snd (fst e)) \<noteq> []"
  shows "list_all file_ok fs"
  unfolding list_all_iff
proof
  fix f assume f: "f \<in> set fs"
  then have "entry_ents f \<subseteq> set (all_ents fs)" by (auto simp: all_ents_def)
  with f assms show "file_ok f" by (intro file_ok_of_ents) (auto simp: files_wf_def list_all_iff)
qed

lemma params_files:
  "params_checked ps \<Longrightarrow> (\<forall>p \<in> af_path ` set (toAnnotatedFiles ps). p \<noteq> [])
     \<and> (\<forall>e \<in> set (all_ents (toAnnotatedFiles ps)). snd (snd (fst e)) \<noteq> [])"
  by (auto simp: params_checked_def toAnnotatedFiles_def all_ents_def ents_def anchor_key_def list_all_iff)

lemma stored_empty [simp]: "stored_wf hash E None" "shown None = None"
  by (simp_all add: stored_wf_def shown_def readSidecar_def)

lemma stored_Some [simp]:
  "sidecar_ok s \<Longrightarrow> shown (Some (sidecar_json s)) = Some (sc_base s, view (sc_files s))"
  by (simp add: shown_def)

lemma stored_wfI:
  "sidecar_ok s \<Longrightarrow> files_wf hash (sc_files s) \<Longrightarrow> set (all_ents (sc_files s)) \<subseteq> E \<Longrightarrow>
   stored_wf hash E (Some (sidecar_json s))"
  by (auto simp: stored_wf_def)

lemma annotate_step:
  assumes "stored_wf hash E doc" "params_checked ps" "b \<noteq> []" "hex_digest hash"
    and cf: "clash_free hash E" and E: "set (all_ents (toAnnotatedFiles ps)) \<subseteq> E"
  shows "stored_wf hash E (fst (writeSidecar hash doc b (np_summary ps) (toAnnotatedFiles ps)))
    \<and> shown (fst (writeSidecar hash doc b (np_summary ps) (toAnnotatedFiles ps)))
      = Some (b, (case shown doc of None \<Rightarrow> Map.empty | Some (b', m) \<Rightarrow> if b' = b then m else Map.empty)
          ++ notes_of (toAnnotatedFiles ps))"
proof -
  let ?fs = "toAnnotatedFiles ps"
  let ?in = "stampFiles hash ?fs"
  let ?fresh = "\<lparr>sc_base = b, sc_summary = np_summary ps, sc_files = ?in\<rparr>"
  have inE: "set (all_ents ?in) \<subseteq> E" using stampFiles_ents E by blast
  have in_wf: "files_wf hash ?in" and in_view: "view ?in = notes_of ?fs" using stampFiles_spec by blast+
  have in_paths: "\<forall>p \<in> af_path ` set ?in. p \<noteq> []" using params_files [OF assms(2)] by (simp add: stampFiles_paths)
  have in_ents: "\<forall>e \<in> set (all_ents ?in). snd (snd (fst e)) \<noteq> []"
    using params_files [OF assms(2)] stampFiles_ents by blast
  have summary: "np_summary ps \<noteq> []" using assms(2) by (simp add: params_checked_def)
  have fresh: "sidecar_ok ?fresh"
    using files_ok_of_ents [OF assms(4) in_wf in_paths in_ents] assms(3) summary by (simp add: sidecar_ok_def)
  show ?thesis
  proof (cases "\<exists>s. doc = Some (sidecar_json s) \<and> sidecar_ok s \<and> sc_base s = b")
    case False
    then have "fst (writeSidecar hash doc b (np_summary ps) ?fs) = Some (sidecar_json ?fresh)"
      using assms(1) by (auto simp: writeSidecar_def Let_def stored_wf_def readSidecar_def sidecar_codec.dec_enc)
    moreover have "(case shown doc of None \<Rightarrow> Map.empty | Some (b', m) \<Rightarrow> if b' = b then m else Map.empty)
        = (Map.empty :: anchor \<rightharpoonup> string)"
      using False assms(1) by (auto simp: stored_wf_def)
    ultimately show ?thesis using fresh in_wf inE in_view by (simp add: stored_wfI)
  next
    case True
    then obtain s where s: "doc = Some (sidecar_json s)" "sidecar_ok s" "sc_base s = b"
      "files_wf hash (sc_files s)" "set (all_ents (sc_files s)) \<subseteq> E"
      using assms(1) sidecar_codec.enc_inject by (auto simp: stored_wf_def)
    let ?s = "fst (mergeSidecar hash s ?in (np_summary ps))"
    have "clash_free hash (set (all_ents (sc_files s)) \<union> set (all_ents ?in))"
      using cf by (rule clash_free_subset) (use s(5) inE in blast)
    note spec = mergeSidecar_spec [OF s(4) this, of "np_summary ps"]
    have paths: "\<forall>p \<in> af_path ` set (sc_files ?s). p \<noteq> []"
      using merge_files_paths [of hash "sc_files s" "[]" ?in] s(2) in_paths
      by (auto simp: mergeSidecar_def case_prod_beta sidecar_ok_def list_all_iff file_ok_def)
    have "\<forall>e \<in> set (all_ents (sc_files s)). snd (snd (fst e)) \<noteq> []"
      using s(2) by (auto simp: sidecar_ok_def list_all_iff file_ok_def annotation_ok_def all_ents_def ents_def anchor_key_def)
    then have "\<forall>e \<in> set (all_ents (sc_files ?s)). snd (snd (fst e)) \<noteq> []" using spec(3) in_ents by blast
    from files_ok_of_ents [OF assms(4) spec(1) paths this] have ok: "sidecar_ok ?s"
      using spec(4,5) s(3) assms(3) summary by (simp add: sidecar_ok_def)
    have "fst (writeSidecar hash doc b (np_summary ps) ?fs) = Some (sidecar_json ?s)"
      using s by (simp add: writeSidecar_def Let_def case_prod_beta)
    moreover have "set (all_ents (sc_files ?s)) \<subseteq> E" using spec(3) s(5) inE by blast
    ultimately show ?thesis using ok spec s by (simp add: stored_wfI)
  qed
qed

lemma lookup_kept:
  assumes "distinct (map fst table)"
  shows "map_of (filter keep table) key =
    Option.bind (map_of table key) (\<lambda>found. if keep (key, found) then Some found else None)"
  using assms
proof (induction table)
  case (Cons entry table)
  then have "fst entry \<notin> dom (map_of table)" by (simp add: dom_map_of_conv_image_fst)
  with Cons show ?case by (cases entry) (auto simp: domIff split: option.splits bind_splits)
qed simp

lemma ents_without:
  "list_all (entry_wf hash) fs \<Longrightarrow> all_ents (without key fs) = filter (\<lambda>e. anchor_id hash e \<noteq> key) (all_ents fs)"
proof (induction fs)
  case (Cons f fs)
  let ?as = "filter (\<lambda>a. an_id a \<noteq> Some key) (af_annotations f)"
  have "ents (af_path f) ?as = filter (\<lambda>e. anchor_id hash e \<noteq> key) (ents (af_path f) (af_annotations f))"
    using Cons.prems by (simp add: entry_wf_def ents_def filter_map o_def stamped_def list_all_iff cong: filter_cong)
  moreover have "all_ents (without key (f # fs)) = ents (af_path f) ?as @ all_ents (without key fs)"
    by (simp add: without_def all_ents_def) (simp add: ents_def)
  ultimately show ?case using Cons by (simp add: all_ents_def)
qed (simp add: without_def all_ents_def)

lemma without_wf: "files_wf hash fs \<Longrightarrow> files_wf hash (without key fs)"
  unfolding files_wf_def without_def
  by (auto simp: distinct_map_filter o_def list_all_iff entry_wf_def ents_def
      intro: inj_on_subset distinct_map_filter)

lemma matching_length:
  "list_all (entry_wf hash) (sc_files s) \<Longrightarrow>
   length (matching key s) = length (filter (\<lambda>e. anchor_id hash e = key) (all_ents (sc_files s)))"
proof -
  have "length (filter (\<lambda>a. an_id a = Some key) (concat (map af_annotations fs)))
      = length (filter (\<lambda>e. anchor_id hash e = key) (all_ents fs))" if "list_all (entry_wf hash) fs" for fs
    using that
  proof (induction fs)
    case (Cons f fs)
    have "filter (\<lambda>e. anchor_id hash e = key) (ents (af_path f) (af_annotations f))
        = ents (af_path f) (filter (\<lambda>a. an_id a = Some key) (af_annotations f))"
      using Cons.prems by (simp add: entry_wf_def ents_def filter_map o_def stamped_def list_all_iff cong: filter_cong)
    with Cons show ?case by (simp add: all_ents_def ents_def)
  qed (simp add: all_ents_def)
  then show "list_all (entry_wf hash) (sc_files s) \<Longrightarrow> ?thesis" by (simp add: matching_def)
qed

lemma drop_id_without:
  assumes "files_wf hash fs"
  shows "view (without key fs) = drop_id hash key (view fs)"
  using assms files_wf_distinct [OF assms]
  by (auto simp: view_def ents_without files_wf_def lookup_kept drop_id_def fun_eq_iff split: option.splits bind_splits)

lemma matching_le_one:
  assumes "files_wf hash (sc_files s)" "clash_free hash (set (all_ents (sc_files s)))"
  shows "length (matching key s) \<le> 1"
proof -
  let ?xs = "filter (\<lambda>e. anchor_id hash e = key) (all_ents (sc_files s))"
  have "distinct ?xs" using files_wf_distinct [OF assms(1)] by (simp add: distinct_map distinct_filter)
  moreover have "x = y" if "x \<in> set ?xs" "y \<in> set ?xs" for x y
    using assms(2) that unfolding clash_free_def by (intro inj_onD [of "anchor_id hash" "set (all_ents (sc_files s))"]) simp_all
  then have "card (set ?xs) \<le> Suc 0" by (intro card_le_Suc0_iff_eq [THEN iffD2]) auto
  ultimately have "length ?xs \<le> 1" by (simp only: distinct_card One_nat_def)
  then show ?thesis using matching_length [of hash s key] assms(1) by (simp add: files_wf_def)
qed

lemma matching_Nil_iff:
  assumes "files_wf hash (sc_files s)"
  shows "matching key s = [] \<longleftrightarrow> drop_id hash key (view (sc_files s)) = view (sc_files s)"
proof -
  have d: "distinct (map fst (all_ents (sc_files s)))" by (rule files_wf_distinct [OF assms])
  have mem: "e \<in> set (all_ents (sc_files s)) \<longleftrightarrow> view (sc_files s) (fst e) = Some (snd e)" for e
    using d by (cases e) (simp add: view_def)
  have "length (matching key s) = 0 \<longleftrightarrow> filter (\<lambda>e. anchor_id hash e = key) (all_ents (sc_files s)) = []"
    using matching_length [of hash s key] assms by (simp add: files_wf_def)
  then have "matching key s = [] \<longleftrightarrow> (\<forall>e \<in> set (all_ents (sc_files s)). anchor_id hash e \<noteq> key)"
    by (simp add: filter_empty_conv)
  also have "\<dots> \<longleftrightarrow> (\<forall>k v. view (sc_files s) k = Some v \<longrightarrow> anchor_id hash (k, v) \<noteq> key)"
    using mem by (metis fst_conv snd_conv prod.collapse)
  also have "\<dots> \<longleftrightarrow> drop_id hash key (view (sc_files s)) = view (sc_files s)"
    by (auto simp: drop_id_def fun_eq_iff split: option.splits) metis
  finally show ?thesis .
qed

lemma without_Nil_iff: "files_wf hash fs \<Longrightarrow> without key fs = [] \<longleftrightarrow> view (without key fs) = Map.empty"
  by (auto simp: without_def view_def all_ents_def ents_def filter_empty_conv)

lemma without_ok: "list_all file_ok fs \<Longrightarrow> list_all file_ok (without key fs)"
  by (auto simp: without_def list_all_iff file_ok_def)

lemma remove_step:
  assumes "stored_wf hash E doc" and cf: "clash_free hash E"
  shows "stored_wf hash E (snd (remove_annotation key doc))
    \<and> shown (snd (remove_annotation key doc)) = spec_op hash (Remove key) (shown doc)"
proof (cases doc)
  case None
  then show ?thesis by (simp add: remove_annotation_def removeAnnotation_def readSidecar_def spec_op_def)
next
  case (Some j)
  then obtain s where s: "doc = Some (sidecar_json s)" "sidecar_ok s" "files_wf hash (sc_files s)"
    "set (all_ents (sc_files s)) \<subseteq> E" using assms(1) by (auto simp: stored_wf_def)
  let ?fs = "without key (sc_files s)" and ?m = "view (sc_files s)"
  have le: "length (matching key s) \<le> 1"
    using matching_le_one [OF s(3) clash_free_subset [OF cf s(4)]] .
  show ?thesis
  proof (cases "matching key s = []")
    case True
    then have "drop_id hash key ?m = ?m" using matching_Nil_iff [OF s(3)] by simp
    with True s show ?thesis
      using assms(1) by (simp add: remove_annotation_def removeAnnotation_def spec_op_def)
  next
    case False
    then have keep: "drop_id hash key ?m \<noteq> ?m" using matching_Nil_iff [OF s(3)] by simp
    have run: "snd (remove_annotation key doc)
        = (if ?fs = [] then None else Some (sidecar_json (s\<lparr>sc_files := ?fs\<rparr>)))"
      using False le s by (simp add: remove_annotation_def removeAnnotation_def Let_def)
    have view: "view ?fs = drop_id hash key ?m" by (rule drop_id_without [OF s(3)])
    show ?thesis
    proof (cases "?fs = []")
      case True
      with keep s run view show ?thesis by (simp add: spec_op_def)
    next
      case False
      have "drop_id hash key ?m \<noteq> Map.empty" using False without_Nil_iff [OF s(3)] view by simp
      moreover have "sidecar_ok (s\<lparr>sc_files := ?fs\<rparr>)" using s(2) without_ok by (simp add: sidecar_ok_def)
      moreover have "set (all_ents ?fs) \<subseteq> E" using s(3,4) by (auto simp: ents_without files_wf_def)
      ultimately show ?thesis
        using False keep s run view without_wf [OF s(3)]
        by (simp add: spec_op_def stored_wfI)
    qed
  qed
qed

lemma review_step:
  assumes "stored_wf hash E doc" "op_checked op" "hex_digest hash" "clash_free hash E" "op_ents op \<subseteq> E"
  shows "stored_wf hash E (apply_op hash op doc) \<and> shown (apply_op hash op doc) = spec_op hash op (shown doc)"
proof (cases op)
  case (Annotate base ps)
  show ?thesis
  proof (cases "invertedRanges ps = []")
    case True
    show ?thesis
    proof (cases base)
      case (Inr b)
      with True Annotate assms annotate_step [of hash E doc ps b] show ?thesis
        by (simp add: apply_op_def annotate_changeset_def spec_op_def op_checked_def op_ents_def case_prod_beta)
    qed (use True Annotate assms in \<open>simp add: apply_op_def annotate_changeset_def spec_op_def\<close>)
  qed (use Annotate assms in \<open>simp add: apply_op_def annotate_changeset_def spec_op_def split: sum.splits\<close>)
next
  case (Remove key)
  with remove_step [OF assms(1,4)] show ?thesis by (simp add: apply_op_def)
qed (simp add: apply_op_def clearSidecar_def spec_op_def)

text \<open>
  C23. The stored sidecar refines a map from anchors (path, range, headline) to rationale: after any
  sequence of annotating, withdrawing and consuming calls, started without a file, the file
  passes the schema's check and shows exactly the notes the calls give when each is read as an
  update of that map: later notes on an anchor replace earlier ones, another base starts
  afresh, a withdrawn key takes away the one note it names, and nothing else is lost. The
  digest must not give two different notes of the history one key.
\<close>

theorem sidecar_refines_map:
  assumes "hex_digest hash" "list_all op_checked ops" "clash_free hash (\<Union> (op_ents ` set ops))"
  shows "shown (run_ops hash ops) = fold (spec_op hash) ops None
    \<and> (run_ops hash ops = None \<longleftrightarrow> shown (run_ops hash ops) = None)"
proof -
  let ?E = "\<Union> (op_ents ` set ops)"
  have "stored_wf hash ?E (fold (apply_op hash) xs doc)
      \<and> shown (fold (apply_op hash) xs doc) = fold (spec_op hash) xs (shown doc)"
    if "set xs \<subseteq> set ops" "stored_wf hash ?E doc" for xs doc
    using that
  proof (induction xs arbitrary: doc)
    case (Cons op xs)
    have "op_checked op" "op_ents op \<subseteq> ?E" using Cons.prems assms(2) by (auto simp: list_all_iff)
    from review_step [OF Cons.prems(2) this(1) assms(1,3) this(2)] Cons show ?case by simp
  qed simp
  from this [of ops None] show ?thesis
    by (auto simp: run_ops_def stored_wf_def)
qed

definition sample_hash :: "string \<Rightarrow> string" where
  "sample_hash s = take 64 (s @ replicate 64 (CHR ''0''))"

definition sample_params :: "string \<Rightarrow> string option \<Rightarrow> annotate_params" where
  "sample_params headline rationale = \<lparr>np_summary = ''fix'', np_files = [\<lparr>fp_path = ''a'', fp_summary = None,
     fp_annotations = [\<lparr>ap_startLine = 1, ap_endLine = 2, ap_summary = headline, ap_rationale = rationale\<rparr>]\<rparr>]\<rparr>"

abbreviation sample_history :: "review_op list" where
  "sample_history \<equiv> [Annotate (Inr ''b0'') (sample_params ''one'' (Some ''x'')),
     Annotate (Inr ''b0'') (sample_params ''two'' None), Annotate (Inr ''b0'') (sample_params ''one'' (Some ''y''))]"

lemma show_small: "show_nat (Suc 0) = ''1''" "show_nat 2 = ''2''"
  by code_simp+

lemma sample_history_ok:
  "hex_digest sample_hash" "list_all op_checked sample_history"
  "clash_free sample_hash (\<Union> (op_ents ` set sample_history))"
proof -
  show "hex_digest sample_hash" by (simp add: hex_digest_def sample_hash_def min_def)
  show "list_all op_checked sample_history" by (simp add: op_checked_def params_checked_def sample_params_def)
  have "op_ents (Annotate b (sample_params h r)) = {((''a'', (1, 2), h), case r of None \<Rightarrow> [] | Some t \<Rightarrow> t)}" for b h r
    by (simp add: op_ents_def sample_params_def toAnnotatedFiles_def all_ents_def ents_def anchor_key_def text_of_def)
  then show "clash_free sample_hash (\<Union> (op_ents ` set sample_history))"
    by (simp add: clash_free_def inj_on_def anchor_id_def annotationId_def sample_hash_def show_int_def show_small)
qed

theorem sidecar_refines_map_witness:
  "shown (run_ops sample_hash sample_history) = fold (spec_op sample_hash) sample_history None
    \<and> (run_ops sample_hash sample_history = None \<longleftrightarrow> shown (run_ops sample_hash sample_history) = None)"
  using sidecar_refines_map [OF sample_history_ok] .

text \<open>
  The key is taken of a text in which the headline and the rationale are joined by a newline, so
  for every digest two different annotations can share it; the second is then taken for a
  duplicate, and is lost.
\<close>

lemma key_of_split_headline:
  "annotationId hash p r (h @ newline @ t) None = annotationId hash p r h (Some (t @ newline))"
  by (simp add: annotationId_def)

lemma split_headline_is_lost:
  fixes r :: "int \<times> int" and h t :: string
  assumes "hex_digest hash" "base \<noteq> []" "summary \<noteq> []" "p \<noteq> []"
  defines "one \<equiv> \<lparr>an_id = None, an_range = r, an_summary = h @ newline @ t, an_rationale = None\<rparr>"
    and "two \<equiv> \<lparr>an_id = None, an_range = r, an_summary = h, an_rationale = Some (t @ newline)\<rparr>"
  shows "wr_recorded (snd (writeSidecar hash
      (fst (writeSidecar hash None base summary [\<lparr>af_path = p, af_summary = None, af_annotations = [one]\<rparr>]))
      base summary [\<lparr>af_path = p, af_summary = None, af_annotations = [two]\<rparr>])) = []"
proof -
  let ?s = "\<lparr>sc_base = base, sc_summary = summary,
    sc_files = [\<lparr>af_path = p, af_summary = None, af_annotations = [stamp hash p one]\<rparr>]\<rparr>"
  have stamp1: "stampFiles hash [\<lparr>af_path = p, af_summary = None, af_annotations = [a]\<rparr>]
      = [\<lparr>af_path = p, af_summary = None, af_annotations = [stamp hash p a]\<rparr>]" for a
    by (simp add: stampFiles_def fold_file_def fold_annotations_def supersede_def)
  have "annotationId hash p r (h @ newline @ t) None \<noteq> []"
    using assms(1) by (auto simp: hex_digest_def annotationId_def) (metis length_0_conv zero_neq_numeral)
  then have ok: "sidecar_ok ?s"
    using assms(2-4) by (simp add: sidecar_ok_def file_ok_def annotation_ok_def stamp_def one_def)
  have "fst (writeSidecar hash None base summary [\<lparr>af_path = p, af_summary = None, af_annotations = [one]\<rparr>])
      = Some (sidecar_json ?s)"
    by (simp add: writeSidecar_def readSidecar_def stamp1 Let_def)
  with ok key_of_split_headline [of hash p r h t] show ?thesis
    by (simp add: writeSidecar_def stamp1 Let_def mergeSidecar_def merge_files_def merge_into_def
        present_ids_def merge_annotation_def stamp_def one_def two_def)
qed

end
