(* ===== verification/DiffPatch.thy ===== *)
theory DiffPatch
  imports NodePath "HOL-Library.Char_ord" "HOL-Library.List_Lexorder"
begin

text \<open>
  The diff a review freezes (\<open>omp/diff/loader.ts\<close>, \<open>untracked.ts\<close>): the validation of path filters,
  the parser of a unified patch into files with their new-side ranges and lines, git's quoted
  paths, and the loader that puts a patch together. The version-control layer is the record
  \<open>diff_repo\<close> of parameters. A line number is a natural number: the source's numbers are exact
  below \<open>2^53\<close>.
\<close>

section \<open>Patches\<close>

record diff_range =
  dr_start :: nat
  dr_end :: nat

record diff_file =
  df_path :: string
  df_newRanges :: "diff_range list"
  df_newLines :: "(nat \<times> string) list"

abbreviation line_feed :: char where "line_feed \<equiv> CHR 0x0A"

definition strip_prefix :: "string \<Rightarrow> string \<Rightarrow> string option" where
  "strip_prefix p s = (if startsWith s p then Some (drop (length p) s) else None)"

text \<open>\<open>(\d+)\<close> and \<open>(?:,(\d+))?\<close>, with what follows.\<close>

definition number :: "string \<Rightarrow> (nat \<times> string) option" where
  "number s = (if takeWhile is_digit s = [] then None
     else Some (read_nat (takeWhile is_digit s), dropWhile is_digit s))"

definition opt_count :: "string \<Rightarrow> nat option \<times> string" where
  "opt_count s =
     (case s of
        [] \<Rightarrow> (None, s)
      | c # t \<Rightarrow>
          if c = CHR '','' then (case number t of Some (n, r) \<Rightarrow> (Some n, r) | None \<Rightarrow> (None, s)) else (None, s))"

text \<open>\<open>HUNK_HEADER.exec\<close>: the start and, if given, the count of the new side.\<close>

definition HUNK_HEADER :: "string \<Rightarrow> (nat \<times> nat option) option" where
  "HUNK_HEADER line =
     (case strip_prefix ''@@ -'' line of None \<Rightarrow> None | Some s1 \<Rightarrow>
     (case number s1 of None \<Rightarrow> None | Some (_, s2) \<Rightarrow>
     (case strip_prefix '' +'' (snd (opt_count s2)) of None \<Rightarrow> None | Some s3 \<Rightarrow>
     (case number s3 of None \<Rightarrow> None | Some (start, s4) \<Rightarrow>
     (case opt_count s4 of (count, s5) \<Rightarrow>
        if startsWith s5 '' @@'' then Some (start, count) else None)))))"

definition utf8 :: "char \<Rightarrow> nat list" where
  "utf8 c = (let n = of_char c in if n < 128 then [n] else [192 + n div 64, 128 + n mod 64])"

definition utf8s :: "string \<Rightarrow> nat list" where
  "utf8s s = concat (map utf8 s)"

definition is_octal :: "char \<Rightarrow> bool" where
  "is_octal c \<longleftrightarrow> (let n = of_char c :: nat in 48 \<le> n \<and> n \<le> 55)"

definition octal_val :: "string \<Rightarrow> nat" where
  "octal_val s = foldl (\<lambda>n c. 8 * n + digit_val c) 0 s"

definition escape_byte :: "char \<Rightarrow> nat list" where
  "escape_byte c =
     (if c = CHR ''a'' then [7] else if c = CHR ''b'' then [8] else if c = CHR ''f'' then [12]
      else if c = CHR ''n'' then [10] else if c = CHR ''r'' then [13] else if c = CHR ''t'' then [9]
      else if c = CHR ''v'' then [11] else utf8 c)"

text \<open>
  The loop over a quoted path: \<open>s\<close> is what lies between its first and last character, \<open>q\<close> the last
  character, which an escape at the end of \<open>s\<close> still sees.
\<close>

fun unquote_body :: "char \<Rightarrow> string \<Rightarrow> nat list" where
  "unquote_body q [] = []"
| "unquote_body q [c] = (if c = CHR 0x5C then escape_byte q else utf8 c)"
| "unquote_body q (c # d # s) =
     (if c \<noteq> CHR 0x5C then utf8 c @ unquote_body q (d # s)
      else if is_octal d \<and> (case s @ [q] of x # y # _ \<Rightarrow> is_octal x \<and> is_octal y | _ \<Rightarrow> False)
        then octal_val (d # take 2 (s @ [q])) # unquote_body q (drop 2 s)
        else escape_byte d @ unquote_body q s)"

definition unquote_bytes :: "string \<Rightarrow> nat list" where
  "unquote_bytes quoted =
     (if length quoted < 2 then [] else unquote_body (last quoted) (butlast (tl quoted)))"

text \<open>\<open>from_utf8\<close> is the decoder of the language's library.\<close>

definition unquoteGitPath :: "(nat list \<Rightarrow> string) \<Rightarrow> string \<Rightarrow> string" where
  "unquoteGitPath from_utf8 quoted = from_utf8 (unquote_bytes quoted)"

definition parseMarkerPath :: "(nat list \<Rightarrow> string) \<Rightarrow> string \<Rightarrow> string \<Rightarrow> string option" where
  "parseMarkerPath from_utf8 raw pre =
     (if raw = ''/dev/null'' then None
      else (let p = (if startsWith raw [CHR 0x22] then unquoteGitPath from_utf8 raw else raw)
            in Some (if startsWith p pre then slice_from p (length pre) else p)))"

text \<open>
  The parser's variables. \<open>current\<close> is an alias of the file pushed last: \<open>ps_open\<close> tells whether it
  is set, and an update of it is one of the last element of \<open>files\<close>.
\<close>

record parse_state =
  ps_files :: "diff_file list"
  ps_open :: bool
  ps_oldPath :: "string option"
  ps_newLine :: "nat option"
  ps_scanning :: bool

definition upd_last :: "('a \<Rightarrow> 'a) \<Rightarrow> 'a list \<Rightarrow> 'a list" where
  "upd_last f xs = (if xs = [] then [] else butlast xs @ [f (last xs)])"

definition strip_cr :: "string \<Rightarrow> string" where
  "strip_cr s = (if endsWith s [CHR 0x0D] then butlast s else s)"

definition add_line :: "nat \<Rightarrow> string \<Rightarrow> diff_file \<Rightarrow> diff_file" where
  "add_line n content f = f\<lparr>df_newLines := set_key n (strip_cr content) (df_newLines f)\<rparr>"

definition parse_hunk :: "nat \<Rightarrow> nat option \<Rightarrow> parse_state \<Rightarrow> parse_state" where
  "parse_hunk start count st =
     (let st = st\<lparr>ps_scanning := False, ps_newLine := Some start\<rparr> in
      if \<not> ps_open st then st
      else (let n = (case count of None \<Rightarrow> 1 | Some n \<Rightarrow> n) in
            if n > 0 then st\<lparr>ps_files := upd_last (\<lambda>f. f\<lparr>df_newRanges := df_newRanges f
                @ [\<lparr>dr_start = start, dr_end = start + n - 1\<rparr>]\<rparr>) (ps_files st)\<rparr>
            else st))"

definition parse_body :: "string \<Rightarrow> parse_state \<Rightarrow> parse_state" where
  "parse_body line st =
     (case ps_newLine st of
        None \<Rightarrow> st
      | Some n \<Rightarrow>
          if \<not> ps_open st then st
          else (case line of
              [] \<Rightarrow> st\<lparr>ps_newLine := None\<rparr>
            | marker # content \<Rightarrow>
                if marker = CHR ''+'' \<or> marker = CHR '' ''
                then st\<lparr>ps_files := upd_last (add_line n content) (ps_files st), ps_newLine := Some (n + 1)\<rparr>
                else if marker \<noteq> CHR ''-'' \<and> marker \<noteq> CHR 0x5C then st\<lparr>ps_newLine := None\<rparr>
                else st))"

definition parse_line :: "(nat list \<Rightarrow> string) \<Rightarrow> parse_state \<Rightarrow> string \<Rightarrow> parse_state" where
  "parse_line from_utf8 st line =
     (if startsWith line ''diff --git ''
      then st\<lparr>ps_open := False, ps_oldPath := None, ps_newLine := None, ps_scanning := True\<rparr>
      else if ps_scanning st \<and> startsWith line ''--- ''
      then st\<lparr>ps_oldPath := parseMarkerPath from_utf8 (slice_from line 4) ''a/''\<rparr>
      else if ps_scanning st \<and> startsWith line ''+++ ''
      then (case nullish_or (parseMarkerPath from_utf8 (slice_from line 4) ''b/'') (ps_oldPath st) of
          None \<Rightarrow> st\<lparr>ps_open := False\<rparr>
        | Some p \<Rightarrow> st\<lparr>ps_open := True,
            ps_files := ps_files st @ [\<lparr>df_path = p, df_newRanges = [], df_newLines = []\<rparr>]\<rparr>)
      else (case HUNK_HEADER line of
          Some (start, count) \<Rightarrow> parse_hunk start count st
        | None \<Rightarrow> parse_body line st))"

definition parse_start :: parse_state where
  "parse_start = \<lparr>ps_files = [], ps_open = False, ps_oldPath = None, ps_newLine = None, ps_scanning = False\<rparr>"

definition parseDiffFiles :: "(nat list \<Rightarrow> string) \<Rightarrow> string \<Rightarrow> diff_file list" where
  "parseDiffFiles from_utf8 patch =
     ps_files (foldl (parse_line from_utf8) parse_start (split_on line_feed patch))"

section \<open>Untracked files\<close>

definition plain_byte :: "nat \<Rightarrow> bool" where
  "plain_byte b \<longleftrightarrow> b > 32 \<and> b < 127 \<and> b \<noteq> 34 \<and> b \<noteq> 92"

text \<open>\<open>byte.toString(8).padStart(3, "0")\<close>.\<close>

definition octal3 :: "nat \<Rightarrow> string" where
  "octal3 b = [digit_char (b div 64), digit_char (b div 8 mod 8), digit_char (b mod 8)]"

definition quote_byte :: "nat \<Rightarrow> string" where
  "quote_byte b = (if plain_byte b then [char_of b] else CHR 0x5C # octal3 b)"

definition quotePatchPath :: "char \<Rightarrow> string \<Rightarrow> string" where
  "quotePatchPath side p =
     (let bytes = utf8s ([side] @ ''/'' @ p) in
      if list_all plain_byte bytes then map char_of bytes
      else [CHR 0x22] @ concat (map quote_byte bytes) @ [CHR 0x22])"

definition relabel_line :: "string \<Rightarrow> bool \<times> string list \<Rightarrow> string \<Rightarrow> bool \<times> string list" where
  "relabel_line p st line =
     (case st of (inHunk, out) \<Rightarrow>
       (let inHunk = (inHunk \<or> startsWith line ''@@ '') in
        (inHunk, out @ [if inHunk then line
           else if startsWith line ''diff --git ''
             then ''diff --git '' @ quotePatchPath (CHR ''a'') p @ '' '' @ quotePatchPath (CHR ''b'') p
           else if startsWith line ''+++ '' then ''+++ '' @ quotePatchPath (CHR ''b'') p
           else line])))"

definition relabelNoIndexPatch :: "string \<Rightarrow> string \<Rightarrow> string" where
  "relabelNoIndexPatch patch p =
     (if patch = [] then patch
      else join [line_feed] (snd (foldl (relabel_line p) (False, []) (split_on line_feed patch))))"

text \<open>A renamed or copied entry is followed by its source path, which is skipped.\<close>

fun untracked_fields :: "string list \<Rightarrow> string list" where
  "untracked_fields [] = []"
| "untracked_fields (r # rs) =
     (if length r < 3 \<or> r ! 2 \<noteq> CHR '' '' then untracked_fields rs
      else (let code = take 2 r;
                rest = (if CHR ''R'' \<in> set code \<or> CHR ''C'' \<in> set code then untracked_fields (drop 1 rs)
                        else untracked_fields rs)
            in if code = ''??'' then slice_from r 3 # rest else rest))"

definition parseUntrackedPorcelain :: "string \<Rightarrow> string list" where
  "parseUntrackedPorcelain status = untracked_fields (split_on (CHR 0x00) status)"

section \<open>The parser inverts the printer\<close>

text \<open>
  The unified patch a review is made of. A section printed by git has an old and a new name, which differ for a
  rename, and git's quoting: a name is quoted when it has a control character, a quote, a backslash or a byte
  above 126, spaces are not quoted, and a marker line ends in a tab when the name has a space. A section of an
  untracked file is relabelled by the loader (\<open>relabelNoIndexPatch\<close>). A section without markers is that of a mode
  change, a rename without changes, or a binary file.
\<close>

datatype body_line = Context string | Added string | Removed string | NoNewline

record file_hunk =
  fh_old :: nat
  fh_new :: nat
  fh_section :: string
  fh_lines :: "body_line list"

datatype patch_kind = Modified | Created | Deleted | HeaderOnly

record file_patch =
  fp_old :: string
  fp_name :: string
  fp_kind :: patch_kind
  fp_relabelled :: bool
  fp_extended :: "string list"
  fp_hunks :: "file_hunk list"

definition git_plain :: "nat \<Rightarrow> bool" where
  "git_plain b \<longleftrightarrow> b \<ge> 32 \<and> b < 127 \<and> b \<noteq> 34 \<and> b \<noteq> 92"

text \<open>The bytes git escapes with a letter or themselves.\<close>

definition git_letters :: "(nat \<times> char) list" where
  "git_letters = [(7, CHR ''a''), (8, CHR ''b''), (9, CHR ''t''), (10, CHR ''n''), (11, CHR ''v''), (12, CHR ''f''),
     (13, CHR ''r''), (34, CHR 0x22), (92, CHR 0x5C)]"

definition git_quote_byte :: "nat \<Rightarrow> string" where
  "git_quote_byte b = (if git_plain b then [char_of b]
     else (case map_of git_letters b of Some c \<Rightarrow> [CHR 0x5C, c] | None \<Rightarrow> CHR 0x5C # octal3 b))"

definition gitQuotePath :: "char \<Rightarrow> string \<Rightarrow> string" where
  "gitQuotePath side p =
     (let bytes = utf8s ([side] @ ''/'' @ p) in
      if list_all git_plain bytes then map char_of bytes
      else [CHR 0x22] @ concat (map git_quote_byte bytes) @ [CHR 0x22])"

definition path_text :: "file_patch \<Rightarrow> char \<Rightarrow> string \<Rightarrow> string" where
  "path_text f side p = (if fp_relabelled f then quotePatchPath side p else gitQuotePath side p)"

definition marker_text :: "file_patch \<Rightarrow> char \<Rightarrow> string \<Rightarrow> string" where
  "marker_text f side p = path_text f side p @ (if \<not> fp_relabelled f \<and> CHR '' '' \<in> set p then [CHR 0x09] else [])"

fun on_new :: "body_line \<Rightarrow> bool" where
  "on_new (Context _) = True" | "on_new (Added _) = True" | "on_new _ = False"

fun on_old :: "body_line \<Rightarrow> bool" where
  "on_old (Context _) = True" | "on_old (Removed _) = True" | "on_old _ = False"

fun print_line :: "body_line \<Rightarrow> string" where
  "print_line (Context s) = '' '' @ s"
| "print_line (Added s) = ''+'' @ s"
| "print_line (Removed s) = ''-'' @ s"
| "print_line NoNewline = CHR 0x5C # '' No newline at end of file''"

definition print_count :: "nat \<Rightarrow> string" where
  "print_count n = (if n = 1 then [] else '','' @ show_nat n)"

definition print_hunk :: "file_hunk \<Rightarrow> string list" where
  "print_hunk h =
     (''@@ -'' @ show_nat (fh_old h) @ print_count (length (filter on_old (fh_lines h)))
       @ '' +'' @ show_nat (fh_new h) @ print_count (length (filter on_new (fh_lines h)))
       @ '' @@'' @ fh_section h) # map print_line (fh_lines h)"

definition print_file :: "file_patch \<Rightarrow> string list" where
  "print_file f =
     (''diff --git '' @ path_text f (CHR ''a'') (fp_old f) @ '' '' @ path_text f (CHR ''b'') (fp_name f))
     # fp_extended f
     @ (if fp_kind f = HeaderOnly then []
        else [''--- '' @ (if fp_kind f = Created then ''/dev/null'' else marker_text f (CHR ''a'') (fp_old f)),
              ''+++ '' @ (if fp_kind f = Deleted then ''/dev/null'' else marker_text f (CHR ''b'') (fp_name f))]
             @ concat (map print_hunk (fp_hunks f)))"

definition print_patch :: "file_patch list \<Rightarrow> string" where
  "print_patch fs = join [line_feed] (concat (map print_file fs) @ [[]])"

text \<open>What the parser must find.\<close>

fun new_side :: "nat \<Rightarrow> body_line list \<Rightarrow> (nat \<times> string) list" where
  "new_side n [] = []"
| "new_side n (Context s # ls) = (n, s) # new_side (n + 1) ls"
| "new_side n (Added s # ls) = (n, s) # new_side (n + 1) ls"
| "new_side n (_ # ls) = new_side n ls"

definition hunk_range :: "file_hunk \<Rightarrow> diff_range list" where
  "hunk_range h = (let n = length (filter on_new (fh_lines h)) in
     if n = 0 then [] else [\<lparr>dr_start = fh_new h, dr_end = fh_new h + n - 1\<rparr>])"

definition hunk_lines :: "file_hunk \<Rightarrow> (nat \<times> string) list" where
  "hunk_lines h = new_side (fh_new h) (fh_lines h)"

text \<open>A deleted file is found under its old name, every other one under its new name.\<close>

definition files_of :: "file_patch \<Rightarrow> diff_file list" where
  "files_of f = (if fp_kind f = HeaderOnly then []
     else [\<lparr>df_path = (if fp_kind f = Deleted then fp_old f else fp_name f),
       df_newRanges = concat (map hunk_range (fp_hunks f)), df_newLines = concat (map hunk_lines (fp_hunks f))\<rparr>])"

fun text_of_line :: "body_line \<Rightarrow> string" where
  "text_of_line (Context s) = s" | "text_of_line (Added s) = s" | "text_of_line (Removed s) = s"
| "text_of_line NoNewline = []"

definition line_ok :: "string \<Rightarrow> bool" where
  "line_ok s \<longleftrightarrow> line_feed \<notin> set s \<and> strip_cr s = s"

definition body_ok :: "file_hunk \<Rightarrow> bool" where
  "body_ok h \<longleftrightarrow> list_all (\<lambda>l. line_ok (text_of_line l)) (fh_lines h)"

definition extended_ok :: "string \<Rightarrow> bool" where
  "extended_ok s \<longleftrightarrow> line_feed \<notin> set s \<and> \<not> startsWith s ''diff --git '' \<and> \<not> startsWith s ''--- ''
     \<and> \<not> startsWith s ''+++ '' \<and> \<not> startsWith s ''@@ ''"

text \<open>
  No line breaks within lines, no carriage return at their end, hunks that do not overlap on the new side, and no
  space in the names of a section printed by git.
\<close>

definition patch_ok :: "file_patch \<Rightarrow> bool" where
  "patch_ok f \<longleftrightarrow> list_all extended_ok (fp_extended f)
     \<and> list_all (\<lambda>h. line_feed \<notin> set (fh_section h) \<and> body_ok h) (fp_hunks f)
     \<and> distinct (map fst (concat (map hunk_lines (fp_hunks f))))
     \<and> (fp_relabelled f \<or> CHR '' '' \<notin> set (fp_old f) \<union> set (fp_name f))"

lemma dropWhile_digits: "dropWhile is_digit (show_nat n @ s) = dropWhile is_digit s"
  "takeWhile is_digit (show_nat n @ s) = show_nat n @ takeWhile is_digit s"
  using show_nat_digits [of n] by (simp_all add: dropWhile_append2 takeWhile_append2)

lemma takeWhile_show_nat: "takeWhile is_digit (show_nat n) = show_nat n"
  by (simp add: takeWhile_eq_all_conv show_nat_digits)

lemma number_show_nat:
  "s = [] \<or> \<not> is_digit (hd s) \<Longrightarrow> number (show_nat n @ s) = Some (n, s)"
  using dropWhile_digits [of n "[]"]
  by (cases s) (auto simp: number_def dropWhile_digits takeWhile_show_nat)

lemma opt_count_print:
  "s \<noteq> [] \<Longrightarrow> hd s = CHR '' '' \<Longrightarrow> opt_count (print_count n @ s) = (if n = 1 then None else Some n, s)"
  by (cases s) (auto simp: opt_count_def print_count_def number_show_nat is_digit_def)

lemma strip_prefix_append [simp]: "strip_prefix p (p @ s) = Some s"
  by (simp add: strip_prefix_def)

lemma HUNK_HEADER_print:
  "HUNK_HEADER (''@@ -'' @ show_nat a @ print_count m @ '' +'' @ show_nat b @ print_count n @ '' @@'' @ s)
     = Some (b, if n = 1 then None else Some n)"
proof -
  let ?s5 = "'' @@'' @ s"
  let ?s4 = "print_count n @ ?s5"
  let ?s2 = "print_count m @ '' +'' @ show_nat b @ ?s4"
  have hd: "x = [] \<or> \<not> is_digit (hd (print_count k @ CHR '' '' # x))" for k x
    by (simp add: print_count_def is_digit_def)
  have "number (show_nat a @ ?s2) = Some (a, ?s2)"
    by (rule number_show_nat) (simp add: print_count_def is_digit_def)
  moreover have "opt_count ?s2 = (if m = 1 then None else Some m, '' +'' @ show_nat b @ ?s4)"
    by (rule opt_count_print) simp_all
  moreover have "number (show_nat b @ ?s4) = Some (b, ?s4)"
    by (rule number_show_nat) (simp add: print_count_def is_digit_def)
  moreover have "opt_count ?s4 = (if n = 1 then None else Some n, ?s5)"
    by (rule opt_count_print) simp_all
  moreover have "strip_prefix ''@@ -'' (''@@ -'' @ show_nat a @ ?s2) = Some (show_nat a @ ?s2)"
    by (rule strip_prefix_append)
  moreover have "strip_prefix '' +'' ('' +'' @ show_nat b @ ?s4) = Some (show_nat b @ ?s4)"
    by (rule strip_prefix_append)
  ultimately show ?thesis
    unfolding HUNK_HEADER_def by (simp only: option.case prod.case snd_conv startsWith_append if_True)
qed

lemma HUNK_HEADER_other: "\<not> startsWith line ''@@ '' \<Longrightarrow> HUNK_HEADER line = None"
proof -
  assume "\<not> startsWith line ''@@ ''"
  then have "\<not> startsWith line ''@@ -''" by (auto simp: startsWith_iff)
  then show ?thesis by (simp add: HUNK_HEADER_def strip_prefix_def)
qed

lemma set_key_new: "k \<notin> fst ` set kvs \<Longrightarrow> set_key k v kvs = kvs @ [(k, v)]"
  by (induction kvs) auto

lemma print_line_start:
  "\<not> startsWith (print_line l) ''diff --git ''" "\<not> startsWith (print_line l) ''@@ ''"
  by (cases l; simp)+

lemma parse_printed_line:
  assumes "\<not> ps_scanning st" "ps_open st" "ps_newLine st = Some n" "ps_files st = fs @ [f]"
    and "line_ok (text_of_line l)"
  shows "parse_line u st (print_line l) =
    (if on_new l then st\<lparr>ps_files := fs @ [f\<lparr>df_newLines := set_key n (text_of_line l) (df_newLines f)\<rparr>],
        ps_newLine := Some (n + 1)\<rparr> else st)"
proof -
  have "parse_line u st (print_line l) = parse_body (print_line l) st"
    using assms(1) print_line_start [of l] by (simp add: parse_line_def HUNK_HEADER_other)
  with assms show ?thesis
    by (cases l) (simp_all add: parse_body_def upd_last_def add_line_def line_ok_def)
qed

lemma parse_printed_body:
  assumes "\<not> ps_scanning st" "ps_open st" "ps_newLine st = Some n" "ps_files st = fs @ [f]"
    and "list_all (\<lambda>l. line_ok (text_of_line l)) ls"
    and "distinct (map fst (df_newLines f @ new_side n ls))"
  shows "foldl (parse_line u) st (map print_line ls) =
    st\<lparr>ps_files := fs @ [f\<lparr>df_newLines := df_newLines f @ new_side n ls\<rparr>],
       ps_newLine := Some (n + length (filter on_new ls))\<rparr>"
  using assms
proof (induction ls arbitrary: st n f)
  case Nil
  then show ?case by simp
next
  case (Cons l ls)
  have l: "line_ok (text_of_line l)" using Cons.prems(5) by simp
  note step = parse_printed_line [OF Cons.prems(1-4) l, of u]
  show ?case
  proof (cases "on_new l")
    case False
    then have "new_side n (l # ls) = new_side n ls" by (cases l) simp_all
    with False step Cons.IH [OF Cons.prems(1-4)] Cons.prems(5,6) show ?thesis by simp
  next
    case True
    then have side: "new_side n (l # ls) = (n, text_of_line l) # new_side (n + 1) ls" by (cases l) simp_all
    then have "n \<notin> fst ` set (df_newLines f)" using Cons.prems(6) by auto
    then have key: "set_key n (text_of_line l) (df_newLines f) = df_newLines f @ [(n, text_of_line l)]"
      by (rule set_key_new)
    let ?f = "f\<lparr>df_newLines := df_newLines f @ [(n, text_of_line l)]\<rparr>"
    let ?st = "st\<lparr>ps_files := fs @ [?f], ps_newLine := Some (n + 1)\<rparr>"
    have "foldl (parse_line u) ?st (map print_line ls) =
      ?st\<lparr>ps_files := fs @ [?f\<lparr>df_newLines := df_newLines ?f @ new_side (n + 1) ls\<rparr>],
         ps_newLine := Some (n + 1 + length (filter on_new ls))\<rparr>"
      by (rule Cons.IH) (use Cons.prems side in auto)
    with True step side key show ?thesis by simp
  qed
qed

lemma parse_printed_hunk:
  assumes "ps_open st" "ps_files st = fs @ [f]" "body_ok h"
    and "distinct (map fst (df_newLines f @ hunk_lines h))"
  shows "foldl (parse_line u) st (print_hunk h) =
    st\<lparr>ps_scanning := False, ps_files := fs @ [f\<lparr>df_newRanges := df_newRanges f @ hunk_range h,
         df_newLines := df_newLines f @ hunk_lines h\<rparr>],
       ps_newLine := Some (fh_new h + length (filter on_new (fh_lines h)))\<rparr>"
proof -
  let ?n = "length (filter on_new (fh_lines h))"
  let ?header = "''@@ -'' @ show_nat (fh_old h) @ print_count (length (filter on_old (fh_lines h)))
       @ '' +'' @ show_nat (fh_new h) @ print_count ?n @ '' @@'' @ fh_section h"
  let ?f = "f\<lparr>df_newRanges := df_newRanges f @ hunk_range h\<rparr>"
  let ?st = "st\<lparr>ps_scanning := False, ps_newLine := Some (fh_new h), ps_files := fs @ [?f]\<rparr>"
  have header: "HUNK_HEADER ?header = Some (fh_new h, if ?n = 1 then None else Some ?n)"
    by (rule HUNK_HEADER_print)
  have "\<not> startsWith ?header ''diff --git ''" "\<not> startsWith ?header ''--- ''" "\<not> startsWith ?header ''+++ ''"
    by simp_all
  then have "parse_line u st ?header = parse_hunk (fh_new h) (if ?n = 1 then None else Some ?n) st"
    unfolding parse_line_def header by simp
  also have "\<dots> = ?st"
    using assms(1,2) by (simp add: parse_hunk_def upd_last_def hunk_range_def Let_def)
  finally have first: "parse_line u st ?header = ?st" .
  have "foldl (parse_line u) ?st (map print_line (fh_lines h)) =
    ?st\<lparr>ps_files := fs @ [?f\<lparr>df_newLines := df_newLines ?f @ new_side (fh_new h) (fh_lines h)\<rparr>],
       ps_newLine := Some (fh_new h + ?n)\<rparr>"
    by (rule parse_printed_body) (use assms in \<open>auto simp: hunk_lines_def body_ok_def\<close>)
  then show ?thesis unfolding print_hunk_def foldl.simps first by (simp add: hunk_lines_def)
qed

lemma parse_printed_hunks:
  assumes "ps_open st" "ps_files st = fs @ [f]"
    and "list_all body_ok hs"
    and "distinct (map fst (df_newLines f @ concat (map hunk_lines hs)))"
  shows "ps_files (foldl (parse_line u) st (concat (map print_hunk hs))) =
    fs @ [f\<lparr>df_newRanges := df_newRanges f @ concat (map hunk_range hs),
            df_newLines := df_newLines f @ concat (map hunk_lines hs)\<rparr>]"
  using assms
proof (induction hs arbitrary: st f)
  case (Cons h hs)
  let ?f = "f\<lparr>df_newRanges := df_newRanges f @ hunk_range h, df_newLines := df_newLines f @ hunk_lines h\<rparr>"
  let ?st = "foldl (parse_line u) st (print_hunk h)"
  have "body_ok h" "distinct (map fst (df_newLines f @ hunk_lines h))" using Cons.prems(3,4) by auto
  from parse_printed_hunk [OF Cons.prems(1,2) this, of u] Cons.prems(1)
  have st: "ps_open ?st" "ps_files ?st = fs @ [?f]" by simp_all
  have "ps_files (foldl (parse_line u) ?st (concat (map print_hunk hs))) =
    fs @ [?f\<lparr>df_newRanges := df_newRanges ?f @ concat (map hunk_range hs),
            df_newLines := df_newLines ?f @ concat (map hunk_lines hs)\<rparr>]"
    by (rule Cons.IH [OF st]) (use Cons.prems(3,4) in auto)
  then show ?case by simp
qed simp

text \<open>Quoted paths.\<close>

lemma utf8_bytes: "b \<in> set (utf8 c) \<Longrightarrow> b < 256"
proof -
  have "of_char c < (256 :: nat)" by (metis of_char_mod_256 mod_less_divisor zero_less_numeral)
  then have "of_char c < (64 * 64 :: nat)" by linarith
  from less_mult_imp_div_less [OF this] have "of_char c div 64 < (64 :: nat)" .
  then show "b \<in> set (utf8 c) \<Longrightarrow> b < 256" by (auto simp: utf8_def Let_def split: if_splits)
qed

lemma octal3_digits:
  assumes "b < 256"
  shows "octal_val (octal3 b) = b" "list_all is_octal (octal3 b)"
proof -
  have d: "b div 64 = b div 8 div 8" by (simp add: div_mult2_eq)
  have small: "b div 64 < 8" "b div 8 mod 8 < 8" "b mod 8 < 8" using assms by auto
  then have "octal_val (octal3 b) = 8 * (8 * (b div 64) + b div 8 mod 8) + b mod 8"
    by (simp add: octal3_def octal_val_def)
  then show "octal_val (octal3 b) = b" unfolding d by simp
  have "b div 64 \<le> 7" "b div 8 mod 8 \<le> 7" "b mod 8 \<le> 7" using small by linarith+
  then show "list_all is_octal (octal3 b)" by (simp add: octal3_def is_octal_def Let_def)
qed

lemma unquote_octal:
  assumes "b < 256"
  shows "unquote_body q (CHR 0x5C # octal3 b @ s) = b # unquote_body q s"
  using octal3_digits [OF assms] by (simp add: octal3_def)

lemma plain_byte_char:
  "plain_byte b \<Longrightarrow> char_of b \<noteq> (CHR 0x5C :: char) \<and> utf8 (char_of b) = [b]"
proof -
  assume b: "plain_byte b"
  then have c: "of_char (char_of b :: char) = b" by (simp add: of_char_of plain_byte_def)
  moreover have "of_char (CHR 0x5C) = (92 :: nat)" by simp
  ultimately have "char_of b \<noteq> (CHR 0x5C :: char)" using b by (metis plain_byte_def)
  with b c show ?thesis by (simp add: utf8_def Let_def plain_byte_def)
qed

lemma unquote_quoted:
  "list_all (\<lambda>b. b < 256) bs \<Longrightarrow> unquote_body q (concat (map quote_byte bs)) = bs"
proof (induction bs)
  case (Cons b bs)
  show ?case
  proof (cases "plain_byte b")
    case True
    note c = plain_byte_char [OF True]
    have "unquote_body q (char_of b # s) = b # unquote_body q s" for s
      using c by (cases s) simp_all
    with True Cons show ?thesis by (simp add: quote_byte_def)
  next
    case False
    with Cons unquote_octal [of b q] show ?thesis by (simp add: quote_byte_def)
  qed
qed simp

definition decodes :: "(nat list \<Rightarrow> string) \<Rightarrow> bool" where
  "decodes from_utf8 \<longleftrightarrow> (\<forall>s. from_utf8 (utf8s s) = s)"

lemma plain_byte_not_quote: "plain_byte b \<Longrightarrow> b \<noteq> 34 \<and> b \<noteq> 10"
  by (simp add: plain_byte_def)

lemma utf8s_ascii: "list_all (\<lambda>b. b < 127) (utf8s s) \<Longrightarrow> map char_of (utf8s s) = s"
proof (induction s)
  case (Cons c s)
  then have "list_all (\<lambda>b. b < 127) (utf8 c)" "map char_of (utf8s s) = s" by (simp_all add: utf8s_def)
  then show ?case by (auto simp: utf8s_def utf8_def Let_def split: if_splits)
qed (simp add: utf8s_def)

lemma unquote_ascii:
  assumes "b < 127" "b \<noteq> 92"
  shows "unquote_body q (char_of b # s) = b # unquote_body q s"
proof -
  have c: "of_char (char_of b :: char) = b" using assms by (simp add: of_char_of)
  moreover have "of_char (CHR 0x5C) = (92 :: nat)" by simp
  ultimately have "char_of b \<noteq> (CHR 0x5C :: char)" using assms by metis
  moreover have "utf8 (char_of b) = [b]" using assms c by (simp add: utf8_def Let_def)
  ultimately show ?thesis by (cases s) simp_all
qed

lemma letters_not_octal:
  "\<not> is_octal (CHR ''a'')" "\<not> is_octal (CHR ''b'')" "\<not> is_octal (CHR ''t'')" "\<not> is_octal (CHR ''n'')"
  "\<not> is_octal (CHR ''v'')" "\<not> is_octal (CHR ''f'')" "\<not> is_octal (CHR ''r'')" "\<not> is_octal (CHR 0x22)" "\<not> is_octal (CHR 0x5C)"
  by (simp_all add: is_octal_def)

lemma letters_escape:
  "escape_byte (CHR ''a'') = [7]" "escape_byte (CHR ''b'') = [8]" "escape_byte (CHR ''t'') = [9]" "escape_byte (CHR ''n'') = [10]"
  "escape_byte (CHR ''v'') = [11]" "escape_byte (CHR ''f'') = [12]" "escape_byte (CHR ''r'') = [13]"
  "escape_byte (CHR 0x22) = [34]" "escape_byte (CHR 0x5C) = [92]"
  by (simp_all add: escape_byte_def utf8_def)

lemma unquote_letter:
  assumes "map_of git_letters b = Some c"
  shows "unquote_body q (CHR 0x5C # c # s) = b # unquote_body q s"
proof -
  have "\<not> is_octal c \<and> escape_byte c = [b]"
    using assms letters_not_octal letters_escape by (simp add: git_letters_def split: if_split_asm)
  then show ?thesis by simp
qed

lemma unquote_git_byte:
  assumes "b < 256"
  shows "unquote_body q (git_quote_byte b @ s) = b # unquote_body q s"
  using unquote_ascii [of b q s] unquote_octal [OF assms, of q s] unquote_letter [of b _ q s]
  by (auto simp: git_quote_byte_def git_plain_def split: option.split)

lemma unquote_git_quoted:
  "list_all (\<lambda>b. b < 256) bs \<Longrightarrow> unquote_body q (concat (map git_quote_byte bs)) = bs"
  by (induction bs) (simp_all add: unquote_git_byte)

text \<open>A name quoted by the loader or by git is read back.\<close>

lemma marker_of_quoted:
  assumes "decodes u" "side = CHR ''a'' \<or> side = CHR ''b''"
    and plain: "\<And>b. plain b \<Longrightarrow> b < 127"
    and quoted: "\<And>bs. list_all (\<lambda>b. b < 256) bs \<Longrightarrow> unquote_body (CHR 0x22) (concat (map quote bs)) = bs"
    and shown: "t = (let bytes = utf8s ([side] @ ''/'' @ p) in
      if list_all plain bytes then map char_of bytes else [CHR 0x22] @ concat (map quote bytes) @ [CHR 0x22])"
  shows "parseMarkerPath u t ([side] @ ''/'') = Some p"
proof -
  let ?s = "[side] @ ''/'' @ p"
  show ?thesis
  proof (cases "list_all plain (utf8s ?s)")
    case True
    then have "list_all (\<lambda>b. b < 127) (utf8s ?s)" using plain by (auto simp: list_all_iff)
    then have "t = ?s" using utf8s_ascii True by (simp add: shown Let_def)
    with assms(2) show ?thesis by (auto simp: parseMarkerPath_def Let_def slice_from_def)
  next
    case False
    let ?q = "[CHR 0x22] @ concat (map quote (utf8s ?s)) @ [CHR 0x22]"
    have "t = ?q" using False by (simp add: shown Let_def)
    moreover have "unquote_bytes ?q = utf8s ?s"
      using quoted [of "utf8s ?s"] utf8_bytes
      by (auto simp: unquote_bytes_def butlast_append list_all_iff utf8s_def)
    ultimately show ?thesis
      using assms(1) by (simp add: parseMarkerPath_def unquoteGitPath_def decodes_def Let_def slice_from_def)
  qed
qed

lemma marker_of_printed:
  assumes "decodes u" "side = CHR ''a'' \<or> side = CHR ''b''" "fp_relabelled f \<or> CHR '' '' \<notin> set p"
  shows "parseMarkerPath u (marker_text f side p) ([side] @ ''/'') = Some p"
proof (cases "fp_relabelled f")
  case True
  have "parseMarkerPath u (quotePatchPath side p) ([side] @ ''/'') = Some p"
    by (rule marker_of_quoted [OF assms(1,2) _ unquote_quoted quotePatchPath_def]) (simp_all add: plain_byte_def)
  with True show ?thesis by (simp add: marker_text_def path_text_def)
next
  case False
  have "parseMarkerPath u (gitQuotePath side p) ([side] @ ''/'') = Some p"
    by (rule marker_of_quoted [OF assms(1,2) _ unquote_git_quoted gitQuotePath_def]) (simp_all add: git_plain_def)
  with False assms(3) show ?thesis by (simp add: marker_text_def path_text_def)
qed

text \<open>The tab git ends a marker line with when the name has a space is taken as part of the name.\<close>

lemma spaced_name_keeps_tab:
  assumes "CHR '' '' \<in> set p" "list_all git_plain (utf8s p)" "\<not> fp_relabelled f"
  shows "parseMarkerPath u (marker_text f (CHR ''b'') p) ''b/'' = Some (p @ [CHR 0x09])"
proof -
  have "list_all git_plain (utf8s (''b/'' @ p))" using assms(2) by (simp add: utf8s_def utf8_def git_plain_def)
  moreover from this have "list_all (\<lambda>b. b < 127) (utf8s (''b/'' @ p))" by (auto simp: list_all_iff git_plain_def)
  ultimately have "gitQuotePath (CHR ''b'') p = ''b/'' @ p" using utf8s_ascii [of "''b/'' @ p"] by (simp add: gitQuotePath_def Let_def)
  then have "marker_text f (CHR ''b'') p = ''b/'' @ p @ [CHR 0x09]" using assms(1,3) by (simp add: marker_text_def path_text_def)
  then show ?thesis by (simp add: parseMarkerPath_def Let_def slice_from_def)
qed

lemma parse_extended:
  "list_all extended_ok es \<Longrightarrow> ps_scanning st \<Longrightarrow> \<not> ps_open st \<Longrightarrow> foldl (parse_line u) st es = st"
proof (induction es)
  case (Cons e es)
  then have "parse_line u st e = st"
    by (simp add: extended_ok_def parse_line_def HUNK_HEADER_other parse_body_def split: option.splits)
  with Cons show ?case by simp
qed simp

lemma parse_printed_file:
  assumes "decodes u" "patch_ok f"
  shows "ps_files (foldl (parse_line u) st (print_file f)) = ps_files st @ files_of f"
proof -
  let ?st1 = "st\<lparr>ps_open := False, ps_oldPath := None, ps_newLine := None, ps_scanning := True\<rparr>"
  have 1: "parse_line u st (''diff --git '' @ path_text f (CHR ''a'') (fp_old f) @ '' '' @ path_text f (CHR ''b'') (fp_name f)) = ?st1"
    unfolding parse_line_def by simp
  have 2: "foldl (parse_line u) ?st1 (fp_extended f) = ?st1"
    using assms(2) by (intro parse_extended) (simp_all add: patch_ok_def)
  show ?thesis
  proof (cases "fp_kind f = HeaderOnly")
    case True
    then show ?thesis unfolding print_file_def foldl_append foldl.simps 1 2 if_P [OF True] by (simp add: files_of_def)
  next
    case False
    let ?p = "if fp_kind f = Deleted then fp_old f else fp_name f"
    let ?old = "if fp_kind f = Created then None else Some (fp_old f)"
    let ?st2 = "?st1\<lparr>ps_oldPath := ?old\<rparr>"
    let ?empty = "\<lparr>df_path = ?p, df_newRanges = [], df_newLines = []\<rparr>"
    let ?st3 = "?st2\<lparr>ps_open := True, ps_files := ps_files st @ [?empty]\<rparr>"
    let ?minus = "''--- '' @ (if fp_kind f = Created then ''/dev/null'' else marker_text f (CHR ''a'') (fp_old f))"
    let ?plus = "''+++ '' @ (if fp_kind f = Deleted then ''/dev/null'' else marker_text f (CHR ''b'') (fp_name f))"
    have marker: "parseMarkerPath u (marker_text f (CHR ''a'') (fp_old f)) ''a/'' = Some (fp_old f)"
      "parseMarkerPath u (marker_text f (CHR ''b'') (fp_name f)) ''b/'' = Some (fp_name f)"
      "parseMarkerPath u ''/dev/null'' x = None" for x
      using marker_of_printed [OF assms(1), of "CHR ''a''" f "fp_old f"] marker_of_printed [OF assms(1), of "CHR ''b''" f "fp_name f"]
        assms(2) by (auto simp: parseMarkerPath_def patch_ok_def)
    have 3: "parse_line u ?st1 ?minus = ?st2"
      using marker by (simp add: parse_line_def slice_from_def)
    have 4: "parse_line u ?st2 ?plus = ?st3"
      using marker False by (cases "fp_kind f") (simp_all add: parse_line_def slice_from_def)
    have "ps_files (foldl (parse_line u) ?st3 (concat (map print_hunk (fp_hunks f)))) =
        ps_files st @ [?empty\<lparr>df_newRanges := df_newRanges ?empty @ concat (map hunk_range (fp_hunks f)),
           df_newLines := df_newLines ?empty @ concat (map hunk_lines (fp_hunks f))\<rparr>]"
      by (rule parse_printed_hunks) (use assms(2) in \<open>simp_all add: patch_ok_def list_all_iff body_ok_def\<close>)
    moreover have "foldl (parse_line u) st (print_file f) = foldl (parse_line u) ?st3 (concat (map print_hunk (fp_hunks f)))"
      unfolding print_file_def foldl_append foldl.simps 1 2 if_not_P [OF False] 3 4 ..
    ultimately show ?thesis using False by (simp add: files_of_def)
  qed
qed

lemma parse_printed_files:
  assumes "decodes u" "list_all patch_ok fs"
  shows "ps_files (foldl (parse_line u) st (concat (map print_file fs))) = ps_files st @ concat (map files_of fs)"
  using assms(2)
  by (induction fs arbitrary: st) (simp_all add: parse_printed_file [OF assms(1)])

lemma octal3_no_newline: "b < 256 \<Longrightarrow> line_feed \<notin> set (octal3 b)"
  using octal3_digits(2) [of b] by (auto simp: list_all_iff is_octal_def)

lemma plain_not_newline: "plain_byte b \<Longrightarrow> char_of b \<noteq> line_feed"
proof
  assume b: "plain_byte b" and c: "char_of b = line_feed"
  have "of_char (char_of b :: char) = b" using b by (simp add: of_char_of plain_byte_def)
  with c b show False by (simp add: plain_byte_def)
qed

lemma quote_byte_no_newline: "b < 256 \<Longrightarrow> line_feed \<notin> set (quote_byte b)"
  using octal3_no_newline [of b] plain_not_newline [of b] by (auto simp: quote_byte_def)

lemma quoted_no_newline: "line_feed \<notin> set (quotePatchPath side p)"
proof -
  define bs where "bs = utf8s ([side] @ ''/'' @ p)"
  have small: "\<forall>b \<in> set bs. b < 256" using utf8_bytes by (auto simp: bs_def utf8s_def)
  have q: "quotePatchPath side p =
      (if list_all plain_byte bs then map char_of bs else [CHR 0x22] @ concat (map quote_byte bs) @ [CHR 0x22])"
    by (simp add: quotePatchPath_def bs_def)
  show ?thesis
  proof (cases "list_all plain_byte bs")
    case True
    then have "\<forall>b \<in> set bs. char_of b \<noteq> line_feed" using plain_not_newline by (simp add: list_all_iff)
    then show ?thesis unfolding q if_P [OF True] set_map by (metis imageE)
  next
    case False
    have "line_feed \<notin> set (concat (map quote_byte bs))" using small quote_byte_no_newline by auto
    with False show ?thesis by (simp add: q)
  qed
qed

lemma git_byte_no_newline: "b < 256 \<Longrightarrow> line_feed \<notin> set (git_quote_byte b)"
proof -
  assume b: "b < 256"
  have "char_of b \<noteq> line_feed" if "git_plain b"
  proof
    assume "char_of b = line_feed"
    moreover have "of_char (char_of b :: char) = b" using that by (simp add: of_char_of git_plain_def)
    ultimately show False using that by (simp add: git_plain_def)
  qed
  moreover have "c \<noteq> line_feed" if "map_of git_letters b = Some c" for c
    using that by (auto simp: git_letters_def split: if_splits)
  ultimately show ?thesis
    using octal3_no_newline [OF b] by (auto simp: git_quote_byte_def split: option.splits)
qed

lemma git_quoted_no_newline: "line_feed \<notin> set (gitQuotePath side p)"
proof -
  define bs where "bs = utf8s ([side] @ ''/'' @ p)"
  have small: "\<forall>b \<in> set bs. b < 256" using utf8_bytes by (auto simp: bs_def utf8s_def)
  then have no: "\<forall>b \<in> set bs. line_feed \<notin> set (git_quote_byte b)" using git_byte_no_newline by blast
  have q: "gitQuotePath side p =
      (if list_all git_plain bs then map char_of bs else [CHR 0x22] @ concat (map git_quote_byte bs) @ [CHR 0x22])"
    by (simp add: gitQuotePath_def bs_def)
  show ?thesis
  proof (cases "list_all git_plain bs")
    case True
    then have "\<forall>b \<in> set bs. char_of b \<noteq> line_feed" using no by (auto simp: list_all_iff git_quote_byte_def)
    then show ?thesis unfolding q if_P [OF True] set_map by (metis imageE)
  next
    case False
    with no show ?thesis by (simp add: q)
  qed
qed

lemma print_hunk_lines:
  "body_ok h \<Longrightarrow> line_feed \<notin> set (fh_section h) \<Longrightarrow> \<forall>l \<in> set (print_hunk h). line_feed \<notin> set l"
proof -
  assume h: "body_ok h" "line_feed \<notin> set (fh_section h)"
  have digits: "line_feed \<notin> set (show_nat n)" for n using show_nat_digits [of n] by (auto simp: is_digit_def)
  have "line_feed \<notin> set (print_line l)" if "line_ok (text_of_line l)" for l
    using that by (cases l) (auto simp: line_ok_def)
  with h show ?thesis by (auto simp: print_hunk_def print_count_def digits body_ok_def list_all_iff)
qed

lemma print_file_lines:
  assumes "patch_ok f"
  shows "\<forall>l \<in> set (print_file f). line_feed \<notin> set l"
proof -
  have p: "line_feed \<notin> set (path_text f side p)" for side p
    by (simp add: path_text_def quoted_no_newline git_quoted_no_newline)
  have q: "line_feed \<notin> set (marker_text f side p)" for side p by (simp add: marker_text_def p)
  have h: "\<forall>l \<in> set (concat (map print_hunk (fp_hunks f))). line_feed \<notin> set l"
    using assms print_hunk_lines unfolding patch_ok_def list_all_iff by simp blast
  have e: "\<forall>l \<in> set (fp_extended f). line_feed \<notin> set l"
    using assms by (simp add: patch_ok_def extended_ok_def list_all_iff)
  show ?thesis
    unfolding print_file_def set_simps set_append ball_simps ball_Un using p q h e by simp
qed


fun latin1_decode :: "nat list \<Rightarrow> string" where
  "latin1_decode [] = []"
| "latin1_decode [b] = [char_of b]"
| "latin1_decode (b # c # bs) =
     (if b < 128 then char_of b # latin1_decode (c # bs)
      else char_of ((b - 192) * 64 + (c - 128)) # latin1_decode bs)"

lemma latin1_decodes: "decodes latin1_decode"
proof -
  have ascii: "latin1_decode (n # bs) = char_of n # latin1_decode bs" if "n < 128" for n bs
    using that by (cases bs) simp_all
  have "latin1_decode (utf8 c @ bs) = c # latin1_decode bs" for c bs
    by (simp add: utf8_def Let_def ascii)
  then have "latin1_decode (utf8s s) = s" for s
    by (induction s) (simp_all add: utf8s_def)
  then show ?thesis by (simp add: decodes_def)
qed

definition sample_patch :: "file_patch list" where
  "sample_patch =
     [\<lparr>fp_old = ''src/a.ts'', fp_name = ''src/b'' @ [CHR 0x22] @ ''.ts'', fp_kind = Modified, fp_relabelled = False,
       fp_extended = [''similarity index 90%'', ''rename from src/a.ts'', ''index 1..2 100644''], fp_hunks =
        [\<lparr>fh_old = 3, fh_new = 3, fh_section = '' f()'',
          fh_lines = [Context ''x'', Removed ''y'', Added ''-- z'', Added []]\<rparr>,
         \<lparr>fh_old = 9, fh_new = 10, fh_section = [], fh_lines = [Removed ''w'', Added ''v'', NoNewline]\<rparr>]\<rparr>,
      \<lparr>fp_old = ''gone'', fp_name = ''gone'', fp_kind = Deleted, fp_relabelled = False,
       fp_extended = [''deleted file mode 100644''], fp_hunks =
        [\<lparr>fh_old = 1, fh_new = 0, fh_section = [], fh_lines = [Removed ''q'']\<rparr>]\<rparr>,
      \<lparr>fp_old = ''run.sh'', fp_name = ''run.sh'', fp_kind = HeaderOnly, fp_relabelled = False,
       fp_extended = [''old mode 100644'', ''new mode 100755''], fp_hunks = []\<rparr>,
      \<lparr>fp_old = ''a b'', fp_name = ''a b'', fp_kind = Created, fp_relabelled = True,
       fp_extended = [''new file mode 100644''], fp_hunks =
        [\<lparr>fh_old = 0, fh_new = 1, fh_section = [], fh_lines = [Added ''n'']\<rparr>]\<rparr>]"

lemma sample_patch_ok: "list_all patch_ok sample_patch"
  by (simp add: sample_patch_def patch_ok_def extended_ok_def body_ok_def line_ok_def strip_cr_def
      endsWith_def hunk_lines_def)


section \<open>Loading a diff\<close>

text \<open>The version-control layer; an error of it is its message.\<close>

record 'w diff_repo =
  rp_repositoryRoot :: string
  rp_repositoryIdentity :: string
  rp_defaultBranch :: "('w, string option) io"
  rp_refExists :: "string \<Rightarrow> ('w, bool) io"
  rp_headSha :: "('w, string option) io"
  rp_mergeBase :: "string \<Rightarrow> string \<Rightarrow> ('w, string option) io"
  rp_untrackedPaths :: "string list option \<Rightarrow> ('w, string list) io"
  rp_untrackedDiff :: "string \<Rightarrow> ('w, string option) io"
  rp_diffText :: "string \<Rightarrow> string list option \<Rightarrow> ('w, string) io"

record diff_snapshot =
  dn_repositoryRoot :: string
  dn_repository :: string
  dn_defaultBranch :: string
  dn_baseRevision :: string
  dn_headRevision :: string
  dn_patch :: string
  dn_warnings :: "string list"
  dn_files :: "diff_file list"

text \<open>\<open>JSON.stringify\<close> of a string.\<close>

definition hex_digit :: "nat \<Rightarrow> char" where
  "hex_digit d = (if d < 10 then digit_char d else char_of (87 + d))"

definition json_char :: "char \<Rightarrow> string" where
  "json_char c =
     (if c = CHR 0x22 then [CHR 0x5C, CHR 0x22] else if c = CHR 0x5C then [CHR 0x5C, CHR 0x5C]
      else if c = CHR 0x08 then [CHR 0x5C, CHR ''b''] else if c = CHR 0x0C then [CHR 0x5C, CHR ''f'']
      else if c = CHR 0x0A then [CHR 0x5C, CHR ''n''] else if c = CHR 0x0D then [CHR 0x5C, CHR ''r'']
      else if c = CHR 0x09 then [CHR 0x5C, CHR ''t'']
      else if of_char c < (32 :: nat)
        then [CHR 0x5C, CHR ''u'', CHR ''0'', CHR ''0'', hex_digit (of_char c div 16), hex_digit (of_char c mod 16)]
      else [c])"

definition json_string :: "string \<Rightarrow> string" where
  "json_string s = [CHR 0x22] @ concat (map json_char s) @ [CHR 0x22]"

definition win32_absolute :: "string \<Rightarrow> bool" where
  "win32_absolute p =
     (case p of
        [] \<Rightarrow> False
      | c # r \<Rightarrow> c = CHR ''/'' \<or> c = CHR 0x5C
          \<or> ((is_lower_alpha c \<or> is_upper_alpha c) \<and>
             (case r of d # e # _ \<Rightarrow> d = CHR '':'' \<and> (e = CHR ''/'' \<or> e = CHR 0x5C) | _ \<Rightarrow> False)))"

text \<open>\<open>raw.split(/[\\/]/)\<close>.\<close>

definition split_separators :: "string \<Rightarrow> string list" where
  "split_separators s = split_on slash (map (\<lambda>c. if c = CHR 0x5C then slash else c) s)"

definition strip_slashes :: "string \<Rightarrow> string" where
  "strip_slashes s = rev (dropWhile (\<lambda>c. c = slash) (rev s))"

definition validateDiffPath :: "string \<Rightarrow> string result" where
  "validateDiffPath raw =
     (if trim raw = [] then Inl ''diff path filters must be non-empty''
      else if CHR 0x00 \<in> set raw then Inl (''diff path filter '' @ json_string raw @ '' contains a NUL byte'')
      else if isAbsolute raw \<or> win32_absolute raw
        then Inl (''diff path filter '' @ json_string raw @ '' is absolute; paths must be repository-relative'')
      else if ''..'' \<in> set (split_separators raw)
        then Inl (''diff path filter '' @ json_string raw @ '' escapes the repository: '' @ [CHR 0x22] @ ''..'' @ [CHR 0x22]
               @ '' segments are not allowed'')
      else (let normalized = strip_slashes (normalize raw) in
            if normalized = ''.'' \<or> normalized = []
            then Inl (''diff path filter '' @ json_string raw @ '' does not name a path inside the repository'')
            else Inr normalized))"

definition resolveDefaultBranch :: "'w diff_repo \<Rightarrow> ('w, string) io" where
  "resolveDefaultBranch repo =
     io_bind (rp_defaultBranch repo) (\<lambda>detected.
       (let d = (case detected of None \<Rightarrow> [] | Some b \<Rightarrow> trim b) in
        if d \<noteq> [] then io_return d
        else io_bind (rp_refExists repo ''main'') (\<lambda>m.
          if m then io_return ''main''
          else io_bind (rp_refExists repo ''master'') (\<lambda>m.
            if m then io_return ''master''
            else io_throw (''could not determine the repository'' @ [CHR 0x27]
              @ ''s default branch (expected origin/HEAD, main, or master)'')))))"

definition appendPatch :: "string \<Rightarrow> string \<Rightarrow> string" where
  "appendPatch target addition =
     (if addition = [] then target
      else if target = [] \<or> endsWith target [line_feed] then target @ addition
      else target @ [line_feed] @ addition)"

text \<open>\<open>patch.split(/(?=^diff --git )/m)\<close>: a section starts after a line terminator.\<close>

fun split_sections :: "bool \<Rightarrow> string \<Rightarrow> string list" where
  "split_sections at [] = [[]]"
| "split_sections at (c # s) =
     (case split_sections (c = CHR 0x0A \<or> c = CHR 0x0D) s of
        [] \<Rightarrow> [[c]]
      | w # ws \<Rightarrow> if at \<and> startsWith (c # s) ''diff --git '' then [] # (c # w) # ws else (c # w) # ws)"

definition omitPatchPaths :: "(nat list \<Rightarrow> string) \<Rightarrow> string \<Rightarrow> string list \<Rightarrow> string" where
  "omitPatchPaths from_utf8 patch omitted =
     (if omitted = [] then patch
      else concat (filter (\<lambda>section.
          (case parseDiffFiles from_utf8 section of [] \<Rightarrow> True | f # _ \<Rightarrow> df_path f \<notin> set omitted))
        (split_sections False patch)))"

text \<open>One untracked path: \<open>cancelled\<close> tells whether an error of it aborts the load.\<close>

definition load_untracked ::
  "(string \<Rightarrow> bool) \<Rightarrow> 'w diff_repo \<Rightarrow> string list \<times> (string \<times> string) list \<Rightarrow> string \<Rightarrow>
   ('w, string list \<times> (string \<times> string) list) io" where
  "load_untracked cancelled repo st p =
     (case st of (warnings, patches) \<Rightarrow>
       io_catch
         (io_bind (rp_untrackedDiff repo p) (\<lambda>u.
            case u of
              None \<Rightarrow> io_return (warnings @ [''Untracked directory '' @ json_string p
                  @ '' was omitted; embedded repositories are not expanded.''], patches)
            | Some t \<Rightarrow> io_return (warnings, if t \<noteq> [] then patches @ [(p, t)] else patches)))
         (\<lambda>e. if cancelled e then io_throw e
              else io_return (warnings @ [''Untracked path '' @ json_string p
                  @ '' was omitted because it could not be read: '' @ e], patches)))"

definition load_diff ::
  "(nat list \<Rightarrow> string) \<Rightarrow> (string \<Rightarrow> bool) \<Rightarrow> string option \<Rightarrow> 'w diff_repo \<Rightarrow> string list option \<Rightarrow>
   ('w, diff_snapshot) io" where
  "load_diff from_utf8 cancelled basecampRepo repo raw_paths =
     io_bind (io_lift (case raw_paths of None \<Rightarrow> Inr None
         | Some ps \<Rightarrow> rbind (map_result validateDiffPath ps) (\<lambda>xs. Inr (Some xs)))) (\<lambda>paths.
     io_bind (resolveDefaultBranch repo) (\<lambda>defaultBranch.
     io_bind (rp_headSha repo) (\<lambda>head.
     (case (case head of None \<Rightarrow> [] | Some h \<Rightarrow> h) of
        [] \<Rightarrow> io_throw ''cannot load a diff: the repository has no commits (HEAD is unborn)''
      | h0 # hs \<Rightarrow>
     io_bind (rp_refExists repo (''origin/'' @ defaultBranch)) (\<lambda>remote.
     (let baseRef = (if remote then ''origin/'' @ defaultBranch else defaultBranch) in
     io_bind (rp_mergeBase repo baseRef ''HEAD'') (\<lambda>mb.
     (case (case mb of None \<Rightarrow> [] | Some b \<Rightarrow> b) of
        [] \<Rightarrow> io_throw (''could not resolve a merge base between '' @ baseRef @ '' and HEAD'')
      | b0 # bs \<Rightarrow>
     io_bind (rp_diffText repo (b0 # bs) (case paths of Some (p # ps) \<Rightarrow> Some (p # ps) | _ \<Rightarrow> None)) (\<lambda>patch.
     io_bind (rp_untrackedPaths repo paths) (\<lambda>untracked.
     io_bind (io_foldl (load_untracked cancelled repo) ([], []) (sort untracked)) (\<lambda>(warnings, patches).
       (let whole = foldl (\<lambda>acc e. appendPatch acc (snd e)) (omitPatchPaths from_utf8 patch (map fst patches)) patches;
            name = (case basecampRepo of None \<Rightarrow> [] | Some n \<Rightarrow> trim n)
        in io_return \<lparr>dn_repositoryRoot = rp_repositoryRoot repo,
             dn_repository = string_or name (rp_repositoryIdentity repo), dn_defaultBranch = defaultBranch,
             dn_baseRevision = b0 # bs, dn_headRevision = h0 # hs, dn_patch = whole, dn_warnings = warnings,
             dn_files = parseDiffFiles from_utf8 whole\<rparr>))))))))))))"

text \<open>A filter that passes is relative and has no segment that climbs.\<close>

lemma norm_rel_no_climb:
  "''..'' \<notin> set ss \<Longrightarrow> ''..'' \<notin> set acc \<Longrightarrow> ''..'' \<notin> set (norm_rel acc ss)"
  by (induction acc ss rule: norm_rel.induct) auto

end
