(* ===== verification/DiffJournal.thy ===== *)
theory DiffJournal
  imports DiffPatch Json
begin

text \<open>
  The annotation journal of the second port (\<open>omp/diff/annotations.ts\<close>, \<open>journal.ts\<close>, \<open>validate.ts\<close>,
  \<open>sidecar.ts\<close>, \<open>annotation-tools.ts\<close>): annotations are events of the session's active branch, folded
  from the last boundary; a target is validated against the frozen diff and anchored by a digest
  of its lines; a review shows the annotations whose anchor still holds. \<open>hash\<close> is
  \<open>sha256(s).digest("hex")\<close>.
\<close>

section \<open>Annotations\<close>

record diff_annotation =
  da_id :: string
  da_repository :: string
  da_path :: string
  da_newRange :: diff_range
  da_anchorHash :: string
  da_summary :: string
  da_rationale :: "string option"

abbreviation nl :: string where "nl \<equiv> [CHR 0x0A]"

definition diffAnnotationId ::
  "(string \<Rightarrow> string) \<Rightarrow> string \<Rightarrow> string \<Rightarrow> diff_range \<Rightarrow> string \<Rightarrow> string option \<Rightarrow> string" where
  "diffAnnotationId hash repository path rng summary rationale =
     take 12 (hash (repository @ nl @ path @ nl @ show_nat (dr_start rng) @ nl @ show_nat (dr_end rng) @ nl
       @ summary @ nl @ (case rationale of None \<Rightarrow> [] | Some r \<Rightarrow> r)))"

definition contentLines :: "string \<Rightarrow> string list" where
  "contentLines content =
     (if content = [] then []
      else (let ls = map strip_cr (split_on line_feed content)
            in if last ls = [] then butlast ls else ls))"

definition hashRange :: "(string \<Rightarrow> string) \<Rightarrow> string \<Rightarrow> diff_range \<Rightarrow> string list \<Rightarrow> string" where
  "hashRange hash path rng ls =
     take 16 (hash (path @ nl @ show_nat (dr_start rng) @ nl @ show_nat (dr_end rng) @ nl @ join nl ls))"

definition anchorHashForLines :: "(string \<Rightarrow> string) \<Rightarrow> string \<Rightarrow> diff_range \<Rightarrow> string list \<Rightarrow> string option" where
  "anchorHashForLines hash path rng ls =
     (if dr_start rng < 1 \<or> dr_end rng < dr_start rng then None
      else if length ls \<noteq> dr_end rng - dr_start rng + 1 then None
      else Some (hashRange hash path rng ls))"

definition anchorHash :: "(string \<Rightarrow> string) \<Rightarrow> string \<Rightarrow> diff_range \<Rightarrow> string \<Rightarrow> string option" where
  "anchorHash hash path rng content =
     (let ls = contentLines content in
      if dr_end rng > length ls then None
      else anchorHashForLines hash path rng (take (dr_end rng - (dr_start rng - 1)) (drop (dr_start rng - 1) ls)))"

definition range_span :: "diff_range \<Rightarrow> string" where
  "range_span r = (if dr_start r = dr_end r then show_nat (dr_start r)
     else show_nat (dr_start r) @ ''-'' @ show_nat (dr_end r))"

section \<open>Validation\<close>

record annotation_target =
  at_path :: string
  at_range :: diff_range
  at_summary :: string
  at_rationale :: "string option"

record annotation_issue =
  ai_path :: string
  ai_range :: diff_range
  ai_reason :: string

record validated_target =
  vt_path :: string
  vt_newRange :: diff_range
  vt_anchorHash :: string
  vt_summary :: string
  vt_rationale :: "string option"

text \<open>\<open>cwd\<close> is the directory \<open>path.relative\<close> resolves against.\<close>

definition repositoryRelativePath :: "string \<Rightarrow> string \<Rightarrow> string \<Rightarrow> string option" where
  "repositoryRelativePath cwd filePath root =
     (let r = (if isAbsolute filePath then path_relative cwd root filePath else normalize filePath) in
      if r = [] \<or> r = ''.'' \<or> r = ''..'' \<or> startsWith r ''../'' \<or> isAbsolute r then None else Some r)"

definition containingRange :: "diff_file \<Rightarrow> diff_range \<Rightarrow> bool" where
  "containingRange f r = list_ex (\<lambda>c. dr_start c \<le> dr_start r \<and> dr_end r \<le> dr_end c) (df_newRanges f)"

definition rangeProblem :: "diff_range \<Rightarrow> string option" where
  "rangeProblem r =
     (if dr_start r < 1 then Some ''line ranges are 1-based positive integers''
      else if dr_end r < dr_start r then Some (''range '' @ range_span r @ '' is reversed'')
      else None)"

text \<open>The lines of the frozen diff in a range, if it has them all.\<close>

definition snapshot_lines :: "diff_file \<Rightarrow> diff_range \<Rightarrow> string list option" where
  "snapshot_lines f r =
     (let ns = [dr_start r ..< Suc (dr_end r)] in
      if list_all (\<lambda>n. map_of (df_newLines f) n \<noteq> None) ns
      then Some (map (\<lambda>n. the (map_of (df_newLines f) n)) ns) else None)"

definition snapshotAnchorHash :: "(string \<Rightarrow> string) \<Rightarrow> diff_file \<Rightarrow> string \<Rightarrow> diff_range \<Rightarrow> string option" where
  "snapshotAnchorHash hash f path r =
     (case snapshot_lines f r of None \<Rightarrow> None | Some ls \<Rightarrow> anchorHashForLines hash path r ls)"

definition find_file :: "diff_snapshot \<Rightarrow> string \<Rightarrow> diff_file option" where
  "find_file sn path = find (\<lambda>f. df_path f = path) (dn_files sn)"

text \<open>The first pass on a target: the reason of a rejection, or the file it is in.\<close>

definition check_target ::
  "string \<Rightarrow> diff_snapshot \<Rightarrow> annotation_target \<Rightarrow> annotation_issue + (annotation_target \<times> string \<times> diff_file)" where
  "check_target cwd sn t =
     (case repositoryRelativePath cwd (at_path t) (dn_repositoryRoot sn) of
        None \<Rightarrow> Inl \<lparr>ai_path = at_path t, ai_range = at_range t, ai_reason = ''path is outside the repository''\<rparr>
      | Some path \<Rightarrow>
      (case rangeProblem (at_range t) of
        Some problem \<Rightarrow> Inl \<lparr>ai_path = path, ai_range = at_range t, ai_reason = problem\<rparr>
      | None \<Rightarrow>
      (case find_file sn path of
        None \<Rightarrow> Inl \<lparr>ai_path = path, ai_range = at_range t, ai_reason = ''file is not part of the current diff''\<rparr>
      | Some f \<Rightarrow>
          if \<not> containingRange f (at_range t)
          then Inl \<lparr>ai_path = path, ai_range = at_range t,
                 ai_reason = ''range '' @ range_span (at_range t) @ '' lies outside the displayed new-side hunk lines (''
                   @ join '', '' (map range_span (df_newRanges f)) @ '')''\<rparr>
          else Inr (t, path, f))))"

definition anchor_target ::
  "(string \<Rightarrow> string) \<Rightarrow> annotation_target \<times> string \<times> diff_file \<Rightarrow> annotation_issue + validated_target" where
  "anchor_target hash c =
     (case c of (t, path, f) \<Rightarrow>
       (case snapshotAnchorHash hash f path (at_range t) of
          None \<Rightarrow> Inl \<lparr>ai_path = path, ai_range = at_range t,
            ai_reason = ''range '' @ range_span (at_range t) @ '' does not address the frozen diff content''\<rparr>
        | Some h \<Rightarrow> Inr \<lparr>vt_path = path, vt_newRange = at_range t, vt_anchorHash = h,
            vt_summary = at_summary t, vt_rationale = at_rationale t\<rparr>))"

fun lefts :: "('a + 'b) list \<Rightarrow> 'a list" where
  "lefts [] = []" | "lefts (Inl x # xs) = x # lefts xs" | "lefts (Inr _ # xs) = lefts xs"

fun rights :: "('a + 'b) list \<Rightarrow> 'b list" where
  "rights [] = []" | "rights (Inl _ # xs) = rights xs" | "rights (Inr x # xs) = x # rights xs"

definition validateTargets ::
  "(string \<Rightarrow> string) \<Rightarrow> string \<Rightarrow> diff_snapshot \<Rightarrow> annotation_target list \<Rightarrow>
   validated_target list \<times> annotation_issue list" where
  "validateTargets hash cwd sn targets =
     (let first = map (check_target cwd sn) targets;
          second = map (anchor_target hash) (rights first)
      in (rights second, lefts first @ lefts second))"

definition is_stale :: "(string \<Rightarrow> string) \<Rightarrow> diff_snapshot \<Rightarrow> diff_annotation \<Rightarrow> bool" where
  "is_stale hash sn a \<longleftrightarrow>
     da_repository a \<noteq> dn_repository sn \<or>
     (case find_file sn (da_path a) of
        None \<Rightarrow> True
      | Some f \<Rightarrow> \<not> containingRange f (da_newRange a)
          \<or> snapshotAnchorHash hash f (da_path a) (da_newRange a) \<noteq> Some (da_anchorHash a))"

text \<open>The current annotations and the stale ones, each in the order of the input.\<close>

definition revalidateAnnotations ::
  "(string \<Rightarrow> string) \<Rightarrow> diff_snapshot \<Rightarrow> diff_annotation list \<Rightarrow> diff_annotation list \<times> diff_annotation list" where
  "revalidateAnnotations hash sn xs =
     (filter (\<lambda>a. \<not> is_stale hash sn a) xs, filter (is_stale hash sn) xs)"

section \<open>The journal\<close>

datatype journal_event =
    Recorded "diff_annotation list"
  | Withdrawn "string list"
  | DiffCompleted string "string option"

definition DIFF_ANNOTATION_CUSTOM_TYPE :: string where
  "DIFF_ANNOTATION_CUSTOM_TYPE = ''basecamp.diff.annotation''"

datatype entry_kind = ResetBoundary | Custom string json | OtherEntry

record session_entry =
  en_id :: string
  en_kind :: entry_kind

definition opt_prop :: "string \<Rightarrow> string option \<Rightarrow> (string \<times> json) list" where
  "opt_prop k x = (case x of None \<Rightarrow> [] | Some s \<Rightarrow> [(k, JStr s)])"

definition range_json :: "diff_range \<Rightarrow> json" where
  "range_json r = JObj [(''start'', JNum (IntNum (int (dr_start r)))), (''end'', JNum (IntNum (int (dr_end r))))]"

definition diff_annotation_json :: "diff_annotation \<Rightarrow> json" where
  "diff_annotation_json a = JObj (
     [(''id'', JStr (da_id a)), (''repository'', JStr (da_repository a)), (''path'', JStr (da_path a)),
      (''newRange'', range_json (da_newRange a)), (''anchorHash'', JStr (da_anchorHash a)),
      (''summary'', JStr (da_summary a))] @ opt_prop ''rationale'' (da_rationale a))"

definition journal_event_json :: "journal_event \<Rightarrow> json" where
  "journal_event_json e =
     (case e of
        Recorded xs \<Rightarrow> JObj [(''v'', JNum (IntNum 1)), (''kind'', JStr ''recorded''),
          (''annotations'', JArr (map diff_annotation_json xs))]
      | Withdrawn ids \<Rightarrow> JObj [(''v'', JNum (IntNum 1)), (''kind'', JStr ''withdrawn''), (''ids'', JArr (map JStr ids))]
      | DiffCompleted ref through \<Rightarrow> JObj ([(''v'', JNum (IntNum 1)), (''kind'', JStr ''diff-completed''),
          (''reviewRef'', JStr ref)] @ opt_prop ''throughEntryId'' through))"

text \<open>The closed schemas, as validation.\<close>

definition keys_in :: "string list \<Rightarrow> json \<Rightarrow> bool" where
  "keys_in ks j = (case j of JObj kvs \<Rightarrow> list_all (\<lambda>kv. fst kv \<in> set ks) kvs | _ \<Rightarrow> False)"

fun filled_str :: "json option \<Rightarrow> string option" where
  "filled_str (Some (JStr s)) = (if s = [] then None else Some s)"
| "filled_str _ = None"

text \<open>A property that may be missing but not empty: \<open>Inl\<close> when it is there and malformed.\<close>

definition optional_filled :: "json option \<Rightarrow> unit + string option" where
  "optional_filled v = (case v of None \<Rightarrow> Inr None
     | Some j \<Rightarrow> (case filled_str (Some j) of None \<Rightarrow> Inl () | Some s \<Rightarrow> Inr (Some s)))"

fun positive_int :: "json option \<Rightarrow> nat option" where
  "positive_int (Some (JNum (IntNum i))) = (if i \<ge> 1 then Some (nat i) else None)"
| "positive_int _ = None"

definition read_range :: "json option \<Rightarrow> diff_range option" where
  "read_range v =
     (case v of None \<Rightarrow> None | Some j \<Rightarrow>
       (case (positive_int (field j ''start''), positive_int (field j ''end'')) of
          (Some a, Some b) \<Rightarrow>
            if keys_in [''start'', ''end''] j \<and> b \<ge> a then Some \<lparr>dr_start = a, dr_end = b\<rparr> else None
        | _ \<Rightarrow> None))"

definition read_diff_annotation :: "json \<Rightarrow> diff_annotation result" where
  "read_diff_annotation j =
     (if \<not> keys_in [''id'', ''repository'', ''path'', ''newRange'', ''anchorHash'', ''summary'', ''rationale''] j
      then Inl ''annotation''
      else (case (filled_str (field j ''id''), filled_str (field j ''repository''), filled_str (field j ''path''),
                  read_range (field j ''newRange''), filled_str (field j ''anchorHash''), filled_str (field j ''summary''),
                  optional_filled (field j ''rationale'')) of
          (Some i, Some repo, Some p, Some r, Some h, Some s, Inr ra) \<Rightarrow>
            Inr \<lparr>da_id = i, da_repository = repo, da_path = p, da_newRange = r, da_anchorHash = h,
                 da_summary = s, da_rationale = ra\<rparr>
        | _ \<Rightarrow> Inl ''annotation''))"

definition read_id :: "json \<Rightarrow> string result" where
  "read_id j = (case filled_str (Some j) of None \<Rightarrow> Inl ''id'' | Some s \<Rightarrow> Inr s)"

definition parseDiffJournalEvent :: "json \<Rightarrow> journal_event option" where
  "parseDiffJournalEvent j =
     (if field j ''v'' \<noteq> Some (JNum (IntNum 1)) then None
      else if field j ''kind'' = Some (JStr ''recorded'') then
        (case field j ''annotations'' of
           Some (JArr xs) \<Rightarrow>
             (if \<not> keys_in [''v'', ''kind'', ''annotations''] j \<or> xs = [] then None
              else (case map_result read_diff_annotation xs of Inl _ \<Rightarrow> None | Inr as' \<Rightarrow> Some (Recorded as')))
         | _ \<Rightarrow> None)
      else if field j ''kind'' = Some (JStr ''withdrawn'') then
        (case field j ''ids'' of
           Some (JArr xs) \<Rightarrow>
             (if \<not> keys_in [''v'', ''kind'', ''ids''] j \<or> xs = [] then None
              else (case map_result read_id xs of Inl _ \<Rightarrow> None | Inr ids \<Rightarrow> Some (Withdrawn ids)))
         | _ \<Rightarrow> None)
      else if field j ''kind'' = Some (JStr ''diff-completed'') then
        (case (filled_str (field j ''reviewRef''), optional_filled (field j ''throughEntryId'')) of
           (Some ref, Inr through) \<Rightarrow>
             (if keys_in [''v'', ''kind'', ''reviewRef'', ''throughEntryId''] j then Some (DiffCompleted ref through)
              else None)
         | _ \<Rightarrow> None)
      else None)"

definition journalEvent :: "session_entry \<Rightarrow> journal_event option" where
  "journalEvent e =
     (case en_kind e of
        Custom ty data \<Rightarrow> if ty = DIFF_ANNOTATION_CUSTOM_TYPE then parseDiffJournalEvent data else None
      | _ \<Rightarrow> None)"

text \<open>
  The index through which annotations are consumed, plus one. \<open>indexById\<close> maps an id to the
  last index that has it.
\<close>

definition indexById :: "session_entry list \<Rightarrow> string \<Rightarrow> nat option" where
  "indexById es = map_of (rev (map (\<lambda>(i, e). (en_id e, i)) (indexed es)))"

definition boundary_step :: "session_entry list \<Rightarrow> nat \<Rightarrow> nat \<times> session_entry \<Rightarrow> nat" where
  "boundary_step es boundary ie =
     (case ie of (i, e) \<Rightarrow>
       if en_kind e = ResetBoundary then Suc i
       else (case journalEvent e of
           Some (DiffCompleted _ (Some through)) \<Rightarrow>
             (case indexById es through of
                Some t \<Rightarrow> if t < i then max boundary (Suc t) else boundary
              | None \<Rightarrow> boundary)
         | _ \<Rightarrow> boundary))"

definition diffJournalBoundaryIndex :: "session_entry list \<Rightarrow> nat" where
  "diffJournalBoundaryIndex es = foldl (boundary_step es) 0 (indexed es)"

text \<open>\<open>Map.delete\<close>.\<close>

definition delete_key :: "'k \<Rightarrow> ('k \<times> 'v) list \<Rightarrow> ('k \<times> 'v) list" where
  "delete_key k kvs = filter (\<lambda>e. fst e \<noteq> k) kvs"

definition active_step :: "(string \<times> diff_annotation) list \<Rightarrow> session_entry \<Rightarrow> (string \<times> diff_annotation) list" where
  "active_step active e =
     (case journalEvent e of
        Some (Recorded xs) \<Rightarrow> foldl (\<lambda>m a. set_key (da_id a) a m) active xs
      | Some (Withdrawn ids) \<Rightarrow> foldl (\<lambda>m i. delete_key i m) active ids
      | _ \<Rightarrow> active)"

definition activeAnnotations :: "session_entry list \<Rightarrow> diff_annotation list" where
  "activeAnnotations es = map snd (foldl active_step [] (drop (diffJournalBoundaryIndex es) es))"

text \<open>The entry an event appends, if any; \<open>i\<close> is the id the session gives it.\<close>

definition recordAnnotations :: "string \<Rightarrow> diff_annotation list \<Rightarrow> session_entry list" where
  "recordAnnotations i xs = (if xs = [] then []
     else [\<lparr>en_id = i, en_kind = Custom DIFF_ANNOTATION_CUSTOM_TYPE (journal_event_json (Recorded xs))\<rparr>])"

definition withdrawAnnotations :: "string \<Rightarrow> string list \<Rightarrow> session_entry list" where
  "withdrawAnnotations i ids = (if ids = [] then []
     else [\<lparr>en_id = i, en_kind = Custom DIFF_ANNOTATION_CUSTOM_TYPE (journal_event_json (Withdrawn ids))\<rparr>])"

definition recordDiffCompleted :: "string \<Rightarrow> string \<Rightarrow> string option \<Rightarrow> session_entry list" where
  "recordDiffCompleted i ref through =
     [\<lparr>en_id = i, en_kind = Custom DIFF_ANNOTATION_CUSTOM_TYPE (journal_event_json (DiffCompleted ref through))\<rparr>]"

section \<open>The tools\<close>

record annotate_item =
  it_path :: string
  it_line_start :: nat
  it_line_end :: nat
  it_summary :: string
  it_rationale :: "string option"

record annotate_details =
  ad_recorded :: "diff_annotation list"
  ad_skippedDuplicates :: nat
  ad_active :: nat
  ad_repository :: string

text \<open>What a call throws; the texts of a rejection and of an unknown id hold characters beyond Latin-1.\<close>

datatype tool_error =
    NotInteractive string
  | LoadFailed string
  | Rejected "annotation_issue list"
  | UnknownIds "string list"
  | Aborted

text \<open>The schema of the parameters, checked by the host.\<close>

definition item_checked :: "annotate_item \<Rightarrow> bool" where
  "item_checked i \<longleftrightarrow> it_path i \<noteq> [] \<and> it_line_start i \<ge> 1 \<and> it_line_end i \<ge> it_line_start i
     \<and> it_summary i \<noteq> [] \<and> it_rationale i \<noteq> Some []"

definition annotate_checked :: "annotate_item list \<Rightarrow> bool" where
  "annotate_checked items \<longleftrightarrow> items \<noteq> [] \<and> list_all item_checked items"

definition assertInteractive :: "string \<Rightarrow> bool \<Rightarrow> string \<Rightarrow> tool_error option" where
  "assertInteractive mode hasUI tool =
     (if mode \<noteq> ''tui'' \<or> \<not> hasUI
      then Some (NotInteractive (tool @ '' is only available in the interactive session that owns /diff.''))
      else None)"

definition target_of_item :: "annotate_item \<Rightarrow> annotation_target" where
  "target_of_item i = \<lparr>at_path = it_path i, at_range = \<lparr>dr_start = it_line_start i, dr_end = it_line_end i\<rparr>,
     at_summary = it_summary i, at_rationale = it_rationale i\<rparr>"

definition annotation_of :: "(string \<Rightarrow> string) \<Rightarrow> string \<Rightarrow> validated_target \<Rightarrow> diff_annotation" where
  "annotation_of hash repository v =
     \<lparr>da_id = diffAnnotationId hash repository (vt_path v) (vt_newRange v) (vt_summary v) (vt_rationale v),
      da_repository = repository, da_path = vt_path v, da_newRange = vt_newRange v,
      da_anchorHash = vt_anchorHash v, da_summary = vt_summary v, da_rationale = vt_rationale v\<rparr>"

text \<open>The loop that drops the ids already active or seen in the batch; both sets are \<open>seen\<close>.\<close>

fun fresh_annotations :: "string set \<Rightarrow> diff_annotation list \<Rightarrow> diff_annotation list" where
  "fresh_annotations seen [] = []"
| "fresh_annotations seen (a # as') =
     (if da_id a \<in> seen then fresh_annotations seen as'
      else a # fresh_annotations (insert (da_id a) seen) as')"

text \<open>
  The entries a call appends come with its answer; \<open>i\<close> is the id the session gives a new entry,
  \<open>aborted\<close> whether the signal has fired by then.
\<close>

definition annotate_diff ::
  "(string \<Rightarrow> string) \<Rightarrow> string \<Rightarrow> string \<Rightarrow> bool \<Rightarrow> diff_snapshot result \<Rightarrow> bool \<Rightarrow> string \<Rightarrow> session_entry list \<Rightarrow>
   annotate_item list \<Rightarrow> (tool_error + annotate_details) \<times> session_entry list" where
  "annotate_diff hash cwd mode hasUI loaded aborted i branch items =
     (case assertInteractive mode hasUI ''annotate_diff'' of Some e \<Rightarrow> (Inl e, []) | None \<Rightarrow>
     (case loaded of Inl e \<Rightarrow> (Inl (LoadFailed e), []) | Inr snap \<Rightarrow>
     (case validateTargets hash cwd snap (map target_of_item items) of (valid, issues) \<Rightarrow>
       if issues \<noteq> [] then (Inl (Rejected issues), [])
       else (let activeIds = set (map da_id (activeAnnotations branch));
                 recorded = fresh_annotations activeIds (map (annotation_of hash (dn_repository snap)) valid)
             in if aborted then (Inl Aborted, [])
                else (Inr \<lparr>ad_recorded = recorded, ad_skippedDuplicates = length valid - length recorded,
                        ad_active = card activeIds + length recorded, ad_repository = dn_repository snap\<rparr>,
                      recordAnnotations i recorded)))))"

definition remove_diff_annotation ::
  "string \<Rightarrow> bool \<Rightarrow> bool \<Rightarrow> string \<Rightarrow> session_entry list \<Rightarrow> string list \<Rightarrow>
   (tool_error + string list) \<times> session_entry list" where
  "remove_diff_annotation mode hasUI aborted i branch ids =
     (case assertInteractive mode hasUI ''remove_annotation'' of Some e \<Rightarrow> (Inl e, []) | None \<Rightarrow>
       (let requested = rev (remdups (rev ids));
            activeIds = set (map da_id (activeAnnotations branch));
            unknown = filter (\<lambda>x. x \<notin> activeIds) requested
        in if unknown \<noteq> [] then (Inl (UnknownIds unknown), [])
           else if aborted then (Inl Aborted, [])
           else (Inr requested, withdrawAnnotations i requested)))"

section \<open>The launch context of a review\<close>

record projected_file =
  pj_path :: string
  pj_annotations :: "((nat \<times> nat) \<times> string \<times> string option) list"

definition toProjectedAnnotation :: "diff_annotation \<Rightarrow> ((nat \<times> nat) \<times> string \<times> string option) result" where
  "toProjectedAnnotation a =
     (let s = dr_start (da_newRange a); e = dr_end (da_newRange a) in
      if s < 1 \<or> e < s then Inl (''annotation '' @ da_id a @ '' has an invalid newRange ['' @ show_nat s @ '', '' @ show_nat e @ '']'')
      else if trim (da_path a) = [] then Inl (''annotation '' @ da_id a @ '' has an empty path'')
      else Inr ((s, e), da_summary a, da_rationale a))"

text \<open>Append under the path's file, or under a new file at the end.\<close>

fun project_into :: "string \<Rightarrow> (nat \<times> nat) \<times> string \<times> string option \<Rightarrow> projected_file list \<Rightarrow> projected_file list" where
  "project_into p x [] = [\<lparr>pj_path = p, pj_annotations = [x]\<rparr>]"
| "project_into p x (f # fs) =
     (if pj_path f = p then f\<lparr>pj_annotations := pj_annotations f @ [x]\<rparr> # fs else f # project_into p x fs)"

fun project_all :: "projected_file list \<Rightarrow> diff_annotation list \<Rightarrow> projected_file list result" where
  "project_all fs [] = Inr fs"
| "project_all fs (a # as') =
     rbind (toProjectedAnnotation a) (\<lambda>x. project_all (project_into (da_path a) x fs) as')"

definition projectAgentContext :: "diff_annotation list \<Rightarrow> projected_file list result" where
  "projectAgentContext as' =
     (case as' of
        [] \<Rightarrow> Inl ''agent context requires at least one annotation''
      | a # _ \<Rightarrow>
          if list_ex (\<lambda>b. da_repository b \<noteq> da_repository a) as'
          then Inl ''agent context cannot mix annotations from multiple repositories''
          else project_all [] as')"

section \<open>Round trip of the events\<close>

lemma filled_str_Some [simp]: "filled_str (Some (JStr s)) = (if s = [] then None else Some s)"
  by simp

definition range_ok :: "diff_range \<Rightarrow> bool" where
  "range_ok r \<longleftrightarrow> dr_start r \<ge> 1 \<and> dr_end r \<ge> dr_start r"

definition diff_annotation_ok :: "diff_annotation \<Rightarrow> bool" where
  "diff_annotation_ok a \<longleftrightarrow> da_id a \<noteq> [] \<and> da_repository a \<noteq> [] \<and> da_path a \<noteq> [] \<and> range_ok (da_newRange a)
     \<and> da_anchorHash a \<noteq> [] \<and> da_summary a \<noteq> [] \<and> da_rationale a \<noteq> Some []"

lemma read_range_json: "range_ok r \<Longrightarrow> read_range (Some (range_json r)) = Some r"
  by (simp add: read_range_def range_json_def range_ok_def keys_in_def)

interpretation diff_annotation_codec: json_codec diff_annotation_json read_diff_annotation diff_annotation_ok
proof
  fix a :: diff_annotation
  show "diff_annotation_json a \<noteq> JNull" by (simp add: diff_annotation_json_def)
  assume "diff_annotation_ok a"
  then show "read_diff_annotation (diff_annotation_json a) = Inr a"
    by (auto simp: diff_annotation_ok_def diff_annotation_json_def read_diff_annotation_def keys_in_def
        opt_prop_def optional_filled_def read_range_json split: option.splits)
qed

interpretation annotation_id_codec: json_codec JStr read_id "\<lambda>s. s \<noteq> []"
  by unfold_locales (simp_all add: read_id_def)

definition event_ok :: "journal_event \<Rightarrow> bool" where
  "event_ok e = (case e of
      Recorded xs \<Rightarrow> xs \<noteq> [] \<and> list_all diff_annotation_ok xs
    | Withdrawn ids \<Rightarrow> ids \<noteq> [] \<and> [] \<notin> set ids
    | DiffCompleted ref through \<Rightarrow> ref \<noteq> [] \<and> through \<noteq> Some [])"

lemma parse_event_json: "event_ok e \<Longrightarrow> parseDiffJournalEvent (journal_event_json e) = Some e"
proof (cases e)
  case (Recorded xs)
  assume "event_ok e"
  then have "map_result read_diff_annotation (map diff_annotation_json xs) = Inr xs"
    by (intro diff_annotation_codec.dec_list) (simp add: Recorded event_ok_def list_all_iff)
  with \<open>event_ok e\<close> show ?thesis
    by (simp add: Recorded event_ok_def parseDiffJournalEvent_def journal_event_json_def keys_in_def)
next
  case (Withdrawn ids)
  assume "event_ok e"
  then have "map_result read_id (map JStr ids) = Inr ids"
    by (intro annotation_id_codec.dec_list) (auto simp: Withdrawn event_ok_def)
  with \<open>event_ok e\<close> show ?thesis
    by (simp add: Withdrawn event_ok_def parseDiffJournalEvent_def journal_event_json_def keys_in_def)
next
  case (DiffCompleted ref through)
  assume "event_ok e"
  then show ?thesis
    by (auto simp: DiffCompleted event_ok_def parseDiffJournalEvent_def journal_event_json_def keys_in_def
        opt_prop_def optional_filled_def split: option.splits)
qed

definition event_entry :: "string \<Rightarrow> journal_event \<Rightarrow> session_entry" where
  "event_entry i e = \<lparr>en_id = i, en_kind = Custom DIFF_ANNOTATION_CUSTOM_TYPE (journal_event_json e)\<rparr>"

lemma journalEvent_entry [simp]:
  "event_ok e \<Longrightarrow> journalEvent (event_entry i e) = Some e"
  "en_id (event_entry i e) = i" "en_kind (event_entry i e) \<noteq> ResetBoundary"
  by (simp_all add: journalEvent_def event_entry_def parse_event_json)

lemma record_functions:
  "recordAnnotations i xs = (if xs = [] then [] else [event_entry i (Recorded xs)])"
  "withdrawAnnotations i ids = (if ids = [] then [] else [event_entry i (Withdrawn ids)])"
  "recordDiffCompleted i ref through = [event_entry i (DiffCompleted ref through)]"
  by (simp_all add: recordAnnotations_def withdrawAnnotations_def recordDiffCompleted_def event_entry_def)

section \<open>The fold of the journal\<close>

lemma indexed_snoc: "indexed (xs @ [x]) = indexed xs @ [(length xs, x)]"
  by (simp add: indexed_def)

lemma indexById_snoc:
  "indexById (es @ [x]) k = (if k = en_id x then Some (length es) else indexById es k)"
  by (simp add: indexById_def indexed_snoc)

lemma indexById_None: "k \<notin> en_id ` set es \<Longrightarrow> indexById es k = None"
  unfolding indexById_def map_of_eq_None_iff by (force simp: set_indexed dest: nth_mem)

lemma boundary_step_ext:
  assumes "en_id x \<notin> en_id ` set es" "i < length es"
  shows "boundary_step (es @ [x]) b (i, e) = boundary_step es b (i, e)"
  using assms by (auto simp: boundary_step_def indexById_snoc indexById_None split: option.splits journal_event.splits)

lemma boundary_fold_ext:
  assumes "en_id x \<notin> en_id ` set es" "\<forall>(i, e) \<in> set ies. i < length es"
  shows "foldl (boundary_step (es @ [x])) b ies = foldl (boundary_step es) b ies"
  using assms by (induction ies arbitrary: b) (auto simp: boundary_step_ext)

lemma boundary_snoc:
  assumes "en_id x \<notin> en_id ` set es"
  shows "diffJournalBoundaryIndex (es @ [x]) = boundary_step (es @ [x]) (diffJournalBoundaryIndex es) (length es, x)"
proof -
  have "\<forall>(i, e) \<in> set (indexed es). i < length es" by (auto simp: set_indexed)
  then show ?thesis
    unfolding diffJournalBoundaryIndex_def indexed_snoc by (simp add: boundary_fold_ext [OF assms])
qed

lemma boundary_le: "distinct (map en_id es) \<Longrightarrow> diffJournalBoundaryIndex es \<le> length es"
proof (induction es rule: rev_induct)
  case (snoc x es)
  then have le: "diffJournalBoundaryIndex es \<le> length es" and new: "en_id x \<notin> en_id ` set es" by simp_all
  show ?case
    unfolding boundary_snoc [OF new]
    using le by (auto simp: boundary_step_def split: option.splits journal_event.splits)
qed (simp add: diffJournalBoundaryIndex_def indexed_def)

lemma active_snoc:
  assumes "distinct (map en_id (es @ [x]))" "en_kind x \<noteq> ResetBoundary"
    and "\<And>ref t. journalEvent x \<noteq> Some (DiffCompleted ref (Some t))"
  shows "activeAnnotations (es @ [x]) =
    map snd (active_step (foldl active_step [] (drop (diffJournalBoundaryIndex es) es)) x)"
proof -
  have "diffJournalBoundaryIndex (es @ [x]) = diffJournalBoundaryIndex es"
    using assms by (subst boundary_snoc) (auto simp: boundary_step_def split: option.splits journal_event.splits)
  then show ?thesis
    using boundary_le [of es] assms(1) by (simp add: activeAnnotations_def)
qed

lemma indexById_last: "distinct (map en_id (pre @ post)) \<Longrightarrow> pre \<noteq> [] \<Longrightarrow>
  indexById (pre @ post) (en_id (last pre)) = Some (length pre - 1)"
proof (induction post rule: rev_induct)
  case Nil
  then show ?case by (cases pre rule: rev_cases) (simp_all add: indexById_snoc)
next
  case (snoc x post)
  then have "en_id (last pre) \<noteq> en_id x" by (cases pre rule: rev_cases) auto
  with snoc show ?case by (simp add: indexById_snoc flip: append_assoc)
qed

lemma completed_review_keeps_tail:
  assumes ids: "distinct (map en_id (pre @ post @ [event_entry i (DiffCompleted ref (Some (en_id (last pre))))]))"
    and pre: "pre \<noteq> []" "ref \<noteq> []" "en_id (last pre) \<noteq> []"
    and bound: "diffJournalBoundaryIndex (pre @ post) \<le> length pre"
  shows "activeAnnotations (pre @ post @ [event_entry i (DiffCompleted ref (Some (en_id (last pre))))]) =
    map snd (foldl active_step [] post)"
proof -
  let ?x = "event_entry i (DiffCompleted ref (Some (en_id (last pre))))"
  have new: "en_id ?x \<notin> en_id ` set (pre @ post)" using ids by auto
  have ok: "event_ok (DiffCompleted ref (Some (en_id (last pre))))" using pre by (simp add: event_ok_def)
  have idx: "indexById ((pre @ post) @ [?x]) (en_id (last pre)) = Some (length pre - 1)"
    using indexById_last [of pre "post @ [?x]"] ids pre(1) by simp
  have "diffJournalBoundaryIndex ((pre @ post) @ [?x]) = length pre"
    unfolding boundary_snoc [OF new] using idx ok bound pre(1)
    by (cases "length pre") (simp_all add: boundary_step_def)
  then show ?thesis using ok by (simp add: activeAnnotations_def active_step_def)
qed

section \<open>From the tool to the review\<close>

text \<open>The table of the fold is keyed by the annotations' own ids, each once.\<close>

definition keyed :: "(string \<times> diff_annotation) list \<Rightarrow> bool" where
  "keyed m \<longleftrightarrow> distinct (map fst m) \<and> (\<forall>(k, a) \<in> set m. k = da_id a)"

lemma keyed_keys: "keyed m \<Longrightarrow> map da_id (map snd m) = map fst m"
  unfolding keyed_def by (induction m) auto

lemma keyed_set: "keyed m \<Longrightarrow> keyed (set_key (da_id a) a m)"
  unfolding keyed_def by (auto simp: distinct_set_key dest: set_set_key)

lemma keyed_delete: "keyed m \<Longrightarrow> keyed (delete_key k m)"
  unfolding keyed_def delete_key_def by (auto simp: distinct_map_filter)

lemma fst_set_key: "fst ` set (set_key k v m) = insert k (fst ` set m)"
  by (induction m) auto

lemma fst_delete_key: "fst ` set (delete_key k m) = fst ` set m - {k}"
  by (auto simp: delete_key_def)

lemma keyed_step: "keyed m \<Longrightarrow> keyed (active_step m e)"
proof -
  assume m: "keyed m"
  have "keyed (foldl (\<lambda>m a. set_key (da_id a) a m) m xs)" for xs
    using m by (induction xs arbitrary: m) (simp_all add: keyed_set)
  moreover have "keyed (foldl (\<lambda>m i. delete_key i m) m ids)" for ids
    using m by (induction ids arbitrary: m) (simp_all add: keyed_delete)
  ultimately show ?thesis using m by (simp add: active_step_def split: option.split journal_event.split)
qed

lemma keyed_fold: "keyed m \<Longrightarrow> keyed (foldl active_step m es)"
  by (induction es arbitrary: m) (simp_all add: keyed_step)

lemma keys_step_mono:
  assumes "fst ` set m \<subseteq> fst ` set m'"
  shows "fst ` set (active_step m e) \<subseteq> fst ` set (active_step m' e)"
proof -
  have "fst ` set (foldl (\<lambda>m a. set_key (da_id a) a m) m xs) \<subseteq> fst ` set (foldl (\<lambda>m a. set_key (da_id a) a m) m' xs)" for xs
    using assms by (induction xs arbitrary: m m') (simp_all add: fst_set_key subset_insertI2 insert_mono)
  moreover have "fst ` set (foldl (\<lambda>m i. delete_key i m) m ids) \<subseteq> fst ` set (foldl (\<lambda>m i. delete_key i m) m' ids)" for ids
    using assms by (induction ids arbitrary: m m') (simp_all add: fst_delete_key Diff_mono)
  ultimately show ?thesis using assms by (simp add: active_step_def split: option.split journal_event.split)
qed

lemma keys_fold_mono:
  "fst ` set m \<subseteq> fst ` set m' \<Longrightarrow> fst ` set (foldl active_step m es) \<subseteq> fst ` set (foldl active_step m' es)"
  by (induction es arbitrary: m m') (simp_all add: keys_step_mono)

lemma fresh_distinct: "distinct (map da_id (fresh_annotations seen xs))
    \<and> da_id ` set (fresh_annotations seen xs) \<inter> seen = {}"
  by (induction seen xs rule: fresh_annotations.induct) auto

lemma fresh_subset: "set (fresh_annotations seen xs) \<subseteq> set xs"
  by (induction seen xs rule: fresh_annotations.induct) auto

lemma set_key_fresh: "k \<notin> fst ` set m \<Longrightarrow> set_key k v m = m @ [(k, v)]"
  by (induction m) auto

lemma record_fresh:
  "distinct (map da_id xs) \<Longrightarrow> da_id ` set xs \<inter> fst ` set m = {} \<Longrightarrow>
   foldl (\<lambda>m a. set_key (da_id a) a m) m xs = m @ map (\<lambda>a. (da_id a, a)) xs"
proof (induction xs arbitrary: m)
  case (Cons x xs)
  then show ?case using Cons.IH [of "m @ [(da_id x, x)]"] by (simp add: set_key_fresh)
qed simp

text \<open>What a validated target promises.\<close>

lemma in_rights: "x \<in> set (rights ys) \<longleftrightarrow> Inr x \<in> set ys"
  by (induction ys rule: rights.induct) auto

lemma validated_target:
  assumes "v \<in> set (fst (validateTargets hash cwd sn targets))"
  shows "\<exists>t \<in> set targets. \<exists>f. vt_path v \<noteq> [] \<and> vt_newRange v = at_range t \<and> vt_summary v = at_summary t
    \<and> vt_rationale v = at_rationale t \<and> range_ok (vt_newRange v)
    \<and> find_file sn (vt_path v) = Some f \<and> containingRange f (vt_newRange v)
    \<and> snapshotAnchorHash hash f (vt_path v) (vt_newRange v) = Some (vt_anchorHash v)"
proof -
  obtain t p f where t: "t \<in> set targets" and first: "check_target cwd sn t = Inr (t, p, f)"
    and second: "anchor_target hash (t, p, f) = Inr v"
  proof -
    from assms have "Inr v \<in> anchor_target hash ` set (rights (map (check_target cwd sn) targets))"
      by (simp add: validateTargets_def in_rights Let_def)
    then obtain c where c: "c \<in> set (rights (map (check_target cwd sn) targets))" "anchor_target hash c = Inr v"
      by (metis imageE)
    then obtain t where "t \<in> set targets" "check_target cwd sn t = Inr c" by (auto simp: in_rights)
    moreover from this have "\<exists>p f. c = (t, p, f)"
      by (auto simp: check_target_def split: option.splits if_splits)
    ultimately show thesis using c(2) that by blast
  qed
  from first have "p \<noteq> [] \<and> rangeProblem (at_range t) = None \<and> find_file sn p = Some f \<and> containingRange f (at_range t)"
    by (auto simp: check_target_def repositoryRelativePath_def Let_def split: option.splits if_splits)
  moreover from this have "range_ok (at_range t)"
    by (auto simp: rangeProblem_def range_ok_def split: if_splits)
  ultimately show ?thesis using second t
    by (auto simp: anchor_target_def split: option.splits intro!: bexI [of _ t])
qed

lemma annotation_of_current:
  assumes "v \<in> set (fst (validateTargets hash cwd sn targets))"
  shows "\<not> is_stale hash sn (annotation_of hash (dn_repository sn) v)"
  using validated_target [OF assms] by (auto simp: is_stale_def annotation_of_def)

lemma snapshot_hash_not_Nil:
  "\<forall>s. length (hash s) = 64 \<Longrightarrow> snapshotAnchorHash hash f p r = Some h \<Longrightarrow> h \<noteq> []"
  by (auto simp: snapshotAnchorHash_def anchorHashForLines_def hashRange_def split: option.splits if_splits)
    (metis length_0_conv zero_neq_numeral)

lemma annotation_of_ok:
  assumes "\<forall>s. length (hash s) = 64" "dn_repository sn \<noteq> []" "annotate_checked items"
    and "v \<in> set (fst (validateTargets hash cwd sn (map target_of_item items)))"
  shows "diff_annotation_ok (annotation_of hash (dn_repository sn) v)"
proof -
  obtain t f where t: "t \<in> set (map target_of_item items)" "vt_path v \<noteq> []" "vt_summary v = at_summary t"
      "vt_rationale v = at_rationale t" "range_ok (vt_newRange v)"
      "snapshotAnchorHash hash f (vt_path v) (vt_newRange v) = Some (vt_anchorHash v)"
    using validated_target [OF assms(4)] by blast
  have "at_summary t \<noteq> [] \<and> at_rationale t \<noteq> Some []"
    using t(1) assms(3) by (auto simp: annotate_checked_def item_checked_def target_of_item_def list_all_iff)
  moreover have "diffAnnotationId hash r p n s ra \<noteq> []" for r p n s ra
  proof -
    have "hash x \<noteq> []" for x using assms(1) by (metis length_0_conv zero_neq_numeral)
    then show ?thesis by (simp add: diffAnnotationId_def)
  qed
  ultimately show ?thesis
    using t assms(1,2) snapshot_hash_not_Nil [OF assms(1) t(6)] by (simp add: diff_annotation_ok_def annotation_of_def)
qed

lemma active_keyed:
  "activeAnnotations es = map snd (foldl active_step [] (drop (diffJournalBoundaryIndex es) es))"
  "keyed (foldl active_step [] (drop (diffJournalBoundaryIndex es) es))"
  by (rule activeAnnotations_def, rule keyed_fold, simp add: keyed_def)

lemma annotate_diff_result:
  assumes "annotate_diff hash cwd mode hasUI (Inr sn) aborted i branch items = (Inr d, new)"
  shows "ad_recorded d = fresh_annotations (da_id ` set (activeAnnotations branch))
           (map (annotation_of hash (dn_repository sn)) (fst (validateTargets hash cwd sn (map target_of_item items))))"
    and "ad_active d = card (da_id ` set (activeAnnotations branch)) + length (ad_recorded d)"
    and "new = recordAnnotations i (ad_recorded d)"
  using assms by (auto simp: annotate_diff_def Let_def split: option.splits prod.splits if_splits)

lemma record_active:
  assumes ids: "distinct (map en_id (es @ [event_entry i (Recorded xs)]))" and ok: "event_ok (Recorded xs)"
    and xs: "distinct (map da_id xs)" "da_id ` set xs \<inter> da_id ` set (activeAnnotations es) = {}"
  shows "activeAnnotations (es @ [event_entry i (Recorded xs)]) = activeAnnotations es @ xs"
proof -
  let ?m = "foldl active_step [] (drop (diffJournalBoundaryIndex es) es)"
  have "da_id ` set (activeAnnotations es) = fst ` set ?m"
    using arg_cong [OF keyed_keys [OF active_keyed(2) [of es]], of set]
    by (simp add: active_keyed(1) image_image)
  then have "foldl (\<lambda>m a. set_key (da_id a) a m) ?m xs = ?m @ map (\<lambda>a. (da_id a, a)) xs"
    using xs by (intro record_fresh) auto
  then show ?thesis
    using ok by (subst active_snoc [OF ids]) (simp_all add: active_step_def active_keyed(1) comp_def)
qed

lemma annotate_diff_records:
  assumes digest: "\<forall>s. length (hash s) = 64"
    and call: "annotate_diff hash cwd mode hasUI (Inr sn) aborted i branch items = (Inr d, new)"
    and checked: "annotate_checked items" "dn_repository sn \<noteq> []"
  shows "list_all diff_annotation_ok (ad_recorded d)" "\<forall>a \<in> set (ad_recorded d). \<not> is_stale hash sn a"
    and "distinct (map da_id (ad_recorded d))"
    and "da_id ` set (ad_recorded d) \<inter> da_id ` set (activeAnnotations branch) = {}"
proof -
  let ?vs = "fst (validateTargets hash cwd sn (map target_of_item items))"
  let ?xs = "map (annotation_of hash (dn_repository sn)) ?vs"
  let ?seen = "da_id ` set (activeAnnotations branch)"
  note r = annotate_diff_result(1) [OF call]
  have "set (ad_recorded d) \<subseteq> set ?xs" unfolding r by (rule fresh_subset)
  then have sub: "\<exists>v \<in> set ?vs. a = annotation_of hash (dn_repository sn) v" if "a \<in> set (ad_recorded d)" for a
    using that by auto
  show "list_all diff_annotation_ok (ad_recorded d)"
    unfolding list_all_iff using sub annotation_of_ok [OF digest checked(2,1)] by blast
  show "\<forall>a \<in> set (ad_recorded d). \<not> is_stale hash sn a"
    using sub annotation_of_current by blast
  show "distinct (map da_id (ad_recorded d))" "da_id ` set (ad_recorded d) \<inter> ?seen = {}"
    unfolding r using fresh_distinct by blast+
qed

lemma tail_keys:
  assumes "b \<le> length pre"
  shows "fst ` set (foldl active_step [] post) \<subseteq> fst ` set (foldl active_step [] (drop b (pre @ post)))"
proof -
  have "foldl active_step [] (drop b (pre @ post)) = foldl active_step (foldl active_step [] (drop b pre)) post"
    using assms by simp
  then show ?thesis using keys_fold_mono [of "[]" "foldl active_step [] (drop b pre)" post] by simp
qed

text \<open>
  C25. Whatever \<open>annotate_diff\<close> confirms is active and is shown: the active annotations after the
  call are those before it followed by the recorded ones, as many as the confirmation counts;
  each recorded annotation is current when the same diff is revalidated; and when a review that was
  opened earlier, at the leaf of \<open>pre\<close>, completes after the call, the recorded annotations are
  still active. \<open>hash\<close> gives 64 characters, the host has checked the parameters and the session
  never repeats an entry id.
\<close>

theorem annotations_reach_the_review:
  assumes digest: "\<forall>s. length (hash s) = 64"
    and call: "annotate_diff hash cwd mode hasUI (Inr sn) aborted i (pre @ post) items = (Inr d, new)"
    and checked: "annotate_checked items" "dn_repository sn \<noteq> []"
    and ids: "distinct (map en_id (pre @ post) @ [i, c])"
    and review: "pre \<noteq> []" "en_id (last pre) \<noteq> []" "ref \<noteq> []" "diffJournalBoundaryIndex (pre @ post) \<le> length pre"
  shows "activeAnnotations ((pre @ post) @ new) = activeAnnotations (pre @ post) @ ad_recorded d
    \<and> ad_active d = length (activeAnnotations ((pre @ post) @ new))
    \<and> revalidateAnnotations hash sn (ad_recorded d) = (ad_recorded d, [])
    \<and> (\<exists>kept. activeAnnotations ((pre @ post) @ new @ recordDiffCompleted c ref (Some (en_id (last pre))))
          = kept @ ad_recorded d)"
proof -
  let ?es = "pre @ post" and ?r = "ad_recorded d"
  note rec = annotate_diff_records [OF digest call checked]
  have new: "new = (if ?r = [] then [] else [event_entry i (Recorded ?r)])"
    using annotate_diff_result(3) [OF call] by (simp add: record_functions)
  have ev: "?r \<noteq> [] \<Longrightarrow> event_ok (Recorded ?r)" using rec(1) by (simp add: event_ok_def)
  have A: "activeAnnotations (?es @ new) = activeAnnotations ?es @ ?r"
    using record_active [OF _ ev rec(3,4), of i] ids by (auto simp: new)
  have "distinct (map da_id (activeAnnotations ?es))"
    unfolding active_keyed(1) keyed_keys [OF active_keyed(2)] using active_keyed(2) [of ?es] by (simp only: keyed_def)
  then have B: "ad_active d = length (activeAnnotations (?es @ new))"
    using annotate_diff_result(2) [OF call] distinct_card [of "map da_id (activeAnnotations ?es)"] A by simp
  have C: "revalidateAnnotations hash sn ?r = (?r, [])"
    using rec(2) by (simp add: revalidateAnnotations_def filter_id_conv filter_empty_conv)
  let ?t = "foldl active_step [] post"
  have "fst ` set ?t \<subseteq> da_id ` set (activeAnnotations ?es)"
    using tail_keys [OF review(4), of post] arg_cong [OF keyed_keys [OF active_keyed(2) [of ?es]], of set]
    by (simp add: active_keyed(1) image_image)
  with rec(4) have fresh: "da_id ` set ?r \<inter> fst ` set ?t = {}" by blast
  have tail: "foldl active_step [] (post @ new) = ?t @ map (\<lambda>a. (da_id a, a)) ?r"
    using ev record_fresh [OF rec(3) fresh] by (auto simp: new active_step_def)
  have bound: "diffJournalBoundaryIndex (pre @ (post @ new)) \<le> length pre"
  proof (cases "?r = []")
    case False
    then have n: "new = [event_entry i (Recorded ?r)]" by (simp add: new)
    have "en_id (event_entry i (Recorded ?r)) \<notin> en_id ` set ?es" using ids by auto
    from boundary_snoc [OF this] review(4) ev [OF False] show ?thesis by (simp add: n boundary_step_def)
  qed (use review(4) new in simp)
  have "activeAnnotations (pre @ (post @ new) @ [event_entry c (DiffCompleted ref (Some (en_id (last pre))))])
      = map snd (foldl active_step [] (post @ new))"
    using ids by (intro completed_review_keeps_tail review bound) (auto simp: new)
  then have D: "activeAnnotations (?es @ new @ recordDiffCompleted c ref (Some (en_id (last pre)))) = map snd ?t @ ?r"
    unfolding tail record_functions(3) by (simp add: comp_def)
  from A B C D show ?thesis by blast
qed

section \<open>Sample session\<close>

definition pad_hash :: "string \<Rightarrow> string" where
  "pad_hash s = take 64 (s @ replicate 64 CHR ''0'')"

lemma length_pad_hash: "length (pad_hash s) = 64"
  by (simp add: pad_hash_def)

definition sample_snapshot :: "string \<Rightarrow> diff_snapshot" where
  "sample_snapshot code = \<lparr>dn_repositoryRoot = ''/r'', dn_repository = ''o/r'', dn_defaultBranch = ''main'',
     dn_baseRevision = ''b'', dn_headRevision = ''h'', dn_patch = [], dn_warnings = [],
     dn_files = [\<lparr>df_path = ''f'', df_newRanges = [\<lparr>dr_start = 2, dr_end = 3\<rparr>],
       df_newLines = [(2, code), (3, ''y'')]\<rparr>]\<rparr>"

definition sample_item :: annotate_item where
  "sample_item = \<lparr>it_path = ''f'', it_line_start = 2, it_line_end = 2, it_summary = ''why'', it_rationale = None\<rparr>"

definition sample_call ::
  "string \<Rightarrow> string \<Rightarrow> session_entry list \<Rightarrow> (tool_error + annotate_details) \<times> session_entry list" where
  "sample_call code i branch = annotate_diff pad_hash ''/r'' ''tui'' True (Inr (sample_snapshot code)) False i branch [sample_item]"

abbreviation leaf_entry :: session_entry where
  "leaf_entry \<equiv> \<lparr>en_id = ''m1'', en_kind = OtherEntry\<rparr>"

definition sample_recorded :: "string \<Rightarrow> diff_annotation" where
  "sample_recorded code = annotation_of pad_hash ''o/r'' \<lparr>vt_path = ''f'', vt_newRange = \<lparr>dr_start = 2, dr_end = 2\<rparr>,
     vt_anchorHash = hashRange pad_hash ''f'' \<lparr>dr_start = 2, dr_end = 2\<rparr> [code], vt_summary = ''why'', vt_rationale = None\<rparr>"

lemma sample_valid:
  "validateTargets pad_hash ''/r'' (sample_snapshot code) [target_of_item sample_item] =
     ([\<lparr>vt_path = ''f'', vt_newRange = \<lparr>dr_start = 2, dr_end = 2\<rparr>,
        vt_anchorHash = hashRange pad_hash ''f'' \<lparr>dr_start = 2, dr_end = 2\<rparr> [code], vt_summary = ''why'',
        vt_rationale = None\<rparr>], [])"
proof -
  have "repositoryRelativePath ''/r'' ''f'' ''/r'' = Some ''f''" by code_simp
  then show ?thesis
    by (simp add: validateTargets_def check_target_def anchor_target_def target_of_item_def sample_item_def
        sample_snapshot_def rangeProblem_def find_file_def containingRange_def snapshotAnchorHash_def
        snapshot_lines_def anchorHashForLines_def)
qed

lemma sample_call_eq:
  "sample_call code i branch =
    (let r = fresh_annotations (da_id ` set (activeAnnotations branch)) [sample_recorded code]
     in (Inr \<lparr>ad_recorded = r, ad_skippedDuplicates = 1 - length r,
          ad_active = card (da_id ` set (activeAnnotations branch)) + length r, ad_repository = ''o/r''\<rparr>,
         recordAnnotations i r))"
  by (simp add: sample_call_def annotate_diff_def assertInteractive_def sample_valid sample_recorded_def)
    (simp add: sample_snapshot_def)

lemma leaf_active [simp]: "activeAnnotations [leaf_entry] = []" "diffJournalBoundaryIndex [leaf_entry] = 0"
  by (simp_all add: activeAnnotations_def active_step_def journalEvent_def diffJournalBoundaryIndex_def
      indexed_def boundary_step_def)

theorem annotations_reach_the_review_witness:
  "activeAnnotations ([leaf_entry] @ snd (sample_call ''x'' ''m2'' [leaf_entry])) = [sample_recorded ''x'']
   \<and> (\<exists>kept. activeAnnotations ([leaf_entry] @ snd (sample_call ''x'' ''m2'' [leaf_entry])
        @ recordDiffCompleted ''m3'' ''ref'' (Some ''m1'')) = kept @ [sample_recorded ''x''])"
proof -
  have call: "annotate_diff pad_hash ''/r'' ''tui'' True (Inr (sample_snapshot ''x'')) False ''m2'' ([leaf_entry] @ [])
      [sample_item] = (Inr \<lparr>ad_recorded = [sample_recorded ''x''], ad_skippedDuplicates = 0, ad_active = 1,
        ad_repository = ''o/r''\<rparr>, snd (sample_call ''x'' ''m2'' [leaf_entry]))"
    using sample_call_eq [of "''x''" "''m2''" "[leaf_entry]"] by (simp add: sample_call_def Let_def)
  show ?thesis
    using annotations_reach_the_review [OF _ call, of "''m3''" "''ref''"]
    by (simp add: length_pad_hash annotate_checked_def item_checked_def sample_item_def sample_snapshot_def)
qed

text \<open>
  Annotating changed lines again with the same words: the call finds the id active and records
  nothing, so the one active annotation keeps the anchor of the old lines and the next review
  leaves it out as stale.
\<close>

lemma changed_lines_not_annotated:
  "fst (sample_call ''new'' ''m3'' [leaf_entry, event_entry ''m2'' (Recorded [sample_recorded ''old''])]) =
     Inr \<lparr>ad_recorded = [], ad_skippedDuplicates = 1, ad_active = 1, ad_repository = ''o/r''\<rparr>
   \<and> is_stale pad_hash (sample_snapshot ''new'') (sample_recorded ''old'')"
proof -
  let ?old = "sample_recorded ''old''"
  have ok: "event_ok (Recorded [?old])" by code_simp
  have "activeAnnotations ([leaf_entry] @ [event_entry ''m2'' (Recorded [?old])]) = [?old]"
    using ok by (subst record_active) (simp_all add: event_entry_def)
  moreover have "da_id (sample_recorded ''new'') = da_id ?old" by (simp add: sample_recorded_def annotation_of_def)
  moreover have "is_stale pad_hash (sample_snapshot ''new'') ?old" by code_simp
  ultimately show ?thesis by (simp add: sample_call_eq)
qed

end
