(* ===== verification/HubProcess.thy ===== *)
theory HubProcess
  imports Json Host
begin

text \<open>
  Finding and stopping the hub daemon (\<open>pi/core/hub/process.ts\<close>): its process id comes from the pid
  file or from the process table, and a process is signalled only when its command line is that of a
  hub on this socket. The process table, signals and files belong to the operating system.
\<close>

section \<open>Command lines\<close>

definition MAX_SAFE_INTEGER :: nat where "MAX_SAFE_INTEGER = 9007199254740991"

definition safe_pid :: "string \<Rightarrow> int option" where
  "safe_pid s = (let n = read_nat s in if n > 0 \<and> n \<le> MAX_SAFE_INTEGER then Some (int n) else None)"

definition parseDaemonPid :: "string \<Rightarrow> int option" where
  "parseDaemonPid raw =
     (let value = trim raw in if value \<noteq> [] \<and> list_all is_digit value then safe_pid value else None)"

definition line_end :: "char \<Rightarrow> bool" where
  "line_end c \<longleftrightarrow> c = CHR 0x0A \<or> c = CHR 0x0D"

text \<open>\<open>/^\s*(\d+)\s+(.+)\s*$/\<close>; the last case is a command of white space only.\<close>

definition ps_args :: "string \<Rightarrow> string option" where
  "ps_args rest =
     (let ws = takeWhile js_ws rest; body = dropWhile js_ws rest in
      if body \<noteq> [] then
        (if ws \<noteq> [] \<and> list_all js_ws (dropWhile (\<lambda>c. \<not> line_end c) body)
         then Some (takeWhile (\<lambda>c. \<not> line_end c) body) else None)
      else (let r = dropWhile line_end (rev ws) in if length r \<ge> 2 then Some [hd r] else None))"

definition parsePsLine :: "string \<Rightarrow> (int \<times> string) option" where
  "parsePsLine line =
     (let s = dropWhile js_ws line; pidText = takeWhile is_digit s in
      case ps_args (dropWhile is_digit s) of
        None \<Rightarrow> None
      | Some args \<Rightarrow>
          if pidText = [] then None
          else (case safe_pid pidText of None \<Rightarrow> None | Some pid \<Rightarrow> Some (pid, args)))"

text \<open>\<open>\s+\<close> and then the rest of a pattern that starts with another character.\<close>

definition after_ws :: "(string \<Rightarrow> bool) \<Rightarrow> string \<Rightarrow> bool" where
  "after_ws p s \<longleftrightarrow> takeWhile js_ws s \<noteq> [] \<and> p (dropWhile js_ws s)"

definition word_end :: "string \<Rightarrow> bool" where
  "word_end s = (case s of [] \<Rightarrow> True | c # _ \<Rightarrow> js_ws c)"

definition word_then :: "string \<Rightarrow> (string \<Rightarrow> bool) \<Rightarrow> string \<Rightarrow> bool" where
  "word_then w p s \<longleftrightarrow> startsWith s w \<and> p (drop (length w) s)"

definition hub_here :: "string \<Rightarrow> bool" where
  "hub_here = word_then ''basecamp'' (after_ws (\<lambda>s.
     word_then ''swarm'' (after_ws (word_then ''daemon'' word_end)) s \<or> word_then ''hub'' word_end s))"

text \<open>The command may start the line, follow white space, or end a path.\<close>

fun hub_scan :: "bool \<Rightarrow> string \<Rightarrow> bool" where
  "hub_scan at [] = (at \<and> hub_here [])"
| "hub_scan at (c # s) = (at \<and> hub_here (c # s) \<or> hub_scan (js_ws c \<or> c = CHR ''/'') s)"

definition isDaemonCommandForSocket :: "string \<Rightarrow> string \<Rightarrow> bool" where
  "isDaemonCommandForSocket args socketPath \<longleftrightarrow>
     hub_scan True args \<and> (str_includes args (''--uds '' @ socketPath) \<or> str_includes args (''--uds='' @ socketPath))"

section \<open>The operating system\<close>

record 'w proc_env =
  pr_self :: int
  pr_readFile :: "string \<Rightarrow> ('w, string) io"
  pr_psAll :: "('w, string) io"
  pr_psOne :: "int \<Rightarrow> ('w, string) io"
  pr_kill :: "int \<Rightarrow> string \<Rightarrow> ('w, unit) io"
  pr_sleep :: "nat \<Rightarrow> ('w, unit) io"
  pr_unlink :: "string \<Rightarrow> ('w, unit) io"

text \<open>The answer to a health check (\<open>http.ts\<close>), which the start of a daemon asks for.\<close>

datatype health_ping = PingOk jsnum | PingFail

text \<open>What happens to processes, and, for the start of a daemon, to its lock and its socket.\<close>

datatype proc_event =
    EvPsAll "string result"
  | EvPsOne int "string result"
  | EvProbe int bool
  | EvSignal int string
  | EvSleep nat
  | EvUnlink string
  | EvPing health_ping
  | EvLock "unit result"
  | EvRelease nat
  | EvSpawn "string list" "unit result"

type_synonym ('w, 'a) proc_io = "(('w, proc_event) tworld, 'a) io"

definition is_ok :: "'a result \<Rightarrow> bool" where
  "is_ok r = (case r of Inl _ \<Rightarrow> False | Inr _ \<Rightarrow> True)"

definition defaultPidExists :: "'w proc_env \<Rightarrow> int \<Rightarrow> ('w, bool) proc_io" where
  "defaultPidExists env pid =
     (if pid \<le> 0 then io_return False
      else io_catch (io_bind (traced (pr_kill env pid ''0'') (\<lambda>r. EvProbe pid (is_ok r))) (\<lambda>_. io_return True))
             (\<lambda>_. io_return False))"

definition defaultKillPid :: "'w proc_env \<Rightarrow> int \<Rightarrow> string \<Rightarrow> ('w, unit) proc_io" where
  "defaultKillPid env pid signal = traced (pr_kill env pid signal) (\<lambda>_. EvSignal pid signal)"

definition readDaemonPidFile :: "'w proc_env \<Rightarrow> string \<Rightarrow> ('w, int option) proc_io" where
  "readDaemonPidFile env pidPath =
     io_catch (io_bind (untraced (pr_readFile env pidPath)) (\<lambda>raw. io_return (parseDaemonPid raw)))
       (\<lambda>_. io_return None)"

fun find_daemon :: "int \<Rightarrow> string \<Rightarrow> string list \<Rightarrow> int option" where
  "find_daemon self socketPath [] = None"
| "find_daemon self socketPath (line # ls) =
     (case parsePsLine line of
        None \<Rightarrow> find_daemon self socketPath ls
      | Some (pid, args) \<Rightarrow>
          if pid \<noteq> self \<and> isDaemonCommandForSocket args socketPath then Some pid
          else find_daemon self socketPath ls)"

definition findDaemonPidByCommand :: "'w proc_env \<Rightarrow> string \<Rightarrow> ('w, int option) proc_io" where
  "findDaemonPidByCommand env socketPath =
     io_catch (io_bind (traced (pr_psAll env) EvPsAll) (\<lambda>out.
         io_return (find_daemon (pr_self env) socketPath (split_on (CHR 0x0A) out))))
       (\<lambda>_. io_return None)"

definition isDaemonPidForSocket :: "'w proc_env \<Rightarrow> int \<Rightarrow> string \<Rightarrow> ('w, bool) proc_io" where
  "isDaemonPidForSocket env pid socketPath =
     io_catch (io_bind (traced (pr_psOne env pid) (EvPsOne pid)) (\<lambda>out.
         io_return (list_ex (\<lambda>line. isDaemonCommandForSocket line socketPath) (split_on (CHR 0x0A) out))))
       (\<lambda>_. io_return False)"

definition resolveDaemonPid :: "'w proc_env \<Rightarrow> string \<Rightarrow> string \<Rightarrow> ('w, int option) proc_io" where
  "resolveDaemonPid env socketPath pidPath =
     io_bind (readDaemonPidFile env pidPath) (\<lambda>pid.
     io_bind (case pid of
         None \<Rightarrow> io_return False
       | Some p \<Rightarrow> if p = pr_self env then io_return False else isDaemonPidForSocket env p socketPath) (\<lambda>known.
     if known then io_return pid
     else io_bind (findDaemonPidByCommand env socketPath) (\<lambda>discovered.
       io_return (if discovered \<noteq> Some (pr_self env) then discovered else None))))"

definition unlinkIfExists :: "'w proc_env \<Rightarrow> string \<Rightarrow> ('w, unit) proc_io" where
  "unlinkIfExists env p = io_ignore (traced (pr_unlink env p) (\<lambda>_. EvUnlink p))"

text \<open>The error a system call throws is its code.\<close>

definition signalDaemon :: "'w proc_env \<Rightarrow> int \<Rightarrow> string \<Rightarrow> ('w, unit) proc_io" where
  "signalDaemon env pid signal =
     io_catch (defaultKillPid env pid signal)
       (\<lambda>code. if code \<noteq> ''ESRCH'' then io_throw code else io_return ())"

definition DEFAULT_DAEMON_STOP_TIMEOUT_MS :: nat where "DEFAULT_DAEMON_STOP_TIMEOUT_MS = 2000"

fun poll_exit :: "'w proc_env \<Rightarrow> int \<Rightarrow> nat \<Rightarrow> nat \<Rightarrow> ('w, bool) proc_io" where
  "poll_exit env pid delayMs 0 = io_bind (defaultPidExists env pid) (\<lambda>alive. io_return (\<not> alive))"
| "poll_exit env pid delayMs (Suc attempts) =
     io_bind (defaultPidExists env pid) (\<lambda>alive.
       if \<not> alive then io_return True
       else io_bind (traced (pr_sleep env delayMs) (\<lambda>_. EvSleep delayMs)) (\<lambda>_. poll_exit env pid delayMs attempts))"

definition poll_attempts :: "nat \<Rightarrow> nat" where
  "poll_attempts pollMs =
     (let delayMs = max 1 pollMs in max 1 ((DEFAULT_DAEMON_STOP_TIMEOUT_MS + delayMs - 1) div delayMs))"

definition waitForPidExit :: "'w proc_env \<Rightarrow> int \<Rightarrow> nat \<Rightarrow> ('w, bool) proc_io" where
  "waitForPidExit env pid pollMs = poll_exit env pid (max 1 pollMs) (poll_attempts pollMs)"

definition terminateDaemon :: "'w proc_env \<Rightarrow> string \<Rightarrow> string \<Rightarrow> nat \<Rightarrow> ('w, unit) proc_io" where
  "terminateDaemon env socketPath pidPath pollMs =
     io_bind (resolveDaemonPid env socketPath pidPath) (\<lambda>pid.
     io_bind (case pid of
         None \<Rightarrow> io_return ()
       | Some p \<Rightarrow> io_bind (defaultPidExists env p) (\<lambda>alive.
           if \<not> alive then io_return ()
           else io_bind (signalDaemon env p ''SIGTERM'') (\<lambda>_.
             io_bind (waitForPidExit env p pollMs) (\<lambda>exited.
               if exited then io_return ()
               else io_bind (signalDaemon env p ''SIGKILL'') (\<lambda>_.
                 io_bind (waitForPidExit env p pollMs) (\<lambda>_. io_return ())))))) (\<lambda>_.
     io_bind (unlinkIfExists env socketPath) (\<lambda>_. unlinkIfExists env pidPath)))"

section \<open>Who is signalled\<close>

text \<open>The trace shows this process to be a hub on the socket.\<close>

definition shown_hub :: "int \<Rightarrow> string \<Rightarrow> int \<Rightarrow> proc_event list \<Rightarrow> bool" where
  "shown_hub self socketPath pid l \<longleftrightarrow> pid \<noteq> self \<and>
     ((\<exists>out. EvPsOne pid (Inr out) \<in> set l
        \<and> (\<exists>line \<in> set (split_on (CHR 0x0A) out). isDaemonCommandForSocket line socketPath))
      \<or> (\<exists>out. EvPsAll (Inr out) \<in> set l
        \<and> (\<exists>line \<in> set (split_on (CHR 0x0A) out). \<exists>args.
             parsePsLine line = Some (pid, args) \<and> isDaemonCommandForSocket args socketPath)))"

definition just_alive :: "int \<Rightarrow> proc_event list \<Rightarrow> bool" where
  "just_alive pid l \<longleftrightarrow> l \<noteq> [] \<and> last l = EvProbe pid True"

definition signal_grounds :: "int \<Rightarrow> string \<Rightarrow> proc_event list \<Rightarrow> proc_event \<Rightarrow> bool" where
  "signal_grounds self socketPath l e =
     (case e of
        EvSignal pid signal \<Rightarrow> shown_hub self socketPath pid l \<and> just_alive pid l
          \<and> (signal \<noteq> ''SIGTERM'' \<longrightarrow> EvSignal pid ''SIGTERM'' \<in> set l)
      | _ \<Rightarrow> True)"

abbreviation signals_ok :: "int \<Rightarrow> string \<Rightarrow> proc_event list \<Rightarrow> bool" where
  "signals_ok self socketPath \<equiv> justified (signal_grounds self socketPath)"

lemma signals_ok_other [simp]:
  "signal_grounds self s l (EvPsAll r)" "signal_grounds self s l (EvPsOne p q)" "signal_grounds self s l (EvProbe p b)"
  "signal_grounds self s l (EvSleep d)" "signal_grounds self s l (EvUnlink f)"
  "signal_grounds self s l (EvPing q')" "signal_grounds self s l (EvLock u)" "signal_grounds self s l (EvRelease n)"
  "signal_grounds self s l (EvSpawn as' v)"
  by (simp_all add: signal_grounds_def)

lemma lasting_shown [simp]: "lasting (shown_hub self s pid)"
  unfolding lasting_def shown_hub_def set_append by blast

lemma find_daemon_spec:
  "find_daemon self s ls = Some pid \<Longrightarrow> pid \<noteq> self \<and>
   (\<exists>line \<in> set ls. \<exists>args. parsePsLine line = Some (pid, args) \<and> isDaemonCommandForSocket args s)"
  by (induction ls) (force split: option.splits prod.splits if_splits)+

lemma hoare_error: "hoare P m Q E \<Longrightarrow> (\<And>w. E w \<Longrightarrow> E' w) \<Longrightarrow> hoare P m Q E'"
  by (erule hoare_weaken)

text \<open>\<open>keeping J K\<close>: the two assertions together, on the trace.\<close>

definition keeping :: "('e list \<Rightarrow> bool) \<Rightarrow> ('e list \<Rightarrow> bool) \<Rightarrow> 'e list \<Rightarrow> bool" where
  "keeping J K l \<longleftrightarrow> J l \<and> K l"

lemma exists_keeps:
  assumes "lasting K"
  shows "hoare (on_log (keeping (signals_ok self s) K)) (defaultPidExists env pid)
    (\<lambda>alive. on_log (\<lambda>l. keeping (signals_ok self s) K l \<and> (alive \<longrightarrow> just_alive pid l)))
    (on_log (keeping (signals_ok self s) K))"
  unfolding defaultPidExists_def
  by (rule hoareI)
    (auto simp: io_simps keeping_def just_alive_def is_ok_def lastingD [OF assms] split: if_splits sum.splits)

lemma sleep_keeps:
  assumes "lasting K"
  shows "hoare (on_log (keeping (signals_ok self s) K)) (traced (pr_sleep env d) (\<lambda>_. EvSleep d))
    (\<lambda>_. on_log (keeping (signals_ok self s) K)) (on_log (keeping (signals_ok self s) K))"
  by (rule hoareI) (auto simp: io_simps keeping_def lastingD [OF assms])

lemma poll_keeps:
  assumes "lasting K"
  shows "hoare (on_log (keeping (signals_ok self s) K)) (poll_exit env pid d n)
    (\<lambda>exited. on_log (\<lambda>l. keeping (signals_ok self s) K l \<and> (\<not> exited \<longrightarrow> just_alive pid l)))
    (on_log (keeping (signals_ok self s) K))"
proof (induction n)
  case 0
  show ?case unfolding poll_exit.simps
    by (rule hoare_bind [OF exists_keeps [OF assms]]) (auto intro!: hoare_return)
next
  case (Suc n)
  let ?post = "\<lambda>exited. on_log (\<lambda>l. keeping (signals_ok self s) K l \<and> (\<not> exited \<longrightarrow> just_alive pid l))"
  have again: "hoare (on_log (keeping (signals_ok self s) K))
      (io_bind (traced (pr_sleep env d) (\<lambda>_. EvSleep d)) (\<lambda>_. poll_exit env pid d n)) ?post
      (on_log (keeping (signals_ok self s) K))"
    by (rule hoare_bind [OF sleep_keeps [OF assms] Suc])
  show ?case unfolding poll_exit.simps
    by (rule hoare_bind [OF exists_keeps [OF assms]], rule hoare_if)
      (auto intro!: hoare_return intro: hoare_weaken [OF again])
qed

lemma signal_keeps:
  assumes K: "lasting K" and hub: "\<And>l. K l \<Longrightarrow> shown_hub self s pid l"
    and first: "\<And>l. K l \<Longrightarrow> signal \<noteq> ''SIGTERM'' \<Longrightarrow> EvSignal pid ''SIGTERM'' \<in> set l"
  shows "hoare (on_log (\<lambda>l. keeping (signals_ok self s) K l \<and> just_alive pid l)) (signalDaemon env pid signal)
    (\<lambda>_. on_log (keeping (signals_ok self s) (\<lambda>l. K l \<and> EvSignal pid signal \<in> set l)))
    (on_log (signals_ok self s))"
  unfolding signalDaemon_def defaultKillPid_def
  by (rule hoareI)
    (auto simp: io_simps keeping_def signal_grounds_def hub first lastingD [OF K] split: sum.splits if_splits)

lemma resolve_keeps:
  "hoare (on_log (signals_ok self s)) (resolveDaemonPid env s p)
    (\<lambda>pid. on_log (\<lambda>l. signals_ok self s l \<and> (\<forall>q. pid = Some q \<longrightarrow> shown_hub (pr_self env) s q l)))
    (on_log (signals_ok self s))"
proof -
  let ?J = "signals_ok self s"
  have pidfile: "hoare (on_log ?J) (readDaemonPidFile env p) (\<lambda>_. on_log ?J) (on_log ?J)"
    unfolding readDaemonPidFile_def by (rule hoareI) (auto simp: io_simps split: sum.splits)
  have one: "hoare (on_log ?J) (isDaemonPidForSocket env q s)
      (\<lambda>known. on_log (\<lambda>l. ?J l \<and> (known \<and> q \<noteq> pr_self env \<longrightarrow> shown_hub (pr_self env) s q l))) (on_log ?J)" for q
    unfolding isDaemonPidForSocket_def
    by (rule hoareI) (auto simp: io_simps shown_hub_def list_ex_iff split: sum.splits)
  have all: "hoare (on_log ?J) (findDaemonPidByCommand env s)
      (\<lambda>pid. on_log (\<lambda>l. ?J l \<and> (\<forall>q. pid = Some q \<longrightarrow> shown_hub (pr_self env) s q l))) (on_log ?J)"
    unfolding findDaemonPidByCommand_def
    by (rule hoareI) (auto simp: io_simps shown_hub_def dest: find_daemon_spec split: sum.splits)
  have known: "hoare (on_log ?J)
      (case pid of None \<Rightarrow> io_return False
       | Some q \<Rightarrow> if q = pr_self env then io_return False else isDaemonPidForSocket env q s)
      (\<lambda>known. on_log (\<lambda>l. ?J l \<and> (known \<longrightarrow> (\<exists>q. pid = Some q \<and> shown_hub (pr_self env) s q l)))) (on_log ?J)" for pid
    by (cases pid) (auto intro!: hoare_return intro: hoare_weaken [OF one])
  have found: "hoare (on_log ?J)
      (io_bind (findDaemonPidByCommand env s) (\<lambda>discovered.
         io_return (if discovered \<noteq> Some (pr_self env) then discovered else None)))
      (\<lambda>pid. on_log (\<lambda>l. ?J l \<and> (\<forall>q. pid = Some q \<longrightarrow> shown_hub (pr_self env) s q l))) (on_log ?J)"
    by (rule hoare_bind [OF all]) (auto intro!: hoare_return)
  show ?thesis
    unfolding resolveDaemonPid_def
    by (rule hoare_bind [OF pidfile], rule hoare_bind [OF known], rule hoare_if)
      (auto intro!: hoare_return hoare_weaken [OF found])
qed

lemma unlink_keeps:
  "hoare (on_log (signals_ok self s)) (unlinkIfExists env f) (\<lambda>_. on_log (signals_ok self s)) (on_log (signals_ok self s))"
  unfolding unlinkIfExists_def by (rule hoareI) (auto simp: io_simps io_ignore_def split: sum.splits)

lemma terminate_keeps:
  "hoare (on_log (signals_ok (pr_self env) socketPath)) (terminateDaemon env socketPath pidPath pollMs)
    (\<lambda>_. on_log (signals_ok (pr_self env) socketPath)) (on_log (signals_ok (pr_self env) socketPath))"
proof -
  let ?J = "signals_ok (pr_self env) socketPath"
  have stop: "hoare (on_log (\<lambda>l. ?J l \<and> shown_hub (pr_self env) socketPath q l))
      (io_bind (defaultPidExists env q) (\<lambda>alive.
           if \<not> alive then io_return ()
           else io_bind (signalDaemon env q ''SIGTERM'') (\<lambda>_.
             io_bind (waitForPidExit env q pollMs) (\<lambda>exited.
               if exited then io_return ()
               else io_bind (signalDaemon env q ''SIGKILL'') (\<lambda>_.
                 io_bind (waitForPidExit env q pollMs) (\<lambda>_. io_return ()))))))
      (\<lambda>_. on_log ?J) (on_log ?J)" for q
  proof -
    let ?K = "shown_hub (pr_self env) socketPath q"
    let ?T = "\<lambda>l. ?K l \<and> EvSignal q ''SIGTERM'' \<in> set l"
    let ?U = "\<lambda>l. ?T l \<and> EvSignal q ''SIGKILL'' \<in> set l"
    have T: "lasting ?T" and U: "lasting ?U" using lasting_shown by (auto simp: lasting_def)
    note weak = hoare_error [where E' = "on_log ?J"]
    note poll = poll_keeps [where self = "pr_self env" and s = socketPath and env = env and pid = q]
    have last: "hoare (on_log (keeping ?J ?U)) (io_bind (waitForPidExit env q pollMs) (\<lambda>_. io_return ())) (\<lambda>_. on_log ?J) (on_log ?J)"
      unfolding waitForPidExit_def
      by (rule hoare_bind [OF weak [OF poll [OF U]]]) (auto simp: keeping_def intro!: hoare_return)
    have kill: "hoare (on_log (\<lambda>l. keeping ?J ?T l \<and> just_alive q l))
        (io_bind (signalDaemon env q ''SIGKILL'') (\<lambda>_. io_bind (waitForPidExit env q pollMs) (\<lambda>_. io_return ())))
        (\<lambda>_. on_log ?J) (on_log ?J)"
      by (rule hoare_bind [OF signal_keeps [OF T] last]) auto
    have wait: "hoare (on_log (keeping ?J ?T)) (io_bind (waitForPidExit env q pollMs) (\<lambda>exited.
               if exited then io_return ()
               else io_bind (signalDaemon env q ''SIGKILL'') (\<lambda>_.
                 io_bind (waitForPidExit env q pollMs) (\<lambda>_. io_return ())))) (\<lambda>_. on_log ?J) (on_log ?J)"
    proof (rule hoare_bind)
      show "hoare (on_log (keeping ?J ?T)) (waitForPidExit env q pollMs)
          (\<lambda>exited. on_log (\<lambda>l. keeping ?J ?T l \<and> (\<not> exited \<longrightarrow> just_alive q l))) (on_log ?J)"
        unfolding waitForPidExit_def by (rule weak [OF poll [OF T]]) (simp add: keeping_def)
    qed (rule hoare_if, (rule hoare_return, simp add: keeping_def), rule hoare_weaken [OF kill], simp_all)
    have sigterm: "hoare (on_log (\<lambda>l. keeping ?J ?K l \<and> just_alive q l))
        (io_bind (signalDaemon env q ''SIGTERM'') (\<lambda>_. io_bind (waitForPidExit env q pollMs) (\<lambda>exited.
               if exited then io_return ()
               else io_bind (signalDaemon env q ''SIGKILL'') (\<lambda>_.
                 io_bind (waitForPidExit env q pollMs) (\<lambda>_. io_return ()))))) (\<lambda>_. on_log ?J) (on_log ?J)"
      by (rule hoare_bind [OF signal_keeps [OF lasting_shown] wait]) auto
    have "hoare (on_log (keeping ?J ?K)) (defaultPidExists env q)
        (\<lambda>alive. on_log (\<lambda>l. keeping ?J ?K l \<and> (alive \<longrightarrow> just_alive q l))) (on_log ?J)"
      by (rule weak [OF exists_keeps [where self = "pr_self env" and s = socketPath, OF lasting_shown [of "pr_self env" socketPath q]]]) (auto simp: keeping_def)
    from hoare_bind [OF this] show ?thesis
      unfolding keeping_def
      by (rule hoare_weaken) (auto intro!: hoare_if hoare_return intro: hoare_weaken [OF sigterm] simp: keeping_def)
  qed
  show ?thesis
    unfolding terminateDaemon_def
    by (rule hoare_bind [OF resolve_keeps], rule hoare_bind [where R = "\<lambda>_. on_log ?J"])
      (auto intro!: hoare_bind [OF unlink_keeps unlink_keeps] intro: hoare_weaken [OF stop] hoare_return split: option.split)
qed


section \<open>How long stopping takes\<close>

definition slept :: "proc_event list \<Rightarrow> nat" where
  "slept l = sum_list (map (\<lambda>e. case e of EvSleep d \<Rightarrow> d | _ \<Rightarrow> 0) l)"

lemma slept_append [simp]: "slept (l @ [e]) = slept l + (case e of EvSleep d \<Rightarrow> d | _ \<Rightarrow> 0)"
  by (simp add: slept_def)

text \<open>The program sleeps for at most \<open>c\<close> milliseconds.\<close>

definition spends :: "nat \<Rightarrow> ('w, 'a) proc_io \<Rightarrow> bool" where
  "spends c m \<longleftrightarrow> (\<forall>t. slept (tw_log (snd (m t))) \<le> slept (tw_log t) + c)"

lemma spends_bind: "spends a m \<Longrightarrow> (\<And>x. spends b (f x)) \<Longrightarrow> spends (a + b) (io_bind m f)"
  unfolding spends_def
proof
  fix t assume m: "\<forall>t. slept (tw_log (snd (m t))) \<le> slept (tw_log t) + a"
    and f: "\<And>x. \<forall>t. slept (tw_log (snd (f x t))) \<le> slept (tw_log t) + b"
  obtain r u where run: "m t = (r, u)" by fastforce
  have "slept (tw_log u) \<le> slept (tw_log t) + a" using m [rule_format, of t] run by simp
  moreover have "slept (tw_log (snd (f x u))) \<le> slept (tw_log u) + b" for x using f [of x] by simp
  ultimately show "slept (tw_log (snd (io_bind m f t))) \<le> slept (tw_log t) + (a + b)"
    using run by (cases r) (force simp: io_simps intro: order_trans)+
qed

lemma spends_bind_free:
  "spends 0 m \<Longrightarrow> (\<And>x. spends b (f x)) \<Longrightarrow> spends b (io_bind m f)"
  "spends b n \<Longrightarrow> (\<And>x. spends 0 (g x)) \<Longrightarrow> spends b (io_bind n g)"
  using spends_bind [of 0 m b f] spends_bind [of b n 0 g] by simp_all

lemma spends_more: "spends a m \<Longrightarrow> a \<le> b \<Longrightarrow> spends b m"
  unfolding spends_def by (meson add_le_cancel_left order_trans)

lemma spends_free: "spends 0 m \<Longrightarrow> spends b m"
  by (erule spends_more) simp

lemma spends_if: "spends b m \<Longrightarrow> spends b n \<Longrightarrow> spends b (if c then m else n)"
  by simp

lemma spends_nothing:
  "spends 0 (io_return x)" "spends 0 (untraced m)"
  "spends 0 (defaultPidExists env pid)" "spends 0 (signalDaemon env pid sig)"
  "spends 0 (unlinkIfExists env f)" "spends 0 (readDaemonPidFile env f)"
  "spends 0 (findDaemonPidByCommand env s)" "spends 0 (isDaemonPidForSocket env pid s)"
  by (auto simp: spends_def io_simps defaultPidExists_def signalDaemon_def defaultKillPid_def unlinkIfExists_def
      readDaemonPidFile_def findDaemonPidByCommand_def isDaemonPidForSocket_def io_ignore_def split: sum.splits)

lemma spends_poll: "spends (n * d) (poll_exit env pid d n)"
proof (induction n)
  case 0
  show ?case using spends_bind [OF spends_nothing(3) spends_nothing(1)] by simp
next
  case (Suc n)
  have "spends d (traced (pr_sleep env d) (\<lambda>_. EvSleep d))" by (simp add: spends_def io_simps)
  from spends_bind [OF this Suc]
  have "spends (d + n * d) (if \<not> alive then io_return True
      else io_bind (traced (pr_sleep env d) (\<lambda>_. EvSleep d)) (\<lambda>_. poll_exit env pid d n))" for alive
    by (auto intro: spends_more [OF spends_nothing(1)])
  from spends_bind [OF spends_nothing(3) this] show ?case by simp
qed

lemma poll_attempts_bound: "poll_attempts pollMs * max 1 pollMs \<le> 1999 + max 1 pollMs"
proof -
  let ?d = "max 1 pollMs"
  have "(1999 + ?d) div ?d * ?d \<le> 1999 + ?d" by (rule div_times_less_eq_dividend)
  then show ?thesis by (simp add: poll_attempts_def DEFAULT_DAEMON_STOP_TIMEOUT_MS_def Let_def max_def)
qed

lemma spends_wait: "spends (1999 + max 1 pollMs) (waitForPidExit env pid pollMs)"
  unfolding waitForPidExit_def by (rule spends_more [OF spends_poll poll_attempts_bound])

text \<open>
  Stopping the daemon takes a bounded time whatever the process does: it sleeps for at most two
  rounds of 1999 milliseconds and one poll interval, one round after \<open>SIGTERM\<close> and one after \<open>SIGKILL\<close>.
\<close>

theorem terminate_waits_two_rounds:
  "slept (tw_log (snd (terminateDaemon env socketPath pidPath pollMs \<lparr>tw_host = w, tw_log = []\<rparr>)))
     \<le> 2 * (1999 + max 1 pollMs)"
proof -
  let ?W = "1999 + max 1 pollMs"
  have resolve: "spends 0 (resolveDaemonPid env socketPath pidPath)"
    unfolding resolveDaemonPid_def
    by (intro spends_bind_free(1) spends_nothing spends_if) (simp add: spends_nothing split: option.split)
  have kill: "spends ?W (io_bind (signalDaemon env p ''SIGKILL'') (\<lambda>_.
      io_bind (waitForPidExit env p pollMs) (\<lambda>_. io_return ())))" for p
    by (intro spends_bind_free(1) spends_bind_free(2) spends_nothing spends_wait)
  have round: "spends (?W + ?W) (io_bind (waitForPidExit env p pollMs) (\<lambda>exited. if exited then io_return ()
      else io_bind (signalDaemon env p ''SIGKILL'') (\<lambda>_. io_bind (waitForPidExit env p pollMs) (\<lambda>_. io_return ()))))" for p
    by (rule spends_bind [OF spends_wait spends_if [OF spends_free [OF spends_nothing(1)] kill]])
  have stop: "spends (?W + ?W) (io_bind (defaultPidExists env p) (\<lambda>alive.
      if \<not> alive then io_return () else io_bind (signalDaemon env p ''SIGTERM'') (\<lambda>_.
      io_bind (waitForPidExit env p pollMs) (\<lambda>exited. if exited then io_return ()
        else io_bind (signalDaemon env p ''SIGKILL'') (\<lambda>_. io_bind (waitForPidExit env p pollMs) (\<lambda>_. io_return ()))))))" for p
    by (rule spends_bind_free(1) [OF spends_nothing(3) spends_if [OF spends_free [OF spends_nothing(1)]
          spends_bind_free(1) [OF spends_nothing(4) round]]])
  have "spends (?W + ?W) (case pid of None \<Rightarrow> io_return () | Some p \<Rightarrow> io_bind (defaultPidExists env p) (\<lambda>alive.
      if \<not> alive then io_return () else io_bind (signalDaemon env p ''SIGTERM'') (\<lambda>_.
      io_bind (waitForPidExit env p pollMs) (\<lambda>exited. if exited then io_return ()
        else io_bind (signalDaemon env p ''SIGKILL'') (\<lambda>_. io_bind (waitForPidExit env p pollMs) (\<lambda>_. io_return ()))))))" for pid
    using stop by (cases pid) (simp_all add: spends_free spends_nothing)
  then have "spends (?W + ?W) (terminateDaemon env socketPath pidPath pollMs)"
    unfolding terminateDaemon_def
    by (intro spends_bind_free(1) [OF resolve] spends_bind_free(2)) (simp_all add: spends_bind_free(1) spends_nothing)
  then show ?thesis unfolding spends_def by (elim allE [where x = "\<lparr>tw_host = w, tw_log = []\<rparr>"]) (simp add: slept_def)
qed

text \<open>The socket is matched as a prefix: a hub on a socket whose path extends this one's is taken for it.\<close>

lemma longer_socket_matches:
  "isDaemonCommandForSocket ''/usr/bin/basecamp hub --uds /s/daemon.sock2'' ''/s/daemon.sock''"
  by code_simp

end
