(* ===== verification/HubConnect.thy ===== *)
theory HubConnect
  imports Json
begin

text \<open>
  The connection to the hub daemon (\<open>pi/core/hub/connection.ts\<close>, \<open>protocol/index.ts\<close>): the frame codec,
  the registration handshake and keep-alive of a socket as a machine driven by socket events, and
  \<open>waitForFrame\<close>. A frame is its JSON object; sockets and JSON text belong to the system.
\<close>

section \<open>Frames\<close>

definition PROTOCOL_VERSION :: int where "PROTOCOL_VERSION = 28"

abbreviation protocol_json :: json where "protocol_json \<equiv> JNum (IntNum PROTOCOL_VERSION)"

definition FRAME_TYPES :: "string list" where
  "FRAME_TYPES =
     [''register'', ''registered'', ''session_metadata'', ''error'', ''dispatch'', ''dispatch_ack'', ''telemetry'',
      ''result_report'', ''wait'', ''wait_result'', ''list_agents'', ''list_agents_result'', ''peer_message'',
      ''peer_message_ack'', ''peer_message_delivery'', ''peer_message_delivery_ack'', ''message_status'',
      ''message_status_result'', ''cancel'', ''cancel_ack'', ''create_workstream'', ''create_workstream_ack'',
      ''attach_workstream_agent'', ''attach_workstream_agent_ack'', ''update_workstream'', ''update_workstream_ack'',
      ''revise_workstream'', ''revise_workstream_ack'', ''ping'', ''pong'']"

text \<open>Why a payload is no frame; the texts print arbitrary values.\<close>

datatype frame_error =
    NotJson string
  | NotObject
  | UnknownType "json option"
  | VersionMismatch "json option"

definition encodeFrame :: "(string \<times> json) list \<Rightarrow> json" where
  "encodeFrame kvs = JObj (set_key ''v'' protocol_json kvs)"

text \<open>\<open>parsed\<close> is what \<open>JSON.parse\<close> makes of the payload.\<close>

definition decodeFrame :: "json result \<Rightarrow> frame_error + json" where
  "decodeFrame parsed =
     (case parsed of
        Inl e \<Rightarrow> Inl (NotJson e)
      | Inr v \<Rightarrow>
          (case v of
             JArr _ \<Rightarrow> Inl (UnknownType None)
           | JObj kvs \<Rightarrow>
               if \<not> is_string (field v ''type'') \<or> str_of (field v ''type'') \<notin> set FRAME_TYPES
               then Inl (UnknownType (field v ''type''))
               else if field v ''v'' \<noteq> Some protocol_json then Inl (VersionMismatch (field v ''v''))
               else Inr v
           | _ \<Rightarrow> Inl NotObject))"

definition frame_type :: "json \<Rightarrow> string" where
  "frame_type f = str_of (field f ''type'')"

section \<open>The machine\<close>

datatype conn_error =
    Undecodable frame_error
  | SocketFailed string
  | ConnectionClosed int string
  | IncompatibleProtocol "json option"
  | RegistrationFailed "json option" "json option"

text \<open>A handler of frames or of the close: another part's, or that of a pending \<open>waitForFrame\<close>.\<close>

datatype handler = Listener nat | Waiter nat

datatype wait_outcome =
    Pending
  | Resolved json
  | RejectedAborted
  | RejectedClosed int string

record waiter =
  wa_type :: string
  wa_accepts :: "json \<Rightarrow> bool"
  wa_outcome :: wait_outcome

record conn_state =
  cn_outcome :: "(conn_error + unit) option"
  cn_settled :: bool
  cn_registered :: bool
  cn_sent :: "json list"
  cn_closed :: bool
  cn_handlers :: "string \<Rightarrow> handler list"
  cn_closeHandlers :: "handler list"
  cn_waiters :: "nat \<Rightarrow> waiter option"
  cn_heard :: "(nat \<times> json) list"
  cn_heardClose :: "nat list"

definition conn_init :: conn_state where
  "conn_init = \<lparr>cn_outcome = None, cn_settled = False, cn_registered = False, cn_sent = [], cn_closed = False,
     cn_handlers = (\<lambda>_. []), cn_closeHandlers = [], cn_waiters = (\<lambda>_. None), cn_heard = [], cn_heardClose = []\<rparr>"

text \<open>A promise keeps the first outcome.\<close>

definition settle :: "conn_error + unit \<Rightarrow> conn_state \<Rightarrow> conn_state" where
  "settle r c = c\<lparr>cn_settled := True, cn_outcome := (case cn_outcome c of None \<Rightarrow> Some r | Some r' \<Rightarrow> Some r')\<rparr>"

definition on_error :: "conn_error \<Rightarrow> conn_state \<Rightarrow> conn_state" where
  "on_error e c = (if \<not> cn_settled c then settle (Inl e) c else c)"

definition ws_send :: "json \<Rightarrow> conn_state \<Rightarrow> conn_state" where
  "ws_send f c = c\<lparr>cn_sent := cn_sent c @ [f]\<rparr>"

definition add_handler :: "handler \<Rightarrow> handler list \<Rightarrow> handler list" where
  "add_handler h hs = (if h \<in> set hs then hs else hs @ [h])"

definition drop_handler :: "handler \<Rightarrow> handler list \<Rightarrow> handler list" where
  "drop_handler h hs = filter (\<lambda>x. x \<noteq> h) hs"

definition finish_wait :: "nat \<Rightarrow> wait_outcome \<Rightarrow> conn_state \<Rightarrow> conn_state" where
  "finish_wait i r c =
     (case cn_waiters c i of
        None \<Rightarrow> c
      | Some w \<Rightarrow>
          if wa_outcome w \<noteq> Pending then c
          else c\<lparr>cn_handlers := (cn_handlers c)(wa_type w := drop_handler (Waiter i) (cn_handlers c (wa_type w))),
                 cn_closeHandlers := drop_handler (Waiter i) (cn_closeHandlers c),
                 cn_waiters := (cn_waiters c)(i \<mapsto> w\<lparr>wa_outcome := r\<rparr>)\<rparr>)"

text \<open>A handler gets a frame, unless an earlier one of the round has removed it.\<close>

definition call_frame :: "json \<Rightarrow> conn_state \<Rightarrow> handler \<Rightarrow> conn_state" where
  "call_frame f c h =
     (if h \<notin> set (cn_handlers c (frame_type f)) then c
      else (case h of
          Listener i \<Rightarrow> c\<lparr>cn_heard := cn_heard c @ [(i, f)]\<rparr>
        | Waiter i \<Rightarrow>
            (case cn_waiters c i of
               Some w \<Rightarrow> if wa_accepts w f then finish_wait i (Resolved f) c else c
             | None \<Rightarrow> c)))"

definition call_close :: "int \<Rightarrow> string \<Rightarrow> conn_state \<Rightarrow> handler \<Rightarrow> conn_state" where
  "call_close code reason c h =
     (if h \<notin> set (cn_closeHandlers c) then c
      else (case h of
          Listener i \<Rightarrow> c\<lparr>cn_heardClose := cn_heardClose c @ [i]\<rparr>
        | Waiter i \<Rightarrow> finish_wait i (RejectedClosed code reason) c))"

definition on_close :: "int \<Rightarrow> string \<Rightarrow> conn_state \<Rightarrow> conn_state" where
  "on_close code reason c =
     (let c' = foldl (call_close code reason) c (cn_closeHandlers c)
      in if \<not> cn_settled c' \<or> \<not> cn_registered c' then settle (Inl (ConnectionClosed code reason)) c' else c')"

definition pong_frame :: "json \<Rightarrow> json" where
  "pong_frame f = encodeFrame ([(''type'', JStr ''pong'')] @ (case field f ''nonce'' of Some n \<Rightarrow> [(''nonce'', n)] | None \<Rightarrow> []))"

definition on_frame :: "json \<Rightarrow> conn_state \<Rightarrow> conn_state" where
  "on_frame f c =
     (if frame_type f = ''ping'' then ws_send (pong_frame f) c
      else if frame_type f = ''pong'' then c
      else if \<not> cn_registered c then
        (if frame_type f = ''registered'' then
           (let c' = c\<lparr>cn_registered := True\<rparr> in
            if field f ''protocol'' \<noteq> Some protocol_json then on_error (IncompatibleProtocol (field f ''protocol'')) c'
            else if \<not> cn_settled c' then settle (Inr ()) c' else c')
         else if frame_type f = ''error''
           then on_error (RegistrationFailed (field f ''code'') (field f ''message'')) c
         else c)
      else foldl (call_frame f) c (cn_handlers c (frame_type f)))"

definition on_message :: "json result \<Rightarrow> conn_state \<Rightarrow> conn_state" where
  "on_message raw c =
     (case decodeFrame raw of Inl e \<Rightarrow> on_error (Undecodable e) c | Inr f \<Rightarrow> on_frame f c)"

text \<open>\<open>waitForFrame\<close> on a connection; \<open>i\<close> names the wait.\<close>

definition wait_for_frame :: "nat \<Rightarrow> string \<Rightarrow> (json \<Rightarrow> bool) \<Rightarrow> bool \<Rightarrow> conn_state \<Rightarrow> conn_state" where
  "wait_for_frame i ty accepts aborted c =
     (if aborted then c\<lparr>cn_waiters := (cn_waiters c)(i \<mapsto> \<lparr>wa_type = ty, wa_accepts = accepts, wa_outcome = RejectedAborted\<rparr>)\<rparr>
      else c\<lparr>cn_handlers := (cn_handlers c)(ty := add_handler (Waiter i) (cn_handlers c ty)),
             cn_closeHandlers := add_handler (Waiter i) (cn_closeHandlers c),
             cn_waiters := (cn_waiters c)(i \<mapsto> \<lparr>wa_type = ty, wa_accepts = accepts, wa_outcome = Pending\<rparr>)\<rparr>)"

datatype conn_event =
    SocketOpen json
  | SocketMessage "json result"
  | SocketError string
  | SocketClosed int string
  | Subscribe nat string
  | Unsubscribe nat string
  | SubscribeClose nat
  | UnsubscribeClose nat
  | Send json
  | CloseSocket
  | Wait nat string "json \<Rightarrow> bool" bool
  | Abort nat

text \<open>\<open>SocketOpen\<close> carries the register frame of the identity.\<close>

fun conn_step :: "conn_state \<Rightarrow> conn_event \<Rightarrow> conn_state" where
  "conn_step c (SocketOpen register) = ws_send register c"
| "conn_step c (SocketMessage raw) = on_message raw c"
| "conn_step c (SocketError e) = on_error (SocketFailed e) c"
| "conn_step c (SocketClosed code reason) = on_close code reason c"
| "conn_step c (Subscribe i ty) =
     c\<lparr>cn_handlers := (cn_handlers c)(ty := add_handler (Listener i) (cn_handlers c ty))\<rparr>"
| "conn_step c (Unsubscribe i ty) =
     c\<lparr>cn_handlers := (cn_handlers c)(ty := drop_handler (Listener i) (cn_handlers c ty))\<rparr>"
| "conn_step c (SubscribeClose i) = c\<lparr>cn_closeHandlers := add_handler (Listener i) (cn_closeHandlers c)\<rparr>"
| "conn_step c (UnsubscribeClose i) = c\<lparr>cn_closeHandlers := drop_handler (Listener i) (cn_closeHandlers c)\<rparr>"
| "conn_step c (Send f) = ws_send f c"
| "conn_step c CloseSocket = c\<lparr>cn_closed := True\<rparr>"
| "conn_step c (Wait i ty accepts aborted) = wait_for_frame i ty accepts aborted c"
| "conn_step c (Abort i) = finish_wait i RejectedAborted c"

definition conn_run :: "conn_event list \<Rightarrow> conn_state" where
  "conn_run es = foldl conn_step conn_init es"

section \<open>The identity\<close>

record daemon_identity =
  di_node_id :: string
  di_agent_handle :: string
  di_role :: string
  di_parent_id :: "string option"
  di_sibling_group :: "string option"
  di_depth :: nat
  di_session_name :: string
  di_cwd :: string
  di_session_file :: "string option"
  di_repo :: "string option"
  di_worktree_label :: "string option"
  di_branch :: "string option"
  di_model :: "string option"
  di_agent_mode :: "string option"

definition register_frame :: "daemon_identity \<Rightarrow> json" where
  "register_frame d = encodeFrame
     [(''type'', JStr ''register''), (''role'', JStr (di_role d)), (''node_id'', JStr (di_node_id d)),
      (''agent_handle'', JStr (di_agent_handle d)), (''parent_id'', nullable JStr (di_parent_id d)),
      (''sibling_group'', nullable JStr (di_sibling_group d)), (''depth'', JNum (IntNum (int (di_depth d)))),
      (''session_name'', JStr (di_session_name d)), (''cwd'', JStr (di_cwd d)),
      (''session_file'', nullable JStr (di_session_file d)), (''repo'', nullable JStr (di_repo d)),
      (''worktree_label'', nullable JStr (di_worktree_label d)), (''branch'', nullable JStr (di_branch d)),
      (''model'', nullable JStr (di_model d)), (''agent_mode'', nullable JStr (di_agent_mode d))]"

section \<open>Round trip of frames\<close>

lemma map_of_set_key_other: "k' \<noteq> k \<Longrightarrow> map_of (set_key k v kvs) k' = map_of kvs k'"
  by simp

lemma decode_encode:
  "map_of kvs ''type'' = Some (JStr ty) \<Longrightarrow> ty \<in> set FRAME_TYPES \<Longrightarrow>
   decodeFrame (Inr (encodeFrame kvs)) = Inr (encodeFrame kvs) \<and> frame_type (encodeFrame kvs) = ty"
  by (simp add: decodeFrame_def encodeFrame_def frame_type_def)

section \<open>The handshake\<close>

text \<open>What an event decides of an undecided connection, and what it makes the client send.\<close>

fun decides :: "conn_event \<Rightarrow> (conn_error + unit) option" where
  "decides (SocketMessage raw) =
     (case decodeFrame raw of
        Inl e \<Rightarrow> Some (Inl (Undecodable e))
      | Inr f \<Rightarrow>
          if frame_type f = ''registered'' then
            Some (if field f ''protocol'' = Some protocol_json then Inr () else Inl (IncompatibleProtocol (field f ''protocol'')))
          else if frame_type f = ''error'' then Some (Inl (RegistrationFailed (field f ''code'') (field f ''message'')))
          else None)"
| "decides (SocketError e) = Some (Inl (SocketFailed e))"
| "decides (SocketClosed code reason) = Some (Inl (ConnectionClosed code reason))"
| "decides _ = None"

fun sends :: "conn_event \<Rightarrow> json list" where
  "sends (SocketOpen register) = [register]"
| "sends (SocketMessage raw) =
     (case decodeFrame raw of Inr f \<Rightarrow> if frame_type f = ''ping'' then [pong_frame f] else [] | Inl _ \<Rightarrow> [])"
| "sends (Send f) = [f]"
| "sends _ = []"

fun first_some :: "('a \<Rightarrow> 'b option) \<Rightarrow> 'a list \<Rightarrow> 'b option" where
  "first_some p [] = None"
| "first_some p (x # xs) = (case p x of Some y \<Rightarrow> Some y | None \<Rightarrow> first_some p xs)"

lemma first_some_snoc: "first_some p (xs @ [x]) = (case first_some p xs of Some y \<Rightarrow> Some y | None \<Rightarrow> p x)"
  by (induction xs) (simp_all split: option.split)

text \<open>Handlers touch neither the outcome nor what has been sent.\<close>

definition same_link :: "conn_state \<Rightarrow> conn_state \<Rightarrow> bool" where
  "same_link c c' \<longleftrightarrow> cn_outcome c' = cn_outcome c \<and> cn_settled c' = cn_settled c \<and> cn_registered c' = cn_registered c
     \<and> cn_sent c' = cn_sent c"

lemma same_link_refl [simp]: "same_link c c"
  by (simp add: same_link_def)

lemma same_link_finish [simp]: "same_link c (finish_wait i r c)"
  by (simp add: same_link_def finish_wait_def split: option.split)

lemma same_link_call [simp]: "same_link c (call_frame f c h)" "same_link c (call_close code reason c h)"
proof -
  have "same_link c (c\<lparr>cn_heard := x\<rparr>)" "same_link c (c\<lparr>cn_heardClose := y\<rparr>)" for x y by (simp_all add: same_link_def)
  then show "same_link c (call_frame f c h)" "same_link c (call_close code reason c h)"
    by (simp_all add: call_frame_def call_close_def split: handler.split option.split)
qed

lemma same_link_fold:
  assumes "\<And>c h. same_link c (g c h)"
  shows "same_link c (foldl g c hs)"
proof (induction hs arbitrary: c)
  case (Cons h hs)
  show ?case using assms [of c h] Cons [of "g c h"] by (simp add: same_link_def)
qed simp

definition link_ok :: "conn_state \<Rightarrow> bool" where
  "link_ok c \<longleftrightarrow> (cn_settled c \<longleftrightarrow> cn_outcome c \<noteq> None) \<and> (cn_registered c \<longrightarrow> cn_settled c)"

lemma same_link_ok: "same_link c c' \<Longrightarrow> link_ok c \<Longrightarrow> link_ok c' \<and> cn_outcome c' = cn_outcome c \<and> cn_sent c' = cn_sent c"
  unfolding same_link_def link_ok_def by metis

lemma link_step:
  assumes "link_ok c"
  shows "link_ok (conn_step c e)
    \<and> cn_outcome (conn_step c e) = (case cn_outcome c of Some r \<Rightarrow> Some r | None \<Rightarrow> decides e)
    \<and> cn_sent (conn_step c e) = cn_sent c @ sends e"
proof (cases e)
  case (SocketMessage raw)
  have calls: "same_link c (foldl (call_frame f) c hs)" for f hs by (rule same_link_fold) simp
  show ?thesis
    using assms same_link_ok [OF calls assms] unfolding SocketMessage
    by (auto simp: on_message_def on_frame_def on_error_def settle_def ws_send_def link_ok_def Let_def
        split: sum.splits option.splits)
next
  case (SocketClosed code reason)
  have "same_link c (foldl (call_close code reason) c (cn_closeHandlers c))" by (rule same_link_fold) simp
  then show ?thesis
    using assms unfolding SocketClosed
    by (auto simp: on_close_def settle_def link_ok_def same_link_def Let_def split: option.splits)
next
  case (Abort i)
  then show ?thesis using same_link_ok [OF same_link_finish assms, of i RejectedAborted] by (auto split: option.split)
qed (use assms in \<open>auto simp: ws_send_def on_error_def settle_def wait_for_frame_def link_ok_def split: option.splits\<close>)

text \<open>
  C39. Connecting is decided by the first event that can decide it, and keep-alive never stops: the
  connect promise is rejected by the first socket error, close, unreadable frame, error frame or
  registration of another protocol, or resolved by the registration of this protocol, whichever
  comes first, and by nothing later; and the client sends exactly the register frame on open, a pong
  with the nonce of each ping, at any time, and what its users send.
\<close>

theorem connect_decided_by_first_event:
  "cn_outcome (conn_run es) = first_some decides es \<and> cn_sent (conn_run es) = concat (map sends es)"
proof -
  have "link_ok (conn_run es) \<and> cn_outcome (conn_run es) = first_some decides es \<and> cn_sent (conn_run es) = concat (map sends es)"
  proof (induction es rule: rev_induct)
    case Nil
    show ?case by (simp add: conn_run_def conn_init_def link_ok_def)
  next
    case (snoc e es)
    then show ?case using link_step [of "conn_run es" e] by (simp add: conn_run_def first_some_snoc)
  qed
  then show ?thesis by blast
qed

section \<open>Waiting for a frame\<close>

text \<open>The event that settles the wait.\<close>

fun settles :: "nat \<Rightarrow> string \<Rightarrow> (json \<Rightarrow> bool) \<Rightarrow> conn_event \<Rightarrow> wait_outcome option" where
  "settles i ty accepts (SocketMessage raw) =
     (case decodeFrame raw of
        Inr f \<Rightarrow> if frame_type f = ty \<and> ty \<notin> {''ping'', ''pong''} \<and> accepts f then Some (Resolved f) else None
      | Inl _ \<Rightarrow> None)"
| "settles i ty accepts (SocketClosed code reason) = Some (RejectedClosed code reason)"
| "settles i ty accepts (Abort j) = (if j = i then Some RejectedAborted else None)"
| "settles i ty accepts _ = None"

definition wait_result :: "nat \<Rightarrow> string \<Rightarrow> (json \<Rightarrow> bool) \<Rightarrow> conn_event list \<Rightarrow> wait_outcome" where
  "wait_result i ty accepts es = (case first_some (settles i ty accepts) es of Some r \<Rightarrow> r | None \<Rightarrow> Pending)"

text \<open>The wait is in the handler sets exactly as long as it is pending.\<close>

definition wait_ok :: "nat \<Rightarrow> string \<Rightarrow> (json \<Rightarrow> bool) \<Rightarrow> wait_outcome \<Rightarrow> conn_state \<Rightarrow> bool" where
  "wait_ok i ty accepts r c \<longleftrightarrow>
     cn_waiters c i = Some \<lparr>wa_type = ty, wa_accepts = accepts, wa_outcome = r\<rparr>
     \<and> (\<forall>ty'. Waiter i \<in> set (cn_handlers c ty') \<longleftrightarrow> ty' = ty \<and> r = Pending)
     \<and> (Waiter i \<in> set (cn_closeHandlers c) \<longleftrightarrow> r = Pending)"

lemma set_handlers [simp]:
  "set (add_handler h hs) = insert h (set hs)" "set (drop_handler h hs) = set hs - {h}"
  by (auto simp: add_handler_def drop_handler_def)

lemma finish_own:
  "wait_ok i ty accepts Pending c \<Longrightarrow> r \<noteq> Pending \<Longrightarrow> wait_ok i ty accepts r (finish_wait i r c)"
  by (auto simp: wait_ok_def finish_wait_def)

lemma finish_settled: "wait_ok i ty accepts r c \<Longrightarrow> r \<noteq> Pending \<Longrightarrow> finish_wait i r' c = c"
  by (simp add: wait_ok_def finish_wait_def)

lemma finish_keeps_others:
  "j \<noteq> i \<Longrightarrow> cn_waiters (finish_wait j r c) i = cn_waiters c i"
  "h \<noteq> Waiter j \<Longrightarrow> h \<in> set (cn_handlers (finish_wait j r c) ty) \<longleftrightarrow> h \<in> set (cn_handlers c ty)"
  "h \<noteq> Waiter j \<Longrightarrow> h \<in> set (cn_closeHandlers (finish_wait j r c)) \<longleftrightarrow> h \<in> set (cn_closeHandlers c)"
  by (simp_all add: finish_wait_def split: option.split)

lemma finish_other: "j \<noteq> i \<Longrightarrow> wait_ok i ty accepts r (finish_wait j r' c) = wait_ok i ty accepts r c"
  by (simp add: wait_ok_def finish_keeps_others)

lemma wait_ok_heard [simp]:
  "wait_ok i ty accepts r (c\<lparr>cn_heard := x\<rparr>) = wait_ok i ty accepts r c"
  "wait_ok i ty accepts r (c\<lparr>cn_heardClose := y\<rparr>) = wait_ok i ty accepts r c"
  by (simp_all add: wait_ok_def)

lemma call_frame_other:
  "h \<noteq> Waiter i \<Longrightarrow> wait_ok i ty accepts r c \<Longrightarrow> wait_ok i ty accepts r (call_frame f c h)"
  by (cases h) (auto simp: call_frame_def finish_other split: option.splits)

lemma call_frame_own:
  assumes "wait_ok i ty accepts r c"
  shows "wait_ok i ty accepts (if r = Pending \<and> frame_type f = ty \<and> accepts f then Resolved f else r)
    (call_frame f c (Waiter i))"
  using assms finish_own [of i ty accepts c "Resolved f"] by (auto simp: call_frame_def wait_ok_def)

lemma call_frames:
  assumes "wait_ok i ty accepts r c" "Waiter i \<in> set hs \<or> frame_type f \<noteq> ty \<or> r \<noteq> Pending"
  shows "wait_ok i ty accepts (if r = Pending \<and> frame_type f = ty \<and> accepts f then Resolved f else r)
    (foldl (call_frame f) c hs)"
  using assms
proof (induction hs arbitrary: c r)
  case (Cons h hs)
  show ?case
  proof (cases "h = Waiter i")
    case True
    let ?r = "if r = Pending \<and> frame_type f = ty \<and> accepts f then Resolved f else r"
    have own: "wait_ok i ty accepts ?r (call_frame f c (Waiter i))" by (rule call_frame_own [OF Cons.prems(1)])
    show ?thesis
    proof (cases "?r = Pending")
      case pending: True
      have rest: "wait_ok i ty accepts r c' \<Longrightarrow> \<not> (frame_type f = ty \<and> accepts f) \<Longrightarrow>
          wait_ok i ty accepts r (foldl (call_frame f) c' hs)" for c'
      proof (induction hs arbitrary: c')
        case (Cons h' hs')
        then show ?case
          using call_frame_own [OF Cons.prems(1), of f] call_frame_other [OF _ Cons.prems(1), of h' f]
          by (cases "h' = Waiter i") auto
      qed simp
      show ?thesis using rest [of "call_frame f c (Waiter i)"] own pending True by (auto split: if_splits)
    next
      case False
      then show ?thesis using Cons.IH [OF own] True by (auto split: if_splits)
    qed
  next
    case False
    then show ?thesis
      using Cons.IH [OF call_frame_other [OF False Cons.prems(1)]] Cons.prems(2) by auto
  qed
qed auto

lemma call_close_other:
  "h \<noteq> Waiter i \<Longrightarrow> wait_ok i ty accepts r c \<Longrightarrow> wait_ok i ty accepts r (call_close code reason c h)"
  by (cases h) (auto simp: call_close_def finish_other)

lemma call_close_own:
  assumes "wait_ok i ty accepts r c"
  shows "wait_ok i ty accepts (if r = Pending then RejectedClosed code reason else r) (call_close code reason c (Waiter i))"
  using assms finish_own [of i ty accepts c "RejectedClosed code reason"] by (auto simp: call_close_def wait_ok_def)

lemma call_closes:
  assumes "wait_ok i ty accepts r c" "Waiter i \<in> set hs \<or> r \<noteq> Pending"
  shows "wait_ok i ty accepts (if r = Pending then RejectedClosed code reason else r) (foldl (call_close code reason) c hs)"
  using assms
proof (induction hs arbitrary: c r)
  case (Cons h hs)
  show ?case
  proof (cases "h = Waiter i")
    case True
    then show ?thesis using Cons.IH [OF call_close_own [OF Cons.prems(1)]] by (auto split: if_splits)
  next
    case False
    then show ?thesis using Cons.IH [OF call_close_other [OF False Cons.prems(1)]] Cons.prems(2) by auto
  qed
qed auto

lemma wait_ok_fields [simp]:
  "wait_ok i ty accepts r (c\<lparr>cn_sent := x\<rparr>) = wait_ok i ty accepts r c"
  "wait_ok i ty accepts r (c\<lparr>cn_closed := b\<rparr>) = wait_ok i ty accepts r c"
  "wait_ok i ty accepts r (c\<lparr>cn_registered := b\<rparr>) = wait_ok i ty accepts r c"
  "wait_ok i ty accepts r (settle v c) = wait_ok i ty accepts r c"
  "wait_ok i ty accepts r (on_error e c) = wait_ok i ty accepts r c"
  by (simp_all add: wait_ok_def settle_def on_error_def)

definition uses_wait :: "nat \<Rightarrow> conn_event \<Rightarrow> bool" where
  "uses_wait i e = (case e of Wait j _ _ _ \<Rightarrow> j = i | _ \<Rightarrow> False)"

lemma wait_ok_subscriptions [simp]:
  "wait_ok i ty accepts r (c\<lparr>cn_handlers := (cn_handlers c)(ty' := add_handler (Listener j) (cn_handlers c ty'))\<rparr>)
     = wait_ok i ty accepts r c"
  "wait_ok i ty accepts r (c\<lparr>cn_handlers := (cn_handlers c)(ty' := drop_handler (Listener j) (cn_handlers c ty'))\<rparr>)
     = wait_ok i ty accepts r c"
  "wait_ok i ty accepts r (c\<lparr>cn_closeHandlers := add_handler (Listener j) (cn_closeHandlers c)\<rparr>)
     = wait_ok i ty accepts r c"
  "wait_ok i ty accepts r (c\<lparr>cn_closeHandlers := drop_handler (Listener j) (cn_closeHandlers c)\<rparr>)
     = wait_ok i ty accepts r c"
  by (simp_all add: wait_ok_def) metis+

lemma wait_step:
  assumes "wait_ok i ty accepts r c" "cn_registered c" "\<not> uses_wait i e"
  shows "wait_ok i ty accepts (if r = Pending then (case settles i ty accepts e of Some r' \<Rightarrow> r' | None \<Rightarrow> Pending) else r)
    (conn_step c e)"
proof (cases e)
  case (SocketMessage raw)
  show ?thesis
  proof (cases "decodeFrame raw")
    case (Inr f)
    have "Waiter i \<in> set (cn_handlers c (frame_type f)) \<or> frame_type f \<noteq> ty \<or> r \<noteq> Pending"
      using assms(1) by (auto simp: wait_ok_def)
    from call_frames [OF assms(1) this] show ?thesis
      using assms(1,2) unfolding SocketMessage
      by (auto simp: on_message_def Inr on_frame_def ws_send_def split: if_splits)
  qed (use assms(1) in \<open>auto simp: SocketMessage on_message_def\<close>)
next
  case (SocketClosed code reason)
  have "Waiter i \<in> set (cn_closeHandlers c) \<or> r \<noteq> Pending" using assms(1) by (auto simp: wait_ok_def)
  from call_closes [OF assms(1) this, of code reason] show ?thesis
    unfolding SocketClosed by (cases "r = Pending") (simp_all add: on_close_def Let_def)
next
  case (Abort j)
  then show ?thesis
    using assms(1) finish_other [of j i] finish_own [OF _, of i ty accepts c RejectedAborted]
      finish_settled [OF assms(1)]
    by (cases "j = i"; cases "r = Pending") auto
next
  case (Wait j ty' accepts' aborted)
  then have "j \<noteq> i" using assms(3) by (simp add: uses_wait_def)
  then show ?thesis using assms(1) unfolding Wait by (auto simp: wait_for_frame_def wait_ok_def)
qed (use assms(1) in \<open>auto simp: ws_send_def\<close>)

lemma registered_step: "cn_registered c \<Longrightarrow> cn_registered (conn_step c e)"
proof -
  assume c: "cn_registered c"
  have calls: "same_link c (foldl (call_frame f) c hs)" "same_link c (foldl (call_close code reason) c hs)" for f hs code reason
    by (rule same_link_fold, simp)+
  show ?thesis
    using c calls same_link_finish [of c]
    by (cases e) (auto simp: on_message_def on_frame_def on_error_def settle_def ws_send_def on_close_def Let_def
        wait_for_frame_def same_link_def split: sum.splits)
qed

lemma wait_run:
  assumes "wait_ok i ty accepts r c" "cn_registered c" "list_all (\<lambda>e. \<not> uses_wait i e) es"
  shows "wait_ok i ty accepts (if r = Pending then wait_result i ty accepts es else r) (foldl conn_step c es)"
  using assms
proof (induction es arbitrary: c r)
  case Nil
  then show ?case by (auto simp: wait_result_def)
next
  case (Cons e es)
  have "wait_ok i ty accepts (if r = Pending then (case settles i ty accepts e of Some r' \<Rightarrow> r' | None \<Rightarrow> Pending) else r)
      (conn_step c e)"
    using Cons.prems by (intro wait_step) simp_all
  from Cons.IH [OF this registered_step [OF Cons.prems(2)]] Cons.prems(3)
  have "wait_ok i ty accepts
      (if (if r = Pending then (case settles i ty accepts e of Some r' \<Rightarrow> r' | None \<Rightarrow> Pending) else r) = Pending
       then wait_result i ty accepts es
       else (if r = Pending then (case settles i ty accepts e of Some r' \<Rightarrow> r' | None \<Rightarrow> Pending) else r))
      (foldl conn_step (conn_step c e) es)" by simp
  moreover have "settles i ty accepts e \<noteq> Some Pending"
    by (cases e) (auto split: sum.splits)
  ultimately show ?case by (auto simp: wait_result_def split: option.splits if_splits)
qed

text \<open>Before it starts, a wait is in no handler set.\<close>

lemma no_wait_before:
  assumes "list_all (\<lambda>e. \<not> uses_wait i e) es"
  shows "cn_waiters (conn_run es) i = None \<and> (\<forall>ty. Waiter i \<notin> set (cn_handlers (conn_run es) ty))
    \<and> Waiter i \<notin> set (cn_closeHandlers (conn_run es))"
proof -
  define gone :: "conn_state \<Rightarrow> bool" where
    "gone c \<longleftrightarrow> cn_waiters c i = None \<and> (\<forall>ty. Waiter i \<notin> set (cn_handlers c ty)) \<and> Waiter i \<notin> set (cn_closeHandlers c)" for c
  have sub: "gone (finish_wait j r c)" if "gone c" for j r c
    using that by (auto simp: gone_def finish_wait_def split: option.split)
  then have calls: "gone (call_frame f c h)" "gone (call_close code reason c h)" if "gone c" for f c h code reason
    using that by (auto simp: call_frame_def call_close_def gone_def [of "c\<lparr>cn_heard := _\<rparr>"]
        gone_def [of "c\<lparr>cn_heardClose := _\<rparr>"] split: handler.split option.split) (auto simp: gone_def)
  have folds: "gone c \<Longrightarrow> gone (foldl (call_frame f) c hs)" "gone c \<Longrightarrow> gone (foldl (call_close code reason) c hs)" for f c hs code reason
    by (induction hs arbitrary: c) (simp_all add: calls)
  have fields: "gone (c\<lparr>cn_sent := x\<rparr>) = gone c" "gone (c\<lparr>cn_closed := b\<rparr>) = gone c"
    "gone (c\<lparr>cn_registered := b\<rparr>) = gone c" "gone (settle v c) = gone c" "gone (on_error er c) = gone c" for c x b v er
    by (simp_all add: gone_def settle_def on_error_def)
  have step: "gone (conn_step c e)" if "gone c" "\<not> uses_wait i e" for c e
  proof (cases e)
    case (SocketMessage raw)
    then show ?thesis using that folds(1) [OF that(1)]
      by (auto simp: on_message_def on_frame_def fields ws_send_def Let_def split: sum.split)
  next
    case (SocketClosed code reason)
    then show ?thesis using folds(2) [OF that(1)] by (auto simp: on_close_def fields Let_def)
  next
    case (Wait j ty' accepts' aborted)
    then show ?thesis using that by (auto simp: wait_for_frame_def gone_def uses_wait_def)
  next
    case (Abort j)
    then show ?thesis using sub that by simp
  qed (use that in \<open>auto simp: gone_def ws_send_def on_error_def settle_def\<close>)
  have "gone conn_init" by (simp add: gone_def conn_init_def)
  then have "gone (conn_run es)"
    using assms by (induction es rule: rev_induct) (simp_all add: conn_run_def step)
  then show ?thesis by (simp add: gone_def)
qed

text \<open>
  \<open>waitForFrame\<close> gives what the events say: on a registered connection the wait's outcome after any
  further events is that of the first event that settles it, an accepted frame of its type, the
  close of the connection or its abort, and the wait is in the handler sets of the connection
  exactly as long as no such event has come, so it never hangs past a close and leaves no handler.
\<close>

theorem wait_settled_by_first_event:
  assumes "cn_registered (conn_run before)" "list_all (\<lambda>e. \<not> uses_wait i e) (before @ es)"
  shows "\<exists>w. cn_waiters (conn_run (before @ Wait i ty accepts False # es)) i = Some w
    \<and> wa_outcome w = wait_result i ty accepts es
    \<and> (\<forall>ty'. Waiter i \<in> set (cn_handlers (conn_run (before @ Wait i ty accepts False # es)) ty')
          \<longleftrightarrow> ty' = ty \<and> wait_result i ty accepts es = Pending)
    \<and> (Waiter i \<in> set (cn_closeHandlers (conn_run (before @ Wait i ty accepts False # es)))
          \<longleftrightarrow> wait_result i ty accepts es = Pending)"
proof -
  let ?c = "conn_run before"
  have "wait_ok i ty accepts Pending (wait_for_frame i ty accepts False ?c)"
    using no_wait_before [of i before] assms(2) by (auto simp: wait_ok_def wait_for_frame_def)
  moreover have "cn_registered (wait_for_frame i ty accepts False ?c)" using assms(1) by (simp add: wait_for_frame_def)
  ultimately have "wait_ok i ty accepts (wait_result i ty accepts es)
      (foldl conn_step (wait_for_frame i ty accepts False ?c) es)"
    using wait_run [of i ty accepts Pending _ es] assms(2) by simp
  then show ?thesis by (simp add: conn_run_def wait_ok_def)
qed

definition sample_frame :: "string \<Rightarrow> (string \<times> json) list \<Rightarrow> conn_event" where
  "sample_frame ty kvs = SocketMessage (Inr (encodeFrame ((''type'', JStr ty) # kvs)))"

theorem wait_settled_by_first_event_witness:
  "\<exists>w. cn_waiters (conn_run ([sample_frame ''registered'' [(''protocol'', protocol_json)]] @
      Wait 1 ''cancel_ack'' (\<lambda>f. field f ''ok'' = Some (JBool True)) False #
      [sample_frame ''cancel_ack'' [(''ok'', JBool False)], sample_frame ''ping'' [], SocketClosed 1006 ''gone''])) 1 = Some w
    \<and> wa_outcome w = RejectedClosed 1006 ''gone''"
proof -
  let ?before = "[sample_frame ''registered'' [(''protocol'', protocol_json)]]"
  let ?es = "[sample_frame ''cancel_ack'' [(''ok'', JBool False)], sample_frame ''ping'' [], SocketClosed 1006 ''gone'']"
  let ?p = "\<lambda>f. field f ''ok'' = Some (JBool True)"
  have "cn_registered (conn_run ?before)" by code_simp
  moreover have "wait_result 1 ''cancel_ack'' ?p ?es = RejectedClosed 1006 ''gone''" by code_simp
  moreover have "list_all (\<lambda>e. \<not> uses_wait 1 e) (?before @ ?es)" by (simp add: uses_wait_def sample_frame_def)
  ultimately show ?thesis using wait_settled_by_first_event [of ?before 1 ?es "''cancel_ack''" ?p] by auto
qed

text \<open>A rejected connection is not closed: the socket stays open and answers pings.\<close>

lemma rejected_connection_stays_open:
  "let c = conn_run [sample_frame ''registered'' [(''protocol'', JNum (IntNum 27))], sample_frame ''ping'' []] in
   (case cn_outcome c of Some (Inl _) \<Rightarrow> True | _ \<Rightarrow> False) \<and> \<not> cn_closed c \<and> length (cn_sent c) = 1"
  by code_simp

end
