(* ===== verification/HubSpawn.thy ===== *)
theory HubSpawn
  imports HubProcess HubConnect NodePath
begin

text \<open>
  Starting the hub daemon (\<open>pi/core/hub/spawn.ts\<close>, \<open>http.ts\<close>, \<open>paths.ts\<close>): ask the socket, take the
  spawn lock, replace a daemon of another protocol, start one, wait until it answers. Files, the
  clock and the network belong to the system; a system call throws its error code.
\<close>

section \<open>The daemon's answer\<close>

fun is_number :: "json option \<Rightarrow> jsnum option" where
  "is_number (Some (JNum n)) = Some n"
| "is_number _ = None"

text \<open>\<open>parsed\<close> is the JSON body of the answer, \<open>None\<close> for no answer, another status or no JSON.\<close>

definition healthPing :: "json option \<Rightarrow> health_ping" where
  "healthPing parsed =
     (case parsed of
        Some v \<Rightarrow>
          (if field v ''status'' = Some (JStr ''ok'')
           then (case is_number (field v ''protocol'') of Some n \<Rightarrow> PingOk n | None \<Rightarrow> PingFail) else PingFail)
      | None \<Rightarrow> PingFail)"

definition ping_ok :: "health_ping \<Rightarrow> bool" where
  "ping_ok p = (case p of PingOk _ \<Rightarrow> True | PingFail \<Rightarrow> False)"

definition speaks :: "health_ping \<Rightarrow> bool" where
  "speaks p \<longleftrightarrow> p = PingOk (IntNum PROTOCOL_VERSION)"

section \<open>The lock\<close>

record daemon_paths =
  dp_runtimeDir :: string
  dp_socketPath :: string
  dp_spawnLockPath :: string
  dp_pidPath :: string
  dp_dbPath :: string
  dp_agentsDir :: string

definition resolveDaemonPaths :: "string \<Rightarrow> daemon_paths" where
  "resolveDaemonPaths basecampRoot =
     (let runtimeDir = path_join [basecampRoot, ''swarm''] in
      \<lparr>dp_runtimeDir = runtimeDir, dp_socketPath = path_join [runtimeDir, ''daemon.sock''],
       dp_spawnLockPath = path_join [runtimeDir, ''daemon.spawn.lock''],
       dp_pidPath = path_join [runtimeDir, ''daemon.pid''], dp_dbPath = path_join [runtimeDir, ''daemon.db''],
       dp_agentsDir = path_join [runtimeDir, ''agents'']\<rparr>)"

record 'w spawn_env = "'w proc_env" +
  sp_now :: "('w, nat) io"
  sp_mkdir :: "string \<Rightarrow> ('w, unit) io"
  sp_request :: "string \<Rightarrow> nat \<Rightarrow> ('w, json option) io"
  sp_random :: "('w, string) io"
  sp_open :: "string \<Rightarrow> ('w, nat) io"
  sp_write :: "nat \<Rightarrow> json \<Rightarrow> ('w, unit) io"
  sp_close :: "nat \<Rightarrow> ('w, unit) io"
  sp_link :: "string \<Rightarrow> string \<Rightarrow> ('w, unit) io"
  sp_fstat :: "nat \<Rightarrow> ('w, nat \<times> nat) io"
  sp_stat :: "string \<Rightarrow> ('w, nat \<times> nat) io"
  sp_readLock :: "string \<Rightarrow> ('w, json option) io"
  sp_spawn :: "string \<Rightarrow> string list \<Rightarrow> ('w, unit) io"

text \<open>
  Process ids and times are integers: another number in a lock counts as a malformed lock.
\<close>

definition parseSpawnLock :: "json option \<Rightarrow> (int \<times> int) option" where
  "parseSpawnLock parsed =
     (case parsed of
        Some v \<Rightarrow>
          (case (field v ''pid'', field v ''ts'') of
             (Some (JNum (IntNum pid)), Some (JNum (IntNum ts))) \<Rightarrow> Some (pid, ts)
           | _ \<Rightarrow> None)
      | None \<Rightarrow> None)"

definition spawn_lock_json :: "int \<Rightarrow> nat \<Rightarrow> json" where
  "spawn_lock_json pid now = JObj [(''pid'', JNum (IntNum pid)), (''ts'', JNum (IntNum (int now)))]"

abbreviation pexists :: "('w, 'x) spawn_env_scheme \<Rightarrow> int \<Rightarrow> ('w, bool) proc_io" where
  "pexists env \<equiv> defaultPidExists (proc_env.truncate env)"

definition isSpawnLockStale :: "'w spawn_env \<Rightarrow> string \<Rightarrow> nat \<Rightarrow> nat \<Rightarrow> ('w, bool) proc_io" where
  "isSpawnLockStale env lockPath nowMs staleAfterMs =
     io_bind (io_try (untraced (sp_readLock env lockPath))) (\<lambda>raw.
       case raw of
         Inl _ \<Rightarrow> io_return True
       | Inr parsed \<Rightarrow>
           (case parseSpawnLock parsed of
              None \<Rightarrow> io_return True
            | Some (pid, ts) \<Rightarrow>
                if int nowMs - ts > int staleAfterMs then io_return True
                else io_bind (pexists env pid) (\<lambda>alive. io_return (\<not> alive))))"

definition unlinkQuietly :: "'w spawn_env \<Rightarrow> string \<Rightarrow> ('w, unit) proc_io" where
  "unlinkQuietly env p = io_ignore (traced (pr_unlink env p) (\<lambda>_. EvUnlink p))"

definition writeSpawnLock :: "'w spawn_env \<Rightarrow> string \<Rightarrow> nat \<Rightarrow> ('w, nat) proc_io" where
  "writeSpawnLock env lockPath nowMs =
     io_bind (untraced (sp_random env)) (\<lambda>hex.
     let stagingPath = lockPath @ ''.'' @ show_int (pr_self env) @ ''.'' @ hex in
     io_bind (untraced (sp_open env stagingPath)) (\<lambda>fd.
     io_bind (io_catch
         (io_bind (untraced (sp_write env fd (spawn_lock_json (pr_self env) nowMs))) (\<lambda>_.
            traced (sp_link env stagingPath lockPath) EvLock))
         (\<lambda>e. io_bind (io_ignore (untraced (sp_close env fd))) (\<lambda>_.
            io_bind (unlinkQuietly env stagingPath) (\<lambda>_. io_throw e)))) (\<lambda>_.
     io_bind (unlinkQuietly env stagingPath) (\<lambda>_. io_return fd))))"

definition releaseSpawnLock :: "'w spawn_env \<Rightarrow> nat option \<Rightarrow> string \<Rightarrow> ('w, unit) proc_io" where
  "releaseSpawnLock env held lockPath =
     (case held of
        None \<Rightarrow> io_return ()
      | Some fd \<Rightarrow>
          io_bind (io_try (untraced (sp_fstat env fd))) (\<lambda>identity.
          io_bind (io_ignore (traced (sp_close env fd) (\<lambda>_. EvRelease fd))) (\<lambda>_.
          case identity of
            Inl _ \<Rightarrow> io_return ()
          | Inr i \<Rightarrow>
              io_ignore (io_bind (untraced (sp_stat env lockPath)) (\<lambda>current.
                if current = i then traced (pr_unlink env lockPath) (\<lambda>_. EvUnlink lockPath) else io_return ())))))"

section \<open>Starting\<close>

record ensure_options =
  eo_startupTimeoutMs :: nat
  eo_healthTimeoutMs :: nat
  eo_lockStaleAfterMs :: nat
  eo_lockRetryMs :: nat

definition default_ensure_options :: ensure_options where
  "default_ensure_options = \<lparr>eo_startupTimeoutMs = 5000, eo_healthTimeoutMs = 400,
     eo_lockStaleAfterMs = 30000, eo_lockRetryMs = 100\<rparr>"

definition ping_socket :: "'w spawn_env \<Rightarrow> ensure_options \<Rightarrow> daemon_paths \<Rightarrow> ('w, health_ping) proc_io" where
  "ping_socket env opts paths =
     traced (io_bind (sp_request env (dp_socketPath paths) (eo_healthTimeoutMs opts)) (\<lambda>v. io_return (healthPing v)))
       (\<lambda>r. EvPing (case r of Inr p \<Rightarrow> p | Inl _ \<Rightarrow> PingFail))"

definition spawn_args :: "daemon_paths \<Rightarrow> string list" where
  "spawn_args paths = [''hub'', ''--uds'', dp_socketPath paths, ''--pidfile'', dp_pidPath paths, ''--db'', dp_dbPath paths]"

definition spawnDaemonProcess :: "'w spawn_env \<Rightarrow> daemon_paths \<Rightarrow> ('w, unit) proc_io" where
  "spawnDaemonProcess env paths =
     traced (sp_spawn env ''basecamp'' (spawn_args paths)) (EvSpawn (spawn_args paths))"

text \<open>\<open>while (Date.now() <= deadlineMs)\<close>: \<open>None\<close> when the fuel runs out first.\<close>

fun pollHealthy ::
  "nat \<Rightarrow> 'w spawn_env \<Rightarrow> ensure_options \<Rightarrow> daemon_paths \<Rightarrow> nat \<Rightarrow> ('w, health_ping option) proc_io" where
  "pollHealthy 0 env opts paths deadlineMs = io_return None"
| "pollHealthy (Suc fuel) env opts paths deadlineMs =
     io_bind (untraced (sp_now env)) (\<lambda>now.
       if now > deadlineMs then io_return (Some PingFail)
       else io_bind (ping_socket env opts paths) (\<lambda>ping.
         if ping_ok ping then io_return (Some ping)
         else io_bind (traced (pr_sleep env (eo_lockRetryMs opts)) (\<lambda>_. EvSleep (eo_lockRetryMs opts))) (\<lambda>_.
           pollHealthy fuel env opts paths deadlineMs)))"

text \<open>How the loop over the lock ends.\<close>

datatype lock_end = Ready | Onward | Failed string

text \<open>With the lock: answer, or start a daemon (after stopping one of another protocol).\<close>

definition start_locked :: "'w spawn_env \<Rightarrow> ensure_options \<Rightarrow> daemon_paths \<Rightarrow> ('w, lock_end) proc_io" where
  "start_locked env opts paths =
     io_bind (ping_socket env opts paths) (\<lambda>lockedPing.
       if speaks lockedPing then io_return Ready
       else io_bind (if ping_ok lockedPing
           then terminateDaemon (proc_env.truncate env) (dp_socketPath paths) (dp_pidPath paths) (eo_lockRetryMs opts)
           else io_return ()) (\<lambda>_.
         io_bind (spawnDaemonProcess env paths) (\<lambda>_. io_return Onward)))"

text \<open>The lock is another's: reclaim it when it is stale, else ask whether the daemon answers by now.\<close>

definition contend :: "'w spawn_env \<Rightarrow> ensure_options \<Rightarrow> daemon_paths \<Rightarrow> ('w, bool) proc_io" where
  "contend env opts paths =
     io_bind (untraced (sp_now env)) (\<lambda>now.
     io_bind (isSpawnLockStale env (dp_spawnLockPath paths) now (eo_lockStaleAfterMs opts)) (\<lambda>stale.
       if stale then io_bind (unlinkQuietly env (dp_spawnLockPath paths)) (\<lambda>_. io_return False)
       else io_bind (ping_socket env opts paths) (\<lambda>contenderPing.
         if speaks contenderPing then io_return True
         else io_bind (traced (pr_sleep env (eo_lockRetryMs opts)) (\<lambda>_. EvSleep (eo_lockRetryMs opts)))
                (\<lambda>_. io_return False))))"

fun lock_loop ::
  "nat \<Rightarrow> 'w spawn_env \<Rightarrow> ensure_options \<Rightarrow> daemon_paths \<Rightarrow> nat \<Rightarrow> nat option \<Rightarrow>
   ('w, (lock_end \<times> nat option) option) proc_io" where
  "lock_loop 0 env opts paths deadline held = io_return None"
| "lock_loop (Suc fuel) env opts paths deadline held =
     io_bind (io_try (untraced (sp_now env))) (\<lambda>now.
     case now of Inl e \<Rightarrow> io_return (Some (Failed e, held)) | Inr now \<Rightarrow>
       if now > deadline then io_return (Some (Onward, held))
       else io_bind (io_try (io_bind (untraced (sp_now env)) (writeSpawnLock env (dp_spawnLockPath paths)))) (\<lambda>lock.
         let held' = (case lock of Inl _ \<Rightarrow> held | Inr fd \<Rightarrow> Some fd) in
         io_bind (case lock of Inl e \<Rightarrow> io_return (Inl e) | Inr _ \<Rightarrow> io_try (start_locked env opts paths)) (\<lambda>started.
         case started of
           Inr r \<Rightarrow> io_return (Some (r, held'))
         | Inl code \<Rightarrow>
             if code \<noteq> ''EEXIST'' then io_return (Some (Failed code, held'))
             else io_bind (io_try (contend env opts paths)) (\<lambda>waited.
               case waited of
                 Inl e \<Rightarrow> io_return (Some (Failed e, held'))
               | Inr ready \<Rightarrow> if ready then io_return (Some (Ready, held'))
                   else lock_loop fuel env opts paths deadline held'))))"

text \<open>After the loop: wait for the daemon and check what it speaks.\<close>

definition await_daemon ::
  "nat \<Rightarrow> 'w spawn_env \<Rightarrow> ensure_options \<Rightarrow> daemon_paths \<Rightarrow> nat \<Rightarrow> ('w, string option) proc_io" where
  "await_daemon fuel env opts paths deadline =
     io_bind (pollHealthy fuel env opts paths deadline) (\<lambda>ping.
       case ping of
         None \<Rightarrow> io_return None
       | Some p \<Rightarrow>
           if \<not> ping_ok p then io_throw (''Timed out waiting for basecamp hub at '' @ dp_socketPath paths @ ''.'')
           else if \<not> speaks p
             then io_throw (''basecamp hub protocol mismatch at '' @ dp_socketPath paths @ '': daemon='' @
               (case p of PingOk (IntNum n) \<Rightarrow> show_int n | PingOk (OtherNum s) \<Rightarrow> s | PingFail \<Rightarrow> []) @
               '', client='' @ show_int PROTOCOL_VERSION @ ''.'')
           else io_return (Some (dp_socketPath paths)))"

definition ensureDaemon ::
  "nat \<Rightarrow> 'w spawn_env \<Rightarrow> ensure_options \<Rightarrow> daemon_paths \<Rightarrow> ('w, string option) proc_io" where
  "ensureDaemon fuel env opts paths =
     io_bind (untraced (sp_mkdir env (dp_runtimeDir paths))) (\<lambda>_.
     io_bind (ping_socket env opts paths) (\<lambda>firstPing.
       if speaks firstPing then io_return (Some (dp_socketPath paths))
       else io_bind (untraced (sp_now env)) (\<lambda>now.
         let deadline = now + eo_startupTimeoutMs opts in
         io_bind (lock_loop fuel env opts paths deadline None) (\<lambda>ended.
           case ended of
             None \<Rightarrow> io_return None
           | Some (r, held) \<Rightarrow>
               io_finally
                 (case r of
                    Ready \<Rightarrow> io_return (Some (dp_socketPath paths))
                  | Failed e \<Rightarrow> io_throw e
                  | Onward \<Rightarrow> await_daemon fuel env opts paths deadline)
                 (releaseSpawnLock env held (dp_spawnLockPath paths))))))"

section \<open>What a start does to processes\<close>

fun proc_only :: "proc_event \<Rightarrow> bool" where
  "proc_only (EvPing _) = False"
| "proc_only (EvLock _) = False"
| "proc_only (EvRelease _) = False"
| "proc_only (EvSpawn _ _) = False"
| "proc_only _ = True"

lemma poll_appends [appends_intros]: "appends proc_only (poll_exit env pid d n)"
  by (induction n) (auto intro!: appends_intros simp: defaultPidExists_def)

lemma terminate_appends: "appends proc_only (terminateDaemon env s p d)"
  unfolding terminateDaemon_def resolveDaemonPid_def readDaemonPidFile_def isDaemonPidForSocket_def
    findDaemonPidByCommand_def defaultPidExists_def signalDaemon_def defaultKillPid_def waitForPidExit_def
    unlinkIfExists_def
  by (intro appends_intros | simp)+

definition ping_step :: "health_ping option \<Rightarrow> proc_event \<Rightarrow> health_ping option" where
  "ping_step acc e = (case e of EvPing p \<Rightarrow> Some p | _ \<Rightarrow> acc)"

text \<open>The last answer of the socket, the lock, and the daemon started.\<close>

definition last_ping :: "proc_event list \<Rightarrow> health_ping option" where
  "last_ping l = foldl ping_step None l"

definition unreleased :: "proc_event list \<Rightarrow> bool" where
  "unreleased l \<longleftrightarrow> (\<forall>fd. EvRelease fd \<notin> set l)"

definition locked :: "proc_event list \<Rightarrow> bool" where
  "locked l \<longleftrightarrow> EvLock (Inr ()) \<in> set l \<and> unreleased l"

definition started :: "proc_event list \<Rightarrow> bool" where
  "started l \<longleftrightarrow> (\<exists>args. EvSpawn args (Inr ()) \<in> set l)"

definition start_grounds :: "int \<Rightarrow> daemon_paths \<Rightarrow> proc_event list \<Rightarrow> proc_event \<Rightarrow> bool" where
  "start_grounds self paths l e =
     (case e of
        EvSpawn args _ \<Rightarrow> args = spawn_args paths \<and> locked l \<and> \<not> started l \<and> \<not> pred_option speaks (last_ping l)
      | EvSignal pid _ \<Rightarrow> signal_grounds self (dp_socketPath paths) l e \<and> locked l \<and> \<not> started l
          \<and> (\<exists>n. last_ping l = Some (PingOk n) \<and> n \<noteq> IntNum PROTOCOL_VERSION)
      | _ \<Rightarrow> True)"

abbreviation starts_ok :: "int \<Rightarrow> daemon_paths \<Rightarrow> proc_event list \<Rightarrow> bool" where
  "starts_ok self paths \<equiv> justified (start_grounds self paths)"

lemma last_ping_simps [simp]:
  "last_ping [] = None" "last_ping (l @ [e]) = (case e of EvPing p \<Rightarrow> Some p | _ \<Rightarrow> last_ping l)"
  by (simp_all add: last_ping_def ping_step_def split: proc_event.split)

lemma unreleased_simps [simp]:
  "unreleased []" "unreleased (l @ [e]) \<longleftrightarrow> unreleased l \<and> (\<forall>fd. e \<noteq> EvRelease fd)"
  by (auto simp: unreleased_def)

lemma locked_simps [simp]:
  "locked (l @ [e]) \<longleftrightarrow> (locked l \<or> unreleased l \<and> e = EvLock (Inr ())) \<and> (\<forall>fd. e \<noteq> EvRelease fd)"
  by (auto simp: locked_def unreleased_def)

lemma started_simps [simp]:
  "\<not> started []" "started (l @ [e]) \<longleftrightarrow> started l \<or> (\<exists>args. e = EvSpawn args (Inr ()))"
  by (auto simp: started_def)

lemma start_grounds_other [simp]:
  "start_grounds self paths l (EvPing p)" "start_grounds self paths l (EvLock u)"
  "start_grounds self paths l (EvRelease n)" "start_grounds self paths l (EvSleep d)"
  "start_grounds self paths l (EvUnlink f)" "start_grounds self paths l (EvProbe q b)"
  "start_grounds self paths l (EvPsAll r)" "start_grounds self paths l (EvPsOne q v)"
  by (simp_all add: start_grounds_def)

lemma starts_signals: "starts_ok self paths l \<Longrightarrow> signals_ok self (dp_socketPath paths) l"
proof -
  have "start_grounds self paths l e \<Longrightarrow> signal_grounds self (dp_socketPath paths) l e" for l e
    by (cases e) (auto simp: start_grounds_def)
  then show "starts_ok self paths l \<Longrightarrow> signals_ok self (dp_socketPath paths) l" unfolding justified_def by blast
qed

text \<open>Stopping the daemon of another protocol, with the lock held.\<close>

definition stoppable :: "int \<Rightarrow> daemon_paths \<Rightarrow> proc_event list \<Rightarrow> bool" where
  "stoppable self paths l \<longleftrightarrow> starts_ok self paths l \<and> locked l \<and> \<not> started l
     \<and> (\<exists>n. last_ping l = Some (PingOk n) \<and> n \<noteq> IntNum PROTOCOL_VERSION)"

lemma stoppable_snoc:
  "proc_only e \<Longrightarrow> stoppable self paths l \<Longrightarrow> signals_ok self (dp_socketPath paths) (l @ [e]) \<Longrightarrow>
   stoppable self paths (l @ [e])"
  unfolding stoppable_def justified_snoc by (cases e) (simp_all add: start_grounds_def)

lemma stoppable_append:
  "list_all proc_only s \<Longrightarrow> stoppable self paths l \<Longrightarrow> signals_ok self (dp_socketPath paths) (l @ s) \<Longrightarrow>
   stoppable self paths (l @ s)"
proof (induction s rule: rev_induct)
  case (snoc e s)
  from snoc.prems have sig: "signals_ok self (dp_socketPath paths) ((l @ s) @ [e])" by simp
  then have "stoppable self paths (l @ s)" using snoc by (simp only: justified_snoc) simp
  from stoppable_snoc [OF _ this sig] snoc.prems(1) show ?case by simp
qed simp

lemma truncate_self [simp]: "pr_self (proc_env.truncate env) = pr_self env"
  by (simp add: proc_env.defs)

lemma terminate_stoppable:
  "hoare (on_log (stoppable (pr_self env) paths))
     (terminateDaemon (proc_env.truncate env) (dp_socketPath paths) p d)
     (\<lambda>_. on_log (stoppable (pr_self env) paths)) (on_log (stoppable (pr_self env) paths))"
proof -
  let ?m = "terminateDaemon (proc_env.truncate env) (dp_socketPath paths) p d"
  have "stoppable (pr_self env) paths (tw_log (snd (?m t)))" if "stoppable (pr_self env) paths (tw_log t)" for t
  proof -
    obtain s where s: "tw_log (snd (?m t)) = tw_log t @ s" "list_all proc_only s"
      using terminate_appends unfolding appends_def by meson
    have "signals_ok (pr_self env) (dp_socketPath paths) (tw_log t)"
      using that starts_signals unfolding stoppable_def by blast
    then have "signals_ok (pr_self env) (dp_socketPath paths) (tw_log (snd (?m t)))"
      using hoare_world [OF terminate_keeps [of "proc_env.truncate env" "dp_socketPath paths" p d], of t] by simp
    with that s stoppable_append show ?thesis by simp
  qed
  then show ?thesis by (intro hoareI) (metis on_log_simps snd_conv)+
qed

definition fresh_start :: "int \<Rightarrow> daemon_paths \<Rightarrow> proc_event list \<Rightarrow> bool" where
  "fresh_start self paths l \<longleftrightarrow> starts_ok self paths l \<and> unreleased l \<and> \<not> started l"

definition answered :: "proc_event list \<Rightarrow> bool" where
  "answered l \<longleftrightarrow> pred_option speaks (last_ping l) \<and> last_ping l \<noteq> None"

lemma fresh_start_simps [simp]:
  "fresh_start self paths (l @ [EvPing p]) \<longleftrightarrow> fresh_start self paths l"
  "fresh_start self paths (l @ [EvLock u]) \<longleftrightarrow> fresh_start self paths l"
  "fresh_start self paths (l @ [EvUnlink f]) \<longleftrightarrow> fresh_start self paths l"
  "fresh_start self paths (l @ [EvSleep d]) \<longleftrightarrow> fresh_start self paths l"
  "fresh_start self paths (l @ [EvProbe q b]) \<longleftrightarrow> fresh_start self paths l"
  "fresh_start self paths [] = True"
  by (auto simp: fresh_start_def)

lemma ping_hoare:
  assumes "\<And>l p. K l \<Longrightarrow> K (l @ [EvPing p])"
  shows "hoare (on_log K) (ping_socket env opts paths) (\<lambda>p. on_log (\<lambda>l. K l \<and> last_ping l = Some p)) (on_log K)"
  unfolding ping_socket_def by (rule hoareI) (auto simp: io_simps assms split: sum.splits)

lemma read_hoare: "hoare (on_log K) (untraced m) (\<lambda>_. on_log K) (on_log K)"
  by (rule hoare_untraced) auto

lemma sleep_hoare:
  "hoare (on_log (fresh_start self paths)) (traced m (\<lambda>_. EvSleep d)) (\<lambda>_. on_log (fresh_start self paths))
     (on_log (fresh_start self paths))"
  by (rule hoareI) (auto simp: io_simps)

lemma unlink_quiet_hoare:
  assumes "\<And>l f. K l \<Longrightarrow> K (l @ [EvUnlink f])"
  shows "hoare (on_log K) (unlinkQuietly env p) (\<lambda>_. on_log K) E"
  unfolding unlinkQuietly_def by (rule hoareI) (auto simp: io_simps io_ignore_def assms split: sum.splits)

lemma write_lock_hoare:
  "hoare (on_log (fresh_start self paths)) (writeSpawnLock env p now)
     (\<lambda>_. on_log (\<lambda>l. fresh_start self paths l \<and> locked l)) (on_log (fresh_start self paths))"
proof -
  let ?K = "fresh_start self paths" and ?L = "\<lambda>l. fresh_start self paths l \<and> locked l"
  have link: "hoare (on_log ?K) (traced m EvLock) (\<lambda>_. on_log ?L) (on_log ?K)" for m :: "('a, unit) io"
    by (rule hoareI) (auto simp: io_simps, auto simp: fresh_start_def)
  have undo: "hoare (on_log ?K) (io_bind (io_ignore (untraced (sp_close env fd))) (\<lambda>_.
      io_bind (unlinkQuietly env s) (\<lambda>_. io_throw e))) (\<lambda>_. on_log ?L) (on_log ?K)" for fd s e
    by (rule hoare_bind [OF hoare_ignore [OF read_hoare]], rule hoare_bind [OF unlink_quiet_hoare])
      (auto intro!: hoare_throw)
  have placed: "hoare (on_log ?L) (io_bind (unlinkQuietly env s) (\<lambda>_. io_return fd)) (\<lambda>_. on_log ?L) (on_log ?K)" for s fd
    by (rule hoare_bind [OF unlink_quiet_hoare]) (auto intro!: hoare_return)
  show ?thesis
    unfolding writeSpawnLock_def Let_def
    by (rule hoare_bind [OF read_hoare] hoare_bind [OF hoare_catch] hoare_bind [OF read_hoare link] undo placed)+
qed

lemma stale_hoare:
  "hoare (on_log (fresh_start self paths)) (isSpawnLockStale env p now stale)
     (\<lambda>_. on_log (fresh_start self paths)) (on_log (fresh_start self paths))"
proof -
  let ?K = "fresh_start self paths"
  have probe: "hoare (on_log ?K) (io_bind (pexists env pid) (\<lambda>alive. io_return (\<not> alive))) (\<lambda>_. on_log ?K) (on_log ?K)" for pid
    unfolding defaultPidExists_def by (rule hoareI) (auto simp: io_simps split: sum.splits if_splits)
  show ?thesis
    unfolding isSpawnLockStale_def
    by (rule hoare_bind [OF hoare_try [OF read_hoare]])
      (auto intro!: hoare_return hoare_if probe split: sum.split option.split)
qed

lemma start_locked_hoare:
  "hoare (on_log (\<lambda>l. fresh_start (pr_self env) paths l \<and> locked l)) (start_locked env opts paths)
     (\<lambda>r. on_log (\<lambda>l. starts_ok (pr_self env) paths l \<and> (r = Ready \<longrightarrow> answered l)))
     (on_log (fresh_start (pr_self env) paths))"
proof -
  let ?S = "pr_self env"
  let ?L = "\<lambda>l. fresh_start ?S paths l \<and> locked l"
  have "hoare (on_log ?L) (ping_socket env opts paths) (\<lambda>p. on_log (\<lambda>l. ?L l \<and> last_ping l = Some p)) (on_log ?L)"
    by (rule ping_hoare) simp
  then have ping: "hoare (on_log ?L) (ping_socket env opts paths) (\<lambda>p. on_log (\<lambda>l. ?L l \<and> last_ping l = Some p))
      (on_log (fresh_start ?S paths))"
    by (rule hoare_error) simp
  have spawn: "hoare (on_log (\<lambda>l. ?L l \<and> \<not> pred_option speaks (last_ping l)))
      (io_bind (spawnDaemonProcess env paths) (\<lambda>_. io_return Onward))
      (\<lambda>r. on_log (\<lambda>l. starts_ok ?S paths l \<and> (r = Ready \<longrightarrow> answered l))) (on_log (fresh_start ?S paths))"
    unfolding spawnDaemonProcess_def
    by (rule hoareI) (auto simp: io_simps fresh_start_def start_grounds_def split: sum.splits)
  have stop: "hoare (on_log (\<lambda>l. ?L l \<and> last_ping l = Some p))
      (if ping_ok p then terminateDaemon (proc_env.truncate env) (dp_socketPath paths) (dp_pidPath paths) (eo_lockRetryMs opts)
       else io_return ())
      (\<lambda>_. on_log (\<lambda>l. ?L l \<and> \<not> pred_option speaks (last_ping l))) (on_log (fresh_start ?S paths))"
    if "\<not> speaks p" for p
  proof (rule hoare_if)
    assume "ping_ok p"
    show "hoare (on_log (\<lambda>l. ?L l \<and> last_ping l = Some p))
        (terminateDaemon (proc_env.truncate env) (dp_socketPath paths) (dp_pidPath paths) (eo_lockRetryMs opts))
        (\<lambda>_. on_log (\<lambda>l. ?L l \<and> \<not> pred_option speaks (last_ping l))) (on_log (fresh_start ?S paths))"
      by (rule hoare_weaken [OF terminate_stoppable])
        (use \<open>ping_ok p\<close> that in \<open>auto simp: stoppable_def fresh_start_def ping_ok_def speaks_def locked_def split: health_ping.splits\<close>)
  qed (use that in \<open>auto intro!: hoare_return\<close>)
  show ?thesis
    unfolding start_locked_def
  proof (rule hoare_bind [OF ping], rule hoare_if)
    fix p
    assume "speaks p"
    then show "hoare (on_log (\<lambda>l. ?L l \<and> last_ping l = Some p)) (io_return Ready)
        (\<lambda>r. on_log (\<lambda>l. starts_ok ?S paths l \<and> (r = Ready \<longrightarrow> answered l))) (on_log (fresh_start ?S paths))"
      by (auto intro!: hoare_return simp: answered_def fresh_start_def)
  qed (rule hoare_bind [OF stop spawn])
qed

definition loop_done :: "int \<Rightarrow> daemon_paths \<Rightarrow> (lock_end \<times> nat option) option \<Rightarrow> proc_event list \<Rightarrow> bool" where
  "loop_done self paths r l \<longleftrightarrow> starts_ok self paths l \<and> (\<forall>h. r = Some (Ready, h) \<longrightarrow> answered l)"

lemma loop_doneI:
  "fresh_start self paths l \<Longrightarrow> loop_done self paths None l"
  "fresh_start self paths l \<Longrightarrow> loop_done self paths (Some (Failed e, h)) l"
  "fresh_start self paths l \<Longrightarrow> loop_done self paths (Some (Onward, h)) l"
  "fresh_start self paths l \<Longrightarrow> answered l \<Longrightarrow> loop_done self paths (Some (Ready, h)) l"
  by (simp_all add: loop_done_def fresh_start_def)

lemma contend_hoare:
  "hoare (on_log (fresh_start (pr_self env) paths)) (contend env opts paths)
     (\<lambda>b. on_log (\<lambda>l. fresh_start (pr_self env) paths l \<and> (b \<longrightarrow> answered l)))
     (on_log (fresh_start (pr_self env) paths))"
proof -
  let ?K = "fresh_start (pr_self env) paths"
  let ?Q = "\<lambda>b. on_log (\<lambda>l. ?K l \<and> (b \<longrightarrow> answered l))"
  have gone: "hoare (on_log ?K) (io_bind (unlinkQuietly env (dp_spawnLockPath paths)) (\<lambda>_. io_return False)) ?Q (on_log ?K)"
    by (rule hoare_bind [OF unlink_quiet_hoare]) (auto intro!: hoare_return)
  have ping: "hoare (on_log ?K) (ping_socket env opts paths) (\<lambda>p. on_log (\<lambda>l. ?K l \<and> last_ping l = Some p)) (on_log ?K)"
    by (rule ping_hoare) simp
  have sleep: "hoare (on_log (\<lambda>l. ?K l \<and> last_ping l = Some p))
      (io_bind (traced (pr_sleep env (eo_lockRetryMs opts)) (\<lambda>_. EvSleep (eo_lockRetryMs opts))) (\<lambda>_. io_return False))
      ?Q (on_log ?K)" for p
    by (rule hoare_bind [OF hoare_weaken [OF sleep_hoare, where Q' = "\<lambda>_. on_log ?K"]]) (auto intro!: hoare_return)
  have ask: "hoare (on_log ?K) (io_bind (ping_socket env opts paths) (\<lambda>contenderPing.
      if speaks contenderPing then io_return True
      else io_bind (traced (pr_sleep env (eo_lockRetryMs opts)) (\<lambda>_. EvSleep (eo_lockRetryMs opts)))
             (\<lambda>_. io_return False))) ?Q (on_log ?K)"
    by (rule hoare_bind [OF ping], rule hoare_if [OF _ sleep]) (auto intro!: hoare_return simp: answered_def)
  show ?thesis
    unfolding contend_def
    by (rule hoare_bind [OF read_hoare], rule hoare_bind [OF stale_hoare], rule hoare_if [OF gone ask])
qed

lemma hoare_try_bind:
  assumes "hoare P m Q E" "\<And>e. hoare E (h (Inl e)) R X" "\<And>x. hoare (Q x) (h (Inr x)) R X"
  shows "hoare P (io_bind (io_try m) h) R X"
  by (rule hoare_bind [OF hoare_try [OF assms(1)]]) (use assms(2,3) in \<open>simp split: sum.split\<close>)

lemma bind_return [simp]: "io_bind (io_return x) f = f x"
  by (simp add: io_bind_def io_return_def)

lemma lock_loop_hoare:
  "hoare (on_log (fresh_start (pr_self env) paths)) (lock_loop fuel env opts paths deadline held)
     (\<lambda>r. on_log (loop_done (pr_self env) paths r)) (on_log (starts_ok (pr_self env) paths))"
proof (induction fuel arbitrary: held)
  case 0
  show ?case by (auto intro!: hoare_return loop_doneI)
next
  case (Suc fuel)
  let ?K = "fresh_start (pr_self env) paths" and ?J = "starts_ok (pr_self env) paths"
  let ?D = "\<lambda>r. on_log (loop_done (pr_self env) paths r)"
  have ready: "hoare (on_log (\<lambda>l. ?K l \<and> (b \<longrightarrow> answered l))) (if b then io_return (Some (Ready, held'))
      else lock_loop fuel env opts paths deadline held') ?D (on_log ?J)" for b held'
    by (cases b) (auto simp: Suc intro!: hoare_return loop_doneI)
  have retry: "hoare (on_log ?K) (case Inl code of Inr r \<Rightarrow> io_return (Some (r, held'))
         | Inl code \<Rightarrow>
             if code \<noteq> ''EEXIST'' then io_return (Some (Failed code, held'))
             else io_bind (io_try (contend env opts paths)) (\<lambda>waited.
               case waited of
                 Inl e \<Rightarrow> io_return (Some (Failed e, held'))
               | Inr ready \<Rightarrow> if ready then io_return (Some (Ready, held'))
                   else lock_loop fuel env opts paths deadline held')) ?D (on_log ?J)" for code held'
    unfolding sum.case
    by (rule hoare_if, (rule hoare_return, simp add: loop_doneI), rule hoare_try_bind [OF contend_hoare])
      (use ready in \<open>auto intro!: hoare_return loop_doneI\<close>)
  have ended: "hoare (on_log (\<lambda>l. ?J l \<and> (x = Ready \<longrightarrow> answered l))) (io_return (Some (x, held'))) ?D (on_log ?J)" for x held'
    by (auto intro!: hoare_return simp: loop_done_def)
  show ?case
    unfolding lock_loop.simps Let_def
    apply (rule hoare_try_bind [OF read_hoare])
     apply (simp, rule hoare_return, simp add: loop_doneI)
    apply (simp only: sum.case)
    apply (rule hoare_if, rule hoare_return, simp add: loop_doneI)
    apply (rule hoare_try_bind [OF hoare_bind [OF read_hoare write_lock_hoare]])
     apply (simp only: sum.case bind_return)
     apply (rule retry [unfolded sum.case])
    apply (simp only: sum.case)
    apply (rule hoare_try_bind [OF start_locked_hoare])
     apply (rule retry)
    apply (simp only: sum.case)
    apply (rule ended)
    done
qed

lemma poll_healthy_hoare:
  "hoare (on_log (starts_ok self paths)) (pollHealthy fuel env opts paths deadline)
     (\<lambda>r. on_log (\<lambda>l. starts_ok self paths l \<and> (\<forall>p. r = Some p \<and> ping_ok p \<longrightarrow> last_ping l = Some p)))
     (on_log (starts_ok self paths))"
proof (induction fuel)
  case 0
  show ?case by (auto intro!: hoare_return)
next
  case (Suc fuel)
  let ?J = "starts_ok self paths"
  let ?Q = "\<lambda>r. on_log (\<lambda>l. ?J l \<and> (\<forall>p. r = Some p \<and> ping_ok p \<longrightarrow> last_ping l = Some p))"
  have ping: "hoare (on_log ?J) (ping_socket env opts paths) (\<lambda>p. on_log (\<lambda>l. ?J l \<and> last_ping l = Some p)) (on_log ?J)"
    by (rule ping_hoare) simp
  have "hoare (on_log ?J) (traced (pr_sleep env (eo_lockRetryMs opts)) (\<lambda>_. EvSleep (eo_lockRetryMs opts)))
      (\<lambda>_. on_log ?J) (on_log ?J)"
    by (rule hoareI) (auto simp: io_simps)
  from hoare_bind [OF this Suc]
  have again: "hoare (on_log (\<lambda>l. ?J l \<and> last_ping l = Some p))
      (io_bind (traced (pr_sleep env (eo_lockRetryMs opts)) (\<lambda>_. EvSleep (eo_lockRetryMs opts)))
        (\<lambda>_. pollHealthy fuel env opts paths deadline)) ?Q (on_log ?J)" for p
    by (rule hoare_weaken) auto
  show ?case
    unfolding pollHealthy.simps
    by (rule hoare_bind [OF read_hoare], rule hoare_if, (rule hoare_return, simp add: ping_ok_def),
        rule hoare_bind [OF ping], rule hoare_if [OF _ again]) (auto intro!: hoare_return)
qed

lemma await_hoare:
  "hoare (on_log (starts_ok self paths)) (await_daemon fuel env opts paths deadline)
     (\<lambda>r. on_log (\<lambda>l. starts_ok self paths l \<and> (\<forall>s. r = Some s \<longrightarrow> s = dp_socketPath paths \<and> answered l)))
     (on_log (starts_ok self paths))"
proof -
  have "hoare (on_log (\<lambda>l. starts_ok self paths l \<and> (\<forall>p. r = Some p \<and> ping_ok p \<longrightarrow> last_ping l = Some p)))
      (case r of None \<Rightarrow> io_return None
       | Some p \<Rightarrow>
           if \<not> ping_ok p then io_throw (''Timed out waiting for basecamp hub at '' @ dp_socketPath paths @ ''.'')
           else if \<not> speaks p
             then io_throw (''basecamp hub protocol mismatch at '' @ dp_socketPath paths @ '': daemon='' @
               (case p of PingOk (IntNum n) \<Rightarrow> show_int n | PingOk (OtherNum s) \<Rightarrow> s | PingFail \<Rightarrow> []) @
               '', client='' @ show_int PROTOCOL_VERSION @ ''.'')
           else io_return (Some (dp_socketPath paths)))
      (\<lambda>r. on_log (\<lambda>l. starts_ok self paths l \<and> (\<forall>s. r = Some s \<longrightarrow> s = dp_socketPath paths \<and> answered l)))
      (on_log (starts_ok self paths))" for r
    by (cases r) (auto intro!: hoare_return hoare_if hoare_throw simp: answered_def)
  then show ?thesis unfolding await_daemon_def by (rule hoare_bind [OF poll_healthy_hoare])
qed

text \<open>Giving the lock back changes neither the grounds nor the last answer.\<close>

lemma release_hoare:
  "hoare (on_log (\<lambda>l. starts_ok self paths l \<and> (b \<longrightarrow> answered l))) (releaseSpawnLock env held p)
     (\<lambda>_. on_log (\<lambda>l. starts_ok self paths l \<and> (b \<longrightarrow> answered l)))
     (on_log (\<lambda>l. starts_ok self paths l \<and> (b \<longrightarrow> answered l)))"
proof -
  let ?I = "\<lambda>l. starts_ok self paths l \<and> (b \<longrightarrow> answered l)"
  have close: "hoare (on_log ?I) (io_ignore (traced m (\<lambda>_. EvRelease fd))) (\<lambda>_. on_log ?I) (on_log ?I)" for m :: "('a, unit) io" and fd
    by (rule hoareI) (auto simp: io_simps io_ignore_def answered_def split: sum.splits)
  have unlink: "hoare (on_log ?I) (io_ignore (io_bind (untraced m) (\<lambda>current.
      if current = i then traced m' (\<lambda>_. EvUnlink p) else io_return ()))) (\<lambda>_. on_log ?I) (on_log ?I)"
    for m :: "('a, nat \<times> nat) io" and m' :: "('a, unit) io" and i
    by (rule hoareI) (auto simp: io_simps io_ignore_def answered_def split: sum.splits if_splits)
  show ?thesis
  proof (cases held)
    case (Some fd)
    show ?thesis
      unfolding releaseSpawnLock_def Some option.case
      by (rule hoare_try_bind [OF read_hoare]; rule hoare_bind [OF close])
        (auto intro!: hoare_return unlink)
  qed (auto simp: releaseSpawnLock_def intro!: hoare_return)
qed

lemma ensure_hoare:
  "hoare (on_log (fresh_start (pr_self env) paths)) (ensureDaemon fuel env opts paths)
     (\<lambda>r. on_log (\<lambda>l. starts_ok (pr_self env) paths l \<and> (\<forall>s. r = Some s \<longrightarrow> s = dp_socketPath paths \<and> answered l)))
     (on_log (starts_ok (pr_self env) paths))"
proof -
  let ?K = "fresh_start (pr_self env) paths" and ?J = "starts_ok (pr_self env) paths"
  let ?P = "dp_socketPath paths"
  let ?Q = "\<lambda>r. on_log (\<lambda>l. ?J l \<and> (\<forall>s. r = Some s \<longrightarrow> s = ?P \<and> answered l))"
  have read: "hoare (on_log ?K) (untraced m) (\<lambda>_. on_log ?K) (on_log ?J)" for m
    by (rule hoare_error [OF read_hoare]) (simp add: fresh_start_def)
  have "hoare (on_log ?K) (ping_socket env opts paths) (\<lambda>p. on_log (\<lambda>l. ?K l \<and> last_ping l = Some p)) (on_log ?K)"
    by (rule ping_hoare) simp
  then have ping: "hoare (on_log ?K) (ping_socket env opts paths) (\<lambda>p. on_log (\<lambda>l. ?K l \<and> last_ping l = Some p)) (on_log ?J)"
    by (rule hoare_error) (simp add: fresh_start_def)
  have body: "hoare (on_log (loop_done (pr_self env) paths (Some (x, held))))
      (case x of Ready \<Rightarrow> io_return (Some ?P) | Failed e \<Rightarrow> io_throw e | Onward \<Rightarrow> await_daemon fuel env opts paths deadline)
      ?Q (on_log ?J)" for x held deadline
    by (cases x) (auto intro!: hoare_return hoare_throw hoare_weaken [OF await_hoare] simp: loop_done_def)
  have closing: "hoare (on_log (loop_done (pr_self env) paths (Some (x, held))))
      (io_finally (case x of Ready \<Rightarrow> io_return (Some ?P) | Failed e \<Rightarrow> io_throw e
          | Onward \<Rightarrow> await_daemon fuel env opts paths deadline) (releaseSpawnLock env held (dp_spawnLockPath paths)))
      ?Q (on_log ?J)" for x held deadline
  proof -
    let ?m = "case x of Ready \<Rightarrow> io_return (Some ?P) | Failed e \<Rightarrow> io_throw e
        | Onward \<Rightarrow> await_daemon fuel env opts paths deadline" and ?c = "releaseSpawnLock env held (dp_spawnLockPath paths)"
    have c: "on_log (\<lambda>l. ?J l \<and> (b \<longrightarrow> answered l)) v \<Longrightarrow> on_log (\<lambda>l. ?J l \<and> (b \<longrightarrow> answered l)) (snd (?c v))" for b v
      by (rule hoare_world [OF release_hoare])
    show ?thesis
    proof (rule hoareI)
      fix w w' :: "('a, proc_event) tworld" and e
      assume pre: "on_log (loop_done (pr_self env) paths (Some (x, held))) w" and run: "io_finally ?m ?c w = (Inl e, w')"
      obtain r v where m: "?m w = (r, v)" by fastforce
      have "?J (tw_log v)" using hoare_returns [OF body pre] hoare_throws [OF body pre] m by (cases r) auto
      then show "on_log ?J w'" using c [of False v] run m by (auto simp: io_finally_def split: prod.splits sum.splits)
    next
      fix w w' :: "('a, proc_event) tworld" and y
      assume pre: "on_log (loop_done (pr_self env) paths (Some (x, held))) w" and run: "io_finally ?m ?c w = (Inr y, w')"
      then obtain v u where m: "?m w = (Inr y, v)" and w': "?c v = (Inr u, w')"
        by (auto simp: io_finally_def split: prod.splits sum.splits)
      have "?Q y v" using hoare_returns [OF body pre m] .
      then show "?Q y w'" using c [of "y \<noteq> None" v] w' by auto
    qed
  qed
  have lock: "hoare (on_log ?K) (io_bind (lock_loop fuel env opts paths deadline None) (\<lambda>ended.
      case ended of None \<Rightarrow> io_return None
      | Some (x, held) \<Rightarrow> io_finally (case x of Ready \<Rightarrow> io_return (Some ?P) | Failed e \<Rightarrow> io_throw e
          | Onward \<Rightarrow> await_daemon fuel env opts paths deadline) (releaseSpawnLock env held (dp_spawnLockPath paths))))
      ?Q (on_log ?J)" for deadline
    by (rule hoare_bind [OF lock_loop_hoare])
      (auto intro!: hoare_return closing simp: loop_done_def [of _ _ None] split: option.split)
  have first: "hoare (on_log (\<lambda>l. ?K l \<and> last_ping l = Some p)) (if speaks p then io_return (Some ?P)
      else io_bind (untraced (sp_now env)) (\<lambda>now. io_bind (lock_loop fuel env opts paths (now + eo_startupTimeoutMs opts) None) (\<lambda>ended.
      case ended of None \<Rightarrow> io_return None
      | Some (x, held) \<Rightarrow> io_finally (case x of Ready \<Rightarrow> io_return (Some ?P) | Failed e \<Rightarrow> io_throw e
          | Onward \<Rightarrow> await_daemon fuel env opts paths (now + eo_startupTimeoutMs opts)) (releaseSpawnLock env held (dp_spawnLockPath paths)))))
      ?Q (on_log ?J)" for p
    by (rule hoare_if, (rule hoare_return, simp add: answered_def fresh_start_def), rule hoare_weaken [OF hoare_bind [OF read lock]]) auto
  show ?thesis
    unfolding ensureDaemon_def Let_def by (rule hoare_bind [OF read hoare_bind [OF ping first]])
qed

section \<open>Sample host\<close>

text \<open>A clock and whether the daemon runs; it answers once it has been started.\<close>

definition sample_spawn_env :: "(nat \<times> bool) spawn_env" where
  "sample_spawn_env =
     \<lparr>pr_self = 7, pr_readFile = (\<lambda>_. io_throw ''ENOENT''), pr_psAll = io_throw ''ENOENT'',
      pr_psOne = (\<lambda>_. io_throw ''ENOENT''), pr_kill = (\<lambda>_ _. io_throw ''ESRCH''),
      pr_sleep = (\<lambda>d (t, b). (Inr (), t + d, b)), pr_unlink = (\<lambda>_. io_return ()),
      sp_now = (\<lambda>(t, b). (Inr t, Suc t, b)), sp_mkdir = (\<lambda>_. io_return ()),
      sp_request = (\<lambda>_ _ (t, b). (Inr (if b then Some (JObj [(''status'', JStr ''ok''), (''protocol'', JNum (IntNum 28))])
          else None), t, b)),
      sp_random = io_return ''ab'', sp_open = (\<lambda>_. io_return 3), sp_write = (\<lambda>_ _. io_return ()),
      sp_close = (\<lambda>_. io_return ()), sp_link = (\<lambda>_ _. io_return ()), sp_fstat = (\<lambda>_. io_return (1, 9)),
      sp_stat = (\<lambda>_. io_return (1, 9)), sp_readLock = (\<lambda>_. io_throw ''ENOENT''),
      sp_spawn = (\<lambda>_ _ (t, _). (Inr (), t, True))\<rparr>"

definition sample_paths :: daemon_paths where "sample_paths = resolveDaemonPaths ''/b''"

definition sample_options :: ensure_options where
  "sample_options = \<lparr>eo_startupTimeoutMs = 5, eo_healthTimeoutMs = 2, eo_lockStaleAfterMs = 3, eo_lockRetryMs = 1\<rparr>"

definition sample_start :: "string option result \<times> (nat \<times> bool, proc_event) tworld" where
  "sample_start = ensureDaemon 5 sample_spawn_env sample_options sample_paths \<lparr>tw_host = (0, False), tw_log = []\<rparr>"

section \<open>The properties\<close>

text \<open>
  C31. Starting the hub starts at most one daemon and reports only a daemon that answers: each
  daemon is started while this process holds the spawn lock, before any other was started, and
  when the last answer of the socket was not the current protocol; processes are signalled only
  with the lock held and after the socket answered with another protocol, on the grounds of
  stopping a daemon; and a path is returned only when the last answer of its socket was the current
  protocol.
\<close>

theorem ensure_starts_one_hub:
  assumes "ensureDaemon fuel env opts paths \<lparr>tw_host = w, tw_log = []\<rparr> = (r, t)"
  shows "starts_ok (pr_self env) paths (tw_log t)
    \<and> (\<forall>s. r = Inr (Some s) \<longrightarrow> s = dp_socketPath paths \<and> answered (tw_log t))"
proof -
  have pre: "on_log (fresh_start (pr_self env) paths) \<lparr>tw_host = w, tw_log = []\<rparr>" by simp
  show ?thesis
    using hoare_returns [OF ensure_hoare pre] hoare_throws [OF ensure_hoare pre] assms by (cases r) force+
qed

theorem ensure_starts_one_hub_witness:
  "fst sample_start = Inr (Some ''/b/swarm/daemon.sock'') \<and> started (tw_log (snd sample_start))
   \<and> starts_ok 7 sample_paths (tw_log (snd sample_start)) \<and> answered (tw_log (snd sample_start))"
proof -
  have r: "fst sample_start = Inr (Some ''/b/swarm/daemon.sock'')" by code_simp
  have "tw_log (snd sample_start) = [EvPing PingFail, EvLock (Inr ()),
      EvUnlink ''/b/swarm/daemon.spawn.lock.7.ab'', EvPing PingFail, EvSpawn (spawn_args sample_paths) (Inr ()),
      EvPing (PingOk (IntNum 28)), EvRelease 3, EvUnlink ''/b/swarm/daemon.spawn.lock'']" by code_simp
  then have "started (tw_log (snd sample_start))" by (simp add: started_def)
  moreover have "pr_self sample_spawn_env = 7" by (simp add: sample_spawn_env_def)
  ultimately show ?thesis
    using ensure_starts_one_hub [of 5 sample_spawn_env sample_options sample_paths "(0, False)"
        "fst sample_start" "snd sample_start"] r
    by (simp add: sample_start_def)
qed

section \<open>A start ends\<close>

text \<open>
  \<open>time\<close> counts ticks, \<open>res\<close> of them in a millisecond. Reading the clock takes a tick and nothing
  turns it back.
\<close>

definition forward :: "('w \<Rightarrow> nat) \<Rightarrow> ('w, 'a) io \<Rightarrow> bool" where
  "forward time m \<longleftrightarrow> (\<forall>w. time w \<le> time (snd (m w)))"

definition ticking :: "('w \<Rightarrow> nat) \<Rightarrow> nat \<Rightarrow> 'w spawn_env \<Rightarrow> bool" where
  "ticking time res env \<longleftrightarrow>
     res > 0 \<and> (\<forall>w. fst (sp_now env w) = Inr (time w div res) \<and> time w < time (snd (sp_now env w)))
     \<and> (\<forall>f. forward time (pr_readFile env f)) \<and> forward time (pr_psAll env) \<and> (\<forall>p. forward time (pr_psOne env p))
     \<and> (\<forall>p s. forward time (pr_kill env p s)) \<and> (\<forall>d. forward time (pr_sleep env d)) \<and> (\<forall>f. forward time (pr_unlink env f))
     \<and> (\<forall>f. forward time (sp_mkdir env f)) \<and> (\<forall>s d. forward time (sp_request env s d)) \<and> forward time (sp_random env)
     \<and> (\<forall>f. forward time (sp_open env f)) \<and> (\<forall>h j. forward time (sp_write env h j)) \<and> (\<forall>h. forward time (sp_close env h))
     \<and> (\<forall>f g. forward time (sp_link env f g)) \<and> (\<forall>f. forward time (sp_readLock env f))
     \<and> (\<forall>c as'. forward time (sp_spawn env c as'))"

abbreviation host_time :: "('w \<Rightarrow> nat) \<Rightarrow> ('w, proc_event) tworld \<Rightarrow> nat" where
  "host_time time \<equiv> (\<lambda>t. time (tw_host t))"

lemma forward_basic:
  "forward time (io_return x)" "forward time (io_throw e)"
  "forward time m \<Longrightarrow> forward (host_time time) (untraced m)"
  "forward time m \<Longrightarrow> forward (host_time time) (traced m ev)"
  by (simp_all add: forward_def io_simps)

lemma forward_bind:
  assumes "forward time m" "\<And>x. forward time (f x)"
  shows "forward time (io_bind m f)"
  unfolding forward_def
proof
  fix w
  obtain r v where m: "m w = (r, v)" by fastforce
  then have "time w \<le> time v" using assms(1) unfolding forward_def by (metis snd_conv)
  then show "time w \<le> time (snd (io_bind m f w))"
    using m by (cases r) (auto simp: io_simps intro: order_trans [OF _ assms(2) [unfolded forward_def, rule_format]])
qed

lemma forward_catch:
  assumes "forward time m" "\<And>e. forward time (h e)"
  shows "forward time (io_catch m h)"
  unfolding forward_def
proof
  fix w
  obtain r v where m: "m w = (r, v)" by fastforce
  then have "time w \<le> time v" using assms(1) unfolding forward_def by (metis snd_conv)
  then show "time w \<le> time (snd (io_catch m h w))"
    using m by (cases r) (auto simp: io_simps intro: order_trans [OF _ assms(2) [unfolded forward_def, rule_format]])
qed

lemma forward_try: "forward time m \<Longrightarrow> forward time (io_try m)"
  by (simp add: forward_def io_try_def split: prod.split) (metis snd_conv)

lemma forward_ignore: "forward time m \<Longrightarrow> forward time (io_ignore m)"
  unfolding io_ignore_def by (intro forward_catch forward_basic(1))

lemma forward_cases:
  "(b \<Longrightarrow> forward time m) \<Longrightarrow> (\<not> b \<Longrightarrow> forward time n) \<Longrightarrow> forward time (if b then m else n)"
  "(x = None \<Longrightarrow> forward time m) \<Longrightarrow> (\<And>y. x = Some y \<Longrightarrow> forward time (f y)) \<Longrightarrow>
     forward time (case x of None \<Rightarrow> m | Some y \<Rightarrow> f y)"
  "(\<And>e. z = Inl e \<Longrightarrow> forward time (g e)) \<Longrightarrow> (\<And>y. z = Inr y \<Longrightarrow> forward time (h y)) \<Longrightarrow>
     forward time (case z of Inl e \<Rightarrow> g e | Inr y \<Rightarrow> h y)"
  "(\<And>a b. forward time (k a b)) \<Longrightarrow> forward time (case pr of (a, b) \<Rightarrow> k a b)"
  by (auto split: option.split sum.split prod.split)

lemmas forward_intros = forward_basic forward_bind forward_catch forward_try forward_ignore forward_cases

lemma ticking_forward:
  assumes "ticking time res env"
  shows "forward time (sp_now env)" "forward time (sp_mkdir env f)" "forward time (pr_sleep env d)"
    "forward time (sp_request env s d)" "forward time (sp_readLock env f)" "forward time (sp_spawn env c as')"
    "forward time (sp_open env f)" "forward time (sp_write env h j)" "forward time (sp_close env h)"
    "forward time (sp_link env f g)" "forward time (sp_random env)" "forward time (pr_unlink env f)"
    "forward time (pr_kill env p s)" "forward time (pr_psAll env)" "forward time (pr_psOne env p)"
    "forward time (pr_readFile env f)"
  using assms unfolding ticking_def by (auto simp: forward_def less_imp_le)

lemma truncate_fields [simp]:
  "pr_kill (proc_env.truncate env) = pr_kill env" "pr_sleep (proc_env.truncate env) = pr_sleep env"
  "pr_unlink (proc_env.truncate env) = pr_unlink env" "pr_psAll (proc_env.truncate env) = pr_psAll env"
  "pr_psOne (proc_env.truncate env) = pr_psOne env" "pr_readFile (proc_env.truncate env) = pr_readFile env"
  by (simp_all add: proc_env.defs)

lemma ping_forward: "ticking time res env \<Longrightarrow> forward (host_time time) (ping_socket env opts paths)"
  unfolding ping_socket_def by (intro forward_intros ticking_forward)

lemma poll_exit_forward:
  "ticking time res env \<Longrightarrow> forward (host_time time) (poll_exit (proc_env.truncate env) pid d n)"
  by (induction n) (simp_all add: defaultPidExists_def forward_intros ticking_forward)

lemma terminate_forward:
  assumes "ticking time res env"
  shows "forward (host_time time) (terminateDaemon (proc_env.truncate env) s p d)"
  unfolding terminateDaemon_def resolveDaemonPid_def readDaemonPidFile_def isDaemonPidForSocket_def
    findDaemonPidByCommand_def defaultPidExists_def signalDaemon_def defaultKillPid_def waitForPidExit_def
    unlinkIfExists_def truncate_fields
  by (intro forward_intros ticking_forward [OF assms] poll_exit_forward [OF assms])

lemma start_forward:
  assumes "ticking time res env"
  shows "forward (host_time time) (start_locked env opts paths)"
    "forward (host_time time) (writeSpawnLock env f n)" "forward (host_time time) (contend env opts paths)"
  unfolding start_locked_def spawnDaemonProcess_def writeSpawnLock_def unlinkQuietly_def Let_def contend_def
    isSpawnLockStale_def defaultPidExists_def truncate_fields
  by (intro forward_intros ticking_forward [OF assms] ping_forward [OF assms] terminate_forward [OF assms])+

lemma now_ticks:
  assumes "ticking time res env"
  shows "untraced (sp_now env) t = (Inr (host_time time t div res), snd (untraced (sp_now env) t))"
    and "host_time time t < host_time time (snd (untraced (sp_now env) t))"
  using assms by (simp_all add: ticking_def io_simps)

lemma late_clock:
  assumes "ticking time res env" "\<not> deadline < host_time time t div res"
  shows "host_time time t < Suc deadline * res"
proof -
  have "res > 0" using assms(1) by (simp add: ticking_def)
  moreover have "host_time time t div res < Suc deadline" using assms(2) by simp
  ultimately show ?thesis using div_less_iff_less_mult [of res "host_time time t" "Suc deadline"] by simp
qed

lemma io_try_run: "io_try m w = (Inr (fst (m w)), snd (m w))"
  by (simp add: io_try_def split: prod.split)

lemma bind_run: "m w = (Inr x, v) \<Longrightarrow> io_bind m f w = f x v"
  by (simp add: io_bind_def)

lemma lock_loop_ends:
  assumes "ticking time res env"
  shows "fuel \<ge> 1 \<Longrightarrow> Suc deadline * res < host_time time t + fuel \<Longrightarrow>
    fst (lock_loop fuel env opts paths deadline held t) \<noteq> Inr None"
proof (induction fuel arbitrary: t held)
  case (Suc fuel)
  let ?T = "host_time time"
  define t1 where "t1 = snd (untraced (sp_now env) t)"
  have now: "untraced (sp_now env) t = (Inr (?T t div res), t1)" and tick: "?T t < ?T t1"
    using now_ticks [OF assms, of t] by (simp_all add: t1_def)
  have n: "io_try (untraced (sp_now env)) t = (Inr (Inr (?T t div res)), t1)" using now by (simp add: io_try_run)
  show ?case
  proof (cases "deadline < ?T t div res")
    case True
    then show ?thesis by (simp add: bind_run [of "io_try (untraced (sp_now env))" t, OF n] io_return_def)
  next
    case False
    then have "?T t < Suc deadline * res" by (rule late_clock [OF assms])
    then have more: "fuel \<ge> 1 \<and> Suc deadline * res < ?T t1 + fuel" using Suc.prems tick by linarith
    have again: "fst (lock_loop fuel env opts paths deadline held' u) \<noteq> Inr None" if "?T t1 \<le> ?T u" for held' u
      using more that by (intro Suc.IH) auto
    let ?lock = "io_try (io_bind (untraced (sp_now env)) (writeSpawnLock env (dp_spawnLockPath paths)))"
    let ?contend = "io_try (contend env opts paths)"
    have fwd: "?T v \<le> ?T (snd (?lock v))" "?T v \<le> ?T (snd (?contend v))"
        "?T v \<le> ?T (snd (io_try (start_locked env opts paths) v))" for v
    proof -
      have "forward ?T ?lock"
        by (intro forward_try forward_bind forward_basic start_forward [OF assms] ticking_forward [OF assms])
      moreover have "forward ?T ?contend" "forward ?T (io_try (start_locked env opts paths))"
        by (intro forward_try start_forward [OF assms])+
      ultimately show "?T v \<le> ?T (snd (?lock v))" "?T v \<le> ?T (snd (?contend v))"
        "?T v \<le> ?T (snd (io_try (start_locked env opts paths) v))" unfolding forward_def by blast+
    qed
    have retry: "fst ((if code \<noteq> ''EEXIST'' then io_return (Some (Failed code, held'))
             else io_bind ?contend (\<lambda>waited.
               case waited of
                 Inl e \<Rightarrow> io_return (Some (Failed e, held'))
               | Inr ready \<Rightarrow> if ready then io_return (Some (Ready, held'))
                   else lock_loop fuel env opts paths deadline held')) v) \<noteq> Inr None"
      if "?T t1 \<le> ?T v" for code held' v
    proof -
      obtain r u where c: "?contend v = (Inr r, u)" by (rule that, rule io_try_run)
      then have u: "?T t1 \<le> ?T u" using that fwd(2) [of v] by simp
      show ?thesis
      proof (cases r)
        case (Inr b)
        then show ?thesis using c again [OF u, of held'] by (cases b) (simp_all add: io_bind_def io_return_def)
      qed (use c in \<open>simp add: io_bind_def io_return_def\<close>)
    qed
    obtain lock v where lock: "?lock t1 = (Inr lock, v)" by (rule that, rule io_try_run)
    then have v: "?T t1 \<le> ?T v" using fwd(1) [of t1] by simp
    show ?thesis
    proof (cases lock)
      case (Inl e)
      then show ?thesis
        using False lock retry [OF v, of e held] by (simp add: Let_def bind_run [of "io_try (untraced (sp_now env))" t, OF n] bind_run [of ?lock t1, OF lock] cong: if_cong)
    next
      case (Inr fd)
      obtain r u where s: "io_try (start_locked env opts paths) v = (Inr r, u)"
        by (rule that, rule io_try_run)
      then have u: "?T t1 \<le> ?T u" using v fwd(3) [of v] by simp
      note run = bind_run [of "io_try (untraced (sp_now env))" t, OF n] bind_run [of ?lock t1, OF lock]
        bind_run [of "io_try (start_locked env opts paths)" v, OF s]
      show ?thesis
      proof (cases r)
        case (Inl code)
        then show ?thesis using False retry [OF u, of code "Some fd"] by (simp add: Let_def run \<open>lock = Inr fd\<close> cong: if_cong)
      next
        case (Inr b)
        then show ?thesis using False by (simp add: Let_def run \<open>lock = Inr fd\<close> io_return_def)
      qed
    qed
  qed
qed simp

lemma fst_run: "fst (m w) = Inr x \<Longrightarrow> m w = (Inr x, snd (m w))"
  by (simp add: prod_eq_iff)

lemma bind_throw: "fst (m w) = Inl e \<Longrightarrow> fst (io_bind m f w) = Inl e"
  by (cases "m w") (simp add: io_bind_def)

lemma poll_healthy_ends:
  assumes "ticking time res env"
  shows "fuel \<ge> 1 \<Longrightarrow> Suc deadline * res < host_time time t + fuel \<Longrightarrow>
    fst (pollHealthy fuel env opts paths deadline t) \<noteq> Inr None"
proof (induction fuel arbitrary: t)
  case (Suc fuel)
  let ?T = "host_time time"
  define t1 where "t1 = snd (untraced (sp_now env) t)"
  have now: "untraced (sp_now env) t = (Inr (?T t div res), t1)" and tick: "?T t < ?T t1"
    using now_ticks [OF assms, of t] by (simp_all add: t1_def)
  note now' = bind_run [of "untraced (sp_now env)" t, OF now]
  show ?case
  proof (cases "deadline < ?T t div res")
    case True
    then show ?thesis by (simp add: now' io_return_def)
  next
    case False
    then have "?T t < Suc deadline * res" by (rule late_clock [OF assms])
    then have more: "fuel \<ge> 1 \<and> Suc deadline * res < ?T t1 + fuel" using Suc.prems tick by linarith
    let ?ping = "ping_socket env opts paths" and ?d = "eo_lockRetryMs opts"
    let ?sleep = "traced (pr_sleep env ?d) (\<lambda>_. EvSleep ?d)"
    have fwd: "?T v \<le> ?T (snd (?ping v))" "?T v \<le> ?T (snd (?sleep v))" for v
      using ping_forward [OF assms] forward_basic(4) [OF ticking_forward(3) [OF assms]]
      unfolding forward_def by blast+
    show ?thesis
    proof (cases "fst (?ping t1)")
      case (Inl e)
      then show ?thesis using False by (simp add: now' bind_throw [of ?ping t1, OF Inl])
    next
      case (Inr p)
      note p = bind_run [of ?ping t1, OF fst_run [of ?ping t1, OF Inr]]
      define v where "v = snd (?ping t1)"
      have v: "?T t1 \<le> ?T v" unfolding v_def by (rule fwd(1))
      show ?thesis
      proof (cases "fst (?sleep v)")
        case (Inl e)
        then show ?thesis using False
          by (simp add: now' p v_def [symmetric] io_return_def bind_throw [of ?sleep v, OF Inl])
      next
        case (Inr u)
        have "?T t1 \<le> ?T (snd (?sleep v))" using fwd(2) [of v] v by (rule order_trans [rotated])
        then have "fst (pollHealthy fuel env opts paths deadline (snd (?sleep v))) \<noteq> Inr None"
          using more by (intro Suc.IH) auto
        then show ?thesis
          using False
          by (simp add: now' p v_def [symmetric] io_return_def bind_run [of ?sleep v, OF fst_run [of ?sleep v, OF Inr]])
      qed
    qed
  qed
qed simp

lemma await_ends:
  assumes "ticking time res env" "fuel \<ge> 1" "Suc deadline * res < host_time time t + fuel"
  shows "fst (await_daemon fuel env opts paths deadline t) \<noteq> Inr None"
proof -
  let ?poll = "pollHealthy fuel env opts paths deadline"
  note ends = poll_healthy_ends [OF assms, of opts paths]
  show ?thesis
  proof (cases "fst (?poll t)")
    case (Inl e)
    then show ?thesis by (simp add: await_daemon_def bind_throw [of ?poll t, OF Inl])
  next
    case (Inr r)
    then obtain p where "r = Some p" using ends by auto
    then show ?thesis
      by (simp add: await_daemon_def bind_run [of ?poll t, OF fst_run [of ?poll t, OF Inr]] io_return_def io_throw_def)
  qed
qed

text \<open>
  C32. A start of the hub always ends: on a host whose clock moves on each reading and never goes
  back, some number of rounds is enough for every start from a given state, so that the waiting
  for the lock and for the daemon ends in an answer or an error. \<open>res\<close> ticks of the clock make a
  millisecond.
\<close>

theorem ensure_always_ends:
  assumes "ticking time res env"
  shows "\<exists>rounds. \<forall>fuel \<ge> rounds. fst (ensureDaemon fuel env opts paths t) \<noteq> Inr None"
proof -
  let ?T = "host_time time"
  let ?mkdir = "untraced (sp_mkdir env (dp_runtimeDir paths)) :: (('a, proc_event) tworld, unit) io"
  let ?ping = "ping_socket env opts paths"
  let ?now = "untraced (sp_now env) :: (('a, proc_event) tworld, nat) io"
  define t1 where "t1 = snd (?mkdir t)"
  define t2 where "t2 = snd (?ping t1)"
  define t3 where "t3 = snd (?now t2)"
  define deadline where "deadline = ?T t2 div res + eo_startupTimeoutMs opts"
  show ?thesis
  proof (intro exI allI impI)
    fix fuel assume fuel: "Suc (Suc deadline * res) \<le> fuel"
    show "fst (ensureDaemon fuel env opts paths t) \<noteq> Inr None"
    proof (cases "fst (?mkdir t)")
      case (Inl e)
      then show ?thesis by (simp add: ensureDaemon_def bind_throw [of ?mkdir t, OF Inl])
    next
      case mk: (Inr u)
      note run1 = bind_run [of ?mkdir t, OF fst_run [of ?mkdir t, OF mk]]
      show ?thesis
      proof (cases "fst (?ping t1)")
        case (Inl e)
        then show ?thesis by (simp add: ensureDaemon_def run1 t1_def [symmetric] bind_throw [of ?ping t1, OF Inl])
      next
        case ping: (Inr p)
        note run2 = bind_run [of ?ping t1, OF fst_run [of ?ping t1, OF ping]]
        have now: "?now t2 = (Inr (?T t2 div res), t3)" unfolding t3_def by (rule now_ticks(1) [OF assms])
        note run3 = bind_run [of ?now t2, OF now]
        let ?loop = "lock_loop fuel env opts paths deadline None"
        have ends: "fst (?loop t3) \<noteq> Inr None"
          using fuel by (intro lock_loop_ends [OF assms]) auto
        show ?thesis
        proof (cases "speaks p")
          case True
          then show ?thesis by (simp add: ensureDaemon_def run1 run2 t1_def [symmetric] io_return_def)
        next
          case False
          show ?thesis
          proof (cases "fst (?loop t3)")
            case (Inl e)
            then show ?thesis using False
              by (simp add: ensureDaemon_def run1 run2 run3 t1_def [symmetric] t2_def [symmetric] Let_def
                  deadline_def [symmetric] bind_throw [of ?loop t3, OF Inl])
          next
            case loop: (Inr r)
            then obtain x held where r: "r = Some (x, held)" using ends by auto
            let ?m = "case x of Ready \<Rightarrow> io_return (Some (dp_socketPath paths)) | Failed e \<Rightarrow> io_throw e
               | Onward \<Rightarrow> await_daemon fuel env opts paths deadline"
            have "fst (?m v) \<noteq> Inr None" for v
              using fuel await_ends [OF assms, of fuel deadline v opts paths]
              by (cases x) (auto simp: io_return_def io_throw_def)
            then have "fst (io_finally ?m c v) \<noteq> Inr None" for c v
              by (auto simp: io_finally_def split: prod.split sum.split) (metis fst_conv)
            then show ?thesis using False
              by (cases x) (simp_all add: ensureDaemon_def run1 run2 run3 t1_def [symmetric] t2_def [symmetric] Let_def
                  deadline_def [symmetric] bind_run [of ?loop t3, OF fst_run [of ?loop t3, OF loop]] r)
          qed
        qed
      qed
    qed
  qed
qed

lemma sample_ticking: "ticking fst 1 sample_spawn_env"
  by (auto simp: ticking_def sample_spawn_env_def forward_def io_return_def io_throw_def)

theorem ensure_always_ends_witness:
  "\<exists>rounds. fst (ensureDaemon rounds sample_spawn_env sample_options sample_paths
     \<lparr>tw_host = (0, False), tw_log = []\<rparr>) \<noteq> Inr None"
  using ensure_always_ends [OF sample_ticking] by blast

end
