(* ===== verification/HubLock.thy ===== *)
theory HubLock
  imports Main
begin

text \<open>
  The spawn lock between processes (\<open>pi/core/hub/spawn.ts\<close>): several processes start the hub at once
  and interleave between the file-system calls of \<open>writeSpawnLock\<close>, \<open>isSpawnLockStale\<close>, the reclaiming
  in \<open>ensureDaemon\<close> and \<open>releaseSpawnLock\<close>. A lock file is its inode; the payload is in place before
  the file has its name, so nobody sees an unwritten lock.
\<close>

datatype lock_pc =
    Starting
  | Blocked
  | Reclaiming
  | Holding nat
  | Removing nat
  | Gone

record lock_state =
  lk_file :: "nat option"
  lk_next :: nat
  lk_pc :: "nat \<Rightarrow> lock_pc"

definition lock_init :: lock_state where
  "lock_init = \<lparr>lk_file = None, lk_next = 0, lk_pc = (\<lambda>_. Starting)\<rparr>"

definition at_pc :: "nat \<Rightarrow> lock_pc \<Rightarrow> lock_state \<Rightarrow> lock_state" where
  "at_pc i pc s = s\<lparr>lk_pc := (lk_pc s)(i := pc)\<rparr>"

text \<open>Why a process judged the lock stale: no file to read, or what the file says.\<close>

datatype staleness = Missing | Old_or_dead

datatype lock_label = Plain | Judged staleness

inductive lock_step :: "lock_state \<Rightarrow> lock_label \<Rightarrow> lock_state \<Rightarrow> bool" where
  take: "lk_pc s i = Starting \<Longrightarrow> lk_file s = None \<Longrightarrow>
     lock_step s Plain (at_pc i (Holding (lk_next s)) (s\<lparr>lk_file := Some (lk_next s), lk_next := Suc (lk_next s)\<rparr>))"
| exists: "lk_pc s i = Starting \<Longrightarrow> lk_file s \<noteq> None \<Longrightarrow> lock_step s Plain (at_pc i Blocked s)"
| wait: "lk_pc s i = Blocked \<Longrightarrow> lk_file s \<noteq> None \<Longrightarrow> lock_step s Plain (at_pc i Starting s)"
| missing: "lk_pc s i = Blocked \<Longrightarrow> lk_file s = None \<Longrightarrow> lock_step s (Judged Missing) (at_pc i Reclaiming s)"
| stale: "lk_pc s i = Blocked \<Longrightarrow> lk_file s \<noteq> None \<Longrightarrow> lock_step s (Judged Old_or_dead) (at_pc i Reclaiming s)"
| reclaim: "lk_pc s i = Reclaiming \<Longrightarrow> lock_step s Plain (at_pc i Starting (s\<lparr>lk_file := None\<rparr>))"
| own: "lk_pc s i = Holding n \<Longrightarrow> lk_file s = Some n \<Longrightarrow> lock_step s Plain (at_pc i (Removing n) s)"
| other: "lk_pc s i = Holding n \<Longrightarrow> lk_file s \<noteq> Some n \<Longrightarrow> lock_step s Plain (at_pc i Gone s)"
| release: "lk_pc s i = Removing n \<Longrightarrow> lock_step s Plain (at_pc i Gone (s\<lparr>lk_file := None\<rparr>))"

inductive_cases lock_stepE: "lock_step s a t"

text \<open>\<open>lock_run J s\<close>: reachable by steps in which no lock is judged stale for a reason outside \<open>J\<close>.\<close>

inductive lock_run :: "staleness set \<Rightarrow> lock_state \<Rightarrow> bool" for J where
  init: "lock_run J lock_init"
| plain: "lock_run J s \<Longrightarrow> lock_step s Plain t \<Longrightarrow> lock_run J t"
| judged: "lock_run J s \<Longrightarrow> lock_step s (Judged j) t \<Longrightarrow> j \<in> J \<Longrightarrow> lock_run J t"

definition holds :: "lock_state \<Rightarrow> nat \<Rightarrow> bool" where
  "holds s i \<longleftrightarrow> (\<exists>n. lk_pc s i = Holding n \<or> lk_pc s i = Removing n)"

text \<open>Without reclaiming, the file is the one holder's and nobody is about to reclaim it.\<close>

definition lock_inv :: "lock_state \<Rightarrow> bool" where
  "lock_inv s \<longleftrightarrow> (\<forall>i n. lk_pc s i = Holding n \<or> lk_pc s i = Removing n \<longrightarrow> lk_file s = Some n)
     \<and> (\<forall>i j. holds s i \<longrightarrow> holds s j \<longrightarrow> i = j) \<and> (\<forall>i. lk_pc s i \<noteq> Reclaiming)"

lemma at_pc_simps [simp]:
  "lk_file (at_pc i pc s) = lk_file s" "lk_pc (at_pc i pc s) j = (if j = i then pc else lk_pc s j)"
  by (simp_all add: at_pc_def)

lemma holds_at_pc [simp]:
  "holds (at_pc i pc s) j \<longleftrightarrow> (if j = i then (\<exists>n. pc = Holding n \<or> pc = Removing n) else holds s j)"
  by (simp add: holds_def)

lemma holds_file [simp]: "holds (s\<lparr>lk_file := f\<rparr>) i = holds s i" "holds (s\<lparr>lk_file := f, lk_next := n\<rparr>) i = holds s i"
  by (simp_all add: holds_def)

lemma holds_pc: "lk_pc s i = Holding n \<Longrightarrow> holds s i" "lk_pc s i = Removing n \<Longrightarrow> holds s i"
  by (auto simp: holds_def)

text \<open>\<open>has s i n\<close>: process \<open>i\<close> holds the lock whose inode is \<open>n\<close>.\<close>

definition has :: "lock_state \<Rightarrow> nat \<Rightarrow> nat \<Rightarrow> bool" where
  "has s i n \<longleftrightarrow> lk_pc s i = Holding n \<or> lk_pc s i = Removing n"

lemma lock_inv_alt:
  "lock_inv s \<longleftrightarrow> (\<forall>i n. has s i n \<longrightarrow> lk_file s = Some n) \<and> (\<forall>i j n m. has s i n \<longrightarrow> has s j m \<longrightarrow> i = j)
     \<and> (\<forall>i. lk_pc s i \<noteq> Reclaiming)"
  unfolding lock_inv_def holds_def has_def by blast

lemma lock_inv_fewer:
  assumes "lock_inv s" "lk_file t = lk_file s" "\<And>i n. has t i n \<Longrightarrow> has s i n" "\<And>i. lk_pc t i \<noteq> Reclaiming"
  shows "lock_inv t"
  using assms unfolding lock_inv_alt by metis

lemma lock_inv_step:
  assumes "lock_inv s" "lock_step s Plain t"
  shows "lock_inv t"
proof -
  have quiet: "lk_pc s i \<noteq> Reclaiming" for i using assms(1) by (simp add: lock_inv_alt)
  from assms(2) show ?thesis
  proof (cases rule: lock_step.cases)
    case (take i)
    then have "\<not> has s j n" for j n using assms(1) by (auto simp: lock_inv_alt)
    then have "has t j n \<longleftrightarrow> j = i \<and> n = lk_next s" for j n using take by (auto simp: has_def)
    then show ?thesis using take quiet by (simp add: lock_inv_alt)
  next
    case (release i n)
    then have "has s i n" by (simp add: has_def)
    then have "\<not> has t j m" for j m using release assms(1) by (auto simp: lock_inv_alt has_def split: if_splits)
    then show ?thesis using release quiet by (simp add: lock_inv_alt)
  next
    case (reclaim i)
    then show ?thesis using quiet by blast
  qed (use quiet in \<open>auto intro!: lock_inv_fewer [OF assms(1)] simp: has_def split: if_splits\<close>)
qed

lemma lock_inv_run: "lock_run {} s \<Longrightarrow> lock_inv s"
proof (induction rule: lock_run.induct)
  case init
  show ?case by (simp add: lock_inv_def lock_init_def holds_def)
qed (blast intro: lock_inv_step)+


definition one_holder :: lock_state where
  "one_holder = at_pc 1 Blocked (at_pc 0 (Holding 0) (lock_init\<lparr>lk_file := Some 0, lk_next := 1\<rparr>))"

lemma one_holder_run: "lock_run J one_holder"
proof -
  have "lock_step lock_init Plain (at_pc 0 (Holding 0) (lock_init\<lparr>lk_file := Some 0, lk_next := 1\<rparr>))"
    using take [of lock_init 0] by (simp add: lock_init_def)
  from plain [OF init this] have "lock_run J (at_pc 0 (Holding 0) (lock_init\<lparr>lk_file := Some 0, lk_next := 1\<rparr>))" .
  moreover have "lock_step (at_pc 0 (Holding 0) (lock_init\<lparr>lk_file := Some 0, lk_next := 1\<rparr>)) Plain one_holder"
    unfolding one_holder_def by (rule exists) (simp_all add: lock_init_def)
  ultimately show ?thesis by (rule plain)
qed


text \<open>
  Reclaiming does not exclude: a process that found the lock file already removed still unlinks the
  path, and by then another process may hold a new lock there. Processes 1 and 2 both end up
  holding the lock and both start a daemon; no lock is old and no process has died.
\<close>

lemma missing_lock_breaks_exclusion:
  "\<exists>s. lock_run {Missing} s \<and> holds s 1 \<and> holds s 2"
proof -
  let ?J = "{Missing}"
  define s1 where "s1 = at_pc 0 (Removing 0) one_holder"
  define s2 where "s2 = at_pc 0 Gone (s1\<lparr>lk_file := None\<rparr>)"
  define s3 where "s3 = at_pc 1 Reclaiming s2"
  define s4 where "s4 = at_pc 2 (Holding 1) (s3\<lparr>lk_file := Some 1, lk_next := 2\<rparr>)"
  define s5 where "s5 = at_pc 1 Starting (s4\<lparr>lk_file := None\<rparr>)"
  define s6 where "s6 = at_pc 1 (Holding 2) (s5\<lparr>lk_file := Some 2, lk_next := 3\<rparr>)"
  note defs = one_holder_def lock_init_def at_pc_def s1_def s2_def s3_def s4_def s5_def s6_def
  have "lock_run ?J s1"
    unfolding s1_def by (rule plain [OF one_holder_run], rule own) (simp_all add: one_holder_def)
  moreover have "lock_step s1 Plain s2"
    unfolding s2_def by (rule release [of _ _ 0]) (simp add: s1_def)
  ultimately have "lock_run ?J s2" by (rule plain)
  moreover have "lock_step s2 (Judged Missing) s3"
    unfolding s3_def by (rule missing) (simp_all add: s2_def s1_def one_holder_def)
  ultimately have "lock_run ?J s3" by (rule judged) simp
  moreover have "lock_step s3 Plain s4" using take [of s3 2] by (simp add: defs numeral_2_eq_2)
  ultimately have "lock_run ?J s4" by (rule plain)
  moreover have "lock_step s4 Plain s5" unfolding s5_def by (rule reclaim) (simp add: s4_def s3_def)
  ultimately have "lock_run ?J s5" by (rule plain)
  moreover have "lock_step s5 Plain s6" using take [of s5 1] by (simp add: defs eval_nat_numeral)
  ultimately have "lock_run ?J s6" by (rule plain)
  moreover have "holds s6 1 \<and> holds s6 2" by (simp add: holds_def s6_def s5_def s4_def)
  ultimately show ?thesis by blast
qed

end
