(* ===== verification/HubSession.thy ===== *)
theory HubSession
  imports Prelude
begin

text \<open>
  The life of the hub connection in a session (\<open>pi/core/hub/index.ts\<close>, \<open>state.ts\<close>): each session
  start makes a connection attempt of a new generation, which connects in the background; the
  session shutdown and later starts make it stale. The state is shared by the process; connections,
  metadata wirings and listeners are named by numbers. A start that finds a live connection goes
  on with it before any other event of the system can come.
\<close>

section \<open>State\<close>

datatype close_handler = TrackClose | WiringClose nat

datatype hub_status = Starting_up | Connected | Unavailable string | Disconnected | Idle

record hub_session =
  hb_connection :: "nat option"
  hb_connecting :: "nat option"
  hb_wiring :: "nat option"
  hb_generation :: nat
  hb_attempts :: "nat list"
  hb_cleanups :: "(nat \<times> nat) list"
  hb_closing :: "nat option"
  hb_nextConn :: nat
  hb_nextWiring :: nat
  hb_wiringConn :: "nat \<Rightarrow> nat"
  hb_stopped :: "nat \<Rightarrow> bool"
  hb_handlers :: "nat \<Rightarrow> close_handler list"
  hb_asked :: "nat \<Rightarrow> bool"
  hb_closed :: "nat \<Rightarrow> bool"
  hb_ran :: "(nat \<times> nat) list"
  hb_status :: "hub_status option"
  hb_notices :: "string list"

definition hub_session_init :: hub_session where
  "hub_session_init = \<lparr>hb_connection = None, hb_connecting = None, hb_wiring = None, hb_generation = 0, hb_attempts = [],
     hb_cleanups = [], hb_closing = None, hb_nextConn = 0, hb_nextWiring = 0, hb_wiringConn = (\<lambda>_. 0),
     hb_stopped = (\<lambda>_. False), hb_handlers = (\<lambda>_. []), hb_asked = (\<lambda>_. False), hb_closed = (\<lambda>_. False), hb_ran = [],
     hb_status = None, hb_notices = []\<rparr>"

definition publishDaemonStatus :: "hub_status \<Rightarrow> hub_session \<Rightarrow> hub_session" where
  "publishDaemonStatus st h = h\<lparr>hb_status := Some st\<rparr>"

definition runCleanups :: "hub_session \<Rightarrow> hub_session" where
  "runCleanups h = h\<lparr>hb_ran := hb_ran h @ hb_cleanups h, hb_cleanups := []\<rparr>"

text \<open>\<open>connection.onClose\<close> and its cancellation.\<close>

definition on_close :: "nat \<Rightarrow> close_handler \<Rightarrow> hub_session \<Rightarrow> hub_session" where
  "on_close c x h = h\<lparr>hb_handlers := (hb_handlers h)(c := hb_handlers h c @ [x])\<rparr>"

definition off_close :: "nat \<Rightarrow> close_handler \<Rightarrow> hub_session \<Rightarrow> hub_session" where
  "off_close c x h = h\<lparr>hb_handlers := (hb_handlers h)(c := filter (\<lambda>y. y \<noteq> x) (hb_handlers h c))\<rparr>"

text \<open>\<open>wiring.stop()\<close>: once, it takes the wiring off the connection and stops its publisher.\<close>

definition stop_wiring :: "nat \<Rightarrow> hub_session \<Rightarrow> hub_session" where
  "stop_wiring w h =
     (if hb_stopped h w then h
      else off_close (hb_wiringConn h w) (WiringClose w) (h\<lparr>hb_stopped := (hb_stopped h)(w := True)\<rparr>))"

definition clearHubMetadataWiring :: "nat option \<Rightarrow> hub_session \<Rightarrow> bool \<times> hub_session" where
  "clearHubMetadataWiring owner h =
     (case owner of
        None \<Rightarrow> (False, h)
      | Some w \<Rightarrow> if hb_wiring h \<noteq> Some w then (False, h) else (True, stop_wiring w (h\<lparr>hb_wiring := None\<rparr>)))"

abbreviation clear_wiring :: "hub_session \<Rightarrow> hub_session" where
  "clear_wiring h \<equiv> snd (clearHubMetadataWiring (hb_wiring h) h)"

definition replaceHubMetadataWiring :: "nat \<Rightarrow> hub_session \<Rightarrow> hub_session" where
  "replaceHubMetadataWiring w h =
     (if hb_wiring h = Some w then h
      else (let h' = (case hb_wiring h of None \<Rightarrow> h | Some p \<Rightarrow> stop_wiring p (h\<lparr>hb_wiring := None\<rparr>))
            in h'\<lparr>hb_wiring := Some w\<rparr>))"

definition trackDaemonConnection :: "nat \<Rightarrow> hub_session \<Rightarrow> hub_session" where
  "trackDaemonConnection c h =
     publishDaemonStatus Connected ((on_close c TrackClose h)\<lparr>hb_connection := Some c\<rparr>)"

section \<open>The handlers\<close>

text \<open>
  What the connect listeners do: each may leave a cleanup, and one may throw; \<open>Inl\<close> the message of
  the first that throws.
\<close>

type_synonym listeners = "string + nat option"

fun run_listeners :: "nat \<Rightarrow> listeners list \<Rightarrow> hub_session \<Rightarrow> string option \<times> hub_session" where
  "run_listeners c [] h = (None, h)"
| "run_listeners c (Inl e # ls) h = (Some e, h)"
| "run_listeners c (Inr None # ls) h = run_listeners c ls h"
| "run_listeners c (Inr (Some k) # ls) h = run_listeners c ls (h\<lparr>hb_cleanups := hb_cleanups h @ [(k, c)]\<rparr>)"

definition attempt_failed :: "bool \<Rightarrow> string \<Rightarrow> hub_session \<Rightarrow> hub_session" where
  "attempt_failed isTopLevel message h =
     (let h' = runCleanups (clear_wiring (publishDaemonStatus (Unavailable message) h))
      in if isTopLevel then h'\<lparr>hb_notices := hb_notices h' @ [''basecamp hub unavailable: '' @ message]\<rparr> else h')"

text \<open>The attempt has a connection and is current.\<close>

definition attempt_connected :: "bool \<Rightarrow> nat \<Rightarrow> listeners list \<Rightarrow> hub_session \<Rightarrow> hub_session" where
  "attempt_connected isTopLevel c ls h =
     (let h1 = (if hb_connection h = Some c then h else trackDaemonConnection c h);
          h2 = clear_wiring (runCleanups h1);
          w = hb_nextWiring h2;
          h3 = on_close c (WiringClose w) (h2\<lparr>hb_nextWiring := Suc w, hb_wiringConn := (hb_wiringConn h2)(w := c)\<rparr>);
          h4 = replaceHubMetadataWiring w h3
      in case run_listeners c ls h4 of
           (None, h5) \<Rightarrow> h5
         | (Some e, h5) \<Rightarrow> attempt_failed isTopLevel e h5)"

datatype hub_event =
    SessionStart "listeners list"
  | AttemptConnects nat "listeners list"
  | AttemptFails nat string
  | ConnectionCloses nat
  | SessionShutdown
  | ShutdownResumes

definition ask_close :: "nat \<Rightarrow> hub_session \<Rightarrow> hub_session" where
  "ask_close c h = h\<lparr>hb_asked := (hb_asked h)(c := True)\<rparr>"

definition session_start :: "bool \<Rightarrow> listeners list \<Rightarrow> hub_session \<Rightarrow> hub_session" where
  "session_start isTopLevel ls h =
     (let g = Suc (hb_generation h);
          h' = publishDaemonStatus Starting_up (h\<lparr>hb_generation := g, hb_connecting := Some g\<rparr>)
      in case hb_connection h of
           Some c \<Rightarrow> (attempt_connected isTopLevel c ls h')\<lparr>hb_connecting := None\<rparr>
         | None \<Rightarrow> h'\<lparr>hb_attempts := hb_attempts h' @ [g]\<rparr>)"

definition attempt_ended :: "nat \<Rightarrow> hub_session \<Rightarrow> hub_session" where
  "attempt_ended g h =
     (let h' = h\<lparr>hb_attempts := filter (\<lambda>a. a \<noteq> g) (hb_attempts h)\<rparr>
      in if g = hb_generation h then h'\<lparr>hb_connecting := None\<rparr> else h')"

definition attempt_connects :: "bool \<Rightarrow> nat \<Rightarrow> listeners list \<Rightarrow> hub_session \<Rightarrow> hub_session" where
  "attempt_connects isTopLevel g ls h =
     (let c = hb_nextConn h; h' = h\<lparr>hb_nextConn := Suc c\<rparr>
      in attempt_ended g (if g \<noteq> hb_generation h then ask_close c h' else attempt_connected isTopLevel c ls h'))"

definition attempt_fails :: "bool \<Rightarrow> nat \<Rightarrow> string \<Rightarrow> hub_session \<Rightarrow> hub_session" where
  "attempt_fails isTopLevel g message h =
     attempt_ended g (if g \<noteq> hb_generation h then h else attempt_failed isTopLevel message h)"

definition call_close_handler :: "nat \<Rightarrow> hub_session \<Rightarrow> close_handler \<Rightarrow> hub_session" where
  "call_close_handler c h x =
     (if x \<notin> set (hb_handlers h c) then h
      else (case x of
          TrackClose \<Rightarrow> if hb_connection h = Some c then publishDaemonStatus Disconnected (h\<lparr>hb_connection := None\<rparr>) else h
        | WiringClose w \<Rightarrow> (case clearHubMetadataWiring (Some w) h of (b, h') \<Rightarrow> if b then runCleanups h' else h')))"

definition connection_closes :: "nat \<Rightarrow> hub_session \<Rightarrow> hub_session" where
  "connection_closes c h = foldl (call_close_handler c) (h\<lparr>hb_closed := (hb_closed h)(c := True)\<rparr>) (hb_handlers h c)"

text \<open>\<open>session_shutdown\<close> up to the wait for the attempt, and after it.\<close>

definition session_shutdown :: "hub_session \<Rightarrow> hub_session" where
  "session_shutdown h =
     (let connection = hb_connection h; connecting = hb_connecting h;
          h1 = h\<lparr>hb_generation := Suc (hb_generation h), hb_connection := None, hb_connecting := None\<rparr>;
          h2 = publishDaemonStatus Idle (runCleanups (clear_wiring h1));
          h3 = (case connection of Some c \<Rightarrow> ask_close c h2 | None \<Rightarrow> h2)
      in h3\<lparr>hb_closing := connecting\<rparr>)"

definition shutdown_resumes :: "hub_session \<Rightarrow> hub_session" where
  "shutdown_resumes h =
     (let h' = h\<lparr>hb_closing := None\<rparr>
      in case hb_connection h of Some c \<Rightarrow> ask_close c (h'\<lparr>hb_connection := None\<rparr>) | None \<Rightarrow> h')"

text \<open>
  An event that cannot happen changes nothing: the host waits for the shutdown handler before it
  starts another session, an attempt ends once, a connection closes once, and the shutdown
  goes on when the attempt it waits for has ended.
\<close>

fun hub_step :: "bool \<Rightarrow> hub_session \<Rightarrow> hub_event \<Rightarrow> hub_session" where
  "hub_step isTop h (SessionStart ls) = (if hb_closing h \<noteq> None then h else session_start isTop ls h)"
| "hub_step isTop h (AttemptConnects g ls) = (if g \<in> set (hb_attempts h) then attempt_connects isTop g ls h else h)"
| "hub_step isTop h (AttemptFails g e) = (if g \<in> set (hb_attempts h) then attempt_fails isTop g e h else h)"
| "hub_step isTop h (ConnectionCloses c) = (if c < hb_nextConn h \<and> \<not> hb_closed h c then connection_closes c h else h)"
| "hub_step isTop h SessionShutdown = (if hb_closing h \<noteq> None then h else session_shutdown h)"
| "hub_step isTop h ShutdownResumes = 
     (case hb_closing h of Some g \<Rightarrow> if g \<in> set (hb_attempts h) then h else shutdown_resumes h | None \<Rightarrow> h)"

definition hub_run :: "bool \<Rightarrow> hub_event list \<Rightarrow> hub_session" where
  "hub_run isTop es = foldl (hub_step isTop) hub_session_init es"


section \<open>What the session keeps\<close>

text \<open>
  At every moment: the tracked connection is open and nobody asked it to close; the current wiring is
  the only one not stopped, it is on the tracked connection, and the close handlers of a connection
  are the tracking one and, on the tracked connection, that of the current wiring; pending cleanups are
  of the tracked connection, with a wiring that will run them; and every other connection made
  is closed or was asked to close.
\<close>

definition wiring_handler :: "nat option \<Rightarrow> close_handler list" where
  "wiring_handler w = (case w of None \<Rightarrow> [] | Some v \<Rightarrow> [WiringClose v])"

definition connection_ok :: "hub_session \<Rightarrow> nat \<Rightarrow> bool" where
  "connection_ok h c =
     (if hb_connection h = Some c
      then c < hb_nextConn h \<and> \<not> hb_closed h c \<and> \<not> hb_asked h c
           \<and> hb_handlers h c = TrackClose # wiring_handler (hb_wiring h)
      else (c < hb_nextConn h \<longrightarrow> hb_closed h c \<or> hb_asked h c) \<and> hb_handlers h c \<in> {[], [TrackClose]}
           \<and> (hb_nextConn h \<le> c \<longrightarrow> hb_handlers h c = [] \<and> \<not> hb_closed h c \<and> \<not> hb_asked h c))"

definition wiring_ok :: "hub_session \<Rightarrow> bool" where
  "wiring_ok h =
     ((\<forall>w. hb_wiring h = Some w \<longrightarrow> w < hb_nextWiring h \<and> hb_connection h = Some (hb_wiringConn h w))
      \<and> (\<forall>w. hb_stopped h w = (w < hb_nextWiring h \<and> hb_wiring h \<noteq> Some w)))"

definition cleanups_ok :: "hub_session \<Rightarrow> bool" where
  "cleanups_ok h = (\<forall>x \<in> set (hb_cleanups h). hb_wiring h \<noteq> None \<and> hb_connection h = Some (snd x))"

definition attempts_ok :: "hub_session \<Rightarrow> bool" where
  "attempts_ok h =
     ((\<forall>g \<in> set (hb_attempts h). g \<le> hb_generation h)
      \<and> (hb_generation h \<in> set (hb_attempts h) \<longrightarrow> hb_connection h = None)
      \<and> (hb_closing h \<noteq> None \<longrightarrow> hb_connection h = None \<and> hb_generation h \<notin> set (hb_attempts h)))"

definition wired_ok :: "hub_session \<Rightarrow> bool" where
  "wired_ok h = ((\<forall>c. connection_ok h c) \<and> wiring_ok h \<and> cleanups_ok h)"

lemmas hub_defs = connection_ok_def wiring_ok_def cleanups_ok_def attempts_ok_def wired_ok_def wiring_handler_def
lemmas hub_ops = publishDaemonStatus_def runCleanups_def on_close_def off_close_def ask_close_def

lemma wiredI:
  assumes "\<And>c. connection_ok h c" and "wiring_ok h" and "cleanups_ok h"
  shows "wired_ok h"
  using assms by (simp add: wired_ok_def)

lemma wiredD:
  assumes "wired_ok h"
  shows "connection_ok h c" "wiring_ok h" "cleanups_ok h"
  using assms by (simp_all add: wired_ok_def)

lemma wired_init: "wired_ok hub_session_init" "attempts_ok hub_session_init"
  by (simp_all add: hub_defs hub_session_init_def)

lemma parts_keep [simp]:
  "connection_ok (h\<lparr>hb_cleanups := cs\<rparr>) c = connection_ok h c" "wiring_ok (h\<lparr>hb_cleanups := cs\<rparr>) = wiring_ok h"
  "connection_ok (h\<lparr>hb_ran := rs\<rparr>) c = connection_ok h c" "wiring_ok (h\<lparr>hb_ran := rs\<rparr>) = wiring_ok h"
  by (simp_all add: connection_ok_def wiring_ok_def)

lemma wired_cleanup:
  assumes "wired_ok h" and "hb_wiring h \<noteq> None" and "hb_connection h = Some c"
  shows "wired_ok (h\<lparr>hb_cleanups := hb_cleanups h @ [(k, c)]\<rparr>)"
  using assms by (auto simp: wired_ok_def cleanups_ok_def)

lemma wired_status [simp]: "wired_ok (publishDaemonStatus s h) = wired_ok h"
  by (simp add: hub_defs hub_ops)

lemma wired_generation [simp]:
  "wired_ok (h\<lparr>hb_generation := g\<rparr>) = wired_ok h" "wired_ok (h\<lparr>hb_connecting := x\<rparr>) = wired_ok h"
  "wired_ok (h\<lparr>hb_attempts := as\<rparr>) = wired_ok h" "wired_ok (h\<lparr>hb_notices := ns\<rparr>) = wired_ok h"
  "wired_ok (h\<lparr>hb_closing := k\<rparr>) = wired_ok h"
  by (simp_all add: hub_defs)

lemma clear_wiring_none [simp]: "snd (clearHubMetadataWiring None h) = h"
  by (simp add: clearHubMetadataWiring_def)

lemma clear_wiring_some:
  assumes "wired_ok h" and "hb_wiring h = Some w"
  shows "snd (clearHubMetadataWiring (Some w) h) = off_close (hb_wiringConn h w) (WiringClose w) (h\<lparr>hb_wiring := None, hb_stopped := (hb_stopped h)(w := True)\<rparr>)"
proof -
  have "\<not> hb_stopped h w" using assms by (simp add: wired_ok_def wiring_ok_def)
  then show ?thesis using assms(2) by (simp add: clearHubMetadataWiring_def stop_wiring_def)
qed

lemma wired_clear:
  assumes "wired_ok h"
  shows "wired_ok (runCleanups (clear_wiring h))" "hb_wiring (clear_wiring h) = None"
    "hb_connection (clear_wiring h) = hb_connection h" "hb_nextConn (clear_wiring h) = hb_nextConn h"
proof -
  have "wired_ok (runCleanups (clear_wiring h)) \<and> hb_wiring (clear_wiring h) = None
    \<and> hb_connection (clear_wiring h) = hb_connection h \<and> hb_nextConn (clear_wiring h) = hb_nextConn h"
  proof (cases "hb_wiring h")
    case None
    have "wired_ok (runCleanups h)"
      using assms by (simp add: wired_ok_def runCleanups_def cleanups_ok_def)
    then show ?thesis by (simp add: None)
  next
    case (Some w)
    note c = clear_wiring_some [OF assms Some]
    have "wired_ok (runCleanups (snd (clearHubMetadataWiring (Some w) h)))"
    proof (rule wiredI)
      show "connection_ok (runCleanups (snd (clearHubMetadataWiring (Some w) h))) c" for c
        using wiredD(1) [OF assms, of c] wiredD(2) [OF assms] Some unfolding c
        by (auto simp: connection_ok_def wiring_ok_def hub_ops wiring_handler_def split: if_splits)
      show "wiring_ok (runCleanups (snd (clearHubMetadataWiring (Some w) h)))"
        using wiredD(2) [OF assms] Some unfolding c by (auto simp: wiring_ok_def hub_ops)
      show "cleanups_ok (runCleanups (snd (clearHubMetadataWiring (Some w) h)))"
        by (simp add: cleanups_ok_def runCleanups_def)
    qed
    then show ?thesis by (simp add: Some) (simp add: c off_close_def)
  qed
  then show "wired_ok (runCleanups (clear_wiring h))" "hb_wiring (clear_wiring h) = None"
    "hb_connection (clear_wiring h) = hb_connection h" "hb_nextConn (clear_wiring h) = hb_nextConn h" by auto
qed

lemma runCleanups_keeps [simp]:
  "hb_connection (runCleanups h) = hb_connection h" "hb_wiring (runCleanups h) = hb_wiring h"
  "hb_nextConn (runCleanups h) = hb_nextConn h"
  by (simp_all add: runCleanups_def)

lemma status_keeps [simp]:
  "hb_connection (publishDaemonStatus s h) = hb_connection h" "hb_wiring (publishDaemonStatus s h) = hb_wiring h"
  "hb_nextConn (publishDaemonStatus s h) = hb_nextConn h"
  by (simp_all add: publishDaemonStatus_def)

lemma runCleanups_clear: "clear_wiring (runCleanups h) = runCleanups (clear_wiring h)"
  by (simp add: clearHubMetadataWiring_def stop_wiring_def hub_ops split: option.split)

lemma wired_unwired:
  assumes "wired_ok h" and "hb_wiring h = None"
  shows "hb_cleanups h = []"
  using assms by (cases "hb_cleanups h") (auto simp: hub_defs)

text \<open>A fresh connection that is tracked while no other is.\<close>

lemma wired_track:
  assumes "wired_ok h" and "hb_connection h = None"
  shows "wired_ok (trackDaemonConnection (hb_nextConn h) (h\<lparr>hb_nextConn := Suc (hb_nextConn h)\<rparr>))" (is "wired_ok ?h")
proof (rule wiredI)
  have w: "hb_wiring h = None" using wiredD(2) [OF assms(1)] assms(2) by (cases "hb_wiring h") (auto simp: wiring_ok_def)
  show "connection_ok ?h c" for c
    using wiredD(1) [OF assms(1), of c] assms(2) w
    by (auto simp: connection_ok_def trackDaemonConnection_def wiring_handler_def hub_ops less_Suc_eq)
  show "wiring_ok ?h" using wiredD(2) [OF assms(1)] w by (simp add: wiring_ok_def trackDaemonConnection_def hub_ops)
  show "cleanups_ok ?h" using wiredD(3) [OF assms(1)] w
    by (simp add: cleanups_ok_def trackDaemonConnection_def hub_ops)
qed

text \<open>The new wiring on the tracked connection, once the old one is off it.\<close>

definition new_wiring :: "nat \<Rightarrow> hub_session \<Rightarrow> hub_session" where
  "new_wiring c h =
     (let w = hb_nextWiring h
      in replaceHubMetadataWiring w
           (on_close c (WiringClose w) (h\<lparr>hb_nextWiring := Suc w, hb_wiringConn := (hb_wiringConn h)(w := c)\<rparr>)))"

lemma new_wiring_alt:
  assumes "wiring_ok h" and "hb_wiring h = None"
  shows "new_wiring c h =
    (on_close c (WiringClose (hb_nextWiring h))
       (h\<lparr>hb_nextWiring := Suc (hb_nextWiring h), hb_wiringConn := (hb_wiringConn h)(hb_nextWiring h := c)\<rparr>))
    \<lparr>hb_wiring := Some (hb_nextWiring h)\<rparr>"
  using assms by (simp add: new_wiring_def replaceHubMetadataWiring_def Let_def on_close_def)

lemma wired_new:
  assumes "wired_ok h" and "hb_wiring h = None" and "hb_connection h = Some c"
  shows "wired_ok (new_wiring c h)" "hb_wiring (new_wiring c h) \<noteq> None" "hb_connection (new_wiring c h) = Some c"
proof -
  note n = new_wiring_alt [OF wiredD(2) [OF assms(1)] assms(2), of c]
  show "hb_wiring (new_wiring c h) \<noteq> None" "hb_connection (new_wiring c h) = Some c"
    by (simp_all add: n on_close_def assms(3))
  show "wired_ok (new_wiring c h)"
  proof (rule wiredI)
    show "connection_ok (new_wiring c h) d" for d
      using wiredD(1) [OF assms(1), of d] assms(2,3)
      by (auto simp: n connection_ok_def wiring_handler_def on_close_def)
    show "wiring_ok (new_wiring c h)" using wiredD(2) [OF assms(1)] assms(2,3)
      by (auto simp: n wiring_ok_def on_close_def less_Suc_eq)
    show "cleanups_ok (new_wiring c h)" using wired_unwired [OF assms(1,2)]
      by (simp add: n cleanups_ok_def on_close_def)
  qed
qed

lemma wired_listeners:
  assumes "wired_ok h" and "hb_wiring h \<noteq> None" and "hb_connection h = Some c"
  shows "wired_ok (snd (run_listeners c ls h))" "hb_connection (snd (run_listeners c ls h)) = Some c"
proof -
  have "wired_ok h \<longrightarrow> hb_wiring h \<noteq> None \<longrightarrow> hb_connection h = Some c \<longrightarrow>
    wired_ok (snd (run_listeners c ls h)) \<and> hb_connection (snd (run_listeners c ls h)) = Some c"
    by (induction c ls h rule: run_listeners.induct)
      (simp_all add: wired_cleanup)
  then show "wired_ok (snd (run_listeners c ls h))" "hb_connection (snd (run_listeners c ls h)) = Some c"
    using assms by auto
qed

lemma wired_failed:
  assumes "wired_ok h"
  shows "wired_ok (attempt_failed isTop e h)" "hb_connection (attempt_failed isTop e h) = hb_connection h"
proof -
  let ?h = "publishDaemonStatus (Unavailable e) h"
  have "wired_ok ?h" using assms by simp
  note k = wired_clear [OF this]
  then show "wired_ok (attempt_failed isTop e h)" "hb_connection (attempt_failed isTop e h) = hb_connection h"
    using k(1,3) by (simp_all add: attempt_failed_def Let_def)
qed

lemma attempt_connected_alt:
  "attempt_connected isTop c ls h =
     (let h1 = (if hb_connection h = Some c then h else trackDaemonConnection c h)
      in case run_listeners c ls (new_wiring c (runCleanups (clear_wiring h1))) of
           (None, h5) \<Rightarrow> h5
         | (Some e, h5) \<Rightarrow> attempt_failed isTop e h5)"
  by (simp only: attempt_connected_def new_wiring_def runCleanups_clear Let_def)

lemma wired_connected:
  assumes "wired_ok (if hb_connection h = Some c then h else trackDaemonConnection c h)" (is "wired_ok ?h")
  shows "wired_ok (attempt_connected isTop c ls h)" "hb_connection (attempt_connected isTop c ls h) = Some c"
proof -
  let ?g = "runCleanups (clear_wiring ?h)"
  have g: "wired_ok ?g" "hb_wiring ?g = None" "hb_connection ?g = Some c"
    using wired_clear [OF assms] by (simp_all add: trackDaemonConnection_def)
  obtain r h5 where r: "run_listeners c ls (new_wiring c ?g) = (r, h5)" by fastforce
  then have "wired_ok h5" "hb_connection h5 = Some c"
    using wired_listeners [OF wired_new [OF g], of ls] by simp_all
  with r show "wired_ok (attempt_connected isTop c ls h)" "hb_connection (attempt_connected isTop c ls h) = Some c"
    by (simp_all add: attempt_connected_alt Let_def wired_failed split: option.split)
qed


text \<open>Letting go of the tracked connection once nothing is wired to it.\<close>

lemma wired_drop:
  assumes "wired_ok h" and "hb_wiring h = None"
  shows "wired_ok (case hb_connection h of Some c \<Rightarrow> ask_close c (h\<lparr>hb_connection := None\<rparr>) | None \<Rightarrow> h)"
proof (cases "hb_connection h")
  case (Some c)
  have "wired_ok (ask_close c (h\<lparr>hb_connection := None\<rparr>))"
  proof (rule wiredI)
    show "connection_ok (ask_close c (h\<lparr>hb_connection := None\<rparr>)) d" for d
      using wiredD(1) [OF assms(1), of d] assms(2) Some by (auto simp: connection_ok_def ask_close_def wiring_handler_def)
    show "wiring_ok (ask_close c (h\<lparr>hb_connection := None\<rparr>))"
      using wiredD(2) [OF assms(1)] assms(2) by (simp add: wiring_ok_def ask_close_def)
    show "cleanups_ok (ask_close c (h\<lparr>hb_connection := None\<rparr>))"
      using wired_unwired [OF assms] by (simp add: cleanups_ok_def ask_close_def)
  qed
  then show ?thesis by (simp add: Some)
qed (simp add: assms)

lemma clear_wiring_connection:
  "snd (clearHubMetadataWiring w (h\<lparr>hb_generation := g, hb_connection := k, hb_connecting := n\<rparr>)) =
   (snd (clearHubMetadataWiring w h))\<lparr>hb_generation := g, hb_connection := k, hb_connecting := n\<rparr>"
  by (simp add: clearHubMetadataWiring_def stop_wiring_def off_close_def split: option.split)

lemma wired_cong:
  assumes "hb_connection h = hb_connection g" "hb_wiring h = hb_wiring g" "hb_cleanups h = hb_cleanups g"
    "hb_nextConn h = hb_nextConn g" "hb_nextWiring h = hb_nextWiring g" "hb_wiringConn h = hb_wiringConn g"
    "hb_stopped h = hb_stopped g" "hb_handlers h = hb_handlers g" "hb_asked h = hb_asked g" "hb_closed h = hb_closed g"
  shows "wired_ok h = wired_ok g"
  using assms by (simp add: wired_ok_def connection_ok_def wiring_ok_def cleanups_ok_def)

lemma wired_shutdown:
  assumes "wired_ok h"
  shows "wired_ok (session_shutdown h)" "hb_connection (session_shutdown h) = None" "hb_wiring (session_shutdown h) = None"
    "hb_cleanups (session_shutdown h) = []"
proof -
  let ?d = "runCleanups (clear_wiring h)"
  note d = wired_clear [OF assms]
  have "wired_ok (case hb_connection ?d of Some c \<Rightarrow> ask_close c (?d\<lparr>hb_connection := None\<rparr>) | None \<Rightarrow> ?d)"
    by (rule wired_drop [OF d(1)]) (simp add: d(2))
  then show "wired_ok (session_shutdown h)"
    by (cases "hb_connection h")
      (simp_all add: d(3) session_shutdown_def Let_def clear_wiring_connection, auto elim!: wired_cong [THEN iffD1, rotated -1]
        simp: hub_ops d(3))
  show "hb_connection (session_shutdown h) = None" "hb_wiring (session_shutdown h) = None"
    "hb_cleanups (session_shutdown h) = []"
    by (cases "hb_connection h", simp_all add: session_shutdown_def Let_def clear_wiring_connection hub_ops d(2,3))+
qed

lemma wired_closes:
  assumes "wired_ok h" and "c < hb_nextConn h"
  shows "wired_ok (connection_closes c h)" "hb_connection (connection_closes c h) \<in> {None, hb_connection h}"
proof -
  let ?g = "h\<lparr>hb_closed := (hb_closed h)(c := True)\<rparr>"
  note ok = wiredD [OF assms(1)]
  have "wired_ok (connection_closes c h) \<and> hb_connection (connection_closes c h) \<in> {None, hb_connection h}"
  proof (cases "hb_connection h = Some c")
    case False
    then have "connection_closes c h = ?g"
      using ok(1) [of c] by (auto simp: connection_closes_def call_close_handler_def connection_ok_def)
    moreover have "wired_ok ?g"
    proof (rule wiredI)
      show "connection_ok ?g d" for d using ok(1) [of d] assms(2) False by (auto simp: connection_ok_def)
    qed (use ok(2,3) in \<open>simp_all add: wiring_ok_def cleanups_ok_def\<close>)
    ultimately show ?thesis by simp
  next
    case True
    then have handlers: "hb_handlers h c = TrackClose # wiring_handler (hb_wiring h)"
      using ok(1) [of c] by (simp add: connection_ok_def)
    show ?thesis
    proof (cases "hb_wiring h")
      case None
      then have e: "connection_closes c h = publishDaemonStatus Disconnected (?g\<lparr>hb_connection := None\<rparr>)"
        using handlers True by (simp add: connection_closes_def call_close_handler_def wiring_handler_def)
      have "wired_ok (?g\<lparr>hb_connection := None\<rparr>)"
      proof (rule wiredI)
        show "connection_ok (?g\<lparr>hb_connection := None\<rparr>) d" for d
          using ok(1) [of d] True None by (auto simp: connection_ok_def wiring_handler_def)
      qed (use ok(2) None wired_unwired [OF assms(1) None] in \<open>simp_all add: wiring_ok_def cleanups_ok_def\<close>)
      then show ?thesis by (simp add: e)
    next
      case (Some w)
      let ?k = "publishDaemonStatus Disconnected (?g\<lparr>hb_connection := None\<rparr>)"
      have w: "hb_wiringConn h w = c" "\<not> hb_stopped h w" using ok(2) True Some by (auto simp: wiring_ok_def)
      have e: "connection_closes c h =
          runCleanups (off_close c (WiringClose w) (?k\<lparr>hb_wiring := None, hb_stopped := (hb_stopped h)(w := True)\<rparr>))"
        using handlers True Some w
        by (simp add: connection_closes_def call_close_handler_def wiring_handler_def clearHubMetadataWiring_def
            stop_wiring_def publishDaemonStatus_def)
      have "wired_ok (connection_closes c h)" unfolding e
      proof (rule wiredI)
        show "connection_ok (runCleanups (off_close c (WiringClose w)
            (?k\<lparr>hb_wiring := None, hb_stopped := (hb_stopped h)(w := True)\<rparr>))) d" for d
          using ok(1) [of d] True Some by (auto simp: connection_ok_def wiring_handler_def hub_ops)
      qed (use ok(2) Some in \<open>auto simp: wiring_ok_def cleanups_ok_def hub_ops\<close>)
      moreover have "hb_connection (connection_closes c h) = None" by (simp add: e off_close_def)
      ultimately show ?thesis by simp
    qed
  qed
  then show "wired_ok (connection_closes c h)" "hb_connection (connection_closes c h) \<in> {None, hb_connection h}" by simp_all
qed

text \<open>The generation and the pending attempts: only the newest attempt can become current, and none while a connection is tracked.\<close>

lemma run_listeners_keeps [simp]:
  "hb_generation (snd (run_listeners c ls h)) = hb_generation h" "hb_attempts (snd (run_listeners c ls h)) = hb_attempts h"
  "hb_closing (snd (run_listeners c ls h)) = hb_closing h"
  by (induction c ls h rule: run_listeners.induct) simp_all

definition turns :: "hub_session \<Rightarrow> nat \<times> nat list \<times> nat option" where
  "turns h = (hb_generation h, hb_attempts h, hb_closing h)"

lemma turns_ops [simp]:
  "turns (publishDaemonStatus s h) = turns h" "turns (runCleanups h) = turns h" "turns (off_close c x h) = turns h"
  "turns (on_close c x h) = turns h" "turns (ask_close c h) = turns h" "turns (snd (clearHubMetadataWiring w h)) = turns h"
  "turns (replaceHubMetadataWiring v h) = turns h" "turns (snd (run_listeners c ls h)) = turns h"
  "turns (trackDaemonConnection c h) = turns h"
  by (simp_all add: turns_def publishDaemonStatus_def runCleanups_def off_close_def on_close_def ask_close_def
      clearHubMetadataWiring_def stop_wiring_def replaceHubMetadataWiring_def trackDaemonConnection_def Let_def split: option.split)

lemma turns_fields [simp]:
  "turns (h\<lparr>hb_connection := k\<rparr>) = turns h" "turns (h\<lparr>hb_connecting := n\<rparr>) = turns h"
  "turns (h\<lparr>hb_nextConn := m\<rparr>) = turns h" "turns (h\<lparr>hb_closed := b\<rparr>) = turns h"
  "turns (h\<lparr>hb_notices := ns\<rparr>) = turns h" "turns (h\<lparr>hb_nextWiring := v, hb_wiringConn := u\<rparr>) = turns h"
  by (simp_all add: turns_def)

lemma turns_failed [simp]: "turns (attempt_failed isTop e h) = turns h"
  by (simp add: attempt_failed_def Let_def)

lemma turns_connected [simp]: "turns (attempt_connected isTop c ls h) = turns h"
proof -
  obtain r k where r: "run_listeners c ls (new_wiring c (runCleanups (clear_wiring
      (if hb_connection h = Some c then h else trackDaemonConnection c h)))) = (r, k)" by fastforce
  then have "turns k = turns (new_wiring c (runCleanups (clear_wiring (if hb_connection h = Some c then h else trackDaemonConnection c h))))"
    by (metis snd_conv turns_ops(8))
  then have "turns k = turns h" by (simp add: new_wiring_def Let_def)
  with r show ?thesis by (simp add: attempt_connected_alt Let_def split: option.split)
qed

lemma turns_closes [simp]: "turns (connection_closes c h) = turns h"
proof -
  have one: "turns (call_close_handler c g x) = turns g" for g x
    using turns_ops(6) [of "Some w" g for w]
    by (auto simp: call_close_handler_def split: close_handler.split prod.split dest: arg_cong [where f = snd]
        intro: turns_ops(6) [THEN trans [rotated]]) (metis snd_conv turns_ops(6))+
  have "turns (foldl (call_close_handler c) g xs) = turns g" for g xs
    by (induction xs arbitrary: g) (simp_all add: one)
  then show ?thesis by (simp add: connection_closes_def)
qed

definition session_ok :: "hub_session \<Rightarrow> bool" where
  "session_ok h = (wired_ok h \<and> attempts_ok h)"

lemma attempts_alt:
  "attempts_ok h = (case turns h of (g, as, k) \<Rightarrow>
     (\<forall>a \<in> set as. a \<le> g) \<and> (g \<in> set as \<or> k \<noteq> None \<longrightarrow> hb_connection h = None) \<and> (k \<noteq> None \<longrightarrow> g \<notin> set as))"
  by (auto simp: attempts_ok_def turns_def)

lemma wired_ended [simp]:
  "wired_ok (attempt_ended g h) = wired_ok h" "hb_connection (attempt_ended g h) = hb_connection h"
  "turns (attempt_ended g h) = (case turns h of (n, as, k) \<Rightarrow> (n, filter (\<lambda>a. a \<noteq> g) as, k))"
  by (simp_all add: attempt_ended_def Let_def turns_def)

lemma step_start:
  assumes "session_ok h" and "hb_closing h = None"
  shows "session_ok (session_start isTop ls h)"
proof -
  let ?h = "publishDaemonStatus Starting_up (h\<lparr>hb_generation := Suc (hb_generation h), hb_connecting := Some (Suc (hb_generation h))\<rparr>)"
  have ok: "wired_ok h" "attempts_ok h" using assms by (simp_all add: session_ok_def)
  have w: "wired_ok ?h" using ok by simp
  have t: "turns ?h = (Suc (hb_generation h), hb_attempts h, None)"
    using assms(2) by (simp add: turns_def publishDaemonStatus_def)
  show ?thesis
  proof (cases "hb_connection h")
    case None
    then show ?thesis
      using w ok(2) assms(2) by (auto simp: session_ok_def session_start_def Let_def attempts_ok_def publishDaemonStatus_def)
  next
    case (Some c)
    then have c: "hb_connection ?h = Some c" by simp
    have "wired_ok (attempt_connected isTop c ls ?h)" using wired_connected [of ?h c isTop ls] w c by simp
    moreover have "attempts_ok (attempt_connected isTop c ls ?h)"
    proof -
      have "turns (attempt_connected isTop c ls ?h) = (Suc (hb_generation h), hb_attempts h, None)"
        by (simp only: turns_connected t)
      then show ?thesis using ok(2) unfolding attempts_alt [of "attempt_connected isTop c ls ?h"] by (auto simp: attempts_ok_def)
    qed
    ultimately show ?thesis
      using Some by (simp add: session_ok_def session_start_def Let_def attempts_ok_def)
  qed
qed

lemma ask_keeps: "hb_connection (ask_close c h) = hb_connection h"
  by (simp add: ask_close_def)

lemma step_connects:
  assumes "session_ok h" and "g \<in> set (hb_attempts h)"
  shows "session_ok (attempt_connects isTop g ls h)" "g \<noteq> hb_generation h \<Longrightarrow> hb_connection (attempt_connects isTop g ls h) = hb_connection h"
proof -
  let ?c = "hb_nextConn h" and ?h = "h\<lparr>hb_nextConn := Suc (hb_nextConn h)\<rparr>"
  have ok: "wired_ok h" "attempts_ok h" using assms by (simp_all add: session_ok_def)
  show "session_ok (attempt_connects isTop g ls h)"
  proof (cases "g = hb_generation h")
    case True
    then have n: "hb_connection h = None" and k: "hb_closing h = None" using ok(2) assms(2) by (auto simp: attempts_ok_def)
    have "wired_ok (attempt_connected isTop ?c ls ?h)" using wired_connected [of ?h ?c isTop ls] wired_track [OF ok(1) n] n by simp
    then show ?thesis
      using True ok(2) k by (auto simp: session_ok_def attempt_connects_def Let_def attempts_alt turns_def [of h] split: prod.splits)
  next
    case False
    have "wired_ok (ask_close ?c ?h)"
    proof (rule wiredI)
      show "connection_ok (ask_close ?c ?h) d" for d
        using wiredD(1) [OF ok(1), of d] by (auto simp: connection_ok_def ask_close_def less_Suc_eq)
    qed (use wiredD [OF ok(1)] in \<open>simp_all add: wiring_ok_def cleanups_ok_def ask_close_def\<close>)
    then show ?thesis
      using False ok(2) by (auto simp: session_ok_def attempt_connects_def Let_def attempts_alt turns_def [of h] ask_keeps split: prod.splits)
  qed
  show "hb_connection (attempt_connects isTop g ls h) = hb_connection h" if "g \<noteq> hb_generation h"
    using that by (simp add: attempt_connects_def Let_def ask_close_def)
qed

lemma step_fails:
  assumes "session_ok h"
  shows "session_ok (attempt_fails isTop g e h)" "hb_connection (attempt_fails isTop g e h) = hb_connection h"
  using assms by (auto simp: session_ok_def attempt_fails_def Let_def wired_failed attempts_alt split: prod.splits)

lemma step_closes:
  assumes "session_ok h" and "c < hb_nextConn h"
  shows "session_ok (connection_closes c h)"
  using assms wired_closes [of h c] by (auto simp: session_ok_def attempts_alt split: prod.splits)

lemma step_shutdown:
  assumes "session_ok h"
  shows "session_ok (session_shutdown h)" "hb_generation (session_shutdown h) \<notin> set (hb_attempts (session_shutdown h))"
proof -
  have ok: "wired_ok h" "attempts_ok h" using assms by (simp_all add: session_ok_def)
  have "turns (session_shutdown h) = (Suc (hb_generation h), hb_attempts h, hb_connecting h)"
    using turns_ops(6) [of "hb_wiring h" h]
    by (auto simp: session_shutdown_def Let_def clear_wiring_connection hub_ops turns_def split: option.split)
  then show "session_ok (session_shutdown h)" "hb_generation (session_shutdown h) \<notin> set (hb_attempts (session_shutdown h))"
    using ok(2) wired_shutdown [OF ok(1)] by (auto simp: session_ok_def attempts_alt turns_def)
qed

lemma step_resumes:
  assumes "session_ok h" and "hb_closing h = Some g"
  shows "shutdown_resumes h = h\<lparr>hb_closing := None\<rparr>" "session_ok (h\<lparr>hb_closing := None\<rparr>)"
  using assms by (auto simp: session_ok_def shutdown_resumes_def Let_def attempts_ok_def)

lemma step_session: "session_ok h \<Longrightarrow> session_ok (hub_step isTop h e)"
  by (cases e) (auto simp: step_start step_connects step_fails step_closes step_shutdown step_resumes split: option.split)

lemma session_run: "session_ok (hub_run isTop es)"
proof (induction es rule: rev_induct)
  case Nil
  then show ?case using wired_init by (simp add: hub_run_def session_ok_def)
qed (simp add: hub_run_def step_session)




definition quiet :: "hub_session \<Rightarrow> bool" where
  "quiet h = (session_ok h \<and> hb_connection h = None \<and> hb_generation h \<notin> set (hb_attempts h))"

definition starts :: "hub_event \<Rightarrow> bool" where
  "starts e = (case e of SessionStart _ \<Rightarrow> True | _ \<Rightarrow> False)"

lemma quiet_step:
  assumes "quiet h" and "\<not> starts e"
  shows "quiet (hub_step isTop h e)"
proof -
  have ok: "session_ok h" "hb_connection h = None" "hb_generation h \<notin> set (hb_attempts h)" using assms(1) by (simp_all add: quiet_def)
  have s: "session_ok (hub_step isTop h e)" using step_session [OF ok(1)] .
  have "turns (attempt_connects isTop g ls h) = (case turns h of (n, as, k) \<Rightarrow> (n, filter (\<lambda>a. a \<noteq> g) as, k))" for g ls
    by (simp add: attempt_connects_def Let_def)
  moreover have "turns (attempt_fails isTop g m h) = (case turns h of (n, as, k) \<Rightarrow> (n, filter (\<lambda>a. a \<noteq> g) as, k))" for g m
    by (simp add: attempt_fails_def Let_def)
  moreover have "turns (connection_closes c h) = turns h" for c by simp
  ultimately have t: "hb_generation (hub_step isTop h e) \<notin> set (hb_attempts (hub_step isTop h e))"
    using assms(2) ok step_shutdown [OF ok(1)]
    by (cases e) (auto simp: starts_def turns_def step_resumes split: option.split)
  have "hb_connection (hub_step isTop h e) = None"
    using assms(2) ok step_connects(2) [OF ok(1)] step_fails(2) [OF ok(1)] wired_closes(2) [of h]
      wired_shutdown(2) [of h]
    by (cases e) (auto simp: starts_def session_ok_def step_resumes split: option.split)
  then show ?thesis using s t by (simp add: quiet_def)
qed

text \<open>
  A shutdown releases everything: once the session was shut down, and whatever late attempts and
  closes follow until the next start, no connection is tracked, every connection ever made is
  closed or was asked to close, every metadata publisher is stopped and no cleanup is left to run.
\<close>

theorem hub_shutdown_releases_everything:
  assumes "\<forall>e \<in> set late. \<not> starts e"
  shows "hb_connection (hub_run isTop (es @ SessionShutdown # late)) = None
    \<and> hb_cleanups (hub_run isTop (es @ SessionShutdown # late)) = []
    \<and> (\<forall>c < hb_nextConn (hub_run isTop (es @ SessionShutdown # late)).
         hb_closed (hub_run isTop (es @ SessionShutdown # late)) c \<or> hb_asked (hub_run isTop (es @ SessionShutdown # late)) c)
    \<and> (\<forall>w < hb_nextWiring (hub_run isTop (es @ SessionShutdown # late)). hb_stopped (hub_run isTop (es @ SessionShutdown # late)) w)"
    (is "?P (hub_run isTop (es @ SessionShutdown # late))")
proof -
  have ok: "session_ok (hub_run isTop es)" by (rule session_run)
  have "quiet (hub_step isTop (hub_run isTop es) SessionShutdown)"
    using ok step_shutdown [OF ok] wired_shutdown(2) [of "hub_run isTop es"]
    by (auto simp: quiet_def session_ok_def attempts_ok_def)
  moreover have "quiet h \<Longrightarrow> quiet (foldl (hub_step isTop) h late)" for h
    using assms by (induction late arbitrary: h) (simp_all add: quiet_step)
  ultimately have q: "quiet (hub_run isTop (es @ SessionShutdown # late))" by (simp add: hub_run_def)
  then have w: "wired_ok (hub_run isTop (es @ SessionShutdown # late))" and n: "hb_connection (hub_run isTop (es @ SessionShutdown # late)) = None"
    by (simp_all add: quiet_def session_ok_def)
  have m: "hb_wiring (hub_run isTop (es @ SessionShutdown # late)) = None"
    using wiredD(2) [OF w] n by (cases "hb_wiring (hub_run isTop (es @ SessionShutdown # late))") (auto simp: wiring_ok_def)
  have "hb_closed (hub_run isTop (es @ SessionShutdown # late)) c \<or> hb_asked (hub_run isTop (es @ SessionShutdown # late)) c"
    if "c < hb_nextConn (hub_run isTop (es @ SessionShutdown # late))" for c
    using wiredD(1) [OF w, of c] n that by (simp add: connection_ok_def)
  then show ?thesis using n m wired_unwired [OF w m] wiredD(2) [OF w] by (simp add: wiring_ok_def)
qed

theorem hub_shutdown_releases_everything_witness:
  "hb_cleanups (hub_run False ([SessionStart [], AttemptConnects 1 [Inr (Some 7)], SessionStart [Inl ''no'']] @ SessionShutdown #
     [AttemptConnects 2 [], ShutdownResumes, ConnectionCloses 0])) = []"
  using hub_shutdown_releases_everything [of "[AttemptConnects 2 [], ShutdownResumes, ConnectionCloses 0]" False
    "[SessionStart [], AttemptConnects 1 [Inr (Some 7)], SessionStart [Inl ''no'']]"] by (simp add: starts_def)

end
