(* ===== verification/AgentLaunch.thy ===== *)
theory AgentLaunch
  imports AgentWorkspace BashReview
begin

text \<open>
  The launch of a dispatched agent (\<open>pi/core/swarm/agents\<close>: \<open>executor.ts\<close>, \<open>launch.ts\<close>, \<open>types.ts\<close>,
  \<open>model-resolution.ts\<close>, \<open>discovery.ts\<close>): which agent, which model, which environment, tools,
  directory and arguments the child process gets. An environment is a map, so that the spread
  \<open>{...a, ...b}\<close> is \<open>a ++ b\<close>. The texts of the workspace contracts are a parameter; they are prose.
\<close>

section \<open>Agents\<close>

record agent_config =
  ac_name :: string
  ac_description :: string
  ac_model :: string
  ac_thinking :: "string option"
  ac_systemPrompt :: string
  ac_filePath :: string
  ac_deliverable :: bool

text \<open>
  \<open>content.match(/^---\r?\n([\s\S]*?)\r?\n---\r?\n([\s\S]*)$/)\<close>: after the opening line, the first place
  where a closing line stands.
\<close>

definition eol_at :: "string \<Rightarrow> string option" where
  "eol_at s = (if startsWith s [CHR 0x0D, CHR 0x0A] then Some (drop 2 s)
     else if startsWith s [CHR 0x0A] then Some (drop 1 s) else None)"

definition fence_at :: "string \<Rightarrow> string option" where
  "fence_at s = (if startsWith s ''---'' then eol_at (drop 3 s) else None)"

fun split_fence :: "string \<Rightarrow> (string \<times> string) option" where
  "split_fence [] = None"
| "split_fence (c # s) =
     (case (case eol_at (c # s) of Some r \<Rightarrow> fence_at r | None \<Rightarrow> None) of
        Some body \<Rightarrow> Some ([], body)
      | None \<Rightarrow> map_option (\<lambda>(m, body). (c # m, body)) (split_fence s))"

definition frontmatter_line :: "(string \<times> string) list \<Rightarrow> string \<Rightarrow> (string \<times> string) list" where
  "frontmatter_line fm line =
     (case find_index (\<lambda>c. c = CHR '':'') line of
        None \<Rightarrow> fm
      | Some colon \<Rightarrow>
          (let key = trim (take colon line); value = trim (drop (Suc colon) line)
           in if key = [] then fm else set_key key value fm))"

definition parseFrontmatter :: "string \<Rightarrow> (string \<times> string) list \<times> string" where
  "parseFrontmatter content =
     (case (case fence_at content of Some r \<Rightarrow> split_fence r | None \<Rightarrow> None) of
        None \<Rightarrow> ([], trim content)
      | Some (front, body) \<Rightarrow> (foldl frontmatter_line [] (split_on (CHR 0x0A) front), trim body))"

text \<open>A directory entry: its name, whether it is a file or a link, and its text where it can be read.\<close>

record dir_entry =
  de_name :: string
  de_file :: bool
  de_text :: "string option"

definition nonempty :: "string option \<Rightarrow> string option" where
  "nonempty v = (if v = Some [] then None else v)"

definition load_agent :: "string \<Rightarrow> dir_entry \<Rightarrow> agent_config option" where
  "load_agent dir entry =
     (if \<not> endsWith (de_name entry) ''.md'' \<or> \<not> de_file entry then None
      else case de_text entry of None \<Rightarrow> None
      | Some content \<Rightarrow>
          (case parseFrontmatter content of (fm, body) \<Rightarrow>
             (case (nonempty (map_of fm ''name''), nonempty (map_of fm ''description'')) of
                (Some name, Some description) \<Rightarrow>
                  Some \<lparr>ac_name = name, ac_description = description,
                        ac_model = (case nonempty (map_of fm ''model'') of Some m \<Rightarrow> m | None \<Rightarrow> ''default''),
                        ac_thinking = nonempty (map_of fm ''thinking''), ac_systemPrompt = body,
                        ac_filePath = path_join [dir, de_name entry],
                        ac_deliverable = (map_of fm ''deliverable'' = Some ''true'')\<rparr>
              | _ \<Rightarrow> None)))"

text \<open>\<open>None\<close>: the directory is not there or cannot be listed.\<close>

definition loadAgentsFromDir :: "string \<Rightarrow> dir_entry list option \<Rightarrow> agent_config list" where
  "loadAgentsFromDir dir entries =
     (case entries of None \<Rightarrow> [] | Some es \<Rightarrow> List.map_filter (load_agent dir) es)"

section \<open>Depth, tools and models\<close>

definition DEFAULT_AGENT_MAX_DEPTH :: int where "DEFAULT_AGENT_MAX_DEPTH = 2"

record agent_depth_state =
  ad_depth :: "int option"
  ad_isTopLevel :: bool
  ad_maxDepth :: "int option"
  ad_atMaxDepth :: bool

definition resolveAgentDepthState :: "(string \<Rightarrow> int option) \<Rightarrow> env \<Rightarrow> agent_depth_state" where
  "resolveAgentDepthState other e =
     (let depth = getAgentDepth other e;
          isTopLevel = (case depth of Some d \<Rightarrow> d \<le> 0 | None \<Rightarrow> True);
          maxDepth = (case e ''BASECAMP_AGENT_MAX_DEPTH'' of Some v \<Rightarrow> js_number other v | None \<Rightarrow> Some DEFAULT_AGENT_MAX_DEPTH);
          atMaxDepth = (case (depth, maxDepth) of (Some d, Some m) \<Rightarrow> d \<ge> m | _ \<Rightarrow> False)
      in \<lparr>ad_depth = depth, ad_isTopLevel = isTopLevel, ad_maxDepth = maxDepth, ad_atMaxDepth = atMaxDepth\<rparr>)"

definition TASK_TRACKING_TOOLS :: "string list" where
  "TASK_TRACKING_TOOLS = [''update_goal'', ''create_tasks'', ''start_task'', ''complete_task'', ''get_task'', ''delete_task'']"

definition SUBAGENT_SUPPORT_TOOLS :: "string list" where
  "SUBAGENT_SUPPORT_TOOLS = ''skill'' # TASK_TRACKING_TOOLS"

definition AGENT_TOOLS :: "string list" where
  "AGENT_TOOLS = [''read'', ''write'', ''edit'', ''bash'', ''grep'', ''find'', ''ls'']"

definition WORKSPACELESS_EXCLUDED :: "string list" where
  "WORKSPACELESS_EXCLUDED = [''write'', ''edit'']"

definition getAgentToolAllowlist :: "string list" where
  "getAgentToolAllowlist = AGENT_TOOLS @ SUBAGENT_SUPPORT_TOOLS"

definition getWorkspacelessAgentToolAllowlist :: "string list" where
  "getWorkspacelessAgentToolAllowlist = filter (\<lambda>t. t \<notin> set WORKSPACELESS_EXCLUDED) getAgentToolAllowlist"

record parent_model =
  pm_id :: string
  pm_provider :: string

definition inheritedModel :: "parent_model option \<Rightarrow> string option" where
  "inheritedModel parent = map_option (\<lambda>m. pm_provider m @ ''/'' @ pm_id m) parent"

text \<open>The model and, when the alias was not configured, its name.\<close>

definition resolveModel ::
  "(string \<Rightarrow> string option) \<Rightarrow> string \<Rightarrow> parent_model option \<Rightarrow> string option \<times> string option" where
  "resolveModel aliasOf strategy parentModel =
     (if strategy = ''default'' then (None, None)
      else if strategy = ''inherit'' then (inheritedModel parentModel, None)
      else case nonempty (aliasOf strategy) of
             Some aliased \<Rightarrow> (Some aliased, None)
           | None \<Rightarrow> if str_includes strategy ''/'' then (Some strategy, None)
                     else (inheritedModel parentModel, Some strategy))"


section \<open>Names and environments\<close>

definition RESTRICTED_AGENT_SPAWN_ENV_VARS :: "string list" where
  "RESTRICTED_AGENT_SPAWN_ENV_VARS =
     [''BASECAMP_RUN_ID'', ''BASECAMP_REPORT_TOKEN'', ''BASECAMP_AGENT_ID'', ''BASECAMP_AGENT_HANDLE'',
      ''BASECAMP_DAEMON_UDS'', ''BASECAMP_BASH_REVIEWER'', ''BASECAMP_EXTERNAL_SANDBOX'']"

definition SANDBOX_SIGNAL_ENV_VARS :: "string list" where
  "SANDBOX_SIGNAL_ENV_VARS = [''BASECAMP_BASH_REVIEWER'', ''BASECAMP_EXTERNAL_SANDBOX'']"

definition isExternalSandboxLaunch :: "string option \<Rightarrow> string option \<Rightarrow> bool \<Rightarrow> bool" where
  "isExternalSandboxLaunch reviewerEnv sandboxEnv sandboxedFlag \<longleftrightarrow>
     reviewerEnv = Some ''off'' \<and> sandboxEnv = Some ''1'' \<and> sandboxedFlag"

definition sanitizeAgentSpawnEnv :: "env \<Rightarrow> env" where
  "sanitizeAgentSpawnEnv e = (\<lambda>k. if k \<in> set RESTRICTED_AGENT_SPAWN_ENV_VARS then None else e k)"

definition processEnvForSpawn :: "env \<Rightarrow> env" where
  "processEnvForSpawn penv = sanitizeAgentSpawnEnv penv"

text \<open>\<open>String(depth + 1)\<close>, where the depth may be \<open>NaN\<close>.\<close>

definition next_depth :: "int option \<Rightarrow> string" where
  "next_depth d = (case d of Some n \<Rightarrow> show_int (n + 1) | None \<Rightarrow> ''NaN'')"

definition buildAgentEnv :: "(string \<Rightarrow> int option) \<Rightarrow> env \<Rightarrow> string \<Rightarrow> string \<Rightarrow> bool \<Rightarrow> env" where
  "buildAgentEnv other penv parentSession project externalSandboxLaunch =
     (let copied = (\<lambda>k. if k = ''BASECAMP_AGENT_HANDLE'' \<or> k \<in> set SANDBOX_SIGNAL_ENV_VARS then None
                        else if startsWith k ''BASECAMP_'' then penv k else None);
          signals = (if externalSandboxLaunch then (\<lambda>k. if k \<in> set SANDBOX_SIGNAL_ENV_VARS then penv k else None)
                     else Map.empty)
      in (copied ++ signals)
           (''BASECAMP_PROJECT'' \<mapsto> project, ''BASECAMP_PARENT_SESSION'' \<mapsto> parentSession,
            ''BASECAMP_SIBLING_GROUP'' \<mapsto> parentSession,
            ''BASECAMP_AGENT_DEPTH'' \<mapsto> next_depth (getAgentDepth other penv),
            ''BASECAMP_AGENT_MAX_DEPTH'' \<mapsto>
              (case penv ''BASECAMP_AGENT_MAX_DEPTH'' of Some v \<Rightarrow> v | None \<Rightarrow> show_int DEFAULT_AGENT_MAX_DEPTH)))"

definition hasControlCharacter :: "string \<Rightarrow> bool" where
  "hasControlCharacter value =
     list_ex (\<lambda>c. let code = of_char c :: nat in code \<le> 31 \<or> (127 \<le> code \<and> code \<le> 159)) value"

definition validateAgentRunSuffix :: "string \<Rightarrow> unit result" where
  "validateAgentRunSuffix suffx =
     (if suffx = [] then Inl ''Invalid agent run-name suffix: suffix cannot be empty.''
      else if hasControlCharacter suffx \<or> str_includes suffx ''/'' \<or> str_includes suffx [CHR 0x5C] \<or> str_includes suffx ''..''
      then Inl (''Invalid agent run-name suffix: \"'' @ suffx @ ''\"'') else Inr ())"

definition buildAgentRunName :: "string \<Rightarrow> string option \<Rightarrow> string result" where
  "buildAgentRunName prefx suffx =
     (let normalizedPrefix = trim prefx in
      if normalizedPrefix = [] then Inl ''Invalid agent run-name prefix: missing base name.''
      else case suffx of
        None \<Rightarrow> Inr normalizedPrefix
      | Some s \<Rightarrow> rbind (validateAgentRunSuffix (trim s)) (\<lambda>_. Inr (normalizedPrefix @ ''-'' @ trim s)))"

definition VALID_THINKING_LEVELS :: "string list" where
  "VALID_THINKING_LEVELS = [''off'', ''minimal'', ''low'', ''medium'', ''high'', ''xhigh'']"

definition normalizeThinkingLevel :: "string option \<Rightarrow> string option" where
  "normalizeThinkingLevel value =
     (case nonempty value of None \<Rightarrow> None
      | Some v \<Rightarrow> (let normalized = trim (toLowerCase v)
                   in if normalized \<in> set VALID_THINKING_LEVELS then Some normalized else None))"

definition resolveParentSession :: "env \<Rightarrow> string option \<Rightarrow> string \<Rightarrow> string" where
  "resolveParentSession penv sessionName sessionId =
     (case penv ''BASECAMP_SESSION_NAME'' of
        Some v \<Rightarrow> v
      | None \<Rightarrow> (case nonempty (map_option trim sessionName) of Some n \<Rightarrow> n | None \<Rightarrow> sessionId))"

definition buildAgentTitleBase :: "string option \<Rightarrow> string \<Rightarrow> string" where
  "buildAgentTitleBase agentName task =
     (let prefx = (case nonempty (map_option trim agentName) of Some n \<Rightarrow> n | None \<Rightarrow> ''Agent'')
      in ''('' @ prefx @ '') '' @ shorten 56 (collapse_ws task))"

section \<open>Tools of the extension\<close>

record tool_info =
  ti_name :: string
  ti_source :: string
  ti_baseDir :: "string option"
  ti_path :: "string option"

definition SUBAGENT_EXCLUDED_EXTENSION_TOOLS :: "string list" where
  "SUBAGENT_EXCLUDED_EXTENSION_TOOLS = [''agent'', ''escalate'', ''report_findings'', ''annotate_changeset'']"

text \<open>\<open>realpathSync\<close> is the system's: \<open>None\<close> where it throws.\<close>

definition resolveToolSourcePath :: "(string \<Rightarrow> string option) \<Rightarrow> string \<Rightarrow> string option \<Rightarrow> string option" where
  "resolveToolSourcePath realpath cwd value =
     (case nonempty value of
        None \<Rightarrow> None
      | Some v \<Rightarrow> if startsWith v ''<'' then None
                  else Some (case realpath v of Some p \<Rightarrow> p | None \<Rightarrow> path_resolve cwd [v]))"

definition isWithinBasecampExtensionRoot ::
  "(string \<Rightarrow> string option) \<Rightarrow> string \<Rightarrow> string option \<Rightarrow> string \<Rightarrow> bool" where
  "isWithinBasecampExtensionRoot realpath cwd value root =
     (case resolveToolSourcePath realpath cwd value of None \<Rightarrow> False | Some p \<Rightarrow> p \<noteq> [] \<and> isWithin cwd p root)"

definition isBasecampExtensionTool :: "(string \<Rightarrow> string option) \<Rightarrow> string \<Rightarrow> tool_info \<Rightarrow> string \<Rightarrow> bool" where
  "isBasecampExtensionTool realpath cwd tool root \<longleftrightarrow>
     ti_source tool \<noteq> ''builtin'' \<and> ti_source tool \<noteq> ''sdk''
     \<and> (isWithinBasecampExtensionRoot realpath cwd (ti_baseDir tool) root
        \<or> isWithinBasecampExtensionRoot realpath cwd (ti_path tool) root)"

definition getBasecampExtensionToolNames ::
  "(string \<Rightarrow> string option) \<Rightarrow> string \<Rightarrow> tool_info list \<Rightarrow> string \<Rightarrow> string list" where
  "getBasecampExtensionToolNames realpath cwd tools root =
     map ti_name (filter (\<lambda>t. isBasecampExtensionTool realpath cwd t root
       \<and> ti_name t \<notin> set SUBAGENT_EXCLUDED_EXTENSION_TOOLS) tools)"

section \<open>Arguments\<close>

datatype run_workspace = WsDeliverable string | WsReport | WsAsk

datatype file_write = MkDir string | WriteFile string string

record pi_args_opts =
  po_name :: string
  po_model :: "string option"
  po_sessionDir :: string
  po_sessionId :: "string option"
  po_extensionTools :: "string list"
  po_workspace :: "run_workspace option"
  po_externalSandboxLaunch :: bool

text \<open>What the launch asks of the process around it.\<close>

record launch_env =
  le_cwd :: string
  le_tmpdir :: string
  le_home :: string
  le_env :: env
  le_realpath :: "string \<Rightarrow> string option"
  le_contract :: "run_workspace \<Rightarrow> string"
  le_number :: "string \<Rightarrow> int option"

definition AGENT_BASE :: "launch_env \<Rightarrow> string" where
  "AGENT_BASE le = path_join [le_tmpdir le, ''basecamp-agents'']"

definition TASK_ARG_LIMIT :: nat where "TASK_ARG_LIMIT = 8000"

definition ensureAgentDir :: "launch_env \<Rightarrow> string \<Rightarrow> string result" where
  "ensureAgentDir le name =
     (let baseDir = path_resolve (le_cwd le) [AGENT_BASE le]; dir = path_resolve (le_cwd le) [baseDir, name]
      in if \<not> isWithin (le_cwd le) dir baseDir then Inl (''Agent directory is outside basecamp-agents directory: '' @ name)
         else Inr dir)"

definition buildAgentTaskText :: "string \<Rightarrow> string" where
  "buildAgentTaskText task = ''Task: '' @ task @ join [CHR 0x0A]
     [[], [], ''Completion contract:'',
      ''- Always produce a final assistant response.'',
      ''- Do not finish after only tool calls or task updates.'',
      ''- If there are no findings, say that explicitly.'',
      ''- If blocked, report the blocker explicitly.'',
      ''- Before ending, ensure the final response is non-empty and directly answers the task.'']"

definition launch_tools :: "run_workspace option \<Rightarrow> string list \<Rightarrow> string list" where
  "launch_tools workspace extensionTools =
     rev (remdups (rev ((if workspace \<noteq> None then getAgentToolAllowlist else getWorkspacelessAgentToolAllowlist) @ extensionTools)))"

definition blank_line :: string where "blank_line = [CHR 0x0A, CHR 0x0A]"

definition flag_arg :: "string \<Rightarrow> string option \<Rightarrow> string list" where
  "flag_arg flag value = (case nonempty value of Some v \<Rightarrow> [flag, v] | None \<Rightarrow> [])"

text \<open>The persona's own prompt; an empty one is no persona.\<close>

definition persona_of :: "agent_config option \<Rightarrow> string option" where
  "persona_of agent = (case agent of Some a \<Rightarrow> nonempty (Some (ac_systemPrompt a)) | None \<Rightarrow> None)"

text \<open>The options after the mode and the sandbox flag.\<close>

definition option_args :: "agent_config option \<Rightarrow> pi_args_opts \<Rightarrow> string \<Rightarrow> string list" where
  "option_args agent opts promptFile =
     flag_arg ''--model'' (po_model opts)
     @ flag_arg ''--thinking'' (normalizeThinkingLevel (case agent of Some a \<Rightarrow> ac_thinking a | None \<Rightarrow> None))
     @ [''--session-dir'', po_sessionDir opts]
     @ flag_arg ''--session-id'' (po_sessionId opts)
     @ [''--no-prompt-templates'']
     @ (if persona_of agent \<noteq> None then [''--agent-prompt'', promptFile] else [])
     @ [''--tools'', join '','' (launch_tools (po_workspace opts) (po_extensionTools opts))]"

text \<open>The texts of the prompt file and of the task: a persona carries the contract in its prompt, else the task does.\<close>

definition prompt_text :: "string \<Rightarrow> string option \<Rightarrow> string" where
  "prompt_text persona contract = (case nonempty contract of Some c \<Rightarrow> persona @ blank_line @ c | None \<Rightarrow> persona)"

definition task_text :: "string option \<Rightarrow> string option \<Rightarrow> string \<Rightarrow> string" where
  "task_text persona contract task =
     (case (persona, nonempty contract) of
        (None, Some c) \<Rightarrow> c @ blank_line @ buildAgentTaskText task
      | _ \<Rightarrow> buildAgentTaskText task)"

text \<open>The arguments, the last of them the task, and the files written on the way, in order.\<close>

definition buildPiArgs ::
  "launch_env \<Rightarrow> agent_config option \<Rightarrow> string \<Rightarrow> pi_args_opts \<Rightarrow> (string list \<times> string \<times> file_write list) result" where
  "buildPiArgs le agent task opts =
     rbind (ensureAgentDir le (po_name opts)) (\<lambda>agentDir.
       let contract = map_option (le_contract le) (po_workspace opts);
           persona = persona_of agent;
           promptFile = path_join [agentDir, ''prompt.md''];
           taskText = task_text persona contract task;
           taskFile = path_join [agentDir, ''task.md'']
       in Inr ([''pi'', ''--mode'', ''json'', ''-p'']
               @ (if po_externalSandboxLaunch opts then [''--unsafe-edit-sandboxed''] else [])
               @ option_args agent opts promptFile
               @ [if length taskText > TASK_ARG_LIMIT then CHR ''@'' # taskFile else taskText],
             agentDir,
             [MkDir agentDir, MkDir (po_sessionDir opts)]
               @ (case persona of Some p \<Rightarrow> [WriteFile promptFile (prompt_text p contract)] | None \<Rightarrow> [])
               @ (if length taskText > TASK_ARG_LIMIT then [WriteFile taskFile taskText] else [])))"

section \<open>The launch\<close>

definition basecampRoot :: "string \<Rightarrow> string" where
  "basecampRoot homeDir = path_join [path_join [homeDir, ''.pi''], ''basecamp'']"

definition resolveSessionDir :: "launch_env \<Rightarrow> string \<Rightarrow> string" where
  "resolveSessionDir le agentId =
     path_join [path_join [path_join [basecampRoot (le_home le), ''swarm''], ''agents''], agentId, ''session'']"

record launch_workspace =
  lw_launchCwd :: "string option"
  lw_repoRoot :: "string option"

record launch_input =
  li_agents :: "agent_config list"
  li_resolvedAgent :: "agent_config option option"
  li_extensionRoot :: string
  li_tools :: "tool_info list"
  li_sandboxedFlag :: bool
  li_requestedAgent :: "string option"
  li_namePrefix :: string
  li_nameSuffix :: "string option"
  li_task :: string
  li_model :: "parent_model option"
  li_aliasOf :: "string \<Rightarrow> string option"
  li_workspace :: "launch_workspace option"
  li_agentId :: string
  li_parentSession :: string
  li_project :: string
  li_agentWorkspace :: "agent_provision option"

record launch_plan =
  lp_agent :: "agent_config option"
  lp_agentLabel :: string
  lp_model :: "string option"
  lp_modelAliasFallback :: "string option"
  lp_name :: string
  lp_environment :: env
  lp_extensionTools :: "string list"
  lp_spawnCwd :: string
  lp_sessionDir :: string
  lp_args :: "string list"
  lp_agentDir :: string
  lp_writes :: "file_write list"

definition fallbackSpawnCwd :: "launch_env \<Rightarrow> launch_workspace option \<Rightarrow> string" where
  "fallbackSpawnCwd le workspace =
     (case workspace of Some w \<Rightarrow> (case lw_launchCwd w of Some d \<Rightarrow> d | None \<Rightarrow> le_cwd le) | None \<Rightarrow> le_cwd le)"

definition repo_backed :: "launch_workspace option \<Rightarrow> bool" where
  "repo_backed workspace \<longleftrightarrow> (case workspace of Some w \<Rightarrow> nonempty (lw_repoRoot w) \<noteq> None | None \<Rightarrow> False)"

definition run_workspace_of :: "agent_provision \<Rightarrow> run_workspace" where
  "run_workspace_of p = (case ap_kind p of
     KDeliverable \<Rightarrow> WsDeliverable (case ap_branch p of Some b \<Rightarrow> b | None \<Rightarrow> []) | KReport \<Rightarrow> WsReport | KAsk \<Rightarrow> WsAsk)"

definition launch_agent :: "launch_input \<Rightarrow> agent_config option" where
  "launch_agent inp =
     (case li_resolvedAgent inp of
        Some a \<Rightarrow> a
      | None \<Rightarrow> (case nonempty (li_requestedAgent inp) of
                   Some r \<Rightarrow> find (\<lambda>a. ac_name a = r) (li_agents inp) | None \<Rightarrow> None))"

definition launch_environment :: "launch_env \<Rightarrow> launch_input \<Rightarrow> bool \<Rightarrow> env" where
  "launch_environment le inp sandbox =
     (let e = buildAgentEnv (le_number le) (le_env le) (li_parentSession inp) (li_project inp) sandbox
      in case li_agentWorkspace inp of
           Some p \<Rightarrow> e(''BASECAMP_WORKTREE_DIR'' \<mapsto> ap_worktreeDir p, ''BASECAMP_WORKTREE_LABEL'' \<mapsto> ap_label p)
         | None \<Rightarrow> e)"

definition parent_sandbox :: "launch_env \<Rightarrow> launch_input \<Rightarrow> bool" where
  "parent_sandbox le inp = isExternalSandboxLaunch (getBasecampEnv (le_env le) ''BASECAMP_BASH_REVIEWER'')
     (getBasecampEnv (le_env le) ''BASECAMP_EXTERNAL_SANDBOX'') (li_sandboxedFlag inp)"

definition or_adhoc :: "string option \<Rightarrow> string" where
  "or_adhoc v = (case v of Some s \<Rightarrow> s | None \<Rightarrow> ''ad-hoc'')"

text \<open>
  \<open>Inl\<close> is the message of the launch failure or of the error thrown; both become the tool's error.
\<close>

definition buildAgentLaunchSpec :: "launch_env \<Rightarrow> launch_input \<Rightarrow> launch_plan result" where
  "buildAgentLaunchSpec le inp =
     (let requested = nonempty (li_requestedAgent inp); agent = launch_agent inp in
      if requested \<noteq> None \<and> agent = None
      then Inl (''Unknown agent: '' @ the requested @ ''. Available: '' @
             string_or (join '', '' (map ac_name (li_agents inp))) ''none'')
      else if repo_backed (li_workspace inp) \<and> li_agentWorkspace inp = None
      then Inl (''Agent \"'' @ or_adhoc (map_option ac_name agent) @
             ''\" requires a provisioned workspace in a repo-backed session; none was supplied.'')
      else rbind (buildAgentRunName (li_namePrefix inp) (li_nameSuffix inp)) (\<lambda>name.
        let (model, fallback) = resolveModel (li_aliasOf inp) (case agent of Some a \<Rightarrow> ac_model a | None \<Rightarrow> ''inherit'') (li_model inp);
            sandbox = parent_sandbox le inp;
            extensionTools = getBasecampExtensionToolNames (le_realpath le) (le_cwd le) (li_tools inp) (li_extensionRoot inp);
            sessionDir = resolveSessionDir le (li_agentId inp)
        in rbind (buildPiArgs le agent (li_task inp)
             \<lparr>po_name = name, po_model = model, po_sessionDir = sessionDir, po_sessionId = Some (li_agentId inp),
              po_extensionTools = extensionTools, po_workspace = map_option run_workspace_of (li_agentWorkspace inp),
              po_externalSandboxLaunch = sandbox\<rparr>) (\<lambda>(args, agentDir, writes).
           Inr \<lparr>lp_agent = agent, lp_agentLabel = or_adhoc requested, lp_model = model, lp_modelAliasFallback = fallback,
                lp_name = name, lp_environment = launch_environment le inp sandbox, lp_extensionTools = extensionTools,
                lp_spawnCwd = (case li_agentWorkspace inp of Some p \<Rightarrow> ap_worktreeDir p | None \<Rightarrow> fallbackSpawnCwd le (li_workspace inp)),
                lp_sessionDir = sessionDir, lp_args = args, lp_agentDir = agentDir, lp_writes = writes\<rparr>)))"

text \<open>The environment of the dispatch frame (\<open>dispatch.ts\<close> and \<open>ask.ts\<close>): the sanitized one, the plan's, the title and the handle.\<close>

definition dispatch_environment :: "launch_env \<Rightarrow> launch_plan \<Rightarrow> string \<Rightarrow> string \<Rightarrow> env" where
  "dispatch_environment le plan title handle =
     (processEnvForSpawn (le_env le) ++ lp_environment plan)
       (''BASECAMP_AGENT_TITLE'' \<mapsto> title, ''BASECAMP_AGENT_HANDLE'' \<mapsto> handle)"

section \<open>What a child may do\<close>

text \<open>The flags of an argument list as the command line reads them: an option that takes a value takes the next word.\<close>

definition VALUED_OPTIONS :: "string list" where
  "VALUED_OPTIONS = [''--mode'', ''--model'', ''--thinking'', ''--session-dir'', ''--session-id'', ''--agent-prompt'', ''--tools'']"

fun option_words :: "string list \<Rightarrow> string list" where
  "option_words [] = []"
| "option_words [a] = [a]"
| "option_words (a # v # as) = a # (if a \<in> set VALUED_OPTIONS then option_words as else option_words (v # as))"

lemma option_words_valued [simp]: "a \<in> set VALUED_OPTIONS \<Longrightarrow> option_words (a # v # as) = a # option_words as"
  by simp

lemma option_words_plain: "a \<notin> set VALUED_OPTIONS \<Longrightarrow> option_words (a # as) = a # option_words as"
  by (cases as) simp_all

lemma option_words_flag_arg:
  "f \<in> set VALUED_OPTIONS \<Longrightarrow> set (option_words (flag_arg f v @ as)) \<subseteq> insert f (set (option_words as))"
  by (auto simp: flag_arg_def split: option.split)

lemma launch_spec_cases:
  assumes "buildAgentLaunchSpec le inp = Inr plan"
  obtains opts where "buildPiArgs le (lp_agent plan) (li_task inp) opts = Inr (lp_args plan, lp_agentDir plan, lp_writes plan)"
    and "po_externalSandboxLaunch opts = parent_sandbox le inp"
    and "po_workspace opts = map_option run_workspace_of (li_agentWorkspace inp)"
    and "po_extensionTools opts = getBasecampExtensionToolNames (le_realpath le) (le_cwd le) (li_tools inp) (li_extensionRoot inp)"
    and "lp_environment plan = launch_environment le inp (parent_sandbox le inp)"
    and "repo_backed (li_workspace inp) \<longrightarrow> li_agentWorkspace inp \<noteq> None"
    and "lp_spawnCwd plan = (case li_agentWorkspace inp of Some p \<Rightarrow> ap_worktreeDir p | None \<Rightarrow> fallbackSpawnCwd le (li_workspace inp))"
    and "po_sessionDir opts = lp_sessionDir plan"
proof -
  obtain model fallback where m: "resolveModel (li_aliasOf inp)
      (case launch_agent inp of Some a \<Rightarrow> ac_model a | None \<Rightarrow> ''inherit'') (li_model inp) = (model, fallback)" by fastforce
  show thesis
    using assms that unfolding buildAgentLaunchSpec_def Let_def m
    by (auto simp: result_iff split: if_splits)
qed

text \<open>The child's environment at a variable that neither the launch nor the dispatch sets.\<close>

definition STAMPED :: "string list" where
  "STAMPED = [''BASECAMP_PROJECT'', ''BASECAMP_PARENT_SESSION'', ''BASECAMP_SIBLING_GROUP'', ''BASECAMP_AGENT_DEPTH'',
     ''BASECAMP_AGENT_MAX_DEPTH'', ''BASECAMP_WORKTREE_DIR'', ''BASECAMP_WORKTREE_LABEL'', ''BASECAMP_AGENT_TITLE'',
     ''BASECAMP_AGENT_HANDLE'']"

lemma launch_environment_inherits:
  assumes "k \<notin> set STAMPED"
  shows "launch_environment le inp sandbox k =
    (if k \<in> set SANDBOX_SIGNAL_ENV_VARS then if sandbox then le_env le k else None
     else if startsWith k ''BASECAMP_'' then le_env le k else None)"
proof -
  have "k \<noteq> n" if "n \<in> set STAMPED" for n using that assms by auto
  then show ?thesis
    by (simp add: STAMPED_def launch_environment_def buildAgentEnv_def Let_def map_add_def split: option.split)
qed

lemma dispatch_environment_inherits:
  assumes "lp_environment plan = launch_environment le inp sandbox" and "k \<notin> set STAMPED"
  shows "dispatch_environment le plan title handle k =
    (case launch_environment le inp sandbox k of
       Some v \<Rightarrow> Some v | None \<Rightarrow> if k \<in> set RESTRICTED_AGENT_SPAWN_ENV_VARS then None else le_env le k)"
proof -
  have "k \<noteq> n" if "n \<in> set STAMPED" for n using that assms(2) by auto
  then show ?thesis
    by (simp add: STAMPED_def dispatch_environment_def assms(1) processEnvForSpawn_def sanitizeAgentSpawnEnv_def
        map_add_def split: option.split)
qed

lemma piArgs_shape:
  assumes "buildPiArgs le agent task opts = Inr (args, dir, writes)"
  shows "butlast args = [''pi'', ''--mode'', ''json'', ''-p'']
      @ (if po_externalSandboxLaunch opts then [''--unsafe-edit-sandboxed''] else [])
      @ option_args agent opts (path_join [dir, ''prompt.md''])"
  using assms by (auto simp: buildPiArgs_def Let_def result_iff butlast_append)

lemma piArgs_writes:
  assumes "buildPiArgs le agent task opts = Inr (args, dir, writes)"
  shows "isWithin (le_cwd le) dir (path_resolve (le_cwd le) [AGENT_BASE le])"
    "\<forall>w \<in> set writes. case w of
       WriteFile f text \<Rightarrow> f \<in> {path_join [dir, ''prompt.md''], path_join [dir, ''task.md'']}
     | MkDir d \<Rightarrow> d \<in> {dir, po_sessionDir opts}"
  using assms by (auto simp: buildPiArgs_def ensureAgentDir_def Let_def result_iff split: if_splits option.splits)

lemma option_words_options:
  "set (option_words (option_args agent opts f)) \<subseteq> set VALUED_OPTIONS \<union> {''--no-prompt-templates''}"
proof -
  have prompt: "set (option_words ((if persona_of agent \<noteq> None then [''--agent-prompt'', f] else []) @ [''--tools'', t]))
      \<subseteq> {''--agent-prompt'', ''--tools''}" for t
    by (simp add: VALUED_OPTIONS_def)
  show ?thesis
    unfolding option_args_def
    by (intro subset_trans [OF option_words_flag_arg] insert_subsetI)
      (use prompt in \<open>auto simp: VALUED_OPTIONS_def option_words_plain flag_arg_def split: option.split\<close>)
qed

text \<open>
  C29. A dispatched agent stands its command reviewer down exactly when its parent's stands down: the
  reviewer's opt-out, read from the environment and the arguments a child is launched with, holds
  if and only if it holds of the parent's own environment and launch flag. So no chain of dispatches
  assembles the opt-out from an environment alone, and a sandboxed parent's children keep it.
\<close>

theorem child_reviewer_follows_parent:
  assumes "buildAgentLaunchSpec le inp = Inr plan"
  shows "isReviewerDisabled (getBasecampEnv (dispatch_environment le plan title handle) ''BASECAMP_BASH_REVIEWER'')
      (getBasecampEnv (dispatch_environment le plan title handle) ''BASECAMP_EXTERNAL_SANDBOX'')
      (''--unsafe-edit-sandboxed'' \<in> set (option_words (butlast (lp_args plan))))
    \<longleftrightarrow> isReviewerDisabled (getBasecampEnv (le_env le) ''BASECAMP_BASH_REVIEWER'')
      (getBasecampEnv (le_env le) ''BASECAMP_EXTERNAL_SANDBOX'') (li_sandboxedFlag inp)"
proof -
  from assms obtain opts where p: "buildPiArgs le (lp_agent plan) (li_task inp) opts = Inr (lp_args plan, lp_agentDir plan, lp_writes plan)"
    and s: "po_externalSandboxLaunch opts = parent_sandbox le inp"
    and e: "lp_environment plan = launch_environment le inp (parent_sandbox le inp)"
    by (rule launch_spec_cases)
  have flag: "''--unsafe-edit-sandboxed'' \<in> set (option_words (butlast (lp_args plan))) \<longleftrightarrow> parent_sandbox le inp"
    using option_words_options [of "lp_agent plan" opts "path_join [lp_agentDir plan, ''prompt.md'']"]
    by (auto simp: piArgs_shape [OF p] s option_words_plain VALUED_OPTIONS_def)
  have env: "dispatch_environment le plan title handle k = (if parent_sandbox le inp then le_env le k else None)"
    if "k \<in> set SANDBOX_SIGNAL_ENV_VARS" for k
  proof -
    have "k \<notin> set STAMPED" "k \<in> set RESTRICTED_AGENT_SPAWN_ENV_VARS"
      using that by (auto simp: SANDBOX_SIGNAL_ENV_VARS_def STAMPED_def RESTRICTED_AGENT_SPAWN_ENV_VARS_def)
    then show ?thesis
      using that by (simp add: dispatch_environment_inherits [OF e] launch_environment_inherits split: option.split)
  qed
  show ?thesis
    unfolding flag isReviewerDisabled_def
    by (auto simp: env SANDBOX_SIGNAL_ENV_VARS_def getBasecampEnv_def parent_sandbox_def isExternalSandboxLaunch_def)
qed


text \<open>
  The report identity of the parent's own run is inherited: \<open>sanitizeAgentSpawnEnv\<close> takes it out of
  the first layer, but \<open>buildAgentEnv\<close> copies it again with every other \<open>BASECAMP_\<close> variable.
\<close>

lemma report_identity_reaches_child:
  assumes "buildAgentLaunchSpec le inp = Inr plan"
    and "k \<in> {''BASECAMP_RUN_ID'', ''BASECAMP_REPORT_TOKEN'', ''BASECAMP_AGENT_ID'', ''BASECAMP_DAEMON_UDS''}"
    and "le_env le k = Some v"
  shows "dispatch_environment le plan title handle k = Some v"
proof -
  from assms(1) have e: "lp_environment plan = launch_environment le inp (parent_sandbox le inp)"
    by (rule launch_spec_cases)
  have "k \<notin> set STAMPED" "k \<notin> set SANDBOX_SIGNAL_ENV_VARS" "startsWith k ''BASECAMP_''"
    using assms(2) by (auto simp: SANDBOX_SIGNAL_ENV_VARS_def STAMPED_def)
  then show ?thesis
    using assms(3) by (simp add: dispatch_environment_inherits [OF e] launch_environment_inherits)
qed

text \<open>
  Capability follows the workspace: a launch in a repository has a workspace of its own, runs in it
  and names it in the child's environment; the child's tools are listed once each, none of the tools
  reserved to the top-level session among them, and without a workspace the file-changing tools are
  there only if an extension tool has their name; and the files a launch writes are the prompt and
  task files of a directory inside the agents' directory.
\<close>

theorem launch_capability_follows_workspace:
  assumes "buildAgentLaunchSpec le inp = Inr plan"
  shows "(repo_backed (li_workspace inp) \<longrightarrow> li_agentWorkspace inp \<noteq> None)
    \<and> (\<forall>p. li_agentWorkspace inp = Some p \<longrightarrow> lp_spawnCwd plan = ap_worktreeDir p
          \<and> dispatch_environment le plan title handle ''BASECAMP_WORKTREE_DIR'' = Some (ap_worktreeDir p))
    \<and> (\<exists>before tools. butlast (lp_args plan) = before @ [''--tools'', join '','' tools]
          \<and> distinct tools \<and> set tools \<inter> set SUBAGENT_EXCLUDED_EXTENSION_TOOLS = {}
          \<and> (li_agentWorkspace inp = None \<longrightarrow> set tools \<inter> {''write'', ''edit''} \<subseteq>
               set (getBasecampExtensionToolNames (le_realpath le) (le_cwd le) (li_tools inp) (li_extensionRoot inp))))
    \<and> (\<forall>w \<in> set (lp_writes plan). case w of
          WriteFile f text \<Rightarrow> f \<in> {path_join [lp_agentDir plan, ''prompt.md''], path_join [lp_agentDir plan, ''task.md'']}
        | MkDir d \<Rightarrow> d \<in> {lp_agentDir plan, lp_sessionDir plan})
    \<and> isWithin (le_cwd le) (lp_agentDir plan) (path_resolve (le_cwd le) [AGENT_BASE le])"
proof -
  from assms obtain opts where p: "buildPiArgs le (lp_agent plan) (li_task inp) opts = Inr (lp_args plan, lp_agentDir plan, lp_writes plan)"
    and w: "po_workspace opts = map_option run_workspace_of (li_agentWorkspace inp)"
    and x: "po_extensionTools opts = getBasecampExtensionToolNames (le_realpath le) (le_cwd le) (li_tools inp) (li_extensionRoot inp)"
    and e: "lp_environment plan = launch_environment le inp (parent_sandbox le inp)"
    and r: "repo_backed (li_workspace inp) \<longrightarrow> li_agentWorkspace inp \<noteq> None"
    and c: "lp_spawnCwd plan = (case li_agentWorkspace inp of Some p \<Rightarrow> ap_worktreeDir p | None \<Rightarrow> fallbackSpawnCwd le (li_workspace inp))"
    and sd: "po_sessionDir opts = lp_sessionDir plan"
    by (rule launch_spec_cases) blast
  let ?tools = "launch_tools (po_workspace opts) (po_extensionTools opts)"
  have base: "set getAgentToolAllowlist \<inter> set SUBAGENT_EXCLUDED_EXTENSION_TOOLS = {}"
    "set getWorkspacelessAgentToolAllowlist \<inter> set SUBAGENT_EXCLUDED_EXTENSION_TOOLS = {}"
    "set getWorkspacelessAgentToolAllowlist \<inter> {''write'', ''edit''} = {}" by code_simp+
  have tools: "distinct ?tools" "set ?tools \<inter> set SUBAGENT_EXCLUDED_EXTENSION_TOOLS = {}"
    "li_agentWorkspace inp = None \<longrightarrow> set ?tools \<inter> {''write'', ''edit''} \<subseteq> set (po_extensionTools opts)"
    using base by (auto simp: launch_tools_def w x getBasecampExtensionToolNames_def)
  have args: "\<exists>before. butlast (lp_args plan) = before @ [''--tools'', join '','' ?tools]"
    unfolding piArgs_shape [OF p] option_args_def by (metis append.assoc)
  note files = piArgs_writes [OF p, unfolded sd]
  have env: "dispatch_environment le plan title handle ''BASECAMP_WORKTREE_DIR'' = Some (ap_worktreeDir p)"
    if "li_agentWorkspace inp = Some p" for p
    by (simp add: dispatch_environment_def e launch_environment_def that)
  show ?thesis using r c env args tools files unfolding x by (auto simp del: butlast.simps)
qed


section \<open>A launch\<close>

definition sample_launch_env :: launch_env where
  "sample_launch_env = \<lparr>le_cwd = ''/w'', le_tmpdir = ''/tmp'', le_home = ''/h'',
     le_env = [''BASECAMP_BASH_REVIEWER'' \<mapsto> ''off'', ''BASECAMP_EXTERNAL_SANDBOX'' \<mapsto> ''1'', ''BASECAMP_REPORT_TOKEN'' \<mapsto> ''t''],
     le_realpath = (\<lambda>_. None), le_contract = (\<lambda>_. ''contract''), le_number = (\<lambda>_. None)\<rparr>"

definition sample_provision :: agent_provision where
  "sample_provision = \<lparr>ap_kind = KReport, ap_worktreeDir = ''/t/a'', ap_label = ''a'', ap_branch = None, ap_baseOid = ''0'',
     ap_branchCreated = False, ap_repoRoot = ''/r'', ap_setupWarning = None\<rparr>"

definition sample_launch :: launch_input where
  "sample_launch = \<lparr>li_agents = [], li_resolvedAgent = None, li_extensionRoot = ''/x'',
     li_tools = [\<lparr>ti_name = ''agent'', ti_source = ''x'', ti_baseDir = Some ''/x/y'', ti_path = None\<rparr>,
                 \<lparr>ti_name = ''ask'', ti_source = ''x'', ti_baseDir = Some ''/x/y'', ti_path = None\<rparr>],
     li_sandboxedFlag = True, li_requestedAgent = None, li_namePrefix = ''agent-1'', li_nameSuffix = None, li_task = ''go'',
     li_model = None, li_aliasOf = (\<lambda>_. None), li_workspace = Some \<lparr>lw_launchCwd = None, lw_repoRoot = Some ''/r''\<rparr>,
     li_agentId = ''i'', li_parentSession = ''s'', li_project = ''p'', li_agentWorkspace = Some sample_provision\<rparr>"

definition sample_plan :: launch_plan where
  "sample_plan = (case buildAgentLaunchSpec sample_launch_env sample_launch of Inr p \<Rightarrow> p | Inl _ \<Rightarrow> undefined)"

lemma sample_plan: "buildAgentLaunchSpec sample_launch_env sample_launch = Inr sample_plan"
proof -
  have "isl (buildAgentLaunchSpec sample_launch_env sample_launch) = False" by code_simp
  then show ?thesis by (cases "buildAgentLaunchSpec sample_launch_env sample_launch") (simp_all add: sample_plan_def)
qed

theorem child_reviewer_follows_parent_witness:
  "isReviewerDisabled (getBasecampEnv (dispatch_environment sample_launch_env sample_plan ''t'' ''h'') ''BASECAMP_BASH_REVIEWER'')
      (getBasecampEnv (dispatch_environment sample_launch_env sample_plan ''t'' ''h'') ''BASECAMP_EXTERNAL_SANDBOX'')
      (''--unsafe-edit-sandboxed'' \<in> set (option_words (butlast (lp_args sample_plan))))"
  unfolding child_reviewer_follows_parent [OF sample_plan] by code_simp

theorem launch_capability_follows_workspace_witness:
  "repo_backed (li_workspace sample_launch) \<and> lp_spawnCwd sample_plan = ''/t/a''"
proof
  show "repo_backed (li_workspace sample_launch)" by code_simp
  have "li_agentWorkspace sample_launch = Some sample_provision" "ap_worktreeDir sample_provision = ''/t/a''" by code_simp+
  then show "lp_spawnCwd sample_plan = ''/t/a''"
    using launch_capability_follows_workspace [OF sample_plan] by simp
qed

end
