(* ===== verification/AgentRpc.thy ===== *)
theory AgentRpc
  imports HubConnect
begin

text \<open>
  The agent side of the hub protocol (\<open>pi/core/swarm/agents/rpc.ts\<close>, \<open>tool/support.ts\<close> and the tools
  \<open>wait.ts\<close>, \<open>list.ts\<close>, \<open>cancel.ts\<close>, \<open>peer-messages.ts\<close>): the request frames, the reply each waits for, what a
  tool makes of the reply. A request is the send of its frame and the start of its wait, with
  nothing in between; the connection is that of \<open>HubConnect\<close>.
\<close>

section \<open>Requests\<close>

definition opt_json :: "('a \<Rightarrow> json) \<Rightarrow> 'a option \<Rightarrow> json" where
  "opt_json f v = (case v of Some x \<Rightarrow> f x | None \<Rightarrow> JNull)"

definition json_int :: "int \<Rightarrow> json" where "json_int n = JNum (IntNum n)"

definition json_strs :: "string list \<Rightarrow> json" where "json_strs xs = JArr (map JStr xs)"

text \<open>A field left \<open>undefined\<close> is not in the frame.\<close>

definition when_set :: "string \<Rightarrow> json option \<Rightarrow> (string \<times> json) list" where
  "when_set k v = (case v of Some x \<Rightarrow> [(k, x)] | None \<Rightarrow> [])"

type_synonym frame_body = "(string \<times> json) list"

record dispatch_options =
  do_agentId :: string
  do_agentHandle :: string
  do_agentType :: string
  do_model :: "string option"
  do_argv :: "string list"
  do_task :: string
  do_cwd :: string
  do_env :: json
  do_resumePath :: "string option"
  do_forkFrom :: "string option"
  do_ownedWorktree :: "string option"
  do_ownedBranch :: "string option"
  do_branchBase :: "string option"
  do_branchCreated :: bool

definition dispatch_frame :: "string \<Rightarrow> dispatch_options \<Rightarrow> frame_body" where
  "dispatch_frame runId d =
     [(''type'', JStr ''dispatch''), (''run_id'', JStr runId), (''agent_id'', JStr (do_agentId d)),
      (''agent_handle'', JStr (do_agentHandle d)), (''agent_type'', JStr (do_agentType d)),
      (''model'', opt_json JStr (do_model d)),
      (''spec'', JObj [(''argv'', json_strs (do_argv d)), (''task'', JStr (do_task d)), (''cwd'', JStr (do_cwd d)),
         (''env'', do_env d), (''resume_path'', opt_json JStr (do_resumePath d)), (''fork_from'', opt_json JStr (do_forkFrom d)),
         (''owned_worktree'', opt_json JStr (do_ownedWorktree d)), (''owned_branch'', opt_json JStr (do_ownedBranch d)),
         (''branch_base'', opt_json JStr (do_branchBase d)), (''branch_created'', JBool (do_branchCreated d))])]"

datatype rpc_request =
    ListAgents bool
  | WaitAgents "string list" int
  | PeerMessage string string bool
  | Cancel string
  | MessageStatus string bool "int option"
  | CreateWorkstream string string string string string "string option" "string option"
  | AttachWorkstreamAgent string "string option" "string option" "string option" "string option"
  | UpdateWorkstream string string
  | ReviseWorkstream string string string "string option"

fun request_frame :: "string \<Rightarrow> rpc_request \<Rightarrow> frame_body" where
  "request_frame rid (ListAgents awaitable) =
     [(''type'', JStr ''list_agents''), (''request_id'', JStr rid), (''awaitable'', JBool awaitable)]"
| "request_frame rid (WaitAgents handles timeoutS) =
     [(''type'', JStr ''wait''), (''request_id'', JStr rid), (''agent_ids'', JArr []), (''agent_handles'', json_strs handles),
      (''mode'', JStr ''all''), (''timeout_s'', json_int timeoutS)]"
| "request_frame rid (PeerMessage target message interrupt) =
     [(''type'', JStr ''peer_message''), (''request_id'', JStr rid), (''target_handle'', JStr target), (''message'', JStr message),
      (''interrupt'', JBool interrupt)]"
| "request_frame rid (Cancel target) =
     [(''type'', JStr ''cancel''), (''request_id'', JStr rid), (''target_handle'', JStr target)]"
| "request_frame rid (MessageStatus messageId waitUntilDelivery timeoutS) =
     [(''type'', JStr ''message_status''), (''request_id'', JStr rid), (''message_id'', JStr messageId),
      (''wait_until_delivery'', JBool waitUntilDelivery)] @ when_set ''timeout_s'' (map_option json_int timeoutS)"
| "request_frame rid (CreateWorkstream workstreamId slug label brief dossier constraints page) =
     [(''type'', JStr ''create_workstream''), (''request_id'', JStr rid), (''workstream_id'', JStr workstreamId),
      (''slug'', JStr slug), (''label'', JStr label), (''brief'', JStr brief), (''source_dossier_path'', JStr dossier),
      (''constraints'', opt_json JStr constraints), (''source_repo_page_path'', opt_json JStr page)]"
| "request_frame rid (AttachWorkstreamAgent workstream repo worktreeLabel status err) =
     [(''type'', JStr ''attach_workstream_agent''), (''request_id'', JStr rid), (''workstream'', JStr workstream),
      (''repo'', opt_json JStr repo), (''worktree_label'', opt_json JStr worktreeLabel)]
     @ when_set ''status'' (map_option JStr status) @ [(''error'', opt_json JStr err)]"
| "request_frame rid (UpdateWorkstream workstream status) =
     [(''type'', JStr ''update_workstream''), (''request_id'', JStr rid), (''workstream'', JStr workstream), (''status'', JStr status)]"
| "request_frame rid (ReviseWorkstream workstream label brief constraints) =
     [(''type'', JStr ''revise_workstream''), (''request_id'', JStr rid), (''workstream'', JStr workstream),
      (''label'', JStr label), (''brief'', JStr brief), (''constraints'', opt_json JStr constraints)]"

fun reply_type :: "rpc_request \<Rightarrow> string" where
  "reply_type (ListAgents _) = ''list_agents_result''"
| "reply_type (WaitAgents _ _) = ''wait_result''"
| "reply_type (PeerMessage _ _ _) = ''peer_message_ack''"
| "reply_type (Cancel _) = ''cancel_ack''"
| "reply_type (MessageStatus _ _ _) = ''message_status_result''"
| "reply_type (CreateWorkstream _ _ _ _ _ _ _) = ''create_workstream_ack''"
| "reply_type (AttachWorkstreamAgent _ _ _ _ _) = ''attach_workstream_agent_ack''"
| "reply_type (UpdateWorkstream _ _) = ''update_workstream_ack''"
| "reply_type (ReviseWorkstream _ _ _ _) = ''revise_workstream_ack''"

text \<open>The fields of the reply that the call returns.\<close>

fun reply_fields :: "rpc_request \<Rightarrow> string list" where
  "reply_fields (ListAgents _) = [''agents'']"
| "reply_fields (WaitAgents _ _) = [''results'']"
| "reply_fields (PeerMessage _ _ _) = [''message_id'', ''status'', ''error'']"
| "reply_fields (Cancel _) = [''status'', ''error'']"
| "reply_fields (MessageStatus _ _ _) =
     [''message_id'', ''status'', ''error'', ''created_at'', ''sent_at'', ''queued_at'', ''failed_at'']"
| "reply_fields (CreateWorkstream _ _ _ _ _ _ _) = [''status'', ''workstream_id'', ''slug'', ''error'']"
| "reply_fields (AttachWorkstreamAgent _ _ _ _ _) = [''status'', ''error'']"
| "reply_fields (UpdateWorkstream _ _) = [''status'', ''error'']"
| "reply_fields (ReviseWorkstream _ _ _ _) = [''status'', ''version'', ''error'']"

definition by_request_id :: "string \<Rightarrow> json \<Rightarrow> bool" where
  "by_request_id rid f \<longleftrightarrow> field f ''request_id'' = Some (JStr rid)"

text \<open>\<open>requestAck\<close>: the send and the wait, named \<open>i\<close>, for the reply with the request's own id.\<close>

definition requestAck :: "nat \<Rightarrow> string \<Rightarrow> rpc_request \<Rightarrow> bool \<Rightarrow> conn_event list" where
  "requestAck i rid r aborted =
     [Send (encodeFrame (request_frame rid r)), Wait i (reply_type r) (by_request_id rid) aborted]"

text \<open>The dispatch waits for the acknowledgement of its run.\<close>

definition dispatchAgent :: "nat \<Rightarrow> string \<Rightarrow> dispatch_options \<Rightarrow> conn_event list" where
  "dispatchAgent i runId d =
     [Send (encodeFrame (dispatch_frame runId d)), Wait i ''dispatch_ack'' (\<lambda>f. field f ''run_id'' = Some (JStr runId)) False]"

section \<open>Results of a wait\<close>

record wait_item =
  wi_handle :: "string option"
  wi_status :: string
  wi_result :: "string option"
  wi_error :: "string option"

text \<open>\<open>new Map(pairs)\<close> keeps the last value of a key; the results come in the order of the request, each handle once.\<close>

definition requested_result :: "wait_item list \<Rightarrow> string \<Rightarrow> wait_item option" where
  "requested_result results h = find (\<lambda>r. wi_handle r = Some h) (rev results)"

definition unknown_item :: "string \<Rightarrow> wait_item" where
  "unknown_item h = \<lparr>wi_handle = Some h, wi_status = ''unknown'', wi_result = None, wi_error = None\<rparr>"

definition js_set :: "'a list \<Rightarrow> 'a list" where
  "js_set xs = rev (remdups (rev xs))"

definition dedupeRequestedResults :: "wait_item list \<Rightarrow> string list \<Rightarrow> wait_item list" where
  "dedupeRequestedResults results handles =
     map (\<lambda>h. case requested_result results h of Some r \<Rightarrow> r | None \<Rightarrow> unknown_item h) (js_set handles)"

section \<open>Arguments and texts of the tools\<close>

datatype handles_param = HandleMissing | HandleText string | HandleList "string list"

fun json_strings :: "json list \<Rightarrow> string list option" where
  "json_strings [] = Some []"
| "json_strings (JStr s # xs) = map_option ((#) s) (json_strings xs)"
| "json_strings (_ # xs) = None"

text \<open>\<open>parse\<close> is \<open>JSON.parse\<close>, \<open>None\<close> where it throws.\<close>

definition parseHandleString :: "(string \<Rightarrow> json option) \<Rightarrow> string \<Rightarrow> string list" where
  "parseHandleString parse value =
     (let trimmed = trim value in
      if \<not> startsWith trimmed ''['' then [trimmed]
      else case parse trimmed of
             Some (JArr xs) \<Rightarrow> (case json_strings xs of Some ss \<Rightarrow> ss | None \<Rightarrow> [trimmed])
           | _ \<Rightarrow> [trimmed])"

definition normalizeHandles :: "(string \<Rightarrow> json option) \<Rightarrow> handles_param \<Rightarrow> string list" where
  "normalizeHandles parse inp =
     (let clean = (\<lambda>values. js_set (filter (\<lambda>v. v \<noteq> []) (map trim values)))
      in case inp of HandleMissing \<Rightarrow> [] | HandleList values \<Rightarrow> clean values
         | HandleText s \<Rightarrow> clean (parseHandleString parse s))"

definition preview :: "nat \<Rightarrow> string option \<Rightarrow> string" where
  "preview limit text =
     (case text of None \<Rightarrow> [] | Some t \<Rightarrow>
        (let compact = collapse_ws t
         in if t = [] then [] else if length compact > limit then take limit compact @ [ellipsis] else compact))"

definition hasText :: "string option \<Rightarrow> bool" where
  "hasText value \<longleftrightarrow> (case value of Some v \<Rightarrow> trim v \<noteq> [] | None \<Rightarrow> False)"

definition or_text :: "string option \<Rightarrow> string \<Rightarrow> string" where
  "or_text v d = (if hasText v then the v else d)"

record wait_handle_result =
  wr_handle :: string
  wr_status :: string
  wr_result :: "string option"
  wr_error :: "string option"

definition nl :: string where "nl = [CHR 0x0A]"

text \<open>The check mark, the cross and the ellipsis that open a line are drawn as \<open>v\<close>, \<open>x\<close> and \<open>~\<close>.\<close>

definition formatWaitItemText :: "wait_handle_result \<Rightarrow> string" where
  "formatWaitItemText item =
     (if wr_status item = ''completed''
        then ''v '' @ wr_handle item @ '' completed'' @ nl @ or_text (wr_result item) ''(no output)''
      else if wr_status item = ''failed''
        then join nl ([''x '' @ wr_handle item @ '' failed'', ''error:'' @ nl @ or_text (wr_error item) ''unknown error'']
               @ (if hasText (wr_result item) then [''result:'' @ nl @ the (wr_result item)] else []))
      else if wr_status item = ''unknown''
        then (if hasText (wr_error item) then ''? '' @ wr_handle item @ '' wait failed: '' @ preview 80 (wr_error item)
              else ''? '' @ wr_handle item @ '' not awaitable or unavailable'')
      else ''~ '' @ wr_handle item @ '' still running (timed out)'')"

definition requireAgentsSkillMessage :: "string \<Rightarrow> string" where
  "requireAgentsSkillMessage action =
     ''Load the agents skill first: call skill({ name: \"agents\" }) before '' @ action @ ''.''"


section \<open>The tools\<close>

record 'd tool_result =
  tr_text :: string
  tr_isError :: bool
  tr_details :: "'d option"

definition tool_error :: "string \<Rightarrow> 'd tool_result" where
  "tool_error text = \<lparr>tr_text = text, tr_isError = True, tr_details = None\<rparr>"

text \<open>
  A tool runs in two halves around the wait: what it checks and asks for, or its answer without
  asking (\<open>Inl\<close>), and what it makes of the outcome. A fractional timeout is given by its floor.
\<close>

definition timeout_of :: "int option \<Rightarrow> int \<Rightarrow> int" where
  "timeout_of given dflt = max 1 (case given of Some t \<Rightarrow> t | None \<Rightarrow> dflt)"

record wait_details =
  wd_items :: "wait_handle_result list"
  wd_aborted :: bool

definition wait_ask ::
  "(string \<Rightarrow> json option) \<Rightarrow> bool \<Rightarrow> bool \<Rightarrow> handles_param \<Rightarrow> handles_param \<Rightarrow> int option
   \<Rightarrow> wait_details tool_result + (string list \<times> rpc_request)" where
  "wait_ask parse skill connected agent_handles handles timeout_s =
     (if \<not> skill then Inl (tool_error (requireAgentsSkillMessage ''waiting for agents''))
      else if \<not> connected then Inl (tool_error ''basecamp hub is not connected; cannot wait for async agent handles.'')
      else let agentHandles = normalizeHandles parse (if agent_handles = HandleMissing then handles else agent_handles) in
        if agentHandles = [] then Inl (tool_error ''No agent handles provided.'')
        else Inr (agentHandles, WaitAgents agentHandles (timeout_of timeout_s 600)))"

definition wait_item_of :: "wait_item list \<Rightarrow> string \<Rightarrow> wait_handle_result" where
  "wait_item_of results h =
     (case requested_result results h of
        None \<Rightarrow> \<lparr>wr_handle = h, wr_status = ''unknown'', wr_result = None, wr_error = None\<rparr>
      | Some hit \<Rightarrow>
          if wi_status hit = ''running''
          then \<lparr>wr_handle = h, wr_status = ''running'', wr_result = None, wr_error = Some ''still running (timed out)''\<rparr>
          else \<lparr>wr_handle = h,
                wr_status = (if wi_status hit \<in> {''failed'', ''completed''} then wi_status hit else ''unknown''),
                wr_result = wi_result hit, wr_error = wi_error hit\<rparr>)"

text \<open>The tool's answer to the results of the reply (\<open>None\<close>: the wait was aborted).\<close>

definition wait_answer :: "string list \<Rightarrow> wait_item list option \<Rightarrow> wait_details tool_result" where
  "wait_answer agentHandles reply =
     (case reply of
        None \<Rightarrow> \<lparr>tr_text = ''wait aborted'', tr_isError = False, tr_details = Some \<lparr>wd_items = [], wd_aborted = True\<rparr>\<rparr>
      | Some frame \<Rightarrow>
          (let items = map (wait_item_of (dedupeRequestedResults frame agentHandles)) agentHandles
           in \<lparr>tr_text = join (nl @ nl) (map formatWaitItemText items), tr_isError = False,
               tr_details = Some \<lparr>wd_items = items, wd_aborted = False\<rparr>\<rparr>))"

record list_agent_item =
  la_agent_id :: string
  la_agent_handle :: "string option"
  la_agent_type :: "string option"
  la_role :: string
  la_session_name :: string
  la_task :: "string option"
  la_depth :: int
  la_status :: string
  la_awaitable :: bool

record public_agent =
  pa_agentHandle :: string
  pa_agentType :: "string option"
  pa_role :: string
  pa_sessionName :: "string option"
  pa_task :: "string option"
  pa_depth :: int
  pa_status :: string
  pa_awaitable :: bool

definition trimmed :: "string option \<Rightarrow> string option" where
  "trimmed v = (case v of Some s \<Rightarrow> if trim s = [] then None else Some (trim s) | None \<Rightarrow> None)"

definition publicAgentHandle :: "list_agent_item \<Rightarrow> string option" where
  "publicAgentHandle agent =
     (case trimmed (la_agent_handle agent) of
        Some handle \<Rightarrow> if handle = la_agent_id agent then None else Some handle
      | None \<Rightarrow> None)"

definition storedAgentType :: "list_agent_item \<Rightarrow> string option" where
  "storedAgentType agent = trimmed (la_agent_type agent)"

text \<open>\<open>s.replaceAll(p, r)\<close> for a pattern that is not empty and a replacement without \<open>$\<close>.\<close>

function replaceAll :: "string \<Rightarrow> string \<Rightarrow> string \<Rightarrow> string" where
  "replaceAll p r s =
     (case s of [] \<Rightarrow> []
      | c # cs \<Rightarrow> if p \<noteq> [] \<and> startsWith s p then r @ replaceAll p r (drop (length p) s) else c # replaceAll p r cs)"
  by pat_completeness auto
termination
  by (relation "measure (\<lambda>(p, r, s). length s)") auto

declare replaceAll.simps [simp del]

definition publicSessionName :: "list_agent_item \<Rightarrow> string \<Rightarrow> string option" where
  "publicSessionName agent agentHandle =
     (let sessionName = trim (la_session_name agent) in
      if sessionName = [] \<or> sessionName = la_agent_id agent \<or> sessionName = agentHandle then None
      else (let publicName = trim (replaceAll (la_agent_id agent) agentHandle sessionName)
            in if publicName \<noteq> [] \<and> publicName \<noteq> agentHandle then Some publicName else None))"

definition toPublicListAgent :: "list_agent_item \<Rightarrow> public_agent option" where
  "toPublicListAgent agent =
     map_option (\<lambda>h. \<lparr>pa_agentHandle = h, pa_agentType = storedAgentType agent, pa_role = la_role agent,
       pa_sessionName = publicSessionName agent h, pa_task = trimmed (la_task agent), pa_depth = la_depth agent,
       pa_status = la_status agent, pa_awaitable = la_awaitable agent\<rparr>) (publicAgentHandle agent)"

definition agentIdentity :: "public_agent \<Rightarrow> string" where
  "agentIdentity agent =
     (case pa_agentType agent of Some t \<Rightarrow> pa_agentHandle agent @ '' ('' @ t @ '')'' | None \<Rightarrow> pa_agentHandle agent)"

text \<open>The bullet between the parts of a line is outside the modelled range and written \<open>*\<close>.\<close>

definition buildListAgentLine :: "public_agent \<Rightarrow> string" where
  "buildListAgentLine agent =
     join nl ([agentIdentity agent,
         pa_status agent @ '' * '' @ (if pa_awaitable agent then ''awaitable'' else ''not awaitable'') @ '' * '' @ pa_role agent
           @ '' * depth '' @ show_int (pa_depth agent)]
       @ (if hasText (pa_task agent) then [''task: '' @ the (pa_task agent)] else [])
       @ (if hasText (pa_sessionName agent) \<and> pa_sessionName agent \<noteq> Some (agentIdentity agent)
          then [''title: '' @ the (pa_sessionName agent)] else []))"

definition shortListAgentsSummary :: "public_agent list \<Rightarrow> string" where
  "shortListAgentsSummary agents =
     (if agents = [] then ''No agents found in this scope.'' else join (nl @ nl) (map buildListAgentLine agents))"

definition list_ask :: "bool \<Rightarrow> bool \<Rightarrow> bool \<Rightarrow> public_agent list tool_result + rpc_request" where
  "list_ask skill connected awaitable =
     (if \<not> skill then Inl (tool_error (requireAgentsSkillMessage ''listing agents''))
      else if \<not> connected then Inl (tool_error ''basecamp hub is not connected; cannot list dispatchable agents.'')
      else Inr (ListAgents awaitable))"

definition list_answer :: "list_agent_item list \<Rightarrow> public_agent list tool_result" where
  "list_answer reply =
     (let agents = List.map_filter toPublicListAgent reply
      in \<lparr>tr_text = shortListAgentsSummary agents, tr_isError = False, tr_details = Some agents\<rparr>)"

record ack_details =
  ak_agentHandle :: string
  ak_messageId :: "string option"
  ak_status :: string
  ak_error :: "string option"

definition cancel_ask :: "bool \<Rightarrow> bool \<Rightarrow> string \<Rightarrow> ack_details tool_result + (string \<times> rpc_request)" where
  "cancel_ask skill connected handle =
     (let targetHandle = trim handle in
      if \<not> skill then Inl (tool_error (requireAgentsSkillMessage ''cancelling agents''))
      else if targetHandle = [] then Inl (tool_error ''cancel_agent requires a non-empty agent_handle.'')
      else if \<not> connected then Inl (tool_error ''basecamp hub is not connected; cannot cancel agents.'')
      else Inr (targetHandle, Cancel targetHandle))"

definition cancel_answer :: "string \<Rightarrow> string \<Rightarrow> string option \<Rightarrow> ack_details tool_result" where
  "cancel_answer targetHandle status err =
     (let answer = (\<lambda>text isError. \<lparr>tr_text = text, tr_isError = isError,
          tr_details = Some \<lparr>ak_agentHandle = targetHandle, ak_messageId = None, ak_status = status, ak_error = err\<rparr>\<rparr>)
      in if status = ''cancelled'' then answer (''cancelled '' @ targetHandle) False
         else if status = ''already_terminal''
           then answer (targetHandle @ '' is not running (already finished or never started).'') False
         else if status = ''not_found'' then answer (''No agent found for handle '' @ targetHandle @ ''.'') True
         else answer ''You can only cancel agents you dispatched.'' True)"

definition message_ask ::
  "bool \<Rightarrow> bool \<Rightarrow> string \<Rightarrow> string \<Rightarrow> bool \<Rightarrow> ack_details tool_result + (string \<times> rpc_request)" where
  "message_ask skill connected handle message interrupt =
     (let targetHandle = trim handle in
      if \<not> skill then Inl (tool_error (requireAgentsSkillMessage ''messaging agents''))
      else if targetHandle = [] then Inl (tool_error ''message_agent requires a non-empty agent_handle.'')
      else if trim message = [] then Inl (tool_error ''message_agent requires a non-empty message.'')
      else if \<not> connected then Inl (tool_error ''basecamp hub is not connected; cannot message agents.'')
      else Inr (targetHandle, PeerMessage targetHandle message interrupt))"

definition message_answer :: "string \<Rightarrow> string option \<Rightarrow> string \<Rightarrow> string option \<Rightarrow> ack_details tool_result" where
  "message_answer targetHandle messageId status err =
     (let details = Some \<lparr>ak_agentHandle = targetHandle, ak_messageId = messageId, ak_status = status, ak_error = err\<rparr>
      in if status = ''unknown''
         then \<lparr>tr_text = or_text err ''No available agent for that handle.'', tr_isError = True, tr_details = details\<rparr>
         else \<lparr>tr_text = ''message accepted * message_id '' @ (case messageId of Some m \<Rightarrow> m | None \<Rightarrow> ''unknown'')
                 @ '' * status '' @ status, tr_isError = False, tr_details = details\<rparr>)"

record message_status_details =
  ms_messageId :: string
  ms_status :: string
  ms_error :: "string option"
  ms_createdAt :: "string option"
  ms_sentAt :: "string option"
  ms_queuedAt :: "string option"
  ms_failedAt :: "string option"
  ms_aborted :: bool

definition formatMessageStatusLine :: "message_status_details \<Rightarrow> string" where
  "formatMessageStatusLine d = join '' * ''
     ([''message_id '' @ ms_messageId d,
       ''status '' @ (if ms_status d = ''queued'' then ''queued in recipient session'' else ms_status d)]
      @ (if hasText (ms_error d) then [''error '' @ the (ms_error d)] else []))"

definition stamp_line :: "string \<Rightarrow> string option \<Rightarrow> string list" where
  "stamp_line name v = (case v of Some s \<Rightarrow> if s = [] then [] else [name @ '': '' @ s] | None \<Rightarrow> [])"

definition formatMessageStatusContent :: "message_status_details \<Rightarrow> string" where
  "formatMessageStatusContent d = join nl
     ([formatMessageStatusLine d] @ stamp_line ''created_at'' (ms_createdAt d) @ stamp_line ''sent_at'' (ms_sentAt d)
      @ stamp_line ''queued_at'' (ms_queuedAt d) @ stamp_line ''failed_at'' (ms_failedAt d))"

definition status_ask ::
  "bool \<Rightarrow> bool \<Rightarrow> string \<Rightarrow> bool \<Rightarrow> int option \<Rightarrow> message_status_details tool_result + (string \<times> rpc_request)" where
  "status_ask skill connected message_id waitUntilDelivery timeout_s =
     (let messageId = trim message_id in
      if \<not> skill then Inl (tool_error (requireAgentsSkillMessage ''checking message status''))
      else if messageId = [] then Inl (tool_error ''message_status requires a non-empty message_id.'')
      else if \<not> connected then Inl (tool_error ''basecamp hub is not connected; cannot check message status.'')
      else Inr (messageId, MessageStatus messageId waitUntilDelivery (map_option (max 1) timeout_s)))"

definition status_answer :: "string \<Rightarrow> message_status_details option \<Rightarrow> message_status_details tool_result" where
  "status_answer messageId reply =
     (case reply of
        Some d \<Rightarrow> \<lparr>tr_text = formatMessageStatusContent d, tr_isError = False, tr_details = Some d\<rparr>
      | None \<Rightarrow> \<lparr>tr_text = ''message status wait aborted'', tr_isError = False,
          tr_details = Some \<lparr>ms_messageId = messageId, ms_status = ''unknown'', ms_error = None, ms_createdAt = None,
            ms_sentAt = None, ms_queuedAt = None, ms_failedAt = None, ms_aborted = True\<rparr>\<rparr>)"


section \<open>Each request has its own reply\<close>

lemma wait_outcome_after:
  assumes "cn_registered (conn_run before)" "list_all (\<lambda>e. \<not> uses_wait i e) (before @ es)"
  shows "\<exists>w. cn_waiters (conn_run (before @ Wait i ty accepts False # es)) i = Some w \<and> wa_outcome w = wait_result i ty accepts es"
proof -
  let ?c = "conn_run before"
  have "wait_ok i ty accepts Pending (wait_for_frame i ty accepts False ?c)"
    using no_wait_before [of i before] assms(2) by (auto simp: wait_ok_def wait_for_frame_def)
  moreover have "cn_registered (wait_for_frame i ty accepts False ?c)" using assms(1) by (simp add: wait_for_frame_def)
  ultimately have "wait_ok i ty accepts (wait_result i ty accepts es)
      (foldl conn_step (wait_for_frame i ty accepts False ?c) es)"
    using wait_run [of i ty accepts Pending _ es] assms(2) by simp
  then show ?thesis by (simp add: conn_run_def wait_ok_def)
qed

lemma first_some_from: "first_some f es = Some r \<Longrightarrow> \<exists>e \<in> set es. f e = Some r"
  by (induction es) (auto split: option.splits)

lemma first_some_skip: "\<forall>e \<in> set mid. f e = None \<Longrightarrow> f e' = Some r \<Longrightarrow> first_some f (mid @ e' # es) = Some r"
  by (induction mid) auto

lemma resolved_by:
  assumes "wait_result i ty accepts es = Resolved f"
  shows "\<exists>raw. SocketMessage raw \<in> set es \<and> decodeFrame raw = Inr f \<and> frame_type f = ty \<and> accepts f"
proof -
  have "first_some (settles i ty accepts) es = Some (Resolved f)"
    using assms by (simp add: wait_result_def split: option.splits)
  from first_some_from [OF this] obtain e where e: "e \<in> set es" "settles i ty accepts e = Some (Resolved f)" by blast
  show ?thesis
  proof (cases e)
    case (SocketMessage raw)
    then show ?thesis using e by (auto split: sum.splits if_splits)
  qed (use e(2) in \<open>auto split: if_splits\<close>)
qed

lemma reply_type_not_keepalive: "reply_type r \<noteq> ''ping''" "reply_type r \<noteq> ''pong''"
  by (cases r; simp)+

text \<open>An event leaves the wait \<open>i\<close> for the reply to \<open>rid\<close> alone.\<close>

definition foreign :: "nat \<Rightarrow> string \<Rightarrow> conn_event \<Rightarrow> bool" where
  "foreign i rid e = (case e of
       SocketMessage raw \<Rightarrow> (case decodeFrame raw of Inr f \<Rightarrow> \<not> by_request_id rid f | Inl _ \<Rightarrow> True)
     | SocketClosed _ _ \<Rightarrow> False
     | Abort j \<Rightarrow> j \<noteq> i
     | _ \<Rightarrow> True)"

lemma foreign_settles: "foreign i rid e \<Longrightarrow> settles i ty (by_request_id rid) e = None"
  by (cases e) (auto simp: foreign_def split: sum.splits)

text \<open>
  C30. Requests that run at the same time never take each other's replies: on a registered connection, a
  request that is answered is answered by a frame of its reply type that came after it and carries
  its own request id; and its reply answers it however many other requests are sent and answered
  in between, as long as the connection stays open and the request is not aborted.
\<close>

theorem concurrent_requests_get_their_own_reply:
  assumes "cn_registered (conn_run before)"
    and "list_all (\<lambda>e. \<not> uses_wait i e) (before @ es)"
  shows "\<exists>w. cn_waiters (conn_run (before @ requestAck i rid r False @ es)) i = Some w
    \<and> (\<forall>f. wa_outcome w = Resolved f \<longrightarrow>
         (\<exists>raw. SocketMessage raw \<in> set es \<and> decodeFrame raw = Inr f) \<and> frame_type f = reply_type r \<and> by_request_id rid f)
    \<and> (\<forall>mid raw f rest. es = mid @ SocketMessage raw # rest \<longrightarrow> list_all (foreign i rid) mid \<longrightarrow>
         decodeFrame raw = Inr f \<longrightarrow> frame_type f = reply_type r \<longrightarrow> by_request_id rid f \<longrightarrow> wa_outcome w = Resolved f)"
proof -
  let ?send = "Send (encodeFrame (request_frame rid r))"
  have "cn_registered (conn_run (before @ [?send]))"
    using assms(1) by (simp add: conn_run_def ws_send_def)
  moreover have "list_all (\<lambda>e. \<not> uses_wait i e) ((before @ [?send]) @ es)"
    using assms(2) by (simp add: uses_wait_def)
  ultimately obtain w where w: "cn_waiters (conn_run (before @ requestAck i rid r False @ es)) i = Some w"
      "wa_outcome w = wait_result i (reply_type r) (by_request_id rid) es"
    using wait_outcome_after [of "before @ [?send]" i es "reply_type r" "by_request_id rid"] by (auto simp: requestAck_def)
  have "wa_outcome w = Resolved f" if "es = mid @ SocketMessage raw # rest" "list_all (foreign i rid) mid"
      "decodeFrame raw = Inr f" "frame_type f = reply_type r" "by_request_id rid f" for mid raw f rest
  proof -
    have "settles i (reply_type r) (by_request_id rid) (SocketMessage raw) = Some (Resolved f)"
      using that(3-5) reply_type_not_keepalive [of r] by simp
    then have "first_some (settles i (reply_type r) (by_request_id rid)) es = Some (Resolved f)"
      unfolding that(1) by (rule first_some_skip [rotated]) (use that(2) in \<open>auto simp: list_all_iff foreign_settles\<close>)
    then show ?thesis by (simp add: w(2) wait_result_def)
  qed
  moreover have "(\<exists>raw. SocketMessage raw \<in> set es \<and> decodeFrame raw = Inr f) \<and> frame_type f = reply_type r \<and> by_request_id rid f"
    if "wa_outcome w = Resolved f" for f
    using resolved_by [of i "reply_type r" "by_request_id rid" es f] that w(2) by auto
  ultimately show ?thesis using w(1) by blast
qed

theorem concurrent_requests_get_their_own_reply_witness:
  "\<exists>w f. cn_waiters (conn_run ([sample_frame ''registered'' [(''protocol'', protocol_json)]]
       @ requestAck 1 ''a'' (Cancel ''x'') False
       @ [Send JNull, Wait 2 ''cancel_ack'' (by_request_id ''b'') False,
          sample_frame ''cancel_ack'' [(''request_id'', JStr ''b'')], sample_frame ''cancel_ack'' [(''request_id'', JStr ''a'')]])) 1 = Some w
     \<and> wa_outcome w = Resolved f \<and> by_request_id ''a'' f"
proof -
  let ?before = "[sample_frame ''registered'' [(''protocol'', protocol_json)]]"
  let ?mid = "[Send JNull, Wait 2 ''cancel_ack'' (by_request_id ''b'') False, sample_frame ''cancel_ack'' [(''request_id'', JStr ''b'')]]"
  let ?reply = "encodeFrame [(''type'', JStr ''cancel_ack''), (''request_id'', JStr ''a'')]"
  have r: "cn_registered (conn_run ?before)" by code_simp
  have f: "list_all (foreign 1 ''a'') ?mid" by code_simp
  have d: "decodeFrame (Inr ?reply) = Inr ?reply" "frame_type ?reply = ''cancel_ack''" "by_request_id ''a'' ?reply" by code_simp+
  have u: "list_all (\<lambda>e. \<not> uses_wait 1 e) (?before @ ?mid @ [SocketMessage (Inr ?reply)])"
    by (simp add: uses_wait_def sample_frame_def)
  obtain w where w: "cn_waiters (conn_run (?before @ requestAck 1 ''a'' (Cancel ''x'') False @ ?mid @ [SocketMessage (Inr ?reply)])) 1 = Some w"
    "\<forall>mid raw f rest. ?mid @ [SocketMessage (Inr ?reply)] = mid @ SocketMessage raw # rest \<longrightarrow> list_all (foreign 1 ''a'') mid \<longrightarrow>
         decodeFrame raw = Inr f \<longrightarrow> frame_type f = reply_type (Cancel ''x'') \<longrightarrow> by_request_id ''a'' f \<longrightarrow> wa_outcome w = Resolved f"
    using concurrent_requests_get_their_own_reply [OF r u, of "''a''" "Cancel ''x''"] by blast
  have "wa_outcome w = Resolved ?reply"
    using w(2) [rule_format, of ?mid "Inr ?reply" "[]" ?reply] f d by simp
  with w(1) d(3) show ?thesis by (simp add: sample_frame_def)
qed

section \<open>A wait answers each handle once\<close>

lemma set_js_set [simp]: "set (js_set xs) = set xs" "distinct (js_set xs)"
  by (simp_all add: js_set_def)

lemma find_map_result:
  assumes "distinct hs" "h \<in> set hs" "\<And>x. wi_handle (g x) = Some x"
  shows "find (\<lambda>r. wi_handle r = Some h) (rev (map g hs)) = Some (g h)"
  using assms(1,2)
proof (induction hs rule: rev_induct)
  case (snoc x xs)
  then show ?case by (cases "x = h") (auto simp: assms(3))
qed simp

lemma requested_result_handle: "requested_result rs h = Some r \<Longrightarrow> wi_handle r = Some h"
  unfolding requested_result_def by (drule find_SomeD) simp

lemma requested_result_dedupe:
  assumes "h \<in> set hs"
  shows "requested_result (dedupeRequestedResults rs hs) h =
    Some (case requested_result rs h of Some r \<Rightarrow> r | None \<Rightarrow> unknown_item h)"
  unfolding dedupeRequestedResults_def requested_result_def [of "map _ _"]
  by (rule find_map_result) (use assms requested_result_handle in \<open>auto simp: unknown_item_def split: option.split\<close>)

text \<open>
  A wait answers each requested handle exactly once, in the order asked: the handles are trimmed,
  not empty and distinct, however the model spelled them; the answer has one item per handle; and
  the item is that of the last result the hub gave for the handle, or unknown when it gave none,
  while results for other handles are ignored.
\<close>

theorem wait_answers_each_handle_once:
  assumes "hs = normalizeHandles parse p"
  shows "distinct hs \<and> (\<forall>h \<in> set hs. h \<noteq> [] \<and> trim h = h)
    \<and> (case tr_details (wait_answer hs (Some frame)) of
         Some d \<Rightarrow> wd_items d = map (wait_item_of frame) hs \<and> map wr_handle (wd_items d) = hs
       | None \<Rightarrow> False)"
proof -
  have "distinct hs" "\<forall>h \<in> set hs. h \<noteq> [] \<and> trim h = h"
    by (auto simp: assms normalizeHandles_def Let_def split: handles_param.splits)
  moreover have "wait_item_of (dedupeRequestedResults frame hs) h = wait_item_of frame h" if "h \<in> set hs" for h
    using that by (simp add: wait_item_of_def requested_result_dedupe unknown_item_def split: option.split)
  moreover have "wr_handle (wait_item_of frame h) = h" for h by (simp add: wait_item_of_def split: option.split)
  ultimately show ?thesis by (simp add: wait_answer_def Let_def comp_def cong: map_cong)
qed

theorem wait_answers_each_handle_once_witness:
  "map wr_status (wd_items (the (tr_details (wait_answer (normalizeHandles (\<lambda>_. None) (HandleList ['' a'', ''b'', ''a'']))
     (Some [\<lparr>wi_handle = Some ''a'', wi_status = ''running'', wi_result = None, wi_error = None\<rparr>,
            \<lparr>wi_handle = Some ''z'', wi_status = ''failed'', wi_result = None, wi_error = None\<rparr>,
            \<lparr>wi_handle = Some ''a'', wi_status = ''completed'', wi_result = Some ''ok'', wi_error = None\<rparr>]))))) = [''completed'', ''unknown'']"
proof -
  let ?frame = "[\<lparr>wi_handle = Some ''a'', wi_status = ''running'', wi_result = None, wi_error = None\<rparr>,
            \<lparr>wi_handle = Some ''z'', wi_status = ''failed'', wi_result = None, wi_error = None\<rparr>,
            \<lparr>wi_handle = Some ''a'', wi_status = ''completed'', wi_result = Some ''ok'', wi_error = None\<rparr>]"
  have hs: "normalizeHandles (\<lambda>_. None) (HandleList ['' a'', ''b'', ''a'']) = [''a'', ''b'']" by code_simp
  have "map wr_status (map (wait_item_of ?frame) [''a'', ''b'']) = [''completed'', ''unknown'']" by code_simp
  then show ?thesis
    using wait_answers_each_handle_once [OF hs [symmetric], of ?frame] unfolding hs
    by (auto split: option.splits)
qed

end
