(* ===== verification/AgentDispatch.thy ===== *)
theory AgentDispatch
  imports AgentLaunch AgentRpc
begin

text \<open>
  Dispatching an agent and asking one (\<open>pi/core/swarm/agents/tool/dispatch.ts\<close>, \<open>ask.ts\<close>,
  \<open>dispatch-retry.ts\<close>): provision a workspace, build the launch, send the dispatch, retry under another
  handle when the hub says the handle is taken, and discard the workspace exactly when no run can
  own it. The variables that the tool's closures share are threaded as \<open>tool_vars\<close>; the world is the
  host with its git trace, inside a trace of what the tool does.
\<close>

section \<open>Surroundings\<close>

datatype agent_event =
    EvProvision "agent_provision option result"
  | EvSend json "unit result"
  | EvReply "json result"
  | EvDiscard "agent_provision option"

type_synonym 'w git_world = "('w, host_event) tworld"
type_synonym ('w, 'a) agent_io = "(('w git_world, agent_event) tworld, 'a) io"

record 'w agent_env =
  ag_platform :: "'w platform"
  ag_provision :: provision_env
  ag_setup :: "exec_call \<Rightarrow> ('w, exec_result \<times> bool) io"
  ag_uuid :: "'w git_world \<Rightarrow> string \<times> 'w git_world"
  ag_handle :: "'w git_world \<Rightarrow> string \<times> 'w git_world"
  ag_send :: "json \<Rightarrow> ('w git_world, unit) io"
  ag_await :: "string \<Rightarrow> (json \<Rightarrow> bool) \<Rightarrow> ('w git_world, json) io"
  ag_launch :: launch_env
  ag_names :: "string list"

text \<open>\<open>Object\<close> of an environment: the variables of the process and the ones a launch sets.\<close>

definition env_object :: "string list \<Rightarrow> env \<Rightarrow> json" where
  "env_object names e = JObj (List.map_filter (\<lambda>k. map_option (\<lambda>v. (k, JStr v)) (e k)) (js_set (names @ STAMPED)))"

record tool_vars =
  tv_provision :: "agent_provision option"
  tv_frameSent :: bool
  tv_agentLabel :: string
  tv_modelAliasFallback :: "string option"

definition try_with :: "'v \<Rightarrow> ('w, 'a) io \<Rightarrow> ('a \<Rightarrow> ('w, 'b result \<times> 'v) io) \<Rightarrow> ('w, 'b result \<times> 'v) io" where
  "try_with v m k = io_bind (io_try m) (\<lambda>r. case r of Inl e \<Rightarrow> io_return (Inl e, v) | Inr x \<Rightarrow> k x)"

text \<open>
  What the tools' \<open>execute\<close> is given: the skill check, the connection (\<open>False\<close>: none), the hub's list of agents, the
  agent definitions, the wait for a run, the abort signal and the workspace of the session, each
  asked when the code asks it. The calls may throw.
\<close>

record 'w agent_tool =
  at_env :: "'w agent_env"
  at_skill :: bool
  at_connect :: "('w git_world, bool) io"
  at_list :: "('w git_world, list_agent_item list) io"
  at_discover :: "('w git_world, agent_config list) io"
  at_wait :: "string list \<Rightarrow> int \<Rightarrow> ('w git_world, wait_item list) io"
  at_aborted :: "'w git_world \<Rightarrow> bool"
  at_workspace :: "'w git_world \<Rightarrow> workspace_state option"

text \<open>\<open>randomUUID\<close> and \<open>buildAgentHandle\<close> draw a name and do not fail; reading a value neither.\<close>

definition draw :: "('w git_world \<Rightarrow> string \<times> 'w git_world) \<Rightarrow> ('w, string) agent_io" where
  "draw f = untraced (\<lambda>w. case f w of (x, w') \<Rightarrow> (Inr x, w'))"

definition reading :: "('w git_world \<Rightarrow> 'a) \<Rightarrow> ('w, 'a) agent_io" where
  "reading f = untraced (\<lambda>w. (Inr (f w), w))"

definition discard :: "'w agent_env \<Rightarrow> agent_provision option \<Rightarrow> ('w, unit) agent_io" where
  "discard env p = traced (discardAgentWorkspace (ag_platform env) p) (\<lambda>_. EvDiscard p)"

definition provision :: "'w agent_env \<Rightarrow> agent_request \<Rightarrow> workspace_state option \<Rightarrow> ('w, agent_provision option) agent_io" where
  "provision env request workspace =
     traced (provisionAgentWorkspace (ag_platform env) (ag_provision env) (ag_setup env) request workspace) EvProvision"

section \<open>The dispatch and its retries\<close>

text \<open>The acknowledgement's status and reason.\<close>

type_synonym dispatch_ack = "string \<times> string option"

definition client_dispatch :: "'w agent_env \<Rightarrow> dispatch_options \<Rightarrow> tool_vars \<Rightarrow> ('w, dispatch_ack result \<times> tool_vars) agent_io" where
  "client_dispatch env d v =
     io_bind (draw (ag_uuid env)) (\<lambda>runId.
       let frame = encodeFrame (dispatch_frame runId d) in
       try_with v (traced (ag_send env frame) (EvSend frame)) (\<lambda>_.
         let v' = v\<lparr>tv_frameSent := True\<rparr> in
         try_with v' (traced (ag_await env ''dispatch_ack'' (\<lambda>f. field f ''run_id'' = Some (JStr runId))) EvReply) (\<lambda>ack.
           io_return (Inr (str_of (field ack ''status''), nullable_str_of (field ack ''reason'')), v'))))"

type_synonym 'w params_builder = "string \<Rightarrow> tool_vars \<Rightarrow> ('w, dispatch_options result \<times> tool_vars) agent_io"

text \<open>What follows an acknowledgement: \<open>again\<close> when the handle is taken and attempts are left.\<close>

definition after_ack ::
  "bool \<Rightarrow> (tool_vars \<Rightarrow> ('w, (string \<times> dispatch_ack option) result \<times> tool_vars) agent_io) \<Rightarrow> string
   \<Rightarrow> dispatch_ack result \<Rightarrow> tool_vars \<Rightarrow> ('w, (string \<times> dispatch_ack option) result \<times> tool_vars) agent_io" where
  "after_ack retries again agentHandle ack v =
     (case ack of
        Inl e \<Rightarrow> io_return (Inl e, v)
      | Inr (status, reason) \<Rightarrow>
          if status \<noteq> ''rejected'' \<or> reason \<noteq> Some ''duplicate_agent_handle'' \<or> \<not> retries
          then io_return (Inr (agentHandle, Some (status, reason)), v) else again v)"

text \<open>\<open>n\<close> attempts are left; \<open>None\<close> when there was none to make.\<close>

fun dispatchWithHandleRetry ::
  "nat \<Rightarrow> 'w agent_env \<Rightarrow> 'w params_builder \<Rightarrow> (tool_vars \<Rightarrow> ('w, tool_vars) agent_io) \<Rightarrow> string \<Rightarrow> tool_vars
   \<Rightarrow> ('w, (string \<times> dispatch_ack option) result \<times> tool_vars) agent_io" where
  "dispatchWithHandleRetry 0 env buildParams onRetry agentHandle v = io_return (Inr (agentHandle, None), v)"
| "dispatchWithHandleRetry (Suc n) env buildParams onRetry agentHandle v =
     io_bind (buildParams agentHandle v) (\<lambda>(params, v). case params of
       Inl e \<Rightarrow> io_return (Inl e, v)
     | Inr d \<Rightarrow>
         io_bind (client_dispatch env d v) (\<lambda>(ack, v).
           after_ack (n \<noteq> 0)
             (\<lambda>v. io_bind (onRetry v) (\<lambda>v. io_bind (draw (ag_handle env)) (\<lambda>h.
                    dispatchWithHandleRetry n env buildParams onRetry h v)))
             agentHandle ack v))"

section \<open>The tools\<close>

datatype agent_tool_outcome =
    ToolRefused string
  | Rejected string "string option"
  | ToolFailed string
  | Dispatched string "agent_provision option"

record dispatch_call =
  dx_launch :: launch_input
  dx_isRetask :: bool
  dx_deliverable :: bool
  dx_title :: string
  dx_workspace :: "workspace_state option"

definition launch_workspace_of :: "workspace_state option \<Rightarrow> launch_workspace option" where
  "launch_workspace_of = map_option (\<lambda>w. \<lparr>lw_launchCwd = Some (ws_launchCwd w), lw_repoRoot = map_option rp_root (ws_repo w)\<rparr>)"

definition launch_for :: "dispatch_call \<Rightarrow> agent_provision option \<Rightarrow> launch_input" where
  "launch_for call p = (dx_launch call)\<lparr>li_workspace := launch_workspace_of (dx_workspace call), li_agentWorkspace := p\<rparr>"

text \<open>The options of one attempt of \<open>dispatch_agent\<close>.\<close>

definition dispatch_params :: "'w agent_env \<Rightarrow> dispatch_call \<Rightarrow> 'w params_builder" where
  "dispatch_params env call candidateHandle v0 =
     (let v = v0\<lparr>tv_frameSent := False\<rparr>; inp = dx_launch call;
          agentName = (case li_requestedAgent inp of Some a \<Rightarrow> a | None \<Rightarrow> ''adhoc'') in
      io_bind (draw (ag_uuid env)) (\<lambda>u.
        let runToken = take 6 u;
            request = (if dx_deliverable call then Deliverable candidateHandle (dx_isRetask call) runToken agentName
                       else Report runToken agentName) in
        try_with v (provision env request (dx_workspace call)) (\<lambda>p.
          let v = v\<lparr>tv_provision := p\<rparr> in
          case buildAgentLaunchSpec (ag_launch env) (launch_for call p) of
            Inl message \<Rightarrow> io_return (Inl message, v)
          | Inr plan \<Rightarrow>
              let v = v\<lparr>tv_agentLabel := lp_agentLabel plan, tv_modelAliasFallback := lp_modelAliasFallback plan\<rparr> in
              if lp_args plan = [] \<or> last (lp_args plan) = [] then io_return (Inl ''Unable to build async task argument.'', v)
              else io_return (Inr
                \<lparr>do_agentId = li_agentId inp, do_agentHandle = candidateHandle, do_agentType = lp_agentLabel plan,
                 do_model = Some (case lp_model plan of Some m \<Rightarrow> m | None \<Rightarrow> ''default''),
                 do_argv = butlast (lp_args plan), do_task = last (lp_args plan), do_cwd = lp_spawnCwd plan,
                 do_env = env_object (ag_names env) (dispatch_environment (ag_launch env) plan (dx_title call) candidateHandle),
                 do_resumePath = None, do_forkFrom = None, do_ownedWorktree = map_option ap_worktreeDir p,
                 do_ownedBranch = (case p of Some q \<Rightarrow> ap_branch q | None \<Rightarrow> None), do_branchBase = map_option ap_baseOid p,
                 do_branchCreated = (case p of Some q \<Rightarrow> ap_branchCreated q | None \<Rightarrow> False)\<rparr>, v))))"

definition dispatch_onRetry :: "'w agent_env \<Rightarrow> tool_vars \<Rightarrow> ('w, tool_vars) agent_io" where
  "dispatch_onRetry env v = io_bind (discard env (tv_provision v)) (\<lambda>_. io_return (v\<lparr>tv_provision := None\<rparr>))"

text \<open>The end of both tools: the outcome, and the workspace discarded unless a run may own it.\<close>

definition settle_dispatch ::
  "'w agent_env \<Rightarrow> (string \<times> dispatch_ack option) result \<times> tool_vars \<Rightarrow> ('w, agent_tool_outcome \<times> tool_vars) agent_io" where
  "settle_dispatch env = (\<lambda>(r, v).
     let accepted = (case r of Inr (h, Some (status, _)) \<Rightarrow> status \<noteq> ''rejected'' | _ \<Rightarrow> False);
         rejectedByDaemon = (case r of Inr (h, Some (status, _)) \<Rightarrow> status = ''rejected'' | _ \<Rightarrow> False);
         outcome = (case r of
             Inl e \<Rightarrow> ToolFailed e
           | Inr (h, None) \<Rightarrow> Rejected h None
           | Inr (h, Some (status, reason)) \<Rightarrow> if status = ''rejected'' then Rejected h reason else Dispatched h (tv_provision v))
     in io_bind (if \<not> accepted \<and> (\<not> tv_frameSent v \<or> rejectedByDaemon) then discard env (tv_provision v) else io_return ())
          (\<lambda>_. io_return (outcome, v)))"

definition fresh_vars :: "string \<Rightarrow> tool_vars" where
  "fresh_vars label = \<lparr>tv_provision = None, tv_frameSent = False, tv_agentLabel = label, tv_modelAliasFallback = None\<rparr>"

definition dispatch_run :: "'w agent_env \<Rightarrow> dispatch_call \<Rightarrow> string option \<Rightarrow> ('w, agent_tool_outcome \<times> tool_vars) agent_io" where
  "dispatch_run env call requestedHandle =
     (let v = fresh_vars (or_adhoc (li_requestedAgent (dx_launch call))) in
      io_bind (case requestedHandle of
          Some h \<Rightarrow> dispatchWithHandleRetry 1 env (dispatch_params env call) (dispatch_onRetry env) h v
        | None \<Rightarrow> io_bind (draw (ag_handle env)) (\<lambda>h.
            dispatchWithHandleRetry 3 env (dispatch_params env call) (dispatch_onRetry env) h v))
        (settle_dispatch env))"

text \<open>The agent that a retask addresses, from the hub's list, and the persona it must keep.\<close>

definition retask_target :: "list_agent_item list \<Rightarrow> string \<Rightarrow> string option \<Rightarrow> (string \<times> string option) result" where
  "retask_target agents requestedHandle agent =
     (case find (\<lambda>a. publicAgentHandle a = Some requestedHandle) agents of
        None \<Rightarrow> Inl (''Unknown agent handle: '' @ requestedHandle)
      | Some existing \<Rightarrow>
          (let existingAgentType = storedAgentType existing in
           if nonempty agent \<noteq> None \<and> existingAgentType \<noteq> None \<and> agent \<noteq> existingAgentType
           then Inl (''Agent handle '' @ requestedHandle @ '' is '' @ the existingAgentType @ ''; use a new handle for '' @ the agent @ ''.'')
           else Inr (la_agent_id existing,
                  if nonempty agent = None \<and> existingAgentType \<noteq> None \<and> existingAgentType \<noteq> Some ''ad-hoc''
                  then existingAgentType else agent)))"

text \<open>An ad-hoc run delivers a branch; a persona as its definition says, report-only when unknown.\<close>

definition is_deliverable :: "agent_config list \<Rightarrow> string option \<Rightarrow> bool" where
  "is_deliverable agents requestedAgent =
     (case nonempty requestedAgent of
        None \<Rightarrow> True
      | Some r \<Rightarrow> (case find (\<lambda>a. ac_name a = r) agents of Some a \<Rightarrow> ac_deliverable a | None \<Rightarrow> False))"

definition no_connection :: string where
  "no_connection = ''basecamp hub is not connected; dispatch cannot proceed.''"

text \<open>
  \<open>dispatch_agent\<close>: the checks before anything is provisioned, which may throw, and the dispatch. \<open>call\<close> holds the
  parameters as the model gave them; what \<open>execute\<close> finds out is written over it.
\<close>

definition dispatch_call_of ::
  "dispatch_call \<Rightarrow> string \<Rightarrow> string option \<Rightarrow> string \<Rightarrow> bool \<Rightarrow> agent_config list \<Rightarrow> workspace_state option \<Rightarrow> dispatch_call" where
  "dispatch_call_of call agentId requestedAgent u retask agents workspace =
     call\<lparr>dx_launch := (dx_launch call)\<lparr>li_agentId := agentId, li_requestedAgent := requestedAgent,
              li_namePrefix := ''agent-'' @ take 6 u,
              li_resolvedAgent := Some (case nonempty requestedAgent of None \<Rightarrow> None
                 | Some r \<Rightarrow> find (\<lambda>a. ac_name a = r) agents)\<rparr>,
          dx_isRetask := retask, dx_deliverable := is_deliverable agents requestedAgent,
          dx_title := buildAgentTitleBase requestedAgent (li_task (dx_launch call)), dx_workspace := workspace\<rparr>"

definition dispatch_execute :: "'w agent_tool \<Rightarrow> dispatch_call \<Rightarrow> string option \<Rightarrow> ('w, agent_tool_outcome) agent_io" where
  "dispatch_execute t call agent_handle =
     (if \<not> at_skill t then io_return (ToolRefused (requireAgentsSkillMessage ''dispatching''))
      else io_bind (untraced (at_connect t)) (\<lambda>connected.
        if \<not> connected then io_return (ToolRefused no_connection)
        else
          let requestedHandle = nonempty (map_option trim agent_handle); agent = li_requestedAgent (dx_launch call) in
          io_bind (draw (ag_uuid (at_env t))) (\<lambda>fresh.
          io_bind (case requestedHandle of
              None \<Rightarrow> io_return (Inr (fresh, agent))
            | Some h \<Rightarrow> io_bind (untraced (at_list t)) (\<lambda>agents. io_return (retask_target agents h agent))) (\<lambda>target.
          case target of
            Inl message \<Rightarrow> io_return (ToolRefused message)
          | Inr (agentId, requestedAgent) \<Rightarrow>
              io_bind (draw (ag_uuid (at_env t))) (\<lambda>u.
              io_bind (reading (at_workspace t)) (\<lambda>workspace.
              io_bind (if nonempty requestedAgent = None then io_return [] else untraced (at_discover t)) (\<lambda>agents.
              io_bind (dispatch_run (at_env t)
                  (dispatch_call_of call agentId requestedAgent u (requestedHandle \<noteq> None) agents workspace) requestedHandle)
                (\<lambda>(outcome, v). io_return outcome))))))))"

section \<open>Asking\<close>

definition ask_options :: "'w agent_env \<Rightarrow> launch_plan \<Rightarrow> string \<Rightarrow> string \<Rightarrow> string \<Rightarrow> agent_provision option \<Rightarrow> string \<Rightarrow> dispatch_options" where
  "ask_options env plan agentId title targetHandle p agentHandle =
     \<lparr>do_agentId = agentId, do_agentHandle = agentHandle, do_agentType = ''ask'',
      do_model = Some (case lp_model plan of Some m \<Rightarrow> m | None \<Rightarrow> ''default''),
      do_argv = butlast (lp_args plan), do_task = last (lp_args plan), do_cwd = lp_spawnCwd plan,
      do_env = env_object (ag_names env) (dispatch_environment (ag_launch env) plan title agentHandle),
      do_resumePath = None, do_forkFrom = Some targetHandle, do_ownedWorktree = map_option ap_worktreeDir p,
      do_ownedBranch = None, do_branchBase = None, do_branchCreated = False\<rparr>"

text \<open>The session's workspace is asked for the provision and, after it, for the launch.\<close>

definition ask_run :: "'w agent_tool \<Rightarrow> dispatch_call \<Rightarrow> string \<Rightarrow> string \<Rightarrow> ('w, agent_tool_outcome \<times> tool_vars) agent_io" where
  "ask_run t call targetHandle runToken =
     (let v = fresh_vars ''ask''; env = at_env t in
      io_bind (reading (at_workspace t)) (\<lambda>workspace.
      io_bind (try_with v (provision env (Ask targetHandle runToken ''ask'') workspace) (\<lambda>p.
          let v = v\<lparr>tv_provision := p\<rparr> in
          io_bind (reading (at_workspace t)) (\<lambda>workspace.
          case buildAgentLaunchSpec (ag_launch env) (launch_for (call\<lparr>dx_workspace := workspace\<rparr>) p) of
            Inl message \<Rightarrow> io_return (Inl message, v)
          | Inr plan \<Rightarrow>
              if lp_args plan = [] \<or> last (lp_args plan) = [] then io_return (Inl ''Unable to build async task argument.'', v)
              else io_bind (draw (ag_handle env)) (\<lambda>h.
                dispatchWithHandleRetry 3 env
                  (\<lambda>agentHandle v. io_return (Inr (ask_options env plan (li_agentId (dx_launch call)) (dx_title call) targetHandle
                       (tv_provision v) agentHandle),
                     v\<lparr>tv_frameSent := False\<rparr>))
                  (\<lambda>v. io_return v) h v))))
        (settle_dispatch env)))"

text \<open>What the asker is told (status, text, whether it is an error): \<open>None\<close> when the wait was aborted.\<close>

type_synonym asked_answer = "string \<times> string \<times> bool"

definition read_answer :: "wait_item list option \<Rightarrow> asked_answer" where
  "read_answer reply =
     (case reply of
        None \<Rightarrow> (''running'', ''ask aborted'', False)
      | Some [] \<Rightarrow> (''unknown'', ''No answer available.'', False)
      | Some (answer # _) \<Rightarrow>
          if wi_status answer = ''completed''
            then (''completed'', (case wi_result answer of Some r \<Rightarrow> r | None \<Rightarrow> []), False)
          else if wi_status answer = ''failed'' then (''failed'', or_text (wi_error answer) ''ask failed'', True)
          else if wi_status answer = ''running'' then (''running'', ''timed out waiting for answer'', False)
          else (''unknown'', ''No answer available.'', False))"

definition awaitAnswer :: "'w agent_tool \<Rightarrow> string \<Rightarrow> int option \<Rightarrow> ('w, asked_answer) agent_io" where
  "awaitAnswer t agentHandle timeoutParam =
     io_bind (io_try (untraced (at_wait t [agentHandle] (timeout_of timeoutParam 600)))) (\<lambda>r.
       case r of
         Inl e \<Rightarrow> io_bind (reading (at_aborted t)) (\<lambda>aborted.
           if aborted \<or> e = ''aborted'' then io_return (read_answer None) else io_throw e)
       | Inr waitResults \<Rightarrow> io_return (read_answer (Some (dedupeRequestedResults waitResults [agentHandle]))))"

definition buildAskAgentTitle :: "string \<Rightarrow> string \<Rightarrow> string" where
  "buildAskAgentTitle agentHandle question = ''(ask * '' @ agentHandle @ '') '' @ preview 60 (Some question)"

datatype ask_outcome =
    NotAsked agent_tool_outcome
  | Answered string asked_answer

definition ask_call_of :: "dispatch_call \<Rightarrow> string \<Rightarrow> string \<Rightarrow> string \<Rightarrow> dispatch_call" where
  "ask_call_of call agentId runToken targetHandle =
     call\<lparr>dx_launch := (dx_launch call)\<lparr>li_agentId := agentId, li_requestedAgent := None, li_resolvedAgent := None,
              li_namePrefix := ''ask-'' @ runToken, li_nameSuffix := None\<rparr>,
          dx_title := buildAskAgentTitle targetHandle (li_task (dx_launch call))\<rparr>"

text \<open>\<open>ask_agent\<close>: after the hub accepted the run, the wait for its answer, whose error is thrown on.\<close>

definition ask_execute :: "'w agent_tool \<Rightarrow> dispatch_call \<Rightarrow> string \<Rightarrow> int option \<Rightarrow> ('w, ask_outcome) agent_io" where
  "ask_execute t call agent_handle timeout_s =
     (if \<not> at_skill t then io_return (NotAsked (ToolRefused (requireAgentsSkillMessage ''asking agents'')))
      else io_bind (untraced (at_connect t)) (\<lambda>connected.
        if \<not> connected then io_return (NotAsked (ToolRefused no_connection))
        else let targetHandle = trim agent_handle in
          if targetHandle = [] then io_return (NotAsked (ToolRefused ''ask_agent requires a non-empty agent_handle.''))
          else
            io_bind (draw (ag_uuid (at_env t))) (\<lambda>agentId.
            io_bind (draw (ag_uuid (at_env t))) (\<lambda>u.
            io_bind (ask_run t (ask_call_of call agentId (take 6 u) targetHandle) targetHandle (take 6 u)) (\<lambda>(outcome, v).
              case outcome of
                Dispatched h p \<Rightarrow> io_bind (awaitAnswer t h timeout_s) (\<lambda>answer. io_return (Answered h answer))
              | _ \<Rightarrow> io_return (NotAsked outcome))))))"

section \<open>Who owns the workspace\<close>

datatype ownership =
    Nobody
  | Ours agent_provision
  | Asked agent_provision
  | Owned agent_provision
  | Discarded agent_provision
  | NotProvided string
  | Broken

definition vacant :: "ownership \<Rightarrow> bool" where
  "vacant s \<longleftrightarrow> s = Nobody \<or> (\<exists>p. s = Discarded p)"

text \<open>The worktree that a dispatch names as the run's own.\<close>

definition frame_worktree :: "json \<Rightarrow> json option" where
  "frame_worktree f = Option.bind (field f ''spec'') (\<lambda>spec. field spec ''owned_worktree'')"

text \<open>
  A workspace that provisioning hands out is the tool's when it holds no other; a dispatch written to the
  socket, which must name the worktree, asks the hub to own it; the acknowledgement gives it to the hub's
  run, or back when the hub rejects; and only a workspace of the tool's own may be discarded. When
  provisioning throws, nothing is handed out and no other is provisioned or sent.
\<close>

fun passes :: "ownership \<Rightarrow> agent_event \<Rightarrow> ownership" where
  "passes s (EvProvision (Inr (Some p))) = (if vacant s then Ours p else Broken)"
| "passes s (EvProvision (Inr None)) = (if vacant s then s else Broken)"
| "passes s (EvProvision (Inl e)) = (if vacant s then NotProvided e else Broken)"
| "passes s (EvSend frame r) =
     (case s of
        Ours p \<Rightarrow> if frame_worktree frame = Some (JStr (ap_worktreeDir p)) then (if isl r then s else Asked p) else Broken
      | Nobody \<Rightarrow> if frame_worktree frame = Some JNull then s else Broken
      | Discarded p \<Rightarrow> if frame_worktree frame = Some JNull then s else Broken
      | _ \<Rightarrow> Broken)"
| "passes s (EvReply r) =
     (case (s, r) of
        (Asked p, Inr ack) \<Rightarrow> if str_of (field ack ''status'') = ''rejected'' then Ours p else Owned p
      | _ \<Rightarrow> s)"
| "passes s (EvDiscard (Some p)) = (if s = Ours p then Discarded p else Broken)"
| "passes s (EvDiscard None) = s"

definition owner :: "agent_event list \<Rightarrow> ownership" where
  "owner l = foldl passes Nobody l"

lemma owner_simps [simp]: "owner [] = Nobody" "owner (l @ [e]) = passes (owner l) e"
  by (simp_all add: owner_def)

lemma vacant_simps [simp]: "vacant Nobody" "vacant (Discarded p)" "\<not> vacant (Ours p)" "\<not> vacant (Asked p)"
  "\<not> vacant (Owned p)" "\<not> vacant (NotProvided e)" "\<not> vacant Broken"
  by (simp_all add: vacant_def)

definition with_owner :: "(agent_provision \<Rightarrow> ownership) \<Rightarrow> tool_vars \<Rightarrow> agent_event list \<Rightarrow> bool" where
  "with_owner f v l \<longleftrightarrow> (case tv_provision v of None \<Rightarrow> vacant (owner l) | Some p \<Rightarrow> owner l = f p)"

abbreviation held :: "tool_vars \<Rightarrow> agent_event list \<Rightarrow> bool" where
  "held v l \<equiv> with_owner Ours v l"

text \<open>A failure before the frame was written: the workspace is held, or provisioning it failed.\<close>

definition loose :: "tool_vars \<Rightarrow> agent_event list \<Rightarrow> bool" where
  "loose v l \<longleftrightarrow> held v l \<or> tv_provision v = None \<and> (\<exists>e. owner l = NotProvided e)"

text \<open>The hub's last word was that it took the run.\<close>

definition hub_accepted :: "agent_event list \<Rightarrow> bool" where
  "hub_accepted l \<longleftrightarrow> (\<exists>l' ack. l = l' @ [EvReply (Inr ack)] \<and> str_of (field ack ''status'') \<noteq> ''rejected'')"

text \<open>What is left when the parameters are built, and when a dispatch attempt ends.\<close>

fun built :: "dispatch_options result \<Rightarrow> tool_vars \<Rightarrow> agent_event list \<Rightarrow> bool" where
  "built (Inl e) v l = (loose v l \<and> \<not> tv_frameSent v)"
| "built (Inr d) v l = (held v l \<and> \<not> tv_frameSent v \<and> do_ownedWorktree d = map_option ap_worktreeDir (tv_provision v))"

fun ack_left :: "dispatch_ack result \<Rightarrow> tool_vars \<Rightarrow> agent_event list \<Rightarrow> bool" where
  "ack_left (Inl e) v l = (if tv_frameSent v then with_owner Asked v l else loose v l)"
| "ack_left (Inr (status, reason)) v l =
     (tv_frameSent v \<and> (if status = ''rejected'' then held v l else with_owner Owned v l \<and> hub_accepted l))"

fun retry_left :: "(string \<times> dispatch_ack option) result \<Rightarrow> tool_vars \<Rightarrow> agent_event list \<Rightarrow> bool" where
  "retry_left (Inl e) v l = ack_left (Inl e) v l"
| "retry_left (Inr (h, None)) v l = False"
| "retry_left (Inr (h, Some ack)) v l = ack_left (Inr ack) v l"

lemma sent_worktree:
  "frame_worktree (encodeFrame (dispatch_frame runId d)) = Some (opt_json JStr (do_ownedWorktree d))"
  by (simp add: frame_worktree_def encodeFrame_def dispatch_frame_def)

abbreviation never :: "'w \<Rightarrow> bool" where "never \<equiv> \<lambda>_. False"

lemma tworld_selects: "tw_log (w\<lparr>tw_host := x\<rparr>) = tw_log w" "tw_host (w\<lparr>tw_host := x\<rparr>) = x"
  by simp_all

lemma draw_never: "hoare (on_log P) (draw f) (\<lambda>_. on_log P) E"
  by (rule hoareI) (auto simp: draw_def untraced_def tworld_selects split: prod.splits)

lemma reading_never: "hoare (on_log P) (reading f) (\<lambda>_. on_log P) E"
  by (rule hoareI) (auto simp: reading_def untraced_def tworld_selects split: prod.splits)

lemma hoare_try_with:
  assumes "hoare (on_log P) m (\<lambda>x. on_log (Q x)) (on_log F)"
    and "\<And>x. hoare (on_log (Q x)) (k x) R E" and "\<And>e t. F (tw_log t) \<Longrightarrow> R (Inl e, v) t"
  shows "hoare (on_log P) (try_with v m k) R E"
  unfolding try_with_def
proof (rule hoare_bind [OF hoare_try [OF assms(1)]])
  show "hoare (case r of Inl _ \<Rightarrow> on_log F | Inr x \<Rightarrow> on_log (Q x)) (case r of Inl e \<Rightarrow> io_return (Inl e, v) | Inr x \<Rightarrow> k x) R E" for r
    using assms(2,3) by (cases r) (auto intro: hoare_return)
qed

lemma client_left:
  "hoare (on_log (built (Inr d) v)) (client_dispatch env d v) (\<lambda>(r, v'). on_log (ack_left r v')) never"
proof -
  let ?sent = "v\<lparr>tv_frameSent := True\<rparr>"
  have send: "hoare (on_log (built (Inr d) v))
      (traced (ag_send env (encodeFrame (dispatch_frame runId d))) (EvSend (encodeFrame (dispatch_frame runId d))))
      (\<lambda>_. on_log (with_owner Asked v)) (on_log (\<lambda>l. held v l \<and> \<not> tv_frameSent v))" for runId
    by (rule hoare_traced)
      (auto simp: with_owner_def sent_worktree opt_json_def vacant_def split: option.splits)
  have reply: "hoare (on_log (with_owner Asked v)) (traced (ag_await env ty acc) EvReply)
      (\<lambda>ack. on_log (ack_left (Inr (str_of (field ack ''status''), nullable_str_of (field ack ''reason''))) ?sent))
      (on_log (with_owner Asked v))" for ty acc
    by (rule hoare_traced) (auto simp: with_owner_def hub_accepted_def vacant_def split: option.splits)
  show ?thesis
    unfolding client_dispatch_def Let_def
    by (rule hoare_bind [OF draw_never], rule hoare_try_with [OF send], rule hoare_try_with [OF reply])
      (auto intro!: hoare_return simp: with_owner_def loose_def)
qed

lemma hoare_result:
  assumes "\<And>e. hoare (P (Inl e)) (f e) Q E" "\<And>x. hoare (P (Inr x)) (g x) Q E"
  shows "hoare (P r) (case r of Inl e \<Rightarrow> f e | Inr x \<Rightarrow> g x) Q E"
  using assms by (cases r) auto

lemma hoare_pair:
  assumes "\<And>r v. p = (r, v) \<Longrightarrow> hoare (P r v) (f r v) Q E"
  shows "hoare (case p of (r, v) \<Rightarrow> P r v) (case p of (r, v) \<Rightarrow> f r v) Q E"
  using assms by (cases p) auto

lemma after_ack_left:
  assumes "\<And>v. retries \<Longrightarrow> hoare (on_log (held v)) (again v) (\<lambda>(r, v'). on_log (retry_left r v')) never"
  shows "hoare (on_log (ack_left r v)) (after_ack retries again h r v) (\<lambda>(r, v'). on_log (retry_left r v')) never"
proof (cases "retries \<and> r = Inr (''rejected'', Some ''duplicate_agent_handle'')")
  case True
  then have "after_ack retries again h r v = again v" "\<And>l. ack_left r v l \<Longrightarrow> held v l"
    by (simp_all add: after_ack_def)
  with True assms [of v] show ?thesis
    by (simp add: hoare_def del: ack_left.simps)
next
  case False
  then have "\<exists>o'. after_ack retries again h r v = io_return (o', v) \<and> (\<forall>l. ack_left r v l \<longrightarrow> retry_left o' v l)"
    by (cases r) (auto simp: after_ack_def)
  then show ?thesis by (auto intro!: hoare_return simp del: ack_left.simps)
qed

text \<open>One attempt: build, send, and go on after the acknowledgement.\<close>

lemma attempt_left:
  assumes build: "hoare P (buildParams h v) (\<lambda>(r, v'). on_log (built r v')) never"
    and again: "\<And>v. n \<noteq> 0 \<Longrightarrow> hoare (on_log (held v))
      (io_bind (onRetry v) (\<lambda>v. io_bind (draw (ag_handle env)) (\<lambda>h. dispatchWithHandleRetry n env buildParams onRetry h v)))
      (\<lambda>(r, v'). on_log (retry_left r v')) never"
  shows "hoare P (dispatchWithHandleRetry (Suc n) env buildParams onRetry h v) (\<lambda>(r, v'). on_log (retry_left r v')) never"
proof -
  have sent: "hoare (on_log (built (Inr d) u)) (io_bind (client_dispatch env d u) (\<lambda>(ack, v).
      after_ack (n \<noteq> 0) (\<lambda>v. io_bind (onRetry v) (\<lambda>v. io_bind (draw (ag_handle env)) (\<lambda>h.
        dispatchWithHandleRetry n env buildParams onRetry h v))) h ack v)) (\<lambda>(r, v'). on_log (retry_left r v')) never" for d u
    by (rule hoare_bind [OF client_left], rule hoare_pair, rule after_ack_left, rule again)
  have "hoare (on_log (built r u)) (case r of Inl e \<Rightarrow> io_return (Inl e, u) | Inr d \<Rightarrow>
      io_bind (client_dispatch env d u) (\<lambda>(ack, v).
        after_ack (n \<noteq> 0) (\<lambda>v. io_bind (onRetry v) (\<lambda>v. io_bind (draw (ag_handle env)) (\<lambda>h.
          dispatchWithHandleRetry n env buildParams onRetry h v))) h ack v)) (\<lambda>(r, v'). on_log (retry_left r v')) never" for r u
    by (rule hoare_result [where P = "\<lambda>r. on_log (built r u)", OF _ sent]) (auto intro: hoare_return)
  then show ?thesis
    unfolding dispatchWithHandleRetry.simps(2) by (intro hoare_bind [OF build] hoare_pair)
qed

lemma retry_left:
  assumes build: "\<And>h v. hoare (on_log (\<lambda>l. held v l \<and> Pre v)) (buildParams h v) (\<lambda>(r, v'). on_log (built r v')) never"
    and retry: "\<And>v. hoare (on_log (held v)) (onRetry v) (\<lambda>v'. on_log (\<lambda>l. held v' l \<and> Pre v')) never"
  shows "hoare (on_log (\<lambda>l. held v l \<and> Pre v)) (dispatchWithHandleRetry (Suc n) env buildParams onRetry h v)
    (\<lambda>(r, v'). on_log (retry_left r v')) never"
proof (induction n arbitrary: h v)
  case (0 h v)
  show ?case by (rule attempt_left [OF build]) simp
next
  case (Suc n h v)
  show ?case
    by (rule attempt_left [OF build], rule hoare_bind [OF retry], rule hoare_bind [OF draw_never], rule Suc.IH)
qed

text \<open>The outcome of a call that never throws.\<close>

lemma hoare_left: "hoare P m Q never \<Longrightarrow> P w \<Longrightarrow> \<exists>x w'. m w = (Inr x, w') \<and> Q x w'"
  by (cases "m w"; cases "fst (m w)") (auto dest: hoare_returns hoare_throws)

text \<open>The tools build their parameters on a workspace they hold.\<close>

lemma provision_held:
  "tv_provision v = None \<Longrightarrow> hoare (on_log (held v)) (provision env request ws)
     (\<lambda>p. on_log (held (v\<lparr>tv_provision := p\<rparr>))) (on_log (\<lambda>l. tv_provision v = None \<and> (\<exists>e. owner l = NotProvided e)))"
  unfolding provision_def
proof (rule hoare_traced)
  fix l and p :: "agent_provision option"
  assume "tv_provision v = None" "held v l"
  then show "held (v\<lparr>tv_provision := p\<rparr>) (l @ [EvProvision (Inr p)])" by (cases p) (simp_all add: with_owner_def)
qed (simp add: with_owner_def)

lemma dispatch_params_held:
  "hoare (on_log (\<lambda>l. held v l \<and> tv_provision v = None)) (dispatch_params env call h v)
     (\<lambda>(r, v'). on_log (built r v')) never"
proof -
  let ?v = "v\<lparr>tv_frameSent := False\<rparr>"
  have keep: "held (u\<lparr>tv_agentLabel := a, tv_modelAliasFallback := b\<rparr>) l = held u l"
    "loose (u\<lparr>tv_agentLabel := a, tv_modelAliasFallback := b\<rparr>) l = loose u l" for u a b l
    by (simp_all add: with_owner_def loose_def)
  have "hoare (on_log (held ?v)) (dispatch_params env call h v) (\<lambda>(r, v'). on_log (built r v')) never"
    if "tv_provision v = None"
    unfolding dispatch_params_def Let_def
    by (rule hoare_bind [OF draw_never], rule hoare_try_with [OF provision_held])
      (auto simp: that keep loose_def split: sum.split intro!: hoare_return)
  then show ?thesis by (rule hoare_pre_pure [THEN hoare_weaken]) (auto simp: with_owner_def)
qed

lemma discard_returns: "fst (discardAgentWorkspace pf p w) = Inr ()"
  by (auto simp: discardAgentWorkspace_def io_ignore_def io_simps split: option.split prod.split sum.split)

lemma discard_loose:
  "hoare (on_log (loose v)) (discard env (tv_provision v))
     (\<lambda>_. on_log (\<lambda>l. vacant (owner l) \<or> (\<exists>e. owner l = NotProvided e))) never"
proof (rule hoareI)
  fix w e w' assume "discard env (tv_provision v) w = (Inl e, w')"
  then show False
    using discard_returns [of "ag_platform env" "tv_provision v" "tw_host w"]
    by (auto simp: discard_def traced_def split: prod.splits)
next
  fix w x w' assume "on_log (loose v) w" "discard env (tv_provision v) w = (Inr x, w')"
  then show "on_log (\<lambda>l. vacant (owner l) \<or> (\<exists>e. owner l = NotProvided e)) w'"
    by (cases "tv_provision v") (auto simp: discard_def traced_def with_owner_def loose_def split: prod.splits)
qed

lemma discard_held: "hoare (on_log (held v)) (discard env (tv_provision v)) (\<lambda>_. on_log (\<lambda>l. vacant (owner l))) never"
proof (rule hoareI)
  fix w e w' assume "discard env (tv_provision v) w = (Inl e, w')"
  then show False
    using discard_returns [of "ag_platform env" "tv_provision v" "tw_host w"]
    by (auto simp: discard_def traced_def split: prod.splits)
next
  fix w x w' assume "on_log (held v) w" "discard env (tv_provision v) w = (Inr x, w')"
  then show "on_log (\<lambda>l. vacant (owner l)) w'"
    by (cases "tv_provision v") (auto simp: discard_def traced_def with_owner_def split: prod.splits)
qed

text \<open>Who owns the workspace when the tool returns \<open>outcome\<close>, by the trace of what it did.\<close>

fun settled :: "agent_tool_outcome \<Rightarrow> agent_event list \<Rightarrow> bool" where
  "settled (Dispatched h p) l =
     (hub_accepted l \<and> (case p of None \<Rightarrow> vacant (owner l) | Some q \<Rightarrow> owner l = Owned q))"
| "settled (ToolFailed e) l =
     (vacant (owner l) \<or> (\<exists>e'. owner l = NotProvided e') \<or> (\<exists>q. owner l = Asked q))"
| "settled (Rejected h reason) l = vacant (owner l)"
| "settled (ToolRefused e) l = (l = [])"

abbreviation settles :: "agent_tool_outcome \<times> tool_vars \<Rightarrow> ('w git_world, agent_event) tworld \<Rightarrow> bool" where
  "settles \<equiv> \<lambda>(outcome, v). on_log (settled outcome)"

lemma settle_left:
  "hoare (on_log (retry_left r v)) (settle_dispatch env (r, v)) settles never"
proof -
  have gone: "hoare (on_log (loose v)) (io_bind (discard env (tv_provision v)) (\<lambda>_. io_return (ToolFailed e, v))) settles never" for e
    by (rule hoare_bind [OF discard_loose], rule hoare_return) auto
  have rejects: "hoare (on_log (held v)) (io_bind (discard env (tv_provision v)) (\<lambda>_. io_return (Rejected h reason, v))) settles never"
    for h reason
    by (rule hoare_bind [OF discard_held], rule hoare_return) simp
  consider (failed) e where "r = Inl e" | (none) h where "r = Inr (h, None)"
    | (rejected) h reason where "r = Inr (h, Some (''rejected'', reason))"
    | (taken) h status reason where "r = Inr (h, Some (status, reason))" "status \<noteq> ''rejected''"
    by (metis old.prod.exhaust option.exhaust sumE)
  then show ?thesis
  proof cases
    case failed
    show ?thesis
    proof (cases "tv_frameSent v")
      case True
      then show ?thesis
        by (auto simp: failed settle_dispatch_def with_owner_def io_simps split: option.splits intro!: hoareI)
    next
      case False
      then show ?thesis using gone [of e]
        by (simp add: failed settle_dispatch_def hoare_def)
    qed
  next
    case none
    then show ?thesis by (simp add: hoare_def)
  next
    case rejected
    then show ?thesis using rejects [of h reason]
      by (simp add: settle_dispatch_def hoare_def)
  next
    case taken
    then show ?thesis
      by (auto simp: settle_dispatch_def with_owner_def io_simps split: option.splits intro!: hoareI)
  qed
qed

lemma retries_settle:
  assumes "\<And>h v. hoare (on_log (\<lambda>l. held v l \<and> Pre v)) (buildParams h v)
      (\<lambda>(r, v'). on_log (built r v')) never"
    and "\<And>v. hoare (on_log (held v)) (onRetry v) (\<lambda>v'. on_log (\<lambda>l. held v' l \<and> Pre v')) never"
  shows "hoare (on_log (\<lambda>l. held v l \<and> Pre v))
    (io_bind (dispatchWithHandleRetry (Suc n) env buildParams onRetry h v) (settle_dispatch env)) settles never"
proof (rule hoare_bind [OF retry_left [where Pre = Pre, OF assms]])
  show "hoare (case x of (r, v') \<Rightarrow> on_log (retry_left r v')) (settle_dispatch env x) settles never" for x
    using settle_left by (cases x) (simp add: case_prod_unfold)
qed

lemma dispatch_onRetry_held:
  "hoare (on_log (held v)) (dispatch_onRetry env v) (\<lambda>v'. on_log (\<lambda>l. held v' l \<and> tv_provision v' = None)) never"
  unfolding dispatch_onRetry_def
  by (rule hoare_bind [OF discard_held], rule hoare_return) (simp add: with_owner_def)

lemma io_bind_assoc: "io_bind (io_bind m f) g = io_bind m (\<lambda>x. io_bind (f x) g)"
  by (rule ext) (simp add: io_bind_def split: prod.split sum.split)

lemma dispatch_settles:
  "hoare (on_log (\<lambda>l. l = [])) (dispatch_run env call requestedHandle) settles never"
proof -
  let ?v = "fresh_vars (or_adhoc (li_requestedAgent (dx_launch call)))"
  have retries: "hoare (on_log (\<lambda>l. l = []))
      (io_bind (dispatchWithHandleRetry (Suc n) env (dispatch_params env call) (dispatch_onRetry env) h ?v) (settle_dispatch env))
      settles never" for n h
    by (rule hoare_weaken [OF retries_settle [OF dispatch_params_held dispatch_onRetry_held]])
      (auto simp: with_owner_def fresh_vars_def)
  have drawn: "hoare (on_log (\<lambda>l. l = []))
      (io_bind (io_bind (draw (ag_handle env)) (\<lambda>h.
         dispatchWithHandleRetry 3 env (dispatch_params env call) (dispatch_onRetry env) h ?v)) (settle_dispatch env))
      settles never"
    unfolding io_bind_assoc numeral_3_eq_3 by (rule hoare_bind [OF draw_never], rule retries)
  show ?thesis
    unfolding dispatch_run_def Let_def
    using retries [of 0] drawn by (cases requestedHandle) simp_all
qed


text \<open>An ask provisions once, before the attempts, and keeps its workspace across them.\<close>

lemma ask_settles:
  "hoare (on_log (\<lambda>l. l = [])) (ask_run t call targetHandle runToken) settles never"
proof -
  let ?v = "fresh_vars ''ask''" and ?env = "at_env t"
  let ?left = "\<lambda>(r, v'). on_log (retry_left r v')"
  have attempts: "hoare (on_log (held (?v\<lparr>tv_provision := p\<rparr>)))
      (io_bind (draw (ag_handle ?env)) (\<lambda>h. dispatchWithHandleRetry 3 ?env
        (\<lambda>agentHandle v. io_return (Inr (ask_options ?env plan i title target (tv_provision v) agentHandle), v\<lparr>tv_frameSent := False\<rparr>))
        (\<lambda>v. io_return v) h (?v\<lparr>tv_provision := p\<rparr>))) ?left never" for p plan i title target
    unfolding numeral_3_eq_3
    by (rule hoare_bind [OF draw_never], rule hoare_weaken [OF retry_left [where Pre = "\<lambda>_. True"]])
      (auto simp: with_owner_def ask_options_def intro!: hoare_return)
  have body: "hoare (on_log (held (?v\<lparr>tv_provision := p\<rparr>)))
      (case plan of Inl message \<Rightarrow> io_return (Inl message, ?v\<lparr>tv_provision := p\<rparr>)
       | Inr x \<Rightarrow> if b x then io_return (Inl message, ?v\<lparr>tv_provision := p\<rparr>)
           else io_bind (draw (ag_handle ?env)) (\<lambda>h. dispatchWithHandleRetry 3 ?env
             (\<lambda>agentHandle v. io_return (Inr (ask_options ?env x i title target (tv_provision v) agentHandle), v\<lparr>tv_frameSent := False\<rparr>))
             (\<lambda>v. io_return v) h (?v\<lparr>tv_provision := p\<rparr>)))
      ?left never" for p plan b message i title target
  proof (cases plan)
    case (Inl m)
    then show ?thesis by (auto simp: fresh_vars_def loose_def intro: hoare_return)
  next
    case (Inr x)
    show ?thesis unfolding Inr sum.case
      by (rule hoare_if, rule hoare_return, simp add: fresh_vars_def loose_def, rule attempts)
  qed
  have settle: "hoare (case x of (r, v') \<Rightarrow> on_log (retry_left r v')) (settle_dispatch ?env x) settles never" for x
    using settle_left by (cases x) (simp add: case_prod_unfold)
  have start: "hoare (on_log (\<lambda>l. l = [])) (provision ?env request ws) (\<lambda>p. on_log (held (?v\<lparr>tv_provision := p\<rparr>)))
      (on_log (\<lambda>l. tv_provision ?v = None \<and> (\<exists>e. owner l = NotProvided e)))" for request ws
    by (rule hoare_weaken [OF provision_held [of ?v]]) (auto simp: with_owner_def fresh_vars_def)
  show ?thesis
    unfolding ask_run_def Let_def
    by (rule hoare_bind [OF reading_never], rule hoare_bind [OF _ settle], rule hoare_try_with [OF start],
        rule hoare_bind [OF reading_never], rule body)
      (auto simp: fresh_vars_def loose_def)
qed

text \<open>The tools around the dispatch: what runs before it neither provisions nor sends.\<close>

lemma hoare_unsent: "hoare (on_log (\<lambda>l. l = [])) (untraced m) (\<lambda>_. on_log (\<lambda>l. l = [])) (on_log (\<lambda>l. l = []))"
  by (rule hoare_untraced) simp_all

lemma hoare_never: "hoare P m Q never \<Longrightarrow> hoare P m Q E"
  by (erule hoare_weaken) simp_all

lemma dispatch_execute_settles:
  "hoare (on_log (\<lambda>l. l = [])) (dispatch_execute t call agent_handle) (\<lambda>outcome. on_log (settled outcome)) (on_log (\<lambda>l. l = []))"
proof -
  have run: "hoare (on_log (\<lambda>l. l = [])) (io_bind (dispatch_run env c requested) (\<lambda>(outcome, v). io_return outcome))
      (\<lambda>outcome. on_log (settled outcome)) (on_log (\<lambda>l. l = []))" for env :: "'a agent_env" and c requested
    by (rule hoare_bind [OF hoare_never [OF dispatch_settles]]) (auto intro: hoare_return)
  have go: "hoare (on_log (\<lambda>l. l = []))
      (io_bind (draw (ag_uuid (at_env t))) (\<lambda>u. io_bind (reading (at_workspace t)) (\<lambda>workspace.
        io_bind (if b then io_return [] else untraced (at_discover t)) (\<lambda>agents.
          io_bind (dispatch_run (at_env t) (c u workspace agents) requested) (\<lambda>(outcome, v). io_return outcome)))))
      (\<lambda>outcome. on_log (settled outcome)) (on_log (\<lambda>l. l = []))" for b c requested
    by (rule hoare_bind [OF draw_never], rule hoare_bind [OF reading_never], rule hoare_bind [OF _ run])
      (auto intro: hoare_return hoare_unsent)
  have target: "hoare (on_log (\<lambda>l. l = []))
      (case r of Inl message \<Rightarrow> io_return (ToolRefused message) | Inr (i, a) \<Rightarrow>
        io_bind (draw (ag_uuid (at_env t))) (\<lambda>u. io_bind (reading (at_workspace t)) (\<lambda>workspace.
        io_bind (if nonempty a = None then io_return [] else untraced (at_discover t)) (\<lambda>agents.
          io_bind (dispatch_run (at_env t) (c i a u workspace agents) requested) (\<lambda>(outcome, v). io_return outcome)))))
      (\<lambda>outcome. on_log (settled outcome)) (on_log (\<lambda>l. l = []))" for r c requested
  proof (cases r)
    case (Inl message)
    then show ?thesis by (auto intro: hoare_return)
  next
    case (Inr p)
    show ?thesis unfolding Inr sum.case by (cases p, simp only: prod.case, rule go)
  qed
  have asks: "hoare (on_log (\<lambda>l. l = []))
      (case h of None \<Rightarrow> io_return x | Some g \<Rightarrow> io_bind (untraced (at_list t)) (\<lambda>agents. io_return (f g agents)))
      (\<lambda>_. on_log (\<lambda>l. l = [])) (on_log (\<lambda>l. l = []))" for h :: "string option" and x f
    by (cases h) (auto intro!: hoare_return hoare_bind [OF hoare_unsent])
  have connected: "hoare (on_log (\<lambda>l. l = [])) (if \<not> c then io_return (ToolRefused no_connection) else m)
      (\<lambda>outcome. on_log (settled outcome)) (on_log (\<lambda>l. l = []))"
    if "hoare (on_log (\<lambda>l. l = [])) m (\<lambda>outcome. on_log (settled outcome)) (on_log (\<lambda>l. l = []))" for c m
    using that by (auto intro: hoare_return)
  show ?thesis
    unfolding dispatch_execute_def Let_def
    by (rule hoare_if, rule hoare_return, simp, rule hoare_bind [OF hoare_unsent], rule connected,
        rule hoare_bind [OF draw_never], rule hoare_bind [OF asks], rule target)
qed

text \<open>What an ask leaves behind when it returns, and when it throws.\<close>

fun ask_settled :: "ask_outcome \<Rightarrow> agent_event list \<Rightarrow> bool" where
  "ask_settled (NotAsked outcome) l = settled outcome l"
| "ask_settled (Answered h answer) l = (\<exists>p. settled (Dispatched h p) l)"

definition ask_thrown :: "agent_event list \<Rightarrow> bool" where
  "ask_thrown l \<longleftrightarrow> l = [] \<or> (\<exists>h p. settled (Dispatched h p) l)"

lemma awaitAnswer_logs: "hoare (on_log P) (awaitAnswer t h timeout) (\<lambda>_. on_log P) (on_log P)"
proof -
  have failed: "hoare (on_log P) (io_bind (reading (at_aborted t)) (\<lambda>aborted. if c aborted then io_return x else io_throw e))
      (\<lambda>_. on_log P) (on_log P)" for c x e
    by (rule hoare_bind [OF reading_never]) (auto intro: hoare_return hoare_throw)
  have "hoare (on_log P) (case r of Inl e \<Rightarrow> io_bind (reading (at_aborted t)) (\<lambda>aborted. if c e aborted then io_return x else io_throw e)
      | Inr y \<Rightarrow> io_return (f y)) (\<lambda>_. on_log P) (on_log P)" for r c x and f :: "wait_item list \<Rightarrow> asked_answer"
    by (cases r) (auto intro: hoare_return failed)
  moreover have "hoare (on_log P) (io_try (untraced (at_wait t [h] n))) (\<lambda>_. on_log P) (on_log P)" for n
    by (rule hoare_weaken [OF hoare_try [OF hoare_untraced [of P "\<lambda>_. P" P]]]) (auto split: sum.splits)
  ultimately show ?thesis unfolding awaitAnswer_def by (intro hoare_bind)
qed

lemma ask_execute_settles:
  "hoare (on_log (\<lambda>l. l = [])) (ask_execute t call agent_handle timeout) (\<lambda>outcome. on_log (ask_settled outcome)) (on_log ask_thrown)"
proof -
  have waits: "hoare (on_log (settled (Dispatched h p)))
      (io_bind (awaitAnswer t h timeout) (\<lambda>answer. io_return (Answered h answer)))
      (\<lambda>outcome. on_log (ask_settled outcome)) (on_log ask_thrown)" for h p
  proof (rule hoare_bind)
    show "hoare (on_log (settled (Dispatched h p))) (awaitAnswer t h timeout)
        (\<lambda>_. on_log (settled (Dispatched h p))) (on_log ask_thrown)"
      by (rule hoare_weaken [OF awaitAnswer_logs [of "settled (Dispatched h p)"]])
        (auto simp: ask_thrown_def simp del: settled.simps)
  qed (auto intro!: hoare_return simp del: settled.simps)
  have answered: "hoare (on_log (settled outcome))
      (case outcome of Dispatched h p \<Rightarrow> io_bind (awaitAnswer t h timeout) (\<lambda>answer. io_return (Answered h answer))
       | _ \<Rightarrow> io_return (NotAsked outcome)) (\<lambda>outcome. on_log (ask_settled outcome)) (on_log ask_thrown)" for outcome
    by (cases outcome) (auto intro: hoare_return waits simp del: settled.simps)
  have run: "hoare (on_log (\<lambda>l. l = [])) (io_bind (ask_run t c target token) (\<lambda>(outcome, v).
      case outcome of Dispatched h p \<Rightarrow> io_bind (awaitAnswer t h timeout) (\<lambda>answer. io_return (Answered h answer))
       | _ \<Rightarrow> io_return (NotAsked outcome))) (\<lambda>outcome. on_log (ask_settled outcome)) (on_log ask_thrown)" for c target token
    by (rule hoare_bind [OF hoare_never [OF ask_settles]], rule hoare_pair, rule answered)
  have connect: "hoare (on_log (\<lambda>l. l = [])) (untraced (at_connect t)) (\<lambda>_. on_log (\<lambda>l. l = [])) (on_log ask_thrown)"
    by (rule hoare_weaken [OF hoare_unsent]) (auto simp: ask_thrown_def)
  show ?thesis
    unfolding ask_execute_def Let_def
    by (rule hoare_if, rule hoare_return, simp, rule hoare_bind [OF connect], rule hoare_if, rule hoare_return, simp,
        rule hoare_if, rule hoare_return, simp, rule hoare_bind [OF draw_never], rule hoare_bind [OF draw_never], rule run)
qed


end
