(* ===== verification/Naming.thy ===== *)
theory Naming
  imports Prelude Complex_Main "HOL-Library.Multiset"
begin

text \<open>
  Readable names (\<open>pi/core/naming\<close>) and agent handles (\<open>pi/core/hub/handles.ts\<close>): the word bank, the
  draw of a name by a pattern of parts of speech, handles from entropy. A random source is a
  function on its state that gives a rational, or nothing for a value that is not finite; the
  product of the draw and the size of a pool is taken exactly.
\<close>

section \<open>The word bank\<close>

definition ADJECTIVES :: "string list" where
  "ADJECTIVES = [''steady'', ''calm'', ''bright'', ''quiet'', ''gentle'', ''brisk'', ''clear'', ''warm'', ''soft'', ''fresh'',
     ''kind'', ''smooth'', ''nimble'', ''brave'', ''mellow'', ''sunny'', ''crisp'', ''vivid'', ''light'',
     ''sturdy'', ''swift'', ''bold'', ''eager'', ''keen'', ''lively'', ''merry'', ''patient'', ''plucky'',
     ''ready'', ''sleek'', ''spry'', ''tidy'', ''trusty'', ''wise'', ''agile'', ''cozy'', ''hardy'', ''jolly'',
     ''lucid'', ''noble'', ''deft'', ''humble'', ''earnest'', ''spirited'', ''alert'', ''ardent'', ''balmy'',
     ''blithe'', ''breezy'', ''buoyant'', ''canny'', ''cheery'', ''chipper'', ''clever'', ''cordial'', ''daring'',
     ''dapper'', ''decent'', ''dreamy'', ''elegant'', ''fair'', ''fleet'', ''fluent'', ''fond'', ''frank'',
     ''genial'', ''glad'', ''graceful'', ''grand'', ''hearty'', ''honest'', ''hopeful'', ''jaunty'', ''jovial'',
     ''joyful'', ''limber'', ''lithe'', ''lofty'', ''loyal'', ''lucky'', ''mighty'', ''mild'', ''mindful'',
     ''modest'', ''neat'', ''nifty'', ''placid'', ''playful'', ''poised'', ''serene'', ''astute'', ''adroit'',
     ''gallant'', ''hale'', ''quick'', ''radiant'', ''plush'', ''sprightly'', ''dauntless'', ''intrepid'',
     ''valorous'', ''stout'', ''amiable'', ''affable'', ''gracious'', ''tender'', ''benevolent'', ''convivial'',
     ''sociable'', ''hospitable'', ''tactful'', ''prudent'', ''sensible'', ''thoughtful'', ''considerate'',
     ''diligent'', ''dutiful'', ''studious'', ''meticulous'', ''resolute'', ''steadfast'', ''staunch'',
     ''tenacious'', ''fearless'', ''audacious'', ''adventurous'', ''rapid'', ''zippy'', ''peppy'', ''perky'',
     ''snappy'', ''springy'', ''frisky'', ''vivacious'', ''dynamic'', ''vigorous'', ''robust'', ''fervent'',
     ''luminous'', ''gleaming'', ''lustrous'', ''glossy'', ''pristine'', ''immaculate'', ''limpid'', ''verdant'',
     ''golden'', ''crimson'', ''azure'', ''tawny'']"

definition FLORA :: "string list" where
  "FLORA = [''cedar'', ''willow'', ''maple'', ''pine'', ''fern'', ''acorn'', ''alder'', ''aspen'', ''birch'', ''elm'',
     ''juniper'', ''laurel'', ''linden'', ''spruce'', ''thistle'', ''clover'', ''heather'', ''ivy'', ''lotus'',
     ''poppy'', ''reed'', ''sorrel'', ''bramble'', ''orchard'', ''hazel'', ''olive'', ''holly'', ''fennel'',
     ''nettle'', ''sage'', ''tansy'', ''violet'', ''aster'', ''dahlia'', ''marigold'', ''lupine'', ''crocus'',
     ''sedge'', ''myrtle'', ''cypress'', ''oak'', ''ash'', ''rowan'', ''hawthorn'', ''hemlock'', ''larch'', ''fir'',
     ''beech'', ''chestnut'', ''walnut'', ''hickory'', ''magnolia'', ''dogwood'', ''sumac'', ''bracken'', ''gorse'',
     ''bluebell'', ''foxglove'', ''primrose'', ''lavender'']"

definition PLACES :: "string list" where
  "PLACES = [''river'', ''meadow'', ''harbor'', ''valley'', ''summit'', ''dune'', ''brook'', ''cove'', ''glade'', ''grove'',
     ''ridge'', ''canyon'', ''delta'', ''fjord'', ''lagoon'', ''mesa'', ''moor'', ''prairie'', ''knoll'', ''gully'',
     ''shoal'', ''strand'', ''tundra'', ''hollow'', ''marsh'', ''bluff'', ''cliff'', ''creek'', ''heath'', ''isle'',
     ''oasis'', ''plateau'', ''ravine'', ''thicket'', ''basin'', ''gorge'', ''bay'', ''inlet'', ''atoll'', ''reef'',
     ''cape'', ''sound'', ''strait'', ''channel'', ''estuary'', ''glen'', ''dale'', ''vale'', ''tarn'', ''mere'',
     ''spring'', ''shore'', ''crag'', ''fell'', ''steppe'']"

definition CREATURES :: "string list" where
  "CREATURES = [''otter'', ''fox'', ''sparrow'', ''turtle'', ''heron'', ''lark'', ''badger'', ''falcon'', ''lynx'', ''panda'',
     ''raven'', ''tiger'', ''wren'', ''beaver'', ''bison'', ''crane'', ''egret'', ''ferret'', ''finch'', ''gopher'',
     ''hare'', ''ibis'', ''jay'', ''kestrel'', ''marten'', ''mink'', ''newt'', ''osprey'', ''plover'', ''quail'',
     ''robin'', ''shrew'', ''snipe'', ''stoat'', ''swan'', ''vole'', ''weasel'', ''wolf'', ''moth'', ''sable'',
     ''hawk'', ''owl'', ''eagle'', ''dove'', ''martin'', ''swallow'', ''thrush'', ''magpie'', ''rook'',
     ''starling'', ''curlew'', ''mallard'', ''grebe'', ''puffin'', ''gannet'', ''tern'', ''merlin'', ''roe'',
     ''stag'', ''marmot'']"

definition ELEMENTS :: "string list" where
  "ELEMENTS = [''stone'', ''pebble'', ''cloud'', ''breeze'', ''coral'', ''shell'', ''comet'', ''amber'', ''ember'', ''moss'',
     ''lantern'', ''spark'', ''drift'', ''tide'', ''dawn'', ''dusk'', ''frost'', ''mist'', ''glow'', ''flint'',
     ''rain'', ''snow'', ''hail'', ''thunder'', ''storm'', ''gale'', ''gust'', ''zephyr'', ''cinder'', ''flame'',
     ''glimmer'', ''shimmer'', ''beam'', ''dew'', ''haze'', ''fog'', ''smoke'', ''rainbow'', ''aurora'',
     ''twilight'', ''meteor'', ''quartz'', ''granite'', ''geode'', ''opal'']"

definition NOUNS :: "string list" where
  "NOUNS = FLORA @ PLACES @ CREATURES @ ELEMENTS"

definition NAME_BANK :: "string list" where
  "NAME_BANK = ADJECTIVES @ NOUNS"

fun lowercase :: "char \<Rightarrow> bool" where
  "lowercase c = (let n = of_char c :: int in 97 \<le> n \<and> n \<le> 122)"

definition bank_word :: "string \<Rightarrow> bool" where
  "bank_word w \<longleftrightarrow> w \<noteq> [] \<and> list_all lowercase w"

lemma bank_words: "list_all bank_word NAME_BANK"
  by code_simp

text \<open>The words are checked to be distinct by sorting their codes.\<close>

definition word_code :: "string \<Rightarrow> int" where
  "word_code w = foldl (\<lambda>n c. n * 128 + of_char c) 0 w"

fun merge_codes :: "int list \<Rightarrow> int list \<Rightarrow> int list" where
  "merge_codes [] ys = ys"
| "merge_codes xs [] = xs"
| "merge_codes (x # xs) (y # ys) = (if x \<le> y then x # merge_codes xs (y # ys) else y # merge_codes (x # xs) ys)"

fun merge_neighbours :: "int list list \<Rightarrow> int list list" where
  "merge_neighbours (xs # ys # zss) = merge_codes xs ys # merge_neighbours zss"
| "merge_neighbours xss = xss"

fun merge_rounds :: "nat \<Rightarrow> int list list \<Rightarrow> int list list" where
  "merge_rounds 0 xss = xss"
| "merge_rounds (Suc n) xss = merge_rounds n (merge_neighbours xss)"

lemma mset_merge_codes: "mset (merge_codes xs ys) = mset xs + mset ys"
  by (induction xs ys rule: merge_codes.induct) auto

lemma mset_merge_neighbours: "mset (concat (merge_neighbours xss)) = mset (concat xss)"
  by (induction xss rule: merge_neighbours.induct) (auto simp: mset_merge_codes)

lemma mset_merge_rounds: "mset (concat (merge_rounds n xss)) = mset (concat xss)"
  by (induction n arbitrary: xss) (auto simp: mset_merge_neighbours)

fun strictly_ascending :: "int list \<Rightarrow> bool" where
  "strictly_ascending (x # y # zs) = (x < y \<and> strictly_ascending (y # zs))"
| "strictly_ascending _ = True"

lemma strictly_ascending_distinct: "strictly_ascending xs \<Longrightarrow> distinct xs"
proof -
  have "strictly_ascending (x # xs) \<Longrightarrow> (\<forall>y \<in> set xs. x < y) \<and> distinct xs" for x xs
    by (induction xs arbitrary: x rule: strictly_ascending.induct) auto
  then show "strictly_ascending xs \<Longrightarrow> distinct xs" by (cases xs) auto
qed

lemma distinct_by_codes:
  assumes "strictly_ascending (concat (merge_rounds n (map (\<lambda>w. [word_code w]) ws)))"
  shows "distinct ws"
proof -
  have "mset (concat (merge_rounds n (map (\<lambda>w. [word_code w]) ws))) = mset (map word_code ws)"
    by (simp add: mset_merge_rounds)
  then have "distinct (map word_code ws)"
    using strictly_ascending_distinct [OF assms] by (metis mset_eq_imp_distinct_iff)
  then show ?thesis by (simp add: distinct_map)
qed

lemma bank_distinct: "distinct NAME_BANK"
  by (rule distinct_by_codes [where n = 9]) code_simp

section \<open>Drawing a name\<close>

datatype part_of_speech = Adjective | Noun

fun POOLS :: "part_of_speech \<Rightarrow> string list" where
  "POOLS Adjective = ADJECTIVES"
| "POOLS Noun = NOUNS"

definition ADJ_NOUN :: "part_of_speech list" where "ADJ_NOUN = [Adjective, Noun]"

definition ADJ_ADJ_NOUN :: "part_of_speech list" where "ADJ_ADJ_NOUN = [Adjective, Adjective, Noun]"

text \<open>\<open>None\<close>: a value that is not finite.\<close>

type_synonym 's rng = "'s \<Rightarrow> rat option \<times> 's"

definition rng_ok :: "rat option \<Rightarrow> bool" where
  "rng_ok v \<longleftrightarrow> (case v of Some x \<Rightarrow> 0 \<le> x \<and> x < 1 | None \<Rightarrow> False)"

definition randomIndex :: "nat \<Rightarrow> 's rng \<Rightarrow> ('s, nat) io" where
  "randomIndex n rng = (\<lambda>s. case rng s of (v, s') \<Rightarrow>
     (if rng_ok v then Inr (nat \<lfloor>the v * of_nat n\<rfloor>)
      else Inl ''Name rng must return a number in the range [0, 1).'', s'))"

definition part_name :: "part_of_speech \<Rightarrow> string" where
  "part_name p = (case p of Adjective \<Rightarrow> ''adjective'' | Noun \<Rightarrow> ''noun'')"

text \<open>A drawn word leaves its pool; the pools of the candidate are copies of the bank.\<close>

fun candidate_words :: "'s rng \<Rightarrow> (part_of_speech \<Rightarrow> string list) \<Rightarrow> part_of_speech list \<Rightarrow> ('s, string list) io" where
  "candidate_words rng pools [] = io_return []"
| "candidate_words rng pools (pos # pattern) =
     io_bind (randomIndex (length (pools pos)) rng) (\<lambda>i.
       if length (pools pos) \<le> i then io_throw (''Not enough '' @ part_name pos @ '' words to build the requested name.'')
       else io_bind (candidate_words rng (pools(pos := take i (pools pos) @ drop (Suc i) (pools pos))) pattern)
         (\<lambda>words. io_return (pools pos ! i # words)))"

definition candidateName :: "part_of_speech list \<Rightarrow> 's rng \<Rightarrow> ('s, string) io" where
  "candidateName pattern rng = io_bind (candidate_words rng POOLS pattern) (\<lambda>words. io_return (join ''-'' words))"

fun name_attempts :: "nat \<Rightarrow> part_of_speech list \<Rightarrow> 's rng \<Rightarrow> (string \<Rightarrow> bool) \<Rightarrow> string \<Rightarrow> ('s, string) io" where
  "name_attempts 0 pattern rng isTaken message = io_throw message"
| "name_attempts (Suc n) pattern rng isTaken message =
     io_bind (candidateName pattern rng) (\<lambda>candidate.
       if \<not> isTaken candidate then io_return candidate else name_attempts n pattern rng isTaken message)"

definition generateName :: "part_of_speech list \<Rightarrow> 's rng \<Rightarrow> (string \<Rightarrow> bool) \<Rightarrow> nat \<Rightarrow> ('s, string) io" where
  "generateName pattern rng isTaken maxAttempts =
     name_attempts maxAttempts pattern rng isTaken
       (''Unable to generate an available name after '' @ show_int (int maxAttempts) @ '' attempts.'')"

section \<open>Handles\<close>

text \<open>\<open>digest\<close> is the number in the first six bytes of the SHA-256 of a text; the generator's state is its counter.\<close>

definition seededRng :: "(string \<Rightarrow> nat) \<Rightarrow> string \<Rightarrow> nat rng" where
  "seededRng digest seed =
     (\<lambda>counter. (Some (of_nat (digest (seed @ '':'' @ show_int (int counter))) / 2 ^ 48), counter + 1))"

definition buildAgentHandleFromEntropy :: "(string \<Rightarrow> nat) \<Rightarrow> string \<Rightarrow> string result" where
  "buildAgentHandleFromEntropy digest entropy =
     rbind (fst (generateName ADJ_NOUN (seededRng digest entropy) (\<lambda>_. False) 50 0)) (\<lambda>name.
       Inr (name @ ''-'' @ take 6 entropy))"

text \<open>\<open>uuid\<close> is a random UUID, \<open>hex\<close> the SHA-256 of a text as hexadecimal digits.\<close>

definition buildAgentHandle :: "(string \<Rightarrow> nat) \<Rightarrow> string \<Rightarrow> string result" where
  "buildAgentHandle digest uuid = buildAgentHandleFromEntropy digest (filter (\<lambda>c. c \<noteq> CHR ''-'') uuid)"

definition buildDeterministicAgentHandle :: "(string \<Rightarrow> nat) \<Rightarrow> (string \<Rightarrow> string) \<Rightarrow> string \<Rightarrow> string result" where
  "buildDeterministicAgentHandle digest hex seed = buildAgentHandleFromEntropy digest (hex seed)"

section \<open>Names are available and safe\<close>

lemma randomIndex_bound:
  assumes "randomIndex n rng s = (Inr i, s')" and "0 < n"
  shows "i < n"
proof -
  obtain x where "rng s = (Some x, s')" "0 \<le> x" "x < 1" "i = nat \<lfloor>x * of_nat n\<rfloor>"
    using assms(1) by (auto simp: randomIndex_def rng_ok_def split: prod.splits if_splits option.splits)
  moreover from this assms(2) have "x * of_nat n < of_nat n" by simp
  ultimately show ?thesis by (simp add: floor_less_iff nat_less_iff)
qed

definition pools_ok :: "(part_of_speech \<Rightarrow> string list) \<Rightarrow> bool" where
  "pools_ok pools \<longleftrightarrow> distinct (pools Adjective @ pools Noun) \<and> (\<forall>p. set (pools p) \<subseteq> set (POOLS p))"

lemma pools_ok_bank: "pools_ok POOLS"
  using bank_distinct by (auto simp: pools_ok_def NAME_BANK_def)

lemma taken_away: "i < n \<Longrightarrow> n = length xs \<Longrightarrow> distinct xs \<Longrightarrow> set (take i xs @ drop (Suc i) xs) = set xs - {xs ! i}
    \<and> distinct (take i xs @ drop (Suc i) xs)"
proof -
  assume i: "i < n" "n = length xs" "distinct xs"
  then have "xs = take i xs @ xs ! i # drop (Suc i) xs" using id_take_nth_drop [of i xs] by simp
  with i(3) have "distinct (take i xs @ xs ! i # drop (Suc i) xs)" "set xs = set (take i xs @ xs ! i # drop (Suc i) xs)"
    by simp_all
  then show ?thesis by auto
qed

lemma pools_ok_draw:
  assumes "pools_ok pools" and "i < length (pools pos)"
  shows "pools_ok (pools(pos := take i (pools pos) @ drop (Suc i) (pools pos)))"
    and "pools pos ! i \<notin> set ((pools(pos := take i (pools pos) @ drop (Suc i) (pools pos))) p)"
proof -
  have d: "distinct (pools pos)" using assms(1) by (cases pos) (auto simp: pools_ok_def)
  note t = taken_away [OF assms(2) refl d]
  have mem: "pools pos ! i \<in> set (pools pos)" using assms(2) by simp
  let ?pools = "pools(pos := take i (pools pos) @ drop (Suc i) (pools pos))"
  have sub: "set (?pools p) \<subseteq> set (pools p)" for p by (auto dest: in_set_takeD in_set_dropD)
  have "distinct (?pools Adjective @ ?pools Noun)"
    using assms(1) t by (cases pos) (auto simp: pools_ok_def)
  with assms(1) sub show "pools_ok ?pools" unfolding pools_ok_def by blast
  show "pools pos ! i \<notin> set ((pools(pos := take i (pools pos) @ drop (Suc i) (pools pos))) p)"
    using assms(1) t mem by (cases pos; cases p) (auto simp: pools_ok_def)
qed

lemma candidate_words_from_pools:
  assumes "candidate_words rng pools pattern s = (Inr words, s')" and "pools_ok pools"
  shows "list_all2 (\<lambda>w p. w \<in> set (pools p)) words pattern \<and> distinct words"
  using assms
proof (induction pattern arbitrary: pools s words)
  case Nil
  then show ?case by (simp add: io_simps)
next
  case (Cons pos pattern)
  let ?n = "length (pools pos)"
  obtain i s1 where i: "randomIndex ?n rng s = (Inr i, s1)" "i < ?n"
    using Cons.prems(1) by (auto simp: io_simps split: prod.splits sum.splits if_splits)
  let ?pools = "pools(pos := take i (pools pos) @ drop (Suc i) (pools pos))"
  obtain ws where ws: "candidate_words rng ?pools pattern s1 = (Inr ws, s')" "words = pools pos ! i # ws"
    using Cons.prems(1) i by (auto simp: io_simps split: prod.splits sum.splits if_splits)
  note draw = pools_ok_draw [OF Cons.prems(2) i(2)]
  have IH: "list_all2 (\<lambda>w p. w \<in> set (?pools p)) ws pattern" "distinct ws"
    using Cons.IH [OF ws(1) draw(1)] by auto
  have sub: "set (?pools p) \<subseteq> set (pools p)" for p by (auto dest: in_set_takeD in_set_dropD)
  have "pools pos ! i \<notin> set ws"
    using IH(1) draw(2) by (fastforce simp: list_all2_conv_all_nth in_set_conv_nth)
  moreover have "list_all2 (\<lambda>w p. w \<in> set (pools p)) ws pattern"
    by (rule list_all2_mono [OF IH(1)]) (use sub in blast)
  ultimately show ?case using IH(2) i(2) by (simp add: ws(2))
qed

lemma join_chars: "c \<in> set (join sep ws) \<Longrightarrow> c \<in> set sep \<or> (\<exists>w \<in> set ws. c \<in> set w)"
  by (induction sep ws rule: join.induct) auto

lemma bank_of_part: "w \<in> set (POOLS p) \<Longrightarrow> w \<in> set NAME_BANK"
  by (cases p) (auto simp: NAME_BANK_def)

lemma bank_part: "w \<in> set (POOLS p) \<Longrightarrow> bank_word w"
  using bank_words bank_of_part by (metis list_all_iff)

lemma name_attempts_result:
  assumes "name_attempts n pattern rng isTaken message s = (Inr name, s')"
  shows "\<not> isTaken name \<and> (\<exists>s1 s2. candidateName pattern rng s1 = (Inr name, s2))"
  using assms
  by (induction n arbitrary: s) (auto simp: io_simps split: prod.splits sum.splits if_splits)

lemma candidate_name_spec:
  assumes "candidateName pattern rng s = (Inr name, s')"
  obtains words where "name = join ''-'' words" "list_all2 (\<lambda>w p. w \<in> set (POOLS p)) words pattern" "distinct words"
proof -
  obtain words where "candidate_words rng POOLS pattern s = (Inr words, s')" "name = join ''-'' words"
    using assms by (auto simp: candidateName_def io_simps split: prod.splits sum.splits)
  with candidate_words_from_pools [OF this(1) pools_ok_bank] that show ?thesis by blast
qed

text \<open>
  A generated name is available and safe. Whatever the random source, a name that is returned is one
  the caller does not have, is drawn word by word from the pools of the pattern without repeating a
  word, reads back into those words, and uses only lower-case letters and hyphens, so that it is a
  safe git reference and path segment.
\<close>

theorem generated_names_are_safe:
  assumes "generateName pattern rng isTaken maxAttempts s = (Inr name, s')" and "pattern \<noteq> []"
  shows "\<not> isTaken name \<and> list_all2 (\<lambda>w p. w \<in> set (POOLS p)) (split_on (CHR ''-'') name) pattern
    \<and> distinct (split_on (CHR ''-'') name) \<and> list_all (\<lambda>c. lowercase c \<or> c = CHR ''-'') name"
proof -
  obtain s1 s2 where free: "\<not> isTaken name" and cand: "candidateName pattern rng s1 = (Inr name, s2)"
    using name_attempts_result [OF assms(1) [unfolded generateName_def]] by blast
  from cand obtain words where words: "name = join ''-'' words" "list_all2 (\<lambda>w p. w \<in> set (POOLS p)) words pattern" "distinct words"
    by (rule candidate_name_spec)
  have bank: "bank_word w" if w: "w \<in> set words" for w
  proof -
    obtain i where "i < length words" "w = words ! i" using w by (auto simp: in_set_conv_nth)
    with words(2) have "w \<in> set (POOLS (pattern ! i))" by (auto simp: list_all2_conv_all_nth)
    then show ?thesis by (rule bank_part)
  qed
  have "\<not> lowercase (CHR ''-'')" by code_simp
  with bank have "\<forall>w \<in> set words. CHR ''-'' \<notin> set w"
    by (auto simp: bank_word_def list_all_iff simp del: lowercase.simps)
  moreover have "words \<noteq> []" using words(2) assms(2) by (cases words) auto
  ultimately have "split_on (CHR ''-'') name = words" unfolding words(1) by (intro split_on_join)
  moreover have "list_all (\<lambda>c. lowercase c \<or> c = CHR ''-'') name"
  proof (unfold list_all_iff, rule ballI)
    fix c assume "c \<in> set name"
    then consider "c = CHR ''-''" | w where "w \<in> set words" "c \<in> set w"
      using join_chars [of c "''-''" words] by (auto simp: words(1))
    then show "lowercase c \<or> c = CHR ''-''" using bank by cases (auto simp: bank_word_def list_all_iff)
  qed
  ultimately show ?thesis using free words by simp
qed

text \<open>A source that counts through tenths, with the first name taken.\<close>

definition sample_rng :: "nat rng" where
  "sample_rng n = (Some (of_nat (n mod 10) / 10), n + 1)"

lemma sample_name: "generateName ADJ_NOUN sample_rng (\<lambda>n. n = ''steady-bramble'') 50 0 = (Inr ''spry-brook'', 4)"
  by code_simp

theorem generated_names_are_safe_witness:
  "list_all2 (\<lambda>w p. w \<in> set (POOLS p)) (split_on (CHR ''-'') ''spry-brook'') ADJ_NOUN \<and> ''spry-brook'' \<noteq> ''steady-bramble''"
  using generated_names_are_safe [OF sample_name] by (simp add: ADJ_NOUN_def)

text \<open>A handle can always be built, and is two words and the first six digits of its entropy.\<close>

lemma candidate_words_returns:
  assumes "\<And>s. rng_ok (fst (rng s))" and "\<And>p. length pattern \<le> length (pools p)"
  shows "\<exists>words s'. candidate_words rng pools pattern s = (Inr words, s')"
  using assms(2)
proof (induction pattern arbitrary: pools s)
  case Nil
  then show ?case by (simp add: io_simps)
next
  case (Cons pos pattern)
  obtain v s1 where v: "rng s = (v, s1)" "rng_ok v" using assms(1) [of s] by (cases "rng s") auto
  let ?n = "length (pools pos)" and ?i = "nat \<lfloor>the v * of_nat (length (pools pos))\<rfloor>"
  have draw: "randomIndex ?n rng s = (Inr ?i, s1)" by (simp add: randomIndex_def v)
  have "0 < ?n" using Cons.prems [of pos] by auto
  from randomIndex_bound [OF draw this] have i: "?i < ?n" .
  let ?pools = "pools(pos := take ?i (pools pos) @ drop (Suc ?i) (pools pos))"
  have "length pattern \<le> length (?pools p)" for p using Cons.prems [of p] i by auto
  from Cons.IH [of ?pools, OF this] obtain words s' where "candidate_words rng ?pools pattern s1 = (Inr words, s')" by blast
  then show ?case using i by (simp add: io_simps draw)
qed

lemma handle_from_entropy:
  assumes "\<And>t. digest t < 2 ^ 48"
  shows "\<exists>a n. buildAgentHandleFromEntropy digest entropy = Inr (a @ ''-'' @ n @ ''-'' @ take 6 entropy)
    \<and> a \<in> set ADJECTIVES \<and> n \<in> set NOUNS"
proof -
  let ?rng = "seededRng digest entropy"
  have "of_nat (digest t) < (2 ^ 48 :: rat)" for t
    using of_nat_less_iff [where 'a = rat, of "digest t" "2 ^ 48"] assms [of t] by simp
  then have ok: "rng_ok (fst (?rng s))" for s by (simp add: seededRng_def rng_ok_def)
  have enough: "length ADJ_NOUN \<le> length (POOLS p)" for p
    by (cases p) (simp_all add: ADJ_NOUN_def ADJECTIVES_def NOUNS_def FLORA_def)
  obtain words s' where words: "candidate_words ?rng POOLS ADJ_NOUN 0 = (Inr words, s')"
    using candidate_words_returns [of ?rng ADJ_NOUN POOLS 0, OF ok enough] by blast
  then have "list_all2 (\<lambda>w p. w \<in> set (POOLS p)) words ADJ_NOUN"
    using candidate_words_from_pools [OF words pools_ok_bank] by simp
  then obtain a n where an: "words = [a, n]" "a \<in> set ADJECTIVES" "n \<in> set NOUNS"
    by (auto simp: ADJ_NOUN_def list_all2_Cons2)
  have "generateName ADJ_NOUN ?rng (\<lambda>_. False) 50 0 = (Inr (a @ ''-'' @ n), s')"
    by (simp add: generateName_def candidateName_def words io_simps an eval_nat_numeral)
  then show ?thesis using an by (auto simp: buildAgentHandleFromEntropy_def)
qed

end
