(* ===== verification/HubIdentity.thy ===== *)
theory HubIdentity
  imports Workspace HubConnect Naming
begin

text \<open>
  What a session says of itself to the hub (\<open>pi/core/hub/identity.ts\<close>, \<open>metadata.ts\<close>): the identity it
  registers with, display labels, and the publisher that sends a snapshot of the session when one
  of its sources changes. The environment, the workspace, the mode and the host's session are
  arguments.
\<close>

section \<open>Labels\<close>

definition blank_control :: "char \<Rightarrow> char" where
  "blank_control c = (let code = of_char c :: nat in if code \<le> 31 \<or> code = 127 then CHR '' '' else c)"

definition sanitizeDisplayLabel :: "string option \<Rightarrow> nat \<Rightarrow> string option" where
  "sanitizeDisplayLabel value maxLength =
     (let withoutControls = map blank_control (case value of Some v \<Rightarrow> v | None \<Rightarrow> []);
          sanitized = collapse_ws withoutControls
      in if sanitized = [] then None else Some (shorten maxLength sanitized))"

section \<open>The identity\<close>

definition shortSessionId :: "string \<Rightarrow> string" where
  "shortSessionId sessionId = (let s = filter (\<lambda>c. c \<noteq> CHR ''-'') sessionId in drop (length s - 4) s)"

definition formatTitle :: "string \<Rightarrow> string \<Rightarrow> string" where
  "formatTitle title tag = title @ '' ['' @ tag @ '']''"

text \<open>What the host knows of the session; \<open>None\<close> for a session file that cannot be asked for.\<close>

record host_session =
  hs_sessionId :: string
  hs_sessionFile :: "string option"
  hs_sessionName :: "string option"
  hs_modelId :: "string option"
  hs_cwd :: string

definition or_none :: "string option \<Rightarrow> string option" where
  "or_none v = (if v = Some [] then None else v)"

definition resolveDaemonAgentTitle :: "env \<Rightarrow> host_session \<Rightarrow> string option" where
  "resolveDaemonAgentTitle penv ctx =
     (case or_none (map_option trim (penv ''BASECAMP_AGENT_TITLE'')) of
        None \<Rightarrow> None
      | Some base \<Rightarrow> Some (formatTitle base (shortSessionId (hs_sessionId ctx))))"

definition resolveSessionFile :: "host_session \<Rightarrow> string option" where
  "resolveSessionFile ctx =
     (case hs_sessionFile ctx of Some f \<Rightarrow> if trim f = [] then None else Some f | None \<Rightarrow> None)"

fun or_default :: "'a option \<Rightarrow> 'a \<Rightarrow> 'a" where
  "or_default (Some x) d = x"
| "or_default None d = d"

definition active_branch :: "workspace_state option \<Rightarrow> string option" where
  "active_branch workspace =
     (case workspace of Some w \<Rightarrow> (case ws_activeWorktree w of Some t \<Rightarrow> wt_branch t | None \<Rightarrow> None) | None \<Rightarrow> None)"

definition session_name_for :: "env \<Rightarrow> host_session \<Rightarrow> string \<Rightarrow> string" where
  "session_name_for penv ctx nodeId =
     (case resolveDaemonAgentTitle penv ctx of
        Some t \<Rightarrow> t
      | None \<Rightarrow> or_default (penv ''BASECAMP_SESSION_NAME'') nodeId)"

text \<open>The handle of a node is built by \<open>handle\<close>, which may throw.\<close>

definition deriveDaemonIdentity ::
  "(string \<Rightarrow> int option) \<Rightarrow> (string \<Rightarrow> string result) \<Rightarrow> env \<Rightarrow> host_session \<Rightarrow> workspace_state option \<Rightarrow> agent_mode
   \<Rightarrow> daemon_identity result" where
  "deriveDaemonIdentity other handle penv ctx workspace mode =
     (let safeDepth = (case getAgentDepth other penv of Some d \<Rightarrow> if 0 \<le> d then nat d else 0 | None \<Rightarrow> 0);
          nodeId = or_default (penv ''BASECAMP_AGENT_ID'') (hs_sessionId ctx);
          explicitHandle = (if 0 < safeDepth then or_none (map_option trim (penv ''BASECAMP_AGENT_HANDLE'')) else None);
          role = (if penv ''BASECAMP_USER_FACING'' = Some ''0'' then ''worker'' else ''agent'')
      in rbind (case explicitHandle of Some h \<Rightarrow> Inr h | None \<Rightarrow> handle nodeId) (\<lambda>agentHandle.
           Inr \<lparr>di_node_id = nodeId, di_agent_handle = agentHandle, di_role = role,
             di_parent_id = penv ''BASECAMP_PARENT_SESSION'', di_sibling_group = penv ''BASECAMP_SIBLING_GROUP'',
             di_depth = safeDepth, di_session_name = session_name_for penv ctx nodeId,
             di_cwd = hs_cwd ctx, di_session_file = resolveSessionFile ctx,
             di_repo = or_none (map_option trim (penv ''BASECAMP_REPO'')),
             di_worktree_label = or_none (map_option trim (penv ''BASECAMP_WORKTREE_LABEL'')),
             di_branch = active_branch workspace, di_model = hs_modelId ctx, di_agent_mode = Some (agent_mode_name mode)\<rparr>))"

section \<open>The metadata publisher\<close>

definition DISPLAY_LABEL_LIMIT :: nat where "DISPLAY_LABEL_LIMIT = 160"

definition optionalLabel :: "string option \<Rightarrow> string option" where
  "optionalLabel value = sanitizeDisplayLabel value DISPLAY_LABEL_LIMIT"

definition envLabel :: "env \<Rightarrow> string \<Rightarrow> string option" where
  "envLabel penv name = optionalLabel (penv name)"

text \<open>The sources of a snapshot; the environment and the host's session are those of the process.\<close>

record metadata_sources =
  md_mode :: agent_mode
  md_workspace :: "workspace_state option"

definition fallbackSessionName :: "env \<Rightarrow> host_session \<Rightarrow> string" where
  "fallbackSessionName penv ctx = session_name_for penv ctx (or_default (penv ''BASECAMP_AGENT_ID'') (hs_sessionId ctx))"

definition resolveSessionName :: "env \<Rightarrow> host_session \<Rightarrow> string option \<Rightarrow> string" where
  "resolveSessionName penv ctx name = or_default (optionalLabel name) (fallbackSessionName penv ctx)"

definition first_of :: "'a option \<Rightarrow> 'a option \<Rightarrow> 'a option" where
  "first_of v d = (case v of Some x \<Rightarrow> Some x | None \<Rightarrow> d)"

definition repo_name_of :: "workspace_state option \<Rightarrow> string option" where
  "repo_name_of workspace =
     (case workspace of Some w \<Rightarrow> map_option rp_name (ws_repo w) | None \<Rightarrow> None)"

definition worktree_label_of :: "workspace_state option \<Rightarrow> string option" where
  "worktree_label_of workspace =
     (case workspace of Some w \<Rightarrow> map_option wt_label (ws_activeWorktree w) | None \<Rightarrow> None)"

definition buildFrame :: "env \<Rightarrow> string \<Rightarrow> string option \<Rightarrow> metadata_sources \<Rightarrow> (string \<times> json) list" where
  "buildFrame penv sessionName model src =
     [(''type'', JStr ''session_metadata''), (''session_name'', JStr sessionName), (''model'', nullable JStr model),
      (''agent_mode'', JStr (agent_mode_name (md_mode src))),
      (''repo'', nullable JStr (first_of (optionalLabel (repo_name_of (md_workspace src))) (envLabel penv ''BASECAMP_REPO''))),
      (''worktree_label'', nullable JStr
         (if md_workspace src = None then envLabel penv ''BASECAMP_WORKTREE_LABEL''
          else optionalLabel (worktree_label_of (md_workspace src)))),
      (''branch'', nullable JStr (optionalLabel (active_branch (md_workspace src))))]"

record publisher =
  pb_sessionName :: string
  pb_model :: "string option"
  pb_lastPayload :: "(string \<times> json) list option"
  pb_subscribed :: bool

definition publish :: "env \<Rightarrow> metadata_sources \<Rightarrow> publisher \<Rightarrow> publisher \<times> (string \<times> json) list list" where
  "publish penv src p =
     (let frame = buildFrame penv (pb_sessionName p) (pb_model p) src in
      if pb_lastPayload p = Some frame then (p, []) else (p\<lparr>pb_lastPayload := Some frame\<rparr>, [frame]))"

datatype metadata_event =
    ModeChanged
  | WorkspaceChanged
  | SessionNamed "string option"
  | ModelSelected "string option"
  | Stopped

definition startSessionMetadataPublisher ::
  "env \<Rightarrow> host_session \<Rightarrow> metadata_sources \<Rightarrow> publisher \<times> (string \<times> json) list list" where
  "startSessionMetadataPublisher penv ctx src =
     publish penv src \<lparr>pb_sessionName = resolveSessionName penv ctx (hs_sessionName ctx), pb_model = optionalLabel (hs_modelId ctx),
       pb_lastPayload = None, pb_subscribed = True\<rparr>"

text \<open>An event, with the sources as they are when it comes. A send that fails is not made again.\<close>

fun metadata_step ::
  "env \<Rightarrow> host_session \<Rightarrow> publisher \<Rightarrow> metadata_event \<times> metadata_sources \<Rightarrow> publisher \<times> (string \<times> json) list list" where
  "metadata_step penv ctx p (ModeChanged, src) = (if pb_subscribed p then publish penv src p else (p, []))"
| "metadata_step penv ctx p (WorkspaceChanged, src) = (if pb_subscribed p then publish penv src p else (p, []))"
| "metadata_step penv ctx p (SessionNamed name, src) = publish penv src (p\<lparr>pb_sessionName := resolveSessionName penv ctx name\<rparr>)"
| "metadata_step penv ctx p (ModelSelected model, src) = publish penv src (p\<lparr>pb_model := optionalLabel model\<rparr>)"
| "metadata_step penv ctx p (Stopped, src) = (p\<lparr>pb_subscribed := False\<rparr>, [])"

fun metadata_run ::
  "env \<Rightarrow> host_session \<Rightarrow> publisher \<Rightarrow> (metadata_event \<times> metadata_sources) list \<Rightarrow> publisher \<times> (string \<times> json) list list" where
  "metadata_run penv ctx p [] = (p, [])"
| "metadata_run penv ctx p (e # es) =
     (case metadata_step penv ctx p e of (p', out) \<Rightarrow> case metadata_run penv ctx p' es of (p'', out') \<Rightarrow> (p'', out @ out'))"

section \<open>Labels are bounded\<close>

definition plain_char :: "char \<Rightarrow> bool" where
  "plain_char c \<longleftrightarrow> 31 < (of_char c :: nat) \<and> of_char c \<noteq> (127 :: nat)"

lemma plain_chars [simp]: "plain_char (blank_control c)" "plain_char ellipsis" "plain_char (CHR '' '')"
  by (auto simp: plain_char_def blank_control_def Let_def ellipsis_def)

lemma sanitized_label:
  assumes "sanitizeDisplayLabel value maxLength = Some label" and "0 < maxLength"
  shows "label \<noteq> []" and "length label \<le> maxLength"
    and "list_all plain_char label"
proof -
  obtain v where v: "label = shorten maxLength (collapse_ws (map blank_control v))" "collapse_ws (map blank_control v) \<noteq> []"
    using assms(1) by (auto simp: sanitizeDisplayLabel_def Let_def split: if_splits)
  show "label \<noteq> []" using v by (auto simp: shorten_def)
  show "length label \<le> maxLength" using v(1) length_shorten [OF assms(2)] by simp
  have "plain_char c" if "c \<in> set label" for c
  proof -
    have "c = ellipsis \<or> c = CHR '' '' \<or> (\<exists>d. c = blank_control d)"
      using that v(1) shorten_chars collapse_ws_chars by fastforce
    then show ?thesis by auto
  qed
  then show "list_all plain_char label" by (simp add: list_all_iff)
qed

section \<open>The wire is silent about what it said\<close>

text \<open>The snapshot at each event, had it been sent: the name and the model are those last given.\<close>

definition named_by :: "env \<Rightarrow> host_session \<Rightarrow> string \<times> string option \<Rightarrow> metadata_event \<Rightarrow> string \<times> string option" where
  "named_by penv ctx = (\<lambda>(name, model) e. case e of
     SessionNamed n \<Rightarrow> (resolveSessionName penv ctx n, model) | ModelSelected m \<Rightarrow> (name, optionalLabel m) | _ \<Rightarrow> (name, model))"

fun snapshots :: "env \<Rightarrow> host_session \<Rightarrow> string \<times> string option \<Rightarrow> (metadata_event \<times> metadata_sources) list \<Rightarrow> (string \<times> json) list list" where
  "snapshots penv ctx nm [] = []"
| "snapshots penv ctx nm ((e, src) # es) =
     (let nm' = named_by penv ctx nm e in buildFrame penv (fst nm') (snd nm') src # snapshots penv ctx nm' es)"

lemma remdups_adj_since:
  "remdups_adj (x # xs) = x # (if xs \<noteq> [] \<and> hd xs = x then tl (remdups_adj xs) else remdups_adj xs)"
  by (cases xs) (auto simp: remdups_adj_Cons split: list.split)

lemma run_sends_changes:
  assumes "pb_lastPayload p = Some frame" "pb_subscribed p" "Stopped \<notin> fst ` set es"
  shows "frame # snd (metadata_run penv ctx p es) = remdups_adj (frame # snapshots penv ctx (pb_sessionName p, pb_model p) es)"
  using assms
proof (induction es arbitrary: p frame)
  case Nil
  then show ?case by simp
next
  case (Cons e es)
  obtain ev src where e: "e = (ev, src)" by (cases e)
  let ?nm = "named_by penv ctx (pb_sessionName p, pb_model p) ev"
  let ?f = "buildFrame penv (fst ?nm) (snd ?nm) src"
  let ?p = "p\<lparr>pb_sessionName := fst ?nm, pb_model := snd ?nm\<rparr>"
  have "metadata_step penv ctx p e = publish penv src ?p"
    using Cons.prems by (cases ev) (auto simp: e named_by_def)
  then have step: "metadata_step penv ctx p e = (?p\<lparr>pb_lastPayload := Some ?f\<rparr>, if frame = ?f then [] else [?f])"
    using Cons.prems(1) by (auto simp: publish_def Let_def)
  have IH: "?f # snd (metadata_run penv ctx (?p\<lparr>pb_lastPayload := Some ?f\<rparr>) es) = remdups_adj (?f # snapshots penv ctx ?nm es)"
    using Cons.IH [of "?p\<lparr>pb_lastPayload := Some ?f\<rparr>" ?f] Cons.prems by simp
  show ?case using IH by (auto simp: e step [unfolded e] Let_def case_prod_unfold)
qed

text \<open>
  The hub hears each change of the session once. From the start of the publisher, for any sequence of
  changes of mode and workspace, new names and models while it is subscribed, the frames it sends are the
  snapshots of the session at the start and at each event with consecutive repetitions left out, so that no
  frame repeats the one before it and the last one is the current snapshot.
\<close>

theorem metadata_sends_each_change_once:
  assumes "Stopped \<notin> fst ` set es" and "startSessionMetadataPublisher penv ctx src = (p, sent)"
  shows "sent @ snd (metadata_run penv ctx p es) =
      remdups_adj (buildFrame penv (resolveSessionName penv ctx (hs_sessionName ctx)) (optionalLabel (hs_modelId ctx)) src
        # snapshots penv ctx (resolveSessionName penv ctx (hs_sessionName ctx), optionalLabel (hs_modelId ctx)) es)"
proof -
  let ?f = "buildFrame penv (resolveSessionName penv ctx (hs_sessionName ctx)) (optionalLabel (hs_modelId ctx)) src"
  have p: "sent = [?f]" "pb_lastPayload p = Some ?f" "pb_subscribed p"
    "pb_sessionName p = resolveSessionName penv ctx (hs_sessionName ctx)" "pb_model p = optionalLabel (hs_modelId ctx)"
    using assms(2) by (auto simp: startSessionMetadataPublisher_def publish_def Let_def)
  show ?thesis using run_sends_changes [OF p(2,3) assms(1), of penv ctx] by (simp add: p)
qed

definition sample_host :: host_session where
  "sample_host = \<lparr>hs_sessionId = ''0198-ab12'', hs_sessionFile = None, hs_sessionName = None, hs_modelId = Some ''opus'', hs_cwd = ''/''\<rparr>"

definition sample_sources :: metadata_sources where
  "sample_sources = \<lparr>md_mode = Work, md_workspace = None\<rparr>"

theorem metadata_sends_each_change_once_witness:
  "length (snd (metadata_run Map.empty sample_host (fst (startSessionMetadataPublisher Map.empty sample_host sample_sources))
     [(ModeChanged, sample_sources), (ModeChanged, sample_sources\<lparr>md_mode := Planning\<rparr>),
      (ModelSelected (Some ''opus''), sample_sources\<lparr>md_mode := Planning\<rparr>)])) = 1"
proof -
  let ?es = "[(ModeChanged, sample_sources), (ModeChanged, sample_sources\<lparr>md_mode := Planning\<rparr>),
      (ModelSelected (Some ''opus''), sample_sources\<lparr>md_mode := Planning\<rparr>)]"
  have "Stopped \<notin> fst ` set ?es" by simp
  from metadata_sends_each_change_once [OF this surjective_pairing [of "startSessionMetadataPublisher Map.empty sample_host sample_sources"]]
  have "length (snd (startSessionMetadataPublisher Map.empty sample_host sample_sources)
      @ snd (metadata_run Map.empty sample_host (fst (startSessionMetadataPublisher Map.empty sample_host sample_sources)) ?es)) = 2"
    by (simp add: named_by_def buildFrame_def sample_sources_def sample_host_def)
  moreover have "length (snd (startSessionMetadataPublisher Map.empty sample_host sample_sources)) = 1"
    by (simp add: startSessionMetadataPublisher_def publish_def Let_def)
  ultimately show ?thesis by simp
qed

text \<open>A handle of a spawned agent is the one it was given; a top-level session's is derived from its id.\<close>

lemma identity_handle:
  assumes "deriveDaemonIdentity other handle penv ctx workspace mode = Inr d"
  shows "di_agent_handle d = (case or_none (map_option trim (penv ''BASECAMP_AGENT_HANDLE'')) of
      Some h \<Rightarrow> if 0 < di_depth d then h else projr (handle (di_node_id d)) | None \<Rightarrow> projr (handle (di_node_id d)))"
  using assms by (auto simp: deriveDaemonIdentity_def Let_def rbind_def split: sum.splits option.splits if_splits)

end
