(* ===== verification/PeerDelivery.thy ===== *)
theory PeerDelivery
  imports HubIdentity AgentLaunch
begin

text \<open>
  Messages of other agents (\<open>pi/core/swarm/agents/delivery.ts\<close>) and the wiring of a session's agent
  surfaces on each connection (\<open>surfaces.ts\<close>). Connections, handlers and widgets are named by numbers;
  the connect state survives a reload of the extension.
\<close>

section \<open>A delivery\<close>

record delivery_frame =
  df_message_id :: string
  df_message :: string
  df_interrupt :: bool
  df_from_handle :: "string option"
  df_from_product_role :: "string option"
  df_from_relation :: string

definition relationDisplayLabel :: "string \<Rightarrow> string option" where
  "relationDisplayLabel relation = (if relation = ''unknown'' then None else Some relation)"

definition formatPeerMessageDeliveryContent :: "delivery_frame \<Rightarrow> string" where
  "formatPeerMessageDeliveryContent f =
     (let sender = or_default (sanitizeDisplayLabel (df_from_handle f) 80) ''a peer'';
          label = first_of (sanitizeDisplayLabel (df_from_product_role f) 48) (relationDisplayLabel (df_from_relation f));
          suffx = (case or_none label of Some l \<Rightarrow> '' ('' @ l @ '')'' | None \<Rightarrow> [])
      in ''Message from '' @ sender @ suffx @ '':'' @ [CHR 0x0A, CHR 0x0A] @ df_message f)"

datatype deliver_as = Steer | FollowUp

datatype delivery_effect =
    UserMessage string deliver_as "string option"
  | DeliveryAck string string "string option" bool

text \<open>
  What the host says when the message is handed over (\<open>Some\<close> the error it throws), and whether a send
  on the connection goes through; the promise of the delivery is not waited for.
\<close>

definition handlePeerMessageDelivery :: "string option \<Rightarrow> bool \<Rightarrow> delivery_frame \<Rightarrow> delivery_effect list" where
  "handlePeerMessageDelivery thrown writable f =
     UserMessage (formatPeerMessageDeliveryContent f) (if df_interrupt f then Steer else FollowUp) thrown #
     (case thrown of
        Some e \<Rightarrow> [DeliveryAck (df_message_id f) ''failed'' (Some e) writable]
      | None \<Rightarrow> [DeliveryAck (df_message_id f) ''queued'' None writable])"

section \<open>The wiring of a connection\<close>

text \<open>
  \<open>pd_handlers\<close> are the live delivery handlers, each on its connection; \<open>pd_unsubscribe\<close> the one the
  state can take off; \<open>pd_closers\<close> the close listeners of open connections; \<open>pd_widgets\<close> the running widgets.
\<close>

record connect_state =
  pd_handlers :: "(nat \<times> nat) list"
  pd_unsubscribe :: "(nat \<times> nat) option"
  pd_connection :: "nat option"
  pd_closers :: "nat list"
  pd_widgets :: "nat list"
  pd_widget :: "nat option"
  pd_next :: nat

definition connect_state_init :: connect_state where
  "connect_state_init = \<lparr>pd_handlers = [], pd_unsubscribe = None, pd_connection = None, pd_closers = [],
     pd_widgets = [], pd_widget = None, pd_next = 0\<rparr>"

definition take_off :: "connect_state \<Rightarrow> connect_state" where
  "take_off s = (case pd_unsubscribe s of None \<Rightarrow> s | Some h \<Rightarrow> s\<lparr>pd_handlers := filter (\<lambda>x. x \<noteq> h) (pd_handlers s)\<rparr>)"

definition registerPeerMessageDeliveryHandler :: "nat \<Rightarrow> connect_state \<Rightarrow> connect_state" where
  "registerPeerMessageDeliveryHandler c s =
     (let s1 = take_off s; h = (c, pd_next s1)
      in s1\<lparr>pd_handlers := pd_handlers s1 @ [h], pd_next := Suc (pd_next s1), pd_unsubscribe := Some h,
            pd_connection := Some c, pd_closers := pd_closers s1 @ [c]\<rparr>)"

definition delivery_closed :: "nat \<Rightarrow> connect_state \<Rightarrow> connect_state" where
  "delivery_closed c s = (if pd_connection s = Some c then s\<lparr>pd_unsubscribe := None, pd_connection := None\<rparr> else s)"

definition stop_widget :: "connect_state \<Rightarrow> connect_state" where
  "stop_widget s = (case pd_widget s of None \<Rightarrow> s | Some w \<Rightarrow> s\<lparr>pd_widgets := filter (\<lambda>x. x \<noteq> w) (pd_widgets s), pd_widget := None\<rparr>)"

text \<open>The listener of a connection, with the rights of the session, and the cleanup it returns.\<close>

definition agent_connected :: "bool \<Rightarrow> bool \<Rightarrow> nat \<Rightarrow> connect_state \<Rightarrow> connect_state" where
  "agent_connected isTopLevel hasUI c s =
     (let s1 = registerPeerMessageDeliveryHandler c (stop_widget s) in
      if isTopLevel \<and> hasUI
      then s1\<lparr>pd_widgets := pd_widgets s1 @ [pd_next s1], pd_widget := Some (pd_next s1), pd_next := Suc (pd_next s1)\<rparr>
      else s1)"

definition agent_cleanup :: "connect_state \<Rightarrow> connect_state" where
  "agent_cleanup s = stop_widget ((take_off s)\<lparr>pd_unsubscribe := None, pd_connection := None\<rparr>)"

text \<open>A connection that closes takes its handlers with it and calls its close listeners.\<close>

definition agent_connection_closed :: "nat \<Rightarrow> connect_state \<Rightarrow> connect_state" where
  "agent_connection_closed c s =
     (let s1 = s\<lparr>pd_handlers := filter (\<lambda>h. fst h \<noteq> c) (pd_handlers s), pd_closers := filter (\<lambda>x. x \<noteq> c) (pd_closers s)\<rparr>
      in if c \<in> set (pd_closers s) then delivery_closed c s1 else s1)"

datatype connect_event = AgentConnected bool bool nat | AgentCleanup | AgentConnectionClosed nat

fun connect_step :: "connect_state \<Rightarrow> connect_event \<Rightarrow> connect_state" where
  "connect_step s (AgentConnected isTopLevel hasUI c) = agent_connected isTopLevel hasUI c s"
| "connect_step s AgentCleanup = agent_cleanup s"
| "connect_step s (AgentConnectionClosed c) = agent_connection_closed c s"

section \<open>Which tools a session has\<close>

datatype agent_surface = DaemonTools | AskTool | PeerTools | CancelTool | ReporterHooks | ConnectWiring

definition registerAgentSurfaces :: "(string \<Rightarrow> int option) \<Rightarrow> env \<Rightarrow> agent_surface list" where
  "registerAgentSurfaces other penv =
     (let d = resolveAgentDepthState other penv; runId = or_none (penv ''BASECAMP_RUN_ID'');
          isDaemonSpawnedAgent = (\<not> ad_isTopLevel d \<and> runId \<noteq> None)
      in if \<not> ad_isTopLevel d \<and> \<not> isDaemonSpawnedAgent then []
         else (if ad_isTopLevel d \<and> \<not> ad_atMaxDepth d then [DaemonTools] else [])
            @ (if isDaemonSpawnedAgent \<and> \<not> ad_atMaxDepth d then [AskTool, PeerTools, CancelTool] else [])
            @ (if isDaemonSpawnedAgent \<and> or_none (penv ''BASECAMP_AGENT_ID'') \<noteq> None then [ReporterHooks] else [])
            @ [ConnectWiring])"

section \<open>One handler, one widget\<close>

definition wired :: "connect_state \<Rightarrow> bool" where
  "wired s \<longleftrightarrow> pd_handlers s = (case pd_unsubscribe s of None \<Rightarrow> [] | Some h \<Rightarrow> [h])
     \<and> pd_connection s = map_option fst (pd_unsubscribe s)
     \<and> pd_widgets s = (case pd_widget s of None \<Rightarrow> [] | Some w \<Rightarrow> [w])
     \<and> (\<forall>c. pd_connection s = Some c \<longrightarrow> c \<in> set (pd_closers s))"

lemma wired_step: "wired s \<Longrightarrow> wired (connect_step s e)"
  by (cases e)
    (auto simp: wired_def agent_connected_def agent_cleanup_def agent_connection_closed_def take_off_def stop_widget_def
      registerPeerMessageDeliveryHandler_def delivery_closed_def Let_def split: option.splits)

text \<open>
  C36. A message is delivered once. However connections, reloads, cleanups and closes follow one another, at
  most one delivery handler is live, on the connection the state names, and at most one widget runs; a
  connection event leaves exactly one handler, on its own connection; and the handler hands each frame to
  the host once and answers it once, \<open>queued\<close> exactly when the host took it.
\<close>

theorem peer_messages_delivered_once:
  "let s = foldl connect_step connect_state_init es in
    length (pd_handlers s) \<le> 1 \<and> length (pd_widgets s) \<le> 1 \<and> map fst (pd_handlers s) = (case pd_connection s of None \<Rightarrow> [] | Some c \<Rightarrow> [c])
    \<and> map fst (pd_handlers (connect_step s (AgentConnected isTop hasUI c))) = [c]
    \<and> (\<exists>ack. handlePeerMessageDelivery thrown writable f =
          [UserMessage (formatPeerMessageDeliveryContent f) (if df_interrupt f then Steer else FollowUp) thrown, ack]
        \<and> (ack = DeliveryAck (df_message_id f) ''queued'' None writable) = (thrown = None)
        \<and> (case ack of DeliveryAck i _ _ _ \<Rightarrow> i = df_message_id f | _ \<Rightarrow> False))"
proof -
  have "wired (foldl connect_step s0 es)" if "wired s0" for s0
    using that by (induction es arbitrary: s0) (auto intro: wired_step)
  moreover have "wired connect_state_init" by (simp add: wired_def connect_state_init_def)
  ultimately have w: "wired (foldl connect_step connect_state_init es)" (is "wired ?s") by blast
  have "map fst (pd_handlers (connect_step ?s (AgentConnected isTop hasUI c))) = [c]"
    using w by (auto simp: wired_def agent_connected_def take_off_def stop_widget_def registerPeerMessageDeliveryHandler_def
        Let_def split: option.splits)
  then show ?thesis using w
    by (auto simp: wired_def Let_def handlePeerMessageDelivery_def split: option.splits)
qed

end
