(* ===== verification/RunResult.thy ===== *)
theory RunResult
  imports SessionState NodePath
begin

text \<open>
  The result file of an agent's run (\<open>pi/core/swarm/agents/run-result.ts\<close>): one document per run with
  an entry per attempt, rewritten as a whole through a temporary file and a rename. Files hold
  JSON values, or text that does not parse; each call on the file system may fail.
\<close>

section \<open>The document\<close>

datatype run_status = RunOk | RunError

record run_attempt =
  at_attempt :: int
  at_status :: run_status
  at_result :: "string option"
  at_error :: "string option"

record final_result =
  fr_status :: run_status
  fr_result :: "string option"
  fr_error :: "string option"
  fr_retry_count :: int

record run_sidecar =
  rs_run_id :: string
  rs_agent_id :: string
  rs_attempts :: "run_attempt list"
  rs_final :: "final_result option"

definition run_status_json :: "run_status \<Rightarrow> json" where
  "run_status_json s = JStr (case s of RunOk \<Rightarrow> ''ok'' | RunError \<Rightarrow> ''error'')"

definition attempt_json :: "run_attempt \<Rightarrow> json" where
  "attempt_json a = JObj [(''attempt'', JNum (IntNum (at_attempt a))), (''status'', run_status_json (at_status a)),
     (''result'', nullable JStr (at_result a)), (''error'', nullable JStr (at_error a))]"

definition final_json :: "final_result \<Rightarrow> json" where
  "final_json f = JObj [(''status'', run_status_json (fr_status f)), (''result'', nullable JStr (fr_result f)),
     (''error'', nullable JStr (fr_error f)), (''retry_count'', JNum (IntNum (fr_retry_count f)))]"

definition run_sidecar_json :: "run_sidecar \<Rightarrow> json" where
  "run_sidecar_json s = JObj [(''run_id'', JStr (rs_run_id s)), (''agent_id'', JStr (rs_agent_id s)),
     (''attempts'', JArr (map attempt_json (rs_attempts s))), (''final'', nullable final_json (rs_final s))]"

definition isRunResultStatus :: "json option \<Rightarrow> bool" where
  "isRunResultStatus v \<longleftrightarrow> v = Some (JStr ''ok'') \<or> v = Some (JStr ''error'')"

definition status_of :: "json option \<Rightarrow> run_status" where
  "status_of v = (if v = Some (JStr ''ok'') then RunOk else RunError)"

definition parseRunResultAttempt :: "json \<Rightarrow> run_attempt result" where
  "parseRunResultAttempt v =
     (if \<not> isRecord v \<or> \<not> is_integer (field v ''attempt'') \<or> \<not> isRunResultStatus (field v ''status'')
         \<or> \<not> is_nullable_string (field v ''result'') \<or> \<not> is_nullable_string (field v ''error'')
      then Inl ''invalid run result attempt''
      else Inr \<lparr>at_attempt = int_of (field v ''attempt''), at_status = status_of (field v ''status''),
        at_result = nullable_str_of (field v ''result''), at_error = nullable_str_of (field v ''error'')\<rparr>)"

definition parseFinalRunResult :: "json \<Rightarrow> final_result result" where
  "parseFinalRunResult v =
     (if \<not> isRecord v \<or> \<not> isRunResultStatus (field v ''status'') \<or> \<not> is_integer (field v ''retry_count'')
         \<or> \<not> is_nullable_string (field v ''result'') \<or> \<not> is_nullable_string (field v ''error'')
      then Inl ''invalid final run result''
      else Inr \<lparr>fr_status = status_of (field v ''status''), fr_result = nullable_str_of (field v ''result''),
        fr_error = nullable_str_of (field v ''error''), fr_retry_count = int_of (field v ''retry_count'')\<rparr>)"

text \<open>A document without the key \<open>final\<close> is not \<open>null\<close> there, and its reader refuses \<open>undefined\<close>.\<close>

definition parseRunResultSidecar :: "json \<Rightarrow> run_sidecar result" where
  "parseRunResultSidecar v =
     (case (field v ''run_id'', field v ''agent_id'', field v ''attempts'') of
        (Some (JStr runId), Some (JStr agentId), Some (JArr attempts)) \<Rightarrow>
          rbind (map_result parseRunResultAttempt attempts) (\<lambda>as.
          rbind (case field v ''final'' of
                   Some j \<Rightarrow> read_nullable parseFinalRunResult j | None \<Rightarrow> Inl ''invalid final run result'') (\<lambda>f.
            Inr \<lparr>rs_run_id = runId, rs_agent_id = agentId, rs_attempts = as, rs_final = f\<rparr>))
      | _ \<Rightarrow> Inl ''invalid run result sidecar'')"

interpretation attempt_codec: json_codec attempt_json parseRunResultAttempt "\<lambda>_. True"
  by unfold_locales
    (auto simp: attempt_json_def parseRunResultAttempt_def run_status_json_def isRunResultStatus_def status_of_def
      split: run_status.splits)

interpretation final_codec: json_codec final_json parseFinalRunResult "\<lambda>_. True"
  by unfold_locales
    (auto simp: final_json_def parseFinalRunResult_def run_status_json_def isRunResultStatus_def status_of_def
      split: run_status.splits)

lemma run_sidecar_read: "parseRunResultSidecar (run_sidecar_json s) = Inr s"
  using attempt_codec.dec_list [of "rs_attempts s"] final_codec.dec_nullable [of "rs_final s"]
  by (simp add: parseRunResultSidecar_def run_sidecar_json_def option.pred_True)

interpretation run_sidecar_codec: json_codec run_sidecar_json parseRunResultSidecar "\<lambda>_. True"
  by unfold_locales (simp_all add: run_sidecar_read, simp add: run_sidecar_json_def)

section \<open>The file\<close>

text \<open>What a path holds: nothing, text that is not JSON (with the error of reading it), or a value.\<close>

type_synonym run_files = "string \<Rightarrow> json result option"

text \<open>The calls on the file system, and the error with which each is refused.\<close>

datatype run_fs_call = ReadFile string | MakeDir string | WriteTemp string | RenameTo string string

type_synonym run_refusals = "run_fs_call \<Rightarrow> string option"

definition run_call :: "run_refusals \<Rightarrow> run_fs_call \<Rightarrow> (run_files, unit) io" where
  "run_call refuse c = (case refuse c of Some e \<Rightarrow> io_throw e | None \<Rightarrow> io_return ())"

definition resolveRunResultPath :: "string \<Rightarrow> string \<Rightarrow> string \<Rightarrow> string" where
  "resolveRunResultPath agentsDir agentId runId = path_join [agentsDir, agentId, ''runs'', runId, ''result.json'']"

text \<open>The only error that is not passed on is that the file is not there.\<close>

definition readRunResultSidecar :: "run_refusals \<Rightarrow> string \<Rightarrow> (run_files, run_sidecar option) io" where
  "readRunResultSidecar refuse filePath =
     io_bind (run_call refuse (ReadFile filePath)) (\<lambda>_. \<lambda>w.
       case w filePath of
         None \<Rightarrow> (Inr None, w)
       | Some raw \<Rightarrow> (rbind raw (\<lambda>v. rbind (parseRunResultSidecar v) (\<lambda>s. Inr (Some s))), w))"

text \<open>The directory is not looked at by the model; the temporary name is drawn by the caller's platform.\<close>

definition writeRunResultSidecar :: "run_refusals \<Rightarrow> string \<Rightarrow> string \<Rightarrow> run_sidecar \<Rightarrow> (run_files, unit) io" where
  "writeRunResultSidecar refuse tempName filePath sidecar =
     (let directory = dirname filePath; tempPath = path_join [directory, tempName] in
      io_bind (run_call refuse (MakeDir directory)) (\<lambda>_.
      io_bind (run_call refuse (WriteTemp tempPath)) (\<lambda>_.
      io_bind (\<lambda>w. (Inr (), w(tempPath \<mapsto> Inr (run_sidecar_json sidecar)))) (\<lambda>_.
      io_bind (run_call refuse (RenameTo tempPath filePath)) (\<lambda>_.
        \<lambda>w. (Inr (), w(filePath := w tempPath, tempPath := None)))))))"

definition set_attempt :: "run_attempt \<Rightarrow> run_attempt list \<Rightarrow> run_attempt list" where
  "set_attempt a as =
     (case find_index (\<lambda>x. at_attempt x = at_attempt a) as of
        Some i \<Rightarrow> as[i := a]
      | None \<Rightarrow> sort_key at_attempt (as @ [a]))"

definition upsertRunResultAttempt ::
  "run_refusals \<Rightarrow> string \<Rightarrow> string \<Rightarrow> string \<times> string \<Rightarrow> run_attempt \<Rightarrow> (run_files, run_sidecar) io" where
  "upsertRunResultAttempt refuse tempName filePath ids a =
     io_bind (readRunResultSidecar refuse filePath) (\<lambda>existing.
       let sidecar = (case existing of Some s \<Rightarrow> s
             | None \<Rightarrow> \<lparr>rs_run_id = fst ids, rs_agent_id = snd ids, rs_attempts = [], rs_final = None\<rparr>) in
       if rs_run_id sidecar \<noteq> fst ids \<or> rs_agent_id sidecar \<noteq> snd ids then io_throw ''run result sidecar metadata mismatch''
       else let sidecar' = sidecar\<lparr>rs_attempts := set_attempt a (rs_attempts sidecar)\<rparr> in
         io_bind (writeRunResultSidecar refuse tempName filePath sidecar') (\<lambda>_. io_return sidecar'))"

section \<open>The file refines a map of attempts\<close>

definition temp_path :: "string \<Rightarrow> string \<Rightarrow> string" where
  "temp_path filePath tempName = path_join [dirname filePath, tempName]"

type_synonym upsert_call = "run_refusals \<times> string \<times> run_attempt"

text \<open>The calls an upsert makes were all answered.\<close>

definition accepted :: "string \<Rightarrow> upsert_call \<Rightarrow> bool" where
  "accepted f = (\<lambda>(refuse, tempName, a). let t = temp_path f tempName in
     list_all (\<lambda>c. refuse c = None) [ReadFile f, MakeDir (dirname f), WriteTemp t, RenameTo t f])"

definition run_upserts :: "string \<Rightarrow> string \<times> string \<Rightarrow> upsert_call list \<Rightarrow> run_files \<Rightarrow> run_files" where
  "run_upserts f ids us w = foldl (\<lambda>w (refuse, tempName, a). snd (upsertRunResultAttempt refuse tempName f ids a w)) w us"

text \<open>The attempts of a document, and of the file.\<close>

definition attempt_map :: "run_attempt list \<Rightarrow> int \<rightharpoonup> run_attempt" where
  "attempt_map as = map_of (map (\<lambda>a. (at_attempt a, a)) as)"

definition attempts_in :: "run_files \<Rightarrow> string \<Rightarrow> run_attempt list" where
  "attempts_in w f = (case w f of
     Some (Inr v) \<Rightarrow> (case parseRunResultSidecar v of Inr s \<Rightarrow> rs_attempts s | Inl _ \<Rightarrow> []) | _ \<Rightarrow> [])"

abbreviation ascending :: "run_attempt list \<Rightarrow> bool" where
  "ascending as \<equiv> sorted_wrt (<) (map at_attempt as)"

lemma ascending_sorted: "ascending as \<longleftrightarrow> sorted (map at_attempt as) \<and> distinct (map at_attempt as)"
  by (rule strict_sorted_iff)

lemma attempt_map_distinct:
  assumes "distinct (map at_attempt as)"
  shows "attempt_map as k = Some a \<longleftrightarrow> a \<in> set as \<and> at_attempt a = k"
  using assms by (auto simp: attempt_map_def map_of_eq_Some_iff comp_def)

lemma set_attempt_ascending: "ascending as \<Longrightarrow> ascending (set_attempt a as)"
proof (cases "find_index (\<lambda>x. at_attempt x = at_attempt a) as")
  case None
  assume "ascending as"
  then have "distinct (map at_attempt (as @ [a]))"
    using None by (auto simp: ascending_sorted find_index_None)
  then have "distinct (map at_attempt (sort_key at_attempt (as @ [a])))"
    by (simp only: distinct_map distinct_sort set_sort)
  then show ?thesis by (simp add: ascending_sorted set_attempt_def None)
next
  case (Some i)
  assume "ascending as"
  moreover have "map at_attempt (as[i := a]) = map at_attempt as"
    using find_index_Some [OF Some] by (metis list_update_id map_update nth_map)
  ultimately show ?thesis by (simp add: set_attempt_def Some)
qed

lemma attempt_map_set_attempt:
  assumes "ascending as"
  shows "attempt_map (set_attempt a as) = (attempt_map as)(at_attempt a \<mapsto> a)"
proof
  fix k
  note asc = assms set_attempt_ascending [OF assms, of a]
  have mem: "x \<in> set (set_attempt a as) \<longleftrightarrow> x = a \<or> x \<in> set as \<and> at_attempt x \<noteq> at_attempt a" for x
  proof (cases "find_index (\<lambda>x. at_attempt x = at_attempt a) as")
    case None
    moreover from this have "\<forall>y \<in> set as. at_attempt y \<noteq> at_attempt a" by (simp add: find_index_None)
    ultimately show ?thesis by (auto simp: set_attempt_def)
  next
    case (Some i)
    then have i: "i < length as" "at_attempt (as ! i) = at_attempt a" using find_index_Some by auto
    have d: "distinct as" "inj_on at_attempt (set as)" using assms by (simp_all add: ascending_sorted distinct_map)
    then have "set (as[i := a]) = insert a (set as - {as ! i})" using i(1) by (intro set_update_distinct)
    moreover have "x \<in> set as \<Longrightarrow> at_attempt x = at_attempt a \<longleftrightarrow> x = as ! i"
      using i d(2) by (metis inj_on_def nth_mem)
    ultimately show ?thesis by (auto simp: set_attempt_def Some)
  qed
  have "attempt_map (set_attempt a as) k = Some x \<longleftrightarrow> ((attempt_map as)(at_attempt a \<mapsto> a)) k = Some x" for x
    using asc mem by (auto simp: ascending_sorted attempt_map_distinct)
  then show "attempt_map (set_attempt a as) k = ((attempt_map as)(at_attempt a \<mapsto> a)) k"
    by (metis option.exhaust)
qed

text \<open>What the file holds while only upserts of one run write it.\<close>

definition run_file_ok :: "string \<Rightarrow> string \<times> string \<Rightarrow> run_files \<Rightarrow> bool" where
  "run_file_ok f ids w \<longleftrightarrow> w f = None \<or>
     (\<exists>s. w f = Some (Inr (run_sidecar_json s)) \<and> (rs_run_id s, rs_agent_id s) = ids \<and> ascending (rs_attempts s))"

lemma attempts_in_simps:
  "w f = None \<Longrightarrow> attempts_in w f = []"
  "w f = Some (Inr (run_sidecar_json s)) \<Longrightarrow> attempts_in w f = rs_attempts s"
  by (simp_all add: attempts_in_def run_sidecar_codec.dec_enc)

lemma read_own:
  assumes "run_file_ok f ids w"
  obtains "refuse (ReadFile f) \<noteq> None" "\<And>e. refuse (ReadFile f) = Some e \<Longrightarrow> readRunResultSidecar refuse f w = (Inl e, w)"
  | s where "refuse (ReadFile f) = None" "ascending (rs_attempts s)" "rs_attempts s = attempts_in w f"
      "(rs_run_id s, rs_agent_id s) = ids"
      "readRunResultSidecar refuse f w = (Inr (if w f = None then None else Some s), w)"
      "w f = None \<Longrightarrow> s = \<lparr>rs_run_id = fst ids, rs_agent_id = snd ids, rs_attempts = [], rs_final = None\<rparr>"
proof (cases "refuse (ReadFile f)")
  case (Some e)
  then show ?thesis by (intro that(1)) (simp_all add: readRunResultSidecar_def run_call_def io_simps)
next
  case None
  show ?thesis
  proof (cases "w f = None")
    case True
    with None show ?thesis
      by (intro that(2) [of "\<lparr>rs_run_id = fst ids, rs_agent_id = snd ids, rs_attempts = [], rs_final = None\<rparr>"])
        (simp_all add: readRunResultSidecar_def run_call_def io_simps attempts_in_simps)
  next
    case False
    then obtain s where "w f = Some (Inr (run_sidecar_json s))" "(rs_run_id s, rs_agent_id s) = ids" "ascending (rs_attempts s)"
      using assms by (auto simp: run_file_ok_def)
    with None show ?thesis
      by (intro that(2) [of s])
        (simp_all add: readRunResultSidecar_def run_call_def io_simps attempts_in_simps run_sidecar_codec.dec_enc)
  qed
qed

lemma write_sidecar:
  assumes "temp_path f tempName \<noteq> f"
  shows "writeRunResultSidecar refuse tempName f s w =
    (let t = temp_path f tempName in
     case refuse (MakeDir (dirname f)) of Some e \<Rightarrow> (Inl e, w)
     | None \<Rightarrow> (case refuse (WriteTemp t) of Some e \<Rightarrow> (Inl e, w)
     | None \<Rightarrow> (case refuse (RenameTo t f) of Some e \<Rightarrow> (Inl e, w(t \<mapsto> Inr (run_sidecar_json s)))
     | None \<Rightarrow> (Inr (), w(f \<mapsto> Inr (run_sidecar_json s), t := None)))))"
  using assms
  by (auto simp: writeRunResultSidecar_def temp_path_def run_call_def io_simps Let_def fun_upd_twist split: option.split)

lemma upsert_step:
  assumes ok: "run_file_ok f ids w" and temp: "temp_path f tempName \<noteq> f"
  shows "run_file_ok f ids (snd (upsertRunResultAttempt refuse tempName f ids a w))" (is "run_file_ok f ids ?w'")
    and "attempts_in (snd (upsertRunResultAttempt refuse tempName f ids a w)) f =
       (if accepted f (refuse, tempName, a) then set_attempt a (attempts_in w f) else attempts_in w f)"
proof -
  have "run_file_ok f ids ?w' \<and> attempts_in ?w' f =
       (if accepted f (refuse, tempName, a) then set_attempt a (attempts_in w f) else attempts_in w f)"
  proof (rule read_own [OF ok, of refuse])
    assume "refuse (ReadFile f) \<noteq> None" "\<And>e. refuse (ReadFile f) = Some e \<Longrightarrow> readRunResultSidecar refuse f w = (Inl e, w)"
    then show ?thesis using ok by (auto simp: upsertRunResultAttempt_def io_simps accepted_def Let_def)
  next
    fix s
    assume s: "refuse (ReadFile f) = None" "ascending (rs_attempts s)" "rs_attempts s = attempts_in w f"
      "(rs_run_id s, rs_agent_id s) = ids"
      "readRunResultSidecar refuse f w = (Inr (if w f = None then None else Some s), w)"
      "w f = None \<Longrightarrow> s = \<lparr>rs_run_id = fst ids, rs_agent_id = snd ids, rs_attempts = [], rs_final = None\<rparr>"
    let ?s = "s\<lparr>rs_attempts := set_attempt a (rs_attempts s)\<rparr>"
    have "?w' = snd (writeRunResultSidecar refuse tempName f ?s w)"
      using s(4-6) by (auto simp: upsertRunResultAttempt_def io_simps Let_def split: prod.split sum.split)
    moreover have "run_file_ok f ids (w(f \<mapsto> Inr (run_sidecar_json ?s), t := None))"
      "attempts_in (w(f \<mapsto> Inr (run_sidecar_json ?s), t := None)) f = set_attempt a (attempts_in w f)" if "t \<noteq> f" for t
      using that s(2,4) set_attempt_ascending [OF s(2), of a]
      by (auto simp: run_file_ok_def attempts_in_simps(2) [where s = ?s] s(3))
    moreover have "run_file_ok f ids (w(t \<mapsto> x))" "attempts_in (w(t \<mapsto> x)) f = attempts_in w f" if "t \<noteq> f" for t x
      using that ok by (auto simp: run_file_ok_def attempts_in_def)
    ultimately show ?thesis
      using s(1) temp ok by (auto simp: write_sidecar [OF temp] accepted_def Let_def split: option.split)
  qed
  then show "run_file_ok f ids ?w'" "attempts_in ?w' f =
       (if accepted f (refuse, tempName, a) then set_attempt a (attempts_in w f) else attempts_in w f)" by auto
qed

text \<open>
  C37. The result file of a run refines a map from attempts to outcomes. When only upserts of one run
  write the file, starting without one, then after any sequence of upserts, whatever calls on the
  file system are refused on the way: the file is absent or a well-formed document of that run, its
  attempts are those of the upserts all of whose calls were answered, the last one for each attempt,
  strictly ascending, and an upsert that fails leaves the document as it was.
\<close>

theorem run_result_refines_attempts:
  assumes "w f = None" and "\<forall>(refuse, tempName, a) \<in> set us. temp_path f tempName \<noteq> f"
  shows "run_file_ok f ids (run_upserts f ids us w)
    \<and> attempt_map (attempts_in (run_upserts f ids us w) f) =
      foldl (\<lambda>m (refuse, tempName, a). if accepted f (refuse, tempName, a) then m(at_attempt a \<mapsto> a) else m) Map.empty us
    \<and> ascending (attempts_in (run_upserts f ids us w) f)"
proof -
  let ?spec = "foldl (\<lambda>m (refuse, tempName, a). if accepted f (refuse, tempName, a) then m(at_attempt a \<mapsto> a) else m)"
  have asc: "run_file_ok f ids v \<Longrightarrow> ascending (attempts_in v f)" for v
    by (auto simp: run_file_ok_def attempts_in_simps)
  have "run_file_ok f ids v \<Longrightarrow> run_file_ok f ids (run_upserts f ids us v)
      \<and> attempt_map (attempts_in (run_upserts f ids us v) f) = ?spec (attempt_map (attempts_in v f)) us" for v
    using assms(2)
  proof (induction us arbitrary: v)
    case Nil
    then show ?case by (simp add: run_upserts_def)
  next
    case (Cons u us)
    obtain refuse tempName a where u: "u = (refuse, tempName, a)" by (cases u)
    let ?v = "snd (upsertRunResultAttempt refuse tempName f ids a v)"
    have temp: "temp_path f tempName \<noteq> f" and us: "\<forall>(refuse, tempName, a) \<in> set us. temp_path f tempName \<noteq> f"
      using Cons.prems(2) by (auto simp: u)
    note step = upsert_step [OF Cons.prems(1) temp, of refuse a]
    have "attempt_map (attempts_in ?v f) =
        (if accepted f u then (attempt_map (attempts_in v f))(at_attempt a \<mapsto> a) else attempt_map (attempts_in v f))"
      using step(2) attempt_map_set_attempt [OF asc [OF Cons.prems(1)], of a] by (simp add: u)
    moreover have "run_upserts f ids (u # us) v = run_upserts f ids us ?v" by (simp add: run_upserts_def u)
    ultimately show ?case using Cons.IH [OF step(1) us] by (simp add: u)
  qed
  from this [of w] assms(1) show ?thesis
    by (auto simp: run_file_ok_def attempts_in_simps attempt_map_def)
qed

text \<open>Two attempts and a repeated one, with the second write refused.\<close>

definition sample_attempt :: "int \<Rightarrow> string \<Rightarrow> run_attempt" where
  "sample_attempt n r = \<lparr>at_attempt = n, at_status = RunOk, at_result = Some r, at_error = None\<rparr>"

definition sample_upserts :: "upsert_call list" where
  "sample_upserts =
     [(\<lambda>_. None, ''.r.1.tmp'', sample_attempt 2 ''b''), (\<lambda>_. None, ''.r.2.tmp'', sample_attempt 1 ''a''),
      (\<lambda>c. case c of RenameTo _ _ \<Rightarrow> Some ''EPERM'' | _ \<Rightarrow> None, ''.r.3.tmp'', sample_attempt 1 ''lost''),
      (\<lambda>_. None, ''.r.4.tmp'', sample_attempt 2 ''c'')]"

lemma sample_temp_paths: "\<forall>(refuse, tempName, a) \<in> set sample_upserts. temp_path ''/r/result.json'' tempName \<noteq> ''/r/result.json''"
  by (simp add: sample_upserts_def temp_path_def) code_simp

theorem run_result_refines_attempts_witness:
  "attempt_map (attempts_in (run_upserts ''/r/result.json'' (''run'', ''agent'') sample_upserts Map.empty) ''/r/result.json'')
     = [2 \<mapsto> sample_attempt 2 ''c'', 1 \<mapsto> sample_attempt 1 ''a'']"
  using run_result_refines_attempts [of Map.empty "''/r/result.json''" sample_upserts "(''run'', ''agent'')", OF refl sample_temp_paths]
  by (auto simp: sample_upserts_def accepted_def Let_def sample_attempt_def)

end
