(* ===== verification/Reporter.thy ===== *)
theory Reporter
  imports RunResult
begin

text \<open>
  The reporter of a dispatched run (\<open>pi/core/swarm/agents/event-summaries.ts\<close>, \<open>reporter.ts\<close>): what is
  read off the host's events, and what is told to the hub as the run goes on. Events are JSON
  values; the telemetry a handler sends is its output.
\<close>

section \<open>Reading events\<close>

definition DISPLAY_TEXT_LIMIT :: nat where "DISPLAY_TEXT_LIMIT = 240"

definition TOOL_SUMMARY_KEYS :: "string list" where
  "TOOL_SUMMARY_KEYS = [''path'', ''file'', ''target'', ''command'', ''query'', ''pattern'', ''name'', ''agent'']"

text \<open>\<open>String(v)\<close> of a string, a number or a boolean.\<close>

fun primitive_text :: "json option \<Rightarrow> string option" where
  "primitive_text (Some (JStr s)) = Some s"
| "primitive_text (Some (JNum (IntNum n))) = Some (show_int n)"
| "primitive_text (Some (JNum (OtherNum s))) = Some s"
| "primitive_text (Some (JBool b)) = Some (if b then ''true'' else ''false'')"
| "primitive_text _ = None"

definition filled_text :: "string \<Rightarrow> string option" where
  "filled_text s = (if s = [] then None else Some s)"

definition displayText :: "json option \<Rightarrow> string option" where
  "displayText value =
     (case primitive_text value of None \<Rightarrow> None
      | Some s \<Rightarrow> map_option (shorten DISPLAY_TEXT_LIMIT) (filled_text (collapse_ws s)))"

definition messageText :: "string \<Rightarrow> string option" where
  "messageText value = filled_text (trim value)"

fun safeString :: "json option \<Rightarrow> string option" where
  "safeString (Some (JStr s)) = filled_text (trim s)"
| "safeString _ = None"

text \<open>\<open>asRecord(v)?.k\<close>: the field of a record, \<open>undefined\<close> of anything else, which is what \<open>field\<close> gives.\<close>

fun record_field :: "json option \<Rightarrow> string \<Rightarrow> json option" where
  "record_field (Some v) k = field v k"
| "record_field None k = None"

definition is_text_part :: "json \<Rightarrow> bool" where
  "is_text_part part \<longleftrightarrow> field part ''type'' = Some (JStr ''text'') \<and> is_string (field part ''text'')"

fun extractTextFromContent :: "json option \<Rightarrow> string" where
  "extractTextFromContent (Some (JStr s)) = s"
| "extractTextFromContent (Some (JArr parts)) =
     join [CHR 0x0A] (map (\<lambda>part. str_of (field part ''text'')) (filter is_text_part parts))"
| "extractTextFromContent _ = []"

fun extractLastAssistantMessage :: "json option \<Rightarrow> string" where
  "extractLastAssistantMessage (Some (JArr messages)) =
     foldl (\<lambda>latest message.
       if field message ''role'' \<noteq> Some (JStr ''assistant'') then latest
       else (let text = extractTextFromContent (field message ''content'') in if text = [] then latest else text))
       [] messages"
| "extractLastAssistantMessage _ = []"

text \<open>\<open>a ?? b ?? ...\<close>\<close>

fun first_present :: "json option list \<Rightarrow> json option" where
  "first_present [] = None"
| "first_present (v # vs) = (if v = None \<or> v = Some JNull then first_present vs else v)"

fun first_text :: "string option list \<Rightarrow> string option" where
  "first_text [] = None"
| "first_text (v # vs) = (if v = None then first_text vs else v)"

definition extractToolName :: "json \<Rightarrow> string option" where
  "extractToolName event = first_text (map (\<lambda>k. safeString (field event k)) [''toolName'', ''tool_name'', ''name''])"

definition extractToolInput :: "json \<Rightarrow> json option" where
  "extractToolInput event = first_present (map (field event) [''args'', ''input'', ''parameters'', ''toolInput''])"

definition extractSkillName :: "string option \<Rightarrow> json option \<Rightarrow> string option" where
  "extractSkillName toolName inp = (if toolName \<noteq> Some ''skill'' then None else safeString (record_field inp ''name''))"

definition summarizeNamedValue :: "string \<Rightarrow> json option \<Rightarrow> string option" where
  "summarizeNamedValue name value = map_option (\<lambda>text. name @ '' '' @ text) (displayText value)"

fun first_summary :: "string option \<Rightarrow> json \<Rightarrow> string list \<Rightarrow> string option" where
  "first_summary toolName args [] = map_option (\<lambda>t. t @ '' called'') toolName"
| "first_summary toolName args (k # ks) =
     (case displayText (field args k) of
        Some text \<Rightarrow> Some (case toolName of Some t \<Rightarrow> t @ '' '' @ text | None \<Rightarrow> text)
      | None \<Rightarrow> first_summary toolName args ks)"

definition either_field :: "json \<Rightarrow> string \<Rightarrow> string \<Rightarrow> json option" where
  "either_field args k k' = first_present [field args k, field args k']"

definition present_texts :: "string option list \<Rightarrow> string list" where
  "present_texts vs = List.map_filter id vs"

definition summarizeToolInput :: "string option \<Rightarrow> json option \<Rightarrow> string option" where
  "summarizeToolInput toolName inp =
     (case inp of
        Some (JObj kvs) \<Rightarrow>
          (let args = JObj kvs in
           if toolName = Some ''read'' then summarizeNamedValue ''read'' (either_field args ''path'' ''file'')
           else if toolName = Some ''bash'' then summarizeNamedValue ''bash'' (field args ''command'')
           else if toolName = Some ''edit'' then summarizeNamedValue ''edit'' (either_field args ''path'' ''file'')
           else if toolName = Some ''write'' then summarizeNamedValue ''write'' (either_field args ''path'' ''file'')
           else if toolName = Some ''ls'' then summarizeNamedValue ''ls'' (either_field args ''path'' ''cwd'')
           else if toolName = Some ''grep'' \<or> toolName = Some ''rg''
             then summarizeNamedValue (the toolName) (either_field args ''pattern'' ''query'')
           else if toolName = Some ''dispatch_agent''
             then (let parts = ''dispatch'' # present_texts [displayText (field args ''agent''), displayText (field args ''name'')]
                   in Some (if length parts > 1 then join '' '' parts else ''dispatch agent''))
           else first_summary toolName args TOOL_SUMMARY_KEYS)
      | _ \<Rightarrow> None)"

definition first_string :: "json \<Rightarrow> string list \<Rightarrow> string" where
  "first_string payload ks =
     (case find (\<lambda>k. is_string (field payload k)) ks of Some k \<Rightarrow> str_of (field payload k) | None \<Rightarrow> [])"

definition extractResultText :: "json option \<Rightarrow> string" where
  "extractResultText result =
     (case result of
        Some (JStr s) \<Rightarrow> s
      | Some (JObj kvs) \<Rightarrow>
          (let contentText = extractTextFromContent (field (JObj kvs) ''content'')
           in if contentText \<noteq> [] then contentText
              else first_string (JObj kvs) [''text'', ''message'', ''error'', ''stdout'', ''stderr'', ''result'', ''preview''])
      | _ \<Rightarrow> [])"

text \<open>An event that is not a record has no payload.\<close>

definition summarizeToolResult :: "json \<Rightarrow> bool option \<Rightarrow> string" where
  "summarizeToolResult event isError =
     (let result = first_present (map (field event) [''result'', ''partialResult'', ''output'', ''details'']
                     @ [if isRecord event then Some event else None])
      in case displayText (Some (JStr (extractResultText result))) of
           Some snippet \<Rightarrow> if isError = Some True then ''error: '' @ snippet else snippet
         | None \<Rightarrow> if isError = Some True then ''error'' else ''completed'')"

definition type_of :: "json \<Rightarrow> string option" where
  "type_of v = map_option toLowerCase (safeString (field v ''type''))"

definition type_says_thinking :: "string option \<Rightarrow> bool" where
  "type_says_thinking t \<longleftrightarrow> (case t of Some s \<Rightarrow> str_includes s ''thinking'' \<or> str_includes s ''reasoning'' | None \<Rightarrow> False)"

lemma size_map_of: "map_of kvs k = Some x \<Longrightarrow> size x \<le> size_list (size_prod (\<lambda>_. 0) size) kvs"
  by (induction kvs) (auto split: if_splits)

function eventHasThinking :: "json \<Rightarrow> bool" where
  "eventHasThinking v =
     (case v of
        JArr xs \<Rightarrow> list_ex eventHasThinking xs
      | JObj kvs \<Rightarrow>
          type_says_thinking (type_of v)
          \<or> field v ''thinking'' \<noteq> None \<or> field v ''thinking_delta'' \<noteq> None \<or> field v ''thinkingDelta'' \<noteq> None
          \<or> (case field v ''delta'' of Some x \<Rightarrow> eventHasThinking x | None \<Rightarrow> False)
          \<or> (case field v ''content'' of Some x \<Rightarrow> eventHasThinking x | None \<Rightarrow> False)
          \<or> (case field v ''message'' of Some x \<Rightarrow> eventHasThinking x | None \<Rightarrow> False)
      | _ \<Rightarrow> False)"
  by pat_completeness auto
termination
  by (relation "measure size") (auto simp: less_Suc_eq_le size_map_of intro: size_list_estimation')

declare eventHasThinking.simps [simp del]

definition extractMessageRole :: "json \<Rightarrow> string option" where
  "extractMessageRole event =
     first_text [safeString (record_field (field event ''message'') ''role''), safeString (field event ''role'')]"

definition delta_text :: "json \<Rightarrow> string" where
  "delta_text delta =
     (let content = extractTextFromContent (field delta ''content'')
      in if content \<noteq> [] then content else str_of (field delta ''text''))"

text \<open>The text after the type, the plain deltas and the structured delta have been looked at.\<close>

definition visible_rest :: "json \<Rightarrow> string" where
  "visible_rest payload =
     (case field payload ''message'' of
        Some (JObj m) \<Rightarrow> extractTextFromContent (field (JObj m) ''content'')
      | _ \<Rightarrow> (let contentText = extractTextFromContent (field payload ''content'')
             in if contentText \<noteq> [] then contentText else str_of (field payload ''text'')))"

definition extractVisibleTextFromMessageEvent :: "json \<Rightarrow> string" where
  "extractVisibleTextFromMessageEvent payload =
     (if \<not> isRecord payload \<or> type_says_thinking (type_of payload) then []
      else if str_of (field payload ''text_delta'') \<noteq> [] then str_of (field payload ''text_delta'')
      else if str_of (field payload ''textDelta'') \<noteq> [] then str_of (field payload ''textDelta'')
      else case field payload ''delta'' of
        Some (JObj d) \<Rightarrow>
          (let delta = JObj d; deltaType = type_of delta in
           if type_says_thinking deltaType then []
           else if (deltaType = None \<or> deltaType = Some ''text'' \<or> deltaType = Some ''text_delta'') \<and> delta_text delta \<noteq> []
           then delta_text delta
           else visible_rest payload)
      | _ \<Rightarrow> visible_rest payload)"

section \<open>The handlers\<close>

record reporter =
  rp_assistantBuffer :: string
  rp_thinkingReported :: bool
  rp_activeMessageRole :: "string option"

definition fresh_reporter :: reporter where
  "fresh_reporter = \<lparr>rp_assistantBuffer = [], rp_thinkingReported = False, rp_activeMessageRole = None\<rparr>"

text \<open>A telemetry frame: its kind and the payload's fields.\<close>

type_synonym telemetry = "string \<times> (string \<times> json) list"

datatype run_event =
    ToolStart json
  | ToolEnd json
  | MessageStart json
  | MessageUpdate json
  | MessageEnd json
  | TurnEnd json

definition jstr_or_null :: "string option \<Rightarrow> json" where
  "jstr_or_null v = nullable JStr v"

definition tool_label :: "string option \<Rightarrow> string" where
  "tool_label toolName = (case toolName of Some t \<Rightarrow> t | None \<Rightarrow> ''tool'')"

definition tool_started :: "json \<Rightarrow> telemetry list" where
  "tool_started event =
     (let toolName = extractToolName event; inp = extractToolInput event;
          snippet = (case summarizeToolInput toolName inp of Some s \<Rightarrow> s | None \<Rightarrow> tool_label toolName @ '' called'')
      in [(''tool_execution_start'',
            [(''toolCallId'', jstr_or_null (safeString (field event ''toolCallId''))), (''toolName'', jstr_or_null toolName)]),
          (''tool_call'',
            [(''category'', JStr ''tool''), (''label'', JStr (tool_label toolName)), (''snippet'', JStr snippet),
             (''toolName'', jstr_or_null toolName)]
            @ (case extractSkillName toolName inp of Some n \<Rightarrow> [(''skillName'', JStr n)] | None \<Rightarrow> []))])"

definition tool_ended :: "json \<Rightarrow> telemetry list" where
  "tool_ended event =
     (let toolName = extractToolName event;
          isError = (if is_boolean (field event ''isError'') then Some (bool_of (field event ''isError'')) else None);
          err = nullable JBool isError
      in [(''tool_execution_end'',
            [(''toolCallId'', jstr_or_null (safeString (field event ''toolCallId''))), (''toolName'', jstr_or_null toolName),
             (''isError'', err)]),
          (''tool_result'',
            [(''category'', JStr ''tool''), (''label'', JStr (tool_label toolName)),
             (''snippet'', JStr (summarizeToolResult event isError)), (''toolName'', jstr_or_null toolName), (''isError'', err)])])"

text \<open>The ellipsis of the marker's snippet is the one of \<open>Prelude\<close>.\<close>

definition thinking_marker :: telemetry where
  "thinking_marker = (''thinking'',
     [(''category'', JStr ''assistant''), (''label'', JStr ''thinking''), (''snippet'', JStr (''thinking'' @ [ellipsis]))])"

definition sendThinkingMarker :: "reporter \<Rightarrow> reporter \<times> telemetry list" where
  "sendThinkingMarker r = (if rp_thinkingReported r then (r, []) else (r\<lparr>rp_thinkingReported := True\<rparr>, [thinking_marker]))"

definition assistant_output :: "string \<Rightarrow> string \<Rightarrow> telemetry" where
  "assistant_output snippet text = (''assistant_output'',
     [(''category'', JStr ''assistant''), (''label'', JStr ''assistant''), (''snippet'', JStr snippet), (''text'', JStr text)])"

definition flushAssistantOutput :: "reporter \<Rightarrow> reporter \<times> telemetry list" where
  "flushAssistantOutput r =
     (let text = messageText (rp_assistantBuffer r); r' = r\<lparr>rp_assistantBuffer := []\<rparr> in
      case text of
        None \<Rightarrow> (r', [])
      | Some t \<Rightarrow> (case displayText (Some (JStr t)) of
            None \<Rightarrow> (r', [])
          | Some snippet \<Rightarrow> (r', [assistant_output snippet t])))"

definition think_if :: "json \<Rightarrow> reporter \<Rightarrow> reporter \<times> telemetry list" where
  "think_if event r = (if eventHasThinking event then sendThinkingMarker r else (r, []))"

definition message_update :: "json \<Rightarrow> reporter \<Rightarrow> reporter \<times> telemetry list" where
  "message_update event r =
     (if rp_activeMessageRole r \<noteq> None \<and> rp_activeMessageRole r \<noteq> Some ''assistant'' then (r, [])
      else case think_if event r of (r', out) \<Rightarrow>
        (r'\<lparr>rp_assistantBuffer := rp_assistantBuffer r' @ extractVisibleTextFromMessageEvent event\<rparr>, out))"

definition message_end :: "json \<Rightarrow> reporter \<Rightarrow> reporter \<times> telemetry list" where
  "message_end event r =
     (let role = first_text [extractMessageRole event, rp_activeMessageRole r] in
      if role \<noteq> None \<and> role \<noteq> Some ''assistant'' then (r\<lparr>rp_activeMessageRole := None\<rparr>, [])
      else case think_if event r of (r1, out) \<Rightarrow>
        (let fullText = extractVisibleTextFromMessageEvent event;
             r2 = (if fullText \<noteq> [] then r1\<lparr>rp_assistantBuffer := fullText\<rparr> else r1)
         in case flushAssistantOutput r2 of (r3, out') \<Rightarrow> (r3\<lparr>rp_activeMessageRole := None\<rparr>, out @ out')))"

definition turn_end :: "json \<Rightarrow> reporter \<Rightarrow> reporter \<times> telemetry list" where
  "turn_end event r =
     (case flushAssistantOutput r of (r', out) \<Rightarrow>
        (r', out @ [(''turn_end'',
           [(''turnIndex'', case field event ''turnIndex'' of Some (JNum n) \<Rightarrow> JNum n | _ \<Rightarrow> JNull),
            (''toolCount'', case field event ''toolResults'' of Some (JArr xs) \<Rightarrow> JNum (IntNum (int (length xs))) | _ \<Rightarrow> JNull)])]))"

fun report_step :: "reporter \<Rightarrow> run_event \<Rightarrow> reporter \<times> telemetry list" where
  "report_step r (ToolStart event) = (r, tool_started event)"
| "report_step r (ToolEnd event) = (r, tool_ended event)"
| "report_step r (MessageStart event) =
     (\<lparr>rp_assistantBuffer = [], rp_thinkingReported = False, rp_activeMessageRole = extractMessageRole event\<rparr>, [])"
| "report_step r (MessageUpdate event) = message_update event r"
| "report_step r (MessageEnd event) = message_end event r"
| "report_step r (TurnEnd event) = turn_end event r"

fun report_run :: "reporter \<Rightarrow> run_event list \<Rightarrow> reporter \<times> telemetry list" where
  "report_run r [] = (r, [])"
| "report_run r (e # es) = (case report_step r e of (r', out) \<Rightarrow> case report_run r' es of (r'', out') \<Rightarrow> (r'', out @ out'))"

section \<open>The end of a run\<close>

datatype run_report =
    Telemetry telemetry
  | ResultFile "run_sidecar result"
  | ResultReport string

text \<open>
  Where the result goes: to the file when the runner manages results (\<open>Inl\<close> when its variables are
  wrong), else to the hub. \<open>connected\<close> is what \<open>awaitConnection\<close> gives and \<open>upsert\<close> the write of the
  result file; the telemetry is sent over the connection if there is one, and a failure ends the
  handler silently.
\<close>

definition runnerManagedResultPath :: "env \<Rightarrow> string option result" where
  "runnerManagedResultPath penv =
     (if penv ''BASECAMP_RUNNER_MANAGED_RESULT'' \<noteq> Some ''1'' then Inr None
      else case penv ''BASECAMP_RUN_RESULT_PATH'' of
             Some p \<Rightarrow> if p = [] then Inl ''missing runner-managed result path'' else Inr (Some p)
           | None \<Rightarrow> Inl ''missing runner-managed result path'')"

text \<open>\<open>number\<close> reads a decimal integer, \<open>None\<close> for any other text.\<close>

definition runnerManagedAttempt :: "(string \<Rightarrow> int option) \<Rightarrow> env \<Rightarrow> int result" where
  "runnerManagedAttempt number penv =
     (case penv ''BASECAMP_RUN_ATTEMPT'' of
        None \<Rightarrow> Inl ''invalid runner-managed result attempt''
      | Some raw \<Rightarrow>
          if trim raw = [] then Inl ''invalid runner-managed result attempt''
          else case number raw of Some n \<Rightarrow> Inr n | None \<Rightarrow> Inl ''invalid runner-managed result attempt'')"

definition agent_end ::
  "(string \<Rightarrow> int option) \<Rightarrow> env \<Rightarrow> bool \<Rightarrow> (string \<Rightarrow> run_attempt \<Rightarrow> run_sidecar result) \<Rightarrow> json \<Rightarrow> run_report list" where
  "agent_end number penv connected upsert event =
     (let result = extractLastAssistantMessage (field event ''messages'');
          told = (case displayText (Some (JStr result)) of
              Some snippet \<Rightarrow> if connected then [Telemetry (''agent_result'',
                 [(''category'', JStr ''result''), (''label'', JStr ''result''), (''snippet'', JStr snippet)])] else []
            | None \<Rightarrow> [])
      in told @ (case runnerManagedResultPath penv of
          Inl e \<Rightarrow> []
        | Inr (Some p) \<Rightarrow> (case runnerManagedAttempt number penv of
              Inl e \<Rightarrow> []
            | Inr n \<Rightarrow> [ResultFile (upsert p \<lparr>at_attempt = n, at_status = RunOk, at_result = Some result, at_error = None\<rparr>)])
        | Inr None \<Rightarrow> if connected then [ResultReport result] else []))"

section \<open>What is reported of a message\<close>

lemma squash_ws_keeps: "c \<in> set s \<Longrightarrow> \<not> js_ws c \<Longrightarrow> c \<in> set (squash_ws b s)"
  by (induction b s rule: squash_ws.induct) auto

lemma displayText_filled: "t \<noteq> [] \<Longrightarrow> trim t = t \<Longrightarrow> displayText (Some (JStr t)) = Some (shorten DISPLAY_TEXT_LIMIT (collapse_ws t))"
  using trim_all_ws [of t] trim_all_ws [of "squash_ws False t"] squash_ws_keeps
  by (auto simp: displayText_def filled_text_def collapse_ws_def)

text \<open>A message in progress: the events between its start and its end.\<close>

fun during_message :: "run_event \<Rightarrow> bool" where
  "during_message (MessageUpdate _) = True"
| "during_message (ToolStart _) = True"
| "during_message (ToolEnd _) = True"
| "during_message _ = False"

fun update_text :: "run_event \<Rightarrow> string" where
  "update_text (MessageUpdate event) = extractVisibleTextFromMessageEvent event"
| "update_text _ = []"

fun update_thinks :: "run_event \<Rightarrow> bool" where
  "update_thinks (MessageUpdate event) = eventHasThinking event"
| "update_thinks _ = False"

abbreviation may_be_assistant :: "string option \<Rightarrow> bool" where
  "may_be_assistant role \<equiv> role = None \<or> role = Some ''assistant''"

definition message_telemetry :: "telemetry list \<Rightarrow> telemetry list" where
  "message_telemetry out = filter (\<lambda>t. fst t = ''assistant_output'' \<or> fst t = ''thinking'') out"

definition expected_output :: "string \<Rightarrow> telemetry list" where
  "expected_output s = (if trim s = [] then [] else [assistant_output (shorten DISPLAY_TEXT_LIMIT (collapse_ws (trim s))) (trim s)])"

lemma message_telemetry_simps [simp]:
  "message_telemetry [] = []" "message_telemetry (xs @ ys) = message_telemetry xs @ message_telemetry ys"
  "message_telemetry (tool_started e) = []" "message_telemetry (tool_ended e) = []"
  "message_telemetry (thinking_marker # xs) = thinking_marker # message_telemetry xs"
  "message_telemetry (expected_output s) = expected_output s"
  by (simp_all add: message_telemetry_def tool_started_def tool_ended_def thinking_marker_def Let_def
      expected_output_def assistant_output_def)

lemma flush_is_expected: "flushAssistantOutput r = (r\<lparr>rp_assistantBuffer := []\<rparr>, expected_output (rp_assistantBuffer r))"
  by (simp add: flushAssistantOutput_def messageText_def filled_text_def expected_output_def Let_def displayText_filled
      split: option.split)

lemma report_run_append:
  "report_run r (xs @ ys) = (case report_run r xs of (r', out) \<Rightarrow> case report_run r' ys of (r'', out') \<Rightarrow> (r'', out @ out'))"
  by (induction xs arbitrary: r) (auto split: prod.split)

lemma think_if_eq:
  "think_if event r = (r\<lparr>rp_thinkingReported := (rp_thinkingReported r \<or> eventHasThinking event)\<rparr>,
     if \<not> rp_thinkingReported r \<and> eventHasThinking event then [thinking_marker] else [])"
  by (cases r) (simp add: think_if_def sendThinkingMarker_def)

lemma updates_collect:
  assumes "may_be_assistant (rp_activeMessageRole r)" and "list_all during_message es"
  shows "\<exists>out. report_run r es = (r\<lparr>rp_assistantBuffer := rp_assistantBuffer r @ concat (map update_text es),
      rp_thinkingReported := (rp_thinkingReported r \<or> list_ex update_thinks es)\<rparr>, out)
    \<and> message_telemetry out = (if \<not> rp_thinkingReported r \<and> list_ex update_thinks es then [thinking_marker] else [])"
  using assms
proof (induction es arbitrary: r)
  case Nil
  then show ?case by simp
next
  case (Cons e es)
  show ?case
  proof (cases e)
    case (MessageUpdate event)
    let ?r = "r\<lparr>rp_assistantBuffer := rp_assistantBuffer r @ update_text e,
      rp_thinkingReported := (rp_thinkingReported r \<or> update_thinks e)\<rparr>"
    have "report_step r e = (?r, if \<not> rp_thinkingReported r \<and> update_thinks e then [thinking_marker] else [])"
      using Cons.prems(1) by (auto simp: MessageUpdate message_update_def think_if_eq)
    moreover have "may_be_assistant (rp_activeMessageRole ?r)" "list_all during_message es" using Cons.prems by auto
    ultimately show ?thesis using Cons.IH [of ?r] by auto
  qed (use Cons.IH [OF Cons.prems(1)] Cons.prems in \<open>auto\<close>)
qed

lemma others_are_silent:
  assumes "\<not> may_be_assistant (rp_activeMessageRole r)" and "list_all during_message es"
  shows "\<exists>out. report_run r es = (r, out) \<and> message_telemetry out = []"
  using assms(2)
proof (induction es)
  case (Cons e es)
  have "\<exists>out. report_step r e = (r, out) \<and> message_telemetry out = []"
    using Cons.prems assms(1) by (cases e) (auto simp: message_update_def)
  with Cons show ?case by auto
qed simp

lemma message_end_eq:
  "message_end event r =
     (if may_be_assistant (first_text [extractMessageRole event, rp_activeMessageRole r])
      then (r\<lparr>rp_assistantBuffer := [], rp_thinkingReported := (rp_thinkingReported r \<or> eventHasThinking event), rp_activeMessageRole := None\<rparr>,
            (if \<not> rp_thinkingReported r \<and> eventHasThinking event then [thinking_marker] else [])
            @ expected_output (if extractVisibleTextFromMessageEvent event \<noteq> [] then extractVisibleTextFromMessageEvent event
                 else rp_assistantBuffer r))
      else (r\<lparr>rp_activeMessageRole := None\<rparr>, []))"
  by (simp add: message_end_def think_if_eq flush_is_expected Let_def del: first_text.simps)

lemma turn_end_blank:
  "rp_assistantBuffer q = [] \<Longrightarrow> message_telemetry (snd (turn_end t q)) = []"
  by (simp add: turn_end_def flush_is_expected expected_output_def message_telemetry_def)

lemma message_ends:
  assumes "may_be_assistant (first_text [extractMessageRole e, rp_activeMessageRole q])"
  shows "message_telemetry (snd (report_run q [MessageEnd e, TurnEnd t])) =
    (if \<not> rp_thinkingReported q \<and> eventHasThinking e then [thinking_marker] else [])
    @ expected_output (if extractVisibleTextFromMessageEvent e \<noteq> [] then extractVisibleTextFromMessageEvent e
         else rp_assistantBuffer q)"
  using assms turn_end_blank by (simp add: message_end_eq case_prod_unfold del: first_text.simps)

lemma message_of_other_ends:
  assumes "\<not> may_be_assistant (first_text [extractMessageRole e, rp_activeMessageRole q])" and "rp_assistantBuffer q = []"
  shows "message_telemetry (snd (report_run q [MessageEnd e, TurnEnd t])) = []"
proof -
  have "message_end e q = (q\<lparr>rp_activeMessageRole := None\<rparr>, [])"
    unfolding message_end_eq using assms(1) by (rule if_not_P)
  then show ?thesis using turn_end_blank assms(2) by (simp add: case_prod_unfold)
qed

lemma report_run_prefix:
  "report_run r es = (q, out) \<Longrightarrow> snd (report_run r (es @ xs)) = out @ snd (report_run q xs)"
  by (simp add: report_run_append case_prod_unfold)

text \<open>
  C38. The hub is told what the assistant said, and nothing else. For a message of the assistant, whatever
  came before it and whatever tool events come between its updates: one thinking marker if any of its
  events shows thinking and none otherwise, and one assistant output with the text of the message, which
  is that of its last event if it has one, else the updates' texts in order, trimmed; none if that is
  blank. A message of another role reports neither. Either way the turn's end adds no output of it.
\<close>

theorem reported_output_is_the_message:
  assumes "list_all during_message es"
  shows "let role = extractMessageRole s; ending = first_text [extractMessageRole e, role];
       text = (if extractVisibleTextFromMessageEvent e \<noteq> [] then extractVisibleTextFromMessageEvent e
               else concat (map update_text es));
       thinks = (list_ex update_thinks es \<or> eventHasThinking e);
       out = message_telemetry (snd (report_run r (MessageStart s # es @ [MessageEnd e, TurnEnd t])))
     in (may_be_assistant role \<and> may_be_assistant ending \<longrightarrow>
           out = (if thinks then [thinking_marker] else []) @ expected_output text)
      \<and> (\<not> may_be_assistant role \<and> \<not> may_be_assistant ending \<longrightarrow> out = [])"
proof -
  let ?role = "extractMessageRole s"
  let ?r = "\<lparr>rp_assistantBuffer = [], rp_thinkingReported = False, rp_activeMessageRole = ?role\<rparr>"
  have start: "snd (report_run r (MessageStart s # es @ [MessageEnd e, TurnEnd t]))
      = snd (report_run ?r (es @ [MessageEnd e, TurnEnd t]))"
    by (simp add: case_prod_unfold)
  let ?text = "if extractVisibleTextFromMessageEvent e \<noteq> [] then extractVisibleTextFromMessageEvent e
               else concat (map update_text es)"
  let ?out = "message_telemetry (snd (report_run r (MessageStart s # es @ [MessageEnd e, TurnEnd t])))"
  let ?ending = "first_text [extractMessageRole e, ?role]"
  have "?out = (if list_ex update_thinks es \<or> eventHasThinking e then [thinking_marker] else []) @ expected_output ?text"
    if "may_be_assistant ?role" "may_be_assistant ?ending"
  proof -
    let ?q = "\<lparr>rp_assistantBuffer = concat (map update_text es), rp_thinkingReported = list_ex update_thinks es,
      rp_activeMessageRole = ?role\<rparr>"
    have "may_be_assistant (rp_activeMessageRole ?r)" using that(1) by simp
    from updates_collect [OF this assms] obtain out where "report_run ?r es = (?q, out)"
      "message_telemetry out = (if list_ex update_thinks es then [thinking_marker] else [])"
      by auto
    moreover from this(1) have "snd (report_run ?r (es @ [MessageEnd e, TurnEnd t])) = out @ snd (report_run ?q [MessageEnd e, TurnEnd t])"
      by (rule report_run_prefix)
    moreover have "may_be_assistant (first_text [extractMessageRole e, rp_activeMessageRole ?q])" using that(2) by (simp del: first_text.simps)
    note message_ends [OF this, of t]
    ultimately show ?thesis unfolding start by (simp del: report_run.simps)
  qed
  moreover have "?out = []" if "\<not> may_be_assistant ?role" "\<not> may_be_assistant ?ending"
  proof -
    have "\<not> may_be_assistant (rp_activeMessageRole ?r)" using that(1) by simp
    from others_are_silent [OF this assms] obtain out where "report_run ?r es = (?r, out)" "message_telemetry out = []"
      by blast
    moreover from this(1) have "snd (report_run ?r (es @ [MessageEnd e, TurnEnd t])) = out @ snd (report_run ?r [MessageEnd e, TurnEnd t])"
      by (rule report_run_prefix)
    moreover have "\<not> may_be_assistant (first_text [extractMessageRole e, rp_activeMessageRole ?r])" using that(2) by (simp del: first_text.simps)
    note message_of_other_ends [OF this, of t]
    ultimately show ?thesis unfolding start by (simp del: report_run.simps)
  qed
  ultimately show ?thesis unfolding Let_def by blast
qed

text \<open>A message with a thinking update, a tool call between its updates, and no text in its last event.\<close>

definition sample_delta :: "string \<Rightarrow> string \<Rightarrow> json" where
  "sample_delta ty text = JObj [(''delta'', JObj [(''type'', JStr ty), (''text'', JStr text)])]"

definition sample_updates :: "run_event list" where
  "sample_updates = [MessageUpdate (sample_delta ''thinking_delta'' ''hm''), MessageUpdate (sample_delta ''text_delta'' ''all ''),
     ToolStart (JObj [(''toolName'', JStr ''read'')]), MessageUpdate (sample_delta ''text_delta'' ''done'')]"

definition sample_boundary :: json where
  "sample_boundary = JObj [(''message'', JObj [(''role'', JStr ''assistant'')])]"

lemma sample_message_facts:
  "list_all during_message sample_updates" "list_ex update_thinks sample_updates"
  "extractMessageRole sample_boundary = Some ''assistant''" "extractVisibleTextFromMessageEvent sample_boundary = []"
  "expected_output (concat (map update_text sample_updates)) = [assistant_output ''all done'' ''all done'']"
  by code_simp+

theorem reported_output_is_the_message_witness:
  "message_telemetry (snd (report_run fresh_reporter
      (MessageStart sample_boundary # sample_updates @ [MessageEnd sample_boundary, TurnEnd (JObj [])])))
     = [thinking_marker, assistant_output ''all done'' ''all done'']"
  using reported_output_is_the_message [OF sample_message_facts(1), of sample_boundary sample_boundary fresh_reporter "JObj []"]
  by (simp add: sample_message_facts Let_def)

text \<open>The end of a run gives its result to the file or to the hub, at most once, and it is the last text of the assistant.\<close>

lemma result_given_once:
  "filter (\<lambda>r. case r of Telemetry _ \<Rightarrow> False | _ \<Rightarrow> True) (agent_end number penv connected upsert event) =
     (let result = extractLastAssistantMessage (field event ''messages'') in
      case (runnerManagedResultPath penv, runnerManagedAttempt number penv) of
        (Inr None, _) \<Rightarrow> if connected then [ResultReport result] else []
      | (Inr (Some p), Inr n) \<Rightarrow>
          [ResultFile (upsert p \<lparr>at_attempt = n, at_status = RunOk, at_result = Some result, at_error = None\<rparr>)]
      | _ \<Rightarrow> [])"
  by (auto simp: agent_end_def Let_def split: option.split sum.split)

end
