(* ===== verification/PlanDraft.thy ===== *)
theory PlanDraft
  imports TaskInvariant
begin

text \<open>
  The draft of a plan (\<open>pi/tasks/schemas/plan.ts\<close>, \<open>workflows/draft.ts\<close>) and its review items
  (\<open>workflows/review/review-model.ts\<close>): building a draft from a submission and the draft before it, the
  subagent's approval of everything, the results reported back, and reading and writing the review of
  an item. A result is the value the code passes to \<open>JSON.stringify\<close>.
\<close>

section \<open>Schema\<close>

record plan_section =
  ps_content :: string
  ps_review :: review_state

datatype section_name = Goal | Background | Design | Success | Boundaries

fun section_key :: "section_name \<Rightarrow> string" where
  "section_key Goal = ''goal''"
| "section_key Background = ''context''"
| "section_key Design = ''design''"
| "section_key Success = ''success''"
| "section_key Boundaries = ''boundaries''"

definition SECTION_NAMES :: "section_name list" where
  "SECTION_NAMES = [Goal, Background, Design, Success, Boundaries]"

record plan_draft =
  pd_goal :: plan_section
  pd_context :: plan_section
  pd_design :: plan_section
  pd_success :: plan_section
  pd_boundaries :: plan_section
  pd_worktreeSlug :: "string option"
  pd_tasks :: "task list"
  pd_tasksReview :: review_state

text \<open>\<open>draft[name]\<close>.\<close>

fun section_of :: "plan_draft \<Rightarrow> section_name \<Rightarrow> plan_section" where
  "section_of d Goal = pd_goal d"
| "section_of d Background = pd_context d"
| "section_of d Design = pd_design d"
| "section_of d Success = pd_success d"
| "section_of d Boundaries = pd_boundaries d"

abbreviation content_of :: "plan_draft \<Rightarrow> section_name \<Rightarrow> string" where
  "content_of d n \<equiv> ps_content (section_of d n)"

abbreviation review_of :: "plan_draft \<Rightarrow> section_name \<Rightarrow> review_state" where
  "review_of d n \<equiv> ps_review (section_of d n)"

section \<open>Building a draft\<close>

definition freshReview :: review_state where
  "freshReview = \<lparr>rs_approved = None, rs_feedback = None\<rparr>"

definition approvedReview :: review_state where
  "approvedReview = \<lparr>rs_approved = Some True, rs_feedback = None\<rparr>"

definition computeGoalContextReview :: "string \<Rightarrow> string \<Rightarrow> (plan_section \<times> plan_section) option \<Rightarrow> review_state" where
  "computeGoalContextReview goalContent contextContent previous =
     (case previous of
        None \<Rightarrow> freshReview
      | Some (g, c) \<Rightarrow>
          if ps_content g = goalContent \<and> ps_content c = contextContent
             \<and> rs_approved (ps_review g) = Some True \<and> rs_approved (ps_review c) = Some True
          then approvedReview else freshReview)"

definition deriveGoalContextReviewState :: "plan_draft \<Rightarrow> review_state" where
  "deriveGoalContextReviewState d =
     (let g = ps_review (pd_goal d); c = ps_review (pd_context d);
          feedback = nullish_or (rs_feedback g) (rs_feedback c) in
      if rs_approved g = None \<or> rs_approved c = None then \<lparr>rs_approved = None, rs_feedback = feedback\<rparr>
      else if rs_approved g = Some False \<or> rs_approved c = Some False
      then \<lparr>rs_approved = Some False, rs_feedback = feedback\<rparr>
      else \<lparr>rs_approved = Some True, rs_feedback = feedback\<rparr>)"

text \<open>The three texts of a task that a review is about; a submission and a draft both have them.\<close>

definition task_text :: "task \<Rightarrow> task_input" where
  "task_text t = \<lparr>ti_label = t_label t, ti_description = t_description t, ti_criteria = t_criteria t\<rparr>"

fun tasksMatch :: "task_input list \<Rightarrow> task_input list \<Rightarrow> bool" where
  "tasksMatch [] [] = True"
| "tasksMatch (cur # ts) (prev # ps) =
     (ti_label cur = ti_label prev \<and> ti_description cur = ti_description prev
      \<and> ti_criteria cur = ti_criteria prev \<and> tasksMatch ts ps)"
| "tasksMatch _ _ = False"

definition computeSectionReview :: "string \<Rightarrow> plan_section option \<Rightarrow> review_state" where
  "computeSectionReview content previousSection =
     (case previousSection of
        None \<Rightarrow> freshReview
      | Some p \<Rightarrow> if ps_content p = content \<and> rs_approved (ps_review p) = Some True
                  then approvedReview else freshReview)"

definition collectiveTasksReview :: "task_input list \<Rightarrow> plan_draft option \<Rightarrow> review_state" where
  "collectiveTasksReview tasks previous =
     (case previous of
        None \<Rightarrow> freshReview
      | Some p \<Rightarrow> if tasksMatch tasks (map task_text (pd_tasks p)) \<and> rs_approved (pd_tasksReview p) = Some True
                  then approvedReview else freshReview)"

record plan_params =
  pp_goal :: string
  pp_context :: string
  pp_design :: string
  pp_success :: string
  pp_boundaries :: string
  pp_worktreeSlug :: "string option"

definition buildDraft :: "plan_params \<Rightarrow> task_input list \<Rightarrow> plan_draft option \<Rightarrow> plan_draft" where
  "buildDraft params tasks previous =
     (let goalContextState = computeGoalContextReview (pp_goal params) (pp_context params)
            (map_option (\<lambda>p. (pd_goal p, pd_context p)) previous)
      in \<lparr>pd_goal = \<lparr>ps_content = pp_goal params, ps_review = goalContextState\<rparr>,
          pd_context = \<lparr>ps_content = pp_context params, ps_review = goalContextState\<rparr>,
          pd_design = \<lparr>ps_content = pp_design params,
            ps_review = computeSectionReview (pp_design params) (map_option pd_design previous)\<rparr>,
          pd_success = \<lparr>ps_content = pp_success params,
            ps_review = computeSectionReview (pp_success params) (map_option pd_success previous)\<rparr>,
          pd_boundaries = \<lparr>ps_content = pp_boundaries params,
            ps_review = computeSectionReview (pp_boundaries params) (map_option pd_boundaries previous)\<rparr>,
          pd_worktreeSlug = pp_worktreeSlug params,
          pd_tasks = map new_task tasks,
          pd_tasksReview = collectiveTasksReview tasks previous\<rparr>)"

definition approve_section :: "plan_section \<Rightarrow> plan_section" where
  "approve_section s = s\<lparr>ps_review := approvedReview\<rparr>"

definition approveDraft :: "plan_draft \<Rightarrow> plan_draft" where
  "approveDraft d = d\<lparr>pd_goal := approve_section (pd_goal d), pd_context := approve_section (pd_context d),
     pd_design := approve_section (pd_design d), pd_success := approve_section (pd_success d),
     pd_boundaries := approve_section (pd_boundaries d), pd_tasksReview := approvedReview\<rparr>"

definition isAllApproved :: "plan_draft \<Rightarrow> bool" where
  "isAllApproved d \<longleftrightarrow> list_all (\<lambda>n. rs_approved (review_of d n) = Some True) SECTION_NAMES
     \<and> rs_approved (pd_tasksReview d) = Some True"

section \<open>Results\<close>

text \<open>The reviews the results go through, in order, with the key each is reported under.\<close>

definition keyed_reviews :: "plan_draft \<Rightarrow> (string \<times> review_state) list" where
  "keyed_reviews d = map (\<lambda>n. (section_key n, review_of d n)) SECTION_NAMES @ [(''tasks'', pd_tasksReview d)]"

definition feedback_texts :: "bool \<Rightarrow> (string \<times> review_state) list \<Rightarrow> (string \<times> json) list" where
  "feedback_texts approved rs = map (\<lambda>(k, r). (k, JStr (the (rs_feedback r))))
     (filter (\<lambda>(k, r). truthy (rs_feedback r) \<and> (rs_approved r = Some True) = approved) rs)"

definition collectApprovedNotes :: "plan_draft \<Rightarrow> (string \<times> string) list" where
  "collectApprovedNotes d = map (\<lambda>(k, r). (k, the (rs_feedback r)))
     (filter (\<lambda>(k, r). rs_approved r = Some True \<and> truthy (rs_feedback r)) (keyed_reviews d))"

definition buildFeedbackResult :: "plan_draft \<Rightarrow> json" where
  "buildFeedbackResult d =
     (let notes = feedback_texts True (keyed_reviews d) in
      JObj ([(''status'', JStr ''feedback''),
             (''approved'', JObj (map (\<lambda>(k, r). (k, nullable JBool (rs_approved r))) (keyed_reviews d))),
             (''revisions'', JObj (feedback_texts False (keyed_reviews d)))]
            @ (if notes \<noteq> [] then [(''notes'', JObj notes)] else [])))"

datatype approved_plan_mode = AnalysisPlan | ImplementationPlan | InPlacePlan

record handoff_worktree =
  hw_worktreeDir :: string
  hw_label :: string
  hw_branch :: string
  hw_created :: bool

record setup_summary =
  su_ok :: bool
  su_exit_code :: int
  su_timed_out :: bool
  su_stderr_tail :: "string option"

definition setup_summary_json :: "setup_summary \<Rightarrow> json" where
  "setup_summary_json s = JObj ([(''ok'', JBool (su_ok s)), (''exit_code'', JNum (IntNum (su_exit_code s))),
     (''timed_out'', JBool (su_timed_out s))]
     @ (case su_stderr_tail s of None \<Rightarrow> [] | Some e \<Rightarrow> [(''stderr_tail'', JStr e)]))"

definition handoff_worktree_json :: "handoff_worktree \<Rightarrow> json" where
  "handoff_worktree_json w = JObj [(''label'', JStr (hw_label w)), (''path'', JStr (hw_worktreeDir w)),
     (''branch'', JStr (hw_branch w)), (''created'', JBool (hw_created w))]"

definition next_step_fields :: "approved_plan_mode \<Rightarrow> (string \<times> json) list" where
  "next_step_fields mode = (case mode of
     AnalysisPlan \<Rightarrow> [(''plan_mode'', JStr ''analysis''),
       (''next_step'', JStr ''Analysis plan approved, you may begin executing the analysis tasks.'')]
   | InPlacePlan \<Rightarrow> [(''plan_mode'', JStr ''implementation''),
       (''next_step'', JStr ''Plan approved. Begin executing the tasks now in the current workspace; no worktree handoff occurs in this session.'')]
   | ImplementationPlan \<Rightarrow> [(''handoff_status'', JStr ''scheduled''),
       (''next_step'', JStr (''Plan has been approved. Do not start implementation; wait for the user'' @ [CHR 0x27] @
          ''s confirmation to start work. Acknowledge and end the turn.''))])"

definition result_task :: "nat \<times> task \<Rightarrow> string \<times> json" where
  "result_task it = (case it of (i, t) \<Rightarrow> (show_nat i,
     JObj [(''label'', JStr (t_label t)), (''status'', JStr (status_name (t_status t))), (''criteria'', JStr (t_criteria t))]))"

definition buildApprovedResult ::
  "plan_draft \<Rightarrow> approved_plan_mode \<Rightarrow> handoff_worktree option \<Rightarrow> setup_summary option \<Rightarrow> json" where
  "buildApprovedResult d mode worktree setupSummary =
     (let notes = collectApprovedNotes d in
      JObj ([(''status'', JStr ''approved'')]
        @ map (\<lambda>n. (section_key n, JStr (content_of d n))) SECTION_NAMES
        @ [(''progress'', JObj [(''completed'', JNum (IntNum 0)), (''deleted'', JNum (IntNum 0)),
             (''total'', JNum (IntNum (int (length (pd_tasks d)))))]),
           (''tasks'', JObj (map result_task (indexed (pd_tasks d))))]
        @ next_step_fields mode
        @ (case worktree of None \<Rightarrow> [] | Some w \<Rightarrow> [(''worktree'', handoff_worktree_json w)])
        @ (case (worktree, setupSummary) of (Some _, Some s) \<Rightarrow> [(''worktree_setup'', setup_summary_json s)] | _ \<Rightarrow> [])
        @ (if notes \<noteq> [] then [(''notes'', JObj (map (\<lambda>(k, t). (k, JStr t)) notes))] else [])))"

section \<open>Review items\<close>

definition INDIVIDUAL_SECTIONS :: "section_name list" where
  "INDIVIDUAL_SECTIONS = [Design, Success, Boundaries]"

datatype review_item = GoalContextItem | SectionItem section_name | TasksItem

definition sectionDisplayName :: "section_name \<Rightarrow> string" where
  "sectionDisplayName n = (case section_key n of [] \<Rightarrow> [] | c # cs \<Rightarrow> char_of (of_char c - 32 :: nat) # cs)"

datatype review_marker = MarkApproved | MarkRevise | MarkPending

text \<open>The marker and whether a note is shown beside it.\<close>

definition reviewMarker :: "review_state \<Rightarrow> review_marker \<times> bool" where
  "reviewMarker r = ((case rs_approved r of Some True \<Rightarrow> MarkApproved | Some False \<Rightarrow> MarkRevise | None \<Rightarrow> MarkPending),
     truthy (rs_feedback r))"

definition getItemReview :: "plan_draft \<Rightarrow> review_item \<Rightarrow> review_state" where
  "getItemReview d item = (case item of
     GoalContextItem \<Rightarrow> deriveGoalContextReviewState d
   | SectionItem n \<Rightarrow> review_of d n
   | TasksItem \<Rightarrow> pd_tasksReview d)"

definition countPending :: "plan_draft \<Rightarrow> nat" where
  "countPending d =
     (if rs_approved (deriveGoalContextReviewState d) = None then 1 else 0)
     + length (filter (\<lambda>n. rs_approved (review_of d n) = None) INDIVIDUAL_SECTIONS)
     + (if rs_approved (pd_tasksReview d) = None then 1 else 0)"

definition getListItems :: "plan_draft \<Rightarrow> review_item list" where
  "getListItems d = GoalContextItem # map SectionItem INDIVIDUAL_SECTIONS
     @ (if pd_tasks d \<noteq> [] then [TasksItem] else [])"

fun set_section_review :: "section_name \<Rightarrow> review_state \<Rightarrow> plan_draft \<Rightarrow> plan_draft" where
  "set_section_review Goal r d = d\<lparr>pd_goal := (pd_goal d)\<lparr>ps_review := r\<rparr>\<rparr>"
| "set_section_review Background r d = d\<lparr>pd_context := (pd_context d)\<lparr>ps_review := r\<rparr>\<rparr>"
| "set_section_review Design r d = d\<lparr>pd_design := (pd_design d)\<lparr>ps_review := r\<rparr>\<rparr>"
| "set_section_review Success r d = d\<lparr>pd_success := (pd_success d)\<lparr>ps_review := r\<rparr>\<rparr>"
| "set_section_review Boundaries r d = d\<lparr>pd_boundaries := (pd_boundaries d)\<lparr>ps_review := r\<rparr>\<rparr>"

definition setItemReview :: "plan_draft \<Rightarrow> review_item \<Rightarrow> review_state \<Rightarrow> plan_draft" where
  "setItemReview d item review = (case item of
     GoalContextItem \<Rightarrow> set_section_review Background review (set_section_review Goal review d)
   | SectionItem n \<Rightarrow> set_section_review n review d
   | TasksItem \<Rightarrow> d\<lparr>pd_tasksReview := review\<rparr>)"

section \<open>What is reviewed\<close>

text \<open>
  The content an item shows. The reviews of an item and its content say all a draft's decision is
  about: approving the item approves this content.
\<close>

datatype item_content = Texts "string list" | TaskTexts "task_input list"

definition item_content :: "plan_draft \<Rightarrow> review_item \<Rightarrow> item_content" where
  "item_content d item = (case item of
     GoalContextItem \<Rightarrow> Texts [content_of d Goal, content_of d Background]
   | SectionItem n \<Rightarrow> Texts [content_of d n]
   | TasksItem \<Rightarrow> TaskTexts (map task_text (pd_tasks d)))"

definition item_approved :: "plan_draft \<Rightarrow> review_item \<Rightarrow> bool" where
  "item_approved d item \<longleftrightarrow> rs_approved (getItemReview d item) = Some True"

definition REVIEW_ITEMS :: "review_item list" where
  "REVIEW_ITEMS = GoalContextItem # map SectionItem INDIVIDUAL_SECTIONS @ [TasksItem]"

lemma review_simps [simp]:
  "rs_approved freshReview = None" "rs_feedback freshReview = None"
  "rs_approved approvedReview = Some True" "rs_feedback approvedReview = None"
  by (simp_all add: freshReview_def approvedReview_def)

lemma goalContext_approved:
  "rs_approved (deriveGoalContextReviewState d) = Some True \<longleftrightarrow>
     rs_approved (review_of d Goal) = Some True \<and> rs_approved (review_of d Background) = Some True"
  by (auto simp: deriveGoalContextReviewState_def Let_def)

lemma isAllApproved_items: "isAllApproved d \<longleftrightarrow> list_all (item_approved d) REVIEW_ITEMS"
  by (auto simp: isAllApproved_def SECTION_NAMES_def REVIEW_ITEMS_def INDIVIDUAL_SECTIONS_def item_approved_def
      getItemReview_def goalContext_approved)

lemma tasksMatch_iff: "tasksMatch ts ps \<longleftrightarrow> ts = ps"
  by (induction ts ps rule: tasksMatch.induct) auto

lemma task_text_new [simp]: "task_text (new_task i) = i"
  by (simp add: task_text_def new_task_def)

lemma content_of_set [simp]: "content_of (set_section_review n r d) m = content_of d m"
  by (cases n; cases m) simp_all

lemma review_of_set [simp]: "review_of (set_section_review n r d) m = (if m = n then r else review_of d m)"
  by (cases n; cases m) simp_all

lemma set_section_frame [simp]:
  "pd_tasks (set_section_review n r d) = pd_tasks d"
  "pd_tasksReview (set_section_review n r d) = pd_tasksReview d"
  "pd_worktreeSlug (set_section_review n r d) = pd_worktreeSlug d"
  by (cases n; simp)+

lemma section_of_tasksReview [simp]: "section_of (d\<lparr>pd_tasksReview := r\<rparr>) n = section_of d n"
  by (cases n) simp_all

lemma setItemReview_content [simp]: "content_of (setItemReview d item r) n = content_of d n"
  by (cases item) (simp_all add: setItemReview_def del: set_section_review.simps)

lemma setItemReview_tasks [simp]:
  "pd_tasks (setItemReview d item r) = pd_tasks d"
  "pd_worktreeSlug (setItemReview d item r) = pd_worktreeSlug d"
  by (cases item; simp add: setItemReview_def)+

lemma setItemReview_shown [simp]:
  "item_content (setItemReview d item r) i = item_content d i"
  "getListItems (setItemReview d item r) = getListItems d"
  by (simp_all only: item_content_def getListItems_def setItemReview_content setItemReview_tasks)

lemma getItemReview_set:
  assumes "item \<in> set REVIEW_ITEMS" "i \<in> set REVIEW_ITEMS"
  shows "rs_approved (getItemReview (setItemReview d item r) i) =
    (if i = item then rs_approved r else rs_approved (getItemReview d i))"
  using assms
  by (auto simp: REVIEW_ITEMS_def INDIVIDUAL_SECTIONS_def getItemReview_def setItemReview_def
      deriveGoalContextReviewState_def Let_def)

lemma listed_items: "set (getListItems d) \<subseteq> set REVIEW_ITEMS"
  by (auto simp: getListItems_def REVIEW_ITEMS_def)

text \<open>An approval survives a submission only with the content it was given for.\<close>

lemma section_carried:
  "rs_approved (computeSectionReview c q) = Some True \<longleftrightarrow>
     (\<exists>p. q = Some p \<and> ps_content p = c \<and> rs_approved (ps_review p) = Some True)"
  by (simp add: computeSectionReview_def split: option.split)

lemma goalContext_carried:
  "rs_approved (computeGoalContextReview g c q) = Some True \<longleftrightarrow>
     (\<exists>p p'. q = Some (p, p') \<and> ps_content p = g \<and> ps_content p' = c
       \<and> rs_approved (ps_review p) = Some True \<and> rs_approved (ps_review p') = Some True)"
  by (simp add: computeGoalContextReview_def split: option.split prod.split)

lemma tasks_carried:
  "rs_approved (collectiveTasksReview ts q) = Some True \<longleftrightarrow>
     (\<exists>p. q = Some p \<and> map task_text (pd_tasks p) = ts \<and> rs_approved (pd_tasksReview p) = Some True)"
  by (auto simp: collectiveTasksReview_def tasksMatch_iff split: option.split)

lemma buildDraft_fields:
  "pd_goal (buildDraft params tasks previous) = \<lparr>ps_content = pp_goal params, ps_review =
     computeGoalContextReview (pp_goal params) (pp_context params) (map_option (\<lambda>p. (pd_goal p, pd_context p)) previous)\<rparr>"
  "pd_context (buildDraft params tasks previous) = \<lparr>ps_content = pp_context params, ps_review =
     computeGoalContextReview (pp_goal params) (pp_context params) (map_option (\<lambda>p. (pd_goal p, pd_context p)) previous)\<rparr>"
  "pd_tasks (buildDraft params tasks previous) = map new_task tasks"
  "pd_tasksReview (buildDraft params tasks previous) = collectiveTasksReview tasks previous"
  by (simp_all add: buildDraft_def Let_def)

lemma buildDraft_sections:
  "n \<in> set INDIVIDUAL_SECTIONS \<Longrightarrow> \<exists>c. section_of (buildDraft params tasks previous) n =
     \<lparr>ps_content = c, ps_review = computeSectionReview c (map_option (\<lambda>p. section_of p n) previous)\<rparr>"
  by (auto simp: INDIVIDUAL_SECTIONS_def buildDraft_def Let_def)

lemma approval_carried:
  assumes "item_approved (buildDraft params tasks previous) item" and "item \<in> set REVIEW_ITEMS"
  shows "\<exists>p. previous = Some p \<and> item_approved p item
    \<and> item_content p item = item_content (buildDraft params tasks previous) item"
proof (cases item)
  case GoalContextItem
  with assms show ?thesis
    by (auto simp: item_approved_def getItemReview_def goalContext_approved buildDraft_fields goalContext_carried item_content_def)
next
  case (SectionItem n)
  with assms have n: "n \<in> set INDIVIDUAL_SECTIONS" by (auto simp: REVIEW_ITEMS_def)
  then obtain c where "section_of (buildDraft params tasks previous) n =
      \<lparr>ps_content = c, ps_review = computeSectionReview c (map_option (\<lambda>p. section_of p n) previous)\<rparr>"
    using buildDraft_sections by blast
  with assms SectionItem show ?thesis
    by (auto simp: item_approved_def getItemReview_def section_carried item_content_def)
next
  case TasksItem
  with assms show ?thesis
    by (auto simp: item_approved_def getItemReview_def buildDraft_fields tasks_carried item_content_def comp_def)
qed

lemma countPending_zero: "countPending d = 0 \<longleftrightarrow> (\<forall>i \<in> set REVIEW_ITEMS. rs_approved (getItemReview d i) \<noteq> None)"
  by (auto simp: countPending_def REVIEW_ITEMS_def INDIVIDUAL_SECTIONS_def getItemReview_def)

text \<open>A section whose content changed is pending again, whatever was decided on it before.\<close>

lemma changed_section_is_pending:
  "ps_content p \<noteq> c \<Longrightarrow> reviewMarker (computeSectionReview c (Some p)) = (MarkPending, False)"
  by (simp add: computeSectionReview_def reviewMarker_def truthy_def)

end
