(* ===== verification/PlanReview.thy ===== *)
theory PlanReview
  imports PlanDraft
begin

text \<open>
  The review of a plan (\<open>pi/tasks/workflows/review\<close>): the list of items, the drill-down into one, the
  task cards and the read-only view, as steps on the keys the user presses. The text editor belongs to
  the terminal library: \<open>ed k t\<close> is the text after key \<open>k\<close> on text \<open>t\<close>, and the value submitted, if the
  key submits one.
\<close>

section \<open>Keys and views\<close>

datatype review_key =
    Escape | UpKey | DownKey | LeftKey | RightKey | Space | Enter | Tab | Backspace
  | Letter char bool
  | OtherKey string

text \<open>\<open>matchesKey(data, "x") || matchesKey(data, "shift+x")\<close>.\<close>

definition is_letter :: "char \<Rightarrow> review_key \<Rightarrow> bool" where
  "is_letter c k \<longleftrightarrow> k = Letter c False \<or> k = Letter c True"

type_synonym editor_keys = "review_key \<Rightarrow> string \<Rightarrow> string \<times> string option"

record item_editor =
  ed_text :: string
  ed_focused :: bool

text \<open>
  The list with its cursor and the number of pending items its hint warns of; an item or the task
  cards, with the cursor to go back to.
\<close>

datatype review_view =
    ListView nat "nat option"
  | ItemView nat review_item item_editor
  | CardsView nat nat item_editor

datatype review_verdict = Submit | Decline

record overlay =
  ov_draft :: plan_draft
  ov_view :: review_view

datatype overlay_step = Shown overlay | Closed plan_draft review_verdict

section \<open>The views\<close>

definition list_view :: "plan_draft \<Rightarrow> nat \<Rightarrow> review_view" where
  "list_view d lastSelected = ListView (min lastSelected (length (getListItems d) - 1)) None"

definition item_editor :: "plan_draft \<Rightarrow> review_item \<Rightarrow> item_editor" where
  "item_editor d item =
     \<lparr>ed_text = (case rs_feedback (getItemReview d item) of None \<Rightarrow> [] | Some f \<Rightarrow> f), ed_focused = False\<rparr>"

text \<open>A key while the feedback editor has the focus.\<close>

definition save_feedback :: "string \<Rightarrow> plan_draft \<Rightarrow> review_item \<Rightarrow> plan_draft" where
  "save_feedback value d item = setItemReview d item
     \<lparr>rs_approved = rs_approved (getItemReview d item),
      rs_feedback = (if trim value = [] then None else Some (trim value))\<rparr>"

definition editor_key :: "editor_keys \<Rightarrow> review_key \<Rightarrow> plan_draft \<Rightarrow> review_item \<Rightarrow> item_editor \<Rightarrow> plan_draft \<times> item_editor" where
  "editor_key ed k d item e =
     (if k = Escape then (d, if ed_text e \<noteq> [] then e\<lparr>ed_text := []\<rparr> else e\<lparr>ed_focused := False\<rparr>)
      else if (k = UpKey \<or> k = Backspace) \<and> ed_text e = [] then (d, e\<lparr>ed_focused := False\<rparr>)
      else (case ed k (ed_text e) of
          (t, None) \<Rightarrow> (d, e\<lparr>ed_text := t\<rparr>)
        | (t, Some value) \<Rightarrow> (save_feedback value d item, \<lparr>ed_text = t, ed_focused = False\<rparr>)))"

definition decide :: "plan_draft \<Rightarrow> review_item \<Rightarrow> bool \<Rightarrow> plan_draft" where
  "decide d item v = setItemReview d item \<lparr>rs_approved = Some v, rs_feedback = rs_feedback (getItemReview d item)\<rparr>"

text \<open>A key in an item's view: \<open>None\<close> for the view when it closes.\<close>

definition item_key :: "editor_keys \<Rightarrow> review_key \<Rightarrow> plan_draft \<Rightarrow> review_item \<Rightarrow> item_editor \<Rightarrow> plan_draft \<times> item_editor option" where
  "item_key ed k d item e =
     (if ed_focused e then (case editor_key ed k d item e of (d', e') \<Rightarrow> (d', Some e'))
      else if k = Escape then (d, None)
      else if is_letter (CHR ''a'') k then (decide d item True, None)
      else if is_letter (CHR ''r'') k then (decide d item False, None)
      else if k = DownKey \<or> k = Tab then (d, Some ((item_editor d item)\<lparr>ed_focused := True\<rparr>))
      else (d, Some e))"

text \<open>The cards differ in the keys that turn them.\<close>

definition turn_card :: "review_key \<Rightarrow> plan_draft \<Rightarrow> item_editor \<Rightarrow> nat \<Rightarrow> nat" where
  "turn_card k d e i =
     (if ed_focused e then i
      else if k = LeftKey then (if i > 0 then i - 1 else i)
      else if k = RightKey then (if i < length (pd_tasks d) - 1 then i + 1 else i)
      else i)"

definition open_item :: "plan_draft \<Rightarrow> nat \<Rightarrow> review_view" where
  "open_item d sel =
     (let item = getListItems d ! sel in
      if item = TasksItem then
        (if pd_tasks d = [] then list_view d sel else CardsView sel 0 (item_editor d TasksItem))
      else ItemView sel item (item_editor d item))"

definition list_key :: "review_key \<Rightarrow> plan_draft \<Rightarrow> nat \<Rightarrow> overlay_step" where
  "list_key k d sel =
     (let shown = (\<lambda>v. Shown \<lparr>ov_draft = d, ov_view = v\<rparr>) in
      if k = Escape then Closed d Decline
      else if is_letter (CHR ''s'') k then
        (let pending = countPending d in if pending > 0 then shown (ListView sel (Some pending)) else Closed d Submit)
      else if k = Space \<or> k = Enter then shown (open_item d sel)
      else if k = UpKey then shown (ListView (if sel > 0 then sel - 1 else sel) None)
      else if k = DownKey then shown (ListView (if sel < length (getListItems d) - 1 then sel + 1 else sel) None)
      else shown (ListView sel None))"

definition overlay_key :: "editor_keys \<Rightarrow> review_key \<Rightarrow> overlay \<Rightarrow> overlay_step" where
  "overlay_key ed k ov =
     (let d = ov_draft ov in
      case ov_view ov of
        ListView sel hint \<Rightarrow> list_key k d sel
      | ItemView sel item e \<Rightarrow> (case item_key ed k d item e of
            (d', None) \<Rightarrow> Shown \<lparr>ov_draft = d', ov_view = list_view d' sel\<rparr>
          | (d', Some e') \<Rightarrow> Shown \<lparr>ov_draft = d', ov_view = ItemView sel item e'\<rparr>)
      | CardsView sel i e \<Rightarrow> (case item_key ed k d TasksItem e of
            (d', None) \<Rightarrow> Shown \<lparr>ov_draft = d', ov_view = list_view d' sel\<rparr>
          | (d', Some e') \<Rightarrow> Shown \<lparr>ov_draft = d', ov_view = CardsView sel (turn_card k d e i) e'\<rparr>))"

definition open_review :: "plan_draft \<Rightarrow> overlay" where
  "open_review d = \<lparr>ov_draft = d, ov_view = list_view d 0\<rparr>"

text \<open>
  A decision the user makes: the item, approved or to be revised, and the content it shows at that
  moment.
\<close>

datatype decision = Decision review_item bool item_content

fun viewed :: "review_view \<Rightarrow> (review_item \<times> item_editor) option" where
  "viewed (ListView sel hint) = None"
| "viewed (ItemView sel item e) = Some (item, e)"
| "viewed (CardsView sel i e) = Some (TasksItem, e)"

definition item_decision :: "review_key \<Rightarrow> plan_draft \<Rightarrow> review_item \<Rightarrow> item_editor \<Rightarrow> decision list" where
  "item_decision k d item e =
     (if ed_focused e then []
      else if is_letter (CHR ''a'') k then [Decision item True (item_content d item)]
      else if is_letter (CHR ''r'') k then [Decision item False (item_content d item)]
      else [])"

definition decision_of :: "review_key \<Rightarrow> overlay \<Rightarrow> decision list" where
  "decision_of k ov = (case viewed (ov_view ov) of
     None \<Rightarrow> [] | Some (item, e) \<Rightarrow> item_decision k (ov_draft ov) item e)"

text \<open>
  The loop over the keys of a user, until the overlay closes; the verdict is \<open>None\<close> while it is still
  shown. The second component lists the decisions made.
\<close>

fun review_run :: "editor_keys \<Rightarrow> review_key list \<Rightarrow> overlay \<Rightarrow> (plan_draft \<times> review_verdict option) \<times> decision list" where
  "review_run ed [] ov = ((ov_draft ov, None), [])"
| "review_run ed (k # ks) ov = (case overlay_key ed k ov of
     Closed d v \<Rightarrow> ((d, Some v), decision_of k ov)
   | Shown ov' \<Rightarrow> (case review_run ed ks ov' of (r, ds) \<Rightarrow> (r, decision_of k ov @ ds)))"

definition showReviewOverlay :: "editor_keys \<Rightarrow> review_key list \<Rightarrow> plan_draft \<Rightarrow> (plan_draft \<times> review_verdict option) \<times> decision list" where
  "showReviewOverlay ed ks d = review_run ed ks (open_review d)"

section \<open>What is shown\<close>

text \<open>A line of the list: under the cursor or not, the marker, the title and a preview of the content.\<close>

datatype list_line = ListLine bool "review_marker \<times> bool" string string

definition preview :: "string \<Rightarrow> string" where
  "preview s = (if length s > 40 then take 40 s @ [ellipsis] else s)"

definition list_line :: "plan_draft \<Rightarrow> bool \<Rightarrow> review_item \<Rightarrow> list_line" where
  "list_line d cur item = (case item of
     GoalContextItem \<Rightarrow> ListLine cur (reviewMarker (deriveGoalContextReviewState d)) ''Goal'' (preview (ps_content (pd_goal d)))
   | SectionItem n \<Rightarrow> ListLine cur (reviewMarker (review_of d n)) (sectionDisplayName n) (preview (content_of d n))
   | TasksItem \<Rightarrow> ListLine cur (reviewMarker (pd_tasksReview d)) ''Tasks'' (show_nat (length (pd_tasks d)) @ '' tasks''))"

definition renderListView :: "review_item list \<Rightarrow> nat \<Rightarrow> plan_draft \<Rightarrow> list_line list" where
  "renderListView items selected d = map (\<lambda>(i, item). list_line d (i = selected) item) (indexed items)"

datatype content_line = TitleLine "review_marker \<times> bool" string | BlankLine | ContentLine string | LabelledLine string string

definition renderDrillDownContent :: "plan_draft \<Rightarrow> review_item \<Rightarrow> content_line list" where
  "renderDrillDownContent d item = (case item of
     GoalContextItem \<Rightarrow>
       [TitleLine (reviewMarker (deriveGoalContextReviewState d)) ''Goal'', BlankLine, ContentLine (ps_content (pd_goal d)),
        BlankLine, LabelledLine ''Context'' (ps_content (pd_context d))]
   | SectionItem n \<Rightarrow>
       [TitleLine (reviewMarker (review_of d n)) (sectionDisplayName n), BlankLine, ContentLine (content_of d n)]
   | TasksItem \<Rightarrow> [])"

definition renderCard :: "task list \<Rightarrow> nat \<Rightarrow> content_line list" where
  "renderCard tasks i = (let t = tasks ! i in
     [LabelledLine (''['' @ show_nat i @ '']'') (t_label t), BlankLine, LabelledLine ''Description'' (t_description t),
      BlankLine, LabelledLine ''Criteria'' (t_criteria t)])"

definition card_header :: "plan_draft \<Rightarrow> nat \<Rightarrow> content_line list" where
  "card_header d i = [TitleLine (reviewMarker (pd_tasksReview d)) ''Tasks'',
     ContentLine (show_nat (i + 1) @ '' of '' @ show_nat (length (pd_tasks d)))]"

text \<open>The read-only view of an approved plan, and the keys that close it.\<close>

definition read_only_lines :: "plan_ref \<Rightarrow> string list" where
  "read_only_lines p =
     [sectionDisplayName Background, pr_context p, [], sectionDisplayName Design, pr_design p, [],
      sectionDisplayName Success, pr_success p, [], sectionDisplayName Boundaries, pr_boundaries p, []]"

definition read_only_closes :: "review_key list \<Rightarrow> bool" where
  "read_only_closes ks \<longleftrightarrow> Escape \<in> set ks"

section \<open>Decisions stand for what was shown\<close>

definition last_decision :: "review_item \<Rightarrow> decision list \<Rightarrow> (bool \<times> item_content) option" where
  "last_decision item ds = map_of (rev (map (\<lambda>d. case d of Decision i v c \<Rightarrow> (i, (v, c))) ds)) item"

lemma last_decision_simps [simp]:
  "last_decision item [] = None"
  "last_decision item (ds @ [Decision i v c]) = (if i = item then Some (v, c) else last_decision item ds)"
  by (simp_all add: last_decision_def)

text \<open>Every approved item of the draft was last decided by an approval of the content it has.\<close>

definition decided_draft :: "plan_draft \<Rightarrow> decision list \<Rightarrow> bool" where
  "decided_draft d ds \<longleftrightarrow> (\<forall>item \<in> set REVIEW_ITEMS.
     item_approved d item \<longrightarrow> last_decision item ds = Some (True, item_content d item))"

definition view_ok :: "review_view \<Rightarrow> bool" where
  "view_ok v \<longleftrightarrow> (case viewed v of None \<Rightarrow> True | Some (item, e) \<Rightarrow> item \<in> set REVIEW_ITEMS)"

lemma view_ok_simps [simp]:
  "view_ok (ListView sel hint)" "view_ok (list_view d sel)"
  "view_ok (ItemView sel item e) \<longleftrightarrow> item \<in> set REVIEW_ITEMS" "view_ok (CardsView sel i e)"
  by (simp_all add: view_ok_def list_view_def REVIEW_ITEMS_def)

lemma tasks_item [simp]: "TasksItem \<in> set REVIEW_ITEMS"
  by (simp add: REVIEW_ITEMS_def)

lemma decided_save [simp]:
  assumes "item \<in> set REVIEW_ITEMS"
  shows "decided_draft (save_feedback value d item) ds \<longleftrightarrow> decided_draft d ds"
  using assms by (auto simp: decided_draft_def save_feedback_def item_approved_def getItemReview_set)

lemma decided_decide:
  assumes "item \<in> set REVIEW_ITEMS" "decided_draft d ds"
  shows "decided_draft (decide d item v) (ds @ [Decision item v (item_content d item)])"
  using assms by (auto simp: decided_draft_def decide_def item_approved_def getItemReview_set)

lemma is_letter_keys [simp]: "\<not> is_letter c Escape"
  by (simp add: is_letter_def)

lemma decided_editor_key:
  "item \<in> set REVIEW_ITEMS \<Longrightarrow> decided_draft d ds \<Longrightarrow> decided_draft (fst (editor_key ed k d item e)) ds"
  by (simp add: editor_key_def split: prod.split option.split)

lemma item_key_draft:
  "fst (item_key ed k d item e) =
     (if ed_focused e then fst (editor_key ed k d item e)
      else if is_letter (CHR ''a'') k then decide d item True
      else if is_letter (CHR ''r'') k then decide d item False else d)"
  by (auto simp: item_key_def split: prod.split)

lemma decided_item_key:
  assumes "item \<in> set REVIEW_ITEMS" "decided_draft d ds"
  shows "decided_draft (fst (item_key ed k d item e)) (ds @ item_decision k d item e)"
  by (simp add: item_key_draft item_decision_def decided_editor_key decided_decide assms)

text \<open>The contents, and so the items, stay as they are.\<close>

definition same_plan :: "plan_draft \<Rightarrow> plan_draft \<Rightarrow> bool" where
  "same_plan d d' \<longleftrightarrow> (\<forall>n. content_of d' n = content_of d n) \<and> pd_tasks d' = pd_tasks d
     \<and> pd_worktreeSlug d' = pd_worktreeSlug d"

lemma same_plan_simps [simp]:
  "same_plan d d" "same_plan d (save_feedback value d item)" "same_plan d (decide d item v)"
  by (simp_all add: same_plan_def save_feedback_def decide_def)

lemma same_plan_item_key: "same_plan d (fst (item_key ed k d item e))"
  by (simp add: item_key_draft editor_key_def split: prod.split option.split)

fun step_draft :: "overlay_step \<Rightarrow> plan_draft" where
  "step_draft (Shown ov) = ov_draft ov"
| "step_draft (Closed d v) = d"

lemma list_key_draft [simp]: "step_draft (list_key k d sel) = d"
  by (simp add: list_key_def Let_def)

lemma item_step_draft [simp]:
  "step_draft (case item_key ed k d item e of
     (d', None) \<Rightarrow> Shown \<lparr>ov_draft = d', ov_view = f d'\<rparr>
   | (d', Some e') \<Rightarrow> Shown \<lparr>ov_draft = d', ov_view = g e'\<rparr>) = fst (item_key ed k d item e)"
  by (simp split: prod.split option.split)

lemma overlay_key_same: "same_plan (ov_draft ov) (step_draft (overlay_key ed k ov))"
  by (cases "ov_view ov") (simp_all add: overlay_key_def Let_def same_plan_item_key)

text \<open>The cursor stays on the list; then the item opened is one of the draft's.\<close>

definition overlay_ok :: "overlay \<Rightarrow> bool" where
  "overlay_ok ov \<longleftrightarrow> view_ok (ov_view ov) \<and>
     (case ov_view ov of ListView sel hint \<Rightarrow> sel < length (getListItems (ov_draft ov)) | _ \<Rightarrow> True)"

lemma list_items_not_Nil [simp]: "getListItems d \<noteq> []"
  by (simp add: getListItems_def)

lemma min_listed [simp]: "min sel (length (getListItems d) - Suc 0) < length (getListItems d)"
proof -
  have "0 < length (getListItems d)" by simp
  then show ?thesis by linarith
qed

lemma overlay_ok_list [simp]: "overlay_ok \<lparr>ov_draft = d, ov_view = list_view d sel\<rparr>"
  by (simp add: overlay_ok_def list_view_def)

lemma overlay_ok_open [simp]: "overlay_ok (open_review d)"
  by (simp add: open_review_def)

lemma overlay_ok_item: "overlay_ok \<lparr>ov_draft = d, ov_view = ItemView sel item e\<rparr> \<longleftrightarrow> item \<in> set REVIEW_ITEMS"
  "overlay_ok \<lparr>ov_draft = d, ov_view = CardsView sel i e\<rparr>"
  "overlay_ok \<lparr>ov_draft = d, ov_view = ListView sel hint\<rparr> \<longleftrightarrow> sel < length (getListItems d)"
  by (simp_all add: overlay_ok_def)

lemma overlay_ok_opened: "sel < length (getListItems d) \<Longrightarrow> overlay_ok \<lparr>ov_draft = d, ov_view = open_item d sel\<rparr>"
  using nth_mem [of sel "getListItems d"] listed_items [of d]
  by (auto simp: open_item_def overlay_ok_item Let_def)

lemma list_key_ok:
  "sel < length (getListItems d) \<Longrightarrow> list_key k d sel = Shown ov \<Longrightarrow> overlay_ok ov"
  by (auto simp: list_key_def Let_def overlay_ok_item overlay_ok_opened split: if_splits)

lemma overlay_key_ok:
  assumes "overlay_ok ov" "overlay_key ed k ov = Shown ov'"
  shows "overlay_ok ov'"
proof (cases "ov_view ov")
  case (ListView sel hint)
  with assms have "sel < length (getListItems (ov_draft ov))" by (simp add: overlay_ok_def)
  with assms(2) ListView show ?thesis by (auto simp: overlay_key_def Let_def intro: list_key_ok)
next
  case (ItemView sel item e)
  with assms have "item \<in> set REVIEW_ITEMS" by (simp add: overlay_ok_def)
  with assms(2) ItemView show ?thesis
    by (auto simp: overlay_key_def overlay_ok_item Let_def split: prod.splits option.splits)
next
  case (CardsView sel i e)
  with assms(2) show ?thesis by (auto simp: overlay_key_def overlay_ok_item Let_def split: prod.splits option.splits)
qed

lemma overlay_key_decided:
  assumes "overlay_ok ov" "decided_draft (ov_draft ov) ds"
  shows "decided_draft (step_draft (overlay_key ed k ov)) (ds @ decision_of k ov)"
  using assms by (cases "ov_view ov") (simp_all add: overlay_key_def overlay_ok_def decision_of_def decided_item_key Let_def)

lemma same_plan_trans: "same_plan a b \<Longrightarrow> same_plan b c \<Longrightarrow> same_plan a c"
  by (simp add: same_plan_def)

lemma review_run_keeps:
  assumes "overlay_ok ov" "decided_draft (ov_draft ov) ds" "review_run ed ks ov = ((d, v), made)"
  shows "decided_draft d (ds @ made) \<and> same_plan (ov_draft ov) d \<and> (v = Some Submit \<longrightarrow> countPending d = 0)"
  using assms
proof (induction ks arbitrary: ov ds made)
  case Nil
  then show ?case by auto
next
  case (Cons k ks)
  note keeps = overlay_key_decided [OF Cons.prems(1,2), of ed k] overlay_key_same [of ov ed k]
  show ?case
  proof (cases "overlay_key ed k ov")
    case (Shown ov')
    with Cons.prems obtain made' where made': "review_run ed ks ov' = ((d, v), made')" "made = decision_of k ov @ made'"
      by (auto split: prod.splits)
    have ok: "overlay_ok ov'" using Cons.prems(1) Shown by (rule overlay_key_ok)
    have "decided_draft (ov_draft ov') (ds @ decision_of k ov)" using keeps(1) Shown by simp
    from Cons.IH [OF ok this made'(1)] keeps(2) Shown made'(2) show ?thesis
      by (auto intro: same_plan_trans)
  next
    case (Closed d' v')
    have "v' = Submit \<Longrightarrow> countPending d' = 0"
      using Closed by (auto simp: overlay_key_def list_key_def Let_def split: review_view.splits if_splits prod.splits option.splits)
    with Closed Cons.prems(3) keeps show ?thesis by auto
  qed
qed

lemma showReviewOverlay_keeps:
  assumes "decided_draft d ds" "showReviewOverlay ed ks d = ((d', v), made)"
  shows "decided_draft d' (ds @ made)" "same_plan d d'" "v = Some Submit \<Longrightarrow> countPending d' = 0"
  using review_run_keeps [of "open_review d" ds ed ks d' v made] assms
  by (auto simp: showReviewOverlay_def open_review_def)

section \<open>Leaving the review\<close>

text \<open>
  From every state of a plan review, pressing Escape four times closes it as declined, with the
  draft and the decisions as they are: no view and no text in the editor can hold the user.
\<close>

theorem four_escapes_decline:
  "review_run ed [Escape, Escape, Escape, Escape] ov = ((ov_draft ov, Some Decline), [])"
  by (cases "ov_view ov")
     (auto simp: overlay_key_def list_key_def item_key_def editor_key_def decision_of_def item_decision_def list_view_def Let_def)

end
