(* ===== verification/WorkspaceRuntime.thy ===== *)
theory WorkspaceRuntime
  imports Sweep Migrate Workspace
begin

text \<open>
  The workspace service and the life of a workspace in a session (\<open>pi/core/project/workspace/runtime.ts\<close>,
  \<open>session.ts\<close>, \<open>setup.ts\<close>): recognizing the repository and the worktree a session is launched in,
  activating and attaching worktrees with their leases, and the handlers of the start and the shutdown
  of a session, which migrate, restore, sweep and reap. A program here acts on the host with its
  trace and on the service, and both keep what happened before an error.
\<close>

section \<open>The service and its surroundings\<close>

text \<open>What the user is told; the texts are kept as their parts.\<close>

datatype notice =
    Restored string | Rebuilt string | RestoreSkipped string
  | SetupRunning | SetupTimedOut | SetupExited int | SetupError string
  | UnsafeReadOnly | UnsafeSubagent | UnsafeNonInteractive
  | Migrated nat string | NotMigrated nat string
  | Swept nat nat
  | Attached string | AttachFailed string
  | WorktreeNotice string
  | WorktreeActive string string

datatype ui_question = InUse string | Staged string | Uncommitted string | DeleteBranchToo string

datatype ui_event = Notified notice | Answered ui_question bool

text \<open>
  \<open>sv_told\<close> lists the states the listeners were called with, \<open>sv_ui\<close> what the user was told and asked, and
  \<open>sv_refused\<close> says that a save of the session state was refused since the listeners were last called; no
  definition reads them. \<open>sv_env\<close> is the environment of the process, and \<open>sh_saves\<close> the error a write of the
  session's state is refused with, if it is.
\<close>

record service =
  sv_state :: "workspace_state option"
  sv_sessionId :: "string option"
  sv_env :: env
  sv_session :: session_runtime
  sv_told :: "workspace_state list"
  sv_refused :: bool
  sv_ui :: "ui_event list"

record 'w session_host =
  sh_platform :: "'w platform"
  sh_parse_url :: "string \<Rightarrow> (string \<times> string) option"
  sh_legacy :: "string \<Rightarrow> int option"
  sh_number :: "string \<Rightarrow> int option"
  sh_clock :: "'w \<Rightarrow> nat \<times> 'w"
  sh_saves :: "'w \<Rightarrow> string option \<times> 'w"
  sh_readFile :: "string \<Rightarrow> ('w, string) io"
  sh_setup :: "string \<Rightarrow> string option"
  sh_run :: "exec_call \<Rightarrow> ('w, exec_result \<times> bool) io"

type_synonym 'w ws_world = "('w, host_event) tworld \<times> service"
type_synonym ('w, 'a) ws_io = "('w ws_world, 'a) io"

definition on_host :: "('w, 'a) host_io \<Rightarrow> ('w, 'a) ws_io" where
  "on_host m = (\<lambda>(t, s). case m t of (r, t') \<Rightarrow> (r, (t', s)))"

definition gets :: "(service \<Rightarrow> 'a) \<Rightarrow> ('w, 'a) ws_io" where
  "gets f = (\<lambda>(t, s). (Inr (f s), (t, s)))"

definition change :: "(service \<Rightarrow> service) \<Rightarrow> ('w, unit) ws_io" where
  "change f = (\<lambda>(t, s). (Inr (), (t, f s)))"

definition clock :: "'w session_host \<Rightarrow> ('w, nat) ws_io" where
  "clock h = on_host (untraced (\<lambda>w. case sh_clock h w of (n, w') \<Rightarrow> (Inr n, w')))"

definition save_answer :: "'w session_host \<Rightarrow> ('w, string option) ws_io" where
  "save_answer h = on_host (untraced (\<lambda>w. case sh_saves h w of (refused, w') \<Rightarrow> (Inr refused, w')))"

definition notify_ui :: "notice \<Rightarrow> ('w, unit) ws_io" where
  "notify_ui n = change (\<lambda>s. s\<lparr>sv_ui := sv_ui s @ [Notified n]\<rparr>)"

section \<open>The runtime\<close>

definition SCRATCH_ROOT :: string where "SCRATCH_ROOT = ''/tmp/pi''"

definition setWorkspaceEnv :: "workspace_state \<Rightarrow> env \<Rightarrow> env" where
  "setWorkspaceEnv st e = e
     (''BASECAMP_REPO'' \<mapsto> (case ws_repo st of Some r \<Rightarrow> rp_name r | None \<Rightarrow> basename (ws_scratchDir st)),
      ''BASECAMP_SCRATCH_DIR'' \<mapsto> ws_scratchDir st,
      ''BASECAMP_WORKTREE_DIR'' \<mapsto> (case ws_activeWorktree st of Some w \<Rightarrow> wt_path w | None \<Rightarrow> []),
      ''BASECAMP_WORKTREE_LABEL'' \<mapsto> (case ws_activeWorktree st of Some w \<Rightarrow> wt_label w | None \<Rightarrow> []))"

definition require :: "('w, workspace_state) ws_io" where
  "require = io_bind (gets sv_state) (\<lambda>st. case st of
     None \<Rightarrow> io_throw ''Workspace runtime is not initialized'' | Some st \<Rightarrow> io_return st)"

definition require_repo :: "workspace_state \<Rightarrow> ('w, repo_context) ws_io" where
  "require_repo st = (case ws_repo st of
     None \<Rightarrow> io_throw ''Workspace worktrees require a git repository'' | Some repo \<Rightarrow> io_return repo)"

definition getEffectiveCwd :: "'w session_host \<Rightarrow> service \<Rightarrow> string" where
  "getEffectiveCwd h s = (case sv_state s of None \<Rightarrow> pf_cwd (sh_platform h) | Some st \<Rightarrow> ws_effectiveCwd st)"

text \<open>The state is set, shown in the environment, and the listeners are told.\<close>

definition install_state :: "workspace_state \<Rightarrow> service \<Rightarrow> service" where
  "install_state st s = s\<lparr>sv_state := Some st, sv_env := setWorkspaceEnv st (sv_env s),
     sv_told := sv_told s @ [st], sv_refused := False\<rparr>"

text \<open>The save may be refused; its error is thrown, and the session's state is then as it was.\<close>

definition remember_worktree :: "'w session_host \<Rightarrow> active_worktree option \<Rightarrow> ('w, unit) ws_io" where
  "remember_worktree h a = (case a of None \<Rightarrow> io_return ()
     | Some _ \<Rightarrow>
         io_bind (clock h) (\<lambda>now. io_bind (save_answer h) (\<lambda>refused. io_bind (gets sv_session) (\<lambda>r.
         case updateCurrentSessionStateIfInitialized refused (no_patch\<lparr>sp_activeWorktree := Some a\<rparr>) (toISOString now) r of
           Inl e \<Rightarrow> io_bind (change (\<lambda>s. s\<lparr>sv_refused := True\<rparr>)) (\<lambda>_. io_throw e)
         | Inr r' \<Rightarrow> change (\<lambda>s. s\<lparr>sv_session := r'\<rparr>)))))"

text \<open>The state is changed first: an error of the save leaves it changed, with the environment as it was.\<close>

definition applyWorktree :: "'w session_host \<Rightarrow> session_worktree \<Rightarrow> ('w, session_worktree) ws_io" where
  "applyWorktree h target =
     io_bind require (\<lambda>st.
     let st1 = st\<lparr>ws_activeWorktree := Some target\<rparr>;
         st2 = st1\<lparr>ws_effectiveCwd := computeEffectiveCwd (pf_cwd (sh_platform h)) st1\<rparr> in
     io_bind (change (\<lambda>s. s\<lparr>sv_state := Some st2\<rparr>)) (\<lambda>_.
     io_bind (clock h) (\<lambda>built.
     io_bind (remember_worktree h (buildActiveWorktreeState (toISOString built) st2 target)) (\<lambda>_.
     io_bind (change (install_state st2)) (\<lambda>_.
     io_return target)))))"

definition leaseActiveWorktree :: "'w session_host \<Rightarrow> ('w, unit) ws_io" where
  "leaseActiveWorktree h =
     io_bind (gets sv_sessionId) (\<lambda>sid.
     if \<not> truthy_str sid then io_return ()
     else io_bind (gets sv_state) (\<lambda>st.
       case Option.bind st (\<lambda>st. case (ws_repo st, ws_activeWorktree st) of (Some r, Some w) \<Rightarrow> Some (r, w) | _ \<Rightarrow> None) of
         None \<Rightarrow> io_return ()
       | Some (repo, w) \<Rightarrow>
           if wt_kind w \<noteq> ''git-worktree'' then io_return ()
           else io_ignore (io_bind (clock h) (\<lambda>now.
             on_host (acquireSessionLease (sh_legacy h) (sh_platform h) (rp_root repo) (wt_path w) (the sid) now)))))"

definition worktreeResultToWorkspaceWorktree :: "worktree_result \<Rightarrow> session_worktree" where
  "worktreeResultToWorkspaceWorktree wt =
     \<lparr>wt_kind = ''git-worktree'', wt_label = wo_label wt, wt_path = wo_worktreeDir wt,
      wt_branch = Some (wo_branch wt), wt_created = wo_created wt\<rparr>"

definition apply_and_lease :: "'w session_host \<Rightarrow> session_worktree \<Rightarrow> ('w, session_worktree) ws_io" where
  "apply_and_lease h w =
     io_bind (applyWorktree h w) (\<lambda>applied. io_bind (leaseActiveWorktree h) (\<lambda>_. io_return applied))"

definition activateWorktree :: "'w session_host \<Rightarrow> string \<Rightarrow> string option \<Rightarrow> ('w, session_worktree) ws_io" where
  "activateWorktree h label branch =
     io_bind require (\<lambda>st. io_bind (require_repo st) (\<lambda>repo.
     io_bind (on_host (getOrCreateWorktree (sh_platform h) (rp_root repo) (rp_name repo) label branch None)) (\<lambda>wt.
     apply_and_lease h (worktreeResultToWorkspaceWorktree wt))))"

definition attachWorktreePath :: "'w session_host \<Rightarrow> string \<Rightarrow> ('w, session_worktree) ws_io" where
  "attachWorktreePath h worktreeDir =
     io_bind require (\<lambda>st. io_bind (require_repo st) (\<lambda>repo.
     io_bind (on_host (attachWorktreeDir (sh_platform h) (rp_root repo) (rp_name repo) worktreeDir)) (\<lambda>wt.
     apply_and_lease h (worktreeResultToWorkspaceWorktree wt))))"

record initialize_options =
  in_launchCwd :: string
  in_sessionId :: "string option"
  in_unsafeEditFlag :: bool
  in_constraints :: unsafe_edit_constraints

text \<open>The linked worktree a session is launched in is recognized with the branch the listing gives, if any.\<close>

definition adoptWorktree :: "'w session_host \<Rightarrow> repo_context \<Rightarrow> string \<Rightarrow> ('w, unit) ws_io" where
  "adoptWorktree h repo toplevel =
     (let label = (case labelFromWorktreePath (sh_platform h) (rp_name repo) toplevel of Inr l \<Rightarrow> l | Inl _ \<Rightarrow> basename toplevel) in
      io_bind (io_catch
          (io_bind (on_host (gitWorktreeRecords (sh_platform h) (rp_root repo))) (\<lambda>records.
             io_return (findWorktreeRecord (sh_platform h) records toplevel)))
          (\<lambda>_. io_return None)) (\<lambda>record.
      io_bind (applyWorktree h \<lparr>wt_kind = ''git-worktree'', wt_label = label, wt_path = toplevel,
          wt_branch = Option.bind record wr_branch, wt_created = False\<rparr>) (\<lambda>_.
      leaseActiveWorktree h)))"

definition initial_state :: "string \<Rightarrow> git_info \<Rightarrow> workspace_state" where
  "initial_state launchCwd g =
     (let root = (case gi_mainRoot g of Some r \<Rightarrow> r | None \<Rightarrow> launchCwd);
          repo = (if gi_isRepo g
                  then Some \<lparr>rp_isRepo = True, rp_name = gi_repoName g, rp_root = root, rp_remoteUrl = gi_remoteUrl g\<rparr>
                  else None)
      in \<lparr>ws_launchCwd = launchCwd, ws_effectiveCwd = launchCwd,
          ws_scratchDir = path_join [SCRATCH_ROOT, string_or (gi_repoName g) (basename root)],
          ws_repo = repo, ws_protectedRoot = map_option rp_root repo,
          ws_activeWorktree = None, ws_unsafeEdit = False\<rparr>)"

definition initialize_ws ::
  "'w session_host \<Rightarrow> initialize_options \<Rightarrow> ('w, workspace_state \<times> unsafe_edit_result) ws_io" where
  "initialize_ws h opts =
     (let pf = sh_platform h; launchCwd = resolve pf (in_launchCwd opts) in
      io_bind (change (\<lambda>s. s\<lparr>sv_sessionId := in_sessionId opts\<rparr>)) (\<lambda>_.
      io_bind (on_host (resolveGitInfo (sh_parse_url h) pf launchCwd)) (\<lambda>g.
      let st0 = initial_state launchCwd g;
          st1 = st0\<lparr>ws_effectiveCwd := computeEffectiveCwd (pf_cwd pf) st0\<rparr>;
          (st2, unsafeEditResult) = applyUnsafeEditFlag st1 (in_unsafeEditFlag opts) (in_constraints opts) in
      io_bind (on_host (pmkdir pf (ws_scratchDir st2))) (\<lambda>_.
      io_bind (change (install_state st2)) (\<lambda>_.
      io_bind (case (gi_isLinkedWorktree g, ws_repo st2, gi_toplevel g) of
                 (True, Some repo, Some toplevel) \<Rightarrow>
                   if toplevel = [] then io_return () else adoptWorktree h repo toplevel
               | _ \<Rightarrow> io_return ()) (\<lambda>_.
      io_bind require (\<lambda>st. io_return (st, unsafeEditResult))))))))"

section \<open>The session\<close>

definition runWorktreeSetup :: "'w session_host \<Rightarrow> string \<Rightarrow> string \<Rightarrow> string \<Rightarrow> ('w, setup_result) ws_io" where
  "runWorktreeSetup h command worktreeDir repoRoot =
     io_bind (on_host (untraced (sh_run h \<lparr>xc_command = ''env'',
         xc_args = [''BASECAMP_REPO_ROOT='' @ repoRoot, ''bash'', ''-lc'', command], xc_cwd = Some worktreeDir\<rparr>)))
       (\<lambda>(result, killed). io_return
          \<lparr>sr_ran = True, sr_exitCode = ex_code result, sr_timedOut = killed, sr_stderrTail = tail (ex_stderr result)\<rparr>)"

text \<open>The setup of a new or rebuilt worktree; its failure is only told.\<close>

definition runRebuiltWorktreeSetup :: "'w session_host \<Rightarrow> string \<Rightarrow> string \<Rightarrow> session_worktree \<Rightarrow> ('w, unit) ws_io" where
  "runRebuiltWorktreeSetup h repoName repoRoot wt =
     (let setupCommand = sh_setup h repoName in
      if \<not> shouldRunWorktreeSetup (wt_created wt) setupCommand then io_return ()
      else io_bind (notify_ui SetupRunning) (\<lambda>_.
        io_catch
          (io_bind (runWorktreeSetup h (the setupCommand) (wt_path wt) repoRoot) (\<lambda>result.
             if sr_timedOut result then notify_ui SetupTimedOut
             else if sr_exitCode result \<noteq> 0 then notify_ui (SetupExited (sr_exitCode result))
             else io_return ()))
          (\<lambda>msg. notify_ui (SetupError msg))))"

definition WORKTREE_STATE_RESTORE_REASONS :: "string list" where
  "WORKTREE_STATE_RESTORE_REASONS = [''resume'', ''reload'', ''fork'']"

definition restore_saved :: "'w session_host \<Rightarrow> repo_context \<Rightarrow> session_worktree \<Rightarrow> ('w, unit) ws_io" where
  "restore_saved h repo saved =
     io_catch
       (io_bind (activateWorktree h (wt_label saved) (wt_branch saved)) (\<lambda>wt.
          if wt_created wt
          then io_bind (runRebuiltWorktreeSetup h (rp_name repo) (rp_root repo) wt) (\<lambda>_. notify_ui (Rebuilt (wt_label wt)))
          else notify_ui (Restored (wt_label wt))))
       (\<lambda>msg. notify_ui (RestoreSkipped msg))"

definition same_worktree :: "'w platform \<Rightarrow> workspace_state \<Rightarrow> active_worktree \<Rightarrow> bool" where
  "same_worktree pf st a = (case ws_activeWorktree st of None \<Rightarrow> False
     | Some w \<Rightarrow> resolve pf (wt_path w) = resolve pf (wt_path (aw_worktree a)))"

definition restoreActiveWorktreeState :: "'w session_host \<Rightarrow> ('w, unit) ws_io" where
  "restoreActiveWorktreeState h =
     io_bind require (\<lambda>st. case ws_repo st of
       None \<Rightarrow> io_return ()
     | Some repo \<Rightarrow>
         io_bind (gets (\<lambda>s. sr_current (sv_session s))) (\<lambda>current. case current of
           None \<Rightarrow> io_throw ''Basecamp session state is not initialized.''
         | Some doc \<Rightarrow> (case ss_activeWorktree doc of
             None \<Rightarrow> io_return ()
           | Some a \<Rightarrow>
               if \<not> workspaceMatchesActiveWorktreeState (pf_cwd (sh_platform h)) st a \<or> same_worktree (sh_platform h) st a
               then io_return () else restore_saved h repo (aw_worktree a))))"

definition notifyUnsafeEditResult :: "unsafe_edit_result \<Rightarrow> ('w, unit) ws_io" where
  "notifyUnsafeEditResult r = (case r of
     UeIgnoredReadOnly \<Rightarrow> notify_ui UnsafeReadOnly
   | UeIgnoredSubagent \<Rightarrow> notify_ui UnsafeSubagent
   | UeIgnoredNonInteractive \<Rightarrow> notify_ui UnsafeNonInteractive
   | _ \<Rightarrow> io_return ())"

definition migrateLegacyWorktreesForSession :: "'w session_host \<Rightarrow> string \<Rightarrow> bool \<Rightarrow> ('w, unit) ws_io" where
  "migrateLegacyWorktreesForSession h launchCwd sub =
     (if sub then io_return ()
      else io_ignore (io_bind require (\<lambda>st. case ws_repo st of
          None \<Rightarrow> io_return ()
        | Some repo \<Rightarrow>
            io_bind (on_host (migrateLegacyWorktrees (sh_platform h) (rp_root repo) (rp_name repo) launchCwd)) (\<lambda>result.
            io_bind (if mg_moved result \<noteq> [] then notify_ui (Migrated (length (mg_moved result)) (rp_name repo))
                     else io_return ()) (\<lambda>_.
            if mg_skipped result \<noteq> []
            then notify_ui (NotMigrated (length (mg_skipped result)) (join '', '' (map fst (mg_skipped result))))
            else io_return ())))))"

definition sweepSessionWorktreesForSession :: "'w session_host \<Rightarrow> bool \<Rightarrow> ('w, unit) ws_io" where
  "sweepSessionWorktreesForSession h sub =
     (if sub then io_return ()
      else io_ignore (io_bind require (\<lambda>st. case ws_repo st of
          None \<Rightarrow> io_return ()
        | Some repo \<Rightarrow>
            io_bind (clock h) (\<lambda>now.
            io_bind (on_host (sweepSessionWorktrees (sh_legacy h) (sh_platform h) (rp_root repo) (rp_name repo) (int now))) (\<lambda>result.
            if sw_reclaimed result \<noteq> [] \<or> sw_surfaced result \<noteq> []
            then notify_ui (Swept (length (sw_reclaimed result)) (length (sw_surfaced result)))
            else io_return ())))))"

text \<open>One line of a \<open>.env\<close> file. \<open>/^[A-Za-z_]\w*$/\<close> and \<open>replace(/^["']|["']$/g, "")\<close>.\<close>

definition env_name :: "string \<Rightarrow> bool" where
  "env_name s \<longleftrightarrow> (case s of [] \<Rightarrow> False
     | c # cs \<Rightarrow> (is_lower_alpha c \<or> is_upper_alpha c \<or> c = CHR ''_'') \<and> list_all (\<lambda>c. is_alnum c \<or> c = CHR ''_'') cs)"

definition is_quote :: "char \<Rightarrow> bool" where "is_quote c \<longleftrightarrow> c = CHR 0x22 \<or> c = CHR 0x27"

definition strip_quotes :: "string \<Rightarrow> string" where
  "strip_quotes v =
     (let v1 = (case v of [] \<Rightarrow> [] | c # cs \<Rightarrow> if is_quote c then cs else v)
      in if v1 \<noteq> [] \<and> is_quote (last v1) then butlast v1 else v1)"

definition dotenv_line :: "env \<Rightarrow> string \<Rightarrow> env" where
  "dotenv_line e line =
     (if startsWith line ''#'' then e
      else (case find_index (\<lambda>c. c = CHR ''='') line of
        None \<Rightarrow> e
      | Some eq \<Rightarrow>
          (let key = trim (take eq line); v = strip_quotes (trim (drop (eq + 1) line)) in
           if startsWith key ''BASECAMP_'' then e
           else if env_name key then e(key \<mapsto> v) else e)))"

definition dotenv_text :: "string \<Rightarrow> env \<Rightarrow> env" where
  "dotenv_text content e = foldl dotenv_line e (split_on (CHR 0x0A) content)"

definition loadDotenv :: "'w session_host \<Rightarrow> string \<Rightarrow> ('w, unit) ws_io" where
  "loadDotenv h root =
     io_ignore (io_bind (on_host (untraced (sh_readFile h (path_join [root, ''.env''])))) (\<lambda>content.
       change (\<lambda>s. s\<lparr>sv_env := dotenv_text content (sv_env s)\<rparr>)))"

definition shouldReapOnShutdown :: "string \<Rightarrow> int option \<Rightarrow> bool" where
  "shouldReapOnShutdown reason agentDepth \<longleftrightarrow> agentDepth = Some 0 \<and> reason = ''quit''"

record session_flags =
  sf_worktreeDir :: "string option"
  sf_nc :: bool
  sf_readOnly :: bool
  sf_unsafeEdit :: bool
  sf_unsafeSandboxed :: bool
  sf_hasUI :: bool
  sf_cwd :: string
  sf_sessionId :: string
  sf_reason :: string

definition start_options :: "'w session_host \<Rightarrow> session_flags \<Rightarrow> env \<Rightarrow> initialize_options" where
  "start_options h f e =
     (let sub = isSubagent (sh_number h) e in
      \<lparr>in_launchCwd = resolve (sh_platform h) (sf_cwd f),
       in_sessionId = (if sub then None else Some (sf_sessionId f)),
       in_unsafeEditFlag = sf_unsafeEdit f,
       in_constraints = \<lparr>ue_readOnly = sf_readOnly f, ue_hasUI = sf_hasUI f, ue_isSubagent = sub,
         ue_sandboxed = (sf_unsafeSandboxed f \<and> getBasecampEnv e ''BASECAMP_EXTERNAL_SANDBOX'' = Some ''1'')\<rparr>\<rparr>)"

definition attach_or_restore :: "'w session_host \<Rightarrow> session_flags \<Rightarrow> bool \<Rightarrow> ('w, unit) ws_io" where
  "attach_or_restore h f sub =
     (if truthy_str (sf_worktreeDir f) then
        io_catch (io_bind (attachWorktreePath h (the (sf_worktreeDir f))) (\<lambda>wt. notify_ui (Attached (wt_label wt))))
          (\<lambda>msg. notify_ui (AttachFailed msg))
      else if \<not> sub \<and> sf_reason f \<in> set WORKTREE_STATE_RESTORE_REASONS then restoreActiveWorktreeState h
      else io_return ())"

definition finish_start :: "'w session_host \<Rightarrow> unsafe_edit_result \<Rightarrow> ('w, unit) ws_io" where
  "finish_start h r =
     io_bind (notifyUnsafeEditResult r) (\<lambda>_.
     io_bind require (\<lambda>st.
     io_bind (loadDotenv h (case ws_repo st of Some repo \<Rightarrow> rp_root repo | None \<Rightarrow> ws_launchCwd st)) (\<lambda>_.
     on_host (pmkdir (sh_platform h) (path_join [ws_scratchDir st, ''pull-requests''])))))"

definition workspace_session_start :: "'w session_host \<Rightarrow> session_flags \<Rightarrow> ('w, unit) ws_io" where
  "workspace_session_start h f =
     io_bind (gets sv_env) (\<lambda>e.
     let sub = isSubagent (sh_number h) e; opts = start_options h f e in
     io_bind (initialize_ws h opts) (\<lambda>(_, unsafeEditResult).
     io_bind (migrateLegacyWorktreesForSession h (in_launchCwd opts) sub) (\<lambda>_.
     io_bind (attach_or_restore h f sub) (\<lambda>_.
     io_bind (if \<not> sf_nc f then sweepSessionWorktreesForSession h sub else io_return ()) (\<lambda>_.
     finish_start h unsafeEditResult)))))"

definition workspace_session_shutdown :: "'w session_host \<Rightarrow> string \<Rightarrow> string \<Rightarrow> ('w, unit) ws_io" where
  "workspace_session_shutdown h reason sessionId =
     io_bind (gets (\<lambda>s. getAgentDepth (sh_number h) (sv_env s))) (\<lambda>depth.
     if \<not> shouldReapOnShutdown reason depth then io_return ()
     else io_bind (gets sv_state) (\<lambda>st.
       case Option.bind st (\<lambda>st. case (ws_repo st, ws_activeWorktree st) of (Some r, Some w) \<Rightarrow> Some (r, w) | _ \<Rightarrow> None) of
         None \<Rightarrow> io_return ()
       | Some (repo, w) \<Rightarrow>
           if wt_kind w \<noteq> ''git-worktree'' then io_return ()
           else io_ignore (io_bind (on_host (reapOwnedSessionWorktree (sh_legacy h) (sh_platform h) (rp_root repo) (wt_path w) sessionId))
                  (\<lambda>_. io_return ()))))"

section \<open>Assertions on the trace and the service\<close>

definition holds :: "(host_event list \<Rightarrow> service \<Rightarrow> bool) \<Rightarrow> 'w ws_world \<Rightarrow> bool" where
  "holds P = (\<lambda>(t, s). P (tw_log t) s)"

lemma holds_simps [simp]: "holds P (t, s) = P (tw_log t) s"
  by (simp add: holds_def)

definition wkeeps :: "(host_event list \<Rightarrow> service \<Rightarrow> bool) \<Rightarrow> ('w, 'a) ws_io \<Rightarrow> bool" where
  "wkeeps P m \<longleftrightarrow> hoare (holds P) m (\<lambda>_. holds P) (holds P)"

named_theorems wkeeps_intros \<open>programs that keep an assertion on the trace and the service\<close>

lemma wkeeps_basic [wkeeps_intros]:
  "wkeeps P (io_return x)" "wkeeps P (io_throw e)"
  "wkeeps P m \<Longrightarrow> (\<And>x. wkeeps P (k x)) \<Longrightarrow> wkeeps P (io_bind m k)"
  "wkeeps P n \<Longrightarrow> (\<And>e. wkeeps P (g e)) \<Longrightarrow> wkeeps P (io_catch n g)"
  "wkeeps P c \<Longrightarrow> wkeeps P (io_ignore c)"
  unfolding wkeeps_def by (auto intro!: hoare_basic hoare_ignore intro: hoare_weaken)

lemma wkeeps_cases [wkeeps_intros]:
  "(b \<Longrightarrow> wkeeps P m) \<Longrightarrow> (\<not> b \<Longrightarrow> wkeeps P n) \<Longrightarrow> wkeeps P (if b then m else n)"
  "(x = None \<Longrightarrow> wkeeps P m) \<Longrightarrow> (\<And>y. x = Some y \<Longrightarrow> wkeeps P (k y)) \<Longrightarrow> wkeeps P (case x of None \<Rightarrow> m | Some y \<Rightarrow> k y)"
  "(\<And>a b. wkeeps P (j a b)) \<Longrightarrow> wkeeps P (case q of (a, b) \<Rightarrow> j a b)"
  by (cases x; cases q; simp)+

lemma wkeeps_on_host [wkeeps_intros]: "(\<And>s. stable (\<lambda>l. P l s) m) \<Longrightarrow> wkeeps P (on_host m)"
  unfolding wkeeps_def
proof (rule hoareI)
  fix t e t' assume st: "\<And>s. stable (\<lambda>l. P l s) m" and "holds P t" "on_host m t = (Inl e, t')"
  then show "holds P t'" using stable_run [OF st] by (force simp: on_host_def holds_def split: prod.splits)
next
  fix t x t' assume st: "\<And>s. stable (\<lambda>l. P l s) m" and "holds P t" "on_host m t = (Inr x, t')"
  then show "holds P t'" using stable_run [OF st] by (force simp: on_host_def holds_def split: prod.splits)
qed

lemma wkeeps_change [wkeeps_intros]: "(\<And>l s. P l s \<Longrightarrow> P l (f s)) \<Longrightarrow> wkeeps P (change f)"
  unfolding wkeeps_def by (rule hoareI) (auto simp: change_def)

lemma wkeeps_gets [wkeeps_intros]: "wkeeps P (gets f)"
  unfolding wkeeps_def by (rule hoareI) (auto simp: gets_def)

text \<open>The clock and the answer of a save change neither the trace nor the service, and do not throw.\<close>

lemma hoare_clock: "hoare (holds P) (clock h) (\<lambda>_. holds P) E"
  by (rule hoareI) (auto simp: clock_def on_host_def io_simps holds_def split: prod.splits)

definition may_refuse :: "'w session_host \<Rightarrow> bool" where
  "may_refuse h \<longleftrightarrow> (\<exists>w e. fst (sh_saves h w) = Some e)"

lemma hoare_save_answer:
  "hoare (holds P) (save_answer h) (\<lambda>x. holds (\<lambda>l s. P l s \<and> (x = None \<or> may_refuse h))) E"
proof (rule hoareI)
  fix w x w' assume "holds P w" "save_answer h w = (Inr x, w')"
  then have "holds P w'" "x = fst (sh_saves h (tw_host (fst w)))"
    by (auto simp: save_answer_def on_host_def io_simps holds_def split: prod.splits)
  then show "holds (\<lambda>l s. P l s \<and> (x = None \<or> may_refuse h)) w'"
    unfolding may_refuse_def by (cases x) (auto simp: holds_def split_beta)
qed (auto simp: save_answer_def on_host_def io_simps split: prod.splits)

lemma wkeeps_clock [wkeeps_intros]: "wkeeps P (clock h)"
  unfolding wkeeps_def by (rule hoare_clock)

lemma wkeeps_run: "wkeeps P m \<Longrightarrow> holds P w \<Longrightarrow> holds P (snd (m w))"
  unfolding wkeeps_def by (rule hoare_world)

text \<open>A value read from the service is still there until the service changes.\<close>

lemma hoare_gets:
  "(\<And>x. hoare (holds (\<lambda>l s. P l s \<and> f s = x)) (k x) Q E) \<Longrightarrow> hoare (holds P) (io_bind (gets f) k) Q E"
  by (rule hoareI) (force simp: hoare_def gets_def io_simps holds_def split: prod.splits)+

lemma wkeeps_with_gets:
  assumes "\<And>x. hoare (holds (\<lambda>l s. P l s \<and> f s = x)) (k x) (\<lambda>_. holds P) (holds P)"
  shows "wkeeps P (io_bind (gets f) k)"
  using hoare_gets [OF assms] unfolding wkeeps_def .

lemma wkeeps_forget:
  "wkeeps (\<lambda>l s. P l s \<and> R s) m \<Longrightarrow> hoare (holds (\<lambda>l s. P l s \<and> R s)) m (\<lambda>_. holds P) (holds P)"
  unfolding wkeeps_def by (erule hoare_weaken) (auto simp: holds_def)

lemma hoare_keep: "wkeeps P m \<Longrightarrow> (\<And>l s. P l s \<Longrightarrow> P' l s) \<Longrightarrow> hoare (holds P) m (\<lambda>_. holds P) (holds P')"
  unfolding wkeeps_def by (erule hoare_weaken) (auto simp: holds_def)

lemma hoare_change: "(\<And>l s. P l s \<Longrightarrow> Q l (f s)) \<Longrightarrow> hoare (holds P) (change f) (\<lambda>_. holds Q) E"
  by (rule hoareI) (auto simp: change_def)

lemma hoare_require:
  assumes "\<And>st. hoare (holds (\<lambda>l s. P l s \<and> sv_state s = Some st)) (k st) Q E" "\<And>w. holds P w \<Longrightarrow> E w"
  shows "hoare (holds P) (io_bind require k) Q E"
proof (rule hoareI)
  fix t e t' assume t: "holds P t" and run: "io_bind require k t = (Inl e, t')"
  obtain u s where w: "t = (u, s)" by fastforce
  show "E t'"
  proof (cases "sv_state s")
    case None
    with run w t assms(2) show ?thesis by (auto simp: require_def gets_def io_simps)
  next
    case (Some st)
    then have "k st t = (Inl e, t')" "holds (\<lambda>l s. P l s \<and> sv_state s = Some st) t"
      using run w t by (simp_all add: require_def gets_def io_simps)
    then show ?thesis using hoare_throws [OF assms(1)] by blast
  qed
next
  fix t x t' assume t: "holds P t" and run: "io_bind require k t = (Inr x, t')"
  obtain u s where w: "t = (u, s)" by fastforce
  then obtain st where st: "sv_state s = Some st"
    using run by (cases "sv_state s") (auto simp: require_def gets_def io_simps)
  then have "k st t = (Inr x, t')" "holds (\<lambda>l s. P l s \<and> sv_state s = Some st) t"
    using run w t by (simp_all add: require_def gets_def io_simps)
  then show "Q x t'" using hoare_returns [OF assms(1)] by blast
qed

lemma wkeeps_require [wkeeps_intros]:
  assumes "\<And>st. wkeeps (\<lambda>l s. P l s \<and> sv_state s = Some st) (k st) \<or> wkeeps P (k st)"
  shows "wkeeps P (io_bind require k)"
  unfolding wkeeps_def
proof (rule hoare_require)
  fix st
  show "hoare (holds (\<lambda>l s. P l s \<and> sv_state s = Some st)) (k st) (\<lambda>_. holds P) (holds P)"
    using assms [of st] unfolding wkeeps_def by (elim disjE) (erule hoare_weaken; simp add: holds_def split_beta)+
qed

section \<open>Assertions the service's operations keep\<close>

text \<open>\<open>gentle I\<close>: only commands that destroy can leave \<open>I\<close>.\<close>

definition gentle :: "(host_event list \<Rightarrow> bool) \<Rightarrow> bool" where
  "gentle I \<longleftrightarrow> (\<forall>c. \<not> destructive c \<longrightarrow> keeps I c) \<and> keeps_writes I"

lemma gentle_mild: "gentle I \<Longrightarrow> mild I"
  by (auto simp: gentle_def mild_def keeps_git_def destructive_def changing_verbs_def)

lemma gentle_lock:
  "gentle I \<Longrightarrow> keeps I (git_call (f # d # ''worktree'' # ''lock'' # args))"
  "gentle I \<Longrightarrow> keeps I (git_call (f # d # ''worktree'' # ''unlock'' # args))"
  "gentle I \<Longrightarrow> keeps I (git_call (f # d # ''worktree'' # ''add'' # args))"
  by (simp_all add: gentle_def destructive_def)

lemma gentle_add:
  "gentle I \<Longrightarrow> keeps I (git_call (if k then [''-C'', root, ''worktree'', ''add''] @ a else [''-C'', root, ''worktree'', ''add''] @ b))"
  by (simp add: gentle_def destructive_def)

lemma gentle_writes: "gentle I \<Longrightarrow> keeps_writes I"
  by (simp add: gentle_def)

lemma stable_attach [stable_intros]: "mild I \<Longrightarrow> stable I (attachWorktreeDir pf root name d)"
  unfolding attachWorktreeDir_def validateProtectedCheckout_def Let_def
  by (auto intro!: stable_intros simp: verb_simps)

lemma stable_getOrCreate: "gentle I \<Longrightarrow> stable I (getOrCreateWorktree pf root name label b r)"
  unfolding getOrCreateWorktree_def validateProtectedCheckout_def Let_def
  by (auto intro!: stable_intros gentle_add gentle_mild simp: verb_simps split del: if_split)

lemma stable_lease: "gentle I \<Longrightarrow> stable I (acquireSessionLease legacy pf root d sid now)"
  unfolding acquireSessionLease_def unlockWorktree_def lockWorktree_def Let_def
  by (auto intro!: stable_intros gentle_lock gentle_mild)

lemma mild_in: "mild I \<Longrightarrow> take 2 (drop 2 args) \<notin> set changing_verbs \<Longrightarrow> keeps I (git_in d args)"
  by (simp add: mild_def keeps_git_def git_in_def git_verb_def)

lemma stable_resolveGitInfo: "mild I \<Longrightarrow> stable I (resolveGitInfo parse_url pf d)"
  unfolding resolveGitInfo_def resolve_git_dirs_def resolve_remote_def Let_def
  by (auto intro!: stable_intros mild_in simp: verb_simps)

section \<open>What the steps of a session keep\<close>

text \<open>An assertion the choice of a worktree keeps, and those the taking of a lease keeps.\<close>

definition apply_closed :: "'w session_host \<Rightarrow> (host_event list \<Rightarrow> service \<Rightarrow> bool) \<Rightarrow> bool" where
  "apply_closed h P \<longleftrightarrow> (\<forall>l s st w r. P l s \<longrightarrow> sv_state s = Some st \<longrightarrow>
     (let st2 = st\<lparr>ws_activeWorktree := Some w,
            ws_effectiveCwd := computeEffectiveCwd (pf_cwd (sh_platform h)) (st\<lparr>ws_activeWorktree := Some w\<rparr>)\<rparr>
      in P l (install_state st2 (s\<lparr>sv_session := r\<rparr>))
         \<and> (may_refuse h \<longrightarrow> P l (s\<lparr>sv_state := Some st2, sv_session := r, sv_refused := True\<rparr>))))"

definition lease_closed :: "(host_event list \<Rightarrow> service \<Rightarrow> bool) \<Rightarrow> bool" where
  "lease_closed P \<longleftrightarrow> (\<forall>s. gentle (\<lambda>l. P l s)) \<or> (\<forall>l s. P l s \<longrightarrow> sv_sessionId s = None)"

definition ui_closed :: "(host_event list \<Rightarrow> service \<Rightarrow> bool) \<Rightarrow> bool" where
  "ui_closed P \<longleftrightarrow> (\<forall>l s us. P l s \<longrightarrow> P l (s\<lparr>sv_ui := us\<rparr>))"

text \<open>Saving the worktree changes the session's state, or is refused.\<close>

lemma hoare_remember:
  assumes "\<And>l s r. P l s \<Longrightarrow> P l (s\<lparr>sv_session := r\<rparr>)" "\<And>l s. P l s \<Longrightarrow> may_refuse h \<Longrightarrow> E l (s\<lparr>sv_refused := True\<rparr>)"
  shows "hoare (holds P) (remember_worktree h a) (\<lambda>_. holds P) (holds E)"
proof (cases a)
  case None
  then show ?thesis by (simp add: remember_worktree_def hoare_return)
next
  case (Some w)
  let ?save = "\<lambda>refused now r. updateCurrentSessionStateIfInitialized refused (no_patch\<lparr>sp_activeWorktree := Some (Some w)\<rparr>) now r"
  let ?told = "\<lambda>refused. \<lambda>l s. P l s \<and> (refused = None \<or> may_refuse h)"
  have body: "hoare (holds (?told refused)) (case ?save refused now r of
      Inl e \<Rightarrow> io_bind (change (\<lambda>s. s\<lparr>sv_refused := True\<rparr>)) (\<lambda>_. io_throw e)
    | Inr r' \<Rightarrow> change (\<lambda>s. s\<lparr>sv_session := r'\<rparr>)) (\<lambda>_. holds P) (holds E)" for refused now r
  proof (cases "?save refused now r")
    case (Inl e)
    then have "refused \<noteq> None" by (auto dest: update_refused)
    then have refused: "E l (s\<lparr>sv_refused := True\<rparr>)" if "?told refused l s" for l s using that assms(2) by blast
    show ?thesis
      unfolding Inl sum.case
      by (rule hoare_bind, rule hoare_change [where Q = E], erule refused) (rule hoare_throw)
  next
    case (Inr r')
    show ?thesis
      unfolding Inr sum.case by (rule hoare_change) (simp add: assms(1))
  qed
  show ?thesis
    unfolding Some remember_worktree_def option.case
    by (rule hoare_bind, rule hoare_clock, rule hoare_bind, rule hoare_save_answer, rule hoare_gets,
        rule hoare_weaken [OF body]) (auto simp: holds_def)
qed

lemma wkeeps_apply: "apply_closed h P \<Longrightarrow> wkeeps P (applyWorktree h w)"
  unfolding wkeeps_def applyWorktree_def Let_def
proof (rule hoare_require)
  fix st
  let ?st = "st\<lparr>ws_activeWorktree := Some w,
    ws_effectiveCwd := computeEffectiveCwd (pf_cwd (sh_platform h)) (st\<lparr>ws_activeWorktree := Some w\<rparr>)\<rparr>"
  let ?mid = "\<lambda>l s. \<exists>s0 r. P l s0 \<and> sv_state s0 = Some st \<and> s = s0\<lparr>sv_state := Some ?st, sv_session := r\<rparr>"
  assume closed: "apply_closed h P"
  have start: "hoare (holds (\<lambda>l s. P l s \<and> sv_state s = Some st)) (change (\<lambda>s. s\<lparr>sv_state := Some ?st\<rparr>)) (\<lambda>_. holds ?mid) (holds P)"
  proof (rule hoare_change)
    fix l s assume "P l s \<and> sv_state s = Some st"
    then show "?mid l (s\<lparr>sv_state := Some ?st\<rparr>)" by (intro exI [of _ s] exI [of _ "sv_session s"]) simp
  qed
  have saved: "hoare (holds ?mid) (remember_worktree h a) (\<lambda>_. holds ?mid) (holds P)" for a
  proof (rule hoare_remember)
    fix l s r assume "?mid l s" then show "?mid l (s\<lparr>sv_session := r\<rparr>)" by force
  next
    fix l s assume "?mid l s" "may_refuse h"
    with closed show "P l (s\<lparr>sv_refused := True\<rparr>)" unfolding apply_closed_def Let_def by force
  qed
  have last: "hoare (holds ?mid) (change (install_state ?st)) (\<lambda>_. holds P) (holds P)"
  proof (rule hoare_change)
    fix l s assume "?mid l s"
    then obtain s0 r where "P l s0" "sv_state s0 = Some st" and s: "s = s0\<lparr>sv_state := Some ?st, sv_session := r\<rparr>" by blast
    with closed have "P l (install_state ?st (s0\<lparr>sv_session := r\<rparr>))" unfolding apply_closed_def Let_def by blast
    moreover have "install_state ?st s = install_state ?st (s0\<lparr>sv_session := r\<rparr>)" unfolding s install_state_def by simp
    ultimately show "P l (install_state ?st s)" by simp
  qed
  show "hoare (holds (\<lambda>l s. P l s \<and> sv_state s = Some st))
     (io_bind (change (\<lambda>s. s\<lparr>sv_state := Some ?st\<rparr>)) (\<lambda>_. io_bind (clock h) (\<lambda>built.
      io_bind (remember_worktree h (buildActiveWorktreeState (toISOString built) ?st w)) (\<lambda>_.
      io_bind (change (install_state ?st)) (\<lambda>_. io_return w))))) (\<lambda>_. holds P) (holds P)"
    by (rule hoare_bind [OF start], rule hoare_bind, rule hoare_clock, rule hoare_bind [OF saved],
        rule hoare_bind [OF last], rule hoare_return)
qed simp

lemma hoare_no_session:
  assumes "\<forall>l s. P l s \<longrightarrow> sv_sessionId s = None"
  shows "hoare (holds (\<lambda>l s. P l s \<and> sv_sessionId s = sid)) (if \<not> truthy_str sid then io_return () else k) (\<lambda>_. holds P) (holds P)"
proof (cases sid)
  case None
  then have "(if \<not> truthy_str sid then io_return () else k) = io_return ()" by (simp add: truthy_str_def)
  then show ?thesis by (simp only:) (rule hoare_return, simp add: holds_def split_beta)
next
  case (Some x)
  with assms have no: "holds (\<lambda>l s. P l s \<and> sv_sessionId s = sid) = (\<lambda>_. False)" by (auto simp: holds_def fun_eq_iff)
  show ?thesis unfolding no by (simp add: hoare_def)
qed

lemma wkeeps_lease: "lease_closed P \<Longrightarrow> wkeeps P (leaseActiveWorktree h)"
proof -
  assume "lease_closed P"
  then consider "\<forall>s. gentle (\<lambda>l. P l s)" | "\<forall>l s. P l s \<longrightarrow> sv_sessionId s = None" by (auto simp: lease_closed_def)
  then show ?thesis
  proof cases
    case 1
    then show ?thesis
      unfolding leaseActiveWorktree_def by (auto intro!: wkeeps_intros stable_lease)
  next
    case 2
    show ?thesis
      unfolding leaseActiveWorktree_def wkeeps_def
      by (rule hoare_gets, rule hoare_no_session [OF 2])
  qed
qed

lemma wkeeps_ui: "ui_closed P \<Longrightarrow> wkeeps P (notify_ui n)"
  unfolding notify_ui_def by (rule wkeeps_change) (simp add: ui_closed_def)

lemma wkeeps_worktree:
  assumes "apply_closed h P" "lease_closed P"
  shows "(\<And>s. mild (\<lambda>l. P l s)) \<Longrightarrow> wkeeps P (attachWorktreePath h d)"
    and "(\<And>s. gentle (\<lambda>l. P l s)) \<Longrightarrow> wkeeps P (activateWorktree h label b)"
    and "(\<And>s. mild (\<lambda>l. P l s)) \<Longrightarrow> wkeeps P (adoptWorktree h repo d)"
  using assms
  unfolding attachWorktreePath_def activateWorktree_def adoptWorktree_def apply_and_lease_def require_def require_repo_def Let_def
  by (auto intro!: wkeeps_intros stable_intros stable_getOrCreate wkeeps_apply wkeeps_lease)

lemma wkeeps_setup: "ui_closed P \<Longrightarrow> wkeeps P (runRebuiltWorktreeSetup h name root wt)"
  unfolding runRebuiltWorktreeSetup_def runWorktreeSetup_def Let_def
  by (auto intro!: wkeeps_intros stable_intros wkeeps_ui)

lemma wkeeps_restore:
  assumes "apply_closed h P" "lease_closed P" "ui_closed P" "\<And>s. gentle (\<lambda>l. P l s)"
  shows "wkeeps P (restoreActiveWorktreeState h)"
  unfolding restoreActiveWorktreeState_def restore_saved_def require_def
  by (auto intro!: wkeeps_intros wkeeps_ui wkeeps_setup wkeeps_worktree assms)

lemma wkeeps_attach_or_restore:
  assumes "apply_closed h P" "lease_closed P" "ui_closed P" "(\<forall>s. gentle (\<lambda>l. P l s)) \<or> sub \<and> (\<forall>s. mild (\<lambda>l. P l s))"
  shows "wkeeps P (attach_or_restore h f sub)"
proof -
  have "mild (\<lambda>l. P l s)" for s using assms(4) gentle_mild by blast
  then have "wkeeps P (attachWorktreePath h d)" for d by (intro wkeeps_worktree assms)
  moreover have "wkeeps P (restoreActiveWorktreeState h)" if "\<not> sub" using assms that by (intro wkeeps_restore) auto
  ultimately show ?thesis
    unfolding attach_or_restore_def by (auto intro!: wkeeps_intros wkeeps_ui assms)
qed

lemma dotenv_line_protects: "startsWith k ''BASECAMP_'' \<Longrightarrow> dotenv_line e line k = e k"
  by (auto simp: dotenv_line_def Let_def split: option.splits)

lemma dotenv_protects: "startsWith k ''BASECAMP_'' \<Longrightarrow> dotenv_text content e k = e k"
proof -
  assume k: "startsWith k ''BASECAMP_''"
  have "foldl dotenv_line e ls k = e k" for ls
    by (induction ls arbitrary: e) (simp_all add: dotenv_line_protects [OF k])
  then show ?thesis by (simp add: dotenv_text_def)
qed

lemma wkeeps_finish:
  assumes "ui_closed P" "\<And>l s content. P l s \<Longrightarrow> P l (s\<lparr>sv_env := dotenv_text content (sv_env s)\<rparr>)" "\<And>s. mild (\<lambda>l. P l s)"
  shows "wkeeps P (finish_start h r)"
proof -
  have "wkeeps P (loadDotenv h root)" for root
    unfolding loadDotenv_def by (auto intro!: wkeeps_intros stable_intros assms)
  then show ?thesis
    unfolding finish_start_def notifyUnsafeEditResult_def require_def
    by (auto intro!: wkeeps_intros stable_intros wkeeps_ui assms split: unsafe_edit_result.split)
qed

text \<open>The state a session is given, whatever the repository.\<close>

definition fresh_state :: "'w session_host \<Rightarrow> initialize_options \<Rightarrow> workspace_state \<Rightarrow> bool" where
  "fresh_state h opts st \<longleftrightarrow> ws_activeWorktree st = None
     \<and> ws_effectiveCwd st = computeEffectiveCwd (pf_cwd (sh_platform h)) st
     \<and> ws_unsafeEdit st = (in_unsafeEditFlag opts \<and> \<not> ue_readOnly (in_constraints opts)
         \<and> (ue_sandboxed (in_constraints opts) \<or> ue_hasUI (in_constraints opts) \<and> \<not> ue_isSubagent (in_constraints opts)))"

lemma applied_fresh:
  assumes "ws_activeWorktree st = None" "ws_effectiveCwd st = ws_launchCwd st"
    "applyUnsafeEditFlag st (in_unsafeEditFlag opts) (in_constraints opts) = (st', r)"
  shows "fresh_state h opts st'"
  using assms by (auto simp: fresh_state_def applyUnsafeEditFlag_def computeEffectiveCwd_def Let_def split: if_splits)

lemma hoare_initialize:
  assumes id: "\<And>l s. P0 l s \<Longrightarrow> P l (s\<lparr>sv_sessionId := in_sessionId opts\<rparr>)"
    and closed: "apply_closed h Q" "lease_closed Q" "\<And>s. mild (\<lambda>l. P l s)" "\<And>s. mild (\<lambda>l. Q l s)"
    and inst: "\<And>l s st. P l s \<Longrightarrow> fresh_state h opts st \<Longrightarrow> Q l (install_state st s)"
    and E: "\<And>l s. P l s \<Longrightarrow> E l s" "\<And>l s. Q l s \<Longrightarrow> E l s"
  shows "hoare (holds P0) (initialize_ws h opts) (\<lambda>_. holds Q) (holds E)"
  unfolding initialize_ws_def Let_def
proof (rule hoare_bind, rule hoare_change [where Q = P], erule id, rule hoare_bind)
  let ?pf = "sh_platform h" and ?cwd = "resolve (sh_platform h) (in_launchCwd opts)"
  show "hoare (holds P) (on_host (resolveGitInfo (sh_parse_url h) ?pf ?cwd)) (\<lambda>_. holds P) (holds E)"
    by (intro hoare_keep wkeeps_on_host stable_resolveGitInfo closed E)
  fix g
  let ?st0 = "initial_state ?cwd g"
  let ?st1 = "?st0\<lparr>ws_effectiveCwd := computeEffectiveCwd (pf_cwd ?pf) ?st0\<rparr>"
  obtain st r where st: "applyUnsafeEditFlag ?st1 (in_unsafeEditFlag opts) (in_constraints opts) = (st, r)" by fastforce
  have "fresh_state h opts st"
    by (rule applied_fresh [OF _ _ st]) (simp_all add: initial_state_def computeEffectiveCwd_def Let_def)
  then have install: "hoare (holds P) (change (install_state st)) (\<lambda>_. holds Q) (holds E)"
    by (intro hoare_change inst)
  have mkdir: "hoare (holds P) (on_host (pmkdir ?pf (ws_scratchDir st))) (\<lambda>_. holds P) (holds E)"
    by (intro hoare_keep wkeeps_on_host stable_writes mild_writes closed E)
  have adopt: "wkeeps Q (case (gi_isLinkedWorktree g, ws_repo st, gi_toplevel g) of
       (True, Some repo, Some toplevel) \<Rightarrow> if toplevel = [] then io_return () else adoptWorktree h repo toplevel
     | _ \<Rightarrow> io_return ())"
    by (auto split: bool.split option.split intro!: wkeeps_intros wkeeps_worktree closed)
  have final: "wkeeps Q (io_bind require (\<lambda>st. io_return (st, r)))"
    unfolding require_def by (auto intro!: wkeeps_intros)
  show "hoare (holds P) (case applyUnsafeEditFlag ?st1 (in_unsafeEditFlag opts) (in_constraints opts) of
      (st2, unsafeEditResult) \<Rightarrow> io_bind (on_host (pmkdir ?pf (ws_scratchDir st2))) (\<lambda>_.
        io_bind (change (install_state st2)) (\<lambda>_.
        io_bind (case (gi_isLinkedWorktree g, ws_repo st2, gi_toplevel g) of
                 (True, Some repo, Some toplevel) \<Rightarrow>
                   if toplevel = [] then io_return () else adoptWorktree h repo toplevel
               | _ \<Rightarrow> io_return ()) (\<lambda>_.
        io_bind require (\<lambda>st. io_return (st, unsafeEditResult)))))) (\<lambda>_. holds Q) (holds E)"
    unfolding st prod.case
    by (rule hoare_bind [OF mkdir], rule hoare_bind [OF install], rule hoare_bind [OF hoare_keep [OF adopt [unfolded prod.case]]],
        rule E, assumption, rule hoare_keep [OF final], rule E)
qed

section \<open>The environment shows the workspace\<close>

text \<open>
  What the process's environment says of the workspace, where commands run, and what the listeners were
  told last are those of the state.
\<close>

definition mirrors :: "'w session_host \<Rightarrow> service \<Rightarrow> bool" where
  "mirrors h s = (case sv_state s of None \<Rightarrow> True
     | Some st \<Rightarrow> ws_effectiveCwd st = computeEffectiveCwd (pf_cwd (sh_platform h)) st
         \<and> sv_told s \<noteq> [] \<and> setWorkspaceEnv (last (sv_told s)) (sv_env s) = sv_env s
         \<and> (\<exists>a d. last (sv_told s) = st\<lparr>ws_activeWorktree := a, ws_effectiveCwd := d\<rparr>)
         \<and> (may_refuse h \<and> sv_refused s \<or> last (sv_told s) = st))"

section \<open>The trace is a ghost\<close>

text \<open>A program that does not read the trace adds the same events to any trace.\<close>

definition blind :: "('w, 'a) host_io \<Rightarrow> bool" where
  "blind m \<longleftrightarrow> (\<forall>w l. m \<lparr>tw_host = w, tw_log = l\<rparr> =
     (case m \<lparr>tw_host = w, tw_log = []\<rparr> of (r, t) \<Rightarrow> (r, t\<lparr>tw_log := l @ tw_log t\<rparr>)))"

named_theorems blind_intros \<open>programs that do not read the trace\<close>

lemma blindD:
  assumes "blind m" "m \<lparr>tw_host = w, tw_log = []\<rparr> = (r, \<lparr>tw_host = w', tw_log = s\<rparr>)"
  shows "m \<lparr>tw_host = w, tw_log = l\<rparr> = (r, \<lparr>tw_host = w', tw_log = l @ s\<rparr>)"
proof -
  have "m \<lparr>tw_host = w, tw_log = l\<rparr> = (case m \<lparr>tw_host = w, tw_log = []\<rparr> of (r, t) \<Rightarrow> (r, t\<lparr>tw_log := l @ tw_log t\<rparr>))"
    using assms(1) unfolding blind_def by blast
  then show ?thesis by (simp add: assms(2))
qed

text \<open>A run from an empty trace, and what it tells of a run from any other.\<close>

lemma blind_run:
  obtains r w' s where "m \<lparr>tw_host = w, tw_log = []\<rparr> = (r, \<lparr>tw_host = w', tw_log = s\<rparr>)"
proof -
  obtain r t where "m \<lparr>tw_host = w, tw_log = []\<rparr> = (r, t)" by fastforce
  with that [of r "tw_host t" "tw_log t"] show ?thesis by simp
qed

lemma blind_bind [blind_intros]:
  assumes m: "blind m" and k: "\<And>x. blind (k x)"
  shows "blind (io_bind m k)"
  unfolding blind_def
proof (intro allI)
  fix w l
  obtain r w1 s1 where run: "m \<lparr>tw_host = w, tw_log = []\<rparr> = (r, \<lparr>tw_host = w1, tw_log = s1\<rparr>)"
      using blind_run [of "m"] by blast
  show "io_bind m k \<lparr>tw_host = w, tw_log = l\<rparr> =
     (case io_bind m k \<lparr>tw_host = w, tw_log = []\<rparr> of (r, t) \<Rightarrow> (r, t\<lparr>tw_log := l @ tw_log t\<rparr>))"
  proof (cases r)
    case (Inr x)
    obtain r2 w2 s2 where run2: "k x \<lparr>tw_host = w1, tw_log = []\<rparr> = (r2, \<lparr>tw_host = w2, tw_log = s2\<rparr>)"
      using blind_run [of "k x"] by blast
    show ?thesis using Inr run blindD [OF m run] blindD [OF k run2] by (simp add: io_simps)
  qed (use run blindD [OF m run] in \<open>simp add: io_simps\<close>)
qed

lemma blind_catch [blind_intros]:
  assumes m: "blind m" and k: "\<And>e. blind (k e)"
  shows "blind (io_catch m k)"
  unfolding blind_def
proof (intro allI)
  fix w l
  obtain r w1 s1 where run: "m \<lparr>tw_host = w, tw_log = []\<rparr> = (r, \<lparr>tw_host = w1, tw_log = s1\<rparr>)"
      using blind_run [of "m"] by blast
  show "io_catch m k \<lparr>tw_host = w, tw_log = l\<rparr> =
     (case io_catch m k \<lparr>tw_host = w, tw_log = []\<rparr> of (r, t) \<Rightarrow> (r, t\<lparr>tw_log := l @ tw_log t\<rparr>))"
  proof (cases r)
    case (Inl e)
    obtain r2 w2 s2 where run2: "k e \<lparr>tw_host = w1, tw_log = []\<rparr> = (r2, \<lparr>tw_host = w2, tw_log = s2\<rparr>)"
      using blind_run [of "k e"] by blast
    show ?thesis using Inl run blindD [OF m run] blindD [OF k run2] by (simp add: io_simps)
  qed (use run blindD [OF m run] in \<open>simp add: io_simps\<close>)
qed

lemma blind_basic [blind_intros]:
  "blind (io_return x)" "blind (io_throw e)" "blind (io_lift r)" "blind (traced m ev)" "blind (untraced m)"
  by (simp_all add: blind_def io_simps)

lemma blind_ignore [blind_intros]: "blind m \<Longrightarrow> blind (io_ignore m)"
  unfolding io_ignore_def by (intro blind_intros)

lemma blind_cases [blind_intros]:
  "(b \<Longrightarrow> blind m) \<Longrightarrow> (\<not> b \<Longrightarrow> blind n) \<Longrightarrow> blind (if b then m else n)"
  "(x = None \<Longrightarrow> blind m) \<Longrightarrow> (\<And>y. x = Some y \<Longrightarrow> blind (k y)) \<Longrightarrow> blind (case x of None \<Rightarrow> m | Some y \<Rightarrow> k y)"
  "blind m \<Longrightarrow> (\<And>y ys. blind (k' y ys)) \<Longrightarrow> blind (case xs of [] \<Rightarrow> m | y # ys \<Rightarrow> k' y ys)"
  by (cases x; cases xs; simp)+

lemma blind_foldl [blind_intros]: "(\<And>acc x. blind (k acc x)) \<Longrightarrow> blind (io_foldl k acc xs)"
  by (induction xs arbitrary: acc) (auto intro!: blind_intros)

lemma blind_calls [blind_intros]:
  "blind (pexec pf c)" "blind (plstat pf p)" "blind (pexists pf p)" "blind (pmkdir pf p)" "blind (prmdir pf p)"
  unfolding pexec_def plstat_def pexists_def pmkdir_def prmdir_def by (intro blind_intros)+

lemma blind_check [blind_intros]: "blind (validateNoSymlinkedWorktreePath pf d)"
proof -
  have "blind (check_components pf ps)" for ps
    by (induction pf ps rule: check_components.induct) (auto intro!: blind_intros split: lstat.split)
  then show ?thesis unfolding validateNoSymlinkedWorktreePath_def Let_def by (intro blind_intros)
qed

lemma blind_records [blind_intros]: "blind (gitWorktreeRecords pf root)"
  unfolding gitWorktreeRecords_def gitOutput_def by (intro blind_intros)

lemma blind_reap [blind_intros]: "blind (reapSessionWorktree pf root d)"
  unfolding reapSessionWorktree_def isWorktreeClean_def removeWorktree_def unlockWorktree_def
  by (auto intro!: blind_intros split: bool.split)

lemma blind_sweep: "blind (sweepSessionWorktrees legacy pf root identity now)"
  unfolding sweepSessionWorktrees_def sweep_record_def Let_def by (intro blind_intros)

lemma blind_migrate: "blind (migrateLegacyWorktrees pf root identity cwd)"
  unfolding migrateLegacyWorktrees_def migrate_one_def run_move_def check_destination_def tryGitOutput_def gitOutput_def Let_def
  by (intro blind_intros)

text \<open>What is shown of a program from an empty trace holds of the events it adds to any trace.\<close>

lemma hoare_segment:
  assumes "blind m" "\<And>w. R (tw_log (snd (m \<lparr>tw_host = w, tw_log = []\<rparr>)))"
    and Q: "\<And>l s seg. P l s \<Longrightarrow> R seg \<Longrightarrow> Q (l @ seg) s"
  shows "hoare (holds P) (on_host m) (\<lambda>_. holds Q) (holds Q)"
proof -
  have "holds Q (snd (on_host m (t, s)))" if "holds P (t, s)" for t s
  proof -
    obtain w l where t: "t = \<lparr>tw_host = w, tw_log = l\<rparr>" by (cases t)
    obtain r w1 seg where run: "m \<lparr>tw_host = w, tw_log = []\<rparr> = (r, \<lparr>tw_host = w1, tw_log = seg\<rparr>)"
      using blind_run [of "m"] by blast
    show ?thesis using that t blindD [OF assms(1) run] assms(2) [of w] run Q by (simp add: on_host_def)
  qed
  then show ?thesis by (intro hoareI) (metis prod.exhaust snd_conv)+
qed

section \<open>A session's start and end\<close>

definition repo_of :: "service \<Rightarrow> repo_context option" where
  "repo_of s = Option.bind (sv_state s) ws_repo"

text \<open>Events without a destructive command, those of a migration, and those of a sweep, of the service's repository.\<close>

definition spares :: "host_event list \<Rightarrow> bool" where
  "spares l \<longleftrightarrow> guarded destructive (\<lambda>_ _. False) l"

definition migrates :: "'w session_host \<Rightarrow> string \<Rightarrow> service \<Rightarrow> host_event list \<Rightarrow> bool" where
  "migrates h launchCwd s l \<longleftrightarrow> (case repo_of s of None \<Rightarrow> l = []
     | Some repo \<Rightarrow> guarded destructive (move_grounds (sh_platform h) (rp_root repo) (rp_name repo) launchCwd) l)"

definition sweeps :: "'w session_host \<Rightarrow> service \<Rightarrow> host_event list \<Rightarrow> bool" where
  "sweeps h s l \<longleftrightarrow> (case repo_of s of None \<Rightarrow> spares l
     | Some repo \<Rightarrow> \<exists>now. guarded destructive (sweep_grounds (sh_legacy h) (sh_platform h) (rp_root repo) (rp_name repo) now) l)"

lemma gentle_guarded: "gentle (guarded destructive ok)"
  by (auto simp: gentle_def)

lemma spares_append [simp]: "spares (l @ l') \<longleftrightarrow> spares l \<and> spares l'"
proof -
  have anywhere: "guarded_from destructive (\<lambda>_ _. False) l s \<longleftrightarrow> guarded_from destructive (\<lambda>_ _. False) [] s" for l s
  proof (induction s arbitrary: l)
    case (Cons e s)
    have "guarded_from destructive (\<lambda>_ _. False) l (e # s) \<longleftrightarrow>
        (case e of EvExec c r \<Rightarrow> \<not> destructive c | _ \<Rightarrow> True) \<and> guarded_from destructive (\<lambda>_ _. False) (l @ [e]) s" for l
      by (cases e) auto
    with Cons [of "l @ [e]"] Cons [of "[e]"] show ?case by simp
  qed simp
  show ?thesis by (simp add: spares_def guarded_def anywhere [of l l'])
qed

text \<open>The events of a start so far: of the initialization, the migration, the attaching or restoring, the sweep.\<close>

definition attached :: "'w session_host \<Rightarrow> string \<Rightarrow> host_event list \<Rightarrow> service \<Rightarrow> bool" where
  "attached h launchCwd l s \<longleftrightarrow> (\<exists>l1 l2 l3. l = l1 @ l2 @ l3 \<and> spares l1 \<and> migrates h launchCwd s l2 \<and> spares l3)"

definition swept :: "'w session_host \<Rightarrow> string \<Rightarrow> bool \<Rightarrow> host_event list \<Rightarrow> service \<Rightarrow> bool" where
  "swept h launchCwd nc l s \<longleftrightarrow> (\<exists>l1 l2 l3 l4. l = l1 @ l2 @ l3 @ l4 \<and> spares l1 \<and> migrates h launchCwd s l2 \<and> spares l3
     \<and> (if nc then spares l4 else sweeps h s l4))"

lemma repo_of_changes [simp]:
  "repo_of (s\<lparr>sv_ui := us\<rparr>) = repo_of s" "repo_of (s\<lparr>sv_env := e\<rparr>) = repo_of s"
  "repo_of (install_state st s) = ws_repo st"
  by (simp_all add: repo_of_def install_state_def)

lemma migrates_cong: "repo_of s' = repo_of s \<Longrightarrow> migrates h launchCwd s' l = migrates h launchCwd s l"
  by (simp add: migrates_def)

lemma sweeps_cong: "repo_of s' = repo_of s \<Longrightarrow> sweeps h s' l = sweeps h s l"
  by (simp add: sweeps_def)

lemma attached_cong: "repo_of s' = repo_of s \<Longrightarrow> attached h launchCwd l s \<Longrightarrow> attached h launchCwd l s'"
  unfolding attached_def by (metis migrates_cong)

lemma swept_cong: "repo_of s' = repo_of s \<Longrightarrow> swept h launchCwd nc l s \<Longrightarrow> swept h launchCwd nc l s'"
  unfolding swept_def by (metis migrates_cong sweeps_cong)

lemma spares_snoc: "spares [EvExec c r] \<longleftrightarrow> \<not> destructive c" "spares [EvMkdir p]" "spares [EvRm p]" "spares [EvRmdir p]"
  using guarded_snoc [of destructive "\<lambda>_ _. False" "[]"] by (simp_all add: spares_def)

lemma attached_gentle: "gentle (\<lambda>l. attached h launchCwd l s)"
proof -
  have "attached h launchCwd (l @ e) s" if "attached h launchCwd l s" "spares e" for l e
    using that unfolding attached_def by (metis append.assoc spares_append)
  then show ?thesis by (simp add: gentle_def keeps_def keeps_writes_def spares_snoc)
qed

lemma swept_gentle: "gentle (\<lambda>l. swept h launchCwd nc l s)"
proof -
  have "swept h launchCwd nc (l @ [e]) s" if "swept h launchCwd nc l s" "spares [e]" for l e
  proof -
    from that(1) obtain l1 l2 l3 l4 where l: "l = l1 @ l2 @ l3 @ l4" "spares l1" "migrates h launchCwd s l2" "spares l3"
      "if nc then spares l4 else sweeps h s l4" by (auto simp: swept_def)
    have "if nc then spares (l4 @ [e]) else sweeps h s (l4 @ [e])"
      using l(5) that(2) by (cases e) (auto simp: sweeps_def spares_snoc split: option.splits)
    with l show ?thesis unfolding swept_def by (metis append.assoc)
  qed
  then show ?thesis by (simp add: gentle_def keeps_def keeps_writes_def spares_snoc)
qed

lemma attached_closed: "apply_closed h (attached h launchCwd)" "ui_closed (attached h launchCwd)" "lease_closed (attached h launchCwd)"
proof -
  have "repo_of (install_state (st\<lparr>ws_activeWorktree := w, ws_effectiveCwd := d\<rparr>) s') = repo_of s"
    "repo_of (s\<lparr>sv_state := Some (st\<lparr>ws_activeWorktree := w, ws_effectiveCwd := d\<rparr>), sv_session := r, sv_refused := True\<rparr>) = repo_of s"
    if "sv_state s = Some st" for st w d s s' r
    using that by (simp_all add: repo_of_def install_state_def)
  then show "apply_closed h (attached h launchCwd)" unfolding apply_closed_def Let_def by (blast intro: attached_cong)
  show "ui_closed (attached h launchCwd)" unfolding ui_closed_def by (auto intro: attached_cong [rotated])
  show "lease_closed (attached h launchCwd)" by (simp add: lease_closed_def attached_gentle)
qed

lemma spares_attached: "spares l \<Longrightarrow> attached h launchCwd l s"
  unfolding attached_def
  by (intro exI [of _ l] exI [of _ "[]"]) (simp add: migrates_def spares_def split: option.split)

lemma attached_swept: "attached h launchCwd l s \<Longrightarrow> swept h launchCwd nc l s"
proof -
  have "if nc then spares [] else sweeps h s []" by (simp add: sweeps_def spares_def split: option.split)
  moreover assume "attached h launchCwd l s"
  ultimately show ?thesis unfolding attached_def swept_def by (metis append_Nil2)
qed

lemma hoare_migrate_for_session:
  "hoare (holds (\<lambda>l _. spares l)) (migrateLegacyWorktreesForSession h launchCwd sub)
     (\<lambda>_. holds (attached h launchCwd)) (holds (attached h launchCwd))"
proof (cases sub)
  case True
  then show ?thesis
    by (auto simp: migrateLegacyWorktreesForSession_def holds_def spares_attached intro!: hoare_return)
next
  case False
  have ui: "wkeeps (attached h launchCwd) (notify_ui n)" for n by (rule wkeeps_ui [OF attached_closed(2)])
  have seg: "hoare (holds (\<lambda>l s. spares l \<and> sv_state s = Some st))
      (on_host (migrateLegacyWorktrees (sh_platform h) (rp_root repo) (rp_name repo) launchCwd))
      (\<lambda>_. holds (attached h launchCwd)) (holds (attached h launchCwd))" if "ws_repo st = Some repo" for st repo
  proof (rule hoare_segment [OF blind_migrate, where R = "guarded destructive (move_grounds (sh_platform h) (rp_root repo) (rp_name repo) launchCwd)"])
    fix l and s :: service and seg
    assume "spares l \<and> sv_state s = Some st" "guarded destructive (move_grounds (sh_platform h) (rp_root repo) (rp_name repo) launchCwd) seg"
    then show "attached h launchCwd (l @ seg) s"
      unfolding attached_def using that
      by (intro exI [of _ l] exI [of _ seg] exI [of _ "[]"]) (simp add: migrates_def repo_of_def spares_def)
  qed (rule migrate_safe)
  show ?thesis
    unfolding migrateLegacyWorktreesForSession_def if_not_P [OF False]
  proof (rule hoare_ignore, rule hoare_require)
    fix st
    show "hoare (holds (\<lambda>l s. spares l \<and> sv_state s = Some st)) (case ws_repo st of None \<Rightarrow> io_return ()
        | Some repo \<Rightarrow> io_bind (on_host (migrateLegacyWorktrees (sh_platform h) (rp_root repo) (rp_name repo) launchCwd)) (\<lambda>result.
            io_bind (if mg_moved result \<noteq> [] then notify_ui (Migrated (length (mg_moved result)) (rp_name repo))
                     else io_return ()) (\<lambda>_.
            if mg_skipped result \<noteq> []
            then notify_ui (NotMigrated (length (mg_skipped result)) (join '', '' (map fst (mg_skipped result))))
            else io_return ()))) (\<lambda>_. holds (attached h launchCwd)) (holds (attached h launchCwd))"
    proof (cases "ws_repo st")
      case None
      then show ?thesis by (auto simp: holds_def spares_attached intro!: hoare_return)
    next
      case (Some repo)
      have rest: "wkeeps (attached h launchCwd) (io_bind (if b then notify_ui n else io_return ()) (\<lambda>_. if b' then notify_ui n' else io_return ()))"
        for b b' n n' by (intro wkeeps_intros ui)
      show ?thesis
        unfolding Some option.case
        by (rule hoare_bind [OF seg [OF Some]], rule rest [unfolded wkeeps_def])
    qed
  qed (auto simp: holds_def spares_attached)
qed

lemma hoare_sweep_for_session:
  "hoare (holds (attached h launchCwd)) (sweepSessionWorktreesForSession h sub)
     (\<lambda>_. holds (swept h launchCwd False)) (holds (swept h launchCwd False))"
proof (cases sub)
  case True
  then show ?thesis
    by (auto simp: sweepSessionWorktreesForSession_def holds_def attached_swept intro!: hoare_return)
next
  case False
  have ui: "wkeeps (swept h launchCwd False) (notify_ui n)" for n
    by (rule wkeeps_ui) (auto simp: ui_closed_def intro: swept_cong [rotated])
  have seg: "hoare (holds (\<lambda>l s. attached h launchCwd l s \<and> sv_state s = Some st))
      (on_host (sweepSessionWorktrees (sh_legacy h) (sh_platform h) (rp_root repo) (rp_name repo) (int now)))
      (\<lambda>_. holds (swept h launchCwd False)) (holds (swept h launchCwd False))" if "ws_repo st = Some repo" for st repo now
  proof (rule hoare_segment [OF blind_sweep, where
        R = "guarded destructive (sweep_grounds (sh_legacy h) (sh_platform h) (rp_root repo) (rp_name repo) (int now))"])
    fix l and s :: service and seg
    assume a: "attached h launchCwd l s \<and> sv_state s = Some st"
      and seg: "guarded destructive (sweep_grounds (sh_legacy h) (sh_platform h) (rp_root repo) (rp_name repo) (int now)) seg"
    from a obtain l1 l2 l3 where "l = l1 @ l2 @ l3" "spares l1" "migrates h launchCwd s l2" "spares l3"
      by (auto simp: attached_def)
    moreover have "sweeps h s seg" using a seg that by (auto simp: sweeps_def repo_of_def)
    ultimately show "swept h launchCwd False (l @ seg) s"
      unfolding swept_def by (metis append.assoc)
  qed (rule sweep_safe [folded sweep_grounds_def])
  show ?thesis
    unfolding sweepSessionWorktreesForSession_def if_not_P [OF False]
  proof (rule hoare_ignore, rule hoare_require)
    fix st
    show "hoare (holds (\<lambda>l s. attached h launchCwd l s \<and> sv_state s = Some st)) (case ws_repo st of None \<Rightarrow> io_return ()
        | Some repo \<Rightarrow>
            io_bind (clock h) (\<lambda>now.
            io_bind (on_host (sweepSessionWorktrees (sh_legacy h) (sh_platform h) (rp_root repo) (rp_name repo) (int now))) (\<lambda>result.
            if sw_reclaimed result \<noteq> [] \<or> sw_surfaced result \<noteq> []
            then notify_ui (Swept (length (sw_reclaimed result)) (length (sw_surfaced result)))
            else io_return ()))) (\<lambda>_. holds (swept h launchCwd False)) (holds (swept h launchCwd False))"
    proof (cases "ws_repo st")
      case None
      then show ?thesis by (auto simp: holds_def attached_swept intro!: hoare_return)
    next
      case (Some repo)
      have rest: "wkeeps (swept h launchCwd False) (if b then notify_ui n else io_return ())" for b n
        by (intro wkeeps_intros ui)
      show ?thesis
        unfolding Some option.case
        by (rule hoare_bind [OF hoare_keep [OF wkeeps_clock]], simp add: attached_swept,
            rule hoare_bind [OF seg [OF Some]], rule rest [unfolded wkeeps_def])
    qed
  qed (auto simp: holds_def attached_swept)
qed

lemma hoare_session_start:
  defines "launch f \<equiv> \<lambda>h. resolve (sh_platform h) (sf_cwd f)"
  shows "hoare (holds (\<lambda>l _. spares l)) (workspace_session_start h f)
    (\<lambda>_. holds (swept h (launch f h) (sf_nc f))) (holds (swept h (launch f h) (sf_nc f)))"
proof -
  let ?A = "attached h (launch f h)" and ?S = "swept h (launch f h) (sf_nc f)"
  have all: "?S l s" if "?A l s" for l s using that by (rule attached_swept)
  have init: "hoare (holds (\<lambda>l _. spares l)) (initialize_ws h opts) (\<lambda>_. holds (\<lambda>l _. spares l)) (holds ?S)" for opts
    by (rule hoare_initialize [where P = "\<lambda>l _. spares l" and Q = "\<lambda>l _. spares l"])
      (auto simp: apply_closed_def lease_closed_def spares_def [abs_def] gentle_guarded gentle_mild
        intro: all [OF spares_attached, unfolded spares_def])
  have migrate: "hoare (holds (\<lambda>l _. spares l)) (migrateLegacyWorktreesForSession h (launch f h) sub) (\<lambda>_. holds ?A) (holds ?S)" for sub
    by (rule hoare_weaken [OF hoare_migrate_for_session]) (auto simp: holds_def all)
  have att: "wkeeps ?A (attach_or_restore h f sub)" for sub
    by (rule wkeeps_attach_or_restore) (simp_all add: attached_closed attached_gentle)
  have sweep: "hoare (holds ?A) (if \<not> sf_nc f then sweepSessionWorktreesForSession h sub else io_return ())
      (\<lambda>_. holds ?S) (holds ?S)" for sub
    using hoare_sweep_for_session [of h "launch f h" sub]
    by (auto simp: holds_def attached_swept intro!: hoare_return)
  have fin: "wkeeps ?S (finish_start h r)" for r
    by (rule wkeeps_finish)
      (auto simp: ui_closed_def gentle_mild [OF swept_gentle] intro: swept_cong [rotated])
  have launch: "in_launchCwd (start_options h f e) = launch f h" for e
    by (simp add: start_options_def launch_def Let_def)
  have body: "hoare (holds (\<lambda>l _. spares l))
      (io_bind (initialize_ws h opts) (\<lambda>(_, r). io_bind (migrateLegacyWorktreesForSession h (launch f h) sub) (\<lambda>_.
       io_bind (attach_or_restore h f sub) (\<lambda>_.
       io_bind (if \<not> sf_nc f then sweepSessionWorktreesForSession h sub else io_return ()) (\<lambda>_. finish_start h r)))))
      (\<lambda>_. holds ?S) (holds ?S)" for opts sub
    by (rule hoare_bind [OF init], unfold split_beta, rule hoare_bind [OF migrate], rule hoare_bind [OF hoare_keep [OF att all]],
        assumption, rule hoare_bind [OF sweep], rule fin [unfolded wkeeps_def])
  show ?thesis
    unfolding workspace_session_start_def Let_def launch
    by (rule hoare_gets, rule hoare_weaken [OF body]) (auto simp: holds_def)
qed

text \<open>A subagent's start leaves every lock, worktree and branch as it is.\<close>

definition untouched :: "host_event list \<Rightarrow> service \<Rightarrow> bool" where
  "untouched l s \<longleftrightarrow> guarded relocking (\<lambda>_ _. False) l \<and> sv_sessionId s = None"

lemma untouched_mild: "mild (\<lambda>l. untouched l s)"
  unfolding untouched_def
  by (cases "sv_sessionId s = None")
    (auto simp: mild_def keeps_git_def keeps_def keeps_writes_def relocking_def destructive_def changing_verbs_def)

lemma untouched_closed: "apply_closed h untouched" "ui_closed untouched" "lease_closed untouched"
  by (auto simp: apply_closed_def ui_closed_def lease_closed_def untouched_def install_state_def Let_def)

lemma hoare_subagent_start:
  fixes h :: "'w session_host"
  shows "hoare (holds (\<lambda>l s. guarded relocking (\<lambda>_ _. False) l \<and> isSubagent (sh_number h) (sv_env s))) (workspace_session_start h f)
     (\<lambda>_. holds (\<lambda>l _. guarded relocking (\<lambda>_ _. False) l)) (holds (\<lambda>l _. guarded relocking (\<lambda>_ _. False) l))"
proof -
  let ?G = "\<lambda>l (_ :: service). guarded relocking (\<lambda>_ _. False) l"
  have gmild: "mild (\<lambda>l. ?G l s)" for s by (rule mild_guarded) (auto simp: relocking_def destructive_def changing_verbs_def)
  have un: "?G l s" if "untouched l s" for l s using that by (simp add: untouched_def)
  have init: "hoare (holds ?G) (initialize_ws h opts) (\<lambda>_. holds untouched) (holds ?G)" if "in_sessionId opts = None" for opts
    by (rule hoare_initialize [where P = untouched and Q = untouched])
      (auto simp: untouched_closed untouched_mild un that, auto simp: untouched_def install_state_def that)
  have migrate: "wkeeps untouched (migrateLegacyWorktreesForSession h d True)" for d
    unfolding migrateLegacyWorktreesForSession_def by (auto intro: wkeeps_intros)
  have att: "wkeeps untouched (attach_or_restore h f True)"
    by (rule wkeeps_attach_or_restore) (simp_all add: untouched_closed untouched_mild)
  have sweep: "wkeeps untouched (if \<not> sf_nc f then sweepSessionWorktreesForSession h True else io_return ())"
    unfolding sweepSessionWorktreesForSession_def by (auto intro: wkeeps_intros)
  have fin: "wkeeps untouched (finish_start h r)" for r
    by (rule wkeeps_finish) (auto simp: untouched_closed untouched_mild, auto simp: untouched_def)
  have keep: "hoare (holds untouched) m (\<lambda>_. holds untouched) (holds ?G)" if "wkeeps untouched m" for m :: "('w, unit) ws_io"
    by (rule hoare_keep [OF that]) (rule un)
  have body: "hoare (holds ?G)
      (io_bind (initialize_ws h opts) (\<lambda>(_, r). io_bind (migrateLegacyWorktreesForSession h d True) (\<lambda>_.
       io_bind (attach_or_restore h f True) (\<lambda>_.
       io_bind (if \<not> sf_nc f then sweepSessionWorktreesForSession h True else io_return ()) (\<lambda>_. finish_start h r)))))
      (\<lambda>_. holds ?G) (holds ?G)" if "in_sessionId opts = None" for opts d
    by (rule hoare_bind [OF init [OF that]], unfold split_beta, rule hoare_bind [OF keep [OF migrate]],
        rule hoare_bind [OF keep [OF att]], rule hoare_bind [OF keep [OF sweep]],
        rule hoare_weaken [OF keep [OF fin]]) (auto simp: holds_def un)
  show ?thesis
    unfolding workspace_session_start_def Let_def
  proof (rule hoare_gets)
    fix e
    show "hoare (holds (\<lambda>l s. (?G l s \<and> isSubagent (sh_number h) (sv_env s)) \<and> sv_env s = e))
      (io_bind (initialize_ws h (start_options h f e)) (\<lambda>(_, unsafeEditResult).
        io_bind (migrateLegacyWorktreesForSession h (in_launchCwd (start_options h f e)) (isSubagent (sh_number h) e)) (\<lambda>_.
        io_bind (attach_or_restore h f (isSubagent (sh_number h) e)) (\<lambda>_.
        io_bind (if \<not> sf_nc f then sweepSessionWorktreesForSession h (isSubagent (sh_number h) e) else io_return ()) (\<lambda>_.
        finish_start h unsafeEditResult))))) (\<lambda>_. holds ?G) (holds ?G)"
    proof (cases "isSubagent (sh_number h) e")
      case True
      then have "in_sessionId (start_options h f e) = None" by (simp add: start_options_def Let_def)
      from body [OF this, of "in_launchCwd (start_options h f e)"] True show ?thesis
        by (simp only: simp_thms) (erule hoare_weaken, auto simp: holds_def)
    next
      case False
      then have no: "holds (\<lambda>l s. (?G l s \<and> isSubagent (sh_number h) (sv_env s)) \<and> sv_env s = e) = (\<lambda>_. False)"
        by (intro ext) (auto simp: holds_def)
      show ?thesis unfolding no by (simp add: hoare_def)
    qed
  qed
qed

lemma hoare_ends: "hoare P m (\<lambda>_. Q) Q \<Longrightarrow> P w \<Longrightarrow> Q (snd (m w))"
  by (cases "m w"; cases "fst (m w)") (auto dest: hoare_returns hoare_throws)

text \<open>
  C12. The start of a session destroys only what it may. A subagent's start locks, unlocks, moves, removes
  and deletes nothing. The start of any other session runs, after an initialization without a
  destructive command, the moves of the migration planned for its repository, then, after attaching or
  restoring a worktree without a destructive command, the sweep of that repository's cold and clean
  worktrees, and no sweep under \<open>--nc\<close>; whatever git answers and wherever the start fails.
\<close>

theorem session_start_destroys_only_planned:
  "case workspace_session_start h f (\<lparr>tw_host = w, tw_log = []\<rparr>, s) of (r, (t, s')) \<Rightarrow>
     if isSubagent (sh_number h) (sv_env s) then guarded relocking (\<lambda>_ _. False) (tw_log t)
     else \<exists>l1 l2 l3 l4. tw_log t = l1 @ l2 @ l3 @ l4
       \<and> guarded destructive (\<lambda>_ _. False) (l1 @ l3)
       \<and> (case repo_of s' of
            None \<Rightarrow> l2 = [] \<and> guarded destructive (\<lambda>_ _. False) l4
          | Some repo \<Rightarrow>
              guarded destructive (move_grounds (sh_platform h) (rp_root repo) (rp_name repo) (resolve (sh_platform h) (sf_cwd f))) l2
              \<and> (if sf_nc f then guarded destructive (\<lambda>_ _. False) l4
                 else \<exists>now. guarded destructive (sweep_grounds (sh_legacy h) (sh_platform h) (rp_root repo) (rp_name repo) now) l4))"
proof -
  let ?t = "(\<lparr>tw_host = w, tw_log = []\<rparr>, s)"
  obtain r t s' where run: "workspace_session_start h f ?t = (r, (t, s'))" by (metis prod.exhaust)
  have sub: "guarded relocking (\<lambda>_ _. False) (tw_log t)" if "isSubagent (sh_number h) (sv_env s)"
    using hoare_ends [OF hoare_subagent_start, of h ?t f] that run by simp
  have "swept h (resolve (sh_platform h) (sf_cwd f)) (sf_nc f) (tw_log t) s'"
    using hoare_ends [OF hoare_session_start, of ?t h f] run by (simp add: spares_def)
  then obtain l1 l2 l3 l4 where l: "tw_log t = l1 @ l2 @ l3 @ l4" "spares (l1 @ l3)"
    "migrates h (resolve (sh_platform h) (sf_cwd f)) s' l2" "if sf_nc f then spares l4 else sweeps h s' l4"
    unfolding swept_def spares_append by blast
  let ?phases = "\<lambda>l2 l4. case repo_of s' of
            None \<Rightarrow> l2 = [] \<and> guarded destructive (\<lambda>_ _. False) l4
          | Some repo \<Rightarrow>
              guarded destructive (move_grounds (sh_platform h) (rp_root repo) (rp_name repo) (resolve (sh_platform h) (sf_cwd f))) l2
              \<and> (if sf_nc f then guarded destructive (\<lambda>_ _. False) l4
                 else \<exists>now. guarded destructive (sweep_grounds (sh_legacy h) (sh_platform h) (rp_root repo) (rp_name repo) now) l4)"
  have phases: "?phases l2 l4"
    using l(3,4) by (auto simp: spares_def migrates_def sweeps_def split: option.splits if_splits)
  show ?thesis
  proof (cases "isSubagent (sh_number h) (sv_env s)")
    case True
    with sub run show ?thesis by simp
  next
    case False
    have "\<exists>l1 l2 l3 l4. tw_log t = l1 @ l2 @ l3 @ l4 \<and> guarded destructive (\<lambda>_ _. False) (l1 @ l3) \<and> ?phases l2 l4"
      using l(1,2) phases unfolding spares_def by blast
    then show ?thesis unfolding run prod.case if_not_P [OF False] .
  qed
qed

section \<open>Shutdown\<close>

lemma blind_reapOwned: "blind (reapOwnedSessionWorktree legacy pf root d sid)"
  unfolding reapOwnedSessionWorktree_def by (intro blind_intros)

text \<open>
  C15. The end of a session removes its own worktree only. A shutdown that is not a quit of a top-level
  session, or finds no active git worktree, runs no command; any other runs no destructive command but
  the removal of a directory that the listing shows with this session's lease, right after git
  reported that directory clean; and it never fails.
\<close>

theorem session_shutdown_removes_own_clean:
  "case workspace_session_shutdown h reason sid (\<lparr>tw_host = w, tw_log = []\<rparr>, s) of (r, (t, s')) \<Rightarrow>
     r = Inr () \<and> s' = s
     \<and> (reason = ''quit'' \<and> getAgentDepth (sh_number h) (sv_env s) = Some 0 \<or> tw_log t = [])
     \<and> (case Option.bind (sv_state s) ws_activeWorktree of
          None \<Rightarrow> tw_log t = [] | Some w \<Rightarrow> wt_kind w = ''git-worktree'' \<or> tw_log t = [])
     \<and> (case repo_of s of None \<Rightarrow> tw_log t = []
        | Some repo \<Rightarrow> guarded destructive (\<lambda>l c. just_clean (rp_root repo) l c
            \<and> list_ex (\<lambda>rec. leaseOwnedBy (sh_legacy h) (wr_lockReason rec) sid
                 \<and> resolve (sh_platform h) (wr_path rec) = resolve (sh_platform h) (last (xc_args c))) (listed (rp_root repo) l)) (tw_log t))"
proof (cases "shouldReapOnShutdown reason (getAgentDepth (sh_number h) (sv_env s))")
  case False
  then show ?thesis
    by (auto simp: workspace_session_shutdown_def gets_def io_simps split: option.split)
next
  case True
  show ?thesis
  proof (cases "sv_state s")
    case None
    with True show ?thesis by (simp add: workspace_session_shutdown_def gets_def io_simps repo_of_def)
  next
    case (Some st)
    show ?thesis
    proof (cases "ws_repo st = None \<or> ws_activeWorktree st = None \<or> wt_kind (the (ws_activeWorktree st)) \<noteq> ''git-worktree''")
      case True
      then show ?thesis using Some \<open>shouldReapOnShutdown _ _\<close>
        by (auto simp: workspace_session_shutdown_def gets_def io_simps repo_of_def shouldReapOnShutdown_def split: option.splits)
    next
      case False
      then obtain repo wt where w: "ws_repo st = Some repo" "ws_activeWorktree st = Some wt" "wt_kind wt = ''git-worktree''" by auto
      obtain r1 w1 l1 where run: "reapOwnedSessionWorktree (sh_legacy h) (sh_platform h) (rp_root repo) (wt_path wt) sid
          \<lparr>tw_host = w, tw_log = []\<rparr> = (r1, \<lparr>tw_host = w1, tw_log = l1\<rparr>)"
        by (rule blind_run)
      have "workspace_session_shutdown h reason sid (\<lparr>tw_host = w, tw_log = []\<rparr>, s) = (Inr (), (\<lparr>tw_host = w1, tw_log = l1\<rparr>, s))"
        using True Some w run
        by (cases r1) (simp_all add: workspace_session_shutdown_def gets_def io_simps io_ignore_def on_host_def)
      then show ?thesis
        using reapOwned_removes_only_own_clean [of "rp_root repo" "sh_legacy h" sid "sh_platform h" "wt_path wt" w] run True Some w
        by (simp add: repo_of_def shouldReapOnShutdown_def)
    qed
  qed
qed

section \<open>The environment over the life of a session\<close>

datatype workspace_event =
    SessionStart session_flags
  | SessionShutdown string string
  | Attach string
  | Activate string "string option"

definition workspace_step :: "'w session_host \<Rightarrow> 'w ws_world \<Rightarrow> workspace_event \<Rightarrow> 'w ws_world" where
  "workspace_step h w ev = (case ev of
     SessionStart f \<Rightarrow> snd (workspace_session_start h f w)
   | SessionShutdown reason sid \<Rightarrow> snd (workspace_session_shutdown h reason sid w)
   | Attach d \<Rightarrow> snd (attachWorktreePath h d w)
   | Activate label b \<Rightarrow> snd (activateWorktree h label b w))"

lemma setWorkspaceEnv_idem: "setWorkspaceEnv st (setWorkspaceEnv st e) = setWorkspaceEnv st e"
  by (simp add: setWorkspaceEnv_def fun_eq_iff)

lemma setWorkspaceEnv_dotenv:
  assumes "setWorkspaceEnv st e = e"
  shows "setWorkspaceEnv st (dotenv_text content e) = dotenv_text content e"
proof
  fix k
  have "setWorkspaceEnv st e k = e k" using assms by simp
  moreover have "dotenv_text content e k = e k"
    if "k \<in> {''BASECAMP_REPO'', ''BASECAMP_SCRATCH_DIR'', ''BASECAMP_WORKTREE_DIR'', ''BASECAMP_WORKTREE_LABEL''}"
    using that by (intro dotenv_protects) auto
  ultimately show "setWorkspaceEnv st (dotenv_text content e) k = dotenv_text content e k"
    by (auto simp: setWorkspaceEnv_def split: if_splits)
qed

lemma effectiveCwd_irrelevant: "computeEffectiveCwd cwd (st\<lparr>ws_effectiveCwd := d\<rparr>) = computeEffectiveCwd cwd st"
  by (simp add: computeEffectiveCwd_def split: option.split)

lemma stable_const [stable_intros]: "stable (\<lambda>_. b) m"
  unfolding stable_def by (rule hoareI) simp_all

lemma same_fields: "\<exists>a d. st = (st :: workspace_state)\<lparr>ws_activeWorktree := a, ws_effectiveCwd := d\<rparr>"
  by (rule exI [of _ "ws_activeWorktree st"], rule exI [of _ "ws_effectiveCwd st"]) simp

lemma mirrors_install:
  "ws_effectiveCwd st = computeEffectiveCwd (pf_cwd (sh_platform h)) st \<Longrightarrow> mirrors h (install_state st s)"
  using same_fields [of st] by (simp add: mirrors_def install_state_def setWorkspaceEnv_idem)

lemma mirrors_closed:
  "apply_closed h (\<lambda>_. mirrors h)" "ui_closed (\<lambda>_. mirrors h)" "lease_closed (\<lambda>_. mirrors h)" "gentle (\<lambda>_. mirrors h s)"
  "mirrors h s \<Longrightarrow> mirrors h (s\<lparr>sv_env := dotenv_text content (sv_env s)\<rparr>)"
proof -
  have "mirrors h (s\<lparr>sv_state := Some st2, sv_session := r, sv_refused := True\<rparr>)"
    if "mirrors h s" "may_refuse h" "sv_state s = Some st" "st2 = st\<lparr>ws_activeWorktree := Some w,
        ws_effectiveCwd := computeEffectiveCwd (pf_cwd (sh_platform h)) (st\<lparr>ws_activeWorktree := Some w\<rparr>)\<rparr>" for s st st2 w r
  proof -
    from that obtain a d where l: "last (sv_told s) = st\<lparr>ws_activeWorktree := a, ws_effectiveCwd := d\<rparr>" by (auto simp: mirrors_def)
    have "last (sv_told s) = st2\<lparr>ws_activeWorktree := a, ws_effectiveCwd := d\<rparr>" unfolding that(4) l by simp
    with that(1-3) show ?thesis unfolding mirrors_def by (auto simp: that(4) effectiveCwd_irrelevant)
  qed
  then show "apply_closed h (\<lambda>_. mirrors h)"
    unfolding apply_closed_def Let_def by (auto intro!: mirrors_install simp: effectiveCwd_irrelevant)
  show g: "gentle (\<lambda>_. mirrors h s)" for s by (simp add: gentle_def keeps_def keeps_writes_def)
  show "lease_closed (\<lambda>_. mirrors h)" using g by (simp add: lease_closed_def)
  show "ui_closed (\<lambda>_. mirrors h)" by (auto simp: ui_closed_def mirrors_def split: option.splits)
  show "mirrors h s \<Longrightarrow> mirrors h (s\<lparr>sv_env := dotenv_text content (sv_env s)\<rparr>)"
    by (auto simp: mirrors_def setWorkspaceEnv_dotenv split: option.splits)
qed

lemma mirrors_start: "wkeeps (\<lambda>_. mirrors h) (workspace_session_start h f)"
proof -
  let ?P = "\<lambda>_ :: host_event list. mirrors h"
  note mild = gentle_mild [OF mirrors_closed(4)]
  have "hoare (holds ?P) (initialize_ws h opts) (\<lambda>_. holds ?P) (holds ?P)" for opts
    by (rule hoare_initialize [where P = ?P and Q = ?P])
      (auto simp: mirrors_closed mild fresh_state_def intro: mirrors_install, auto simp: mirrors_def split: option.splits)
  then have init: "wkeeps ?P (initialize_ws h opts)" for opts unfolding wkeeps_def .
  have migrate: "wkeeps ?P (migrateLegacyWorktreesForSession h d sub)" for d sub
    unfolding migrateLegacyWorktreesForSession_def require_def
    by (auto intro!: wkeeps_intros stable_const wkeeps_ui mirrors_closed)
  have sweep: "wkeeps ?P (sweepSessionWorktreesForSession h sub)" for sub
    unfolding sweepSessionWorktreesForSession_def require_def
    by (auto intro!: wkeeps_intros stable_const wkeeps_ui mirrors_closed)
  have att: "wkeeps ?P (attach_or_restore h f sub)" for sub
    by (rule wkeeps_attach_or_restore) (simp_all add: mirrors_closed)
  have fin: "wkeeps ?P (finish_start h r)" for r
    by (rule wkeeps_finish) (simp_all add: mirrors_closed mild)
  show ?thesis
    unfolding workspace_session_start_def Let_def by (intro wkeeps_intros init migrate att sweep fin)
qed

lemma mirrors_kept: "wkeeps (\<lambda>_. mirrors h) m \<Longrightarrow> mirrors h (snd w) \<Longrightarrow> mirrors h (snd (snd (m w)))"
  using wkeeps_run [of "\<lambda>_. mirrors h" m w] by (simp add: holds_def split_beta)

lemma mirrors_step: "mirrors h (snd w) \<Longrightarrow> mirrors h (snd (workspace_step h w ev))"
proof -
  let ?P = "\<lambda>_ :: host_event list. mirrors h"
  note mild = gentle_mild [OF mirrors_closed(4)]
  have "wkeeps ?P (workspace_session_shutdown h reason sid)" for reason sid
    unfolding workspace_session_shutdown_def by (auto intro!: wkeeps_intros stable_const)
  moreover have "wkeeps ?P (attachWorktreePath h d)" "wkeeps ?P (activateWorktree h label b)" for d label b
    by (simp_all add: wkeeps_worktree mirrors_closed mild)
  moreover assume "mirrors h (snd w)"
  ultimately show ?thesis
    by (cases ev) (simp_all add: workspace_step_def mirrors_kept mirrors_start)
qed

definition idle_service :: "env \<Rightarrow> session_runtime \<Rightarrow> service" where
  "idle_service e r = \<lparr>sv_state = None, sv_sessionId = None, sv_env = e, sv_session = r, sv_told = [], sv_refused = False, sv_ui = []\<rparr>"


text \<open>
  A refused save does leave the state changed, with the environment and the listeners as they were: the
  state is assigned before the session's state is saved (\<open>applyWorktree\<close> of \<open>runtime.ts\<close>).
\<close>

lemma refused_save_leaves_state_changed:
  assumes "sv_state s = Some st" "ws_repo st = Some repo" "sr_current (sv_session s) = Some doc"
    and "\<And>w. fst (sh_saves h w) = Some e"
  shows "\<exists>t' st'. applyWorktree h w (t, s) = (Inl e, (t', s\<lparr>sv_state := Some st', sv_refused := True\<rparr>))
    \<and> ws_activeWorktree st' = Some w"
  using assms
  by (simp add: applyWorktree_def remember_worktree_def require_def gets_def change_def clock_def save_answer_def on_host_def
      io_simps Let_def split_beta buildActiveWorktreeState_def updateCurrentSessionStateIfInitialized_def
      updateCurrentSessionState_def saveSessionState_def rbind_def) (rule exI, rule conjI, rule refl, simp)

text \<open>
  A session is given unsafe edits exactly when the flag asks for them, the session is not read-only, and it
  is either in an external sandbox or an interactive one that is not a subagent's.
\<close>

lemma unsafe_edit_by_right:
  assumes run: "initialize_ws h (start_options h f e) w = (Inr x, w')"
  shows "case sv_state (snd w') of None \<Rightarrow> False | Some st \<Rightarrow>
    ws_unsafeEdit st \<longleftrightarrow> sf_unsafeEdit f \<and> \<not> sf_readOnly f
    \<and> (sf_unsafeSandboxed f \<and> getBasecampEnv e ''BASECAMP_EXTERNAL_SANDBOX'' = Some ''1''
       \<or> sf_hasUI f \<and> \<not> isSubagent (sh_number h) e)"
proof -
  let ?Q = "\<lambda>(_ :: host_event list) s. case sv_state s of None \<Rightarrow> False | Some st \<Rightarrow>
    ws_unsafeEdit st \<longleftrightarrow> sf_unsafeEdit f \<and> \<not> sf_readOnly f
    \<and> (sf_unsafeSandboxed f \<and> getBasecampEnv e ''BASECAMP_EXTERNAL_SANDBOX'' = Some ''1''
       \<or> sf_hasUI f \<and> \<not> isSubagent (sh_number h) e)"
  have g: "gentle (\<lambda>_. b)" for b by (simp add: gentle_def keeps_def keeps_writes_def)
  have "hoare (holds (\<lambda>_ _. True)) (initialize_ws h (start_options h f e)) (\<lambda>_. holds ?Q) (holds (\<lambda>_ _. True))"
    by (rule hoare_initialize [where P = "\<lambda>_ _. True" and Q = ?Q])
      (auto simp: apply_closed_def lease_closed_def g gentle_mild install_state_def fresh_state_def start_options_def Let_def)
  from hoare_returns [OF this _ run] show ?thesis by (simp add: holds_def split_beta)
qed

end
