(* ===== verification/WorktreeCommand.thy ===== *)
theory WorktreeCommand
  imports WorkspaceRuntime WorktreeTarget HubIdentity
begin

text \<open>
  The \<open>/worktree\<close> command (\<open>pi/core/project/workspace/command.ts\<close>) and its \<open>prune\<close> (\<open>prune.ts\<close>): the
  worktrees a user may remove, the questions asked before one is, and creating and switching worktrees.
  The dialogs are parameters; each question with its answer is recorded. The lines of the menus, whose
  dashes are not Latin-1, are kept as their parts.
\<close>

section \<open>Dialogs\<close>

datatype menu_line =
    CreateLine
  | WorktreeLine string bool string
  | CandidateLine string string string bool

record 'w dialogs =
  dg_confirm :: "ui_question \<Rightarrow> ('w, bool) io"
  dg_select :: "menu_line list \<Rightarrow> ('w, menu_line option) io"
  dg_input :: "('w, string option) io"

definition ask :: "'w dialogs \<Rightarrow> ui_question \<Rightarrow> ('w, bool) ws_io" where
  "ask ui q = io_bind (on_host (untraced (dg_confirm ui q))) (\<lambda>a.
     io_bind (change (\<lambda>s. s\<lparr>sv_ui := sv_ui s @ [Answered q a]\<rparr>)) (\<lambda>_. io_return a))"

definition select_line :: "'w dialogs \<Rightarrow> menu_line list \<Rightarrow> ('w, menu_line option) ws_io" where
  "select_line ui ls = on_host (untraced (dg_select ui ls))"

section \<open>Prune\<close>

definition AGENT_LABEL_RE :: "string \<Rightarrow> bool" where
  "AGENT_LABEL_RE s \<longleftrightarrow> LEGACY_AGENT_BRANCH_RE s"

record prune_candidate =
  pc_label :: string
  pc_path :: string
  pc_branch :: "string option"
  pc_dirty :: bool
  pc_inUse :: bool
  pc_staged :: bool

definition is_cold :: "'w session_host \<Rightarrow> worktree_record option \<Rightarrow> ('w, bool) ws_io" where
  "is_cold h found = (case found of
     None \<Rightarrow> io_return True
   | Some r \<Rightarrow> io_bind (clock h) (\<lambda>now. io_return (classifySessionWorktree (sh_legacy h) r (int now) = Cold)))"

definition collect_candidate ::
  "'w session_host \<Rightarrow> worktree_record list \<Rightarrow> string option \<Rightarrow> prune_candidate list \<Rightarrow> worktree_summary
   \<Rightarrow> ('w, prune_candidate list) ws_io" where
  "collect_candidate h records activePath candidates summary =
     (let pf = sh_platform h in
      if AGENT_LABEL_RE (wm_label summary) then io_return candidates
      else if truthy_str activePath \<and> resolve pf (wm_path summary) = resolve pf (the activePath) then io_return candidates
      else (let found = findWorktreeRecord pf records (wm_path summary) in
        io_bind (on_host (isWorktreeClean pf (wm_path summary))) (\<lambda>clean.
        io_bind (is_cold h found) (\<lambda>cold.
        io_return (candidates @
          [\<lparr>pc_label = wm_label summary, pc_path = wm_path summary,
            pc_branch = (if wm_branch summary = ''detached'' then None else Some (wm_branch summary)),
            pc_dirty = (\<not> clean), pc_inUse = (\<not> cold),
            pc_staged = (\<not> cold \<and> parseStagedLock (sh_legacy h) (lock_reason_of found) \<noteq> None)\<rparr>])))))"

definition collectPruneCandidates ::
  "(string \<Rightarrow> string \<Rightarrow> bool) \<Rightarrow> 'w session_host \<Rightarrow> string \<Rightarrow> string \<Rightarrow> string option \<Rightarrow> ('w, prune_candidate list) ws_io" where
  "collectPruneCandidates labelLe h repoRoot repoName activePath =
     io_bind (on_host (listWorktrees labelLe (sh_platform h) repoRoot repoName)) (\<lambda>summaries.
     io_bind (on_host (gitWorktreeRecords (sh_platform h) repoRoot)) (\<lambda>records.
     io_foldl (collect_candidate h records activePath) [] summaries))"

definition prune_host :: "'w platform \<Rightarrow> string \<Rightarrow> prune_candidate \<Rightarrow> bool \<Rightarrow> ('w, unit) host_io" where
  "prune_host pf repoRoot target deleteBranchToo =
     io_bind (removeWorktree pf repoRoot (pc_path target) \<lparr>ro_force = True, ro_unlock = Some True\<rparr>) (\<lambda>_.
     if deleteBranchToo \<and> truthy_str (pc_branch target) then deleteBranch pf repoRoot (the (pc_branch target)) else io_return ())"

definition pruneWorktree :: "'w session_host \<Rightarrow> string \<Rightarrow> prune_candidate \<Rightarrow> bool \<Rightarrow> ('w, unit) ws_io" where
  "pruneWorktree h repoRoot target deleteBranchToo = on_host (prune_host (sh_platform h) repoRoot target deleteBranchToo)"

definition formatCandidate :: "prune_candidate \<Rightarrow> menu_line" where
  "formatCandidate c = CandidateLine (pc_label c) (case pc_branch c of None \<Rightarrow> ''detached'' | Some b \<Rightarrow> b)
     (if pc_staged c then ''  (staged, awaiting launch)'' else if pc_inUse c then ''  (in use)'' else []) (pc_dirty c)"

text \<open>The questions before a removal, in order; \<open>False\<close> when one is answered no.\<close>

definition confirm_removal :: "'w dialogs \<Rightarrow> prune_candidate \<Rightarrow> ('w, bool) ws_io" where
  "confirm_removal ui target =
     io_bind (if pc_inUse target then ask ui (if pc_staged target then Staged (pc_label target) else InUse (pc_label target))
              else io_return True) (\<lambda>proceed.
     if \<not> proceed then io_return False
     else if pc_dirty target then ask ui (Uncommitted (pc_label target)) else io_return True)"

definition confirmAndPrune :: "'w session_host \<Rightarrow> 'w dialogs \<Rightarrow> string \<Rightarrow> prune_candidate \<Rightarrow> ('w, bool) ws_io" where
  "confirmAndPrune h ui repoRoot target =
     io_bind (confirm_removal ui target) (\<lambda>proceed.
     if \<not> proceed then io_bind (notify_ui (WorktreeNotice ''Prune cancelled'')) (\<lambda>_. io_return False)
     else io_bind (case pc_branch target of None \<Rightarrow> io_return False | Some b \<Rightarrow> ask ui (DeleteBranchToo b)) (\<lambda>deleteBranchToo.
       io_catch
         (io_bind (pruneWorktree h repoRoot target deleteBranchToo) (\<lambda>_.
          io_bind (notify_ui (WorktreeNotice (''Pruned '' @ pc_label target @
            (if deleteBranchToo then '' and deleted '' @ the (pc_branch target)
             else '' (branch '' @ (case pc_branch target of None \<Rightarrow> ''none'' | Some b \<Rightarrow> b) @ '' kept)'')))) (\<lambda>_. io_return True)))
         (\<lambda>e. io_bind (notify_ui (WorktreeNotice (''Prune failed: '' @ e))) (\<lambda>_. io_return False))))"

text \<open>The menu is a map from lines to candidates: a later candidate with the same line replaces an earlier one.\<close>

definition runWorktreePrune ::
  "(string \<Rightarrow> string \<Rightarrow> bool) \<Rightarrow> 'w session_host \<Rightarrow> 'w dialogs \<Rightarrow> bool \<Rightarrow> ('w, unit) ws_io" where
  "runWorktreePrune labelLe h ui hasUI =
     io_bind (gets sv_state) (\<lambda>st. case Option.bind st ws_repo of
       None \<Rightarrow> notify_ui (WorktreeNotice ''/worktree prune requires a git repository'')
     | Some repo \<Rightarrow>
         if \<not> hasUI then io_return ()
         else io_bind (collectPruneCandidates labelLe h (rp_root repo) (rp_name repo)
                 (map_option wt_path (Option.bind st ws_activeWorktree))) (\<lambda>candidates.
           if candidates = [] then notify_ui (WorktreeNotice (''No prunable worktrees for '' @ rp_name repo))
           else (let byChoice = map (\<lambda>c. (formatCandidate c, c)) candidates in
             io_bind (select_line ui (remdups (map fst byChoice))) (\<lambda>choice.
             case Option.bind choice (map_of (rev byChoice)) of
               None \<Rightarrow> notify_ui (WorktreeNotice ''Prune cancelled'')
             | Some target \<Rightarrow> io_bind (confirmAndPrune h ui (rp_root repo) target) (\<lambda>_. io_return ())))))"

section \<open>Create and switch\<close>

definition formatWorktreeChoice :: "worktree_summary \<Rightarrow> string option \<Rightarrow> menu_line" where
  "formatWorktreeChoice wt activeLabel = WorktreeLine (wm_label wt) (Some (wm_label wt) = activeLabel) (wm_branch wt)"

datatype worktree_selection = SelectCreate | SelectSwitch string

definition promptWorktreeChoice ::
  "'w dialogs \<Rightarrow> bool \<Rightarrow> worktree_summary list \<Rightarrow> string option \<Rightarrow> ('w, worktree_selection option) ws_io" where
  "promptWorktreeChoice ui hasUI worktrees activeLabel =
     (if \<not> hasUI then io_return None
      else (let labelsByChoice = map (\<lambda>wt. (formatWorktreeChoice wt activeLabel, wm_label wt)) worktrees in
        io_bind (select_line ui (CreateLine # map fst labelsByChoice)) (\<lambda>choice. io_return (case choice of
          None \<Rightarrow> None
        | Some c \<Rightarrow> if c = CreateLine then Some SelectCreate
            else (let label = map_of (rev labelsByChoice) c in if truthy_str label then Some (SelectSwitch (the label)) else None)))))"

definition shown_branch :: "session_worktree \<Rightarrow> string" where
  "shown_branch w = (case wt_branch w of None \<Rightarrow> ''detached'' | Some b \<Rightarrow> b)"

definition switchWorktree ::
  "'w session_host \<Rightarrow> worktree_summary list \<Rightarrow> session_worktree option \<Rightarrow> string \<Rightarrow> ('w, unit) ws_io" where
  "switchWorktree h worktrees active label =
     (case find (\<lambda>wt. wm_label wt = label) worktrees of
        None \<Rightarrow> notify_ui (WorktreeNotice (''Unknown workspace worktree '' @ [CHR 0x27] @ label @ [CHR 0x27] @
                  ''. Use /worktree to choose or create one.''))
      | Some m \<Rightarrow>
          if (case active of None \<Rightarrow> False | Some a \<Rightarrow> wt_label a = wm_label m \<and> wt_path a = wm_path m)
          then notify_ui (WorktreeNotice (''Worktree already active: '' @ wm_label m))
          else io_catch
            (io_bind (attachWorktreePath h (wm_path m)) (\<lambda>target. notify_ui (WorktreeActive (wt_label target) (shown_branch target))))
            (\<lambda>e. notify_ui (WorktreeNotice (''Worktree switch failed: '' @ e))))"

definition runCreatedWorktreeSetup :: "'w session_host \<Rightarrow> repo_context \<Rightarrow> session_worktree \<Rightarrow> ('w, unit) ws_io" where
  "runCreatedWorktreeSetup h repo wt = runRebuiltWorktreeSetup h (rp_name repo) (rp_root repo) wt"

definition createWorktreeFlow ::
  "'w session_host \<Rightarrow> 'w dialogs \<Rightarrow> string \<Rightarrow> string \<Rightarrow> repo_context \<Rightarrow> ('w, unit) ws_io" where
  "createWorktreeFlow h ui userId sessionId repo =
     io_bind (on_host (untraced (dg_input ui))) (\<lambda>input.
     let slug = map_option trim input in
     if \<not> truthy_str slug then notify_ui (WorktreeNotice ''Worktree creation cancelled'')
     else (let target = executionWorktreeTarget (the slug) (Some (shortSessionId sessionId)) userId in
       io_catch
         (io_bind (on_host (resolveAvailableWorktreeLabel (sh_platform h) (rp_root repo) (rp_name repo)
              (wt_worktreeLabel target) (wt_branchName target))) (\<lambda>label.
          io_bind (activateWorktree h label (Some (wt_branchName target))) (\<lambda>wt.
          io_bind (runCreatedWorktreeSetup h repo wt) (\<lambda>_. notify_ui (WorktreeActive (wt_label wt) (shown_branch wt))))))
         (\<lambda>e. notify_ui (WorktreeNotice (''Worktree creation failed: '' @ e)))))"

definition choose_worktree ::
  "'w session_host \<Rightarrow> 'w dialogs \<Rightarrow> bool \<Rightarrow> string \<Rightarrow> string \<Rightarrow> repo_context \<Rightarrow> worktree_summary list
   \<Rightarrow> session_worktree option \<Rightarrow> ('w, unit) ws_io" where
  "choose_worktree h ui hasUI userId sessionId repo worktrees active =
     io_bind (promptWorktreeChoice ui hasUI worktrees (map_option wt_label active)) (\<lambda>selection. case selection of
       None \<Rightarrow> notify_ui (WorktreeNotice ''Worktree selection cancelled'')
     | Some SelectCreate \<Rightarrow> createWorktreeFlow h ui userId sessionId repo
     | Some (SelectSwitch label) \<Rightarrow> switchWorktree h worktrees active label)"

definition worktree_command ::
  "(string \<Rightarrow> string \<Rightarrow> bool) \<Rightarrow> 'w session_host \<Rightarrow> 'w dialogs \<Rightarrow> bool \<Rightarrow> string \<Rightarrow> string \<Rightarrow> string \<Rightarrow> ('w, unit) ws_io" where
  "worktree_command labelLe h ui hasUI userId sessionId args =
     (if trim args = ''prune'' then runWorktreePrune labelLe h ui hasUI
      else io_bind (gets sv_state) (\<lambda>st. case Option.bind st ws_repo of
        None \<Rightarrow> notify_ui (WorktreeNotice ''/worktree requires a git repository'')
      | Some repo \<Rightarrow>
          io_bind (io_try (on_host (listWorktrees labelLe (sh_platform h) (rp_root repo) (rp_name repo)))) (\<lambda>listing.
          case listing of
            Inl e \<Rightarrow> notify_ui (WorktreeNotice (''Failed to list worktrees: '' @ e))
          | Inr worktrees \<Rightarrow>
              let active = Option.bind st ws_activeWorktree in
              if trim args \<noteq> [] then switchWorktree h worktrees active (trim args)
              else choose_worktree h ui hasUI userId sessionId repo worktrees active)))"

section \<open>What prune may remove\<close>

definition cold_in :: "(string \<Rightarrow> int option) \<Rightarrow> 'w platform \<Rightarrow> worktree_record list \<Rightarrow> string \<Rightarrow> int \<Rightarrow> bool" where
  "cold_in legacy pf records d now = (case findWorktreeRecord pf records d of
     None \<Rightarrow> True | Some r \<Rightarrow> classifySessionWorktree legacy r now = Cold)"

text \<open>
  A successful listing of the repository has a worktree with this path and branch, and with this label under the
  directory of the repository's worktrees.
\<close>

definition in_listing :: "'w platform \<Rightarrow> string \<Rightarrow> string \<Rightarrow> host_event list \<Rightarrow> worktree_summary \<Rightarrow> bool" where
  "in_listing pf rdir name l wt \<longleftrightarrow> (\<exists>x rec. EvExec (list_call rdir) (Inr x) \<in> set l \<and> ex_code x = 0
     \<and> rec \<in> set (parseWorktreeList (trim (ex_stdout x)))
     \<and> labelFromWorktreePath pf name (wr_path rec) = Inr (wm_label wt)
     \<and> wm_path wt = resolve pf (wr_path rec) \<and> wm_branch wt = branchName rec)"

definition candidate_listed :: "'w platform \<Rightarrow> string \<Rightarrow> string \<Rightarrow> host_event list \<Rightarrow> prune_candidate \<Rightarrow> bool" where
  "candidate_listed pf rdir name l c \<longleftrightarrow>
     (\<exists>b. in_listing pf rdir name l \<lparr>wm_label = pc_label c, wm_path = pc_path c, wm_branch = b\<rparr>
        \<and> pc_branch c = (if b = ''detached'' then None else Some b))"

text \<open>
  What the trace shows of a candidate: a listing of the repository has it, its label is not an agent's, it is not the active worktree, and,
  unless it is marked, git reported it clean and a listing showed it unlocked or cold.
\<close>

definition candidate_shown ::
  "'w session_host \<Rightarrow> string \<Rightarrow> string \<Rightarrow> string option \<Rightarrow> host_event list \<Rightarrow> prune_candidate \<Rightarrow> bool" where
  "candidate_shown h rdir name active l c \<longleftrightarrow>
     candidate_listed (sh_platform h) rdir name l c
     \<and> \<not> AGENT_LABEL_RE (pc_label c)
     \<and> (case active of None \<Rightarrow> True | Some a \<Rightarrow> a = [] \<or> resolve (sh_platform h) (pc_path c) \<noteq> resolve (sh_platform h) a)
     \<and> (pc_dirty c \<or> (\<exists>r. EvExec (status_call (pc_path c)) r \<in> set l \<and> clean_answer r))
     \<and> (pc_inUse c \<or> (\<exists>x now. EvExec (list_call rdir) (Inr x) \<in> set l
          \<and> cold_in (sh_legacy h) (sh_platform h) (parseWorktreeList (trim (ex_stdout x))) (pc_path c) now))"

text \<open>The user answered yes to what a candidate's marks ask.\<close>

definition confirmed_by :: "ui_event list \<Rightarrow> prune_candidate \<Rightarrow> bool" where
  "confirmed_by us c \<longleftrightarrow>
     (pc_inUse c \<longrightarrow> Answered (if pc_staged c then Staged (pc_label c) else InUse (pc_label c)) True \<in> set us)
     \<and> (pc_dirty c \<longrightarrow> Answered (Uncommitted (pc_label c)) True \<in> set us)"

definition prune_grounds ::
  "'w session_host \<Rightarrow> string \<Rightarrow> string \<Rightarrow> string option \<Rightarrow> ui_event list \<Rightarrow> host_event list \<Rightarrow> exec_call \<Rightarrow> bool" where
  "prune_grounds h rdir name active us l c \<longleftrightarrow> (\<exists>cand. candidate_shown h rdir name active l cand \<and> confirmed_by us cand
     \<and> (is_remove c \<and> last (xc_args c) = pc_path cand
        \<or> (\<exists>b. c = git_call [''-C'', rdir, ''branch'', ''-D'', b] \<and> pc_branch cand = Some b \<and> Answered (DeleteBranchToo b) True \<in> set us)))"

lemma in_listing_append: "in_listing pf rdir name l wt \<Longrightarrow> in_listing pf rdir name (l @ l') wt"
  unfolding in_listing_def by auto

lemma candidate_listed_append: "candidate_listed pf rdir name l c \<Longrightarrow> candidate_listed pf rdir name (l @ l') c"
  unfolding candidate_listed_def by (blast intro: in_listing_append)

lemma candidate_shown_append: "candidate_shown h rdir name active l c \<Longrightarrow> candidate_shown h rdir name active (l @ l') c"
  unfolding candidate_shown_def by (auto intro: candidate_listed_append)

lemma prune_grounds_more: "prune_grounds h rdir name active us l c \<Longrightarrow> prune_grounds h rdir name active (us @ us') l c"
  unfolding prune_grounds_def confirmed_by_def by auto

lemma guarded_more:
  assumes "\<And>l c. ok l c \<Longrightarrow> ok' l c"
  shows "guarded D ok l \<Longrightarrow> guarded D ok' l"
proof -
  have "guarded_from D ok l0 s \<Longrightarrow> guarded_from D ok' l0 s" for l0 s
    using assms by (induction D ok l0 s rule: guarded_from.induct) auto
  then show "guarded D ok l \<Longrightarrow> guarded D ok' l" by (simp add: guarded_def)
qed

abbreviation prune_safe :: "'w session_host \<Rightarrow> string \<Rightarrow> string \<Rightarrow> string option \<Rightarrow> host_event list \<Rightarrow> service \<Rightarrow> bool" where
  "prune_safe h rdir name active l s \<equiv> guarded destructive (prune_grounds h rdir name active (sv_ui s)) l"

lemma prune_safe_ui: "prune_safe h rdir name active l s \<Longrightarrow> prune_safe h rdir name active l (s\<lparr>sv_ui := sv_ui s @ us\<rparr>)"
  by (auto elim!: guarded_more [rotated] intro: prune_grounds_more)

text \<open>Collecting runs no destructive command, and what it collects is shown by the trace.\<close>

definition collected ::
  "'w session_host \<Rightarrow> string \<Rightarrow> string \<Rightarrow> string option \<Rightarrow> prune_candidate list \<Rightarrow> host_event list \<Rightarrow> service \<Rightarrow> bool" where
  "collected h rdir name active cs l s \<longleftrightarrow> prune_safe h rdir name active l s \<and> list_all (candidate_shown h rdir name active l) cs"

lemma collected_gentle: "gentle (\<lambda>l. collected h rdir name active cs l s)"
  by (auto simp: collected_def gentle_def keeps_def keeps_writes_def list_all_iff intro: candidate_shown_append)

lemma stable_isWorktreeClean [stable_intros]: "mild I \<Longrightarrow> stable I (isWorktreeClean pf d)"
  unfolding isWorktreeClean_def by (auto intro!: stable_intros simp: verb_simps)

lemma hoare_host:
  assumes "\<And>s. hoare (on_log (\<lambda>l. P l s)) m (\<lambda>x. on_log (\<lambda>l. Q x l s)) (on_log (\<lambda>l. E l s))"
  shows "hoare (holds P) (on_host m) (\<lambda>x. holds (Q x)) (holds E)"
proof (rule hoareI)
  fix w e w' assume "holds P w" "on_host m w = (Inl e, w')"
  then show "holds E w'" using hoare_throws [OF assms] by (force simp: on_host_def holds_def split: prod.splits)
next
  fix w x w' assume "holds P w" "on_host m w = (Inr x, w')"
  then show "holds (Q x) w'" using hoare_returns [OF assms] by (force simp: on_host_def holds_def split: prod.splits)
qed

lemma clean_shown:
  assumes "mild C"
  shows "hoare (on_log C) (isWorktreeClean pf d)
    (\<lambda>clean. on_log (\<lambda>l. C l \<and> (clean \<longrightarrow> (\<exists>r. EvExec (status_call d) r \<in> set l \<and> clean_answer r)))) (on_log C)"
proof -
  have "keeps C (status_call d)"
    unfolding status_call_def by (rule mild_git [OF assms]) (simp add: changing_verbs_def)
  then show ?thesis
    unfolding isWorktreeClean_def status_call_def [symmetric] pexec_def
    by (intro hoare_bind [OF hoare_traced [where Q = "\<lambda>x l. C l \<and> EvExec (status_call d) (Inr x) \<in> set l"]] hoare_return)
      (auto simp: keeps_def clean_answer_def intro!: exI)
qed

lemma records_shown:
  assumes "mild C"
  shows "hoare (on_log C) (gitWorktreeRecords pf rdir)
    (\<lambda>records. on_log (\<lambda>l. C l \<and> (\<exists>x. EvExec (list_call rdir) (Inr x) \<in> set l \<and> ex_code x = 0 \<and> records = parseWorktreeList (trim (ex_stdout x)))))
    (on_log C)"
proof -
  have "keeps C (list_call rdir)"
    unfolding list_call_def by (rule mild_git [OF assms]) (simp add: changing_verbs_def)
  then have "C (l @ [EvExec (list_call rdir) r])" if "C l" for l r using that by (simp add: keeps_def)
  then have "(case fst (gitWorktreeRecords pf rdir w) of Inl e \<Rightarrow> C (tw_log (snd (gitWorktreeRecords pf rdir w)))
      | Inr records \<Rightarrow> C (tw_log (snd (gitWorktreeRecords pf rdir w)))
          \<and> (\<exists>x. EvExec (list_call rdir) (Inr x) \<in> set (tw_log (snd (gitWorktreeRecords pf rdir w)))
               \<and> ex_code x = 0 \<and> records = parseWorktreeList (trim (ex_stdout x))))" if "C (tw_log w)" for w
    using gitWorktreeRecords_run [of pf rdir w] that by (auto split: sum.splits)
  then show ?thesis by (force simp: hoare_def split: prod.split sum.splits)
qed

lemma hoare_is_cold:
  "hoare (holds P) (is_cold h found) (\<lambda>cold. holds (\<lambda>l s. P l s \<and> (cold \<longrightarrow>
     (\<exists>now. case found of None \<Rightarrow> True | Some r \<Rightarrow> classifySessionWorktree (sh_legacy h) r now = Cold)))) (holds P)"
proof (cases "found")
  case None
  then show ?thesis by (auto simp: is_cold_def holds_def intro!: hoare_return)
next
  case (Some r)
  then show ?thesis
    unfolding is_cold_def Some option.case
    by (intro hoare_bind [OF hoare_keep [OF wkeeps_clock]] hoare_return) (auto simp: holds_def)
qed

definition listing_shown :: "string \<Rightarrow> worktree_record list \<Rightarrow> host_event list \<Rightarrow> bool" where
  "listing_shown rdir records l \<longleftrightarrow> (\<exists>x. EvExec (list_call rdir) (Inr x) \<in> set l \<and> records = parseWorktreeList (trim (ex_stdout x)))"

abbreviation collecting ::
  "'w session_host \<Rightarrow> string \<Rightarrow> string \<Rightarrow> string option \<Rightarrow> worktree_summary list \<Rightarrow> worktree_record list \<Rightarrow> prune_candidate list
   \<Rightarrow> host_event list \<Rightarrow> service \<Rightarrow> bool" where
  "collecting h rdir name active wts records cs \<equiv> \<lambda>l s. collected h rdir name active cs l s
     \<and> list_all (in_listing (sh_platform h) rdir name l) wts \<and> listing_shown rdir records l"

lemma collecting_mild: "mild (\<lambda>l. collecting h rdir name active wts records cs l s)"
  by (rule gentle_mild)
    (auto simp: collected_def gentle_def keeps_def keeps_writes_def list_all_iff listing_shown_def
      intro: candidate_shown_append in_listing_append)

lemma hoare_collect_candidate:
  assumes "summary \<in> set wts"
  shows "hoare (holds (collecting h rdir name active wts records cs)) (collect_candidate h records active cs summary)
     (\<lambda>cs'. holds (collecting h rdir name active wts records cs')) (holds (prune_safe h rdir name active))"
proof -
  let ?C = "collecting h rdir name active wts records cs" and ?d = "wm_path summary"
  let ?found = "findWorktreeRecord (sh_platform h) records ?d"
  let ?clean = "\<lambda>l. \<exists>r. EvExec (status_call ?d) r \<in> set l \<and> clean_answer r"
  let ?cold = "\<exists>now. case ?found of None \<Rightarrow> True | Some r \<Rightarrow> classifySessionWorktree (sh_legacy h) r now = Cold"
  have E: "prune_safe h rdir name active l s" if "?C l s" for l s using that by (simp add: collected_def)
  have clean: "hoare (holds ?C) (on_host (isWorktreeClean (sh_platform h) ?d))
      (\<lambda>clean. holds (\<lambda>l s. ?C l s \<and> (clean \<longrightarrow> ?clean l))) (holds (prune_safe h rdir name active))"
    by (rule hoare_weaken [OF hoare_host [OF clean_shown [OF collecting_mild]]]) (auto simp: holds_def E)
  have cold: "hoare (holds (\<lambda>l s. ?C l s \<and> (clean \<longrightarrow> ?clean l))) (is_cold h ?found)
      (\<lambda>cold. holds (\<lambda>l s. (?C l s \<and> (clean \<longrightarrow> ?clean l)) \<and> (cold \<longrightarrow> ?cold))) (holds (prune_safe h rdir name active))" for clean
    by (rule hoare_weaken [OF hoare_is_cold [where P = "\<lambda>l s. ?C l s \<and> (clean \<longrightarrow> ?clean l)"]]) (auto simp: holds_def E)
  have listed: "in_listing (sh_platform h) rdir name l \<lparr>wm_label = wm_label summary, wm_path = ?d, wm_branch = wm_branch summary\<rparr>"
    if "?C l s" for l s
  proof -
    have "\<lparr>wm_label = wm_label summary, wm_path = ?d, wm_branch = wm_branch summary\<rparr> = summary" by simp
    then show ?thesis using that assms by (auto simp only: list_all_iff)
  qed
  have new: "holds (collecting h rdir name active wts records (cs @ [c])) w"
    if "holds (\<lambda>l s. (?C l s \<and> (clean \<longrightarrow> ?clean l)) \<and> (cold \<longrightarrow> ?cold)) w" "\<not> AGENT_LABEL_RE (wm_label summary)"
      "\<not> (truthy_str active \<and> resolve (sh_platform h) ?d = resolve (sh_platform h) (the active))"
      "pc_label c = wm_label summary" "pc_path c = ?d" "pc_branch c = (if wm_branch summary = ''detached'' then None else Some (wm_branch summary))"
      "pc_dirty c = (\<not> clean)" "pc_inUse c = (\<not> cold)"
    for c w clean cold
  proof -
    obtain t s where w: "w = (t, s)" by fastforce
    have "in_listing (sh_platform h) rdir name (tw_log t) \<lparr>wm_label = pc_label c, wm_path = pc_path c, wm_branch = wm_branch summary\<rparr>"
      using listed [of "tw_log t" s] that w by (simp add: holds_def)
    with that(4-6) have "candidate_listed (sh_platform h) rdir name (tw_log t) c" unfolding candidate_listed_def by blast
    then have "candidate_shown h rdir name active (tw_log t) c"
      using that w unfolding candidate_shown_def listing_shown_def cold_in_def
      by (auto simp: truthy_str_def split: option.splits)
    then show ?thesis using that w by (simp add: collected_def)
  qed
  show ?thesis
    unfolding collect_candidate_def Let_def
    by (rule hoare_if, rule hoare_return, assumption, rule hoare_if, rule hoare_return, assumption,
        rule hoare_bind [OF clean], rule hoare_bind [OF cold], rule hoare_return)
      (rule new, assumption+, simp_all)
qed

text \<open>The listing of the repository's worktrees is read off a successful listing by git.\<close>

lemma summary_of_listed:
  "summary_of pf name rec t = (Inr (Some wt), t') \<Longrightarrow> labelFromWorktreePath pf name (wr_path rec) = Inr (wm_label wt)
     \<and> wm_path wt = resolve pf (wr_path rec) \<and> wm_branch wt = branchName rec"
  by (auto simp: summary_of_def io_catch_def io_bind_def io_lift_def io_return_def io_throw_def split: sum.splits prod.splits)

lemma in_listingI:
  "EvExec (list_call rdir) (Inr x) \<in> set l \<Longrightarrow> ex_code x = 0 \<Longrightarrow> rec \<in> set (parseWorktreeList (trim (ex_stdout x))) \<Longrightarrow>
   labelFromWorktreePath pf name (wr_path rec) = Inr (wm_label wt) \<Longrightarrow> wm_path wt = resolve pf (wr_path rec) \<Longrightarrow>
   wm_branch wt = branchName rec \<Longrightarrow> in_listing pf rdir name l wt"
  unfolding in_listing_def by blast

lemma set_sort_by: "set (sort_by le xs) = set xs"
proof -
  have "set (insert_by le x ys) = insert x (set ys)" for x ys by (induction ys) auto
  then show ?thesis unfolding sort_by_def by (induction xs) auto
qed

lemma listed_summaries:
  assumes "mild C"
  shows "hoare (on_log C) (listWorktrees labelLe pf rdir name)
    (\<lambda>wts. on_log (\<lambda>l. C l \<and> list_all (in_listing pf rdir name l) wts)) (on_log C)"
proof -
  let ?D = "\<lambda>records l. C l \<and> (\<exists>x. EvExec (list_call rdir) (Inr x) \<in> set l \<and> ex_code x = 0 \<and> records = parseWorktreeList (trim (ex_stdout x)))"
  let ?I = "\<lambda>records acc l. ?D records l \<and> list_all (pred_option (in_listing pf rdir name l)) acc"
  have more: "list_all (pred_option (in_listing pf rdir name (l @ l'))) acc"
    if "list_all (pred_option (in_listing pf rdir name l)) acc" for l l' acc
    using that by (auto simp: list_all_iff pred_option_def intro: in_listing_append)
  have mild: "mild (?I records acc)" for records acc
    using assms by (auto simp: mild_def keeps_git_def keeps_def keeps_writes_def intro: more)
  have one: "hoare (on_log (?I records acc)) (io_bind (summary_of pf name rec) (\<lambda>x. io_return (acc @ [x])))
      (\<lambda>acc. on_log (?I records acc)) (on_log C)" if "rec \<in> set records" for records rec acc
  proof -
    have st: "stable (?I records acc) (summary_of pf name rec)"
      unfolding summary_of_def by (auto intro!: stable_intros mild)
    let ?made = "\<lambda>x. pred_option (\<lambda>wt. labelFromWorktreePath pf name (wr_path rec) = Inr (wm_label wt)
       \<and> wm_path wt = resolve pf (wr_path rec) \<and> wm_branch wt = branchName rec) x"
    have "hoare (on_log (?I records acc)) (summary_of pf name rec) (\<lambda>x t. on_log (?I records acc) t \<and> ?made x) (on_log C)"
    proof (rule hoareI)
      fix t e t' assume t: "on_log (?I records acc) t" and run: "summary_of pf name rec t = (Inl e, t')"
      from hoare_throws [OF st [unfolded stable_def] t run] show "on_log C t'" by (simp only: on_log_def)
    next
      fix t x t' assume t: "on_log (?I records acc) t" and run: "summary_of pf name rec t = (Inr x, t')"
      have "?made x" using run by (cases x) (auto simp: pred_option_def dest: summary_of_listed)
      with hoare_returns [OF st [unfolded stable_def] t run] show "on_log (?I records acc) t' \<and> ?made x" by blast
    qed
    then show ?thesis
    proof (rule hoare_bind)
      fix x
      show "hoare (\<lambda>t. on_log (?I records acc) t \<and> ?made x) (io_return (acc @ [x])) (\<lambda>acc. on_log (?I records acc)) (on_log C)"
      proof (rule hoare_return)
        fix t assume t: "on_log (?I records acc) t \<and> ?made x"
        then obtain y where y: "EvExec (list_call rdir) (Inr y) \<in> set (tw_log t)" "ex_code y = 0"
          "records = parseWorktreeList (trim (ex_stdout y))" by auto
        have "pred_option (in_listing pf rdir name (tw_log t)) x"
        proof (cases x)
          case (Some wt)
          with t y that have "in_listing pf rdir name (tw_log t) wt" by (intro in_listingI [OF y(1,2)]) simp_all
          then show ?thesis unfolding Some by simp
        qed simp
        with t show "on_log (?I records (acc @ [x])) t" by (simp only: on_log_def list_all_append list.pred_inject simp_thms)
      qed
    qed
  qed
  have records: "hoare (on_log C) (gitWorktreeRecords pf rdir) (\<lambda>records. on_log (?I records [])) (on_log C)"
    by (rule hoare_weaken [OF records_shown [OF assms]]) auto
  have all: "hoare (on_log (?I records [])) (io_foldl (\<lambda>acc rec. io_bind (summary_of pf name rec) (\<lambda>s. io_return (acc @ [s]))) [] records)
      (\<lambda>acc. on_log (?I records acc)) (on_log C)" for records
    by (rule hoare_foldl [where I = "\<lambda>acc. on_log (?I records acc)"]) (rule one)
  show ?thesis
    unfolding listWorktrees_def
    by (rule hoare_bind [OF records], rule hoare_bind [OF all], rule hoare_return)
      (auto simp: list_all_iff set_sort_by pred_option_def)
qed

lemma hoare_collect:
  "hoare (holds (prune_safe h rdir name active)) (collectPruneCandidates labelLe h rdir name active)
     (\<lambda>cs. holds (collected h rdir name active cs)) (holds (prune_safe h rdir name active))"
proof -
  let ?G = "prune_safe h rdir name active"
  let ?L = "\<lambda>wts l s. ?G l s \<and> list_all (in_listing (sh_platform h) rdir name l) wts"
  have listing: "hoare (holds ?G) (on_host (listWorktrees labelLe (sh_platform h) rdir name)) (\<lambda>wts. holds (?L wts)) (holds ?G)"
    by (rule hoare_host [OF listed_summaries]) (rule gentle_mild [OF gentle_guarded])
  have mild: "mild (\<lambda>l. ?L wts l s)" for wts s
    by (rule gentle_mild) (auto simp: gentle_def keeps_def keeps_writes_def list_all_iff intro: in_listing_append)
  have records: "hoare (holds (?L wts)) (on_host (gitWorktreeRecords (sh_platform h) rdir))
      (\<lambda>records. holds (collecting h rdir name active wts records [])) (holds ?G)" for wts
    by (rule hoare_weaken [OF hoare_host [OF records_shown [OF mild]]])
      (auto simp: holds_def collected_def listing_shown_def)
  have fold: "hoare (holds (collecting h rdir name active wts records [])) (io_foldl (collect_candidate h records active) [] wts)
      (\<lambda>cs. holds (collecting h rdir name active wts records cs)) (holds ?G)" for records wts
    by (rule hoare_foldl) (rule hoare_collect_candidate)
  show ?thesis
    unfolding collectPruneCandidates_def
    by (rule hoare_bind [OF listing], rule hoare_bind [OF records], rule hoare_weaken [OF fold])
      (auto simp: holds_def)
qed

text \<open>The questions, and the removal after them.\<close>

abbreviation targeted ::
  "'w session_host \<Rightarrow> string \<Rightarrow> string \<Rightarrow> string option \<Rightarrow> prune_candidate \<Rightarrow> host_event list \<Rightarrow> service \<Rightarrow> bool" where
  "targeted h rdir name active target \<equiv> \<lambda>l s. prune_safe h rdir name active l s \<and> candidate_shown h rdir name active l target"

definition ui_lasting :: "(service \<Rightarrow> bool) \<Rightarrow> bool" where
  "ui_lasting Y \<longleftrightarrow> (\<forall>s us. Y s \<longrightarrow> Y (s\<lparr>sv_ui := sv_ui s @ us\<rparr>))"

lemma hoare_ask:
  assumes "ui_lasting Y"
  shows "hoare (holds (\<lambda>l s. targeted h rdir name active target l s \<and> Y s)) (ask ui q)
    (\<lambda>a. holds (\<lambda>l s. targeted h rdir name active target l s \<and> Y s \<and> (a \<longrightarrow> Answered q True \<in> set (sv_ui s))))
    (holds (prune_safe h rdir name active))"
  unfolding ask_def
proof (rule hoare_bind, rule hoare_keep [OF wkeeps_on_host [OF stable_untraced]], simp, rule hoare_bind, rule hoare_change)
  fix a l s
  assume "targeted h rdir name active target l s \<and> Y s"
  then show "targeted h rdir name active target l (s\<lparr>sv_ui := sv_ui s @ [Answered q a]\<rparr>) \<and> Y (s\<lparr>sv_ui := sv_ui s @ [Answered q a]\<rparr>)
      \<and> (a \<longrightarrow> Answered q True \<in> set (sv_ui (s\<lparr>sv_ui := sv_ui s @ [Answered q a]\<rparr>)))"
    using prune_safe_ui [of h rdir name active s l "[Answered q a]"] assms by (auto simp: ui_lasting_def)
qed (auto simp: holds_def intro!: hoare_return)

lemma ui_lasting_answered [simp]: "ui_lasting (\<lambda>s. Answered q True \<in> set (sv_ui s))" "ui_lasting (\<lambda>_. True)"
  "ui_lasting Y \<Longrightarrow> ui_lasting Z \<Longrightarrow> ui_lasting (\<lambda>s. Y s \<and> Z s)" "ui_lasting Y \<Longrightarrow> ui_lasting (\<lambda>s. b \<longrightarrow> Y s)"
  by (auto simp: ui_lasting_def)

lemma ui_lasting_confirmed [simp]: "ui_lasting (\<lambda>s. confirmed_by (sv_ui s) target)"
  by (auto simp: ui_lasting_def confirmed_by_def)

lemma hoare_confirm_removal:
  "hoare (holds (targeted h rdir name active target)) (confirm_removal ui target)
     (\<lambda>a. holds (\<lambda>l s. targeted h rdir name active target l s \<and> (a \<longrightarrow> confirmed_by (sv_ui s) target)))
     (holds (prune_safe h rdir name active))"
proof -
  let ?q = "if pc_staged target then Staged (pc_label target) else InUse (pc_label target)"
  let ?first = "\<lambda>a s. a \<longrightarrow> pc_inUse target \<longrightarrow> Answered ?q True \<in> set (sv_ui s)"
  have first: "hoare (holds (targeted h rdir name active target)) (if pc_inUse target then ask ui ?q else io_return True)
      (\<lambda>a. holds (\<lambda>l s. targeted h rdir name active target l s \<and> ?first a s)) (holds (prune_safe h rdir name active))"
  proof (rule hoare_if)
    show "hoare (holds (targeted h rdir name active target)) (ask ui ?q)
      (\<lambda>a. holds (\<lambda>l s. targeted h rdir name active target l s \<and> ?first a s)) (holds (prune_safe h rdir name active))"
      by (rule hoare_weaken [OF hoare_ask [where Y = "\<lambda>_. True"]]) (auto simp: holds_def)
  qed (auto simp: holds_def intro!: hoare_return)
  have second: "hoare (holds (\<lambda>l s. targeted h rdir name active target l s \<and> ?first a s))
      (if \<not> a then io_return False else if pc_dirty target then ask ui (Uncommitted (pc_label target)) else io_return True)
      (\<lambda>a. holds (\<lambda>l s. targeted h rdir name active target l s \<and> (a \<longrightarrow> confirmed_by (sv_ui s) target)))
      (holds (prune_safe h rdir name active))" for a
  proof (rule hoare_if, rule hoare_return, simp add: holds_def split_beta, rule hoare_if)
    show "hoare (holds (\<lambda>l s. targeted h rdir name active target l s \<and> ?first a s)) (ask ui (Uncommitted (pc_label target)))
      (\<lambda>a. holds (\<lambda>l s. targeted h rdir name active target l s \<and> (a \<longrightarrow> confirmed_by (sv_ui s) target)))
      (holds (prune_safe h rdir name active))" if "\<not> \<not> a"
      by (rule hoare_weaken [OF hoare_ask [where Y = "?first a"]]) (use that in \<open>auto simp: holds_def confirmed_by_def\<close>)
  qed (auto simp: holds_def confirmed_by_def intro!: hoare_return)
  show ?thesis unfolding confirm_removal_def by (rule hoare_bind [OF first second])
qed

lemma keeps_prune:
  assumes "confirmed_by us target" "is_remove c \<and> last (xc_args c) = pc_path target
      \<or> (\<exists>b. c = git_call [''-C'', rdir, ''branch'', ''-D'', b] \<and> pc_branch target = Some b \<and> Answered (DeleteBranchToo b) True \<in> set us)"
  shows "keeps (\<lambda>l. guarded destructive (prune_grounds h rdir name active us) l \<and> candidate_shown h rdir name active l target) c"
  using assms unfolding keeps_def guarded_snoc prune_grounds_def by (blast intro: candidate_shown_append)

lemma stable_prune:
  assumes "confirmed_by us target" "del \<Longrightarrow> \<exists>b. pc_branch target = Some b \<and> Answered (DeleteBranchToo b) True \<in> set us"
  shows "stable (\<lambda>l. guarded destructive (prune_grounds h rdir name active us) l \<and> candidate_shown h rdir name active l target)
    (prune_host pf rdir target del)" (is "stable ?I _")
proof -
  have g: "gentle ?I"
    by (auto simp: gentle_def keeps_def keeps_writes_def intro: candidate_shown_append)
  have r: "keeps ?I (git_call [''-C'', rdir, ''worktree'', ''remove'', ''--force'', pc_path target])"
    by (rule keeps_prune [OF assms(1)]) (simp add: git_call_def is_remove_def git_verb_def)
  have d: "keeps ?I (git_call [''-C'', rdir, ''branch'', ''-D'', the (pc_branch target)])" if del
    using assms(2) [OF that] by (intro keeps_prune assms(1)) auto
  have "stable ?I (removeWorktree pf rdir (pc_path target) \<lparr>ro_force = True, ro_unlock = Some True\<rparr>)"
    unfolding removeWorktree_def unlockWorktree_def using r by (auto intro!: stable_intros gentle_lock g)
  moreover have "stable ?I (deleteBranch pf rdir (the (pc_branch target)))" if del
    unfolding deleteBranch_def by (intro stable_intros d that)
  ultimately show ?thesis
    unfolding prune_host_def by (auto intro!: stable_intros)
qed

lemma hoare_confirmAndPrune:
  "hoare (holds (targeted h rdir name active target)) (confirmAndPrune h ui rdir target)
     (\<lambda>_. holds (prune_safe h rdir name active)) (holds (prune_safe h rdir name active))"
proof -
  let ?G = "prune_safe h rdir name active" and ?T = "targeted h rdir name active target"
  let ?ready = "\<lambda>del l s. ?T l s \<and> confirmed_by (sv_ui s) target
      \<and> (del \<longrightarrow> (\<exists>b. pc_branch target = Some b \<and> Answered (DeleteBranchToo b) True \<in> set (sv_ui s)))"
  have ui: "wkeeps ?G (notify_ui n)" for n
    unfolding notify_ui_def by (rule wkeeps_change) (rule prune_safe_ui)
  have branch: "hoare (holds (\<lambda>l s. ?T l s \<and> confirmed_by (sv_ui s) target))
      (case pc_branch target of None \<Rightarrow> io_return False | Some b \<Rightarrow> ask ui (DeleteBranchToo b))
      (\<lambda>del. holds (?ready del)) (holds ?G)"
  proof (cases "pc_branch target")
    case (Some b)
    show ?thesis
      unfolding Some option.case
      by (rule hoare_weaken [OF hoare_ask [OF ui_lasting_confirmed]]) (auto simp: holds_def Some)
  qed (auto simp: holds_def intro!: hoare_return)
  have act: "hoare (holds (?ready del)) (pruneWorktree h rdir target del) (\<lambda>_. holds ?G) (holds ?G)" for del
  proof -
    have "stable (\<lambda>l. ?ready del l s) (prune_host (sh_platform h) rdir target del)" for s
    proof (cases "confirmed_by (sv_ui s) target \<and> (del \<longrightarrow> (\<exists>b. pc_branch target = Some b \<and> Answered (DeleteBranchToo b) True \<in> set (sv_ui s)))")
      case True
      then show ?thesis using stable_prune [of "sv_ui s" target del h rdir name active] by simp
    next
      case False
      then have no: "(\<lambda>l. ?ready del l s) = (\<lambda>_. False)" by auto
      show ?thesis unfolding no by (simp add: stable_def hoare_def)
    qed
    then have "wkeeps (?ready del) (pruneWorktree h rdir target del)"
      unfolding pruneWorktree_def by (rule wkeeps_on_host)
    then show ?thesis unfolding wkeeps_def by (rule hoare_weaken) (auto simp: holds_def)
  qed
  have rest: "wkeeps ?G (io_bind (notify_ui n) (\<lambda>_. io_return b))" for n b by (intro wkeeps_intros ui)
  have go: "hoare (holds (\<lambda>l s. ?T l s \<and> confirmed_by (sv_ui s) target))
      (io_bind (case pc_branch target of None \<Rightarrow> io_return False | Some b \<Rightarrow> ask ui (DeleteBranchToo b)) (\<lambda>del.
       io_catch (io_bind (pruneWorktree h rdir target del) (\<lambda>_. io_bind (notify_ui (n del)) (\<lambda>_. io_return True)))
         (\<lambda>e. io_bind (notify_ui (n' e)) (\<lambda>_. io_return False))))
      (\<lambda>_. holds ?G) (holds ?G)" for n n'
    by (rule hoare_bind [OF branch], rule hoare_catch, rule hoare_bind [OF act], (rule rest [unfolded wkeeps_def])+)
  show ?thesis
    unfolding confirmAndPrune_def
  proof (rule hoare_bind [OF hoare_confirm_removal], rule hoare_if)
    fix proceed assume "\<not> proceed"
    show "hoare (holds (\<lambda>l s. ?T l s \<and> (proceed \<longrightarrow> confirmed_by (sv_ui s) target)))
        (io_bind (notify_ui (WorktreeNotice ''Prune cancelled'')) (\<lambda>_. io_return False)) (\<lambda>_. holds ?G) (holds ?G)"
      by (rule hoare_weaken [OF rest [unfolded wkeeps_def]]) (auto simp: holds_def)
  next
    fix proceed assume "\<not> \<not> proceed"
    then show "hoare (holds (\<lambda>l s. ?T l s \<and> (proceed \<longrightarrow> confirmed_by (sv_ui s) target)))
      (io_bind (case pc_branch target of None \<Rightarrow> io_return False | Some b \<Rightarrow> ask ui (DeleteBranchToo b)) (\<lambda>deleteBranchToo.
       io_catch
         (io_bind (pruneWorktree h rdir target deleteBranchToo) (\<lambda>_.
          io_bind (notify_ui (WorktreeNotice (''Pruned '' @ pc_label target @
            (if deleteBranchToo then '' and deleted '' @ the (pc_branch target)
             else '' (branch '' @ (case pc_branch target of None \<Rightarrow> ''none'' | Some b \<Rightarrow> b) @ '' kept)'')))) (\<lambda>_. io_return True)))
         (\<lambda>e. io_bind (notify_ui (WorktreeNotice (''Prune failed: '' @ e))) (\<lambda>_. io_return False))))
      (\<lambda>_. holds ?G) (holds ?G)"
      by (intro hoare_weaken [OF go]) (auto simp: holds_def)
  qed
qed

lemma hoare_prune:
  "hoare (holds (\<lambda>l s. l = [] \<and> repo_of s = Some repo \<and> Option.bind (sv_state s) ws_activeWorktree = active))
     (runWorktreePrune labelLe h ui hasUI)
     (\<lambda>_. holds (prune_safe h (rp_root repo) (rp_name repo) (map_option wt_path active)))
     (holds (prune_safe h (rp_root repo) (rp_name repo) (map_option wt_path active)))"
proof -
  let ?a = "map_option wt_path active"
  let ?G = "prune_safe h (rp_root repo) (rp_name repo) ?a"
  have ui: "wkeeps ?G (notify_ui n)" for n
    unfolding notify_ui_def by (rule wkeeps_change) (rule prune_safe_ui)
  have pick: "hoare (holds (collected h (rp_root repo) (rp_name repo) ?a cs))
      (io_bind (select_line ui ls) (\<lambda>choice. case Option.bind choice (map_of (rev (map (\<lambda>c. (formatCandidate c, c)) cs))) of
         None \<Rightarrow> notify_ui (WorktreeNotice ''Prune cancelled'')
       | Some target \<Rightarrow> io_bind (confirmAndPrune h ui (rp_root repo) target) (\<lambda>_. io_return ())))
      (\<lambda>_. holds ?G) (holds ?G)" for cs ls
  proof (rule hoare_bind)
    have "wkeeps (collected h (rp_root repo) (rp_name repo) ?a cs) (select_line ui ls)"
      unfolding select_line_def by (intro wkeeps_intros stable_intros)
    then show "hoare (holds (collected h (rp_root repo) (rp_name repo) ?a cs)) (select_line ui ls) (\<lambda>_. holds (collected h (rp_root repo) (rp_name repo) ?a cs)) (holds ?G)"
      by (rule hoare_keep) (simp add: collected_def)
    fix choice
    show "hoare (holds (collected h (rp_root repo) (rp_name repo) ?a cs)) (case Option.bind choice (map_of (rev (map (\<lambda>c. (formatCandidate c, c)) cs))) of
         None \<Rightarrow> notify_ui (WorktreeNotice ''Prune cancelled'')
       | Some target \<Rightarrow> io_bind (confirmAndPrune h ui (rp_root repo) target) (\<lambda>_. io_return ()))
      (\<lambda>_. holds ?G) (holds ?G)"
    proof (cases "Option.bind choice (map_of (rev (map (\<lambda>c. (formatCandidate c, c)) cs)))")
      case None
      show ?thesis unfolding None option.case
        by (rule hoare_weaken [OF ui [unfolded wkeeps_def]]) (auto simp: holds_def collected_def)
    next
      case (Some target)
      then have "target \<in> set cs" by (auto simp: bind_eq_Some_conv dest!: map_of_SomeD)
      then have t: "hoare (holds (collected h (rp_root repo) (rp_name repo) ?a cs)) (confirmAndPrune h ui (rp_root repo) target) (\<lambda>_. holds ?G) (holds ?G)"
        by (intro hoare_weaken [OF hoare_confirmAndPrune]) (auto simp: holds_def collected_def list_all_iff)
      show ?thesis unfolding Some option.case by (rule hoare_bind [OF t hoare_return]) assumption
    qed
  qed
  have none: "hoare (holds (collected h (rp_root repo) (rp_name repo) ?a cs)) (notify_ui n) (\<lambda>_. holds ?G) (holds ?G)" for cs n
    by (rule hoare_weaken [OF ui [unfolded wkeeps_def]]) (auto simp: holds_def collected_def)
  have body: "hoare (holds ?G) (io_bind (collectPruneCandidates labelLe h (rp_root repo) (rp_name repo) ?a) (\<lambda>candidates.
           if candidates = [] then notify_ui (WorktreeNotice (''No prunable worktrees for '' @ rp_name repo))
           else (let byChoice = map (\<lambda>c. (formatCandidate c, c)) candidates in
             io_bind (select_line ui (remdups (map fst byChoice))) (\<lambda>choice.
             case Option.bind choice (map_of (rev byChoice)) of
               None \<Rightarrow> notify_ui (WorktreeNotice ''Prune cancelled'')
             | Some target \<Rightarrow> io_bind (confirmAndPrune h ui (rp_root repo) target) (\<lambda>_. io_return ())))))
      (\<lambda>_. holds ?G) (holds ?G)"
    unfolding Let_def
    by (rule hoare_bind [OF hoare_collect], rule hoare_if, rule none, rule pick)
  show ?thesis
    unfolding runWorktreePrune_def
  proof (rule hoare_gets)
    fix st
    show "hoare (holds (\<lambda>l s. (l = [] \<and> repo_of s = Some repo \<and> Option.bind (sv_state s) ws_activeWorktree = active) \<and> sv_state s = st))
      (case Option.bind st ws_repo of
       None \<Rightarrow> notify_ui (WorktreeNotice ''/worktree prune requires a git repository'')
     | Some repo \<Rightarrow>
         if \<not> hasUI then io_return ()
         else io_bind (collectPruneCandidates labelLe h (rp_root repo) (rp_name repo)
                 (map_option wt_path (Option.bind st ws_activeWorktree))) (\<lambda>candidates.
           if candidates = [] then notify_ui (WorktreeNotice (''No prunable worktrees for '' @ rp_name repo))
           else (let byChoice = map (\<lambda>c. (formatCandidate c, c)) candidates in
             io_bind (select_line ui (remdups (map fst byChoice))) (\<lambda>choice.
             case Option.bind choice (map_of (rev byChoice)) of
               None \<Rightarrow> notify_ui (WorktreeNotice ''Prune cancelled'')
             | Some target \<Rightarrow> io_bind (confirmAndPrune h ui (rp_root repo) target) (\<lambda>_. io_return ())))))
      (\<lambda>_. holds ?G) (holds ?G)" (is "hoare (holds ?P) ?m _ _")
    proof (cases "Option.bind st ws_repo = Some repo \<and> Option.bind st ws_activeWorktree = active")
      case True
      have "hoare (holds ?G) ?m (\<lambda>_. holds ?G) (holds ?G)"
        unfolding True [THEN conjunct1] True [THEN conjunct2] option.case by (rule hoare_if, rule hoare_return, assumption, rule body)
      then show ?thesis by (rule hoare_weaken) (auto simp: holds_def)
    next
      case False
      then have no: "holds ?P = (\<lambda>_. False)" by (intro ext) (auto simp: holds_def repo_of_def)
      show ?thesis unfolding no by (simp add: hoare_def)
    qed
  qed
qed


end
