(* ===== verification/PlanHandoff.thy ===== *)
theory PlanHandoff
  imports PlanDraft WorktreeCommand
begin

text \<open>
  Handing an approved plan off to an execution worktree (\<open>pi/tasks/workflows/handoff\<close>): the worktrees
  offered, the choice, activating and provisioning it, the instructions for the compaction before
  the handoff, and the prompt that is sent at most once. The dialogs are parameters; dashes that are not
  Latin-1 are written as hyphens; notifications are
  those of the workspace runtime.
\<close>

section \<open>Targets and choices\<close>

record execution_target =
  et_label :: string
  et_branch :: "string option"

definition of_target :: "worktree_target \<Rightarrow> execution_target" where
  "of_target t = \<lparr>et_label = wt_worktreeLabel t, et_branch = Some (wt_branchName t)\<rparr>"

definition CUSTOM_WORKTREE_CHOICE :: string where "CUSTOM_WORKTREE_CHOICE = ''Enter custom worktree label''"

definition stripKnownPrefix :: "string \<Rightarrow> string \<Rightarrow> string" where
  "stripKnownPrefix value p =
     (let lower = toLowerCase (trim value) in
      case find (\<lambda>known. startsWith lower known)
             [''wt-'' @ p @ ''/'', ''wt/'', p @ ''/'', ''wt-'' @ p @ ''-'', p @ ''-''] of
        None \<Rightarrow> lower | Some known \<Rightarrow> slice_from lower (length known))"

definition existingWorktreeTarget :: "session_worktree \<Rightarrow> execution_target" where
  "existingWorktreeTarget wt = \<lparr>et_label = wt_label wt, et_branch = wt_branch wt\<rparr>"

definition suggestWorktreeTarget :: "string \<Rightarrow> string option \<Rightarrow> string \<Rightarrow> string \<Rightarrow> execution_target" where
  "suggestWorktreeTarget goal worktreeSlug sessionTag userId =
     of_target (executionWorktreeTarget (case worktreeSlug of None \<Rightarrow> goal | Some s \<Rightarrow> s) (Some sessionTag) userId)"

definition customWorktreeTarget :: "string \<Rightarrow> string \<Rightarrow> string \<Rightarrow> execution_target" where
  "customWorktreeTarget value sessionTag userId =
     of_target (executionWorktreeTarget (stripKnownPrefix value (userWorktreePrefix (Some userId))) (Some sessionTag) userId)"

text \<open>\<open>path.parse(p).root\<close> is \<open>/\<close> for an absolute path and empty otherwise.\<close>

definition normalizeWorktreePath :: "string \<Rightarrow> string" where
  "normalizeWorktreePath value =
     (let normalized = normalize value; rootLength = (if isAbsolute normalized then 1 else 0) in
      if length normalized > rootLength
      then rev (dropWhile (\<lambda>c. c = CHR 0x5C \<or> c = slash) (rev normalized)) else normalized)"

definition matchingRegisteredActiveWorktree :: "session_worktree list \<Rightarrow> session_worktree option \<Rightarrow> session_worktree option" where
  "matchingRegisteredActiveWorktree existing active = (case active of
     None \<Rightarrow> None
   | Some a \<Rightarrow> find (\<lambda>wt. wt_label wt = wt_label a
        \<and> normalizeWorktreePath (wt_path wt) = normalizeWorktreePath (wt_path a)) existing)"

definition choice_text :: "string \<Rightarrow> session_worktree \<Rightarrow> string" where
  "choice_text verb wt = verb @ '': '' @ wt_label wt @ '' ('' @ shown_branch wt @ '')''"

definition existing_choice :: "string \<Rightarrow> session_worktree \<Rightarrow> string \<times> execution_target" where
  "existing_choice verb wt = (choice_text verb wt, existingWorktreeTarget wt)"

text \<open>
  The lines with their targets, without the last one (the custom label): the current worktree, the
  suggested one, and the others, each label once.
\<close>

definition current_choices :: "session_worktree list \<Rightarrow> session_worktree option \<Rightarrow> (string \<times> execution_target) list" where
  "current_choices existing active = (case matchingRegisteredActiveWorktree existing active of
     None \<Rightarrow> [] | Some a \<Rightarrow> [existing_choice ''Current'' a])"

definition suggested_choices ::
  "execution_target \<Rightarrow> session_worktree list \<Rightarrow> string list \<Rightarrow> (string \<times> execution_target) list" where
  "suggested_choices suggested existing handled =
     (if et_label suggested \<in> set handled then []
      else (case find (\<lambda>wt. wt_label wt = et_label suggested) existing of
          Some wt \<Rightarrow> [existing_choice ''Resume'' wt]
        | None \<Rightarrow> [(''Create: '' @ et_label suggested, suggested)]))"

fun other_choices :: "session_worktree list \<Rightarrow> string list \<Rightarrow> (string \<times> execution_target) list" where
  "other_choices [] handled = []"
| "other_choices (wt # wts) handled =
     (if wt_label wt \<in> set handled then other_choices wts handled
      else existing_choice ''Resume'' wt # other_choices wts (wt_label wt # handled))"

definition worktree_choices ::
  "execution_target \<Rightarrow> session_worktree list \<Rightarrow> session_worktree option \<Rightarrow> (string \<times> execution_target) list" where
  "worktree_choices suggested existing active =
     (let current = current_choices existing active;
          handled = map (et_label \<circ> snd) current
      in current @ suggested_choices suggested existing handled
         @ other_choices existing (et_label suggested # handled))"

text \<open>The choices shown, and the target each stands for.\<close>

definition buildExecutionWorktreeChoices ::
  "execution_target \<Rightarrow> session_worktree list \<Rightarrow> session_worktree option
   \<Rightarrow> string list \<times> (string \<rightharpoonup> execution_target)" where
  "buildExecutionWorktreeChoices suggested existing active =
     (let lines = worktree_choices suggested existing active
      in (map fst lines @ [CUSTOM_WORKTREE_CHOICE], map_of (rev lines)))"

section \<open>The handoff\<close>

record 'w handoff_ui =
  hu_hasUI :: bool
  hu_select :: "string list \<Rightarrow> ('w, string option) io"
  hu_input :: "string \<Rightarrow> ('w, string option) io"
  hu_sessionId :: string
  hu_userId :: string

text \<open>The worktrees of the repository, as the workspace lists them (\<open>runtime.ts\<close>).\<close>

definition workspace_worktree_of :: "worktree_summary \<Rightarrow> session_worktree" where
  "workspace_worktree_of wt = \<lparr>wt_kind = ''git-worktree'', wt_label = wm_label wt, wt_path = wm_path wt,
     wt_branch = Some (wm_branch wt), wt_created = False\<rparr>"

definition listWorkspaceWorktrees ::
  "(string \<Rightarrow> string \<Rightarrow> bool) \<Rightarrow> 'w session_host \<Rightarrow> ('w, session_worktree list) ws_io" where
  "listWorkspaceWorktrees labelLe h =
     io_bind require (\<lambda>st. io_bind (require_repo st) (\<lambda>repo.
     io_bind (on_host (listWorktrees labelLe (sh_platform h) (rp_root repo) (rp_name repo))) (\<lambda>wts.
     io_return (map workspace_worktree_of wts))))"

definition ask_target ::
  "'w handoff_ui \<Rightarrow> execution_target \<Rightarrow> string \<Rightarrow> string list \<times> (string \<rightharpoonup> execution_target)
   \<Rightarrow> ('w, execution_target option) ws_io" where
  "ask_target ui suggested sessionTag offered =
     io_bind (on_host (untraced (hu_select ui (fst offered)))) (\<lambda>choice.
       if \<not> truthy_str choice then io_return None
       else if the choice = CUSTOM_WORKTREE_CHOICE
       then io_bind (on_host (untraced (hu_input ui (et_label suggested)))) (\<lambda>label. io_return
              (case label of None \<Rightarrow> None
               | Some l \<Rightarrow> if trim l = [] then None else Some (customWorktreeTarget l sessionTag (hu_userId ui))))
       else io_return (snd offered (the choice)))"

definition selectWorktreeTarget ::
  "(string \<Rightarrow> string \<Rightarrow> bool) \<Rightarrow> 'w session_host \<Rightarrow> 'w handoff_ui \<Rightarrow> string \<Rightarrow> string option
   \<Rightarrow> ('w, execution_target option) ws_io" where
  "selectWorktreeTarget labelLe h ui goal worktreeSlug =
     (if \<not> hu_hasUI ui then io_return None
      else io_bind (gets sv_state) (\<lambda>st. case Option.bind st ws_repo of
          None \<Rightarrow> io_bind (notify_ui (WorktreeNotice ''Execution worktrees require a git repository.'')) (\<lambda>_. io_return None)
        | Some repo \<Rightarrow>
            let sessionTag = shortSessionId (hu_sessionId ui);
                suggested = suggestWorktreeTarget goal worktreeSlug sessionTag (hu_userId ui) in
            io_bind (listWorkspaceWorktrees labelLe h) (\<lambda>existing.
            ask_target ui suggested sessionTag
              (buildExecutionWorktreeChoices suggested existing (Option.bind st ws_activeWorktree)))))"

definition workspaceWorktreeToHandoffWorktree :: "session_worktree \<Rightarrow> handoff_worktree" where
  "workspaceWorktreeToHandoffWorktree w =
     \<lparr>hw_worktreeDir = wt_path w, hw_label = wt_label w, hw_branch = shown_branch w, hw_created = wt_created w\<rparr>"

definition shouldReuseActiveWorktreeForHandoff :: "session_worktree option \<Rightarrow> bool" where
  "shouldReuseActiveWorktreeForHandoff active = (case active of
     None \<Rightarrow> False | Some a \<Rightarrow> startsWith (wt_label a) ''copilot/'')"

definition resolveHandoffWorktreeLabel :: "'w session_host \<Rightarrow> execution_target \<Rightarrow> ('w, string) ws_io" where
  "resolveHandoffWorktreeLabel h target =
     (if \<not> truthy_str (et_branch target) then io_return (et_label target)
      else io_bind (gets sv_state) (\<lambda>st. case Option.bind st ws_repo of
          None \<Rightarrow> io_return (et_label target)
        | Some repo \<Rightarrow> on_host (resolveAvailableWorktreeLabel (sh_platform h) (rp_root repo) (rp_name repo)
            (et_label target) (the (et_branch target)))))"

definition worktreeSetupSummary :: "setup_result option \<Rightarrow> setup_summary option" where
  "worktreeSetupSummary setup = map_option (\<lambda>r.
     \<lparr>su_ok = (\<not> sr_timedOut r \<and> sr_exitCode r = 0), su_exit_code = sr_exitCode r, su_timed_out = sr_timedOut r,
      su_stderr_tail = (if sr_stderrTail r = [] then None else Some (sr_stderrTail r))\<rparr>) setup"

definition run_setup :: "'w session_host \<Rightarrow> string \<Rightarrow> handoff_worktree \<Rightarrow> string \<Rightarrow> ('w, setup_summary option) ws_io" where
  "run_setup h command worktree repoRoot =
     io_catch
       (io_bind (runWorktreeSetup h command (hw_worktreeDir worktree) repoRoot) (\<lambda>result.
        io_bind (notify_ui (if sr_timedOut result then SetupTimedOut
                            else if sr_exitCode result \<noteq> 0 then SetupExited (sr_exitCode result)
                            else WorktreeNotice ''Worktree setup complete.'')) (\<lambda>_.
        io_return (worktreeSetupSummary (Some result)))))
       (\<lambda>msg. io_bind (notify_ui (SetupError msg)) (\<lambda>_. io_return None))"

definition provisionWorktree :: "'w session_host \<Rightarrow> handoff_worktree \<Rightarrow> ('w, setup_summary option) ws_io" where
  "provisionWorktree h worktree =
     io_bind require (\<lambda>st. case ws_repo st of
       None \<Rightarrow> io_return None
     | Some repo \<Rightarrow>
         let setupCommand = (if rp_name repo = [] then None else sh_setup h (rp_name repo)) in
         if rp_root repo = [] \<or> \<not> shouldRunWorktreeSetup (hw_created worktree) setupCommand then io_return None
         else io_bind (notify_ui SetupRunning) (\<lambda>_. run_setup h (the setupCommand) worktree (rp_root repo)))"

datatype handoff_outcome =
    Ready handoff_worktree "setup_summary option"
  | Cancelled
  | ActivationFailed string string

definition ready :: "'w session_host \<Rightarrow> session_worktree \<Rightarrow> ('w, handoff_outcome) ws_io" where
  "ready h w = (let worktree = workspaceWorktreeToHandoffWorktree w in
     io_bind (provisionWorktree h worktree) (\<lambda>summary. io_return (Ready worktree summary)))"

definition activateTarget :: "'w session_host \<Rightarrow> execution_target \<Rightarrow> ('w, handoff_outcome) ws_io" where
  "activateTarget h target =
     io_bind (io_try (resolveHandoffWorktreeLabel h target)) (\<lambda>resolved. case resolved of
       Inl e \<Rightarrow> io_return (ActivationFailed (et_label target) e)
     | Inr label \<Rightarrow>
         io_bind (io_try (activateWorktree h label (et_branch target))) (\<lambda>activated. case activated of
           Inl e \<Rightarrow> io_return (ActivationFailed label e)
         | Inr w \<Rightarrow> ready h w))"

definition runHandoff ::
  "(string \<Rightarrow> string \<Rightarrow> bool) \<Rightarrow> 'w session_host \<Rightarrow> 'w handoff_ui \<Rightarrow> string \<Rightarrow> string option
   \<Rightarrow> ('w, handoff_outcome) ws_io" where
  "runHandoff labelLe h ui goal worktreeSlug =
     io_bind (gets sv_state) (\<lambda>st.
     let active = Option.bind st ws_activeWorktree in
     if shouldReuseActiveWorktreeForHandoff active then ready h (the active)
     else io_bind (selectWorktreeTarget labelLe h ui goal worktreeSlug) (\<lambda>target. case target of
         None \<Rightarrow> io_return Cancelled
       | Some t \<Rightarrow> activateTarget h t))"

section \<open>What is handed off\<close>

definition buildHandoffMessage :: string where
  "buildHandoffMessage = join '' '' [''Plan looks good - proceed with implementation.'',
     ''Where plan tasks are independent (file-disjoint), consider dispatching worker agents to implement them in parallel and merging their branches as they finish;'',
     ''implement coupled or cross-cutting tasks directly.'']"

definition buildWorktreeActivationFailedResult :: "string \<Rightarrow> string \<Rightarrow> json" where
  "buildWorktreeActivationFailedResult label msg = JObj
     [(''status'', JStr ''worktree_activation_failed''), (''worktree_label'', JStr label), (''message'', JStr msg),
      (''next_step'', JStr ''Fix the protected checkout or choose another worktree, then resubmit the approved plan.'')]"

record handoff_context =
  hc_label :: string
  hc_path :: string
  hc_branch :: string
  hc_created :: bool
  hc_repoName :: string
  hc_repoRoot :: string

record handoff_plan =
  hp_goal :: string
  hp_context :: string
  hp_design :: string
  hp_success :: string
  hp_boundaries :: string
  hp_notes :: "(string \<times> string) list"
  hp_tasks :: "(nat \<times> task) list"

record pending_handoff =
  ph_worktree :: handoff_context
  ph_plan :: handoff_plan

definition buildPendingImplementationHandoff :: "plan_draft \<Rightarrow> handoff_worktree \<Rightarrow> ('w, pending_handoff) ws_io" where
  "buildPendingImplementationHandoff d w =
     io_bind require (\<lambda>st. case ws_repo st of
       None \<Rightarrow> io_throw ''Implementation handoff requires a git repository''
     | Some repo \<Rightarrow> io_return
         \<lparr>ph_worktree = \<lparr>hc_label = hw_label w, hc_path = hw_worktreeDir w, hc_branch = hw_branch w,
            hc_created = hw_created w, hc_repoName = rp_name repo, hc_repoRoot = rp_root repo\<rparr>,
          ph_plan = \<lparr>hp_goal = ps_content (pd_goal d), hp_context = ps_content (pd_context d),
            hp_design = ps_content (pd_design d), hp_success = ps_content (pd_success d),
            hp_boundaries = ps_content (pd_boundaries d), hp_notes = collectApprovedNotes d,
            hp_tasks = indexed (pd_tasks d)\<rparr>\<rparr>)"

definition task_lines :: "nat \<times> task \<Rightarrow> string \<Rightarrow> string list" where
  "task_lines it mark = (case it of (i, t) \<Rightarrow>
     [''- ['' @ show_nat i @ ''] '' @ t_label t @ mark, ''  Description: '' @ t_description t, ''  Criteria: '' @ t_criteria t])"

definition next_task :: "(nat \<times> task) list \<Rightarrow> (nat \<times> task) option" where
  "next_task tasks = nullish_or (find (\<lambda>(i, t). t_status t = task_status.Active) tasks) (find (\<lambda>(i, t). t_status t = task_status.Pending) tasks)"

definition buildHandoffCompactionInstructions :: "pending_handoff \<Rightarrow> string" where
  "buildHandoffCompactionInstructions h =
     (let p = ph_plan h; w = ph_worktree h in
      join ''\<newline>'' (
       [''This compaction runs immediately before executing an approved Basecamp implementation plan.'',
        ''Focus the summary on execution-ready context; omit planning chatter that is not needed for implementation.'',
        [], ''Approved plan:'', ''Goal: '' @ hp_goal p, ''Context: '' @ hp_context p, ''Design: '' @ hp_design p,
        ''Success: '' @ hp_success p, ''Boundaries: '' @ hp_boundaries p,
        [], ''Execution handoff:'', ''Selected worktree: '' @ hc_label w @ '' ('' @ hc_branch w @ '')'',
        ''Worktree path: '' @ hc_path w, ''Worktree status: '' @ (if hc_created w then ''created'' else ''resumed''),
        ''Repository: '' @ hc_repoName w, ''Protected checkout: '' @ hc_repoRoot w,
        [], ''User feedback/notes from approval:'']
       @ (if hp_notes p = [] then [''- None recorded.''] else map (\<lambda>(s, n). ''- '' @ s @ '': '' @ n) (hp_notes p))
       @ [[], ''Tasks:'']
       @ concat (map (\<lambda>it. task_lines it ('' ('' @ status_name (t_status (snd it)) @ '')'')) (hp_tasks p))
       @ [[], ''Next execution task:'']
       @ (case next_task (hp_tasks p) of
            Some it \<Rightarrow> task_lines it []
          | None \<Rightarrow> [''- No open task was recorded; inspect the task list before editing.''])
       @ [[], ''Preserve any relevant files, functions, commands, constraints, and risks mentioned in the conversation, plan sections, task descriptions, or user notes.'',
          ''Make the resulting summary sufficient for the next agent turn to start execution without reopening the full planning transcript.'']))"

section \<open>Sending the prompt\<close>

definition HANDOFF_COMPACTION_THRESHOLD_PERCENT :: rat where "HANDOFF_COMPACTION_THRESHOLD_PERCENT = 30"
definition COMPACTION_WATCHDOG_MS :: nat where "COMPACTION_WATCHDOG_MS = 120000"

text \<open>
  \<open>ds_sends\<close> counts the calls of \<open>send\<close>; \<open>ds_timer\<close> is the time left on the watchdog, \<open>None\<close> when it is
  not armed.
\<close>

record dispatch_state =
  ds_sent :: bool
  ds_sends :: nat
  ds_timer :: "nat option"

definition sendOnce :: "dispatch_state \<Rightarrow> dispatch_state" where
  "sendOnce s = (if ds_sent s then s else s\<lparr>ds_sent := True, ds_sends := Suc (ds_sends s)\<rparr>)"

definition finish_handoff :: "dispatch_state \<Rightarrow> dispatch_state" where
  "finish_handoff s = sendOnce (s\<lparr>ds_timer := None\<rparr>)"

text \<open>
  What the call that starts the compaction does before it returns: how many of its callbacks it
  calls, and whether it throws.
\<close>

record compact_call =
  cp_callbacks :: nat
  cp_throws :: bool

text \<open>\<open>usage\<close> is \<open>None\<close> for \<open>null\<close>, \<open>undefined\<close> and \<open>NaN\<close>.\<close>

definition too_full :: "rat option \<Rightarrow> bool" where
  "too_full usage \<longleftrightarrow> (case usage of Some u \<Rightarrow> u > HANDOFF_COMPACTION_THRESHOLD_PERCENT | None \<Rightarrow> False)"

definition dispatchImplementationHandoff :: "rat option \<Rightarrow> compact_call \<Rightarrow> dispatch_state" where
  "dispatchImplementationHandoff usage c =
     (let s0 = \<lparr>ds_sent = False, ds_sends = 0, ds_timer = None\<rparr> in
      if \<not> too_full usage then sendOnce s0
      else (let s1 = s0\<lparr>ds_timer := Some COMPACTION_WATCHDOG_MS\<rparr>;
                s2 = (finish_handoff ^^ cp_callbacks c) s1
            in if cp_throws c then finish_handoff s2 else s2))"

text \<open>Afterwards: the compaction calls one of its callbacks, or time passes.\<close>

datatype dispatch_event = Reported | Elapsed nat

fun dispatch_step :: "dispatch_state \<Rightarrow> dispatch_event \<Rightarrow> dispatch_state" where
  "dispatch_step s Reported = finish_handoff s"
| "dispatch_step s (Elapsed ms) = (case ds_timer s of
     None \<Rightarrow> s
   | Some left \<Rightarrow> if left \<le> ms then finish_handoff s else s\<lparr>ds_timer := Some (left - ms)\<rparr>)"

definition dispatch_run :: "rat option \<Rightarrow> compact_call \<Rightarrow> dispatch_event list \<Rightarrow> dispatch_state" where
  "dispatch_run usage c es = foldl dispatch_step (dispatchImplementationHandoff usage c) es"

definition time_passed :: "dispatch_event list \<Rightarrow> nat" where
  "time_passed es = sum_list (map (\<lambda>e. case e of Reported \<Rightarrow> 0 | Elapsed ms \<Rightarrow> ms) es)"

lemma time_passed_simps [simp]:
  "time_passed [] = 0" "time_passed (Reported # es) = time_passed es" "time_passed (Elapsed ms # es) = ms + time_passed es"
  by (simp_all add: time_passed_def)

definition sent_state :: "dispatch_state \<Rightarrow> bool" where
  "sent_state s \<longleftrightarrow> ds_sent s \<and> ds_sends s = 1 \<and> ds_timer s = None"

definition waiting_state :: "nat \<Rightarrow> dispatch_state \<Rightarrow> bool" where
  "waiting_state left s \<longleftrightarrow> \<not> ds_sent s \<and> ds_sends s = 0 \<and> ds_timer s = Some left"

lemma sent_finish: "sent_state s \<or> waiting_state left s \<Longrightarrow> sent_state (finish_handoff s)"
  by (auto simp: sent_state_def waiting_state_def finish_handoff_def sendOnce_def)

lemma sent_stays: "sent_state s \<Longrightarrow> sent_state (foldl dispatch_step s es)"
proof (induction es arbitrary: s)
  case (Cons e es)
  then have "sent_state (dispatch_step s e)"
    by (cases e) (auto simp: sent_finish, simp add: sent_state_def)
  then show ?case by (simp add: Cons.IH)
qed simp

lemma sent_callbacks: "sent_state s \<Longrightarrow> sent_state ((finish_handoff ^^ n) s)"
  by (induction n) (simp_all add: sent_finish)

lemma dispatch_starts:
  "if too_full usage \<and> cp_callbacks c = 0 \<and> \<not> cp_throws c
   then waiting_state COMPACTION_WATCHDOG_MS (dispatchImplementationHandoff usage c)
   else sent_state (dispatchImplementationHandoff usage c)"
proof (cases "too_full usage")
  case False
  then show ?thesis by (simp add: dispatchImplementationHandoff_def sendOnce_def sent_state_def)
next
  case True
  define s where "s = \<lparr>ds_sent = False, ds_sends = 0, ds_timer = Some COMPACTION_WATCHDOG_MS\<rparr>"
  have s: "waiting_state COMPACTION_WATCHDOG_MS s" by (simp add: s_def waiting_state_def)
  have started: "dispatchImplementationHandoff usage c =
      (let s2 = (finish_handoff ^^ cp_callbacks c) s in if cp_throws c then finish_handoff s2 else s2)"
    using True by (simp add: dispatchImplementationHandoff_def s_def Let_def)
  show ?thesis
  proof (cases "cp_callbacks c")
    case 0
    with s True show ?thesis by (auto simp: started intro: sent_finish)
  next
    case (Suc n)
    have "sent_state ((finish_handoff ^^ Suc n) s)"
      using sent_callbacks [OF sent_finish [OF disjI2 [OF s]], of n] by (simp add: funpow_swap1)
    with Suc True show ?thesis by (simp add: started sent_finish Let_def del: funpow.simps)
  qed
qed

lemma waiting_run:
  assumes "waiting_state left s" "left > 0"
  shows "if Reported \<in> set es \<or> left \<le> time_passed es then sent_state (foldl dispatch_step s es)
    else waiting_state (left - time_passed es) (foldl dispatch_step s es)"
  using assms
proof (induction es arbitrary: s left)
  case Nil
  then show ?case by simp
next
  case (Cons e es)
  show ?case
  proof (cases e)
    case Reported
    with Cons.prems have "sent_state (dispatch_step s e)" by (auto intro: sent_finish)
    with Reported show ?thesis using sent_stays by simp
  next
    case (Elapsed ms)
    show ?thesis
    proof (cases "left \<le> ms")
      case True
      with Elapsed Cons.prems have "sent_state (dispatch_step s e)" by (auto simp: waiting_state_def intro: sent_finish)
      with Elapsed True show ?thesis using sent_stays by simp
    next
      case False
      with Elapsed Cons.prems have "waiting_state (left - ms) (dispatch_step s e)" by (simp add: waiting_state_def)
      from Cons.IH [OF this] Elapsed False show ?thesis
        by (auto simp: le_diff_conv add.commute diff_diff_left simp del: dispatch_step.simps split: if_splits)
    qed
  qed
qed

text \<open>
  C7. Whatever the compaction does - calling back at once, later, several times, throwing, or never
  reporting - the handoff prompt is sent once at the latest when the watchdog's 120 seconds have passed, and
  never a second time: exactly one send when the context had room, when a callback or an error came, or
  when the time is over, and none before.
\<close>

theorem handoff_prompt_sent_once:
  "ds_sends (dispatch_run usage c es) =
     (if (\<exists>u. usage = Some u \<and> u > 30) \<and> cp_callbacks c = 0 \<and> \<not> cp_throws c
         \<and> Reported \<notin> set es \<and> time_passed es < 120000
      then 0 else 1)"
proof -
  let ?s = "dispatchImplementationHandoff usage c"
  let ?wait = "too_full usage \<and> cp_callbacks c = 0 \<and> \<not> cp_throws c"
  have full: "too_full usage \<longleftrightarrow> (\<exists>u. usage = Some u \<and> u > 30)"
    by (auto simp: too_full_def HANDOFF_COMPACTION_THRESHOLD_PERCENT_def split: option.splits)
  show ?thesis
  proof (cases ?wait)
    case False
    with dispatch_starts [of usage c] have "sent_state ?s" by simp
    with sent_stays [OF this, of es] False show ?thesis by (auto simp: dispatch_run_def sent_state_def full)
  next
    case True
    with dispatch_starts [of usage c] have "waiting_state 120000 ?s" by (simp add: COMPACTION_WATCHDOG_MS_def)
    with waiting_run [OF this, of es] True show ?thesis
      by (auto simp: dispatch_run_def sent_state_def waiting_state_def full split: if_splits)
  qed
qed

section \<open>The choices\<close>

definition unblank :: "string \<Rightarrow> bool" where
  "unblank s \<longleftrightarrow> CHR '' '' \<notin> set s"

lemma choice_text_label:
  assumes "unblank (wt_label v)" "unblank (wt_label w)" "choice_text a v = choice_text b w" "length a = length b"
  shows "wt_label v = wt_label w"
proof -
  have cut: "takeWhile (\<lambda>c. c \<noteq> CHR '' '') (wt_label u @ '' ('' @ r) = wt_label u" if "unblank (wt_label u)" for u r
    using that by (auto simp: unblank_def takeWhile_append)
  from assms(3,4) have "wt_label v @ '' ('' @ shown_branch v @ '')'' = wt_label w @ '' ('' @ shown_branch w @ '')''"
    by (simp add: choice_text_def)
  then show ?thesis using cut [OF assms(1)] cut [OF assms(2)] by metis
qed

text \<open>A line stands for an existing worktree, or for the suggested one when no worktree has its label.\<close>

definition line_ok :: "execution_target \<Rightarrow> session_worktree list \<Rightarrow> string \<Rightarrow> execution_target \<Rightarrow> bool" where
  "line_ok suggested existing c t \<longleftrightarrow>
     (\<exists>w \<in> set existing. t = existingWorktreeTarget w
        \<and> (c = choice_text ''Current'' w \<or> c = choice_text ''Resume'' w))
     \<or> t = suggested \<and> c = ''Create: '' @ et_label suggested \<and> et_label suggested \<notin> wt_label ` set existing"

lemma label_of_existing [simp]: "et_label (existingWorktreeTarget w) = wt_label w"
  by (simp add: existingWorktreeTarget_def)

lemma line_ok_existing:
  "w \<in> set existing \<Longrightarrow> c = ''Current'' \<or> c = ''Resume'' \<Longrightarrow> line_ok s existing (choice_text c w) (existingWorktreeTarget w)"
  by (auto simp: line_ok_def)

lemma matching_listed: "matchingRegisteredActiveWorktree existing active = Some w \<Longrightarrow> w \<in> set existing"
  by (auto simp: matchingRegisteredActiveWorktree_def dest: find_SomeD split: option.splits)

lemma current_ok: "(c, t) \<in> set (current_choices existing active) \<Longrightarrow> line_ok s existing c t"
  by (cases "matchingRegisteredActiveWorktree existing active")
     (auto simp: current_choices_def existing_choice_def intro: line_ok_existing dest: matching_listed)

lemma suggested_ok: "(c, t) \<in> set (suggested_choices s existing handled) \<Longrightarrow> line_ok s existing c t"
  by (auto simp: suggested_choices_def existing_choice_def find_None_iff dest: find_SomeD intro: line_ok_existing
      split: option.splits if_splits) (auto simp: line_ok_def)

lemma other_ok: "(c, t) \<in> set (other_choices wts handled) \<Longrightarrow> set wts \<subseteq> set existing \<Longrightarrow> line_ok s existing c t"
  by (induction wts handled rule: other_choices.induct)
     (auto simp: existing_choice_def intro: line_ok_existing split: if_splits)

lemma other_labels:
  "et_label ` snd ` set (other_choices wts handled) = wt_label ` set wts - set handled"
  "distinct (map (et_label \<circ> snd) (other_choices wts handled))"
  by (induction wts handled rule: other_choices.induct) (auto simp: existing_choice_def image_comp)

lemma choices_ok: "(c, t) \<in> set (worktree_choices s existing active) \<Longrightarrow> line_ok s existing c t"
  using current_ok suggested_ok other_ok by (fastforce simp: worktree_choices_def Let_def)

lemma current_labels:
  "et_label ` snd ` set (current_choices existing active) \<subseteq> wt_label ` set existing"
  "distinct (map (et_label \<circ> snd) (current_choices existing active))"
  by (cases "matchingRegisteredActiveWorktree existing active"; simp add: current_choices_def existing_choice_def matching_listed)+

lemma suggested_label:
  "et_label ` snd ` set (suggested_choices s existing handled) = (if et_label s \<in> set handled then {} else {et_label s})"
  "distinct (map (et_label \<circ> snd) (suggested_choices s existing handled))"
  by (auto simp: suggested_choices_def existing_choice_def dest: find_SomeD split: option.splits)

lemma labels_of: "set (map (et_label \<circ> snd) xs) = et_label ` snd ` set xs"
  by (simp add: image_comp)

lemma choices_labels:
  "distinct (map (et_label \<circ> snd) (worktree_choices s existing active))"
  "et_label ` snd ` set (worktree_choices s existing active) = insert (et_label s) (wt_label ` set existing)"
proof -
  let ?c = "current_choices existing active"
  let ?handled = "map (et_label \<circ> snd) ?c"
  have lines: "worktree_choices s existing active =
      ?c @ suggested_choices s existing ?handled @ other_choices existing (et_label s # ?handled)"
    by (simp add: worktree_choices_def Let_def)
  have handled: "set ?handled \<subseteq> wt_label ` set existing" by (simp only: labels_of current_labels)
  show "distinct (map (et_label \<circ> snd) (worktree_choices s existing active))"
    by (auto simp: lines current_labels suggested_label other_labels labels_of simp del: set_map list.set_map)
  show "et_label ` snd ` set (worktree_choices s existing active) = insert (et_label s) (wt_label ` set existing)"
    using handled unfolding lines set_append image_Un suggested_label other_labels list.set labels_of
    by (cases "et_label s \<in> et_label ` snd ` set ?c") (simp_all only: if_True if_False, blast+)
qed

lemma line_texts:
  assumes "line_ok s existing c t" "line_ok s existing c t'" "\<forall>w \<in> set existing. unblank (wt_label w)"
  shows "et_label t = et_label t'"
proof -
  have verbs: "choice_text ''Current'' v \<noteq> choice_text ''Resume'' w" "choice_text ''Resume'' v \<noteq> choice_text ''Current'' w"
    "choice_text ''Current'' v \<noteq> ''Create: '' @ x" "choice_text ''Resume'' v \<noteq> ''Create: '' @ x"
    "''Create: '' @ x \<noteq> choice_text ''Current'' v" "''Create: '' @ x \<noteq> choice_text ''Resume'' v" for v w x
    by (simp_all add: choice_text_def)
  from assms(1,2) show ?thesis
    unfolding line_ok_def using verbs choice_text_label assms(3) by (elim disjE bexE conjE) (auto, metis+)
qed

lemma not_custom: "line_ok s existing c t \<Longrightarrow> c \<noteq> CUSTOM_WORKTREE_CHOICE"
  by (auto simp: line_ok_def choice_text_def CUSTOM_WORKTREE_CHOICE_def)

lemma choices_distinct:
  assumes "\<forall>w \<in> set existing. unblank (wt_label w)"
  shows "distinct (map fst (worktree_choices s existing active))"
proof -
  let ?ls = "worktree_choices s existing active"
  have labels: "distinct (map (et_label \<circ> snd) ?ls)" by (rule choices_labels)
  have "inj_on fst (set ?ls)"
  proof (rule inj_onI)
    fix p q assume pq: "p \<in> set ?ls" "q \<in> set ?ls" "fst p = fst q"
    then have "et_label (snd p) = et_label (snd q)"
      using line_texts [OF _ _ assms] choices_ok by (metis prod.collapse)
    with pq labels show "p = q" by (auto simp: distinct_map inj_on_def)
  qed
  with labels show ?thesis by (simp add: distinct_map)
qed

text \<open>
  The worktrees offered for a handoff. No line appears twice, and every line but the last stands for
  a target: an existing worktree with its branch, or the suggested label, which is offered for creation only
  when no worktree has it. Every worktree of the repository, and the suggested label, is offered by exactly
  one line. (Labels have no blanks; the worktree operations accept no other.)
\<close>

theorem handoff_choices_name_their_target:
  assumes "\<forall>w \<in> set existing. unblank (wt_label w)"
  shows "case buildExecutionWorktreeChoices suggested existing active of (choices, target) \<Rightarrow>
    distinct choices \<and> last choices = CUSTOM_WORKTREE_CHOICE \<and> dom target = set (butlast choices)
    \<and> (\<forall>c t. target c = Some t \<longrightarrow> line_ok suggested existing c t)
    \<and> (\<forall>l \<in> insert (et_label suggested) (wt_label ` set existing). \<exists>!c. \<exists>t. target c = Some t \<and> et_label t = l)"
proof -
  let ?ls = "worktree_choices suggested existing active"
  have d: "distinct (map fst ?ls)" using assms by (rule choices_distinct)
  have look: "map_of (rev ?ls) c = Some t \<longleftrightarrow> (c, t) \<in> set ?ls" for c t
    using d by (simp add: rev_map [symmetric])
  have one: "\<exists>!c. \<exists>t. (c, t) \<in> set ?ls \<and> et_label t = l" if "l \<in> insert (et_label suggested) (wt_label ` set existing)" for l
  proof -
    from that have "l \<in> et_label ` snd ` set ?ls" by (simp only: choices_labels)
    then obtain c t where ct: "(c, t) \<in> set ?ls" "et_label t = l" by auto
    moreover have "c' = c" if "(c', t') \<in> set ?ls" "et_label t' = l" for c' t'
    proof -
      have "inj_on (et_label \<circ> snd) (set ?ls)" using choices_labels(1) by (simp add: distinct_map)
      from inj_onD [OF this, of "(c', t')" "(c, t)"] that ct show ?thesis by simp
    qed
    ultimately show ?thesis by blast
  qed
  have "CUSTOM_WORKTREE_CHOICE \<notin> fst ` set ?ls" using choices_ok not_custom by fastforce
  with d show ?thesis
    by (simp add: buildExecutionWorktreeChoices_def Let_def look one dom_map_of_conv_image_fst choices_ok)
qed

definition sample_existing :: session_worktree where
  "sample_existing = \<lparr>wt_kind = ''git-worktree'', wt_label = ''wt/a'', wt_path = ''/w/wt/a'', wt_branch = None, wt_created = False\<rparr>"

theorem handoff_choices_name_their_target_witness:
  "buildExecutionWorktreeChoices \<lparr>et_label = ''wt/b'', et_branch = Some ''bt/b''\<rparr> [sample_existing] None =
     ([''Create: wt/b'', ''Resume: wt/a (detached)'', ''Enter custom worktree label''],
      [''Create: wt/b'' \<mapsto> \<lparr>et_label = ''wt/b'', et_branch = Some ''bt/b''\<rparr>,
       ''Resume: wt/a (detached)'' \<mapsto> \<lparr>et_label = ''wt/a'', et_branch = None\<rparr>])
   \<and> distinct [''Create: wt/b'', ''Resume: wt/a (detached)'', ''Enter custom worktree label'']"
proof -
  have shown: "buildExecutionWorktreeChoices \<lparr>et_label = ''wt/b'', et_branch = Some ''bt/b''\<rparr> [sample_existing] None =
     ([''Create: wt/b'', ''Resume: wt/a (detached)'', ''Enter custom worktree label''],
      [''Create: wt/b'' \<mapsto> \<lparr>et_label = ''wt/b'', et_branch = Some ''bt/b''\<rparr>,
       ''Resume: wt/a (detached)'' \<mapsto> \<lparr>et_label = ''wt/a'', et_branch = None\<rparr>])"
    by (simp add: buildExecutionWorktreeChoices_def worktree_choices_def current_choices_def suggested_choices_def
        matchingRegisteredActiveWorktree_def existing_choice_def existingWorktreeTarget_def choice_text_def shown_branch_def
        sample_existing_def CUSTOM_WORKTREE_CHOICE_def fun_upd_twist)
  have "\<forall>w \<in> set [sample_existing]. unblank (wt_label w)"
    by (simp add: sample_existing_def unblank_def)
  from handoff_choices_name_their_target [OF this, of "\<lparr>et_label = ''wt/b'', et_branch = Some ''bt/b''\<rparr>" None] shown
  show ?thesis by (simp add: CUSTOM_WORKTREE_CHOICE_def)
qed

section \<open>The worktree of a handoff\<close>

definition active_of :: "service \<Rightarrow> session_worktree option" where
  "active_of s = Option.bind (sv_state s) ws_activeWorktree"

lemma hoare_require_there:
  assumes "\<And>l s. P l s \<Longrightarrow> sv_state s \<noteq> None"
    and "\<And>st. hoare (holds (\<lambda>l s. P l s \<and> sv_state s = Some st)) (k st) Q E"
  shows "hoare (holds P) (io_bind require k) Q E"
proof -
  have "hoare (holds P) (io_bind require k) Q E \<longleftrightarrow> hoare (holds P) (io_bind (gets sv_state) (k \<circ> the)) Q E"
    using assms(1) by (intro iffI hoareI) (force simp: hoare_def holds_def require_def gets_def io_simps split: prod.splits option.splits)+
  moreover have "hoare (holds P) (io_bind (gets sv_state) (k \<circ> the)) Q E"
  proof (rule hoare_gets)
    fix x show "hoare (holds (\<lambda>l s. P l s \<and> sv_state s = x)) ((k \<circ> the) x) Q E"
    proof (cases x)
      case None
      with assms(1) have no: "holds (\<lambda>l s. P l s \<and> sv_state s = x) = (\<lambda>_. False)" by (auto simp: holds_def fun_eq_iff)
      show ?thesis unfolding no hoare_def by simp
    next
      case (Some st)
      then show ?thesis using assms(2) [of st] by simp
    qed
  qed
  ultimately show ?thesis by blast
qed

text \<open>What does not touch the state keeps every assertion on it.\<close>

definition on_state :: "(workspace_state option \<Rightarrow> bool) \<Rightarrow> host_event list \<Rightarrow> service \<Rightarrow> bool" where
  "on_state R = (\<lambda>_ s. R (sv_state s))"

lemma on_state_host [wkeeps_intros]: "wkeeps (on_state R) (on_host m)"
  unfolding on_state_def by (intro wkeeps_on_host) (rule stable_const)

lemma on_state_notify [wkeeps_intros]: "wkeeps (on_state R) (notify_ui n)"
  unfolding notify_ui_def on_state_def by (rule wkeeps_change) simp

lemma quiet_notify: "hoare (holds (on_state R)) (notify_ui n) (\<lambda>_. holds (on_state R)) E"
  unfolding notify_ui_def by (rule hoare_change) (simp add: on_state_def)

lemma quiet_ignore:
  "wkeeps (on_state R) m \<Longrightarrow> (\<And>l s. P l s \<Longrightarrow> on_state R l s) \<Longrightarrow> hoare (holds P) (io_ignore m) (\<lambda>_. holds (on_state R)) E"
proof (rule hoare_ignore)
  assume m: "wkeeps (on_state R) m" and P: "\<And>l s. P l s \<Longrightarrow> on_state R l s"
  show "hoare (holds P) m (\<lambda>_. holds (on_state R)) (holds (on_state R))"
    by (rule hoare_weaken [OF m [unfolded wkeeps_def]]) (auto simp: holds_def P)
qed

lemma quiet_return: "(\<And>l s. P l s \<Longrightarrow> on_state R l s) \<Longrightarrow> hoare (holds P) (io_return x) (\<lambda>_. holds (on_state R)) E"
  by (rule hoare_return) (auto simp: holds_def)

lemma quiet_lease: "hoare (holds (on_state R)) (leaseActiveWorktree h) (\<lambda>_. holds (on_state R)) E"
  unfolding leaseActiveWorktree_def clock_def
  by (intro hoare_gets hoare_if)
     (auto intro!: quiet_ignore quiet_return wkeeps_basic on_state_host hoare_gets split: option.split)

text \<open>Activating a worktree makes it the active one, or leaves the state as it was.\<close>

abbreviation unchanged :: "workspace_state option \<Rightarrow> host_event list \<Rightarrow> service \<Rightarrow> bool" where
  "unchanged x \<equiv> on_state (\<lambda>st. st = x)"

abbreviation activated :: "session_worktree \<Rightarrow> host_event list \<Rightarrow> service \<Rightarrow> bool" where
  "activated w \<equiv> on_state (\<lambda>st. Option.bind st ws_activeWorktree = Some w)"

text \<open>
  An activation whose save of the session's state is refused is cut short: the worktree is active, although
  the activation is reported as failed.
\<close>

definition cut_short :: "'w session_host \<Rightarrow> workspace_state option \<Rightarrow> session_worktree \<Rightarrow> service \<Rightarrow> bool" where
  "cut_short h x w s \<longleftrightarrow> may_refuse h \<and> sv_refused s \<and> sv_state s = map_option (\<lambda>st. st\<lparr>ws_activeWorktree := Some w,
     ws_effectiveCwd := computeEffectiveCwd (pf_cwd (sh_platform h)) (st\<lparr>ws_activeWorktree := Some w\<rparr>)\<rparr>) x"

definition unapplied :: "'w session_host \<Rightarrow> workspace_state option \<Rightarrow> string \<Rightarrow> host_event list \<Rightarrow> service \<Rightarrow> bool" where
  "unapplied h x label = (\<lambda>_ s. sv_state s = x \<or> (\<exists>w. wt_label w = label \<and> cut_short h x w s))"

lemma unchanged_unapplied: "unchanged x l s \<Longrightarrow> unapplied h x label l s"
  by (simp add: on_state_def unapplied_def)

lemma hoare_apply:
  "hoare (holds (unchanged x)) (applyWorktree h w) (\<lambda>r. holds (\<lambda>l s. r = w \<and> activated w l s)) (holds (unapplied h x (wt_label w)))"
  unfolding applyWorktree_def Let_def
proof (rule hoare_require)
  fix st
  let ?P = "\<lambda>l s. unchanged x l s \<and> sv_state s = Some st"
  let ?st = "st\<lparr>ws_activeWorktree := Some w,
     ws_effectiveCwd := computeEffectiveCwd (pf_cwd (sh_platform h)) (st\<lparr>ws_activeWorktree := Some w\<rparr>)\<rparr>"
  let ?mid = "\<lambda>(_ :: host_event list) s. x = Some st \<and> sv_state s = Some ?st"
  let ?E = "holds (unapplied h x (wt_label w))"
  have start: "hoare (holds ?P) (change (\<lambda>s. s\<lparr>sv_state := Some ?st\<rparr>)) (\<lambda>_. holds ?mid) ?E"
    by (rule hoare_change) (auto simp: on_state_def)
  have saved: "hoare (holds ?mid) (remember_worktree h a) (\<lambda>_. holds ?mid) ?E" for a
    by (rule hoare_remember) (auto simp: unapplied_def cut_short_def)
  have set: "hoare (holds ?mid) (change (install_state ?st)) (\<lambda>_. holds (activated w)) ?E"
    by (rule hoare_change) (simp add: on_state_def install_state_def)
  show "hoare (holds ?P) (io_bind (change (\<lambda>s. s\<lparr>sv_state := Some ?st\<rparr>)) (\<lambda>_. io_bind (clock h) (\<lambda>built.
      io_bind (remember_worktree h (buildActiveWorktreeState (toISOString built) ?st w)) (\<lambda>_.
      io_bind (change (install_state ?st)) (\<lambda>_. io_return w))))) (\<lambda>r. holds (\<lambda>l s. r = w \<and> activated w l s)) ?E"
    by (rule hoare_bind [OF start], rule hoare_bind, rule hoare_clock, rule hoare_bind [OF saved],
        rule hoare_bind [OF set], rule hoare_return) (simp add: holds_def)
qed (auto simp: holds_def unchanged_unapplied)

lemma getOrCreateWorktree_label: "getOrCreateWorktree pf repoRoot name label b lock t = (Inr r, t') \<Longrightarrow> wo_label r = label"
  by (auto simp: getOrCreateWorktree_def io_bind_def io_return_def io_throw_def Let_def
      split: sum.splits prod.splits option.splits if_splits)

lemma hoare_activate:
  "hoare (holds (unchanged x)) (activateWorktree h label b) (\<lambda>r. holds (activated r)) (holds (unapplied h x label))"
proof -
  have lease: "hoare (holds (unchanged x)) (apply_and_lease h w) (\<lambda>r. holds (activated r)) (holds (unapplied h x (wt_label w)))" for w
  proof -
    have "hoare (holds (\<lambda>l s. applied = w \<and> activated w l s)) (io_bind (leaseActiveWorktree h) (\<lambda>_. io_return applied))
        (\<lambda>r. holds (activated r)) (holds (unapplied h x (wt_label w)))" for applied
    proof (cases "applied = w")
      case True
      then show ?thesis
        using quiet_lease [of "\<lambda>st. Option.bind st ws_activeWorktree = Some w"]
        by simp (rule hoare_bind, assumption, rule hoare_return, simp)
    next
      case False
      then show ?thesis by (simp add: hoare_def holds_def)
    qed
    then show ?thesis unfolding apply_and_lease_def by (rule hoare_bind [OF hoare_apply])
  qed
  have last: "hoare (\<lambda>t. holds (unchanged x) t \<and> wo_label wt = label) (apply_and_lease h (worktreeResultToWorkspaceWorktree wt))
      (\<lambda>r. holds (activated r)) (holds (unapplied h x label))" for wt
  proof (cases "wo_label wt = label")
    case True
    then show ?thesis using lease [of "worktreeResultToWorkspaceWorktree wt"] by (simp add: worktreeResultToWorkspaceWorktree_def)
  qed (simp add: hoare_def)
  show ?thesis
    unfolding activateWorktree_def
  proof (rule hoare_require)
    fix st
    let ?P = "\<lambda>l s. unchanged x l s \<and> sv_state s = Some st"
    have made: "hoare (holds ?P) (on_host (getOrCreateWorktree pf root name label b None))
        (\<lambda>wt t. holds (unchanged x) t \<and> wo_label wt = label) (holds (unapplied h x label))" for pf root name
      by (rule hoareI) (auto simp: on_host_def on_state_def unapplied_def holds_def
          dest: getOrCreateWorktree_label split: prod.splits)
    show "hoare (holds ?P) (io_bind (require_repo st) (\<lambda>repo.
        io_bind (on_host (getOrCreateWorktree (sh_platform h) (rp_root repo) (rp_name repo) label b None)) (\<lambda>wt.
        apply_and_lease h (worktreeResultToWorkspaceWorktree wt)))) (\<lambda>r. holds (activated r)) (holds (unapplied h x label))"
    proof (cases "ws_repo st")
      case None
      then show ?thesis by (auto simp: require_repo_def hoare_def io_simps holds_def unchanged_unapplied)
    next
      case (Some repo)
      then have "io_bind (require_repo st) k = k repo" for k :: "repo_context \<Rightarrow> ('a, session_worktree) ws_io"
        by (simp add: require_repo_def io_simps fun_eq_iff)
      then show ?thesis by (simp only:) (rule hoare_bind [OF made last])
    qed
  qed (auto simp: holds_def unchanged_unapplied)
qed

lemma hoare_provision:
  "hoare (holds (activated w)) (provisionWorktree h worktree) (\<lambda>_. holds (activated w)) E"
proof -
  let ?R = "\<lambda>st. Option.bind st ws_activeWorktree = Some w"
  have told: "hoare (holds (activated w)) (notify_ui n) (\<lambda>_. holds (activated w)) F" for n F by (rule quiet_notify)
  have ran: "hoare (holds (activated w)) (runWorktreeSetup h c d r) (\<lambda>_. holds (activated w)) (holds (activated w))" for c d r
    using wkeeps_basic(1,3) on_state_host [of ?R] unfolding runWorktreeSetup_def wkeeps_def [symmetric]
    by (auto intro!: wkeeps_intros)
  have provisioned: "hoare (holds (activated w)) (run_setup h c worktree r) (\<lambda>_. holds (activated w)) E" for c r
    unfolding run_setup_def
    by (rule hoare_catch, (rule hoare_bind, rule ran)?, (rule hoare_bind, rule told, rule hoare_return, simp)+)
  show ?thesis
    unfolding provisionWorktree_def
  proof (rule hoare_require_there)
    fix st
    let ?P = "\<lambda>l s. activated w l s \<and> sv_state s = Some st"
    have forget: "hoare (holds (activated w)) m (\<lambda>_. holds (activated w)) E \<Longrightarrow> hoare (holds ?P) m (\<lambda>_. holds (activated w)) E"
      for m :: "('a, setup_summary option) ws_io"
      by (erule hoare_weaken) (auto simp: holds_def)
    have stays: "hoare (holds (activated w)) (io_return x) (\<lambda>_. holds (activated w)) E" for x :: "setup_summary option"
      by (rule hoare_return) simp
    show "hoare (holds ?P) (case ws_repo st of None \<Rightarrow> io_return None
     | Some repo \<Rightarrow>
         let setupCommand = (if rp_name repo = [] then None else sh_setup h (rp_name repo)) in
         if rp_root repo = [] \<or> \<not> shouldRunWorktreeSetup (hw_created worktree) setupCommand then io_return None
         else io_bind (notify_ui SetupRunning) (\<lambda>_. run_setup h (the setupCommand) worktree (rp_root repo)))
       (\<lambda>_. holds (activated w)) E"
      by (auto simp: Let_def intro!: forget stays hoare_bind [OF told provisioned] split: option.split)
  qed (auto simp: on_state_def bind_eq_Some_conv)
qed

text \<open>
  Only a worktree made active is reported as ready; otherwise the state is as before, or a failed activation
  was cut short.
\<close>

fun outcome_ok :: "'w session_host \<Rightarrow> workspace_state option \<Rightarrow> handoff_outcome \<Rightarrow> host_event list \<Rightarrow> service \<Rightarrow> bool" where
  "outcome_ok h x (Ready worktree summary) = (\<lambda>l s. \<exists>w. worktree = workspaceWorktreeToHandoffWorktree w \<and> activated w l s)"
| "outcome_ok h x Cancelled = unchanged x"
| "outcome_ok h x (ActivationFailed label e) = unapplied h x label"

lemma hoare_ready: "hoare (holds (activated w)) (ready h w) (\<lambda>r. holds (outcome_ok h x r)) E"
  unfolding ready_def Let_def
  by (rule hoare_bind [OF hoare_provision], rule hoare_return) auto

lemma hoare_quiet: "wkeeps (unchanged x) m \<Longrightarrow> hoare (holds (unchanged x)) m (\<lambda>_. holds (unchanged x)) (holds (unchanged x))"
  by (simp add: wkeeps_def)

lemma wkeeps_resolve: "wkeeps (on_state R) (resolveHandoffWorktreeLabel h target)"
  unfolding resolveHandoffWorktreeLabel_def by (auto intro!: wkeeps_intros)

lemma hoare_activateTarget:
  "hoare (holds (unchanged x)) (activateTarget h target) (\<lambda>r. holds (outcome_ok h x r)) (holds (unchanged x))"
  unfolding activateTarget_def
proof (rule hoare_bind)
  show "hoare (holds (unchanged x)) (io_try (resolveHandoffWorktreeLabel h target))
      (\<lambda>r. case r of Inl _ \<Rightarrow> holds (unchanged x) | Inr _ \<Rightarrow> holds (unchanged x)) (holds (unchanged x))"
    by (rule hoare_try, rule hoare_quiet, rule wkeeps_resolve)
next
  fix resolved :: "string result"
  have failed: "hoare (holds (unchanged x)) (io_return (ActivationFailed l e)) (\<lambda>r. holds (outcome_ok h x r)) (holds (unchanged x))" for l e
    by (rule hoare_return) (auto simp: holds_def unchanged_unapplied)
  have cut: "hoare (holds (unapplied h x l)) (io_return (ActivationFailed l e)) (\<lambda>r. holds (outcome_ok h x r)) (holds (unchanged x))" for l e
    by (rule hoare_return) simp
  have made: "hoare (holds (unchanged x)) (io_bind (io_try (activateWorktree h label b)) (\<lambda>activated. case activated of
        Inl e \<Rightarrow> io_return (ActivationFailed label e) | Inr w \<Rightarrow> ready h w))
      (\<lambda>r. holds (outcome_ok h x r)) (holds (unchanged x))" for label b
  proof (rule hoare_bind [OF hoare_try [OF hoare_activate]])
    fix r :: "session_worktree result"
    show "hoare (case r of Inl _ \<Rightarrow> holds (unapplied h x label) | Inr w \<Rightarrow> holds (activated w))
        (case r of Inl e \<Rightarrow> io_return (ActivationFailed label e) | Inr w \<Rightarrow> ready h w)
        (\<lambda>r. holds (outcome_ok h x r)) (holds (unchanged x))"
      using cut hoare_ready by (cases r) simp_all
  qed
  show "hoare (case resolved of Inl _ \<Rightarrow> holds (unchanged x) | Inr _ \<Rightarrow> holds (unchanged x))
      (case resolved of Inl e \<Rightarrow> io_return (ActivationFailed (et_label target) e)
       | Inr label \<Rightarrow> io_bind (io_try (activateWorktree h label (et_branch target))) (\<lambda>activated. case activated of
           Inl e \<Rightarrow> io_return (ActivationFailed label e) | Inr w \<Rightarrow> ready h w))
      (\<lambda>r. holds (outcome_ok h x r)) (holds (unchanged x))"
    using failed made by (cases resolved) simp_all
qed

lemma wkeeps_select: "wkeeps (on_state R) (selectWorktreeTarget labelLe h ui goal slug)"
  unfolding selectWorktreeTarget_def ask_target_def listWorkspaceWorktrees_def require_def require_repo_def Let_def
  by (auto intro!: wkeeps_intros)

lemma hoare_runHandoff:
  "hoare (holds (unchanged x)) (runHandoff labelLe h ui goal slug) (\<lambda>r. holds (outcome_ok h x r)) (holds (unchanged x))"
  unfolding runHandoff_def
proof (rule hoare_gets)
  fix st
  let ?P = "\<lambda>l s. unchanged x l s \<and> sv_state s = st"
  let ?active = "Option.bind st ws_activeWorktree"
  have reused: "hoare (holds ?P) (ready h (the ?active)) (\<lambda>r. holds (outcome_ok h x r)) (holds (unchanged x))"
    if "shouldReuseActiveWorktreeForHandoff ?active"
  proof (rule hoare_weaken [OF hoare_ready])
    fix w assume "holds ?P w"
    with that show "holds (activated (the ?active)) w"
      by (auto simp: shouldReuseActiveWorktreeForHandoff_def on_state_def holds_def split: option.splits)
  qed
  have chosen: "hoare (holds ?P) (io_bind (selectWorktreeTarget labelLe h ui goal slug) (\<lambda>target. case target of
      None \<Rightarrow> io_return Cancelled | Some t \<Rightarrow> activateTarget h t)) (\<lambda>r. holds (outcome_ok h x r)) (holds (unchanged x))"
  proof (rule hoare_bind)
    show "hoare (holds ?P) (selectWorktreeTarget labelLe h ui goal slug) (\<lambda>_. holds (unchanged x)) (holds (unchanged x))"
      by (rule hoare_weaken [OF hoare_quiet [OF wkeeps_select]]) (auto simp: holds_def)
    show "hoare (holds (unchanged x)) (case target of None \<Rightarrow> io_return Cancelled | Some t \<Rightarrow> activateTarget h t)
        (\<lambda>r. holds (outcome_ok h x r)) (holds (unchanged x))" for target
      by (cases target) (auto intro: hoare_return simp: hoare_activateTarget)
  qed
  show "hoare (holds ?P) (let active = ?active in
      if shouldReuseActiveWorktreeForHandoff active then ready h (the active)
      else io_bind (selectWorktreeTarget labelLe h ui goal slug) (\<lambda>target. case target of
         None \<Rightarrow> io_return Cancelled | Some t \<Rightarrow> activateTarget h t))
      (\<lambda>r. holds (outcome_ok h x r)) (holds (unchanged x))"
    using reused chosen by (simp add: Let_def)
qed


text \<open>Listing the worktrees for the picker is not inside the try: when git fails there, the plan tool's call fails.\<close>

lemma listing_failure_escapes:
  assumes "sv_state s = Some st" "ws_repo st = Some repo" "hu_hasUI ui"
    and "\<not> shouldReuseActiveWorktreeForHandoff (ws_activeWorktree st)"
    and "listWorktrees labelLe (sh_platform h) (rp_root repo) (rp_name repo) t = (Inl e, t')"
  shows "runHandoff labelLe h ui goal slug (t, s) = (Inl e, (t', s))"
  using assms
  by (simp add: runHandoff_def selectWorktreeTarget_def listWorkspaceWorktrees_def require_def require_repo_def
      gets_def on_host_def io_simps Let_def)

end
