(* ===== verification/PlanTool.thy ===== *)
theory PlanTool
  imports PlanReview PlanHandoff
begin

text \<open>
  The plan tool (\<open>pi/tasks/tools/plan-tool.ts\<close>) and \<open>/show-plan\<close> (\<open>commands.ts\<close>): a submission becomes a
  draft, the user reviews it, and an approved draft starts a goal cycle - in place for an analysis and
  for a dispatched agent, after the handoff to a worktree otherwise. A program acts on the workspace and
  on the tool's state; both keep what happened before an error.
\<close>

section \<open>The state of the tool\<close>

text \<open>
  \<open>pl_log\<close> lists the decisions of the user in reviews and the goal cycles the tool started, in order; no
  definition reads it. The live agent mode keeps its session document in the workspace's service.
\<close>

datatype plan_log = Decided decision | Began new_cycle

record plan_state =
  pl_draft :: "plan_draft option"
  pl_pending :: "pending_handoff option"
  pl_tasks :: tasks_runtime
  pl_mode :: agent_mode_runtime
  pl_log :: "plan_log list"

type_synonym 'w plan_world = "'w ws_world \<times> plan_state"
type_synonym ('w, 'a) plan_io = "('w plan_world, 'a) io"

definition on_ws :: "('w, 'a) ws_io \<Rightarrow> ('w, 'a) plan_io" where
  "on_ws m = (\<lambda>(w, p). case m w of (r, w') \<Rightarrow> (r, (w', p)))"

definition pgets :: "(plan_state \<Rightarrow> 'a) \<Rightarrow> ('w, 'a) plan_io" where
  "pgets f = (\<lambda>(w, p). (Inr (f p), (w, p)))"

definition pchange :: "(plan_state \<Rightarrow> plan_state) \<Rightarrow> ('w, unit) plan_io" where
  "pchange f = (\<lambda>(w, p). (Inr (), (w, f p)))"

text \<open>A change of the mode, on the session's state that the workspace service holds.\<close>

definition change_mode ::
  "(agent_mode_runtime \<Rightarrow> unit result \<times> agent_mode_runtime) \<Rightarrow> ('w, unit) plan_io" where
  "change_mode f = (\<lambda>((t, s), p). case f ((pl_mode p)\<lparr>am_session := sv_session s\<rparr>) of
     (saved, m) \<Rightarrow> (saved, ((t, s\<lparr>sv_session := am_session m\<rparr>), p\<lparr>pl_mode := m\<rparr>)))"

text \<open>The surroundings of the tool: the host, the dialogs, the text editor, and whether it serves a dispatched agent.\<close>

record 'w plan_env =
  pe_host :: "'w session_host"
  pe_ui :: "'w handoff_ui"
  pe_editor :: editor_keys
  pe_labelLe :: "string \<Rightarrow> string \<Rightarrow> bool"
  pe_sub :: bool

section \<open>The tool\<close>

definition cancelledResult :: "string \<Rightarrow> json" where
  "cancelledResult next_step = JObj [(''status'', JStr ''handoff_cancelled''), (''next_step'', JStr next_step)]"

definition declinedResult :: json where
  "declinedResult = JObj [(''status'', JStr ''declined''), (''message'', JStr ''User declined to review the plan.'')]"

definition plan_ref_of :: "plan_draft \<Rightarrow> plan_ref" where
  "plan_ref_of d = \<lparr>pr_context = ps_content (pd_context d), pr_design = ps_content (pd_design d),
     pr_success = ps_content (pd_success d), pr_boundaries = ps_content (pd_boundaries d)\<rparr>"

definition approved_cycle :: "plan_draft \<Rightarrow> agent_mode \<Rightarrow> new_cycle" where
  "approved_cycle d mode = \<lparr>nc_goal = ps_content (pd_goal d), nc_tasks = map (\<lambda>t. t\<lparr>t_review := None\<rparr>) (pd_tasks d),
     nc_planRef = Some (plan_ref_of d), nc_agentMode = Some mode\<rparr>"

definition set_draft :: "plan_draft option \<Rightarrow> ('w, unit) plan_io" where
  "set_draft d = pchange (\<lambda>p. p\<lparr>pl_draft := d\<rparr>)"

text \<open>The cycle is started in memory; the error of a refused write of the task file is thrown.\<close>

definition start_cycle :: "string option \<Rightarrow> string \<Rightarrow> new_cycle \<Rightarrow> ('w, unit) plan_io" where
  "start_cycle refused now c = (\<lambda>(w, p). case startGoalCycle refused now c (pl_tasks p) of
     (saved, r) \<Rightarrow> (saved, (w, p\<lparr>pl_tasks := r, pl_log := pl_log p @ [Began c]\<rparr>)))"

definition begin_cycle :: "'w plan_env \<Rightarrow> plan_draft \<Rightarrow> agent_mode \<Rightarrow> ('w, unit) plan_io" where
  "begin_cycle env d mode = io_bind (on_ws (clock (pe_host env))) (\<lambda>now.
     io_bind (on_ws (save_answer (pe_host env))) (\<lambda>refused. start_cycle refused (toISOString now) (approved_cycle d mode)))"

definition enter_work :: "'w plan_env \<Rightarrow> ('w, unit) plan_io" where
  "enter_work env = io_bind (on_ws (clock (pe_host env))) (\<lambda>now.
     io_bind (on_ws (save_answer (pe_host env))) (\<lambda>refused. change_mode (setAgentMode refused Work (toISOString now))))"

definition return_cleared :: "json \<Rightarrow> ('w, json) plan_io" where
  "return_cleared result = io_bind (set_draft None) (\<lambda>_. io_return result)"

definition hand_off :: "'w plan_env \<Rightarrow> plan_draft \<Rightarrow> handoff_worktree \<Rightarrow> setup_summary option \<Rightarrow> ('w, json) plan_io" where
  "hand_off env d worktree summary =
     io_bind (enter_work env) (\<lambda>_. io_bind (begin_cycle env d Work) (\<lambda>_.
     io_bind (on_ws (buildPendingImplementationHandoff d worktree)) (\<lambda>pending.
     io_bind (pchange (\<lambda>p. p\<lparr>pl_pending := Some pending\<rparr>)) (\<lambda>_.
     return_cleared (buildApprovedResult d ImplementationPlan (Some worktree) summary)))))"

text \<open>The call of the tool with every item approved.\<close>

definition plan_approved :: "'w plan_env \<Rightarrow> plan_draft \<Rightarrow> ('w, json) plan_io" where
  "plan_approved env d = io_bind (pgets (\<lambda>p. am_mode (pl_mode p))) (\<lambda>mode.
     if mode = Analysis then io_bind (begin_cycle env d Analysis) (\<lambda>_.
       return_cleared (buildApprovedResult d AnalysisPlan None None))
     else if pe_sub env then io_bind (enter_work env) (\<lambda>_. io_bind (begin_cycle env d Work) (\<lambda>_.
       return_cleared (buildApprovedResult d InPlacePlan None None)))
     else io_bind (on_ws (runHandoff (pe_labelLe env) (pe_host env) (pe_ui env) (ps_content (pd_goal d)) (pd_worktreeSlug d))) (\<lambda>outcome.
       case outcome of
         Cancelled \<Rightarrow> io_return (cancelledResult
           ''Plan approved, but an execution worktree was not selected. Seek user confirmation before implementation.'')
       | ActivationFailed label e \<Rightarrow> io_return (buildWorktreeActivationFailedResult label e)
       | Ready worktree summary \<Rightarrow> hand_off env d worktree summary))"

text \<open>
  The review, by the keys the user presses; the reviews are written into the draft in place. The
  verdict is \<open>None\<close> while the overlay is shown.
\<close>

definition review_draft :: "'w plan_env \<Rightarrow> review_key list \<Rightarrow> plan_draft \<Rightarrow> ('w, plan_draft \<times> review_verdict option) plan_io" where
  "review_draft env ks d = (case showReviewOverlay (pe_editor env) ks d of (reviewed, made) \<Rightarrow>
     io_bind (pchange (\<lambda>p. p\<lparr>pl_draft := Some (fst reviewed), pl_log := pl_log p @ map Decided made\<rparr>)) (\<lambda>_.
     io_return reviewed))"

definition submitted_draft :: "'w plan_env \<Rightarrow> plan_params \<Rightarrow> task_input list \<Rightarrow> plan_draft option \<Rightarrow> plan_draft" where
  "submitted_draft env params tasks previous =
     (let d = buildDraft (params\<lparr>pp_worktreeSlug :=
            nullish_or (pp_worktreeSlug params) (Option.bind previous pd_worktreeSlug)\<rparr>) tasks previous
      in if pe_sub env then approveDraft d else d)"

definition settle_review :: "'w plan_env \<Rightarrow> plan_draft \<times> review_verdict option \<Rightarrow> ('w, json option) plan_io" where
  "settle_review env reviewed = (case reviewed of
     (d, None) \<Rightarrow> io_return None
   | (d, Some Decline) \<Rightarrow> io_bind (return_cleared declinedResult) (\<lambda>j. io_return (Some j))
   | (d, Some Submit) \<Rightarrow>
       if \<not> isAllApproved d then io_return (Some (buildFeedbackResult d))
       else io_bind (plan_approved env d) (\<lambda>j. io_return (Some j)))"

text \<open>\<open>execute\<close>; the result is \<open>None\<close> while the call waits for the user.\<close>

definition plan_execute :: "'w plan_env \<Rightarrow> plan_params \<Rightarrow> task_input list \<Rightarrow> review_key list \<Rightarrow> ('w, json option) plan_io" where
  "plan_execute env params tasks ks = io_bind (pgets pl_draft) (\<lambda>previous.
     let d = submitted_draft env params tasks previous in
     io_bind (set_draft (Some d)) (\<lambda>_.
     io_bind (if hu_hasUI (pe_ui env) \<and> \<not> pe_sub env then review_draft env ks d else io_return (d, Some Submit))
       (settle_review env)))"

text \<open>
  At the end of a run the pending handoff is taken, and dispatched with the context's usage and what the
  call to compact does.
\<close>

definition plan_agent_end :: "rat option \<Rightarrow> compact_call \<Rightarrow> ('w, (pending_handoff \<times> dispatch_state) option) plan_io" where
  "plan_agent_end usage c = io_bind (pgets pl_pending) (\<lambda>pending. case pending of
     None \<Rightarrow> io_return None
   | Some h \<Rightarrow> io_bind (pchange (\<lambda>p. p\<lparr>pl_pending := None\<rparr>)) (\<lambda>_.
       io_return (Some (h, dispatchImplementationHandoff usage c))))"

definition show_plan :: "'w plan_env \<Rightarrow> review_key list \<Rightarrow> ('w, unit) plan_io" where
  "show_plan env ks = io_bind (pgets pl_draft) (\<lambda>draft. io_bind (pgets (\<lambda>p. getActivePlanRef (pl_tasks p))) (\<lambda>planRef.
     if \<not> hu_hasUI (pe_ui env) then io_return ()
     else (case draft of
         Some d \<Rightarrow> io_bind (review_draft env ks d) (\<lambda>reviewed.
           if snd reviewed = None then io_return ()
           else on_ws (notify_ui (WorktreeNotice ''Review updated. Agent will see feedback on next turn.'')))
       | None \<Rightarrow> if planRef = None
           then on_ws (notify_ui (WorktreeNotice ''No plan yet - ask the agent to plan a piece of work to create one.''))
           else io_return ())))"

text \<open>A call of the tool passes the guards first, that of copilot sessions before that of the skill.\<close>

definition plan_verdict :: "'w plan_env \<Rightarrow> string list \<Rightarrow> plan_state \<Rightarrow> guard_verdict" where
  "plan_verdict env skills p = (case plan_copilot_guard (am_mode (pl_mode p)) PLAN_TOOL_NAME of
     Pass \<Rightarrow> plan_skill_guard (hu_hasUI (pe_ui env)) (pe_sub env) skills PLAN_TOOL_NAME
   | v \<Rightarrow> v)"

definition plan_call :: "'w plan_env \<Rightarrow> string list \<Rightarrow> plan_params \<Rightarrow> task_input list \<Rightarrow> review_key list \<Rightarrow> ('w, json option) plan_io" where
  "plan_call env skills params tasks ks = io_bind (pgets (plan_verdict env skills)) (\<lambda>v. case v of
     Block reason \<Rightarrow> io_throw reason | _ \<Rightarrow> plan_execute env params tasks ks)"

section \<open>Sessions\<close>

text \<open>The task tools, and the key that changes the mode, work on the same task list and mode.\<close>

datatype plan_event =
    PlanCall "string list" plan_params "task_input list" "review_key list"
  | ShowPlan "review_key list"
  | AgentEnded "rat option" compact_call
  | OtherTaskCall "string option" task_call
  | ModeKey "string option" string

fun plan_step :: "'w plan_env \<Rightarrow> 'w plan_world \<Rightarrow> plan_event \<Rightarrow> 'w plan_world" where
  "plan_step env w (PlanCall skills params tasks ks) = snd (plan_call env skills params tasks ks w)"
| "plan_step env w (ShowPlan ks) = snd (show_plan env ks w)"
| "plan_step env w (AgentEnded usage c) = snd (plan_agent_end usage c w)"
| "plan_step env w (OtherTaskCall refused c) = snd (pchange (\<lambda>p. p\<lparr>pl_tasks := task_call_effect refused c (pl_tasks p)\<rparr>) w)"
| "plan_step env w (ModeKey refused now) = snd (change_mode (cycleAgentMode refused now) w)"

definition fresh_plan :: "tasks_runtime \<Rightarrow> agent_mode_runtime \<Rightarrow> plan_state" where
  "fresh_plan r m = \<lparr>pl_draft = None, pl_pending = None, pl_tasks = r, pl_mode = m, pl_log = []\<rparr>"

section \<open>Assertions on the tool's state\<close>

definition about :: "(plan_state \<Rightarrow> bool) \<Rightarrow> 'w plan_world \<Rightarrow> bool" where
  "about P = (\<lambda>(w, p). P p)"

lemma about_simps [simp]: "about P (w, p) = P p"
  by (simp add: about_def)

lemma about_ws: "hoare (about P) (on_ws m) (\<lambda>_. about P) (about P)"
  by (rule hoareI) (auto simp: on_ws_def about_def split: prod.splits)

lemma about_change: "(\<And>p. P p \<Longrightarrow> Q (f p)) \<Longrightarrow> hoare (about P) (pchange f) (\<lambda>_. about Q) E"
  by (rule hoareI) (auto simp: pchange_def about_def)

lemma about_gets:
  "(\<And>x. hoare (about (\<lambda>p. P p \<and> f p = x)) (k x) Q E) \<Longrightarrow> hoare (about P) (io_bind (pgets f) k) Q E"
  by (rule hoareI) (force simp: hoare_def pgets_def io_simps about_def split: prod.splits)+

lemma about_mode: "(\<And>p m. P p \<Longrightarrow> P (p\<lparr>pl_mode := m\<rparr>)) \<Longrightarrow> hoare (about P) (change_mode f) (\<lambda>_. about P) (about P)"
  by (rule hoareI) (auto simp: change_mode_def about_def split: prod.splits)

lemma about_enter: "(\<And>p m. P p \<Longrightarrow> P (p\<lparr>pl_mode := m\<rparr>)) \<Longrightarrow> hoare (about P) (enter_work env) (\<lambda>_. about P) (about P)"
  unfolding enter_work_def by (intro hoare_bind [OF about_ws] about_mode)

lemma about_draft: "(\<And>p. P p \<Longrightarrow> Q (p\<lparr>pl_draft := d\<rparr>)) \<Longrightarrow> hoare (about P) (set_draft d) (\<lambda>_. about Q) E"
  unfolding set_draft_def by (rule about_change)

lemma about_return: "(\<And>p. P p \<Longrightarrow> Q p) \<Longrightarrow> hoare (about P) (io_return x) (\<lambda>_. about Q) E"
  by (rule hoare_return) (auto simp: about_def)

lemma about_cleared: "(\<And>p. P p \<Longrightarrow> Q (p\<lparr>pl_draft := None\<rparr>)) \<Longrightarrow> hoare (about P) (return_cleared j) (\<lambda>_. about Q) E"
  unfolding return_cleared_def by (rule hoare_bind [OF about_draft [where Q = Q]]) (simp_all add: about_return)

lemma about_begin:
  assumes "\<And>p r. P p \<Longrightarrow> Q (p\<lparr>pl_tasks := r, pl_log := pl_log p @ [Began (approved_cycle d mode)]\<rparr>)"
    and "\<And>p. Q p \<Longrightarrow> E p" "\<And>p. P p \<Longrightarrow> E p"
  shows "hoare (about P) (begin_cycle env d mode) (\<lambda>_. about Q) (about E)"
proof -
  have start: "hoare (about P) (start_cycle refused now (approved_cycle d mode)) (\<lambda>_. about Q) (about E)" for refused now
    by (rule hoareI) (auto simp: start_cycle_def about_def assms split: prod.splits)
  have host: "hoare (about P) (on_ws m) (\<lambda>_. about P) (about E)" for m :: "('a, 'b) ws_io"
    by (rule hoare_weaken [OF about_ws [of P]]) (auto simp: about_def assms)
  show ?thesis unfolding begin_cycle_def by (intro hoare_bind [OF host] start)
qed

section \<open>What the user approved\<close>

definition decisions_in :: "plan_log list \<Rightarrow> decision list" where
  "decisions_in es = concat (map (\<lambda>e. case e of Decided d \<Rightarrow> [d] | Began c \<Rightarrow> []) es)"

lemma decisions_simps [simp]:
  "decisions_in [] = []" "decisions_in (xs @ ys) = decisions_in xs @ decisions_in ys"
  "decisions_in [Began c] = []" "decisions_in (map Decided ds) = ds"
  by (simp_all add: decisions_in_def comp_def)

text \<open>The content of a goal cycle, item by item.\<close>

definition cycle_content :: "new_cycle \<Rightarrow> review_item \<Rightarrow> item_content" where
  "cycle_content c item = (let r = the (nc_planRef c) in case item of
     GoalContextItem \<Rightarrow> Texts [nc_goal c, pr_context r]
   | SectionItem n \<Rightarrow> Texts [case n of Goal \<Rightarrow> nc_goal c | Background \<Rightarrow> pr_context r | Design \<Rightarrow> pr_design r
       | Success \<Rightarrow> pr_success r | Boundaries \<Rightarrow> pr_boundaries r]
   | TasksItem \<Rightarrow> TaskTexts (map task_text (nc_tasks c)))"

lemma content_of_cycle [simp]: "cycle_content (approved_cycle d mode) item = item_content d item"
  by (cases item)
     (auto simp: cycle_content_def approved_cycle_def plan_ref_of_def item_content_def task_text_def Let_def split: section_name.split)

text \<open>For every item of the cycle, the user's last decision on it was to approve the content it has.\<close>

definition cycle_approved :: "new_cycle \<Rightarrow> decision list \<Rightarrow> bool" where
  "cycle_approved c ds \<longleftrightarrow> (\<forall>item \<in> set REVIEW_ITEMS. last_decision item ds = Some (True, cycle_content c item))"

definition user_approved :: "plan_log list \<Rightarrow> bool" where
  "user_approved es \<longleftrightarrow> (\<forall>xs c ys. es = xs @ Began c # ys \<longrightarrow> cycle_approved c (decisions_in xs))"

lemma user_approved_Nil [simp]: "user_approved []"
  by (simp add: user_approved_def)

lemma user_approved_decided [simp]: "user_approved (es @ map Decided ds) \<longleftrightarrow> user_approved es"
proof (induction ds rule: rev_induct)
  case (snoc d ds)
  have "es @ map Decided (ds @ [d]) = xs @ Began c # ys \<longleftrightarrow>
      (\<exists>zs. ys = zs @ [Decided d] \<and> es @ map Decided ds = xs @ Began c # zs)" for xs c ys
    by (cases ys rule: rev_cases) auto
  with snoc show ?case by (auto simp: user_approved_def)
qed simp

lemma user_approved_began:
  "user_approved es \<Longrightarrow> cycle_approved c (decisions_in es) \<Longrightarrow> user_approved (es @ [Began c])"
  unfolding user_approved_def
proof (intro allI impI)
  fix xs c' ys
  assume old: "\<forall>xs c ys. es = xs @ Began c # ys \<longrightarrow> cycle_approved c (decisions_in xs)"
    and new: "cycle_approved c (decisions_in es)" and eq: "es @ [Began c] = xs @ Began c' # ys"
  show "cycle_approved c' (decisions_in xs)"
    using eq old new by (cases ys rule: rev_cases) auto
qed

lemma cycle_approved_draft:
  "decided_draft d ds \<Longrightarrow> isAllApproved d \<Longrightarrow> cycle_approved (approved_cycle d mode) ds"
  by (auto simp: cycle_approved_def decided_draft_def isAllApproved_items list_all_iff)

definition approval_inv :: "plan_state \<Rightarrow> bool" where
  "approval_inv p \<longleftrightarrow> user_approved (pl_log p)
     \<and> (case pl_draft p of None \<Rightarrow> True | Some d \<Rightarrow> decided_draft d (decisions_in (pl_log p)))"

text \<open>While a draft is at hand: it is approved as far as the log says.\<close>

definition draft_inv :: "plan_draft \<Rightarrow> plan_state \<Rightarrow> bool" where
  "draft_inv d p \<longleftrightarrow> approval_inv p \<and> decided_draft d (decisions_in (pl_log p))"

lemma approval_frame [simp]:
  "approval_inv (p\<lparr>pl_mode := m\<rparr>) = approval_inv p" "approval_inv (p\<lparr>pl_pending := h\<rparr>) = approval_inv p"
  "approval_inv (p\<lparr>pl_tasks := r\<rparr>) = approval_inv p"
  "draft_inv d (p\<lparr>pl_mode := m\<rparr>) = draft_inv d p" "draft_inv d (p\<lparr>pl_pending := h\<rparr>) = draft_inv d p"
  "draft_inv d (p\<lparr>pl_tasks := r\<rparr>) = draft_inv d p"
  by (simp_all add: approval_inv_def draft_inv_def split: option.split)

lemma draft_approval: "draft_inv d p \<Longrightarrow> approval_inv p"
  by (simp add: draft_inv_def)

lemma approval_cleared: "approval_inv p \<Longrightarrow> approval_inv (p\<lparr>pl_draft := None\<rparr>)"
  by (simp add: approval_inv_def)

lemma draft_began:
  "draft_inv d p \<Longrightarrow> isAllApproved d \<Longrightarrow>
    draft_inv d (p\<lparr>pl_tasks := r, pl_log := pl_log p @ [Began (approved_cycle d mode)]\<rparr>)"
proof -
  assume inv: "draft_inv d p" and all: "isAllApproved d"
  then have "cycle_approved (approved_cycle d mode) (decisions_in (pl_log p))"
    by (simp add: draft_inv_def cycle_approved_draft)
  with inv have "user_approved (pl_log p @ [Began (approved_cycle d mode)])"
    by (simp add: draft_inv_def approval_inv_def user_approved_began)
  with inv show ?thesis by (cases "pl_draft p") (simp_all add: draft_inv_def approval_inv_def)
qed

lemma submitted_primary:
  "\<not> pe_sub env \<Longrightarrow> \<exists>params'. submitted_draft env params tasks previous = buildDraft params' tasks previous"
  unfolding submitted_draft_def Let_def by auto

lemma decided_submitted:
  assumes "\<not> pe_sub env" "approval_inv p" "previous = pl_draft p"
  shows "decided_draft (submitted_draft env params tasks previous) (decisions_in (pl_log p))"
  unfolding decided_draft_def
proof (intro ballI impI)
  fix item assume item: "item \<in> set REVIEW_ITEMS" "item_approved (submitted_draft env params tasks previous) item"
  then obtain q where q: "previous = Some q" "item_approved q item"
      "item_content q item = item_content (submitted_draft env params tasks previous) item"
    using approval_carried submitted_primary [OF assms(1), of params tasks previous] by metis
  from q(1) assms(3) have "pl_draft p = Some q" by simp
  with assms(2) q(2,3) item(1)
  show "last_decision item (decisions_in (pl_log p)) = Some (True, item_content (submitted_draft env params tasks previous) item)"
    by (auto simp: approval_inv_def decided_draft_def)
qed

section \<open>Every step keeps it\<close>

lemma begin_keeps:
  "isAllApproved d \<Longrightarrow> hoare (about (draft_inv d)) (begin_cycle env d mode) (\<lambda>_. about (draft_inv d)) (about (draft_inv d))"
  by (rule about_begin) (simp_all add: draft_began)

lemma enter_keeps: "hoare (about (draft_inv d)) (enter_work env) (\<lambda>_. about (draft_inv d)) (about (draft_inv d))"
  by (rule about_enter) simp

lemma cleared_keeps: "hoare (about (draft_inv d)) (return_cleared j) (\<lambda>_. about approval_inv) (about approval_inv)"
  by (rule about_cleared) (simp add: draft_inv_def approval_cleared)

lemma relax: "hoare P m (\<lambda>_. about (draft_inv d)) (about (draft_inv d)) \<Longrightarrow> hoare P m (\<lambda>_. about (draft_inv d)) (about approval_inv)"
  by (erule hoare_weaken) (auto simp: about_def draft_inv_def)

lemma hand_off_keeps:
  "isAllApproved d \<Longrightarrow> hoare (about (draft_inv d)) (hand_off env d w s) (\<lambda>_. about approval_inv) (about approval_inv)"
  unfolding hand_off_def
  by (intro hoare_bind [OF relax [OF enter_keeps]] hoare_bind [OF relax [OF begin_keeps]] hoare_bind [OF relax [OF about_ws]]
      hoare_bind [OF about_change [where Q = "draft_inv d"]] cleared_keeps) simp_all

lemma approved_keeps:
  assumes all: "isAllApproved d"
  shows "hoare (about (draft_inv d)) (plan_approved env d) (\<lambda>_. about approval_inv) (about approval_inv)"
  unfolding plan_approved_def
proof (rule about_gets)
  fix mode
  have forget: "hoare (about (draft_inv d)) m (\<lambda>_. about approval_inv) (about approval_inv) \<Longrightarrow>
      hoare (about (\<lambda>p. draft_inv d p \<and> am_mode (pl_mode p) = mode)) m (\<lambda>_. about approval_inv) (about approval_inv)"
    for m :: "('a, json) plan_io" by (erule hoare_weaken) (auto simp: about_def)
  have outcome: "hoare (about (draft_inv d)) (case outcome of
         Cancelled \<Rightarrow> io_return (cancelledResult c) | ActivationFailed label e \<Rightarrow> io_return (buildWorktreeActivationFailedResult label e)
       | Ready worktree summary \<Rightarrow> hand_off env d worktree summary) (\<lambda>_. about approval_inv) (about approval_inv)" for outcome c
    by (cases outcome) (auto intro: about_return draft_approval simp: hand_off_keeps [OF all])
  show "hoare (about (\<lambda>p. draft_inv d p \<and> am_mode (pl_mode p) = mode))
     (if mode = Analysis then io_bind (begin_cycle env d Analysis) (\<lambda>_. return_cleared (buildApprovedResult d AnalysisPlan None None))
     else if pe_sub env then io_bind (enter_work env) (\<lambda>_. io_bind (begin_cycle env d Work) (\<lambda>_.
       return_cleared (buildApprovedResult d InPlacePlan None None)))
     else io_bind (on_ws (runHandoff (pe_labelLe env) (pe_host env) (pe_ui env) (ps_content (pd_goal d)) (pd_worktreeSlug d))) (\<lambda>outcome.
       case outcome of
         Cancelled \<Rightarrow> io_return (cancelledResult
           ''Plan approved, but an execution worktree was not selected. Seek user confirmation before implementation.'')
       | ActivationFailed label e \<Rightarrow> io_return (buildWorktreeActivationFailedResult label e)
       | Ready worktree summary \<Rightarrow> hand_off env d worktree summary)) (\<lambda>_. about approval_inv) (about approval_inv)"
    by (rule forget)
       (intro hoare_if hoare_bind [OF relax [OF begin_keeps [OF all]]] hoare_bind [OF relax [OF enter_keeps]]
         hoare_bind [OF relax [OF about_ws]] cleared_keeps outcome)
qed

lemma settle_keeps:
  "hoare (about (draft_inv (fst r))) (settle_review env r) (\<lambda>_. about approval_inv) (about approval_inv)"
proof -
  obtain d v where r: "r = (d, v)" by fastforce
  have some: "hoare (about (draft_inv d)) (io_bind m (\<lambda>j. io_return (Some j))) (\<lambda>_. about approval_inv) (about approval_inv)"
    if "hoare (about (draft_inv d)) m (\<lambda>_. about approval_inv) (about approval_inv)" for m :: "('a, json) plan_io"
    by (rule hoare_bind [OF that about_return])
  show ?thesis
    unfolding r settle_review_def
    by (cases v rule: option.exhaust [case_product review_verdict.exhaust])
       (auto intro!: some cleared_keeps approved_keeps intro: about_return draft_approval split: review_verdict.split)
qed

lemma review_keeps:
  "hoare (about (draft_inv d)) (review_draft env ks d) (\<lambda>r. about (draft_inv (fst r))) (about approval_inv)"
proof -
  obtain d' v made where run: "showReviewOverlay (pe_editor env) ks d = ((d', v), made)" by (metis surj_pair)
  have step: "draft_inv d' (p\<lparr>pl_draft := Some d', pl_log := pl_log p @ map Decided made\<rparr>)" if "draft_inv d p" for p
  proof -
    from that have "decided_draft d (decisions_in (pl_log p))" by (simp add: draft_inv_def)
    from showReviewOverlay_keeps(1) [OF this run] that show ?thesis by (simp add: draft_inv_def approval_inv_def)
  qed
  show ?thesis
    unfolding review_draft_def run prod.case
    by (rule hoare_bind [OF about_change [where Q = "draft_inv d'"]]) (auto intro: step hoare_return)
qed

lemma execute_keeps:
  assumes "\<not> pe_sub env"
  shows "hoare (about approval_inv) (plan_execute env params tasks ks) (\<lambda>_. about approval_inv) (about approval_inv)"
  unfolding plan_execute_def
proof (rule about_gets)
  fix previous
  let ?d = "submitted_draft env params tasks previous"
  have submitted: "draft_inv ?d (p\<lparr>pl_draft := Some ?d\<rparr>)" if "approval_inv p \<and> pl_draft p = previous" for p
  proof -
    from that have "decided_draft ?d (decisions_in (pl_log p))" by (intro decided_submitted [OF assms]) auto
    with that show ?thesis by (simp add: draft_inv_def approval_inv_def)
  qed
  have reviewed: "hoare (about (draft_inv ?d)) (if hu_hasUI (pe_ui env) \<and> \<not> pe_sub env then review_draft env ks ?d else io_return (?d, Some Submit))
      (\<lambda>r. about (draft_inv (fst r))) (about approval_inv)"
    by (intro hoare_if review_keeps) (auto intro: hoare_return)
  show "hoare (about (\<lambda>p. approval_inv p \<and> pl_draft p = previous)) (let d = ?d in io_bind (set_draft (Some d)) (\<lambda>_.
     io_bind (if hu_hasUI (pe_ui env) \<and> \<not> pe_sub env then review_draft env ks d else io_return (d, Some Submit)) (settle_review env)))
     (\<lambda>_. about approval_inv) (about approval_inv)"
    unfolding Let_def
    by (rule hoare_bind [OF about_draft [where Q = "draft_inv ?d"]], erule submitted, rule hoare_bind [OF reviewed settle_keeps])
qed

lemma verdict_runs:
  "hoare (about P) m (\<lambda>_. about P) (about P) \<Longrightarrow>
    hoare (about P) (io_bind (pgets (plan_verdict env skills)) (\<lambda>v. case v of Block reason \<Rightarrow> io_throw reason | _ \<Rightarrow> m)) (\<lambda>_. about P) (about P)"
proof (rule about_gets)
  fix v assume m: "hoare (about P) m (\<lambda>_. about P) (about P)"
  then show "hoare (about (\<lambda>p. P p \<and> plan_verdict env skills p = v)) (case v of Block reason \<Rightarrow> io_throw reason | _ \<Rightarrow> m)
      (\<lambda>_. about P) (about P)"
    by (cases v) (auto simp: about_def intro: hoare_throw hoare_weaken [OF m])
qed

lemma show_keeps: "hoare (about approval_inv) (show_plan env ks) (\<lambda>_. about approval_inv) (about approval_inv)"
  unfolding show_plan_def
proof (intro about_gets hoare_if)
  fix draft planRef
  let ?P = "\<lambda>p. (approval_inv p \<and> pl_draft p = draft) \<and> getActivePlanRef (pl_tasks p) = planRef"
  have told: "hoare (about approval_inv) (on_ws m) (\<lambda>_. about approval_inv) (about approval_inv)" for m :: "('a, unit) ws_io"
    by (rule about_ws)
  have forget: "(\<And>p. P p \<Longrightarrow> approval_inv p) \<Longrightarrow> hoare (about P) (on_ws m) (\<lambda>_. about approval_inv) (about approval_inv)"
    for P and m :: "('a, unit) ws_io" by (rule hoare_weaken [OF told]) (auto simp: about_def)
  show "hoare (about ?P) (io_return ()) (\<lambda>_. about approval_inv) (about approval_inv)"
    by (rule about_return) simp
  show "hoare (about ?P) (case draft of
         Some d \<Rightarrow> io_bind (review_draft env ks d) (\<lambda>reviewed.
           if snd reviewed = None then io_return ()
           else on_ws (notify_ui (WorktreeNotice ''Review updated. Agent will see feedback on next turn.'')))
       | None \<Rightarrow> if planRef = None
           then on_ws (notify_ui (WorktreeNotice ''No plan yet - ask the agent to plan a piece of work to create one.''))
           else io_return ()) (\<lambda>_. about approval_inv) (about approval_inv)"
  proof (cases draft)
    case None
    then show ?thesis unfolding None option.case by (intro hoare_if forget about_return) simp_all
  next
    case (Some d)
    have reviewed: "hoare (about ?P) (review_draft env ks d) (\<lambda>_. about approval_inv) (about approval_inv)"
      by (rule hoare_weaken [OF review_keeps])
         (auto simp: Some about_def draft_inv_def approval_inv_def split: option.splits)
    show ?thesis
      unfolding Some option.case by (rule hoare_bind [OF reviewed [unfolded Some]], intro hoare_if told about_return)
  qed
qed

lemma agent_end_keeps: "hoare (about approval_inv) (plan_agent_end usage c) (\<lambda>_. about approval_inv) (about approval_inv)"
  unfolding plan_agent_end_def
proof (rule about_gets)
  fix pending
  have take: "hoare (about (\<lambda>p. approval_inv p \<and> pl_pending p = pending)) (pchange (\<lambda>p. p\<lparr>pl_pending := None\<rparr>))
      (\<lambda>_. about approval_inv) (about approval_inv)"
    by (rule about_change) simp
  show "hoare (about (\<lambda>p. approval_inv p \<and> pl_pending p = pending)) (case pending of
     None \<Rightarrow> io_return None
   | Some h \<Rightarrow> io_bind (pchange (\<lambda>p. p\<lparr>pl_pending := None\<rparr>)) (\<lambda>_.
       io_return (Some (h, dispatchImplementationHandoff usage c)))) (\<lambda>_. about approval_inv) (about approval_inv)"
  proof (cases pending)
    case None
    then show ?thesis by (auto intro: about_return)
  next
    case (Some h)
    show ?thesis unfolding Some option.case by (rule hoare_bind [OF take [unfolded Some] about_return])
  qed
qed

lemma plan_step_keeps:
  assumes "\<not> pe_sub env" "about approval_inv w"
  shows "about approval_inv (plan_step env w e)"
proof (cases e)
  case (PlanCall skills params tasks ks)
  with assms(2) show ?thesis
    unfolding plan_step.simps PlanCall plan_call_def by (intro hoare_world [OF verdict_runs [OF execute_keeps [OF assms(1)]]])
next
  case (ShowPlan ks)
  then show ?thesis using hoare_world [OF show_keeps assms(2)] by simp
next
  case (AgentEnded usage c)
  then show ?thesis using hoare_world [OF agent_end_keeps assms(2)] by simp
next
  case (OtherTaskCall refused c)
  with assms(2) show ?thesis by (auto simp: pchange_def about_def split: prod.splits)
next
  case (ModeKey refused now)
  with assms(2) show ?thesis by (auto simp: change_mode_def about_def split: prod.splits)
qed

text \<open>
  C6. A plan starts work only with the user's approval of all of it. In every session of a main agent - any
  submissions and resubmissions, any keys in the reviews and in \<open>/show-plan\<close>, reviews declined or left, any
  outcome of the handoff, any use of the task tools and mode key - whenever the plan tool starts a goal cycle,
  the user's last decision on each of goal and context, design, success, boundaries and tasks was to
  approve it, with exactly the content the cycle has.
\<close>

theorem plan_starts_only_what_the_user_approved:
  "user_approved (pl_log (snd (foldl (plan_step (env\<lparr>pe_sub := False\<rparr>)) (w, fresh_plan r m) es)))"
proof -
  have "about approval_inv (foldl (plan_step (env\<lparr>pe_sub := False\<rparr>)) (w, fresh_plan r m) es)"
  proof (induction es rule: rev_induct)
    case Nil
    show ?case by (simp add: fresh_plan_def approval_inv_def)
  next
    case (snoc e es)
    then show ?case by (simp del: plan_step.simps) (rule plan_step_keeps, simp_all)
  qed
  then show ?thesis by (auto simp: about_def approval_inv_def split: prod.splits)
qed

section \<open>Dispatched agents\<close>

lemma clock_runs: "\<exists>n t'. clock h (t, s) = (Inr n, (t', s))"
  by (auto simp: clock_def on_host_def untraced_def split: prod.splits)

text \<open>Starting a cycle always changes the tasks; it throws what the write of the task file is refused with.\<close>

definition may_answer :: "'w session_host \<Rightarrow> string option \<Rightarrow> bool" where
  "may_answer h refused \<longleftrightarrow> (\<exists>w. fst (sh_saves h w) = refused)"

lemma begin_runs:
  "\<exists>now refused t'. may_answer (pe_host env) refused \<and> begin_cycle env d mode ((t, s), p)
     = (fst (startGoalCycle refused now (approved_cycle d mode) (pl_tasks p)), ((t', s),
     p\<lparr>pl_tasks := snd (startGoalCycle refused now (approved_cycle d mode) (pl_tasks p)), pl_log := pl_log p @ [Began (approved_cycle d mode)]\<rparr>))"
proof -
  obtain n t1 where c: "clock (pe_host env) (t, s) = (Inr n, (t1, s))" using clock_runs by blast
  have "save_answer (pe_host env) (t1, s) = (Inr (fst (sh_saves (pe_host env) (tw_host t1))),
      (t1\<lparr>tw_host := snd (sh_saves (pe_host env) (tw_host t1))\<rparr>, s))"
    by (simp add: save_answer_def on_host_def io_simps split_beta)
  with c show ?thesis
    by (simp add: begin_cycle_def on_ws_def start_cycle_def io_simps may_answer_def split_beta) blast
qed

lemma cycle_saved:
  "fst (startGoalCycle refused now c r) = Inr () \<or> (\<exists>e. refused = Some e \<and> fst (startGoalCycle refused now c r) = Inl e)"
  by (auto simp: startGoalCycle_def persistState_def Let_def split: option.split)

lemma enter_runs:
  "\<exists>m t' d. enter_work env ((t, s), p) = (Inr (), ((t', s\<lparr>sv_session := d\<rparr>), p\<lparr>pl_mode := m\<rparr>)) \<and> am_mode m = Work
   \<or> (\<exists>e. may_answer (pe_host env) (Some e) \<and> enter_work env ((t, s), p) = (Inl e, ((t', s\<lparr>sv_session := d\<rparr>), p\<lparr>pl_mode := m\<rparr>))
        \<and> am_mode m = am_mode (pl_mode p))"
proof -
  obtain n t1 where c: "clock (pe_host env) (t, s) = (Inr n, (t1, s))" using clock_runs by blast
  let ?refused = "fst (sh_saves (pe_host env) (tw_host t1))"
  have "save_answer (pe_host env) (t1, s) = (Inr ?refused, (t1\<lparr>tw_host := snd (sh_saves (pe_host env) (tw_host t1))\<rparr>, s))"
    by (simp add: save_answer_def on_host_def io_simps split_beta)
  with c obtain t' where run: "enter_work env ((t, s), p) = change_mode (setAgentMode ?refused Work (toISOString n)) ((t', s), p)"
    by (simp add: enter_work_def on_ws_def io_simps)
  let ?r = "(pl_mode p)\<lparr>am_session := sv_session s\<rparr>"
  have may: "may_answer (pe_host env) ?refused" by (auto simp: may_answer_def)
  from set_mode_cases [of ?refused Work "toISOString n" ?r] show ?thesis
  proof (elim disjE exE conjE)
    fix e assume "?refused = Some e" "setAgentMode ?refused Work (toISOString n) ?r = (Inl e, ?r)"
    then have "enter_work env ((t, s), p) = (Inl e, ((t', s\<lparr>sv_session := sv_session s\<rparr>), p\<lparr>pl_mode := ?r\<rparr>))"
      by (simp add: run change_mode_def)
    moreover have "am_mode ?r = am_mode (pl_mode p)" by simp
    ultimately show ?thesis using may \<open>?refused = Some e\<close> by metis
  next
    fix d assume "setAgentMode ?refused Work (toISOString n) ?r = (Inr (), updateLiveAgentMode Work (?r\<lparr>am_session := d\<rparr>))"
    then have "enter_work env ((t, s), p) = (Inr (), ((t', s\<lparr>sv_session := d\<rparr>),
        p\<lparr>pl_mode := updateLiveAgentMode Work (?r\<lparr>am_session := d\<rparr>)\<rparr>))"
      by (simp add: run change_mode_def)
    then show ?thesis using am_mode_updateLive by metis
  qed
qed

lemma cleared_runs: "return_cleared j (w, p) = (Inr j, (w, p\<lparr>pl_draft := None\<rparr>))"
  by (simp add: return_cleared_def set_draft_def pchange_def io_simps)

definition submitted_cycle :: "plan_params \<Rightarrow> task_input list \<Rightarrow> agent_mode \<Rightarrow> new_cycle" where
  "submitted_cycle params tasks mode = \<lparr>nc_goal = pp_goal params, nc_tasks = map new_task tasks,
     nc_planRef = Some \<lparr>pr_context = pp_context params, pr_design = pp_design params,
       pr_success = pp_success params, pr_boundaries = pp_boundaries params\<rparr>,
     nc_agentMode = Some mode\<rparr>"

lemma submitted_content:
  "approved_cycle (approveDraft (buildDraft (params\<lparr>pp_worktreeSlug := slug\<rparr>) tasks previous)) mode = submitted_cycle params tasks mode"
  by (simp add: approved_cycle_def submitted_cycle_def plan_ref_of_def approveDraft_def approve_section_def
      buildDraft_def new_task_def Let_def)

lemma approveDraft_all: "isAllApproved (approveDraft d)"
  by (simp add: isAllApproved_def SECTION_NAMES_def approveDraft_def approve_section_def)

lemma approved_status: "field (buildApprovedResult d mode w s) ''status'' = Some (JStr ''approved'')"
  by (simp add: buildApprovedResult_def Let_def)

text \<open>
  C9. A dispatched agent's plan never waits: whatever the draft before it, one call starts a goal cycle
  with exactly the submitted goal, plan and tasks (all of them pending) - an analysis when the mode is analysis, work
  otherwise - reports it approved and clears the draft, without a review, without a handoff, and with the
  workspace as it was. A call fails only with the error of a refused write, and keeps the approved draft: the
  write of the task file, with the cycle started all the same, or that of the session's state, with the tasks
  and the mode as they were.
\<close>

theorem subagent_plan_runs_in_place:
  "case plan_execute (env\<lparr>pe_sub := True\<rparr>) params tasks ks ((t, s), p) of (r, ((t', s'), p')) \<Rightarrow>
     ((\<exists>now refused. pl_tasks p' = snd (startGoalCycle refused now (submitted_cycle params tasks
            (if am_mode (pl_mode p) = Analysis then Analysis else Work)) (pl_tasks p))
         \<and> am_mode (pl_mode p') = (if am_mode (pl_mode p) = Analysis then Analysis else Work)
         \<and> ((\<exists>j. r = Inr (Some j) \<and> field j ''status'' = Some (JStr ''approved'') \<and> pl_draft p' = None)
            \<or> (\<exists>e d w. refused = Some e \<and> fst (sh_saves (pe_host env) w) = Some e
                \<and> r = Inl e \<and> pl_draft p' = Some d \<and> isAllApproved d)))
      \<or> (\<exists>e d w. fst (sh_saves (pe_host env) w) = Some e \<and> r = Inl e \<and> pl_draft p' = Some d \<and> isAllApproved d
         \<and> pl_tasks p' = pl_tasks p \<and> am_mode (pl_mode p') = am_mode (pl_mode p)))
     \<and> pl_pending p' = pl_pending p \<and> sv_state s' = sv_state s"
proof -
  let ?env = "env\<lparr>pe_sub := True\<rparr>"
  define d where "d = approveDraft (buildDraft (params\<lparr>pp_worktreeSlug :=
     nullish_or (pp_worktreeSlug params) (Option.bind (pl_draft p) pd_worktreeSlug)\<rparr>) tasks (pl_draft p))"
  let ?p = "p\<lparr>pl_draft := Some d\<rparr>"
  have all: "isAllApproved d" unfolding d_def by (rule approveDraft_all)
  have cyc: "approved_cycle d mode = submitted_cycle params tasks mode" for mode
    unfolding d_def by (rule submitted_content)
  have run: "plan_execute ?env params tasks ks ((t, s), p) =
      io_bind (plan_approved ?env d) (\<lambda>j. io_return (Some j)) ((t, s), ?p)"
    using approveDraft_all
    by (simp add: plan_execute_def pgets_def set_draft_def pchange_def submitted_draft_def settle_review_def d_def io_simps Let_def)
  show ?thesis
  proof (cases "am_mode (pl_mode p) = Analysis")
    case True
    obtain now refused t' where a: "may_answer (pe_host ?env) refused"
      and b: "begin_cycle ?env d Analysis ((t, s), ?p) = (fst (startGoalCycle refused now (submitted_cycle params tasks Analysis) (pl_tasks p)),
        ((t', s), ?p\<lparr>pl_tasks := snd (startGoalCycle refused now (submitted_cycle params tasks Analysis) (pl_tasks p)),
          pl_log := pl_log p @ [Began (submitted_cycle params tasks Analysis)]\<rparr>))"
      using begin_runs [of ?env d Analysis t s ?p] cyc by auto
    show ?thesis
      unfolding run using True a all cycle_saved [of refused now "submitted_cycle params tasks Analysis" "pl_tasks p"]
      by (auto simp: plan_approved_def pgets_def io_simps b cleared_runs approved_status may_answer_def) blast+
  next
    case False
    from enter_runs [of ?env t s ?p] obtain m t1 doc where
      "enter_work ?env ((t, s), ?p) = (Inr (), ((t1, s\<lparr>sv_session := doc\<rparr>), ?p\<lparr>pl_mode := m\<rparr>)) \<and> am_mode m = Work
       \<or> (\<exists>e. may_answer (pe_host ?env) (Some e) \<and> enter_work ?env ((t, s), ?p) = (Inl e, ((t1, s\<lparr>sv_session := doc\<rparr>), ?p\<lparr>pl_mode := m\<rparr>))
            \<and> am_mode m = am_mode (pl_mode ?p))" by blast
    then show ?thesis
    proof (elim disjE exE conjE)
      assume e: "enter_work ?env ((t, s), ?p) = (Inr (), ((t1, s\<lparr>sv_session := doc\<rparr>), ?p\<lparr>pl_mode := m\<rparr>))" "am_mode m = Work"
      let ?q = "?p\<lparr>pl_mode := m\<rparr>" and ?s = "s\<lparr>sv_session := doc\<rparr>"
      obtain now refused t' where a: "may_answer (pe_host ?env) refused"
        and b: "begin_cycle ?env d Work ((t1, ?s), ?q) = (fst (startGoalCycle refused now (submitted_cycle params tasks Work) (pl_tasks p)),
          ((t', ?s), ?q\<lparr>pl_tasks := snd (startGoalCycle refused now (submitted_cycle params tasks Work) (pl_tasks p)),
            pl_log := pl_log p @ [Began (submitted_cycle params tasks Work)]\<rparr>))"
        using begin_runs [of ?env d Work t1 ?s ?q] cyc by auto
      show ?thesis
        unfolding run using False a all e(2) cycle_saved [of refused now "submitted_cycle params tasks Work" "pl_tasks p"]
        by (auto simp: plan_approved_def pgets_def io_simps e(1) b cleared_runs approved_status may_answer_def) blast+
    next
      fix e assume may: "may_answer (pe_host ?env) (Some e)" and "am_mode m = am_mode (pl_mode ?p)"
        and "enter_work ?env ((t, s), ?p) = (Inl e, ((t1, s\<lparr>sv_session := doc\<rparr>), ?p\<lparr>pl_mode := m\<rparr>))"
      then show ?thesis
        unfolding run using False all by (auto simp: plan_approved_def pgets_def io_simps may_answer_def)
    qed
  qed
qed

end
