(* ===== verification/Workstreams.thy ===== *)
theory Workstreams
  imports AgentRpc Naming Host
begin

text \<open>
  Workstreams (\<open>pi/workstreams\<close>): the parameters of the tools, the records the hub returns, and the
  tools that create, edit, list and close a workstream in the hub (\<open>params.ts\<close>, \<open>resolve.ts\<close>, \<open>create.ts\<close>,
  \<open>edit.ts\<close>, \<open>status.ts\<close>, \<open>list.ts\<close>, \<open>view/workstream.ts\<close>). The hub is a parameter; the calls made on it
  are recorded with their answers. A tool's result is its \<open>details\<close> and whether it is an error.
\<close>

section \<open>Parameters\<close>

record create_params =
  cw_dossierPath :: string
  cw_repoPagePath :: "string option"
  cw_label :: string
  cw_brief :: string
  cw_constraints :: "string option"

record edit_params =
  ew_workstream :: string
  ew_label :: "string option"
  ew_brief :: "string option"
  ew_constraints :: "string option"

record launch_params =
  lw_workstream :: string
  lw_worktreeSlug :: "string option"

record list_params =
  ls_repo :: "string option"
  ls_dossierPath :: "string option"
  ls_query :: "string option"
  ls_status :: "string option"

record status_params =
  st_workstream :: string
  st_status :: string

definition optionalTrimmedString :: "json option \<Rightarrow> string option" where
  "optionalTrimmedString v = (case v of Some (JStr s) \<Rightarrow> if trim s = [] then None else Some (trim s) | _ \<Rightarrow> None)"

definition requiredTrimmedString :: "json option \<Rightarrow> string \<Rightarrow> string \<Rightarrow> string result" where
  "requiredTrimmedString v path tool = (case optionalTrimmedString v of
     None \<Rightarrow> Inl (tool @ '' requires a non-empty '' @ path @ ''.'') | Some s \<Rightarrow> Inr s)"

definition sub :: "json \<Rightarrow> string \<Rightarrow> json" where
  "sub v k = (case field v k of Some x \<Rightarrow> x | None \<Rightarrow> JNull)"

definition parseCreateWorkstreamParams :: "json \<Rightarrow> create_params result" where
  "parseCreateWorkstreamParams v =
     (if \<not> isRecord v \<or> \<not> isRecord (sub v ''source'') \<or> \<not> isRecord (sub v ''workstream'')
      then Inl ''create_workstream requires source and workstream objects.''
      else (let source = sub v ''source''; ws = sub v ''workstream'' in
        rbind (requiredTrimmedString (field source ''dossierPath'') ''source.dossierPath'' ''create_workstream'') (\<lambda>dossierPath.
        rbind (requiredTrimmedString (field ws ''label'') ''workstream.label'' ''create_workstream'') (\<lambda>label.
        rbind (requiredTrimmedString (field ws ''brief'') ''workstream.brief'' ''create_workstream'') (\<lambda>brief.
        Inr \<lparr>cw_dossierPath = dossierPath, cw_repoPagePath = optionalTrimmedString (field source ''repoPagePath''),
          cw_label = label, cw_brief = brief, cw_constraints = optionalTrimmedString (field ws ''constraints'')\<rparr>)))))"

definition parseEditWorkstreamParams :: "json \<Rightarrow> edit_params result" where
  "parseEditWorkstreamParams v =
     (if \<not> isRecord v then Inl ''edit_workstream requires a workstream id or slug.''
      else rbind (requiredTrimmedString (field v ''workstream'') ''workstream'' ''edit_workstream'') (\<lambda>workstream.
        let label = optionalTrimmedString (field v ''label''); brief = optionalTrimmedString (field v ''brief'');
            constraints = optionalTrimmedString (field v ''constraints'') in
        if label = None \<and> brief = None \<and> constraints = None
        then Inl ''edit_workstream requires at least one of label, brief, or constraints to change.''
        else Inr \<lparr>ew_workstream = workstream, ew_label = label, ew_brief = brief, ew_constraints = constraints\<rparr>))"

definition parseLaunchWorkstreamParams :: "json \<Rightarrow> launch_params result" where
  "parseLaunchWorkstreamParams v =
     (if \<not> isRecord v then Inl ''launch_workstream requires a workstream id or slug.''
      else rbind (requiredTrimmedString (field v ''workstream'') ''workstream'' ''launch_workstream'') (\<lambda>workstream.
        Inr \<lparr>lw_workstream = workstream, lw_worktreeSlug = optionalTrimmedString (field v ''worktreeSlug'')\<rparr>))"

definition open_or_closed :: "json option \<Rightarrow> string option" where
  "open_or_closed v = (if v = Some (JStr ''open'') then Some ''open''
     else if v = Some (JStr ''closed'') then Some ''closed'' else None)"

definition parseListWorkstreamsParams :: "json \<Rightarrow> list_params" where
  "parseListWorkstreamsParams v =
     (if \<not> isRecord v then \<lparr>ls_repo = None, ls_dossierPath = None, ls_query = None, ls_status = None\<rparr>
      else \<lparr>ls_repo = optionalTrimmedString (field v ''repo''), ls_dossierPath = optionalTrimmedString (field v ''dossierPath''),
        ls_query = nullish_or (optionalTrimmedString (field v ''query''))
          (nullish_or (optionalTrimmedString (field v ''slug'')) (optionalTrimmedString (field v ''label''))),
        ls_status = open_or_closed (field v ''status'')\<rparr>)"

definition parseSetWorkstreamStatusParams :: "json \<Rightarrow> status_params result" where
  "parseSetWorkstreamStatusParams v =
     (if \<not> isRecord v then Inl ''set_workstream_status requires workstream and status.''
      else rbind (requiredTrimmedString (field v ''workstream'') ''workstream'' ''set_workstream_status'') (\<lambda>workstream.
        case open_or_closed (field v ''status'') of
          None \<Rightarrow> Inl ''set_workstream_status requires status to be 'open' or 'closed'.''
        | Some status \<Rightarrow> Inr \<lparr>st_workstream = workstream, st_status = status\<rparr>))"

section \<open>Records of the hub\<close>

definition is_object :: "json \<Rightarrow> bool" where
  "is_object v \<longleftrightarrow> (case v of JObj _ \<Rightarrow> True | JArr _ \<Rightarrow> True | _ \<Rightarrow> False)"

definition optionalString :: "json option \<Rightarrow> string option" where
  "optionalString v = nullable_str_of v"

definition optionalNumber :: "json option \<Rightarrow> jsnum option" where
  "optionalNumber v = (case v of
     Some (JNum n) \<Rightarrow> if n \<in> {OtherNum ''Infinity'', OtherNum ''-Infinity''} then None else Some n
   | _ \<Rightarrow> None)"

record ws_agent =
  wa_agent_id :: "string option"
  wa_agent_handle :: "string option"
  wa_repo :: "string option"
  wa_worktree_label :: "string option"
  wa_status :: "string option"
  wa_error :: "string option"
  wa_joined_at :: "string option"
  wa_run_status :: "string option"

record ws_version =
  wv_version :: "jsnum option"
  wv_label :: "string option"
  wv_brief :: "string option"
  wv_constraints :: "string option"
  wv_created_at :: "string option"

record ws_summary =
  su_id :: "string option"
  su_slug :: "string option"
  su_label :: "string option"
  su_brief :: "string option"
  su_constraints :: "string option"
  su_source_dossier_path :: "string option"
  su_source_repo_page_path :: "string option"
  su_status :: "string option"
  su_version :: "jsnum option"
  su_created_at :: "string option"
  su_updated_at :: "string option"
  su_agent_count :: "jsnum option"

record ws_detail =
  wd_summary :: ws_summary
  wd_agents :: "ws_agent list"
  wd_versions :: "ws_version list"

definition parseWorkstreamAgent :: "json \<Rightarrow> ws_agent option" where
  "parseWorkstreamAgent v = (if \<not> is_object v then None else (let s = (\<lambda>k. optionalString (field v k)) in
     Some \<lparr>wa_agent_id = s ''agent_id'', wa_agent_handle = s ''agent_handle'', wa_repo = s ''repo'',
       wa_worktree_label = s ''worktree_label'', wa_status = s ''status'', wa_error = s ''error'',
       wa_joined_at = s ''joined_at'', wa_run_status = s ''run_status''\<rparr>))"

definition parseWorkstreamSummary :: "json \<Rightarrow> ws_summary option" where
  "parseWorkstreamSummary v = (if \<not> is_object v then None else (let s = (\<lambda>k. optionalString (field v k)) in
     Some \<lparr>su_id = s ''id'', su_slug = s ''slug'', su_label = s ''label'', su_brief = s ''brief'',
       su_constraints = s ''constraints'', su_source_dossier_path = s ''source_dossier_path'',
       su_source_repo_page_path = s ''source_repo_page_path'', su_status = s ''status'',
       su_version = optionalNumber (field v ''version''), su_created_at = s ''created_at'', su_updated_at = s ''updated_at'',
       su_agent_count = optionalNumber (field v ''agent_count'')\<rparr>))"

definition parseWorkstreamVersion :: "json \<Rightarrow> ws_version option" where
  "parseWorkstreamVersion v = (if \<not> is_object v then None else (let s = (\<lambda>k. optionalString (field v k)) in
     Some \<lparr>wv_version = optionalNumber (field v ''version''), wv_label = s ''label'', wv_brief = s ''brief'',
       wv_constraints = s ''constraints'', wv_created_at = s ''created_at''\<rparr>))"

definition items_of :: "json option \<Rightarrow> json list" where
  "items_of v = (case v of Some (JArr xs) \<Rightarrow> xs | _ \<Rightarrow> [])"

definition parseWorkstreamsResponse :: "json option \<Rightarrow> ws_summary list option" where
  "parseWorkstreamsResponse parsed = (case parsed of None \<Rightarrow> None
     | Some v \<Rightarrow> if \<not> is_object v then None
         else Some (List.map_filter parseWorkstreamSummary (items_of (field v ''workstreams''))))"

definition parseWorkstreamDetailResponse :: "json option \<Rightarrow> ws_detail option" where
  "parseWorkstreamDetailResponse parsed = (case parsed of None \<Rightarrow> None
     | Some v \<Rightarrow> (case parseWorkstreamSummary v of None \<Rightarrow> None
         | Some summary \<Rightarrow> Some \<lparr>wd_summary = summary,
             wd_agents = List.map_filter parseWorkstreamAgent (items_of (field v ''agents'')),
             wd_versions = List.map_filter parseWorkstreamVersion (items_of (field v ''versions''))\<rparr>))"

text \<open>The path of a lookup, before its parts are encoded.\<close>

datatype ws_path = WorkstreamPath string | WorkstreamsPath "(string \<times> string) list"

definition buildWorkstreamsPath :: "list_params \<Rightarrow> ws_path" where
  "buildWorkstreamsPath f = WorkstreamsPath (List.map_filter (\<lambda>(k, v). map_option (Pair k) v)
     [(''status'', ls_status f), (''repo'', ls_repo f), (''dossier_path'', ls_dossierPath f), (''query'', ls_query f)])"

section \<open>The hub\<close>

text \<open>
  \<open>hb_get\<close> is the request over the socket: \<open>None\<close> for every failure, as \<open>requestJsonOverUds\<close> resolves
  it. \<open>hb_call\<close> answers with the fields of the reply, or throws.
\<close>

record 'w hub_client =
  hb_connected :: "('w, bool) io"
  hb_call :: "rpc_request \<Rightarrow> ('w, json) io"
  hb_get :: "ws_path \<Rightarrow> ('w, json option) io"
  hb_uuid :: "('w, string) io"
  hb_rng :: "'w rng"

datatype hub_event =
    Called rpc_request "json result"
  | Looked ws_path "json option result"

type_synonym ('w, 'a) hub_io = "(('w, hub_event) tworld, 'a) io"

definition hub_call :: "'w hub_client \<Rightarrow> rpc_request \<Rightarrow> ('w, json) hub_io" where
  "hub_call hb q = traced (hb_call hb q) (Called q)"

definition hub_get :: "'w hub_client \<Rightarrow> ws_path \<Rightarrow> ('w, json option) hub_io" where
  "hub_get hb p = traced (hb_get hb p) (Looked p)"

definition getWorkstream :: "'w hub_client \<Rightarrow> string \<Rightarrow> ('w, ws_detail option) hub_io" where
  "getWorkstream hb identifier =
     io_bind (hub_get hb (WorkstreamPath identifier)) (\<lambda>parsed. io_return (parseWorkstreamDetailResponse parsed))"

definition listWorkstreams :: "'w hub_client \<Rightarrow> list_params \<Rightarrow> ('w, ws_summary list option) hub_io" where
  "listWorkstreams hb f =
     io_bind (hub_get hb (buildWorkstreamsPath f)) (\<lambda>parsed. io_return (parseWorkstreamsResponse parsed))"

datatype resolve_result = Resolved ws_detail string | LookupFailed string | NoSuchWorkstream string

definition truthy_string :: "string option \<Rightarrow> bool" where
  "truthy_string s \<longleftrightarrow> s \<noteq> None \<and> s \<noteq> Some []"

definition resolve_detail :: "string \<Rightarrow> ws_detail option result \<Rightarrow> resolve_result" where
  "resolve_detail identifier looked = (case looked of
     Inl e \<Rightarrow> LookupFailed e
   | Inr detail \<Rightarrow> (case detail of
       None \<Rightarrow> NoSuchWorkstream (''No workstream found for '' @ [CHR 0x22] @ identifier @ [CHR 0x22] @ ''.'')
     | Some d \<Rightarrow> if \<not> truthy_string (su_slug (wd_summary d))
         then NoSuchWorkstream (''No workstream found for '' @ [CHR 0x22] @ identifier @ [CHR 0x22] @ ''.'')
         else Resolved d (the (su_slug (wd_summary d)))))"

definition resolveWorkstreamDetail :: "'w hub_client \<Rightarrow> string \<Rightarrow> ('w, resolve_result) hub_io" where
  "resolveWorkstreamDetail hb identifier =
     io_bind (io_try (getWorkstream hb identifier)) (\<lambda>looked. io_return (resolve_detail identifier looked))"

section \<open>Results\<close>

text \<open>The details, in order, and \<open>isError\<close>.\<close>

type_synonym ws_result = "(string \<times> json) list \<times> bool"

definition failedDetails :: "string \<Rightarrow> string \<Rightarrow> (string \<times> json) list" where
  "failedDetails message nextStep =
     [(''status'', JStr ''failed''), (''message'', JStr message), (''next_step'', JStr nextStep)]"

definition failed_result :: "string \<Rightarrow> string \<Rightarrow> ws_result" where
  "failed_result message nextStep = (failedDetails message nextStep, True)"

definition status_of :: "ws_result \<Rightarrow> json option" where
  "status_of r = map_of (fst r) ''status''"

definition quoted :: "string \<Rightarrow> string" where
  "quoted s = [CHR 0x22] @ s @ [CHR 0x22]"

definition ack_status :: "json \<Rightarrow> string" where
  "ack_status ack = str_of (field ack ''status'')"

text \<open>\<open>result.error ?? result.status\<close>.\<close>

definition ack_reason :: "json \<Rightarrow> string" where
  "ack_reason ack = (case nullable_str_of (field ack ''error'') of Some e \<Rightarrow> e | None \<Rightarrow> ack_status ack)"

section \<open>Creating\<close>

definition MAX_SLUG_ATTEMPTS :: nat where "MAX_SLUG_ATTEMPTS = 25"

definition create_request :: "create_params \<Rightarrow> string \<Rightarrow> string \<Rightarrow> rpc_request" where
  "create_request p workstreamId slug = CreateWorkstream workstreamId slug (cw_label p) (cw_brief p) (cw_dossierPath p)
     (cw_constraints p) (cw_repoPagePath p)"

datatype create_end = CreatedAs string json | CallFailed string | NotCreated "json option"

text \<open>The loop over candidate slugs; \<open>lastAck\<close> is the answer to the attempt before.\<close>

primrec create_attempts :: "nat \<Rightarrow> 'w hub_client \<Rightarrow> create_params \<Rightarrow> string \<Rightarrow> json option \<Rightarrow> ('w, create_end) hub_io" where
  "create_attempts 0 hb p workstreamId lastAck = io_return (NotCreated lastAck)"
| "create_attempts (Suc n) hb p workstreamId lastAck =
     io_bind (untraced (generateName ADJ_ADJ_NOUN (hb_rng hb) (\<lambda>_. False) 50)) (\<lambda>candidate.
     io_bind (io_try (hub_call hb (create_request p workstreamId candidate))) (\<lambda>answer. case answer of
       Inl e \<Rightarrow> io_return (CallFailed e)
     | Inr ack \<Rightarrow>
         if ack_status ack = ''created'' then io_return (CreatedAs candidate ack)
         else if ack_status ack = ''slug_conflict'' then create_attempts n hb p workstreamId (Some ack)
         else io_return (NotCreated (Some ack))))"

definition create_result :: "create_params \<Rightarrow> string \<Rightarrow> create_end \<Rightarrow> ws_result" where
  "create_result p workstreamId e = (case e of
     CallFailed err \<Rightarrow> failed_result (''Failed to create workstream in daemon: '' @ err)
       ''Retry create_workstream; if the error persists, check the daemon.''
   | NotCreated ack \<Rightarrow> failed_result (''Daemon rejected workstream creation: '' @
         (case ack of None \<Rightarrow> ''no unique slug'' | Some a \<Rightarrow> ack_reason a))
       ''Inspect the daemon error (or existing workstreams) and retry create_workstream.''
   | CreatedAs slug ack \<Rightarrow>
       ([(''status'', JStr ''created''), (''message'', JStr (''Workstream '' @ quoted (cw_label p) @ '' created as '' @ slug @ ''.'')),
         (''id'', JStr (case nullable_str_of (field ack ''workstream_id'') of Some i \<Rightarrow> i | None \<Rightarrow> workstreamId)),
         (''slug'', JStr slug),
         (''next_step'', JStr (''Stage execution with launch_workstream (workstream: '' @ quoted slug @
            '') to provision a worktree + Herdr pane, or edit_workstream to refine the brief.''))], False))"

definition executeCreateWorkstream :: "'w hub_client \<Rightarrow> json \<Rightarrow> ('w, ws_result) hub_io" where
  "executeCreateWorkstream hb params = (case parseCreateWorkstreamParams params of
     Inl message \<Rightarrow> io_return (failed_result message ''Call create_workstream again with non-empty required fields.'')
   | Inr p \<Rightarrow> io_bind (untraced (hb_connected hb)) (\<lambda>connected.
       if \<not> connected then io_return (failed_result ''basecamp hub is not connected; cannot create a workstream.''
         ''Ensure the daemon is running (it starts automatically for top-level sessions), then call create_workstream again.'')
       else io_bind (untraced (hb_uuid hb)) (\<lambda>uuid. let workstreamId = ''ws_'' @ uuid in
         io_bind (create_attempts MAX_SLUG_ATTEMPTS hb p workstreamId None) (\<lambda>e.
         io_return (create_result p workstreamId e)))))"

section \<open>Editing\<close>

text \<open>\<open>String(v)\<close>, as a template renders a field of the reply.\<close>

fun js_text :: "json \<Rightarrow> string" where
  "js_text JNull = ''null''"
| "js_text (JBool b) = (if b then ''true'' else ''false'')"
| "js_text (JNum (IntNum i)) = show_int i"
| "js_text (JNum (OtherNum s)) = s"
| "js_text (JStr s) = s"
| "js_text (JArr xs) = join '','' (map (\<lambda>x. case x of JNull \<Rightarrow> [] | _ \<Rightarrow> js_text x) xs)"
| "js_text (JObj _) = ''[object Object]''"

definition js_template :: "json option \<Rightarrow> string" where
  "js_template v = (case v of None \<Rightarrow> ''undefined'' | Some x \<Rightarrow> js_text x)"

text \<open>The full new version: the fields that are not changed are carried forward.\<close>

definition revise_request :: "edit_params \<Rightarrow> ws_detail \<Rightarrow> string \<Rightarrow> rpc_request" where
  "revise_request p d slug = (let s = wd_summary d in
     ReviseWorkstream (case su_id s of Some i \<Rightarrow> i | None \<Rightarrow> ew_workstream p)
       (case nullish_or (ew_label p) (su_label s) of Some l \<Rightarrow> l | None \<Rightarrow> slug)
       (case nullish_or (ew_brief p) (su_brief s) of Some b \<Rightarrow> b | None \<Rightarrow> [])
       (nullish_or (ew_constraints p) (su_constraints s)))"

definition edit_failed :: "string \<Rightarrow> string \<Rightarrow> string \<Rightarrow> ws_result" where
  "edit_failed message nextStep status =
     ([(''status'', JStr status), (''message'', JStr message), (''next_step'', JStr nextStep)], True)"

definition edited_result :: "edit_params \<Rightarrow> ws_detail \<Rightarrow> string \<Rightarrow> json \<Rightarrow> ws_result" where
  "edited_result p d slug ack =
     (if ack_status ack = ''revised'' then
        ([(''status'', JStr ''edited''),
          (''message'', JStr (''Workstream '' @ quoted (case su_label (wd_summary d) of Some l \<Rightarrow> l | None \<Rightarrow> slug) @
             '' revised to version '' @ js_template (field ack ''version'') @ ''. The prior version is retained.''))]
         @ when_set ''id'' (map_option JStr (su_id (wd_summary d)))
         @ [(''slug'', JStr slug)] @ when_set ''version'' (field ack ''version'')
         @ [(''next_step'', JStr ''The change takes effect the next time an agent runs `pi --workstream`; a running agent keeps its brief until you reach out (ask_agent) or it restarts.'')], False)
      else if ack_status ack = ''not_found'' then
        edit_failed (''No workstream found for '' @ quoted (ew_workstream p) @ ''.'')
          ''Use list_workstreams to find the correct id or slug, then call edit_workstream again.'' ''not_found''
      else edit_failed (''Daemon rejected the edit: '' @ ack_reason ack) ''Check the daemon error and retry edit_workstream.'' ''failed'')"

definition edit_answer :: "edit_params \<Rightarrow> ws_detail \<Rightarrow> string \<Rightarrow> json result \<Rightarrow> ws_result" where
  "edit_answer p d slug answer = (case answer of
     Inl e \<Rightarrow> edit_failed (''Could not edit workstream: '' @ e)
       ''Retry edit_workstream; if the error persists, check the daemon.'' ''failed''
   | Inr ack \<Rightarrow> edited_result p d slug ack)"

definition edit_resolved :: "'w hub_client \<Rightarrow> edit_params \<Rightarrow> resolve_result \<Rightarrow> ('w, ws_result) hub_io" where
  "edit_resolved hb p r = (case r of
     LookupFailed e \<Rightarrow> io_return (edit_failed (''Could not resolve workstream '' @ quoted (ew_workstream p) @ '': '' @ e)
       ''Check the id or slug with list_workstreams, then call edit_workstream again.'' ''failed'')
   | NoSuchWorkstream message \<Rightarrow> io_return (edit_failed message
       ''Use list_workstreams to find the correct id or slug, then call edit_workstream again.'' ''not_found'')
   | Resolved d slug \<Rightarrow>
       io_bind (io_try (hub_call hb (revise_request p d slug))) (\<lambda>answer. io_return (edit_answer p d slug answer)))"

definition executeEditWorkstream :: "'w hub_client \<Rightarrow> json \<Rightarrow> ('w, ws_result) hub_io" where
  "executeEditWorkstream hb params = (case parseEditWorkstreamParams params of
     Inl message \<Rightarrow> io_return (edit_failed message
       ''Call edit_workstream again with a workstream id/slug and at least one field to change.'' ''failed'')
   | Inr p \<Rightarrow> io_bind (untraced (hb_connected hb)) (\<lambda>connected.
       if \<not> connected then io_return (edit_failed ''basecamp hub is not connected; cannot edit a workstream.''
         ''Ensure the daemon is running, then call edit_workstream again.'' ''failed'')
       else io_bind (resolveWorkstreamDetail hb (ew_workstream p)) (edit_resolved hb p)))"

section \<open>Status\<close>

definition status_result :: "string \<Rightarrow> string \<Rightarrow> string \<Rightarrow> string \<Rightarrow> bool \<Rightarrow> ws_result" where
  "status_result status message workstream nextStep isError =
     ([(''status'', JStr status), (''message'', JStr message), (''workstream'', JStr workstream), (''next_step'', JStr nextStep)], isError)"

definition updated_result :: "status_params \<Rightarrow> json \<Rightarrow> ws_result" where
  "updated_result p ack = (let w = st_workstream p in
     if ack_status ack = ''updated''
     then status_result ''updated'' (''Workstream '' @ quoted w @ '' is now '' @ st_status p @ ''.'') w
       ''Use list_workstreams to verify the updated status.'' False
     else if ack_status ack = ''not_found''
     then status_result ''not_found'' (''No workstream found for '' @ quoted w @ ''.'') w
       ''Use list_workstreams to find the correct id or slug, then call set_workstream_status again.'' True
     else if ack_status ack = ''invalid_status''
     then status_result ''invalid_status'' (''Status '' @ quoted (st_status p) @ '' is not valid for this workstream.'') w
       ''Use 'open' or 'closed' as the status.'' True
     else status_result ''failed'' (''Daemon rejected status update: '' @ ack_reason ack) w
       ''Check the daemon error and retry set_workstream_status.'' True)"

definition executeSetWorkstreamStatus :: "'w hub_client \<Rightarrow> json \<Rightarrow> ('w, ws_result) hub_io" where
  "executeSetWorkstreamStatus hb params = (case parseSetWorkstreamStatusParams params of
     Inl message \<Rightarrow> io_return (status_result ''failed'' message []
       ''Call set_workstream_status again with a workstream id/slug and status 'open' or 'closed'.'' True)
   | Inr p \<Rightarrow> io_bind (untraced (hb_connected hb)) (\<lambda>connected.
       if \<not> connected then io_return (status_result ''failed'' ''basecamp hub is not connected; cannot update workstream status.''
         (st_workstream p) ''Ensure the daemon is running, then call set_workstream_status again.'' True)
       else io_bind (io_try (hub_call hb (UpdateWorkstream (st_workstream p) (st_status p)))) (\<lambda>answer. io_return (case answer of
           Inl e \<Rightarrow> status_result ''failed'' (''Could not update workstream status: '' @ e) (st_workstream p)
             ''Retry set_workstream_status; if the error persists, check the daemon.'' True
         | Inr ack \<Rightarrow> updated_result p ack))))"

section \<open>Listing\<close>

text \<open>What a listing returns: the status, the count, the summaries, and the single workstream with its agents.\<close>

record list_result =
  lr_status :: string
  lr_message :: string
  lr_count :: nat
  lr_workstreams :: "ws_summary list"
  lr_workstream :: "ws_detail option"
  lr_next_step :: string
  lr_isError :: bool

definition formatAgentsNextStep :: "ws_agent list \<Rightarrow> string" where
  "formatAgentsNextStep agents =
     (if agents = [] then ''No agents are attached to this workstream yet. Run pi --workstream=<slug> in the workstream worktree to attach.''
      else ''Attached agents: '' @ join '', '' (map (\<lambda>a. the (wa_agent_handle a)) (filter (\<lambda>a. truthy_string (wa_agent_handle a)) agents))
        @ ''. Use message_agent or ask_agent to reach them by handle.'')"

definition found_one :: "ws_detail \<Rightarrow> list_result" where
  "found_one d = \<lparr>lr_status = ''ok'', lr_message = ''Found workstream '' @
       (case nullish_or (su_slug (wd_summary d)) (su_id (wd_summary d)) of Some n \<Rightarrow> n | None \<Rightarrow> ''null'') @ ''.'',
     lr_count = 1, lr_workstreams = [wd_summary d], lr_workstream = Some d,
     lr_next_step = formatAgentsNextStep (wd_agents d), lr_isError = False\<rparr>"

definition list_failed :: "string \<Rightarrow> string \<Rightarrow> list_result" where
  "list_failed message nextStep = \<lparr>lr_status = ''failed'', lr_message = message, lr_count = 0, lr_workstreams = [],
     lr_workstream = None, lr_next_step = nextStep, lr_isError = True\<rparr>"

definition listed_result :: "ws_summary list option result \<Rightarrow> list_result" where
  "listed_result r = (case r of
     Inl e \<Rightarrow> list_failed (''Could not list workstreams: '' @ e) ''Ensure the daemon is running, then call list_workstreams again.''
   | Inr None \<Rightarrow> list_failed ''basecamp hub is not connected; cannot list workstreams.''
       ''Ensure the daemon is running (it starts automatically for top-level sessions), then call list_workstreams again.''
   | Inr (Some summaries) \<Rightarrow> \<lparr>lr_status = ''ok'',
       lr_message = ''Found '' @ show_nat (length summaries) @ '' workstream'' @ (if length summaries = 1 then [] else ''s'') @ ''.'',
       lr_count = length summaries, lr_workstreams = summaries, lr_workstream = None,
       lr_next_step = ''For a single workstream's agents view, pass its slug or id as the query parameter. Use set_workstream_status to open or close a workstream.'',
       lr_isError = False\<rparr>)"

definition executeListWorkstreams :: "'w hub_client \<Rightarrow> json \<Rightarrow> ('w, list_result) hub_io" where
  "executeListWorkstreams hb params = (let p = parseListWorkstreamsParams params;
       listing = io_bind (io_try (listWorkstreams hb p)) (\<lambda>r. io_return (listed_result r)) in
     if ls_query p \<noteq> None \<and> ls_status p = None \<and> ls_repo p = None \<and> ls_dossierPath p = None
     then io_bind (io_try (getWorkstream hb (the (ls_query p)))) (\<lambda>found. case found of
         Inr (Some d) \<Rightarrow> io_return (found_one d) | _ \<Rightarrow> listing)
     else listing)"

section \<open>What the tools promise\<close>

text \<open>A parameter is text with nothing to trim.\<close>

definition trimmed :: "string \<Rightarrow> bool" where
  "trimmed s \<longleftrightarrow> s \<noteq> [] \<and> trim s = s"

definition trimmed_or_absent :: "string option \<Rightarrow> bool" where
  "trimmed_or_absent v = (case v of None \<Rightarrow> True | Some s \<Rightarrow> trimmed s)"

lemma optional_trimmed [simp]: "trimmed_or_absent (optionalTrimmedString v)"
  by (auto simp: optionalTrimmedString_def trimmed_or_absent_def trimmed_def split: option.split json.split)

lemma required_trimmed: "requiredTrimmedString v path tool = Inr s \<Longrightarrow> trimmed s"
  using optional_trimmed [of v]
  by (auto simp: requiredTrimmedString_def trimmed_or_absent_def split: option.splits)

lemma required_message: "requiredTrimmedString v path tool = Inl m \<Longrightarrow> m \<noteq> []"
  by (auto simp: requiredTrimmedString_def split: option.splits)

definition create_well_typed :: "create_params \<Rightarrow> bool" where
  "create_well_typed p \<longleftrightarrow> trimmed (cw_dossierPath p) \<and> trimmed (cw_label p) \<and> trimmed (cw_brief p)
     \<and> trimmed_or_absent (cw_repoPagePath p) \<and> trimmed_or_absent (cw_constraints p)"

definition edit_well_typed :: "edit_params \<Rightarrow> bool" where
  "edit_well_typed p \<longleftrightarrow> trimmed (ew_workstream p) \<and> trimmed_or_absent (ew_label p) \<and> trimmed_or_absent (ew_brief p)
     \<and> trimmed_or_absent (ew_constraints p) \<and> {ew_label p, ew_brief p, ew_constraints p} \<noteq> {None}"

definition list_well_typed :: "list_params \<Rightarrow> bool" where
  "list_well_typed p \<longleftrightarrow> list_all trimmed_or_absent [ls_repo p, ls_dossierPath p, ls_query p]
     \<and> ls_status p \<in> {None, Some ''open'', Some ''closed''}"

definition launch_well_typed :: "launch_params \<Rightarrow> bool" where
  "launch_well_typed p \<longleftrightarrow> trimmed (lw_workstream p) \<and> trimmed_or_absent (lw_worktreeSlug p)"

definition status_well_typed :: "status_params \<Rightarrow> bool" where
  "status_well_typed p \<longleftrightarrow> trimmed (st_workstream p) \<and> st_status p \<in> {''open'', ''closed''}"

text \<open>A parser accepts with parameters of their type, or refuses with a message.\<close>

definition parsed_as :: "('p \<Rightarrow> bool) \<Rightarrow> 'p result \<Rightarrow> bool" where
  "parsed_as ok r = (case r of Inl message \<Rightarrow> message \<noteq> [] | Inr p \<Rightarrow> ok p)"

lemma parsed_as_simps [simp]: "parsed_as ok (Inr p) = ok p" "parsed_as ok (Inl m) = (m \<noteq> [])"
  by (simp_all add: parsed_as_def)

lemma parsed_as_required:
  "(\<And>s. trimmed s \<Longrightarrow> parsed_as ok (f s)) \<Longrightarrow> parsed_as ok (rbind (requiredTrimmedString v path tool) f)"
  by (cases "requiredTrimmedString v path tool") (auto simp: rbind_def required_trimmed dest: required_message)

lemma open_or_closed_values: "open_or_closed v \<in> {None, Some ''open'', Some ''closed''}"
  by (simp add: open_or_closed_def)

lemma create_params_typed: "parsed_as create_well_typed (parseCreateWorkstreamParams v)"
  unfolding parseCreateWorkstreamParams_def
  by (auto simp: Let_def create_well_typed_def intro!: parsed_as_required)

lemma edit_params_typed: "parsed_as edit_well_typed (parseEditWorkstreamParams v)"
  unfolding parseEditWorkstreamParams_def
  by (auto simp: Let_def edit_well_typed_def intro!: parsed_as_required)

lemma launch_params_typed: "parsed_as launch_well_typed (parseLaunchWorkstreamParams v)"
  unfolding parseLaunchWorkstreamParams_def
  by (auto simp: launch_well_typed_def intro!: parsed_as_required)

lemma status_params_typed: "parsed_as status_well_typed (parseSetWorkstreamStatusParams v)"
  unfolding parseSetWorkstreamStatusParams_def
  using open_or_closed_values [of "field v ''status''"]
  by (auto simp: status_well_typed_def intro!: parsed_as_required split: option.splits)

lemma nullish_trimmed [simp]: "trimmed_or_absent v \<Longrightarrow> trimmed_or_absent w \<Longrightarrow> trimmed_or_absent (nullish_or v w)"
  by (cases v) (simp_all add: nullish_or_def)

lemma absent_trimmed [simp]: "trimmed_or_absent None"
  by (simp add: trimmed_or_absent_def)

lemma list_params_typed: "list_well_typed (parseListWorkstreamsParams v)"
  using open_or_closed_values [of "field v ''status''"]
  by (simp add: parseListWorkstreamsParams_def list_well_typed_def)

text \<open>
  C22. The parameters of the workstream tools: whatever a tool is called with, its parser either refuses with a
  message or returns parameters of their type, every text non-empty and trimmed, a status one of the
  two the hub knows, an edit with at least one field to change.
\<close>

theorem workstream_parameters_typed:
  "parsed_as create_well_typed (parseCreateWorkstreamParams v)
   \<and> parsed_as edit_well_typed (parseEditWorkstreamParams v)
   \<and> parsed_as launch_well_typed (parseLaunchWorkstreamParams v)
   \<and> parsed_as status_well_typed (parseSetWorkstreamStatusParams v)
   \<and> list_well_typed (parseListWorkstreamsParams v)"
  by (simp add: create_params_typed edit_params_typed launch_params_typed status_params_typed list_params_typed)

section \<open>Creating asks once for a name that is free\<close>

fun accepted :: "hub_event \<Rightarrow> bool" where
  "accepted (Called q (Inr ack)) = (ack_status ack = ''created'')"
| "accepted _ = False"

fun conflicted :: "hub_event \<Rightarrow> bool" where
  "conflicted (Called q (Inr ack)) = (ack_status ack = ''slug_conflict'')"
| "conflicted _ = False"

fun asks_creation :: "create_params \<Rightarrow> string \<Rightarrow> hub_event \<Rightarrow> bool" where
  "asks_creation p workstreamId (Called (CreateWorkstream i slug label brief dossier constraints page) a) =
     (i = workstreamId \<and> label = cw_label p \<and> brief = cw_brief p \<and> dossier = cw_dossierPath p
      \<and> constraints = cw_constraints p \<and> page = cw_repoPagePath p)"
| "asks_creation p workstreamId _ = False"

definition create_run :: "nat \<Rightarrow> create_params \<Rightarrow> string \<Rightarrow> hub_event list \<Rightarrow> create_end \<Rightarrow> bool" where
  "create_run n p workstreamId l e \<longleftrightarrow> length l \<le> n \<and> list_all (asks_creation p workstreamId) l \<and> list_all conflicted (butlast l)
     \<and> (case e of CreatedAs slug ack \<Rightarrow> l \<noteq> [] \<and> last l = Called (create_request p workstreamId slug) (Inr ack) \<and> accepted (last l)
        | _ \<Rightarrow> \<not> list_ex accepted l)"

lemma asks_create_request [simp]: "asks_creation p i (Called (create_request p i slug) a)"
  by (simp add: create_request_def)

lemma conflicted_not_accepted: "conflicted x \<Longrightarrow> \<not> accepted x"
  by (cases x rule: conflicted.cases) auto

lemma create_run_Cons:
  "create_run n p i l e \<Longrightarrow> conflicted x \<Longrightarrow> asks_creation p i x \<Longrightarrow> create_run (Suc n) p i (x # l) e"
  using conflicted_not_accepted [of x]
  by (cases l) (auto simp: create_run_def split: create_end.splits)

text \<open>A step of the trace is the only one of what follows.\<close>

lemma hoare_last_call:
  assumes "R [x] e"
  shows "hoare (on_log ((=) (l @ [x]))) (io_return e) (\<lambda>e. on_log (\<lambda>l'. \<exists>s. l' = l @ s \<and> R s e)) (\<lambda>_. True)"
  using assms by (intro hoare_return) (auto intro: exI [of _ "[x]"] dest: sym)

lemma hoare_unlogged: "hoare (on_log ((=) l)) (untraced m) (\<lambda>_. on_log ((=) l)) (\<lambda>_. True)"
  by (rule hoareI) (auto simp: io_simps)

lemma hoare_next_call:
  assumes "hoare (on_log ((=) (l @ [x]))) m (\<lambda>e. on_log (\<lambda>l'. \<exists>s. l' = (l @ [x]) @ s \<and> R s e)) (\<lambda>_. True)"
    and "\<And>s e. R s e \<Longrightarrow> R' (x # s) e"
  shows "hoare (on_log ((=) (l @ [x]))) m (\<lambda>e. on_log (\<lambda>l'. \<exists>s. l' = l @ s \<and> R' s e)) (\<lambda>_. True)"
  by (rule hoare_weaken [OF assms(1)]) (use assms(2) in \<open>auto intro: exI [of _ "x # _"]\<close>)

lemma create_attempts_run:
  "hoare (on_log ((=) l)) (create_attempts n hb p i lastAck)
     (\<lambda>e. on_log (\<lambda>l'. \<exists>s. l' = l @ s \<and> create_run n p i s e)) (\<lambda>_. True)"
proof (induction n arbitrary: l lastAck)
  case 0
  show ?case by (simp, rule hoare_return) (auto simp: create_run_def)
next
  case (Suc n)
  let ?post = "\<lambda>e. on_log (\<lambda>l'. \<exists>s. l' = l @ s \<and> create_run (Suc n) p i s e)"
  have rest: "hoare (on_log ((=) (l @ [Called (create_request p i slug) answer])))
      (case answer of Inl e \<Rightarrow> io_return (CallFailed e)
       | Inr ack \<Rightarrow> if ack_status ack = ''created'' then io_return (CreatedAs slug ack)
           else if ack_status ack = ''slug_conflict'' then create_attempts n hb p i (Some ack)
           else io_return (NotCreated (Some ack))) ?post (\<lambda>_. True)" for slug answer
  proof (cases answer)
    case (Inl e)
    then show ?thesis by (auto simp: create_run_def intro!: hoare_last_call)
  next
    case (Inr ack)
    show ?thesis
    proof (cases "ack_status ack = ''slug_conflict''")
      case True
      have "hoare (on_log ((=) (l @ [Called (create_request p i slug) answer]))) (create_attempts n hb p i (Some ack)) ?post (\<lambda>_. True)"
        using True Inr by (intro hoare_next_call [OF Suc.IH] create_run_Cons) simp_all
      with True Inr show ?thesis by simp
    next
      case False
      with Inr show ?thesis by (auto simp: create_run_def intro!: hoare_last_call)
    qed
  qed
  have call: "hoare (on_log ((=) l)) (io_try (hub_call hb (create_request p i slug)))
      (\<lambda>answer. on_log ((=) (l @ [Called (create_request p i slug) answer]))) (\<lambda>_. True)" for slug
    by (rule hoareI) (auto simp: io_try_def io_simps hub_call_def split: sum.splits prod.splits)
  show ?case
    unfolding create_attempts.simps
    by (rule hoare_bind [OF hoare_unlogged]) (rule hoare_bind [OF call rest])
qed

text \<open>The result names a creation.\<close>

lemma create_result_status:
  "status_of (create_result p i e) = Some (JStr ''created'') \<longleftrightarrow> (\<exists>slug ack. e = CreatedAs slug ack)"
  "snd (create_result p i e) \<longleftrightarrow> (\<nexists>slug ack. e = CreatedAs slug ack)"
  "map_of (fst (create_result p i (CreatedAs slug ack))) ''slug'' = Some (JStr slug)"
  by (cases e; simp add: create_result_def status_of_def failed_result_def failedDetails_def)+

lemma create_failed_status [simp]:
  "status_of (failed_result m n) = Some (JStr ''failed'')" "snd (failed_result m n)"
  by (simp_all add: failed_result_def failedDetails_def status_of_def)

definition creation_made :: "hub_event list \<Rightarrow> ws_result \<Rightarrow> bool" where
  "creation_made l r \<longleftrightarrow> (\<exists>i slug p ack. l \<noteq> [] \<and> last l = Called (create_request p i slug) (Inr ack) \<and> accepted (last l)
     \<and> map_of (fst r) ''slug'' = Some (JStr slug))"

lemma create_run_accepted:
  assumes "create_run n p i l e"
  shows "(\<exists>slug ack. e = CreatedAs slug ack) \<longleftrightarrow> list_ex accepted l"
proof -
  have "list_ex accepted l" if "l \<noteq> []" "accepted (last l)"
    using that by (meson last_in_set list_ex_iff)
  then show ?thesis
    using assms by (auto simp: create_run_def simp del: accepted.simps split: create_end.splits)
qed

lemma create_result_made:
  assumes "create_run n p i l e" "list_ex accepted l"
  shows "creation_made l (create_result p i e)"
proof -
  obtain slug ack where e: "e = CreatedAs slug ack" using create_run_accepted [OF assms(1)] assms(2) by blast
  then have "l \<noteq> [] \<and> last l = Called (create_request p i slug) (Inr ack) \<and> accepted (last l)"
    using assms(1) unfolding create_run_def e create_end.case by blast
  then show ?thesis
    using create_result_status(3) [of p i slug ack] unfolding e creation_made_def by blast
qed

definition create_spec :: "json \<Rightarrow> hub_event list \<Rightarrow> ws_result \<Rightarrow> bool" where
  "create_spec params l r \<longleftrightarrow> length l \<le> 25 \<and> list_all conflicted (butlast l)
     \<and> (\<exists>p i. (l = [] \<or> parseCreateWorkstreamParams params = Inr p) \<and> list_all (asks_creation p i) l)
     \<and> (status_of r = Some (JStr ''created'') \<longleftrightarrow> list_ex accepted l) \<and> (list_ex accepted l \<longrightarrow> creation_made l r)
     \<and> (snd r \<longleftrightarrow> \<not> list_ex accepted l)"

lemma create_spec_run:
  assumes "create_run MAX_SLUG_ATTEMPTS p i l e" "parseCreateWorkstreamParams params = Inr p"
  shows "create_spec params l (create_result p i e)"
  using assms create_result_made [OF assms(1)]
  unfolding create_spec_def create_result_status(1,2) create_run_accepted [OF assms(1)]
  by (auto simp: create_run_def MAX_SLUG_ATTEMPTS_def)

lemma create_spec_refused: "create_spec params [] (failed_result m n)"
  by (simp add: create_spec_def)

lemma create_workstream_spec:
  "hoare (on_log ((=) l)) (executeCreateWorkstream hb params)
     (\<lambda>r. on_log (\<lambda>l'. \<exists>s. l' = l @ s \<and> create_spec params s r)) (\<lambda>_. True)"
proof (cases "parseCreateWorkstreamParams params")
  case (Inl m)
  then show ?thesis
    unfolding executeCreateWorkstream_def by (auto intro!: hoare_return simp: create_spec_refused)
next
  case (Inr p)
  have attempts: "hoare (on_log ((=) l)) (io_bind (create_attempts MAX_SLUG_ATTEMPTS hb p i None) (\<lambda>e. io_return (create_result p i e)))
      (\<lambda>r. on_log (\<lambda>l'. \<exists>s. l' = l @ s \<and> create_spec params s r)) (\<lambda>_. True)" for i
    by (rule hoare_bind [OF create_attempts_run]) (rule hoare_return, use create_spec_run [OF _ Inr] in auto)
  show ?thesis
    unfolding executeCreateWorkstream_def Inr sum.case
    by (rule hoare_bind [OF hoare_unlogged], rule hoare_if, rule hoare_return)
       (simp add: create_spec_refused, unfold Let_def, rule hoare_bind [OF hoare_unlogged attempts])
qed

text \<open>
  C20. Creating a workstream (\<open>executeCreateWorkstream\<close>): in a run that returns, the hub is asked at most
  25 times, each time for the same new id with the trimmed label, brief, dossier, constraints and page
  of the call and only another slug; it is asked again only after it answered that the slug was taken.
  The result says created exactly when the hub answered created to a request, which was then the last
  one and whose slug is the slug of the result; otherwise the result is an error.
\<close>

theorem create_workstream_until_accepted:
  assumes "executeCreateWorkstream hb params \<lparr>tw_host = w, tw_log = []\<rparr> = (Inr r, t)"
  shows "length (tw_log t) \<le> 25 \<and> list_all conflicted (butlast (tw_log t))
    \<and> (\<exists>p i. (tw_log t = [] \<or> parseCreateWorkstreamParams params = Inr p) \<and> list_all (asks_creation p i) (tw_log t))
    \<and> (status_of r = Some (JStr ''created'') \<longleftrightarrow> list_ex accepted (tw_log t))
    \<and> (list_ex accepted (tw_log t) \<longrightarrow> creation_made (tw_log t) r)
    \<and> (snd r \<longleftrightarrow> \<not> list_ex accepted (tw_log t))"
  using hoare_returns [OF create_workstream_spec _ assms, of "[]"]
  by (simp only: on_log_simps tworld.select_convs append_Nil create_spec_def) blast

definition sample_hub :: "(nat \<Rightarrow> json) \<Rightarrow> json option \<Rightarrow> nat hub_client" where
  "sample_hub answer found = \<lparr>hb_connected = io_return True, hb_call = (\<lambda>q n. (Inr (answer n), Suc n)),
     hb_get = (\<lambda>p n. (Inr found, n)), hb_uuid = io_return ''u1'', hb_rng = sample_rng\<rparr>"

definition one_conflict :: "nat \<Rightarrow> json" where
  "one_conflict n = JObj [(''status'', JStr (if n < 5 then ''slug_conflict'' else ''created''))]"

definition sample_creation :: json where
  "sample_creation = JObj [(''source'', JObj [(''dossierPath'', JStr '' /d.md'')]),
     (''workstream'', JObj [(''label'', JStr ''Fix''), (''brief'', JStr ''do it'')])]"


definition sample_created :: "ws_result result \<times> (nat, hub_event) tworld" where
  "sample_created = executeCreateWorkstream (sample_hub one_conflict None) sample_creation \<lparr>tw_host = 0, tw_log = []\<rparr>"

lemma sample_created_runs:
  "case sample_created of (r, t) \<Rightarrow> map (\<lambda>r. case r of Inl e \<Rightarrow> False | Inr x \<Rightarrow> True) [r] = [True] \<and> length (tw_log t) = 2
     \<and> list_ex accepted (tw_log t)"
  by code_simp

lemma sample_created_facts:
  "map (\<lambda>r. case r of Inl e \<Rightarrow> False | Inr x \<Rightarrow> True) [fst sample_created] = [True]"
  "length (tw_log (snd sample_created)) = 2" "list_ex accepted (tw_log (snd sample_created))"
  using sample_created_runs by (auto simp: case_prod_beta)

theorem create_workstream_until_accepted_witness:
  "\<exists>r. fst sample_created = Inr r \<and> status_of r = Some (JStr ''created'') \<and> creation_made (tw_log (snd sample_created)) r
    \<and> length (tw_log (snd sample_created)) = 2"
proof -
  obtain r t where run: "sample_created = (Inr r, t)"
    using sample_created_facts(1) by (cases "fst sample_created") (simp_all add: prod_eq_iff)
  from create_workstream_until_accepted [OF run [unfolded sample_created_def]] show ?thesis
    using sample_created_facts(2,3) unfolding run by simp
qed

section \<open>Editing keeps what it does not change\<close>

definition kept :: "'a option \<Rightarrow> 'a option \<Rightarrow> 'a option \<Rightarrow> bool" where
  "kept changed recorded sent \<longleftrightarrow> (case changed of Some x \<Rightarrow> sent = Some x | None \<Rightarrow> sent = recorded)"

fun revised :: "json result \<Rightarrow> bool" where
  "revised (Inr ack) = (ack_status ack = ''revised'')"
| "revised (Inl e) = False"

fun only_looked :: "hub_event list \<Rightarrow> bool" where
  "only_looked [] = True"
| "only_looked [Looked path a] = True"
| "only_looked _ = False"

text \<open>What an edit did to the hub: nothing but a lookup, or one revision of the workstream found.\<close>

definition edit_run :: "edit_params \<Rightarrow> hub_event list \<Rightarrow> ws_result \<Rightarrow> bool" where
  "edit_run p l r \<longleftrightarrow> (only_looked l \<and> snd r \<and> status_of r \<noteq> Some (JStr ''edited''))
     \<or> (\<exists>j d slug i label brief constraints answer.
          l = [Looked (WorkstreamPath (ew_workstream p)) (Inr j), Called (ReviseWorkstream i label brief constraints) answer]
          \<and> parseWorkstreamDetailResponse j = Some d \<and> su_slug (wd_summary d) = Some slug \<and> slug \<noteq> []
          \<and> kept None (nullish_or (su_id (wd_summary d)) (Some (ew_workstream p))) (Some i)
          \<and> kept (ew_label p) (nullish_or (su_label (wd_summary d)) (Some slug)) (Some label)
          \<and> kept (ew_brief p) (nullish_or (su_brief (wd_summary d)) (Some [])) (Some brief)
          \<and> kept (ew_constraints p) (su_constraints (wd_summary d)) constraints
          \<and> (status_of r = Some (JStr ''edited'') \<longleftrightarrow> revised answer) \<and> (snd r \<longleftrightarrow> \<not> revised answer))"

lemma edit_failed_status [simp]:
  "status_of (edit_failed m n s) = Some (JStr s)" "snd (edit_failed m n s)"
  by (simp_all add: edit_failed_def status_of_def)

lemma edited_result_status:
  "status_of (edited_result p d slug ack) = Some (JStr ''edited'') \<longleftrightarrow> ack_status ack = ''revised''"
  "snd (edited_result p d slug ack) \<longleftrightarrow> ack_status ack \<noteq> ''revised''"
  by (auto simp: edited_result_def status_of_def edit_failed_def)

lemma edit_run_refused: "s \<noteq> ''edited'' \<Longrightarrow> only_looked l \<Longrightarrow> edit_run p l (edit_failed m n s)"
  by (simp add: edit_run_def)

lemma edit_answer_status:
  "status_of (edit_answer p d slug answer) = Some (JStr ''edited'') \<longleftrightarrow> revised answer"
  "snd (edit_answer p d slug answer) \<longleftrightarrow> \<not> revised answer"
  by (cases answer; simp add: edit_answer_def edited_result_status)+

lemma edit_run_revised:
  assumes "resolve_detail (ew_workstream p) (Inr (parseWorkstreamDetailResponse j)) = Resolved d slug"
  shows "edit_run p [Looked (WorkstreamPath (ew_workstream p)) (Inr j), Called (revise_request p d slug) answer]
    (edit_answer p d slug answer)"
proof -
  have found: "parseWorkstreamDetailResponse j = Some d" "su_slug (wd_summary d) = Some slug" "slug \<noteq> []"
    using assms by (auto simp: resolve_detail_def truthy_string_def split: option.splits if_splits)
  have kept: "kept (ew_label p) (nullish_or (su_label (wd_summary d)) (Some slug))
      (Some (case nullish_or (ew_label p) (su_label (wd_summary d)) of Some l \<Rightarrow> l | None \<Rightarrow> slug))"
    "kept (ew_brief p) (nullish_or (su_brief (wd_summary d)) (Some []))
      (Some (case nullish_or (ew_brief p) (su_brief (wd_summary d)) of Some b \<Rightarrow> b | None \<Rightarrow> []))"
    "kept None (nullish_or (su_id (wd_summary d)) (Some (ew_workstream p)))
      (Some (case su_id (wd_summary d) of Some i \<Rightarrow> i | None \<Rightarrow> ew_workstream p))"
    "kept (ew_constraints p) (su_constraints (wd_summary d)) (nullish_or (ew_constraints p) (su_constraints (wd_summary d)))"
    by (auto simp: kept_def nullish_or_def split: option.splits)
  show ?thesis
    unfolding edit_run_def revise_request_def Let_def
    by (rule disjI2, intro exI conjI, rule refl) (rule found kept edit_answer_status)+
qed

lemma edit_resolved_run:
  "hoare (on_log ((=) (l @ [Looked (WorkstreamPath (ew_workstream p)) looked])))
     (edit_resolved hb p (resolve_detail (ew_workstream p) (map_sum id parseWorkstreamDetailResponse looked)))
     (\<lambda>r. on_log (\<lambda>l'. \<exists>s. l' = l @ s \<and> edit_run p s r)) (\<lambda>_. True)"
proof (cases "resolve_detail (ew_workstream p) (map_sum id parseWorkstreamDetailResponse looked)")
  case (Resolved d slug)
  then obtain j where j: "looked = Inr j"
    "resolve_detail (ew_workstream p) (Inr (parseWorkstreamDetailResponse j)) = Resolved d slug"
    by (cases looked) (auto simp: resolve_detail_def)
  let ?l = "l @ [Looked (WorkstreamPath (ew_workstream p)) looked]"
  have call: "hoare (on_log ((=) ?l)) (io_try (hub_call hb (revise_request p d slug)))
      (\<lambda>answer. on_log ((=) (?l @ [Called (revise_request p d slug) answer]))) (\<lambda>_. True)"
    by (rule hoareI) (auto simp: io_try_def io_simps hub_call_def split: sum.splits prod.splits)
  have answered: "hoare (on_log ((=) (?l @ [Called (revise_request p d slug) answer]))) (io_return (edit_answer p d slug answer))
      (\<lambda>r. on_log (\<lambda>l'. \<exists>s. l' = l @ s \<and> edit_run p s r)) (\<lambda>_. True)" for answer
    using edit_run_revised [OF j(2), of answer]
    by (intro hoare_return) (auto simp: j(1) intro: exI [of _ "[_, _]"] dest: sym)
  show ?thesis
    unfolding Resolved edit_resolved_def resolve_result.case by (rule hoare_bind [OF call answered])
qed (auto simp: edit_resolved_def intro!: hoare_last_call edit_run_refused)

lemma hoare_lookup:
  "hoare (on_log ((=) l)) (resolveWorkstreamDetail hb w)
     (\<lambda>r. on_log (\<lambda>l'. \<exists>looked. l' = l @ [Looked (WorkstreamPath w) looked]
        \<and> r = resolve_detail w (map_sum id parseWorkstreamDetailResponse looked))) (\<lambda>_. True)"
  unfolding resolveWorkstreamDetail_def getWorkstream_def hub_get_def
  by (rule hoareI) (auto simp: io_try_def io_simps split: sum.splits prod.splits)

lemma hoare_some_call:
  assumes "\<And>x. r = f x \<Longrightarrow> hoare (on_log ((=) (l @ [g x]))) m Q E"
  shows "hoare (on_log (\<lambda>l'. \<exists>x. l' = l @ [g x] \<and> r = f x)) m Q E"
proof (rule hoareI)
  fix w x w' assume "on_log (\<lambda>l'. \<exists>x. l' = l @ [g x] \<and> r = f x) w" and run: "m w = (Inr x, w')"
  then obtain y where "r = f y" "on_log ((=) (l @ [g y])) w" by auto
  with run show "Q x w'" using assms by (blast dest: hoare_returns)
next
  fix w e w' assume "on_log (\<lambda>l'. \<exists>x. l' = l @ [g x] \<and> r = f x) w" and run: "m w = (Inl e, w')"
  then obtain y where "r = f y" "on_log ((=) (l @ [g y])) w" by auto
  with run show "E w'" using assms by (blast dest: hoare_throws)
qed

lemma edit_workstream_spec:
  assumes "parseEditWorkstreamParams params = Inr p"
  shows "hoare (on_log ((=) l)) (executeEditWorkstream hb params)
     (\<lambda>r. on_log (\<lambda>l'. \<exists>s. l' = l @ s \<and> edit_run p s r)) (\<lambda>_. True)"
proof -
  have rest: "hoare (on_log (\<lambda>l'. \<exists>looked. l' = l @ [Looked (WorkstreamPath (ew_workstream p)) looked]
        \<and> r = resolve_detail (ew_workstream p) (map_sum id parseWorkstreamDetailResponse looked)))
      (edit_resolved hb p r) (\<lambda>r. on_log (\<lambda>l'. \<exists>s. l' = l @ s \<and> edit_run p s r)) (\<lambda>_. True)" for r
    by (rule hoare_some_call) (simp add: edit_resolved_run)
  show ?thesis
    unfolding executeEditWorkstream_def assms sum.case
    by (rule hoare_bind [OF hoare_unlogged], rule hoare_if, rule hoare_return)
       (simp add: edit_run_refused, rule hoare_bind [OF hoare_lookup rest])
qed

text \<open>
  Editing a workstream (\<open>executeEditWorkstream\<close>): with accepted parameters, a run that returns
  either only looked the workstream up and reports an error, or sent one revision of the workstream found, whose label,
  brief and constraints are the changed ones and otherwise those recorded, and it reports an edit
  exactly when the hub answered that it revised it.
\<close>

theorem edit_keeps_what_it_does_not_change:
  assumes "parseEditWorkstreamParams params = Inr p"
    and "executeEditWorkstream hb params \<lparr>tw_host = w, tw_log = []\<rparr> = (Inr r, t)"
  shows "edit_run p (tw_log t) r"
  using hoare_returns [OF edit_workstream_spec [OF assms(1)] _ assms(2), of "[]"] by simp

definition sample_edit :: json where
  "sample_edit = JObj [(''workstream'', JStr '' fair-limber-ferret ''), (''brief'', JStr ''narrower'')]"

definition sample_found :: json where
  "sample_found = JObj [(''id'', JStr ''ws_u1''), (''slug'', JStr ''fair-limber-ferret''), (''label'', JStr ''Fix''),
     (''brief'', JStr ''do it''), (''constraints'', JStr ''no push'')]"

definition sample_edited :: "ws_result result \<times> (nat, hub_event) tworld" where
  "sample_edited = executeEditWorkstream
     (sample_hub (\<lambda>n. JObj [(''status'', JStr ''revised''), (''version'', JNum (IntNum 2))]) (Some sample_found)) sample_edit
     \<lparr>tw_host = 0, tw_log = []\<rparr>"

definition sample_edit_params :: edit_params where
  "sample_edit_params = \<lparr>ew_workstream = ''fair-limber-ferret'', ew_label = None, ew_brief = Some ''narrower'', ew_constraints = None\<rparr>"

lemma sample_edited_facts:
  "parseEditWorkstreamParams sample_edit = Inr sample_edit_params"
  "map (\<lambda>r. case r of Inl e \<Rightarrow> False | Inr x \<Rightarrow> True) [fst sample_edited] = [True]"
  by code_simp+

theorem edit_keeps_what_it_does_not_change_witness:
  "\<exists>r. fst sample_edited = Inr r \<and> edit_run sample_edit_params (tw_log (snd sample_edited)) r"
proof -
  obtain r t where run: "sample_edited = (Inr r, t)"
    using sample_edited_facts(2) by (cases "fst sample_edited") (simp_all add: prod_eq_iff)
  from edit_keeps_what_it_does_not_change [OF sample_edited_facts(1) run [unfolded sample_edited_def]]
  show ?thesis unfolding run by simp
qed

text \<open>
  The lookup over the socket never throws, so an unreachable hub reads as a workstream that does not exist.
\<close>

lemma unreachable_hub_reads_as_not_found:
  assumes "hb_connected hb w = (Inr True, w')" "hb_get hb (WorkstreamPath (ew_workstream p)) w' = (Inr None, w'')"
    and "parseEditWorkstreamParams params = Inr p"
  shows "map_sum id status_of (fst (executeEditWorkstream hb params \<lparr>tw_host = w, tw_log = l\<rparr>)) = Inr (Some (JStr ''not_found''))"
  using assms
  by (simp add: executeEditWorkstream_def resolveWorkstreamDetail_def getWorkstream_def hub_get_def io_try_def io_simps
      parseWorkstreamDetailResponse_def resolve_detail_def edit_resolved_def)

end
