(* ===== verification/WorkstreamLaunch.thy ===== *)
theory WorkstreamLaunch
  imports Workstreams PlanHandoff
begin

text \<open>
  Launching a workstream (\<open>pi/workstreams/launch.ts\<close>, \<open>provision.ts\<close>, \<open>herdr.ts\<close>, \<open>deps.ts\<close>) and the Herdr
  commands it uses (\<open>pi/core/ui/herdr-pane.ts\<close>): the worktree of an existing workstream is created or
  reused under a staged lock, set up, and shown in a pane; what fails after the worktree is there
  is reported in the result.
\<close>

section \<open>Herdr\<close>

datatype herdr_skip = MissingHerdrEnv | MissingSocketPath | MissingPaneId | FromSubagent | Headless | MissingCwd

text \<open>A depth that is not a number is that of a subagent.\<close>

definition agentDepth :: "(string \<Rightarrow> int option) \<Rightarrow> env \<Rightarrow> int" where
  "agentDepth other e = (case e ''BASECAMP_AGENT_DEPTH'' of
     None \<Rightarrow> 0
   | Some raw \<Rightarrow> if trim raw = [] then 0 else (case js_number other raw of Some n \<Rightarrow> n | None \<Rightarrow> 1))"

definition checkHerdrEligibility ::
  "(string \<Rightarrow> int option) \<Rightarrow> env \<Rightarrow> bool option \<Rightarrow> string \<Rightarrow> (herdr_skip \<times> string) option" where
  "checkHerdrEligibility other e hasUI subject =
     (if e ''HERDR_ENV'' \<noteq> Some ''1'' then Some (MissingHerdrEnv, ''not running in Herdr.'')
      else if \<not> truthy_str (e ''HERDR_SOCKET_PATH'') then Some (MissingSocketPath, ''missing Herdr socket path.'')
      else if \<not> truthy_str (e ''HERDR_PANE_ID'') then Some (MissingPaneId, ''missing Herdr pane id.'')
      else if agentDepth other e \<noteq> 0 then Some (FromSubagent, ''only primary sessions can open '' @ subject @ '' in Herdr.'')
      else if hasUI = Some False then Some (Headless, ''session has no UI.'')
      else None)"

datatype 'a herdr_result =
    HerdrOk 'a "string list" exec_result
  | HerdrExit string "string list" exec_result
  | HerdrError string "string list" string

definition herdr_call :: "string list \<Rightarrow> exec_call" where
  "herdr_call args = \<lparr>xc_command = ''herdr'', xc_args = args, xc_cwd = None\<rparr>"

definition runHerdr ::
  "'w platform \<Rightarrow> string list \<Rightarrow> string \<Rightarrow> (string \<Rightarrow> 'a result) \<Rightarrow> ('w, 'a herdr_result) host_io" where
  "runHerdr pf args what parse =
     io_catch
       (io_bind (pexec pf (herdr_call args)) (\<lambda>result.
          if ex_code result \<noteq> 0
          then io_return (HerdrExit (''Herdr '' @ what @ '' failed with exit code '' @ show_int (ex_code result) @ ''.'') args result)
          else io_bind (io_lift (parse (ex_stdout result))) (\<lambda>v. io_return (HerdrOk v args result))))
       (\<lambda>e. io_return (HerdrError (''Herdr '' @ what @ '' failed.'') args e))"

record split_input =
  sp_paneId :: string
  sp_cwd :: string
  sp_env :: "(string \<times> string) list"
  sp_direction :: "string option"
  sp_ratio :: "string option"

text \<open>\<open>json\<close> is \<open>JSON.parse\<close>, which throws on a text that is not JSON; the ratio is given as it prints.\<close>

definition parsePaneTarget :: "(string \<Rightarrow> json result) \<Rightarrow> string \<Rightarrow> (string \<times> string) result" where
  "parsePaneTarget json stdout = rbind (json stdout) (\<lambda>parsed.
     if parsed = JNull then Inl ''Cannot read properties of null (reading 'result')''
     else (let pane = Option.bind (field parsed ''result'') (\<lambda>r. field r ''pane'') in
       case (Option.bind pane (\<lambda>p. field p ''pane_id''), Option.bind pane (\<lambda>p. field p ''tab_id'')) of
         (Some (JStr paneId), Some (JStr tabId)) \<Rightarrow> Inr (paneId, tabId)
       | _ \<Rightarrow> Inl ''Herdr pane split returned no pane id or tab id.''))"

definition split_args :: "split_input \<Rightarrow> string list" where
  "split_args i = [''pane'', ''split'', sp_paneId i, ''--direction'',
       (case sp_direction i of Some d \<Rightarrow> d | None \<Rightarrow> ''right''), ''--ratio'',
       (case sp_ratio i of Some r \<Rightarrow> r | None \<Rightarrow> ''0.5''), ''--cwd'', sp_cwd i, ''--no-focus'']
     @ concat (map (\<lambda>(k, v). [''--env'', k @ ''='' @ v]) (sp_env i))"

definition splitHerdrPane ::
  "(string \<Rightarrow> json result) \<Rightarrow> 'w platform \<Rightarrow> split_input \<Rightarrow> ('w, (string \<times> string) herdr_result) host_io" where
  "splitHerdrPane json pf i = runHerdr pf (split_args i) ''pane split'' (parsePaneTarget json)"

definition pane_run_args :: "string \<Rightarrow> string list \<Rightarrow> string list" where
  "pane_run_args paneId argv = [''pane'', ''run'', paneId] @ map shellQuote argv"

definition runInHerdrPane :: "'w platform \<Rightarrow> string \<Rightarrow> string list \<Rightarrow> ('w, unit herdr_result) host_io" where
  "runInHerdrPane pf paneId argv = runHerdr pf (pane_run_args paneId argv) ''pane run'' (\<lambda>_. Inr ())"

definition closeHerdrPane :: "'w platform \<Rightarrow> string \<Rightarrow> ('w, unit herdr_result) host_io" where
  "closeHerdrPane pf paneId = runHerdr pf [''pane'', ''close'', paneId] ''pane close'' (\<lambda>_. Inr ())"

section \<open>The pane of a workstream\<close>

record herdr_workspace =
  hz_protectedRoot :: "string option"
  hz_repoRoot :: "string option"
  hz_launchCwd :: "string option"
  hz_hasUI :: bool

definition unless_empty :: "string option \<Rightarrow> string option" where
  "unless_empty s = (if truthy_str s then s else None)"

definition workspaceForHerdr :: "workspace_state option \<Rightarrow> bool \<Rightarrow> herdr_workspace" where
  "workspaceForHerdr st hasUI =
     \<lparr>hz_protectedRoot = unless_empty (Option.bind st ws_protectedRoot),
      hz_repoRoot = unless_empty (map_option rp_root (Option.bind st ws_repo)),
      hz_launchCwd = unless_empty (map_option ws_launchCwd st), hz_hasUI = hasUI\<rparr>"

definition workspaceCwd :: "herdr_workspace \<Rightarrow> string option" where
  "workspaceCwd w = nullish_or (hz_protectedRoot w) (nullish_or (hz_repoRoot w) (hz_launchCwd w))"

definition shouldOpenWorkstreamInHerdr ::
  "(string \<Rightarrow> int option) \<Rightarrow> env \<Rightarrow> bool \<Rightarrow> (herdr_skip \<times> string) option" where
  "shouldOpenWorkstreamInHerdr other e hasUI =
     map_option (\<lambda>(reason, detail). (reason, ''Herdr workstream open skipped: '' @ detail))
       (checkHerdrEligibility other e (Some hasUI) ''workstreams'')"

definition open_args :: "string list \<Rightarrow> string \<Rightarrow> string \<Rightarrow> string list" where
  "open_args place path label =
     [''worktree'', ''open''] @ place @ [''--path'', path, ''--label'', label, ''--no-focus'', ''--json'']"

definition buildHerdrWorkstreamOpenArgs ::
  "(string \<Rightarrow> int option) \<Rightarrow> herdr_workspace \<Rightarrow> string \<Rightarrow> string \<Rightarrow> env \<Rightarrow> (herdr_skip \<times> string) + string list" where
  "buildHerdrWorkstreamOpenArgs other w path label e = (case shouldOpenWorkstreamInHerdr other e (hz_hasUI w) of
     Some refused \<Rightarrow> Inl refused
   | None \<Rightarrow>
       if truthy_str (e ''HERDR_WORKSPACE_ID'') then Inr (open_args [''--workspace'', the (e ''HERDR_WORKSPACE_ID'')] path label)
       else if \<not> truthy_str (workspaceCwd w) then Inl (MissingCwd, ''Herdr workstream open skipped: missing workspace cwd.'')
       else Inr (open_args [''--cwd'', the (workspaceCwd w)] path label))"

datatype herdr_open =
    HerdrOpened "string list" exec_result
  | HerdrSkipped herdr_skip string
  | HerdrFailed string "string list" "exec_result option" "string option"

definition mapHerdrCommandResult :: "unit herdr_result \<Rightarrow> herdr_open" where
  "mapHerdrCommandResult r = (case r of
     HerdrOk _ args x \<Rightarrow> HerdrOpened args x
   | HerdrExit m args x \<Rightarrow> HerdrFailed m args (Some x) None
   | HerdrError m args e \<Rightarrow> HerdrFailed m args None (Some e))"

definition openWorkstreamInHerdr ::
  "'w session_host \<Rightarrow> herdr_workspace \<Rightarrow> string \<Rightarrow> string \<Rightarrow> env \<Rightarrow> ('w, herdr_open) host_io" where
  "openWorkstreamInHerdr h w path label e = (case buildHerdrWorkstreamOpenArgs (sh_number h) w path label e of
     Inl (reason, message) \<Rightarrow> io_return (HerdrSkipped reason message)
   | Inr args \<Rightarrow> io_bind (runHerdr (sh_platform h) args ''workstream open'' (\<lambda>_. Inr ())) (\<lambda>r.
       io_return (mapHerdrCommandResult r)))"

section \<open>Provisioning\<close>

definition workstreamLaunchCommand :: "string \<Rightarrow> string" where
  "workstreamLaunchCommand slug = ''pi --workstream='' @ slug"

definition workstreamLaunchCommandFromPath :: "string \<Rightarrow> string \<Rightarrow> string" where
  "workstreamLaunchCommandFromPath path slug = ''cd '' @ shellQuote path @ '' && '' @ workstreamLaunchCommand slug"

text \<open>A worktree with the failure to stage its lock, or the failure to provision it.\<close>

definition stage_lock :: "'w session_host \<Rightarrow> string \<Rightarrow> string \<Rightarrow> ('w, string option) ws_io" where
  "stage_lock h repoRoot worktreeDir =
     io_catch
       (io_bind (clock h) (\<lambda>now.
        io_bind (on_host (stageWorktreeLock (sh_legacy h) (sh_platform h) repoRoot worktreeDir now)) (\<lambda>_. io_return None)))
       (\<lambda>e. io_return (Some e))"

definition provisionWorkstreamWorktree ::
  "'w session_host \<Rightarrow> string \<Rightarrow> string \<Rightarrow> string \<Rightarrow> string option \<Rightarrow> ('w, (worktree_result \<times> string option) result) ws_io" where
  "provisionWorkstreamWorktree h repoRoot repo worktreeLabel branch =
     io_bind (io_try (io_bind (clock h) (\<lambda>now.
         on_host (getOrCreateWorktree (sh_platform h) repoRoot repo worktreeLabel branch (Some (stagedLockReason now)))))) (\<lambda>made.
     case made of
       Inl e \<Rightarrow> io_return (Inl e)
     | Inr worktree \<Rightarrow> io_bind (stage_lock h repoRoot (wo_worktreeDir worktree)) (\<lambda>stagingError. io_return (Inr (worktree, stagingError))))"

datatype launch_setup = SetupSkipped string | SetupRan setup_result | SetupThrew string

definition runSetup :: "'w session_host \<Rightarrow> string \<Rightarrow> string \<Rightarrow> worktree_result \<Rightarrow> ('w, launch_setup) ws_io" where
  "runSetup h repoRoot repo worktree = (let setupCommand = sh_setup h repo in
     if \<not> shouldRunWorktreeSetup (wo_created worktree) setupCommand
     then io_return (SetupSkipped (if truthy_str setupCommand
       then ''Worktree setup skipped because the worktree was not newly created.''
       else ''Worktree setup skipped because no setup command is configured.''))
     else io_catch
       (io_bind (runWorktreeSetup h (the setupCommand) (wo_worktreeDir worktree) repoRoot) (\<lambda>r. io_return (SetupRan r)))
       (\<lambda>e. io_return (SetupThrew (''Worktree setup threw an error; continuing. ('' @ e @ '')''))))"

definition openHerdr :: "'w session_host \<Rightarrow> workspace_state option \<Rightarrow> bool \<Rightarrow> worktree_result \<Rightarrow> ('w, herdr_open) ws_io" where
  "openHerdr h st hasUI worktree = io_bind (gets sv_env) (\<lambda>e.
     on_host (openWorkstreamInHerdr h (workspaceForHerdr st hasUI) (wo_worktreeDir worktree) (wo_label worktree) e))"

definition buildNextStep :: "herdr_open \<Rightarrow> worktree_result \<Rightarrow> string \<Rightarrow> string" where
  "buildNextStep herdr worktree slug = (let pathCommand = workstreamLaunchCommandFromPath (wo_worktreeDir worktree) slug in
     case herdr of
       HerdrOpened _ _ \<Rightarrow> ''Herdr opened a pane for worktree '' @ wo_label worktree @ ''. In that pane, run `''
         @ workstreamLaunchCommand slug @ ''`.''
     | HerdrSkipped _ m \<Rightarrow> ''Worktree '' @ wo_label worktree @ '' is ready, but no Herdr pane was opened ('' @ m @ ''). Run `''
         @ pathCommand @ ''`.''
     | HerdrFailed m _ _ _ \<Rightarrow> ''Worktree '' @ wo_label worktree @ '' is ready, but the Herdr pane failed to open ('' @ m @ ''). Run `''
         @ pathCommand @ ''`.'')"

section \<open>The launch\<close>

record launch_details =
  ld_message :: string
  ld_id :: "string option"
  ld_slug :: string
  ld_worktree :: worktree_result
  ld_setup :: launch_setup
  ld_herdr :: herdr_open
  ld_next_step :: string

datatype launch_result = LaunchFailed string string | Launched launch_details

text \<open>The lookup of the workstream, in the world of the workspace.\<close>

definition with_hub :: "('w, 'a) hub_io \<Rightarrow> ('w, 'a) ws_io" where
  "with_hub m = on_host (untraced (\<lambda>w. case m \<lparr>tw_host = w, tw_log = []\<rparr> of (r, u) \<Rightarrow> (r, tw_host u)))"

definition branchCollision :: "worktree_target \<Rightarrow> session_worktree list \<Rightarrow> bool" where
  "branchCollision target existing \<longleftrightarrow> wt_branchName target \<noteq> []
     \<and> list_ex (\<lambda>w. wt_branch w = Some (wt_branchName target) \<and> wt_label w \<noteq> wt_worktreeLabel target) existing"

text \<open>The dash of the warning is a long one in the source.\<close>

definition staging_warning :: "string option \<Rightarrow> string" where
  "staging_warning e = (if \<not> truthy_str e then []
     else '' Warning: the staged lock could not be taken ('' @ the e @
       '') - the worktree is unprotected and the session-start sweep may reclaim it; re-run launch_workstream to re-stage.'')"

definition launch_details_of ::
  "repo_context \<Rightarrow> ws_detail \<Rightarrow> string \<Rightarrow> worktree_result \<Rightarrow> string option \<Rightarrow> launch_setup \<Rightarrow> herdr_open \<Rightarrow> launch_details" where
  "launch_details_of repo d slug worktree stagingError setup herdr =
     \<lparr>ld_message = ''Workstream '' @ quoted (case su_label (wd_summary d) of Some l \<Rightarrow> l | None \<Rightarrow> slug) @ '' launched in ''
        @ rp_name repo @ ''.'' @ staging_warning stagingError,
      ld_id = su_id (wd_summary d), ld_slug = slug, ld_worktree = worktree, ld_setup = setup, ld_herdr = herdr,
      ld_next_step = buildNextStep herdr worktree slug\<rparr>"

text \<open>What follows the worktree.\<close>

definition launch_in ::
  "'w session_host \<Rightarrow> workspace_state option \<Rightarrow> bool \<Rightarrow> repo_context \<Rightarrow> ws_detail \<Rightarrow> string \<Rightarrow> worktree_result \<Rightarrow> string option
   \<Rightarrow> ('w, launch_result) ws_io" where
  "launch_in h st hasUI repo d slug worktree stagingError =
     io_bind (runSetup h (rp_root repo) (rp_name repo) worktree) (\<lambda>summary.
     io_bind (openHerdr h st hasUI worktree) (\<lambda>herdr.
     io_return (Launched (launch_details_of repo d slug worktree stagingError summary herdr))))"

definition launch_resolved ::
  "(string \<Rightarrow> string \<Rightarrow> bool) \<Rightarrow> 'w session_host \<Rightarrow> workspace_state option \<Rightarrow> bool \<Rightarrow> string \<Rightarrow> repo_context \<Rightarrow> launch_params
   \<Rightarrow> ws_detail \<Rightarrow> string \<Rightarrow> ('w, launch_result) ws_io" where
  "launch_resolved labelLe h st hasUI userId repo p d slug = (let target = copilotWorktreeTarget
         (case nullish_or (lw_worktreeSlug p) (su_label (wd_summary d)) of Some n \<Rightarrow> n | None \<Rightarrow> slug) slug userId in
     io_bind (io_try (listWorkspaceWorktrees labelLe h)) (\<lambda>listed. case listed of
       Inl e \<Rightarrow> io_return (LaunchFailed (''Could not list existing worktrees: '' @ e)
         ''Fix worktree listing for this repository, then call launch_workstream again.'')
     | Inr existing \<Rightarrow>
         if branchCollision target existing
         then io_return (LaunchFailed (''The branch '' @ wt_branchName target @ '' is already checked out in another worktree for this repo.'')
           ''Call launch_workstream again with a distinct worktreeSlug so the initial branch name is not already checked out.'')
         else io_bind (provisionWorkstreamWorktree h (rp_root repo) (rp_name repo) (wt_worktreeLabel target) (Some (wt_branchName target)))
           (\<lambda>made. case made of
             Inl e \<Rightarrow> if e = [] then launch_in h st hasUI repo d slug
                 \<lparr>wo_worktreeDir = [], wo_label = wt_worktreeLabel target, wo_branch = wt_branchName target, wo_created = False\<rparr> None
               else io_return (LaunchFailed (''Failed to provision worktree '' @ wt_worktreeLabel target @ '': '' @ e)
                 ''Fix worktree provisioning, then retry launch_workstream with the same workstream identifier.'')
           | Inr (worktree, stagingError) \<Rightarrow> launch_in h st hasUI repo d slug worktree stagingError)))"

definition launch_repo :: "workspace_state option \<Rightarrow> repo_context option" where
  "launch_repo st = (case Option.bind st ws_repo of
     None \<Rightarrow> None | Some repo \<Rightarrow> if rp_isRepo repo \<and> rp_root repo \<noteq> [] then Some repo else None)"

definition executeLaunchWorkstream ::
  "(string \<Rightarrow> string \<Rightarrow> bool) \<Rightarrow> 'w session_host \<Rightarrow> 'w hub_client \<Rightarrow> bool \<Rightarrow> string \<Rightarrow> json \<Rightarrow> ('w, launch_result) ws_io" where
  "executeLaunchWorkstream labelLe h hb hasUI userId params = (case parseLaunchWorkstreamParams params of
     Inl message \<Rightarrow> io_return (LaunchFailed message ''Call launch_workstream again with a workstream id or slug.'')
   | Inr p \<Rightarrow> io_bind (gets sv_state) (\<lambda>st. case launch_repo st of
       None \<Rightarrow> io_return (LaunchFailed ''launch_workstream requires a current git repository workspace.''
         ''Open a repository-backed Basecamp workspace, then call launch_workstream again.'')
     | Some repo \<Rightarrow> io_bind (with_hub (resolveWorkstreamDetail hb (lw_workstream p))) (\<lambda>resolved. case resolved of
         LookupFailed e \<Rightarrow> io_return (LaunchFailed (''Could not resolve workstream '' @ quoted (lw_workstream p) @ '': '' @ e)
           ''Check the workstream id or slug with list_workstreams, then call launch_workstream again.'')
       | NoSuchWorkstream message \<Rightarrow> io_return (LaunchFailed message
           ''Create it first with create_workstream, then call launch_workstream with its id or slug.'')
       | Resolved d slug \<Rightarrow> launch_resolved labelLe h st hasUI userId repo p d slug)))"

section \<open>What a launch leaves behind\<close>

definition adds_worktree :: "exec_call \<Rightarrow> bool" where
  "adds_worktree c \<longleftrightarrow> git_verb c = [''worktree'', ''add'']"

text \<open>The command takes the staged lock with the worktree it creates.\<close>

definition staged_add :: "exec_call \<Rightarrow> bool" where
  "staged_add c \<longleftrightarrow> adds_worktree c \<and> (\<exists>now. take 3 (drop 4 (xc_args c)) = [''--lock'', ''--reason'', stagedLockReason now])"

definition created_one :: "host_event list \<Rightarrow> bool" where
  "created_one l \<longleftrightarrow> (\<exists>c x. EvExec c (Inr x) \<in> set l \<and> adds_worktree c \<and> ex_code x = 0)"

definition launching :: "bool \<Rightarrow> host_event list \<Rightarrow> bool" where
  "launching made l \<longleftrightarrow> guarded (\<lambda>c. adds_worktree c \<or> destructive c) (\<lambda>_. staged_add) l \<and> created_one l = made"

lemma created_snoc [simp]:
  "created_one (l @ [EvExec c r]) \<longleftrightarrow> created_one l \<or> adds_worktree c \<and> (case r of Inl e \<Rightarrow> False | Inr x \<Rightarrow> ex_code x = 0)"
  "created_one (l @ [EvMkdir p]) = created_one l" "created_one (l @ [EvRm p]) = created_one l"
  "created_one (l @ [EvRmdir p]) = created_one l" "\<not> created_one []"
  by (auto simp: created_one_def split: sum.splits)

lemma launching_keeps: "\<not> adds_worktree c \<Longrightarrow> \<not> destructive c \<Longrightarrow> keeps (launching made) c"
  by (simp add: keeps_def launching_def)

lemma launching_writes: "keeps_writes (launching made)"
  by (simp add: keeps_writes_def launching_def)

lemma launching_mild: "mild (launching made)"
  by (auto simp: mild_def keeps_git_def launching_writes changing_verbs_def adds_worktree_def destructive_def intro!: launching_keeps)

lemma stable_stage: "stable (launching made) (stageWorktreeLock legacy pf repoRoot d now)"
  unfolding stageWorktreeLock_def unlockWorktree_def lockWorktree_def Let_def
  by (auto intro!: stable_intros launching_mild launching_keeps simp: adds_worktree_def destructive_def)

lemma stable_protected: "stable (launching made) (validateProtectedCheckout pf repoRoot)"
  unfolding validateProtectedCheckout_def
  by (auto intro!: stable_intros launching_mild simp: verb_simps)

text \<open>The creation of the worktree: what was created is said to be created, and nothing was if it throws.\<close>

lemma hoare_stable_bind:
  assumes "stable I m" "\<And>x. hoare (on_log I) (k x) Q (on_log I)"
  shows "hoare (on_log I) (io_bind m k) Q (on_log I)"
  using assms by (intro hoare_bind [where R = "\<lambda>_. on_log I"]) (simp_all add: stable_def)

lemma hoare_on_option:
  "(x = None \<Longrightarrow> hoare P m Q E) \<Longrightarrow> (\<And>y. x = Some y \<Longrightarrow> hoare P (f y) Q E) \<Longrightarrow>
   hoare P (case x of None \<Rightarrow> m | Some y \<Rightarrow> f y) Q E"
  by (cases x) simp_all

lemma hoare_run_add:
  assumes "staged_add c" "wo_created wt"
  shows "hoare (on_log (launching False)) (io_bind (pexec pf c) (\<lambda>result.
      if ex_code result \<noteq> 0 then io_throw (m result) else io_return wt))
    (\<lambda>wt. on_log (launching (wo_created wt))) (on_log (launching False))"
  unfolding pexec_def
  by (rule hoare_bind [OF hoare_traced [where Q = "\<lambda>x. launching (ex_code x = 0)"]])
     (use assms in \<open>auto simp: launching_def staged_add_def intro!: hoare_if hoare_throw hoare_return\<close>)

lemma getOrCreate_launching:
  "hoare (on_log (launching False)) (getOrCreateWorktree pf repoRoot repo label b (Some (stagedLockReason now)))
     (\<lambda>wt. on_log (launching (wo_created wt))) (on_log (launching False))"
proof -
  note steps = stable_lift stable_protected stable_validateNoSymlinked stable_records [OF launching_mild] stable_reads
    stable_writes [OF launching_writes] stable_queries(2) [OF launching_mild]
  have reason: "truthy_str (Some (stagedLockReason now))"
    by (simp add: truthy_str_def stagedLockReason_def STAGED_LOCK_REASON_PREFIX_def)
  have staged: "staged_add (git_call ([''-C'', repoRoot, ''worktree'', ''add''] @ [''--lock'', ''--reason'', stagedLockReason now] @ rest))" for rest
    by (auto simp: staged_add_def adds_worktree_def git_call_def git_verb_def)
  have create: "hoare (on_log (launching False)) (io_bind (pexec pf (git_call (if known
             then [''-C'', repoRoot, ''worktree'', ''add''] @ [''--lock'', ''--reason'', stagedLockReason now] @ [d, branch]
             else [''-C'', repoRoot, ''worktree'', ''add''] @ [''--lock'', ''--reason'', stagedLockReason now] @ [''-b'', branch, d, e])))
        (\<lambda>result. if ex_code result \<noteq> 0 then io_throw (''Failed to create worktree: '' @ ex_stderr result)
             else io_return \<lparr>wo_worktreeDir = d, wo_label = label, wo_branch = branch, wo_created = True\<rparr>))
      (\<lambda>wt. on_log (launching (wo_created wt))) (on_log (launching False))" for known d branch e
    using staged [of "[d, branch]"] staged [of "[''-b'', branch, d, e]"] by (intro hoare_run_add) simp_all
  show ?thesis
    unfolding getOrCreateWorktree_def Let_def if_P [OF reason] option.sel
    by (rule create | rule hoare_stable_bind, rule steps | rule hoare_on_option | rule hoare_if
        | rule hoare_throw, assumption | rule hoare_return, simp)+
qed

section \<open>A launch protects and reports what it creates\<close>

text \<open>The result of a launch, given whether a worktree was created.\<close>

fun reports_created :: "launch_result \<Rightarrow> bool" where
  "reports_created (Launched d) = wo_created (ld_worktree d)"
| "reports_created (LaunchFailed m n) = False"

lemma wkeeps_launching [wkeeps_intros]: "(stable (launching made) m) \<Longrightarrow> wkeeps (\<lambda>l s. launching made l) (on_host m)"
  by (rule wkeeps_on_host)

lemma stable_runHerdr: "stable (launching made) (runHerdr pf args what parse)"
  unfolding runHerdr_def
  by (auto intro!: stable_intros launching_keeps simp: adds_worktree_def destructive_def git_verb_def herdr_call_def)

lemma wkeeps_after:
  "wkeeps (\<lambda>l s. launching made l) (stage_lock h repoRoot d)"
  "wkeeps (\<lambda>l s. launching made l) (runSetup h repoRoot repo wt)"
  "wkeeps (\<lambda>l s. launching made l) (openHerdr h st hasUI wt)"
  unfolding stage_lock_def runSetup_def openHerdr_def runWorktreeSetup_def openWorkstreamInHerdr_def Let_def
  by (auto intro!: wkeeps_intros stable_intros stable_stage stable_runHerdr split: sum.split prod.split)

text \<open>None of the steps after the creation throws.\<close>

definition returns :: "('w, 'a) io \<Rightarrow> bool" where
  "returns m \<longleftrightarrow> (\<forall>w. \<exists>x w'. m w = (Inr x, w'))"

lemma returns_catch: "(\<And>e. returns (k e)) \<Longrightarrow> returns (io_catch m k)"
  unfolding returns_def io_catch_def by (auto split: sum.splits prod.splits)

lemma returns_basic: "returns (io_return x)" "returns (gets f)" "returns (io_try m)"
  by (auto simp: returns_def io_simps gets_def io_try_def split: sum.splits prod.splits)

lemma returns_bind: "returns m \<Longrightarrow> (\<And>x. returns (k x)) \<Longrightarrow> returns (io_bind m k)"
  unfolding returns_def io_bind_def by (auto split: sum.splits prod.splits) (metis Inl_Inr_False prod.inject)

lemma returns_on_host: "returns m \<Longrightarrow> returns (on_host m)"
  by (auto simp: returns_def on_host_def split: prod.splits) (metis prod.inject)

lemma returns_after:
  "returns (stage_lock h repoRoot d)" "returns (runSetup h repoRoot repo wt)" "returns (openHerdr h st hasUI wt)"
  unfolding stage_lock_def runSetup_def openHerdr_def openWorkstreamInHerdr_def runHerdr_def Let_def
  by (auto intro!: returns_catch returns_basic returns_bind returns_on_host split: sum.split prod.split)

lemma hoare_after:
  assumes "wkeeps P m" "returns m"
  shows "hoare (holds P) m (\<lambda>_. holds P) E"
proof (rule hoareI)
  fix w e w' assume "m w = (Inl e, w')"
  then show "E w'" using assms(2) unfolding returns_def by (metis Inl_Inr_False prod.inject)
next
  fix w x w' assume "holds P w" "m w = (Inr x, w')"
  then show "holds P w'" using assms(1) unfolding wkeeps_def by (blast dest: hoare_returns)
qed

lemma hoare_launch_in:
  assumes "made = wo_created wt"
  shows "hoare (holds (\<lambda>l s. launching made l)) (launch_in h st hasUI repo d slug wt stagingError)
     (\<lambda>r. holds (\<lambda>l s. launching (reports_created r) l)) E"
  unfolding launch_in_def
  by (rule hoare_bind, rule hoare_after [OF wkeeps_after(2) returns_after(2)],
      rule hoare_bind, rule hoare_after [OF wkeeps_after(3) returns_after(3)], rule hoare_return)
     (simp add: launch_details_of_def assms)

lemma hoare_provision_workstream:
  "hoare (holds (\<lambda>l s. launching False l)) (provisionWorkstreamWorktree h repoRoot repo label b)
     (\<lambda>made. holds (\<lambda>l s. launching (case made of Inl e \<Rightarrow> False | Inr (wt, e) \<Rightarrow> wo_created wt) l)) E"
proof -
  have host: "hoare (holds (\<lambda>l s. launching False l)) (on_host (getOrCreateWorktree pf repoRoot repo label b (Some (stagedLockReason now))))
      (\<lambda>wt. holds (\<lambda>l s. launching (wo_created wt) l)) (holds (\<lambda>l s. launching False l))" for pf now
    using getOrCreate_launching [of pf repoRoot repo label b now]
    by (auto simp: hoare_def on_host_def holds_def split: prod.splits sum.splits) (metis prod.inject)+
  have created: "hoare (holds (\<lambda>l s. launching False l)) (io_try (io_bind (clock h) (\<lambda>now.
         on_host (getOrCreateWorktree (sh_platform h) repoRoot repo label b (Some (stagedLockReason now))))))
      (\<lambda>r. case r of Inl e \<Rightarrow> holds (\<lambda>l s. launching False l) | Inr wt \<Rightarrow> holds (\<lambda>l s. launching (wo_created wt) l)) E"
    by (rule hoare_try, rule hoare_bind [OF wkeeps_clock [unfolded wkeeps_def] host])
  have staged: "hoare (holds (\<lambda>l s. launching (wo_created wt) l)) (io_bind (stage_lock h repoRoot d) (\<lambda>e. io_return (Inr (wt, e))))
      (\<lambda>made. holds (\<lambda>l s. launching (case made of Inl e \<Rightarrow> False | Inr (wt, e) \<Rightarrow> wo_created wt) l)) E" for wt d
    by (rule hoare_bind, rule hoare_after [OF wkeeps_after(1) returns_after(1)], rule hoare_return) simp
  show ?thesis
    unfolding provisionWorkstreamWorktree_def
    by (rule hoare_bind [OF created]) (auto intro: staged hoare_return split: sum.split)
qed

lemma wkeeps_list: "wkeeps (\<lambda>l s. launching made l) (listWorkspaceWorktrees labelLe h)"
proof -
  have "stable (launching made) (summary_of pf name rec)" for pf :: "'a platform" and name rec
    unfolding summary_of_def by (auto intro!: stable_intros)
  then show ?thesis
    unfolding listWorkspaceWorktrees_def listWorktrees_def require_def require_repo_def
    by (auto intro!: wkeeps_intros stable_intros launching_mild)
qed

lemma hoare_launch_resolved:
  "hoare (holds (\<lambda>l s. launching False l)) (launch_resolved labelLe h st hasUI userId repo p d slug)
     (\<lambda>r. holds (\<lambda>l s. launching (reports_created r) l)) E"
proof -
  have failed: "hoare (holds (\<lambda>l s. launching False l)) (io_return (LaunchFailed m n)) (\<lambda>r. holds (\<lambda>l s. launching (reports_created r) l)) E"
    for m n by (rule hoare_return) simp
  have listed: "hoare (holds (\<lambda>l s. launching False l)) (io_try (listWorkspaceWorktrees labelLe h)) (\<lambda>_. holds (\<lambda>l s. launching False l)) E"
    by (rule hoare_weaken [OF hoare_try [OF wkeeps_list [unfolded wkeeps_def]]]) (auto split: sum.splits)
  show ?thesis
    unfolding launch_resolved_def Let_def
    by (rule hoare_bind [OF listed]) (auto intro!: failed hoare_bind [OF hoare_provision_workstream] hoare_launch_in split: sum.split)
qed

lemma hoare_with_hub:
  "hoare (holds P) (with_hub (resolveWorkstreamDetail hb i)) (\<lambda>_. holds P) E"
proof (rule hoare_after)
  show "wkeeps P (with_hub (resolveWorkstreamDetail hb i))"
    unfolding with_hub_def by (intro wkeeps_intros stable_intros)
  show "returns (with_hub (resolveWorkstreamDetail hb i))"
    unfolding with_hub_def resolveWorkstreamDetail_def returns_def on_host_def
    by (auto simp: io_simps io_try_def split: prod.splits sum.splits)
qed

lemma hoare_executeLaunch:
  "hoare (holds (\<lambda>l s. launching False l)) (executeLaunchWorkstream labelLe h hb hasUI userId params)
     (\<lambda>r. holds (\<lambda>l s. launching (reports_created r) l)) (\<lambda>_. False)"
proof -
  have failed: "hoare (holds (\<lambda>l s. launching False l)) (io_return (LaunchFailed m n)) (\<lambda>r. holds (\<lambda>l s. launching (reports_created r) l)) (\<lambda>_. False)"
    for m n by (rule hoare_return) simp
  have resolved: "hoare (holds (\<lambda>l s. launching False l)) (io_bind (with_hub (resolveWorkstreamDetail hb i)) (\<lambda>resolved. case resolved of
         LookupFailed e \<Rightarrow> io_return (LaunchFailed (m e) n)
       | NoSuchWorkstream message \<Rightarrow> io_return (LaunchFailed message n')
       | Resolved d slug \<Rightarrow> launch_resolved labelLe h st hasUI userId repo p d slug))
     (\<lambda>r. holds (\<lambda>l s. launching (reports_created r) l)) (\<lambda>_. False)" for i m n n' st repo p
    by (rule hoare_bind [OF hoare_with_hub]) (auto intro!: failed hoare_launch_resolved split: resolve_result.split)
  have read: "hoare (holds (\<lambda>l s. launching False l)) (gets sv_state) (\<lambda>_. holds (\<lambda>l s. launching False l)) (\<lambda>_. False)"
    by (rule hoare_after [OF wkeeps_gets returns_basic(2)])
  show ?thesis
    unfolding executeLaunchWorkstream_def
    by (auto intro!: failed hoare_bind [OF read] resolved split: sum.split option.split)
qed

text \<open>
  C19. A launch protects what it creates and reports it. Whatever the hub, git, the file system, the setup command and
  Herdr do, \<open>executeLaunchWorkstream\<close> returns; it removes and moves no worktree and deletes no branch; every
  worktree it creates is created by a command that takes the staged lock with it, so that no sweep
  sees it unlocked; and its result is a launch of a new worktree exactly when one of these commands
  succeeded, even when the lock, the setup or the pane fails afterwards.
\<close>

theorem launch_protects_and_reports:
  "\<exists>r t s'. executeLaunchWorkstream labelLe h hb hasUI userId params (\<lparr>tw_host = w, tw_log = []\<rparr>, s) = (Inr r, (t, s'))
     \<and> guarded (\<lambda>c. adds_worktree c \<or> destructive c) (\<lambda>_. staged_add) (tw_log t)
     \<and> reports_created r = created_one (tw_log t)"
proof -
  let ?run = "executeLaunchWorkstream labelLe h hb hasUI userId params (\<lparr>tw_host = w, tw_log = []\<rparr>, s)"
  have start: "holds (\<lambda>l s. launching False l) (\<lparr>tw_host = w, tw_log = []\<rparr>, s)" by (simp add: launching_def)
  obtain r t s' where run: "?run = (r, (t, s'))" by (cases ?run) auto
  then have "r \<noteq> Inl e" for e using hoare_throws [OF hoare_executeLaunch start] by metis
  then obtain x where x: "r = Inr x" by (cases r) auto
  have "launching (reports_created x) (tw_log t)" using hoare_returns [OF hoare_executeLaunch start] run x by fastforce
  then show ?thesis using run x by (auto simp: launching_def)
qed

end
