(* ===== verification/WorkstreamStart.thy ===== *)
theory WorkstreamStart
  imports Workstreams Workspace AgentMode
begin

text \<open>
  Starting a session on a workstream (\<open>pi/workstreams/start.ts\<close>, \<open>brief.ts\<close>): which workstream the session is
  for, attaching the session to it, and the brief sent as the first user message, once per session.
  The calls on the hub, the notices and the messages are recorded in order.
\<close>

section \<open>The brief\<close>

record brief_input =
  bi_dossierPath :: string
  bi_repoPagePath :: "string option"
  bi_label :: string
  bi_brief :: string
  bi_constraints :: "string option"
  bi_worktreeLabel :: string
  bi_worktreePath :: string
  bi_branch :: "string option"

definition metadataLines :: "brief_input \<Rightarrow> string list" where
  "metadataLines i = [''- Workstream label: '' @ bi_label i]"

definition sourceLines :: "brief_input \<Rightarrow> string list" where
  "sourceLines i = [''- Dossier: '' @ bi_dossierPath i]
     @ (if truthy_string (bi_repoPagePath i) then [''- Repo cockpit: '' @ the (bi_repoPagePath i)] else [])"

definition text_lines :: "string list \<Rightarrow> string" where
  "text_lines ls = join [CHR 0x0A] ls"

definition brief_sections :: "brief_input \<Rightarrow> string list" where
  "brief_sections i = (let constraints = map_option trim (bi_constraints i);
       contextReference = (if truthy_string (bi_repoPagePath i) then ''the dossier and repo cockpit'' else ''the dossier'') in
     [text_lines [''# Herdr workstream launch brief'', [], ''You are the user-facing Herdr workstream surface for this launched workstream.''],
      text_lines (''## Launch context'' # metadataLines i),
      text_lines [''## Assigned worktree'', ''- Worktree label: '' @ bi_worktreeLabel i, ''- Worktree path: '' @ bi_worktreePath i,
        ''- Branch: '' @ (case bi_branch i of Some b \<Rightarrow> b | None \<Rightarrow> ''detached''), [],
        ''Work only in the assigned worktree. Do not edit the protected checkout or any other worktree.'',
        ''The worktree has a generic name and is a reusable container, not tied to one branch. Your starting branch reflects the current work; for distinct pieces of work, create additional branches off it using the same prefix as your current branch.''],
      text_lines ([''## Source context''] @ sourceLines i
        @ [[], ''Read '' @ contextReference @ '' as context when useful; you do not need to exhaustively reread them before every step.'']),
      text_lines [''## Workstream brief'', bi_brief i]]
     @ (if truthy_string constraints then [text_lines [''## Constraints'', the constraints]] else [])
     @ [text_lines [''## Operating guidance'',
        ''- Treat this brief as intentionally stretchable: when it is broad, decompose it, prioritize the most valuable path, and execute an appropriately sized slice; when it is specific, execute that agreed slice directly.'',
        ''- You may use subagents for smaller bounded tasks when that helps investigation, implementation, or review.'',
        ''- Do not write Logseq directly.'',
        ''- Do not push, create PRs, or merge unless explicitly asked.'',
        ''- Do not broadcast status outside this Herdr workstream; keep findings, changes, validation, and blocker context easy to summarize when asked.'']])"

definition buildWorkstreamLaunchBrief :: "brief_input \<Rightarrow> string" where
  "buildWorkstreamLaunchBrief i = join [CHR 0x0A, CHR 0x0A] (brief_sections i) @ [CHR 0x0A]"

definition or_else :: "string option \<Rightarrow> string \<Rightarrow> string" where
  "or_else v d = (case v of Some x \<Rightarrow> x | None \<Rightarrow> d)"

definition buildStartBrief :: "ws_detail \<Rightarrow> session_worktree \<Rightarrow> string" where
  "buildStartBrief d w = (let s = wd_summary d in buildWorkstreamLaunchBrief
     \<lparr>bi_dossierPath = or_else (su_source_dossier_path s) ''(dossier path not recorded)'',
      bi_repoPagePath = su_source_repo_page_path s, bi_label = or_else (nullish_or (su_label s) (su_slug s)) ''(untitled)'',
      bi_brief = or_else (su_brief s) ''(no brief recorded)'', bi_constraints = su_constraints s,
      bi_worktreeLabel = wt_label w, bi_worktreePath = wt_path w, bi_branch = wt_branch w\<rparr>)"

section \<open>The start\<close>

datatype start_event = Hub hub_event | Told string string | Sent string

type_synonym ('w, 'a) start_io = "(('w, start_event) tworld, 'a) io"

definition in_start :: "('w, 'a) hub_io \<Rightarrow> ('w, 'a) start_io" where
  "in_start m = (\<lambda>t. case m \<lparr>tw_host = tw_host t, tw_log = []\<rparr> of (r, u) \<Rightarrow>
     (r, \<lparr>tw_host = tw_host u, tw_log = tw_log t @ map Hub (tw_log u)\<rparr>))"

definition say :: "string \<Rightarrow> string \<Rightarrow> ('w, unit) start_io" where
  "say message level = traced (io_return ()) (\<lambda>_. Told message level)"

definition sendUserMessage :: "string \<Rightarrow> ('w, unit) start_io" where
  "sendUserMessage message = traced (io_return ()) (\<lambda>_. Sent message)"

text \<open>
  An entry of the session is a turn of the user or the assistant.
\<close>

definition is_turn :: "json \<Rightarrow> bool" where
  "is_turn entry \<longleftrightarrow> field entry ''type'' = Some (JStr ''message'')
     \<and> Option.bind (field entry ''message'') (\<lambda>m. field m ''role'') \<in> {Some (JStr ''user''), Some (JStr ''assistant'')}"

definition sessionHasPriorTurns :: "json list \<Rightarrow> bool" where
  "sessionHasPriorTurns entries = list_ex is_turn entries"

text \<open>
  The wait: the workspace there is, else the first one set before the time is up, else the one there is then.
\<close>

definition waitForWorkspaceState ::
  "workspace_state option \<Rightarrow> workspace_state option list \<Rightarrow> workspace_state option \<Rightarrow> workspace_state option" where
  "waitForWorkspaceState current changes at_timeout = (case current of
     Some st \<Rightarrow> Some st
   | None \<Rightarrow> (case find (\<lambda>st. st \<noteq> None) changes of Some st \<Rightarrow> st | None \<Rightarrow> at_timeout))"

definition COPILOT_WORKTREE_PREFIX :: string where "COPILOT_WORKTREE_PREFIX = ''copilot/''"

definition inferSlugFromWorktreeLabel :: "string \<Rightarrow> string option" where
  "inferSlugFromWorktreeLabel label =
     (if \<not> startsWith label COPILOT_WORKTREE_PREFIX then None
      else (let slug = slice_from label (length COPILOT_WORKTREE_PREFIX) in if slug = [] then None else Some slug))"

text \<open>The value of the flag, from the command line; a dot of the pattern does not match the end of a line.\<close>

fun parseWorkstreamFlagValue :: "string list \<Rightarrow> string option" where
  "parseWorkstreamFlagValue [] = None"
| "parseWorkstreamFlagValue (arg # argv) =
     (if startsWith arg ''--workstream='' \<and> CHR 0x0A \<notin> set arg \<and> CHR 0x0D \<notin> set arg
      then (let v = trim (slice_from arg (length ''--workstream='')) in if v = [] then None else Some v)
      else parseWorkstreamFlagValue argv)"

datatype attach_status = AttachAttached | AttachNotFound | AttachFailure

definition attach_outcome :: "string \<Rightarrow> json result \<Rightarrow> attach_status \<times> string" where
  "attach_outcome identifier answer = (case answer of
     Inl e \<Rightarrow> (AttachFailure, ''Could not attach to workstream: '' @ e)
   | Inr ack \<Rightarrow>
       if ack_status ack = ''attached'' then (AttachAttached, ''Attached this session as a workstream agent.'')
       else if ack_status ack = ''not_found''
       then (AttachNotFound, ''Workstream '' @ quoted identifier @ '' was not found in the daemon.'')
       else (AttachFailure, ''Daemon rejected attach: '' @ ack_reason ack))"

definition attach_request :: "string \<Rightarrow> string \<Rightarrow> string \<Rightarrow> rpc_request" where
  "attach_request identifier repo worktreeLabel =
     AttachWorkstreamAgent identifier (Some repo) (Some worktreeLabel) (Some ''attached'') None"

definition attachToWorkstream :: "'w hub_client \<Rightarrow> string \<Rightarrow> string \<Rightarrow> string \<Rightarrow> ('w, attach_status \<times> string) hub_io" where
  "attachToWorkstream hb identifier repo worktreeLabel =
     io_bind (untraced (hb_connected hb)) (\<lambda>connected.
     if \<not> connected then io_return (AttachFailure, ''basecamp hub is not connected; could not attach.'')
     else io_bind (io_try (hub_call hb (attach_request identifier repo worktreeLabel))) (\<lambda>answer.
       io_return (attach_outcome identifier answer)))"

definition attach_note :: "string \<Rightarrow> attach_status \<times> string \<Rightarrow> string" where
  "attach_note identifier outcome = [CHR 0x0A, CHR 0x0A] @ (case outcome of
     (AttachAttached, _) \<Rightarrow> ''This session is attached to the workstream as a workstream agent.''
   | (AttachNotFound, _) \<Rightarrow> ''Note: the daemon did not find workstream '' @ quoted identifier
       @ '' for attach; the brief is still provided. Copilot may not be able to route to this session automatically.''
   | (AttachFailure, message) \<Rightarrow> ''Note: attach to the daemon failed ('' @ message
       @ ''); the brief is still provided. Copilot may not be able to route to this session automatically.'')"

definition tell_attach :: "attach_status \<times> string \<Rightarrow> ('w, unit) start_io" where
  "tell_attach outcome = (if fst outcome = AttachAttached then io_return () else say (snd outcome) ''warning'')"

text \<open>The workstream the session is for, and whether it was read from the worktree.\<close>

definition start_identifier :: "string option \<Rightarrow> string \<Rightarrow> (string \<times> bool) option" where
  "start_identifier flagValue worktreeLabel = (case flagValue of
     Some v \<Rightarrow> if trim v \<noteq> [] then Some (trim v, False)
       else map_option (\<lambda>slug. (slug, True)) (inferSlugFromWorktreeLabel worktreeLabel)
   | None \<Rightarrow> map_option (\<lambda>slug. (slug, True)) (inferSlugFromWorktreeLabel worktreeLabel))"

definition start_found ::
  "'w hub_client \<Rightarrow> repo_context \<Rightarrow> session_worktree \<Rightarrow> string \<Rightarrow> ws_detail \<Rightarrow> ('w, unit) start_io" where
  "start_found hb repo w identifier d =
     io_bind (in_start (attachToWorkstream hb identifier (rp_name repo) (wt_label w))) (\<lambda>outcome.
     io_bind (tell_attach outcome) (\<lambda>_.
     sendUserMessage (buildStartBrief d w @ attach_note identifier outcome)))"

definition start_in ::
  "'w hub_client \<Rightarrow> repo_context \<Rightarrow> session_worktree \<Rightarrow> string option \<Rightarrow> ('w, unit) start_io" where
  "start_in hb repo w flagValue = (case start_identifier flagValue (wt_label w) of
     None \<Rightarrow> say (''Worktree '' @ quoted (wt_label w)
       @ '' is not a copilot/<slug> worktree; pass --workstream=<slug|id> to specify the workstream.'') ''error''
   | Some (identifier, inferred) \<Rightarrow>
       io_bind (io_try (in_start (getWorkstream hb identifier))) (\<lambda>detail. case detail of
         Inl e \<Rightarrow> say (''Could not resolve workstream '' @ quoted identifier
           @ (if inferred then '' from worktree label'' else []) @ '': '' @ e) ''error''
       | Inr None \<Rightarrow> say (''No workstream found for '' @ quoted identifier @ ''. Use list_workstreams to confirm the id or slug.'') ''error''
       | Inr (Some d) \<Rightarrow> start_found hb repo w identifier d))"

definition startWorkstream :: "'w hub_client \<Rightarrow> workspace_state option \<Rightarrow> string option \<Rightarrow> ('w, unit) start_io" where
  "startWorkstream hb st flagValue = (case Option.bind st ws_repo of
     None \<Rightarrow> say ''Cannot start a workstream because this session is not in a repository workspace.'' ''error''
   | Some repo \<Rightarrow>
       if \<not> rp_isRepo repo then say ''Cannot start a workstream because this session is not in a repository workspace.'' ''error''
       else (case Option.bind st ws_activeWorktree of
         None \<Rightarrow> say ''Run `pi --workstream` from inside the workstream worktree Herdr set up; this session is not in a worktree.'' ''error''
       | Some w \<Rightarrow>
           if wt_label w = [] then say ''Run `pi --workstream` from inside the workstream worktree Herdr set up; this session is not in a worktree.'' ''error''
           else start_in hb repo w flagValue))"

text \<open>\<open>enter\<close> sets the mode of the session to planning.\<close>

definition enterExploreMode :: "('w, unit) io \<Rightarrow> ('w, unit) start_io" where
  "enterExploreMode enter = io_catch (untraced enter)
     (\<lambda>e. say (''basecamp: could not enter Explore mode for workstream - '' @ e) ''warning'')"

record start_input =
  si_argv :: "string list"
  si_flag :: bool
  si_current :: "workspace_state option"
  si_changes :: "workspace_state option list"
  si_at_timeout :: "workspace_state option"

text \<open>The handler of \<open>session_start\<close>, over the entries of the session.\<close>

definition workstream_session_start :: "'w hub_client \<Rightarrow> ('w, unit) io \<Rightarrow> start_input \<Rightarrow> json list \<Rightarrow> ('w, unit) start_io" where
  "workstream_session_start hb enter i entries =
     (if \<not> si_flag i then io_return ()
      else if isCopilotLaunch (si_argv i)
      then say ''copilot takes precedence; --workstream is ignored for this session.'' ''warning''
      else if sessionHasPriorTurns entries then io_return ()
      else io_bind (enterExploreMode enter) (\<lambda>_.
        startWorkstream hb (waitForWorkspaceState (si_current i) (si_changes i) (si_at_timeout i))
          (parseWorkstreamFlagValue (si_argv i))))"

section \<open>A session\<close>

text \<open>
  The entries of a session only grow; a message sent is recorded by the host as \<open>recorded\<close> says. Between the
  starts of the session (new, resume, reload, fork, compaction) others are added.
\<close>

definition sent_messages :: "start_event list \<Rightarrow> string list" where
  "sent_messages l = List.map_filter (\<lambda>e. case e of Sent m \<Rightarrow> Some m | _ \<Rightarrow> None) l"

datatype session_step = SessionStart start_input | EntryAdded json

fun run_step ::
  "'w hub_client \<Rightarrow> ('w, unit) io \<Rightarrow> (string \<Rightarrow> json) \<Rightarrow> json list \<times> ('w, start_event) tworld \<Rightarrow> session_step
   \<Rightarrow> json list \<times> ('w, start_event) tworld" where
  "run_step hb enter recorded (entries, t) (EntryAdded e) = (entries @ [e], t)"
| "run_step hb enter recorded (entries, t) (SessionStart i) =
     (case workstream_session_start hb enter i entries t of (r, t') \<Rightarrow>
        (entries @ map recorded (sent_messages (drop (length (tw_log t)) (tw_log t'))), t'))"

definition run_session ::
  "'w hub_client \<Rightarrow> ('w, unit) io \<Rightarrow> (string \<Rightarrow> json) \<Rightarrow> session_step list \<Rightarrow> 'w \<Rightarrow> json list \<times> ('w, start_event) tworld" where
  "run_session hb enter recorded steps w = foldl (run_step hb enter recorded) ([], \<lparr>tw_host = w, tw_log = []\<rparr>) steps"

section \<open>What a brief says is so\<close>

definition attached_in :: "start_event list \<Rightarrow> string \<Rightarrow> attach_status \<times> string \<Rightarrow> bool" where
  "attached_in l identifier outcome \<longleftrightarrow> (case fst outcome of
     AttachAttached \<Rightarrow> (\<exists>repo label ack. Hub (Called (attach_request identifier repo label) (Inr ack)) \<in> set l \<and> ack_status ack = ''attached'')
   | _ \<Rightarrow> True)"

definition brief_true :: "start_event list \<Rightarrow> string \<Rightarrow> bool" where
  "brief_true l m \<longleftrightarrow> (\<exists>identifier j d w outcome. m = buildStartBrief d w @ attach_note identifier outcome
     \<and> Hub (Looked (WorkstreamPath identifier) (Inr j)) \<in> set l \<and> parseWorkstreamDetailResponse j = Some d
     \<and> attached_in l identifier outcome)"

definition briefing :: "start_event list \<Rightarrow> bool" where
  "briefing s \<longleftrightarrow> length (sent_messages s) \<le> 1 \<and> list_all (brief_true s) (sent_messages s)"

lemma brief_true_mono: "brief_true l m \<Longrightarrow> set l \<subseteq> set l' \<Longrightarrow> brief_true l' m"
  unfolding brief_true_def attached_in_def by (auto split: attach_status.splits) blast+

lemma sent_simps [simp]:
  "sent_messages [] = []" "sent_messages (Sent m # l) = m # sent_messages l"
  "sent_messages (Told m lev # l) = sent_messages l" "sent_messages (Hub e # l) = sent_messages l"
  "sent_messages (map Hub hs) = []" "sent_messages (a @ b) = sent_messages a @ sent_messages b"
  by (simp_all add: sent_messages_def map_filter_def)

text \<open>Every run of a program adds a briefing to the trace.\<close>

definition briefs :: "('w, 'a) start_io \<Rightarrow> bool" where
  "briefs m \<longleftrightarrow> (\<forall>t. \<exists>s. tw_log (snd (m t)) = tw_log t @ s \<and> briefing s)"

lemma briefs_say: "briefs (say m lev)"
  by (auto simp: briefs_def say_def io_simps briefing_def intro: exI [of _ "[_]"])

lemma briefs_return: "briefs (io_return x)"
  by (simp add: briefs_def io_simps briefing_def)

text \<open>What happened before a briefing and sent nothing is part of it.\<close>

lemma briefing_after: "sent_messages a = [] \<Longrightarrow> briefing b \<Longrightarrow> briefing (a @ b)"
  by (auto simp: briefing_def list_all_iff intro: brief_true_mono)

lemma attach_run:
  obtains r t' hs where "in_start (attachToWorkstream hb identifier repo label) t = (r, t')" "tw_log t' = tw_log t @ map Hub hs"
    "\<And>outcome. r = Inr outcome \<Longrightarrow> attached_in (map Hub hs) identifier outcome"
proof -
  obtain c w where c: "hb_connected hb (tw_host t) = (c, w)" by fastforce
  obtain a w' where a: "hb_call hb (attach_request identifier repo label) w = (a, w')" by fastforce
  let ?run = "in_start (attachToWorkstream hb identifier repo label) t"
  show ?thesis
  proof (cases "c = Inr True")
    case True
    have "?run = (Inr (attach_outcome identifier a), \<lparr>tw_host = w', tw_log = tw_log t @ map Hub [Called (attach_request identifier repo label) a]\<rparr>)"
      unfolding in_start_def attachToWorkstream_def hub_call_def using True c a by (cases a) (simp_all add: io_simps io_try_def)
    moreover have "attached_in (map Hub [Called (attach_request identifier repo label) a]) identifier (attach_outcome identifier a)"
      by (auto simp: attached_in_def attach_outcome_def split: sum.splits)
    ultimately show ?thesis by (intro that [of _ _ "[Called (attach_request identifier repo label) a]"]) auto
  next
    case False
    then have run: "?run = (case c of Inl e \<Rightarrow> Inl e | Inr _ \<Rightarrow> Inr (AttachFailure, ''basecamp hub is not connected; could not attach.''),
        \<lparr>tw_host = w, tw_log = tw_log t @ map Hub []\<rparr>)"
      unfolding in_start_def attachToWorkstream_def using c by (cases c) (auto simp: io_simps)
    have "attached_in [] identifier (AttachFailure, m)" for m by (simp add: attached_in_def)
    then show ?thesis by (intro that [OF run, of "[]"]) (auto split: sum.splits)
  qed
qed

lemma found_run:
  assumes "Hub (Looked (WorkstreamPath identifier) (Inr j)) \<in> set l" "parseWorkstreamDetailResponse j = Some d"
  shows "\<exists>s. tw_log (snd (start_found hb repo w identifier d t)) = tw_log t @ s
     \<and> length (sent_messages s) \<le> 1 \<and> list_all (brief_true (l @ s)) (sent_messages s)"
proof -
  obtain r t' hs where run: "in_start (attachToWorkstream hb identifier (rp_name repo) (wt_label w)) t = (r, t')"
    "tw_log t' = tw_log t @ map Hub hs" "\<And>outcome. r = Inr outcome \<Longrightarrow> attached_in (map Hub hs) identifier outcome"
    by (rule attach_run) blast
  show ?thesis
  proof (cases r)
    case (Inl e)
    then show ?thesis using run(1,2) by (auto simp: start_found_def io_simps intro!: exI [of _ "map Hub hs"])
  next
    case (Inr outcome)
    let ?m = "buildStartBrief d w @ attach_note identifier outcome"
    obtain told where told: "tw_log (snd (start_found hb repo w identifier d t)) = tw_log t @ map Hub hs @ told @ [Sent ?m]"
      "sent_messages told = []"
    proof (cases "fst outcome = AttachAttached")
      case True
      with run Inr show ?thesis by (intro that [of "[]"]) (simp_all add: start_found_def tell_attach_def sendUserMessage_def io_simps)
    next
      case False
      with run Inr show ?thesis
        by (intro that [of "[Told (snd outcome) ''warning'']"]) (simp_all add: start_found_def tell_attach_def say_def sendUserMessage_def io_simps)
    qed
    have "attached_in (l @ map Hub hs @ told @ [Sent ?m]) identifier outcome"
      using run(3) [OF Inr] by (auto simp: attached_in_def split: attach_status.splits)
    then have "brief_true (l @ map Hub hs @ told @ [Sent ?m]) ?m"
      using assms unfolding brief_true_def by (metis Un_iff set_append)
    then show ?thesis using told by (intro exI [of _ "map Hub hs @ told @ [Sent ?m]"]) simp
  qed
qed

lemma briefs_start_in: "briefs (start_in hb repo w flagValue)"
  unfolding briefs_def
proof
  fix t
  show "\<exists>s. tw_log (snd (start_in hb repo w flagValue t)) = tw_log t @ s \<and> briefing s"
  proof (cases "start_identifier flagValue (wt_label w)")
    case None
    then show ?thesis
      unfolding start_in_def by (simp only: option.case) (rule briefs_say [unfolded briefs_def, rule_format])
  next
    case (Some q)
    obtain ident inferred where q: "q = (ident, inferred)" by fastforce
    obtain looked w' where g: "hb_get hb (WorkstreamPath ident) (tw_host t) = (looked, w')" by fastforce
    let ?seen = "[Hub (Looked (WorkstreamPath ident) looked)]"
    let ?t = "\<lparr>tw_host = w', tw_log = tw_log t @ ?seen\<rparr>"
    have lookup: "io_try (in_start (getWorkstream hb ident)) t
        = (Inr (map_sum id parseWorkstreamDetailResponse looked), ?t)"
      using g by (cases looked) (simp_all add: in_start_def getWorkstream_def hub_get_def io_simps io_try_def)
    consider e where "looked = Inl e" | j where "looked = Inr j" "parseWorkstreamDetailResponse j = None"
      | j d where "looked = Inr j" "parseWorkstreamDetailResponse j = Some d"
      by (cases looked) auto
    then show ?thesis
    proof cases
      case 3
      have "start_in hb repo w flagValue t = start_found hb repo w ident d ?t"
        using lookup 3 Some q by (simp add: start_in_def io_simps)
      moreover obtain s where s: "tw_log (snd (start_found hb repo w ident d ?t)) = tw_log ?t @ s"
        "length (sent_messages s) \<le> 1" "list_all (brief_true (?seen @ s)) (sent_messages s)"
        using found_run [of ident j ?seen d hb repo w ?t] 3 by auto
      ultimately show ?thesis by (intro exI [of _ "?seen @ s"]) (simp add: briefing_def)
    qed (use lookup Some q in \<open>auto simp: start_in_def io_simps say_def briefing_def intro!: exI [of _ "[_, _]"]\<close>)
  qed
qed

lemma briefs_startWorkstream: "briefs (startWorkstream hb st flagValue)"
  unfolding startWorkstream_def by (auto intro: briefs_say briefs_start_in split: option.split)

lemma enter_run: "\<exists>s. tw_log (snd (enterExploreMode enter t)) = tw_log t @ s \<and> sent_messages s = [] \<and> (\<exists>u. fst (enterExploreMode enter t) = Inr u)"
  by (cases "enter (tw_host t)"; cases "fst (enter (tw_host t))")
     (auto simp: enterExploreMode_def io_simps say_def intro: exI [of _ "[_]"])

lemma briefs_session_start: "briefs (workstream_session_start hb enter i entries)"
proof -
  have "briefs (io_bind (enterExploreMode enter) (\<lambda>_. startWorkstream hb st f))" for st f
    unfolding briefs_def
  proof
    fix t
    obtain s where s: "tw_log (snd (enterExploreMode enter t)) = tw_log t @ s" "sent_messages s = []"
      "\<exists>u. fst (enterExploreMode enter t) = Inr u" using enter_run by blast
    obtain s' where s': "tw_log (snd (startWorkstream hb st f (snd (enterExploreMode enter t)))) = tw_log (snd (enterExploreMode enter t)) @ s'"
      "briefing s'" using briefs_startWorkstream unfolding briefs_def by blast
    show "\<exists>s. tw_log (snd (io_bind (enterExploreMode enter) (\<lambda>_. startWorkstream hb st f) t)) = tw_log t @ s \<and> briefing s"
      using s s' briefing_after [OF s(2) s'(2)]
      by (intro exI [of _ "s @ s'"]) (cases "enterExploreMode enter t", auto simp: io_simps)
  qed
  then show ?thesis
    unfolding workstream_session_start_def by (auto intro: briefs_return briefs_say)
qed

lemma no_second_brief:
  "sessionHasPriorTurns entries \<Longrightarrow> \<exists>s. tw_log (snd (workstream_session_start hb enter i entries t)) = tw_log t @ s \<and> sent_messages s = []"
  by (auto simp: workstream_session_start_def io_simps say_def intro: exI [of _ "[_]"])

definition briefed_once :: "json list \<times> ('w, start_event) tworld \<Rightarrow> bool" where
  "briefed_once q \<longleftrightarrow> (case q of (entries, t) \<Rightarrow> briefing (tw_log t) \<and> (sent_messages (tw_log t) = [] \<or> sessionHasPriorTurns entries))"

lemma briefed_once_step:
  assumes "\<forall>m. is_turn (recorded m)" "briefed_once q"
  shows "briefed_once (run_step hb enter recorded q st)"
proof (cases st)
  case (EntryAdded e)
  with assms show ?thesis by (cases q) (auto simp: briefed_once_def sessionHasPriorTurns_def)
next
  case (SessionStart i)
  obtain entries t where q: "q = (entries, t)" by fastforce
  let ?run = "workstream_session_start hb enter i entries t"
  show ?thesis
  proof (cases "sessionHasPriorTurns entries")
    case True
    then obtain s where s: "tw_log (snd ?run) = tw_log t @ s" "sent_messages s = []" using no_second_brief by blast
    moreover have "briefing (tw_log t @ s)"
      using assms(2) s(2) by (auto simp: briefed_once_def q briefing_def list_all_iff intro: brief_true_mono)
    ultimately show ?thesis using True SessionStart q by (cases ?run) (simp add: briefed_once_def)
  next
    case False
    then have none: "sent_messages (tw_log t) = []" using assms(2) by (auto simp: briefed_once_def q)
    obtain s where s: "tw_log (snd ?run) = tw_log t @ s" "briefing s" using briefs_session_start unfolding briefs_def by blast
    have "briefing (tw_log t @ s)" by (rule briefing_after [OF none s(2)])
    moreover have "sent_messages s = [] \<or> sessionHasPriorTurns (entries @ map recorded (sent_messages s))"
      using assms(1) by (cases "sent_messages s") (auto simp: sessionHasPriorTurns_def)
    ultimately show ?thesis using s(1) none SessionStart q by (cases ?run) (auto simp: briefed_once_def)
  qed
qed

text \<open>
  C21. A session is briefed once, and truly. Where the host records a message sent as a user turn, over any sequence of
  starts of one session (new, resumed, reloaded, compacted) and of entries added between them, at most one
  brief is sent; it is the brief of a workstream the hub returned for the looked-up id, and it says that
  the session is attached only if the hub answered attached to the request for that workstream.
\<close>

theorem workstream_brief_sent_once:
  assumes "\<forall>m. is_turn (recorded m)"
  shows "length (sent_messages (tw_log (snd (run_session hb enter recorded steps w)))) \<le> 1
    \<and> list_all (brief_true (tw_log (snd (run_session hb enter recorded steps w))))
        (sent_messages (tw_log (snd (run_session hb enter recorded steps w))))"
proof -
  have "briefed_once q \<Longrightarrow> briefed_once (foldl (run_step hb enter recorded) q steps)" for q
  proof (induction steps arbitrary: q)
    case (Cons st steps)
    then show ?case using briefed_once_step [OF assms] by simp blast
  qed simp
  moreover have "briefed_once ([], \<lparr>tw_host = w, tw_log = []\<rparr>)" by (simp add: briefed_once_def briefing_def)
  ultimately have "briefed_once (run_session hb enter recorded steps w)" unfolding run_session_def by blast
  then show ?thesis by (auto simp: briefed_once_def briefing_def split: prod.splits)
qed

definition sample_recorded :: "string \<Rightarrow> json" where
  "sample_recorded m = JObj [(''type'', JStr ''message''), (''message'', JObj [(''role'', JStr ''user''), (''content'', JStr m)])]"

definition sample_workspace :: workspace_state where
  "sample_workspace = \<lparr>ws_launchCwd = ''/w/copilot/a'', ws_effectiveCwd = ''/w/copilot/a'', ws_scratchDir = ''/tmp/pi/app'',
     ws_repo = Some \<lparr>rp_isRepo = True, rp_name = ''app'', rp_root = ''/app'', rp_remoteUrl = None\<rparr>, ws_protectedRoot = Some ''/app'',
     ws_activeWorktree = Some \<lparr>wt_kind = ''git-worktree'', wt_label = ''copilot/a'', wt_path = ''/w/copilot/a'',
       wt_branch = None, wt_created = False\<rparr>, ws_unsafeEdit = False\<rparr>"

definition sample_start :: start_input where
  "sample_start = \<lparr>si_argv = [''node'', ''pi'', ''--workstream''], si_flag = True, si_current = None,
     si_changes = [None, Some sample_workspace], si_at_timeout = None\<rparr>"

text \<open>A session that is started, resumed after a turn, and started again.\<close>

definition sample_session :: "json list \<times> (nat, start_event) tworld" where
  "sample_session = run_session (sample_hub (\<lambda>n. JObj [(''status'', JStr ''attached'')]) (Some sample_found)) (io_return ())
     sample_recorded [SessionStart sample_start, EntryAdded (JObj []), SessionStart sample_start] 0"

lemma sample_session_sends: "length (sent_messages (tw_log (snd sample_session))) = 1"
  by code_simp

theorem workstream_brief_sent_once_witness:
  "length (sent_messages (tw_log (snd sample_session))) = 1
   \<and> list_all (brief_true (tw_log (snd sample_session))) (sent_messages (tw_log (snd sample_session)))"
proof -
  have "\<forall>m. is_turn (sample_recorded m)" by (simp add: is_turn_def sample_recorded_def)
  from workstream_brief_sent_once [OF this, THEN conjunct2] show ?thesis
    by (intro conjI sample_session_sends) (unfold sample_session_def)
qed

end
