(* ===== verification/Spec2Isabelle.thy ===== *)
theory Spec2Isabelle
  imports TaskInvariant AgentMode BashReview OmpFileLength WorktreeTarget Sweep Migrate
    WorkspaceGuards AgentWorkspace DiffSidecar DiffJournal HubSpawn HubLock HubSession
    AgentDispatch PeerDelivery Reporter PlanTool WorkstreamLaunch WorkstreamStart
begin

text \<open>
  A verification library for basecamp, a project-aware extension of the Pi coding agent. It
  models the TypeScript sources under \<open>src/pi\<close> and \<open>src/omp\<close>.

  \<^bold>\<open>How the program is put together.\<close> The extension registers handlers with the agent host (Pi):
  session events, tool-call hooks, commands and tools. A session keeps a state document on disk
  (\<open>pi/core/session/state\<close>), works on a goal with tasks (\<open>pi/tasks\<close>), runs in a workspace that may
  be a git worktree (\<open>pi/core/project/workspace\<close>, \<open>pi/core/git\<close>), has each shell command reviewed
  before it runs (\<open>pi/bash-reviewer\<close>), and dispatches other agents into workspaces of their own
  (\<open>pi/core/swarm\<close>). git, the file system, the model service and the host are outside the sources:
  they are parameters of the definitions.

  \<^bold>\<open>The model.\<close> Strings are character lists; the sources' UTF-16 strings are covered as far as they
  use the first 256 code units. Records, tagged unions and maps are HOL records, datatypes and
  association lists in order of insertion (\<open>set_key\<close> keeps the place of a key that is there, as
  a JavaScript object or \<open>Map\<close> does). Code that fails returns a sum, \<open>Inl\<close> the error. Code that
  calls git or the file system is a function on a world with a trace: \<open>platform\<close> (\<open>Platform\<close>) is the
  record of the external operations, arbitrary functions on an arbitrary type of host states, and
  \<open>tworld\<close> (\<open>Host\<close>) a host state with the list of the commands and writes run so far with their
  answers. The trace is a ghost: no definition reads it. Safety of a program is a property of
  its trace for every platform: \<open>stable I m\<close> says \<open>m\<close> keeps \<open>I\<close> of the trace, on every path, errors
  included, and \<open>guarded D ok l\<close> that each command of the kind \<open>D\<close> in the trace \<open>l\<close> ran when the
  trace before it gave the grounds \<open>ok\<close>. An \<open>await\<close> is a sequence point: handlers of the same
  session run one after the other, as the host awaits each of them, while other processes may
  change the host between any two calls, since a platform's answers are arbitrary.

  \<^bold>\<open>Theories.\<close>
  \<^item> \<open>Prelude\<close>: string operations of JavaScript (\<open>trim\<close>, \<open>split\<close>, \<open>join\<close>, \<open>startsWith\<close>, \<open>slice\<close>,
    lower case), association lists, the state-and-error monad \<open>io\<close> with its Hoare triples, which
    cover the error exit as well as the normal one.
  \<^item> \<open>Json\<close>: JSON values as read from a file, \<open>isRecord\<close>, field access. \<open>JsDate\<close>: the ISO time stamps the
    session state and the leases write, with the calendar conversion both ways.
  \<^item> \<open>SessionState\<close> (\<open>pi/core/session/state\<close>): the document, its validation, file names, load and
    save over a file map, the first line of a session file read in blocks, inheritance at a fork.
    A saved document loads back as it was; a document of another session is never loaded.
  \<^item> \<open>AgentMode\<close> (\<open>pi/core/agent-mode\<close>): the live mode, cycling and the copilot lock.
  \<^item> \<open>Tasks\<close>, \<open>TaskTools\<close>, \<open>TaskInvariant\<close> (\<open>pi/tasks\<close>): the goal cycle and its tasks, the six tools,
    persistence, the guards, the widget's window; every tool keeps the invariant of the task
    session, a restart restores it, and the archive only grows.
  \<^item> \<open>PlanDraft\<close>, \<open>PlanReview\<close>, \<open>PlanHandoff\<close>, \<open>PlanTool\<close> (\<open>pi/tasks/workflows\<close>, \<open>tools/plan-tool.ts\<close>): the
    draft of a plan, its review as steps on the keys of the user, the choice and activation of a worktree,
    the prompt that starts the work, and the tool that composes them with the tasks, the mode and the
    workspace. A goal cycle starts only with content the user approved item by item, four escapes
    leave a review from anywhere, the prompt is sent once, and a handoff that reports a worktree has activated it.
  \<^item> \<open>FastPath\<close>, \<open>BashReview\<close> (\<open>pi/bash-reviewer\<close>): the parser of commands that need no review, the
    verdict, the fail-safe, the audit log, the hook. A command on the fast path is one of the listed
    read-only commands with no shell syntax; the hook lets a command run only on grounds that
    are stated in full; each review leaves one audit record.
  \<^item> \<open>Models\<close> (\<open>pi/core/model\<close>): alias sections and the resolution of a model reference.
  \<^item> \<open>Host\<close>, \<open>HostConfig\<close>, \<open>NodePath\<close> (\<open>pi/core/host\<close>): environment, command requests, shell quoting,
    the configuration file, POSIX paths on segments and \<open>isWithin\<close>.
  \<^item> \<open>FileLength\<close>, \<open>OmpFileLength\<close> (\<open>engineering/file-length.ts\<close> of both ports): the reminder about
    long files; the two ports remind on the same events.
  \<^item> \<open>Repo\<close>, \<open>Worktrees\<close>, \<open>WorktreeTarget\<close>, \<open>Lease\<close>, \<open>Sweep\<close>, \<open>Migrate\<close> (\<open>pi/core/git\<close>): repository queries and
    identity, the worktree listing and labels, names for new worktrees, locks and leases,
    removal of a session's own worktree, the sweep of abandoned ones, the move out of the old
    layout. The theorems state which commands that destroy something may run, and on what grounds.
  \<^item> \<open>Workspace\<close>, \<open>WorkspaceGuards\<close> (\<open>pi/core/project/workspace\<close>): workspace state, write scope, unsafe
    edits, the dirty reminder, the guards on tool calls.
  \<^item> \<open>WorkspaceRuntime\<close>, \<open>WorktreeCommand\<close> (\<open>runtime.ts\<close>, \<open>session.ts\<close>, \<open>command.ts\<close>, \<open>prune.ts\<close>): the
    service that holds the workspace of a session, its start and shutdown, and the command on
    worktrees, as programs on the host and the service. A start destroys only what the
    migration planned and the sweep found cold and clean, a subagent's start nothing; the environment
    shows the workspace at every moment; pruning removes nothing the user did not agree to.
  \<^item> \<open>AgentWorkspace\<close> (\<open>pi/core/swarm/agents/agent-workspace.ts\<close>): worktree and branch of a dispatched run.
  \<^item> \<open>Workstreams\<close>, \<open>WorkstreamLaunch\<close>, \<open>WorkstreamStart\<close> (\<open>pi/workstreams\<close>): records of work that outlive a session.
    The tools that create, edit, list and close one in the hub, whose parameters are of their types; the
    launch that gives it a worktree under a staged lock and a pane of the terminal, which protects and
    reports every worktree it creates; the session started on it, which is briefed once.
  \<^item> \<open>DiffSidecar\<close> (\<open>pi/diff\<close>): the annotation file of a diff review, its merge and its two tools; the file
    refines a map from files to annotations by identity.
  \<^item> \<open>DiffPatch\<close>, \<open>DiffJournal\<close> (\<open>omp/diff\<close>): reading a patch into files and hunks, which inverts printing
    one; the journal of annotations and which of them reach a review.
  \<^item> \<open>HubConnect\<close>, \<open>HubProcess\<close>, \<open>HubSpawn\<close>, \<open>HubLock\<close> (\<open>pi/core/hub\<close>): frames and the connection to the hub
    daemon, waiting for a frame, stopping and starting the daemon, and the spawn lock between
    processes. A start ends, starts at most one daemon, and signals nothing but the hub.
  \<^item> \<open>HubSession\<close> (\<open>pi/core/hub/index.ts\<close>, \<open>state.ts\<close>): the connection through the starts and shutdowns of
    sessions, as a step function on events: attempts of stale generations, the tracked connection,
    the metadata wiring, the listeners' cleanups. Every connection is the tracked one or closed.
  \<^item> \<open>AgentLaunch\<close>, \<open>AgentRpc\<close>, \<open>AgentDispatch\<close> (\<open>pi/core/swarm/agents\<close>): the launch of an agent (persona,
    model, environment, tools, arguments), the requests to the hub with the tools around them, and
    dispatching and asking with retries. A child's reviewer is off only when its parent's is,
    a run without a workspace of its own cannot edit, concurrent requests get their own replies, and
    a workspace is discarded exactly when no run can own it.

  \<^item> \<open>RunResult\<close>, \<open>Reporter\<close> (\<open>run-result.ts\<close>, \<open>event-summaries.ts\<close>, \<open>reporter.ts\<close>): the file that holds the
    result of each attempt of a run, which refines a map from attempts to results, and the events
    a run reports to the hub: the output it reports is the text of the message.
  \<^item> \<open>Naming\<close> (\<open>pi/core/naming\<close>, \<open>handles.ts\<close>): word banks and generated names, whose words are
    distinct and safe in a branch name or a path.
  \<^item> \<open>HubIdentity\<close>, \<open>PeerDelivery\<close> (\<open>identity.ts\<close>, \<open>metadata.ts\<close>, \<open>delivery.ts\<close>, \<open>surfaces.ts\<close>): who a session
    is to the hub, the publisher that sends each change of its metadata once, and peer messages, of
    which each is delivered once over the connections of a session.

  \<^bold>\<open>Interfaces.\<close> The two kinds of worktree lock (a session's lease and a staged lock) share the
  locale \<open>lock_kind\<close> of \<open>Lease\<close>, interpreted on both. The other locales are introduced and
  interpreted in the theory of the component that provides them.

  \<^bold>\<open>Bounds and fuel.\<close> Loops of the sources are structural recursions, except the block-wise read of
  a session file's first line, whose measure is the number of bytes left, and the two
  waits of \<open>ensureDaemon\<close> (for the lock and for the daemon's answer), which end by the clock and take
  fuel; \<open>ensure_always_ends\<close> shows that for every start on a clock that moves some fuel is enough.

  \<^bold>\<open>Not modelled.\<close> Text drawn on screen, prompts, the hub daemon itself (another language),
  the diff viewer and the code-review navigators; the list of components of
  the manifest names each with its reason.
\<close>

end
